(* ===== verification/Prelude.thy ===== *)
theory Prelude
  imports Main "HOL-Library.Word"
begin

text \<open>
  Shared vocabulary of the development. Rust values and control flow are rendered as follows.

  \<^item> \<^verbatim>\<open>Result<T, E>\<close> is the sum type \<open>'e fault + 'a\<close>: \<open>Inl (Err e)\<close> is \<open>Err(e)\<close>, \<open>Inl Panic\<close> is a
    Rust panic (an out-of-range index, a failed \<^verbatim>\<open>copy_from_slice\<close>), \<open>Inl Diverge\<close> is a loop that has
    used up the iterations the model allows it, \<open>Inr x\<close> is \<open>Ok(x)\<close>.
  \<^item> The question-mark operator is \<open>rbind\<close>; \<^verbatim>\<open>ensure!\<close> is \<open>rensure\<close>; \<^verbatim>\<open>ok_or\<close> is \<open>ok_or\<close>.
  \<^item> Code that reads and writes the storage of a pallet is a function from the storage to a result
    that carries the new storage. An error carries none: every dispatchable is transactional, so
    an error restores the storage the call started from. \<open>sbind\<close> is its question-mark operator.
  \<^item> Integers on the wire are words of their width. Counters, heights and balances are natural
    numbers on which each checked, saturating or wrapping operation of the source is written out
    with its width.
\<close>

named_theorems codec_simps \<open>encoding and decoding equations of the Bitcoin wire format\<close>
named_theorems run_elims \<open>elimination of successful runs\<close>
named_theorems result_simps \<open>evaluation rules of the result and storage monads\<close>

subsection \<open>Results\<close>

datatype 'e fault = Err 'e | Panic | Diverge

type_synonym ('e, 'a) result = "'e fault + 'a"

definition rbind :: "'e + 'a \<Rightarrow> ('a \<Rightarrow> 'e + 'b) \<Rightarrow> 'e + 'b" where
  "rbind m f = (case m of Inl e \<Rightarrow> Inl e | Inr x \<Rightarrow> f x)"

definition rensure :: "bool \<Rightarrow> 'e \<Rightarrow> ('e, unit) result" where
  "rensure b e = (if b then Inr () else Inl (Err e))"

definition ok_or :: "'a option \<Rightarrow> 'e \<Rightarrow> ('e, 'a) result" where
  "ok_or m e = (case m of None \<Rightarrow> Inl (Err e) | Some x \<Rightarrow> Inr x)"

fun map_err :: "('e \<Rightarrow> 'f) \<Rightarrow> ('e, 'a) result \<Rightarrow> ('f, 'a) result" where
  "map_err f (Inl (Err e)) = Inl (Err (f e))"
| "map_err f (Inl Panic) = Inl Panic"
| "map_err f (Inl Diverge) = Inl Diverge"
| "map_err f (Inr x) = Inr x"

definition is_ok :: "'e + 'a \<Rightarrow> bool" where
  "is_ok m = (case m of Inl _ \<Rightarrow> False | Inr _ \<Rightarrow> True)"

lemma rbind_simps [simp, result_simps]:
  "rbind (Inl e) f = Inl e"
  "rbind (Inr x) f = f x"
  by (simp_all add: rbind_def)

lemma rbind_Inr [simp]: "rbind m Inr = m"
  by (cases m) auto

lemma rbind_Inr_iff: "rbind m f = Inr y \<longleftrightarrow> (\<exists>x. m = Inr x \<and> f x = Inr y)"
  by (cases m) auto

lemma rbind_assoc: "rbind (rbind m f) g = rbind m (\<lambda>x. rbind (f x) g)"
  by (cases m) auto

lemma rbind_cong [fundef_cong]:
  "m = m' \<Longrightarrow> (\<And>x. m' = Inr x \<Longrightarrow> f x = f' x) \<Longrightarrow> rbind m f = rbind m' f'"
  by (cases m') auto

lemma rbindE:
  assumes "rbind m f = Inr y"
  obtains x where "m = Inr x" and "f x = Inr y"
  using assms by (cases m) auto

lemma rensure_Inr [simp]: "rensure b e = Inr u \<longleftrightarrow> b"
  by (simp add: rensure_def)

lemma rensure_True [simp]: "rensure True e = Inr ()"
  by (simp add: rensure_def)

lemma rensure_False [simp]: "rensure False e = Inl (Err e)"
  by (simp add: rensure_def)

lemma ok_or_simps [simp]:
  "ok_or None e = Inl (Err e)"
  "ok_or (Some x) e = Inr x"
  by (simp_all add: ok_or_def)

lemma ok_or_Inr [simp]: "ok_or m e = Inr x \<longleftrightarrow> m = Some x"
  by (cases m) simp_all

lemma map_err_Inr [simp]: "map_err f m = Inr x \<longleftrightarrow> m = Inr x"
  by (cases "(f, m)" rule: map_err.cases) simp_all

lemma is_ok_simps [simp]:
  "is_ok (Inr x)"
  "\<not> is_ok (Inl e)"
  by (simp_all add: is_ok_def)

lemma is_ok_iff: "is_ok m \<longleftrightarrow> (\<exists>x. m = Inr x)"
  by (cases m) auto

subsection \<open>Computations over a storage\<close>

type_synonym ('s, 'e, 'a) action = "'s \<Rightarrow> ('e, 'a \<times> 's) result"

definition sret :: "'a \<Rightarrow> ('s, 'e, 'a) action" where
  "sret x = (\<lambda>s. Inr (x, s))"

definition sfail :: "'e \<Rightarrow> ('s, 'e, 'a) action" where
  "sfail e = (\<lambda>s. Inl (Err e))"

definition sbind :: "('s, 'e, 'a) action \<Rightarrow> ('a \<Rightarrow> ('s, 'e, 'b) action) \<Rightarrow> ('s, 'e, 'b) action" where
  "sbind m f = (\<lambda>s. rbind (m s) (\<lambda>(x, s'). f x s'))"

definition sget :: "('s \<Rightarrow> 'a) \<Rightarrow> ('s, 'e, 'a) action" where
  "sget f = (\<lambda>s. Inr (f s, s))"

definition smod :: "('s \<Rightarrow> 's) \<Rightarrow> ('s, 'e, unit) action" where
  "smod f = (\<lambda>s. Inr ((), f s))"

definition slift :: "('s \<Rightarrow> ('e, 'a) result) \<Rightarrow> ('s, 'e, 'a) action" where
  "slift f = (\<lambda>s. rbind (f s) (\<lambda>x. Inr (x, s)))"

definition sensure :: "('s \<Rightarrow> bool) \<Rightarrow> 'e \<Rightarrow> ('s, 'e, unit) action" where
  "sensure P e = (\<lambda>s. if P s then Inr ((), s) else Inl (Err e))"

lemma action_simps [simp, result_simps]:
  "sret x s = Inr (x, s)"
  "sfail e s = Inl (Err e)"
  "sget f s = Inr (f s, s)"
  "smod g s = Inr ((), g s)"
  "sbind m k s = rbind (m s) (\<lambda>(x, s'). k x s')"
  "slift h s = rbind (h s) (\<lambda>x. Inr (x, s))"
  "sensure P e s = (if P s then Inr ((), s) else Inl (Err e))"
  by (simp_all add: sret_def sfail_def sget_def smod_def sbind_def slift_def sensure_def)

text \<open>An action on a part of the storage, and a test that is itself a result.\<close>

definition szoom :: "('s \<Rightarrow> 't) \<Rightarrow> ('t \<Rightarrow> 's \<Rightarrow> 's) \<Rightarrow> ('t, 'e, 'a) action \<Rightarrow> ('s, 'e, 'a) action" where
  "szoom get put m = (\<lambda>s. rbind (m (get s)) (\<lambda>(x, t). Inr (x, put t s)))"

lemma szoom_simp [simp, result_simps]: "szoom get put m s = rbind (m (get s)) (\<lambda>(x, t). Inr (x, put t s))"
  by (simp add: szoom_def)

text \<open>A successful run of a composed action, taken apart one step at a time.\<close>

lemma run_sbind [run_elims]:
  "sbind m k s = Inr r \<Longrightarrow> (\<And>y s1. m s = Inr (y, s1) \<Longrightarrow> k y s1 = Inr r \<Longrightarrow> thesis) \<Longrightarrow> thesis"
  by (auto simp: rbind_Inr_iff)

lemma run_basic_iff:
  "slift h s = Inr (x, s') \<longleftrightarrow> h s = Inr x \<and> s' = s" "sget g s = Inr (x, s') \<longleftrightarrow> g s = x \<and> s' = s"
  "sensure P e s = Inr (u, s') \<longleftrightarrow> P s \<and> s' = s" "sret x s = Inr (y, s') \<longleftrightarrow> y = x \<and> s' = s"
  by (auto simp: rbind_Inr_iff)

lemma run_basic [run_elims]:
  "slift h s = Inr (x, s') \<Longrightarrow> (h s = Inr x \<Longrightarrow> s' = s \<Longrightarrow> thesis) \<Longrightarrow> thesis"
  "sget g s = Inr (x, s') \<Longrightarrow> (g s = x \<Longrightarrow> s' = s \<Longrightarrow> thesis) \<Longrightarrow> thesis"
  "sensure P e s = Inr (u, s') \<Longrightarrow> (P s \<Longrightarrow> s' = s \<Longrightarrow> thesis) \<Longrightarrow> thesis"
  "sret x s = Inr (y, s') \<Longrightarrow> (y = x \<Longrightarrow> s' = s \<Longrightarrow> thesis) \<Longrightarrow> thesis"
  unfolding run_basic_iff by (elim conjE; assumption | iprover)+

lemma run_pair [run_elims]: "(case p of (a, b) \<Rightarrow> f a b) s = Inr r \<Longrightarrow> (\<And>a b. p = (a, b) \<Longrightarrow> f a b s = Inr r \<Longrightarrow> thesis) \<Longrightarrow> thesis"
  by (cases p) simp

subsection \<open>Checked and saturating arithmetic on bounded unsigned integers\<close>

datatype arithmetic_error = Overflow | Underflow | DivisionByZero

definition checked_add_w :: "nat \<Rightarrow> nat \<Rightarrow> nat \<Rightarrow> nat option" where
  "checked_add_w w a b = (if a + b < 2 ^ w then Some (a + b) else None)"

definition checked_mul_w :: "nat \<Rightarrow> nat \<Rightarrow> nat \<Rightarrow> nat option" where
  "checked_mul_w w a b = (if a * b < 2 ^ w then Some (a * b) else None)"

definition checked_sub :: "nat \<Rightarrow> nat \<Rightarrow> nat option" where
  "checked_sub a b = (if b \<le> a then Some (a - b) else None)"

definition checked_div :: "nat \<Rightarrow> nat \<Rightarrow> nat option" where
  "checked_div a b = (if b = 0 then None else Some (a div b))"

definition saturating_add_w :: "nat \<Rightarrow> nat \<Rightarrow> nat \<Rightarrow> nat" where
  "saturating_add_w w a b = min (a + b) (2 ^ w - 1)"

definition saturating_mul_w :: "nat \<Rightarrow> nat \<Rightarrow> nat \<Rightarrow> nat" where
  "saturating_mul_w w a b = min (a * b) (2 ^ w - 1)"

text \<open>Saturating subtraction of unsigned integers is truncated subtraction on \<open>nat\<close>.\<close>

abbreviation (input) saturating_sub :: "nat \<Rightarrow> nat \<Rightarrow> nat" where
  "saturating_sub a b \<equiv> a - b"

lemma checked_add_w_Some [simp]: "checked_add_w w a b = Some c \<longleftrightarrow> c = a + b \<and> a + b < 2 ^ w"
  by (auto simp: checked_add_w_def)

lemma checked_mul_w_Some [simp]: "checked_mul_w w a b = Some c \<longleftrightarrow> c = a * b \<and> a * b < 2 ^ w"
  by (auto simp: checked_mul_w_def)

lemma checked_sub_Some [simp]: "checked_sub a b = Some c \<longleftrightarrow> b \<le> a \<and> c = a - b"
  by (auto simp: checked_sub_def)

lemma checked_div_Some [simp]: "checked_div a b = Some c \<longleftrightarrow> b \<noteq> 0 \<and> c = a div b"
  by (auto simp: checked_div_def)

subsection \<open>Words\<close>

lemma word_of_nat_eqI: "unat w = n \<Longrightarrow> w = word_of_nat n"
  by auto

subsection \<open>Sums over the support of a function\<close>

lemma sum_stakers_update:
  fixes f :: "'i \<Rightarrow> int"
  assumes "finite {i. f i \<noteq> 0}"
  shows "finite {i. (f(j := v)) i \<noteq> 0}" and "(\<Sum>i | (f(j := v)) i \<noteq> 0. (f(j := v)) i) = (\<Sum>i | f i \<noteq> 0. f i) - f j + v"
proof -
  let ?A = "insert j {i. f i \<noteq> 0}"
  show "finite {i. (f(j := v)) i \<noteq> 0}" by (rule finite_subset [of _ ?A]) (use assms in auto)
  have "(\<Sum>i | (f(j := v)) i \<noteq> 0. (f(j := v)) i) = sum (f(j := v)) ?A" by (rule sum.mono_neutral_left) (use assms in auto)
  also have "\<dots> = sum f (?A - {j}) + v" using assms by (simp add: sum.insert_remove)
  also have "sum f (?A - {j}) = sum f ?A - f j" using assms by (simp add: sum.insert_remove)
  also have "sum f ?A = (\<Sum>i | f i \<noteq> 0. f i)" by (rule sum.mono_neutral_right) (use assms in auto)
  finally show "(\<Sum>i | (f(j := v)) i \<noteq> 0. (f(j := v)) i) = (\<Sum>i | f i \<noteq> 0. f i) - f j + v" by simp
qed

subsection \<open>Slices\<close>

text \<open>\<open>slice_get xs a b\<close> is Rust's \<^verbatim>\<open>xs.get(a..b)\<close>, and \<open>slice_from xs a\<close> is \<^verbatim>\<open>xs.get(a..)\<close>.\<close>

definition slice_get :: "'a list \<Rightarrow> nat \<Rightarrow> nat \<Rightarrow> 'a list option" where
  "slice_get xs a b = (if a \<le> b \<and> b \<le> length xs then Some (take (b - a) (drop a xs)) else None)"

definition slice_from :: "'a list \<Rightarrow> nat \<Rightarrow> 'a list option" where
  "slice_from xs a = (if a \<le> length xs then Some (drop a xs) else None)"

definition index_get :: "'a list \<Rightarrow> nat \<Rightarrow> 'a option" where
  "index_get xs i = (if i < length xs then Some (xs ! i) else None)"

text \<open>Indexing with \<^verbatim>\<open>xs[i]\<close> panics out of range.\<close>

definition index_or_panic :: "'a list \<Rightarrow> nat \<Rightarrow> ('e, 'a) result" where
  "index_or_panic xs i = (if i < length xs then Inr (xs ! i) else Inl Panic)"

lemma slice_get_Some: "slice_get xs a b = Some ys \<longleftrightarrow> a \<le> b \<and> b \<le> length xs \<and> ys = take (b - a) (drop a xs)"
  by (auto simp: slice_get_def)

lemma slice_get_append [simp]:
  "slice_get (xs @ ys @ zs) (length xs) (length xs + length ys) = Some ys"
  by (simp add: slice_get_def)

lemma slice_from_append [simp]: "slice_from (xs @ ys) (length xs) = Some ys"
  by (simp add: slice_from_def)

lemma index_get_Some [simp]: "index_get xs i = Some x \<longleftrightarrow> i < length xs \<and> x = xs ! i"
  by (auto simp: index_get_def)

lemma index_or_panic_Inr [simp]: "index_or_panic xs i = Inr x \<longleftrightarrow> i < length xs \<and> x = xs ! i"
  by (auto simp: index_or_panic_def)

end
