(* ===== verification/Bitcoin_Types.thy ===== *)
theory Bitcoin_Types
  imports Prelude
begin

text \<open>
  The data model of the Bitcoin library (\<^verbatim>\<open>src/crates/bitcoin/src/types.rs\<close>, \<^verbatim>\<open>error.rs\<close>) and its
  byte-level utilities (\<^verbatim>\<open>utils.rs\<close>): little-endian integers, 32-byte hashes, headers,
  transactions, blocks.

  Fixed-size arrays are words: a \<^verbatim>\<open>[u8; 32]\<close> hash digest is the 256-bit number whose little-endian
  bytes it holds, so that \<open>le_bytes 32\<close> lists the array and the array length is part of the type.
  Signed integers of the wire format keep their bit pattern and are read with \<open>sint\<close>.
  The SHA-256 compression of the crate \<^verbatim>\<open>sha2\<close> is a parameter \<open>sha256\<close> of every definition that
  hashes.
\<close>

type_synonym byte = "8 word"
type_synonym u16 = "16 word"
type_synonym u32 = "32 word"
type_synonym u64 = "64 word"
type_synonym u256 = "256 word"
type_synonym h160 = "160 word"
type_synonym h256 = "256 word"
type_synonym h256le = "256 word"
type_synonym digest = "byte list \<Rightarrow> 256 word"

datatype bitcoin_error =
    MalformedMerkleProof
  | InvalidMerkleProof
  | EndOfFile
  | MalformedHeader
  | InvalidBlockVersion
  | MalformedTransaction
  | UnsupportedInputFormat
  | MalformedWitnessOutput
  | MalformedP2PKHOutput
  | MalformedP2SHOutput
  | UnsupportedOutputFormat
  | MalformedOpReturnOutput
  | InvalidHeaderSize
  | InvalidBtcHash
  | InvalidScript
  | InvalidBtcAddress
  | ArithmeticOverflow
  | ArithmeticUnderflow
  | InvalidCompact
  | BoundExceeded
  | InvalidTxid

type_synonym 'a bres = "(bitcoin_error, 'a) result"

subsection \<open>Little-endian integers\<close>

primrec le_bytes :: "nat \<Rightarrow> nat \<Rightarrow> byte list" where
  "le_bytes 0 n = []"
| "le_bytes (Suc k) n = word_of_nat n # le_bytes k (n div 256)"

primrec le_nat :: "byte list \<Rightarrow> nat" where
  "le_nat [] = 0"
| "le_nat (b # bs) = unat b + 256 * le_nat bs"

lemma length_le_bytes [simp]: "length (le_bytes k n) = k"
  by (induction k arbitrary: n) auto

lemma unat_byte_less: "unat (b :: byte) < 256"
  using unsigned_less [of b, where ?'a = nat] by simp

lemma le_nat_less: "le_nat bs < 256 ^ length bs"
proof (induction bs)
  case (Cons b bs)
  have "unat b < 256" by (rule unat_byte_less)
  with Cons show ?case by simp
qed simp

lemma le_nat_le_bytes: "le_nat (le_bytes k n) = n mod 256 ^ k"
  by (induction k arbitrary: n) (auto simp: unat_of_nat mod_mult2_eq add.commute)

lemma byte_256 [simp]: "(256 :: byte) = 0"
  by (rule unsigned_word_eqI [where ?'a = nat]) simp

lemma le_bytes_le_nat: "length bs = k \<Longrightarrow> le_bytes k (le_nat bs) = bs"
proof (induction bs arbitrary: k)
  case (Cons b bs)
  have "(unat b + 256 * le_nat bs) div 256 = le_nat bs"
    using unat_byte_less [of b] by simp
  with Cons show ?case by auto
qed simp

text \<open>\<open>to_le w\<close> is \<^verbatim>\<open>w.to_le_bytes()\<close> and \<open>from_le bs\<close> is \<^verbatim>\<open>from_le_bytes(bs)\<close>, for every width.\<close>

definition to_le :: "'a::len word \<Rightarrow> byte list" where
  "to_le w = le_bytes (LENGTH('a) div 8) (unat w)"

definition from_le :: "byte list \<Rightarrow> 'a::len word" where
  "from_le bs = word_of_nat (le_nat bs)"

lemma length_to_le [simp]: "length (to_le (w :: 'a::len word)) = LENGTH('a) div 8"
  by (simp add: to_le_def)

lemma power_256: "(256 :: nat) ^ k = 2 ^ (8 * k)"
  by (simp add: power_mult)

lemma from_le_to_le [codec_simps]:
  assumes "8 dvd LENGTH('a::len)"
  shows "from_le (to_le (w :: 'a word)) = w"
proof -
  have "8 * (LENGTH('a) div 8) = LENGTH('a)" using assms by simp
  then have "unat w mod 256 ^ (LENGTH('a) div 8) = unat w"
    by (simp only: power_256) (simp add: unsigned_less)
  then show ?thesis by (simp add: from_le_def to_le_def le_nat_le_bytes)
qed

lemma to_le_from_le:
  assumes "8 * length bs = LENGTH('a::len)"
  shows "to_le (from_le bs :: 'a word) = bs"
proof -
  have k: "LENGTH('a) div 8 = length bs" using assms by simp
  have "le_nat bs < 2 ^ LENGTH('a)"
    using le_nat_less [of bs] assms by (simp add: power_256)
  then have "unat (from_le bs :: 'a word) = le_nat bs"
    by (simp add: from_le_def unat_of_nat)
  then show ?thesis by (simp add: to_le_def k le_bytes_le_nat)
qed

subsection \<open>Hashes\<close>

definition h256le_zero :: h256le where
  "h256le_zero = 0"

definition h256le_is_zero :: "h256le \<Rightarrow> bool" where
  "h256le_is_zero h = (to_le h = replicate 32 0)"

text \<open>\<^verbatim>\<open>copy_from_slice\<close> panics when the slice does not have 32 bytes.\<close>

definition h256le_from_bytes_le :: "byte list \<Rightarrow> h256le bres" where
  "h256le_from_bytes_le bs = (if length bs = 32 then Inr (from_le bs) else Inl Panic)"

definition reverse_endianness :: "byte list \<Rightarrow> byte list" where
  "reverse_endianness bs = rev bs"

definition h256le_from_bytes_be :: "byte list \<Rightarrow> h256le bres" where
  "h256le_from_bytes_be bs =
     (let bytes_le = reverse_endianness bs
      in if length bytes_le = 32 then Inr (from_le bytes_le) else Inl Panic)"

definition h256le_to_bytes_le :: "h256le \<Rightarrow> byte list" where
  "h256le_to_bytes_le h = to_le h"

definition h256le_to_bytes_be :: "h256le \<Rightarrow> byte list" where
  "h256le_to_bytes_be h = reverse_endianness (to_le h)"

definition h256le_as_u256 :: "h256le \<Rightarrow> u256" where
  "h256le_as_u256 h = from_le (h256le_to_bytes_le h)"

text \<open>The integer conversions zero-extend the little-endian bytes of the value to 32 bytes.\<close>

definition h256le_from_int :: "'a::len word \<Rightarrow> h256le" where
  "h256le_from_int v = from_le (to_le v @ replicate (32 - LENGTH('a) div 8) 0)"

text \<open>
  \<^verbatim>\<open>H160\<close> and \<^verbatim>\<open>H256\<close> are byte arrays printed big-endian: \<open>h_as_bytes\<close> lists the bytes, most
  significant first, and \<open>h_from_slice\<close> reads them back.
\<close>

definition h_as_bytes :: "'a::len word \<Rightarrow> byte list" where
  "h_as_bytes h = rev (to_le h)"

definition h_from_slice :: "byte list \<Rightarrow> 'a::len word bres" where
  "h_from_slice bs = (if 8 * length bs = LENGTH('a) then Inr (from_le (rev bs)) else Inl Panic)"

definition h256_eq_h256le :: "h256 \<Rightarrow> h256le \<Rightarrow> bool" where
  "h256_eq_h256le h other = (h256le_from_bytes_be (h_as_bytes h) = Inr other)"

definition sha256d :: "digest \<Rightarrow> byte list \<Rightarrow> 256 word" where
  "sha256d sha256 bytes = sha256 (to_le (sha256 bytes))"

definition sha256d_le :: "digest \<Rightarrow> byte list \<Rightarrow> h256le" where
  "sha256d_le sha256 bytes = sha256d sha256 bytes"

definition h256le_sha256d :: "digest \<Rightarrow> h256le \<Rightarrow> h256le" where
  "h256le_sha256d sha256 h = sha256d_le sha256 (h256le_to_bytes_le h)"

definition hash256_merkle_step :: "digest \<Rightarrow> byte list \<Rightarrow> byte list \<Rightarrow> h256le" where
  "hash256_merkle_step sha256 a b = sha256d sha256 (a @ b)"

lemma h256le_bytes_simps [simp, codec_simps]:
  "length (h256le_to_bytes_le h) = 32"
  "h256le_from_bytes_le (h256le_to_bytes_le h) = Inr h"
  "h256le_from_bytes_be (h256le_to_bytes_be h) = Inr h"
  "h256le_as_u256 h = h"
  by (simp_all add: h256le_to_bytes_le_def h256le_from_bytes_le_def h256le_from_bytes_be_def Let_def
      h256le_to_bytes_be_def reverse_endianness_def h256le_as_u256_def from_le_to_le)

lemma h256le_to_bytes_le_inj [simp]: "h256le_to_bytes_le a = h256le_to_bytes_le b \<longleftrightarrow> a = b"
  by (metis h256le_bytes_simps(4) h256le_as_u256_def)

lemma h_as_bytes_from_slice [codec_simps]:
  "8 * length bs = LENGTH('a::len) \<Longrightarrow> h_as_bytes (from_le (rev bs) :: 'a word) = bs"
  by (simp add: h_as_bytes_def to_le_from_le)

lemma h_from_slice_as_bytes [codec_simps]:
  "8 dvd LENGTH('a::len) \<Longrightarrow> h_from_slice (h_as_bytes (h :: 'a word)) = Inr h"
  by (simp add: h_from_slice_def h_as_bytes_def from_le_to_le)

lemma h256_eq_h256le_iff: "h256_eq_h256le a b \<longleftrightarrow> a = b"
  by (auto simp: h256_eq_h256le_def h256le_from_bytes_be_def reverse_endianness_def h_as_bytes_def
      from_le_to_le)

subsection \<open>Headers, transactions, blocks\<close>

record block_header =
  bh_merkle_root :: h256le
  bh_target :: u256
  bh_timestamp :: u32
  bh_version :: "32 word"
  bh_hash :: h256le
  bh_hash_prev_block :: h256le
  bh_nonce :: u32

datatype transaction_input_source =
    FromOutput h256le u32
  | Coinbase "u32 option"

record transaction_input =
  ti_source :: transaction_input_source
  ti_script :: "byte list"
  ti_sequence :: u32
  ti_witness :: "byte list list"

definition with_witness :: "transaction_input \<Rightarrow> byte list list \<Rightarrow> transaction_input" where
  "with_witness inp witness = inp\<lparr>ti_witness := witness\<rparr>"

datatype script = Script (script_bytes: "byte list")

text \<open>\<^verbatim>\<open>Value\<close> is \<^verbatim>\<open>i64\<close>.\<close>

record transaction_output =
  to_value :: "64 word"
  to_script :: script

datatype lock_time = Time u32 | BlockHeight u32

record transaction =
  tx_version :: "32 word"
  tx_inputs :: "transaction_input list"
  tx_outputs :: "transaction_output list"
  tx_lock_at :: lock_time

record block =
  bl_header :: block_header
  bl_transactions :: "transaction list"

definition has_witness :: "transaction \<Rightarrow> bool" where
  "has_witness tx = list_ex (\<lambda>v. \<not> (ti_witness v = [])) (tx_inputs tx)"

fun is_coinbase_source :: "transaction_input_source \<Rightarrow> bool" where
  "is_coinbase_source (Coinbase _) = True"
| "is_coinbase_source (FromOutput _ _) = False"

definition is_coinbase :: "transaction \<Rightarrow> bool" where
  "is_coinbase tx =
     (length (tx_inputs tx) = 1 \<and>
      (case tx_inputs tx of [] \<Rightarrow> False | inp # _ \<Rightarrow> is_coinbase_source (ti_source inp)))"

definition ensure_version :: "block_header \<Rightarrow> unit bres" where
  "ensure_version h = (if sint (bh_version h) < 4 then Inl (Err InvalidBlockVersion) else Inr ())"

end
