(* ===== verification/Bitcoin_Writer.thy ===== *)
theory Bitcoin_Writer
  imports Bitcoin_Types
begin

text \<open>
  The writers of \<^verbatim>\<open>src/crates/bitcoin/src/formatter.rs\<close> and the formatting of integers, hashes,
  compact integers and vectors. The trait \<^verbatim>\<open>Writer\<close> is a parameter \<open>wr\<close> of every formatter; its two
  implementations are \<open>vec_write\<close> (a growing vector) and \<open>bounded_write\<close> (a vector with a length
  budget).

  Every formatter performs a sequence of writes that does not depend on the writer. The
  \<open>chunks_\<close> functions list those writes; \<open>write_all\<close> performs a list of writes. The locale
  \<open>writer\<close> states what a writer promises, and its lemmas say what a sequence of writes leaves
  behind.
\<close>

type_synonym 'w write_fn = "'w \<Rightarrow> byte list \<Rightarrow> 'w bres"

definition vec_write :: "byte list write_fn" where
  "vec_write w buf = Inr (w @ buf)"

record bounded_writer =
  bw_length_bound :: nat
  bw_bytes :: "byte list"

definition bounded_new :: "nat \<Rightarrow> bounded_writer" where
  "bounded_new length_bound = \<lparr>bw_length_bound = length_bound, bw_bytes = []\<rparr>"

definition bounded_checked_reduce :: "bounded_writer \<Rightarrow> nat \<Rightarrow> bounded_writer bres" where
  "bounded_checked_reduce w bytes =
     rbind (ok_or (checked_sub (bw_length_bound w) bytes) BoundExceeded)
       (\<lambda>new_self. Inr (w\<lparr>bw_length_bound := new_self\<rparr>))"

definition bounded_result :: "bounded_writer \<Rightarrow> byte list" where
  "bounded_result w = bw_bytes w"

text \<open>The length is cast to \<^verbatim>\<open>u32\<close> before it is charged against the bound.\<close>

definition bounded_write :: "bounded_writer write_fn" where
  "bounded_write w buf =
     rbind (bounded_checked_reduce w (length buf mod 2 ^ 32))
       (\<lambda>w'. Inr (w'\<lparr>bw_bytes := bw_bytes w' @ buf\<rparr>))"

subsection \<open>Formatting of base types\<close>

definition try_format_int :: "'w write_fn \<Rightarrow> 'a::len word \<Rightarrow> 'w \<Rightarrow> 'w bres" where
  "try_format_int wr v w = wr w (to_le v)"

definition try_format_bool :: "'w write_fn \<Rightarrow> bool \<Rightarrow> 'w \<Rightarrow> 'w bres" where
  "try_format_bool wr b w = try_format_int wr (if b then 1 else 0 :: byte) w"

definition try_format_h256le :: "'w write_fn \<Rightarrow> h256le \<Rightarrow> 'w \<Rightarrow> 'w bres" where
  "try_format_h256le wr h w = wr w (h256le_to_bytes_le h)"

definition try_format_bytes :: "'w write_fn \<Rightarrow> byte list \<Rightarrow> 'w \<Rightarrow> 'w bres" where
  "try_format_bytes wr bs w = wr w bs"

definition try_format_hash :: "'w write_fn \<Rightarrow> 'a::len word \<Rightarrow> 'w \<Rightarrow> 'w bres" where
  "try_format_hash wr h w = wr w (h_as_bytes h)"

definition try_format_compact_uint :: "'w write_fn \<Rightarrow> u64 \<Rightarrow> 'w \<Rightarrow> 'w bres" where
  "try_format_compact_uint wr v w =
     (if v < 0xfd then try_format_int wr (ucast v :: byte) w
      else if v < 0xffff then
        rbind (try_format_int wr (0xfd :: byte) w) (\<lambda>w. try_format_int wr (ucast v :: u16) w)
      else if v < 0xffffffff then
        rbind (try_format_int wr (0xfe :: byte) w) (\<lambda>w. try_format_int wr (ucast v :: u32) w)
      else
        rbind (try_format_int wr (0xff :: byte) w) (\<lambda>w. try_format_int wr v w))"

primrec try_format_each :: "('a \<Rightarrow> 'w \<Rightarrow> 'w bres) \<Rightarrow> 'a list \<Rightarrow> 'w \<Rightarrow> 'w bres" where
  "try_format_each fmt [] w = Inr w"
| "try_format_each fmt (x # xs) w = rbind (fmt x w) (\<lambda>w. try_format_each fmt xs w)"

definition compact_from_usize :: "nat \<Rightarrow> u64" where
  "compact_from_usize n = word_of_nat n"

definition try_format_vec :: "'w write_fn \<Rightarrow> ('a \<Rightarrow> 'w \<Rightarrow> 'w bres) \<Rightarrow> 'a list \<Rightarrow> 'w \<Rightarrow> 'w bres" where
  "try_format_vec wr fmt xs w =
     rbind (try_format_compact_uint wr (word_of_nat (length xs)) w) (\<lambda>w. try_format_each fmt xs w)"

subsection \<open>Sequences of writes\<close>

primrec write_all :: "'w write_fn \<Rightarrow> byte list list \<Rightarrow> 'w \<Rightarrow> 'w bres" where
  "write_all wr [] w = Inr w"
| "write_all wr (c # cs) w = rbind (wr w c) (\<lambda>w. write_all wr cs w)"

definition chunks_compact_uint :: "u64 \<Rightarrow> byte list list" where
  "chunks_compact_uint v =
     (if v < 0xfd then [to_le (ucast v :: byte)]
      else if v < 0xffff then [to_le (0xfd :: byte), to_le (ucast v :: u16)]
      else if v < 0xffffffff then [to_le (0xfe :: byte), to_le (ucast v :: u32)]
      else [to_le (0xff :: byte), to_le v])"

definition chunks_vec :: "('a \<Rightarrow> byte list list) \<Rightarrow> 'a list \<Rightarrow> byte list list" where
  "chunks_vec ch xs = chunks_compact_uint (word_of_nat (length xs)) @ concat (map ch xs)"

text \<open>A vector of bytes is written byte by byte after its length.\<close>

definition chunks_byte_vec :: "byte list \<Rightarrow> byte list list" where
  "chunks_byte_vec = chunks_vec (\<lambda>b. [to_le b])"

lemma write_all_append: "write_all wr (xs @ ys) w = rbind (write_all wr xs w) (\<lambda>w. write_all wr ys w)"
  by (induction xs arbitrary: w) (auto simp: rbind_assoc)

lemma write_all_single [simp]: "write_all wr [c] w = wr w c"
  by (cases "wr w c") auto

lemma try_format_compact_uint_chunks:
  "try_format_compact_uint wr v w = write_all wr (chunks_compact_uint v) w"
  by (simp add: try_format_compact_uint_def chunks_compact_uint_def try_format_int_def rbind_def
      split: sum.splits)

lemma try_format_each_chunks:
  assumes "\<And>x w. x \<in> set xs \<Longrightarrow> fmt x w = write_all wr (ch x) w"
  shows "try_format_each fmt xs w = write_all wr (concat (map ch xs)) w"
  using assms by (induction xs arbitrary: w) (auto simp: write_all_append)

lemma try_format_vec_chunks:
  assumes "\<And>x w. x \<in> set xs \<Longrightarrow> fmt x w = write_all wr (ch x) w"
  shows "try_format_vec wr fmt xs w = write_all wr (chunks_vec ch xs) w"
  by (simp add: try_format_vec_def chunks_vec_def write_all_append try_format_compact_uint_chunks
      try_format_each_chunks [OF assms])

lemma try_format_byte_vec_chunks:
  "try_format_vec wr (\<lambda>b. try_format_int wr (b :: byte)) bs w = write_all wr (chunks_byte_vec bs) w"
  unfolding chunks_byte_vec_def
  by (rule try_format_vec_chunks) (simp add: try_format_int_def)

subsection \<open>The writer interface\<close>

text \<open>
  What a writer promises: a successful write appends the buffer to the output and charges its
  length against the room that is left (\<open>room w = None\<close> when there is no bound), and a write of
  a buffer shorter than \<open>2 ^ 32\<close> bytes fails exactly when it does not fit.
\<close>

locale writer =
  fixes wr :: "'w write_fn"
    and out :: "'w \<Rightarrow> byte list"
    and fits :: "'w \<Rightarrow> nat \<Rightarrow> bool"
  assumes write_out: "wr w buf = Inr w' \<Longrightarrow> out w' = out w @ buf"
    and write_ok: "length buf < 2 ^ 32 \<Longrightarrow> fits w (length buf) \<Longrightarrow> \<exists>w'. wr w buf = Inr w'"
    and write_fits: "length buf < 2 ^ 32 \<Longrightarrow> wr w buf = Inr w' \<Longrightarrow> fits w (length buf + n) = fits w' n"
    and write_full: "length buf < 2 ^ 32 \<Longrightarrow> \<not> fits w (length buf) \<Longrightarrow> wr w buf = Inl (Err BoundExceeded)"
    and fits_mono: "fits w (m + n) \<Longrightarrow> fits w m"
begin

lemma write_all_out: "write_all wr cs w = Inr w' \<Longrightarrow> out w' = out w @ concat cs"
  by (induction cs arbitrary: w) (auto simp: rbind_Inr_iff dest: write_out)

lemma write_all_ok:
  assumes "\<forall>c \<in> set cs. length c < 2 ^ 32" and "fits w (length (concat cs))"
  shows "\<exists>w'. write_all wr cs w = Inr w'"
  using assms
proof (induction cs arbitrary: w)
  case (Cons c cs)
  have "fits w (length c)" using Cons.prems(2) fits_mono by auto
  then obtain w1 where w1: "wr w c = Inr w1" using write_ok [of c w] Cons.prems(1) by auto
  then have "fits w1 (length (concat cs))" using Cons.prems write_fits by auto
  then show ?case using Cons w1 by auto
qed simp

lemma write_all_full:
  assumes "\<forall>c \<in> set cs. length c < 2 ^ 32" and "\<not> fits w (length (concat cs))"
    and "fits w 0"
  shows "write_all wr cs w = Inl (Err BoundExceeded)"
  using assms
proof (induction cs arbitrary: w)
  case (Cons c cs)
  show ?case
  proof (cases "fits w (length c)")
    case True
    then obtain w1 where w1: "wr w c = Inr w1" using write_ok [of c w] Cons.prems(1) by auto
    have fits_w1: "fits w (length c + n) = fits w1 n" for n
      using write_fits w1 Cons.prems(1) by simp
    have "\<not> fits w1 (length (concat cs))" using Cons.prems(2) fits_w1 by simp
    moreover have "fits w1 0" using True fits_w1 [of 0] by simp
    ultimately show ?thesis using Cons w1 by auto
  next
    case False
    then show ?thesis using Cons.prems(1) write_full by auto
  qed
qed simp

lemma write_all_iff:
  assumes "\<forall>c \<in> set cs. length c < 2 ^ 32" and "fits w 0"
  shows "(\<exists>w'. write_all wr cs w = Inr w') \<longleftrightarrow> fits w (length (concat cs))"
  using write_all_ok [OF assms(1)] write_all_full [OF assms(1) _ assms(2)] by fastforce

end

interpretation vec: writer vec_write "\<lambda>w. w" "\<lambda>w n. True"
  by unfold_locales (auto simp: vec_write_def)

interpretation bounded: writer bounded_write bw_bytes "\<lambda>w n. n \<le> bw_length_bound w"
  by unfold_locales
    (auto simp: bounded_write_def bounded_checked_reduce_def checked_sub_def rbind_Inr_iff
      split: if_splits)

lemma write_all_vec: "write_all vec_write cs w = Inr (w @ concat cs)"
  by (induction cs arbitrary: w) (auto simp: vec_write_def)

end
