(* ===== verification/Bitcoin_Script.thy ===== *)
theory Bitcoin_Script
  imports Bitcoin_Writer
begin

unbundle bit_operations_syntax

text \<open>
  Scripts and addresses (\<^verbatim>\<open>src/crates/bitcoin/src/script.rs\<close>, \<^verbatim>\<open>address.rs\<close>): construction and
  recognition of the standard output scripts, the OP_RETURN payload and the block-height script of
  coinbase inputs. The lemmas show that addresses and standard scripts are in bijection and that
  the recognisers agree with the address parser.
\<close>

subsection \<open>Opcodes and sizes\<close>

definition Op0 :: byte where "Op0 = 0x00"
definition OpReturn :: byte where "OpReturn = 0x6a"
definition OpDup :: byte where "OpDup = 0x76"
definition OpEqual :: byte where "OpEqual = 0x87"
definition OpEqualVerify :: byte where "OpEqualVerify = 0x88"
definition OpHash160 :: byte where "OpHash160 = 0xa9"
definition OpCheckSig :: byte where "OpCheckSig = 0xac"

definition P2PKH_SCRIPT_SIZE :: nat where "P2PKH_SCRIPT_SIZE = 25"
definition P2SH_SCRIPT_SIZE :: nat where "P2SH_SCRIPT_SIZE = 23"
definition P2WPKH_V0_SCRIPT_SIZE :: nat where "P2WPKH_V0_SCRIPT_SIZE = 22"
definition P2WSH_V0_SCRIPT_SIZE :: nat where "P2WSH_V0_SCRIPT_SIZE = 34"
definition HASH160_SIZE_HEX :: byte where "HASH160_SIZE_HEX = 0x14"
definition HASH256_SIZE_HEX :: byte where "HASH256_SIZE_HEX = 0x20"
definition MAX_OPRETURN_SIZE :: nat where "MAX_OPRETURN_SIZE = 83"

lemmas opcode_defs = Op0_def OpReturn_def OpDup_def OpEqual_def OpEqualVerify_def OpHash160_def
  OpCheckSig_def P2PKH_SCRIPT_SIZE_def P2SH_SCRIPT_SIZE_def P2WPKH_V0_SCRIPT_SIZE_def
  P2WSH_V0_SCRIPT_SIZE_def HASH160_SIZE_HEX_def HASH256_SIZE_HEX_def MAX_OPRETURN_SIZE_def

subsection \<open>Scripts\<close>

definition script_new :: script where
  "script_new = Script []"

text \<open>
  \<^verbatim>\<open>Script::append\<close> formats a value into the script's own byte vector and unwraps the result; the
  value is given by its formatter.
\<close>

definition script_append :: "(byte list \<Rightarrow> byte list bres) \<Rightarrow> script \<Rightarrow> script bres" where
  "script_append fmt s = (case fmt (script_bytes s) of Inr bs \<Rightarrow> Inr (Script bs) | Inl _ \<Rightarrow> Inl Panic)"

abbreviation append_byte :: "byte \<Rightarrow> script \<Rightarrow> script bres" where
  "append_byte b \<equiv> script_append (try_format_int vec_write b)"

abbreviation append_slice :: "byte list \<Rightarrow> script \<Rightarrow> script bres" where
  "append_slice bs \<equiv> script_append (try_format_bytes vec_write bs)"

abbreviation append_byte_vec :: "byte list \<Rightarrow> script \<Rightarrow> script bres" where
  "append_byte_vec bs \<equiv> script_append (try_format_vec vec_write (try_format_int vec_write) bs)"

abbreviation append_hash :: "'a::len word \<Rightarrow> script \<Rightarrow> script bres" where
  "append_hash h \<equiv> script_append (try_format_hash vec_write h)"

fun remove_nth :: "nat \<Rightarrow> 'a list \<Rightarrow> 'a list" where
  "remove_nth i xs = take i xs @ drop (Suc i) xs"

fun height_strip :: "nat list \<Rightarrow> byte list \<Rightarrow> byte list" where
  "height_strip [] bs = bs"
| "height_strip (i # is) bs = (if bs ! i = 0 then height_strip is (remove_nth i bs) else bs)"

definition height_payload :: "u32 \<Rightarrow> byte list" where
  "height_payload height =
     (let height_bytes = height_strip [3, 2, 1] (to_le height)
      in case height_bytes of [] \<Rightarrow> height_bytes
         | _ \<Rightarrow> if last height_bytes AND 0x80 \<noteq> 0 then height_bytes @ [0] else height_bytes)"

definition script_height :: "u32 \<Rightarrow> script bres" where
  "script_height height = append_byte_vec (height_payload height) script_new"

definition script_op_return :: "byte list \<Rightarrow> script bres" where
  "script_op_return return_content =
     rbind (append_byte OpReturn script_new) (\<lambda>s.
     rbind (append_byte (word_of_nat (length return_content)) s) (\<lambda>s.
     append_slice return_content s))"

definition script_len :: "script \<Rightarrow> nat" where
  "script_len s = length (script_bytes s)"

definition is_p2wpkh_v0 :: "script \<Rightarrow> bool" where
  "is_p2wpkh_v0 s = (script_len s = P2WPKH_V0_SCRIPT_SIZE
     \<and> script_bytes s ! 0 = Op0 \<and> script_bytes s ! 1 = HASH160_SIZE_HEX)"

definition is_p2wsh_v0 :: "script \<Rightarrow> bool" where
  "is_p2wsh_v0 s = (script_len s = P2WSH_V0_SCRIPT_SIZE
     \<and> script_bytes s ! 0 = Op0 \<and> script_bytes s ! 1 = HASH256_SIZE_HEX)"

definition is_p2pkh :: "script \<Rightarrow> bool" where
  "is_p2pkh s = (script_len s = P2PKH_SCRIPT_SIZE
     \<and> script_bytes s ! 0 = OpDup \<and> script_bytes s ! 1 = OpHash160 \<and> script_bytes s ! 2 = HASH160_SIZE_HEX
     \<and> script_bytes s ! 23 = OpEqualVerify \<and> script_bytes s ! 24 = OpCheckSig)"

definition is_p2sh :: "script \<Rightarrow> bool" where
  "is_p2sh s = (script_len s = P2SH_SCRIPT_SIZE
     \<and> script_bytes s ! 0 = OpHash160 \<and> script_bytes s ! 1 = HASH160_SIZE_HEX
     \<and> script_bytes s ! 22 = OpEqual)"

definition extract_op_return_data :: "script \<Rightarrow> byte list bres" where
  "extract_op_return_data s =
     (let output_script = script_bytes s in
      rbind (ok_or (index_get output_script 0) EndOfFile) (\<lambda>first.
      if first \<noteq> OpReturn then Inl (Err MalformedOpReturnOutput)
      else if length output_script > MAX_OPRETURN_SIZE then Inl (Err MalformedOpReturnOutput)
      else rbind (ok_or (slice_from output_script 2) EndOfFile) (\<lambda>result.
        if length result \<noteq> unat (output_script ! 1) then Inl (Err MalformedOpReturnOutput)
        else Inr result)))"

subsection \<open>Addresses\<close>

datatype address = P2PKH h160 | P2SH h160 | P2WPKHv0 h160 | P2WSHv0 h256

text \<open>
  A slice pattern \<^verbatim>\<open>[pre.., ref addr @ .., suf..]\<close> with its guard on the length of the binding.
\<close>

definition match_affix :: "byte list \<Rightarrow> byte list \<Rightarrow> nat \<Rightarrow> byte list \<Rightarrow> byte list option" where
  "match_affix pre suf n bs =
     (let addr = take (length bs - length pre - length suf) (drop (length pre) bs)
      in if length pre + length suf \<le> length bs \<and> take (length pre) bs = pre
            \<and> drop (length bs - length suf) bs = suf \<and> length addr = n
         then Some addr else None)"

definition from_script_pub_key :: "script \<Rightarrow> address bres" where
  "from_script_pub_key s =
     (let bytes = script_bytes s; n160 = unat HASH160_SIZE_HEX; n256 = unat HASH256_SIZE_HEX in
      if length bytes > unat HASH256_SIZE_HEX + 2 then Inl (Err InvalidBtcAddress)
      else case match_affix [OpDup, OpHash160, HASH160_SIZE_HEX] [OpEqualVerify, OpCheckSig] n160 bytes of
        Some addr \<Rightarrow> rbind (h_from_slice addr) (\<lambda>h. Inr (P2PKH h))
      | None \<Rightarrow> (case match_affix [OpHash160, HASH160_SIZE_HEX] [OpEqual] n160 bytes of
        Some addr \<Rightarrow> rbind (h_from_slice addr) (\<lambda>h. Inr (P2SH h))
      | None \<Rightarrow> (case match_affix [Op0, HASH256_SIZE_HEX] [] n256 bytes of
        Some addr \<Rightarrow> rbind (h_from_slice addr) (\<lambda>h. Inr (P2WSHv0 h))
      | None \<Rightarrow> (case match_affix [Op0, HASH160_SIZE_HEX] [] n160 bytes of
        Some addr \<Rightarrow> rbind (h_from_slice addr) (\<lambda>h. Inr (P2WPKHv0 h))
      | None \<Rightarrow> Inl (Err InvalidBtcAddress)))))"

fun to_script_pub_key :: "address \<Rightarrow> script bres" where
  "to_script_pub_key (P2PKH pub_key_hash) =
     rbind (append_byte OpDup script_new) (\<lambda>s. rbind (append_byte OpHash160 s) (\<lambda>s.
     rbind (append_byte HASH160_SIZE_HEX s) (\<lambda>s. rbind (append_hash pub_key_hash s) (\<lambda>s.
     rbind (append_byte OpEqualVerify s) (\<lambda>s. append_byte OpCheckSig s)))))"
| "to_script_pub_key (P2SH script_hash) =
     rbind (append_byte OpHash160 script_new) (\<lambda>s. rbind (append_byte HASH160_SIZE_HEX s) (\<lambda>s.
     rbind (append_hash script_hash s) (\<lambda>s. append_byte OpEqual s)))"
| "to_script_pub_key (P2WPKHv0 pub_key_hash) =
     rbind (append_byte Op0 script_new) (\<lambda>s. rbind (append_byte HASH160_SIZE_HEX s) (\<lambda>s.
     append_hash pub_key_hash s))"
| "to_script_pub_key (P2WSHv0 script_hash) =
     rbind (append_byte Op0 script_new) (\<lambda>s. rbind (append_byte HASH256_SIZE_HEX s) (\<lambda>s.
     append_hash script_hash s))"

fun address_is_zero :: "address \<Rightarrow> bool" where
  "address_is_zero (P2PKH h) = (h = 0)"
| "address_is_zero (P2SH h) = (h = 0)"
| "address_is_zero (P2WPKHv0 h) = (h = 0)"
| "address_is_zero (P2WSHv0 h) = (h = 0)"

definition address_default :: address where
  "address_default = P2PKH 0"

definition extract_address :: "transaction_output \<Rightarrow> address bres" where
  "extract_address out = from_script_pub_key (to_script out)"

definition output_payment :: "64 word \<Rightarrow> address \<Rightarrow> transaction_output bres" where
  "output_payment v addr = rbind (to_script_pub_key addr) (\<lambda>s. Inr \<lparr>to_value = v, to_script = s\<rparr>)"

definition output_op_return :: "64 word \<Rightarrow> byte list \<Rightarrow> transaction_output bres" where
  "output_op_return v return_content =
     rbind (script_op_return return_content) (\<lambda>s. Inr \<lparr>to_value = v, to_script = s\<rparr>)"

subsection \<open>Public keys\<close>

text \<open>
  A compressed public key is an array of 33 bytes. The curve operations of \<^verbatim>\<open>secp256k1\<close> and the
  RIPEMD-160 digest of \<^verbatim>\<open>bitcoin_hashes\<close> are parameters: \<open>mul_assign key secret\<close> is \<open>None\<close> when the
  library rejects the key or the scalar.
\<close>

type_synonym public_key = "264 word"

definition new_secret_key :: "digest \<Rightarrow> public_key \<Rightarrow> h256 \<Rightarrow> 256 word" where
  "new_secret_key sha256 key secure_id = sha256 (to_le key @ h_as_bytes secure_id)"

definition new_deposit_public_key ::
  "digest \<Rightarrow> (public_key \<Rightarrow> 256 word \<Rightarrow> public_key option) \<Rightarrow> public_key \<Rightarrow> h256 \<Rightarrow> public_key option" where
  "new_deposit_public_key sha256 mul_assign key secure_id = mul_assign key (new_secret_key sha256 key secure_id)"

definition public_key_to_hash :: "(byte list \<Rightarrow> h160) \<Rightarrow> public_key \<Rightarrow> h160" where
  "public_key_to_hash hash160 key = hash160 (to_le key)"

definition to_p2pkh_script_sig :: "public_key \<Rightarrow> byte list \<Rightarrow> script bres" where
  "to_p2pkh_script_sig key sig =
     rbind (append_byte_vec sig script_new) (\<lambda>s. append_byte_vec (to_le key) s)"

definition to_redeem_script :: "public_key \<Rightarrow> byte list" where
  "to_redeem_script key = to_le key @ [OpCheckSig]"

definition to_p2sh_script_sig :: "public_key \<Rightarrow> byte list \<Rightarrow> script bres" where
  "to_p2sh_script_sig key sig =
     rbind (append_byte Op0 script_new) (\<lambda>s. rbind (append_byte_vec sig s) (\<lambda>s.
     append_byte_vec (to_redeem_script key) s))"

subsection \<open>What the constructors build\<close>

lemma script_append_simps [simp]:
  "append_byte b s = Inr (Script (script_bytes s @ [b]))"
  "append_slice bs s = Inr (Script (script_bytes s @ bs))"
  "append_hash h s = Inr (Script (script_bytes s @ h_as_bytes h))"
  "append_byte_vec bs s = Inr (Script (script_bytes s @ concat (chunks_byte_vec bs)))"
  by (simp_all add: script_append_def try_format_int_def try_format_bytes_def try_format_hash_def
      vec_write_def to_le_def try_format_byte_vec_chunks write_all_vec)

lemma concat_chunks_bytes: "concat (map (\<lambda>b. [[b]]) bs) = map (\<lambda>b. [b]) bs"
  by (induction bs) auto

lemma concat_chunks_byte_vec:
  "concat (chunks_byte_vec bs) = concat (chunks_compact_uint (word_of_nat (length bs))) @ bs"
proof -
  have "concat (concat (map (\<lambda>b. [to_le b]) (bs :: byte list))) = bs"
    by (induction bs) (auto simp: to_le_def)
  then show ?thesis by (simp add: chunks_byte_vec_def chunks_vec_def)
qed

fun address_bytes :: "address \<Rightarrow> byte list" where
  "address_bytes (P2PKH h) = [OpDup, OpHash160, HASH160_SIZE_HEX] @ h_as_bytes h @ [OpEqualVerify, OpCheckSig]"
| "address_bytes (P2SH h) = [OpHash160, HASH160_SIZE_HEX] @ h_as_bytes h @ [OpEqual]"
| "address_bytes (P2WPKHv0 h) = [Op0, HASH160_SIZE_HEX] @ h_as_bytes h"
| "address_bytes (P2WSHv0 h) = [Op0, HASH256_SIZE_HEX] @ h_as_bytes h"

lemma to_script_pub_key_eq: "to_script_pub_key a = Inr (Script (address_bytes a))"
  by (cases a) (simp_all add: script_new_def)

lemma match_affix_Some:
  "match_affix pre suf n bs = Some m \<longleftrightarrow> bs = pre @ m @ suf \<and> length m = n"
proof
  assume a: "match_affix pre suf n bs = Some m"
  then have len: "length pre + length suf \<le> length bs" and pre: "take (length pre) bs = pre"
    and suf: "drop (length bs - length suf) bs = suf"
    and m: "m = take (length bs - length pre - length suf) (drop (length pre) bs)" and n: "length m = n"
    by (auto simp: match_affix_def Let_def split: if_splits)
  have "drop (length pre) bs = m @ drop (length bs - length pre - length suf) (drop (length pre) bs)"
    unfolding m by (rule append_take_drop_id [symmetric])
  also have "drop (length bs - length pre - length suf) (drop (length pre) bs) = suf"
    using len suf by simp
  finally have "bs = pre @ m @ suf" using pre by (metis append_take_drop_id)
  with n show "bs = pre @ m @ suf \<and> length m = n" by simp
qed (auto simp: match_affix_def Let_def)

lemma match_affix_None:
  "match_affix pre suf n bs = None \<longleftrightarrow> (\<nexists>m. bs = pre @ m @ suf \<and> length m = n)"
  using match_affix_Some by (metis not_None_eq)

lemma hash_size_values: "unat HASH160_SIZE_HEX = 20" "unat HASH256_SIZE_HEX = 32"
  by (simp_all add: HASH160_SIZE_HEX_def HASH256_SIZE_HEX_def)

lemma length_h_as_bytes [simp]: "length (h_as_bytes (h :: 'a::len word)) = LENGTH('a) div 8"
  by (simp add: h_as_bytes_def)

lemma from_script_address_bytes: "from_script_pub_key (Script (address_bytes a)) = Inr a"
proof (cases a)
  case (P2PKH h)
  have "match_affix [OpDup, OpHash160, HASH160_SIZE_HEX] [OpEqualVerify, OpCheckSig] 20 (address_bytes a)
      = Some (h_as_bytes h)"
    using P2PKH by (simp add: match_affix_Some)
  then show ?thesis using P2PKH
    by (simp add: from_script_pub_key_def hash_size_values h_from_slice_as_bytes)
next
  case (P2SH h)
  have "match_affix [OpDup, OpHash160, HASH160_SIZE_HEX] [OpEqualVerify, OpCheckSig] 20 (address_bytes a) = None"
    using P2SH by (simp add: match_affix_None OpDup_def OpHash160_def)
  moreover have "match_affix [OpHash160, HASH160_SIZE_HEX] [OpEqual] 20 (address_bytes a) = Some (h_as_bytes h)"
    using P2SH by (simp add: match_affix_Some)
  ultimately show ?thesis using P2SH
    by (simp add: from_script_pub_key_def hash_size_values h_from_slice_as_bytes)
next
  case (P2WPKHv0 h)
  have "match_affix [OpDup, OpHash160, HASH160_SIZE_HEX] [OpEqualVerify, OpCheckSig] 20 (address_bytes a) = None"
    "match_affix [OpHash160, HASH160_SIZE_HEX] [OpEqual] 20 (address_bytes a) = None"
    "match_affix [Op0, HASH256_SIZE_HEX] [] 32 (address_bytes a) = None"
    using P2WPKHv0 by (simp_all add: match_affix_None opcode_defs)
  moreover have "match_affix [Op0, HASH160_SIZE_HEX] [] 20 (address_bytes a) = Some (h_as_bytes h)"
    using P2WPKHv0 by (simp add: match_affix_Some)
  ultimately show ?thesis using P2WPKHv0
    by (simp add: from_script_pub_key_def hash_size_values h_from_slice_as_bytes)
next
  case (P2WSHv0 h)
  have "match_affix [OpDup, OpHash160, HASH160_SIZE_HEX] [OpEqualVerify, OpCheckSig] 20 (address_bytes a) = None"
    "match_affix [OpHash160, HASH160_SIZE_HEX] [OpEqual] 20 (address_bytes a) = None"
    using P2WSHv0 by (simp_all add: match_affix_None opcode_defs)
  moreover have "match_affix [Op0, HASH256_SIZE_HEX] [] 32 (address_bytes a) = Some (h_as_bytes h)"
    using P2WSHv0 by (simp add: match_affix_Some)
  ultimately show ?thesis using P2WSHv0
    by (simp add: from_script_pub_key_def hash_size_values h_from_slice_as_bytes)
qed

lemma h_from_slice_Inr: "h_from_slice m = Inr h \<Longrightarrow> h_as_bytes h = m"
  by (auto simp: h_from_slice_def h_as_bytes_from_slice split: if_splits)

lemma address_bytes_from_script:
  assumes "from_script_pub_key s = Inr a"
  shows "s = Script (address_bytes a)"
proof (cases s)
  case (Script bs)
  show ?thesis using assms
    by (auto simp: Script from_script_pub_key_def hash_size_values rbind_Inr_iff match_affix_Some
        dest: h_from_slice_Inr split: if_splits option.splits)
qed

text \<open>
  Addresses and standard output scripts are in bijection: the script built for an address parses
  back to that address, and a script that parses as an address is exactly the script built for it.
\<close>

theorem address_script_bijection:
  "to_script_pub_key a = Inr s \<longleftrightarrow> from_script_pub_key s = Inr a"
  using from_script_address_bytes address_bytes_from_script by (auto simp: to_script_pub_key_eq)

subsection \<open>Recognisers\<close>

lemma take_two: "2 \<le> length bs \<Longrightarrow> take 2 bs = [bs ! 0, bs ! 1]"
  by (rule nth_equalityI) (auto simp: less_2_cases_iff)

lemma take_three: "3 \<le> length bs \<Longrightarrow> take 3 bs = [bs ! 0, bs ! 1, bs ! 2]"
  by (rule nth_equalityI) (auto simp: less_Suc_eq numeral_3_eq_3 numeral_2_eq_2)

lemma drop_last_one: "length bs = Suc n \<Longrightarrow> drop n bs = [bs ! n]"
  by (simp add: Cons_nth_drop_Suc [symmetric])

lemma drop_last_two: "length bs = Suc (Suc n) \<Longrightarrow> drop n bs = [bs ! n, bs ! Suc n]"
  by (simp add: Cons_nth_drop_Suc [symmetric])

lemma is_address_script: "(\<exists>h. from_script_pub_key s = Inr (C h)) \<longleftrightarrow> (\<exists>h. s = Script (address_bytes (C h)))"
  using from_script_address_bytes address_bytes_from_script by metis

lemma h160_bytesE: "length m = 20 \<Longrightarrow> \<exists>h :: h160. h_as_bytes h = m"
  using h_as_bytes_from_slice [where ?'a = 160, of m] by auto

lemma h256_bytesE: "length m = 32 \<Longrightarrow> \<exists>h :: h256. h_as_bytes h = m"
  using h_as_bytes_from_slice [where ?'a = 256, of m] by auto

lemma split_affix:
  "length bs = length pre + n + length suf \<Longrightarrow> take (length pre) bs = pre \<Longrightarrow> drop (length pre + n) bs = suf \<Longrightarrow>
    bs = pre @ take n (drop (length pre) bs) @ suf"
  by (metis append_take_drop_id drop_drop add.commute)

lemma is_p2pkh_iff: "is_p2pkh s \<longleftrightarrow> (\<exists>h. s = Script (address_bytes (P2PKH h)))"
proof
  assume a: "is_p2pkh s"
  define bs where "bs = script_bytes s"
  have len: "length bs = 25" using a by (simp add: is_p2pkh_def script_len_def bs_def P2PKH_SCRIPT_SIZE_def)
  have "take 3 bs = [OpDup, OpHash160, HASH160_SIZE_HEX]" "drop 23 bs = [OpEqualVerify, OpCheckSig]"
    using a len take_three [of bs] drop_last_two [of bs 23] by (auto simp: is_p2pkh_def bs_def)
  then have "bs = [OpDup, OpHash160, HASH160_SIZE_HEX] @ take 20 (drop 3 bs) @ [OpEqualVerify, OpCheckSig]"
    using split_affix [of bs "[OpDup, OpHash160, HASH160_SIZE_HEX]" 20 "[OpEqualVerify, OpCheckSig]"] len
    by (simp add: numeral_3_eq_3)
  moreover obtain h :: h160 where "h_as_bytes h = take 20 (drop 3 bs)"
    using h160_bytesE [of "take 20 (drop 3 bs)"] len by auto
  ultimately have "s = Script (address_bytes (P2PKH h))" by (cases s) (simp add: bs_def)
  then show "\<exists>h. s = Script (address_bytes (P2PKH h))" ..
qed (auto simp: is_p2pkh_def script_len_def P2PKH_SCRIPT_SIZE_def nth_append)

lemma is_p2sh_iff: "is_p2sh s \<longleftrightarrow> (\<exists>h. s = Script (address_bytes (P2SH h)))"
proof
  assume a: "is_p2sh s"
  define bs where "bs = script_bytes s"
  have len: "length bs = 23" using a by (simp add: is_p2sh_def script_len_def bs_def P2SH_SCRIPT_SIZE_def)
  have "take 2 bs = [OpHash160, HASH160_SIZE_HEX]" "drop 22 bs = [OpEqual]"
    using a len take_two [of bs] drop_last_one [of bs 22] by (auto simp: is_p2sh_def bs_def)
  then have "bs = [OpHash160, HASH160_SIZE_HEX] @ take 20 (drop 2 bs) @ [OpEqual]"
    using split_affix [of bs "[OpHash160, HASH160_SIZE_HEX]" 20 "[OpEqual]"] len
    by (simp add: numeral_2_eq_2)
  moreover obtain h :: h160 where "h_as_bytes h = take 20 (drop 2 bs)"
    using h160_bytesE [of "take 20 (drop 2 bs)"] len by auto
  ultimately have "s = Script (address_bytes (P2SH h))" by (cases s) (simp add: bs_def)
  then show "\<exists>h. s = Script (address_bytes (P2SH h))" ..
qed (auto simp: is_p2sh_def script_len_def P2SH_SCRIPT_SIZE_def nth_append)

lemma is_p2wpkh_v0_iff: "is_p2wpkh_v0 s \<longleftrightarrow> (\<exists>h. s = Script (address_bytes (P2WPKHv0 h)))"
proof
  assume a: "is_p2wpkh_v0 s"
  define bs where "bs = script_bytes s"
  have len: "length bs = 22" using a by (simp add: is_p2wpkh_v0_def script_len_def bs_def P2WPKH_V0_SCRIPT_SIZE_def)
  have "take 2 bs = [Op0, HASH160_SIZE_HEX]"
    using a len take_two [of bs] by (auto simp: is_p2wpkh_v0_def bs_def)
  then have "bs = [Op0, HASH160_SIZE_HEX] @ drop 2 bs" by (metis append_take_drop_id)
  moreover obtain h :: h160 where "h_as_bytes h = drop 2 bs"
    using h160_bytesE [of "drop 2 bs"] len by auto
  ultimately have "s = Script (address_bytes (P2WPKHv0 h))" by (cases s) (simp add: bs_def)
  then show "\<exists>h. s = Script (address_bytes (P2WPKHv0 h))" ..
qed (auto simp: is_p2wpkh_v0_def script_len_def P2WPKH_V0_SCRIPT_SIZE_def)

lemma is_p2wsh_v0_iff: "is_p2wsh_v0 s \<longleftrightarrow> (\<exists>h. s = Script (address_bytes (P2WSHv0 h)))"
proof
  assume a: "is_p2wsh_v0 s"
  define bs where "bs = script_bytes s"
  have len: "length bs = 34" using a by (simp add: is_p2wsh_v0_def script_len_def bs_def P2WSH_V0_SCRIPT_SIZE_def)
  have "take 2 bs = [Op0, HASH256_SIZE_HEX]"
    using a len take_two [of bs] by (auto simp: is_p2wsh_v0_def bs_def)
  then have "bs = [Op0, HASH256_SIZE_HEX] @ drop 2 bs" by (metis append_take_drop_id)
  moreover obtain h :: h256 where "h_as_bytes h = drop 2 bs"
    using h256_bytesE [of "drop 2 bs"] len by auto
  ultimately have "s = Script (address_bytes (P2WSHv0 h))" by (cases s) (simp add: bs_def)
  then show "\<exists>h. s = Script (address_bytes (P2WSHv0 h))" ..
qed (auto simp: is_p2wsh_v0_def script_len_def P2WSH_V0_SCRIPT_SIZE_def)

text \<open>
  The four script recognisers accept exactly the scripts that the address parser maps to the
  corresponding kind of address, so a script is recognised as at most one kind.
\<close>

theorem script_recognisers_agree:
  "(is_p2pkh s \<longleftrightarrow> (\<exists>h. from_script_pub_key s = Inr (P2PKH h)))
   \<and> (is_p2sh s \<longleftrightarrow> (\<exists>h. from_script_pub_key s = Inr (P2SH h)))
   \<and> (is_p2wpkh_v0 s \<longleftrightarrow> (\<exists>h. from_script_pub_key s = Inr (P2WPKHv0 h)))
   \<and> (is_p2wsh_v0 s \<longleftrightarrow> (\<exists>h. from_script_pub_key s = Inr (P2WSHv0 h)))"
  by (simp only: is_p2pkh_iff is_p2sh_iff is_p2wpkh_v0_iff is_p2wsh_v0_iff is_address_script)

subsection \<open>OP\_RETURN payloads\<close>

lemma script_op_return_eq:
  "script_op_return d = Inr (Script (OpReturn # word_of_nat (length d) # d))"
  by (simp add: script_op_return_def script_new_def)

text \<open>
  A payload of at most 81 bytes put in an OP\_RETURN script is extracted unchanged, a longer one is
  rejected as malformed.
\<close>

theorem op_return_roundtrip:
  "rbind (script_op_return d) extract_op_return_data =
     (if length d \<le> 81 then Inr d else Inl (Err MalformedOpReturnOutput))"
proof -
  have "unat (word_of_nat (length d) :: byte) = length d" if "length d \<le> 81"
    using that by (simp add: unat_of_nat)
  then show ?thesis
    by (simp add: script_op_return_eq extract_op_return_data_def MAX_OPRETURN_SIZE_def index_get_def
        slice_from_def)
qed

lemma address_not_op_return:
  assumes "from_script_pub_key s = Inr a"
  shows "extract_op_return_data s = Inl (Err MalformedOpReturnOutput)"
  using address_bytes_from_script [OF assms]
  by (cases a) (simp_all add: extract_op_return_data_def index_get_def opcode_defs)

lemma extract_op_return_data_length:
  "extract_op_return_data s = Inr d \<Longrightarrow> length d \<le> 81"
  by (auto simp: extract_op_return_data_def Let_def rbind_Inr_iff slice_from_def MAX_OPRETURN_SIZE_def
      split: if_splits)

end
