(* ===== verification/Bitcoin_Compact.thy ===== *)
theory Bitcoin_Compact
  imports Bitcoin_Types
begin

unbundle bit_operations_syntax

text \<open>
  The compact ("nBits") encoding of proof-of-work targets (\<^verbatim>\<open>src/crates/bitcoin/src/math.rs\<close>) and
  the retarget rule (\<^verbatim>\<open>src/crates/bitcoin/src/pow.rs\<close>). \<^verbatim>\<open>U256\<close> is the unsigned 256-bit machine
  integer: shifts drop bits, and a multiplication that overflows panics.
\<close>

subsection \<open>Encoding and decoding\<close>

fun nat_bits :: "nat \<Rightarrow> nat" where
  "nat_bits n = (if n = 0 then 0 else Suc (nat_bits (n div 2)))"

declare nat_bits.simps [simp del]

definition u256_bits :: "u256 \<Rightarrow> nat" where
  "u256_bits x = nat_bits (unat x)"

definition get_compact :: "u256 \<Rightarrow> u32 option" where
  "get_compact x =
     (let size = (u256_bits x + 7) div 8;
          compact = (if size \<le> 3 then ucast (push_bit (8 * (3 - size)) (ucast x :: u64))
                     else ucast (drop_bit (8 * (size - 3)) x)) :: u32;
          (compact, size) = (if compact AND 0x00800000 \<noteq> 0 then (drop_bit 8 compact, size + 1)
                             else (compact, size))
      in if \<not> (compact AND NOT 0x007fffff = 0) then None
         else if \<not> size < 256 then None
         else Some (compact OR word_of_nat (size * 2 ^ 24)))"

definition set_compact :: "u32 \<Rightarrow> u256 option" where
  "set_compact compact =
     (let size = unat (drop_bit 24 compact);
          word = compact AND 0x007fffff;
          (word, v) = (if size \<le> 3 then
                         (let word = drop_bit (8 * (3 - size)) word in (word, ucast word :: u256))
                       else (word, push_bit (8 * (size - 3)) (ucast word :: u256)))
      in if word \<noteq> 0 \<and> compact AND 0x00800000 \<noteq> 0 then None
         else if word \<noteq> 0 \<and> (size > 34 \<or> (word > 0xff \<and> size > 33) \<or> (word > 0xffff \<and> size > 32)) then None
         else Some v)"

definition TARGET_TIMESPAN :: nat where
  "TARGET_TIMESPAN = 14 * 24 * 60 * 60"

definition TARGET_TIMESPAN_DIVISOR :: nat where
  "TARGET_TIMESPAN_DIVISOR = 4"

text \<open>\<^verbatim>\<open>U256\<close> lists its 64-bit limbs from the least significant one.\<close>

definition UNROUNDED_MAX_TARGET :: u256 where
  "UNROUNDED_MAX_TARGET = word_of_nat ((2 ^ 64 - 1) + (2 ^ 64 - 1) * 2 ^ 64 + (2 ^ 64 - 1) * 2 ^ 128 + 0xffffffff * 2 ^ 192)"

definition calculate_next_work_required :: "u256 \<Rightarrow> nat \<Rightarrow> nat \<Rightarrow> u32 bres" where
  "calculate_next_work_required previous_target first_block_time last_block_time =
     (let actual_timespan = saturating_sub last_block_time first_block_time;
          actual_timespan = (if actual_timespan < TARGET_TIMESPAN div TARGET_TIMESPAN_DIVISOR
            then TARGET_TIMESPAN div TARGET_TIMESPAN_DIVISOR else actual_timespan);
          actual_timespan = (if actual_timespan > TARGET_TIMESPAN * TARGET_TIMESPAN_DIVISOR
            then TARGET_TIMESPAN * TARGET_TIMESPAN_DIVISOR else actual_timespan)
      in rbind (if unat previous_target * actual_timespan < 2 ^ 256
                then Inr (word_of_nat (unat previous_target * actual_timespan) :: u256) else Inl Panic)
         (\<lambda>target. let target = target div word_of_nat TARGET_TIMESPAN
           in ok_or (get_compact (if target > UNROUNDED_MAX_TARGET then UNROUNDED_MAX_TARGET else target))
                InvalidCompact))"

subsection \<open>The encoding on natural numbers\<close>

definition byte_size :: "nat \<Rightarrow> nat" where
  "byte_size n = (nat_bits n + 7) div 8"

lemma nat_bits_upper: "n < 2 ^ nat_bits n"
proof (induction n rule: nat_bits.induct)
  case (1 n)
  then show ?case by (cases "n = 0") (auto simp: nat_bits.simps [of n])
qed

lemma nat_bits_lower: "n \<noteq> 0 \<Longrightarrow> 2 ^ nat_bits n \<le> 2 * n"
proof (induction n rule: nat_bits.induct)
  case (1 n)
  show ?case
  proof (cases "n div 2 = 0")
    case True
    then have "n = 1" using 1(2) by auto
    then show ?thesis by (simp add: nat_bits.simps)
  next
    case False
    then have "2 ^ nat_bits (n div 2) \<le> 2 * (n div 2)" using 1 by blast
    then have "2 ^ nat_bits (n div 2) \<le> n" by simp
    then show ?thesis using 1(2) by (simp add: nat_bits.simps [of n])
  qed
qed

lemma nat_bits_le: "n < 2 ^ k \<Longrightarrow> nat_bits n \<le> k"
proof -
  assume a: "n < 2 ^ k"
  show ?thesis
  proof (cases "n = 0")
    case False
    then have "2 ^ nat_bits n \<le> 2 * n" by (rule nat_bits_lower)
    also have "\<dots> < 2 ^ Suc k" using a by simp
    finally have "nat_bits n < Suc k" by (rule power_less_imp_less_exp [rotated]) simp
    then show ?thesis by simp
  qed (simp add: nat_bits.simps)
qed

lemma byte_size_upper: "n < 256 ^ byte_size n"
proof -
  have "n < 2 ^ nat_bits n" by (rule nat_bits_upper)
  also have "\<dots> \<le> 2 ^ (8 * byte_size n)"
    by (rule power_increasing) (auto simp: byte_size_def)
  finally show ?thesis by (simp add: power_256)
qed

lemma byte_size_lower: "n \<noteq> 0 \<Longrightarrow> 256 ^ byte_size n \<le> 256 * n"
proof -
  assume n: "n \<noteq> 0"
  have "8 * byte_size n \<le> nat_bits n + 7" by (simp add: byte_size_def)
  then have "(2::nat) ^ (8 * byte_size n) \<le> 2 ^ (nat_bits n + 7)" by (rule power_increasing) simp
  also have "\<dots> \<le> 2 ^ 7 * (2 * n)" using nat_bits_lower [OF n] by (simp add: power_add)
  finally show ?thesis by (simp add: power_256)
qed

lemma byte_size_le: "n < 256 ^ k \<Longrightarrow> byte_size n \<le> k"
  using nat_bits_le [of n "8 * k"] by (simp add: power_256 byte_size_def)

text \<open>The three leading bytes of a number, and the mantissa and exponent of its encoding.\<close>

definition leading :: "nat \<Rightarrow> nat" where
  "leading n = (if byte_size n \<le> 3 then n * 256 ^ (3 - byte_size n) else n div 256 ^ (byte_size n - 3))"

definition mantissa :: "nat \<Rightarrow> nat" where
  "mantissa n = (if 2 ^ 23 \<le> leading n then leading n div 256 else leading n)"

definition exponent :: "nat \<Rightarrow> nat" where
  "exponent n = (if 2 ^ 23 \<le> leading n then byte_size n + 1 else byte_size n)"

lemma leading_less: "leading n < 2 ^ 24"
proof (cases "byte_size n \<le> 3")
  case True
  have "n * 256 ^ (3 - byte_size n) < 256 ^ byte_size n * 256 ^ (3 - byte_size n)"
    using byte_size_upper [of n] by simp
  also have "\<dots> = 256 ^ 3" using True by (simp flip: power_add)
  finally show ?thesis using True by (simp add: leading_def)
next
  case False
  have "(256::nat) ^ byte_size n = 256 ^ 3 * 256 ^ (byte_size n - 3)"
    using False by (simp only: power_add [symmetric]) simp
  then have "n < 256 ^ 3 * 256 ^ (byte_size n - 3)"
    using byte_size_upper [of n] by simp
  then have "n div 256 ^ (byte_size n - 3) < 256 ^ 3"
    by (simp add: less_mult_imp_div_less mult.commute)
  then show ?thesis using False by (simp add: leading_def)
qed

lemma mantissa_less: "mantissa n < 2 ^ 23"
proof -
  have "leading n div 256 < 2 ^ 16"
    using leading_less [of n] by (intro less_mult_imp_div_less) simp
  then show ?thesis by (auto simp: mantissa_def)
qed

lemma exponent_le: "n < 2 ^ 256 \<Longrightarrow> exponent n \<le> 33"
  using byte_size_le [of n 32] by (simp add: exponent_def)

subsection \<open>The word-level operations compute it\<close>

lemma unat_less_256: "unat (x :: u256) < 2 ^ 256"
  using unsigned_less [of x, where ?'a = nat] by simp

lemma unat_compact_leading:
  fixes x :: u256
  defines "s \<equiv> byte_size (unat x)"
  shows "unat (if s \<le> 3 then ucast (push_bit (8 * (3 - s)) (ucast x :: u64))
               else ucast (drop_bit (8 * (s - 3)) x) :: u32) = leading (unat x)"
proof (cases "s \<le> 3")
  case True
  have l: "leading (unat x) = unat x * 256 ^ (3 - s)" using True by (simp add: leading_def s_def)
  then have small: "unat x * 256 ^ (3 - s) < 2 ^ 24" using leading_less [of "unat x"] by simp
  moreover have "unat x \<le> unat x * 256 ^ (3 - s)" by simp
  ultimately have "unat x < 2 ^ 24" by linarith
  then have "unat (ucast x :: u64) = unat x" by (simp add: unsigned_ucast_eq take_bit_nat_eq_self)
  then have "unat (push_bit (8 * (3 - s)) (ucast x :: u64)) = take_bit 64 (unat x * 256 ^ (3 - s))"
    by (simp only: unsigned_push_bit_eq) (simp add: push_bit_eq_mult power_256 mult.commute)
  then have "unat (push_bit (8 * (3 - s)) (ucast x :: u64)) = unat x * 256 ^ (3 - s)"
    using small by (simp add: take_bit_nat_eq_self)
  then show ?thesis using True small by (simp add: l unsigned_ucast_eq take_bit_nat_eq_self)
next
  case False
  have l: "leading (unat x) = unat x div 256 ^ (s - 3)" using False by (simp add: leading_def s_def)
  then have "unat (drop_bit (8 * (s - 3)) x) = leading (unat x)"
    by (simp only: unat_drop_bit_eq) (simp add: drop_bit_eq_div power_256)
  then show ?thesis using False leading_less [of "unat x"]
    by (simp add: unsigned_ucast_eq take_bit_nat_eq_self)
qed

lemma and_sign_bit: "unat (w :: u32) < 2 ^ 24 \<Longrightarrow> w AND 0x00800000 \<noteq> 0 \<longleftrightarrow> 2 ^ 23 \<le> unat w"
proof -
  assume a: "unat w < 2 ^ 24"
  have "w AND 2 ^ 23 = 0 \<longleftrightarrow> \<not> bit w 23" by (rule and_exp_eq_0_iff_not_bit)
  moreover have "bit w 23 \<longleftrightarrow> odd (unat w div 2 ^ 23)"
    by (simp only: bit_iff_odd [symmetric]) (simp add: bit_unsigned_iff)
  moreover have "odd (unat w div 2 ^ 23) \<longleftrightarrow> 2 ^ 23 \<le> unat w"
  proof
    assume "odd (unat w div 2 ^ 23)"
    then have "unat w div 2 ^ 23 \<noteq> 0" by (metis even_zero)
    then show "2 ^ 23 \<le> unat w" by (simp add: div_eq_0_iff)
  next
    assume b: "2 ^ 23 \<le> unat w"
    have "unat w div 2 ^ 23 = 1" using a b by (auto simp: div_nat_eqI)
    then show "odd (unat w div 2 ^ 23)" by simp
  qed
  ultimately show ?thesis by simp
qed

lemma and_not_mantissa_mask: "unat (w :: u32) < 2 ^ 23 \<Longrightarrow> w AND NOT 0x007fffff = 0"
proof -
  assume a: "unat w < 2 ^ 23"
  have "take_bit 23 w = w"
    by (rule unsigned_word_eqI [where ?'a = nat]) (use a in \<open>simp add: unsigned_take_bit_eq take_bit_nat_eq_self\<close>)
  moreover have m: "mask 23 = (0x007fffff :: u32)" by (simp add: mask_eq_exp_minus_1)
  ultimately have "w = w AND 0x007fffff" by (metis take_bit_eq_mask)
  then show ?thesis by (metis and.assoc bit.conj_cancel_right and_zero_eq)
qed

lemma unat_or_exponent:
  assumes "unat (w :: u32) < 2 ^ 23" and "k < 256"
  shows "unat (w OR word_of_nat (k * 2 ^ 24)) = unat w + k * 2 ^ 24"
proof -
  have p: "(word_of_nat (k * 2 ^ 24) :: u32) = push_bit 24 (word_of_nat k)"
    by (simp add: push_bit_eq_mult mult.commute)
  have "take_bit 23 w = w"
    by (rule unsigned_word_eqI [where ?'a = nat]) (use assms in \<open>simp add: unsigned_take_bit_eq take_bit_nat_eq_self\<close>)
  then have "\<And>i. bit w i \<Longrightarrow> i < 23" by (metis bit_take_bit_iff)
  then have "w AND push_bit 24 (word_of_nat k) = 0"
    by (intro bit_word_eqI) (fastforce simp: bit_and_iff bit_push_bit_iff)
  then have "w OR word_of_nat (k * 2 ^ 24) = w + word_of_nat (k * 2 ^ 24)"
    unfolding p by (rule disjunctive_add_eq_or [symmetric])
  moreover have "unat (w + word_of_nat (k * 2 ^ 24)) = unat w + k * 2 ^ 24"
    using assms by (simp add: unat_word_ariths unat_of_nat)
  ultimately show ?thesis by simp
qed

lemma get_compact_eq:
  "get_compact x = Some (word_of_nat (mantissa (unat x) + exponent (unat x) * 2 ^ 24))"
proof -
  define n where "n = unat x"
  define c0 :: u32 where
    "c0 = (if byte_size n \<le> 3 then ucast (push_bit (8 * (3 - byte_size n)) (ucast x :: u64))
           else ucast (drop_bit (8 * (byte_size n - 3)) x))"
  have u0: "unat c0 = leading n" unfolding c0_def n_def by (rule unat_compact_leading)
  then have sign: "c0 AND 0x00800000 \<noteq> 0 \<longleftrightarrow> 2 ^ 23 \<le> leading n"
    using and_sign_bit [of c0] leading_less [of n] by simp
  define c where "c = (if 2 ^ 23 \<le> leading n then drop_bit 8 c0 else c0)"
  have u: "unat c = mantissa n"
    unfolding c_def mantissa_def by (auto simp: u0 unat_div drop_bit_eq_div)
  have k: "exponent n < 256" using exponent_le [OF unat_less_256, of x] by (simp add: n_def)
  have "get_compact x = (if \<not> (c AND NOT 0x007fffff = 0) then None else if \<not> exponent n < 256 then None
      else Some (c OR word_of_nat (exponent n * 2 ^ 24)))"
    unfolding get_compact_def Let_def u256_bits_def n_def [symmetric] byte_size_def [symmetric]
      c0_def [symmetric] sign c_def exponent_def
    by (simp split: if_split)
  also have "\<dots> = Some (c OR word_of_nat (exponent n * 2 ^ 24))"
    using and_not_mantissa_mask [of c] u mantissa_less [of n] k by simp
  also have "c OR word_of_nat (exponent n * 2 ^ 24) = word_of_nat (mantissa n + exponent n * 2 ^ 24)"
  proof -
    have "unat (c OR word_of_nat (exponent n * 2 ^ 24)) = mantissa n + exponent n * 2 ^ 24"
      using unat_or_exponent [of c "exponent n"] u mantissa_less [of n] k by simp
    then show ?thesis by (rule word_of_nat_eqI)
  qed
  finally show ?thesis by (simp add: n_def)
qed

lemma set_compact_eq:
  assumes "c < 2 ^ 23" and "k < 256"
  shows "set_compact (word_of_nat (c + k * 2 ^ 24)) =
    (if k \<le> 3 then Some (word_of_nat (c div 256 ^ (3 - k)))
     else if c \<noteq> 0 \<and> (k > 34 \<or> c > 0xff \<and> k > 33 \<or> c > 0xffff \<and> k > 32) then None
     else Some (push_bit (8 * (k - 3)) (word_of_nat c)))"
proof -
  define w :: u32 where "w = word_of_nat (c + k * 2 ^ 24)"
  have uw: "unat w = c + k * 2 ^ 24"
    unfolding w_def unat_of_nat using assms by simp
  have size: "unat (drop_bit 24 w) = k"
    using assms by (simp only: unat_drop_bit_eq) (simp add: uw drop_bit_eq_div)
  have m: "w AND 0x007fffff = take_bit 23 w"
    by (simp add: take_bit_eq_mask mask_eq_exp_minus_1)
  have "(c + k * 2 ^ 24) mod 2 ^ 23 = (c + 2 * k * 2 ^ 23) mod 2 ^ 23" by (simp add: mult.commute)
  also have "\<dots> = c mod 2 ^ 23" by (rule mod_mult_self1)
  finally have um: "unat (w AND 0x007fffff) = c"
    unfolding m unsigned_take_bit_eq uw using assms(1) by (simp add: take_bit_eq_mod)
  then have mc: "w AND 0x007fffff = word_of_nat c" by (rule word_of_nat_eqI)
  have "bit w 23 \<longleftrightarrow> odd (unat w div 2 ^ 23)"
    by (simp only: bit_iff_odd [symmetric]) (simp add: bit_unsigned_iff)
  also have "unat w div 2 ^ 23 = (c + 2 * k * 2 ^ 23) div 2 ^ 23" by (simp add: uw mult.commute)
  also have "\<dots> = 2 * k" using assms by (subst div_mult_self1) auto
  finally have "\<not> bit w 23" by simp
  then have sign: "w AND 0x00800000 = 0" using and_exp_eq_0_iff_not_bit [of w 23] by simp
  have d: "drop_bit (8 * (3 - k)) (word_of_nat c :: u32) = word_of_nat (c div 256 ^ (3 - k))"
  proof (rule unsigned_word_eqI [where ?'a = nat])
    have "c div 256 ^ (3 - k) \<le> c" by simp
    then have "c div 256 ^ (3 - k) < 2 ^ 32" by (rule le_less_trans) (use assms(1) in simp)
    then show "unat (drop_bit (8 * (3 - k)) (word_of_nat c :: u32)) = unat (word_of_nat (c div 256 ^ (3 - k)) :: u32)"
      using assms by (simp only: unat_drop_bit_eq) (simp add: unat_of_nat drop_bit_eq_div power_256)
  qed
  have uc: "(ucast (word_of_nat i :: u32) :: u256) = word_of_nat i" if "i < 2 ^ 23" for i :: nat
    by (rule unsigned_word_eqI [where ?'a = nat]) (use that in \<open>simp add: unsigned_ucast_eq unat_of_nat take_bit_nat_eq_self\<close>)
  have small: "c div 256 ^ (3 - k) < 2 ^ 23"
    using assms(1) by (metis div_le_dividend le_less_trans)
  have cmp: "(word_of_nat c :: u32) > 0xff \<longleftrightarrow> c > 0xff" "(word_of_nat c :: u32) > 0xffff \<longleftrightarrow> c > 0xffff"
    "(word_of_nat c :: u32) \<noteq> 0 \<longleftrightarrow> c \<noteq> 0"
    using assms(1) by (simp_all add: word_less_nat_alt unat_of_nat flip: unat_0_iff)
  show ?thesis
    unfolding set_compact_def w_def [symmetric] Let_def size mc sign
    by (simp add: d uc [OF small] uc [OF assms(1)] cmp)
qed

subsection \<open>Decoding an encoded target\<close>

lemma leading_lower: "n \<noteq> 0 \<Longrightarrow> 3 \<le> byte_size n \<Longrightarrow> 2 ^ 16 \<le> leading n"
proof -
  assume n: "n \<noteq> 0" and s: "3 \<le> byte_size n"
  have "(256::nat) ^ byte_size n = 256 * (2 ^ 16 * 256 ^ (byte_size n - 3))"
  proof -
    have "(256::nat) ^ byte_size n = 256 ^ 3 * 256 ^ (byte_size n - 3)"
      using s by (simp only: power_add [symmetric]) simp
    then show ?thesis by simp
  qed
  then have "2 ^ 16 * 256 ^ (byte_size n - 3) \<le> n"
    using byte_size_lower [OF n] by simp
  then have "2 ^ 16 \<le> n div 256 ^ (byte_size n - 3)"
    by (simp add: less_eq_div_iff_mult_less_eq)
  then show ?thesis using s by (cases "byte_size n = 3") (auto simp: leading_def)
qed

lemma exponent_0 [simp]: "exponent 0 = 0"
  by (simp add: exponent_def leading_def byte_size_def nat_bits.simps)

lemma exponent_small: "exponent n \<le> 3 \<Longrightarrow> mantissa n div 256 ^ (3 - exponent n) = n"
proof -
  assume e: "exponent n \<le> 3"
  show ?thesis
  proof (cases "2 ^ 23 \<le> leading n")
    case True
    then have s: "byte_size n \<le> 2" using e by (simp add: exponent_def)
    have "3 - byte_size n = Suc (2 - byte_size n)" using s by simp
    then have "leading n = n * 256 ^ (2 - byte_size n) * 256" using s by (simp add: leading_def)
    then have "mantissa n = n * 256 ^ (2 - byte_size n)" using True by (simp add: mantissa_def)
    moreover have "3 - exponent n = 2 - byte_size n" using True s by (simp add: exponent_def)
    ultimately show ?thesis by simp
  next
    case False
    then show ?thesis using e by (simp add: exponent_def mantissa_def leading_def)
  qed
qed

lemma exponent_large:
  assumes "3 < exponent n"
  shows "mantissa n = n div 256 ^ (exponent n - 3)" and "2 ^ 15 \<le> mantissa n"
proof -
  have n0: "n \<noteq> 0" using assms by (intro notI) simp
  have s: "3 \<le> byte_size n" using assms by (auto simp: exponent_def split: if_splits)
  have l: "leading n = n div 256 ^ (byte_size n - 3)" using s by (cases "byte_size n = 3") (auto simp: leading_def)
  show "mantissa n = n div 256 ^ (exponent n - 3)"
  proof (cases "2 ^ 23 \<le> leading n")
    case True
    have "exponent n - 3 = Suc (byte_size n - 3)" using True s by (simp add: exponent_def)
    then show ?thesis using True by (simp add: mantissa_def l flip: div_mult2_eq) (simp add: mult.commute)
  next
    case False
    then show ?thesis by (simp add: mantissa_def exponent_def l)
  qed
  show "2 ^ 15 \<le> mantissa n"
  proof (cases "2 ^ 23 \<le> leading n")
    case True
    then show ?thesis using div_le_mono [OF True, of 256] by (simp add: mantissa_def)
  next
    case False
    then show ?thesis using leading_lower [OF n0 s] by (simp add: mantissa_def)
  qed
qed

lemma set_get_compact:
  fixes t :: u256
  defines "k \<equiv> exponent (unat t) - 3"
  shows "Option.bind (get_compact t) set_compact = Some (word_of_nat (unat t div 256 ^ k * 256 ^ k))"
proof -
  define n where "n = unat t"
  have e: "exponent n \<le> 33" unfolding n_def by (rule exponent_le [OF unat_less_256])
  have "Option.bind (get_compact t) set_compact = set_compact (word_of_nat (mantissa n + exponent n * 2 ^ 24))"
    by (simp only: get_compact_eq n_def Option.bind.simps)
  also have "\<dots> = Some (word_of_nat (n div 256 ^ k * 256 ^ k))"
  proof (cases "exponent n \<le> 3")
    case True
    then show ?thesis using mantissa_less [of n] e exponent_small [OF True]
      by (simp only: set_compact_eq k_def n_def [symmetric]) simp
  next
    case False
    then have m: "mantissa n = n div 256 ^ k" using exponent_large(1) [of n] by (simp add: k_def n_def)
    have "n div 256 ^ k * 256 ^ k \<le> n" by simp
    moreover have "mantissa n \<le> 0xffff" if "exponent n > 32"
    proof -
      have "n div 256 ^ k < 2 ^ 16"
      proof (rule less_mult_imp_div_less)
        have "k = 30" using that e by (simp add: k_def n_def)
        then show "n < 2 ^ 16 * 256 ^ k" using unat_less_256 [of t] by (simp add: n_def)
      qed
      then show ?thesis by (simp add: m)
    qed
    ultimately show ?thesis
      using False e mantissa_less [of n]
      by (subst set_compact_eq) (auto simp: m push_bit_eq_mult power_256 k_def n_def [symmetric] mult.commute)
  qed
  finally show ?thesis by (simp add: n_def)
qed

lemma unat_set_get_compact:
  "unat (word_of_nat (unat (t :: u256) div 256 ^ k * 256 ^ k) :: u256) = unat t div 256 ^ k * 256 ^ k"
proof -
  have "unat t div 256 ^ k * 256 ^ k \<le> unat t" by simp
  then have "unat t div 256 ^ k * 256 ^ k < 2 ^ 256" using unat_less_256 [of t] by linarith
  then show ?thesis by (simp only: unat_of_nat) simp
qed

lemma compact_truncates:
  "\<exists>c t' k. get_compact t = Some c \<and> set_compact c = Some t'
     \<and> unat t' = unat t div 256 ^ k * 256 ^ k \<and> (k = 0 \<or> 2 ^ 15 \<le> unat t div 256 ^ k)"
proof -
  define k where "k = exponent (unat t) - 3"
  obtain c where c: "get_compact t = Some c" using get_compact_eq by blast
  then have "set_compact c = Some (word_of_nat (unat t div 256 ^ k * 256 ^ k))"
    using set_get_compact [of t] by (simp add: k_def)
  moreover have "k = 0 \<or> 2 ^ 15 \<le> unat t div 256 ^ k"
    using exponent_large [of "unat t"] by (cases "3 < exponent (unat t)") (auto simp: k_def)
  ultimately show ?thesis using c unat_set_get_compact by blast
qed

lemma div_truncation_error:
  assumes "t' = t div 256 ^ k * 256 ^ k" and "k = 0 \<or> 2 ^ 15 \<le> t div (256 :: nat) ^ k"
  shows "t' \<le> t" and "(t - t') * 2 ^ 15 \<le> t"
proof -
  show "t' \<le> t" using assms(1) by simp
  have "t - t' = t mod 256 ^ k" using assms(1) by (simp add: minus_div_mult_eq_mod)
  moreover have "t mod 256 ^ k * 2 ^ 15 \<le> t"
  proof (cases "k = 0")
    case False
    have "t mod 256 ^ k * 2 ^ 15 \<le> 256 ^ k * (t div 256 ^ k)"
      using assms(2) False by (intro mult_le_mono) auto
    also have "\<dots> \<le> t" by (simp add: mult.commute)
    finally show ?thesis .
  qed simp
  ultimately show "(t - t') * 2 ^ 15 \<le> t" by simp
qed

text \<open>
  The compact encoding of a target never fails and decodes to a target that is not larger and
  differs by at most one part in \<open>2 ^ 15\<close>; the decoded target is the original with a number of low
  bytes cleared.
\<close>

theorem compact_roundtrip:
  "\<exists>c t' k. get_compact t = Some c \<and> set_compact c = Some t'
     \<and> unat t' = unat t div 256 ^ k * 256 ^ k \<and> unat t' \<le> unat t \<and> (unat t - unat t') * 2 ^ 15 \<le> unat t"
  using compact_truncates [of t] div_truncation_error by blast

subsection \<open>Retargeting\<close>

definition clamped_timespan :: "nat \<Rightarrow> nat \<Rightarrow> nat" where
  "clamped_timespan first_time last_time =
     max (TARGET_TIMESPAN div 4) (min (TARGET_TIMESPAN * 4) (last_time - first_time))"

definition ideal_next_target :: "nat \<Rightarrow> nat \<Rightarrow> nat \<Rightarrow> nat" where
  "ideal_next_target prev first_time last_time =
     min (2 ^ 224 - 1) (prev * clamped_timespan first_time last_time div TARGET_TIMESPAN)"

lemma unat_UNROUNDED_MAX_TARGET: "unat UNROUNDED_MAX_TARGET = 2 ^ 224 - 1"
  unfolding UNROUNDED_MAX_TARGET_def unat_of_nat by simp

lemma timespan_values:
  "TARGET_TIMESPAN = 1209600" "TARGET_TIMESPAN_DIVISOR = 4"
  by (simp_all add: TARGET_TIMESPAN_def TARGET_TIMESPAN_DIVISOR_def)

lemma clamped_timespan_le: "clamped_timespan a b \<le> 2 ^ 23"
  by (simp add: clamped_timespan_def timespan_values)

lemma calculate_next_work_required_eq:
  assumes "unat prev * clamped_timespan first_time last_time < 2 ^ 256"
  shows "\<exists>capped. unat capped = ideal_next_target (unat prev) first_time last_time
     \<and> calculate_next_work_required prev first_time last_time = ok_or (get_compact capped) InvalidCompact"
proof -
  let ?span = "clamped_timespan first_time last_time"
  define target :: u256 where "target = word_of_nat (unat prev * ?span) div word_of_nat TARGET_TIMESPAN"
  have "unat (word_of_nat (unat prev * ?span) :: u256) = unat prev * ?span"
    unfolding unat_of_nat using assms by simp
  moreover have "unat (word_of_nat TARGET_TIMESPAN :: u256) = TARGET_TIMESPAN"
    unfolding unat_of_nat by (simp add: timespan_values)
  ultimately have target: "unat target = unat prev * ?span div TARGET_TIMESPAN"
    by (simp add: target_def unat_div)
  define capped where "capped = (if target > UNROUNDED_MAX_TARGET then UNROUNDED_MAX_TARGET else target)"
  have "unat capped = ideal_next_target (unat prev) first_time last_time"
    by (auto simp: capped_def ideal_next_target_def target word_less_nat_alt unat_UNROUNDED_MAX_TARGET min_def)
  moreover have "?span = (let s = last_time - first_time;
             s = (if s < TARGET_TIMESPAN div TARGET_TIMESPAN_DIVISOR then TARGET_TIMESPAN div TARGET_TIMESPAN_DIVISOR else s)
         in if s > TARGET_TIMESPAN * TARGET_TIMESPAN_DIVISOR then TARGET_TIMESPAN * TARGET_TIMESPAN_DIVISOR else s)"
    by (auto simp: clamped_timespan_def timespan_values Let_def)
  then have "calculate_next_work_required prev first_time last_time = ok_or (get_compact capped) InvalidCompact"
    using assms unfolding calculate_next_work_required_def capped_def target_def Let_def by simp
  ultimately show ?thesis by blast
qed

text \<open>
  C39: From a target within the maximum, the retarget rule always yields an encodable target. The new
  target is the previous one scaled by the elapsed time, which is clamped to a quarter and to four
  times the two-week timespan, capped by the maximum target, and then rounded down by the compact
  encoding by at most one part in \<open>2 ^ 15\<close>. No intermediate product overflows.
\<close>

theorem next_work_required_correct:
  assumes "prev \<le> UNROUNDED_MAX_TARGET"
  shows "\<exists>c t'. calculate_next_work_required prev first_time last_time = Inr c \<and> set_compact c = Some t'
     \<and> unat t' \<le> ideal_next_target (unat prev) first_time last_time
     \<and> (ideal_next_target (unat prev) first_time last_time - unat t') * 2 ^ 15
         \<le> ideal_next_target (unat prev) first_time last_time"
proof -
  have "unat prev \<le> 2 ^ 224 - 1"
    using assms by (simp add: word_le_nat_alt unat_UNROUNDED_MAX_TARGET)
  then have "unat prev * clamped_timespan first_time last_time \<le> (2 ^ 224 - 1) * 2 ^ 23"
    using clamped_timespan_le by (rule mult_le_mono)
  then have "unat prev * clamped_timespan first_time last_time < 2 ^ 256" by (rule le_less_trans) simp
  then obtain capped where capped: "unat capped = ideal_next_target (unat prev) first_time last_time"
    "calculate_next_work_required prev first_time last_time = ok_or (get_compact capped) InvalidCompact"
    using calculate_next_work_required_eq by blast
  moreover obtain c t' k where "get_compact capped = Some c" "set_compact c = Some t'"
    and t': "unat t' = unat capped div 256 ^ k * 256 ^ k" "k = 0 \<or> 2 ^ 15 \<le> unat capped div 256 ^ k"
    using compact_truncates [of capped] by blast
  ultimately show ?thesis
    using div_truncation_error [OF t'] by auto
qed

lemma next_work_required_witness:
  "\<exists>c t'. calculate_next_work_required 0xffff0000 0 1209600 = Inr c \<and> set_compact c = Some t'
     \<and> unat t' \<le> ideal_next_target (unat (0xffff0000 :: u256)) 0 1209600
     \<and> (ideal_next_target (unat (0xffff0000 :: u256)) 0 1209600 - unat t') * 2 ^ 15
         \<le> ideal_next_target (unat (0xffff0000 :: u256)) 0 1209600"
  by (rule next_work_required_correct) (simp add: UNROUNDED_MAX_TARGET_def)

end
