(* ===== verification/Bitcoin_Formatter.thy ===== *)
theory Bitcoin_Formatter
  imports Bitcoin_Script Bitcoin_Compact
begin

text \<open>
  Formatting of transactions, headers and blocks (\<^verbatim>\<open>src/crates/bitcoin/src/formatter.rs\<close>) and the
  transaction identifiers computed from it (\<^verbatim>\<open>types.rs\<close>). The lemmas reduce each formatter to its
  sequence of writes, and the properties say that the bounded identifier computation agrees with the
  unbounded one exactly when the transaction fits the bound.
\<close>

subsection \<open>Formatters\<close>

definition try_format_script :: "'w write_fn \<Rightarrow> script \<Rightarrow> 'w \<Rightarrow> 'w bres" where
  "try_format_script wr s w = try_format_vec wr (\<lambda>b. try_format_int wr (b :: byte)) (script_bytes s) w"

fun input_outpoint :: "transaction_input_source \<Rightarrow> h256le \<times> u32" where
  "input_outpoint (Coinbase _) = (h256le_zero, 0xffffffff)"
| "input_outpoint (FromOutput hash index) = (hash, index)"

text \<open>\<^verbatim>\<open>usize::saturating_add\<close> on two slice lengths never saturates.\<close>

definition try_format_input :: "'w write_fn \<Rightarrow> transaction_input \<Rightarrow> 'w \<Rightarrow> 'w bres" where
  "try_format_input wr inp w =
     (let (previous_hash, previous_index) = input_outpoint (ti_source inp) in
      rbind (try_format_h256le wr previous_hash w) (\<lambda>w.
      rbind (try_format_int wr previous_index w) (\<lambda>w.
      rbind (case ti_source inp of
               Coinbase (Some height) \<Rightarrow>
                 rbind (script_height height) (\<lambda>height_bytes.
                 rbind (try_format_compact_uint wr
                          (compact_from_usize (length (ti_script inp) + script_len height_bytes)) w) (\<lambda>w.
                 try_format_bytes wr (script_bytes height_bytes) w))
             | _ \<Rightarrow> try_format_compact_uint wr (compact_from_usize (length (ti_script inp))) w) (\<lambda>w.
      rbind (wr w (ti_script inp)) (\<lambda>w.
      try_format_int wr (ti_sequence inp) w)))))"

definition try_format_output :: "'w write_fn \<Rightarrow> transaction_output \<Rightarrow> 'w \<Rightarrow> 'w bres" where
  "try_format_output wr out w =
     rbind (try_format_int wr (to_value out) w) (\<lambda>w. try_format_script wr (to_script out) w)"

fun try_format_lock_time :: "'w write_fn \<Rightarrow> lock_time \<Rightarrow> 'w \<Rightarrow> 'w bres" where
  "try_format_lock_time wr (BlockHeight b) w = try_format_int wr b w"
| "try_format_lock_time wr (Time b) w = try_format_int wr b w"

definition WITNESS_FLAG :: byte where "WITNESS_FLAG = 0x01"
definition WITNESS_MARKER :: byte where "WITNESS_MARKER = 0x00"

abbreviation try_format_byte_vec :: "'w write_fn \<Rightarrow> byte list \<Rightarrow> 'w \<Rightarrow> 'w bres" where
  "try_format_byte_vec wr \<equiv> try_format_vec wr (\<lambda>b. try_format_int wr b)"

definition try_format_transaction :: "'w write_fn \<Rightarrow> transaction \<Rightarrow> 'w \<Rightarrow> 'w bres" where
  "try_format_transaction wr tx w =
     rbind (try_format_int wr (tx_version tx) w) (\<lambda>w.
     rbind (if \<not> has_witness tx then
              rbind (try_format_vec wr (try_format_input wr) (tx_inputs tx) w) (\<lambda>w.
              try_format_vec wr (try_format_output wr) (tx_outputs tx) w)
            else
              rbind (try_format_int wr WITNESS_MARKER w) (\<lambda>w.
              rbind (try_format_int wr WITNESS_FLAG w) (\<lambda>w.
              rbind (try_format_vec wr (try_format_input wr) (tx_inputs tx) w) (\<lambda>w.
              rbind (try_format_vec wr (try_format_output wr) (tx_outputs tx) w) (\<lambda>w.
              try_format_each (\<lambda>inp. try_format_vec wr (try_format_byte_vec wr) (ti_witness inp)) (tx_inputs tx) w)))))
     (\<lambda>w. try_format_lock_time wr (tx_lock_at tx) w))"

definition format_no_witness :: "'w write_fn \<Rightarrow> transaction \<Rightarrow> 'w \<Rightarrow> 'w bres" where
  "format_no_witness wr tx w =
     rbind (try_format_int wr (tx_version tx) w) (\<lambda>w.
     rbind (try_format_vec wr (try_format_input wr) (tx_inputs tx) w) (\<lambda>w.
     rbind (try_format_vec wr (try_format_output wr) (tx_outputs tx) w) (\<lambda>w.
     try_format_lock_time wr (tx_lock_at tx) w)))"

definition try_format_u256 :: "'w write_fn \<Rightarrow> u256 \<Rightarrow> 'w \<Rightarrow> 'w bres" where
  "try_format_u256 wr x w = rbind (ok_or (get_compact x) InvalidCompact) (\<lambda>bits. wr w (to_le bits))"

definition try_format_header :: "'w write_fn \<Rightarrow> block_header \<Rightarrow> 'w \<Rightarrow> 'w bres" where
  "try_format_header wr h w =
     rbind (try_format_int wr (bh_version h) w) (\<lambda>w.
     rbind (try_format_h256le wr (bh_hash_prev_block h) w) (\<lambda>w.
     rbind (try_format_h256le wr (bh_merkle_root h) w) (\<lambda>w.
     rbind (try_format_int wr (bh_timestamp h) w) (\<lambda>w.
     rbind (try_format_u256 wr (bh_target h) w) (\<lambda>w.
     try_format_int wr (bh_nonce h) w)))))"

definition try_format_block :: "'w write_fn \<Rightarrow> block \<Rightarrow> 'w \<Rightarrow> 'w bres" where
  "try_format_block wr b w =
     rbind (try_format_header wr (bl_header b) w) (\<lambda>w.
     try_format_vec wr (try_format_transaction wr) (bl_transactions b) w)"

subsection \<open>Identifiers\<close>

text \<open>\<^verbatim>\<open>expect\<close> turns an error of the formatter into a panic.\<close>

definition expect_ok :: "'a bres \<Rightarrow> 'a bres" where
  "expect_ok m = (case m of Inr x \<Rightarrow> Inr x | Inl _ \<Rightarrow> Inl Panic)"

definition tx_id_bounded :: "digest \<Rightarrow> transaction \<Rightarrow> nat \<Rightarrow> h256le bres" where
  "tx_id_bounded sha256 tx length_bound =
     rbind (format_no_witness bounded_write tx (bounded_new length_bound)) (\<lambda>bytes.
     Inr (sha256d_le sha256 (bounded_result bytes)))"

definition tx_id :: "digest \<Rightarrow> transaction \<Rightarrow> h256le bres" where
  "tx_id sha256 tx =
     rbind (expect_ok (format_no_witness vec_write tx [])) (\<lambda>bytes. Inr (sha256d_le sha256 bytes))"

definition tx_hash :: "digest \<Rightarrow> transaction \<Rightarrow> h256le bres" where
  "tx_hash sha256 tx =
     rbind (expect_ok (try_format_transaction vec_write tx [])) (\<lambda>bytes. Inr (sha256d_le sha256 bytes))"

definition size_no_witness :: "transaction \<Rightarrow> nat bres" where
  "size_no_witness tx = rbind (expect_ok (format_no_witness vec_write tx [])) (\<lambda>bytes. Inr (length bytes))"

definition header_hash :: "digest \<Rightarrow> block_header \<Rightarrow> h256le bres" where
  "header_hash sha256 h =
     rbind (try_format_header vec_write h []) (\<lambda>bytes. Inr (sha256d_le sha256 bytes))"

definition update_hash :: "digest \<Rightarrow> block_header \<Rightarrow> (h256le \<times> block_header) bres" where
  "update_hash sha256 h =
     rbind (header_hash sha256 h) (\<lambda>new_hash. Inr (new_hash, h\<lparr>bh_hash := new_hash\<rparr>))"

subsection \<open>The writes of each formatter\<close>

definition enc_compact :: "u64 \<Rightarrow> byte list" where
  "enc_compact v = concat (chunks_compact_uint v)"

text \<open>The encoding of a byte vector: its length, then its bytes.\<close>

definition enc_byte_vec :: "byte list \<Rightarrow> byte list" where
  "enc_byte_vec bs = enc_compact (word_of_nat (length bs)) @ bs"

fun chunks_script_len :: "transaction_input_source \<Rightarrow> byte list \<Rightarrow> byte list list" where
  "chunks_script_len (Coinbase (Some height)) scr =
     (let height_bytes = concat (chunks_byte_vec (height_payload height))
      in chunks_compact_uint (word_of_nat (length scr + length height_bytes)) @ [height_bytes])"
| "chunks_script_len (Coinbase None) scr = chunks_compact_uint (word_of_nat (length scr))"
| "chunks_script_len (FromOutput _ _) scr = chunks_compact_uint (word_of_nat (length scr))"

definition chunks_input :: "transaction_input \<Rightarrow> byte list list" where
  "chunks_input inp =
     [to_le (fst (input_outpoint (ti_source inp))), to_le (snd (input_outpoint (ti_source inp)))]
     @ chunks_script_len (ti_source inp) (ti_script inp) @ [ti_script inp, to_le (ti_sequence inp)]"

definition chunks_output :: "transaction_output \<Rightarrow> byte list list" where
  "chunks_output out = to_le (to_value out) # chunks_byte_vec (script_bytes (to_script out))"

fun lock_time_bits :: "lock_time \<Rightarrow> u32" where
  "lock_time_bits (BlockHeight b) = b"
| "lock_time_bits (Time b) = b"

definition chunks_no_witness :: "transaction \<Rightarrow> byte list list" where
  "chunks_no_witness tx = [to_le (tx_version tx)] @ chunks_vec chunks_input (tx_inputs tx)
     @ chunks_vec chunks_output (tx_outputs tx) @ [to_le (lock_time_bits (tx_lock_at tx))]"

definition chunks_transaction :: "transaction \<Rightarrow> byte list list" where
  "chunks_transaction tx =
     (if \<not> has_witness tx then chunks_no_witness tx
      else [to_le (tx_version tx), to_le WITNESS_MARKER, to_le WITNESS_FLAG] @ chunks_vec chunks_input (tx_inputs tx)
        @ chunks_vec chunks_output (tx_outputs tx)
        @ concat (map (\<lambda>inp. chunks_vec chunks_byte_vec (ti_witness inp)) (tx_inputs tx))
        @ [to_le (lock_time_bits (tx_lock_at tx))])"

lemma script_height_eq: "script_height height = Inr (Script (concat (chunks_byte_vec (height_payload height))))"
  by (simp add: script_height_def script_new_def)

lemma try_format_script_chunks:
  "try_format_script wr s w = write_all wr (chunks_byte_vec (script_bytes s)) w"
  by (simp add: try_format_script_def try_format_byte_vec_chunks)

lemma try_format_output_chunks: "try_format_output wr out w = write_all wr (chunks_output out) w"
  by (simp add: try_format_output_def chunks_output_def try_format_int_def try_format_script_chunks)

lemma try_format_lock_time_chunks:
  "try_format_lock_time wr l w = write_all wr [to_le (lock_time_bits l)] w"
  by (cases l) (simp_all add: try_format_int_def)

lemma try_format_input_chunks: "try_format_input wr inp w = write_all wr (chunks_input inp) w"
proof -
  have len: "(case ti_source inp of
               Coinbase (Some height) \<Rightarrow>
                 rbind (script_height height) (\<lambda>height_bytes.
                 rbind (try_format_compact_uint wr
                          (compact_from_usize (length (ti_script inp) + script_len height_bytes)) w) (\<lambda>w.
                 try_format_bytes wr (script_bytes height_bytes) w))
             | _ \<Rightarrow> try_format_compact_uint wr (compact_from_usize (length (ti_script inp))) w)
     = write_all wr (chunks_script_len (ti_source inp) (ti_script inp)) w" for w
    by (cases "(ti_source inp, ti_script inp)" rule: chunks_script_len.cases)
      (simp_all add: script_height_eq try_format_compact_uint_chunks write_all_append script_len_def
        compact_from_usize_def try_format_bytes_def [abs_def] Let_def)
  show ?thesis
    unfolding try_format_input_def chunks_input_def len
    by (simp add: case_prod_beta try_format_h256le_def try_format_int_def [abs_def] write_all_append
        h256le_to_bytes_le_def rbind_assoc)
qed

lemma format_no_witness_chunks: "format_no_witness wr tx w = write_all wr (chunks_no_witness tx) w"
  by (simp add: format_no_witness_def chunks_no_witness_def write_all_append try_format_int_def
      try_format_lock_time_chunks try_format_vec_chunks [where ch = chunks_input, OF try_format_input_chunks]
      try_format_vec_chunks [where ch = chunks_output, OF try_format_output_chunks])

lemma try_format_witness_chunks:
  "try_format_vec wr (try_format_byte_vec wr) ws w = write_all wr (chunks_vec chunks_byte_vec ws) w"
  by (rule try_format_vec_chunks) (rule try_format_byte_vec_chunks)

lemma try_format_transaction_chunks:
  "try_format_transaction wr tx w = write_all wr (chunks_transaction tx) w"
  by (simp add: try_format_transaction_def chunks_transaction_def chunks_no_witness_def write_all_append
      try_format_int_def try_format_lock_time_chunks rbind_assoc
      try_format_vec_chunks [where ch = chunks_input, OF try_format_input_chunks]
      try_format_vec_chunks [where ch = chunks_output, OF try_format_output_chunks]
      try_format_each_chunks [where ch = "\<lambda>inp. chunks_vec chunks_byte_vec (ti_witness inp)", OF try_format_witness_chunks])

subsection \<open>Sizes of writes\<close>

lemma chunks_compact_uint_small: "c \<in> set (chunks_compact_uint v) \<Longrightarrow> length c \<le> 8"
  by (auto simp: chunks_compact_uint_def split: if_splits)

lemma chunks_vec_small:
  assumes "c \<in> set (chunks_vec ch xs)" and "\<And>x c. x \<in> set xs \<Longrightarrow> c \<in> set (ch x) \<Longrightarrow> length c < n" and "8 < n"
  shows "length c < n"
  using assms by (fastforce simp: chunks_vec_def dest: chunks_compact_uint_small)

lemma chunks_byte_vec_small: "c \<in> set (chunks_byte_vec bs) \<Longrightarrow> length c \<le> 8"
  by (auto simp: chunks_byte_vec_def chunks_vec_def dest: chunks_compact_uint_small)

lemma length_remove_nth: "length (remove_nth i xs) \<le> length xs"
  by (cases "i < length xs") auto

lemma length_height_strip: "length (height_strip is bs) \<le> length bs"
proof (induction "is" bs rule: height_strip.induct)
  case (2 i "is" bs)
  then show ?case using length_remove_nth [of i bs] by (auto simp del: remove_nth.simps)
qed simp

lemma length_height_payload: "length (height_payload h) \<le> 5"
  using length_height_strip [of "[3, 2, 1]" "to_le h"]
  by (auto simp: height_payload_def Let_def simp del: height_strip.simps split: list.splits)

lemma length_concat_chunks_compact: "length (concat (chunks_compact_uint v)) \<le> 9"
  by (auto simp: chunks_compact_uint_def)

lemma chunks_input_small:
  assumes "length (ti_script inp) < 2 ^ 32" and "c \<in> set (chunks_input inp)"
  shows "length c < 2 ^ 32"
proof -
  have "length (concat (chunks_byte_vec (height_payload h))) \<le> 14" for h
    using length_concat_chunks_compact [of "word_of_nat (length (height_payload h))"] length_height_payload [of h]
    by (simp add: concat_chunks_byte_vec)
  then have "length (concat (chunks_byte_vec (height_payload h))) < 2 ^ 32" for h
    by (rule le_less_trans) simp
  then have "d \<in> set (chunks_script_len (ti_source inp) (ti_script inp)) \<Longrightarrow> length d < 2 ^ 32" for d
    by (cases "(ti_source inp, ti_script inp)" rule: chunks_script_len.cases)
      (fastforce dest: chunks_compact_uint_small simp: Let_def)+
  then show ?thesis using assms by (auto simp: chunks_input_def)
qed

lemma chunks_no_witness_small:
  assumes "\<forall>inp \<in> set (tx_inputs tx). length (ti_script inp) < 2 ^ 32"
  shows "\<forall>c \<in> set (chunks_no_witness tx). length c < 2 ^ 32"
proof -
  have "\<forall>c \<in> set (chunks_vec chunks_input (tx_inputs tx)). length c < 2 ^ 32"
    using chunks_input_small assms by (intro ballI, elim chunks_vec_small) auto
  moreover have "\<forall>c \<in> set (chunks_vec chunks_output (tx_outputs tx)). length c < 2 ^ 32"
    by (intro ballI, elim chunks_vec_small) (auto simp: chunks_output_def dest: chunks_byte_vec_small)
  ultimately show ?thesis by (auto simp: chunks_no_witness_def)
qed

lemma tx_id_bounded_eq:
  assumes "\<forall>inp \<in> set (tx_inputs tx). length (ti_script inp) < 2 ^ 32"
  shows "tx_id_bounded sha256 tx bound =
     rbind (size_no_witness tx) (\<lambda>n. if n \<le> bound then tx_id sha256 tx else Inl (Err BoundExceeded))"
proof -
  let ?cs = "chunks_no_witness tx" and ?w = "bounded_new bound"
  note small = chunks_no_witness_small [OF assms]
  have room: "bw_length_bound ?w = bound" "bw_bytes ?w = []" by (simp_all add: bounded_new_def)
  have vec: "format_no_witness vec_write tx [] = Inr (concat ?cs)"
    by (simp add: format_no_witness_chunks write_all_vec)
  show ?thesis
  proof (cases "length (concat ?cs) \<le> bound")
    case True
    then obtain w' where w': "write_all bounded_write ?cs ?w = Inr w'"
      using bounded.write_all_ok [OF small, of ?w] room by auto
    then have "bw_bytes w' = concat ?cs" using bounded.write_all_out [OF w'] room by simp
    then show ?thesis using True w' vec
      by (simp add: tx_id_bounded_def format_no_witness_chunks size_no_witness_def tx_id_def expect_ok_def
          bounded_result_def)
  next
    case False
    then have "write_all bounded_write ?cs ?w = Inl (Err BoundExceeded)"
      using bounded.write_all_full [OF small, of ?w] room by simp
    then show ?thesis using False vec
      by (simp add: tx_id_bounded_def format_no_witness_chunks size_no_witness_def expect_ok_def)
  qed
qed

text \<open>
  The bounded transaction identifier equals the unbounded one exactly when the serialised size
  without witnesses is within the bound, and fails with \<open>BoundExceeded\<close> otherwise, for transactions
  whose input scripts have a length that fits 32 bits (longer ones are undercharged by the cast of the
  length).
\<close>

theorem tx_id_bounded_correct:
  assumes "\<forall>inp \<in> set (tx_inputs tx). length (ti_script inp) < 2 ^ 32"
  shows "tx_id_bounded sha256 tx bound =
     rbind (size_no_witness tx) (\<lambda>n. if n \<le> bound then tx_id sha256 tx else Inl (Err BoundExceeded))"
  by (rule tx_id_bounded_eq [OF assms])

lemma tx_id_bounded_witness:
  "tx_id_bounded (\<lambda>_. 0)
     \<lparr>tx_version = 2, tx_inputs = [\<lparr>ti_source = FromOutput 7 0, ti_script = [1, 2], ti_sequence = 0, ti_witness = []\<rparr>],
      tx_outputs = [], tx_lock_at = BlockHeight 0\<rparr> 10
   = Inl (Err BoundExceeded)"
  by (subst tx_id_bounded_correct)
    (simp_all add: size_no_witness_def format_no_witness_chunks write_all_vec expect_ok_def chunks_no_witness_def
      chunks_vec_def chunks_input_def chunks_compact_uint_def vec_write_def)

end
