(* ===== verification/Bitcoin_Parser.thy ===== *)
theory Bitcoin_Parser
  imports Bitcoin_Formatter
begin

unbundle bit_operations_syntax

text \<open>
  The parser of the Bitcoin wire format (\<^verbatim>\<open>src/crates/bitcoin/src/parser.rs\<close>). The stateful
  \<^verbatim>\<open>BytesParser\<close> is the record \<open>bytes_parser\<close>, and an implementation of the trait \<^verbatim>\<open>Parsable\<close> is a
  function from the raw bytes and a position to the parsed value and the number of bytes consumed.

  Positions are \<^verbatim>\<open>usize\<close> values of 64 bits. \<open>bp_read\<close> computes the end of a range with the
  wrap-around of an unchecked addition; a wrapped range is rejected by the slice access.
\<close>

type_synonym 'a parsable = "byte list \<Rightarrow> nat \<Rightarrow> ('a \<times> nat) bres"

record bytes_parser =
  raw_bytes :: "byte list"
  position :: nat

type_synonym 'a parser = "(bytes_parser, bitcoin_error, 'a) action"

definition bytes_parser_new :: "byte list \<Rightarrow> bytes_parser" where
  "bytes_parser_new bytes = \<lparr>raw_bytes = bytes, position = 0\<rparr>"

definition advance :: "nat \<Rightarrow> unit parser" where
  "advance n p = rbind (ok_or (checked_add_w 64 (position p) n) ArithmeticOverflow)
     (\<lambda>q. Inr ((), p\<lparr>position := q\<rparr>))"

definition bp_parse :: "'a parsable \<Rightarrow> 'a parser" where
  "bp_parse parse p = rbind (parse (raw_bytes p) (position p)) (\<lambda>(result, bytes_consumed).
     rbind (advance bytes_consumed p) (\<lambda>(_, p). Inr (result, p)))"

definition bp_read :: "nat \<Rightarrow> byte list parser" where
  "bp_read bytes_count p =
     rbind (ok_or (slice_get (raw_bytes p) (position p) ((position p + bytes_count) mod 2 ^ 64)) EndOfFile) (\<lambda>bytes.
     rbind (advance bytes_count p) (\<lambda>(_, p). Inr (bytes, p)))"

subsection \<open>Base types\<close>

definition parse_int :: "'a::len word parsable" where
  "parse_int raw pos =
     (let n = LENGTH('a) div 8
      in if pos + n > length raw then Inl (Err EndOfFile)
         else Inr (from_le (take n (drop pos raw)), n))"

definition parse_compact_uint :: "byte list \<Rightarrow> (u64 \<times> nat) bres" where
  "parse_compact_uint varint =
     rbind (ok_or (index_get varint 0) EndOfFile) (\<lambda>b.
     if b = 0xfd then rbind (ok_or (slice_get varint 1 3) EndOfFile) (\<lambda>bs. Inr (ucast (from_le bs :: u16), 3))
     else if b = 0xfe then rbind (ok_or (slice_get varint 1 5) EndOfFile) (\<lambda>bs. Inr (ucast (from_le bs :: u32), 5))
     else if b = 0xff then rbind (ok_or (slice_get varint 1 9) EndOfFile) (\<lambda>bs. Inr (from_le bs :: u64, 9))
     else Inr (ucast b, 1))"

definition parse_compact :: "u64 parsable" where
  "parse_compact raw pos =
     rbind (ok_or (slice_from raw pos) EndOfFile) (\<lambda>slice.
     rbind (parse_compact_uint slice) (\<lambda>(v, bytes_consumed). Inr (v, bytes_consumed)))"

definition parse_h256le :: "h256le parsable" where
  "parse_h256le raw pos =
     rbind (ok_or (slice_get raw pos (pos + 32)) EndOfFile) (\<lambda>slice.
     rbind (h256le_from_bytes_le slice) (\<lambda>h. Inr (h, 32)))"

text \<open>A target is stored in its compact form.\<close>

definition parse_u256 :: "u256 parsable" where
  "parse_u256 raw pos =
     (if pos + 4 > length raw then Inl (Err EndOfFile)
      else rbind (ok_or (set_compact (from_le (take 4 (drop pos raw)))) InvalidCompact) (\<lambda>c. Inr (c, 4)))"

definition parse_flag_bits :: "bool list parsable" where
  "parse_flag_bits raw pos =
     rbind (ok_or (index_get raw pos) EndOfFile) (\<lambda>b.
     Inr (map (\<lambda>i. b AND push_bit i 1 \<noteq> 0) [0..<8], 1))"

primrec parse_count :: "'a parsable \<Rightarrow> nat \<Rightarrow> 'a list parser" where
  "parse_count parse 0 = sret []"
| "parse_count parse (Suc n) = sbind (bp_parse parse) (\<lambda>x. sbind (parse_count parse n) (\<lambda>xs. sret (x # xs)))"

definition parse_vec :: "'a parsable \<Rightarrow> 'a list parsable" where
  "parse_vec parse raw pos =
     rbind (ok_or (slice_from raw pos) EndOfFile) (\<lambda>slice.
     rbind (bp_parse parse_compact (bytes_parser_new slice)) (\<lambda>(count, p).
     rbind (parse_count parse (unat count) p) (\<lambda>(result, p). Inr (result, position p))))"

subsection \<open>Headers\<close>

definition parse_block_header :: "digest \<Rightarrow> byte list \<Rightarrow> block_header bres" where
  "parse_block_header sha256 bytes =
     rbind (bp_parse parse_int (bytes_parser_new bytes)) (\<lambda>(version, p).
     rbind (bp_parse parse_h256le p) (\<lambda>(hash_prev_block, p).
     rbind (bp_parse parse_h256le p) (\<lambda>(merkle_root, p).
     rbind (bp_parse parse_int p) (\<lambda>(timestamp, p).
     rbind (bp_parse parse_u256 p) (\<lambda>(target, p).
     rbind (bp_parse parse_int p) (\<lambda>(nonce, p).
     Inr \<lparr>bh_merkle_root = merkle_root, bh_target = target, bh_timestamp = timestamp, bh_version = version,
          bh_hash = sha256d_le sha256 bytes, bh_hash_prev_block = hash_prev_block, bh_nonce = nonce\<rparr>))))))"

definition parse_header :: "digest \<Rightarrow> block_header parsable" where
  "parse_header sha256 raw pos =
     rbind (ok_or (slice_get raw pos (pos + 80)) EndOfFile) (\<lambda>header_bytes.
     rbind (parse_block_header sha256 header_bytes) (\<lambda>h. Inr (h, 80)))"

definition header_from_bytes :: "digest \<Rightarrow> byte list \<Rightarrow> block_header bres" where
  "header_from_bytes sha256 bytes =
     (if length bytes \<noteq> 80 then Inl (Err InvalidHeaderSize) else parse_block_header sha256 bytes)"

subsection \<open>Transactions\<close>

definition SERIALIZE_TRANSACTION_NO_WITNESS :: "32 word" where
  "SERIALIZE_TRANSACTION_NO_WITNESS = 0x40000000"

definition LOCKTIME_THRESHOLD :: u32 where
  "LOCKTIME_THRESHOLD = 500000000"

text \<open>
  The height of a coinbase input is copied into a buffer of four bytes; \<^verbatim>\<open>buffer[..height_size]\<close>
  panics when the size exceeds four. The addition in \<^verbatim>\<open>height_size + 1\<close> wraps around.
\<close>

definition parse_coinbase_height :: "u64 \<Rightarrow> (u32 \<times> u64) parser" where
  "parse_coinbase_height script_size =
     sbind (bp_parse parse_compact) (\<lambda>height_size.
     sbind (slift (\<lambda>_. if height_size + 1 \<le> script_size then Inr (script_size - (height_size + 1))
                       else Inl (Err EndOfFile))) (\<lambda>script_size.
     sbind (bp_read (unat height_size)) (\<lambda>bytes.
     sbind (slift (\<lambda>_. if unat height_size \<le> 4 then ok_or (slice_get bytes 0 (unat height_size)) EndOfFile
                       else Inl Panic)) (\<lambda>bs.
     sret (from_le (bs @ replicate (4 - unat height_size) 0), script_size)))))"

definition parse_transaction_input :: "byte list \<Rightarrow> 32 word \<Rightarrow> (transaction_input \<times> nat) bres" where
  "parse_transaction_input raw_input version =
     rbind (bp_parse parse_h256le (bytes_parser_new raw_input)) (\<lambda>(previous_hash, p).
     rbind (bp_parse parse_int p) (\<lambda>(previous_index, p).
     let is_coinbase = (previous_hash = h256le_zero) in
     if is_coinbase \<and> previous_index \<noteq> (0xffffffff :: u32) then Inl (Err MalformedTransaction)
     else rbind (bp_parse parse_compact p) (\<lambda>(script_size, p).
     rbind (if is_coinbase then
              (if version \<noteq> 2 then Inr ((Coinbase None, script_size), p)
               else rbind (parse_coinbase_height script_size p) (\<lambda>((height, script_size), p).
                 Inr ((Coinbase (Some height), script_size), p)))
            else Inr ((FromOutput previous_hash previous_index, script_size), p)) (\<lambda>((source, script_size), p).
     rbind (bp_read (unat script_size) p) (\<lambda>(scr, p).
     if is_coinbase \<and> length scr > 100 then Inl (Err MalformedTransaction)
     else rbind (bp_parse parse_int p) (\<lambda>(sequence, p).
     Inr (\<lparr>ti_source = source, ti_script = scr, ti_sequence = sequence, ti_witness = []\<rparr>, position p)))))))"

definition parse_input :: "32 word \<Rightarrow> transaction_input parsable" where
  "parse_input version raw pos =
     rbind (ok_or (slice_from raw pos) EndOfFile) (\<lambda>slice. parse_transaction_input slice version)"

definition parse_transaction_output :: "byte list \<Rightarrow> (transaction_output \<times> nat) bres" where
  "parse_transaction_output raw_output =
     rbind (bp_parse parse_int (bytes_parser_new raw_output)) (\<lambda>(v, p).
     rbind (bp_parse parse_compact p) (\<lambda>(script_size, p).
     if script_size > 10000 then Inl (Err MalformedTransaction)
     else rbind (bp_read (unat script_size) p) (\<lambda>(scr, p).
     Inr (\<lparr>to_value = v, to_script = Script scr\<rparr>, position p))))"

definition parse_output :: "transaction_output parsable" where
  "parse_output raw pos =
     rbind (ok_or (slice_from raw pos) EndOfFile) (\<lambda>slice. parse_transaction_output slice)"

primrec parse_witnesses :: "transaction_input list \<Rightarrow> transaction_input list parser" where
  "parse_witnesses [] = sret []"
| "parse_witnesses (inp # inps) =
     sbind (bp_parse (parse_vec (parse_vec (parse_int :: byte parsable)))) (\<lambda>witness.
     sbind (parse_witnesses inps) (\<lambda>inps. sret (with_witness inp witness # inps)))"

definition parse_tx :: "transaction parsable" where
  "parse_tx raw pos =
     rbind (ok_or (slice_from raw pos) EndOfFile) (\<lambda>slice.
     rbind (bp_parse (parse_int :: 32 word parsable) (bytes_parser_new slice)) (\<lambda>(version, p).
     if version \<noteq> 1 \<and> version \<noteq> 2 then Inl (Err MalformedTransaction)
     else let allow_witness = (version AND SERIALIZE_TRANSACTION_NO_WITNESS = 0) in
     rbind (bp_parse (parse_vec (parse_input version)) p) (\<lambda>(inputs, p).
     rbind (if inputs = [] \<and> allow_witness then
              rbind (bp_parse (parse_int :: byte parsable) p) (\<lambda>(flags, p).
              rbind (bp_parse (parse_vec (parse_input version)) p) (\<lambda>(inputs, p). Inr ((flags, inputs), p)))
            else Inr ((0, inputs), p)) (\<lambda>((flags, inputs), p).
     rbind (bp_parse (parse_vec parse_output) p) (\<lambda>(outputs, p).
     rbind (if flags AND 1 \<noteq> 0 \<and> allow_witness then
              rbind (parse_witnesses inputs p) (\<lambda>(inputs, p).
              if list_all (\<lambda>inp. ti_witness inp = []) inputs then Inl (Err MalformedTransaction)
              else Inr ((flags XOR 1, inputs), p))
            else Inr ((flags, inputs), p)) (\<lambda>((flags, inputs), p).
     rbind (bp_parse (parse_int :: u32 parsable) p) (\<lambda>(locktime_or_blockheight, p).
     let lock_at = (if locktime_or_blockheight < LOCKTIME_THRESHOLD then BlockHeight locktime_or_blockheight
                    else Time locktime_or_blockheight) in
     if flags \<noteq> 0 then Inl (Err MalformedTransaction)
     else Inr (\<lparr>tx_version = version, tx_inputs = inputs, tx_outputs = outputs, tx_lock_at = lock_at\<rparr>,
            position p))))))))"

definition parse_transaction :: "byte list \<Rightarrow> transaction bres" where
  "parse_transaction raw_transaction = rbind (parse_tx raw_transaction 0) (\<lambda>(tx, _). Inr tx)"

subsection \<open>Decoding what was encoded\<close>

text \<open>
  \<open>decodes parse bs x\<close>: wherever the bytes \<open>bs\<close> occur in a buffer, the parser run at their start
  returns \<open>x\<close> and consumes exactly \<open>bs\<close>. \<open>at\<close> is the parser state between a prefix that was consumed
  and the bytes that remain.
\<close>

definition at :: "byte list \<Rightarrow> byte list \<Rightarrow> bytes_parser" where
  "at pre rest = \<lparr>raw_bytes = pre @ rest, position = length pre\<rparr>"

definition decodes :: "'a parsable \<Rightarrow> byte list \<Rightarrow> 'a \<Rightarrow> bool" where
  "decodes parse bs x \<longleftrightarrow>
     (\<forall>pre post. length (pre @ bs @ post) < 2 ^ 64 \<longrightarrow> parse (pre @ bs @ post) (length pre) = Inr (x, length bs))"

lemma bytes_parser_new_at: "bytes_parser_new bs = at [] bs"
  by (simp add: bytes_parser_new_def at_def)

lemma position_at [simp]: "position (at pre rest) = length pre"
  by (simp add: at_def)

lemma decodesD: "decodes parse bs x \<Longrightarrow> length (pre @ bs @ post) < 2 ^ 64 \<Longrightarrow>
    parse (pre @ bs @ post) (length pre) = Inr (x, length bs)"
  unfolding decodes_def by blast

lemma bp_parse_decodes:
  assumes "decodes parse bs x" and "length (pre @ bs @ post) < 2 ^ 64"
  shows "bp_parse parse (at pre (bs @ post)) = Inr (x, at (pre @ bs) post)"
  using decodesD [OF assms] assms(2)
  by (simp add: bp_parse_def at_def advance_def checked_add_w_def)

lemma bp_read_at:
  assumes "length (pre @ bs @ post) < 2 ^ 64"
  shows "bp_read (length bs) (at pre (bs @ post)) = Inr (bs, at (pre @ bs) post)"
  using assms by (simp add: bp_read_def at_def advance_def checked_add_w_def)

lemma decodes_slice:
  assumes "\<And>post. length (bs @ post) < 2 ^ 64 \<Longrightarrow> f (bs @ post) = Inr (x, length bs)"
  shows "decodes (\<lambda>raw pos. rbind (ok_or (slice_from raw pos) EndOfFile) f) bs x"
  using assms by (simp add: decodes_def)

lemma decodes_int:
  assumes "8 dvd LENGTH('a::len)"
  shows "decodes parse_int (to_le (w :: 'a word)) w"
  using assms by (simp add: decodes_def parse_int_def Let_def from_le_to_le)

lemma decodes_h256le: "decodes parse_h256le (to_le h) h"
proof -
  have "slice_get (pre @ to_le h @ post) (length pre) (length pre + 32) = Some (to_le h)" for pre post
    using slice_get_append [of pre "to_le h" post] by simp
  then show ?thesis
    by (simp add: decodes_def parse_h256le_def h256le_from_bytes_le_def from_le_to_le)
qed

lemma unat_ucast_small:
  fixes v :: u64
  assumes "unat v < 2 ^ LENGTH('b::len)"
  shows "(ucast (ucast v :: 'b word) :: u64) = v"
proof -
  have "unat (ucast v :: 'b word) = unat v"
    using assms by (simp only: unsigned_ucast_eq unsigned_take_bit_eq take_bit_nat_eq_self)
  then have "unat (ucast (ucast v :: 'b word) :: u64) = unat v"
    using unsigned_less [of v, where ?'a = nat]
    by (simp only: unsigned_ucast_eq unsigned_take_bit_eq take_bit_nat_eq_self)
  then show ?thesis by (rule unsigned_word_eqI)
qed

lemma to_le_byte [simp]: "to_le (b :: byte) = [b]"
  by (simp add: to_le_def)

lemma slice_get_Cons_take: "length bs = n \<Longrightarrow> slice_get (b # bs @ post) 1 (Suc n) = Some bs"
  using slice_get_append [of "[b]" bs post] by simp

lemma parse_compact_uint_enc:
  "parse_compact_uint (enc_compact v @ post) = Inr (v, length (enc_compact v))"
proof -
  consider "v < 0xfd" | "\<not> v < 0xfd" "v < 0xffff" | "\<not> v < 0xffff" "v < 0xffffffff" | "\<not> v < 0xffffffff"
    by blast
  then show ?thesis
  proof cases
    case 1
    then have lt: "unat v < 253" by (simp add: word_less_nat_alt)
    then have "unat (ucast v :: byte) = unat v" by (simp add: unsigned_ucast_eq take_bit_nat_eq_self)
    then have "(ucast v :: byte) \<noteq> 0xfd" "(ucast v :: byte) \<noteq> 0xfe" "(ucast v :: byte) \<noteq> 0xff"
      using lt by auto
    then show ?thesis using 1 lt
      by (simp add: enc_compact_def chunks_compact_uint_def parse_compact_uint_def index_get_def
          unat_ucast_small [where ?'b = 8])
  next
    case 2
    then have "enc_compact v = 0xfd # to_le (ucast v :: u16)"
      by (simp add: enc_compact_def chunks_compact_uint_def)
    moreover have "(ucast (ucast v :: u16) :: u64) = v"
      using 2 by (intro unat_ucast_small) (simp add: word_less_nat_alt)
    ultimately show ?thesis
      using slice_get_Cons_take [of "to_le (ucast v :: u16)" 2 "0xfd" post]
      by (simp add: parse_compact_uint_def index_get_def from_le_to_le)
  next
    case 3
    then have "\<not> v < 0xfd" by (auto simp: word_less_nat_alt)
    then have "enc_compact v = 0xfe # to_le (ucast v :: u32)"
      using 3 by (simp add: enc_compact_def chunks_compact_uint_def)
    moreover have "(ucast (ucast v :: u32) :: u64) = v"
      using 3 by (intro unat_ucast_small) (simp add: word_less_nat_alt)
    ultimately show ?thesis
      using slice_get_Cons_take [of "to_le (ucast v :: u32)" 4 "0xfe" post]
      by (simp add: parse_compact_uint_def index_get_def from_le_to_le)
  next
    case 4
    then have "\<not> v < 0xfd" "\<not> v < 0xffff" by (auto simp: word_less_nat_alt)
    then have "enc_compact v = 0xff # to_le v"
      using 4 by (simp add: enc_compact_def chunks_compact_uint_def)
    then show ?thesis
      using slice_get_Cons_take [of "to_le v" 8 "0xff" post]
      by (simp add: parse_compact_uint_def index_get_def from_le_to_le)
  qed
qed

lemma decodes_compact: "decodes parse_compact (enc_compact v) v"
  by (simp add: decodes_def parse_compact_def parse_compact_uint_enc)

end
