(* ===== verification/Bitcoin_Codec.thy ===== *)
theory Bitcoin_Codec
  imports Bitcoin_Parser
begin

unbundle bit_operations_syntax

text \<open>
  Formatting and parsing are inverse. Each formatter of \<open>Bitcoin_Formatter\<close> was reduced to a sequence
  of writes; here the concatenation of those writes is shown to be decoded by the parser of
  \<open>Bitcoin_Parser\<close> to the value that was formatted, for block headers and for whole transactions with
  and without witnesses.
\<close>

subsection \<open>Parsing steps on encoded values\<close>

lemmas parse_step_int = bp_parse_decodes [OF decodes_int]
lemmas parse_step_h256le = bp_parse_decodes [OF decodes_h256le]
lemmas parse_step_compact = bp_parse_decodes [OF decodes_compact]

lemma bp_read_at':
  assumes "length bs = n" and "length (pre @ bs @ post) < 2 ^ 64"
  shows "bp_read n (at pre (bs @ post)) = Inr (bs, at (pre @ bs) post)"
  using bp_read_at [OF assms(2)] assms(1) by simp

lemma parse_count_decodes:
  assumes "\<And>x. x \<in> set xs \<Longrightarrow> decodes parse (enc x) (f x)"
    and "length (pre @ concat (map enc xs) @ post) < 2 ^ 64"
  shows "parse_count parse (length xs) (at pre (concat (map enc xs) @ post))
     = Inr (map f xs, at (pre @ concat (map enc xs)) post)"
  using assms
proof (induction xs arbitrary: pre)
  case (Cons x xs)
  have "bp_parse parse (at pre (enc x @ concat (map enc xs) @ post))
      = Inr (f x, at (pre @ enc x) (concat (map enc xs) @ post))"
    using Cons.prems by (intro bp_parse_decodes) simp_all
  then show ?case using Cons.IH [of "pre @ enc x"] Cons.prems by simp
qed simp

lemma decodes_vec:
  assumes "\<And>x. x \<in> set xs \<Longrightarrow> decodes parse (enc x) (f x)" and "length xs < 2 ^ 64"
  shows "decodes (parse_vec parse) (enc_compact (word_of_nat (length xs)) @ concat (map enc xs)) (map f xs)"
proof -
  let ?c = "enc_compact (word_of_nat (length xs))" and ?b = "concat (map enc xs)"
  have n: "unat (word_of_nat (length xs) :: u64) = length xs"
    using assms(2) by (simp add: unat_of_nat)
  have "rbind (bp_parse parse_compact (bytes_parser_new (?c @ ?b @ post))) (\<lambda>(count, p).
        rbind (parse_count parse (unat count) p) (\<lambda>(result, p). Inr (result, position p)))
      = Inr (map f xs, length (?c @ ?b))" if "length (?c @ ?b @ post) < 2 ^ 64" for post
    using parse_step_compact [of "[]" "word_of_nat (length xs)" "?b @ post"]
      parse_count_decodes [where xs = xs and pre = ?c and post = post, OF assms(1)] that
    by (simp add: bytes_parser_new_at n)
  then show ?thesis
    unfolding parse_vec_def [abs_def] by (intro decodes_slice) simp
qed

lemma length_concat_map_ge: "(\<And>x. x \<in> set xs \<Longrightarrow> 1 \<le> length (enc x)) \<Longrightarrow> length xs \<le> length (concat (map enc xs))"
proof (induction xs)
  case (Cons x xs)
  then have "1 \<le> length (enc x)" "length xs \<le> length (concat (map enc xs))" by simp_all
  then show ?case by simp
qed simp

subsection \<open>Encodings of the transaction parts\<close>

definition enc_input :: "transaction_input \<Rightarrow> byte list" where
  "enc_input inp = concat (chunks_input inp)"

definition enc_output :: "transaction_output \<Rightarrow> byte list" where
  "enc_output out = concat (chunks_output out)"

definition enc_witness :: "byte list list \<Rightarrow> byte list" where
  "enc_witness ws = enc_compact (word_of_nat (length ws)) @ concat (map enc_byte_vec ws)"

definition enc_vec :: "('a \<Rightarrow> byte list) \<Rightarrow> 'a list \<Rightarrow> byte list" where
  "enc_vec enc xs = enc_compact (word_of_nat (length xs)) @ concat (map enc xs)"

lemma concat_chunks_vec: "concat (chunks_vec ch xs) = enc_vec (\<lambda>x. concat (ch x)) xs"
  by (induction xs) (simp_all add: chunks_vec_def enc_vec_def enc_compact_def)

lemma concat_chunks_byte_vec_enc [simp]: "concat (chunks_byte_vec bs) = enc_byte_vec bs"
  by (simp add: concat_chunks_byte_vec enc_byte_vec_def enc_compact_def)

lemma enc_input_eq:
  "enc_input inp = to_le (fst (input_outpoint (ti_source inp))) @ to_le (snd (input_outpoint (ti_source inp)))
     @ concat (chunks_script_len (ti_source inp) (ti_script inp)) @ ti_script inp @ to_le (ti_sequence inp)"
  by (simp add: enc_input_def chunks_input_def)

lemma enc_output_eq: "enc_output out = to_le (to_value out) @ enc_byte_vec (script_bytes (to_script out))"
  by (simp add: enc_output_def chunks_output_def)

lemma decodes_byte_vec: "length bs < 2 ^ 64 \<Longrightarrow> decodes (parse_vec (parse_int :: byte parsable)) (enc_byte_vec bs) bs"
  using decodes_vec [of bs "parse_int :: byte parsable" "\<lambda>b. [b]" id] decodes_int [where ?'a = 8]
  by (simp add: enc_byte_vec_def)

lemma decodes_witness:
  assumes "length ws < 2 ^ 64" and "\<forall>w \<in> set ws. length w < 2 ^ 64"
  shows "decodes (parse_vec (parse_vec (parse_int :: byte parsable))) (enc_witness ws) ws"
  using decodes_vec [of ws "parse_vec (parse_int :: byte parsable)" enc_byte_vec id] assms decodes_byte_vec
  by (simp add: enc_witness_def)

subsection \<open>The height of a coinbase input\<close>

lemma le_nat_append_zeros: "le_nat (bs @ replicate n 0) = le_nat bs"
proof (induction bs)
  case Nil
  then show ?case by (induction n) simp_all
qed simp

lemma height_strip_four:
  "height_strip [3, 2, 1] [a, b, c, d] = (if d \<noteq> 0 then [a, b, c, d] else if c \<noteq> 0 then [a, b, c]
     else if b \<noteq> 0 then [a, b] else [a])"
  by (simp add: numeral_3_eq_3 numeral_2_eq_2)

lemma numeral_4_eq_4: "4 = Suc (Suc (Suc (Suc 0)))"
  by simp

lemma to_le_four:
  "\<exists>a b c d. to_le (h :: u32) = [a, b, c, d] \<and> unat d = unat h div 2 ^ 24"
proof -
  have "unat h div 2 ^ 24 < 256" using unsigned_less [of h, where ?'a = nat] by simp
  then have "unat (word_of_nat (unat h div 256 div 256 div 256) :: byte) = unat h div 2 ^ 24"
    by (simp add: unat_of_nat div_mult2_eq [symmetric])
  moreover have "le_bytes (Suc (Suc (Suc (Suc 0)))) n = [word_of_nat n, word_of_nat (n div 256),
      word_of_nat (n div 256 div 256), word_of_nat (n div 256 div 256 div 256)]" for n by simp
  ultimately show ?thesis by (simp add: to_le_def flip: numeral_4_eq_4)
qed

lemma height_strip_zeros: "\<exists>n. height_strip [3, 2, 1] [a, b, c, d] @ replicate n 0 = [a, b, c, d]"
  unfolding height_strip_four
  by (rule exI [of _ "if d \<noteq> 0 then 0 else if c \<noteq> 0 then 1 else if b \<noteq> 0 then 2 else 3"])
    (simp add: numeral_3_eq_3 numeral_2_eq_2)

lemma height_payload_strip:
  "height_payload h = height_strip [3, 2, 1] (to_le h) \<or> height_payload h = height_strip [3, 2, 1] (to_le h) @ replicate 1 0"
  by (simp add: height_payload_def Let_def del: height_strip.simps split: list.split)

lemma le_nat_height_payload: "le_nat (height_payload h) = unat h"
proof -
  obtain a b c d where h: "to_le h = [a, b, c, d]" using to_le_four by blast
  obtain n where "height_strip [3, 2, 1] [a, b, c, d] @ replicate n 0 = [a, b, c, d]"
    using height_strip_zeros by blast
  then have "le_nat (height_strip [3, 2, 1] (to_le h)) = le_nat (to_le h)"
    unfolding h using le_nat_append_zeros [of "height_strip [3, 2, 1] [a, b, c, d]" n] by simp
  then have "le_nat (height_payload h) = le_nat (to_le h)"
    using height_payload_strip [of h] le_nat_append_zeros [of "height_strip [3, 2, 1] (to_le h)" 1] by auto
  then show ?thesis
    using unsigned_less [of h, where ?'a = nat] by (simp add: to_le_def le_nat_le_bytes)
qed

lemma byte_top_bit:
  assumes "unat (d :: byte) < 128"
  shows "d AND 0x80 = 0"
proof -
  have "\<not> bit (unat d) 7" using assms by (simp add: bit_iff_odd)
  then have "\<not> bit d 7" by (simp add: bit_unsigned_iff)
  moreover have "(0x80 :: byte) = push_bit 7 1" by simp
  ultimately show ?thesis using bit_iff_and_push_bit_not_eq_0 [of d 7] by metis
qed

lemma length_height_payload_four:
  assumes "h < 0x80000000"
  shows "length (height_payload h) \<le> 4"
proof -
  obtain a b c d where h: "to_le h = [a, b, c, d]" and d: "unat d = unat h div 2 ^ 24"
    using to_le_four by blast
  have "unat d < 128" using assms d by (simp add: word_less_nat_alt)
  then show ?thesis using h byte_top_bit
    by (auto simp: height_payload_def Let_def height_strip_four)
qed

lemma enc_compact_small:
  assumes "n < 253"
  shows "enc_compact (word_of_nat n) = [word_of_nat n]"
proof -
  have "unat (word_of_nat n :: u64) = n" using assms by (simp add: unat_of_nat)
  then have "unat (ucast (word_of_nat n :: u64) :: byte) = n"
    using assms by (simp only: unsigned_ucast_eq unsigned_take_bit_eq) (simp add: take_bit_nat_eq_self)
  then have "(ucast (word_of_nat n :: u64) :: byte) = word_of_nat n" by (rule word_of_nat_eqI)
  then show ?thesis
    using assms by (simp add: enc_compact_def chunks_compact_uint_def word_less_nat_alt unat_of_nat)
qed

lemma parse_coinbase_height_enc:
  assumes "h < 0x80000000" and "length (pre @ enc_byte_vec (height_payload h) @ scr @ post) < 2 ^ 64"
  shows "parse_coinbase_height (word_of_nat (length scr + length (enc_byte_vec (height_payload h))))
       (at pre (enc_byte_vec (height_payload h) @ scr @ post))
     = Inr ((h, word_of_nat (length scr)), at (pre @ enc_byte_vec (height_payload h)) (scr @ post))"
proof -
  let ?n = "length (height_payload h)"
  have n4: "?n \<le> 4" using length_height_payload_four [OF assms(1)] .
  then have len: "length (enc_byte_vec (height_payload h)) = ?n + 1"
    by (simp add: enc_byte_vec_def enc_compact_small)
  have un: "unat (word_of_nat ?n :: u64) = ?n" using n4 by (simp add: unat_of_nat)
  have ok: "(word_of_nat ?n + 1 :: u64) \<le> word_of_nat (length scr + (?n + 1))"
  proof -
    have "?n + 1 < 2 ^ 64" "length scr + (?n + 1) < 2 ^ 64" using assms(2) len by simp_all
    then have "unat (word_of_nat (?n + 1) :: u64) = ?n + 1"
      "unat (word_of_nat (length scr + (?n + 1)) :: u64) = length scr + (?n + 1)"
      by (simp_all only: unat_of_nat) simp_all
    then have "(word_of_nat (?n + 1) :: u64) \<le> word_of_nat (length scr + (?n + 1))"
      by (simp only: word_le_nat_alt)
    then show ?thesis by (simp add: add.commute)
  qed
  have diff: "(word_of_nat (length scr + (?n + 1)) :: u64) - (word_of_nat ?n + 1) = word_of_nat (length scr)"
    by (simp add: algebra_simps)
  have h: "from_le (height_payload h @ replicate (4 - ?n) 0) = h"
    by (simp add: from_le_def le_nat_append_zeros le_nat_height_payload)
  have "bp_parse parse_compact (at pre (enc_compact (word_of_nat ?n) @ height_payload h @ scr @ post))
      = Inr (word_of_nat ?n, at (pre @ enc_compact (word_of_nat ?n)) (height_payload h @ scr @ post))"
    using assms(2) by (intro parse_step_compact) (simp add: enc_byte_vec_def)
  moreover have "bp_read ?n (at (pre @ enc_compact (word_of_nat ?n)) (height_payload h @ scr @ post))
      = Inr (height_payload h, at ((pre @ enc_compact (word_of_nat ?n)) @ height_payload h) (scr @ post))"
    using assms(2) by (intro bp_read_at') (simp_all add: enc_byte_vec_def)
  ultimately show ?thesis
    using ok diff h n4 unfolding parse_coinbase_height_def len
    by (simp add: enc_byte_vec_def un slice_get_def)
qed

subsection \<open>Inputs and outputs\<close>

fun wf_source :: "32 word \<Rightarrow> transaction_input \<Rightarrow> bool" where
  "wf_source version inp = (case ti_source inp of
     FromOutput hash _ \<Rightarrow> hash \<noteq> h256le_zero
   | Coinbase None \<Rightarrow> version \<noteq> 2 \<and> length (ti_script inp) \<le> 100
   | Coinbase (Some height) \<Rightarrow> version = 2 \<and> height < 0x80000000 \<and> length (ti_script inp) \<le> 100)"

text \<open>The part of an input the parser reads before the witnesses.\<close>

definition strip_witness :: "transaction_input \<Rightarrow> transaction_input" where
  "strip_witness inp = with_witness inp []"

lemma chunks_script_len_eq:
  "concat (chunks_script_len (FromOutput a b) scr) = enc_compact (word_of_nat (length scr))"
  "concat (chunks_script_len (Coinbase None) scr) = enc_compact (word_of_nat (length scr))"
  "concat (chunks_script_len (Coinbase (Some h)) scr)
     = enc_compact (word_of_nat (length scr + length (enc_byte_vec (height_payload h)))) @ enc_byte_vec (height_payload h)"
  by (simp_all add: enc_compact_def Let_def)

lemma decodes_input:
  assumes "wf_source version inp"
  shows "decodes (parse_input version) (enc_input inp) (strip_witness inp)"
proof -
  let ?scr = "ti_script inp" and ?seq = "to_le (ti_sequence inp)"
  have script: "rbind (bp_read (unat (word_of_nat (length ?scr) :: u64)) (at pre (?scr @ ?seq @ post))) (\<lambda>(scr, p).
        if cb \<and> length scr > 100 then Inl (Err MalformedTransaction)
        else rbind (bp_parse parse_int p) (\<lambda>(sequence, p).
        Inr (\<lparr>ti_source = src, ti_script = scr, ti_sequence = sequence, ti_witness = []\<rparr>, position p)))
      = Inr (\<lparr>ti_source = src, ti_script = ?scr, ti_sequence = ti_sequence inp, ti_witness = []\<rparr>,
          length (pre @ ?scr @ ?seq))"
    if "length (pre @ ?scr @ ?seq @ post) < 2 ^ 64" and "cb \<longrightarrow> length ?scr \<le> 100" for pre post cb src
  proof -
    have n: "unat (word_of_nat (length ?scr) :: u64) = length ?scr" using that(1) by (simp add: unat_of_nat)
    have "bp_read (length ?scr) (at pre (?scr @ ?seq @ post)) = Inr (?scr, at (pre @ ?scr) (?seq @ post))"
      using that(1) by (intro bp_read_at) simp
    moreover have "bp_parse parse_int (at (pre @ ?scr) (?seq @ post))
        = Inr (ti_sequence inp, at ((pre @ ?scr) @ ?seq) post)"
      using that(1) by (intro parse_step_int) simp_all
    ultimately show ?thesis using that(2) by (simp add: n not_less)
  qed
  have "parse_transaction_input (enc_input inp @ post) version = Inr (strip_witness inp, length (enc_input inp))"
    if len: "length (enc_input inp @ post) < 2 ^ 64" for post
  proof (cases "(ti_source inp, ?scr)" rule: chunks_script_len.cases)
    case (1 height scr)
    let ?pre = "to_le h256le_zero @ to_le (0xffffffff :: u32)"
    let ?hb = "enc_byte_vec (height_payload height)"
    let ?sz = "word_of_nat (length ?scr + length ?hb) :: u64"
    have enc: "enc_input inp @ post = to_le h256le_zero @ to_le (0xffffffff :: u32) @ enc_compact ?sz @ ?hb @ ?scr @ ?seq @ post"
      using 1 by (simp add: enc_input_eq chunks_script_len_eq del: chunks_script_len.simps)
    note l = len [unfolded enc]
    show ?thesis
      using 1 assms l parse_step_h256le [of "[]" h256le_zero] 
        parse_step_int [of "to_le h256le_zero" "0xffffffff :: u32"] parse_step_compact [of ?pre ?sz]
        parse_coinbase_height_enc [of height "?pre @ enc_compact ?sz" ?scr "?seq @ post"]
        script [of "?pre @ enc_compact ?sz @ ?hb" post True "Coinbase (Some height)"]
      unfolding parse_transaction_input_def bytes_parser_new_at enc
      by (simp add: strip_witness_def with_witness_def enc_input_eq chunks_script_len_eq del: chunks_script_len.simps)
  next
    case (2 scr)
    let ?pre = "to_le h256le_zero @ to_le (0xffffffff :: u32)"
    let ?sz = "word_of_nat (length ?scr) :: u64"
    have enc: "enc_input inp @ post = to_le h256le_zero @ to_le (0xffffffff :: u32) @ enc_compact ?sz @ ?scr @ ?seq @ post"
      using 2 by (simp add: enc_input_eq chunks_script_len_eq del: chunks_script_len.simps)
    show ?thesis
      using 2 assms len [unfolded enc] parse_step_h256le [of "[]" h256le_zero]
        parse_step_int [of "to_le h256le_zero" "0xffffffff :: u32"] parse_step_compact [of ?pre ?sz]
        script [of "?pre @ enc_compact ?sz" post True "Coinbase None"]
      unfolding parse_transaction_input_def bytes_parser_new_at enc
      by (simp add: strip_witness_def with_witness_def enc_input_eq chunks_script_len_eq del: chunks_script_len.simps)
  next
    case (3 hash index scr)
    let ?sz = "word_of_nat (length ?scr) :: u64"
    have enc: "enc_input inp @ post = to_le hash @ to_le index @ enc_compact ?sz @ ?scr @ ?seq @ post"
      using 3 by (simp add: enc_input_eq chunks_script_len_eq del: chunks_script_len.simps)
    show ?thesis
      using 3 assms len [unfolded enc] parse_step_h256le [of "[]" hash]
        parse_step_int [of "to_le hash" index] parse_step_compact [of "to_le hash @ to_le index" ?sz]
        script [of "to_le hash @ to_le index @ enc_compact ?sz" post False "FromOutput hash index"]
      unfolding parse_transaction_input_def bytes_parser_new_at enc
      by (simp add: strip_witness_def with_witness_def enc_input_eq chunks_script_len_eq del: chunks_script_len.simps)
  qed
  then show ?thesis unfolding parse_input_def [abs_def] by (intro decodes_slice) simp
qed

lemma decodes_output:
  assumes "length (script_bytes (to_script out)) \<le> 10000"
  shows "decodes parse_output (enc_output out) out"
proof -
  let ?scr = "script_bytes (to_script out)"
  let ?sz = "word_of_nat (length ?scr) :: u64"
  have n: "unat ?sz = length ?scr" using assms by (simp add: unat_of_nat)
  then have small: "\<not> ?sz > 10000" using assms by (simp add: word_less_nat_alt not_less)
  have "parse_transaction_output (enc_output out @ post) = Inr (out, length (enc_output out))"
    if "length (enc_output out @ post) < 2 ^ 64" for post
  proof -
    have enc: "enc_output out @ post = to_le (to_value out) @ enc_compact ?sz @ ?scr @ post"
      by (simp add: enc_output_eq enc_byte_vec_def)
    show ?thesis
      using that [unfolded enc] small parse_step_int [of "[]" "to_value out"]
        parse_step_compact [of "to_le (to_value out)" ?sz "?scr @ post"]
        bp_read_at [of "to_le (to_value out) @ enc_compact ?sz" ?scr post]
      unfolding parse_transaction_output_def bytes_parser_new_at enc
      by (simp add: n enc_output_eq enc_byte_vec_def)
  qed
  then show ?thesis unfolding parse_output_def [abs_def] by (intro decodes_slice) simp
qed

lemma parse_witnesses_enc:
  assumes "\<forall>inp \<in> set inps. length (ti_witness inp) < 2 ^ 64 \<and> (\<forall>w \<in> set (ti_witness inp). length w < 2 ^ 64)"
    and "length (pre @ concat (map (\<lambda>inp. enc_witness (ti_witness inp)) inps) @ post) < 2 ^ 64"
  shows "parse_witnesses (map strip_witness inps)
       (at pre (concat (map (\<lambda>inp. enc_witness (ti_witness inp)) inps) @ post))
     = Inr (inps, at (pre @ concat (map (\<lambda>inp. enc_witness (ti_witness inp)) inps)) post)"
  using assms
proof (induction inps arbitrary: pre)
  case (Cons inp inps)
  let ?w = "enc_witness (ti_witness inp)"
  let ?ws = "concat (map (\<lambda>inp. enc_witness (ti_witness inp)) inps)"
  have "bp_parse (parse_vec (parse_vec (parse_int :: byte parsable))) (at pre (?w @ ?ws @ post))
      = Inr (ti_witness inp, at (pre @ ?w) (?ws @ post))"
    using Cons.prems by (intro bp_parse_decodes decodes_witness) simp_all
  then show ?case using Cons.IH [of "pre @ ?w"] Cons.prems
    by (simp add: strip_witness_def with_witness_def)
qed simp

subsection \<open>Transactions\<close>

fun wf_lock_time :: "lock_time \<Rightarrow> bool" where
  "wf_lock_time (BlockHeight b) = (b < LOCKTIME_THRESHOLD)"
| "wf_lock_time (Time b) = (\<not> b < LOCKTIME_THRESHOLD)"

text \<open>
  The transactions the parser can return: version 1 or 2, at least one input, an input that spends the
  zero hash is a coinbase input whose script is short and that carries a height exactly in version 2,
  output scripts of at most 10,000 bytes, and a lock time on the right side of the threshold.
\<close>

definition wf_transaction :: "transaction \<Rightarrow> bool" where
  "wf_transaction tx \<longleftrightarrow> (tx_version tx = 1 \<or> tx_version tx = 2) \<and> tx_inputs tx \<noteq> []
     \<and> (\<forall>inp \<in> set (tx_inputs tx). wf_source (tx_version tx) inp)
     \<and> (\<forall>out \<in> set (tx_outputs tx). length (script_bytes (to_script out)) \<le> 10000)
     \<and> wf_lock_time (tx_lock_at tx)"

definition enc_transaction :: "transaction \<Rightarrow> byte list" where
  "enc_transaction tx = concat (chunks_transaction tx)"

abbreviation enc_witnesses :: "transaction_input list \<Rightarrow> byte list" where
  "enc_witnesses inps \<equiv> concat (map (\<lambda>inp. enc_witness (ti_witness inp)) inps)"

lemma concat_witness_chunks:
  "concat (concat (map (\<lambda>inp. chunks_vec chunks_byte_vec (ti_witness inp)) inps)) = enc_witnesses inps"
  by (induction inps) (simp_all add: concat_chunks_vec enc_witness_def enc_vec_def)

lemma enc_transaction_plain:
  "\<not> has_witness tx \<Longrightarrow> enc_transaction tx = to_le (tx_version tx) @ enc_vec enc_input (tx_inputs tx)
     @ enc_vec enc_output (tx_outputs tx) @ to_le (lock_time_bits (tx_lock_at tx))"
  by (simp add: enc_transaction_def chunks_transaction_def chunks_no_witness_def concat_chunks_vec
      enc_input_def [abs_def] enc_output_def [abs_def])

lemma enc_transaction_witness:
  "has_witness tx \<Longrightarrow> enc_transaction tx = to_le (tx_version tx) @ [0] @ [1] @ enc_vec enc_input (tx_inputs tx)
     @ enc_vec enc_output (tx_outputs tx) @ enc_witnesses (tx_inputs tx) @ to_le (lock_time_bits (tx_lock_at tx))"
  by (simp add: enc_transaction_def chunks_transaction_def concat_chunks_vec concat_witness_chunks
      enc_input_def [abs_def] enc_output_def [abs_def] WITNESS_MARKER_def WITNESS_FLAG_def)

lemma enc_compact_nonempty: "1 \<le> length (enc_compact v)"
  by (simp add: enc_compact_def chunks_compact_uint_def)

lemma length_le_enc_vec: "(\<And>x. 1 \<le> length (enc x)) \<Longrightarrow> length xs \<le> length (enc_vec enc xs)"
  using length_concat_map_ge [of xs enc] by (simp add: enc_vec_def)

lemma length_enc_byte_vec_ge: "1 \<le> length (enc_byte_vec bs)" "length bs \<le> length (enc_byte_vec bs)"
  using enc_compact_nonempty [of "word_of_nat (length bs)"] by (simp_all add: enc_byte_vec_def)

lemma length_mem_concat: "x \<in> set xs \<Longrightarrow> length (enc x) \<le> length (concat (map enc xs))"
  by (induction xs) auto

lemma witness_bounds:
  assumes "inp \<in> set inps" and "length (enc_witnesses inps) < n"
  shows "length (ti_witness inp) < n \<and> (\<forall>w \<in> set (ti_witness inp). length w < n)"
proof -
  let ?ws = "ti_witness inp"
  have "length (concat (map enc_byte_vec ?ws)) < n"
    using length_mem_concat [OF assms(1), of "\<lambda>inp. enc_witness (ti_witness inp)"] assms(2)
    by (simp add: enc_witness_def)
  moreover have "length ?ws \<le> length (concat (map enc_byte_vec ?ws))"
    by (rule length_concat_map_ge) (rule length_enc_byte_vec_ge)
  moreover have "length w \<le> length (concat (map enc_byte_vec ?ws))" if "w \<in> set ?ws" for w
    using length_mem_concat [OF that, of enc_byte_vec] length_enc_byte_vec_ge(2) [of w] by simp
  ultimately show ?thesis by fastforce
qed

lemma decodes_inputs:
  assumes "\<forall>inp \<in> set inps. wf_source version inp" and "length (enc_vec enc_input inps) < 2 ^ 64"
  shows "decodes (parse_vec (parse_input version)) (enc_vec enc_input inps) (map strip_witness inps)"
  using decodes_vec [of inps "parse_input version" enc_input strip_witness] decodes_input assms
    length_le_enc_vec [of enc_input inps]
  by (simp add: enc_vec_def enc_input_eq)

lemma decodes_outputs:
  assumes "\<forall>out \<in> set outs. length (script_bytes (to_script out)) \<le> 10000" and "length (enc_vec enc_output outs) < 2 ^ 64"
  shows "decodes (parse_vec parse_output) (enc_vec enc_output outs) outs"
  using decodes_vec [of outs parse_output enc_output id] decodes_output assms
    length_le_enc_vec [of enc_output outs]
  by (simp add: enc_vec_def enc_output_eq)

lemma decodes_no_inputs: "decodes (parse_vec (parse_input version)) [0] []"
  using decodes_vec [of "[]" "parse_input version" enc_input strip_witness] enc_compact_small [of 0] by simp

lemma lock_time_cases:
  "wf_lock_time l \<Longrightarrow> (if lock_time_bits l < LOCKTIME_THRESHOLD then BlockHeight (lock_time_bits l)
     else Time (lock_time_bits l)) = l"
  by (cases l) simp_all

lemma strip_witness_idem: "\<not> has_witness tx \<Longrightarrow> map strip_witness (tx_inputs tx) = tx_inputs tx"
  by (rule map_idI) (simp add: has_witness_def list_ex_iff strip_witness_def with_witness_def)

lemma decodes_tx_plain:
  assumes "wf_transaction tx" and "length (enc_transaction tx) < 2 ^ 64" and w: "\<not> has_witness tx"
  shows "parse_tx (enc_transaction tx) 0 = Inr (tx, length (enc_transaction tx))"
proof -
  let ?v = "to_le (tx_version tx)" and ?i = "enc_vec enc_input (tx_inputs tx)"
    and ?o = "enc_vec enc_output (tx_outputs tx)" and ?l = "to_le (lock_time_bits (tx_lock_at tx))"
  note enc = enc_transaction_plain [OF w]
  have len: "length (?v @ ?i @ ?o @ ?l) < 2 ^ 64" using assms(2) enc by simp
  have "bp_parse parse_int (at [] (?v @ ?i @ ?o @ ?l)) = Inr (tx_version tx, at ?v (?i @ ?o @ ?l))"
    using len parse_step_int [of "[]" "tx_version tx"] by simp
  moreover have "bp_parse (parse_vec (parse_input (tx_version tx))) (at ?v (?i @ ?o @ ?l))
      = Inr (tx_inputs tx, at (?v @ ?i) (?o @ ?l))"
    using bp_parse_decodes [OF decodes_inputs, of "tx_inputs tx" "tx_version tx" ?v "?o @ ?l"] len assms(1)
      strip_witness_idem [OF w]
    by (simp add: wf_transaction_def)
  moreover have "bp_parse (parse_vec parse_output) (at (?v @ ?i) (?o @ ?l))
      = Inr (tx_outputs tx, at (?v @ ?i @ ?o) ?l)"
    using bp_parse_decodes [OF decodes_outputs, of "tx_outputs tx" "?v @ ?i" ?l] len assms(1)
    by (simp add: wf_transaction_def)
  moreover have "bp_parse parse_int (at (?v @ ?i @ ?o) ?l)
      = Inr (lock_time_bits (tx_lock_at tx), at (?v @ ?i @ ?o @ ?l) [])"
    using parse_step_int [of "?v @ ?i @ ?o" "lock_time_bits (tx_lock_at tx)" "[]"] len by simp
  ultimately show ?thesis
    using assms(1) lock_time_cases [of "tx_lock_at tx"]
    unfolding parse_tx_def enc bytes_parser_new_at
    by (auto simp: wf_transaction_def slice_from_def SERIALIZE_TRANSACTION_NO_WITNESS_def bytes_parser_new_at)
qed

lemma decodes_tx_witness:
  assumes "wf_transaction tx" and "length (enc_transaction tx) < 2 ^ 64" and w: "has_witness tx"
  shows "parse_tx (enc_transaction tx) 0 = Inr (tx, length (enc_transaction tx))"
proof -
  let ?v = "to_le (tx_version tx)" and ?i = "enc_vec enc_input (tx_inputs tx)"
    and ?o = "enc_vec enc_output (tx_outputs tx)" and ?w = "enc_witnesses (tx_inputs tx)"
    and ?l = "to_le (lock_time_bits (tx_lock_at tx))"
  note enc = enc_transaction_witness [OF w]
  have len: "length (?v @ [0] @ [1] @ ?i @ ?o @ ?w @ ?l) < 2 ^ 64" using assms(2) enc by simp
  have "bp_parse parse_int (at [] (?v @ [0] @ [1] @ ?i @ ?o @ ?w @ ?l))
      = Inr (tx_version tx, at ?v ([0] @ [1] @ ?i @ ?o @ ?w @ ?l))"
    using len parse_step_int [of "[]" "tx_version tx"] by simp
  moreover have "bp_parse (parse_vec (parse_input (tx_version tx))) (at ?v ([0] @ [1] @ ?i @ ?o @ ?w @ ?l))
      = Inr ([], at (?v @ [0]) ([1] @ ?i @ ?o @ ?w @ ?l))"
    using len by (intro bp_parse_decodes decodes_no_inputs) simp
  moreover have "bp_parse parse_int (at (?v @ [0]) ([1] @ ?i @ ?o @ ?w @ ?l))
      = Inr (1 :: byte, at (?v @ [0] @ [1]) (?i @ ?o @ ?w @ ?l))"
    using parse_step_int [of "?v @ [0]" "1 :: byte" "?i @ ?o @ ?w @ ?l"] len by simp
  moreover have "bp_parse (parse_vec (parse_input (tx_version tx))) (at (?v @ [0] @ [1]) (?i @ ?o @ ?w @ ?l))
      = Inr (map strip_witness (tx_inputs tx), at (?v @ [0] @ [1] @ ?i) (?o @ ?w @ ?l))"
    using bp_parse_decodes [OF decodes_inputs, of "tx_inputs tx" "tx_version tx" "?v @ [0] @ [1]" "?o @ ?w @ ?l"]
      len assms(1) by (simp add: wf_transaction_def)
  moreover have "bp_parse (parse_vec parse_output) (at (?v @ [0] @ [1] @ ?i) (?o @ ?w @ ?l))
      = Inr (tx_outputs tx, at (?v @ [0] @ [1] @ ?i @ ?o) (?w @ ?l))"
    using bp_parse_decodes [OF decodes_outputs, of "tx_outputs tx" "?v @ [0] @ [1] @ ?i" "?w @ ?l"] len assms(1)
    by (simp add: wf_transaction_def)
  moreover have "parse_witnesses (map strip_witness (tx_inputs tx)) (at (?v @ [0] @ [1] @ ?i @ ?o) (?w @ ?l))
      = Inr (tx_inputs tx, at (?v @ [0] @ [1] @ ?i @ ?o @ ?w) ?l)"
    using parse_witnesses_enc [of "tx_inputs tx" "?v @ [0] @ [1] @ ?i @ ?o" ?l] witness_bounds [of _ "tx_inputs tx"] len
    by simp
  moreover have "bp_parse parse_int (at (?v @ [0] @ [1] @ ?i @ ?o @ ?w) ?l)
      = Inr (lock_time_bits (tx_lock_at tx), at (?v @ [0] @ [1] @ ?i @ ?o @ ?w @ ?l) [])"
    using parse_step_int [of "?v @ [0] @ [1] @ ?i @ ?o @ ?w" "lock_time_bits (tx_lock_at tx)" "[]"] len by simp
  moreover have "\<not> list_all (\<lambda>inp. ti_witness inp = []) (tx_inputs tx)"
    using w by (simp add: has_witness_def list_ex_iff list_all_iff)
  ultimately show ?thesis
    using assms(1) lock_time_cases [of "tx_lock_at tx"]
    unfolding parse_tx_def enc bytes_parser_new_at
    by (auto simp: wf_transaction_def slice_from_def SERIALIZE_TRANSACTION_NO_WITNESS_def bytes_parser_new_at)
qed

text \<open>
  C38: Parsing a formatted transaction gives the transaction back, with and without witnesses, for
  every transaction of the shape the parser accepts whose encoding is addressable with 64 bits.
\<close>

theorem transaction_roundtrip:
  assumes "wf_transaction tx" and "length (enc_transaction tx) < 2 ^ 64"
  shows "rbind (try_format_transaction vec_write tx []) parse_transaction = Inr tx"
  using decodes_tx_plain [OF assms] decodes_tx_witness [OF assms]
  by (cases "has_witness tx")
    (simp_all add: try_format_transaction_chunks write_all_vec parse_transaction_def flip: enc_transaction_def)

lemma transaction_roundtrip_witness:
  "rbind (try_format_transaction vec_write
     \<lparr>tx_version = 2, tx_inputs = [\<lparr>ti_source = FromOutput 7 1, ti_script = [], ti_sequence = 9, ti_witness = [[5]]\<rparr>],
      tx_outputs = [\<lparr>to_value = 3, to_script = Script [0x6a]\<rparr>], tx_lock_at = BlockHeight 8\<rparr> []) parse_transaction
   = Inr \<lparr>tx_version = 2, tx_inputs = [\<lparr>ti_source = FromOutput 7 1, ti_script = [], ti_sequence = 9, ti_witness = [[5]]\<rparr>],
      tx_outputs = [\<lparr>to_value = 3, to_script = Script [0x6a]\<rparr>], tx_lock_at = BlockHeight 8\<rparr>"
  by (rule transaction_roundtrip)
    (simp_all add: wf_transaction_def LOCKTIME_THRESHOLD_def h256le_zero_def enc_transaction_witness has_witness_def
      enc_vec_def enc_input_eq enc_output_eq enc_compact_def chunks_compact_uint_def enc_byte_vec_def enc_witness_def)

subsection \<open>Block headers\<close>

definition enc_header :: "block_header \<Rightarrow> u32 \<Rightarrow> byte list" where
  "enc_header h bits = to_le (bh_version h) @ to_le (bh_hash_prev_block h) @ to_le (bh_merkle_root h)
     @ to_le (bh_timestamp h) @ to_le bits @ to_le (bh_nonce h)"

lemma length_enc_header [simp]: "length (enc_header h bits) = 80"
  by (simp add: enc_header_def)

lemma try_format_header_enc:
  assumes "get_compact (bh_target h) = Some bits"
  shows "try_format_header vec_write h [] = Inr (enc_header h bits)"
  using assms
  by (simp add: try_format_header_def try_format_int_def try_format_h256le_def try_format_u256_def vec_write_def
      h256le_to_bytes_le_def enc_header_def)

lemma decodes_u256:
  assumes "set_compact bits = Some t"
  shows "decodes parse_u256 (to_le bits) t"
  using assms by (simp add: decodes_def parse_u256_def from_le_to_le)

lemma parse_block_header_enc:
  assumes "set_compact bits = Some (bh_target h)"
  shows "parse_block_header sha256 (enc_header h bits) = Inr (h\<lparr>bh_hash := sha256d_le sha256 (enc_header h bits)\<rparr>)"
proof -
  let ?v = "to_le (bh_version h)" and ?p = "to_le (bh_hash_prev_block h)" and ?m = "to_le (bh_merkle_root h)"
    and ?t = "to_le (bh_timestamp h)" and ?n = "to_le (bh_nonce h)" and ?b = "to_le bits"
  have "bp_parse parse_int (at [] (?v @ ?p @ ?m @ ?t @ ?b @ ?n)) = Inr (bh_version h, at ?v (?p @ ?m @ ?t @ ?b @ ?n))"
    using parse_step_int [of "[]" "bh_version h"] by simp
  moreover have "bp_parse parse_h256le (at ?v (?p @ ?m @ ?t @ ?b @ ?n)) = Inr (bh_hash_prev_block h, at (?v @ ?p) (?m @ ?t @ ?b @ ?n))"
    by (rule parse_step_h256le) simp
  moreover have "bp_parse parse_h256le (at (?v @ ?p) (?m @ ?t @ ?b @ ?n)) = Inr (bh_merkle_root h, at (?v @ ?p @ ?m) (?t @ ?b @ ?n))"
    using parse_step_h256le [of "?v @ ?p" "bh_merkle_root h"] by simp
  moreover have "bp_parse parse_int (at (?v @ ?p @ ?m) (?t @ ?b @ ?n)) = Inr (bh_timestamp h, at (?v @ ?p @ ?m @ ?t) (?b @ ?n))"
    using parse_step_int [of "?v @ ?p @ ?m" "bh_timestamp h"] by simp
  moreover have "bp_parse parse_u256 (at (?v @ ?p @ ?m @ ?t) (?b @ ?n)) = Inr (bh_target h, at (?v @ ?p @ ?m @ ?t @ ?b) ?n)"
    using bp_parse_decodes [OF decodes_u256 [OF assms], of "?v @ ?p @ ?m @ ?t" ?n] by simp
  moreover have "bp_parse parse_int (at (?v @ ?p @ ?m @ ?t @ ?b) ?n) = Inr (bh_nonce h, at (?v @ ?p @ ?m @ ?t @ ?b @ ?n) [])"
    using parse_step_int [of "?v @ ?p @ ?m @ ?t @ ?b" "bh_nonce h" "[]"] by simp
  ultimately show ?thesis
    unfolding parse_block_header_def bytes_parser_new_at by (simp add: enc_header_def)
qed

text \<open>
  Formatting a block header whose target is exactly representable in compact form gives 80 bytes,
  and parsing them gives the header back with its hash recomputed, which is the header that
  \<open>update_hash\<close> returns.
\<close>

theorem header_roundtrip:
  assumes "get_compact (bh_target h) = Some bits" and "set_compact bits = Some (bh_target h)"
  shows "rbind (try_format_header vec_write h []) (header_from_bytes sha256)
     = rbind (update_hash sha256 h) (\<lambda>(_, h'). Inr h')"
  by (simp add: try_format_header_enc [OF assms(1)] header_from_bytes_def parse_block_header_enc [OF assms(2)]
      update_hash_def header_hash_def)

lemma header_roundtrip_witness:
  "rbind (try_format_header vec_write \<lparr>bh_merkle_root = 5, bh_target = 0x7fff00, bh_timestamp = 7, bh_version = 4,
       bh_hash = 1, bh_hash_prev_block = 2, bh_nonce = 3\<rparr> []) (header_from_bytes (\<lambda>bs. if bs = [] then 0 else 1))
   = rbind (update_hash (\<lambda>bs. if bs = [] then 0 else 1) \<lparr>bh_merkle_root = 5, bh_target = 0x7fff00, bh_timestamp = 7,
       bh_version = 4, bh_hash = 1, bh_hash_prev_block = 2, bh_nonce = 3\<rparr>) (\<lambda>(_, h'). Inr h')"
proof -
  have n: "nat_bits 8388352 = 23" by (simp add: nat_bits.simps)
  show ?thesis
    by (rule header_roundtrip [where bits = "0x037fff00"])
      (simp_all add: get_compact_def set_compact_def u256_bits_def n unsigned_ucast_eq)
qed

end
