(* ===== verification/Bitcoin_Merkle.thy ===== *)
theory Bitcoin_Merkle
  imports Bitcoin_Codec
begin

unbundle bit_operations_syntax

text \<open>
  Partial Merkle trees (\<^verbatim>\<open>src/crates/bitcoin/src/merkle.rs\<close>, \<^verbatim>\<open>Block::merkle_proof\<close> of \<^verbatim>\<open>types.rs\<close>
  and the formatting of a proof in \<^verbatim>\<open>formatter.rs\<close>).

  Heights, positions and counts are \<^verbatim>\<open>u32\<close> values written as natural numbers, with the wrap-around of
  the unchecked operations written out. The recursion of the traversals is structural on the height.
  The theorems show that a proof built for a transaction of a block is accepted with the root of the
  block and the position of the transaction, and that an accepted proof whose root is the root of a
  block names a transaction of that block, as long as the hash has no collision among the nodes
  involved.
\<close>

definition MAX_TRANSACTIONS_IN_PROOF :: nat where
  "MAX_TRANSACTIONS_IN_PROOF = 4000000 div (4 * 60)"

record merkle_proof =
  mp_block_header :: block_header
  mp_flag_bits :: "bool list"
  mp_transactions_count :: nat
  mp_hashes :: "h256le list"

record partial_transaction_proof =
  ptp_transaction :: transaction
  ptp_tx_encoded_len :: nat
  ptp_merkle_proof :: merkle_proof

record merkle_proof_traversal =
  bits_used :: nat
  hashes_used :: nat
  merkle_position :: "nat option"
  hash_position :: "nat option"

record proof_result =
  extracted_root :: h256le
  transaction_hash :: h256le
  transaction_position :: nat
  pr_transaction :: transaction
  pr_tx_count :: nat
  pr_block_hash :: h256le

subsection \<open>The shape of the tree\<close>

text \<open>The height of a call is below 32, so the shifts are not masked.\<close>

definition compute_width :: "nat \<Rightarrow> nat \<Rightarrow> nat" where
  "compute_width transactions_count height = ((transactions_count + 2 ^ height - 1) mod 2 ^ 32) div 2 ^ height"

lemma compute_width_large: "31 \<le> height \<Longrightarrow> compute_width c height \<le> 1"
proof -
  assume "31 \<le> height"
  then have "(2 :: nat) ^ 32 \<le> 2 * 2 ^ height"
    using power_increasing [of 31 height "2 :: nat"] by simp
  moreover have "(c + 2 ^ height - 1) mod 2 ^ 32 < 2 ^ 32" by simp
  ultimately have "(c + 2 ^ height - 1) mod 2 ^ 32 < 2 * 2 ^ height" by (rule less_le_trans [rotated])
  then show ?thesis unfolding compute_width_def using less_mult_imp_div_less by fastforce
qed

function compute_height_loop :: "nat \<Rightarrow> nat \<Rightarrow> nat" where
  "compute_height_loop transactions_count height =
     (if compute_width transactions_count height > 1 then compute_height_loop transactions_count (height + 1)
      else height)"
  by auto
termination
proof (relation "measure (\<lambda>(_, height). 31 - height)")
  fix c h assume "compute_width c h > 1"
  then have "h < 31" using compute_width_large [of h c] by (meson not_le)
  then show "((c, h + 1), (c, h)) \<in> measure (\<lambda>(_, height). 31 - height)" by simp
qed simp

declare compute_height_loop.simps [simp del]

definition compute_height :: "nat \<Rightarrow> nat" where
  "compute_height transactions_count = compute_height_loop transactions_count 0"

abbreviation merkle_step :: "digest \<Rightarrow> h256le \<Rightarrow> h256le \<Rightarrow> h256le" where
  "merkle_step sha256 l r \<equiv> hash256_merkle_step sha256 (h256le_to_bytes_le l) (h256le_to_bytes_le r)"

primrec compute_root :: "digest \<Rightarrow> nat \<Rightarrow> nat \<Rightarrow> nat \<Rightarrow> h256le list \<Rightarrow> h256le bres" where
  "compute_root sha256 0 index transactions_count hashes = index_or_panic hashes index"
| "compute_root sha256 (Suc height) index transactions_count hashes =
     rbind (ok_or (checked_mul_w 32 index 2) ArithmeticOverflow) (\<lambda>left_index.
     rbind (compute_root sha256 height left_index transactions_count hashes) (\<lambda>left.
     rbind (ok_or (checked_add_w 32 left_index 1) ArithmeticOverflow) (\<lambda>right_index.
     rbind (if right_index < compute_width transactions_count height
            then compute_root sha256 height right_index transactions_count hashes else Inr left) (\<lambda>right.
     Inr (merkle_step sha256 left right)))))"

subsection \<open>Extracting and building proofs\<close>

definition compute_partial_tree_width :: "merkle_proof \<Rightarrow> nat \<Rightarrow> nat" where
  "compute_partial_tree_width proof height = compute_width (mp_transactions_count proof) height"

definition compute_partial_tree_height :: "merkle_proof \<Rightarrow> nat" where
  "compute_partial_tree_height proof = compute_height (mp_transactions_count proof)"

definition compute_merkle_root :: "digest \<Rightarrow> merkle_proof \<Rightarrow> nat \<Rightarrow> nat \<Rightarrow> h256le list \<Rightarrow> h256le bres" where
  "compute_merkle_root sha256 proof index height tx_ids =
     compute_root sha256 height index (mp_transactions_count proof) tx_ids"

type_synonym 'a traversal = "(merkle_proof_traversal, bitcoin_error, 'a) action"

text \<open>A leaf, or an inner node with nothing of interest below it, uses the next stored hash.\<close>

definition use_hash :: "merkle_proof \<Rightarrow> bool \<Rightarrow> nat \<Rightarrow> h256le traversal" where
  "use_hash proof matched pos t =
     (if hashes_used t \<ge> length (mp_hashes proof) then Inl (Err MalformedMerkleProof)
      else let hash = mp_hashes proof ! hashes_used t;
               t = (if matched then t\<lparr>merkle_position := Some pos, hash_position := Some (hashes_used t)\<rparr> else t)
           in rbind (ok_or (checked_add_w 64 (hashes_used t) 1) ArithmeticOverflow) (\<lambda>n.
              Inr (hash, t\<lparr>hashes_used := n\<rparr>)))"

definition next_bit :: "merkle_proof \<Rightarrow> bool traversal" where
  "next_bit proof t =
     rbind (ok_or (index_get (mp_flag_bits proof) (bits_used t)) EndOfFile) (\<lambda>b.
     rbind (ok_or (checked_add_w 64 (bits_used t) 1) ArithmeticOverflow) (\<lambda>n. Inr (b, t\<lparr>bits_used := n\<rparr>)))"

primrec traverse_and_extract :: "digest \<Rightarrow> merkle_proof \<Rightarrow> nat \<Rightarrow> nat \<Rightarrow> h256le traversal" where
  "traverse_and_extract sha256 proof 0 pos =
     sbind (next_bit proof) (\<lambda>parent_of_hash. use_hash proof parent_of_hash pos)"
| "traverse_and_extract sha256 proof (Suc next_height) pos =
     sbind (next_bit proof) (\<lambda>parent_of_hash.
     if \<not> parent_of_hash then use_hash proof False pos
     else sbind (slift (\<lambda>_. ok_or (checked_mul_w 32 pos 2) ArithmeticOverflow)) (\<lambda>left_index.
     sbind (slift (\<lambda>_. ok_or (checked_add_w 32 left_index 1) ArithmeticOverflow)) (\<lambda>right_index.
     sbind (traverse_and_extract sha256 proof next_height left_index) (\<lambda>left.
     sbind (if right_index < compute_partial_tree_width proof next_height
            then traverse_and_extract sha256 proof next_height right_index else sret left) (\<lambda>right.
     sret (merkle_step sha256 left right))))))"

text \<open>The loop of the builder over the leaves below a node; \<^verbatim>\<open>matches[p]\<close> panics out of range.\<close>

function match_loop :: "bool list \<Rightarrow> nat \<Rightarrow> nat \<Rightarrow> nat \<Rightarrow> bool \<Rightarrow> bool bres" where
  "match_loop matches transactions_count stop p parent_of_match =
     (if p < stop \<and> p < transactions_count then
        rbind (index_or_panic matches p) (\<lambda>b.
        match_loop matches transactions_count stop (p + 1) (parent_of_match \<or> b))
      else Inr parent_of_match)"
  by auto
termination
  by (relation "measure (\<lambda>(_, _, stop, p, _). stop - p)") auto

declare match_loop.simps [simp del]

definition push_node :: "bool \<Rightarrow> merkle_proof \<Rightarrow> merkle_proof" where
  "push_node b proof = proof\<lparr>mp_flag_bits := mp_flag_bits proof @ [b]\<rparr>"

definition push_hash :: "h256le \<Rightarrow> merkle_proof \<Rightarrow> merkle_proof" where
  "push_hash h proof = proof\<lparr>mp_hashes := mp_hashes proof @ [h]\<rparr>"

primrec traverse_and_build :: "digest \<Rightarrow> nat \<Rightarrow> nat \<Rightarrow> h256le list \<Rightarrow> bool list \<Rightarrow> merkle_proof \<Rightarrow> merkle_proof bres" where
  "traverse_and_build sha256 0 pos tx_ids matches proof =
     rbind (match_loop matches (mp_transactions_count proof) ((pos + 1) mod 2 ^ 32) (pos mod 2 ^ 32) False) (\<lambda>parent_of_match.
     rbind (compute_merkle_root sha256 proof pos 0 tx_ids) (\<lambda>hash.
     Inr (push_hash hash (push_node parent_of_match proof))))"
| "traverse_and_build sha256 (Suc next_height) pos tx_ids matches proof =
     rbind (match_loop matches (mp_transactions_count proof) (((pos + 1) * 2 ^ Suc next_height) mod 2 ^ 32)
              ((pos * 2 ^ Suc next_height) mod 2 ^ 32) False) (\<lambda>parent_of_match.
     let proof = push_node parent_of_match proof in
     if \<not> parent_of_match then
       rbind (compute_merkle_root sha256 proof pos (Suc next_height) tx_ids) (\<lambda>hash. Inr (push_hash hash proof))
     else rbind (ok_or (checked_mul_w 32 pos 2) ArithmeticOverflow) (\<lambda>left_index.
     rbind (ok_or (checked_add_w 32 left_index 1) ArithmeticOverflow) (\<lambda>right_index.
     rbind (traverse_and_build sha256 next_height left_index tx_ids matches proof) (\<lambda>proof.
     if right_index < compute_partial_tree_width proof next_height
     then traverse_and_build sha256 next_height right_index tx_ids matches proof
     else Inr proof))))"

primrec tx_ids_of :: "digest \<Rightarrow> transaction list \<Rightarrow> h256le list bres" where
  "tx_ids_of sha256 [] = Inr []"
| "tx_ids_of sha256 (tx # txs) = rbind (tx_id sha256 tx) (\<lambda>i. rbind (tx_ids_of sha256 txs) (\<lambda>is. Inr (i # is)))"

definition block_merkle_proof :: "digest \<Rightarrow> block \<Rightarrow> h256le list \<Rightarrow> merkle_proof bres" where
  "block_merkle_proof sha256 b include =
     rbind (tx_ids_of sha256 (bl_transactions b)) (\<lambda>tx_ids.
     let proof = \<lparr>mp_block_header = bl_header b, mp_flag_bits = [],
                  mp_transactions_count = length (bl_transactions b) mod 2 ^ 32, mp_hashes = []\<rparr>;
         matches = map (\<lambda>i. i \<in> set include) tx_ids
     in traverse_and_build sha256 (compute_partial_tree_height proof) 0 tx_ids matches proof)"

definition verify_proof :: "digest \<Rightarrow> partial_transaction_proof \<Rightarrow> proof_result bres" where
  "verify_proof sha256 self =
     (let proof = ptp_merkle_proof self;
          traversal = \<lparr>bits_used = 0, hashes_used = 0, merkle_position = None, hash_position = None\<rparr> in
      if mp_transactions_count proof = 0 then Inl (Err MalformedMerkleProof)
      else if mp_transactions_count proof > MAX_TRANSACTIONS_IN_PROOF then Inl (Err MalformedMerkleProof)
      else if length (mp_flag_bits proof) < length (mp_hashes proof) then Inl (Err MalformedMerkleProof)
      else rbind (traverse_and_extract sha256 proof (compute_partial_tree_height proof) 0 traversal) (\<lambda>(root, traversal).
      rbind (ok_or (merkle_position traversal) InvalidMerkleProof) (\<lambda>merkle_position.
      rbind (ok_or (hash_position traversal) InvalidMerkleProof) (\<lambda>hash_position.
      if hashes_used traversal \<noteq> length (mp_hashes proof) then Inl (Err MalformedMerkleProof)
      else rbind (ok_or (checked_add_w 64 (bits_used traversal) 7) ArithmeticOverflow) (\<lambda>used.
      rbind (ok_or (checked_add_w 64 (length (mp_flag_bits proof)) 7) ArithmeticOverflow) (\<lambda>avail.
      if used div 8 \<noteq> avail div 8 then Inl (Err MalformedMerkleProof)
      else rbind (tx_id_bounded sha256 (ptp_transaction self) (ptp_tx_encoded_len self)) (\<lambda>tx_id.
      rbind (index_or_panic (mp_hashes proof) hash_position) (\<lambda>hash.
      if hash \<noteq> tx_id then Inl (Err InvalidTxid)
      else Inr \<lparr>extracted_root = root, transaction_hash = hash, transaction_position = merkle_position,
             pr_transaction = ptp_transaction self, pr_tx_count = mp_transactions_count proof,
             pr_block_hash = bh_hash (mp_block_header proof)\<rparr>))))))))"

subsection \<open>The shape of the tree, without wrap-around\<close>

lemma compute_width_less:
  assumes "0 < n" and "n + 2 ^ h \<le> 2 ^ 32"
  shows "pos < compute_width n h \<longleftrightarrow> pos * 2 ^ h < n"
proof -
  have "(n + 2 ^ h - 1) mod 2 ^ 32 = n + 2 ^ h - 1" using assms by (intro mod_less) auto
  then have "pos < compute_width n h \<longleftrightarrow> Suc pos * 2 ^ h \<le> n + 2 ^ h - 1"
    unfolding compute_width_def by (simp only: less_eq_div_iff_mult_less_eq [of "2 ^ h" "Suc pos"] Suc_le_eq [symmetric])
      (simp add: less_eq_div_iff_mult_less_eq)
  also have "\<dots> \<longleftrightarrow> pos * 2 ^ h < n" using assms(1) by (auto simp: algebra_simps)
  finally show ?thesis .
qed

lemma compute_height_loop_bounds:
  assumes "0 < n" and "n \<le> 2 ^ k" and "k \<le> 30" and "h \<le> k"
  shows "compute_height_loop n h \<le> k \<and> n \<le> 2 ^ compute_height_loop n h"
  using assms
proof (induction n h rule: compute_height_loop.induct)
  case (1 n h)
  have "(2 :: nat) ^ k \<le> 2 ^ 30" "(2 :: nat) ^ h \<le> 2 ^ 30"
    using 1 by (intro power_increasing; simp)+
  then have "n + 2 ^ h \<le> 2 ^ 32" using 1(3) by (simp add: algebra_simps)
  then have w: "1 < compute_width n h \<longleftrightarrow> 2 ^ h < n" using compute_width_less [of n h 1] 1(2) by simp
  show ?case
  proof (cases "1 < compute_width n h")
    case True
    then have "(2 :: nat) ^ h < 2 ^ k" using w 1(3) by linarith
    then have "h + 1 \<le> k" by simp
    then show ?thesis using 1 True by (simp add: compute_height_loop.simps [of n h])
  next
    case False
    then show ?thesis using w 1 by (simp add: compute_height_loop.simps [of n h])
  qed
qed

lemma compute_height_bounds:
  assumes "0 < n" and "n \<le> MAX_TRANSACTIONS_IN_PROOF"
  shows "compute_height n \<le> 15" and "n \<le> 2 ^ compute_height n"
  using compute_height_loop_bounds [of n 15 0] assms
  by (simp_all add: compute_height_def MAX_TRANSACTIONS_IN_PROOF_def)

text \<open>The root of a subtree as a total function, and the nodes that are hashed on the way.\<close>

primrec subtree_root :: "digest \<Rightarrow> h256le list \<Rightarrow> nat \<Rightarrow> nat \<Rightarrow> h256le" where
  "subtree_root sha256 ids 0 pos = ids ! pos"
| "subtree_root sha256 ids (Suc h) pos =
     (let l = subtree_root sha256 ids h (2 * pos);
          r = (if (2 * pos + 1) * 2 ^ h < length ids then subtree_root sha256 ids h (2 * pos + 1) else l)
      in merkle_step sha256 l r)"

primrec subtree_pairs :: "digest \<Rightarrow> h256le list \<Rightarrow> nat \<Rightarrow> nat \<Rightarrow> (h256le \<times> h256le) set" where
  "subtree_pairs sha256 ids 0 pos = {}"
| "subtree_pairs sha256 ids (Suc h) pos =
     (let l = subtree_root sha256 ids h (2 * pos);
          r = (if (2 * pos + 1) * 2 ^ h < length ids then subtree_root sha256 ids h (2 * pos + 1) else l)
      in {(l, r)} \<union> subtree_pairs sha256 ids h (2 * pos)
         \<union> (if (2 * pos + 1) * 2 ^ h < length ids then subtree_pairs sha256 ids h (2 * pos + 1) else {}))"

text \<open>A node of the tree over \<open>n\<close> leaves: its leftmost leaf exists, and no index of the tree overflows.\<close>

definition node :: "nat \<Rightarrow> nat \<Rightarrow> nat \<Rightarrow> bool" where
  "node n h pos \<longleftrightarrow> pos * 2 ^ h < n \<and> n \<le> 2 ^ 30 \<and> h \<le> 30"

lemma node_children:
  assumes "node n (Suc h) pos"
  shows "node n h (2 * pos)" and "(2 * pos + 1) * 2 ^ h < n \<Longrightarrow> node n h (2 * pos + 1)"
    and "2 * pos + 1 < 2 ^ 32" and "2 * pos + 1 < compute_width n h \<longleftrightarrow> (2 * pos + 1) * 2 ^ h < n"
proof -
  have le: "2 * pos \<le> pos * 2 ^ Suc h" by simp
  have "(2 :: nat) ^ h \<le> 2 ^ 30" using assms by (intro power_increasing) (simp_all add: node_def)
  then show "2 * pos + 1 < compute_width n h \<longleftrightarrow> (2 * pos + 1) * 2 ^ h < n"
    using assms by (intro compute_width_less) (auto simp: node_def)
  show "node n h (2 * pos)" "(2 * pos + 1) * 2 ^ h < n \<Longrightarrow> node n h (2 * pos + 1)"
    using assms by (auto simp: node_def algebra_simps)
  have "2 * pos < n" using le assms unfolding node_def by linarith
  then show "2 * pos + 1 < 2 ^ 32" using assms by (simp add: node_def)
qed

lemma compute_root_eq:
  assumes "node (length ids) h pos"
  shows "compute_root sha256 h pos (length ids) ids = Inr (subtree_root sha256 ids h pos)"
  using assms
proof (induction h arbitrary: pos)
  case 0
  then show ?case by (simp add: node_def)
next
  case (Suc h)
  note ch = node_children [OF Suc.prems]
  show ?case
    using Suc.IH [OF ch(1)] Suc.IH [OF ch(2)] ch(3,4)
    by (simp add: Let_def checked_mul_w_def checked_add_w_def mult.commute)
qed

lemma node_top:
  assumes "0 < n" and "n \<le> MAX_TRANSACTIONS_IN_PROOF"
  shows "node n (compute_height n) 0"
  using compute_height_bounds [OF assms] assms by (simp add: node_def MAX_TRANSACTIONS_IN_PROOF_def)

subsection \<open>Soundness of extraction\<close>

text \<open>The pairs of hashes that the extraction of a proof combines.\<close>

primrec extract_pairs :: "digest \<Rightarrow> merkle_proof \<Rightarrow> nat \<Rightarrow> nat \<Rightarrow> merkle_proof_traversal \<Rightarrow> (h256le \<times> h256le) set" where
  "extract_pairs sha256 proof 0 pos t = {}"
| "extract_pairs sha256 proof (Suc h) pos t =
     (case next_bit proof t of
        Inr (True, t1) \<Rightarrow>
          (case traverse_and_extract sha256 proof h (2 * pos) t1 of
             Inr (l, t2) \<Rightarrow>
               extract_pairs sha256 proof h (2 * pos) t1
               \<union> (if 2 * pos + 1 < compute_partial_tree_width proof h then
                    extract_pairs sha256 proof h (2 * pos + 1) t2
                    \<union> (case traverse_and_extract sha256 proof h (2 * pos + 1) t2 of Inr (r, _) \<Rightarrow> {(l, r)} | Inl _ \<Rightarrow> {})
                  else {(l, l)})
           | Inl _ \<Rightarrow> {})
      | _ \<Rightarrow> {})"

text \<open>What has been found so far is a leaf of the block.\<close>

definition found_ok :: "merkle_proof \<Rightarrow> h256le list \<Rightarrow> merkle_proof_traversal \<Rightarrow> bool" where
  "found_ok proof ids t \<longleftrightarrow> (case (merkle_position t, hash_position t) of
     (Some q, Some k) \<Rightarrow> q < length ids \<and> k < length (mp_hashes proof) \<and> mp_hashes proof ! k = ids ! q
   | (None, None) \<Rightarrow> True | _ \<Rightarrow> False)"

lemma next_bit_found: "next_bit proof t = Inr (b, t') \<Longrightarrow> found_ok proof ids t' = found_ok proof ids t"
  by (auto simp: next_bit_def rbind_Inr_iff found_ok_def split: option.splits)

lemma use_hash_ok:
  assumes "use_hash proof matched pos t = Inr (hash, t')" and "found_ok proof ids t"
    and "matched \<Longrightarrow> pos < length ids \<and> hash = ids ! pos"
  shows "found_ok proof ids t'"
  using assms by (auto simp: use_hash_def found_ok_def Let_def rbind_Inr_iff split: if_splits option.splits)

lemma traverse_sound:
  assumes "traverse_and_extract sha256 proof h pos t = Inr (subtree_root sha256 ids h pos, t')"
    and "node (length ids) h pos" and cnt: "mp_transactions_count proof = length ids" and "found_ok proof ids t"
    and inj: "inj_on (\<lambda>(l, r). merkle_step sha256 l r) S"
    and "subtree_pairs sha256 ids h pos \<subseteq> S" and "extract_pairs sha256 proof h pos t \<subseteq> S"
  shows "found_ok proof ids t'"
  using assms(1,2,4,6,7)
proof (induction h arbitrary: pos t t')
  case 0
  then obtain b t1 where b: "next_bit proof t = Inr (b, t1)" and u: "use_hash proof b pos t1 = Inr (ids ! pos, t')"
    by (auto simp: rbind_Inr_iff)
  show ?case
    using use_hash_ok [OF u, of ids] next_bit_found [OF b, of ids] 0 by (simp add: node_def)
next
  case (Suc h)
  note ch = node_children [OF Suc.prems(2)]
  obtain b t1 where b: "next_bit proof t = Inr (b, t1)"
    using Suc.prems(1) by (auto simp: rbind_Inr_iff)
  note ok1 = next_bit_found [OF b, of ids] and step = Suc.prems(1) [simplified traverse_and_extract.simps]
  show ?case
  proof (cases b)
    case False
    then have "use_hash proof False pos t1 = Inr (subtree_root sha256 ids (Suc h) pos, t')" using step b by simp
    then show ?thesis using use_hash_ok ok1 Suc.prems(3) by blast
  next
    case True
    let ?gl = "subtree_root sha256 ids h (2 * pos)"
    let ?right = "(2 * pos + 1) * 2 ^ h < length ids"
    let ?gr = "if ?right then subtree_root sha256 ids h (2 * pos + 1) else ?gl"
    have w: "2 * pos + 1 < compute_partial_tree_width proof h \<longleftrightarrow> ?right"
      using ch(4) cnt by (simp add: compute_partial_tree_width_def)
    obtain l t2 r where l: "traverse_and_extract sha256 proof h (2 * pos) t1 = Inr (l, t2)"
      and r: "if ?right then traverse_and_extract sha256 proof h (2 * pos + 1) t2 = Inr (r, t') else r = l \<and> t' = t2"
      and eq: "merkle_step sha256 l r = merkle_step sha256 ?gl ?gr"
      using step b True w ch(3)
      by (auto simp: rbind_Inr_iff mult.commute Let_def split: if_splits)
    have "(l, r) \<in> extract_pairs sha256 proof (Suc h) pos t"
      using b True l r w by (auto split: if_splits)
    moreover have "(?gl, ?gr) \<in> subtree_pairs sha256 ids (Suc h) pos" by (simp add: Let_def)
    ultimately have "(l, r) \<in> S" "(?gl, ?gr) \<in> S" using Suc.prems(4,5) by blast+
    then have lr: "l = ?gl" "r = ?gr"
      using inj_onD [OF inj, of "(l, r)" "(?gl, ?gr)"] eq by (simp_all only: prod.case prod.inject)
    have ok2: "found_ok proof ids t2"
      using Suc.IH [of "2 * pos" t1 t2] l lr(1) ch(1) ok1 Suc.prems(3,4,5) b True by (auto simp: Let_def)
    show ?thesis
    proof (cases ?right)
      case True': True
      then show ?thesis
        using Suc.IH [of "2 * pos + 1" t2 t'] r lr(2) ch(2) ok2 Suc.prems(4,5) b True l w by (auto simp: Let_def)
    next
      case False
      then show ?thesis using r ok2 by simp
    qed
  qed
qed

lemma accepted_proof_position:
  assumes "verify_proof sha256 p = Inr r"
    and "mp_transactions_count (ptp_merkle_proof p) = length ids"
    and "compute_root sha256 (compute_height (length ids)) 0 (length ids) ids = Inr (extracted_root r)"
    and "inj_on (\<lambda>(a, b). merkle_step sha256 a b)
           (subtree_pairs sha256 ids (compute_height (length ids)) 0
            \<union> extract_pairs sha256 (ptp_merkle_proof p) (compute_height (length ids)) 0
                \<lparr>bits_used = 0, hashes_used = 0, merkle_position = None, hash_position = None\<rparr>)"
  shows "transaction_position r < length ids \<and> transaction_hash r = ids ! transaction_position r
     \<and> tx_id_bounded sha256 (ptp_transaction p) (ptp_tx_encoded_len p) = Inr (ids ! transaction_position r)"
proof -
  let ?h = "compute_height (length ids)"
  let ?t0 = "\<lparr>bits_used = 0, hashes_used = 0, merkle_position = None, hash_position = None\<rparr>"
  obtain t k where n: "0 < length ids" "length ids \<le> MAX_TRANSACTIONS_IN_PROOF"
    and t: "traverse_and_extract sha256 (ptp_merkle_proof p) ?h 0 ?t0 = Inr (extracted_root r, t)"
    and pos: "merkle_position t = Some (transaction_position r)" "hash_position t = Some k"
    and hash: "mp_hashes (ptp_merkle_proof p) ! k = transaction_hash r"
      "tx_id_bounded sha256 (ptp_transaction p) (ptp_tx_encoded_len p) = Inr (transaction_hash r)"
    using assms(1,2)
    by (auto simp: verify_proof_def Let_def rbind_Inr_iff compute_partial_tree_height_def split: if_splits prod.splits)
  have "extracted_root r = subtree_root sha256 ids ?h 0"
    using compute_root_eq [OF node_top [OF n], of sha256] assms(3) by simp
  then have "found_ok (ptp_merkle_proof p) ids t"
    using traverse_sound [of sha256 "ptp_merkle_proof p" ?h 0 ?t0 ids t, OF _ node_top [OF n] assms(2) _ assms(4)] t
    by (simp add: found_ok_def)
  then show ?thesis using pos hash by (simp add: found_ok_def)
qed

text \<open>
  C31: Soundness of inclusion proofs. If a proof is accepted, and its extracted root is the root that
  \<open>compute_root\<close> gives for the transaction identifiers of a block with the claimed number of
  transactions, then the identifier of the proof's transaction is the identifier at the reported
  position of that block, provided the hash has no collision among the nodes of the block's tree and
  the nodes combined while extracting the proof.
\<close>

theorem merkle_proof_sound:
  assumes "verify_proof sha256 p = Inr r"
    and "mp_transactions_count (ptp_merkle_proof p) = length ids"
    and "compute_root sha256 (compute_height (length ids)) 0 (length ids) ids = Inr (extracted_root r)"
    and "inj_on (\<lambda>(a, b). merkle_step sha256 a b)
           (subtree_pairs sha256 ids (compute_height (length ids)) 0
            \<union> extract_pairs sha256 (ptp_merkle_proof p) (compute_height (length ids)) 0
                \<lparr>bits_used = 0, hashes_used = 0, merkle_position = None, hash_position = None\<rparr>)"
  shows "transaction_position r < length ids \<and> transaction_hash r = ids ! transaction_position r
     \<and> tx_id_bounded sha256 (ptp_transaction p) (ptp_tx_encoded_len p) = Inr (ids ! transaction_position r)"
  by (rule accepted_proof_position [OF assms])

subsection \<open>Completeness of building\<close>

definition covers :: "bool list \<Rightarrow> nat \<Rightarrow> nat \<Rightarrow> bool" where
  "covers ms h pos \<longleftrightarrow> (\<exists>q. pos * 2 ^ h \<le> q \<and> q < (pos + 1) * 2 ^ h \<and> q < length ms \<and> ms ! q)"

lemma ex_atLeast_Suc: "(\<exists>q. p \<le> q \<and> R q) \<longleftrightarrow> R p \<or> (\<exists>q. p + 1 \<le> q \<and> R q)" for p :: nat
  by (metis Suc_eq_plus1 Suc_leD Suc_leI le_neq_implies_less le_refl)

lemma match_loop_eq:
  assumes "n \<le> length ms"
  shows "match_loop ms n stop p acc = Inr (acc \<or> (\<exists>q. p \<le> q \<and> q < stop \<and> q < n \<and> ms ! q))"
  using assms
proof (induction ms n stop p acc rule: match_loop.induct)
  case (1 ms n stop p acc)
  show ?case
  proof (cases "p < stop \<and> p < n")
    case True
    then have "match_loop ms n stop p acc = match_loop ms n stop (p + 1) (acc \<or> ms ! p)"
      using 1(2) by (simp add: match_loop.simps [of ms n stop p acc] index_or_panic_def)
    also have "\<dots> = Inr ((acc \<or> ms ! p) \<or> (\<exists>q. p + 1 \<le> q \<and> q < stop \<and> q < n \<and> ms ! q))"
      using 1 True by (simp add: index_or_panic_def)
    also have "((acc \<or> ms ! p) \<or> (\<exists>q. p + 1 \<le> q \<and> q < stop \<and> q < n \<and> ms ! q))
        \<longleftrightarrow> (acc \<or> (\<exists>q. p \<le> q \<and> q < stop \<and> q < n \<and> ms ! q))"
      using True ex_atLeast_Suc [of p "\<lambda>q. q < stop \<and> q < n \<and> ms ! q"] by blast
    finally show ?thesis .
  qed (auto simp: match_loop.simps [of ms n stop p acc])
qed

primrec tree_bits :: "bool list \<Rightarrow> nat \<Rightarrow> nat \<Rightarrow> bool list" where
  "tree_bits ms 0 pos = [covers ms 0 pos]"
| "tree_bits ms (Suc h) pos =
     (if covers ms (Suc h) pos
      then True # tree_bits ms h (2 * pos)
           @ (if (2 * pos + 1) * 2 ^ h < length ms then tree_bits ms h (2 * pos + 1) else [])
      else [False])"

primrec tree_hashes :: "digest \<Rightarrow> h256le list \<Rightarrow> bool list \<Rightarrow> nat \<Rightarrow> nat \<Rightarrow> h256le list" where
  "tree_hashes sha256 ids ms 0 pos = [ids ! pos]"
| "tree_hashes sha256 ids ms (Suc h) pos =
     (if covers ms (Suc h) pos
      then tree_hashes sha256 ids ms h (2 * pos)
           @ (if (2 * pos + 1) * 2 ^ h < length ms then tree_hashes sha256 ids ms h (2 * pos + 1) else [])
      else [subtree_root sha256 ids (Suc h) pos])"

lemma node_match_loop:
  assumes "node (length ms) h pos"
  shows "match_loop ms (length ms) (((pos + 1) * 2 ^ h) mod 2 ^ 32) ((pos * 2 ^ h) mod 2 ^ 32) False
     = Inr (covers ms h pos)"
proof -
  have "(2 :: nat) ^ h \<le> 2 ^ 30" using assms by (intro power_increasing) (simp_all add: node_def)
  then have "(pos + 1) * 2 ^ h < 2 ^ 32" using assms by (simp add: node_def algebra_simps)
  moreover from this have "pos * 2 ^ h < 2 ^ 32" by (rule le_less_trans [rotated]) simp
  ultimately show ?thesis by (simp only: mod_less match_loop_eq [OF order_refl] covers_def simp_thms)
qed

definition append_nodes :: "merkle_proof \<Rightarrow> bool list \<Rightarrow> h256le list \<Rightarrow> merkle_proof" where
  "append_nodes proof bs hs = proof\<lparr>mp_flag_bits := mp_flag_bits proof @ bs, mp_hashes := mp_hashes proof @ hs\<rparr>"

lemma append_nodes_simps [simp]:
  "append_nodes (append_nodes proof bs hs) bs' hs' = append_nodes proof (bs @ bs') (hs @ hs')"
  "mp_transactions_count (append_nodes proof bs hs) = mp_transactions_count proof"
  "mp_flag_bits (append_nodes proof bs hs) = mp_flag_bits proof @ bs"
  "mp_hashes (append_nodes proof bs hs) = mp_hashes proof @ hs"
  "mp_block_header (append_nodes proof bs hs) = mp_block_header proof"
  by (simp_all add: append_nodes_def)

lemma push_append:
  "push_node b proof = append_nodes proof [b] []" "push_hash h proof = append_nodes proof [] [h]"
  by (simp_all add: push_node_def push_hash_def append_nodes_def)

lemma traverse_and_build_eq:
  assumes "node (length ids) h pos" and "mp_transactions_count proof = length ids" and "length ms = length ids"
  shows "traverse_and_build sha256 h pos ids ms proof
     = Inr (append_nodes proof (tree_bits ms h pos) (tree_hashes sha256 ids ms h pos))"
  using assms(1,2)
proof (induction h arbitrary: pos "proof")
  case 0
  then show ?case
    using node_match_loop [of ms 0 pos] compute_root_eq [of ids 0 pos sha256] assms(3)
    by (simp add: compute_merkle_root_def push_append del: compute_root.simps)
next
  case (Suc h)
  note ch = node_children [OF Suc.prems(1)]
  have loop: "match_loop ms (mp_transactions_count proof) (((pos + 1) * 2 ^ Suc h) mod 2 ^ 32) ((pos * 2 ^ Suc h) mod 2 ^ 32) False
      = Inr (covers ms (Suc h) pos)"
    using node_match_loop [of ms "Suc h" pos] Suc.prems assms(3) by simp
  have root: "compute_merkle_root sha256 (push_node b proof) pos (Suc h) ids = Inr (subtree_root sha256 ids (Suc h) pos)" for b
    using compute_root_eq [OF Suc.prems(1), of sha256] Suc.prems(2) by (simp only: compute_merkle_root_def push_append append_nodes_simps)
  have idx: "ok_or (checked_mul_w 32 pos 2) ArithmeticOverflow = Inr (2 * pos)"
    "ok_or (checked_add_w 32 (2 * pos) 1) ArithmeticOverflow = Inr (2 * pos + 1)"
    using ch(3) by (simp_all add: mult.commute)
  have w: "2 * pos + 1 < compute_partial_tree_width p h \<longleftrightarrow> (2 * pos + 1) * 2 ^ h < length ids"
    if "mp_transactions_count p = length ids" for p
    using ch(4) that by (simp add: compute_partial_tree_width_def)
  show ?case
  proof (cases "covers ms (Suc h) pos")
    case False
    then show ?thesis
      unfolding traverse_and_build.simps loop rbind_simps Let_def root
      by (simp add: push_append del: subtree_root.simps)
  next
    case True
    then show ?thesis
      unfolding traverse_and_build.simps loop rbind_simps Let_def idx
      using Suc.IH [OF ch(1), of "push_node True proof"] Suc.IH [OF ch(2)] w Suc.prems(2) assms(3)
      by (simp add: push_append)
  qed
qed

lemma covers_children:
  "covers ms (Suc h) pos \<longleftrightarrow> covers ms h (2 * pos) \<or> ((2 * pos + 1) * 2 ^ h < length ms \<and> covers ms h (2 * pos + 1))"
proof -
  have a: "pos * 2 ^ Suc h = 2 * pos * 2 ^ h" "(pos + 1) * 2 ^ Suc h = (2 * pos + 1 + 1) * 2 ^ h"
    by (simp_all add: algebra_simps)
  have "covers ms (Suc h) pos \<longleftrightarrow> (\<exists>q. 2 * pos * 2 ^ h \<le> q \<and> q < (2 * pos + 1 + 1) * 2 ^ h \<and> q < length ms \<and> ms ! q)"
    unfolding covers_def a ..
  moreover have "(2 * pos + 1) * 2 ^ h \<le> (2 * pos + 1 + 1) * 2 ^ h" "2 * pos * 2 ^ h \<le> (2 * pos + 1) * 2 ^ h"
    by (rule mult_right_mono; simp)+
  ultimately show ?thesis unfolding covers_def by (meson le_less_trans less_le_trans not_less order_trans)
qed

text \<open>The state of the traversal after it has consumed the nodes of a subtree.\<close>

definition extracted :: "merkle_proof \<Rightarrow> h256le list \<Rightarrow> bool list \<Rightarrow> bool \<Rightarrow> merkle_proof_traversal \<Rightarrow> merkle_proof_traversal \<Rightarrow> bool" where
  "extracted proof ids ms c t t' \<longleftrightarrow>
     (if c then \<exists>q k. merkle_position t' = Some q \<and> hash_position t' = Some k \<and> q < length ids \<and> ms ! q
               \<and> k < length (mp_hashes proof) \<and> mp_hashes proof ! k = ids ! q
      else merkle_position t' = merkle_position t \<and> hash_position t' = hash_position t)"

lemma extracted_bits [simp]: "extracted proof ids ms c (t\<lparr>bits_used := n\<rparr>) t' = extracted proof ids ms c t t'"
  by (simp add: extracted_def)

lemma extracted_trans:
  assumes "extracted proof ids ms c t t1" and "extracted proof ids ms d t1 t2"
  shows "extracted proof ids ms (c \<or> d) t t2"
  using assms by (cases d) (auto simp: extracted_def)

lemma next_bit_built:
  assumes "mp_flag_bits proof = fb @ b # fr" and "bits_used t = length fb" and "length (mp_flag_bits proof) < 2 ^ 64"
  shows "next_bit proof t = Inr (b, t\<lparr>bits_used := length fb + 1\<rparr>)"
  using assms by (simp add: next_bit_def index_get_def nth_append checked_add_w_def)

lemma use_hash_built:
  assumes "mp_hashes proof = hb @ x # hr" and "hashes_used t = length hb" and "length (mp_hashes proof) < 2 ^ 64"
    and "matched \<Longrightarrow> x = ids ! pos \<and> pos < length ids \<and> ms ! pos"
  shows "\<exists>t'. use_hash proof matched pos t = Inr (x, t') \<and> bits_used t' = bits_used t \<and> hashes_used t' = length hb + 1
     \<and> extracted proof ids ms matched t t'"
  using assms by (auto simp: use_hash_def Let_def checked_add_w_def extracted_def nth_append)

lemma traverse_built:
  assumes "node (length ids) h pos" and cnt: "mp_transactions_count proof = length ids" and ms: "length ms = length ids"
    and "mp_flag_bits proof = fb @ tree_bits ms h pos @ fr" and "mp_hashes proof = hb @ tree_hashes sha256 ids ms h pos @ hr"
    and "bits_used t = length fb" and "hashes_used t = length hb"
    and len: "length (mp_flag_bits proof) < 2 ^ 64" "length (mp_hashes proof) < 2 ^ 64"
  shows "\<exists>t'. traverse_and_extract sha256 proof h pos t = Inr (subtree_root sha256 ids h pos, t')
     \<and> bits_used t' = length fb + length (tree_bits ms h pos)
     \<and> hashes_used t' = length hb + length (tree_hashes sha256 ids ms h pos)
     \<and> extracted proof ids ms (covers ms h pos) t t'"
  using assms(1,4-7)
proof (induction h arbitrary: pos fb fr hb hr t)
  case 0
  let ?t1 = "t\<lparr>bits_used := length fb + 1\<rparr>"
  have "covers ms 0 pos \<Longrightarrow> pos < length ids \<and> ms ! pos" using ms by (auto simp: covers_def le_less_Suc_eq)
  then obtain t' where "use_hash proof (covers ms 0 pos) pos ?t1 = Inr (ids ! pos, t')"
    "bits_used t' = bits_used ?t1" "hashes_used t' = length hb + 1" "extracted proof ids ms (covers ms 0 pos) ?t1 t'"
    using use_hash_built [of "proof" hb "ids ! pos" hr ?t1 "covers ms 0 pos" ids pos ms] 0 len by auto
  then show ?case using next_bit_built [of "proof" fb "covers ms 0 pos" fr t] 0 len by simp
next
  case (Suc h)
  note ch = node_children [OF Suc.prems(1)]
  let ?t1 = "t\<lparr>bits_used := length fb + 1\<rparr>"
  show ?case
  proof (cases "covers ms (Suc h) pos")
    case False
    then obtain t' where "use_hash proof False pos ?t1 = Inr (subtree_root sha256 ids (Suc h) pos, t')"
      "bits_used t' = bits_used ?t1" "hashes_used t' = length hb + 1" "extracted proof ids ms False ?t1 t'"
      using use_hash_built [of "proof" hb _ hr ?t1 False ids pos ms] Suc.prems(3,5) len by auto
    then show ?thesis using next_bit_built [of "proof" fb False fr t] Suc.prems False len
      by (simp del: subtree_root.simps)
  next
    case True
    let ?R = "(2 * pos + 1) * 2 ^ h < length ids"
    let ?rb = "if ?R then tree_bits ms h (2 * pos + 1) else []"
    let ?rh = "if ?R then tree_hashes sha256 ids ms h (2 * pos + 1) else []"
    let ?lb = "tree_bits ms h (2 * pos)" and ?lh = "tree_hashes sha256 ids ms h (2 * pos)"
    have bit: "next_bit proof t = Inr (True, ?t1)"
      using next_bit_built [of "proof" fb True _ t] Suc.prems True len by simp
    obtain t2 where l: "traverse_and_extract sha256 proof h (2 * pos) ?t1 = Inr (subtree_root sha256 ids h (2 * pos), t2)"
      and lu: "bits_used t2 = length (fb @ [True]) + length ?lb" "hashes_used t2 = length hb + length ?lh"
      and lx: "extracted proof ids ms (covers ms h (2 * pos)) ?t1 t2"
      using Suc.IH [OF ch(1), of "fb @ [True]" "?rb @ fr" hb "?rh @ hr" ?t1] Suc.prems True ms by auto
    have w: "2 * pos + 1 < compute_partial_tree_width proof h \<longleftrightarrow> ?R"
      using ch(4) cnt by (simp add: compute_partial_tree_width_def)
    obtain r t3 where r: "(if 2 * pos + 1 < compute_partial_tree_width proof h
          then traverse_and_extract sha256 proof h (2 * pos + 1) else sret (subtree_root sha256 ids h (2 * pos))) t2 = Inr (r, t3)"
      and rr: "r = (if ?R then subtree_root sha256 ids h (2 * pos + 1) else subtree_root sha256 ids h (2 * pos))"
      and ru: "bits_used t3 = bits_used t2 + length ?rb" "hashes_used t3 = hashes_used t2 + length ?rh"
      and rx: "extracted proof ids ms (?R \<and> covers ms h (2 * pos + 1)) t2 t3"
    proof (cases ?R)
      case True': True
      show ?thesis
        using Suc.IH [OF ch(2) [OF True'], of "fb @ [True] @ ?lb" fr "hb @ ?lh" hr t2] Suc.prems True True' ms lu w that
        by auto
    next
      case False
      then show ?thesis using that [of "subtree_root sha256 ids h (2 * pos)" t2] w by (simp add: extracted_def)
    qed
    have "extracted proof ids ms (covers ms (Suc h) pos) t t3"
      using extracted_trans [OF lx rx] ms by (simp add: covers_children)
    then show ?thesis
      using bit l r rr lu ru True ms ch(3)
      by (auto simp: Let_def checked_mul_w_def checked_add_w_def mult.commute)
  qed
qed

lemma length_tree_bits: "length (tree_bits ms h pos) < 2 ^ Suc h"
proof (induction h arbitrary: pos)
  case (Suc h)
  show ?case using Suc [of "2 * pos"] Suc [of "2 * pos + 1"] by auto
qed simp

lemma length_tree_hashes: "length (tree_hashes sha256 ids ms h pos) \<le> length (tree_bits ms h pos)"
proof (induction h arbitrary: pos)
  case (Suc h)
  show ?case using Suc [of "2 * pos"] Suc [of "2 * pos + 1"] by auto
qed simp

lemma length_tx_ids_of: "tx_ids_of sha256 txs = Inr ids \<Longrightarrow> length ids = length txs"
  by (induction txs arbitrary: ids) (auto simp: rbind_Inr_iff)

lemma nth_tx_ids_of: "tx_ids_of sha256 txs = Inr ids \<Longrightarrow> i < length txs \<Longrightarrow> tx_id sha256 (txs ! i) = Inr (ids ! i)"
  by (induction txs arbitrary: ids i) (auto simp: rbind_Inr_iff nth_Cons split: nat.splits)

text \<open>
  C32: Completeness of inclusion proofs. The proof that \<open>Block::merkle_proof\<close> builds for one transaction
  of a block is accepted for that transaction, with the root of the block's tree, the position of the
  transaction in the block and the hash of the block, for every block of at most the accepted number
  of transactions with distinct identifiers.
\<close>

theorem merkle_proof_complete:
  assumes "tx_ids_of sha256 (bl_transactions b) = Inr ids" and "distinct ids"
    and "m < length ids" and "length ids \<le> MAX_TRANSACTIONS_IN_PROOF"
    and "\<forall>inp \<in> set (tx_inputs (bl_transactions b ! m)). length (ti_script inp) < 2 ^ 32"
    and "size_no_witness (bl_transactions b ! m) = Inr n" and "n \<le> len"
  shows "\<exists>proof root. block_merkle_proof sha256 b [ids ! m] = Inr proof
     \<and> compute_root sha256 (compute_height (length ids)) 0 (length ids) ids = Inr root
     \<and> verify_proof sha256 \<lparr>ptp_transaction = bl_transactions b ! m, ptp_tx_encoded_len = len, ptp_merkle_proof = proof\<rparr>
        = Inr \<lparr>extracted_root = root, transaction_hash = ids ! m, transaction_position = m,
            pr_transaction = bl_transactions b ! m, pr_tx_count = length ids, pr_block_hash = bh_hash (bl_header b)\<rparr>"
proof -
  let ?h = "compute_height (length ids)"
  let ?ms = "map (\<lambda>i. i \<in> set [ids ! m]) ids"
  let ?init = "\<lparr>mp_block_header = bl_header b, mp_flag_bits = [], mp_transactions_count = length ids, mp_hashes = []\<rparr>"
  let ?p = "append_nodes ?init (tree_bits ?ms ?h 0) (tree_hashes sha256 ids ?ms ?h 0)"
  let ?t0 = "\<lparr>bits_used = 0, hashes_used = 0, merkle_position = None, hash_position = None\<rparr>"
  have n0: "0 < length ids" using assms(3) by (rule le_less_trans [rotated]) simp
  note len = length_tx_ids_of [OF assms(1)] and node = node_top [OF n0 assms(4)]
    and h = compute_height_bounds [OF n0 assms(4)]
  have "length ids < 2 ^ 32" using assms(4) by (simp add: MAX_TRANSACTIONS_IN_PROOF_def)
  then have build: "block_merkle_proof sha256 b [ids ! m] = Inr ?p"
    using assms(1) traverse_and_build_eq [OF node, of ?init ?ms sha256] len
    by (simp add: block_merkle_proof_def Let_def compute_partial_tree_height_def)
  have "(2 :: nat) ^ Suc ?h \<le> 2 ^ 16" using h(1) by (intro power_increasing) simp_all
  then have small: "length (tree_bits ?ms ?h 0) < 2 ^ 16" using length_tree_bits [of ?ms ?h 0] by linarith
  have cov: "covers ?ms ?h 0" unfolding covers_def using assms(3) h(2) by (intro exI [of _ m]) simp
  obtain t where t: "traverse_and_extract sha256 ?p ?h 0 ?t0 = Inr (subtree_root sha256 ids ?h 0, t)"
    and u: "bits_used t = length (tree_bits ?ms ?h 0)" "hashes_used t = length (tree_hashes sha256 ids ?ms ?h 0)"
    and x: "extracted ?p ids ?ms True ?t0 t"
    using traverse_built [OF node, of ?p ?ms "[]" "[]" "[]" sha256 "[]" ?t0] cov small
      length_tree_hashes [of sha256 ids ?ms ?h 0] by auto
  obtain q k where q: "merkle_position t = Some q" "hash_position t = Some k" "q < length ids" "ids ! q = ids ! m"
    "k < length (mp_hashes ?p)" "mp_hashes ?p ! k = ids ! q"
    using x by (auto simp: extracted_def simp del: append_nodes_simps)
  then have "q = m" using assms(2,3) by (simp add: nth_eq_iff_index_eq)
  moreover have "tx_id_bounded sha256 (bl_transactions b ! m) len = Inr (ids ! m)"
    using tx_id_bounded_eq [OF assms(5)] assms(3,6,7) nth_tx_ids_of [OF assms(1)] len by simp
  ultimately have "verify_proof sha256 \<lparr>ptp_transaction = bl_transactions b ! m, ptp_tx_encoded_len = len, ptp_merkle_proof = ?p\<rparr>
      = Inr \<lparr>extracted_root = subtree_root sha256 ids ?h 0, transaction_hash = ids ! m, transaction_position = m,
          pr_transaction = bl_transactions b ! m, pr_tx_count = length ids, pr_block_hash = bh_hash (bl_header b)\<rparr>"
    using t u q n0 assms(4) small length_tree_hashes [of sha256 ids ?ms ?h 0]
    by (simp add: verify_proof_def Let_def compute_partial_tree_height_def checked_add_w_def index_or_panic_def)
  then show ?thesis using build compute_root_eq [OF node, of sha256] by blast
qed

subsection \<open>Concrete proofs\<close>

definition sample_header :: block_header where
  "sample_header = \<lparr>bh_merkle_root = 0, bh_target = 0, bh_timestamp = 0, bh_version = 4, bh_hash = 9,
     bh_hash_prev_block = 0, bh_nonce = 0\<rparr>"

definition sample_tx :: "u32 \<Rightarrow> transaction" where
  "sample_tx lock = \<lparr>tx_version = 2, tx_inputs = [], tx_outputs = [], tx_lock_at = BlockHeight lock\<rparr>"

definition sample_proof :: partial_transaction_proof where
  "sample_proof = \<lparr>ptp_transaction = sample_tx 5, ptp_tx_encoded_len = 10,
     ptp_merkle_proof = \<lparr>mp_block_header = sample_header, mp_flag_bits = [True, False, True],
       mp_transactions_count = 2, mp_hashes = [0, 0]\<rparr>\<rparr>"

lemma sample_size: "size_no_witness (sample_tx lock) = Inr 10"
  by (simp add: size_no_witness_def format_no_witness_chunks write_all_vec expect_ok_def chunks_no_witness_def
      chunks_vec_def chunks_compact_uint_def sample_tx_def vec_write_def)

lemma sample_tx_id: "tx_id (\<lambda>_. 0) (sample_tx lock) = Inr 0"
  by (simp add: tx_id_def format_no_witness_chunks write_all_vec expect_ok_def sha256d_le_def sha256d_def
      h256le_from_bytes_le_def from_le_def)

lemma sample_height: "compute_height 2 = 1" "compute_height (Suc (Suc 0)) = Suc 0"
  by (simp_all add: compute_height_def compute_height_loop.simps compute_width_def)

lemma sample_step: "merkle_step (\<lambda>_. 0) a b = 0"
  by (simp add: hash256_merkle_step_def sha256d_def)

lemma sample_proof_accepted:
  "verify_proof (\<lambda>_. 0) sample_proof = Inr \<lparr>extracted_root = 0, transaction_hash = 0, transaction_position = 1,
     pr_transaction = sample_tx 5, pr_tx_count = 2, pr_block_hash = 9\<rparr>"
proof -
  have "tx_id_bounded (\<lambda>_. 0) (sample_tx 5) 10 = Inr 0"
    using tx_id_bounded_eq [of "sample_tx 5" "\<lambda>_. 0" 10] sample_size [of 5] sample_tx_id [of 5]
    by (simp add: sample_tx_def)
  then show ?thesis
    by (simp add: verify_proof_def sample_proof_def MAX_TRANSACTIONS_IN_PROOF_def compute_partial_tree_height_def
        sample_height next_bit_def use_hash_def index_get_def index_or_panic_def checked_add_w_def checked_mul_w_def
        compute_partial_tree_width_def compute_width_def sample_step sample_header_def)
qed

lemma merkle_proof_sound_witness:
  "transaction_position \<lparr>extracted_root = 0, transaction_hash = 0, transaction_position = 1,
     pr_transaction = sample_tx 5, pr_tx_count = 2, pr_block_hash = 9\<rparr> < length [0 :: h256le, 0]
   \<and> tx_id_bounded (\<lambda>_. 0) (ptp_transaction sample_proof) (ptp_tx_encoded_len sample_proof) = Inr ([0, 0] ! 1)"
  using merkle_proof_sound [OF sample_proof_accepted, of "[0, 0]"]
  by (simp add: sample_height sample_step index_or_panic_def checked_add_w_def checked_mul_w_def compute_width_def
      next_bit_def use_hash_def index_get_def compute_partial_tree_width_def sample_proof_def)

lemma merkle_proof_complete_witness:
  "\<exists>proof root. block_merkle_proof (\<lambda>_. 0) \<lparr>bl_header = sample_header, bl_transactions = [sample_tx 5]\<rparr> [0] = Inr proof
     \<and> compute_root (\<lambda>_. 0) (compute_height (length [0])) 0 (length [0 :: h256le]) [0] = Inr root
     \<and> verify_proof (\<lambda>_. 0) \<lparr>ptp_transaction = sample_tx 5, ptp_tx_encoded_len = 12, ptp_merkle_proof = proof\<rparr>
        = Inr \<lparr>extracted_root = root, transaction_hash = 0, transaction_position = 0,
            pr_transaction = sample_tx 5, pr_tx_count = 1, pr_block_hash = 9\<rparr>"
  using merkle_proof_complete [of "\<lambda>_. 0" "\<lparr>bl_header = sample_header, bl_transactions = [sample_tx 5]\<rparr>" "[0]" 0 10 12]
    sample_size [of 5] sample_tx_id [of 5]
  by (simp add: MAX_TRANSACTIONS_IN_PROOF_def sample_tx_def sample_header_def)

end
