(* ===== verification/Bitcoin_Merkle_Codec.thy ===== *)
theory Bitcoin_Merkle_Codec
  imports Bitcoin_Merkle
begin

unbundle bit_operations_syntax

text \<open>
  The wire format of a Merkle proof, as \<^verbatim>\<open>gettxoutproof\<close> of the Bitcoin client gives it: the formatter
  of \<^verbatim>\<open>src/crates/bitcoin/src/formatter.rs\<close>, the parser \<^verbatim>\<open>MerkleProof::parse\<close> of \<^verbatim>\<open>merkle.rs\<close>, and the
  proof that they are inverse up to the padding of the flag bits to whole bytes.
\<close>

definition pack_bit :: "bool list \<Rightarrow> nat \<Rightarrow> byte list \<Rightarrow> byte list" where
  "pack_bit flag_bits p bytes = bytes[p div 8 := (bytes ! (p div 8)) OR push_bit (p mod 8) (of_bool (flag_bits ! p))]"

definition pack_flag_bits :: "bool list \<Rightarrow> byte list" where
  "pack_flag_bits flag_bits =
     fold (pack_bit flag_bits) [0..<length flag_bits] (replicate ((length flag_bits + 7) div 8) 0)"

definition try_format_merkle_proof :: "'w write_fn \<Rightarrow> merkle_proof \<Rightarrow> 'w \<Rightarrow> 'w bres" where
  "try_format_merkle_proof wr self w =
     rbind (try_format_header wr (mp_block_header self) w) (\<lambda>w.
     rbind (try_format_int wr (word_of_nat (mp_transactions_count self) :: u32) w) (\<lambda>w.
     rbind (try_format_vec wr (try_format_h256le wr) (mp_hashes self) w) (\<lambda>w.
     rbind (ok_or (checked_add_w 64 (length (mp_flag_bits self)) 7) ArithmeticOverflow) (\<lambda>_.
     try_format_byte_vec wr (pack_flag_bits (mp_flag_bits self)) w))))"

definition parse_merkle_proof :: "digest \<Rightarrow> byte list \<Rightarrow> merkle_proof bres" where
  "parse_merkle_proof sha256 raw =
     rbind (bp_parse (parse_header sha256) (bytes_parser_new raw)) (\<lambda>(block_header, p).
     rbind (bp_parse (parse_int :: u32 parsable) p) (\<lambda>(transactions_count, p).
     rbind (bp_parse parse_compact p) (\<lambda>(hashes_count, p).
     rbind (parse_count parse_h256le (unat hashes_count) p) (\<lambda>(hashes, p).
     rbind (bp_parse parse_compact p) (\<lambda>(flag_bits_count, p).
     rbind (parse_count parse_flag_bits (unat flag_bits_count) p) (\<lambda>(flag_bits, p).
     Inr \<lparr>mp_block_header = block_header, mp_flag_bits = concat flag_bits,
          mp_transactions_count = unat transactions_count, mp_hashes = hashes\<rparr>))))))"

subsection \<open>Flag bits\<close>

definition pad_flags :: "bool list \<Rightarrow> bool list" where
  "pad_flags flags = flags @ replicate (8 * ((length flags + 7) div 8) - length flags) False"

definition byte_bits :: "byte \<Rightarrow> bool list" where
  "byte_bits b = map (bit b) [0..<8]"

lemma decodes_flag_bits: "decodes parse_flag_bits [b] (byte_bits b)"
  by (simp add: decodes_def parse_flag_bits_def index_get_def nth_append byte_bits_def bit_iff_and_push_bit_not_eq_0)

lemma length_pack [simp]:
  "length (fold (pack_bit flags) ps bs) = length bs"
  "length (pack_flag_bits flags) = (length flags + 7) div 8"
proof -
  show *: "length (fold (pack_bit flags) ps bs) = length bs" for ps bs
    by (induction ps arbitrary: bs) (simp_all add: pack_bit_def)
  show "length (pack_flag_bits flags) = (length flags + 7) div 8" by (simp add: pack_flag_bits_def *)
qed

lemma bit_pack_prefix:
  assumes "m \<le> length flags" and "k < (length flags + 7) div 8" and "i < 8"
  shows "bit (fold (pack_bit flags) [0..<m] (replicate ((length flags + 7) div 8) 0) ! k :: byte) i
     \<longleftrightarrow> 8 * k + i < m \<and> flags ! (8 * k + i)"
  using assms(1)
proof (induction m)
  case 0
  then show ?case using assms(2) by simp
next
  case (Suc m)
  let ?bs = "fold (pack_bit flags) [0..<m] (replicate ((length flags + 7) div 8) (0 :: byte))"
  have m: "m div 8 < length ?bs" using Suc.prems by simp
  have eq: "8 * k + i = m \<longleftrightarrow> k = m div 8 \<and> i = m mod 8" using assms(3) by auto
  have "bit (pack_bit flags m ?bs ! k) i \<longleftrightarrow> bit (?bs ! k) i \<or> (k = m div 8 \<and> i = m mod 8 \<and> flags ! m)"
    using m assms(3) by (auto simp: pack_bit_def nth_list_update bit_or_iff bit_push_bit_iff bit_of_bool_iff)
  then show ?case using Suc eq [symmetric] by (auto simp: less_Suc_eq)
qed

lemma concat_byte_bits:
  "concat (map (\<lambda>k. map (\<lambda>i. f (8 * k + i)) [0..<8]) [0..<n]) = map f [0..<8 * n]"
proof (induction n)
  case (Suc n)
  have "[0..<8 * Suc n] = [0..<8 * n] @ map (\<lambda>i. 8 * n + i) [0..<8]"
    using upt_add_eq_append [of 0 "8 * n" 8] by (simp add: add.commute map_add_upt)
  then show ?case using Suc by (simp add: comp_def)
qed simp

lemma pack_flag_bits_unpack: "concat (map byte_bits (pack_flag_bits flags)) = pad_flags flags"
proof -
  let ?n = "(length flags + 7) div 8"
  have "map byte_bits (pack_flag_bits flags) = map (\<lambda>k. byte_bits (pack_flag_bits flags ! k)) [0..<?n]"
    by (rule nth_equalityI) simp_all
  also have "\<dots> = map (\<lambda>k. map (\<lambda>i. 8 * k + i < length flags \<and> flags ! (8 * k + i)) [0..<8]) [0..<?n]"
    using bit_pack_prefix [of "length flags" flags] by (auto simp: byte_bits_def pack_flag_bits_def)
  finally have "concat (map byte_bits (pack_flag_bits flags)) = map (\<lambda>j. j < length flags \<and> flags ! j) [0..<8 * ?n]"
    using concat_byte_bits [of "\<lambda>j. j < length flags \<and> flags ! j" ?n] by simp
  also have "\<dots> = pad_flags flags"
    by (rule nth_equalityI) (auto simp: pad_flags_def nth_append)
  finally show ?thesis .
qed

subsection \<open>Round trip\<close>

definition enc_merkle_proof :: "merkle_proof \<Rightarrow> u32 \<Rightarrow> byte list" where
  "enc_merkle_proof mp bits = enc_header (mp_block_header mp) bits
     @ to_le (word_of_nat (mp_transactions_count mp) :: u32) @ enc_vec to_le (mp_hashes mp)
     @ enc_byte_vec (pack_flag_bits (mp_flag_bits mp))"

lemma format_merkle_proof_enc:
  assumes "get_compact (bh_target (mp_block_header mp)) = Some bits" and "length (mp_flag_bits mp) + 7 < 2 ^ 64"
  shows "try_format_merkle_proof vec_write mp [] = Inr (enc_merkle_proof mp bits)"
proof -
  have "try_format_vec vec_write (try_format_h256le vec_write) (mp_hashes mp) w
      = write_all vec_write (chunks_vec (\<lambda>h. [to_le h]) (mp_hashes mp)) w" for w
    by (rule try_format_vec_chunks) (simp add: try_format_h256le_def h256le_to_bytes_le_def)
  then show ?thesis using assms
    by (simp add: try_format_merkle_proof_def try_format_header_enc enc_merkle_proof_def try_format_int_def
        try_format_byte_vec_chunks write_all_vec vec_write_def concat_chunks_vec checked_add_w_def)
qed

lemma decodes_header:
  assumes "set_compact bits = Some (bh_target h)" and "bh_hash h = sha256d_le sha256 (enc_header h bits)"
  shows "decodes (parse_header sha256) (enc_header h bits) h"
proof -
  have "slice_get (pre @ enc_header h bits @ post) (length pre) (length pre + 80) = Some (enc_header h bits)" for pre post
    using slice_get_append [of pre "enc_header h bits" post] by simp
  moreover have "parse_block_header sha256 (enc_header h bits) = Inr h"
    using parse_block_header_enc [OF assms(1), of sha256] assms(2) by (metis (no_types, lifting) block_header.surjective block_header.update_convs(5))
  ultimately show ?thesis by (simp add: decodes_def parse_header_def)
qed

text \<open>
  Parsing a formatted Merkle proof gives the proof back, with its flag bits padded with zeros to
  whole bytes, for every proof whose header has an exactly representable target and carries its hash.
\<close>

theorem merkle_proof_roundtrip:
  assumes "get_compact (bh_target (mp_block_header mp)) = Some bits"
    and "set_compact bits = Some (bh_target (mp_block_header mp))"
    and "bh_hash (mp_block_header mp) = sha256d_le sha256 (enc_header (mp_block_header mp) bits)"
    and "mp_transactions_count mp < 2 ^ 32" and "length (mp_flag_bits mp) + 7 < 2 ^ 64"
    and "length (enc_merkle_proof mp bits) < 2 ^ 64"
  shows "rbind (try_format_merkle_proof vec_write mp []) (parse_merkle_proof sha256)
     = Inr (mp\<lparr>mp_flag_bits := pad_flags (mp_flag_bits mp)\<rparr>)"
proof -
  let ?h = "enc_header (mp_block_header mp) bits" and ?c = "word_of_nat (mp_transactions_count mp) :: u32"
  let ?nh = "word_of_nat (length (mp_hashes mp)) :: u64" and ?hs = "concat (map to_le (mp_hashes mp))"
  let ?fl = "pack_flag_bits (mp_flag_bits mp)"
  let ?nf = "word_of_nat (length ?fl) :: u64"
  have enc: "enc_merkle_proof mp bits = ?h @ to_le ?c @ enc_compact ?nh @ ?hs @ enc_compact ?nf @ ?fl"
    by (simp add: enc_merkle_proof_def enc_vec_def enc_byte_vec_def)
  note len = assms(6) [unfolded enc]
  have "length (mp_hashes mp) \<le> length ?hs" by (rule length_concat_map_ge) simp
  then have n: "unat ?nh = length (mp_hashes mp)" "unat ?nf = length ?fl" "unat ?c = mp_transactions_count mp"
    using len assms(4) by (simp_all add: unat_of_nat)
  have "bp_parse (parse_header sha256) (at [] (?h @ to_le ?c @ enc_compact ?nh @ ?hs @ enc_compact ?nf @ ?fl))
      = Inr (mp_block_header mp, at ?h (to_le ?c @ enc_compact ?nh @ ?hs @ enc_compact ?nf @ ?fl))"
    using bp_parse_decodes [OF decodes_header [OF assms(2,3)], of "[]"] len by simp
  moreover have "bp_parse parse_int (at ?h (to_le ?c @ enc_compact ?nh @ ?hs @ enc_compact ?nf @ ?fl))
      = Inr (?c, at (?h @ to_le ?c) (enc_compact ?nh @ ?hs @ enc_compact ?nf @ ?fl))"
    using len by (intro parse_step_int) simp_all
  moreover have "bp_parse parse_compact (at (?h @ to_le ?c) (enc_compact ?nh @ ?hs @ enc_compact ?nf @ ?fl))
      = Inr (?nh, at (?h @ to_le ?c @ enc_compact ?nh) (?hs @ enc_compact ?nf @ ?fl))"
    using parse_step_compact [of "?h @ to_le ?c" ?nh] len by simp
  moreover have "parse_count parse_h256le (length (mp_hashes mp)) (at (?h @ to_le ?c @ enc_compact ?nh) (?hs @ enc_compact ?nf @ ?fl))
      = Inr (mp_hashes mp, at (?h @ to_le ?c @ enc_compact ?nh @ ?hs) (enc_compact ?nf @ ?fl))"
    using parse_count_decodes [of "mp_hashes mp" parse_h256le to_le id "?h @ to_le ?c @ enc_compact ?nh"] decodes_h256le len
    by simp
  moreover have "bp_parse parse_compact (at (?h @ to_le ?c @ enc_compact ?nh @ ?hs) (enc_compact ?nf @ ?fl))
      = Inr (?nf, at (?h @ to_le ?c @ enc_compact ?nh @ ?hs @ enc_compact ?nf) ?fl)"
    using parse_step_compact [of "?h @ to_le ?c @ enc_compact ?nh @ ?hs" ?nf ?fl] len by simp
  moreover have "parse_count parse_flag_bits (length ?fl) (at (?h @ to_le ?c @ enc_compact ?nh @ ?hs @ enc_compact ?nf) ?fl)
      = Inr (map byte_bits ?fl, at (?h @ to_le ?c @ enc_compact ?nh @ ?hs @ enc_compact ?nf @ ?fl) [])"
    using parse_count_decodes [of ?fl parse_flag_bits "\<lambda>b. [b]" byte_bits
        "?h @ to_le ?c @ enc_compact ?nh @ ?hs @ enc_compact ?nf" "[]"] decodes_flag_bits len by simp
  ultimately have "parse_merkle_proof sha256 (enc_merkle_proof mp bits)
      = Inr (mp\<lparr>mp_flag_bits := pad_flags (mp_flag_bits mp)\<rparr>)"
    unfolding parse_merkle_proof_def bytes_parser_new_at enc by (simp add: n pack_flag_bits_unpack del: length_pack)
  then show ?thesis by (simp add: format_merkle_proof_enc [OF assms(1,5)])
qed

lemma merkle_proof_roundtrip_witness:
  "rbind (try_format_merkle_proof vec_write \<lparr>mp_block_header = sample_header, mp_flag_bits = [True, False, True],
      mp_transactions_count = 2, mp_hashes = [7, 8]\<rparr> []) (parse_merkle_proof (\<lambda>_. 9))
   = Inr \<lparr>mp_block_header = sample_header, mp_flag_bits = [True, False, True, False, False, False, False, False],
      mp_transactions_count = 2, mp_hashes = [7, 8]\<rparr>"
proof -
  let ?mp = "\<lparr>mp_block_header = sample_header, mp_flag_bits = [True, False, True], mp_transactions_count = 2,
      mp_hashes = [7, 8]\<rparr>"
  have len: "length (enc_merkle_proof ?mp 0) = 151"
    by (simp add: enc_merkle_proof_def enc_vec_def enc_byte_vec_def enc_compact_def chunks_compact_uint_def)
  have "rbind (try_format_merkle_proof vec_write ?mp []) (parse_merkle_proof (\<lambda>_. 9))
      = Inr (?mp\<lparr>mp_flag_bits := pad_flags (mp_flag_bits ?mp)\<rparr>)"
    by (rule merkle_proof_roundtrip [where bits = 0])
      (simp_all add: get_compact_def set_compact_def u256_bits_def nat_bits.simps sample_header_def sha256d_le_def
        sha256d_def len [unfolded sample_header_def])
  moreover have "replicate 5 False = [False, False, False, False, False]" by (simp add: numeral_eq_Suc)
  ultimately show ?thesis by (simp add: pad_flags_def)
qed

end
