(* ===== verification/Security.thy ===== *)
theory Security
  imports Prelude
begin

text \<open>
  The security pallet (\<^verbatim>\<open>src/crates/security/src/lib.rs\<close>): the nonce that makes request identifiers
  unique and the counter of active parachain blocks by which request expiry is measured.

  The block number is a \<^verbatim>\<open>u32\<close>. The hasher and the SCALE encoding of account identifiers are code
  outside the repository: \<open>get_secure_id\<close> takes the digest and the encoded account as arguments.
  Storage records of the other pallets extend the record \<open>security\<close>, since all pallets share one
  storage.
\<close>

datatype security_event = UpdateActiveBlock nat | Activated | Deactivated

record security =
  Nonce :: "256 word"
  ActiveBlockCount :: nat
  IsDeactivated :: bool
  security_events :: "security_event list"

definition deposit_security_event :: "security_event \<Rightarrow> 'a security_scheme \<Rightarrow> 'a security_scheme" where
  "deposit_security_event e s = s\<lparr>security_events := security_events s @ [e]\<rparr>"

definition increment_active_block :: "'a security_scheme \<Rightarrow> 'a security_scheme" where
  "increment_active_block s =
     (if IsDeactivated s then s
      else let height = saturating_add_w 32 (ActiveBlockCount s) 1
           in deposit_security_event (UpdateActiveBlock height) (s\<lparr>ActiveBlockCount := height\<rparr>))"

definition on_initialize :: "'a security_scheme \<Rightarrow> 'a security_scheme" where
  "on_initialize s = increment_active_block s"

text \<open>\<open>is_root\<close> tells whether the origin of the call is the root origin.\<close>

datatype origin_error = BadOrigin

definition activate_counter :: "bool \<Rightarrow> bool \<Rightarrow> ('a security_scheme, origin_error, unit) action" where
  "activate_counter is_root is_active s =
     (if \<not> is_root then Inl (Err BadOrigin)
      else Inr ((), deposit_security_event (if is_active then Activated else Deactivated)
                      (s\<lparr>IsDeactivated := \<not> is_active\<rparr>)))"

definition parachain_block_expired :: "'a security_scheme \<Rightarrow> nat \<Rightarrow> nat \<Rightarrow> (arithmetic_error, bool) result" where
  "parachain_block_expired s opentime period =
     rbind (ok_or (checked_add_w 32 opentime period) Overflow) (\<lambda>expiration_block.
     Inr (ActiveBlockCount s > expiration_block))"

text \<open>The nonce wraps around: \<^verbatim>\<open>overflowing_add\<close> is addition of words.\<close>

definition get_nonce :: "'a security_scheme \<Rightarrow> 256 word \<times> 'a security_scheme" where
  "get_nonce s = (let res = Nonce s + 1 in (res, s\<lparr>Nonce := res\<rparr>))"

definition get_secure_id ::
    "('b \<Rightarrow> 'h) \<Rightarrow> ('account \<Rightarrow> 256 word \<Rightarrow> 'p \<Rightarrow> 'b) \<Rightarrow> 'p \<Rightarrow> 'account \<Rightarrow> 'a security_scheme \<Rightarrow> 'h \<times> 'a security_scheme" where
  "get_secure_id hash encode parent_hash account s =
     (let (nonce, s) = get_nonce s in (hash (encode account nonce parent_hash), s))"

definition set_active_block_number :: "nat \<Rightarrow> 'a security_scheme \<Rightarrow> 'a security_scheme" where
  "set_active_block_number n s = s\<lparr>ActiveBlockCount := n\<rparr>"

subsection \<open>Block counting\<close>

text \<open>A history of blocks: before each block the counter may be activated or deactivated.\<close>

primrec run_blocks :: "bool option list \<Rightarrow> 'a security_scheme \<Rightarrow> 'a security_scheme" where
  "run_blocks [] s = s"
| "run_blocks (c # cs) s =
     run_blocks cs (on_initialize (case c of None \<Rightarrow> s
       | Some b \<Rightarrow> (case activate_counter True b s of Inr (_, s') \<Rightarrow> s' | Inl _ \<Rightarrow> s)))"

primrec active_blocks :: "bool \<Rightarrow> bool option list \<Rightarrow> nat" where
  "active_blocks active [] = 0"
| "active_blocks active (c # cs) =
     (let active = (case c of None \<Rightarrow> active | Some b \<Rightarrow> b)
      in (if active then 1 else 0) + active_blocks active cs)"

lemma on_initialize_count:
  assumes "ActiveBlockCount s < 2 ^ 32"
  shows "ActiveBlockCount (on_initialize s) = min (2 ^ 32 - 1) (ActiveBlockCount s + (if IsDeactivated s then 0 else 1))"
    and "IsDeactivated (on_initialize s) = IsDeactivated s"
  using assms
  by (auto simp: on_initialize_def increment_active_block_def deposit_security_event_def saturating_add_w_def Let_def)

text \<open>
  The counter of active blocks counts exactly the blocks that were initialised while the counter
  was active, saturating at the largest \<^verbatim>\<open>u32\<close>, whatever the sequence of activations and blocks.
\<close>

theorem active_block_count:
  assumes "ActiveBlockCount s < 2 ^ 32"
  shows "ActiveBlockCount (run_blocks cs s)
     = min (2 ^ 32 - 1) (ActiveBlockCount s + active_blocks (\<not> IsDeactivated s) cs)"
  using assms
proof (induction cs arbitrary: s)
  case (Cons c cs)
  let ?s = "case c of None \<Rightarrow> s | Some b \<Rightarrow> s\<lparr>IsDeactivated := \<not> b, security_events := security_events s @ [if b then Activated else Deactivated]\<rparr>"
  have run: "run_blocks (c # cs) s = run_blocks cs (on_initialize ?s)"
    by (cases c) (simp_all add: activate_counter_def deposit_security_event_def)
  have d: "\<not> IsDeactivated ?s \<longleftrightarrow> (case c of None \<Rightarrow> \<not> IsDeactivated s | Some b \<Rightarrow> b)"
    and a: "ActiveBlockCount ?s = ActiveBlockCount s"
    by (simp_all split: option.split)
  note ini = on_initialize_count [of ?s]
  have "ActiveBlockCount (on_initialize ?s) < 2 ^ 32" using ini(1) a Cons.prems by simp
  from Cons.IH [OF this] show ?case
    using ini a Cons.prems d unfolding run by (auto simp: Let_def)
qed simp

lemma active_block_count_witness:
  "ActiveBlockCount (run_blocks [None, Some False, None, Some True]
     \<lparr>Nonce = 0, ActiveBlockCount = 7, IsDeactivated = False, security_events = []\<rparr>) = 9"
  by (subst active_block_count) simp_all

subsection \<open>Identifiers\<close>

primrec draw_nonces :: "nat \<Rightarrow> 'a security_scheme \<Rightarrow> 256 word list" where
  "draw_nonces 0 s = []"
| "draw_nonces (Suc n) s = (let (x, s) = get_nonce s in x # draw_nonces n s)"

lemma draw_nonces_eq: "draw_nonces n s = map (\<lambda>i. Nonce s + 1 + word_of_nat i) [0..<n]"
proof (induction n arbitrary: s)
  case (Suc n)
  have "map (\<lambda>i. Nonce s + 1 + word_of_nat i) [0..<Suc n]
      = (Nonce s + 1) # map (\<lambda>i. Nonce s + 1 + 1 + word_of_nat i) [0..<n]"
    by (subst upt_conv_Cons) (simp_all add: map_Suc_upt [symmetric] comp_def add.assoc del: upt_Suc)
  then show ?case by (simp add: Suc get_nonce_def Let_def del: upt_Suc)
qed simp

text \<open>
  Among fewer than \<open>2 ^ 256\<close> consecutive draws, no nonce is handed out twice, so the preimages of
  the identifiers that \<open>get_secure_id\<close> hashes are pairwise different.
\<close>

theorem nonces_distinct:
  assumes "n \<le> 2 ^ 256"
  shows "distinct (draw_nonces n s)"
proof -
  have "inj_on (\<lambda>i. Nonce s + 1 + (word_of_nat i :: 256 word)) {..<n}"
  proof (rule inj_onI)
    fix i j assume "i \<in> {..<n}" "j \<in> {..<n}" and eq: "Nonce s + 1 + (word_of_nat i :: 256 word) = Nonce s + 1 + word_of_nat j"
    then have "unat (word_of_nat i :: 256 word) = i" "unat (word_of_nat j :: 256 word) = j"
      using assms by (simp_all only: unat_of_nat lessThan_iff) (simp_all)
    then show "i = j" using eq by (metis add_left_cancel)
  qed
  then show ?thesis by (simp add: draw_nonces_eq distinct_map atLeast0LessThan)
qed

lemma nonces_distinct_witness:
  "distinct (draw_nonces 3 \<lparr>Nonce = - 2, ActiveBlockCount = 7, IsDeactivated = False, security_events = []\<rparr>)"
  by (rule nonces_distinct) simp

end
