(* ===== verification/BTC_Relay.thy ===== *)
theory BTC_Relay
  imports Bitcoin_Merkle Security "HOL-Library.AList"
begin

text \<open>
  The BTC-Relay pallet (\<^verbatim>\<open>src/crates/btc-relay/src/lib.rs\<close>, \<^verbatim>\<open>types.rs\<close>): storage of Bitcoin block
  headers, forks and the main chain, and verification of payments.

  Storage maps are maps; \<^verbatim>\<open>Chains\<close>, over which the code iterates, is an association list in the order
  of iteration. Heights, positions and identifiers are \<^verbatim>\<open>u32\<close> values written as natural numbers with
  the width of each operation written out. A dispatchable that fails leaves the storage as it was,
  which the result type expresses.
\<close>

subsection \<open>Storage\<close>

record rich_block_header =
  rb_block_header :: block_header
  rb_block_height :: nat
  rb_chain_id :: nat
  rb_para_height :: nat

record block_chain =
  bc_chain_id :: nat
  bc_start_height :: nat
  bc_max_height :: nat

text \<open>
  The relay has an error of the same name for every error of the Bitcoin crate; those are \<open>Bitcoin e\<close>.
\<close>

datatype relay_error =
    AlreadyInitialized
  | InvalidStartHeight
  | MissingBlockHeight
  | DuplicateBlock
  | PrevBlock
  | InvalidChainID
  | LowDiff
  | DiffTargetHeader
  | MalformedTxid
  | BitcoinConfirmations
  | ParachainConfirmations
  | OngoingFork
  | Shutdown
  | InvalidPaymentAmount
  | InvalidPayment
  | InvalidOutputFormat
  | InvalidOpReturn
  | InvalidTxVersion
  | UnknownErrorcode
  | ForkIdNotFound
  | BlockNotFound
  | AlreadyReported
  | UnauthorizedRelayer
  | ChainCounterOverflow
  | BlockHeightOverflow
  | ChainsUnderflow
  | TryIntoIntError
  | InvalidTransaction
  | InvalidOpReturnTransaction
  | WrongForkBound
  | InvalidCoinbasePosition
  | Bitcoin bitcoin_error
  | Arithmetic arithmetic_error

datatype 'account relay_event =
    Initialized nat h256le 'account
  | StoreMainChainHeader nat h256le 'account
  | StoreForkHeader nat nat h256le 'account
  | ChainReorg h256le nat nat
  | ForkAheadOfMainChain nat nat nat

record 'account relay = security +
  BlockHeaders :: "h256le \<rightharpoonup> rich_block_header"
  Chains :: "(nat \<times> nat) list"
  ChainsIndex :: "nat \<rightharpoonup> block_chain"
  ChainsHashes :: "nat \<times> nat \<rightharpoonup> h256le"
  BestBlock :: "h256le option"
  BestBlockHeight :: nat
  StartBlockHeight :: "nat option"
  ChainCounter :: nat
  StableBitcoinConfirmations :: nat
  StableParachainConfirmations :: nat
  DisableDifficultyCheck :: bool
  DisableInclusionCheck :: bool
  relay_events :: "'account relay_event list"

type_synonym ('acc, 'x, 'a) relay_action = "(('acc, 'x) relay_scheme, relay_error, 'a) action"

definition DIFFICULTY_ADJUSTMENT_INTERVAL :: nat where "DIFFICULTY_ADJUSTMENT_INTERVAL = 2016"
definition ACCEPTED_MAX_TRANSACTION_OUTPUTS :: nat where "ACCEPTED_MAX_TRANSACTION_OUTPUTS = 3"
definition MAIN_CHAIN_ID :: nat where "MAIN_CHAIN_ID = 0"

definition genesis_build :: "nat \<Rightarrow> nat \<Rightarrow> bool \<Rightarrow> bool \<Rightarrow> ('acc, 'x) relay_scheme \<Rightarrow> ('acc, 'x) relay_scheme" where
  "genesis_build bitcoin_confirmations parachain_confirmations no_difficulty_check no_inclusion_check s =
     s\<lparr>StableBitcoinConfirmations := bitcoin_confirmations, StableParachainConfirmations := parachain_confirmations,
       DisableDifficultyCheck := no_difficulty_check, DisableInclusionCheck := no_inclusion_check\<rparr>"

definition rich_block_header_new :: "block_header \<Rightarrow> nat \<Rightarrow> nat \<Rightarrow> nat \<Rightarrow> rich_block_header" where
  "rich_block_header_new header chain_id block_height para_height =
     \<lparr>rb_block_header = header, rb_block_height = block_height, rb_chain_id = chain_id, rb_para_height = para_height\<rparr>"

definition deposit_relay_event :: "'acc relay_event \<Rightarrow> ('acc, 'x, unit) relay_action" where
  "deposit_relay_event e = smod (\<lambda>s. s\<lparr>relay_events := relay_events s @ [e]\<rparr>)"

subsection \<open>Storage access\<close>

definition get_chain_id_from_position :: "('acc, 'x) relay_scheme \<Rightarrow> nat \<Rightarrow> (relay_error, nat) result" where
  "get_chain_id_from_position s pos = ok_or (map_of (Chains s) pos) InvalidChainID"

definition get_chain_position_from_chain_id :: "('acc, 'x) relay_scheme \<Rightarrow> nat \<Rightarrow> (relay_error, nat) result" where
  "get_chain_position_from_chain_id s chain_id =
     (case find (\<lambda>(k, v). v = chain_id) (Chains s) of Some (k, v) \<Rightarrow> Inr k | None \<Rightarrow> Inl (Err ForkIdNotFound))"

definition get_block_chain_from_id :: "('acc, 'x) relay_scheme \<Rightarrow> nat \<Rightarrow> (relay_error, block_chain) result" where
  "get_block_chain_from_id s chain_id = ok_or (ChainsIndex s chain_id) InvalidChainID"

text \<open>\<^verbatim>\<open>BestBlock\<close> is a \<^verbatim>\<open>ValueQuery\<close>: reading it before it is set gives the zero hash.\<close>

definition get_best_block :: "('acc, 'x) relay_scheme \<Rightarrow> h256le" where
  "get_best_block s = (case BestBlock s of Some h \<Rightarrow> h | None \<Rightarrow> h256le_zero)"

definition best_block_exists :: "('acc, 'x) relay_scheme \<Rightarrow> bool" where
  "best_block_exists s = (BestBlock s \<noteq> None)"

definition block_exists :: "('acc, 'x) relay_scheme \<Rightarrow> nat \<Rightarrow> nat \<Rightarrow> bool" where
  "block_exists s chain_id block_height = (ChainsHashes s (chain_id, block_height) \<noteq> None)"

definition get_block_hash :: "('acc, 'x) relay_scheme \<Rightarrow> nat \<Rightarrow> nat \<Rightarrow> (relay_error, h256le) result" where
  "get_block_hash s chain_id block_height =
     (case ChainsHashes s (chain_id, block_height) of None \<Rightarrow> Inl (Err MissingBlockHeight) | Some h \<Rightarrow> Inr h)"

definition get_block_header_from_hash :: "('acc, 'x) relay_scheme \<Rightarrow> h256le \<Rightarrow> (relay_error, rich_block_header) result" where
  "get_block_header_from_hash s block_hash = ok_or (BlockHeaders s block_hash) BlockNotFound"

definition block_header_exists :: "('acc, 'x) relay_scheme \<Rightarrow> h256le \<Rightarrow> bool" where
  "block_header_exists s block_hash = (BlockHeaders s block_hash \<noteq> None)"

definition get_block_header_from_height ::
    "('acc, 'x) relay_scheme \<Rightarrow> block_chain \<Rightarrow> nat \<Rightarrow> (relay_error, rich_block_header) result" where
  "get_block_header_from_height s blockchain block_height =
     rbind (get_block_hash s (bc_chain_id blockchain) block_height) (get_block_header_from_hash s)"

definition set_chain_from_position_and_id :: "nat \<Rightarrow> nat \<Rightarrow> ('acc, 'x) relay_scheme \<Rightarrow> ('acc, 'x) relay_scheme" where
  "set_chain_from_position_and_id pos i s = s\<lparr>Chains := AList.update pos i (Chains s)\<rparr>"

definition set_or_remove :: "nat \<Rightarrow> nat option \<Rightarrow> (nat \<times> nat) list \<Rightarrow> (nat \<times> nat) list" where
  "set_or_remove k v m = (case v of Some x \<Rightarrow> AList.update k x m | None \<Rightarrow> AList.delete k m)"

text \<open>\<^verbatim>\<open>StorageMap::swap\<close> exchanges the entries of two keys, an absent entry included.\<close>

definition swap_chain :: "nat \<Rightarrow> nat \<Rightarrow> ('acc, 'x) relay_scheme \<Rightarrow> ('acc, 'x) relay_scheme" where
  "swap_chain pos_1 pos_2 s =
     (let v1 = map_of (Chains s) pos_1; v2 = map_of (Chains s) pos_2
      in s\<lparr>Chains := set_or_remove pos_2 v1 (set_or_remove pos_1 v2 (Chains s))\<rparr>)"

definition set_block_chain_from_id :: "nat \<Rightarrow> block_chain \<Rightarrow> ('acc, 'x) relay_scheme \<Rightarrow> ('acc, 'x) relay_scheme" where
  "set_block_chain_from_id i chain s = s\<lparr>ChainsIndex := (ChainsIndex s)(i \<mapsto> chain)\<rparr>"

definition set_block_header_from_hash :: "h256le \<Rightarrow> rich_block_header \<Rightarrow> ('acc, 'x) relay_scheme \<Rightarrow> ('acc, 'x) relay_scheme" where
  "set_block_header_from_hash hash header s = s\<lparr>BlockHeaders := (BlockHeaders s)(hash \<mapsto> header)\<rparr>"

definition insert_block_hash :: "nat \<Rightarrow> nat \<Rightarrow> h256le \<Rightarrow> ('acc, 'x) relay_scheme \<Rightarrow> ('acc, 'x) relay_scheme" where
  "insert_block_hash chain_id block_height block_hash s =
     s\<lparr>ChainsHashes := (ChainsHashes s)((chain_id, block_height) \<mapsto> block_hash)\<rparr>"

definition update_chain_head :: "block_header \<Rightarrow> nat \<Rightarrow> ('acc, 'x) relay_scheme \<Rightarrow> ('acc, 'x) relay_scheme" where
  "update_chain_head header block_height s = s\<lparr>BestBlock := Some (bh_hash header), BestBlockHeight := block_height\<rparr>"

definition store_rich_header :: "block_header \<Rightarrow> nat \<Rightarrow> nat \<Rightarrow> ('acc, 'x) relay_scheme \<Rightarrow> ('acc, 'x) relay_scheme" where
  "store_rich_header header block_height chain_id s =
     set_block_header_from_hash (bh_hash header)
       (rich_block_header_new header chain_id block_height (ActiveBlockCount s)) s"

definition increment_chain_counter :: "('acc, 'x, nat) relay_action" where
  "increment_chain_counter =
     sbind (sget ChainCounter) (\<lambda>ret.
     sbind (slift (\<lambda>_. ok_or (checked_add_w 32 ret 1) (Bitcoin ArithmeticOverflow))) (\<lambda>next_value.
     sbind (smod (\<lambda>s. s\<lparr>ChainCounter := next_value\<rparr>)) (\<lambda>_. sret ret)))"

subsection \<open>Chains\<close>

definition generate_blockchain :: "nat \<Rightarrow> nat \<Rightarrow> h256le \<Rightarrow> ('acc, 'x, block_chain) relay_action" where
  "generate_blockchain chain_id block_height block_hash =
     sbind (smod (insert_block_hash chain_id block_height block_hash)) (\<lambda>_.
     sret \<lparr>bc_chain_id = chain_id, bc_start_height = block_height, bc_max_height = block_height\<rparr>)"

text \<open>The position before the first chain of a lower height, after the first entry.\<close>

primrec find_position :: "('acc, 'x) relay_scheme \<Rightarrow> nat \<Rightarrow> (nat \<times> nat) list \<Rightarrow> nat \<Rightarrow> (relay_error, nat) result" where
  "find_position s max_height [] otherwise = Inr otherwise"
| "find_position s max_height (c # cs) otherwise =
     rbind (get_block_chain_from_id s (snd c)) (\<lambda>chain.
     if max_height > bc_max_height chain then Inr (fst c) else find_position s max_height cs otherwise)"

definition insert_sorted :: "block_chain \<Rightarrow> ('acc, 'x, unit) relay_action" where
  "insert_sorted blockchain =
     sbind (sget (\<lambda>s. sort_key fst (Chains s))) (\<lambda>chains.
     let max_chain_element = length chains mod 2 ^ 32 in
     sbind (slift (\<lambda>s. find_position s (bc_max_height blockchain) (drop 1 chains) max_chain_element)) (\<lambda>position_blockchain.
     sbind (smod (set_chain_from_position_and_id max_chain_element (bc_chain_id blockchain))) (\<lambda>_.
     smod (fold (\<lambda>prev_position. swap_chain (saturating_add_w 32 prev_position 1) prev_position)
             (rev [position_blockchain..<max_chain_element])))))"

definition create_and_store_blockchain :: "nat \<Rightarrow> block_header \<Rightarrow> ('acc, 'x, nat) relay_action" where
  "create_and_store_blockchain block_height header =
     sbind increment_chain_counter (\<lambda>chain_id.
     sbind (generate_blockchain chain_id block_height (bh_hash header)) (\<lambda>blockchain.
     sbind (smod (set_block_chain_from_id (bc_chain_id blockchain) blockchain)) (\<lambda>_.
     sbind (insert_sorted blockchain) (\<lambda>_.
     sbind (smod (store_rich_header header block_height (bc_chain_id blockchain))) (\<lambda>_.
     sret (bc_chain_id blockchain))))))"

definition extend_blockchain :: "nat \<Rightarrow> block_header \<Rightarrow> block_chain \<Rightarrow> ('acc, 'x, block_chain) relay_action" where
  "extend_blockchain block_height header prev_blockchain =
     sbind (sensure (\<lambda>s. \<not> block_exists s (bc_chain_id prev_blockchain) block_height) DuplicateBlock) (\<lambda>_.
     sbind (smod (insert_block_hash (bc_chain_id prev_blockchain) block_height (bh_hash header))) (\<lambda>_.
     let blockchain = prev_blockchain\<lparr>bc_max_height := block_height\<rparr> in
     sbind (smod (set_block_chain_from_id (bc_chain_id blockchain) blockchain)) (\<lambda>_.
     sbind (smod (store_rich_header header block_height (bc_chain_id blockchain))) (\<lambda>_.
     sret blockchain))))"

subsection \<open>Verification of headers\<close>

definition get_last_retarget_time :: "('acc, 'x) relay_scheme \<Rightarrow> nat \<Rightarrow> nat \<Rightarrow> (relay_error, nat) result" where
  "get_last_retarget_time s chain_id block_height =
     rbind (get_block_chain_from_id s chain_id) (\<lambda>block_chain.
     let period_start_height = block_height - DIFFICULTY_ADJUSTMENT_INTERVAL in
     rbind (get_block_header_from_height s block_chain period_start_height) (\<lambda>last_retarget_header.
     Inr (unat (bh_timestamp (rb_block_header last_retarget_header)))))"

definition compute_new_target :: "('acc, 'x) relay_scheme \<Rightarrow> rich_block_header \<Rightarrow> nat \<Rightarrow> (relay_error, u256) result" where
  "compute_new_target s prev_block_header block_height =
     rbind (get_last_retarget_time s (rb_chain_id prev_block_header) block_height) (\<lambda>first_block_time.
     let last_block_time = unat (bh_timestamp (rb_block_header prev_block_header));
         previous_target = bh_target (rb_block_header prev_block_header) in
     rbind (map_err Bitcoin (calculate_next_work_required previous_target first_block_time last_block_time)) (\<lambda>bits.
     ok_or (set_compact bits) (Bitcoin InvalidCompact)))"

definition verify_block_header :: "('acc, 'x) relay_scheme \<Rightarrow> block_header \<Rightarrow> nat \<Rightarrow> rich_block_header \<Rightarrow> (relay_error, unit) result" where
  "verify_block_header s header block_height prev_block_header =
     rbind (rensure (\<not> block_header_exists s (bh_hash header)) DuplicateBlock) (\<lambda>_.
     rbind (rensure (h256le_as_u256 (bh_hash header) < bh_target header) LowDiff) (\<lambda>_.
     if DisableDifficultyCheck s then Inr ()
     else rbind (if block_height \<ge> DIFFICULTY_ADJUSTMENT_INTERVAL \<and> block_height mod DIFFICULTY_ADJUSTMENT_INTERVAL = 0
                 then compute_new_target s prev_block_header block_height
                 else Inr (bh_target (rb_block_header prev_block_header))) (\<lambda>expected_target.
     rensure (bh_target header = expected_target) DiffTargetHeader)))"

definition validate_block_header :: "digest \<Rightarrow> block_header \<Rightarrow> (relay_error, block_header) result" where
  "validate_block_header sha256 header =
     rbind (map_err Bitcoin (ensure_version header)) (\<lambda>_.
     rbind (map_err Bitcoin (update_hash sha256 header)) (\<lambda>(_, header). Inr header))"

subsection \<open>Reorganisation\<close>

text \<open>
  \<^verbatim>\<open>BlockHeaders\<close> is a \<^verbatim>\<open>ValueQuery\<close> map: mutating an absent entry starts from the default header.
\<close>

definition default_rich_header :: rich_block_header where
  "default_rich_header =
     \<lparr>rb_block_header = \<lparr>bh_merkle_root = 0, bh_target = 0, bh_timestamp = 0, bh_version = 0, bh_hash = 0,
        bh_hash_prev_block = 0, bh_nonce = 0\<rparr>, rb_block_height = 0, rb_chain_id = 0, rb_para_height = 0\<rparr>"

definition set_header_chain_id :: "h256le \<Rightarrow> nat \<Rightarrow> ('acc, 'x) relay_scheme \<Rightarrow> ('acc, 'x) relay_scheme" where
  "set_header_chain_id hash chain_id s =
     (let header = (case BlockHeaders s hash of Some h \<Rightarrow> h | None \<Rightarrow> default_rich_header)
      in s\<lparr>BlockHeaders := (BlockHeaders s)(hash \<mapsto> header\<lparr>rb_chain_id := chain_id\<rparr>)\<rparr>)"

definition swap_block_to_mainchain :: "rich_block_header \<Rightarrow> nat \<Rightarrow> ('acc, 'x) relay_scheme \<Rightarrow> ('acc, 'x) relay_scheme" where
  "swap_block_to_mainchain block chain_id_for_old_main_blocks s =
     (let block_height = rb_block_height block;
          hash = bh_hash (rb_block_header block);
          replaced_block_hash = ChainsHashes s (MAIN_CHAIN_ID, block_height);
          s = s\<lparr>ChainsHashes := (ChainsHashes s)((rb_chain_id block, block_height) := None,
                 (MAIN_CHAIN_ID, block_height) \<mapsto> hash)\<rparr>;
          s = set_header_chain_id hash MAIN_CHAIN_ID s
      in case replaced_block_hash of
           None \<Rightarrow> s
         | Some replaced \<Rightarrow>
             set_header_chain_id replaced chain_id_for_old_main_blocks
               (s\<lparr>ChainsHashes := (ChainsHashes s)((chain_id_for_old_main_blocks, block_height) \<mapsto> replaced)\<rparr>))"

definition parent_link :: "('acc, 'x) relay_scheme \<Rightarrow> rich_block_header \<Rightarrow> (relay_error, rich_block_header) result" where
  "parent_link s child = get_block_header_from_hash s (bh_hash_prev_block (rb_block_header child))"

text \<open>
  The body of the loop of \<^verbatim>\<open>swap_main_blockchain\<close> for one (child, parent) pair. When the pair crosses
  from one chain to another, the chain of the parent starts above the parent from now on; what
  remains of the main chain gets the identifier of the fork.
\<close>

definition swap_link :: "block_chain \<Rightarrow> rich_block_header \<Rightarrow> rich_block_header \<Rightarrow> ('acc, 'x, unit) relay_action" where
  "swap_link fork child parent =
     sbind (if rb_chain_id parent \<noteq> rb_chain_id child then
              sbind (slift (\<lambda>s. get_block_chain_from_id s (rb_chain_id parent))) (\<lambda>new_fork.
              sbind (slift (\<lambda>_. ok_or (checked_add_w 32 (rb_block_height parent) 1) (Bitcoin ArithmeticOverflow))) (\<lambda>start.
              let new_fork = new_fork\<lparr>bc_start_height := start\<rparr>;
                  new_fork = (if rb_chain_id parent = MAIN_CHAIN_ID then new_fork\<lparr>bc_chain_id := bc_chain_id fork\<rparr> else new_fork)
              in smod (set_block_chain_from_id (bc_chain_id new_fork) new_fork)))
            else sret ()) (\<lambda>_.
     smod (swap_block_to_mainchain child (bc_chain_id fork)))"

text \<open>
  The iterator reads the next pair before the body of the current pair runs. The loop gets one
  iteration per height.
\<close>

primrec swap_links :: "nat \<Rightarrow> block_chain \<Rightarrow> rich_block_header \<Rightarrow> rich_block_header \<Rightarrow> ('acc, 'x, unit) relay_action" where
  "swap_links 0 fork child parent = (\<lambda>s. Inl Diverge)"
| "swap_links (Suc n) fork child parent =
     sbind (sget (\<lambda>s. parent_link s parent)) (\<lambda>next.
     sbind (swap_link fork child parent) (\<lambda>_.
     if rb_chain_id parent = MAIN_CHAIN_ID then sret ()
     else sbind (slift (\<lambda>_. next)) (\<lambda>grandparent. swap_links n fork parent grandparent)))"

text \<open>One bubble pass to the right from position \<open>i\<close>.\<close>

function bubble_right :: "nat \<Rightarrow> ('acc, 'x, unit) relay_action" where
  "bubble_right i s =
     (if \<not> i < 2 ^ 32 - 2 \<or> map_of (Chains s) (i + 1) = None then Inr ((), s)
      else rbind (rbind (get_chain_id_from_position s i) (get_block_chain_from_id s)) (\<lambda>chain1.
           rbind (rbind (get_chain_id_from_position s (i + 1)) (get_block_chain_from_id s)) (\<lambda>chain2.
           if bc_max_height chain1 < bc_max_height chain2 then bubble_right (i + 1) (swap_chain i (i + 1) s)
           else Inr ((), s))))"
  by pat_completeness auto
termination
  by (relation "measure (\<lambda>(i, _). 2 ^ 32 - i)") auto

declare bubble_right.simps [simp del]

definition swap_main_blockchain :: "block_chain \<Rightarrow> ('acc, 'x, h256le \<times> nat) relay_action" where
  "swap_main_blockchain fork =
     sbind (slift (\<lambda>s. get_block_hash s (bc_chain_id fork) (bc_max_height fork))) (\<lambda>new_best_block.
     sbind (smod (\<lambda>s. s\<lparr>BestBlock := Some new_best_block, BestBlockHeight := bc_max_height fork\<rparr>)) (\<lambda>_.
     sbind (slift (\<lambda>s. get_block_header_from_hash s new_best_block)) (\<lambda>child.
     sbind (slift (\<lambda>s. parent_link s child)) (\<lambda>parent.
     sbind (swap_links (Suc (bc_max_height fork)) fork child parent) (\<lambda>_.
     sbind (slift (\<lambda>s. get_block_chain_from_id s MAIN_CHAIN_ID)) (\<lambda>main.
     sbind (smod (set_block_chain_from_id MAIN_CHAIN_ID (main\<lparr>bc_max_height := bc_max_height fork\<rparr>))) (\<lambda>_.
     sbind (slift (\<lambda>s. get_chain_position_from_chain_id s (bc_chain_id fork))) (\<lambda>start.
     sbind (bubble_right start) (\<lambda>_.
     sret (new_best_block, bc_max_height fork))))))))))"

text \<open>
  The loop of \<^verbatim>\<open>reorganize_chains\<close>. An absent previous entry is swapped with the current one and the
  same position is tried again, so the loop gets one iteration more than there are positions.
\<close>

primrec reorganize_loop :: "nat \<Rightarrow> block_chain \<Rightarrow> nat \<Rightarrow> nat \<Rightarrow> ('acc, 'x, unit) relay_action" where
  "reorganize_loop 0 fork current_position current_height = (\<lambda>s. Inl Diverge)"
| "reorganize_loop (Suc n) fork current_position current_height =
     (if \<not> current_position > 0 then sret ()
      else let prev_position = saturating_sub current_position 1 in
      sbind (sget (\<lambda>s. map_of (Chains s) prev_position)) (\<lambda>entry.
      case entry of
        None \<Rightarrow> sbind (smod (swap_chain prev_position current_position)) (\<lambda>_.
                reorganize_loop n fork current_position current_height)
      | Some prev_blockchain_id \<Rightarrow>
        sbind (slift (\<lambda>s. get_block_chain_from_id s prev_blockchain_id)) (\<lambda>prev_chain.
        let prev_height = bc_max_height prev_chain in
        if prev_height < current_height then
          if prev_blockchain_id = MAIN_CHAIN_ID then
            sbind (sget StableBitcoinConfirmations) (\<lambda>confirmations.
            if saturating_add_w 32 prev_height confirmations \<le> current_height then
              sbind (swap_main_blockchain fork) (\<lambda>(new_chain_tip_hash, new_chain_tip_height).
              deposit_relay_event (ChainReorg new_chain_tip_hash new_chain_tip_height
                (saturating_sub (bc_max_height fork) (bc_start_height fork))))
            else deposit_relay_event (ForkAheadOfMainChain prev_height (bc_max_height fork) (bc_chain_id fork)))
          else sbind (smod (swap_chain prev_position current_position)) (\<lambda>_.
               reorganize_loop n fork prev_position prev_height)
        else sret ())))"

definition reorganize_chains :: "block_chain \<Rightarrow> ('acc, 'x, unit) relay_action" where
  "reorganize_chains fork =
     sbind (slift (\<lambda>s. get_chain_position_from_chain_id s (bc_chain_id fork))) (\<lambda>fork_position.
     reorganize_loop (fork_position + 2) fork fork_position (bc_max_height fork))"

subsection \<open>Storing headers\<close>

definition initialize_relay :: "'acc \<Rightarrow> block_header \<Rightarrow> nat \<Rightarrow> ('acc, 'x, unit) relay_action" where
  "initialize_relay relayer header block_height =
     sbind (sensure (\<lambda>s. \<not> best_block_exists s) AlreadyInitialized) (\<lambda>_.
     sbind (sensure (\<lambda>s. DisableDifficultyCheck s \<or> block_height mod DIFFICULTY_ADJUSTMENT_INTERVAL = 0) InvalidStartHeight) (\<lambda>_.
     sbind (create_and_store_blockchain block_height header) (\<lambda>_.
     sbind (smod (update_chain_head header block_height)) (\<lambda>_.
     sbind (smod (\<lambda>s. s\<lparr>StartBlockHeight := Some block_height\<rparr>)) (\<lambda>_.
     deposit_relay_event (Initialized block_height (bh_hash header) relayer))))))"

definition store_block_header_inner :: "'acc \<Rightarrow> block_header \<Rightarrow> ('acc, 'x, unit) relay_action" where
  "store_block_header_inner relayer header =
     sbind (slift (\<lambda>s. get_block_header_from_hash s (bh_hash_prev_block header))) (\<lambda>prev_header.
     let prev_block_height = rb_block_height prev_header in
     sbind (slift (\<lambda>_. ok_or (checked_add_w 32 prev_block_height 1) (Bitcoin ArithmeticOverflow))) (\<lambda>current_block_height.
     sbind (slift (\<lambda>s. get_block_chain_from_id s (rb_chain_id prev_header))) (\<lambda>prev_blockchain.
     sbind (slift (\<lambda>s. verify_block_header s header current_block_height prev_header)) (\<lambda>_.
     let is_new_fork = (bc_max_height prev_blockchain \<noteq> prev_block_height) in
     sbind (if is_new_fork then create_and_store_blockchain current_block_height header
            else sbind (extend_blockchain current_block_height header prev_blockchain) (\<lambda>blockchain.
                 sbind (if bc_chain_id blockchain \<noteq> MAIN_CHAIN_ID then reorganize_chains blockchain
                        else smod (update_chain_head header current_block_height)) (\<lambda>_.
                 sret (bc_chain_id blockchain)))) (\<lambda>chain_id.
     sbind (sget get_best_block) (\<lambda>current_best_block.
     if current_best_block = bh_hash header
     then deposit_relay_event (StoreMainChainHeader current_block_height (bh_hash header) relayer)
     else deposit_relay_event (StoreForkHeader chain_id current_block_height (bh_hash header) relayer)))))))"

text \<open>
  The dispatchables. The origin check \<^verbatim>\<open>ensure_signed\<close> is part of the frame: the relayer is the signer.
\<close>

definition initialize :: "digest \<Rightarrow> 'acc \<Rightarrow> block_header \<Rightarrow> nat \<Rightarrow> ('acc, 'x, unit) relay_action" where
  "initialize sha256 relayer header block_height =
     sbind (slift (\<lambda>_. validate_block_header sha256 header)) (\<lambda>header.
     initialize_relay relayer header block_height)"

definition store_block_header :: "digest \<Rightarrow> 'acc \<Rightarrow> block_header \<Rightarrow> nat \<Rightarrow> ('acc, 'x, unit) relay_action" where
  "store_block_header sha256 relayer header fork_bound =
     sbind (sensure (\<lambda>s. saturating_add_w 32 (ChainCounter s) 1 \<le> fork_bound) WrongForkBound) (\<lambda>_.
     sbind (slift (\<lambda>_. validate_block_header sha256 header)) (\<lambda>header.
     store_block_header_inner relayer header))"

subsection \<open>Verification of inclusion\<close>

record full_transaction_proof =
  user_tx_proof :: partial_transaction_proof
  coinbase_proof :: partial_transaction_proof

definition check_bitcoin_confirmations :: "('acc, 'x) relay_scheme \<Rightarrow> nat \<Rightarrow> nat option \<Rightarrow> nat \<Rightarrow> (relay_error, unit) result" where
  "check_bitcoin_confirmations s main_chain_height req_confs tx_block_height =
     (let required_confirmations = (case req_confs of Some n \<Rightarrow> n | None \<Rightarrow> StableBitcoinConfirmations s) in
      rbind (ok_or (checked_add_w 32 tx_block_height required_confirmations) (Bitcoin ArithmeticOverflow)) (\<lambda>sum.
      let required_mainchain_height = (case checked_sub sum 1 of Some n \<Rightarrow> n | None \<Rightarrow> 0)
      in if main_chain_height \<ge> required_mainchain_height then Inr () else Inl (Err BitcoinConfirmations)))"

text \<open>The unchecked additions of block numbers wrap around at 32 bits.\<close>

definition check_parachain_confirmations :: "('acc, 'x) relay_scheme \<Rightarrow> nat \<Rightarrow> (relay_error, unit) result" where
  "check_parachain_confirmations s para_height =
     rensure ((para_height + StableParachainConfirmations s) mod 2 ^ 32 \<le> ActiveBlockCount s) ParachainConfirmations"

definition ensure_no_ongoing_fork :: "('acc, 'x) relay_scheme \<Rightarrow> nat \<Rightarrow> (relay_error, unit) result" where
  "ensure_no_ongoing_fork s best_block_height =
     (case map_of (Chains s) 1 of
        Some i \<Rightarrow> rbind (get_block_chain_from_id s i) (\<lambda>fork.
          rensure (best_block_height \<ge> (bc_max_height fork + StableBitcoinConfirmations s) mod 2 ^ 32) OngoingFork)
      | None \<Rightarrow> Inr ())"

definition verify_block_header_inclusion :: "('acc, 'x) relay_scheme \<Rightarrow> h256le \<Rightarrow> nat option \<Rightarrow> (relay_error, block_header) result" where
  "verify_block_header_inclusion s block_hash confirmations =
     (let best_block_height = BestBlockHeight s in
      rbind (ensure_no_ongoing_fork s best_block_height) (\<lambda>_.
      rbind (get_block_header_from_hash s block_hash) (\<lambda>rich_header.
      rbind (rensure (rb_chain_id rich_header = MAIN_CHAIN_ID) InvalidChainID) (\<lambda>_.
      rbind (check_bitcoin_confirmations s best_block_height confirmations (rb_block_height rich_header)) (\<lambda>_.
      rbind (check_parachain_confirmations s (rb_para_height rich_header)) (\<lambda>_.
      Inr (rb_block_header rich_header)))))))"

definition block_matches_merkle_root :: "block_header \<Rightarrow> proof_result \<Rightarrow> bool" where
  "block_matches_merkle_root header proof_result = (extracted_root proof_result = bh_merkle_root header)"

definition verify_merkle_proof :: "digest \<Rightarrow> partial_transaction_proof \<Rightarrow> (relay_error, proof_result) result" where
  "verify_merkle_proof sha256 p = map_err Bitcoin (verify_proof sha256 p)"

definition verify_transaction_inclusion ::
    "digest \<Rightarrow> ('acc, 'x) relay_scheme \<Rightarrow> full_transaction_proof \<Rightarrow> nat option \<Rightarrow> (relay_error, transaction) result" where
  "verify_transaction_inclusion sha256 s p confirmations =
     (if DisableInclusionCheck s then Inr (ptp_transaction (user_tx_proof p))
      else rbind (verify_merkle_proof sha256 (user_tx_proof p)) (\<lambda>user.
      rbind (verify_merkle_proof sha256 (coinbase_proof p)) (\<lambda>coinbase.
      rbind (rensure (transaction_position coinbase = 0) InvalidCoinbasePosition) (\<lambda>_.
      rbind (rensure (extracted_root user = extracted_root coinbase) (Bitcoin InvalidMerkleProof)) (\<lambda>_.
      rbind (rensure (pr_block_hash user = pr_block_hash coinbase) (Bitcoin InvalidMerkleProof)) (\<lambda>_.
      rbind (rensure (pr_tx_count user = pr_tx_count coinbase) (Bitcoin InvalidMerkleProof)) (\<lambda>_.
      rbind (rensure (is_coinbase (pr_transaction coinbase)) (Bitcoin InvalidMerkleProof)) (\<lambda>_.
      rbind (verify_block_header_inclusion s (pr_block_hash user) confirmations) (\<lambda>stored_block_header.
      rbind (rensure (block_matches_merkle_root stored_block_header user) (Bitcoin InvalidMerkleProof)) (\<lambda>_.
      Inr (pr_transaction user)))))))))))"

subsection \<open>Payments\<close>

record op_return_payment_data =
  op_return :: h256
  payments :: "(64 word \<times> address) list"

primrec collect_outputs ::
    "transaction_output list \<Rightarrow> (64 word \<times> address) list \<Rightarrow> h256 list \<Rightarrow> (relay_error, (64 word \<times> address) list \<times> h256 list) result" where
  "collect_outputs [] ps os = Inr (ps, os)"
| "collect_outputs (tx # txs) ps os =
     (case extract_address tx of
        Inr address \<Rightarrow> collect_outputs txs (ps @ [(to_value tx, address)]) os
      | Inl _ \<Rightarrow>
        (case extract_op_return_data (to_script tx) of
           Inr data \<Rightarrow>
             rbind (rensure (to_value tx = 0) InvalidOpReturnTransaction) (\<lambda>_.
             rbind (rensure (length data = 32) InvalidOpReturnTransaction) (\<lambda>_.
             rbind (map_err Bitcoin (h_from_slice data)) (\<lambda>h. collect_outputs txs ps (os @ [h]))))
         | Inl _ \<Rightarrow> Inl (Err InvalidOpReturnTransaction)))"

definition op_return_payment_data_try_from :: "transaction \<Rightarrow> (relay_error, op_return_payment_data) result" where
  "op_return_payment_data_try_from transaction =
     rbind (rensure (length (tx_outputs transaction) \<le> ACCEPTED_MAX_TRANSACTION_OUTPUTS) InvalidOpReturnTransaction) (\<lambda>_.
     rbind (collect_outputs (tx_outputs transaction) [] []) (\<lambda>(ps, os).
     rbind (rensure (length os = 1) InvalidOpReturnTransaction) (\<lambda>_.
     rbind (case ps of
              [_] \<Rightarrow> Inr ()
            | [p, q] \<Rightarrow> rensure (snd p \<noteq> snd q) InvalidOpReturnTransaction
            | _ \<Rightarrow> Inl (Err InvalidOpReturnTransaction)) (\<lambda>_.
     Inr \<lparr>op_return = hd os, payments = ps\<rparr>))))"

definition ensure_valid_payment_to ::
    "op_return_payment_data \<Rightarrow> 64 word \<Rightarrow> address \<Rightarrow> h256 option \<Rightarrow> (relay_error, address option) result" where
  "ensure_valid_payment_to self expected_amount recipient op_return_id =
     rbind (case op_return_id of Some i \<Rightarrow> rensure (i = op_return self) InvalidPayment | None \<Rightarrow> Inr ()) (\<lambda>_.
     rbind (ok_or (map_option fst (find (\<lambda>(amount, address). address = recipient) (payments self))) InvalidPayment) (\<lambda>paid_amount.
     rbind (rensure (paid_amount = expected_amount) InvalidPaymentAmount) (\<lambda>_.
     Inr (map_option snd (find (\<lambda>(amount, address). address \<noteq> recipient) (payments self))))))"

text \<open>\<open>try_into\<close> converts an amount of the caller's type to the 64-bit \<^verbatim>\<open>Value\<close>, \<open>try_from\<close> converts back.\<close>

definition validate_op_return_transaction ::
    "('v \<Rightarrow> 64 word option) \<Rightarrow> transaction \<Rightarrow> address \<Rightarrow> 'v \<Rightarrow> h256 \<Rightarrow> (relay_error, address option) result" where
  "validate_op_return_transaction try_into transaction recipient expected_btc op_return_id =
     rbind (op_return_payment_data_try_from transaction) (\<lambda>payment_data.
     rbind (ok_or (try_into expected_btc) InvalidPaymentAmount) (\<lambda>expected.
     ensure_valid_payment_to payment_data expected recipient (Some op_return_id)))"

definition get_issue_payment :: "(64 word \<Rightarrow> 'v option) \<Rightarrow> transaction \<Rightarrow> address \<Rightarrow> (relay_error, 'v) result" where
  "get_issue_payment try_from transaction recipient =
     rbind (ok_or (map_option to_value (find (\<lambda>x. extract_address x = Inr recipient) (tx_outputs transaction)))
              (Bitcoin MalformedTransaction)) (\<lambda>v.
     ok_or (try_from v) InvalidPaymentAmount)"

definition validate_transaction :: "transaction \<Rightarrow> 64 word \<Rightarrow> address \<Rightarrow> h256 option \<Rightarrow> (relay_error, unit) result" where
  "validate_transaction transaction expected_btc recipient op_return_id =
     (case op_return_id of
        Some i \<Rightarrow> rbind (validate_op_return_transaction Some transaction recipient expected_btc i) (\<lambda>_. Inr ())
      | None \<Rightarrow> rbind (get_issue_payment Some transaction recipient) (\<lambda>payment.
                rensure (payment = expected_btc) InvalidPaymentAmount))"

definition get_and_verify_issue_payment ::
    "digest \<Rightarrow> ('acc, 'x) relay_scheme \<Rightarrow> (64 word \<Rightarrow> 'v option) \<Rightarrow> full_transaction_proof \<Rightarrow> address \<Rightarrow> (relay_error, 'v) result" where
  "get_and_verify_issue_payment sha256 s try_from p recipient =
     rbind (verify_transaction_inclusion sha256 s p None) (\<lambda>transaction. get_issue_payment try_from transaction recipient)"

definition verify_and_validate_op_return_transaction ::
    "digest \<Rightarrow> ('acc, 'x) relay_scheme \<Rightarrow> ('v \<Rightarrow> 64 word option) \<Rightarrow> full_transaction_proof \<Rightarrow> address \<Rightarrow> 'v \<Rightarrow> h256 \<Rightarrow> (relay_error, unit) result" where
  "verify_and_validate_op_return_transaction sha256 s try_into p recipient expected_btc op_return_id =
     rbind (verify_transaction_inclusion sha256 s p None) (\<lambda>transaction.
     rbind (validate_op_return_transaction try_into transaction recipient expected_btc op_return_id) (\<lambda>_. Inr ()))"

subsection \<open>Expiry\<close>

definition is_fully_initialized :: "('acc, 'x) relay_scheme \<Rightarrow> (relay_error, bool) result" where
  "is_fully_initialized s =
     (case StartBlockHeight s of None \<Rightarrow> Inr False
      | Some start \<Rightarrow>
        rbind (ok_or (checked_add_w 32 start (StableBitcoinConfirmations s)) (Bitcoin ArithmeticOverflow)) (\<lambda>required_height.
        Inr (BestBlockHeight s \<ge> required_height)))"

text \<open>\<open>per_bitcoin_block\<close> is the constant \<^verbatim>\<open>ParachainBlocksPerBitcoinBlock\<close> of the runtime.\<close>

definition bitcoin_expiry_height :: "nat \<Rightarrow> nat \<Rightarrow> nat \<Rightarrow> (relay_error, nat) result" where
  "bitcoin_expiry_height per_bitcoin_block btc_open_height period =
     rbind (ok_or (checked_add_w 32 period per_bitcoin_block) (Bitcoin ArithmeticOverflow)) (\<lambda>n.
     rbind (ok_or (checked_sub n 1) (Bitcoin ArithmeticUnderflow)) (\<lambda>n.
     rbind (ok_or (checked_div n per_bitcoin_block) (Bitcoin ArithmeticUnderflow)) (\<lambda>num_bitcoin_blocks.
     rbind (rensure (num_bitcoin_blocks < 2 ^ 32) TryIntoIntError) (\<lambda>_.
     ok_or (checked_add_w 32 btc_open_height num_bitcoin_blocks) (Bitcoin ArithmeticOverflow)))))"

definition bitcoin_block_expired :: "nat \<Rightarrow> ('acc, 'x) relay_scheme \<Rightarrow> nat \<Rightarrow> nat \<Rightarrow> (relay_error, bool) result" where
  "bitcoin_block_expired per_bitcoin_block s btc_open_height period =
     rbind (bitcoin_expiry_height per_bitcoin_block btc_open_height period) (\<lambda>expiration_height.
     Inr (BestBlockHeight s > expiration_height))"

text \<open>The second check runs only if the first one succeeds with true.\<close>

definition has_request_expired :: "nat \<Rightarrow> ('acc, 'x) relay_scheme \<Rightarrow> nat \<Rightarrow> nat \<Rightarrow> nat \<Rightarrow> (relay_error, bool) result" where
  "has_request_expired per_bitcoin_block s opentime btc_open_height period =
     rbind (map_err Arithmetic (parachain_block_expired s opentime period)) (\<lambda>expired.
     if expired then bitcoin_block_expired per_bitcoin_block s btc_open_height period else Inr False)"

end
