(* ===== verification/BTC_Relay_Verify.thy ===== *)
theory BTC_Relay_Verify
  imports BTC_Relay
begin

text \<open>
  What the relay guarantees when it accepts a header, a transaction or a payment, and when a request
  counts as expired. Each result is an equivalence or follows from one, so the error branches are
  covered as well.
\<close>

subsection \<open>Inclusion\<close>

lemma check_bitcoin_confirmations_iff:
  "check_bitcoin_confirmations s best req height = Inr () \<longleftrightarrow>
     (let k = (case req of Some n \<Rightarrow> n | None \<Rightarrow> StableBitcoinConfirmations s)
      in height + k < 2 ^ 32 \<and> height + k \<le> best + 1)"
  by (auto simp: check_bitcoin_confirmations_def Let_def rbind_Inr_iff checked_sub_def split: if_splits option.splits)

lemma ensure_no_ongoing_fork_iff:
  "ensure_no_ongoing_fork s best = Inr () \<longleftrightarrow>
     (\<forall>i. map_of (Chains s) 1 = Some i \<longrightarrow>
        (\<exists>fork. ChainsIndex s i = Some fork \<and> (bc_max_height fork + StableBitcoinConfirmations s) mod 2 ^ 32 \<le> best))"
  by (auto simp: ensure_no_ongoing_fork_def rbind_Inr_iff get_block_chain_from_id_def split: option.splits)

lemma verify_block_header_inclusion_iff:
  "verify_block_header_inclusion s hash req = Inr header \<longleftrightarrow>
     ensure_no_ongoing_fork s (BestBlockHeight s) = Inr () \<and>
     (\<exists>rh. BlockHeaders s hash = Some rh \<and> rb_block_header rh = header \<and> rb_chain_id rh = MAIN_CHAIN_ID
        \<and> check_bitcoin_confirmations s (BestBlockHeight s) req (rb_block_height rh) = Inr ()
        \<and> (rb_para_height rh + StableParachainConfirmations s) mod 2 ^ 32 \<le> ActiveBlockCount s)"
  by (auto simp: verify_block_header_inclusion_def Let_def rbind_Inr_iff get_block_header_from_hash_def
      check_parachain_confirmations_def)

lemma verify_transaction_inclusion_iff:
  assumes "\<not> DisableInclusionCheck s"
  shows "verify_transaction_inclusion sha256 s p req = Inr tx \<longleftrightarrow>
     (\<exists>user coinbase header.
        verify_proof sha256 (user_tx_proof p) = Inr user \<and> verify_proof sha256 (coinbase_proof p) = Inr coinbase
        \<and> transaction_position coinbase = 0 \<and> is_coinbase (pr_transaction coinbase)
        \<and> extracted_root user = extracted_root coinbase \<and> pr_block_hash user = pr_block_hash coinbase
        \<and> pr_tx_count user = pr_tx_count coinbase
        \<and> verify_block_header_inclusion s (pr_block_hash user) req = Inr header
        \<and> extracted_root user = bh_merkle_root header \<and> tx = pr_transaction user)"
  using assms
  by (auto simp: verify_transaction_inclusion_def rbind_Inr_iff verify_merkle_proof_def block_matches_merkle_root_def)

text \<open>
  C33: With the inclusion check enabled, a transaction is accepted exactly when both Merkle proofs
  verify, agree on root, block and transaction count, the coinbase proof is of a coinbase transaction
  at position 0, the block is stored on the main chain under that root with the required Bitcoin
  confirmations (\<open>height + k \<le> best + 1\<close>, without overflow) and parachain confirmations, and the best
  fork is at least the required confirmations behind the main chain.
\<close>

theorem inclusion_accepted_iff:
  assumes "\<not> DisableInclusionCheck s"
  shows "verify_transaction_inclusion sha256 s p req = Inr tx \<longleftrightarrow>
     (\<exists>user coinbase rh. let k = (case req of Some n \<Rightarrow> n | None \<Rightarrow> StableBitcoinConfirmations s) in
        verify_proof sha256 (user_tx_proof p) = Inr user \<and> verify_proof sha256 (coinbase_proof p) = Inr coinbase
        \<and> transaction_position coinbase = 0 \<and> is_coinbase (pr_transaction coinbase)
        \<and> extracted_root user = extracted_root coinbase \<and> pr_block_hash user = pr_block_hash coinbase
        \<and> pr_tx_count user = pr_tx_count coinbase \<and> tx = pr_transaction user
        \<and> BlockHeaders s (pr_block_hash user) = Some rh \<and> rb_chain_id rh = MAIN_CHAIN_ID
        \<and> extracted_root user = bh_merkle_root (rb_block_header rh)
        \<and> rb_block_height rh + k < 2 ^ 32 \<and> rb_block_height rh + k \<le> BestBlockHeight s + 1
        \<and> (rb_para_height rh + StableParachainConfirmations s) mod 2 ^ 32 \<le> ActiveBlockCount s
        \<and> (\<forall>i. map_of (Chains s) 1 = Some i \<longrightarrow> (\<exists>fork. ChainsIndex s i = Some fork
              \<and> (bc_max_height fork + StableBitcoinConfirmations s) mod 2 ^ 32 \<le> BestBlockHeight s)))"
  unfolding verify_transaction_inclusion_iff [OF assms] verify_block_header_inclusion_iff
    check_bitcoin_confirmations_iff ensure_no_ongoing_fork_iff Let_def by blast


subsection \<open>Payments\<close>

text \<open>The outputs that pay an address, and the identifier carried by an OP_RETURN output.\<close>

definition pays :: "transaction_output list \<Rightarrow> (64 word \<times> address) list" where
  "pays outs = List.map_filter (\<lambda>out. case extract_address out of Inr a \<Rightarrow> Some (to_value out, a) | Inl _ \<Rightarrow> None) outs"

definition op_return_id_of :: "transaction_output \<Rightarrow> h256 option" where
  "op_return_id_of out = (case extract_op_return_data (to_script out) of
     Inr data \<Rightarrow> if to_value out = 0 \<and> length data = 32 then Some (from_le (rev data)) else None
   | Inl _ \<Rightarrow> None)"

definition no_address :: "transaction_output \<Rightarrow> bool" where
  "no_address out \<longleftrightarrow> \<not> is_ok (extract_address out)"

lemma collect_outputs_iff:
  "collect_outputs outs ps os = Inr (ps', os') \<longleftrightarrow>
     ps' = ps @ pays outs \<and> map Some os' = map Some os @ map op_return_id_of (filter no_address outs)"
proof (induction outs arbitrary: ps os)
  case Nil
  have "inj (map (Some :: h256 \<Rightarrow> _))" by simp
  then show ?case by (auto simp: pays_def map_filter_simps inj_eq dest: injD)
next
  case (Cons out outs)
  show ?case
  proof (cases "extract_address out")
    case (Inr a)
    then show ?thesis by (simp add: Cons pays_def map_filter_simps no_address_def)
  next
    case (Inl e)
    have nope: "map Some os' = map Some os @ None # xs \<longleftrightarrow> False" for xs
      by (auto simp: map_eq_append_conv map_eq_Cons_conv)
    show ?thesis
    proof (cases "extract_op_return_data (to_script out)")
      case (Inl e')
      then show ?thesis using \<open>extract_address out = Inl e\<close> nope
        by (simp add: no_address_def op_return_id_of_def)
    next
      case (Inr data)
      then show ?thesis using \<open>extract_address out = Inl e\<close> nope
        by (auto simp: Cons no_address_def op_return_id_of_def h_from_slice_def rensure_def pays_def map_filter_simps)
    qed
  qed
qed

definition good_payments :: "(64 word \<times> address) list \<Rightarrow> bool" where
  "good_payments ps \<longleftrightarrow> (\<exists>p. ps = [p]) \<or> (\<exists>p q. ps = [p, q] \<and> snd p \<noteq> snd q)"

lemma good_payments_match:
  "(case ps of [_] \<Rightarrow> Inr () | [p, q] \<Rightarrow> rensure (snd p \<noteq> snd q) InvalidOpReturnTransaction
     | _ \<Rightarrow> Inl (Err InvalidOpReturnTransaction)) = Inr u \<longleftrightarrow> good_payments ps"
  by (auto simp: good_payments_def split: list.split)

lemma collect_one_op_return:
  "(\<exists>ps os. collect_outputs outs [] [] = Inr (ps, os) \<and> length os = 1 \<and> Q ps (hd os)) \<longleftrightarrow>
     (\<exists>i. map op_return_id_of (filter no_address outs) = [Some i] \<and> Q (pays outs) i)"
proof -
  have "map Some os = xs \<and> length os = 1 \<and> R (hd os) \<longleftrightarrow> (\<exists>i. os = [i] \<and> xs = [Some i] \<and> R i)"
    for os :: "h256 list" and xs R
    by (cases os) auto
  then show ?thesis by (simp add: collect_outputs_iff)
qed

lemma op_return_payment_data_iff:
  "op_return_payment_data_try_from tx = Inr d \<longleftrightarrow>
     (\<exists>i. map op_return_id_of (filter no_address (tx_outputs tx)) = [Some i] \<and> length (tx_outputs tx) \<le> 3
        \<and> good_payments (pays (tx_outputs tx)) \<and> d = \<lparr>op_return = i, payments = pays (tx_outputs tx)\<rparr>)"
proof -
  have "op_return_payment_data_try_from tx = Inr d \<longleftrightarrow>
      (\<exists>ps os. collect_outputs (tx_outputs tx) [] [] = Inr (ps, os) \<and> length os = 1 \<and>
        (length (tx_outputs tx) \<le> 3 \<and> good_payments ps \<and> d = \<lparr>op_return = hd os, payments = ps\<rparr>))"
    by (auto simp: op_return_payment_data_try_from_def ACCEPTED_MAX_TRANSACTION_OUTPUTS_def rbind_Inr_iff
        good_payments_match)
  also have "\<dots> \<longleftrightarrow> (\<exists>i. map op_return_id_of (filter no_address (tx_outputs tx)) = [Some i] \<and>
      (length (tx_outputs tx) \<le> 3 \<and> good_payments (pays (tx_outputs tx))
        \<and> d = \<lparr>op_return = i, payments = pays (tx_outputs tx)\<rparr>))"
    by (rule collect_one_op_return)
  finally show ?thesis .
qed

lemma ensure_valid_payment_iff:
  "good_payments ps \<and> ensure_valid_payment_to \<lparr>op_return = j, payments = ps\<rparr> v recipient (Some i) = Inr ret \<longleftrightarrow>
     i = j \<and> (case ret of None \<Rightarrow> ps = [(v, recipient)]
        | Some other \<Rightarrow> other \<noteq> recipient \<and> (\<exists>w. ps = [(v, recipient), (w, other)] \<or> ps = [(w, other), (v, recipient)]))"
  by (auto simp: good_payments_def ensure_valid_payment_to_def rbind_Inr_iff split: option.splits if_splits)

text \<open>
  A transaction is accepted as an OP_RETURN payment exactly when it has at most three outputs, one
  of them is a zero-valued OP_RETURN output with the 32 bytes of the request identifier, one pays the
  expected amount to the recipient, and the only other output, if there is one, pays a different
  address, which is the return-to-self address that is reported.
\<close>

theorem op_return_payment_iff:
  "validate_op_return_transaction try_into tx recipient amount i = Inr ret \<longleftrightarrow>
     length (tx_outputs tx) \<le> 3 \<and> map op_return_id_of (filter no_address (tx_outputs tx)) = [Some i]
     \<and> (\<exists>v. try_into amount = Some v \<and>
         (case ret of None \<Rightarrow> pays (tx_outputs tx) = [(v, recipient)]
          | Some other \<Rightarrow> other \<noteq> recipient \<and> (\<exists>w. pays (tx_outputs tx) = [(v, recipient), (w, other)]
                                              \<or> pays (tx_outputs tx) = [(w, other), (v, recipient)])))"
proof -
  have "validate_op_return_transaction try_into tx recipient amount i = Inr ret \<longleftrightarrow>
      (\<exists>j v. length (tx_outputs tx) \<le> 3 \<and> map op_return_id_of (filter no_address (tx_outputs tx)) = [Some j]
        \<and> try_into amount = Some v \<and> (good_payments (pays (tx_outputs tx))
        \<and> ensure_valid_payment_to \<lparr>op_return = j, payments = pays (tx_outputs tx)\<rparr> v recipient (Some i) = Inr ret))"
    unfolding validate_op_return_transaction_def rbind_Inr_iff op_return_payment_data_iff ok_or_Inr by auto
  then show ?thesis unfolding ensure_valid_payment_iff by auto
qed

subsection \<open>Expiry\<close>

lemma bitcoin_expiry_height_iff:
  "bitcoin_expiry_height per open_height period = Inr h \<longleftrightarrow>
     0 < per \<and> period + per < 2 ^ 32 \<and> h = open_height + (period + per - 1) div per \<and> h < 2 ^ 32"
proof -
  have "(period + per - 1) div per < 2 ^ 32" if "period + per < 2 ^ 32"
    using that div_le_dividend [of "period + per - 1" per] by linarith
  then show ?thesis
    by (auto simp: bitcoin_expiry_height_def rbind_Inr_iff)
qed

text \<open>
  A request counts as expired exactly when more than \<open>period\<close> active parachain blocks have passed
  since it was opened and the Bitcoin tip is more than \<open>period\<close>, measured in Bitcoin blocks and rounded
  up, above the tip at opening.
\<close>

theorem request_expired_iff:
  "has_request_expired per s opentime btc_open_height period = Inr True \<longleftrightarrow>
     opentime + period < 2 ^ 32 \<and> 0 < per \<and> period + per < 2 ^ 32
     \<and> opentime + period < ActiveBlockCount s
     \<and> btc_open_height + (period + per - 1) div per < 2 ^ 32
     \<and> btc_open_height + (period + per - 1) div per < BestBlockHeight s"
  by (auto simp: has_request_expired_def parachain_block_expired_def bitcoin_block_expired_def rbind_Inr_iff
      bitcoin_expiry_height_iff split: if_splits)

subsection \<open>Headers\<close>

lemma get_block_hash_Inr [simp]: "get_block_hash s c h = Inr k \<longleftrightarrow> ChainsHashes s (c, h) = Some k"
  by (simp add: get_block_hash_def split: option.split)

lemma compute_new_target_iff:
  "compute_new_target s prev height = Inr t \<longleftrightarrow>
     (\<exists>chain k rh bits. ChainsIndex s (rb_chain_id prev) = Some chain
        \<and> ChainsHashes s (bc_chain_id chain, height - 2016) = Some k \<and> BlockHeaders s k = Some rh
        \<and> calculate_next_work_required (bh_target (rb_block_header prev))
             (unat (bh_timestamp (rb_block_header rh))) (unat (bh_timestamp (rb_block_header prev))) = Inr bits
        \<and> set_compact bits = Some t)"
  by (auto simp: compute_new_target_def get_last_retarget_time_def rbind_Inr_iff get_block_chain_from_id_def
      get_block_header_from_height_def get_block_header_from_hash_def Let_def DIFFICULTY_ADJUSTMENT_INTERVAL_def)

text \<open>
  A header passes verification exactly when its hash is not stored yet and lies below its target
  and, unless difficulty checks are disabled, its target is the target of its parent, or the
  recomputed target when its height is a positive multiple of 2016.
\<close>

theorem verify_block_header_iff:
  "verify_block_header s header height prev = Inr () \<longleftrightarrow>
     BlockHeaders s (bh_hash header) = None \<and> unat (bh_hash header) < unat (bh_target header)
     \<and> (DisableDifficultyCheck s
        \<or> (if 2016 \<le> height \<and> 2016 dvd height
            then \<exists>chain k rh bits. ChainsIndex s (rb_chain_id prev) = Some chain
              \<and> ChainsHashes s (bc_chain_id chain, height - 2016) = Some k \<and> BlockHeaders s k = Some rh
              \<and> calculate_next_work_required (bh_target (rb_block_header prev))
                   (unat (bh_timestamp (rb_block_header rh))) (unat (bh_timestamp (rb_block_header prev))) = Inr bits
              \<and> set_compact bits = Some (bh_target header)
            else bh_target header = bh_target (rb_block_header prev)))"
  by (simp add: verify_block_header_def rbind_Inr_iff block_header_exists_def h256le_as_u256_def word_less_nat_alt
      DIFFICULTY_ADJUSTMENT_INTERVAL_def compute_new_target_iff dvd_eq_mod_eq_0 eq_commute [of _ "bh_target header"])

subsection \<open>A concrete relay\<close>

definition sample_relay :: "nat relay" where
  "sample_relay = \<lparr>Nonce = 0, ActiveBlockCount = 9, IsDeactivated = False, security_events = [],
     BlockHeaders = [9 \<mapsto> rich_block_header_new sample_header 0 5 3],
     Chains = [(0, 0), (1, 1)],
     ChainsIndex = [0 \<mapsto> \<lparr>bc_chain_id = 0, bc_start_height = 0, bc_max_height = 7\<rparr>,
                    1 \<mapsto> \<lparr>bc_chain_id = 1, bc_start_height = 4, bc_max_height = 4\<rparr>],
     ChainsHashes = [(0, 5) \<mapsto> 9], BestBlock = Some 12, BestBlockHeight = 7, StartBlockHeight = Some 0, ChainCounter = 2,
     StableBitcoinConfirmations = 3, StableParachainConfirmations = 2, DisableDifficultyCheck = False,
     DisableInclusionCheck = False, relay_events = []\<rparr>"

definition sample_coinbase_tx :: transaction where
  "sample_coinbase_tx = \<lparr>tx_version = 1,
     tx_inputs = [\<lparr>ti_source = Coinbase None, ti_script = [], ti_sequence = 0, ti_witness = []\<rparr>],
     tx_outputs = [], tx_lock_at = BlockHeight 0\<rparr>"

definition sample_coinbase_proof :: partial_transaction_proof where
  "sample_coinbase_proof = \<lparr>ptp_transaction = sample_coinbase_tx, ptp_tx_encoded_len = 100,
     ptp_merkle_proof = \<lparr>mp_block_header = sample_header, mp_flag_bits = [True, True, False],
       mp_transactions_count = 2, mp_hashes = [0, 0]\<rparr>\<rparr>"

lemma sample_coinbase_accepted:
  "verify_proof (\<lambda>_. 0) sample_coinbase_proof = Inr \<lparr>extracted_root = 0, transaction_hash = 0, transaction_position = 0,
     pr_transaction = sample_coinbase_tx, pr_tx_count = 2, pr_block_hash = 9\<rparr>"
proof -
  have "size_no_witness sample_coinbase_tx = Inr 51"
    by (simp add: size_no_witness_def format_no_witness_chunks write_all_vec expect_ok_def chunks_no_witness_def
        chunks_vec_def chunks_compact_uint_def sample_coinbase_tx_def chunks_input_def vec_write_def)
  moreover have "tx_id (\<lambda>_. 0) sample_coinbase_tx = Inr 0"
    by (simp add: tx_id_def format_no_witness_chunks write_all_vec expect_ok_def sha256d_le_def sha256d_def)
  ultimately have "tx_id_bounded (\<lambda>_. 0) sample_coinbase_tx 100 = Inr 0"
    using tx_id_bounded_eq [of sample_coinbase_tx "\<lambda>_. 0" 100] by (simp add: sample_coinbase_tx_def)
  then show ?thesis
    by (simp add: verify_proof_def sample_coinbase_proof_def MAX_TRANSACTIONS_IN_PROOF_def compute_partial_tree_height_def
        sample_height next_bit_def use_hash_def index_get_def index_or_panic_def checked_add_w_def checked_mul_w_def
        compute_partial_tree_width_def compute_width_def sample_step sample_header_def)
qed

lemma inclusion_accepted_witness:
  "verify_transaction_inclusion (\<lambda>_. 0) sample_relay
     \<lparr>user_tx_proof = sample_proof, coinbase_proof = sample_coinbase_proof\<rparr> None = Inr (sample_tx 5)"
  by (subst inclusion_accepted_iff)
    (simp_all add: sample_proof_accepted sample_coinbase_accepted sample_relay_def Let_def rich_block_header_new_def
      sample_header_def MAIN_CHAIN_ID_def sample_coinbase_tx_def is_coinbase_def)


end
