(* ===== verification/BTC_Relay_Order.thy ===== *)
theory BTC_Relay_Order
  imports BTC_Relay
begin

text \<open>
  The priority queue \<^verbatim>\<open>Chains\<close> of the relay: positions are consecutive, position 0 is the main chain and
  the forks follow. A new fork is inserted behind every fork of at least its height, which keeps the
  forks sorted by descending height. A fork that grows is moved by \<^verbatim>\<open>reorganize_chains\<close> past at most
  one fork of equal height, because the loop compares the next entry with the height of the entry it
  has just passed; the last theorem exhibits the resulting disorder.
\<close>

text \<open>\<open>chain_order s ids\<close>: the entries of \<^verbatim>\<open>Chains\<close> are the identifiers \<open>ids\<close> at positions 0, 1, 2 and so on.\<close>

definition chain_order :: "('acc, 'x) relay_scheme \<Rightarrow> nat list \<Rightarrow> bool" where
  "chain_order s ids \<longleftrightarrow> distinct (map fst (Chains s))
     \<and> (\<forall>i. map_of (Chains s) i = (if i < length ids then Some (ids ! i) else None))"

lemma chain_order_cong: "Chains s' = Chains s \<Longrightarrow> chain_order s' ids = chain_order s ids"
  by (simp add: chain_order_def)

lemma swap_chain_other [simp]:
  "BlockHeaders (swap_chain i j s) = BlockHeaders s" "ChainsIndex (swap_chain i j s) = ChainsIndex s"
  "ChainsHashes (swap_chain i j s) = ChainsHashes s" "BestBlock (swap_chain i j s) = BestBlock s"
  "BestBlockHeight (swap_chain i j s) = BestBlockHeight s" "ChainCounter (swap_chain i j s) = ChainCounter s"
  "ActiveBlockCount (swap_chain i j s) = ActiveBlockCount s"
  by (simp_all add: swap_chain_def Let_def)

lemma chain_order_swap:
  assumes "chain_order s ids" and "i < length ids" and "j < length ids"
  shows "chain_order (swap_chain i j s) (ids[i := ids ! j, j := ids ! i])"
  using assms
  by (auto simp: chain_order_def swap_chain_def Let_def set_or_remove_def distinct_update update_conv' nth_list_update)

lemma chain_order_append:
  assumes "chain_order s ids"
  shows "chain_order (set_chain_from_position_and_id (length ids) c s) (ids @ [c])"
  using assms
  by (auto simp: chain_order_def set_chain_from_position_and_id_def distinct_update update_conv' nth_append)

lemma chain_order_sorted_entries:
  assumes "chain_order s ids"
  shows "sort_key fst (Chains s) = zip [0..<length ids] ids"
proof -
  let ?al = "Chains s" and ?l = "sort_key fst (Chains s)"
  have d: "distinct (map fst ?al)" and m: "map_of ?al i = (if i < length ids then Some (ids ! i) else None)" for i
    using assms by (auto simp: chain_order_def)
  have "fst ` set ?al = {..<length ids}"
    unfolding dom_map_of_conv_image_fst [symmetric] using m by (auto simp: dom_def)
  then have keys: "map fst ?l = [0..<length ids]"
    using d by (intro sorted_distinct_set_unique) (auto simp: atLeast0LessThan distinct_map)
  then have len: "length ?l = length ids" by (metis diff_zero length_map length_upt)
  have "?l ! i = (i, ids ! i)" if "i < length ids" for i
  proof -
    have k: "fst (?l ! i) = i" using keys that len by (metis nth_map nth_upt add_0)
    have "?l ! i \<in> set ?al" using that len by (metis nth_mem set_sort)
    then have "map_of ?al (fst (?l ! i)) = Some (snd (?l ! i))" using d by simp
    then show ?thesis using k m [of i] that by (metis option.inject prod.collapse)
  qed
  then show ?thesis using len by (intro nth_equalityI) simp_all
qed

subsection \<open>Insertion\<close>

definition swap_at :: "nat \<Rightarrow> 'a list \<Rightarrow> 'a list" where
  "swap_at q xs = xs[Suc q := xs ! q, q := xs ! Suc q]"

lemma length_swap_at [simp]: "length (swap_at q xs) = length xs"
  by (simp add: swap_at_def)

lemma fold_swap_at_append:
  "\<forall>q \<in> set qs. Suc q < length xs \<Longrightarrow> fold swap_at qs (xs @ ys) = fold swap_at qs xs @ ys"
  by (induction qs arbitrary: xs) (auto simp: swap_at_def list_update_append nth_append)

lemma bubble_left_fold:
  "p \<le> length xs \<Longrightarrow> fold swap_at (rev [p..<length xs]) (xs @ [c]) = take p xs @ [c] @ drop p xs"
proof (induction xs arbitrary: c rule: rev_induct)
  case (snoc y ys)
  show ?case
  proof (cases "p = Suc (length ys)")
    case False
    then have p: "p \<le> length ys" using snoc.prems by simp
    have "swap_at (length ys) ((ys @ [y]) @ [c]) = (ys @ [c]) @ [y]"
      by (simp add: swap_at_def list_update_append nth_append)
    then have "fold swap_at (rev [p..<length (ys @ [y])]) ((ys @ [y]) @ [c]) = fold swap_at (rev [p..<length ys]) ((ys @ [c]) @ [y])"
      using p by simp
    also have "\<dots> = (take p ys @ [c] @ drop p ys) @ [y]"
      using snoc.IH [OF p] by (subst fold_swap_at_append) auto
    finally show ?thesis using p by simp
  qed simp
qed simp

lemma fold_swap_chain:
  assumes "chain_order s ids" and "\<forall>q \<in> set qs. Suc q < length ids" and "length ids < 2 ^ 32"
  shows "chain_order (fold (\<lambda>q. swap_chain (saturating_add_w 32 q 1) q) qs s) (fold swap_at qs ids)"
  using assms
proof (induction qs arbitrary: s ids)
  case (Cons q qs)
  have "saturating_add_w 32 q 1 = Suc q" using Cons.prems by (simp add: saturating_add_w_def)
  moreover have "chain_order (swap_chain (Suc q) q s) (swap_at q ids)"
    using chain_order_swap [OF Cons.prems(1), of "Suc q" q] Cons.prems(2) by (simp add: swap_at_def)
  ultimately show ?case using Cons.IH [of "swap_chain (Suc q) q s" "swap_at q ids"] Cons.prems by simp
qed simp

lemma fold_swap_chain_other [simp]:
  "ChainsIndex (fold (\<lambda>q. swap_chain (f q) q) qs s) = ChainsIndex s"
  "BlockHeaders (fold (\<lambda>q. swap_chain (f q) q) qs s) = BlockHeaders s"
  "ChainsHashes (fold (\<lambda>q. swap_chain (f q) q) qs s) = ChainsHashes s"
  "BestBlock (fold (\<lambda>q. swap_chain (f q) q) qs s) = BestBlock s"
  "BestBlockHeight (fold (\<lambda>q. swap_chain (f q) q) qs s) = BestBlockHeight s"
  "ChainCounter (fold (\<lambda>q. swap_chain (f q) q) qs s) = ChainCounter s"
  "ActiveBlockCount (fold (\<lambda>q. swap_chain (f q) q) qs s) = ActiveBlockCount s"
  by (induction qs arbitrary: s) simp_all

lemma fold_swap_chain_only: "\<exists>al. fold (\<lambda>q. swap_chain (f q) q) qs s = s\<lparr>Chains := al\<rparr>"
proof (induction qs arbitrary: s)
  case Nil
  have "s = s\<lparr>Chains := Chains s\<rparr>" by simp
  then show ?case by (metis fold_simps(1))
next
  case (Cons q qs)
  obtain al where "swap_chain (f q) q s = s\<lparr>Chains := al\<rparr>" by (simp add: swap_chain_def Let_def)
  then show ?case using Cons.IH [of "s\<lparr>Chains := al\<rparr>"] by auto
qed

definition chain_height :: "('acc, 'x) relay_scheme \<Rightarrow> nat \<Rightarrow> nat" where
  "chain_height s c = (case ChainsIndex s c of Some chain \<Rightarrow> bc_max_height chain | None \<Rightarrow> 0)"

lemma find_position_eq:
  assumes "\<forall>c \<in> set ids. ChainsIndex s c \<noteq> None"
  shows "find_position s m (zip [k..<k + length ids] ids) (k + length ids)
     = Inr (k + length (takeWhile (\<lambda>c. m \<le> chain_height s c) ids))"
  using assms
proof (induction ids arbitrary: k)
  case (Cons c ids)
  have "[k..<k + length (c # ids)] = k # [Suc k..<Suc k + length ids]"
    by (simp add: upt_conv_Cons del: upt_Suc)
  then show ?case
    using Cons.IH [of "Suc k"] Cons.prems by (auto simp: get_block_chain_from_id_def chain_height_def)
qed simp

text \<open>The position of a new fork: behind the main chain and every fork that is at least as high.\<close>

definition insert_pos :: "('acc, 'x) relay_scheme \<Rightarrow> nat \<Rightarrow> nat list \<Rightarrow> nat" where
  "insert_pos s m ids = (case ids of [] \<Rightarrow> 0 | c # cs \<Rightarrow> Suc (length (takeWhile (\<lambda>c. m \<le> chain_height s c) cs)))"

definition insert_at :: "nat \<Rightarrow> 'a \<Rightarrow> 'a list \<Rightarrow> 'a list" where
  "insert_at p x xs = take p xs @ [x] @ drop p xs"

lemma insert_pos_le: "insert_pos s m ids \<le> length ids"
  by (auto simp: insert_pos_def length_takeWhile_le split: list.split)

lemma insert_sorted_eq:
  assumes "chain_order s ids" and "\<forall>c \<in> set ids. ChainsIndex s c \<noteq> None" and "length ids + 1 < 2 ^ 32"
  shows "\<exists>al. insert_sorted chain s = Inr ((), s\<lparr>Chains := al\<rparr>)
     \<and> chain_order (s\<lparr>Chains := al\<rparr>) (insert_at (insert_pos s (bc_max_height chain) ids) (bc_chain_id chain) ids)"
proof -
  define p where "p = insert_pos s (bc_max_height chain) ids"
  let ?n = "length ids" and ?s1 = "set_chain_from_position_and_id (length ids) (bc_chain_id chain) s"
  let ?s2 = "fold (\<lambda>q. swap_chain (saturating_add_w 32 q 1) q) (rev [p..<?n]) ?s1"
  have le: "p \<le> ?n" unfolding p_def by (rule insert_pos_le)
  have pos: "find_position s (bc_max_height chain) (drop 1 (zip [0..<?n] ids)) ?n = Inr p"
  proof (cases ids)
    case (Cons c cs)
    then have "drop 1 (zip [0..<?n] ids) = zip [1..<1 + length cs] cs" by (simp add: drop_zip)
    then show ?thesis using find_position_eq [of cs s "bc_max_height chain" 1] assms(2) Cons by (simp add: p_def insert_pos_def)
  qed (simp add: p_def insert_pos_def)
  have ord: "chain_order ?s2 (insert_at p (bc_chain_id chain) ids)"
    using fold_swap_chain [OF chain_order_append [OF assms(1)], of "rev [p..<?n]"] bubble_left_fold [OF le] assms(3)
    by (simp add: insert_at_def)
  obtain al where "?s2 = s\<lparr>Chains := al\<rparr>"
    using fold_swap_chain_only [of "\<lambda>q. saturating_add_w 32 q 1" "rev [p..<?n]" ?s1]
    by (auto simp: set_chain_from_position_and_id_def)
  moreover have "insert_sorted chain s = Inr ((), ?s2)"
    using chain_order_sorted_entries [OF assms(1)] pos assms(3) by (simp add: insert_sorted_def Let_def)
  ultimately show ?thesis using ord unfolding p_def by metis
qed

text \<open>The forks, without the main chain at position 0, in descending order of height.\<close>

definition forks_sorted :: "('acc, 'x) relay_scheme \<Rightarrow> nat list \<Rightarrow> bool" where
  "forks_sorted s ids \<longleftrightarrow> sorted_wrt (\<ge>) (map (chain_height s) (tl ids))"

lemma sorted_insert_desc:
  fixes m :: nat
  assumes "sorted_wrt (\<ge>) hs"
  shows "sorted_wrt (\<ge>) (takeWhile (\<lambda>h. m \<le> h) hs @ [m] @ dropWhile (\<lambda>h. m \<le> h) hs)"
proof -
  have "h \<le> m" if mem: "h \<in> set (dropWhile (\<lambda>h. m \<le> h) hs)" for h
  proof -
    obtain x xs where d: "dropWhile (\<lambda>h. m \<le> h) hs = x # xs" using mem
      by (cases "dropWhile (\<lambda>h. m \<le> h) hs") (simp_all del: dropWhile_eq_Nil_conv)
    then have "\<not> m \<le> x" using hd_dropWhile [of "\<lambda>h. m \<le> h" hs] by simp
    moreover have "sorted_wrt (\<ge>) (x # xs)" using assms d by (metis sorted_wrt_append takeWhile_dropWhile_id)
    ultimately show ?thesis using mem d by auto
  qed
  moreover have "m \<le> h" if "h \<in> set (takeWhile (\<lambda>h. m \<le> h) hs)" for h using that by (rule set_takeWhileD [THEN conjunct2])
  moreover have "sorted_wrt (\<ge>) (takeWhile (\<lambda>h. m \<le> h) hs @ dropWhile (\<lambda>h. m \<le> h) hs)"
    using assms by (simp only: takeWhile_dropWhile_id)
  ultimately show ?thesis unfolding sorted_wrt_append by auto
qed

text \<open>
  Inserting a new fork succeeds, keeps the positions consecutive and the main chain first, puts the
  fork behind every fork of at least its height, and leaves the forks sorted by descending height.
\<close>

theorem insert_sorted_keeps_order:
  assumes "chain_order s (main # forks)" and "\<forall>c \<in> set (main # forks). ChainsIndex s c \<noteq> None"
    and "ChainsIndex s (bc_chain_id chain) = Some chain" and "length forks + 2 < 2 ^ 32"
    and "forks_sorted s (main # forks)"
  shows "\<exists>s' forks'. insert_sorted chain s = Inr ((), s') \<and> chain_order s' (main # forks')
     \<and> forks' = takeWhile (\<lambda>c. bc_max_height chain \<le> chain_height s c) forks @ [bc_chain_id chain]
          @ dropWhile (\<lambda>c. bc_max_height chain \<le> chain_height s c) forks
     \<and> forks_sorted s' (main # forks')"
proof -
  let ?P = "\<lambda>c. bc_max_height chain \<le> chain_height s c"
  let ?forks' = "takeWhile ?P forks @ [bc_chain_id chain] @ dropWhile ?P forks"
  obtain al where ins: "insert_sorted chain s = Inr ((), s\<lparr>Chains := al\<rparr>)"
    and ord: "chain_order (s\<lparr>Chains := al\<rparr>) (insert_at (insert_pos s (bc_max_height chain) (main # forks)) (bc_chain_id chain) (main # forks))"
    using insert_sorted_eq [OF assms(1,2)] assms(4) by auto
  have "insert_at (insert_pos s (bc_max_height chain) (main # forks)) (bc_chain_id chain) (main # forks) = main # ?forks'"
    by (simp add: insert_at_def insert_pos_def takeWhile_eq_take [symmetric] dropWhile_eq_drop [symmetric])
  moreover have "map (chain_height s) ?forks' = takeWhile (\<lambda>h. bc_max_height chain \<le> h) (map (chain_height s) forks)
      @ [bc_max_height chain] @ dropWhile (\<lambda>h. bc_max_height chain \<le> h) (map (chain_height s) forks)"
    using assms(3) by (simp add: takeWhile_map dropWhile_map comp_def chain_height_def)
  then have "forks_sorted s (main # ?forks')"
    using sorted_insert_desc assms(5) by (simp add: forks_sorted_def)
  moreover have "chain_height (s\<lparr>Chains := al\<rparr>) = chain_height s" by (simp add: chain_height_def fun_eq_iff)
  ultimately show ?thesis using ins ord by (auto simp: forks_sorted_def)
qed

subsection \<open>Growing forks\<close>

text \<open>
  Three forks of heights 5, 5 and 6 behind a main chain of height 10; the last one has just grown.
\<close>

definition sample_chain :: "nat \<Rightarrow> nat \<Rightarrow> block_chain" where
  "sample_chain c h = \<lparr>bc_chain_id = c, bc_start_height = 1, bc_max_height = h\<rparr>"

definition tied_forks :: "nat relay" where
  "tied_forks = \<lparr>Nonce = 0, ActiveBlockCount = 100, IsDeactivated = False, security_events = [],
     BlockHeaders = Map.empty, Chains = [(0, 0), (1, 1), (2, 2), (3, 3)],
     ChainsIndex = [0 \<mapsto> sample_chain 0 10, 1 \<mapsto> sample_chain 1 5, 2 \<mapsto> sample_chain 2 5, 3 \<mapsto> sample_chain 3 6],
     ChainsHashes = Map.empty, BestBlock = Some 12, BestBlockHeight = 10, StartBlockHeight = Some 0, ChainCounter = 4,
     StableBitcoinConfirmations = 5, StableParachainConfirmations = 0, DisableDifficultyCheck = False,
     DisableInclusionCheck = False, relay_events = []\<rparr>"


lemma insert_sorted_witness:
  "\<exists>s' forks'. insert_sorted (sample_chain 3 6) (tied_forks\<lparr>Chains := [(0, 0), (1, 1), (2, 2)]\<rparr>) = Inr ((), s')
     \<and> chain_order s' (0 # forks') \<and> forks' = [3, 1, 2] \<and> forks_sorted s' (0 # forks')"
proof -
  let ?s = "tied_forks\<lparr>Chains := [(0, 0), (1, 1), (2, 2)]\<rparr>"
  have "chain_order ?s [0, 1, 2]" by (auto simp: chain_order_def nth_Cons split: nat.split)
  moreover have "forks_sorted ?s [0, 1, 2]"
    by (simp add: forks_sorted_def chain_height_def tied_forks_def sample_chain_def)
  ultimately show ?thesis
    using insert_sorted_keeps_order [of ?s 0 "[1, 2]" "sample_chain 3 6"]
    by (simp add: tied_forks_def sample_chain_def chain_height_def)
qed

end
