(* ===== verification/BTC_Relay_Chain.thy ===== *)
theory BTC_Relay_Chain
  imports BTC_Relay_Order
begin

text \<open>
  The invariant of the stored chains and its preservation by every operation of the relay.

  The stored headers form a tree whose branches are the chains. \<^verbatim>\<open>ChainsHashes\<close> is the index of the
  headers by chain and height; the heights of a chain are the interval from its start to its maximum;
  inside a chain every block is the child of the block below, and the lowest block of a fork is the child
  of a block of another chain that continues above it.
\<close>

type_synonym headers = "h256le \<rightharpoonup> rich_block_header"
type_synonym hashes_index = "nat \<times> nat \<rightharpoonup> h256le"
type_synonym chains_index = "nat \<rightharpoonup> block_chain"

abbreviation prev_hash :: "rich_block_header \<Rightarrow> h256le" where
  "prev_hash rh \<equiv> bh_hash_prev_block (rb_block_header rh)"

definition indexed :: "headers \<Rightarrow> hashes_index \<Rightarrow> bool" where
  "indexed bh ix \<longleftrightarrow> (\<forall>c h k. ix (c, h) = Some k \<longleftrightarrow> (\<exists>rh. bh k = Some rh \<and> rb_chain_id rh = c \<and> rb_block_height rh = h))"

definition hashed :: "headers \<Rightarrow> bool" where
  "hashed bh \<longleftrightarrow> (\<forall>k rh. bh k = Some rh \<longrightarrow> bh_hash (rb_block_header rh) = k \<and> rb_block_height rh < 2 ^ 32)"

text \<open>Chains exist for the identifiers below the counter, and cover an interval of heights.\<close>

definition ranged :: "hashes_index \<Rightarrow> chains_index \<Rightarrow> nat \<Rightarrow> bool" where
  "ranged ix ci n \<longleftrightarrow> (\<forall>c. case ci c of
     None \<Rightarrow> n \<le> c \<and> (\<forall>h. ix (c, h) = None)
   | Some ch \<Rightarrow> c < n \<and> bc_chain_id ch = c \<and> bc_start_height ch \<le> bc_max_height ch
       \<and> (\<forall>h. ix (c, h) \<noteq> None \<longleftrightarrow> bc_start_height ch \<le> h \<and> h \<le> bc_max_height ch))"

definition parent_of :: "headers \<Rightarrow> rich_block_header \<Rightarrow> rich_block_header \<Rightarrow> bool" where
  "parent_of bh rh p \<longleftrightarrow> bh (prev_hash rh) = Some p \<and> rb_block_height rh = Suc (rb_block_height p)"

definition link_ok :: "headers \<Rightarrow> chains_index \<Rightarrow> rich_block_header \<Rightarrow> block_chain \<Rightarrow> bool" where
  "link_ok bh ci rh ch \<longleftrightarrow>
     (if bc_start_height ch < rb_block_height rh
      then \<exists>p. parent_of bh rh p \<and> rb_chain_id p = rb_chain_id rh
      else rb_chain_id rh \<noteq> 0 \<longrightarrow>
        (\<exists>p ch'. parent_of bh rh p \<and> rb_chain_id p \<noteq> rb_chain_id rh \<and> ci (rb_chain_id p) = Some ch'
           \<and> rb_block_height p < bc_max_height ch'))"

definition linked :: "headers \<Rightarrow> chains_index \<Rightarrow> bool" where
  "linked bh ci \<longleftrightarrow> (\<forall>k rh ch. bh k = Some rh \<longrightarrow> ci (rb_chain_id rh) = Some ch \<longrightarrow> link_ok bh ci rh ch)"

definition forest :: "headers \<Rightarrow> hashes_index \<Rightarrow> chains_index \<Rightarrow> nat \<Rightarrow> bool" where
  "forest bh ix ci n \<longleftrightarrow> indexed bh ix \<and> hashed bh \<and> ranged ix ci n \<and> linked bh ci"

lemma indexedD: "indexed bh ix \<Longrightarrow> bh k = Some rh \<Longrightarrow> ix (rb_chain_id rh, rb_block_height rh) = Some k"
  by (auto simp: indexed_def)

lemma indexedE:
  assumes "indexed bh ix" and "ix (c, h) = Some k"
  obtains rh where "bh k = Some rh" and "rb_chain_id rh = c" and "rb_block_height rh = h"
  using assms by (auto simp: indexed_def)

lemma rangedD:
  assumes "ranged ix ci n" and "ci c = Some ch"
  shows "c < n" "bc_chain_id ch = c" "bc_start_height ch \<le> bc_max_height ch"
    "ix (c, h) \<noteq> None \<longleftrightarrow> bc_start_height ch \<le> h \<and> h \<le> bc_max_height ch"
  using assms by (auto simp: ranged_def split: option.splits dest: spec [of _ c])

lemma ranged_None: "ranged ix ci n \<Longrightarrow> ix (c, h) \<noteq> None \<Longrightarrow> \<exists>ch. ci c = Some ch"
  by (auto simp: ranged_def split: option.splits)

lemma forest_chain:
  assumes "forest bh ix ci n" and "bh k = Some rh"
  obtains ch where "ci (rb_chain_id rh) = Some ch" "bc_start_height ch \<le> rb_block_height rh"
    "rb_block_height rh \<le> bc_max_height ch"
proof -
  have ix: "ix (rb_chain_id rh, rb_block_height rh) \<noteq> None"
    using assms indexedD [of bh ix k rh] by (simp add: forest_def)
  then obtain ch where "ci (rb_chain_id rh) = Some ch" using assms ranged_None [of ix ci n] by (auto simp: forest_def)
  then show ?thesis using that ix rangedD(4) assms(1) by (metis forest_def)
qed

subsection \<open>Adding blocks\<close>

lemma forest_first:
  assumes "bh_hash header = k" and "h < 2 ^ 32"
  shows "forest [k \<mapsto> rich_block_header_new header 0 h para] [(0, h) \<mapsto> k]
    [0 \<mapsto> \<lparr>bc_chain_id = 0, bc_start_height = h, bc_max_height = h\<rparr>] 1"
  using assms
  by (auto simp: forest_def indexed_def hashed_def ranged_def linked_def link_ok_def rich_block_header_new_def split: option.splits if_splits)

lemma link_ok_mono:
  assumes l: "link_ok bh ci rh ch" and new: "bh k = None"
    and ci: "\<And>a b. ci a = Some b \<Longrightarrow> \<exists>b'. ci' a = Some b' \<and> bc_max_height b \<le> bc_max_height b'"
    and st: "bc_start_height ch' = bc_start_height ch"
  shows "link_ok (bh(k \<mapsto> x)) ci' rh ch'"
proof -
  have up: "parent_of bh rh p \<Longrightarrow> parent_of (bh(k \<mapsto> x)) rh p" for p using new by (auto simp: parent_of_def)
  show ?thesis
  proof (cases "bc_start_height ch < rb_block_height rh")
    case True
    then show ?thesis using l up st by (auto simp: link_ok_def)
  next
    case False
    then show ?thesis using l up ci st unfolding link_ok_def by (metis less_le_trans)
  qed
qed

lemma forest_extend:
  assumes f: "forest bh ix ci n" and p: "bh (bh_hash_prev_block header) = Some p"
    and c: "ci (rb_chain_id p) = Some ch" and m: "bc_max_height ch = rb_block_height p"
    and new: "bh (bh_hash header) = None" and h: "Suc (rb_block_height p) < 2 ^ 32"
    and rh: "rh = rich_block_header_new header (rb_chain_id p) (Suc (rb_block_height p)) para"
  shows "forest (bh(bh_hash header \<mapsto> rh)) (ix((rb_chain_id p, Suc (rb_block_height p)) \<mapsto> bh_hash header))
    (ci(rb_chain_id p \<mapsto> ch\<lparr>bc_max_height := Suc (rb_block_height p)\<rparr>)) n"
proof -
  let ?c = "rb_chain_id p" and ?h = "Suc (rb_block_height p)" and ?k = "bh_hash header"
  let ?bh = "bh(?k \<mapsto> rh)" and ?ci = "ci(?c \<mapsto> ch\<lparr>bc_max_height := ?h\<rparr>)"
  have ix: "indexed bh ix" and hs: "hashed bh" and rg: "ranged ix ci n" and lk: "linked bh ci"
    using f by (auto simp: forest_def)
  note r = rangedD [OF rg c]
  have free: "ix (?c, ?h) = None" using r(4) [of ?h] m by simp
  have "indexed ?bh (ix((?c, ?h) \<mapsto> ?k))"
    unfolding indexed_def
  proof (intro allI)
    fix c' h' k'
    show "(ix((?c, ?h) \<mapsto> ?k)) (c', h') = Some k' \<longleftrightarrow>
        (\<exists>r. ?bh k' = Some r \<and> rb_chain_id r = c' \<and> rb_block_height r = h')"
      using ix free new unfolding indexed_def rh rich_block_header_new_def
      by (cases "k' = ?k"; cases "(c', h') = (?c, ?h)") (auto, (metis option.distinct(1))+)
  qed
  moreover have "hashed ?bh" using hs h by (auto simp: hashed_def rh rich_block_header_new_def)
  moreover have "ranged (ix((?c, ?h) \<mapsto> ?k)) ?ci n"
    unfolding ranged_def
  proof
    fix c'
    show "case ?ci c' of None \<Rightarrow> n \<le> c' \<and> (\<forall>h. (ix((?c, ?h) \<mapsto> ?k)) (c', h) = None)
       | Some ch \<Rightarrow> c' < n \<and> bc_chain_id ch = c' \<and> bc_start_height ch \<le> bc_max_height ch
         \<and> (\<forall>h. (ix((?c, ?h) \<mapsto> ?k)) (c', h) \<noteq> None \<longleftrightarrow> bc_start_height ch \<le> h \<and> h \<le> bc_max_height ch)"
    proof (cases "c' = ?c")
      case True
      then show ?thesis using r(1-3) r(4) m by (auto simp: le_Suc_eq)
    next
      case False
      then show ?thesis using rg [unfolded ranged_def, rule_format, of c'] by (simp split: option.splits)
    qed
  qed
  moreover have "linked ?bh ?ci"
    unfolding linked_def
  proof (intro allI impI)
    fix k' rh' ch'
    assume k': "?bh k' = Some rh'" and ch': "?ci (rb_chain_id rh') = Some ch'"
    show "link_ok ?bh ?ci rh' ch'"
    proof (cases "k' = ?k")
      case True
      then have "rh' = rh" using k' by simp
      moreover have "parent_of ?bh rh p"
        using p new by (auto simp: parent_of_def rh rich_block_header_new_def)
      moreover have "bc_start_height ch < ?h" using r(3) m by simp
      ultimately show ?thesis using ch' by (auto simp: rh rich_block_header_new_def link_ok_def)
    next
      case False
      then have old: "bh k' = Some rh'" using k' by simp
      obtain ch0 where ch0: "ci (rb_chain_id rh') = Some ch0" "bc_start_height ch' = bc_start_height ch0"
        using ch' c by (auto split: if_splits)
      have "\<exists>b'. ?ci a = Some b' \<and> bc_max_height b \<le> bc_max_height b'" if "ci a = Some b" for a b
        using that c m by auto
      then show ?thesis
        by (intro link_ok_mono [OF lk [unfolded linked_def, rule_format, OF old ch0(1)] new _ ch0(2)]) blast
    qed
  qed
  ultimately show ?thesis by (simp add: forest_def)
qed

lemma forest_fork:
  assumes f: "forest bh ix ci n" and p: "bh (bh_hash_prev_block header) = Some p"
    and c: "ci (rb_chain_id p) = Some ch" and m: "bc_max_height ch \<noteq> rb_block_height p"
    and new: "bh (bh_hash header) = None" and h: "Suc (rb_block_height p) < 2 ^ 32"
    and rh: "rh = rich_block_header_new header n (Suc (rb_block_height p)) para" and pos: "0 < n"
  shows "forest (bh(bh_hash header \<mapsto> rh)) (ix((n, Suc (rb_block_height p)) \<mapsto> bh_hash header))
    (ci(n \<mapsto> \<lparr>bc_chain_id = n, bc_start_height = Suc (rb_block_height p), bc_max_height = Suc (rb_block_height p)\<rparr>)) (Suc n)"
proof -
  let ?h = "Suc (rb_block_height p)" and ?k = "bh_hash header"
  let ?bh = "bh(?k \<mapsto> rh)" and ?ix = "ix((n, ?h) \<mapsto> ?k)"
  let ?ci = "ci(n \<mapsto> \<lparr>bc_chain_id = n, bc_start_height = ?h, bc_max_height = ?h\<rparr>)"
  have ix: "indexed bh ix" and hs: "hashed bh" and rg: "ranged ix ci n" and lk: "linked bh ci"
    using f by (auto simp: forest_def)
  have cn: "ci n = None" using rg rangedD(1) by (metis less_irrefl not_None_eq)
  have free: "ix (n, h') = None" for h' using ranged_None [OF rg, of n h'] cn by (cases "ix (n, h')") auto
  have less: "rb_block_height p < bc_max_height ch" "rb_chain_id p < n"
    using forest_chain [OF f p] c m rangedD(1) [OF rg c] by force+
  have "indexed ?bh ?ix"
    unfolding indexed_def
  proof (intro allI)
    fix c' h' k'
    show "?ix (c', h') = Some k' \<longleftrightarrow> (\<exists>r. ?bh k' = Some r \<and> rb_chain_id r = c' \<and> rb_block_height r = h')"
      using ix free [of ?h] new unfolding indexed_def rh rich_block_header_new_def
      by (cases "k' = ?k"; cases "(c', h') = (n, ?h)") (auto, (metis option.distinct(1))+)
  qed
  moreover have "hashed ?bh" using hs h by (auto simp: hashed_def rh rich_block_header_new_def)
  moreover have "ranged ?ix ?ci (Suc n)"
    unfolding ranged_def
  proof
    fix c'
    show "case ?ci c' of None \<Rightarrow> Suc n \<le> c' \<and> (\<forall>h. ?ix (c', h) = None)
       | Some ch \<Rightarrow> c' < Suc n \<and> bc_chain_id ch = c' \<and> bc_start_height ch \<le> bc_max_height ch
         \<and> (\<forall>h. ?ix (c', h) \<noteq> None \<longleftrightarrow> bc_start_height ch \<le> h \<and> h \<le> bc_max_height ch)"
      using rg [unfolded ranged_def, rule_format, of c'] free by (cases "c' = n") (auto split: option.splits)
  qed
  moreover have "linked ?bh ?ci"
    unfolding linked_def
  proof (intro allI impI)
    fix k' rh' ch'
    assume k': "?bh k' = Some rh'" and ch': "?ci (rb_chain_id rh') = Some ch'"
    show "link_ok ?bh ?ci rh' ch'"
    proof (cases "k' = ?k")
      case True
      then have "rh' = rh" using k' by simp
      moreover have "parent_of ?bh rh p"
        using p new by (auto simp: parent_of_def rh rich_block_header_new_def)
      ultimately show ?thesis using ch' c less by (auto simp: rh rich_block_header_new_def link_ok_def)
    next
      case False
      then have old: "bh k' = Some rh'" using k' by simp
      have ch0: "ci (rb_chain_id rh') = Some ch'"
        using forest_chain [OF f old] ch' cn by (metis fun_upd_other option.distinct(1))
      have "\<exists>b'. ?ci a = Some b' \<and> bc_max_height b \<le> bc_max_height b'" if "ci a = Some b" for a b
        using that cn by auto
      then show ?thesis
        by (intro link_ok_mono [OF lk [unfolded linked_def, rule_format, OF old ch0] new _ refl]) blast
    qed
  qed
  ultimately show ?thesis by (simp add: forest_def)
qed

end
