(* ===== verification/BTC_Relay_Reorg.thy ===== *)
theory BTC_Relay_Reorg
  imports BTC_Relay_Chain
begin

text \<open>
  Reorganisation of the main chain. The blocks from the tip of the fork down to the main chain form a
  path; \<open>swap_main_blockchain\<close> moves the path to the main chain and the blocks of the main chain above the
  fork point to the fork. The result is again a forest, and its main chain ends in the tip of the fork.
\<close>

subsection \<open>The path from the fork to the main chain\<close>

definition stored :: "headers \<Rightarrow> rich_block_header \<Rightarrow> bool" where
  "stored bh p \<longleftrightarrow> bh (bh_hash (rb_block_header p)) = Some p"

fun path :: "headers \<Rightarrow> rich_block_header list \<Rightarrow> rich_block_header \<Rightarrow> bool" where
  "path bh [] q \<longleftrightarrow> False"
| "path bh [p] q \<longleftrightarrow> stored bh p \<and> rb_chain_id p \<noteq> 0 \<and> parent_of bh p q \<and> rb_chain_id q = 0"
| "path bh (p # p' # ps) q \<longleftrightarrow> stored bh p \<and> rb_chain_id p \<noteq> 0 \<and> parent_of bh p p' \<and> path bh (p' # ps) q"

lemma storedI: "hashed bh \<Longrightarrow> bh k = Some p \<Longrightarrow> stored bh p"
  by (simp add: hashed_def stored_def)

lemma stored_unique:
  assumes "indexed bh ix" and "stored bh p" and "stored bh p'"
    and "rb_chain_id p = rb_chain_id p'" and "rb_block_height p = rb_block_height p'"
  shows "p = p'"
  using indexedD [OF assms(1)] assms(2-) unfolding stored_def by (metis option.inject)

text \<open>Every block of a fork has a parent, on its own chain exactly when it is not the lowest block.\<close>

lemma forest_parent:
  assumes "forest bh ix ci n" and "stored bh p" and "rb_chain_id p \<noteq> 0"
  obtains q where "parent_of bh p q" and "stored bh q"
    and "\<And>ch. ci (rb_chain_id p) = Some ch \<Longrightarrow> (rb_chain_id q = rb_chain_id p \<longleftrightarrow> bc_start_height ch < rb_block_height p)"
    and "\<And>ch. rb_chain_id q \<noteq> rb_chain_id p \<Longrightarrow> ci (rb_chain_id q) = Some ch \<Longrightarrow> rb_block_height q < bc_max_height ch"
proof -
  obtain ch where ch: "ci (rb_chain_id p) = Some ch"
    using forest_chain [OF assms(1) assms(2) [unfolded stored_def]] by blast
  have lk: "linked bh ci" and hs: "hashed bh" using assms(1) by (auto simp: forest_def)
  note l = lk [unfolded linked_def, rule_format, OF assms(2) [unfolded stored_def] ch]
  show ?thesis
  proof (cases "bc_start_height ch < rb_block_height p")
    case True
    then obtain q where q: "parent_of bh p q" "rb_chain_id q = rb_chain_id p" using l by (auto simp: link_ok_def)
    then have "stored bh q" using hs by (auto simp: parent_of_def intro: storedI)
    then show ?thesis using that [OF q(1)] q ch True by simp
  next
    case False
    then obtain q ch' where q: "parent_of bh p q" "rb_chain_id q \<noteq> rb_chain_id p" "ci (rb_chain_id q) = Some ch'"
      "rb_block_height q < bc_max_height ch'" using l assms(3) by (auto simp: link_ok_def)
    then have "stored bh q" using hs by (auto simp: parent_of_def intro: storedI)
    then show ?thesis using that [OF q(1)] q ch False by simp
  qed
qed

lemma path_exists:
  assumes "forest bh ix ci n" and "stored bh p" and "rb_chain_id p \<noteq> 0"
  shows "\<exists>ps q. path bh (p # ps) q \<and> stored bh q"
  using assms(2,3)
proof (induction "rb_block_height p" arbitrary: p)
  case 0
  then show ?case using forest_parent [OF assms(1), of p] by (metis parent_of_def Zero_not_Suc)
next
  case (Suc h)
  obtain q where q: "parent_of bh p q" "stored bh q" using forest_parent [OF assms(1)] Suc.prems by metis
  show ?case
  proof (cases "rb_chain_id q = 0")
    case True
    then have "path bh [p] q" using Suc.prems q by simp
    then show ?thesis using q(2) by blast
  next
    case False
    moreover have "h = rb_block_height q" using Suc.hyps(2) q(1) by (simp add: parent_of_def)
    ultimately obtain ps r where "path bh (q # ps) r" "stored bh r"
      using Suc.hyps(1) q(2) by blast
    then have "path bh (p # q # ps) r" using Suc.prems q by simp
    then show ?thesis using \<open>stored bh r\<close> by blast
  qed
qed

lemma path_stored: "path bh ps q \<Longrightarrow> p \<in> set ps \<Longrightarrow> stored bh p \<and> rb_chain_id p \<noteq> 0"
  by (induction bh ps q rule: path.induct) auto

lemma path_main: "path bh ps q \<Longrightarrow> rb_chain_id q = 0"
  by (induction bh ps q rule: path.induct) auto

lemma path_nonempty: "path bh ps q \<Longrightarrow> ps \<noteq> []"
  by (cases ps) auto

lemma path_heights:
  "path bh ps q \<Longrightarrow> map rb_block_height ps = rev [Suc (rb_block_height q)..<Suc (rb_block_height (hd ps))]
     \<and> rb_block_height q < rb_block_height (hd ps)"
  by (induction bh ps q rule: path.induct) (auto simp: parent_of_def)

lemma path_height_iff:
  assumes "path bh ps q"
  shows "(\<exists>p \<in> set ps. rb_block_height p = h) \<longleftrightarrow> rb_block_height q < h \<and> h \<le> rb_block_height (hd ps)"
proof -
  have "rb_block_height ` set ps = set (map rb_block_height ps)" by simp
  also have "\<dots> = {Suc (rb_block_height q)..<Suc (rb_block_height (hd ps))}"
    using path_heights [OF assms] by (simp only: set_rev set_upt)
  finally have "h \<in> rb_block_height ` set ps \<longleftrightarrow> rb_block_height q < h \<and> h \<le> rb_block_height (hd ps)"
    by (simp add: Suc_le_eq less_Suc_eq_le)
  then show ?thesis by (auto simp: image_iff)
qed

lemma path_unique:
  assumes "path bh ps q" and "p \<in> set ps" and "p' \<in> set ps" and "rb_block_height p = rb_block_height p'"
  shows "p = p'"
proof -
  have "distinct (map rb_block_height ps)" using path_heights [OF assms(1)] by simp
  then show ?thesis using assms(2-) by (simp add: distinct_map inj_on_def)
qed

text \<open>The path contains, with a block, all lower blocks of its chain.\<close>

lemma path_Cons:
  "path bh (p # ps) q \<longleftrightarrow> stored bh p \<and> rb_chain_id p \<noteq> 0 \<and>
     (case ps of [] \<Rightarrow> parent_of bh p q \<and> rb_chain_id q = 0 | p' # _ \<Rightarrow> parent_of bh p p' \<and> path bh ps q)"
  by (cases ps) auto

lemma path_tl: "path bh (p # ps) q \<Longrightarrow> ps \<noteq> [] \<Longrightarrow> path bh ps q"
  by (cases ps) auto

lemma parent_of_unique: "parent_of bh p q \<Longrightarrow> parent_of bh p q' \<Longrightarrow> q' = q"
  by (simp add: parent_of_def)

lemma path_down:
  assumes f: "forest bh ix ci n"
  shows "path bh ps q \<Longrightarrow> p \<in> set ps \<Longrightarrow> stored bh r \<Longrightarrow> rb_chain_id r = rb_chain_id p \<Longrightarrow>
    rb_block_height r \<le> rb_block_height p \<Longrightarrow> r \<in> set ps"
proof (induction ps arbitrary: p)
  case (Cons p0 ps)
  have ix: "indexed bh ix" using f by (simp add: forest_def)
  show ?case
  proof (cases "p = p0 \<and> rb_block_height r < rb_block_height p0")
    case True
    have p0: "stored bh p0" "rb_chain_id p0 \<noteq> 0" using Cons.prems(1) by (simp_all add: path_Cons)
    obtain ch where ch: "ci (rb_chain_id p0) = Some ch" "bc_start_height ch \<le> rb_block_height r"
      using forest_chain [OF f, of _ r] Cons.prems(3,4) True by (metis stored_def)
    obtain q0 where q0: "parent_of bh p0 q0" "rb_chain_id q0 = rb_chain_id p0"
      using forest_parent [OF f p0] ch True by (metis le_less_trans)
    show ?thesis
    proof (cases ps)
      case Nil
      then have "parent_of bh p0 q" "rb_chain_id q = 0" using Cons.prems(1) by simp_all
      then show ?thesis using parent_of_unique [OF q0(1)] q0(2) p0(2) by simp
    next
      case ps: (Cons p1 ps')
      then have "parent_of bh p0 p1" and path: "path bh ps q" using Cons.prems(1) by simp_all
      then have "p1 = q0" using parent_of_unique [OF q0(1)] by simp
      then have "r \<in> set ps"
        using Cons.IH [OF path, of p1] ps Cons.prems(3,4) q0 True by (simp add: parent_of_def)
      then show ?thesis by simp
    qed
  next
    case False
    moreover have "stored bh p0" using path_stored [OF Cons.prems(1)] by simp
    ultimately have "r = p0 \<or> p \<in> set ps"
      using Cons.prems(2,4,5) stored_unique [OF ix Cons.prems(3), of p0] by auto
    then show ?thesis
    proof
      assume p: "p \<in> set ps"
      then have "ps \<noteq> []" by auto
      then have "path bh ps q" by (rule path_tl [OF Cons.prems(1)])
      from Cons.IH [OF this p Cons.prems(3-5)] show ?thesis by simp
    qed simp
  qed
qed simp

subsection \<open>Moving one block\<close>

lemma indexed_remove:
  assumes "indexed bh ix" and "bh k = Some r"
  shows "indexed (bh(k := None)) (ix((rb_chain_id r, rb_block_height r) := None))"
  unfolding indexed_def
proof (intro allI)
  fix c h k'
  show "(ix((rb_chain_id r, rb_block_height r) := None)) (c, h) = Some k' \<longleftrightarrow>
      (\<exists>rh. (bh(k := None)) k' = Some rh \<and> rb_chain_id rh = c \<and> rb_block_height rh = h)"
    using assms indexedD [OF assms] unfolding indexed_def
    by (cases "(c, h) = (rb_chain_id r, rb_block_height r)"; cases "k' = k") (auto, (metis option.inject)+)
qed

lemma indexed_add:
  assumes "indexed bh ix" and "bh k = None" and "ix (rb_chain_id r, rb_block_height r) = None"
  shows "indexed (bh(k \<mapsto> r)) (ix((rb_chain_id r, rb_block_height r) \<mapsto> k))"
  unfolding indexed_def
proof (intro allI)
  fix c h k'
  show "(ix((rb_chain_id r, rb_block_height r) \<mapsto> k)) (c, h) = Some k' \<longleftrightarrow>
      (\<exists>rh. (bh(k \<mapsto> r)) k' = Some rh \<and> rb_chain_id rh = c \<and> rb_block_height rh = h)"
    using assms unfolding indexed_def
    by (cases "(c, h) = (rb_chain_id r, rb_block_height r)"; cases "k' = k") (auto, (metis option.distinct(1))+)
qed

lemma swap_block_fields [simp]:
  "ChainsIndex (swap_block_to_mainchain p f s) = ChainsIndex s" "Chains (swap_block_to_mainchain p f s) = Chains s"
  "ChainCounter (swap_block_to_mainchain p f s) = ChainCounter s" "BestBlock (swap_block_to_mainchain p f s) = BestBlock s"
  "BestBlockHeight (swap_block_to_mainchain p f s) = BestBlockHeight s"
  "StableBitcoinConfirmations (swap_block_to_mainchain p f s) = StableBitcoinConfirmations s"
  by (simp_all add: swap_block_to_mainchain_def set_header_chain_id_def Let_def split: option.split)

text \<open>
  The effect of moving a block \<open>p\<close> to the main chain, when the fork has no other block at that height: \<open>p\<close>
  joins the main chain, and the block of the main chain at that height, if there is one, joins the fork.
\<close>

lemma swap_block_effect:
  assumes ix: "indexed (BlockHeaders s) (ChainsHashes s)"
    and p: "BlockHeaders s (bh_hash (rb_block_header p)) = Some p" "rb_chain_id p \<noteq> 0" and f: "f \<noteq> 0"
    and free: "ChainsHashes s (f, rb_block_height p) = None \<or> rb_chain_id p = f"
  shows "indexed (BlockHeaders (swap_block_to_mainchain p f s)) (ChainsHashes (swap_block_to_mainchain p f s))"
    and "BlockHeaders (swap_block_to_mainchain p f s) = (\<lambda>k. map_option (\<lambda>r.
       if r = p then r\<lparr>rb_chain_id := 0\<rparr>
       else if rb_chain_id r = 0 \<and> rb_block_height r = rb_block_height p then r\<lparr>rb_chain_id := f\<rparr> else r) (BlockHeaders s k))"
proof -
  let ?bh = "BlockHeaders s" and ?ix = "ChainsHashes s" and ?h = "rb_block_height p" and ?k = "bh_hash (rb_block_header p)"
  let ?s' = "swap_block_to_mainchain p f s"
  let ?upd = "\<lambda>r. if r = p then r\<lparr>rb_chain_id := 0\<rparr>
       else if rb_chain_id r = 0 \<and> rb_block_height r = ?h then r\<lparr>rb_chain_id := f\<rparr> else r"
  have kp: "?ix (rb_chain_id p, ?h) = Some ?k" using indexedD [OF ix p(1)] .
  have same: "k = ?k" if "?bh k = Some p" for k using indexedD [OF ix that] kp by simp
  let ?bh1 = "?bh(?k := None)" and ?ix1 = "?ix((rb_chain_id p, ?h) := None)"
  have i1: "indexed ?bh1 ?ix1" by (rule indexed_remove [OF ix p(1)])
  have "indexed (BlockHeaders ?s') (ChainsHashes ?s') \<and> BlockHeaders ?s' = (\<lambda>k. map_option ?upd (?bh k))"
  proof (cases "?ix (0, ?h)")
    case None
    have no: "\<not> (rb_chain_id r = 0 \<and> rb_block_height r = ?h)" if "?bh k = Some r" for k r
      using indexedD [OF ix that] None by auto
    have "indexed (?bh1(?k \<mapsto> p\<lparr>rb_chain_id := 0\<rparr>)) (?ix1((0, ?h) \<mapsto> ?k))"
      using indexed_add [OF i1, of ?k "p\<lparr>rb_chain_id := 0\<rparr>"] None p(2) by simp
    moreover have "?bh(?k \<mapsto> p\<lparr>rb_chain_id := 0\<rparr>) = (\<lambda>k. map_option ?upd (?bh k))"
    proof
      fix k
      show "(?bh(?k \<mapsto> p\<lparr>rb_chain_id := 0\<rparr>)) k = map_option ?upd (?bh k)"
        using p(1) same [of k] no [of k] by (cases "?bh k") auto
    qed
    ultimately show ?thesis
      using None p by (simp add: swap_block_to_mainchain_def Let_def set_header_chain_id_def MAIN_CHAIN_ID_def)
  next
    case (Some kr)
    then obtain r where r: "?bh kr = Some r" "rb_chain_id r = 0" "rb_block_height r = ?h" using indexedE [OF ix] by metis
    then have ne: "kr \<noteq> ?k" "r \<noteq> p" using p by auto
    have uniq: "k = kr" if "?bh k = Some r'" "rb_chain_id r' = 0" "rb_block_height r' = ?h" for k r'
      using indexedD [OF ix that(1)] that(2,3) Some by simp
    let ?bh2 = "?bh1(kr := None)" and ?ix2 = "?ix1((0, ?h) := None)"
    have i2: "indexed ?bh2 ?ix2" using indexed_remove [OF i1, of kr r] r ne by simp
    have i3: "indexed (?bh2(?k \<mapsto> p\<lparr>rb_chain_id := 0\<rparr>)) (?ix2((0, ?h) \<mapsto> ?k))"
      using indexed_add [OF i2, of ?k "p\<lparr>rb_chain_id := 0\<rparr>"] by simp
    have i4: "indexed (?bh2(?k \<mapsto> p\<lparr>rb_chain_id := 0\<rparr>, kr \<mapsto> r\<lparr>rb_chain_id := f\<rparr>)) (?ix2((0, ?h) \<mapsto> ?k, (f, ?h) \<mapsto> kr))"
      using indexed_add [OF i3, of kr "r\<lparr>rb_chain_id := f\<rparr>"] r ne f free p(2) by auto
    have "?bh(?k \<mapsto> p\<lparr>rb_chain_id := 0\<rparr>, kr \<mapsto> r\<lparr>rb_chain_id := f\<rparr>) = (\<lambda>k. map_option ?upd (?bh k))"
    proof
      fix k
      show "(?bh(?k \<mapsto> p\<lparr>rb_chain_id := 0\<rparr>, kr \<mapsto> r\<lparr>rb_chain_id := f\<rparr>)) k = map_option ?upd (?bh k)"
        using p(1) r ne same [of k] uniq [of k] by (cases "?bh k") auto
    qed
    moreover have "?bh2(?k \<mapsto> p\<lparr>rb_chain_id := 0\<rparr>, kr \<mapsto> r\<lparr>rb_chain_id := f\<rparr>) = ?bh(?k \<mapsto> p\<lparr>rb_chain_id := 0\<rparr>, kr \<mapsto> r\<lparr>rb_chain_id := f\<rparr>)"
      by (auto simp: fun_eq_iff)
    moreover have "?ix2((0, ?h) \<mapsto> ?k, (f, ?h) \<mapsto> kr) = ?ix((rb_chain_id p, ?h) := None, (0, ?h) \<mapsto> ?k, (f, ?h) \<mapsto> kr)"
      by (auto simp: fun_eq_iff)
    ultimately show ?thesis
      using i4 Some p r ne by (simp add: swap_block_to_mainchain_def Let_def set_header_chain_id_def MAIN_CHAIN_ID_def)
  qed
  then show "indexed (BlockHeaders ?s') (ChainsHashes ?s')" "BlockHeaders ?s' = (\<lambda>k. map_option ?upd (?bh k))"
    by blast+
qed

subsection \<open>The loop over the path\<close>

definition upd :: "nat \<Rightarrow> rich_block_header set \<Rightarrow> rich_block_header \<Rightarrow> rich_block_header" where
  "upd f D r = (if r \<in> D then r\<lparr>rb_chain_id := 0\<rparr>
     else if rb_chain_id r = 0 \<and> (\<exists>d \<in> D. rb_block_height d = rb_block_height r) then r\<lparr>rb_chain_id := f\<rparr> else r)"

definition moved :: "nat \<Rightarrow> rich_block_header set \<Rightarrow> headers \<Rightarrow> headers" where
  "moved f D bh = (\<lambda>k. map_option (upd f D) (bh k))"

lemma upd_fields [simp]:
  "rb_block_header (upd f D r) = rb_block_header r" "rb_block_height (upd f D r) = rb_block_height r"
  "rb_para_height (upd f D r) = rb_para_height r"
  by (simp_all add: upd_def)

lemma upd_low: "(\<forall>d \<in> D. rb_block_height r < rb_block_height d) \<Longrightarrow> upd f D r = r"
  by (auto simp: upd_def)

lemma moved_empty [simp]: "moved f {} bh = bh"
proof -
  have "upd f {} = (\<lambda>r. r)" by (simp add: upd_def fun_eq_iff)
  then show ?thesis by (simp add: moved_def option.map_ident)
qed

definition reorg :: "headers \<Rightarrow> hashes_index \<Rightarrow> chains_index \<Rightarrow> nat \<Rightarrow> block_chain \<Rightarrow> block_chain \<Rightarrow> rich_block_header list \<Rightarrow> rich_block_header \<Rightarrow> bool" where
  "reorg bh ix ci n fork main ps q \<longleftrightarrow> forest bh ix ci n \<and> path bh ps q \<and> stored bh q
     \<and> ci (bc_chain_id fork) = Some fork \<and> ci 0 = Some main \<and> bc_chain_id fork \<noteq> 0
     \<and> bc_max_height main < bc_max_height fork
     \<and> rb_chain_id (hd ps) = bc_chain_id fork \<and> rb_block_height (hd ps) = bc_max_height fork"

lemma reorgD:
  assumes "reorg bh ix ci n fork main ps q"
  shows "forest bh ix ci n" "indexed bh ix" "hashed bh" "ranged ix ci n" "linked bh ci" "path bh ps q" "stored bh q"
    "ci (bc_chain_id fork) = Some fork" "ci 0 = Some main" "bc_chain_id fork \<noteq> 0"
    "bc_max_height main < bc_max_height fork" "hd ps \<in> set ps" "rb_chain_id (hd ps) = bc_chain_id fork"
    "rb_block_height (hd ps) = bc_max_height fork" "rb_chain_id q = 0"
  using assms path_nonempty [of bh ps q] path_main [of bh ps q] by (auto simp: reorg_def forest_def)

lemma fork_in_path:
  assumes "reorg bh ix ci n fork main ps q" and "stored bh r" and "rb_chain_id r = bc_chain_id fork"
  shows "r \<in> set ps"
proof -
  note d = reorgD [OF assms(1)]
  have "rb_block_height r \<le> bc_max_height fork"
    using forest_chain [OF d(1) assms(2) [unfolded stored_def]] assms(3) d(8) by auto
  then show ?thesis using path_down [OF d(1,6,12) assms(2)] assms(3) d(13,14) by simp
qed

lemma crossing_fresh:
  assumes r: "reorg bh ix ci n fork main ps q" and ps: "ps = xs @ p # ys" and c: "rb_chain_id (hd (ys @ [q])) \<noteq> rb_chain_id p"
    and e: "e \<in> set (xs @ [p])"
  shows "rb_chain_id e \<noteq> rb_chain_id (hd (ys @ [q]))"
proof
  let ?p' = "hd (ys @ [q])" and ?c = "rb_chain_id (hd (ys @ [q]))"
  assume eq: "rb_chain_id e = ?c"
  note d = reorgD [OF r]
  have e': "stored bh e" "rb_chain_id e \<noteq> 0" using path_stored [OF d(6)] e ps by auto
  then obtain p1 ys' where ys: "ys = p1 # ys'" using eq d(15) by (cases ys) auto
  then have p1: "?p' = p1" "stored bh p1" using path_stored [OF d(6), of p1] ps by auto
  have hs: "map rb_block_height ps = rev [Suc (rb_block_height q)..<Suc (rb_block_height (hd ps))]"
    using path_heights [OF d(6)] by blast
  have "sorted_wrt (>) (map rb_block_height ps)" unfolding hs by (simp add: sorted_wrt_rev del: upt_Suc)
  then have lt: "rb_block_height p1 < rb_block_height p" "rb_block_height p \<le> rb_block_height e"
    using ps ys e by (auto simp: sorted_wrt_append)
  obtain ch where ch: "ci ?c = Some ch" "bc_start_height ch \<le> rb_block_height p1"
    using forest_chain [OF d(1) p1(2) [unfolded stored_def]] p1(1) by metis
  moreover have "rb_block_height e \<le> bc_max_height ch"
    using forest_chain [OF d(1) e'(1) [unfolded stored_def]] eq ch(1) by (metis option.inject)
  ultimately have "ix (?c, rb_block_height p) \<noteq> None" using rangedD(4) [OF d(4) ch(1)] lt by simp
  then obtain k r' where "bh k = Some r'" and r': "rb_chain_id r' = ?c" "rb_block_height r' = rb_block_height p"
    using indexedE [OF d(2)] by (metis not_None_eq)
  then have "r' \<in> set ps" using path_down [OF d(1,6), of e r'] storedI [OF d(3)] e ps eq lt(2) by auto
  then have "r' = p" using path_unique [OF d(6)] r'(2) ps by auto
  then show False using r'(1) c by simp
qed

text \<open>The index of the chains after the nodes \<open>E\<close> of the path have been seen: a visited chain starts above its highest seen node.\<close>

definition ci_stage :: "nat \<Rightarrow> rich_block_header set \<Rightarrow> chains_index \<Rightarrow> chains_index \<Rightarrow> bool" where
  "ci_stage f E ci ci' \<longleftrightarrow> (\<forall>c. c \<noteq> 0 \<longrightarrow> c \<noteq> f \<longrightarrow>
     (if \<exists>e \<in> E. rb_chain_id e = c
      then \<exists>e \<in> E. rb_chain_id e = c \<and> (\<forall>e' \<in> E. rb_chain_id e' = c \<longrightarrow> rb_block_height e' \<le> rb_block_height e)
             \<and> ci' c = map_option (bc_start_height_update (\<lambda>_. Suc (rb_block_height e))) (ci c)
      else ci' c = ci c))"

definition kept :: "('acc, 'x) relay_scheme \<Rightarrow> ('acc, 'x) relay_scheme \<Rightarrow> bool" where
  "kept s s' \<longleftrightarrow> Chains s' = Chains s \<and> ChainCounter s' = ChainCounter s \<and> BestBlock s' = BestBlock s
     \<and> BestBlockHeight s' = BestBlockHeight s \<and> StableBitcoinConfirmations s' = StableBitcoinConfirmations s"

lemma moved_step:
  assumes r: "reorg bh ix ci n fork main ps q" and ps: "ps = xs @ p # ys"
    and s: "BlockHeaders s = moved (bc_chain_id fork) (set xs) bh" "indexed (BlockHeaders s) (ChainsHashes s)"
  defines "s' \<equiv> swap_block_to_mainchain p (bc_chain_id fork) s"
  shows "BlockHeaders s' = moved (bc_chain_id fork) (set (xs @ [p])) bh" and "indexed (BlockHeaders s') (ChainsHashes s')"
proof -
  let ?f = "bc_chain_id fork" and ?k = "bh_hash (rb_block_header p)"
  note d = reorgD [OF r]
  have p: "stored bh p" "rb_chain_id p \<noteq> 0" using path_stored [OF d(6), of p] ps by auto
  have hs: "map rb_block_height ps = rev [Suc (rb_block_height q)..<Suc (rb_block_height (hd ps))]"
    using path_heights [OF d(6)] by blast
  have "sorted_wrt (>) (map rb_block_height ps)" unfolding hs by (simp add: sorted_wrt_rev del: upt_Suc)
  then have hi: "\<forall>d \<in> set xs. rb_block_height p < rb_block_height d" using ps by (auto simp: sorted_wrt_append)
  have hi': "upd ?f (set xs) r = r" if "rb_block_height r = rb_block_height p" for r
    using hi that by (intro upd_low) simp
  have bp: "BlockHeaders s ?k = Some p" using s(1) p(1) hi' by (simp add: moved_def stored_def)
  have "ChainsHashes s (?f, rb_block_height p) = None \<or> rb_chain_id p = ?f"
  proof (cases "ChainsHashes s (?f, rb_block_height p)")
    case (Some k)
    then obtain r where r': "BlockHeaders s k = Some r" "rb_chain_id r = ?f" "rb_block_height r = rb_block_height p"
      using indexedE [OF s(2)] by metis
    then obtain r0 where r0: "bh k = Some r0" "r = upd ?f (set xs) r0" using s(1) by (auto simp: moved_def)
    then have "r0 = r" using hi' [of r0] r'(3) by simp
    then have "r \<in> set ps" using fork_in_path [OF r] storedI [OF d(3)] r0(1) r'(2) by blast
    then have "r = p" using path_unique [OF d(6)] r'(3) ps by auto
    then show ?thesis using r'(2) by simp
  qed simp
  note eff = swap_block_effect [OF s(2) bp p(2) d(10) this]
  show "indexed (BlockHeaders s') (ChainsHashes s')" unfolding s'_def by (rule eff(1))
  show "BlockHeaders s' = moved ?f (set (xs @ [p])) bh"
  proof
    fix k
    show "BlockHeaders s' k = moved ?f (set (xs @ [p])) bh k"
    proof (cases "bh k")
      case (Some r)
      have "stored bh r" using storedI [OF d(3) Some] .
      have pn: "p \<notin> set xs" using hi by blast
      show ?thesis
      proof (cases "rb_block_height r = rb_block_height p")
        case True
        then have "upd ?f (set xs) r = r" by (rule hi')
        moreover have "r \<notin> set xs" using True hi by auto
        ultimately show ?thesis using Some True s(1) unfolding s'_def eff(2)
          by (auto simp: moved_def upd_def p(2))
      next
        case False
        then have "r \<noteq> p" "upd ?f (set xs) r \<noteq> p" by (auto dest: arg_cong [of _ _ rb_block_height])
        then show ?thesis using Some False s(1) unfolding s'_def eff(2) by (auto simp: moved_def upd_def)
      qed
    qed (simp add: moved_def s'_def eff(2) s(1))
  qed
qed

lemma ci_stage_same:
  assumes "ci_stage f E ci ci'" and "e \<in> E" and "rb_chain_id e = rb_chain_id p" and "rb_block_height p \<le> rb_block_height e"
  shows "ci_stage f (insert p E) ci ci'"
  unfolding ci_stage_def
proof (intro allI impI)
  fix c assume c: "c \<noteq> 0" "c \<noteq> f"
  note st = assms(1) [unfolded ci_stage_def, rule_format, OF c]
  show "if \<exists>e \<in> insert p E. rb_chain_id e = c
      then \<exists>e \<in> insert p E. rb_chain_id e = c \<and> (\<forall>e' \<in> insert p E. rb_chain_id e' = c \<longrightarrow> rb_block_height e' \<le> rb_block_height e)
             \<and> ci' c = map_option (bc_start_height_update (\<lambda>_. Suc (rb_block_height e))) (ci c)
      else ci' c = ci c"
  proof (cases "\<exists>e \<in> E. rb_chain_id e = c")
    case True
    then obtain e0 where "e0 \<in> E" "rb_chain_id e0 = c" "\<forall>e' \<in> E. rb_chain_id e' = c \<longrightarrow> rb_block_height e' \<le> rb_block_height e0"
      "ci' c = map_option (bc_start_height_update (\<lambda>_. Suc (rb_block_height e0))) (ci c)" using st by auto
    then show ?thesis using assms(2-4) by (auto intro!: bexI [of _ e0])
  next
    case False
    then show ?thesis using st assms(2,3) by auto
  qed
qed

lemma ci_stage_new:
  assumes "ci_stage f E ci ci'" and fresh: "\<forall>e \<in> E. rb_chain_id e \<noteq> rb_chain_id p" and "ci (rb_chain_id p) = Some ch"
  shows "ci_stage f (insert p E) ci (ci'(rb_chain_id p \<mapsto> ch\<lparr>bc_start_height := Suc (rb_block_height p)\<rparr>))"
  unfolding ci_stage_def
proof (intro allI impI)
  fix c assume c: "c \<noteq> 0" "c \<noteq> f"
  note st = assms(1) [unfolded ci_stage_def, rule_format, OF c]
  show "if \<exists>e \<in> insert p E. rb_chain_id e = c
      then \<exists>e \<in> insert p E. rb_chain_id e = c \<and> (\<forall>e' \<in> insert p E. rb_chain_id e' = c \<longrightarrow> rb_block_height e' \<le> rb_block_height e)
             \<and> (ci'(rb_chain_id p \<mapsto> ch\<lparr>bc_start_height := Suc (rb_block_height p)\<rparr>)) c
                 = map_option (bc_start_height_update (\<lambda>_. Suc (rb_block_height e))) (ci c)
      else (ci'(rb_chain_id p \<mapsto> ch\<lparr>bc_start_height := Suc (rb_block_height p)\<rparr>)) c = ci c"
  proof (cases "rb_chain_id p = c")
    case True
    then show ?thesis using fresh assms(3) by (auto intro!: bexI [of _ p])
  next
    case False
    then show ?thesis using st by (auto split: if_splits)
  qed
qed

lemma ci_stage_fork: "ci_stage f E ci ci' \<Longrightarrow> ci_stage f E ci (ci'(f \<mapsto> x))"
  by (simp add: ci_stage_def)

lemma kept_simps [simp]: "kept s s"
  by (simp add: kept_def)

lemma kept_trans: "kept s s1 \<Longrightarrow> kept s1 s2 \<Longrightarrow> kept s s2"
  by (simp add: kept_def)

definition rest_of_main :: "block_chain \<Rightarrow> rich_block_header \<Rightarrow> block_chain \<Rightarrow> block_chain" where
  "rest_of_main main q fork = main\<lparr>bc_start_height := Suc (rb_block_height q), bc_chain_id := bc_chain_id fork\<rparr>"

lemma swap_link_step:
  assumes r: "reorg bh ix ci n fork main ps q" and ps: "ps = xs @ p # ys"
    and s: "BlockHeaders s = moved (bc_chain_id fork) (set xs) bh" "indexed (BlockHeaders s) (ChainsHashes s)"
    and st: "ci_stage (bc_chain_id fork) (set (xs @ [p])) ci (ChainsIndex s)"
    and ci: "ChainsIndex s 0 = Some main" "ChainsIndex s (bc_chain_id fork) = Some fork"
  shows "\<exists>s'. swap_link fork p (hd (ys @ [q])) s = Inr ((), s') \<and> kept s s'
     \<and> BlockHeaders s' = moved (bc_chain_id fork) (set (xs @ [p])) bh \<and> indexed (BlockHeaders s') (ChainsHashes s')
     \<and> ChainsIndex s' 0 = Some main
     \<and> (if ys = [] then ci_stage (bc_chain_id fork) (set ps) ci (ChainsIndex s')
                        \<and> ChainsIndex s' (bc_chain_id fork) = Some (rest_of_main main q fork)
        else ci_stage (bc_chain_id fork) (set (xs @ [p, hd ys])) ci (ChainsIndex s')
             \<and> ChainsIndex s' (bc_chain_id fork) = Some fork)"
proof -
  let ?f = "bc_chain_id fork" and ?p' = "hd (ys @ [q])"
  note d = reorgD [OF r]
  have mv: "BlockHeaders (swap_block_to_mainchain p ?f (s\<lparr>ChainsIndex := ci'\<rparr>)) = moved ?f (set (xs @ [p])) bh
      \<and> indexed (BlockHeaders (swap_block_to_mainchain p ?f (s\<lparr>ChainsIndex := ci'\<rparr>)))
          (ChainsHashes (swap_block_to_mainchain p ?f (s\<lparr>ChainsIndex := ci'\<rparr>)))" for ci'
    using moved_step [OF r ps, of "s\<lparr>ChainsIndex := ci'\<rparr>"] s by simp
  have p: "stored bh p" "rb_chain_id p \<noteq> 0" using path_stored [OF d(6), of p] ps by auto
  have par: "rb_block_height p = Suc (rb_block_height ?p')"
  proof -
    have "path bh (xs @ p # ys) q \<Longrightarrow> parent_of bh p ?p'"
    proof (induction xs)
      case Nil
      then show ?case by (cases ys) auto
    next
      case (Cons x xs)
      then show ?case using path_tl [of bh x "xs @ p # ys" q] by simp
    qed
    then show ?thesis using d(6) ps by (simp add: parent_of_def)
  qed
  have small: "Suc (rb_block_height ?p') < 2 ^ 32"
    using d(3) p(1) par unfolding hashed_def stored_def by metis
  consider (same) "rb_chain_id ?p' = rb_chain_id p" | (main) "rb_chain_id ?p' \<noteq> rb_chain_id p" "ys = []"
    | (other) "rb_chain_id ?p' \<noteq> rb_chain_id p" "ys \<noteq> []" by blast
  then show ?thesis
  proof cases
    case same
    then have ys: "ys \<noteq> []" using d(15) p(2) by auto
    then have "ci_stage ?f (set (xs @ [p, hd ys])) ci (ChainsIndex s)"
      using ci_stage_same [OF st, of p "hd ys"] same par by (simp add: insert_commute)
    then show ?thesis using same ys ci mv [of "ChainsIndex s"] by (auto simp: swap_link_def kept_def)
  next
    case main
    have "ci_stage ?f (set ps) ci ((ChainsIndex s)(?f \<mapsto> rest_of_main main q fork))"
      using ci_stage_fork [OF st] ps main(2) by simp
    then show ?thesis
      using main small ci d(10,15) mv [of "(ChainsIndex s)(?f \<mapsto> rest_of_main main q fork)"] ps
      by (auto simp: swap_link_def kept_def get_block_chain_from_id_def checked_add_w_def MAIN_CHAIN_ID_def Let_def
          set_block_chain_from_id_def rest_of_main_def)
  next
    case other
    let ?c = "rb_chain_id ?p'"
    have hd: "?p' = hd ys" "hd ys \<in> set ps" using other(2) ps by auto
    have fresh: "\<forall>e \<in> set (xs @ [p]). rb_chain_id e \<noteq> ?c" using crossing_fresh [OF r ps other(1)] by blast
    moreover have "hd ps \<in> set (xs @ [p])" using ps by (cases xs) auto
    ultimately have cf: "?c \<noteq> ?f" using d(13) by metis
    have c0: "?c \<noteq> 0" using path_stored [OF d(6) hd(2)] hd(1) by simp
    obtain ch where ch: "ci ?c = Some ch"
      using forest_chain [OF d(1), of _ ?p'] path_stored [OF d(6) hd(2)] hd(1) by (metis stored_def)
    have cs: "ChainsIndex s ?c = Some ch" using st fresh c0 cf ch unfolding ci_stage_def by auto
    have id: "bc_chain_id ch = ?c" using rangedD(2) [OF d(4) ch] .
    let ?ci = "(ChainsIndex s)(?c \<mapsto> ch\<lparr>bc_start_height := Suc (rb_block_height ?p')\<rparr>)"
    have "ci_stage ?f (set (xs @ [p, hd ys])) ci ?ci"
      using ci_stage_new [OF st fresh ch] hd(1) by (simp add: insert_commute)
    then show ?thesis using other small cs id c0 cf ci mv [of ?ci]
      by (auto simp: swap_link_def kept_def get_block_chain_from_id_def checked_add_w_def MAIN_CHAIN_ID_def Let_def
          set_block_chain_from_id_def)
  qed
qed

lemma swap_links_path:
  assumes r: "reorg bh ix ci n fork main ps q"
  shows "ps = xs @ p # ys \<Longrightarrow> length ys < m \<Longrightarrow>
    BlockHeaders s = moved (bc_chain_id fork) (set xs) bh \<Longrightarrow> indexed (BlockHeaders s) (ChainsHashes s) \<Longrightarrow>
    ci_stage (bc_chain_id fork) (set (xs @ [p])) ci (ChainsIndex s) \<Longrightarrow>
    ChainsIndex s 0 = Some main \<Longrightarrow> ChainsIndex s (bc_chain_id fork) = Some fork \<Longrightarrow>
    \<exists>s'. swap_links m fork p (hd (ys @ [q])) s = Inr ((), s') \<and> kept s s'
      \<and> BlockHeaders s' = moved (bc_chain_id fork) (set ps) bh \<and> indexed (BlockHeaders s') (ChainsHashes s')
      \<and> ci_stage (bc_chain_id fork) (set ps) ci (ChainsIndex s') \<and> ChainsIndex s' 0 = Some main
      \<and> ChainsIndex s' (bc_chain_id fork) = Some (rest_of_main main q fork)"
proof (induction ys arbitrary: xs p m s)
  case Nil
  note d = reorgD [OF r]
  obtain m' where m: "m = Suc m'" using Nil.prems(2) by (cases m) auto
  show ?case
    using swap_link_step [OF r Nil.prems(1,3-7)] d(15) Nil.prems(1) by (auto simp: m MAIN_CHAIN_ID_def)
next
  case (Cons p1 ys)
  note d = reorgD [OF r]
  obtain m' where m: "m = Suc m'" "length ys < m'" using Cons.prems(2) by (cases m) auto
  let ?g = "hd (ys @ [q])"
  have p1: "rb_chain_id p1 \<noteq> 0" using path_stored [OF d(6), of p1] Cons.prems(1) by auto
  have "path bh (xs @ p # p1 # ys) q \<Longrightarrow> parent_of bh p1 ?g"
  proof (induction xs)
    case Nil
    then show ?case by (cases ys) auto
  next
    case (Cons x xs)
    then show ?case using path_tl [of bh x "xs @ p # p1 # ys" q] by simp
  qed
  then have par: "parent_of bh p1 ?g" using d(6) Cons.prems(1) by simp
  have hs: "map rb_block_height ps = rev [Suc (rb_block_height q)..<Suc (rb_block_height (hd ps))]"
    using path_heights [OF d(6)] by blast
  have "sorted_wrt (>) (map rb_block_height ps)" unfolding hs by (simp add: sorted_wrt_rev del: upt_Suc)
  then have "\<forall>d \<in> set xs. rb_block_height ?g < rb_block_height d"
    using Cons.prems(1) par by (auto simp: sorted_wrt_append parent_of_def)
  then have "upd (bc_chain_id fork) (set xs) ?g = ?g" by (intro upd_low) simp
  then have nxt: "parent_link s p1 = Inr ?g"
    using par Cons.prems(3) by (simp add: parent_link_def get_block_header_from_hash_def moved_def parent_of_def)
  obtain s1 where s1: "swap_link fork p p1 s = Inr ((), s1)" "kept s s1"
    "BlockHeaders s1 = moved (bc_chain_id fork) (set (xs @ [p])) bh" "indexed (BlockHeaders s1) (ChainsHashes s1)"
    "ChainsIndex s1 0 = Some main" "ci_stage (bc_chain_id fork) (set ((xs @ [p]) @ [p1])) ci (ChainsIndex s1)"
    "ChainsIndex s1 (bc_chain_id fork) = Some fork"
    using swap_link_step [OF r Cons.prems(1,3-7)] by auto
  obtain s2 where "swap_links m' fork p1 ?g s1 = Inr ((), s2)" "kept s1 s2"
    "BlockHeaders s2 = moved (bc_chain_id fork) (set ps) bh \<and> indexed (BlockHeaders s2) (ChainsHashes s2)
      \<and> ci_stage (bc_chain_id fork) (set ps) ci (ChainsIndex s2) \<and> ChainsIndex s2 0 = Some main
      \<and> ChainsIndex s2 (bc_chain_id fork) = Some (rest_of_main main q fork)"
    using Cons.IH [of "xs @ [p]" p1 m' s1] Cons.prems(1) m(2) s1 by auto
  then show ?case using s1(1,2) nxt p1 kept_trans by (auto simp: m(1) MAIN_CHAIN_ID_def)
qed

subsection \<open>The forest after the reorganisation\<close>

lemma path_split_parent: "path bh (xs @ p # p' # ys) q \<Longrightarrow> parent_of bh p p'"
proof (induction xs)
  case (Cons x xs)
  then show ?case using path_tl [of bh x "xs @ p # p' # ys" q] by simp
qed simp

lemma path_last_parent: "path bh (xs @ [p]) q \<Longrightarrow> parent_of bh p q"
proof (induction xs)
  case (Cons x xs)
  then show ?case using path_tl [of bh x "xs @ [p]" q] by simp
qed simp

text \<open>The chain of each block after the reorganisation.\<close>

lemma new_chain:
  assumes r: "reorg bh ix ci n fork main ps q" and b: "stored bh b"
  shows "rb_chain_id (upd (bc_chain_id fork) (set ps) b) =
    (if b \<in> set ps then 0
     else if rb_chain_id b = 0 then (if rb_block_height b \<le> rb_block_height q then 0 else bc_chain_id fork)
     else rb_chain_id b)"
    and "b \<in> set ps \<Longrightarrow> rb_chain_id b \<noteq> 0" and "b \<notin> set ps \<Longrightarrow> rb_chain_id b \<noteq> bc_chain_id fork"
proof -
  note d = reorgD [OF r]
  show "b \<in> set ps \<Longrightarrow> rb_chain_id b \<noteq> 0" using path_stored [OF d(6)] by blast
  show "b \<notin> set ps \<Longrightarrow> rb_chain_id b \<noteq> bc_chain_id fork" using fork_in_path [OF r b] by blast
  have "rb_block_height b \<le> bc_max_height fork" if "rb_chain_id b = 0"
    using forest_chain [OF d(1) b [unfolded stored_def]] that d(9,11) by force
  then have "(\<exists>p \<in> set ps. rb_block_height p = rb_block_height b) \<longleftrightarrow> rb_block_height q < rb_block_height b" if "rb_chain_id b = 0"
    using path_height_iff [OF d(6), of "rb_block_height b"] d(14) that by simp
  then show "rb_chain_id (upd (bc_chain_id fork) (set ps) b) =
    (if b \<in> set ps then 0
     else if rb_chain_id b = 0 then (if rb_block_height b \<le> rb_block_height q then 0 else bc_chain_id fork)
     else rb_chain_id b)"
    by (auto simp: upd_def)
qed

lemma block_at:
  assumes "forest bh ix ci n" and "ci c = Some ch" and "bc_start_height ch \<le> h" and "h \<le> bc_max_height ch"
  obtains b where "stored bh b" and "rb_chain_id b = c" and "rb_block_height b = h"
proof -
  have ix: "indexed bh ix" and rg: "ranged ix ci n" and hs: "hashed bh" using assms(1) by (auto simp: forest_def)
  obtain k where "ix (c, h) = Some k" using rangedD(4) [OF rg assms(2)] assms(3,4) by blast
  then show ?thesis using indexedE [OF ix] storedI [OF hs] that by metis
qed

lemma stored_range:
  assumes "forest bh ix ci n" and "stored bh b" and "ci (rb_chain_id b) = Some ch"
  shows "bc_start_height ch \<le> rb_block_height b" and "rb_block_height b \<le> bc_max_height ch"
  using forest_chain [OF assms(1) assms(2) [unfolded stored_def]] assms(3) by auto

text \<open>The fork point lies inside the main chain, and the highest block of the path on another chain below its tip.\<close>

lemma fork_point:
  assumes r: "reorg bh ix ci n fork main ps q"
  shows "bc_start_height main \<le> rb_block_height q" and "rb_block_height q < bc_max_height main"
proof -
  note d = reorgD [OF r]
  show "bc_start_height main \<le> rb_block_height q" using stored_range(1) [OF d(1,7)] d(9,15) by simp
  obtain xs p where ps: "ps = xs @ [p]" using path_nonempty [OF d(6)] by (cases ps rule: rev_cases) auto
  have p: "stored bh p" "rb_chain_id p \<noteq> 0" using path_stored [OF d(6), of p] ps by auto
  have "parent_of bh p q" using path_last_parent d(6) ps by metis
  then show "rb_block_height q < bc_max_height main"
    using forest_parent [OF d(1) p] parent_of_unique d(9,15) p(2) by metis
qed

lemma top_below_tip:
  assumes r: "reorg bh ix ci n fork main ps q" and e: "e \<in> set ps" "rb_chain_id e \<noteq> bc_chain_id fork"
    and top: "\<forall>e' \<in> set ps. rb_chain_id e' = rb_chain_id e \<longrightarrow> rb_block_height e' \<le> rb_block_height e"
    and ch: "ci (rb_chain_id e) = Some ch"
  shows "rb_block_height e < bc_max_height ch" and "rb_block_height e < bc_max_height fork"
proof -
  note d = reorgD [OF r]
  obtain ys zs where yz: "ps = ys @ e # zs" using e(1) by (meson split_list)
  then have "ys \<noteq> []" using e(2) d(13) by auto
  then obtain xs p where ps: "ps = xs @ p # e # zs" using yz by (cases ys rule: rev_cases) auto
  have p: "stored bh p" "rb_chain_id p \<noteq> 0" "p \<in> set ps" using path_stored [OF d(6), of p] ps by auto
  have par: "parent_of bh p e" using path_split_parent d(6) ps by metis
  then have "rb_chain_id e \<noteq> rb_chain_id p" using top p(3) by (auto simp: parent_of_def)
  then show "rb_block_height e < bc_max_height ch"
    using forest_parent [OF d(1) p(1,2)] parent_of_unique [OF par] ch by metis
  show "rb_block_height e < bc_max_height fork"
    using par path_height_iff [OF d(6), of "rb_block_height p"] p(3) d(14) by (auto simp: parent_of_def)
qed

end
