(* ===== verification/BTC_Relay_Swap.thy ===== *)
theory BTC_Relay_Swap
  imports BTC_Relay_Reorg
begin

text \<open>
  The stored chains after a reorganisation form a forest again: the path is the upper part of the main
  chain, the replaced part of the main chain is the fork, and the chains that the path visits start
  above it.
\<close>

definition reorganised ::
  "headers \<Rightarrow> chains_index \<Rightarrow> block_chain \<Rightarrow> block_chain \<Rightarrow> rich_block_header list \<Rightarrow> rich_block_header
     \<Rightarrow> headers \<Rightarrow> hashes_index \<Rightarrow> chains_index \<Rightarrow> bool" where
  "reorganised bh ci fork main ps q bh' ix' ci' \<longleftrightarrow>
     bh' = moved (bc_chain_id fork) (set ps) bh \<and> indexed bh' ix'
     \<and> ci_stage (bc_chain_id fork) (set ps) ci ci'
     \<and> ci' 0 = Some (main\<lparr>bc_max_height := bc_max_height fork\<rparr>)
     \<and> ci' (bc_chain_id fork) = Some (rest_of_main main q fork)"

lemma moved_stored:
  assumes "hashed bh"
  shows "moved f D bh k = Some r' \<longleftrightarrow> (\<exists>r. stored bh r \<and> bh k = Some r \<and> r' = upd f D r)"
  using assms by (auto simp: moved_def intro: storedI)

lemma moved_parent: "parent_of bh r p \<Longrightarrow> parent_of (moved f D bh) (upd f D r) (upd f D p)"
  by (simp add: parent_of_def moved_def)

lemma moved_hashed: "hashed bh \<Longrightarrow> hashed (moved f D bh)"
  by (auto simp: hashed_def moved_def)

lemma moved_index:
  assumes "indexed (moved f D bh) ix'" and "hashed bh"
  shows "ix' (c, h) \<noteq> None \<longleftrightarrow> (\<exists>b. stored bh b \<and> rb_chain_id (upd f D b) = c \<and> rb_block_height b = h)"
proof
  assume "ix' (c, h) \<noteq> None"
  then obtain k where "ix' (c, h) = Some k" by blast
  then show "\<exists>b. stored bh b \<and> rb_chain_id (upd f D b) = c \<and> rb_block_height b = h"
    using indexedE [OF assms(1)] moved_stored [OF assms(2)] by (metis upd_fields(2))
next
  assume "\<exists>b. stored bh b \<and> rb_chain_id (upd f D b) = c \<and> rb_block_height b = h"
  then obtain b where b: "stored bh b" "rb_chain_id (upd f D b) = c" "rb_block_height b = h" by blast
  then have "moved f D bh (bh_hash (rb_block_header b)) = Some (upd f D b)" by (simp add: stored_def moved_def)
  then show "ix' (c, h) \<noteq> None" using indexedD [OF assms(1)] b by force
qed

text \<open>A chain other than the main chain and the fork keeps the blocks that are not in the path.\<close>

lemma other_chain:
  assumes r: "reorg bh ix ci n fork main ps q" and st: "ci_stage (bc_chain_id fork) (set ps) ci ci'"
    and c: "c \<noteq> 0" "c \<noteq> bc_chain_id fork" and ch': "ci' c = Some ch'"
  obtains ch where "ci c = Some ch" "bc_chain_id ch' = bc_chain_id ch" "bc_max_height ch' = bc_max_height ch"
    "bc_start_height ch' \<le> bc_max_height ch" "bc_start_height ch \<le> bc_start_height ch'"
    "\<And>b. stored bh b \<Longrightarrow> rb_chain_id b = c \<Longrightarrow> b \<notin> set ps \<longleftrightarrow> bc_start_height ch' \<le> rb_block_height b"
    "bc_start_height ch' = bc_start_height ch \<or>
       (\<exists>e \<in> set ps. rb_chain_id e = c \<and> bc_start_height ch' = Suc (rb_block_height e) \<and> rb_block_height e < bc_max_height fork)"
proof -
  note d = reorgD [OF r]
  note stc = st [unfolded ci_stage_def, rule_format, OF c]
  show ?thesis
  proof (cases "\<exists>e \<in> set ps. rb_chain_id e = c")
    case True
    then obtain e where e: "e \<in> set ps" "rb_chain_id e = c"
      "\<forall>e' \<in> set ps. rb_chain_id e' = c \<longrightarrow> rb_block_height e' \<le> rb_block_height e"
      "ci' c = map_option (bc_start_height_update (\<lambda>_. Suc (rb_block_height e))) (ci c)" using stc by auto
    then obtain ch where ch: "ci c = Some ch" "ch' = ch\<lparr>bc_start_height := Suc (rb_block_height e)\<rparr>"
      using ch' by (cases "ci c") auto
    have se: "stored bh e" using path_stored [OF d(6) e(1)] by blast
    have lt: "rb_block_height e < bc_max_height ch" "rb_block_height e < bc_max_height fork"
      using top_below_tip [OF r e(1)] e(2,3) c(2) ch(1) by auto
    have "b \<notin> set ps \<longleftrightarrow> Suc (rb_block_height e) \<le> rb_block_height b" if b: "stored bh b" "rb_chain_id b = c" for b
      using path_down [OF d(1,6) e(1) b(1)] b(2) e(2,3) by fastforce
    moreover have "bc_start_height ch \<le> rb_block_height e" using stored_range(1) [OF d(1) se] e(2) ch(1) by simp
    ultimately show ?thesis using that [OF ch(1)] ch(2) lt e(1,2) by auto
  next
    case False
    then have "ci c = Some ch'" using stc ch' by auto
    then show ?thesis using that False stored_range(1) [OF d(1)] rangedD(3) [OF d(4)] by (metis order_refl)
  qed
qed

text \<open>The heights of the main chain, of the fork and of the other chains.\<close>

lemma main_heights:
  assumes r: "reorg bh ix ci n fork main ps q"
  shows "(\<exists>b. stored bh b \<and> rb_chain_id (upd (bc_chain_id fork) (set ps) b) = 0 \<and> rb_block_height b = h)
     \<longleftrightarrow> bc_start_height main \<le> h \<and> h \<le> bc_max_height fork" (is "?L \<longleftrightarrow> ?R")
proof
  note d = reorgD [OF r] and fp = fork_point [OF r]
  assume ?L
  then obtain b where b: "stored bh b" "rb_chain_id (upd (bc_chain_id fork) (set ps) b) = 0" "rb_block_height b = h" by blast
  then consider "b \<in> set ps" | "rb_chain_id b = 0" "h \<le> rb_block_height q"
    using new_chain(1) [OF r b(1)] d(10) by (auto split: if_splits)
  then show ?R
  proof cases
    case 1
    then show ?thesis using path_height_iff [OF d(6), of h] b(3) d(14) fp by auto
  next
    case 2
    then show ?thesis using stored_range [OF d(1) b(1)] d(9,11) b(3) by auto
  qed
next
  note d = reorgD [OF r] and fp = fork_point [OF r] and nc = new_chain [OF r]
  assume h: ?R
  show ?L
  proof (cases "h \<le> rb_block_height q")
    case True
    then obtain b where "stored bh b" "rb_chain_id b = 0" "rb_block_height b = h"
      using block_at [OF d(1,9), of h] h fp(2) by auto
    then show ?thesis using nc(1,2) True by metis
  next
    case False
    then obtain p where "p \<in> set ps" "rb_block_height p = h" using path_height_iff [OF d(6), of h] h d(14) by auto
    then show ?thesis using nc(1) path_stored [OF d(6)] by metis
  qed
qed

lemma fork_heights:
  assumes r: "reorg bh ix ci n fork main ps q"
  shows "(\<exists>b. stored bh b \<and> rb_chain_id (upd (bc_chain_id fork) (set ps) b) = bc_chain_id fork \<and> rb_block_height b = h)
     \<longleftrightarrow> Suc (rb_block_height q) \<le> h \<and> h \<le> bc_max_height main" (is "?L \<longleftrightarrow> ?R")
proof
  note d = reorgD [OF r]
  assume ?L
  then obtain b where b: "stored bh b" "rb_chain_id (upd (bc_chain_id fork) (set ps) b) = bc_chain_id fork" "rb_block_height b = h"
    by blast
  then have "rb_chain_id b = 0" "rb_block_height q < h" using new_chain [OF r b(1)] d(10) by (auto split: if_splits)
  then show ?R using stored_range(2) [OF d(1) b(1)] d(9) b(3) by simp
next
  note d = reorgD [OF r]
  assume h: ?R
  then obtain b where b: "stored bh b" "rb_chain_id b = 0" "rb_block_height b = h"
    using block_at [OF d(1,9), of h] fork_point(1) [OF r] by auto
  then have "rb_chain_id (upd (bc_chain_id fork) (set ps) b) = bc_chain_id fork" using new_chain(1,2) [OF r b(1)] h by auto
  then show ?L using b by blast
qed

lemma other_heights:
  assumes r: "reorg bh ix ci n fork main ps q" and c: "c \<noteq> 0" "c \<noteq> bc_chain_id fork"
  shows "(\<exists>b. stored bh b \<and> rb_chain_id (upd (bc_chain_id fork) (set ps) b) = c \<and> rb_block_height b = h)
     \<longleftrightarrow> (\<exists>b. stored bh b \<and> b \<notin> set ps \<and> rb_chain_id b = c \<and> rb_block_height b = h)"
  using new_chain(1) [OF r] c by (metis (no_types, lifting))

definition chain_ok :: "hashes_index \<Rightarrow> chains_index \<Rightarrow> nat \<Rightarrow> nat \<Rightarrow> bool" where
  "chain_ok ix ci n c \<longleftrightarrow> (case ci c of
     None \<Rightarrow> n \<le> c \<and> (\<forall>h. ix (c, h) = None)
   | Some ch \<Rightarrow> c < n \<and> bc_chain_id ch = c \<and> bc_start_height ch \<le> bc_max_height ch
       \<and> (\<forall>h. ix (c, h) \<noteq> None \<longleftrightarrow> bc_start_height ch \<le> h \<and> h \<le> bc_max_height ch))"

lemma other_ranged:
  assumes r: "reorg bh ix ci n fork main ps q" and st: "ci_stage (bc_chain_id fork) (set ps) ci ci'"
    and c: "c \<noteq> 0" "c \<noteq> bc_chain_id fork"
    and ix': "\<And>h. ix' (c, h) \<noteq> None \<longleftrightarrow> (\<exists>b. stored bh b \<and> b \<notin> set ps \<and> rb_chain_id b = c \<and> rb_block_height b = h)"
  shows "chain_ok ix' ci' n c"
proof (cases "ci' c")
  case None
  note d = reorgD [OF r]
  have none: "ci c = None" using None st c unfolding ci_stage_def by (metis option.map_disc_iff)
  then have "n \<le> c" using d(4) [unfolded ranged_def, rule_format, of c] by simp
  moreover have "ix' (c, h) = None" for h
    using ix' [of h] forest_chain [OF d(1)] none unfolding stored_def by (metis option.distinct(1))
  ultimately show ?thesis using None by (simp add: chain_ok_def)
next
  case (Some ch')
  note d = reorgD [OF r]
  obtain ch where ch: "ci c = Some ch" "bc_chain_id ch' = bc_chain_id ch" "bc_max_height ch' = bc_max_height ch"
    "bc_start_height ch' \<le> bc_max_height ch" "bc_start_height ch \<le> bc_start_height ch'"
    "\<And>b. stored bh b \<Longrightarrow> rb_chain_id b = c \<Longrightarrow> b \<notin> set ps \<longleftrightarrow> bc_start_height ch' \<le> rb_block_height b"
    using other_chain [OF r st c Some] by metis
  have "ix' (c, h) \<noteq> None \<longleftrightarrow> bc_start_height ch' \<le> h \<and> h \<le> bc_max_height ch'" for h
  proof
    assume "ix' (c, h) \<noteq> None"
    then obtain b where "stored bh b" "b \<notin> set ps" "rb_chain_id b = c" "rb_block_height b = h" using ix' by blast
    then show "bc_start_height ch' \<le> h \<and> h \<le> bc_max_height ch'"
      using ch(1,3) ch(6) [of b] stored_range(2) [OF d(1), of b] by simp
  next
    assume h: "bc_start_height ch' \<le> h \<and> h \<le> bc_max_height ch'"
    then obtain b where "stored bh b" "rb_chain_id b = c" "rb_block_height b = h"
      using block_at [OF d(1) ch(1), of h] ch(3,5) by auto
    then show "ix' (c, h) \<noteq> None" using ix' ch(6) h by blast
  qed
  then show ?thesis using Some ch rangedD(1,2) [OF d(4) ch(1)] by (simp add: chain_ok_def)
qed

lemma ranged_reorg:
  assumes r: "reorg bh ix ci n fork main ps q" and x: "reorganised bh ci fork main ps q bh' ix' ci'"
  shows "ranged ix' ci' n"
proof -
  let ?F = "bc_chain_id fork"
  note d = reorgD [OF r]
  have x': "bh' = moved ?F (set ps) bh" "indexed bh' ix'" "ci_stage ?F (set ps) ci ci'"
    "ci' 0 = Some (main\<lparr>bc_max_height := bc_max_height fork\<rparr>)" "ci' ?F = Some (rest_of_main main q fork)"
    using x by (auto simp: reorganised_def)
  note idx = moved_index [OF x'(2) [unfolded x'(1)] d(3)]
  have "chain_ok ix' ci' n c" for c
  proof -
    consider "c = 0" | "c = ?F" | "c \<noteq> 0" "c \<noteq> ?F" by blast
    then show ?thesis
    proof cases
      case 1
      then show ?thesis using x'(4) rangedD(1-3) [OF d(4,9)] d(11) idx main_heights [OF r] by (simp add: chain_ok_def)
    next
      case 2
      then show ?thesis using x'(5) rangedD(1) [OF d(4,8)] fork_point(2) [OF r] idx fork_heights [OF r]
        by (simp add: chain_ok_def rest_of_main_def)
    next
      case 3
      then show ?thesis using other_ranged [OF r x'(3) 3] idx other_heights [OF r 3] by simp
    qed
  qed
  then show ?thesis by (simp add: ranged_def chain_ok_def)
qed

subsection \<open>Links\<close>

lemma reorganisedD:
  assumes "reorganised bh ci fork main ps q bh' ix' ci'"
  shows "bh' = moved (bc_chain_id fork) (set ps) bh" "indexed bh' ix'" "ci_stage (bc_chain_id fork) (set ps) ci ci'"
    "ci' 0 = Some (main\<lparr>bc_max_height := bc_max_height fork\<rparr>)" "ci' (bc_chain_id fork) = Some (rest_of_main main q fork)"
  using assms by (auto simp: reorganised_def)

text \<open>A block below the tip of its chain is below the tip of its new chain.\<close>

lemma path_below_tip:
  assumes r: "reorg bh ix ci n fork main ps q" and p: "p \<in> set ps" and ch: "ci (rb_chain_id p) = Some ch"
    and lt: "rb_block_height p < bc_max_height ch"
  shows "rb_block_height p < bc_max_height fork"
proof (cases "rb_chain_id p = bc_chain_id fork")
  case True
  then show ?thesis using lt ch reorgD(8) [OF r] by simp
next
  case False
  note d = reorgD [OF r]
  have "rb_block_height p \<le> bc_max_height fork" using path_height_iff [OF d(6), of "rb_block_height p"] p d(14) by auto
  moreover have "rb_block_height p \<noteq> bc_max_height fork" using path_unique [OF d(6) p d(12)] d(13,14) False by auto
  ultimately show ?thesis by simp
qed

lemma new_below_tip:
  assumes r: "reorg bh ix ci n fork main ps q" and x: "reorganised bh ci fork main ps q bh' ix' ci'"
    and p: "stored bh p" and ch: "ci (rb_chain_id p) = Some ch" and lt: "rb_block_height p < bc_max_height ch"
  shows "\<exists>ch'. ci' (rb_chain_id (upd (bc_chain_id fork) (set ps) p)) = Some ch' \<and> rb_block_height p < bc_max_height ch'"
proof -
  note d = reorgD [OF r] and x' = reorganisedD [OF x] and nc = new_chain [OF r p]
  consider "p \<in> set ps" | "p \<notin> set ps" "rb_chain_id p = 0" | "p \<notin> set ps" "rb_chain_id p \<noteq> 0" by blast
  then show ?thesis
  proof cases
    case 1
    then show ?thesis using nc(1) x'(4) path_below_tip [OF r 1 ch lt] by simp
  next
    case 2
    then show ?thesis using nc(1) x'(4,5) ch lt d(9,11) by (simp add: rest_of_main_def)
  next
    case 3
    then have c: "rb_chain_id p \<noteq> bc_chain_id fork" using nc(3) by blast
    have "\<exists>ch'. ci' (rb_chain_id p) = Some ch' \<and> bc_max_height ch' = bc_max_height ch"
      using x'(3) [unfolded ci_stage_def, rule_format, OF 3(2) c] ch by (auto split: if_splits)
    then show ?thesis using nc(1) 3 lt by auto
  qed
qed

lemma path_parent: "path bh ps q \<Longrightarrow> p \<in> set ps \<Longrightarrow> \<exists>p'. parent_of bh p p' \<and> (p' \<in> set ps \<or> p' = q)"
  by (induction bh ps q rule: path.induct) auto

lemma main_link:
  assumes f: "forest bh ix ci n" and b: "stored bh b" and ch: "ci (rb_chain_id b) = Some ch" "bc_start_height ch < rb_block_height b"
  obtains p where "parent_of bh b p" "stored bh p" "rb_chain_id p = rb_chain_id b"
proof -
  have "linked bh ci" "hashed bh" using f by (auto simp: forest_def)
  then have "link_ok bh ci b ch" using b ch unfolding linked_def stored_def by blast
  then obtain p where p: "parent_of bh b p" "rb_chain_id p = rb_chain_id b" using ch(2) by (auto simp: link_ok_def)
  then show ?thesis using that storedI [OF \<open>hashed bh\<close>] by (auto simp: parent_of_def)
qed

lemma link_reorg_main:
  assumes r: "reorg bh ix ci n fork main ps q" and x: "reorganised bh ci fork main ps q bh' ix' ci'"
    and b: "stored bh b" and m: "b \<in> set ps \<or> rb_chain_id b = 0" and ch': "ci' (rb_chain_id (upd (bc_chain_id fork) (set ps) b)) = Some ch'"
  shows "link_ok bh' ci' (upd (bc_chain_id fork) (set ps) b) ch'"
proof -
  let ?u = "upd (bc_chain_id fork) (set ps)"
  note d = reorgD [OF r] and x' = reorganisedD [OF x] and nc = new_chain [OF r] and fp = fork_point [OF r]
  have up: "parent_of bh b p \<Longrightarrow> parent_of bh' (?u b) (?u p)" for p unfolding x'(1) by (rule moved_parent)
  consider (path) "b \<in> set ps" | (low) "b \<notin> set ps" "rb_chain_id b = 0" "rb_block_height b \<le> rb_block_height q"
    | (high) "b \<notin> set ps" "rb_chain_id b = 0" "rb_block_height q < rb_block_height b" using m by force
  then show ?thesis
  proof cases
    case path
    then obtain p where p: "parent_of bh b p" "p \<in> set ps \<or> p = q" using path_parent [OF d(6)] by blast
    then have "stored bh p" using d(7) path_stored [OF d(6)] by blast
    then have "rb_chain_id (?u p) = 0" using nc(1) p(2) d(15) by auto
    moreover have "bc_start_height main < rb_block_height b" using path_height_iff [OF d(6), of "rb_block_height b"] path fp by force
    ultimately show ?thesis using up [OF p(1)] ch' x'(4) nc(1) [OF b] path by (auto simp: link_ok_def)
  next
    case low
    then have c0: "rb_chain_id (?u b) = 0" using nc(1) [OF b] by simp
    show ?thesis
    proof (cases "bc_start_height main < rb_block_height b")
      case True
      then obtain p where p: "parent_of bh b p" "stored bh p" "rb_chain_id p = 0" using main_link [OF d(1) b] low(2) d(9) by metis
      then have "rb_chain_id (?u p) = 0" using nc(1) [OF p(2)] low(3) by (simp add: parent_of_def)
      then show ?thesis using up [OF p(1)] c0 ch' x'(4) True by (auto simp: link_ok_def)
    next
      case False
      then show ?thesis using c0 ch' x'(4) by (auto simp: link_ok_def)
    qed
  next
    case high
    then have cF: "rb_chain_id (?u b) = bc_chain_id fork" using nc(1) [OF b] by simp
    have "bc_start_height main < rb_block_height b" using high(3) fp(1) by simp
    then obtain p where p: "parent_of bh b p" "stored bh p" "rb_chain_id p = 0" using main_link [OF d(1) b] high(2) d(9) by metis
    then have h: "rb_block_height b = Suc (rb_block_height p)" "p \<notin> set ps" using path_stored [OF d(6), of p] by (auto simp: parent_of_def)
    have "rb_block_height p < bc_max_height main" using stored_range(2) [OF d(1) b] high(2) d(9) h(1) by simp
    then have "\<exists>ch. ci' (rb_chain_id (?u p)) = Some ch \<and> rb_block_height p < bc_max_height ch"
      using new_below_tip [OF r x p(2)] p(3) d(9) by simp
    moreover have "rb_chain_id (?u p) = (if rb_block_height p \<le> rb_block_height q then 0 else bc_chain_id fork)"
      using nc(1) [OF p(2)] p(3) h(2) by simp
    ultimately show ?thesis using up [OF p(1)] cF ch' x'(5) h(1) d(10) high(3)
      by (auto simp: link_ok_def rest_of_main_def split: if_splits)
  qed
qed

lemma link_reorg_other:
  assumes r: "reorg bh ix ci n fork main ps q" and x: "reorganised bh ci fork main ps q bh' ix' ci'"
    and b: "stored bh b" and m: "b \<notin> set ps" "rb_chain_id b \<noteq> 0" and ch': "ci' (rb_chain_id (upd (bc_chain_id fork) (set ps) b)) = Some ch'"
  shows "link_ok bh' ci' (upd (bc_chain_id fork) (set ps) b) ch'"
proof -
  let ?u = "upd (bc_chain_id fork) (set ps)" and ?c = "rb_chain_id b"
  note d = reorgD [OF r] and x' = reorganisedD [OF x] and nc = new_chain [OF r]
  have up: "parent_of bh b p \<Longrightarrow> parent_of bh' (?u b) (?u p)" for p unfolding x'(1) by (rule moved_parent)
  have c: "?c \<noteq> bc_chain_id fork" "rb_chain_id (?u b) = ?c" using nc(1,3) [OF b] m by auto
  obtain ch where ch: "ci ?c = Some ch" "bc_start_height ch \<le> bc_start_height ch'"
    "\<And>b. stored bh b \<Longrightarrow> rb_chain_id b = ?c \<Longrightarrow> b \<notin> set ps \<longleftrightarrow> bc_start_height ch' \<le> rb_block_height b"
    using other_chain [OF r x'(3) m(2) c(1)] ch' c(2) by metis
  obtain p where p: "parent_of bh b p" "stored bh p" "rb_chain_id p = ?c \<longleftrightarrow> bc_start_height ch < rb_block_height b"
    "\<And>ch. rb_chain_id p \<noteq> ?c \<Longrightarrow> ci (rb_chain_id p) = Some ch \<Longrightarrow> rb_block_height p < bc_max_height ch"
    using forest_parent [OF d(1) b m(2)] ch(1) by metis
  have h: "rb_block_height b = Suc (rb_block_height p)" using p(1) by (simp add: parent_of_def)
  obtain chp where chp: "ci (rb_chain_id p) = Some chp" using forest_chain [OF d(1)] p(2) unfolding stored_def by metis
  have "rb_block_height p < bc_max_height chp"
    using p(4) [OF _ chp] stored_range(2) [OF d(1) b ch(1)] ch(1) chp h by (cases "rb_chain_id p = ?c") auto
  then have tip: "\<exists>ch. ci' (rb_chain_id (?u p)) = Some ch \<and> rb_block_height p < bc_max_height ch"
    by (rule new_below_tip [OF r x p(2) chp])
  have "bc_start_height ch' \<le> rb_block_height b" using ch(3) [OF b] m(1) by simp
  moreover have "rb_chain_id (?u p) = ?c" if "bc_start_height ch' < rb_block_height b"
  proof -
    have same: "rb_chain_id p = ?c" using p(3) that ch(2) by simp
    then have "p \<notin> set ps" using ch(3) [OF p(2)] that h by simp
    then show ?thesis using nc(1) [OF p(2)] same m(2) by simp
  qed
  moreover have "rb_chain_id (?u p) \<noteq> ?c" if "\<not> bc_start_height ch' < rb_block_height b"
  proof (cases "rb_chain_id p = ?c")
    case True
    then have "p \<in> set ps" using ch(3) [OF p(2)] that h by simp
    then show ?thesis using nc(1) [OF p(2)] m(2) by simp
  next
    case False
    then show ?thesis using nc(1) [OF p(2)] m(2) c(1) by auto
  qed
  ultimately show ?thesis using up [OF p(1)] tip c(2) by (auto simp: link_ok_def)
qed

lemma forest_reorg:
  assumes r: "reorg bh ix ci n fork main ps q" and x: "reorganised bh ci fork main ps q bh' ix' ci'"
  shows "forest bh' ix' ci' n"
proof -
  note d = reorgD [OF r] and x' = reorganisedD [OF x]
  have "linked bh' ci'"
    unfolding linked_def
  proof (intro allI impI)
    fix k r' ch'
    assume k: "bh' k = Some r'" and ch': "ci' (rb_chain_id r') = Some ch'"
    then obtain b where b: "stored bh b" "r' = upd (bc_chain_id fork) (set ps) b"
      using moved_stored [OF d(3)] x'(1) by metis
    then show "link_ok bh' ci' r' ch'"
      using link_reorg_main [OF r x b(1)] link_reorg_other [OF r x b(1)] ch' by blast
  qed
  then show ?thesis
    using x'(2) moved_hashed [OF d(3)] ranged_reorg [OF r x] x'(1) by (simp add: forest_def)
qed

end
