(* ===== verification/BTC_Relay_Invariant.thy ===== *)
theory BTC_Relay_Invariant
  imports BTC_Relay_Swap "HOL-Library.Multiset"
begin

text \<open>
  The invariant of the relay's storage. \<open>initialize\<close> establishes it and \<open>store_block_header\<close> keeps it
  on every branch: a block that extends the main chain, one that extends a fork, one that starts a
  fork, and one that makes a fork the new main chain. Storing a header fails only for the reasons that
  the guards state: no lookup inside the loops fails, and the loops end.
\<close>

definition ordered :: "('acc, 'x) relay_scheme \<Rightarrow> bool" where
  "ordered s \<longleftrightarrow> (\<exists>forks. chain_order s (0 # forks) \<and> distinct (0 # forks) \<and> set (0 # forks) = {..<ChainCounter s})"

definition headed :: "('acc, 'x) relay_scheme \<Rightarrow> bool" where
  "headed s \<longleftrightarrow> (\<exists>main k. ChainsIndex s 0 = Some main \<and> ChainsHashes s (0, bc_max_height main) = Some k
     \<and> BestBlock s = Some k \<and> BestBlockHeight s = bc_max_height main)"

definition relay_inv :: "('acc, 'x) relay_scheme \<Rightarrow> bool" where
  "relay_inv s \<longleftrightarrow> forest (BlockHeaders s) (ChainsHashes s) (ChainsIndex s) (ChainCounter s)
     \<and> ordered s \<and> headed s \<and> ChainCounter s < 2 ^ 32"

text \<open>
  What is stored of a header apart from its chain: the header, its height and the parachain height at
  which it was stored. Reorganisation keeps it, and the best height never decreases.
\<close>

definition content :: "('acc, 'x) relay_scheme \<Rightarrow> h256le \<rightharpoonup> block_header \<times> nat \<times> nat" where
  "content s = (\<lambda>k. map_option (\<lambda>rh. (rb_block_header rh, rb_block_height rh, rb_para_height rh)) (BlockHeaders s k))"

definition progress :: "('acc, 'x) relay_scheme \<Rightarrow> ('acc, 'x) relay_scheme \<Rightarrow> bool" where
  "progress s s' \<longleftrightarrow> content s' = content s \<and> BestBlockHeight s \<le> BestBlockHeight s'"

lemma progress_refl [simp]: "progress s s"
  by (simp add: progress_def)

lemma progress_events [simp]: "progress s (s'\<lparr>relay_events := es\<rparr>) = progress s s'"
  by (simp add: progress_def content_def)

lemma content_store:
  "BlockHeaders s' = (BlockHeaders s)(k \<mapsto> rich_block_header_new header c h n) \<Longrightarrow> content s' = (content s)(k \<mapsto> (header, h, n))"
  by (auto simp: content_def rich_block_header_new_def)

abbreviation stored_forest :: "('acc, 'x) relay_scheme \<Rightarrow> bool" where
  "stored_forest s \<equiv> forest (BlockHeaders s) (ChainsHashes s) (ChainsIndex s) (ChainCounter s)"

lemma relay_inv_events [simp]: "relay_inv (s\<lparr>relay_events := es\<rparr>) = relay_inv s"
  by (simp add: relay_inv_def ordered_def headed_def chain_order_def)

lemma relay_inv_chains:
  assumes "relay_inv s" and "chain_order (s\<lparr>Chains := al\<rparr>) (0 # forks')" and "mset forks' = mset forks"
    and "distinct (0 # forks)" and "set (0 # forks) = {..<ChainCounter s}"
  shows "relay_inv (s\<lparr>Chains := al\<rparr>)"
proof -
  have "distinct forks' = distinct forks" "set forks' = set forks"
    using assms(3) by (metis mset_eq_imp_distinct_iff, metis mset_eq_setD)
  then have "ordered (s\<lparr>Chains := al\<rparr>)" using assms by (auto simp: ordered_def intro!: exI [of _ forks'])
  then show ?thesis using assms(1) by (simp add: relay_inv_def headed_def)
qed

lemma forest_ids: "stored_forest s \<Longrightarrow> set ids = {..<ChainCounter s} \<Longrightarrow> c \<in> set ids \<Longrightarrow> \<exists>ch. ChainsIndex s c = Some ch"
  by (auto simp: forest_def ranged_def split: option.splits)

subsection \<open>Positions\<close>

lemma position_of_chain:
  assumes "chain_order s ids" and "distinct ids" and "i < length ids"
  shows "get_chain_position_from_chain_id s (ids ! i) = Inr i"
proof -
  have d: "distinct (map fst (Chains s))" and m: "\<And>k. map_of (Chains s) k = (if k < length ids then Some (ids ! k) else None)"
    using assms(1) by (auto simp: chain_order_def)
  have mem: "(i, ids ! i) \<in> set (Chains s)" using m [of i] assms(3) by (auto dest: map_of_SomeD)
  show ?thesis
  proof (cases "find (\<lambda>(k, v). v = ids ! i) (Chains s)")
    case None
    then show ?thesis using mem by (auto simp: find_None_iff)
  next
    case (Some kv)
    then have "kv \<in> set (Chains s)" "snd kv = ids ! i"
      by (auto simp: find_Some_iff) (metis nth_mem)
    then have "map_of (Chains s) (fst kv) = Some (ids ! i)" using d by (metis map_of_is_SomeI prod.collapse)
    then have "fst kv = i" using m [of "fst kv"] assms(2,3) by (auto simp: nth_eq_iff_index_eq split: if_splits)
    then show ?thesis using Some by (auto simp: get_chain_position_from_chain_id_def split: prod.split)
  qed
qed

lemma position_of_fork:
  assumes "chain_order s (0 # forks)" and "distinct (0 # forks)" and "c \<in> set (0 # forks)" and "c \<noteq> 0"
  obtains i where "get_chain_position_from_chain_id s c = Inr i" "0 < i" "i < length (0 # forks)" "(0 # forks) ! i = c"
proof -
  obtain i where i: "i < length (0 # forks)" "(0 # forks) ! i = c" using assms(3) by (metis in_set_conv_nth)
  moreover have "0 < i" using i assms(4) by (cases i) auto
  ultimately show ?thesis using that position_of_chain [OF assms(1,2) i(1)] by simp
qed

text \<open>Swapping two forks.\<close>

lemma swap_forks:
  assumes "chain_order s (0 # forks)" and "0 < i" and "i < length (0 # forks)" and "0 < j" and "j < length (0 # forks)"
  shows "\<exists>al forks'. swap_chain i j s = s\<lparr>Chains := al\<rparr> \<and> chain_order (s\<lparr>Chains := al\<rparr>) (0 # forks')
     \<and> mset forks' = mset forks"
proof -
  obtain i' j' where ij: "i = Suc i'" "j = Suc j'" using assms(2,4) by (metis gr0_implies_Suc)
  obtain al where al: "swap_chain i j s = s\<lparr>Chains := al\<rparr>" by (simp add: swap_chain_def Let_def)
  let ?f = "forks[i' := forks ! j', j' := forks ! i']"
  have "chain_order (s\<lparr>Chains := al\<rparr>) (0 # ?f)" using chain_order_swap [OF assms(1,3,5)] al ij by simp
  moreover have "mset ?f = mset forks" using assms(3,5) ij by (simp add: mset_swap)
  ultimately show ?thesis using al by blast
qed

lemma position_chain:
  assumes "chain_order s ids" and "i < length ids" and "\<forall>c \<in> set ids. \<exists>ch. ChainsIndex s c = Some ch"
  obtains ch where "get_chain_id_from_position s i = Inr (ids ! i)" "get_block_chain_from_id s (ids ! i) = Inr ch"
    "ChainsIndex s (ids ! i) = Some ch"
proof -
  obtain ch where "ChainsIndex s (ids ! i) = Some ch" using assms(3) nth_mem [OF assms(2)] by blast
  then show ?thesis
    using that assms(1,2) by (simp add: chain_order_def get_chain_id_from_position_def get_block_chain_from_id_def)
qed

lemma bubble_right_order:
  assumes "chain_order s (0 # forks)" and "0 < i" and "i < length (0 # forks)"
    and "\<forall>c \<in> set (0 # forks). \<exists>ch. ChainsIndex s c = Some ch"
  shows "\<exists>al forks'. bubble_right i s = Inr ((), s\<lparr>Chains := al\<rparr>) \<and> chain_order (s\<lparr>Chains := al\<rparr>) (0 # forks')
     \<and> mset forks' = mset forks"
  using assms
proof (induction i s arbitrary: forks rule: bubble_right.induct)
  case (1 i s)
  have stop: "\<exists>al forks'. Inr ((), s) = (Inr ((), s\<lparr>Chains := al\<rparr>) :: (relay_error, unit \<times> ('a, 'b) relay_scheme) result)
      \<and> chain_order (s\<lparr>Chains := al\<rparr>) (0 # forks') \<and> mset forks' = mset forks"
    using "1.prems"(1) by (intro exI [of _ "Chains s"] exI [of _ forks]) simp
  show ?case
  proof (cases "\<not> i < 2 ^ 32 - 2 \<or> map_of (Chains s) (i + 1) = None")
    case True
    then show ?thesis using stop by (subst bubble_right.simps) auto
  next
    case False
    then have len: "i + 1 < length (0 # forks)" using "1.prems"(1) by (auto simp: chain_order_def split: if_splits)
    obtain c1 where c1: "get_chain_id_from_position s i = Inr ((0 # forks) ! i)" "get_block_chain_from_id s ((0 # forks) ! i) = Inr c1"
      using position_chain [OF "1.prems"(1,3,4)] .
    obtain c2 where c2: "get_chain_id_from_position s (i + 1) = Inr ((0 # forks) ! (i + 1))"
      "get_block_chain_from_id s ((0 # forks) ! (i + 1)) = Inr c2"
      using position_chain [OF "1.prems"(1) len "1.prems"(4)] .
    show ?thesis
    proof (cases "bc_max_height c1 < bc_max_height c2")
      case True
      obtain al forks' where sw: "swap_chain i (i + 1) s = s\<lparr>Chains := al\<rparr>" "chain_order (s\<lparr>Chains := al\<rparr>) (0 # forks')"
        "mset forks' = mset forks" using swap_forks [OF "1.prems"(1,2,3) _ len] by auto
      have "length forks' = length forks" "set forks' = set forks" using sw(3) by (metis size_mset, metis mset_eq_setD)
      then obtain al' forks'' where "bubble_right (i + 1) (s\<lparr>Chains := al\<rparr>) = Inr ((), s\<lparr>Chains := al'\<rparr>)"
        "chain_order (s\<lparr>Chains := al'\<rparr>) (0 # forks'')" "mset forks'' = mset forks'"
        using "1.IH" [OF False _ _ True, of forks'] c1 c2 sw len "1.prems"(4) by auto
      then show ?thesis using False c1 c2 True sw by (subst bubble_right.simps) auto
    next
      case stay: False
      then show ?thesis using False c1 c2 stop by (subst bubble_right.simps) auto
    qed
  qed
qed

subsection \<open>The main chain is replaced\<close>

lemma tip_path:
  assumes f: "forest bh ix ci n" and fork: "ci (bc_chain_id fork) = Some fork" "bc_chain_id fork \<noteq> 0"
    and main: "ci 0 = Some main" "bc_max_height main < bc_max_height fork"
  obtains p ps q where "reorg bh ix ci n fork main (p # ps) q"
    "ix (bc_chain_id fork, bc_max_height fork) = Some (bh_hash (rb_block_header p))" "stored bh p"
proof -
  have d: "indexed bh ix" "hashed bh" "ranged ix ci n" using f by (auto simp: forest_def)
  obtain p where p: "stored bh p" "rb_chain_id p = bc_chain_id fork" "rb_block_height p = bc_max_height fork"
    using block_at [OF f fork(1)] rangedD(3) [OF d(3) fork(1)] by blast
  then obtain ps q where "path bh (p # ps) q" "stored bh q" using path_exists [OF f] fork(2) by metis
  then have "reorg bh ix ci n fork main (p # ps) q" using f p fork main by (simp add: reorg_def)
  moreover have "ix (bc_chain_id fork, bc_max_height fork) = Some (bh_hash (rb_block_header p))"
    using indexedD [OF d(1), of _ p] p by (simp add: stored_def)
  ultimately show ?thesis using that p(1) by blast
qed

lemma path_head_parent: "path bh (p # ps) q \<Longrightarrow> parent_of bh p (hd (ps @ [q]))"
  by (cases ps) auto

lemma path_length: "path bh ps q \<Longrightarrow> length ps \<le> rb_block_height (hd ps)"
  using path_heights [of bh ps q] by (metis (no_types, lifting) diff_le_self diff_Suc_Suc length_map length_rev length_upt)

lemma ci_stage_main: "ci_stage f E ci ci' \<Longrightarrow> ci_stage f E ci (ci'(0 \<mapsto> x))"
  by (simp add: ci_stage_def)

lemma swap_main_blockchain_inv:
  assumes inv: "relay_inv s"
    and fork: "ChainsIndex s (bc_chain_id fork) = Some fork" "bc_chain_id fork \<noteq> 0"
    and main: "ChainsIndex s 0 = Some main" "bc_max_height main < bc_max_height fork"
  shows "\<exists>k s'. swap_main_blockchain fork s = Inr ((k, bc_max_height fork), s') \<and> relay_inv s' \<and> progress s s'
     \<and> ChainsHashes s (bc_chain_id fork, bc_max_height fork) = Some k
     \<and> BestBlock s' = Some k \<and> BestBlockHeight s' = bc_max_height fork"
proof -
  let ?bh = "BlockHeaders s" and ?ix = "ChainsHashes s" and ?ci = "ChainsIndex s" and ?F = "bc_chain_id fork"
  have f: "stored_forest s" and o: "ordered s" and small: "ChainCounter s < 2 ^ 32"
    and best: "BestBlockHeight s = bc_max_height main" using inv main(1) by (auto simp: relay_inv_def headed_def)
  obtain p ps q where r: "reorg ?bh ?ix ?ci (ChainCounter s) fork main (p # ps) q"
    and tip: "?ix (?F, bc_max_height fork) = Some (bh_hash (rb_block_header p))" and sp: "stored ?bh p"
    using tip_path [OF f fork main] .
  note d = reorgD [OF r]
  let ?k = "bh_hash (rb_block_header p)"
  define s0 where "s0 = s\<lparr>BestBlock := Some ?k, BestBlockHeight := bc_max_height fork\<rparr>"
  have link: "parent_link s0 p = Inr (hd (ps @ [q]))"
    using path_head_parent [OF d(6)] by (simp add: s0_def parent_link_def get_block_header_from_hash_def parent_of_def)
  have "length ps < Suc (bc_max_height fork)" using path_length [OF d(6)] d(14) by simp
  then obtain s1 where s1: "swap_links (Suc (bc_max_height fork)) fork p (hd (ps @ [q])) s0 = Inr ((), s1)" "kept s0 s1"
    "BlockHeaders s1 = moved ?F (set (p # ps)) ?bh" "indexed (BlockHeaders s1) (ChainsHashes s1)"
    "ci_stage ?F (set (p # ps)) ?ci (ChainsIndex s1)" "ChainsIndex s1 0 = Some main"
    "ChainsIndex s1 ?F = Some (rest_of_main main q fork)"
    using swap_links_path [OF r, of "[]" p ps "Suc (bc_max_height fork)" s0] d(2,8,9,13)
    by (auto simp: s0_def ci_stage_def)
  define s2 where "s2 = set_block_chain_from_id 0 (main\<lparr>bc_max_height := bc_max_height fork\<rparr>) s1"
  have flds: "Chains s2 = Chains s" "ChainCounter s2 = ChainCounter s" "BestBlock s2 = Some ?k" "BestBlockHeight s2 = bc_max_height fork"
    "ChainsHashes s2 = ChainsHashes s1" "BlockHeaders s2 = BlockHeaders s1"
    using s1(2) by (auto simp: kept_def s2_def set_block_chain_from_id_def s0_def)
  have x: "reorganised ?bh ?ci fork main (p # ps) q (BlockHeaders s2) (ChainsHashes s2) (ChainsIndex s2)"
    using s1(3,4,6,7) ci_stage_main [OF s1(5)] d(10)
    by (simp add: reorganised_def s2_def set_block_chain_from_id_def MAIN_CHAIN_ID_def)
  note fo = forest_reorg [OF r x]
  have "ChainsHashes s2 (0, bc_max_height fork) = Some ?k"
  proof -
    have "rb_chain_id (upd ?F (set (p # ps)) p) = 0" by (simp add: upd_def)
    moreover have "BlockHeaders s2 ?k = Some (upd ?F (set (p # ps)) p)" using s1(3) flds(6) sp by (simp add: moved_def stored_def)
    ultimately show ?thesis using indexedD [OF reorganisedD(2) [OF x]] d(14) by force
  qed
  then have hd: "headed s2" using flds reorganisedD(4) [OF x] by (auto simp: headed_def)
  obtain forks where forks: "chain_order s2 (0 # forks)" "distinct (0 # forks)" "set (0 # forks) = {..<ChainCounter s}"
    using o flds(1) chain_order_cong [of s2 s] by (auto simp: ordered_def)
  then have inv2: "relay_inv s2" using fo hd small flds by (auto simp: relay_inv_def ordered_def)
  have "?F \<in> set (0 # forks)" using forks(3) rangedD(1) [OF d(4,8)] by simp
  then obtain i where i: "get_chain_position_from_chain_id s2 ?F = Inr i" "0 < i" "i < length (0 # forks)"
    using position_of_fork [OF forks(1,2) _ d(10)] by metis
  obtain al forks' where b: "bubble_right i s2 = Inr ((), s2\<lparr>Chains := al\<rparr>)" "chain_order (s2\<lparr>Chains := al\<rparr>) (0 # forks')"
    "mset forks' = mset forks"
    using bubble_right_order [OF forks(1) i(2,3)] forest_ids [of s2 "0 # forks"] fo forks(3) flds(2) by metis
  have "swap_main_blockchain fork s = Inr ((?k, bc_max_height fork), s2\<lparr>Chains := al\<rparr>)"
    using tip sp link s1(1,6) i(1) b(1)
    by (simp add: swap_main_blockchain_def get_block_hash_def get_block_header_from_hash_def s0_def [symmetric] s2_def [symmetric]
        get_block_chain_from_id_def MAIN_CHAIN_ID_def stored_def)
  moreover have "relay_inv (s2\<lparr>Chains := al\<rparr>)" using relay_inv_chains [OF inv2 b(2,3) forks(2)] forks(3) flds(2) by simp
  moreover have "progress s (s2\<lparr>Chains := al\<rparr>)"
    using main(2) best flds(4,6) s1(3) by (simp add: progress_def content_def moved_def option.map_comp comp_def)
  ultimately show ?thesis using tip flds by simp
qed

subsection \<open>A fork grows\<close>

lemma reorganize_loop_inv:
  assumes "relay_inv s" and "ChainsIndex s (bc_chain_id fork) = Some fork" and "bc_chain_id fork \<noteq> 0"
    and "chain_order s (0 # forks)" and "distinct (0 # forks)" and "set (0 # forks) = {..<ChainCounter s}"
    and "i < length (0 # forks)" and "h \<le> bc_max_height fork" and "i < m"
  shows "\<exists>s'. reorganize_loop m fork i h s = Inr ((), s') \<and> relay_inv s' \<and> progress s s'"
  using assms
proof (induction m arbitrary: i h s forks)
  case (Suc m)
  show ?case
  proof (cases i)
    case 0
    then show ?thesis using Suc.prems(1) by simp
  next
    case (Suc j)
    have f: "stored_forest s" using Suc.prems(1) by (simp add: relay_inv_def)
    have j: "j < length (0 # forks)" using Suc Suc.prems(7) by simp
    obtain ch where ch: "get_chain_id_from_position s j = Inr ((0 # forks) ! j)"
      "get_block_chain_from_id s ((0 # forks) ! j) = Inr ch" "ChainsIndex s ((0 # forks) ! j) = Some ch"
      using position_chain [OF Suc.prems(4) j] forest_ids [OF f Suc.prems(6)] by metis
    have at: "map_of (Chains s) j = Some ((0 # forks) ! j)" using Suc.prems(4) j by (simp add: chain_order_def)
    show ?thesis
    proof (cases "bc_max_height ch < h")
      case False
      then show ?thesis using Suc.prems(1) Suc at ch by (simp add: Let_def)
    next
      case True
      show ?thesis
      proof (cases j)
        case 0
        then have main: "ChainsIndex s 0 = Some ch" "bc_max_height ch < bc_max_height fork"
          using ch(3) True Suc.prems(8) by auto
        obtain k s' where "swap_main_blockchain fork s = Inr ((k, bc_max_height fork), s')" "relay_inv s'" "progress s s'"
          using swap_main_blockchain_inv [OF Suc.prems(1-3) main] by blast
        then show ?thesis using Suc.prems(1) Suc at ch 0 True
          by (simp add: Let_def MAIN_CHAIN_ID_def deposit_relay_event_def)
      next
        case j': (Suc j')
        have "forks ! j' \<in> set forks" using j j' by simp
        then have nz: "(0 # forks) ! j \<noteq> 0" using Suc.prems(5) j' by (metis distinct.simps(2) nth_Cons_Suc)
        obtain al forks' where sw: "swap_chain j i s = s\<lparr>Chains := al\<rparr>" "chain_order (s\<lparr>Chains := al\<rparr>) (0 # forks')"
          "mset forks' = mset forks"
          using swap_forks [OF Suc.prems(4) _ j _ Suc.prems(7)] Suc j' by auto
        have same: "length forks' = length forks" "set forks' = set forks" "distinct forks' = distinct forks"
          using sw(3) by (metis size_mset, metis mset_eq_setD, metis mset_eq_imp_distinct_iff)
        have "\<exists>s'. reorganize_loop m fork j (bc_max_height ch) (s\<lparr>Chains := al\<rparr>) = Inr ((), s') \<and> relay_inv s'
            \<and> progress (s\<lparr>Chains := al\<rparr>) s'"
          using relay_inv_chains [OF Suc.prems(1) sw(2,3) Suc.prems(5,6)] Suc.prems Suc same sw(2) j True
          by (intro Suc.IH [of _ forks']) auto
        moreover have "progress (s\<lparr>Chains := al\<rparr>) s' = progress s s'" for s' by (simp add: progress_def content_def)
        ultimately show ?thesis using Suc at ch True nz sw(1) by (simp add: Let_def MAIN_CHAIN_ID_def)
      qed
    qed
  qed
qed simp

lemma reorganize_chains_inv:
  assumes "relay_inv s" and "ChainsIndex s (bc_chain_id fork) = Some fork" and "bc_chain_id fork \<noteq> 0"
  shows "\<exists>s'. reorganize_chains fork s = Inr ((), s') \<and> relay_inv s' \<and> progress s s'"
proof -
  have f: "stored_forest s" using assms(1) by (simp add: relay_inv_def)
  obtain forks where o: "chain_order s (0 # forks)" "distinct (0 # forks)" "set (0 # forks) = {..<ChainCounter s}"
    using assms(1) by (auto simp: relay_inv_def ordered_def)
  have "bc_chain_id fork \<in> set (0 # forks)" using o(3) f assms(2) rangedD(1) by (auto simp: forest_def)
  then obtain i where i: "get_chain_position_from_chain_id s (bc_chain_id fork) = Inr i" "i < length (0 # forks)"
    using position_of_fork [OF o(1,2) _ assms(3)] by metis
  then show ?thesis
    using reorganize_loop_inv [OF assms o i(2) order_refl, of "i + 2"] by (simp add: reorganize_chains_def)
qed

subsection \<open>Storing a header\<close>

lemma extend_blockchain_inv:
  assumes inv: "relay_inv s" and p: "BlockHeaders s (bh_hash_prev_block header) = Some p"
    and c: "ChainsIndex s (rb_chain_id p) = Some ch" and m: "bc_max_height ch = rb_block_height p"
    and new: "BlockHeaders s (bh_hash header) = None" and h: "Suc (rb_block_height p) < 2 ^ 32"
  shows "\<exists>s'. extend_blockchain (Suc (rb_block_height p)) header ch s = Inr (ch\<lparr>bc_max_height := Suc (rb_block_height p)\<rparr>, s')
     \<and> stored_forest s' \<and> ordered s' \<and> ChainCounter s' < 2 ^ 32
     \<and> ChainsIndex s' (rb_chain_id p) = Some (ch\<lparr>bc_max_height := Suc (rb_block_height p)\<rparr>) \<and> bc_chain_id ch = rb_chain_id p
     \<and> content s' = (content s)(bh_hash header \<mapsto> (header, Suc (rb_block_height p), ActiveBlockCount s))
     \<and> BestBlockHeight s' = BestBlockHeight s \<and> (rb_chain_id p \<noteq> 0 \<longrightarrow> relay_inv s')
     \<and> (rb_chain_id p = 0 \<longrightarrow> relay_inv (update_chain_head header (Suc (rb_block_height p)) s')
          \<and> progress s' (update_chain_head header (Suc (rb_block_height p)) s'))"
proof -
  let ?c = "rb_chain_id p" and ?h = "Suc (rb_block_height p)"
  have f: "stored_forest s" using inv by (simp add: relay_inv_def)
  have rg: "ranged (ChainsHashes s) (ChainsIndex s) (ChainCounter s)" using f by (simp add: forest_def)
  note r = rangedD [OF rg c]
  define s' where "s' = s\<lparr>ChainsHashes := (ChainsHashes s)((?c, ?h) \<mapsto> bh_hash header),
     ChainsIndex := (ChainsIndex s)(?c \<mapsto> ch\<lparr>bc_max_height := ?h\<rparr>),
     BlockHeaders := (BlockHeaders s)(bh_hash header \<mapsto> rich_block_header_new header ?c ?h (ActiveBlockCount s))\<rparr>"
  have "extend_blockchain ?h header ch s = Inr (ch\<lparr>bc_max_height := ?h\<rparr>, s')"
    using r(2) r(4) [of ?h] m
    by (simp add: extend_blockchain_def block_exists_def insert_block_hash_def set_block_chain_from_id_def
        store_rich_header_def set_block_header_from_hash_def Let_def s'_def)
  moreover have f': "stored_forest s'" using forest_extend [OF f p c m new h refl] by (simp add: s'_def)
  moreover have o: "ordered s'" using inv by (simp add: relay_inv_def ordered_def s'_def chain_order_def)
  moreover have n: "ChainCounter s' < 2 ^ 32" using inv by (simp add: relay_inv_def s'_def)
  moreover have "relay_inv s'" if "?c \<noteq> 0"
  proof -
    have "headed s'" using inv that by (simp add: relay_inv_def headed_def s'_def)
    then show ?thesis using f' o n by (simp add: relay_inv_def)
  qed
  moreover have "relay_inv (update_chain_head header ?h s')" if "?c = 0"
    using f' o n that by (simp add: relay_inv_def update_chain_head_def ordered_def chain_order_def headed_def s'_def)
  moreover have "content s' = (content s)(bh_hash header \<mapsto> (header, ?h, ActiveBlockCount s))"
    by (intro content_store) (simp add: s'_def)
  moreover have "progress s' (update_chain_head header ?h s')" if "?c = 0"
  proof -
    have "BestBlockHeight s \<le> ?h" using inv that c m by (auto simp: relay_inv_def headed_def)
    then show ?thesis by (simp add: progress_def content_def update_chain_head_def s'_def)
  qed
  ultimately show ?thesis using r(2) by (auto simp: s'_def)
qed

text \<open>The storage after a new chain was created, and its chain order.\<close>

lemma create_and_store_eq:
  assumes o: "chain_order s ids" and ids: "\<forall>c \<in> set ids. \<exists>ch. ChainsIndex s c = Some ch" and small: "length ids + 1 < 2 ^ 32"
    and n: "ChainCounter s + 1 < 2 ^ 32" and fresh: "ChainsIndex s (ChainCounter s) = None"
  shows "\<exists>al. create_and_store_blockchain h header s = Inr (ChainCounter s,
       s\<lparr>ChainCounter := Suc (ChainCounter s), ChainsHashes := (ChainsHashes s)((ChainCounter s, h) \<mapsto> bh_hash header),
         ChainsIndex := (ChainsIndex s)(ChainCounter s \<mapsto> \<lparr>bc_chain_id = ChainCounter s, bc_start_height = h, bc_max_height = h\<rparr>),
         Chains := al,
         BlockHeaders := (BlockHeaders s)(bh_hash header \<mapsto> rich_block_header_new header (ChainCounter s) h (ActiveBlockCount s))\<rparr>)
     \<and> chain_order (s\<lparr>Chains := al\<rparr>) (insert_at (insert_pos s h ids) (ChainCounter s) ids)"
proof -
  let ?n = "ChainCounter s" and ?ch = "\<lparr>bc_chain_id = ChainCounter s, bc_start_height = h, bc_max_height = h\<rparr>"
  define s1 where "s1 = s\<lparr>ChainCounter := Suc ?n, ChainsHashes := (ChainsHashes s)((?n, h) \<mapsto> bh_hash header),
     ChainsIndex := (ChainsIndex s)(?n \<mapsto> ?ch)\<rparr>"
  have o1: "chain_order s1 ids" using o by (simp add: s1_def chain_order_def)
  have i1: "\<forall>c \<in> set ids. ChainsIndex s1 c \<noteq> None" using ids by (auto simp: s1_def)
  obtain al where al: "insert_sorted ?ch s1 = Inr ((), s1\<lparr>Chains := al\<rparr>)"
    "chain_order (s1\<lparr>Chains := al\<rparr>) (insert_at (insert_pos s1 h ids) ?n ids)"
    using insert_sorted_eq [OF o1 i1 small, of ?ch] by auto
  have "?n \<notin> set ids" using ids fresh by auto
  then have "chain_height s1 c = chain_height s c" if "c \<in> set ids" for c
    using that by (auto simp: chain_height_def s1_def)
  then have "insert_pos s1 h ids = insert_pos s h ids"
    by (auto simp: insert_pos_def split: list.split intro!: arg_cong [of _ _ length] takeWhile_cong)
  moreover have "create_and_store_blockchain h header s = Inr (?n, (s1\<lparr>Chains := al\<rparr>)\<lparr>BlockHeaders :=
      (BlockHeaders s)(bh_hash header \<mapsto> rich_block_header_new header ?n h (ActiveBlockCount s))\<rparr>)"
    using al(1) n
    by (simp add: create_and_store_blockchain_def increment_chain_counter_def checked_add_w_def generate_blockchain_def
        insert_block_hash_def set_block_chain_from_id_def store_rich_header_def set_block_header_from_hash_def s1_def)
  moreover have "chain_order (s1\<lparr>Chains := al\<rparr>) js = chain_order (s\<lparr>Chains := al\<rparr>) js" for js by (simp add: chain_order_def)
  ultimately show ?thesis using al(2) by (auto simp: s1_def)
qed

lemma fork_inv:
  assumes inv: "relay_inv s" and p: "BlockHeaders s (bh_hash_prev_block header) = Some p"
    and c: "ChainsIndex s (rb_chain_id p) = Some ch" and m: "bc_max_height ch \<noteq> rb_block_height p"
    and new: "BlockHeaders s (bh_hash header) = None" and h: "Suc (rb_block_height p) < 2 ^ 32" and n: "ChainCounter s + 1 < 2 ^ 32"
  shows "\<exists>s'. create_and_store_blockchain (Suc (rb_block_height p)) header s = Inr (ChainCounter s, s') \<and> relay_inv s'
     \<and> content s' = (content s)(bh_hash header \<mapsto> (header, Suc (rb_block_height p), ActiveBlockCount s))
     \<and> BestBlockHeight s' = BestBlockHeight s"
proof -
  let ?n = "ChainCounter s" and ?h = "Suc (rb_block_height p)"
  have f: "stored_forest s" using inv by (simp add: relay_inv_def)
  have rg: "ranged (ChainsHashes s) (ChainsIndex s) ?n" using f by (simp add: forest_def)
  obtain forks where o: "chain_order s (0 # forks)" "distinct (0 # forks)" "set (0 # forks) = {..<?n}"
    using inv by (auto simp: relay_inv_def ordered_def)
  have len: "length (0 # forks) = ?n" using o(2,3) by (metis card_lessThan distinct_card)
  have fresh: "ChainsIndex s ?n = None" using rangedD(1) [OF rg] by (metis less_irrefl not_None_eq)
  obtain al where al: "create_and_store_blockchain ?h header s = Inr (?n,
       s\<lparr>ChainCounter := Suc ?n, ChainsHashes := (ChainsHashes s)((?n, ?h) \<mapsto> bh_hash header),
         ChainsIndex := (ChainsIndex s)(?n \<mapsto> \<lparr>bc_chain_id = ?n, bc_start_height = ?h, bc_max_height = ?h\<rparr>),
         Chains := al,
         BlockHeaders := (BlockHeaders s)(bh_hash header \<mapsto> rich_block_header_new header ?n ?h (ActiveBlockCount s))\<rparr>)" (is "_ = Inr (_, ?s')")
    and ord: "chain_order (s\<lparr>Chains := al\<rparr>) (insert_at (insert_pos s ?h (0 # forks)) ?n (0 # forks))"
    using create_and_store_eq [OF o(1) _ _ n fresh, of ?h header] forest_ids [OF f o(3)] len n by auto
  have "stored_forest ?s'" using forest_fork [OF f p c m new h refl] len by (simp add: o(3))
  moreover have "ordered ?s'"
  proof -
    let ?k = "insert_pos s ?h (0 # forks) - 1"
    let ?forks = "take ?k forks @ [?n] @ drop ?k forks"
    have "insert_at (insert_pos s ?h (0 # forks)) ?n (0 # forks) = 0 # ?forks" by (simp add: insert_at_def insert_pos_def)
    moreover have mem: "set ?forks = insert ?n (set forks)" by (metis append_take_drop_id set_append Un_commute Un_insert_left list.simps(15) set_append append_Cons append_Nil)
    moreover have "mset ?forks = mset (?n # forks)" by (metis append_take_drop_id mset.simps(2) mset_append append_Cons append_Nil union_mset_add_mset_right)
    then have "distinct ?forks = distinct (?n # forks)" by (rule mset_eq_imp_distinct_iff)
    moreover have "?n \<notin> set (0 # forks)" unfolding o(3) by simp
    moreover have "set (0 # ?forks) = {..<Suc ?n}"
      using o(3) mem by (metis insert_commute lessThan_Suc list.simps(15))
    ultimately have "chain_order ?s' (0 # ?forks) \<and> distinct (0 # ?forks) \<and> set (0 # ?forks) = {..<ChainCounter ?s'}"
      using ord o(2) by (simp add: chain_order_def)
    then show ?thesis unfolding ordered_def by blast
  qed
  moreover have "headed ?s'"
    using inv fresh n len by (auto simp: relay_inv_def headed_def)
  ultimately have "relay_inv ?s'" using n by (simp add: relay_inv_def)
  moreover have "content ?s' = (content s)(bh_hash header \<mapsto> (header, ?h, ActiveBlockCount s))"
    by (intro content_store) simp
  ultimately show ?thesis using al by simp
qed

text \<open>Everything that a successful call of \<open>store_block_header_inner\<close> needs, and what it then does.\<close>

definition acceptable :: "block_header \<Rightarrow> ('acc, 'x) relay_scheme \<Rightarrow> rich_block_header \<Rightarrow> bool" where
  "acceptable header s p \<longleftrightarrow> BlockHeaders s (bh_hash_prev_block header) = Some p \<and> Suc (rb_block_height p) < 2 ^ 32
     \<and> verify_block_header s header (Suc (rb_block_height p)) p = Inr ()
     \<and> (chain_height s (rb_chain_id p) \<noteq> rb_block_height p \<longrightarrow> Suc (ChainCounter s) < 2 ^ 32)"

definition stored_by :: "block_header \<Rightarrow> rich_block_header \<Rightarrow> ('acc, 'x) relay_scheme \<Rightarrow> ('acc, 'x) relay_scheme \<Rightarrow> bool" where
  "stored_by header p s s' \<longleftrightarrow> relay_inv s' \<and> BestBlockHeight s \<le> BestBlockHeight s'
     \<and> content s' = (content s)(bh_hash header \<mapsto> (header, Suc (rb_block_height p), ActiveBlockCount s))"

lemma stored_by_event [simp]: "stored_by header p s (s'\<lparr>relay_events := es\<rparr>) = stored_by header p s s'"
  by (simp add: stored_by_def content_def)

lemma verify_new: "verify_block_header s header h p = Inr () \<Longrightarrow> BlockHeaders s (bh_hash header) = None"
  by (cases "BlockHeaders s (bh_hash header)") (simp_all add: verify_block_header_def block_header_exists_def rensure_def)

lemma store_inner_accepts:
  assumes inv: "relay_inv s" and a: "acceptable header s p"
  shows "\<exists>s'. store_block_header_inner relayer header s = Inr ((), s') \<and> stored_by header p s s'"
proof -
  have p: "BlockHeaders s (bh_hash_prev_block header) = Some p" and h: "Suc (rb_block_height p) < 2 ^ 32"
    and v: "verify_block_header s header (Suc (rb_block_height p)) p = Inr ()" using a by (auto simp: acceptable_def)
  have f: "stored_forest s" using inv by (simp add: relay_inv_def)
  obtain ch where ch: "ChainsIndex s (rb_chain_id p) = Some ch" using forest_chain [OF f p] by blast
  note new = verify_new [OF v]
  note run = store_block_header_inner_def get_block_header_from_hash_def get_block_chain_from_id_def checked_add_w_def
    deposit_relay_event_def MAIN_CHAIN_ID_def Let_def
  show ?thesis
  proof (cases "bc_max_height ch = rb_block_height p")
    case False
    then have "ChainCounter s + 1 < 2 ^ 32" using a ch by (simp add: acceptable_def chain_height_def)
    then obtain s' where "create_and_store_blockchain (Suc (rb_block_height p)) header s = Inr (ChainCounter s, s')" "stored_by header p s s'"
      using fork_inv [OF inv p ch False new h] by (auto simp: stored_by_def)
    then show ?thesis using False p h v ch by (simp add: run)
  next
    case True
    let ?ch = "ch\<lparr>bc_max_height := Suc (rb_block_height p)\<rparr>"
    obtain s1 where s1: "extend_blockchain (Suc (rb_block_height p)) header ch s = Inr (?ch, s1)"
      "ChainsIndex s1 (rb_chain_id p) = Some ?ch" "bc_chain_id ch = rb_chain_id p"
      "content s1 = (content s)(bh_hash header \<mapsto> (header, Suc (rb_block_height p), ActiveBlockCount s))"
      "BestBlockHeight s1 = BestBlockHeight s" "rb_chain_id p \<noteq> 0 \<Longrightarrow> relay_inv s1"
      "rb_chain_id p = 0 \<Longrightarrow> relay_inv (update_chain_head header (Suc (rb_block_height p)) s1)
          \<and> progress s1 (update_chain_head header (Suc (rb_block_height p)) s1)"
      using extend_blockchain_inv [OF inv p ch True new h] by metis
    have res: "stored_by header p s s2" if "relay_inv s2" "progress s1 s2" for s2
      using that s1(4,5) by (simp add: stored_by_def progress_def)
    show ?thesis
    proof (cases "rb_chain_id p = 0")
      case main: True
      then show ?thesis using True p h v ch s1(1,3) res [OF conjunct1 [OF s1(7)] conjunct2 [OF s1(7)]] by (simp add: run)
    next
      case fork: False
      obtain s2 where "reorganize_chains ?ch s1 = Inr ((), s2)" "relay_inv s2" "progress s1 s2"
        using reorganize_chains_inv [OF s1(6), of ?ch] s1(2,3) fork by auto
      then show ?thesis using True fork p h v ch s1(1,3) res [of s2] by (simp add: run)
    qed
  qed
qed

lemma store_inner_accepted:
  assumes inv: "relay_inv s" and run: "store_block_header_inner relayer header s = Inr ((), s')"
  shows "\<exists>p. acceptable header s p"
proof -
  obtain p where p: "BlockHeaders s (bh_hash_prev_block header) = Some p"
    using run by (auto simp: store_block_header_inner_def Let_def get_block_header_from_hash_def ok_or_def split: option.splits)
  have h: "Suc (rb_block_height p) < 2 ^ 32"
    using run p by (auto simp: store_block_header_inner_def Let_def get_block_header_from_hash_def checked_add_w_def ok_or_def split: if_splits)
  obtain ch where ch: "ChainsIndex s (rb_chain_id p) = Some ch" 
    using forest_chain [where bh = "BlockHeaders s", OF _ p] inv unfolding relay_inv_def by metis
  have v: "verify_block_header s header (Suc (rb_block_height p)) p = Inr ()"
    using run p h ch by (cases "verify_block_header s header (Suc (rb_block_height p)) p")
      (auto simp: store_block_header_inner_def Let_def get_block_header_from_hash_def checked_add_w_def get_block_chain_from_id_def)
  have "Suc (ChainCounter s) < 2 ^ 32" if "bc_max_height ch \<noteq> rb_block_height p"
    using run p h ch v that
    by (auto simp: store_block_header_inner_def Let_def get_block_header_from_hash_def checked_add_w_def get_block_chain_from_id_def
        create_and_store_blockchain_def increment_chain_counter_def ok_or_def split: if_splits)
  then show ?thesis using p h v ch by (auto simp: acceptable_def chain_height_def)
qed

subsection \<open>Authenticity\<close>

definition authentic :: "digest \<Rightarrow> ('acc, 'x) relay_scheme \<Rightarrow> bool" where
  "authentic sha256 s \<longleftrightarrow> (\<forall>k e. content s k = Some e \<longrightarrow> header_hash sha256 (fst e) = Inr k)"

lemma header_hash_field: "header_hash sha256 (h\<lparr>bh_hash := x\<rparr>) = header_hash sha256 h"
  by (simp add: header_hash_def try_format_header_def)

lemma validated_hash:
  assumes "validate_block_header sha256 hdr = Inr header"
  shows "header_hash sha256 header = Inr (bh_hash header)" and "header = hdr\<lparr>bh_hash := bh_hash header\<rparr>"
    and "\<not> sint (bh_version hdr) < 4"
proof -
  have v: "\<not> sint (bh_version hdr) < 4" using assms by (auto simp: validate_block_header_def ensure_version_def)
  moreover obtain k where "header_hash sha256 hdr = Inr k"
    using assms v by (cases "header_hash sha256 hdr")
      (auto simp: validate_block_header_def ensure_version_def update_hash_def rbind_Inr_iff)
  moreover from this have "header = hdr\<lparr>bh_hash := k\<rparr>"
    using assms v by (simp add: validate_block_header_def ensure_version_def update_hash_def)
  ultimately show "header_hash sha256 header = Inr (bh_hash header)" "header = hdr\<lparr>bh_hash := bh_hash header\<rparr>"
    "\<not> sint (bh_version hdr) < 4" by (simp_all add: header_hash_field)
qed

lemma stored_by_authentic:
  assumes "authentic sha256 s" and "validate_block_header sha256 hdr = Inr header" and "stored_by header p s s'"
  shows "authentic sha256 s'"
  using assms(1,3) validated_hash(1) [OF assms(2)] by (auto simp: authentic_def stored_by_def)

lemma store_block_header_run:
  assumes "store_block_header sha256 relayer hdr fork_bound s = Inr ((), s')"
  obtains header where "validate_block_header sha256 hdr = Inr header" "store_block_header_inner relayer header s = Inr ((), s')"
    "saturating_add_w 32 (ChainCounter s) 1 \<le> fork_bound"
  using assms by (cases "validate_block_header sha256 hdr") (auto simp: store_block_header_def split: if_splits)

end
