(* ===== verification/BTC_Relay_Store.thy ===== *)
theory BTC_Relay_Store
  imports BTC_Relay_Invariant Bitcoin_Codec
begin

text \<open>
  What the relay guarantees of the stored chains: the properties of \<open>initialize\<close> and
  \<open>store_block_header\<close>, and what the invariant says of the main chain. The last part runs the relay on
  concrete headers with a digest that returns the nonce of a header.
\<close>

subsection \<open>Initialisation\<close>

definition unused :: "('acc, 'x) relay_scheme \<Rightarrow> bool" where
  "unused s \<longleftrightarrow> BlockHeaders s = Map.empty \<and> Chains s = [] \<and> ChainsIndex s = Map.empty \<and> ChainsHashes s = Map.empty
     \<and> BestBlock s = None \<and> ChainCounter s = 0"

lemma initialize_run:
  assumes "initialize sha256 relayer hdr h s = Inr ((), s')"
  obtains header where "validate_block_header sha256 hdr = Inr header" "initialize_relay relayer header h s = Inr ((), s')"
  using assms by (cases "validate_block_header sha256 hdr") (auto simp: initialize_def)

lemma initialize_relay_inv:
  assumes u: "unused s" and h: "h < 2 ^ 32" and run: "initialize_relay relayer header h s = Inr ((), s')"
  shows "relay_inv s' \<and> content s' = [bh_hash header \<mapsto> (header, h, ActiveBlockCount s)]
     \<and> BestBlock s' = Some (bh_hash header) \<and> BestBlockHeight s' = h"
proof -
  let ?ch = "\<lparr>bc_chain_id = 0, bc_start_height = h, bc_max_height = h\<rparr>"
  have "chain_order s []" using u by (simp add: unused_def chain_order_def)
  then obtain al where c: "create_and_store_blockchain h header s = Inr (0, s\<lparr>ChainCounter := 1, ChainsHashes := [(0, h) \<mapsto> bh_hash header],
      ChainsIndex := [0 \<mapsto> ?ch], Chains := al, BlockHeaders := [bh_hash header \<mapsto> rich_block_header_new header 0 h (ActiveBlockCount s)]\<rparr>)"
    and o: "chain_order (s\<lparr>Chains := al\<rparr>) [0]"
    using create_and_store_eq [of s "[]" h header] u by (auto simp: unused_def insert_at_def insert_pos_def)
  have run': "\<exists>es. s' = s\<lparr>ChainCounter := 1, ChainsHashes := [(0, h) \<mapsto> bh_hash header], ChainsIndex := [0 \<mapsto> ?ch], Chains := al,
      BlockHeaders := [bh_hash header \<mapsto> rich_block_header_new header 0 h (ActiveBlockCount s)],
      BestBlock := Some (bh_hash header), BestBlockHeight := h, StartBlockHeight := Some h, relay_events := es\<rparr>"
    using run c by (auto simp: initialize_relay_def update_chain_head_def deposit_relay_event_def split: if_splits)
  have "forest [bh_hash header \<mapsto> rich_block_header_new header 0 h (ActiveBlockCount s)] [(0, h) \<mapsto> bh_hash header] [0 \<mapsto> ?ch] 1"
    by (rule forest_first [OF refl h])
  then show ?thesis
    using run' o by (auto simp: relay_inv_def ordered_def headed_def chain_order_def content_def rich_block_header_new_def
        intro!: exI [of _ "[] :: nat list"])
qed

text \<open>
  Initialising the relay on unused storage establishes the invariant of the storage with one block,
  which is authentic and the best block.
\<close>

theorem initialize_establishes_invariant:
  assumes "unused s" and "h < 2 ^ 32" and "initialize sha256 relayer hdr h s = Inr ((), s')"
  shows "relay_inv s' \<and> authentic sha256 s' \<and> BestBlockHeight s' = h
     \<and> (\<exists>k. header_hash sha256 hdr = Inr k \<and> BestBlock s' = Some k \<and> dom (BlockHeaders s') = {k})"
proof -
  obtain header where v: "validate_block_header sha256 hdr = Inr header" and r: "initialize_relay relayer header h s = Inr ((), s')"
    using initialize_run [OF assms(3)] .
  note i = initialize_relay_inv [OF assms(1,2) r] and k = validated_hash [OF v]
  have "dom (BlockHeaders s') = dom (content s')" by (auto simp: content_def dom_def)
  moreover have "header_hash sha256 hdr = Inr (bh_hash header)" using k(1,2) by (metis header_hash_field)
  ultimately show ?thesis using i k(1) by (auto simp: authentic_def)
qed

subsection \<open>Storing headers\<close>

text \<open>
  C25: Storing a header keeps the invariant of the storage on every branch, a reorganisation included. It
  adds exactly the header under its own double SHA-256 hash, one above its parent; no stored header
  is lost or changed, and the height of the best block never decreases.
\<close>

theorem store_block_header_keeps_invariant:
  assumes "relay_inv s" and "authentic sha256 s" and "store_block_header sha256 relayer hdr fork_bound s = Inr ((), s')"
  shows "relay_inv s' \<and> authentic sha256 s' \<and> BestBlockHeight s \<le> BestBlockHeight s'
     \<and> (\<exists>k p. header_hash sha256 hdr = Inr k \<and> BlockHeaders s k = None \<and> BlockHeaders s (bh_hash_prev_block hdr) = Some p
         \<and> content s' = (content s)(k \<mapsto> (hdr\<lparr>bh_hash := k\<rparr>, Suc (rb_block_height p), ActiveBlockCount s)))"
proof -
  obtain header where v: "validate_block_header sha256 hdr = Inr header" and r: "store_block_header_inner relayer header s = Inr ((), s')"
    using store_block_header_run [OF assms(3)] .
  obtain p where a: "acceptable header s p" using store_inner_accepted [OF assms(1) r] by blast
  then have res: "stored_by header p s s'" using store_inner_accepts [OF assms(1) a, of relayer] r by auto
  note k = validated_hash [OF v]
  have "header_hash sha256 hdr = Inr (bh_hash header)" "bh_hash_prev_block header = bh_hash_prev_block hdr"
    using k(1,2) by (metis header_hash_field, metis block_header.select_convs(6) block_header.surjective block_header.update_convs(5))
  then show ?thesis
    using res a stored_by_authentic [OF assms(2) v res] verify_new k(2) unfolding stored_by_def acceptable_def by metis
qed

text \<open>
  C27: In a storage that satisfies the invariant a header is stored if and only if its version is
  supported, the declared fork bound covers the chains, its parent is stored, its height fits 32 bits,
  its proof of work and target are valid, it is new, and, when it starts a fork, an identifier is left.
  In particular no lookup of the reorganisation fails and its loops end.
\<close>

theorem store_block_header_accepts_iff:
  assumes "relay_inv s"
  shows "(\<exists>s'. store_block_header sha256 relayer hdr fork_bound s = Inr ((), s')) \<longleftrightarrow>
     min (ChainCounter s + 1) (2 ^ 32 - 1) \<le> fork_bound \<and>
     (\<exists>header p. validate_block_header sha256 hdr = Inr header
        \<and> BlockHeaders s (bh_hash_prev_block header) = Some p \<and> Suc (rb_block_height p) < 2 ^ 32
        \<and> verify_block_header s header (Suc (rb_block_height p)) p = Inr ()
        \<and> (chain_height s (rb_chain_id p) = rb_block_height p \<or> Suc (ChainCounter s) < 2 ^ 32))"
    (is "_ \<longleftrightarrow> ?R")
proof
  assume "\<exists>s'. store_block_header sha256 relayer hdr fork_bound s = Inr ((), s')"
  then obtain header s' where "validate_block_header sha256 hdr = Inr header" "store_block_header_inner relayer header s = Inr ((), s')"
    "saturating_add_w 32 (ChainCounter s) 1 \<le> fork_bound" using store_block_header_run by metis
  moreover from this obtain p where "acceptable header s p" using store_inner_accepted [OF assms] by blast
  ultimately show ?R by (auto simp: acceptable_def saturating_add_w_def min.commute)
next
  assume ?R
  then obtain header p where v: "validate_block_header sha256 hdr = Inr header" and a: "acceptable header s p"
    and b: "saturating_add_w 32 (ChainCounter s) 1 \<le> fork_bound"
    by (auto simp: acceptable_def saturating_add_w_def min.commute)
  then show "\<exists>s'. store_block_header sha256 relayer hdr fork_bound s = Inr ((), s')"
    using store_inner_accepts [OF assms a, of relayer] by (auto simp: store_block_header_def)
qed


subsection \<open>When the main chain changes\<close>

lemma reorganize_loop_best:
  "reorganize_loop m fork i h s = Inr ((), s') \<Longrightarrow> h \<le> bc_max_height fork \<Longrightarrow> BestBlock s' = BestBlock s \<or>
     (\<exists>main. ChainsIndex s 0 = Some main \<and> bc_max_height main < bc_max_height fork
        \<and> saturating_add_w 32 (bc_max_height main) (StableBitcoinConfirmations s) \<le> bc_max_height fork)"
proof (induction m arbitrary: i h s)
  case (Suc m)
  have kept: "StableBitcoinConfirmations (swap_chain a b s) = StableBitcoinConfirmations s" for a b
    by (simp add: swap_chain_def Let_def)
  show ?case
  proof (cases "i = 0")
    case False
    show ?thesis
    proof (cases "map_of (Chains s) (i - 1)")
      case None
      then show ?thesis using Suc.IH [of i h "swap_chain (i - 1) i s"] Suc.prems False kept by (simp add: Let_def)
    next
      case (Some c)
      obtain ch where ch: "ChainsIndex s c = Some ch"
        using Suc.prems(1) False Some by (cases "ChainsIndex s c") (simp_all add: Let_def get_block_chain_from_id_def)
      note run = Let_def get_block_chain_from_id_def deposit_relay_event_def MAIN_CHAIN_ID_def
      consider (stop) "\<not> bc_max_height ch < h" | (main) "bc_max_height ch < h" "c = 0" | (swap) "bc_max_height ch < h" "c \<noteq> 0" by blast
      then show ?thesis
      proof cases
        case stop
        then show ?thesis using Suc.prems(1) False Some ch by (simp add: run)
      next
        case main
        show ?thesis
        proof (cases "saturating_add_w 32 (bc_max_height ch) (StableBitcoinConfirmations s) \<le> h")
          case True
          then show ?thesis using main ch Suc.prems(2) by auto
        next
          case no: False
          then show ?thesis using Suc.prems(1) False Some ch main by (auto simp: run)
        qed
      next
        case swap
        then have "reorganize_loop m fork (i - 1) (bc_max_height ch) (swap_chain (i - 1) i s) = Inr ((), s')"
          using Suc.prems(1) False Some ch by (simp add: run)
        then show ?thesis using Suc.IH [of "i - 1" "bc_max_height ch" "swap_chain (i - 1) i s"] Suc.prems(2) swap kept by simp
      qed
    qed
  qed (use Suc.prems(1) in simp)
qed simp

text \<open>
  A fork replaces the main chain only when it is ahead of it by the number of stable confirmations:
  if reorganising the chains around a fork changes the best block, then the fork is at least that much
  higher than the main chain was.
\<close>

theorem reorganisation_needs_confirmations:
  assumes "reorganize_chains fork s = Inr ((), s')" and "BestBlock s' \<noteq> BestBlock s"
  shows "\<exists>main. ChainsIndex s 0 = Some main \<and> bc_max_height main < bc_max_height fork
     \<and> min (bc_max_height main + StableBitcoinConfirmations s) (2 ^ 32 - 1) \<le> bc_max_height fork"
proof -
  obtain i where "get_chain_position_from_chain_id s (bc_chain_id fork) = Inr i"
    using assms(1) by (cases "get_chain_position_from_chain_id s (bc_chain_id fork)") (simp_all add: reorganize_chains_def)
  then have "reorganize_loop (i + 2) fork i (bc_max_height fork) s = Inr ((), s')"
    using assms(1) by (simp add: reorganize_chains_def)
  from reorganize_loop_best [OF this order_refl] assms(2) show ?thesis by (auto simp: saturating_add_w_def min.commute)
qed

subsection \<open>A concrete run\<close>

definition nonce_digest :: digest where
  "nonce_digest bs = (if length bs = 80 then ucast (from_le (drop 76 bs) :: u32) else from_le bs)"

definition block_on :: "h256le \<Rightarrow> u32 \<Rightarrow> block_header" where
  "block_on prev nonce = \<lparr>bh_merkle_root = 0, bh_target = 1000, bh_timestamp = 0, bh_version = 4, bh_hash = ucast nonce,
     bh_hash_prev_block = prev, bh_nonce = nonce\<rparr>"

definition fresh_relay :: "nat relay" where
  "fresh_relay = \<lparr>Nonce = 0, ActiveBlockCount = 9, IsDeactivated = False, security_events = [],
     BlockHeaders = Map.empty, Chains = [], ChainsIndex = Map.empty, ChainsHashes = Map.empty,
     BestBlock = None, BestBlockHeight = 0, StartBlockHeight = None, ChainCounter = 0,
     StableBitcoinConfirmations = 1, StableParachainConfirmations = 2, DisableDifficultyCheck = True,
     DisableInclusionCheck = False, relay_events = []\<rparr>"

lemma nonce_digest_hash: "header_hash nonce_digest h = Inr (ucast (bh_nonce h))"
proof -
  obtain bits where b: "get_compact (bh_target h) = Some bits" using get_compact_eq by blast
  have "drop 76 (enc_header h bits) = to_le (bh_nonce h)" by (simp add: enc_header_def)
  then show ?thesis
    by (simp add: header_hash_def try_format_header_enc [OF b] sha256d_le_def sha256d_def nonce_digest_def from_le_to_le)
qed

lemma block_on_fields [simp]:
  "bh_hash (block_on prev nonce) = ucast nonce" "bh_hash_prev_block (block_on prev nonce) = prev"
  by (simp_all add: block_on_def)

lemma block_on_valid: "validate_block_header nonce_digest (block_on prev nonce) = Inr (block_on prev nonce)"
  by (simp add: validate_block_header_def update_hash_def nonce_digest_hash ensure_version_def block_on_def)

definition started_relay :: "nat relay" where
  "started_relay = fresh_relay\<lparr>
     BlockHeaders := [1 \<mapsto> rich_block_header_new (block_on 0 1) 0 20 9], Chains := [(0, 0)],
     ChainsIndex := [0 \<mapsto> \<lparr>bc_chain_id = 0, bc_start_height = 20, bc_max_height = 20\<rparr>], ChainsHashes := [(0, 20) \<mapsto> 1],
     BestBlock := Some 1, BestBlockHeight := 20, StartBlockHeight := Some 20, ChainCounter := 1,
     relay_events := [Initialized 20 1 7]\<rparr>"

lemma started_run: "initialize nonce_digest 7 (block_on 0 1) 20 fresh_relay = Inr ((), started_relay)"
proof -
  have "insert_sorted ch s = Inr ((), s\<lparr>Chains := [(0, bc_chain_id ch)]\<rparr>)" if "Chains s = []" for ch and s :: "nat relay"
    using that by (simp add: insert_sorted_def Let_def set_chain_from_position_and_id_def)
  then show ?thesis
    by (simp add: initialize_def block_on_valid initialize_relay_def fresh_relay_def best_block_exists_def started_relay_def
        deposit_relay_event_def create_and_store_blockchain_def increment_chain_counter_def checked_add_w_def
        generate_blockchain_def insert_block_hash_def set_block_chain_from_id_def store_rich_header_def
        set_block_header_from_hash_def update_chain_head_def)
qed

lemma fresh_unused: "unused fresh_relay"
  by (simp add: unused_def fresh_relay_def)

lemma initialize_witness:
  "relay_inv started_relay \<and> authentic nonce_digest started_relay \<and> BestBlockHeight started_relay = 20
     \<and> (\<exists>k. header_hash nonce_digest (block_on 0 1) = Inr k \<and> BestBlock started_relay = Some k \<and> dom (BlockHeaders started_relay) = {k})"
  using initialize_establishes_invariant [OF fresh_unused _ started_run] by simp

lemma started_inv: "relay_inv started_relay" "authentic nonce_digest started_relay"
proof -
  have "initialize_relay 7 (block_on 0 1) 20 fresh_relay = Inr ((), started_relay)"
    using started_run by (simp add: initialize_def block_on_valid)
  from initialize_relay_inv [OF fresh_unused _ this]
  show "relay_inv started_relay" "authentic nonce_digest started_relay"
    by (auto simp: authentic_def nonce_digest_hash block_on_def)
qed

lemma started_acceptable:
  "acceptable (block_on 1 2) started_relay (rich_block_header_new (block_on 0 1) 0 20 9)"
  by (simp add: acceptable_def started_relay_def fresh_relay_def block_on_def rich_block_header_new_def chain_height_def
      verify_block_header_def block_header_exists_def rensure_def)

lemma started_store:
  "\<exists>s'. store_block_header nonce_digest 7 (block_on 1 2) 5 started_relay = Inr ((), s')"
  using store_inner_accepts [OF started_inv(1) started_acceptable, of 7]
  by (auto simp: store_block_header_def block_on_valid saturating_add_w_def started_relay_def fresh_relay_def)

lemma store_keeps_witness:
  "\<exists>s'. store_block_header nonce_digest 7 (block_on 1 2) 5 started_relay = Inr ((), s') \<and> relay_inv s'
     \<and> authentic nonce_digest s' \<and> content s' 2 = Some (block_on 1 2, 21, 9)"
proof -
  obtain s' where s': "store_block_header nonce_digest 7 (block_on 1 2) 5 started_relay = Inr ((), s')" using started_store ..
  have "header_hash nonce_digest (block_on 1 2) = Inr 2" by (simp add: nonce_digest_hash block_on_def)
  then show ?thesis
    using store_block_header_keeps_invariant [OF started_inv s'] s'
    by (auto simp: block_on_def started_relay_def fresh_relay_def rich_block_header_new_def)
qed

lemma store_accepts_witness:
  "relay_inv started_relay \<and> (\<exists>s'. store_block_header nonce_digest 7 (block_on 1 2) 5 started_relay = Inr ((), s'))
     \<and> \<not> (\<exists>s'. store_block_header nonce_digest 7 (block_on 1 2) 1 started_relay = Inr ((), s'))
     \<and> \<not> (\<exists>s'. store_block_header nonce_digest 7 (block_on 1 1) 5 started_relay = Inr ((), s'))"
proof -
  note iff = store_block_header_accepts_iff [OF started_inv(1), of nonce_digest 7]
  have "ChainCounter started_relay = 1" by (simp add: started_relay_def)
  then have "\<not> (\<exists>s'. store_block_header nonce_digest 7 (block_on 1 2) 1 started_relay = Inr ((), s'))" unfolding iff by simp
  moreover have "verify_block_header started_relay (block_on 1 1) h p \<noteq> Inr ()" for h p
    by (simp add: verify_block_header_def block_header_exists_def rensure_def started_relay_def block_on_def)
  then have "\<not> (\<exists>s'. store_block_header nonce_digest 7 (block_on 1 1) 5 started_relay = Inr ((), s'))"
    unfolding iff by (auto simp: block_on_valid)
  ultimately show ?thesis using started_inv(1) started_store by blast
qed


text \<open>A fork of two blocks beside a main chain of one block above the common start.\<close>

definition forked_relay :: "nat relay" where
  "forked_relay = started_relay\<lparr>
     BlockHeaders := [1 \<mapsto> rich_block_header_new (block_on 0 1) 0 0 9, 2 \<mapsto> rich_block_header_new (block_on 1 2) 0 1 9,
       3 \<mapsto> rich_block_header_new (block_on 1 3) 1 1 9, 4 \<mapsto> rich_block_header_new (block_on 3 4) 1 2 9],
     Chains := [(0, 0), (1, 1)],
     ChainsIndex := [0 \<mapsto> \<lparr>bc_chain_id = 0, bc_start_height = 0, bc_max_height = 1\<rparr>,
       1 \<mapsto> \<lparr>bc_chain_id = 1, bc_start_height = 1, bc_max_height = 2\<rparr>],
     ChainsHashes := [(0, 0) \<mapsto> 1, (0, 1) \<mapsto> 2, (1, 1) \<mapsto> 3, (1, 2) \<mapsto> 4],
     BestBlock := Some 2, BestBlockHeight := 1, ChainCounter := 2\<rparr>"

lemma swap_links_numeral: "swap_links (numeral k) = swap_links (Suc (pred_numeral k))"
  by (simp only: numeral_eq_Suc)

lemma bubble_right_last: "map_of (Chains s) (Suc i) = None \<Longrightarrow> bubble_right i s = Inr ((), s)"
  by (subst bubble_right.simps) simp

lemma reorganisation_witness:
  "\<exists>s'. reorganize_chains \<lparr>bc_chain_id = 1, bc_start_height = 1, bc_max_height = 2\<rparr> forked_relay = Inr ((), s')
     \<and> BestBlock s' = Some 4 \<and> (\<exists>main. ChainsIndex forked_relay 0 = Some main \<and> bc_max_height main + 1 \<le> 2)"
proof -
  let ?fork = "\<lparr>bc_chain_id = 1, bc_start_height = 1, bc_max_height = 2\<rparr>"
  have run: "\<exists>s'. reorganize_chains ?fork forked_relay = Inr ((), s') \<and> BestBlock s' = Some 4"
    by (simp add: reorganize_chains_def forked_relay_def started_relay_def fresh_relay_def get_chain_position_from_chain_id_def
        numeral_3_eq_3 Let_def get_block_chain_from_id_def MAIN_CHAIN_ID_def saturating_add_w_def swap_main_blockchain_def
        get_block_hash_def get_block_header_from_hash_def parent_link_def rich_block_header_new_def swap_links_numeral
        swap_link_def checked_add_w_def set_block_chain_from_id_def swap_block_to_mainchain_def set_header_chain_id_def
        bubble_right_last deposit_relay_event_def)
  then show ?thesis
    using reorganisation_needs_confirmations [of ?fork forked_relay]
    by (auto simp: forked_relay_def started_relay_def fresh_relay_def)
qed

end
