(* ===== verification/Fixed_Point.thy ===== *)
theory Fixed_Point
  imports Prelude
begin

text \<open>
  Fixed-point numbers, as far as the pallets see them (\<^verbatim>\<open>src/primitives/src/lib.rs\<close>, module
  \<^verbatim>\<open>arithmetic\<close>). A number is its inner integer, which is the value times the accuracy. The arithmetic
  itself is that of the \<^verbatim>\<open>FixedPointNumber\<close> trait of a library outside the repository: it is the argument
  \<open>fixed_point\<close> of every definition that computes with it, and \<open>fixed_laws\<close> states what its
  documentation promises: a result that is returned is exact for sums, differences and integers, and
  is off by less than one inner unit for products and quotients.
\<close>

type_synonym fixed = int

record fixed_point =
  fp_add :: "fixed \<Rightarrow> fixed \<Rightarrow> fixed option"
  fp_sub :: "fixed \<Rightarrow> fixed \<Rightarrow> fixed option"
  fp_mul :: "fixed \<Rightarrow> fixed \<Rightarrow> fixed option"
  fp_div :: "fixed \<Rightarrow> fixed \<Rightarrow> fixed option"
  fp_from_integer :: "int \<Rightarrow> fixed option"
  accuracy :: int

text \<open>Every number is in the range of the inner type \<^verbatim>\<open>i128\<close>.\<close>

definition inner_ok :: "fixed \<Rightarrow> bool" where
  "inner_ok x \<longleftrightarrow> - (2 ^ 127) \<le> x \<and> x < 2 ^ 127"

definition fixed_laws :: "fixed_point \<Rightarrow> bool" where
  "fixed_laws F \<longleftrightarrow> 1 < accuracy F
     \<and> (\<forall>a b c. fp_add F a b = Some c \<longrightarrow> c = a + b \<and> inner_ok c)
     \<and> (\<forall>a b c. fp_sub F a b = Some c \<longrightarrow> c = a - b \<and> inner_ok c)
     \<and> (\<forall>a b c. fp_mul F a b = Some c \<longrightarrow> \<bar>c * accuracy F - a * b\<bar> < accuracy F)
     \<and> (\<forall>a b c. fp_div F a b = Some c \<longrightarrow> \<bar>c * b - a * accuracy F\<bar> < \<bar>b\<bar>)
     \<and> (\<forall>n c. fp_from_integer F n = Some c \<longrightarrow> c = n * accuracy F \<and> inner_ok c)"

text \<open>
  \<^verbatim>\<open>truncate_to_inner\<close> divides the inner integer by the accuracy with the checked division of the inner
  type, which rounds towards zero; its \<^verbatim>\<open>MIN / -1\<close> case cannot arise with a positive accuracy.
  \<^verbatim>\<open>to_fixed\<close> converts a balance to the signed inner type first.
\<close>

definition tdiv :: "int \<Rightarrow> int \<Rightarrow> int" where
  "tdiv a b = sgn a * sgn b * (\<bar>a\<bar> div \<bar>b\<bar>)"

definition truncate_to_inner :: "fixed_point \<Rightarrow> fixed \<Rightarrow> int option" where
  "truncate_to_inner F x = (if accuracy F = 0 then None else Some (tdiv x (accuracy F)))"

definition to_fixed :: "fixed_point \<Rightarrow> nat \<Rightarrow> fixed option" where
  "to_fixed F balance = (if balance < 2 ^ 127 then fp_from_integer F (int balance) else None)"

text \<open>Converting an inner integer to a balance fails on negative numbers.\<close>

definition int_to_balance :: "int \<Rightarrow> nat option" where
  "int_to_balance n = (if 0 \<le> n \<and> n < 2 ^ 128 then Some (nat n) else None)"

lemma fixed_lawsD:
  assumes "fixed_laws F"
  shows "1 < accuracy F" "fp_add F a b = Some c \<Longrightarrow> c = a + b" "fp_sub F a b = Some c \<Longrightarrow> c = a - b"
    "fp_mul F a b = Some c \<Longrightarrow> \<bar>c * accuracy F - a * b\<bar> < accuracy F"
    "fp_div F a b = Some c \<Longrightarrow> \<bar>c * b - a * accuracy F\<bar> < \<bar>b\<bar>"
    "fp_from_integer F n = Some c \<Longrightarrow> c = n * accuracy F"
    "fp_add F a b = Some c \<Longrightarrow> inner_ok c" "fp_sub F a b = Some c \<Longrightarrow> inner_ok c"
  using assms by (auto simp: fixed_laws_def)

lemma to_fixed_exact: "fixed_laws F \<Longrightarrow> to_fixed F n = Some x \<Longrightarrow> x = int n * accuracy F"
  by (auto simp: to_fixed_def dest: fixed_lawsD(6) split: if_splits)

lemma truncate_nonneg: "1 < accuracy F \<Longrightarrow> 0 \<le> x \<Longrightarrow> truncate_to_inner F x = Some (x div accuracy F)"
  by (simp add: truncate_to_inner_def tdiv_def sgn_if)

lemma truncate_small: "\<bar>x\<bar> < accuracy F \<Longrightarrow> truncate_to_inner F x = Some 0"
  by (auto simp: truncate_to_inner_def tdiv_def)

lemma truncate_remainder:
  assumes "1 < accuracy F" and "truncate_to_inner F x = Some n"
  shows "\<bar>x - n * accuracy F\<bar> < accuracy F" and "0 \<le> x \<Longrightarrow> n * accuracy F \<le> x" and "0 \<le> x \<Longrightarrow> 0 \<le> n"
proof -
  let ?a = "accuracy F"
  have "n = tdiv x ?a" using assms by (simp add: truncate_to_inner_def split: if_splits)
  then have n: "n = sgn x * (\<bar>x\<bar> div ?a)" using assms(1) by (simp add: tdiv_def)
  have d: "\<bar>x\<bar> = \<bar>x\<bar> div ?a * ?a + \<bar>x\<bar> mod ?a" "0 \<le> \<bar>x\<bar> mod ?a" "\<bar>x\<bar> mod ?a < ?a" using assms(1) by simp_all
  have "x div ?a * ?a \<le> x" using assms(1) by (simp add: minus_mod_eq_div_mult [symmetric])
  then show "0 \<le> x \<Longrightarrow> n * ?a \<le> x" "0 \<le> x \<Longrightarrow> 0 \<le> n"
    using n assms(1) by (auto simp: sgn_if pos_imp_zdiv_nonneg_iff)
  show "\<bar>x - n * ?a\<bar> < ?a"
  proof (cases "0 \<le> x")
    case True
    then have "n = x div ?a" using n by (cases "x = 0") (auto simp: sgn_if)
    then show ?thesis using assms(1) by (simp add: minus_div_mult_eq_mod)
  next
    case False
    then have "n = - (\<bar>x\<bar> div ?a)" "x = - \<bar>x\<bar>" using n by (auto simp: sgn_if)
    then have "x - n * ?a = - (\<bar>x\<bar> - \<bar>x\<bar> div ?a * ?a)" by (metis add.commute minus_diff_eq mult_minus_left uminus_add_conv_diff diff_minus_eq_add)
    then show ?thesis using d by (simp add: minus_div_mult_eq_mod)
  qed
qed

subsection \<open>An instance\<close>

text \<open>Numbers in the range of \<^verbatim>\<open>i128\<close> with 18 decimals, products and quotients rounded down.\<close>

definition in_i128 :: "int \<Rightarrow> int option" where
  "in_i128 n = (if - (2 ^ 127) \<le> n \<and> n < 2 ^ 127 then Some n else None)"

definition decimal_fixed :: fixed_point where
  "decimal_fixed = \<lparr>fp_add = \<lambda>a b. in_i128 (a + b), fp_sub = \<lambda>a b. in_i128 (a - b),
     fp_mul = \<lambda>a b. in_i128 (a * b div 10 ^ 18),
     fp_div = \<lambda>a b. if b = 0 then None else in_i128 (a * 10 ^ 18 div b),
     fp_from_integer = \<lambda>n. in_i128 (n * 10 ^ 18), accuracy = 10 ^ 18\<rparr>"

lemma div_rest: "\<bar>(a :: int) div b * b - a\<bar> < \<bar>b\<bar>" if "b \<noteq> 0"
proof -
  have "a div b * b - a = - (a mod b)" by (simp add: minus_mod_eq_div_mult [symmetric])
  then show ?thesis using that by (simp add: abs_mod_less)
qed

lemma decimal_laws: "fixed_laws decimal_fixed"
  unfolding fixed_laws_def
  by (simp add: decimal_fixed_def in_i128_def inner_ok_def) (auto split: if_splits intro: div_rest dest: div_rest)

end
