(* ===== verification/Reward.thy ===== *)
theory Reward
  imports Fixed_Point
begin

text \<open>
  The reward pallet (\<^verbatim>\<open>src/crates/reward/src/lib.rs\<close>): scalable distribution of rewards to the stakers
  of a pool. The pool keeps the reward per unit of stake; a tally per staker records the part of it
  that accrued before the stake was deposited or that has been withdrawn.

  The storage maps are \<^verbatim>\<open>ValueQuery\<close> maps, hence total functions with default 0. The bounded ordered set
  of reward currencies is the sorted list of its elements. Pool, stake and currency identifiers are
  type parameters, as in the pallet's configuration.
\<close>

subsection \<open>Storage\<close>

datatype reward_error =
    TryIntoIntError
  | InsufficientFunds
  | ZeroTotalStake
  | MaxRewardCurrencies
  | Arithmetic arithmetic_error

datatype ('p, 's, 'c) reward_event =
    DepositStake 'p 's fixed
  | DistributeReward 'c fixed
  | WithdrawStake 'p 's fixed
  | WithdrawReward 'p 's 'c fixed

record ('p, 's, 'c) reward_pool =
  TotalStake :: "'p \<Rightarrow> fixed"
  TotalRewards :: "'c \<Rightarrow> fixed"
  RewardPerToken :: "'c \<Rightarrow> 'p \<Rightarrow> fixed"
  Stake :: "'p \<times> 's \<Rightarrow> fixed"
  RewardTally :: "'c \<Rightarrow> 'p \<times> 's \<Rightarrow> fixed"
  RewardCurrencies :: "'p \<Rightarrow> 'c list"
  reward_events :: "('p, 's, 'c) reward_event list"

type_synonym ('p, 's, 'c, 'a) reward_action = "(('p, 's, 'c) reward_pool, reward_error, 'a) action"

definition deposit_reward_event :: "('p, 's, 'c) reward_event \<Rightarrow> ('p, 's, 'c, unit) reward_action" where
  "deposit_reward_event e = smod (\<lambda>s. s\<lparr>reward_events := reward_events s @ [e]\<rparr>)"

subsection \<open>The macros \<^verbatim>\<open>checked_add_mut!\<close> and \<^verbatim>\<open>checked_sub_mut!\<close>\<close>

text \<open>Each storage map that the macros are used on is read by \<open>get\<close> and written by \<open>put\<close>.\<close>

definition checked_add_mut ::
  "fixed_point \<Rightarrow> ('st \<Rightarrow> fixed) \<Rightarrow> (fixed \<Rightarrow> 'st \<Rightarrow> 'st) \<Rightarrow> fixed \<Rightarrow> ('st, reward_error, unit) action" where
  "checked_add_mut F get put amount =
     sbind (slift (\<lambda>s. ok_or (fp_add F (get s) amount) (Arithmetic Overflow))) (\<lambda>v. smod (put v))"

definition checked_sub_mut ::
  "fixed_point \<Rightarrow> ('st \<Rightarrow> fixed) \<Rightarrow> (fixed \<Rightarrow> 'st \<Rightarrow> 'st) \<Rightarrow> fixed \<Rightarrow> ('st, reward_error, unit) action" where
  "checked_sub_mut F get put amount =
     sbind (slift (\<lambda>s. ok_or (fp_sub F (get s) amount) (Arithmetic Underflow))) (\<lambda>v. smod (put v))"

abbreviation put_stake :: "'p \<times> 's \<Rightarrow> fixed \<Rightarrow> ('p, 's, 'c) reward_pool \<Rightarrow> ('p, 's, 'c) reward_pool" where
  "put_stake k v s \<equiv> s\<lparr>Stake := (Stake s)(k := v)\<rparr>"

abbreviation put_total_stake :: "'p \<Rightarrow> fixed \<Rightarrow> ('p, 's, 'c) reward_pool \<Rightarrow> ('p, 's, 'c) reward_pool" where
  "put_total_stake k v s \<equiv> s\<lparr>TotalStake := (TotalStake s)(k := v)\<rparr>"

abbreviation put_total_rewards :: "'c \<Rightarrow> fixed \<Rightarrow> ('p, 's, 'c) reward_pool \<Rightarrow> ('p, 's, 'c) reward_pool" where
  "put_total_rewards k v s \<equiv> s\<lparr>TotalRewards := (TotalRewards s)(k := v)\<rparr>"

abbreviation put_reward_per_token :: "'c \<Rightarrow> 'p \<Rightarrow> fixed \<Rightarrow> ('p, 's, 'c) reward_pool \<Rightarrow> ('p, 's, 'c) reward_pool" where
  "put_reward_per_token c p v s \<equiv> s\<lparr>RewardPerToken := (RewardPerToken s)(c := (RewardPerToken s c)(p := v))\<rparr>"

abbreviation put_reward_tally :: "'c \<Rightarrow> 'p \<times> 's \<Rightarrow> fixed \<Rightarrow> ('p, 's, 'c) reward_pool \<Rightarrow> ('p, 's, 'c) reward_pool" where
  "put_reward_tally c k v s \<equiv> s\<lparr>RewardTally := (RewardTally s)(c := (RewardTally s c)(k := v))\<rparr>"

subsection \<open>Operations\<close>

definition stake :: "('p, 's, 'c) reward_pool \<Rightarrow> 'p \<Rightarrow> 's \<Rightarrow> fixed" where
  "stake s pool_id stake_id = Stake s (pool_id, stake_id)"

definition get_total_rewards :: "fixed_point \<Rightarrow> ('p, 's, 'c) reward_pool \<Rightarrow> 'c \<Rightarrow> (reward_error, int) result" where
  "get_total_rewards F s currency_id = ok_or (truncate_to_inner F (TotalRewards s currency_id)) TryIntoIntError"

primrec deposit_tallies :: "fixed_point \<Rightarrow> 'p \<Rightarrow> 's \<Rightarrow> fixed \<Rightarrow> 'c list \<Rightarrow> ('p, 's, 'c, unit) reward_action" where
  "deposit_tallies F pool_id stake_id amount [] = sret ()"
| "deposit_tallies F pool_id stake_id amount (currency_id # rest) =
     sbind (slift (\<lambda>s. ok_or (fp_mul F (RewardPerToken s currency_id pool_id) amount) (Arithmetic Overflow))) (\<lambda>reward_per_token_mul_amount.
     sbind (slift (\<lambda>s. ok_or (fp_add F (RewardTally s currency_id (pool_id, stake_id)) reward_per_token_mul_amount) (Arithmetic Overflow))) (\<lambda>v.
     sbind (smod (put_reward_tally currency_id (pool_id, stake_id) v)) (\<lambda>_.
     deposit_tallies F pool_id stake_id amount rest)))"

definition deposit_stake :: "fixed_point \<Rightarrow> 'p \<Rightarrow> 's \<Rightarrow> fixed \<Rightarrow> ('p, 's, 'c, unit) reward_action" where
  "deposit_stake F pool_id stake_id amount =
     sbind (checked_add_mut F (\<lambda>s. Stake s (pool_id, stake_id)) (put_stake (pool_id, stake_id)) amount) (\<lambda>_.
     sbind (checked_add_mut F (\<lambda>s. TotalStake s pool_id) (put_total_stake pool_id) amount) (\<lambda>_.
     sbind (sget (\<lambda>s. RewardCurrencies s pool_id)) (\<lambda>currencies.
     sbind (deposit_tallies F pool_id stake_id amount currencies) (\<lambda>_.
     deposit_reward_event (DepositStake pool_id stake_id amount)))))"

text \<open>\<^verbatim>\<open>BoundedBTreeSet::try_insert\<close> fails when a new element would exceed the bound.\<close>

definition try_insert :: "nat \<Rightarrow> 'c::linorder \<Rightarrow> 'c list \<Rightarrow> 'c list option" where
  "try_insert max_len x xs =
     (if x \<in> set xs then Some xs else if length xs < max_len then Some (insort x xs) else None)"

definition distribute_reward ::
  "fixed_point \<Rightarrow> nat \<Rightarrow> 'p \<Rightarrow> 'c::linorder \<Rightarrow> fixed \<Rightarrow> ('p, 's, 'c, unit) reward_action" where
  "distribute_reward F max_currencies pool_id currency_id reward =
     (if reward = 0 then sret ()
      else
     sbind (sget (\<lambda>s. TotalStake s pool_id)) (\<lambda>total_stake.
     sbind (sensure (\<lambda>_. total_stake \<noteq> 0) ZeroTotalStake) (\<lambda>_.
     sbind (slift (\<lambda>s. ok_or (try_insert max_currencies currency_id (RewardCurrencies s pool_id)) MaxRewardCurrencies)) (\<lambda>cs.
     sbind (smod (\<lambda>s. s\<lparr>RewardCurrencies := (RewardCurrencies s)(pool_id := cs)\<rparr>)) (\<lambda>_.
     sbind (slift (\<lambda>_. ok_or (fp_div F reward total_stake) (Arithmetic Underflow))) (\<lambda>reward_div_total_stake.
     sbind (checked_add_mut F (\<lambda>s. RewardPerToken s currency_id pool_id) (put_reward_per_token currency_id pool_id) reward_div_total_stake) (\<lambda>_.
     sbind (checked_add_mut F (\<lambda>s. TotalRewards s currency_id) (put_total_rewards currency_id) reward) (\<lambda>_.
     deposit_reward_event (DistributeReward currency_id reward)))))))))"

definition compute_reward :: "fixed_point \<Rightarrow> ('p, 's, 'c) reward_pool \<Rightarrow> 'p \<Rightarrow> 's \<Rightarrow> 'c \<Rightarrow> (reward_error, int) result" where
  "compute_reward F s pool_id stake_id currency_id =
     rbind (ok_or (fp_mul F (stake s pool_id stake_id) (RewardPerToken s currency_id pool_id)) (Arithmetic Overflow)) (\<lambda>stake_mul_reward_per_token.
     rbind (ok_or (fp_sub F stake_mul_reward_per_token (RewardTally s currency_id (pool_id, stake_id))) (Arithmetic Underflow)) (\<lambda>difference.
     ok_or (truncate_to_inner F difference) TryIntoIntError))"

primrec withdraw_tallies :: "fixed_point \<Rightarrow> 'p \<Rightarrow> 's \<Rightarrow> fixed \<Rightarrow> 'c list \<Rightarrow> ('p, 's, 'c, unit) reward_action" where
  "withdraw_tallies F pool_id stake_id amount [] = sret ()"
| "withdraw_tallies F pool_id stake_id amount (currency_id # rest) =
     sbind (slift (\<lambda>s. ok_or (fp_mul F (RewardPerToken s currency_id pool_id) amount) (Arithmetic Overflow))) (\<lambda>reward_per_token_mul_amount.
     sbind (slift (\<lambda>s. ok_or (fp_sub F (RewardTally s currency_id (pool_id, stake_id)) reward_per_token_mul_amount) (Arithmetic Underflow))) (\<lambda>v.
     sbind (smod (put_reward_tally currency_id (pool_id, stake_id) v)) (\<lambda>_.
     withdraw_tallies F pool_id stake_id amount rest)))"

definition withdraw_stake :: "fixed_point \<Rightarrow> 'p \<Rightarrow> 's \<Rightarrow> fixed \<Rightarrow> ('p, 's, 'c, unit) reward_action" where
  "withdraw_stake F pool_id stake_id amount =
     sbind (sensure (\<lambda>s. \<not> amount > stake s pool_id stake_id) InsufficientFunds) (\<lambda>_.
     sbind (checked_sub_mut F (\<lambda>s. Stake s (pool_id, stake_id)) (put_stake (pool_id, stake_id)) amount) (\<lambda>_.
     sbind (checked_sub_mut F (\<lambda>s. TotalStake s pool_id) (put_total_stake pool_id) amount) (\<lambda>_.
     sbind (sget (\<lambda>s. RewardCurrencies s pool_id)) (\<lambda>currencies.
     sbind (withdraw_tallies F pool_id stake_id amount currencies) (\<lambda>_.
     deposit_reward_event (WithdrawStake pool_id stake_id amount))))))"

definition withdraw_reward :: "fixed_point \<Rightarrow> 'p \<Rightarrow> 's \<Rightarrow> 'c \<Rightarrow> ('p, 's, 'c, int) reward_action" where
  "withdraw_reward F pool_id stake_id currency_id =
     sbind (slift (\<lambda>s. compute_reward F s pool_id stake_id currency_id)) (\<lambda>reward.
     sbind (slift (\<lambda>_. ok_or (fp_from_integer F reward) TryIntoIntError)) (\<lambda>reward_as_fixed.
     sbind (checked_sub_mut F (\<lambda>s. TotalRewards s currency_id) (put_total_rewards currency_id) reward_as_fixed) (\<lambda>_.
     sbind (slift (\<lambda>s. ok_or (fp_mul F (stake s pool_id stake_id) (RewardPerToken s currency_id pool_id)) (Arithmetic Overflow))) (\<lambda>v.
     sbind (smod (put_reward_tally currency_id (pool_id, stake_id) v)) (\<lambda>_.
     sbind (deposit_reward_event (WithdrawReward pool_id stake_id currency_id reward_as_fixed)) (\<lambda>_.
     sret reward))))))"

subsection \<open>The trait \<^verbatim>\<open>RewardsApi\<close> for balances\<close>

definition api_reward_currencies_len :: "('p, 's, 'c) reward_pool \<Rightarrow> 'p \<Rightarrow> nat" where
  "api_reward_currencies_len s pool_id = length (RewardCurrencies s pool_id) mod 2 ^ 32"

definition api_distribute_reward ::
  "fixed_point \<Rightarrow> nat \<Rightarrow> 'p \<Rightarrow> 'c::linorder \<Rightarrow> nat \<Rightarrow> ('p, 's, 'c, unit) reward_action" where
  "api_distribute_reward F max_currencies pool_id currency_id amount =
     sbind (slift (\<lambda>_. ok_or (to_fixed F amount) TryIntoIntError)) (distribute_reward F max_currencies pool_id currency_id)"

definition api_compute_reward :: "fixed_point \<Rightarrow> ('p, 's, 'c) reward_pool \<Rightarrow> 'p \<Rightarrow> 's \<Rightarrow> 'c \<Rightarrow> (reward_error, nat) result" where
  "api_compute_reward F s pool_id stake_id currency_id =
     rbind (compute_reward F s pool_id stake_id currency_id) (\<lambda>r. ok_or (int_to_balance r) TryIntoIntError)"

definition api_withdraw_reward :: "fixed_point \<Rightarrow> 'p \<Rightarrow> 's \<Rightarrow> 'c \<Rightarrow> ('p, 's, 'c, nat) reward_action" where
  "api_withdraw_reward F pool_id stake_id currency_id =
     sbind (withdraw_reward F pool_id stake_id currency_id) (\<lambda>r. slift (\<lambda>_. ok_or (int_to_balance r) TryIntoIntError))"

definition api_get_total_stake :: "fixed_point \<Rightarrow> ('p, 's, 'c) reward_pool \<Rightarrow> 'p \<Rightarrow> (reward_error, nat) result" where
  "api_get_total_stake F s pool_id =
     rbind (ok_or (truncate_to_inner F (TotalStake s pool_id)) TryIntoIntError) (\<lambda>n. ok_or (int_to_balance n) TryIntoIntError)"

definition api_get_stake :: "fixed_point \<Rightarrow> ('p, 's, 'c) reward_pool \<Rightarrow> 'p \<Rightarrow> 's \<Rightarrow> (reward_error, nat) result" where
  "api_get_stake F s pool_id stake_id =
     rbind (ok_or (truncate_to_inner F (stake s pool_id stake_id)) TryIntoIntError) (\<lambda>n. ok_or (int_to_balance n) TryIntoIntError)"

definition api_deposit_stake :: "fixed_point \<Rightarrow> 'p \<Rightarrow> 's \<Rightarrow> nat \<Rightarrow> ('p, 's, 'c, unit) reward_action" where
  "api_deposit_stake F pool_id stake_id amount =
     sbind (slift (\<lambda>_. ok_or (to_fixed F amount) TryIntoIntError)) (deposit_stake F pool_id stake_id)"

definition api_withdraw_stake :: "fixed_point \<Rightarrow> 'p \<Rightarrow> 's \<Rightarrow> nat \<Rightarrow> ('p, 's, 'c, unit) reward_action" where
  "api_withdraw_stake F pool_id stake_id amount =
     sbind (slift (\<lambda>_. ok_or (to_fixed F amount) TryIntoIntError)) (withdraw_stake F pool_id stake_id)"

text \<open>
  The two methods that the trait implements itself, over any implementation of the others. Balances
  are subtracted with saturation.
\<close>

definition withdraw_all_stake ::
  "('st \<Rightarrow> 'p \<Rightarrow> 's \<Rightarrow> ('e, nat) result) \<Rightarrow> ('p \<Rightarrow> 's \<Rightarrow> nat \<Rightarrow> ('st, 'e, unit) action) \<Rightarrow> 'p \<Rightarrow> 's \<Rightarrow> ('st, 'e, nat) action" where
  "withdraw_all_stake get_stake withdraw pool_id stake_id =
     sbind (slift (\<lambda>s. get_stake s pool_id stake_id)) (\<lambda>amount.
     sbind (withdraw pool_id stake_id amount) (\<lambda>_. sret amount))"

definition set_stake ::
  "('st \<Rightarrow> 'p \<Rightarrow> 's \<Rightarrow> ('e, nat) result) \<Rightarrow> ('p \<Rightarrow> 's \<Rightarrow> nat \<Rightarrow> ('st, 'e, unit) action) \<Rightarrow>
     ('p \<Rightarrow> 's \<Rightarrow> nat \<Rightarrow> ('st, 'e, unit) action) \<Rightarrow> 'p \<Rightarrow> 's \<Rightarrow> nat \<Rightarrow> ('st, 'e, unit) action" where
  "set_stake get_stake deposit withdraw pool_id stake_id amount =
     sbind (slift (\<lambda>s. get_stake s pool_id stake_id)) (\<lambda>current_stake.
     if current_stake < amount then
       let additional_stake = saturating_sub amount current_stake in deposit pool_id stake_id additional_stake
     else if current_stake > amount then
       let surplus_stake = saturating_sub current_stake amount in withdraw pool_id stake_id surplus_stake
     else sret ())"

end
