(* ===== verification/Reward_Accounting.thy ===== *)
theory Reward_Accounting
  imports Reward
begin

text \<open>
  The books of the reward pallet. The invariant says that the total stake of a pool is the sum of its
  stakes; every operation of the trait \<^verbatim>\<open>RewardsApi\<close> keeps it. What is owed to a staker changes
  only as the algorithm intends, up to the rounding of the fixed-point arithmetic: distribution adds the
  proportional share, changes of stake add nothing, and withdrawal pays and settles.
\<close>

subsection \<open>Invariant\<close>

definition stakers :: "('p, 's, 'c) reward_pool \<Rightarrow> 'p \<Rightarrow> 's set" where
  "stakers s p = {i. Stake s (p, i) \<noteq> 0}"

definition stakes_ok :: "('p, 's, 'c) reward_pool \<Rightarrow> bool" where
  "stakes_ok s \<longleftrightarrow> (\<forall>p. finite (stakers s p) \<and> TotalStake s p = (\<Sum>i\<in>stakers s p. Stake s (p, i)))
     \<and> (\<forall>k. 0 \<le> Stake s k \<and> inner_ok (Stake s k))"

definition currencies_ok :: "('p, 's, 'c::linorder) reward_pool \<Rightarrow> bool" where
  "currencies_ok s \<longleftrightarrow> (\<forall>p. sorted (RewardCurrencies s p) \<and> distinct (RewardCurrencies s p)
     \<and> (\<forall>c. c \<notin> set (RewardCurrencies s p) \<longrightarrow> RewardPerToken s c p = 0))"

definition reward_inv :: "('p, 's, 'c::linorder) reward_pool \<Rightarrow> bool" where
  "reward_inv s \<longleftrightarrow> stakes_ok s \<and> currencies_ok s"

definition empty_pool :: "('p, 's, 'c) reward_pool" where
  "empty_pool = \<lparr>TotalStake = \<lambda>_. 0, TotalRewards = \<lambda>_. 0, RewardPerToken = \<lambda>_ _. 0, Stake = \<lambda>_. 0,
     RewardTally = \<lambda>_ _. 0, RewardCurrencies = \<lambda>_. [], reward_events = []\<rparr>"

text \<open>What is owed to a staker, in units of the square of the accuracy.\<close>

definition owed :: "fixed_point \<Rightarrow> ('p, 's, 'c) reward_pool \<Rightarrow> 'c \<Rightarrow> 'p \<Rightarrow> 's \<Rightarrow> int" where
  "owed F s c p i = Stake s (p, i) * RewardPerToken s c p - RewardTally s c (p, i) * accuracy F"

lemma stakes_ok_update:
  assumes ok: "stakes_ok s" and v: "0 \<le> v" "inner_ok v" and s': "Stake s' = (Stake s)((p, i) := v)"
    "TotalStake s' = (TotalStake s)(p := TotalStake s p - Stake s (p, i) + v)"
  shows "stakes_ok s'"
proof -
  have cur: "(\<lambda>i'. Stake s' (p, i')) = (\<lambda>i'. Stake s (p, i'))(i := v)" using s'(1) by auto
  have fin: "finite {i'. Stake s (p', i') \<noteq> 0}" "TotalStake s p' = (\<Sum>i' | Stake s (p', i') \<noteq> 0. Stake s (p', i'))" for p'
    using ok by (auto simp: stakes_ok_def stakers_def)
  note upd = sum_stakers_update [OF fin(1) [of p], of i v]
  have "finite (stakers s' p') \<and> TotalStake s' p' = (\<Sum>i\<in>stakers s' p'. Stake s' (p', i))" for p'
  proof (cases "p' = p")
    case True
    then show ?thesis using upd fin(2) [of p] s'(2) unfolding stakers_def cur [symmetric] by simp
  next
    case False
    then show ?thesis using fin [of p'] s' by (simp add: stakers_def)
  qed
  moreover have "0 \<le> Stake s' k \<and> inner_ok (Stake s' k)" for k
    using ok v s'(1) by (cases k) (simp add: stakes_ok_def)
  ultimately show ?thesis by (simp add: stakes_ok_def)
qed

lemma total_stake_nonneg: "stakes_ok s \<Longrightarrow> 0 \<le> TotalStake s p"
  by (auto simp: stakes_ok_def intro: sum_nonneg)

subsection \<open>Effects of the operations\<close>

lemma deposit_tallies_effect:
  assumes F: "fixed_laws F"
  shows "deposit_tallies F p i a cs s = Inr ((), s') \<Longrightarrow> distinct cs \<Longrightarrow>
    \<exists>m. (\<forall>c \<in> set cs. fp_mul F (RewardPerToken s c p) a = Some (m c))
      \<and> s' = s\<lparr>RewardTally := \<lambda>c k. if c \<in> set cs \<and> k = (p, i) then RewardTally s c k + m c else RewardTally s c k\<rparr>"
proof (induction cs arbitrary: s)
  case Nil
  then show ?case by simp
next
  case (Cons c cs)
  then obtain mc v where mc: "fp_mul F (RewardPerToken s c p) a = Some mc" "fp_add F (RewardTally s c (p, i)) mc = Some v"
    and rest: "deposit_tallies F p i a cs (put_reward_tally c (p, i) v s) = Inr ((), s')"
    by (auto simp: rbind_Inr_iff)
  have v: "v = RewardTally s c (p, i) + mc" using fixed_lawsD(2) [OF F mc(2)] .
  obtain m where m: "\<forall>c \<in> set cs. fp_mul F (RewardPerToken s c p) a = Some (m c)"
    "s' = (put_reward_tally c (p, i) v s)\<lparr>RewardTally := \<lambda>c' k. if c' \<in> set cs \<and> k = (p, i)
        then RewardTally (put_reward_tally c (p, i) v s) c' k + m c' else RewardTally (put_reward_tally c (p, i) v s) c' k\<rparr>"
    using Cons.IH [OF rest] Cons.prems(2) by auto
  have "c \<notin> set cs" using Cons.prems(2) by simp
  then show ?case
    using m mc(1) v by (intro exI [of _ "m(c := mc)"]) (auto simp: fun_eq_iff)
qed

lemma withdraw_tallies_effect:
  assumes F: "fixed_laws F"
  shows "withdraw_tallies F p i a cs s = Inr ((), s') \<Longrightarrow> distinct cs \<Longrightarrow>
    \<exists>m. (\<forall>c \<in> set cs. fp_mul F (RewardPerToken s c p) a = Some (m c))
      \<and> s' = s\<lparr>RewardTally := \<lambda>c k. if c \<in> set cs \<and> k = (p, i) then RewardTally s c k - m c else RewardTally s c k\<rparr>"
proof (induction cs arbitrary: s)
  case Nil
  then show ?case by simp
next
  case (Cons c cs)
  then obtain mc v where mc: "fp_mul F (RewardPerToken s c p) a = Some mc" "fp_sub F (RewardTally s c (p, i)) mc = Some v"
    and rest: "withdraw_tallies F p i a cs (put_reward_tally c (p, i) v s) = Inr ((), s')"
    by (auto simp: rbind_Inr_iff)
  have v: "v = RewardTally s c (p, i) - mc" using fixed_lawsD(3) [OF F mc(2)] .
  obtain m where m: "\<forall>c \<in> set cs. fp_mul F (RewardPerToken s c p) a = Some (m c)"
    "s' = (put_reward_tally c (p, i) v s)\<lparr>RewardTally := \<lambda>c' k. if c' \<in> set cs \<and> k = (p, i)
        then RewardTally (put_reward_tally c (p, i) v s) c' k - m c' else RewardTally (put_reward_tally c (p, i) v s) c' k\<rparr>"
    using Cons.IH [OF rest] Cons.prems(2) by auto
  have "c \<notin> set cs" using Cons.prems(2) by simp
  then show ?case
    using m mc(1) v by (intro exI [of _ "m(c := mc)"]) (auto simp: fun_eq_iff)
qed

text \<open>The state after a change of stake: the stake, the total and the tallies of the tracked currencies.\<close>

definition stake_changed ::
  "fixed_point \<Rightarrow> 'p \<Rightarrow> 's \<Rightarrow> int \<Rightarrow> int \<Rightarrow> ('p, 's, 'c) reward_pool \<Rightarrow> ('p, 's, 'c) reward_pool \<Rightarrow> bool" where
  "stake_changed F p i sg a s s' \<longleftrightarrow> (\<exists>m es.
     (\<forall>c \<in> set (RewardCurrencies s p). \<bar>m c * accuracy F - RewardPerToken s c p * a\<bar> < accuracy F)
     \<and> inner_ok (Stake s (p, i) + sg * a)
     \<and> s' = s\<lparr>Stake := (Stake s)((p, i) := Stake s (p, i) + sg * a),
          TotalStake := (TotalStake s)(p := TotalStake s p + sg * a),
          RewardTally := \<lambda>c k. if c \<in> set (RewardCurrencies s p) \<and> k = (p, i) then RewardTally s c k + sg * m c else RewardTally s c k,
          reward_events := es\<rparr>)"

lemma deposit_stake_effect:
  assumes F: "fixed_laws F" and d: "distinct (RewardCurrencies s p)" and run: "deposit_stake F p i a s = Inr ((), s')"
  shows "stake_changed F p i 1 a s s'"
proof -
  obtain v w s2 where v: "fp_add F (Stake s (p, i)) a = Some v" and w: "fp_add F (TotalStake s p) a = Some w"
    and t: "deposit_tallies F p i a (RewardCurrencies s p) (put_total_stake p w (put_stake (p, i) v s)) = Inr ((), s2)"
    and s': "s' = s2\<lparr>reward_events := reward_events s2 @ [DepositStake p i a]\<rparr>"
    using run by (auto simp: deposit_stake_def checked_add_mut_def deposit_reward_event_def rbind_Inr_iff)
  obtain m where "\<forall>c \<in> set (RewardCurrencies s p). fp_mul F (RewardPerToken s c p) a = Some (m c)"
    and "s2 = (put_total_stake p w (put_stake (p, i) v s))\<lparr>RewardTally := \<lambda>c k. if c \<in> set (RewardCurrencies s p) \<and> k = (p, i)
        then RewardTally s c k + m c else RewardTally s c k\<rparr>"
    using deposit_tallies_effect [OF F t d] by (auto cong: if_cong)
  then show ?thesis
    unfolding stake_changed_def using fixed_lawsD(2,7) [OF F v] fixed_lawsD(2) [OF F w] fixed_lawsD(4) [OF F] s'
    by (intro exI [of _ m] exI [of _ "reward_events s2 @ [DepositStake p i a]"]) (auto cong: if_cong)
qed

lemma withdraw_stake_effect:
  assumes F: "fixed_laws F" and d: "distinct (RewardCurrencies s p)" and run: "withdraw_stake F p i a s = Inr ((), s')"
  shows "a \<le> Stake s (p, i)" and "stake_changed F p i (- 1) a s s'"
proof -
  show le: "a \<le> Stake s (p, i)"
    using run by (auto simp: withdraw_stake_def stake_def split: if_splits)
  then obtain v w s2 where v: "fp_sub F (Stake s (p, i)) a = Some v" and w: "fp_sub F (TotalStake s p) a = Some w"
    and t: "withdraw_tallies F p i a (RewardCurrencies s p) (put_total_stake p w (put_stake (p, i) v s)) = Inr ((), s2)"
    and s': "s' = s2\<lparr>reward_events := reward_events s2 @ [WithdrawStake p i a]\<rparr>"
    using run by (auto simp: withdraw_stake_def checked_sub_mut_def deposit_reward_event_def rbind_Inr_iff stake_def)
  obtain m where "\<forall>c \<in> set (RewardCurrencies s p). fp_mul F (RewardPerToken s c p) a = Some (m c)"
    and "s2 = (put_total_stake p w (put_stake (p, i) v s))\<lparr>RewardTally := \<lambda>c k. if c \<in> set (RewardCurrencies s p) \<and> k = (p, i)
        then RewardTally s c k - m c else RewardTally s c k\<rparr>"
    using withdraw_tallies_effect [OF F t d] by (auto cong: if_cong)
  then show "stake_changed F p i (- 1) a s s'"
    unfolding stake_changed_def using fixed_lawsD(3,8) [OF F v] fixed_lawsD(3) [OF F w] fixed_lawsD(4) [OF F] s'
    by (intro exI [of _ m] exI [of _ "reward_events s2 @ [WithdrawStake p i a]"]) (auto cong: if_cong)
qed

lemma stake_changed_inv:
  assumes inv: "reward_inv s" and ch: "stake_changed F p i sg a s s'" and nn: "0 \<le> Stake s (p, i) + sg * a"
  shows "reward_inv s'"
proof -
  obtain m es where m: "inner_ok (Stake s (p, i) + sg * a)"
    "s' = s\<lparr>Stake := (Stake s)((p, i) := Stake s (p, i) + sg * a),
          TotalStake := (TotalStake s)(p := TotalStake s p + sg * a),
          RewardTally := \<lambda>c k. if c \<in> set (RewardCurrencies s p) \<and> k = (p, i) then RewardTally s c k + sg * m c else RewardTally s c k,
          reward_events := es\<rparr>" using ch by (auto simp: stake_changed_def)
  have "stakes_ok s'" by (rule stakes_ok_update [of s "Stake s (p, i) + sg * a" _ p i]) (use inv nn m in \<open>auto simp: reward_inv_def\<close>)
  moreover have "currencies_ok s'" using inv m(2) by (simp add: reward_inv_def currencies_ok_def)
  ultimately show ?thesis by (simp add: reward_inv_def)
qed

text \<open>A change of stake changes what is owed by less than one unit in the last place.\<close>

lemma stake_changed_owed:
  assumes inv: "reward_inv s" and acc: "1 < accuracy F" and ch: "stake_changed F p i sg a s s'" and sg: "\<bar>sg\<bar> = 1"
  shows "\<bar>owed F s' c p i - owed F s c p i\<bar> < accuracy F"
    and "(p', i') \<noteq> (p, i) \<Longrightarrow> owed F s' c p' i' = owed F s c p' i'"
proof -
  obtain m es where m: "\<forall>c \<in> set (RewardCurrencies s p). \<bar>m c * accuracy F - RewardPerToken s c p * a\<bar> < accuracy F"
    "s' = s\<lparr>Stake := (Stake s)((p, i) := Stake s (p, i) + sg * a),
          TotalStake := (TotalStake s)(p := TotalStake s p + sg * a),
          RewardTally := \<lambda>c k. if c \<in> set (RewardCurrencies s p) \<and> k = (p, i) then RewardTally s c k + sg * m c else RewardTally s c k,
          reward_events := es\<rparr>" using ch by (auto simp: stake_changed_def)
  show "\<bar>owed F s' c p i - owed F s c p i\<bar> < accuracy F"
  proof (cases "c \<in> set (RewardCurrencies s p)")
    case True
    have "owed F s' c p i - owed F s c p i = - sg * (m c * accuracy F - RewardPerToken s c p * a)"
      using True m(2) by (simp add: owed_def algebra_simps)
    then show ?thesis using m(1) True sg by (simp add: abs_mult)
  next
    case False
    then have "RewardPerToken s c p = 0" using inv by (simp add: reward_inv_def currencies_ok_def)
    then show ?thesis using False m(2) acc by (simp add: owed_def)
  qed
  show "(p', i') \<noteq> (p, i) \<Longrightarrow> owed F s' c p' i' = owed F s c p' i'" using m(2) by (auto simp: owed_def)
qed

subsection \<open>Distribution and withdrawal\<close>

lemma try_insert_props:
  assumes "try_insert m x xs = Some ys" and "sorted xs" and "distinct xs"
  shows "sorted ys" "distinct ys" "set ys = insert x (set xs)"
  using assms by (auto simp: try_insert_def sorted_insort distinct_insort set_insort_key split: if_splits)

definition distributed :: "fixed_point \<Rightarrow> 'p \<Rightarrow> 'c \<Rightarrow> fixed \<Rightarrow> ('p, 's, 'c::linorder) reward_pool \<Rightarrow> ('p, 's, 'c) reward_pool \<Rightarrow> bool" where
  "distributed F p c r s s' \<longleftrightarrow> (\<exists>d cs es m. \<bar>d * TotalStake s p - r * accuracy F\<bar> < \<bar>TotalStake s p\<bar>
     \<and> try_insert m c (RewardCurrencies s p) = Some cs
     \<and> s' = s\<lparr>RewardCurrencies := (RewardCurrencies s)(p := cs),
          RewardPerToken := (RewardPerToken s)(c := (RewardPerToken s c)(p := RewardPerToken s c p + d)),
          TotalRewards := (TotalRewards s)(c := TotalRewards s c + r), reward_events := es\<rparr>)"

lemma distribute_effect:
  assumes F: "fixed_laws F" and run: "distribute_reward F m p c r s = Inr ((), s')"
  shows "if r = 0 then s' = s else distributed F p c r s s'"
proof (cases "r = 0")
  case False
  then have t: "TotalStake s p \<noteq> 0" using run by (auto simp: distribute_reward_def split: if_splits)
  then obtain cs d v w where x: "try_insert m c (RewardCurrencies s p) = Some cs" "fp_div F r (TotalStake s p) = Some d"
    "fp_add F (RewardPerToken s c p) d = Some v" "fp_add F (TotalRewards s c) r = Some w"
    "s' = s\<lparr>RewardCurrencies := (RewardCurrencies s)(p := cs), RewardPerToken := (RewardPerToken s)(c := (RewardPerToken s c)(p := v)),
       TotalRewards := (TotalRewards s)(c := w), reward_events := reward_events s @ [DistributeReward c r]\<rparr>"
    using run False by (auto simp: distribute_reward_def checked_add_mut_def deposit_reward_event_def rbind_Inr_iff)
  then show ?thesis
    using False fixed_lawsD(5) [OF F x(2)] fixed_lawsD(2) [OF F x(3)] fixed_lawsD(2) [OF F x(4)] unfolding distributed_def by auto
qed (use run in \<open>simp add: distribute_reward_def\<close>)

lemma distributed_inv:
  assumes "reward_inv s" and "distributed F p c r s s'"
  shows "reward_inv s'"
proof -
  obtain d cs es m where x: "try_insert m c (RewardCurrencies s p) = Some cs"
    "s' = s\<lparr>RewardCurrencies := (RewardCurrencies s)(p := cs),
          RewardPerToken := (RewardPerToken s)(c := (RewardPerToken s c)(p := RewardPerToken s c p + d)),
          TotalRewards := (TotalRewards s)(c := TotalRewards s c + r), reward_events := es\<rparr>"
    using assms(2) by (auto simp: distributed_def)
  have "currencies_ok s" using assms(1) by (simp add: reward_inv_def)
  then have "currencies_ok s'" using try_insert_props [OF x(1)] x(2) by (auto simp: currencies_ok_def)
  moreover have "stakes_ok s'" using assms(1) x(2) by (simp add: reward_inv_def stakes_ok_def stakers_def)
  ultimately show ?thesis by (simp add: reward_inv_def)
qed

definition settled :: "fixed_point \<Rightarrow> 'p \<Rightarrow> 's \<Rightarrow> 'c \<Rightarrow> int \<Rightarrow> ('p, 's, 'c) reward_pool \<Rightarrow> ('p, 's, 'c) reward_pool \<Rightarrow> bool" where
  "settled F p i c n s s' \<longleftrightarrow> (\<exists>v es. fp_mul F (Stake s (p, i)) (RewardPerToken s c p) = Some v
     \<and> truncate_to_inner F (v - RewardTally s c (p, i)) = Some n
     \<and> s' = s\<lparr>TotalRewards := (TotalRewards s)(c := TotalRewards s c - n * accuracy F),
          RewardTally := (RewardTally s)(c := (RewardTally s c)((p, i) := v)), reward_events := es\<rparr>)"

lemma withdraw_reward_effect:
  assumes F: "fixed_laws F" and run: "withdraw_reward F p i c s = Inr (n, s')"
  shows "settled F p i c n s s'"
proof -
  obtain v d x w where v: "fp_mul F (Stake s (p, i)) (RewardPerToken s c p) = Some v"
    and d: "fp_sub F v (RewardTally s c (p, i)) = Some d" "truncate_to_inner F d = Some n"
    and x: "fp_from_integer F n = Some x" and w: "fp_sub F (TotalRewards s c) x = Some w"
    and s': "s' = s\<lparr>TotalRewards := (TotalRewards s)(c := w), RewardTally := (RewardTally s)(c := (RewardTally s c)((p, i) := v)),
        reward_events := reward_events s @ [WithdrawReward p i c x]\<rparr>"
    using run by (auto simp: withdraw_reward_def compute_reward_def checked_sub_mut_def deposit_reward_event_def rbind_Inr_iff stake_def)
  then show ?thesis
    using fixed_lawsD(3) [OF F d(1)] fixed_lawsD(6) [OF F x] fixed_lawsD(3) [OF F w] by (auto simp: settled_def)
qed

lemma settled_inv: "reward_inv s \<Longrightarrow> settled F p i c n s s' \<Longrightarrow> reward_inv s'"
  by (auto simp: settled_def reward_inv_def stakes_ok_def stakers_def currencies_ok_def)

subsection \<open>Reachable states\<close>

inductive reward_step :: "fixed_point \<Rightarrow> nat \<Rightarrow> ('p, 's, 'c::linorder) reward_pool \<Rightarrow> ('p, 's, 'c) reward_pool \<Rightarrow> bool"
  for F m where
  step_deposit: "api_deposit_stake F p i a s = Inr ((), s') \<Longrightarrow> reward_step F m s s'"
| step_withdraw: "api_withdraw_stake F p i a s = Inr ((), s') \<Longrightarrow> reward_step F m s s'"
| step_distribute: "api_distribute_reward F m p c a s = Inr ((), s') \<Longrightarrow> reward_step F m s s'"
| step_reward: "api_withdraw_reward F p i c s = Inr (n, s') \<Longrightarrow> reward_step F m s s'"

lemma api_deposit_run:
  assumes "fixed_laws F" and "api_deposit_stake F p i a s = Inr ((), s')"
  shows "deposit_stake F p i (int a * accuracy F) s = Inr ((), s')"
  using assms(2) to_fixed_exact [OF assms(1)] by (auto simp: api_deposit_stake_def rbind_Inr_iff)

lemma api_withdraw_run:
  assumes "fixed_laws F" and "api_withdraw_stake F p i a s = Inr ((), s')"
  shows "withdraw_stake F p i (int a * accuracy F) s = Inr ((), s')"
  using assms(2) to_fixed_exact [OF assms(1)] by (auto simp: api_withdraw_stake_def rbind_Inr_iff)

lemma inv_distinct: "reward_inv s \<Longrightarrow> distinct (RewardCurrencies s p)"
  by (simp add: reward_inv_def currencies_ok_def)

lemma inv_stake: "reward_inv s \<Longrightarrow> 0 \<le> Stake s k \<and> inner_ok (Stake s k)"
  by (cases k) (simp add: reward_inv_def stakes_ok_def)

lemma api_deposit_inv:
  assumes F: "fixed_laws F" and inv: "reward_inv s" and run: "api_deposit_stake F p i a s = Inr ((), s')"
  shows "reward_inv s'" and "stake_changed F p i 1 (int a * accuracy F) s s'"
proof -
  show ch: "stake_changed F p i 1 (int a * accuracy F) s s'"
    by (rule deposit_stake_effect [OF F inv_distinct [OF inv] api_deposit_run [OF F run]])
  have "0 \<le> Stake s (p, i) + 1 * (int a * accuracy F)" using inv_stake [OF inv, of "(p, i)"] fixed_lawsD(1) [OF F] by simp
  then show "reward_inv s'" by (rule stake_changed_inv [OF inv ch])
qed

lemma api_withdraw_inv:
  assumes F: "fixed_laws F" and inv: "reward_inv s" and run: "api_withdraw_stake F p i a s = Inr ((), s')"
  shows "reward_inv s'" and "stake_changed F p i (- 1) (int a * accuracy F) s s'" and "int a * accuracy F \<le> Stake s (p, i)"
proof -
  note e = withdraw_stake_effect [OF F inv_distinct [OF inv] api_withdraw_run [OF F run]]
  show "stake_changed F p i (- 1) (int a * accuracy F) s s'" "int a * accuracy F \<le> Stake s (p, i)" using e by auto
  then have "0 \<le> Stake s (p, i) + - 1 * (int a * accuracy F)" by simp
  then show "reward_inv s'" by (rule stake_changed_inv [OF inv e(2)])
qed

lemma reward_step_inv:
  assumes F: "fixed_laws F" and "reward_step F m s s'" and "reward_inv s"
  shows "reward_inv s'"
  using assms(2,3)
proof (induction rule: reward_step.induct)
  case (step_deposit p i a s s')
  show ?case by (rule api_deposit_inv(1) [OF F step_deposit(2,1)])
next
  case (step_withdraw p i a s s')
  show ?case by (rule api_withdraw_inv(1) [OF F step_withdraw(2,1)])
next
  case (step_distribute p c a s s')
  then obtain r where "distribute_reward F m p c r s = Inr ((), s')" by (auto simp: api_distribute_reward_def rbind_Inr_iff)
  from distribute_effect [OF F this] show ?case
    using step_distribute(2) distributed_inv [of s F p c r s'] by (cases "r = 0") simp_all
next
  case (step_reward p i c s n s')
  then obtain r where "withdraw_reward F p i c s = Inr (r, s')" by (auto simp: api_withdraw_reward_def rbind_Inr_iff)
  from withdraw_reward_effect [OF F this] show ?case by (rule settled_inv [OF step_reward(2)])
qed

lemma empty_pool_inv: "reward_inv empty_pool"
  by (simp add: reward_inv_def stakes_ok_def currencies_ok_def empty_pool_def stakers_def inner_ok_def)

text \<open>
  In every state that the operations of the reward pallet reach from empty storage, the total stake
  of a pool is the sum of the stakes of its finitely many stakers, no stake is negative, and the reward
  currencies of a pool are sorted and without duplicates.
\<close>

theorem reachable_total_stake:
  assumes "fixed_laws F" and "(reward_step F m)\<^sup>*\<^sup>* empty_pool s"
  shows "finite {i. Stake s (p, i) \<noteq> 0} \<and> TotalStake s p = (\<Sum>i | Stake s (p, i) \<noteq> 0. Stake s (p, i))
     \<and> (\<forall>i. 0 \<le> Stake s (p, i)) \<and> sorted (RewardCurrencies s p) \<and> distinct (RewardCurrencies s p)"
proof -
  from assms(2) have "reward_inv s"
    by (induction rule: rtranclp_induct) (auto intro: empty_pool_inv reward_step_inv [OF assms(1)])
  then show ?thesis by (auto simp: reward_inv_def stakes_ok_def currencies_ok_def stakers_def)
qed

end
