(* ===== verification/Reward_Properties.thy ===== *)
theory Reward_Properties
  imports Reward_Accounting
begin

text \<open>
  What the reward pallet promises. The trait \<^verbatim>\<open>RewardsApi\<close> is the locale \<open>rewards_api\<close>: laws of the
  methods that an implementation provides, from which the methods that the trait implements itself
  (\<open>set_stake\<close>, \<open>withdraw_all_stake\<close>) get their meaning. The pallet is an interpretation of it.
\<close>

subsection \<open>The trait\<close>

locale rewards_api =
  fixes get_stake :: "'st \<Rightarrow> 'p \<Rightarrow> 's \<Rightarrow> ('e, nat) result"
    and deposit :: "'p \<Rightarrow> 's \<Rightarrow> nat \<Rightarrow> ('st, 'e, unit) action"
    and withdraw :: "'p \<Rightarrow> 's \<Rightarrow> nat \<Rightarrow> ('st, 'e, unit) action"
    and invar :: "'st \<Rightarrow> bool"
  assumes get_stake_defined: "invar s \<Longrightarrow> \<exists>n. get_stake s p i = Inr n"
    and deposit_invar: "invar s \<Longrightarrow> deposit p i a s = Inr ((), s') \<Longrightarrow> invar s'"
    and deposit_adds: "invar s \<Longrightarrow> deposit p i a s = Inr ((), s') \<Longrightarrow> get_stake s p i = Inr n \<Longrightarrow> get_stake s' p i = Inr (n + a)"
    and deposit_frame: "invar s \<Longrightarrow> deposit p i a s = Inr ((), s') \<Longrightarrow> (p', i') \<noteq> (p, i) \<Longrightarrow> get_stake s' p' i' = get_stake s p' i'"
    and withdraw_invar: "invar s \<Longrightarrow> withdraw p i a s = Inr ((), s') \<Longrightarrow> invar s'"
    and withdraw_subtracts:
      "invar s \<Longrightarrow> withdraw p i a s = Inr ((), s') \<Longrightarrow> get_stake s p i = Inr n \<Longrightarrow> a \<le> n \<and> get_stake s' p i = Inr (n - a)"
    and withdraw_frame: "invar s \<Longrightarrow> withdraw p i a s = Inr ((), s') \<Longrightarrow> (p', i') \<noteq> (p, i) \<Longrightarrow> get_stake s' p' i' = get_stake s p' i'"
begin

lemma set_stake_correct:
  assumes inv: "invar s" and run: "set_stake get_stake deposit withdraw p i a s = Inr ((), s')"
  shows "invar s'" and "get_stake s' p i = Inr a" and "(p', i') \<noteq> (p, i) \<Longrightarrow> get_stake s' p' i' = get_stake s p' i'"
proof -
  obtain n where n: "get_stake s p i = Inr n" using get_stake_defined [OF inv] by blast
  consider (less) "n < a" "deposit p i (a - n) s = Inr ((), s')" | (more) "a < n" "withdraw p i (n - a) s = Inr ((), s')"
    | (same) "n = a" "s' = s"
    using run n by (auto simp: set_stake_def split: if_splits)
  then have "invar s' \<and> get_stake s' p i = Inr a \<and> ((p', i') \<noteq> (p, i) \<longrightarrow> get_stake s' p' i' = get_stake s p' i')"
  proof cases
    case less
    then show ?thesis using deposit_invar [OF inv less(2)] deposit_adds [OF inv less(2) n] deposit_frame [OF inv less(2)] by simp
  next
    case more
    then show ?thesis using withdraw_invar [OF inv more(2)] withdraw_subtracts [OF inv more(2) n] withdraw_frame [OF inv more(2)] by simp
  qed (simp add: inv n)
  then show "invar s'" "get_stake s' p i = Inr a" "(p', i') \<noteq> (p, i) \<Longrightarrow> get_stake s' p' i' = get_stake s p' i'" by blast+
qed

lemma withdraw_all_correct:
  assumes inv: "invar s" and run: "withdraw_all_stake get_stake withdraw p i s = Inr (n, s')"
  shows "get_stake s p i = Inr n" and "get_stake s' p i = Inr 0" and "invar s'"
proof -
  have "get_stake s p i = Inr n" "withdraw p i n s = Inr ((), s')"
    using run by (auto simp: withdraw_all_stake_def rbind_Inr_iff)
  then show "get_stake s p i = Inr n" "get_stake s' p i = Inr 0" "invar s'"
    using withdraw_subtracts [OF inv] withdraw_invar [OF inv] by auto
qed

end

subsection \<open>The pallet implements the trait\<close>

lemma api_get_stake_eq:
  assumes "fixed_laws F" and "reward_inv s"
  shows "api_get_stake F s p i = Inr (nat (Stake s (p, i) div accuracy F))"
proof -
  note acc = fixed_lawsD(1) [OF assms(1)] and st = inv_stake [OF assms(2), of "(p, i)"]
  have "Stake s (p, i) div accuracy F \<le> Stake s (p, i)" using zdiv_mono2 [of "Stake s (p, i)" 1 "accuracy F"] acc st by simp
  moreover have "0 \<le> Stake s (p, i) div accuracy F" using acc st by (simp add: pos_imp_zdiv_nonneg_iff)
  ultimately show ?thesis
    using st truncate_nonneg [OF acc, of "Stake s (p, i)"] by (simp add: api_get_stake_def stake_def int_to_balance_def inner_ok_def)
qed

lemma stake_changed_stake:
  "stake_changed F p i sg a s s' \<Longrightarrow> Stake s' = (Stake s)((p, i) := Stake s (p, i) + sg * a)"
  by (auto simp: stake_changed_def)

interpretation reward_api: rewards_api "api_get_stake F" "api_deposit_stake F" "api_withdraw_stake F" "\<lambda>s. fixed_laws F \<and> reward_inv s"
  for F :: fixed_point
proof
  fix s s' :: "('a, 'b, 'c::linorder) reward_pool" and p p' :: 'a and i i' :: 'b and a n :: nat
  assume I: "fixed_laws F \<and> reward_inv s"
  then have F: "fixed_laws F" and inv: "reward_inv s" by auto
  note acc = fixed_lawsD(1) [OF F] and get = api_get_stake_eq [OF F]
  show "\<exists>n. api_get_stake F s p i = Inr n" using get [OF inv] by blast
  {
    assume run: "api_deposit_stake F p i a s = Inr ((), s')"
    note e = api_deposit_inv [OF F inv run]
    show "fixed_laws F \<and> reward_inv s'" using F e(1) by simp
    show "api_get_stake F s p i = Inr n \<Longrightarrow> api_get_stake F s' p i = Inr (n + a)"
      using get [OF inv] get [OF e(1)] stake_changed_stake [OF e(2)] acc inv_stake [OF inv, of "(p, i)"]
      by (simp add: nat_add_distrib pos_imp_zdiv_nonneg_iff)
    show "(p', i') \<noteq> (p, i) \<Longrightarrow> api_get_stake F s' p' i' = api_get_stake F s p' i'"
      using get [OF inv] get [OF e(1)] stake_changed_stake [OF e(2)] by auto
  }
  {
    assume run: "api_withdraw_stake F p i a s = Inr ((), s')"
    note e = api_withdraw_inv [OF F inv run]
    show "fixed_laws F \<and> reward_inv s'" using F e(1) by simp
    have "int a \<le> Stake s (p, i) div accuracy F" using zdiv_mono1 [OF e(3), of "accuracy F"] acc by simp
    moreover have "(Stake s (p, i) - int a * accuracy F) div accuracy F = Stake s (p, i) div accuracy F - int a"
      using acc div_mult_self1 [of "accuracy F" "Stake s (p, i)" "- int a"] by simp
    ultimately show "api_get_stake F s p i = Inr n \<Longrightarrow> a \<le> n \<and> api_get_stake F s' p i = Inr (n - a)"
      using get [OF inv] get [OF e(1)] stake_changed_stake [OF e(2)] by (auto simp: nat_diff_distrib)
    show "(p', i') \<noteq> (p, i) \<Longrightarrow> api_get_stake F s' p' i' = api_get_stake F s p' i'"
      using get [OF inv] get [OF e(1)] stake_changed_stake [OF e(2)] by auto
  }
qed

text \<open>
  Setting the stake of a staker through the trait makes it exactly the given amount, whatever it was
  before, and leaves every other stake as it was.
\<close>

theorem set_stake_sets_stake:
  assumes "fixed_laws F" and "reward_inv s"
    and "set_stake (api_get_stake F) (api_deposit_stake F) (api_withdraw_stake F) p i a s = Inr ((), s')"
  shows "api_get_stake F s' p i = Inr a \<and> reward_inv s'
     \<and> (\<forall>p' i'. (p', i') \<noteq> (p, i) \<longrightarrow> api_get_stake F s' p' i' = api_get_stake F s p' i')"
  using reward_api.set_stake_correct [OF conjI [OF assms(1,2)] assms(3)] by blast

subsection \<open>What is owed\<close>

text \<open>
  C34: Distributing a reward of a currency adds to what is owed to each staker the share of the reward
  in proportion to the stake, and in total the reward, both up to the rounding of one division; the
  recorded total of unclaimed rewards grows by exactly the reward, and nothing else is owed differently.
\<close>

theorem distribute_reward_proportional:
  assumes F: "fixed_laws F" and inv: "reward_inv s" and run: "distribute_reward F m p c r s = Inr ((), s')" and r: "r \<noteq> 0"
  shows "(\<forall>i. \<bar>(owed F s' c p i - owed F s c p i) * TotalStake s p - Stake s (p, i) * r * accuracy F\<bar> \<le> Stake s (p, i) * TotalStake s p)
     \<and> \<bar>(\<Sum>i\<in>stakers s p. owed F s' c p i - owed F s c p i) - r * accuracy F\<bar> < TotalStake s p
     \<and> TotalRewards s' c = TotalRewards s c + r
     \<and> (\<forall>c' p' i. (c', p') \<noteq> (c, p) \<longrightarrow> owed F s' c' p' i = owed F s c' p' i)"
proof -
  let ?T = "TotalStake s p"
  obtain d cs es where d: "\<bar>d * ?T - r * accuracy F\<bar> < \<bar>?T\<bar>"
    and s': "s' = s\<lparr>RewardCurrencies := (RewardCurrencies s)(p := cs),
          RewardPerToken := (RewardPerToken s)(c := (RewardPerToken s c)(p := RewardPerToken s c p + d)),
          TotalRewards := (TotalRewards s)(c := TotalRewards s c + r), reward_events := es\<rparr>"
    using distribute_effect [OF F run] r by (auto simp: distributed_def)
  have ok: "stakes_ok s" using inv by (simp add: reward_inv_def)
  then have T: "?T = (\<Sum>i\<in>stakers s p. Stake s (p, i))" "0 \<le> ?T"
    using total_stake_nonneg [OF ok] by (auto simp: stakes_ok_def)
  have diff: "owed F s' c p i - owed F s c p i = Stake s (p, i) * d" for i by (simp add: s' owed_def algebra_simps)
  have "\<bar>(owed F s' c p i - owed F s c p i) * ?T - Stake s (p, i) * r * accuracy F\<bar> \<le> Stake s (p, i) * ?T" for i
  proof -
    have "(owed F s' c p i - owed F s c p i) * ?T - Stake s (p, i) * r * accuracy F = Stake s (p, i) * (d * ?T - r * accuracy F)"
      unfolding diff by (simp add: algebra_simps)
    then show ?thesis using d T(2) inv_stake [OF inv, of "(p, i)"] by (simp add: abs_mult mult_left_mono)
  qed
  moreover have "(\<Sum>i\<in>stakers s p. owed F s' c p i - owed F s c p i) = ?T * d" unfolding diff T(1) by (simp add: sum_distrib_right)
  then have "\<bar>(\<Sum>i\<in>stakers s p. owed F s' c p i - owed F s c p i) - r * accuracy F\<bar> < ?T" using d T(2) by (simp add: mult.commute)
  moreover have "owed F s' c' p' i = owed F s c' p' i" if "(c', p') \<noteq> (c, p)" for c' p' i using that by (auto simp: s' owed_def)
  ultimately show ?thesis using s' by simp
qed

text \<open>
  Depositing or withdrawing stake changes what is owed to the staker by less than one unit in the
  last place of the fixed-point numbers, and nothing that is owed to anyone else.
\<close>

theorem stake_changes_keep_owed:
  assumes F: "fixed_laws F" and inv: "reward_inv s"
    and run: "api_deposit_stake F p i a s = Inr ((), s') \<or> api_withdraw_stake F p i a s = Inr ((), s')"
  shows "\<bar>owed F s' c p i - owed F s c p i\<bar> < accuracy F \<and> (\<forall>p' i'. (p', i') \<noteq> (p, i) \<longrightarrow> owed F s' c p' i' = owed F s c p' i')"
proof -
  obtain sg where "\<bar>sg\<bar> = 1" "stake_changed F p i sg (int a * accuracy F) s s'"
    using run api_deposit_inv(2) [OF F inv] api_withdraw_inv(2) [OF F inv] by (metis abs_1 abs_minus_cancel)
  then show ?thesis using stake_changed_owed [OF inv fixed_lawsD(1) [OF F]] by blast
qed

text \<open>
  Withdrawing a reward pays what is owed rounded to whole units, off by less than one unit plus one
  unit in the last place, and takes exactly that from the unclaimed total. Afterwards less than one unit
  in the last place is owed, and a second withdrawal pays nothing.
\<close>

theorem withdraw_reward_settles:
  assumes F: "fixed_laws F" and run: "withdraw_reward F p i c s = Inr (n, s')"
  shows "\<bar>owed F s c p i - n * accuracy F * accuracy F\<bar> < accuracy F * accuracy F + accuracy F
     \<and> TotalRewards s' c = TotalRewards s c - n * accuracy F
     \<and> \<bar>owed F s' c p i\<bar> < accuracy F
     \<and> (\<forall>n' s''. withdraw_reward F p i c s' = Inr (n', s'') \<longrightarrow> n' = 0)"
proof -
  let ?a = "accuracy F"
  note acc = fixed_lawsD(1) [OF F]
  obtain v es where v: "fp_mul F (Stake s (p, i)) (RewardPerToken s c p) = Some v"
    and n: "truncate_to_inner F (v - RewardTally s c (p, i)) = Some n"
    and s': "s' = s\<lparr>TotalRewards := (TotalRewards s)(c := TotalRewards s c - n * ?a),
          RewardTally := (RewardTally s)(c := (RewardTally s c)((p, i) := v)), reward_events := es\<rparr>"
    using withdraw_reward_effect [OF F run] by (auto simp: settled_def)
  note m = fixed_lawsD(4) [OF F v]
  have own: "\<bar>owed F s' c p i\<bar> < ?a" using m by (simp add: s' owed_def abs_minus_commute)
  have "owed F s c p i - n * ?a * ?a = (v - RewardTally s c (p, i) - n * ?a) * ?a - (v * ?a - Stake s (p, i) * RewardPerToken s c p)"
    by (simp add: owed_def algebra_simps)
  moreover have "\<bar>(v - RewardTally s c (p, i) - n * ?a) * ?a\<bar> \<le> ?a * ?a"
    using truncate_remainder(1) [OF acc n] acc by (simp add: abs_mult)
  ultimately have "\<bar>owed F s c p i - n * ?a * ?a\<bar> < ?a * ?a + ?a" using m by linarith
  moreover have "n' = 0" if again: "withdraw_reward F p i c s' = Inr (n', s'')" for n' s''
  proof -
    have "truncate_to_inner F (v - v) = Some n'"
      using withdraw_reward_effect [OF F again] v by (auto simp: settled_def s')
    then show ?thesis using truncate_small [of 0 F] acc by simp
  qed
  ultimately show ?thesis using own s' by simp
qed

text \<open>
  A new staker has no claim on rewards that were distributed before the deposit: with no stake and
  no tally before, the reward computed right after the deposit is zero whenever it is computed.
\<close>

theorem late_staker_owed_nothing:
  assumes F: "fixed_laws F" and inv: "reward_inv s" and new: "Stake s (p, i) = 0" "RewardTally s c (p, i) = 0"
    and run: "api_deposit_stake F p i a s = Inr ((), s')" and "2 < accuracy F"
    and r: "compute_reward F s' p i c = Inr n"
  shows "n = 0"
proof -
  let ?a = "accuracy F"
  have own: "\<bar>owed F s' c p i\<bar> < ?a"
    using stake_changed_owed(1) [OF inv fixed_lawsD(1) [OF F] api_deposit_inv(2) [OF F inv run], of c] new by (simp add: owed_def)
  obtain v d where v: "fp_mul F (Stake s' (p, i)) (RewardPerToken s' c p) = Some v"
    and d: "fp_sub F v (RewardTally s' c (p, i)) = Some d" and n: "truncate_to_inner F d = Some n"
    using r by (auto simp: compute_reward_def rbind_Inr_iff stake_def)
  have "d * ?a = (v * ?a - Stake s' (p, i) * RewardPerToken s' c p) + owed F s' c p i"
    unfolding fixed_lawsD(3) [OF F d] by (simp add: owed_def algebra_simps)
  then have "\<bar>d * ?a\<bar> < 2 * ?a" using own fixed_lawsD(4) [OF F v] by linarith
  then have "\<bar>d\<bar> < 2" using assms(6) by (simp add: abs_mult)
  then show ?thesis using truncate_small [of d F] n assms(6) by simp
qed

subsection \<open>A concrete pool\<close>

type_synonym sample_pool = "(nat, nat, nat) reward_pool"

definition staked_pool :: sample_pool where
  "staked_pool = empty_pool\<lparr>Stake := (\<lambda>_. 0)((0, 1) := 3 * 10 ^ 18), TotalStake := (\<lambda>_. 0)(0 := 3 * 10 ^ 18),
     reward_events := [DepositStake 0 1 (3 * 10 ^ 18)]\<rparr>"

definition funded_pool :: sample_pool where
  "funded_pool = staked_pool\<lparr>RewardCurrencies := (\<lambda>_. [])(0 := [7]), RewardPerToken := (\<lambda>_ _. 0)(7 := (\<lambda>_. 0)(0 := 2 * 10 ^ 18)),
     TotalRewards := (\<lambda>_. 0)(7 := 6 * 10 ^ 18), reward_events := [DepositStake 0 1 (3 * 10 ^ 18), DistributeReward 7 (6 * 10 ^ 18)]\<rparr>"

lemmas pool_run = api_deposit_stake_def deposit_stake_def checked_add_mut_def checked_sub_mut_def to_fixed_def decimal_fixed_def in_i128_def
  deposit_reward_event_def distribute_reward_def try_insert_def withdraw_reward_def compute_reward_def stake_def
  truncate_to_inner_def tdiv_def empty_pool_def staked_pool_def funded_pool_def

lemma staked_run: "api_deposit_stake decimal_fixed 0 1 3 empty_pool = Inr ((), staked_pool)"
  by (simp add: pool_run)

lemma funded_run: "distribute_reward decimal_fixed 5 0 7 (6 * 10 ^ 18) staked_pool = Inr ((), funded_pool)"
  by (simp add: pool_run)

lemma staked_inv: "reward_inv staked_pool"
  by (rule api_deposit_inv(1) [OF decimal_laws empty_pool_inv staked_run])

lemma funded_inv: "reward_inv funded_pool"
  using distribute_effect [OF decimal_laws funded_run] by (auto intro: distributed_inv [OF staked_inv])

lemma reachable_total_stake_witness:
  "finite {i. Stake staked_pool (0, i) \<noteq> 0} \<and> TotalStake staked_pool 0 = (\<Sum>i | Stake staked_pool (0, i) \<noteq> 0. Stake staked_pool (0, i))
     \<and> (\<forall>i. 0 \<le> Stake staked_pool (0, i)) \<and> sorted (RewardCurrencies staked_pool 0) \<and> distinct (RewardCurrencies staked_pool 0)"
proof -
  have "(reward_step decimal_fixed 5)\<^sup>*\<^sup>* empty_pool staked_pool"
    by (rule r_into_rtranclp) (rule step_deposit [OF staked_run])
  from reachable_total_stake [OF decimal_laws this] show ?thesis .
qed

lemma set_stake_witness:
  "\<exists>s'. set_stake (api_get_stake decimal_fixed) (api_deposit_stake decimal_fixed) (api_withdraw_stake decimal_fixed) 0 1 8 staked_pool = Inr ((), s')
     \<and> api_get_stake decimal_fixed s' 0 1 = Inr 8"
proof -
  have "\<exists>s'. set_stake (api_get_stake decimal_fixed) (api_deposit_stake decimal_fixed) (api_withdraw_stake decimal_fixed) 0 1 8 staked_pool = Inr ((), s')"
    by (simp add: set_stake_def api_get_stake_def int_to_balance_def pool_run)
  then show ?thesis using set_stake_sets_stake [OF decimal_laws staked_inv] by blast
qed

lemma distribute_witness:
  "\<bar>(owed decimal_fixed funded_pool 7 0 1 - owed decimal_fixed staked_pool 7 0 1) * TotalStake staked_pool 0
      - Stake staked_pool (0, 1) * (6 * 10 ^ 18) * accuracy decimal_fixed\<bar> \<le> Stake staked_pool (0, 1) * TotalStake staked_pool 0
     \<and> TotalRewards funded_pool 7 = TotalRewards staked_pool 7 + 6 * 10 ^ 18"
  using distribute_reward_proportional [OF decimal_laws staked_inv funded_run] by simp

lemma stake_changes_witness:
  "\<bar>owed decimal_fixed staked_pool 7 0 1 - owed decimal_fixed (empty_pool :: sample_pool) 7 0 1\<bar> < accuracy decimal_fixed"
  by (rule conjunct1 [OF stake_changes_keep_owed [OF decimal_laws empty_pool_inv disjI1 [OF staked_run]]])

lemma withdraw_reward_witness:
  "\<exists>s'. withdraw_reward decimal_fixed 0 1 7 funded_pool = Inr (6, s') \<and> TotalRewards s' 7 = 0"
proof -
  obtain s' where s': "withdraw_reward decimal_fixed 0 1 7 funded_pool = Inr (6, s')" by (simp add: pool_run)
  have "TotalRewards s' 7 = TotalRewards funded_pool 7 - 6 * accuracy decimal_fixed"
    using withdraw_reward_settles [OF decimal_laws s'] by blast
  then show ?thesis using s' by (simp add: funded_pool_def decimal_fixed_def)
qed

lemma late_staker_witness:
  "\<exists>s'. api_deposit_stake decimal_fixed 0 2 4 funded_pool = Inr ((), s') \<and> compute_reward decimal_fixed s' 0 2 7 = Inr 0"
proof -
  obtain s' n where s': "api_deposit_stake decimal_fixed 0 2 4 funded_pool = Inr ((), s')" "compute_reward decimal_fixed s' 0 2 7 = Inr n"
    by (simp add: pool_run)
  moreover have "n = 0"
    by (rule late_staker_owed_nothing [OF decimal_laws funded_inv _ _ s'(1) _ s'(2)]) (simp_all add: funded_pool_def staked_pool_def empty_pool_def decimal_fixed_def)
  ultimately show ?thesis by blast
qed

end
