(* ===== verification/Dispatch.thy ===== *)
theory Dispatch
  imports Prelude
begin

text \<open>
  Vocabulary that the pallets share: the identifiers of vaults (\<^verbatim>\<open>src/primitives/src/lib.rs\<close>) and the
  errors a dispatchable returns. Every pallet has its own error enumeration; \<open>dispatch_error\<close> is their
  sum, to which the question-mark operator converts. Accounts and currencies are type parameters.
\<close>

record 'c vault_currency_pair =
  pair_collateral :: 'c
  pair_wrapped :: 'c

record ('a, 'c) vault_id =
  vid_account :: 'a
  vid_currencies :: "'c vault_currency_pair"

definition vault_id_new :: "'a \<Rightarrow> 'c \<Rightarrow> 'c \<Rightarrow> ('a, 'c) vault_id" where
  "vault_id_new account_id collateral_currency wrapped_currency =
     \<lparr>vid_account = account_id,
      vid_currencies = \<lparr>pair_collateral = collateral_currency, pair_wrapped = wrapped_currency\<rparr>\<rparr>"

definition collateral_currency :: "('a, 'c) vault_id \<Rightarrow> 'c" where
  "collateral_currency v = pair_collateral (vid_currencies v)"

definition wrapped_currency :: "('a, 'c) vault_id \<Rightarrow> 'c" where
  "wrapped_currency v = pair_wrapped (vid_currencies v)"

datatype staking_error =
    StakingTryIntoIntError
  | StakingInsufficientFunds
  | SlashZeroTotalStake

datatype currency_error =
    CurrencyTryIntoIntError
  | CurrencyInvalidCurrency

datatype vault_registry_error =
    InsufficientCollateral
  | ExceedingVaultLimit
  | InsufficientTokensCommitted
  | VaultBanned
  | InsufficientVaultCollateralAmount
  | VaultAlreadyRegistered
  | VaultNotFound
  | VaultNotBelowLiquidationThreshold
  | InvalidPublicKey
  | CurrencyCeilingExceeded
  | VaultLiquidated
  | VaultNotRecoverable
  | NoBitcoinPublicKey
  | PublicKeyAlreadyRegistered
  | NoTokensIssued
  | NoVaultWithSufficientCollateral
  | NoVaultWithSufficientTokens
  | NoVaultUnderThePremiumRedeemThreshold
  | InvalidCurrency
  | ThresholdNotSet
  | CeilingNotSet
  | ThresholdNotAboveGlobalThreshold
  | VaultTryIntoIntError
  | VaultNotAcceptingIssueRequests
  | MinimumCollateralNotSet

datatype nomination_error =
    VaultAlreadyOptedInToNomination
  | VaultNotOptedInToNomination
  | NominationVaultNotFound
  | CannotWithdrawCollateral
  | VaultNominationDisabled
  | NominationExceedsLimit
  | CollateralizationTooLow

datatype fee_error = FeeTryIntoIntError | AboveMaxExpectedValue

datatype issue_error =
    IssueIdNotFound
  | CommitPeriodExpired
  | IssueTimeNotExpired
  | IssueCompleted
  | IssueCancelled
  | VaultNotAcceptingNewIssues
  | WaitingForRelayerInitialization
  | InvalidExecutor
  | IssueAmountBelowDustAmount

datatype redeem_error =
    AmountExceedsUserBalance
  | UnauthorizedRedeemer
  | RedeemUnauthorizedVault
  | RedeemTimeNotExpired
  | RedeemCancelled
  | RedeemCompleted
  | RedeemIdNotFound
  | RedeemTryIntoIntError
  | RedeemAmountBelowDustAmount

datatype replace_error =
    ReplaceAmountZero
  | ReplaceAmountBelowDustAmount
  | NoPendingRequest
  | ReplaceUnauthorizedVault
  | ReplaceSelfNotAllowed
  | VaultHasEnabledNomination
  | ReplacePeriodNotExpired
  | ReplaceCompleted
  | ReplaceCancelled
  | ReplaceIdNotFound
  | InvalidWrappedCurrency

datatype dex_general_error =
    Dex_InvalidFeeRate
  | Dex_UnsupportedAssetType
  | Dex_InsufficientAssetBalance
  | Dex_DeniedCreatePair
  | Dex_PairAlreadyExists
  | Dex_PairNotExists
  | Dex_AssetNotExists
  | Dex_InsufficientLiquidity
  | Dex_InsufficientPairReserve
  | Dex_InsufficientTargetAmount
  | Dex_ExcessiveSoldAmount
  | Dex_InvalidPath
  | Dex_IncorrectAssetAmountRange
  | Dex_Overflow
  | Dex_Deadline
  | Dex_InvariantCheckFailed
  | Dex_NotInBootstrap
  | Dex_InvalidContributionAmount
  | Dex_UnqualifiedBootstrap
  | Dex_ZeroContribute
  | Dex_DenyRefund
  | Dex_DisableBootstrap
  | Dex_NotQualifiedAccount
  | Dex_NoRewardTokens
  | Dex_ChargeRewardParamsError
  | Dex_ExistRewardsInBootstrap
  | Dex_TooManyRewards
  | Dex_TooManyLimits

datatype dex_stable_error =
    Stable_InvalidPooledCurrency
  | Stable_InvalidLpCurrency
  | Stable_MismatchParameter
  | Stable_InvalidCurrencyDecimal
  | Stable_InvalidPoolId
  | Stable_InvalidBasePool
  | Stable_Arithmetic
  | Stable_Deadline
  | Stable_InsufficientSupply
  | Stable_InsufficientReserve
  | Stable_CheckDFailed
  | Stable_AmountSlippage
  | Stable_SwapSameCurrency
  | Stable_CurrencyIndexOutRange
  | Stable_InsufficientLpReserve
  | Stable_ExceedThreshold
  | Stable_RampADelay
  | Stable_MinRampTime
  | Stable_ExceedMaxAChange
  | Stable_AlreadyStoppedRampA
  | Stable_ExceedMaxFee
  | Stable_ExceedMaxAdminFee
  | Stable_ZeroA
  | Stable_ExceedMaxA
  | Stable_LpCurrencyAlreadyUsed
  | Stable_RequireAllCurrencies
  | Stable_TooManyCurrencies
  | Stable_BadPoolCurrencySymbol
  | Stable_InvalidTransaction
  | Stable_InvalidBasePoolLpCurrency
  | Stable_TokenIndexOutOfRange

datatype router_error =
    Router_MismatchPoolAndCurrencyId
  | Router_Deadline
  | Router_InvalidRoutes
  | Router_ConvertCurrencyFailed
  | Router_AmountSlippage
  | Router_InvalidPath

datatype oracle_error =
    Oracle_InvalidOracleSource
  | Oracle_MissingExchangeRate
  | Oracle_TryIntoIntError

datatype escrow_error =
    Escrow_InputAmountZero
  | Escrow_LockFound
  | Escrow_LockNotFound
  | Escrow_UnlockHeightNotInTheFuture
  | Escrow_UnlockHeightTooFarInTheFuture
  | Escrow_LockAmountZero
  | Escrow_UnlockHeightMustIncrease
  | Escrow_LockNotExpired
  | Escrow_LockHasExpired
  | Escrow_LockAmountTooLow
  | Escrow_InsufficientFunds
  | Escrow_NotSupported
  | Escrow_IncorrectPercent

datatype loans_error =
    Loans_InsufficientLiquidity
  | Loans_InsufficientDeposit
  | Loans_TooMuchRepay
  | Loans_InsufficientCollateral
  | Loans_LiquidatorIsBorrower
  | Loans_DepositsAreNotCollateral
  | Loans_InsufficientShortfall
  | Loans_InsufficientReserves
  | Loans_InvalidRateModelParam
  | Loans_MarketNotActivated
  | Loans_InvalidLendTokenId
  | Loans_MarketDoesNotExist
  | Loans_MarketAlreadyActivated
  | Loans_MarketAlreadyExists
  | Loans_NewMarketMustHavePendingState
  | Loans_SupplyCapacityExceeded
  | Loans_BorrowCapacityExceeded
  | Loans_InsufficientCash
  | Loans_InvalidFactor
  | Loans_InvalidSupplyCap
  | Loans_InvalidExchangeRate
  | Loans_InvalidAmount
  | Loans_DepositAllCollateralFailed
  | Loans_WithdrawAllCollateralFailed
  | Loans_TokensAlreadyLocked
  | Loans_LockedTokensCannotBeRedeemed

datatype farming_error =
    Farming_InsufficientStake
  | Farming_BadRewardLength

text \<open>
  \<open>InvalidBtcHashError\<close> is an error of the relay that the redeem pallet raises itself.
  \<open>BalanceTooLow\<close> is the error of the token ledger that the sources raise themselves; \<open>ForeignError\<close> is an
  error that comes out of code that is a parameter of the model.
\<close>

datatype dispatch_error =
    ArithmeticError arithmetic_error
  | BadOriginError
  | BalanceTooLow
  | StakingError staking_error
  | CurrencyError currency_error
  | VaultRegistryError vault_registry_error
  | NominationError nomination_error
  | FeeError fee_error
  | IssueError issue_error
  | RedeemError redeem_error
  | ReplaceError replace_error
  | DexGeneralError dex_general_error
  | DexStableError dex_stable_error
  | RouterError router_error
  | OracleError oracle_error
  | EscrowError escrow_error
  | LoansError loans_error
  | FarmingError farming_error
  | InvalidBtcHashError
  | ForeignError nat

text \<open>The origin of a call, and the checks of \<^verbatim>\<open>frame_system\<close> on it.\<close>

datatype 'a origin = RootOrigin | SignedOrigin 'a | NoneOrigin

fun ensure_signed :: "'a origin \<Rightarrow> (dispatch_error, 'a) result" where
  "ensure_signed (SignedOrigin a) = Inr a"
| "ensure_signed _ = Inl (Err BadOriginError)"

fun ensure_root :: "'a origin \<Rightarrow> (dispatch_error, unit) result" where
  "ensure_root RootOrigin = Inr ()"
| "ensure_root _ = Inl (Err BadOriginError)"

lemma ensure_signed_Inr [simp]: "ensure_signed w = Inr a \<longleftrightarrow> w = SignedOrigin a"
  by (cases w) auto

lemma ensure_root_Inr [simp]: "ensure_root w = Inr u \<longleftrightarrow> w = RootOrigin"
  by (cases w) auto

end
