(* ===== verification/Staking.thy ===== *)
theory Staking
  imports Fixed_Point Dispatch
begin

text \<open>
  The staking pallet (\<^verbatim>\<open>src/crates/staking/src/lib.rs\<close>): the collateral that a vault and its nominators
  put up, with rewards and slashes that are distributed over it. A slash is recorded per unit of stake
  and applied to a nominator's stake lazily. Every pool has a nonce; a forced refund starts a new pool
  for the vault and leaves the nominators' stakes in the old one.

  Storage maps are \<^verbatim>\<open>ValueQuery\<close> double maps, hence total functions with default 0. Rewards are paid in
  the wrapped and in the native currency; \<open>native\<close> is the pallet's \<^verbatim>\<open>GetNativeCurrencyId\<close>. Nonces are
  32-bit numbers, as the runtime configures them.
\<close>

subsection \<open>Storage\<close>

datatype ('a, 'c) staking_event =
    StakingDepositStake "('a, 'c) vault_id" 'a fixed
  | StakingDistributeReward 'c "('a, 'c) vault_id" fixed
  | StakingWithdrawStake "('a, 'c) vault_id" 'a fixed
  | StakingWithdrawReward nat 'c "('a, 'c) vault_id" 'a fixed
  | StakingForceRefund "('a, 'c) vault_id"
  | StakingIncreaseNonce "('a, 'c) vault_id" nat

record ('a, 'c) staking_pool =
  PoolTotalStake :: "nat \<Rightarrow> ('a, 'c) vault_id \<Rightarrow> fixed"
  PoolTotalCurrentStake :: "nat \<Rightarrow> ('a, 'c) vault_id \<Rightarrow> fixed"
  PoolTotalRewards :: "'c \<Rightarrow> nat \<times> ('a, 'c) vault_id \<Rightarrow> fixed"
  PoolRewardPerToken :: "'c \<Rightarrow> nat \<times> ('a, 'c) vault_id \<Rightarrow> fixed"
  PoolSlashPerToken :: "nat \<Rightarrow> ('a, 'c) vault_id \<Rightarrow> fixed"
  PoolStake :: "nat \<Rightarrow> ('a, 'c) vault_id \<times> 'a \<Rightarrow> fixed"
  PoolRewardTally :: "'c \<Rightarrow> nat \<times> ('a, 'c) vault_id \<times> 'a \<Rightarrow> fixed"
  PoolSlashTally :: "nat \<Rightarrow> ('a, 'c) vault_id \<times> 'a \<Rightarrow> fixed"
  PoolNonce :: "('a, 'c) vault_id \<Rightarrow> nat"
  pool_events :: "('a, 'c) staking_event list"

type_synonym ('a, 'c, 'r) staking_action = "(('a, 'c) staking_pool, dispatch_error, 'r) action"

abbreviation put2 :: "('k \<Rightarrow> 'l \<Rightarrow> 'v) \<Rightarrow> 'k \<Rightarrow> 'l \<Rightarrow> 'v \<Rightarrow> 'k \<Rightarrow> 'l \<Rightarrow> 'v" where
  "put2 m k l v \<equiv> m(k := (m k)(l := v))"

abbreviation put_pool_stake :: "nat \<Rightarrow> ('a, 'c) vault_id \<times> 'a \<Rightarrow> fixed \<Rightarrow> ('a, 'c) staking_pool \<Rightarrow> ('a, 'c) staking_pool" where
  "put_pool_stake k l v s \<equiv> s\<lparr>PoolStake := put2 (PoolStake s) k l v\<rparr>"

abbreviation put_pool_total :: "nat \<Rightarrow> ('a, 'c) vault_id \<Rightarrow> fixed \<Rightarrow> ('a, 'c) staking_pool \<Rightarrow> ('a, 'c) staking_pool" where
  "put_pool_total k l v s \<equiv> s\<lparr>PoolTotalStake := put2 (PoolTotalStake s) k l v\<rparr>"

abbreviation put_pool_current :: "nat \<Rightarrow> ('a, 'c) vault_id \<Rightarrow> fixed \<Rightarrow> ('a, 'c) staking_pool \<Rightarrow> ('a, 'c) staking_pool" where
  "put_pool_current k l v s \<equiv> s\<lparr>PoolTotalCurrentStake := put2 (PoolTotalCurrentStake s) k l v\<rparr>"

abbreviation put_slash_per_token :: "nat \<Rightarrow> ('a, 'c) vault_id \<Rightarrow> fixed \<Rightarrow> ('a, 'c) staking_pool \<Rightarrow> ('a, 'c) staking_pool" where
  "put_slash_per_token k l v s \<equiv> s\<lparr>PoolSlashPerToken := put2 (PoolSlashPerToken s) k l v\<rparr>"

abbreviation put_slash_tally :: "nat \<Rightarrow> ('a, 'c) vault_id \<times> 'a \<Rightarrow> fixed \<Rightarrow> ('a, 'c) staking_pool \<Rightarrow> ('a, 'c) staking_pool" where
  "put_slash_tally k l v s \<equiv> s\<lparr>PoolSlashTally := put2 (PoolSlashTally s) k l v\<rparr>"

abbreviation put_pool_reward_tally :: "'c \<Rightarrow> nat \<times> ('a, 'c) vault_id \<times> 'a \<Rightarrow> fixed \<Rightarrow> ('a, 'c) staking_pool \<Rightarrow> ('a, 'c) staking_pool" where
  "put_pool_reward_tally k l v s \<equiv> s\<lparr>PoolRewardTally := put2 (PoolRewardTally s) k l v\<rparr>"

abbreviation put_pool_reward_per_token :: "'c \<Rightarrow> nat \<times> ('a, 'c) vault_id \<Rightarrow> fixed \<Rightarrow> ('a, 'c) staking_pool \<Rightarrow> ('a, 'c) staking_pool" where
  "put_pool_reward_per_token k l v s \<equiv> s\<lparr>PoolRewardPerToken := put2 (PoolRewardPerToken s) k l v\<rparr>"

abbreviation put_pool_total_rewards :: "'c \<Rightarrow> nat \<times> ('a, 'c) vault_id \<Rightarrow> fixed \<Rightarrow> ('a, 'c) staking_pool \<Rightarrow> ('a, 'c) staking_pool" where
  "put_pool_total_rewards k l v s \<equiv> s\<lparr>PoolTotalRewards := put2 (PoolTotalRewards s) k l v\<rparr>"

definition staking_deposit_event :: "('a, 'c) staking_event \<Rightarrow> ('a, 'c, unit) staking_action" where
  "staking_deposit_event e = smod (\<lambda>s. s\<lparr>pool_events := pool_events s @ [e]\<rparr>)"

subsection \<open>Fixed-point arithmetic with the pallet's errors\<close>

abbreviation mul_or_overflow :: "fixed_point \<Rightarrow> fixed \<Rightarrow> fixed \<Rightarrow> (dispatch_error, fixed) result" where
  "mul_or_overflow F a b \<equiv> ok_or (fp_mul F a b) (ArithmeticError Overflow)"

abbreviation add_or_overflow :: "fixed_point \<Rightarrow> fixed \<Rightarrow> fixed \<Rightarrow> (dispatch_error, fixed) result" where
  "add_or_overflow F a b \<equiv> ok_or (fp_add F a b) (ArithmeticError Overflow)"

abbreviation sub_or_underflow :: "fixed_point \<Rightarrow> fixed \<Rightarrow> fixed \<Rightarrow> (dispatch_error, fixed) result" where
  "sub_or_underflow F a b \<equiv> ok_or (fp_sub F a b) (ArithmeticError Underflow)"

abbreviation div_or_underflow :: "fixed_point \<Rightarrow> fixed \<Rightarrow> fixed \<Rightarrow> (dispatch_error, fixed) result" where
  "div_or_underflow F a b \<equiv> ok_or (fp_div F a b) (ArithmeticError Underflow)"

abbreviation int_or_error :: "'r option \<Rightarrow> (dispatch_error, 'r) result" where
  "int_or_error m \<equiv> ok_or m (StakingError StakingTryIntoIntError)"

text \<open>The macros \<^verbatim>\<open>checked_add_mut!\<close> and \<^verbatim>\<open>checked_sub_mut!\<close> write the new value and return it.\<close>

definition staking_add_mut :: "fixed_point \<Rightarrow> ('st \<Rightarrow> fixed) \<Rightarrow> (fixed \<Rightarrow> 'st \<Rightarrow> 'st) \<Rightarrow> fixed \<Rightarrow> ('st, dispatch_error, fixed) action" where
  "staking_add_mut F get put amount =
     sbind (slift (\<lambda>s. add_or_overflow F (get s) amount)) (\<lambda>v. sbind (smod (put v)) (\<lambda>_. sret v))"

definition staking_sub_mut :: "fixed_point \<Rightarrow> ('st \<Rightarrow> fixed) \<Rightarrow> (fixed \<Rightarrow> 'st \<Rightarrow> 'st) \<Rightarrow> fixed \<Rightarrow> ('st, dispatch_error, fixed) action" where
  "staking_sub_mut F get put amount =
     sbind (slift (\<lambda>s. sub_or_underflow F (get s) amount)) (\<lambda>v. sbind (smod (put v)) (\<lambda>_. sret v))"

subsection \<open>Reading the pool\<close>

definition stake_at_index :: "('a, 'c) staking_pool \<Rightarrow> nat \<Rightarrow> ('a, 'c) vault_id \<Rightarrow> 'a \<Rightarrow> fixed" where
  "stake_at_index s nonce vault_id nominator_id = PoolStake s nonce (vault_id, nominator_id)"

definition slash_tally_at_index :: "('a, 'c) staking_pool \<Rightarrow> nat \<Rightarrow> ('a, 'c) vault_id \<Rightarrow> 'a \<Rightarrow> fixed" where
  "slash_tally_at_index s nonce vault_id nominator_id = PoolSlashTally s nonce (vault_id, nominator_id)"

definition slash_per_token_at_index :: "('a, 'c) staking_pool \<Rightarrow> nat \<Rightarrow> ('a, 'c) vault_id \<Rightarrow> fixed" where
  "slash_per_token_at_index s nonce vault_id = PoolSlashPerToken s nonce vault_id"

definition total_current_stake :: "fixed_point \<Rightarrow> ('a, 'c) staking_pool \<Rightarrow> ('a, 'c) vault_id \<Rightarrow> (dispatch_error, int) result" where
  "total_current_stake F s vault_id =
     int_or_error (truncate_to_inner F (PoolTotalCurrentStake s (PoolNonce s vault_id) vault_id))"

definition compute_amount_to_slash :: "fixed_point \<Rightarrow> fixed \<Rightarrow> fixed \<Rightarrow> fixed \<Rightarrow> (dispatch_error, fixed) result" where
  "compute_amount_to_slash F stake slash_per_token slash_tally =
     rbind (mul_or_overflow F stake slash_per_token) (\<lambda>stake_mul_slash_per_token.
     sub_or_underflow F stake_mul_slash_per_token slash_tally)"

definition compute_precise_stake_at_index ::
  "fixed_point \<Rightarrow> ('a, 'c) staking_pool \<Rightarrow> nat \<Rightarrow> ('a, 'c) vault_id \<Rightarrow> 'a \<Rightarrow> (dispatch_error, fixed) result" where
  "compute_precise_stake_at_index F s nonce vault_id nominator_id =
     rbind (compute_amount_to_slash F (stake_at_index s nonce vault_id nominator_id)
              (slash_per_token_at_index s nonce vault_id) (slash_tally_at_index s nonce vault_id nominator_id)) (\<lambda>to_slash.
     rbind (sub_or_underflow F (stake_at_index s nonce vault_id nominator_id) to_slash) (\<lambda>stake_sub_to_slash.
     Inr (max 0 stake_sub_to_slash)))"

definition compute_stake_at_index ::
  "fixed_point \<Rightarrow> ('a, 'c) staking_pool \<Rightarrow> nat \<Rightarrow> ('a, 'c) vault_id \<Rightarrow> 'a \<Rightarrow> (dispatch_error, int) result" where
  "compute_stake_at_index F s nonce vault_id nominator_id =
     rbind (compute_precise_stake_at_index F s nonce vault_id nominator_id) (\<lambda>x. int_or_error (truncate_to_inner F x))"

definition compute_stake :: "fixed_point \<Rightarrow> ('a, 'c) staking_pool \<Rightarrow> ('a, 'c) vault_id \<Rightarrow> 'a \<Rightarrow> (dispatch_error, int) result" where
  "compute_stake F s vault_id nominator_id = compute_stake_at_index F s (PoolNonce s vault_id) vault_id nominator_id"

definition compute_reward_at_index ::
  "fixed_point \<Rightarrow> ('a, 'c) staking_pool \<Rightarrow> nat \<Rightarrow> 'c \<Rightarrow> ('a, 'c) vault_id \<Rightarrow> 'a \<Rightarrow> (dispatch_error, int) result" where
  "compute_reward_at_index F s nonce currency_id vault_id nominator_id =
     rbind (compute_precise_stake_at_index F s nonce vault_id nominator_id) (\<lambda>stake.
     rbind (mul_or_overflow F stake (PoolRewardPerToken s currency_id (nonce, vault_id))) (\<lambda>stake_mul_reward_per_token.
     rbind (sub_or_underflow F stake_mul_reward_per_token (PoolRewardTally s currency_id (nonce, vault_id, nominator_id))) (\<lambda>difference.
     rbind (int_or_error (truncate_to_inner F difference)) (\<lambda>reward.
     Inr (max 0 reward)))))"

definition staking_compute_reward ::
  "fixed_point \<Rightarrow> ('a, 'c) staking_pool \<Rightarrow> 'c \<Rightarrow> ('a, 'c) vault_id \<Rightarrow> 'a \<Rightarrow> (dispatch_error, int) result" where
  "staking_compute_reward F s currency_id vault_id nominator_id =
     compute_reward_at_index F s (PoolNonce s vault_id) currency_id vault_id nominator_id"

subsection \<open>Operations\<close>

definition apply_slash :: "fixed_point \<Rightarrow> ('a, 'c) vault_id \<Rightarrow> 'a \<Rightarrow> ('a, 'c, fixed) staking_action" where
  "apply_slash F vault_id nominator_id =
     sbind (sget (\<lambda>s. PoolNonce s vault_id)) (\<lambda>nonce.
     sbind (sget (\<lambda>s. stake_at_index s nonce vault_id nominator_id)) (\<lambda>stake.
     sbind (sget (\<lambda>s. slash_per_token_at_index s nonce vault_id)) (\<lambda>slash_per_token.
     sbind (sget (\<lambda>s. slash_tally_at_index s nonce vault_id nominator_id)) (\<lambda>slash_tally.
     sbind (slift (\<lambda>_. compute_amount_to_slash F stake slash_per_token slash_tally)) (\<lambda>to_slash.
     sbind (staking_sub_mut F (\<lambda>s. PoolTotalStake s nonce vault_id) (put_pool_total nonce vault_id) to_slash) (\<lambda>_.
     sbind (staking_sub_mut F (\<lambda>s. PoolStake s nonce (vault_id, nominator_id)) (put_pool_stake nonce (vault_id, nominator_id)) to_slash) (\<lambda>stake'.
     sbind (slift (\<lambda>_. mul_or_overflow F stake' slash_per_token)) (\<lambda>tally.
     sbind (smod (put_slash_tally nonce (vault_id, nominator_id) tally)) (\<lambda>_.
     sret stake')))))))))"

primrec add_reward_tallies ::
  "fixed_point \<Rightarrow> nat \<Rightarrow> ('a, 'c) vault_id \<Rightarrow> 'a \<Rightarrow> fixed \<Rightarrow> 'c list \<Rightarrow> ('a, 'c, unit) staking_action" where
  "add_reward_tallies F nonce vault_id nominator_id amount [] = sret ()"
| "add_reward_tallies F nonce vault_id nominator_id amount (currency_id # rest) =
     sbind (slift (\<lambda>s. mul_or_overflow F (PoolRewardPerToken s currency_id (nonce, vault_id)) amount)) (\<lambda>m.
     sbind (slift (\<lambda>s. add_or_overflow F (PoolRewardTally s currency_id (nonce, vault_id, nominator_id)) m)) (\<lambda>v.
     sbind (smod (put_pool_reward_tally currency_id (nonce, vault_id, nominator_id) v)) (\<lambda>_.
     add_reward_tallies F nonce vault_id nominator_id amount rest)))"

primrec sub_reward_tallies ::
  "fixed_point \<Rightarrow> nat \<Rightarrow> ('a, 'c) vault_id \<Rightarrow> 'a \<Rightarrow> fixed \<Rightarrow> 'c list \<Rightarrow> ('a, 'c, unit) staking_action" where
  "sub_reward_tallies F nonce vault_id nominator_id amount [] = sret ()"
| "sub_reward_tallies F nonce vault_id nominator_id amount (currency_id # rest) =
     sbind (slift (\<lambda>s. mul_or_overflow F (PoolRewardPerToken s currency_id (nonce, vault_id)) amount)) (\<lambda>m.
     sbind (slift (\<lambda>s. sub_or_underflow F (PoolRewardTally s currency_id (nonce, vault_id, nominator_id)) m)) (\<lambda>v.
     sbind (smod (put_pool_reward_tally currency_id (nonce, vault_id, nominator_id) v)) (\<lambda>_.
     sub_reward_tallies F nonce vault_id nominator_id amount rest)))"

definition staking_deposit_stake :: "fixed_point \<Rightarrow> 'c \<Rightarrow> ('a, 'c) vault_id \<Rightarrow> 'a \<Rightarrow> fixed \<Rightarrow> ('a, 'c, unit) staking_action" where
  "staking_deposit_stake F native vault_id nominator_id amount =
     sbind (sget (\<lambda>s. PoolNonce s vault_id)) (\<lambda>nonce.
     sbind (apply_slash F vault_id nominator_id) (\<lambda>_.
     sbind (staking_add_mut F (\<lambda>s. PoolStake s nonce (vault_id, nominator_id)) (put_pool_stake nonce (vault_id, nominator_id)) amount) (\<lambda>_.
     sbind (staking_add_mut F (\<lambda>s. PoolTotalStake s nonce vault_id) (put_pool_total nonce vault_id) amount) (\<lambda>_.
     sbind (staking_add_mut F (\<lambda>s. PoolTotalCurrentStake s nonce vault_id) (put_pool_current nonce vault_id) amount) (\<lambda>_.
     sbind (slift (\<lambda>s. mul_or_overflow F (slash_per_token_at_index s nonce vault_id) amount)) (\<lambda>m.
     sbind (staking_add_mut F (\<lambda>s. PoolSlashTally s nonce (vault_id, nominator_id)) (put_slash_tally nonce (vault_id, nominator_id)) m) (\<lambda>_.
     sbind (add_reward_tallies F nonce vault_id nominator_id amount [wrapped_currency vault_id, native]) (\<lambda>_.
     staking_deposit_event (StakingDepositStake vault_id nominator_id amount)))))))))"

definition increase_rewards :: "fixed_point \<Rightarrow> nat \<Rightarrow> 'c \<Rightarrow> ('a, 'c) vault_id \<Rightarrow> fixed \<Rightarrow> ('a, 'c, fixed) staking_action" where
  "increase_rewards F nonce currency_id vault_id reward =
     sbind (sget (\<lambda>s. PoolTotalCurrentStake s nonce vault_id)) (\<lambda>total_current_stake.
     if total_current_stake = 0 then sret 0
     else
     sbind (slift (\<lambda>_. div_or_underflow F reward total_current_stake)) (\<lambda>reward_div_total_current_stake.
     sbind (staking_add_mut F (\<lambda>s. PoolRewardPerToken s currency_id (nonce, vault_id)) (put_pool_reward_per_token currency_id (nonce, vault_id)) reward_div_total_current_stake) (\<lambda>_.
     sret reward)))"

primrec replenish_rewards :: "fixed_point \<Rightarrow> nat \<Rightarrow> ('a, 'c) vault_id \<Rightarrow> fixed \<Rightarrow> 'c list \<Rightarrow> ('a, 'c, unit) staking_action" where
  "replenish_rewards F nonce vault_id amount [] = sret ()"
| "replenish_rewards F nonce vault_id amount (currency_id # rest) =
     sbind (slift (\<lambda>s. mul_or_overflow F (PoolRewardPerToken s currency_id (nonce, vault_id)) amount)) (\<lambda>m.
     sbind (increase_rewards F nonce currency_id vault_id m) (\<lambda>_.
     replenish_rewards F nonce vault_id amount rest))"

definition slash_stake :: "fixed_point \<Rightarrow> 'c \<Rightarrow> ('a, 'c) vault_id \<Rightarrow> fixed \<Rightarrow> ('a, 'c, unit) staking_action" where
  "slash_stake F native vault_id amount =
     sbind (sget (\<lambda>s. PoolNonce s vault_id)) (\<lambda>nonce.
     sbind (sget (\<lambda>s. PoolTotalStake s nonce vault_id)) (\<lambda>total_stake.
     if amount = 0 then sret ()
     else if total_stake = 0 then sfail (StakingError SlashZeroTotalStake)
     else
     sbind (slift (\<lambda>_. div_or_underflow F amount total_stake)) (\<lambda>amount_div_total_stake.
     sbind (staking_add_mut F (\<lambda>s. PoolSlashPerToken s nonce vault_id) (put_slash_per_token nonce vault_id) amount_div_total_stake) (\<lambda>_.
     sbind (staking_sub_mut F (\<lambda>s. PoolTotalCurrentStake s nonce vault_id) (put_pool_current nonce vault_id) amount) (\<lambda>_.
     replenish_rewards F nonce vault_id amount [wrapped_currency vault_id, native])))))"

definition staking_distribute_reward :: "fixed_point \<Rightarrow> 'c \<Rightarrow> ('a, 'c) vault_id \<Rightarrow> fixed \<Rightarrow> ('a, 'c, fixed) staking_action" where
  "staking_distribute_reward F currency_id vault_id reward =
     sbind (sget (\<lambda>s. PoolNonce s vault_id)) (\<lambda>nonce.
     sbind (increase_rewards F nonce currency_id vault_id reward) (\<lambda>reward'.
     if reward' = 0 then sret 0
     else
     sbind (staking_add_mut F (\<lambda>s. PoolTotalRewards s currency_id (nonce, vault_id)) (put_pool_total_rewards currency_id (nonce, vault_id)) reward') (\<lambda>_.
     sbind (staking_deposit_event (StakingDistributeReward currency_id vault_id reward')) (\<lambda>_.
     sret reward'))))"

definition staking_withdraw_stake ::
  "fixed_point \<Rightarrow> 'c \<Rightarrow> ('a, 'c) vault_id \<Rightarrow> 'a \<Rightarrow> fixed \<Rightarrow> nat option \<Rightarrow> ('a, 'c, unit) staking_action" where
  "staking_withdraw_stake F native vault_id nominator_id amount index =
     sbind (sget (\<lambda>s. case index of Some i \<Rightarrow> i | None \<Rightarrow> PoolNonce s vault_id)) (\<lambda>nonce.
     sbind (apply_slash F vault_id nominator_id) (\<lambda>stake.
     if amount = 0 then sret ()
     else if stake < amount then sfail (StakingError StakingInsufficientFunds)
     else
     sbind (staking_sub_mut F (\<lambda>s. PoolStake s nonce (vault_id, nominator_id)) (put_pool_stake nonce (vault_id, nominator_id)) amount) (\<lambda>_.
     sbind (staking_sub_mut F (\<lambda>s. PoolTotalStake s nonce vault_id) (put_pool_total nonce vault_id) amount) (\<lambda>_.
     sbind (staking_sub_mut F (\<lambda>s. PoolTotalCurrentStake s nonce vault_id) (put_pool_current nonce vault_id) amount) (\<lambda>_.
     sbind (smod (\<lambda>s. if PoolTotalStake s nonce vault_id = 0 then put_pool_current nonce vault_id 0 s else s)) (\<lambda>_.
     sbind (slift (\<lambda>s. mul_or_overflow F (slash_per_token_at_index s nonce vault_id) amount)) (\<lambda>m.
     sbind (staking_sub_mut F (\<lambda>s. PoolSlashTally s nonce (vault_id, nominator_id)) (put_slash_tally nonce (vault_id, nominator_id)) m) (\<lambda>_.
     sbind (sub_reward_tallies F nonce vault_id nominator_id amount [wrapped_currency vault_id, native]) (\<lambda>_.
     staking_deposit_event (StakingWithdrawStake vault_id nominator_id amount))))))))))"

definition withdraw_reward_at_index ::
  "fixed_point \<Rightarrow> nat \<Rightarrow> 'c \<Rightarrow> ('a, 'c) vault_id \<Rightarrow> 'a \<Rightarrow> ('a, 'c, int) staking_action" where
  "withdraw_reward_at_index F nonce currency_id vault_id nominator_id =
     sbind (apply_slash F vault_id nominator_id) (\<lambda>_.
     sbind (slift (\<lambda>s. compute_reward_at_index F s nonce currency_id vault_id nominator_id)) (\<lambda>reward.
     sbind (slift (\<lambda>_. int_or_error (fp_from_integer F reward))) (\<lambda>reward_as_fixed.
     sbind (staking_sub_mut F (\<lambda>s. PoolTotalRewards s currency_id (nonce, vault_id)) (put_pool_total_rewards currency_id (nonce, vault_id)) reward_as_fixed) (\<lambda>_.
     sbind (slift (\<lambda>s. mul_or_overflow F (stake_at_index s nonce vault_id nominator_id) (PoolRewardPerToken s currency_id (nonce, vault_id)))) (\<lambda>tally.
     sbind (smod (put_pool_reward_tally currency_id (nonce, vault_id, nominator_id) tally)) (\<lambda>_.
     sbind (staking_deposit_event (StakingWithdrawReward nonce currency_id vault_id nominator_id reward_as_fixed)) (\<lambda>_.
     sret reward)))))))"

definition staking_withdraw_reward :: "fixed_point \<Rightarrow> 'c \<Rightarrow> ('a, 'c) vault_id \<Rightarrow> 'a \<Rightarrow> ('a, 'c, int) staking_action" where
  "staking_withdraw_reward F currency_id vault_id nominator_id =
     sbind (sget (\<lambda>s. PoolNonce s vault_id)) (\<lambda>nonce. withdraw_reward_at_index F nonce currency_id vault_id nominator_id)"

definition increment_nonce :: "('a, 'c) vault_id \<Rightarrow> ('a, 'c, unit) staking_action" where
  "increment_nonce vault_id =
     sbind (slift (\<lambda>s. ok_or (checked_add_w 32 (PoolNonce s vault_id) 1) (ArithmeticError Overflow))) (\<lambda>nonce.
     sbind (smod (\<lambda>s. s\<lparr>PoolNonce := (PoolNonce s)(vault_id := nonce)\<rparr>)) (\<lambda>_.
     sbind (sget (\<lambda>s. PoolNonce s vault_id)) (\<lambda>new_nonce.
     staking_deposit_event (StakingIncreaseNonce vault_id new_nonce))))"

definition force_refund :: "fixed_point \<Rightarrow> 'c \<Rightarrow> ('a, 'c) vault_id \<Rightarrow> ('a, 'c, int) staking_action" where
  "force_refund F native vault_id =
     sbind (sget (\<lambda>s. PoolNonce s vault_id)) (\<lambda>nonce.
     sbind (sget (\<lambda>s. PoolTotalCurrentStake s nonce vault_id)) (\<lambda>total_current_stake.
     sbind (slift (\<lambda>s. compute_stake_at_index F s nonce vault_id (vid_account vault_id))) (\<lambda>n.
     sbind (slift (\<lambda>_. int_or_error (fp_from_integer F n))) (\<lambda>stake.
     sbind (staking_withdraw_stake F native vault_id (vid_account vault_id) stake (Some nonce)) (\<lambda>_.
     sbind (increment_nonce vault_id) (\<lambda>_.
     sbind (staking_deposit_stake F native vault_id (vid_account vault_id) stake) (\<lambda>_.
     sbind (staking_deposit_event (StakingForceRefund vault_id)) (\<lambda>_.
     slift (\<lambda>_. rbind (sub_or_underflow F total_current_stake stake) (\<lambda>d. int_or_error (truncate_to_inner F d)))))))))))"

subsection \<open>The traits \<^verbatim>\<open>RewardsApi\<close> and \<^verbatim>\<open>StakingApi\<close> for balances\<close>

type_synonym ('a, 'c) staking_pool_id = "nat option \<times> ('a, 'c) vault_id"

definition index_or_nonce :: "('a, 'c) staking_pool \<Rightarrow> ('a, 'c) staking_pool_id \<Rightarrow> nat" where
  "index_or_nonce s pool_id = (case fst pool_id of Some i \<Rightarrow> i | None \<Rightarrow> PoolNonce s (snd pool_id))"

definition sapi_distribute_reward :: "fixed_point \<Rightarrow> ('a, 'c) staking_pool_id \<Rightarrow> 'c \<Rightarrow> nat \<Rightarrow> ('a, 'c, unit) staking_action" where
  "sapi_distribute_reward F pool_id currency_id amount =
     sbind (slift (\<lambda>_. int_or_error (to_fixed F amount))) (\<lambda>x.
     sbind (staking_distribute_reward F currency_id (snd pool_id) x) (\<lambda>r.
     sbind (slift (\<lambda>_. int_or_error (truncate_to_inner F r))) (\<lambda>n.
     sbind (slift (\<lambda>_. int_or_error (int_to_balance n))) (\<lambda>_. sret ()))))"

definition sapi_compute_reward ::
  "fixed_point \<Rightarrow> ('a, 'c) staking_pool \<Rightarrow> ('a, 'c) staking_pool_id \<Rightarrow> 'a \<Rightarrow> 'c \<Rightarrow> (dispatch_error, nat) result" where
  "sapi_compute_reward F s pool_id nominator_id currency_id =
     rbind (compute_reward_at_index F s (index_or_nonce s pool_id) currency_id (snd pool_id) nominator_id) (\<lambda>r. int_or_error (int_to_balance r))"

definition sapi_withdraw_reward :: "fixed_point \<Rightarrow> ('a, 'c) staking_pool_id \<Rightarrow> 'a \<Rightarrow> 'c \<Rightarrow> ('a, 'c, nat) staking_action" where
  "sapi_withdraw_reward F pool_id nominator_id currency_id =
     sbind (sget (\<lambda>s. index_or_nonce s pool_id)) (\<lambda>nonce.
     sbind (withdraw_reward_at_index F nonce currency_id (snd pool_id) nominator_id) (\<lambda>r.
     slift (\<lambda>_. int_or_error (int_to_balance r))))"

definition sapi_deposit_stake :: "fixed_point \<Rightarrow> 'c \<Rightarrow> ('a, 'c) staking_pool_id \<Rightarrow> 'a \<Rightarrow> nat \<Rightarrow> ('a, 'c, unit) staking_action" where
  "sapi_deposit_stake F native pool_id nominator_id amount =
     sbind (slift (\<lambda>_. int_or_error (to_fixed F amount))) (staking_deposit_stake F native (snd pool_id) nominator_id)"

definition sapi_withdraw_stake :: "fixed_point \<Rightarrow> 'c \<Rightarrow> ('a, 'c) staking_pool_id \<Rightarrow> 'a \<Rightarrow> nat \<Rightarrow> ('a, 'c, unit) staking_action" where
  "sapi_withdraw_stake F native pool_id nominator_id amount =
     sbind (slift (\<lambda>_. int_or_error (to_fixed F amount))) (\<lambda>x.
     staking_withdraw_stake F native (snd pool_id) nominator_id x (fst pool_id))"

definition sapi_withdraw_all_stake :: "fixed_point \<Rightarrow> 'c \<Rightarrow> ('a, 'c) staking_pool_id \<Rightarrow> 'a \<Rightarrow> ('a, 'c, nat) staking_action" where
  "sapi_withdraw_all_stake F native pool_id nominator_id =
     sbind (sget (\<lambda>s. index_or_nonce s pool_id)) (\<lambda>nonce.
     sbind (slift (\<lambda>s. compute_precise_stake_at_index F s nonce (snd pool_id) nominator_id)) (\<lambda>amount.
     sbind (staking_withdraw_stake F native (snd pool_id) nominator_id amount (Some nonce)) (\<lambda>_.
     slift (\<lambda>_. rbind (int_or_error (truncate_to_inner F amount)) (\<lambda>n. int_or_error (int_to_balance n))))))"

definition sapi_get_total_stake :: "fixed_point \<Rightarrow> ('a, 'c) staking_pool \<Rightarrow> ('a, 'c) staking_pool_id \<Rightarrow> (dispatch_error, nat) result" where
  "sapi_get_total_stake F s pool_id =
     rbind (total_current_stake F s (snd pool_id)) (\<lambda>n. int_or_error (int_to_balance n))"

definition sapi_get_stake :: "fixed_point \<Rightarrow> ('a, 'c) staking_pool \<Rightarrow> ('a, 'c) staking_pool_id \<Rightarrow> 'a \<Rightarrow> (dispatch_error, nat) result" where
  "sapi_get_stake F s pool_id nominator_id =
     rbind (compute_stake_at_index F s (index_or_nonce s pool_id) (snd pool_id) nominator_id) (\<lambda>n. int_or_error (int_to_balance n))"

definition sapi_slash_stake :: "fixed_point \<Rightarrow> 'c \<Rightarrow> ('a, 'c) vault_id \<Rightarrow> nat \<Rightarrow> ('a, 'c, unit) staking_action" where
  "sapi_slash_stake F native vault_id amount =
     sbind (slift (\<lambda>_. int_or_error (to_fixed F amount))) (slash_stake F native vault_id)"

definition sapi_force_refund :: "fixed_point \<Rightarrow> 'c \<Rightarrow> ('a, 'c) vault_id \<Rightarrow> ('a, 'c, nat) staking_action" where
  "sapi_force_refund F native vault_id =
     sbind (force_refund F native vault_id) (\<lambda>n. slift (\<lambda>_. int_or_error (int_to_balance n)))"

end
