(* ===== verification/Staking_Accounting.thy ===== *)
theory Staking_Accounting
  imports Staking
begin

text \<open>
  The books of the staking pallet. The total stake of a pool is the sum of the recorded stakes, whatever
  the order of deposits, withdrawals, slashes and refunds. What a nominator's stake is worth changes only
  as intended: deposits and withdrawals move it by the amount, up to the rounding of the fixed-point
  arithmetic, and a slash takes the share of the stake.
\<close>

subsection \<open>Invariant\<close>

definition pool_ok :: "('a, 'c) staking_pool \<Rightarrow> bool" where
  "pool_ok s \<longleftrightarrow> (\<forall>k v. finite {n. PoolStake s k (v, n) \<noteq> 0}
     \<and> PoolTotalStake s k v = (\<Sum>n | PoolStake s k (v, n) \<noteq> 0. PoolStake s k (v, n)))"

definition empty_staking :: "('a, 'c) staking_pool" where
  "empty_staking = \<lparr>PoolTotalStake = \<lambda>_ _. 0, PoolTotalCurrentStake = \<lambda>_ _. 0, PoolTotalRewards = \<lambda>_ _. 0,
     PoolRewardPerToken = \<lambda>_ _. 0, PoolSlashPerToken = \<lambda>_ _. 0, PoolStake = \<lambda>_ _. 0, PoolRewardTally = \<lambda>_ _. 0,
     PoolSlashTally = \<lambda>_ _. 0, PoolNonce = \<lambda>_. 0, pool_events = []\<rparr>"

lemma pool_ok_empty: "pool_ok empty_staking"
  by (simp add: pool_ok_def empty_staking_def)

lemma pool_ok_shift:
  assumes ok: "pool_ok s"
    and st: "PoolStake s' = put2 (PoolStake s) k (v, n) (PoolStake s k (v, n) + d)"
    and to: "PoolTotalStake s' = put2 (PoolTotalStake s) k v (PoolTotalStake s k v + d)"
  shows "pool_ok s'"
proof -
  have fin: "finite {n. PoolStake s k' (v', n) \<noteq> 0}"
    "PoolTotalStake s k' v' = (\<Sum>n | PoolStake s k' (v', n) \<noteq> 0. PoolStake s k' (v', n))" for k' v'
    using ok by (auto simp: pool_ok_def)
  have cur: "(\<lambda>n'. PoolStake s' k (v, n')) = (\<lambda>n'. PoolStake s k (v, n'))(n := PoolStake s k (v, n) + d)"
    using st by auto
  note upd = sum_stakers_update [OF fin(1) [of k v], of n "PoolStake s k (v, n) + d"]
  have "finite {n. PoolStake s' k' (v', n) \<noteq> 0} \<and> PoolTotalStake s' k' v' = (\<Sum>n | PoolStake s' k' (v', n) \<noteq> 0. PoolStake s' k' (v', n))" for k' v'
  proof (cases "k' = k \<and> v' = v")
    case True
    then show ?thesis using upd fin(2) [of k v] to unfolding cur [symmetric] by simp
  next
    case False
    then have "PoolStake s' k' (v', n') = PoolStake s k' (v', n')" "PoolTotalStake s' k' v' = PoolTotalStake s k' v'" for n'
      using st to by auto
    then show ?thesis using fin [of k' v'] by simp
  qed
  then show ?thesis by (simp add: pool_ok_def)
qed

lemma pool_ok_same: "pool_ok s \<Longrightarrow> PoolStake s' = PoolStake s \<Longrightarrow> PoolTotalStake s' = PoolTotalStake s \<Longrightarrow> pool_ok s'"
  by (simp add: pool_ok_def)

subsection \<open>Effects of the operations\<close>

lemmas staking_mut_defs = staking_add_mut_def staking_sub_mut_def staking_deposit_event_def

definition slash_applied :: "fixed_point \<Rightarrow> ('a, 'c) vault_id \<Rightarrow> 'a \<Rightarrow> fixed \<Rightarrow> ('a, 'c) staking_pool \<Rightarrow> ('a, 'c) staking_pool \<Rightarrow> bool" where
  "slash_applied F v n r s s' \<longleftrightarrow> (\<exists>m t. let k = PoolNonce s v in
       fp_mul F (PoolStake s k (v, n)) (PoolSlashPerToken s k v) = Some m
     \<and> r = PoolStake s k (v, n) - (m - PoolSlashTally s k (v, n))
     \<and> fp_mul F r (PoolSlashPerToken s k v) = Some t
     \<and> s' = s\<lparr>PoolTotalStake := put2 (PoolTotalStake s) k v (PoolTotalStake s k v - (m - PoolSlashTally s k (v, n))),
         PoolStake := put2 (PoolStake s) k (v, n) r, PoolSlashTally := put2 (PoolSlashTally s) k (v, n) t\<rparr>)"

lemma apply_slash_effect:
  assumes F: "fixed_laws F" and run: "apply_slash F v n s = Inr (r, s')"
  shows "slash_applied F v n r s s'"
proof -
  let ?k = "PoolNonce s v"
  obtain m d w t where x: "fp_mul F (PoolStake s ?k (v, n)) (PoolSlashPerToken s ?k v) = Some m"
    "fp_sub F m (PoolSlashTally s ?k (v, n)) = Some d" "fp_sub F (PoolTotalStake s ?k v) d = Some w"
    "fp_sub F (PoolStake s ?k (v, n)) d = Some r" "fp_mul F r (PoolSlashPerToken s ?k v) = Some t"
    "s' = s\<lparr>PoolTotalStake := put2 (PoolTotalStake s) ?k v w, PoolStake := put2 (PoolStake s) ?k (v, n) r,
       PoolSlashTally := put2 (PoolSlashTally s) ?k (v, n) t\<rparr>"
    using run by (auto simp: apply_slash_def compute_amount_to_slash_def staking_mut_defs rbind_Inr_iff
        stake_at_index_def slash_per_token_at_index_def slash_tally_at_index_def)
  then show ?thesis
    using fixed_lawsD(3) [OF F x(2)] fixed_lawsD(3) [OF F x(3)] fixed_lawsD(3) [OF F x(4)]
    by (auto simp: slash_applied_def Let_def)
qed

lemma add_reward_tallies_effect:
  "add_reward_tallies F k v n a cs s = Inr ((), s') \<Longrightarrow> \<exists>f. s' = s\<lparr>PoolRewardTally := f\<rparr>"
proof (induction cs arbitrary: s)
  case (Cons c cs)
  then obtain w where "add_reward_tallies F k v n a cs (put_pool_reward_tally c (k, v, n) w s) = Inr ((), s')"
    by (auto simp: rbind_Inr_iff)
  from Cons.IH [OF this] show ?case by simp
qed (auto intro: exI [of _ "PoolRewardTally s'"])

lemma sub_reward_tallies_effect:
  "sub_reward_tallies F k v n a cs s = Inr ((), s') \<Longrightarrow> \<exists>f. s' = s\<lparr>PoolRewardTally := f\<rparr>"
proof (induction cs arbitrary: s)
  case (Cons c cs)
  then obtain w where "sub_reward_tallies F k v n a cs (put_pool_reward_tally c (k, v, n) w s) = Inr ((), s')"
    by (auto simp: rbind_Inr_iff)
  from Cons.IH [OF this] show ?case by simp
qed (auto intro: exI [of _ "PoolRewardTally s'"])

lemma increase_rewards_effect:
  "increase_rewards F k c v r s = Inr (x, s') \<Longrightarrow> \<exists>f. s' = s\<lparr>PoolRewardPerToken := f\<rparr>"
  by (auto simp: increase_rewards_def staking_mut_defs rbind_Inr_iff split: if_splits intro: exI [of _ "PoolRewardPerToken s"])

lemma replenish_rewards_effect:
  "replenish_rewards F k v a cs s = Inr ((), s') \<Longrightarrow> \<exists>f. s' = s\<lparr>PoolRewardPerToken := f\<rparr>"
proof (induction cs arbitrary: s)
  case (Cons c cs)
  then obtain m x s1 where "increase_rewards F k c v m s = Inr (x, s1)" "replenish_rewards F k v a cs s1 = Inr ((), s')"
    by (auto simp: rbind_Inr_iff)
  with Cons.IH increase_rewards_effect show ?case by fastforce
qed (auto intro: exI [of _ "PoolRewardPerToken s'"])

text \<open>A change of a stake by \<open>d\<close> in the pool with nonce \<open>k\<close>: the books that depend on it.\<close>

definition stake_moved ::
  "fixed_point \<Rightarrow> nat \<Rightarrow> ('a, 'c) vault_id \<Rightarrow> 'a \<Rightarrow> int \<Rightarrow> ('a, 'c) staking_pool \<Rightarrow> ('a, 'c) staking_pool \<Rightarrow> bool" where
  "stake_moved F k v n d s s' \<longleftrightarrow> (\<exists>m f es.
       \<bar>m * accuracy F - PoolSlashPerToken s k v * d\<bar> < accuracy F
     \<and> s' = s\<lparr>PoolStake := put2 (PoolStake s) k (v, n) (PoolStake s k (v, n) + d),
         PoolTotalStake := put2 (PoolTotalStake s) k v (PoolTotalStake s k v + d),
         PoolTotalCurrentStake := put2 (PoolTotalCurrentStake s) k v
           (if d < 0 \<and> PoolTotalStake s k v + d = 0 then 0 else PoolTotalCurrentStake s k v + d),
         PoolSlashTally := put2 (PoolSlashTally s) k (v, n) (PoolSlashTally s k (v, n) + m),
         PoolRewardTally := f, pool_events := es\<rparr>)"

lemma deposit_effect:
  assumes F: "fixed_laws F" and run: "staking_deposit_stake F native v n a s = Inr ((), s')" and a: "0 \<le> a"
  obtains r s1 where "slash_applied F v n r s s1" and "stake_moved F (PoolNonce s v) v n a s1 s'"
proof -
  let ?k = "PoolNonce s v"
  obtain r s1 where ap: "apply_slash F v n s = Inr (r, s1)"
    using run by (auto simp: staking_deposit_stake_def rbind_Inr_iff)
  obtain w1 w2 w3 m w4 s2 where x: "fp_add F (PoolStake s1 ?k (v, n)) a = Some w1" "fp_add F (PoolTotalStake s1 ?k v) a = Some w2"
    "fp_add F (PoolTotalCurrentStake s1 ?k v) a = Some w3" "fp_mul F (PoolSlashPerToken s1 ?k v) a = Some m"
    "fp_add F (PoolSlashTally s1 ?k (v, n)) m = Some w4"
    and t: "add_reward_tallies F ?k v n a [wrapped_currency v, native]
       (s1\<lparr>PoolStake := put2 (PoolStake s1) ?k (v, n) w1, PoolTotalStake := put2 (PoolTotalStake s1) ?k v w2,
         PoolTotalCurrentStake := put2 (PoolTotalCurrentStake s1) ?k v w3, PoolSlashTally := put2 (PoolSlashTally s1) ?k (v, n) w4\<rparr>) = Inr ((), s2)"
    and s': "s' = s2\<lparr>pool_events := pool_events s2 @ [StakingDepositStake v n a]\<rparr>"
    using run ap by (auto simp: staking_deposit_stake_def staking_mut_defs rbind_Inr_iff slash_per_token_at_index_def simp del: add_reward_tallies.simps)
  obtain f where "s2 = (s1\<lparr>PoolStake := put2 (PoolStake s1) ?k (v, n) w1, PoolTotalStake := put2 (PoolTotalStake s1) ?k v w2,
         PoolTotalCurrentStake := put2 (PoolTotalCurrentStake s1) ?k v w3, PoolSlashTally := put2 (PoolSlashTally s1) ?k (v, n) w4\<rparr>)\<lparr>PoolRewardTally := f\<rparr>"
    using add_reward_tallies_effect [OF t] by blast
  then have "stake_moved F ?k v n a s1 s'"
    unfolding stake_moved_def
    using s' a fixed_lawsD(2) [OF F x(1)] fixed_lawsD(2) [OF F x(2)] fixed_lawsD(2) [OF F x(3)] fixed_lawsD(4) [OF F x(4)] fixed_lawsD(2) [OF F x(5)]
    by (intro exI [of _ m] exI [of _ f] exI [of _ "pool_events s2 @ [StakingDepositStake v n a]"]) auto
  with that [OF apply_slash_effect [OF F ap]] show ?thesis by blast
qed

lemma put_current_if:
  "(if b then put_pool_current k v 0 s else s) = put_pool_current k v (if b then 0 else PoolTotalCurrentStake s k v) s"
  by simp

lemma withdraw_effect:
  assumes F: "fixed_laws F" and run: "staking_withdraw_stake F native v n a i s = Inr ((), s')" and a: "0 \<le> a"
  obtains r s1 where "slash_applied F v n r s s1" and "a \<le> r \<or> a = 0"
    and "if a = 0 then s' = s1 else stake_moved F (index_or_nonce s (i, v)) v n (- a) s1 s'"
proof -
  let ?k = "index_or_nonce s (i, v)"
  obtain r s1 where ap: "apply_slash F v n s = Inr (r, s1)"
    using run by (auto simp: staking_withdraw_stake_def rbind_Inr_iff)
  note e = apply_slash_effect [OF F ap]
  show ?thesis
  proof (cases "a = 0")
    case True
    then show ?thesis using that [OF e] run ap by (auto simp: staking_withdraw_stake_def)
  next
    case False
    have k: "(case i of Some i \<Rightarrow> i | None \<Rightarrow> PoolNonce s v) = ?k" by (cases i) (simp_all add: index_or_nonce_def)
    have le: "a \<le> r" using run ap False by (auto simp: staking_withdraw_stake_def split: if_splits)
    obtain w1 w2 w3 m w4 s2 where x: "fp_sub F (PoolStake s1 ?k (v, n)) a = Some w1" "fp_sub F (PoolTotalStake s1 ?k v) a = Some w2"
      "fp_sub F (PoolTotalCurrentStake s1 ?k v) a = Some w3" "fp_mul F (PoolSlashPerToken s1 ?k v) a = Some m"
      "fp_sub F (PoolSlashTally s1 ?k (v, n)) m = Some w4"
      and t: "sub_reward_tallies F ?k v n a [wrapped_currency v, native]
         (s1\<lparr>PoolStake := put2 (PoolStake s1) ?k (v, n) w1, PoolTotalStake := put2 (PoolTotalStake s1) ?k v w2,
           PoolTotalCurrentStake := put2 (PoolTotalCurrentStake s1) ?k v (if w2 = 0 then 0 else w3),
           PoolSlashTally := put2 (PoolSlashTally s1) ?k (v, n) w4\<rparr>) = Inr ((), s2)"
      and s': "s' = s2\<lparr>pool_events := pool_events s2 @ [StakingWithdrawStake v n a]\<rparr>"
      using run ap False le k
      by (auto simp: staking_withdraw_stake_def staking_mut_defs rbind_Inr_iff slash_per_token_at_index_def put_current_if simp del: sub_reward_tallies.simps cong: if_cong)
    obtain f where "s2 = (s1\<lparr>PoolStake := put2 (PoolStake s1) ?k (v, n) w1, PoolTotalStake := put2 (PoolTotalStake s1) ?k v w2,
           PoolTotalCurrentStake := put2 (PoolTotalCurrentStake s1) ?k v (if w2 = 0 then 0 else w3),
           PoolSlashTally := put2 (PoolSlashTally s1) ?k (v, n) w4\<rparr>)\<lparr>PoolRewardTally := f\<rparr>"
      using sub_reward_tallies_effect [OF t] by blast
    then have "stake_moved F ?k v n (- a) s1 s'"
      unfolding stake_moved_def
      using s' a False fixed_lawsD(3) [OF F x(1)] fixed_lawsD(3) [OF F x(2)] fixed_lawsD(3) [OF F x(3)] fixed_lawsD(4) [OF F x(4)] fixed_lawsD(3) [OF F x(5)]
      by (intro exI [of _ "- m"] exI [of _ f] exI [of _ "pool_events s2 @ [StakingWithdrawStake v n a]"]) auto
    then show ?thesis using that [OF e] le False by auto
  qed
qed

lemma slash_effect:
  assumes F: "fixed_laws F" and run: "slash_stake F native v a s = Inr ((), s')" and a: "a \<noteq> 0"
  obtains q f where "PoolTotalStake s (PoolNonce s v) v \<noteq> 0"
    and "\<bar>q * PoolTotalStake s (PoolNonce s v) v - a * accuracy F\<bar> < \<bar>PoolTotalStake s (PoolNonce s v) v\<bar>"
    and "s' = s\<lparr>PoolSlashPerToken := put2 (PoolSlashPerToken s) (PoolNonce s v) v (PoolSlashPerToken s (PoolNonce s v) v + q),
        PoolTotalCurrentStake := put2 (PoolTotalCurrentStake s) (PoolNonce s v) v (PoolTotalCurrentStake s (PoolNonce s v) v - a),
        PoolRewardPerToken := f\<rparr>"
proof -
  let ?k = "PoolNonce s v"
  have tot: "PoolTotalStake s ?k v \<noteq> 0" using run a by (auto simp: slash_stake_def split: if_splits)
  obtain q w1 w2 where x: "fp_div F a (PoolTotalStake s ?k v) = Some q" "fp_add F (PoolSlashPerToken s ?k v) q = Some w1"
    "fp_sub F (PoolTotalCurrentStake s ?k v) a = Some w2"
    and t: "replenish_rewards F ?k v a [wrapped_currency v, native]
      (s\<lparr>PoolSlashPerToken := put2 (PoolSlashPerToken s) ?k v w1, PoolTotalCurrentStake := put2 (PoolTotalCurrentStake s) ?k v w2\<rparr>) = Inr ((), s')"
    using run a tot by (auto simp: slash_stake_def staking_mut_defs rbind_Inr_iff simp del: replenish_rewards.simps)
  obtain f where "s' = (s\<lparr>PoolSlashPerToken := put2 (PoolSlashPerToken s) ?k v w1, PoolTotalCurrentStake := put2 (PoolTotalCurrentStake s) ?k v w2\<rparr>)\<lparr>PoolRewardPerToken := f\<rparr>"
    using replenish_rewards_effect [OF t] by blast
  then show ?thesis
    using that [of q f] tot fixed_lawsD(5) [OF F x(1)] fixed_lawsD(2) [OF F x(2)] fixed_lawsD(3) [OF F x(3)] by simp
qed

subsection \<open>The invariant is kept\<close>

lemma slash_applied_ok: "pool_ok s \<Longrightarrow> slash_applied F v n r s s' \<Longrightarrow> pool_ok s'"
proof -
  assume ok: "pool_ok s" and "slash_applied F v n r s s'"
  then obtain m where m: "PoolStake s' = put2 (PoolStake s) (PoolNonce s v) (v, n) (PoolStake s (PoolNonce s v) (v, n) - (m - PoolSlashTally s (PoolNonce s v) (v, n)))"
    "PoolTotalStake s' = put2 (PoolTotalStake s) (PoolNonce s v) v (PoolTotalStake s (PoolNonce s v) v - (m - PoolSlashTally s (PoolNonce s v) (v, n)))"
    by (auto simp: slash_applied_def Let_def)
  show "pool_ok s'"
    by (rule pool_ok_shift [OF ok, of _ "PoolNonce s v" v n "- (m - PoolSlashTally s (PoolNonce s v) (v, n))"]) (use m in \<open>simp_all only: diff_conv_add_uminus\<close>)
qed

lemma stake_moved_ok:
  assumes ok: "pool_ok s" and mv: "stake_moved F k v n d s s'"
  shows "pool_ok s'"
proof -
  have st: "PoolStake s' = put2 (PoolStake s) k (v, n) (PoolStake s k (v, n) + d)"
    and to: "PoolTotalStake s' = put2 (PoolTotalStake s) k v (PoolTotalStake s k v + d)"
    using mv by (auto simp: stake_moved_def)
  show ?thesis by (rule pool_ok_shift [OF ok st to])
qed

lemma deposit_ok:
  assumes "fixed_laws F" and "pool_ok s" and "staking_deposit_stake F native v n a s = Inr ((), s')" and "0 \<le> a"
  shows "pool_ok s'"
  using deposit_effect [OF assms(1,3,4)] assms(2) slash_applied_ok stake_moved_ok by metis

lemma withdraw_ok:
  assumes "fixed_laws F" and "pool_ok s" and "staking_withdraw_stake F native v n a i s = Inr ((), s')" and "0 \<le> a"
  shows "pool_ok s'"
  using withdraw_effect [OF assms(1,3,4)] assms(2) slash_applied_ok stake_moved_ok by metis

lemma slash_ok:
  assumes "fixed_laws F" and "pool_ok s" and run: "slash_stake F native v a s = Inr ((), s')"
  shows "pool_ok s'"
proof (cases "a = 0")
  case True
  then show ?thesis using run assms(2) by (simp add: slash_stake_def)
next
  case False
  from slash_effect [OF assms(1) run False] show ?thesis
    by (metis (mono_tags, lifting) assms(2) pool_ok_same staking_pool.simps staking_pool.surjective)
qed

end
