(* ===== verification/Staking_Properties.thy ===== *)
theory Staking_Properties
  imports Staking_Accounting
begin

text \<open>
  What the staking pallet promises: the books balance in every reachable state, deposits and slashes change
  what stakes are worth as intended, and when a withdrawal is refused.
\<close>

subsection \<open>What a stake is worth\<close>

text \<open>
  The worth of a stake is the stake less the slashes not applied yet, in units of the square of the
  accuracy, without rounding. The pallet's own computation is within one inner unit of it.
\<close>

definition worth :: "fixed_point \<Rightarrow> ('a, 'c) staking_pool \<Rightarrow> nat \<Rightarrow> ('a, 'c) vault_id \<Rightarrow> 'a \<Rightarrow> int" where
  "worth F s k v n = PoolStake s k (v, n) * (accuracy F - PoolSlashPerToken s k v) + PoolSlashTally s k (v, n) * accuracy F"

lemma precise_stake_worth:
  assumes F: "fixed_laws F" and p: "compute_precise_stake_at_index F s k v n = Inr p" and "0 \<le> worth F s k v n"
  shows "\<bar>p * accuracy F - worth F s k v n\<bar> < accuracy F"
proof -
  let ?A = "accuracy F" and ?S = "PoolStake s k (v, n)" and ?T = "PoolSlashTally s k (v, n)" and ?q = "PoolSlashPerToken s k v"
  obtain m d x where x: "fp_mul F ?S ?q = Some m" "fp_sub F m ?T = Some d" "fp_sub F ?S d = Some x" "p = max 0 x"
    using p by (auto simp: compute_precise_stake_at_index_def compute_amount_to_slash_def rbind_Inr_iff
        stake_at_index_def slash_per_token_at_index_def slash_tally_at_index_def)
  have "x = ?S - (m - ?T)" using fixed_lawsD(3) [OF F x(2)] fixed_lawsD(3) [OF F x(3)] by simp
  then have "x * ?A - worth F s k v n = - (m * ?A - ?S * ?q)" unfolding worth_def by (simp only:) (simp add: algebra_simps)
  then have near: "\<bar>x * ?A - worth F s k v n\<bar> < ?A" using fixed_lawsD(4) [OF F x(1)] by simp
  show ?thesis
  proof (cases "0 \<le> x")
    case False
    then have "x * ?A < 0" using fixed_lawsD(1) [OF F] by (simp add: mult_neg_pos)
    then show ?thesis using near False x(4) assms(3) by simp
  qed (use near x(4) in simp)
qed

lemma slash_applied_worth:
  assumes F: "fixed_laws F" and ap: "slash_applied F v n r s s'"
  shows "\<bar>worth F s' (PoolNonce s v) v n - worth F s (PoolNonce s v) v n\<bar> < 2 * accuracy F"
    and "(k', v', n') \<noteq> (PoolNonce s v, v, n) \<Longrightarrow> worth F s' k' v' n' = worth F s k' v' n'"
    and "PoolTotalCurrentStake s' = PoolTotalCurrentStake s" and "PoolNonce s' = PoolNonce s"
proof -
  let ?k = "PoolNonce s v" and ?A = "accuracy F"
  let ?S = "PoolStake s ?k (v, n)" and ?T = "PoolSlashTally s ?k (v, n)" and ?q = "PoolSlashPerToken s ?k v"
  obtain m t where x: "fp_mul F ?S ?q = Some m" "r = ?S - (m - ?T)" "fp_mul F r ?q = Some t"
    "s' = s\<lparr>PoolTotalStake := put2 (PoolTotalStake s) ?k v (PoolTotalStake s ?k v - (m - ?T)),
         PoolStake := put2 (PoolStake s) ?k (v, n) r, PoolSlashTally := put2 (PoolSlashTally s) ?k (v, n) t\<rparr>"
    using ap by (auto simp: slash_applied_def Let_def)
  have "worth F s' ?k v n = r * (?A - ?q) + t * ?A" by (simp add: worth_def x(4))
  then have "worth F s' ?k v n - worth F s ?k v n = (t * ?A - r * ?q) - (m * ?A - ?S * ?q)"
    unfolding worth_def x(2) by (simp add: algebra_simps)
  then show "\<bar>worth F s' ?k v n - worth F s ?k v n\<bar> < 2 * ?A"
    using fixed_lawsD(4) [OF F x(1)] fixed_lawsD(4) [OF F x(3)] by linarith
  show "(k', v', n') \<noteq> (?k, v, n) \<Longrightarrow> worth F s' k' v' n' = worth F s k' v' n'" by (auto simp: worth_def x(4))
  show "PoolTotalCurrentStake s' = PoolTotalCurrentStake s" "PoolNonce s' = PoolNonce s" by (simp_all add: x(4))
qed

lemma stake_moved_worth:
  assumes mv: "stake_moved F k v n d s s'"
  shows "\<bar>worth F s' k v n - (worth F s k v n + d * accuracy F)\<bar> < accuracy F"
    and "(k', v', n') \<noteq> (k, v, n) \<Longrightarrow> worth F s' k' v' n' = worth F s k' v' n'"
    and "PoolTotalCurrentStake s' = put2 (PoolTotalCurrentStake s) k v
      (if d < 0 \<and> PoolTotalStake s k v + d = 0 then 0 else PoolTotalCurrentStake s k v + d)"
    and "PoolNonce s' = PoolNonce s"
proof -
  let ?A = "accuracy F"
  obtain m f es where m: "\<bar>m * ?A - PoolSlashPerToken s k v * d\<bar> < ?A"
    "s' = s\<lparr>PoolStake := put2 (PoolStake s) k (v, n) (PoolStake s k (v, n) + d),
         PoolTotalStake := put2 (PoolTotalStake s) k v (PoolTotalStake s k v + d),
         PoolTotalCurrentStake := put2 (PoolTotalCurrentStake s) k v
           (if d < 0 \<and> PoolTotalStake s k v + d = 0 then 0 else PoolTotalCurrentStake s k v + d),
         PoolSlashTally := put2 (PoolSlashTally s) k (v, n) (PoolSlashTally s k (v, n) + m),
         PoolRewardTally := f, pool_events := es\<rparr>"
    using mv unfolding stake_moved_def by blast
  have "worth F s' k v n - (worth F s k v n + d * ?A) = m * ?A - PoolSlashPerToken s k v * d"
    by (simp add: worth_def m(2) algebra_simps)
  then show "\<bar>worth F s' k v n - (worth F s k v n + d * ?A)\<bar> < ?A" using m(1) by simp
  show "(k', v', n') \<noteq> (k, v, n) \<Longrightarrow> worth F s' k' v' n' = worth F s k' v' n'" by (auto simp: worth_def m(2))
  show "PoolTotalCurrentStake s' = put2 (PoolTotalCurrentStake s) k v
      (if d < 0 \<and> PoolTotalStake s k v + d = 0 then 0 else PoolTotalCurrentStake s k v + d)" "PoolNonce s' = PoolNonce s"
    by (simp_all add: m(2))
qed

subsection \<open>Reachable states\<close>

inductive staking_step :: "fixed_point \<Rightarrow> 'c \<Rightarrow> ('a, 'c) staking_pool \<Rightarrow> ('a, 'c) staking_pool \<Rightarrow> bool"
  for F native where
  stk_deposit: "sapi_deposit_stake F native p n a s = Inr ((), s') \<Longrightarrow> staking_step F native s s'"
| stk_withdraw: "sapi_withdraw_stake F native p n a s = Inr ((), s') \<Longrightarrow> staking_step F native s s'"
| stk_withdraw_all: "sapi_withdraw_all_stake F native p n s = Inr (x, s') \<Longrightarrow> staking_step F native s s'"
| stk_slash: "sapi_slash_stake F native v a s = Inr ((), s') \<Longrightarrow> staking_step F native s s'"
| stk_distribute: "sapi_distribute_reward F p c a s = Inr ((), s') \<Longrightarrow> staking_step F native s s'"
| stk_reward: "sapi_withdraw_reward F p n c s = Inr (x, s') \<Longrightarrow> staking_step F native s s'"
| stk_refund: "sapi_force_refund F native v s = Inr (x, s') \<Longrightarrow> staking_step F native s s'"

lemma to_fixed_nonneg: "fixed_laws F \<Longrightarrow> to_fixed F a = Some x \<Longrightarrow> 0 \<le> x"
  using to_fixed_exact fixed_lawsD(1) by fastforce

lemma precise_nonneg: "compute_precise_stake_at_index F s k v n = Inr p \<Longrightarrow> 0 \<le> p"
  by (auto simp: compute_precise_stake_at_index_def rbind_Inr_iff)

lemma computed_stake_nonneg:
  assumes "fixed_laws F" and "compute_stake_at_index F s k v n = Inr m" and "fp_from_integer F m = Some x"
  shows "0 \<le> x"
proof -
  obtain p where p: "compute_precise_stake_at_index F s k v n = Inr p" "truncate_to_inner F p = Some m"
    using assms(2) by (auto simp: compute_stake_at_index_def rbind_Inr_iff)
  have "0 \<le> m" using truncate_remainder(3) [OF fixed_lawsD(1) [OF assms(1)] p(2) precise_nonneg [OF p(1)]] .
  then show ?thesis using fixed_lawsD(1) [OF assms(1)] fixed_lawsD(6) [OF assms(1,3)] by simp
qed

lemma distribute_ok: "pool_ok s \<Longrightarrow> staking_distribute_reward F c v x s = Inr (r, s') \<Longrightarrow> pool_ok s'"
  by (auto simp: staking_distribute_reward_def staking_mut_defs rbind_Inr_iff split: if_splits
      dest!: increase_rewards_effect intro: pool_ok_same)

lemma withdraw_reward_ok:
  assumes F: "fixed_laws F" and "pool_ok s" and run: "withdraw_reward_at_index F k c v n s = Inr (r, s')"
  shows "pool_ok s'"
proof -
  obtain q s1 where ap: "apply_slash F v n s = Inr (q, s1)" and "PoolStake s' = PoolStake s1" "PoolTotalStake s' = PoolTotalStake s1"
    using run by (auto simp: withdraw_reward_at_index_def staking_mut_defs rbind_Inr_iff)
  then show ?thesis using slash_applied_ok [OF assms(2) apply_slash_effect [OF F ap]] pool_ok_same by blast
qed

lemma refund_ok:
  assumes F: "fixed_laws F" and ok: "pool_ok s" and run: "force_refund F native v s = Inr (r, s')"
  shows "pool_ok s'"
proof -
  let ?k = "PoolNonce s v" and ?n = "vid_account v"
  obtain m x s1 s2 s3 where x: "compute_stake_at_index F s ?k v ?n = Inr m" "fp_from_integer F m = Some x"
    and w: "staking_withdraw_stake F native v ?n x (Some ?k) s = Inr ((), s1)" and i: "increment_nonce v s1 = Inr ((), s2)"
    and d: "staking_deposit_stake F native v ?n x s2 = Inr ((), s3)" and s': "PoolStake s' = PoolStake s3" "PoolTotalStake s' = PoolTotalStake s3"
    using run by (auto simp: force_refund_def staking_deposit_event_def rbind_Inr_iff)
  note nn = computed_stake_nonneg [OF F x]
  have "pool_ok s1" by (rule withdraw_ok [OF F ok w nn])
  then have "pool_ok s2" using i by (auto simp: increment_nonce_def staking_deposit_event_def rbind_Inr_iff intro: pool_ok_same)
  then have "pool_ok s3" by (rule deposit_ok [OF F _ d nn])
  then show ?thesis using s' pool_ok_same by blast
qed

lemma staking_step_ok:
  assumes F: "fixed_laws F" and "staking_step F native s s'" and "pool_ok s"
  shows "pool_ok s'"
  using assms(2,3)
proof (induction rule: staking_step.induct)
  case (stk_deposit p n a s s')
  then obtain x where x: "to_fixed F a = Some x" "staking_deposit_stake F native (snd p) n x s = Inr ((), s')"
    by (auto simp: sapi_deposit_stake_def rbind_Inr_iff)
  show ?case by (rule deposit_ok [OF F stk_deposit(2) x(2) to_fixed_nonneg [OF F x(1)]])
next
  case (stk_withdraw p n a s s')
  then obtain x where x: "to_fixed F a = Some x" "staking_withdraw_stake F native (snd p) n x (fst p) s = Inr ((), s')"
    by (auto simp: sapi_withdraw_stake_def rbind_Inr_iff)
  show ?case by (rule withdraw_ok [OF F stk_withdraw(2) x(2) to_fixed_nonneg [OF F x(1)]])
next
  case (stk_withdraw_all p n s x s')
  then show ?case using withdraw_ok [OF F] precise_nonneg by (fastforce simp: sapi_withdraw_all_stake_def rbind_Inr_iff)
next
  case (stk_slash v a s s')
  then show ?case using slash_ok [OF F] by (auto simp: sapi_slash_stake_def rbind_Inr_iff)
next
  case (stk_distribute p c a s s')
  then show ?case using distribute_ok by (fastforce simp: sapi_distribute_reward_def rbind_Inr_iff)
next
  case (stk_reward p n c s x s')
  then show ?case using withdraw_reward_ok [OF F] by (fastforce simp: sapi_withdraw_reward_def rbind_Inr_iff)
next
  case (stk_refund v s x s')
  then show ?case using refund_ok [OF F] by (fastforce simp: sapi_force_refund_def rbind_Inr_iff)
qed

text \<open>
  C35: In every state that the operations of the staking pallet reach from empty storage, deposits,
  withdrawals, slashes, rewards and forced refunds in any order, the total stake recorded for each pool is
  the sum of the stakes recorded for its finitely many nominators.
\<close>

theorem staking_total_is_sum:
  assumes "fixed_laws F" and "(staking_step F native)\<^sup>*\<^sup>* empty_staking s"
  shows "finite {n. PoolStake s k (v, n) \<noteq> 0}
     \<and> PoolTotalStake s k v = (\<Sum>n | PoolStake s k (v, n) \<noteq> 0. PoolStake s k (v, n))"
proof -
  from assms(2) have "pool_ok s"
    by (induction rule: rtranclp_induct) (auto intro: pool_ok_empty staking_step_ok [OF assms(1)])
  then show ?thesis by (simp add: pool_ok_def)
qed

subsection \<open>Deposits and slashes\<close>

text \<open>
  A deposit of a nominator raises what the nominator's stake in the current pool is worth by the
  deposited amount, off by less than three inner units of rounding, raises the current total of the pool by
  exactly the amount, and changes the worth of no other stake, whatever slashes are still pending.
\<close>

theorem staking_deposit_credits:
  assumes F: "fixed_laws F" and run: "sapi_deposit_stake F native (i, v) n a s = Inr ((), s')"
  shows "\<bar>worth F s' (PoolNonce s v) v n - (worth F s (PoolNonce s v) v n + int a * accuracy F * accuracy F)\<bar> < 3 * accuracy F
     \<and> PoolTotalCurrentStake s' (PoolNonce s v) v = PoolTotalCurrentStake s (PoolNonce s v) v + int a * accuracy F
     \<and> (\<forall>k' v' n'. (k', v', n') \<noteq> (PoolNonce s v, v, n) \<longrightarrow> worth F s' k' v' n' = worth F s k' v' n')"
proof -
  let ?k = "PoolNonce s v" and ?x = "int a * accuracy F"
  have d: "staking_deposit_stake F native v n ?x s = Inr ((), s')"
    using run to_fixed_exact [OF F] by (auto simp: sapi_deposit_stake_def rbind_Inr_iff)
  obtain r s1 where ap: "slash_applied F v n r s s1" and mv: "stake_moved F ?k v n ?x s1 s'"
    using deposit_effect [OF F d] fixed_lawsD(1) [OF F] by auto
  note e1 = slash_applied_worth [OF F ap] and e2 = stake_moved_worth [OF mv]
  have "\<bar>worth F s' ?k v n - (worth F s ?k v n + ?x * accuracy F)\<bar> < 3 * accuracy F" using e1(1) e2(1) by linarith
  moreover have "PoolTotalCurrentStake s' ?k v = PoolTotalCurrentStake s ?k v + ?x"
    using e1(3) e2(3) fixed_lawsD(1) [OF F] by (simp add: mult_less_0_iff)
  ultimately show ?thesis using e1(2) e2(2) by simp
qed

text \<open>
  C36: A slash takes from every nominator of the pool in proportion to the recorded stake: the loss of worth,
  times the total stake, is the stake times the slashed amount, off by at most the product of the two stakes
  (one inner unit per unit of stake). The current total falls by exactly the slashed amount, and the pools of
  other vaults and the former pools of this vault are untouched.
\<close>

theorem slash_is_proportional:
  assumes F: "fixed_laws F" and run: "sapi_slash_stake F native v a s = Inr ((), s')" and a: "0 < a"
  shows "\<bar>(worth F s (PoolNonce s v) v n - worth F s' (PoolNonce s v) v n) * PoolTotalStake s (PoolNonce s v) v
        - PoolStake s (PoolNonce s v) (v, n) * (int a * accuracy F) * accuracy F\<bar>
      \<le> \<bar>PoolStake s (PoolNonce s v) (v, n) * PoolTotalStake s (PoolNonce s v) v\<bar>
     \<and> PoolTotalCurrentStake s' (PoolNonce s v) v = PoolTotalCurrentStake s (PoolNonce s v) v - int a * accuracy F
     \<and> (\<forall>k' v' n'. (k', v') \<noteq> (PoolNonce s v, v) \<longrightarrow> worth F s' k' v' n' = worth F s k' v' n')"
proof -
  let ?k = "PoolNonce s v" and ?A = "accuracy F" let ?x = "int a * ?A" and ?S = "PoolStake s ?k (v, n)" and ?T = "PoolTotalStake s ?k v"
  have sl: "slash_stake F native v ?x s = Inr ((), s')" and x: "?x \<noteq> 0"
    using run to_fixed_exact [OF F] fixed_lawsD(1) [OF F] a by (auto simp: sapi_slash_stake_def rbind_Inr_iff)
  obtain q f where q: "\<bar>q * ?T - ?x * ?A\<bar> < \<bar>?T\<bar>"
    and s': "s' = s\<lparr>PoolSlashPerToken := put2 (PoolSlashPerToken s) ?k v (PoolSlashPerToken s ?k v + q),
        PoolTotalCurrentStake := put2 (PoolTotalCurrentStake s) ?k v (PoolTotalCurrentStake s ?k v - ?x), PoolRewardPerToken := f\<rparr>"
    using slash_effect [OF F sl x] by metis
  have "worth F s ?k v n - worth F s' ?k v n = ?S * q" by (simp add: worth_def s' algebra_simps)
  then have "(worth F s ?k v n - worth F s' ?k v n) * ?T - ?S * ?x * ?A = ?S * (q * ?T - ?x * ?A)" by (simp add: algebra_simps)
  moreover have "\<bar>?S * (q * ?T - ?x * ?A)\<bar> \<le> \<bar>?S\<bar> * \<bar>?T\<bar>"
    unfolding abs_mult using q by (intro mult_left_mono) simp_all
  ultimately have "\<bar>(worth F s ?k v n - worth F s' ?k v n) * ?T - ?S * ?x * ?A\<bar> \<le> \<bar>?S * ?T\<bar>" by (simp add: abs_mult)
  then show ?thesis by (auto simp: s' worth_def)
qed

subsection \<open>Former pools\<close>

text \<open>
  C37: A nominator without stake in the current pool of a vault cannot withdraw a positive amount from any
  pool of that vault, whichever index is given: the slash and the balance check look at the current pool.
\<close>

theorem former_pool_not_withdrawable:
  assumes F: "fixed_laws F" and "PoolStake s (PoolNonce s v) (v, n) = 0" and "PoolSlashTally s (PoolNonce s v) (v, n) = 0" and "0 < a"
  shows "\<not> is_ok (staking_withdraw_stake F native v n a index s)"
proof
  assume "is_ok (staking_withdraw_stake F native v n a index s)"
  then obtain s' where run: "staking_withdraw_stake F native v n a index s = Inr ((), s')" by (auto simp: is_ok_iff)
  obtain r s1 where ap: "slash_applied F v n r s s1" and r: "a \<le> r" using withdraw_effect [OF F run] assms(4) by (metis less_imp_le order_less_irrefl)
  obtain m where "fp_mul F 0 (PoolSlashPerToken s (PoolNonce s v) v) = Some m" "r = - m"
    using ap assms(2,3) by (auto simp: slash_applied_def Let_def)
  then have "\<bar>m * accuracy F\<bar> < accuracy F" "r = - m" using fixed_lawsD(4) [OF F] by fastforce+
  then have "m = 0" "r = 0" using fixed_lawsD(1) [OF F] by (auto simp: abs_mult)
  then show False using r assms(4) by simp
qed

subsection \<open>A concrete pool\<close>

definition sample_vault :: "(nat, nat) vault_id" where
  "sample_vault = vault_id_new 1 10 20"

definition refunded :: "(dispatch_error, int \<times> (nat, nat) staking_pool) result" where
  "refunded = sbind (sapi_deposit_stake decimal_fixed 30 (None, sample_vault) 1 100) (\<lambda>_.
     sbind (sapi_deposit_stake decimal_fixed 30 (None, sample_vault) 2 60) (\<lambda>_.
     sbind (sapi_slash_stake decimal_fixed 30 sample_vault 80) (\<lambda>_.
     force_refund decimal_fixed 30 sample_vault))) empty_staking"

lemmas staking_run = sapi_deposit_stake_def staking_deposit_stake_def apply_slash_def compute_amount_to_slash_def staking_mut_defs
  stake_at_index_def slash_per_token_at_index_def slash_tally_at_index_def to_fixed_def decimal_fixed_def in_i128_def
  sapi_slash_stake_def slash_stake_def increase_rewards_def force_refund_def compute_stake_at_index_def
  compute_precise_stake_at_index_def truncate_to_inner_def tdiv_def staking_withdraw_stake_def increment_nonce_def checked_add_w_def
  sample_vault_def vault_id_new_def wrapped_currency_def empty_staking_def

lemma refunded_value: "case refunded of Inl _ \<Rightarrow> False | Inr (r, s) \<Rightarrow> r = 30
   \<and> compute_stake_at_index decimal_fixed s 1 sample_vault 1 = Inr 50 \<and> compute_stake_at_index decimal_fixed s 0 sample_vault 2 = Inr 30
   \<and> PoolNonce s sample_vault = 1 \<and> PoolStake s 1 (sample_vault, 2) = 0 \<and> PoolSlashTally s 1 (sample_vault, 2) = 0"
  by (simp add: refunded_def staking_run)

lemma sample_deposit: "\<exists>s. sapi_deposit_stake decimal_fixed 30 (None, sample_vault) 1 100 empty_staking = Inr ((), s)"
  by (simp add: staking_run)

lemma staking_total_witness:
  "\<exists>s. sapi_deposit_stake decimal_fixed 30 (None, sample_vault) 1 100 empty_staking = Inr ((), s)
     \<and> finite {n. PoolStake s 0 (sample_vault, n) \<noteq> 0}
     \<and> PoolTotalStake s 0 sample_vault = (\<Sum>n | PoolStake s 0 (sample_vault, n) \<noteq> 0. PoolStake s 0 (sample_vault, n))"
proof -
  obtain s where s: "sapi_deposit_stake decimal_fixed 30 (None, sample_vault) 1 100 empty_staking = Inr ((), s)"
    using sample_deposit by blast
  have "(staking_step decimal_fixed 30)\<^sup>*\<^sup>* empty_staking s" by (rule r_into_rtranclp) (rule stk_deposit [OF s])
  from staking_total_is_sum [OF decimal_laws this] s show ?thesis by blast
qed

lemma staking_deposit_witness:
  "\<exists>s. sapi_deposit_stake decimal_fixed 30 (None, sample_vault) 1 100 empty_staking = Inr ((), s)
     \<and> PoolTotalCurrentStake s 0 sample_vault = 100 * 10 ^ 18"
proof -
  obtain s where s: "sapi_deposit_stake decimal_fixed 30 (None, sample_vault) 1 100 empty_staking = Inr ((), s)"
    using sample_deposit by blast
  with staking_deposit_credits [OF decimal_laws s] show ?thesis by (simp add: empty_staking_def decimal_fixed_def)
qed

lemma slash_witness:
  "\<exists>s s'. sapi_deposit_stake decimal_fixed 30 (None, sample_vault) 1 100 empty_staking = Inr ((), s)
     \<and> sapi_slash_stake decimal_fixed 30 sample_vault 80 s = Inr ((), s')
     \<and> PoolTotalCurrentStake s' (PoolNonce s sample_vault) sample_vault
       = PoolTotalCurrentStake s (PoolNonce s sample_vault) sample_vault - 80 * accuracy decimal_fixed"
proof -
  obtain s s' where s: "sapi_deposit_stake decimal_fixed 30 (None, sample_vault) 1 100 empty_staking = Inr ((), s)"
    "sapi_slash_stake decimal_fixed 30 sample_vault 80 s = Inr ((), s')" by (simp add: staking_run)
  from slash_is_proportional [OF decimal_laws s(2)] s show ?thesis by auto
qed

lemma former_pool_witness:
  "\<exists>r s. refunded = Inr (r, s) \<and> compute_stake_at_index decimal_fixed s 0 sample_vault 2 = Inr 30
     \<and> \<not> is_ok (staking_withdraw_stake decimal_fixed 30 sample_vault 2 (30 * 10 ^ 18) (Some 0) s)"
proof -
  obtain r s where s: "refunded = Inr (r, s)" "compute_stake_at_index decimal_fixed s 0 sample_vault 2 = Inr 30"
    "PoolNonce s sample_vault = 1" "PoolStake s 1 (sample_vault, 2) = 0" "PoolSlashTally s 1 (sample_vault, 2) = 0"
    using refunded_value by (auto split: sum.splits)
  moreover have "\<not> is_ok (staking_withdraw_stake decimal_fixed 30 sample_vault 2 (30 * 10 ^ 18) (Some 0) s)"
    by (rule former_pool_not_withdrawable [OF decimal_laws]) (use s in simp_all)
  ultimately show ?thesis by blast
qed

end
