(* ===== verification/Currency.thy ===== *)
theory Currency
  imports Fixed_Point Dispatch
begin

text \<open>
  The currency pallet (\<^verbatim>\<open>src/crates/currency/src\<close>): amounts that carry their currency, with checked
  arithmetic, and their movement on the token ledger. Balances are 128-bit unsigned integers.

  The ledger is the \<^verbatim>\<open>orml_tokens\<close> pallet and unsigned fixed-point numbers are those of \<^verbatim>\<open>sp_runtime\<close>; both are
  outside the repository and are parameters: \<open>tokens\<close> acts on a state of any type, \<open>ufixed\<close> gives the
  arithmetic on inner numbers. \<open>ufixed_laws\<close> states the documented behaviour of
  \<^verbatim>\<open>multiply_by_rational_with_rounding\<close>.
\<close>

subsection \<open>Parameters\<close>

datatype rounding = Up | Down | NearestPrefUp | NearestPrefDown

type_synonym ufixed = nat

record ufixed_ops =
  multiply_by_rational_with_rounding :: "nat \<Rightarrow> nat \<Rightarrow> nat \<Rightarrow> rounding \<Rightarrow> nat option"
  uf_from_rational :: "nat \<Rightarrow> nat \<Rightarrow> ufixed option"
  uf_checked_div :: "ufixed \<Rightarrow> ufixed \<Rightarrow> ufixed option"
  uf_checked_mul_int :: "ufixed \<Rightarrow> nat \<Rightarrow> nat option"
  uf_checked_from_integer :: "nat \<Rightarrow> ufixed option"
  uf_DIV :: nat

definition rounded_div :: "nat \<Rightarrow> nat \<Rightarrow> rounding \<Rightarrow> nat" where
  "rounded_div n d r = (case r of
      Down \<Rightarrow> n div d
    | Up \<Rightarrow> (n + d - 1) div d
    | NearestPrefUp \<Rightarrow> (2 * n + d) div (2 * d)
    | NearestPrefDown \<Rightarrow> (2 * n + d - 1) div (2 * d))"

definition ufixed_laws :: "ufixed_ops \<Rightarrow> bool" where
  "ufixed_laws U \<longleftrightarrow> 0 < uf_DIV U \<and> (\<forall>a b c r. multiply_by_rational_with_rounding U a b c r =
     (if c = 0 \<or> 2 ^ 128 \<le> rounded_div (a * b) c r then None else Some (rounded_div (a * b) c r)))"

record ('a, 'c, 'x) tokens =
  tok_transfer :: "'c \<Rightarrow> 'a \<Rightarrow> 'a \<Rightarrow> nat \<Rightarrow> ('x, dispatch_error, unit) action"
  tok_reserve :: "'c \<Rightarrow> 'a \<Rightarrow> nat \<Rightarrow> ('x, dispatch_error, unit) action"
  tok_unreserve :: "'c \<Rightarrow> 'a \<Rightarrow> nat \<Rightarrow> 'x \<Rightarrow> nat \<times> 'x"
  tok_slash_reserved :: "'c \<Rightarrow> 'a \<Rightarrow> nat \<Rightarrow> 'x \<Rightarrow> nat \<times> 'x"
  tok_deposit :: "'c \<Rightarrow> 'a \<Rightarrow> nat \<Rightarrow> ('x, dispatch_error, unit) action"
  tok_free_balance :: "'x \<Rightarrow> 'c \<Rightarrow> 'a \<Rightarrow> nat"
  tok_reserved_balance :: "'x \<Rightarrow> 'c \<Rightarrow> 'a \<Rightarrow> nat"

subsection \<open>Amounts\<close>

record 'c amount =
  amt :: nat
  cur :: 'c

abbreviation Amount :: "nat \<Rightarrow> 'c \<Rightarrow> 'c amount" where
  "Amount n c \<equiv> \<lparr>amt = n, cur = c\<rparr>"

type_synonym 'r dispatch = "(dispatch_error, 'r) result"

abbreviation currency_int_error :: dispatch_error where
  "currency_int_error \<equiv> CurrencyError CurrencyTryIntoIntError"

subsubsection \<open>Conversions\<close>

definition from_signed_fixed_point :: "fixed_point \<Rightarrow> fixed \<Rightarrow> 'c \<Rightarrow> 'c amount dispatch" where
  "from_signed_fixed_point F x currency_id =
     rbind (ok_or (truncate_to_inner F x) currency_int_error) (\<lambda>n.
     rbind (ok_or (int_to_balance n) currency_int_error) (\<lambda>b.
     Inr (Amount b currency_id)))"

definition to_signed_fixed_point :: "fixed_point \<Rightarrow> 'c amount \<Rightarrow> fixed dispatch" where
  "to_signed_fixed_point F self =
     rbind (rensure (amt self < 2 ^ 127) currency_int_error) (\<lambda>_.
     ok_or (fp_from_integer F (int (amt self))) currency_int_error)"

definition from_unsigned_fixed_point :: "ufixed_ops \<Rightarrow> ufixed \<Rightarrow> 'c \<Rightarrow> 'c amount dispatch" where
  "from_unsigned_fixed_point U x currency_id =
     rbind (ok_or (checked_div x (uf_DIV U)) currency_int_error) (\<lambda>n. Inr (Amount n currency_id))"

definition to_unsigned_fixed_point :: "ufixed_ops \<Rightarrow> 'c amount \<Rightarrow> ufixed dispatch" where
  "to_unsigned_fixed_point U self = ok_or (uf_checked_from_integer U (amt self)) currency_int_error"

subsubsection \<open>Arithmetic\<close>

definition am_zero :: "'c \<Rightarrow> 'c amount" where
  "am_zero currency_id = Amount 0 currency_id"

definition am_set_currency :: "'c amount \<Rightarrow> 'c \<Rightarrow> 'c amount" where
  "am_set_currency self currency_id = self\<lparr>cur := currency_id\<rparr>"

definition am_is_zero :: "'c amount \<Rightarrow> bool" where
  "am_is_zero self \<longleftrightarrow> amt self = 0"

definition am_checked_fn :: "'c amount \<Rightarrow> 'c amount \<Rightarrow> (nat \<Rightarrow> nat \<Rightarrow> nat option) \<Rightarrow> arithmetic_error \<Rightarrow> 'c amount dispatch" where
  "am_checked_fn self other f err =
     (if cur self \<noteq> cur other then Inl (Err (CurrencyError CurrencyInvalidCurrency))
      else rbind (ok_or (f (amt self) (amt other)) (ArithmeticError err)) (\<lambda>n. Inr (Amount n (cur self))))"

definition am_checked_add :: "'c amount \<Rightarrow> 'c amount \<Rightarrow> 'c amount dispatch" where
  "am_checked_add self other = am_checked_fn self other (checked_add_w 128) Overflow"

definition am_checked_sub :: "'c amount \<Rightarrow> 'c amount \<Rightarrow> 'c amount dispatch" where
  "am_checked_sub self other = am_checked_fn self other checked_sub Underflow"

definition same_currency :: "'c amount \<Rightarrow> 'c amount \<Rightarrow> unit dispatch" where
  "same_currency self other = rensure (cur self = cur other) (CurrencyError CurrencyInvalidCurrency)"

definition am_saturating_sub :: "'c amount \<Rightarrow> 'c amount \<Rightarrow> 'c amount dispatch" where
  "am_saturating_sub self other =
     rbind (same_currency self other) (\<lambda>_.
     case am_checked_sub self other of Inl _ \<Rightarrow> Inr (Amount 0 (cur self)) | Inr x \<Rightarrow> Inr x)"

definition to_u128 :: "nat \<Rightarrow> nat dispatch" where
  "to_u128 x = (if x < 2 ^ 128 then Inr x else Inl (Err currency_int_error))"

definition am_checked_rounded_mul :: "ufixed_ops \<Rightarrow> 'c amount \<Rightarrow> ufixed \<Rightarrow> rounding \<Rightarrow> 'c amount dispatch" where
  "am_checked_rounded_mul U self scalar r =
     rbind (to_u128 (amt self)) (\<lambda>a.
     rbind (to_u128 scalar) (\<lambda>b.
     rbind (to_u128 (uf_DIV U)) (\<lambda>c.
     rbind (ok_or (multiply_by_rational_with_rounding U a b c r) (ArithmeticError Overflow)) (\<lambda>n.
     rbind (to_u128 n) (\<lambda>m. Inr (Amount m (cur self)))))))"

definition am_checked_mul :: "ufixed_ops \<Rightarrow> 'c amount \<Rightarrow> ufixed \<Rightarrow> 'c amount dispatch" where
  "am_checked_mul U self scalar = am_checked_rounded_mul U self scalar Down"

definition am_checked_div :: "ufixed_ops \<Rightarrow> 'c amount \<Rightarrow> ufixed \<Rightarrow> 'c amount dispatch" where
  "am_checked_div U self scalar =
     rbind (to_u128 (amt self)) (\<lambda>a.
     rbind (to_u128 (uf_DIV U)) (\<lambda>b.
     rbind (to_u128 scalar) (\<lambda>c.
     rbind (ok_or (multiply_by_rational_with_rounding U a b c Down) (ArithmeticError Overflow)) (\<lambda>n.
     rbind (to_u128 n) (\<lambda>m. Inr (Amount m (cur self)))))))"

definition am_ratio :: "ufixed_ops \<Rightarrow> 'c amount \<Rightarrow> 'c amount \<Rightarrow> ufixed dispatch" where
  "am_ratio U self other =
     rbind (same_currency self other) (\<lambda>_. ok_or (uf_from_rational U (amt self) (amt other)) currency_int_error)"

definition am_lt :: "'c amount \<Rightarrow> 'c amount \<Rightarrow> bool dispatch" where
  "am_lt self other = rbind (same_currency self other) (\<lambda>_. Inr (amt self < amt other))"

definition am_le :: "'c amount \<Rightarrow> 'c amount \<Rightarrow> bool dispatch" where
  "am_le self other = rbind (same_currency self other) (\<lambda>_. Inr (amt self \<le> amt other))"

definition am_eq :: "'c amount \<Rightarrow> 'c amount \<Rightarrow> bool dispatch" where
  "am_eq self other = rbind (same_currency self other) (\<lambda>_. Inr (amt self = amt other))"

definition am_ne :: "'c amount \<Rightarrow> 'c amount \<Rightarrow> bool dispatch" where
  "am_ne self other = rbind (am_eq self other) (\<lambda>b. Inr (\<not> b))"

definition am_ge :: "'c amount \<Rightarrow> 'c amount \<Rightarrow> bool dispatch" where
  "am_ge self other = rbind (same_currency self other) (\<lambda>_. Inr (amt self \<ge> amt other))"

definition am_gt :: "'c amount \<Rightarrow> 'c amount \<Rightarrow> bool dispatch" where
  "am_gt self other = rbind (same_currency self other) (\<lambda>_. Inr (amt self > amt other))"

definition am_min :: "'c amount \<Rightarrow> 'c amount \<Rightarrow> 'c amount dispatch" where
  "am_min self other =
     rbind (same_currency self other) (\<lambda>_. rbind (am_le self other) (\<lambda>b. Inr (if b then self else other)))"

definition am_max :: "'c amount \<Rightarrow> 'c amount \<Rightarrow> 'c amount dispatch" where
  "am_max self other =
     rbind (same_currency self other) (\<lambda>_. rbind (am_ge self other) (\<lambda>b. Inr (if b then self else other)))"

definition am_map :: "(nat \<Rightarrow> nat) \<Rightarrow> 'c amount \<Rightarrow> 'c amount" where
  "am_map f self = Amount (f (amt self)) (cur self)"

text \<open>\<open>mul_floor\<close> is the method of the library's ratio type.\<close>

definition am_mul_ratio_floor :: "('q \<Rightarrow> nat \<Rightarrow> nat) \<Rightarrow> 'c amount \<Rightarrow> 'q \<Rightarrow> 'c amount" where
  "am_mul_ratio_floor mul_floor self ratio = am_map (mul_floor ratio) self"

subsubsection \<open>Movements on the ledger\<close>

definition am_transfer :: "('a, 'c, 'x) tokens \<Rightarrow> 'c amount \<Rightarrow> 'a \<Rightarrow> 'a \<Rightarrow> ('x, dispatch_error, unit) action" where
  "am_transfer T self source destination = tok_transfer T (cur self) source destination (amt self)"

definition am_lock_on :: "('a, 'c, 'x) tokens \<Rightarrow> 'c amount \<Rightarrow> 'a \<Rightarrow> ('x, dispatch_error, unit) action" where
  "am_lock_on T self account_id = tok_reserve T (cur self) account_id (amt self)"

definition am_unlock_on :: "('a, 'c, 'x) tokens \<Rightarrow> 'c amount \<Rightarrow> 'a \<Rightarrow> ('x, dispatch_error, unit) action" where
  "am_unlock_on T self account_id = (\<lambda>x.
     let (remaining, x') = tok_unreserve T (cur self) account_id (amt self) x
     in if remaining = 0 then Inr ((), x') else Inl (Err BalanceTooLow))"

definition am_burn_from :: "('a, 'c, 'x) tokens \<Rightarrow> 'c amount \<Rightarrow> 'a \<Rightarrow> ('x, dispatch_error, unit) action" where
  "am_burn_from T self account_id = (\<lambda>x.
     let (remaining, x') = tok_slash_reserved T (cur self) account_id (amt self) x
     in if remaining = 0 then Inr ((), x') else Inl (Err BalanceTooLow))"

definition am_mint_to :: "('a, 'c, 'x) tokens \<Rightarrow> 'c amount \<Rightarrow> 'a \<Rightarrow> ('x, dispatch_error, unit) action" where
  "am_mint_to T self account_id = tok_deposit T (cur self) account_id (amt self)"

definition get_free_balance :: "('a, 'c, 'x) tokens \<Rightarrow> 'x \<Rightarrow> 'c \<Rightarrow> 'a \<Rightarrow> 'c amount" where
  "get_free_balance T x currency_id account = Amount (tok_free_balance T x currency_id account) currency_id"

definition get_reserved_balance :: "('a, 'c, 'x) tokens \<Rightarrow> 'x \<Rightarrow> 'c \<Rightarrow> 'a \<Rightarrow> 'c amount" where
  "get_reserved_balance T x currency_id account = Amount (tok_reserved_balance T x currency_id account) currency_id"

definition on_sweep :: "('a, 'c, 'x) tokens \<Rightarrow> 'a \<Rightarrow> 'a \<Rightarrow> 'c amount \<Rightarrow> ('x, dispatch_error, unit) action" where
  "on_sweep T treasury who amount = am_transfer T amount who treasury"

subsection \<open>Conversion between currencies\<close>

text \<open>
  \<^verbatim>\<open>CurrencyConvert\<close> is generic in the oracle and in the lending market: \<open>oracle_convert\<close>, \<open>underlying_id\<close>,
  \<open>recompute_underlying\<close> and \<open>recompute_collateral\<close> are their methods.
\<close>

definition currency_convert ::
  "('c \<Rightarrow> bool) \<Rightarrow> ('c amount \<Rightarrow> 'c \<Rightarrow> 'c amount dispatch) \<Rightarrow> ('c \<Rightarrow> 'c dispatch) \<Rightarrow> ('c amount \<Rightarrow> 'c amount dispatch) \<Rightarrow>
     ('c amount \<Rightarrow> 'c amount dispatch) \<Rightarrow> 'c amount \<Rightarrow> 'c \<Rightarrow> 'c amount dispatch" where
  "currency_convert is_lend_token oracle_convert underlying_id recompute_underlying recompute_collateral amount to =
     (if is_lend_token (cur amount) \<and> is_lend_token to then
        rbind (underlying_id to) (\<lambda>to_underlying_id.
        rbind (recompute_underlying amount) (\<lambda>from_underlying_amount.
        rbind (oracle_convert from_underlying_amount to_underlying_id) (\<lambda>to_underlying_amount.
        recompute_collateral to_underlying_amount)))
      else if is_lend_token (cur amount) then
        rbind (recompute_underlying amount) (\<lambda>u. oracle_convert u to)
      else if is_lend_token to then
        rbind (underlying_id to) (\<lambda>u.
        rbind (oracle_convert amount u) (\<lambda>underlying_amount.
        recompute_collateral underlying_amount))
      else oracle_convert amount to)"

subsection \<open>Lemmas\<close>

lemma same_currency_Inr [simp]: "same_currency a b = Inr u \<longleftrightarrow> cur a = cur b"
  by (simp add: same_currency_def)

lemma am_checked_add_Inr [simp]:
  "am_checked_add a b = Inr c \<longleftrightarrow> cur a = cur b \<and> amt a + amt b < 2 ^ 128 \<and> c = Amount (amt a + amt b) (cur a)"
  by (auto simp: am_checked_add_def am_checked_fn_def rbind_Inr_iff)

lemma am_checked_sub_Inr [simp]:
  "am_checked_sub a b = Inr c \<longleftrightarrow> cur a = cur b \<and> amt b \<le> amt a \<and> c = Amount (amt a - amt b) (cur a)"
  by (auto simp: am_checked_sub_def am_checked_fn_def rbind_Inr_iff)

lemma am_saturating_sub_Inr [simp]:
  "am_saturating_sub a b = Inr c \<longleftrightarrow> cur a = cur b \<and> c = Amount (amt a - amt b) (cur a)"
  by (auto simp: am_saturating_sub_def am_checked_sub_def am_checked_fn_def rbind_Inr_iff checked_sub_def)

lemma am_compare_Inr [simp]:
  "am_lt a b = Inr x \<longleftrightarrow> cur a = cur b \<and> x = (amt a < amt b)"
  "am_le a b = Inr x \<longleftrightarrow> cur a = cur b \<and> x = (amt a \<le> amt b)"
  "am_ge a b = Inr x \<longleftrightarrow> cur a = cur b \<and> x = (amt a \<ge> amt b)"
  "am_gt a b = Inr x \<longleftrightarrow> cur a = cur b \<and> x = (amt a > amt b)"
  "am_eq a b = Inr x \<longleftrightarrow> cur a = cur b \<and> x = (amt a = amt b)"
  by (auto simp: am_lt_def am_le_def am_ge_def am_gt_def am_eq_def rbind_Inr_iff)

lemma am_min_Inr [simp]:
  "am_min a b = Inr x \<longleftrightarrow> cur a = cur b \<and> x = (if amt a \<le> amt b then a else b)"
  by (auto simp: am_min_def rbind_Inr_iff)

lemma am_max_Inr [simp]:
  "am_max a b = Inr x \<longleftrightarrow> cur a = cur b \<and> x = (if amt a \<ge> amt b then a else b)"
  by (auto simp: am_max_def rbind_Inr_iff)

lemma am_zero_simps [simp]: "amt (am_zero c) = 0" "cur (am_zero c) = c"
  by (simp_all add: am_zero_def)

lemma am_checked_mul_Inr:
  assumes "ufixed_laws U" and "am_checked_mul U a k = Inr b"
  shows "b = Amount (amt a * k div uf_DIV U) (cur a)"
  using assms by (auto simp: am_checked_mul_def am_checked_rounded_mul_def to_u128_def rbind_Inr_iff ufixed_laws_def
      rounded_div_def split: if_splits)

lemma am_checked_div_Inr:
  assumes "ufixed_laws U" and "am_checked_div U a k = Inr b"
  shows "k \<noteq> 0" and "b = Amount (amt a * uf_DIV U div k) (cur a)"
  using assms by (auto simp: am_checked_div_def to_u128_def rbind_Inr_iff ufixed_laws_def rounded_div_def split: if_splits)

end
