(* ===== verification/Vault_Types.thy ===== *)
theory Vault_Types
  imports Currency Bitcoin_Script
begin

text \<open>
  The state of the vault-registry pallet and the operations on single vaults
  (\<^verbatim>\<open>src/crates/vault-registry/src/types.rs\<close>, storage of \<^verbatim>\<open>lib.rs\<close>), together with the storage of the nomination
  pallet (\<^verbatim>\<open>src/crates/nomination/src/lib.rs\<close>), which calls back into the registry.

  The pallets that the registry calls are the fields of \<open>vault_config\<close>, as its \<^verbatim>\<open>Config\<close> trait and the module
  \<^verbatim>\<open>ext\<close> name them; they act on the rest of the storage, \<open>world\<close>, of any type. A \<^verbatim>\<open>RichVault\<close> is a copy of a
  vault: its methods take the copy, write the storage and return the changed copy, so that stale copies
  behave as in the code. Where a vault is liquidated, the methods change the liquidation vault of its
  currency pair instead.
\<close>

subsection \<open>Parameters\<close>

record ('a, 'c, 'x) vault_config =
  cfg_tokens :: "('a, 'c, 'x) tokens"
  cfg_ufixed :: ufixed_ops
  cfg_active_block_number :: "'x \<Rightarrow> nat"
  cfg_stake_deposit :: "nat option \<times> ('a, 'c) vault_id \<Rightarrow> 'a \<Rightarrow> nat \<Rightarrow> ('x, dispatch_error, unit) action"
  cfg_stake_withdraw :: "nat option \<times> ('a, 'c) vault_id \<Rightarrow> 'a \<Rightarrow> nat \<Rightarrow> ('x, dispatch_error, unit) action"
  cfg_stake_withdraw_all :: "nat option \<times> ('a, 'c) vault_id \<Rightarrow> 'a \<Rightarrow> ('x, dispatch_error, nat) action"
  cfg_stake_slash :: "('a, 'c) vault_id \<Rightarrow> nat \<Rightarrow> ('x, dispatch_error, unit) action"
  cfg_stake_force_refund :: "('a, 'c) vault_id \<Rightarrow> ('x, dispatch_error, nat) action"
  cfg_stake_get :: "'x \<Rightarrow> nat option \<times> ('a, 'c) vault_id \<Rightarrow> 'a \<Rightarrow> nat dispatch"
  cfg_stake_total :: "'x \<Rightarrow> nat option \<times> ('a, 'c) vault_id \<Rightarrow> nat dispatch"
  cfg_stake_nonce :: "'x \<Rightarrow> ('a, 'c) vault_id \<Rightarrow> nat"
  cfg_reward_set_stake :: "'c \<Rightarrow> ('a, 'c) vault_id \<Rightarrow> nat \<Rightarrow> ('x, dispatch_error, unit) action"
  cfg_reward_total :: "'x \<Rightarrow> 'c \<Rightarrow> nat dispatch"
  cfg_capacity_set_stake :: "'c \<Rightarrow> nat \<Rightarrow> ('x, dispatch_error, unit) action"
  cfg_fee_estimation :: "'x \<Rightarrow> ufixed dispatch"
  cfg_distribute_all_vault_rewards :: "('a, 'c) vault_id \<Rightarrow> ('x, dispatch_error, unit) action"
  cfg_premium_redeem_reward_rate :: "'x \<Rightarrow> ufixed"
  cfg_redeem_fee_value :: "'x \<Rightarrow> ufixed"
  cfg_convert :: "'x \<Rightarrow> 'c amount \<Rightarrow> 'c \<Rightarrow> 'c amount dispatch"
  cfg_griefing_currency :: 'c
  cfg_wrapped_currency :: 'c
  cfg_liquidation_account :: 'a
  cfg_sha256 :: digest
  cfg_mul_assign :: "public_key \<Rightarrow> 256 word \<Rightarrow> public_key option"
  cfg_hash160 :: "byte list \<Rightarrow> h160"

subsection \<open>Storage\<close>

datatype vault_status = Active bool | Liquidated

record ('a, 'c) vault =
  v_id :: "('a, 'c) vault_id"
  v_status :: vault_status
  banned_until :: "nat option"
  secure_threshold :: "ufixed option"
  to_be_issued_tokens :: nat
  issued_tokens :: nat
  to_be_redeemed_tokens :: nat
  to_be_replaced_tokens :: nat
  replace_collateral :: nat
  active_replace_collateral :: nat
  liquidated_collateral :: nat

record 'c system_vault =
  lv_to_be_issued_tokens :: nat
  lv_issued_tokens :: nat
  lv_to_be_redeemed_tokens :: nat
  lv_collateral :: nat
  lv_currency_pair :: "'c vault_currency_pair"

datatype ('a, 'c) vault_event =
    RegisterVault "('a, 'c) vault_id" nat
  | IncreaseLockedCollateral "'c vault_currency_pair" nat nat
  | DecreaseLockedCollateral "'c vault_currency_pair" nat nat
  | UpdatePublicKey 'a public_key
  | RegisterAddress "('a, 'c) vault_id" address
  | IncreaseToBeIssuedTokens "('a, 'c) vault_id" nat
  | DecreaseToBeIssuedTokens "('a, 'c) vault_id" nat
  | IssueTokens "('a, 'c) vault_id" nat
  | IncreaseToBeRedeemedTokens "('a, 'c) vault_id" nat
  | DecreaseToBeRedeemedTokens "('a, 'c) vault_id" nat
  | IncreaseToBeReplacedTokens "('a, 'c) vault_id" nat
  | DecreaseToBeReplacedTokens "('a, 'c) vault_id" nat
  | DecreaseTokens "('a, 'c) vault_id" 'a nat
  | RedeemTokens "('a, 'c) vault_id" nat
  | RedeemTokensPremium "('a, 'c) vault_id" nat nat 'a
  | RedeemTokensLiquidatedVault "('a, 'c) vault_id" nat nat
  | RedeemTokensLiquidation 'a nat nat
  | ReplaceTokens "('a, 'c) vault_id" "('a, 'c) vault_id" nat nat
  | LiquidateVault "('a, 'c) vault_id" nat nat nat nat nat vault_status nat
  | BanVault "('a, 'c) vault_id" nat
  | SetAcceptNewIssues "('a, 'c) vault_id" bool
  | SetSecureCollateralThreshold "'c vault_currency_pair" ufixed
  | SetPremiumRedeemThreshold "'c vault_currency_pair" ufixed
  | SetLiquidationCollateralThreshold "'c vault_currency_pair" ufixed
  | SetCustomSecureThreshold "('a, 'c) vault_id" "ufixed option"
  | NominationOptIn "('a, 'c) vault_id"
  | NominationOptOut "('a, 'c) vault_id"
  | NominationDeposit "('a, 'c) vault_id" 'a nat
  | NominationWithdraw "('a, 'c) vault_id" 'a nat

text \<open>
  Maps on which the code tests for a key are partial functions, even where reading an absent key gives a
  default.
\<close>

record ('a, 'c, 'x) registry =
  MinimumCollateralVault :: "'c \<Rightarrow> nat option"
  PunishmentDelay :: nat
  SystemCollateralCeiling :: "'c vault_currency_pair \<Rightarrow> nat option"
  SecureCollateralThreshold :: "'c vault_currency_pair \<Rightarrow> ufixed option"
  PremiumRedeemThreshold :: "'c vault_currency_pair \<Rightarrow> ufixed option"
  LiquidationCollateralThreshold :: "'c vault_currency_pair \<Rightarrow> ufixed option"
  LiquidationVault :: "'c vault_currency_pair \<Rightarrow> 'c system_vault option"
  Vaults :: "('a, 'c) vault_id \<Rightarrow> ('a, 'c) vault option"
  VaultBitcoinPublicKey :: "'a \<Rightarrow> public_key option"
  TotalUserVaultCollateral :: "'c vault_currency_pair \<Rightarrow> nat"
  NominationEnabled :: bool
  NominationVaults :: "('a, 'c) vault_id \<Rightarrow> bool option"
  NominationLimit :: "('a, 'c) vault_id \<Rightarrow> nat"
  registry_events :: "('a, 'c) vault_event list"
  world :: 'x

type_synonym ('a, 'c, 'x, 'r) vault_action = "(('a, 'c, 'x) registry, dispatch_error, 'r) action"

definition on_world :: "('x, dispatch_error, 'r) action \<Rightarrow> ('a, 'c, 'x, 'r) vault_action" where
  "on_world m = szoom world (\<lambda>x s. s\<lparr>world := x\<rparr>) m"

definition emit :: "('a, 'c) vault_event \<Rightarrow> ('a, 'c, 'x, unit) vault_action" where
  "emit e = smod (\<lambda>s. s\<lparr>registry_events := registry_events s @ [e]\<rparr>)"

abbreviation vault_err :: "vault_registry_error \<Rightarrow> dispatch_error" where
  "vault_err \<equiv> VaultRegistryError"

subsection \<open>Vaults\<close>

definition vault_new :: "('a, 'c) vault_id \<Rightarrow> ('a, 'c) vault" where
  "vault_new i = \<lparr>v_id = i, v_status = Active True, banned_until = None, secure_threshold = None,
     to_be_issued_tokens = 0, issued_tokens = 0, to_be_redeemed_tokens = 0, to_be_replaced_tokens = 0,
     replace_collateral = 0, active_replace_collateral = 0, liquidated_collateral = 0\<rparr>"

definition is_liquidated :: "('a, 'c) vault \<Rightarrow> bool" where
  "is_liquidated v \<longleftrightarrow> v_status v = Liquidated"

definition accepts_new_issues :: "('a, 'c) vault \<Rightarrow> bool" where
  "accepts_new_issues v \<longleftrightarrow> v_status v = Active True"

definition get_vault_from_id :: "('a, 'c, 'x) registry \<Rightarrow> ('a, 'c) vault_id \<Rightarrow> ('a, 'c) vault dispatch" where
  "get_vault_from_id s vault_id = ok_or (Vaults s vault_id) (vault_err VaultNotFound)"

definition get_active_vault_from_id :: "('a, 'c, 'x) registry \<Rightarrow> ('a, 'c) vault_id \<Rightarrow> ('a, 'c) vault dispatch" where
  "get_active_vault_from_id s vault_id =
     rbind (get_vault_from_id s vault_id) (\<lambda>v.
     case v_status v of Active _ \<Rightarrow> Inr v | Liquidated \<Rightarrow> Inl (Err (vault_err VaultLiquidated)))"

definition vault_exists :: "('a, 'c, 'x) registry \<Rightarrow> ('a, 'c) vault_id \<Rightarrow> bool" where
  "vault_exists s vault_id \<longleftrightarrow> Vaults s vault_id \<noteq> None"

definition insert_vault :: "('a, 'c) vault_id \<Rightarrow> ('a, 'c) vault \<Rightarrow> ('a, 'c, 'x, unit) vault_action" where
  "insert_vault i v = smod (\<lambda>s. s\<lparr>Vaults := (Vaults s)(i \<mapsto> v)\<rparr>)"

definition get_liquidation_vault :: "('a, 'c, 'x) registry \<Rightarrow> 'c vault_currency_pair \<Rightarrow> 'c system_vault" where
  "get_liquidation_vault s currency_pair = (case LiquidationVault s currency_pair of
      Some liquidation_vault \<Rightarrow> liquidation_vault
    | None \<Rightarrow> \<lparr>lv_to_be_issued_tokens = 0, lv_issued_tokens = 0, lv_to_be_redeemed_tokens = 0, lv_collateral = 0,
        lv_currency_pair = currency_pair\<rparr>)"

subsection \<open>The liquidation vault\<close>

definition lv_update :: "('c system_vault \<Rightarrow> 'c system_vault) \<Rightarrow> 'c system_vault \<Rightarrow> ('a, 'c, 'x, 'c system_vault) vault_action" where
  "lv_update func lv =
     (let lv' = func lv in
      sbind (smod (\<lambda>s. s\<lparr>LiquidationVault := (LiquidationVault s)(lv_currency_pair lv' \<mapsto> lv')\<rparr>)) (\<lambda>_. sret lv'))"

abbreviation lv_wrapped :: "'c system_vault \<Rightarrow> 'c" where
  "lv_wrapped lv \<equiv> pair_wrapped (lv_currency_pair lv)"

definition lv_increase_issued :: "'c amount \<Rightarrow> 'c system_vault \<Rightarrow> ('a, 'c, 'x, 'c system_vault) vault_action" where
  "lv_increase_issued tokens lv =
     sbind (slift (\<lambda>_. am_checked_add (Amount (lv_issued_tokens lv) (lv_wrapped lv)) tokens)) (\<lambda>n.
     lv_update (\<lambda>v. v\<lparr>lv_issued_tokens := amt n\<rparr>) lv)"

definition lv_increase_to_be_issued :: "'c amount \<Rightarrow> 'c system_vault \<Rightarrow> ('a, 'c, 'x, 'c system_vault) vault_action" where
  "lv_increase_to_be_issued tokens lv =
     sbind (slift (\<lambda>_. am_checked_add (Amount (lv_to_be_issued_tokens lv) (lv_wrapped lv)) tokens)) (\<lambda>n.
     lv_update (\<lambda>v. v\<lparr>lv_to_be_issued_tokens := amt n\<rparr>) lv)"

definition lv_increase_to_be_redeemed :: "'c amount \<Rightarrow> 'c system_vault \<Rightarrow> ('a, 'c, 'x, 'c system_vault) vault_action" where
  "lv_increase_to_be_redeemed tokens lv =
     sbind (slift (\<lambda>_. am_checked_add (Amount (lv_to_be_redeemed_tokens lv) (lv_wrapped lv)) tokens)) (\<lambda>n.
     lv_update (\<lambda>v. v\<lparr>lv_to_be_redeemed_tokens := amt n\<rparr>) lv)"

definition lv_decrease_issued :: "'c amount \<Rightarrow> 'c system_vault \<Rightarrow> ('a, 'c, 'x, 'c system_vault) vault_action" where
  "lv_decrease_issued tokens lv =
     sbind (slift (\<lambda>_. am_checked_sub (Amount (lv_issued_tokens lv) (lv_wrapped lv)) tokens)) (\<lambda>n.
     lv_update (\<lambda>v. v\<lparr>lv_issued_tokens := amt n\<rparr>) lv)"

definition lv_decrease_to_be_issued :: "'c amount \<Rightarrow> 'c system_vault \<Rightarrow> ('a, 'c, 'x, 'c system_vault) vault_action" where
  "lv_decrease_to_be_issued tokens lv =
     sbind (slift (\<lambda>_. am_checked_sub (Amount (lv_to_be_issued_tokens lv) (lv_wrapped lv)) tokens)) (\<lambda>n.
     lv_update (\<lambda>v. v\<lparr>lv_to_be_issued_tokens := amt n\<rparr>) lv)"

definition lv_decrease_to_be_redeemed :: "'c amount \<Rightarrow> 'c system_vault \<Rightarrow> ('a, 'c, 'x, 'c system_vault) vault_action" where
  "lv_decrease_to_be_redeemed tokens lv =
     sbind (slift (\<lambda>_. am_checked_sub (Amount (lv_to_be_redeemed_tokens lv) (lv_wrapped lv)) tokens)) (\<lambda>n.
     lv_update (\<lambda>v. v\<lparr>lv_to_be_redeemed_tokens := amt n\<rparr>) lv)"

definition lv_increase_collateral :: "'c amount \<Rightarrow> 'c system_vault \<Rightarrow> ('a, 'c, 'x, 'c system_vault) vault_action" where
  "lv_increase_collateral amount lv =
     sbind (slift (\<lambda>_. am_checked_add (Amount (lv_collateral lv) (pair_collateral (lv_currency_pair lv))) amount)) (\<lambda>n.
     lv_update (\<lambda>v. v\<lparr>lv_collateral := amt n\<rparr>) lv)"

definition lv_decrease_collateral :: "'c amount \<Rightarrow> 'c system_vault \<Rightarrow> ('a, 'c, 'x, 'c system_vault) vault_action" where
  "lv_decrease_collateral amount lv =
     sbind (slift (\<lambda>_. am_checked_sub (Amount (lv_collateral lv) (pair_collateral (lv_currency_pair lv))) amount)) (\<lambda>n.
     lv_update (\<lambda>v. v\<lparr>lv_collateral := amt n\<rparr>) lv)"

definition lv_burn_issued :: "'c amount \<Rightarrow> 'c system_vault \<Rightarrow> ('a, 'c, 'x, 'c system_vault) vault_action" where
  "lv_burn_issued tokens lv = lv_decrease_issued tokens lv"

definition lv_redeemable_tokens :: "'c system_vault \<Rightarrow> 'c amount dispatch" where
  "lv_redeemable_tokens lv =
     am_checked_sub (Amount (lv_issued_tokens lv) (lv_wrapped lv)) (Amount (lv_to_be_redeemed_tokens lv) (lv_wrapped lv))"

definition lv_to_be_backed_tokens :: "'c system_vault \<Rightarrow> 'c amount dispatch" where
  "lv_to_be_backed_tokens lv =
     rbind (am_checked_add (Amount (lv_issued_tokens lv) (lv_wrapped lv)) (Amount (lv_to_be_issued_tokens lv) (lv_wrapped lv))) (\<lambda>x.
     am_checked_sub x (Amount (lv_to_be_redeemed_tokens lv) (lv_wrapped lv)))"

subsection \<open>Vaults with their methods\<close>

definition update :: "(('a, 'c) vault \<Rightarrow> ('a, 'c) vault dispatch) \<Rightarrow> ('a, 'c) vault \<Rightarrow> ('a, 'c, 'x, ('a, 'c) vault) vault_action" where
  "update func v =
     sbind (slift (\<lambda>_. func v)) (\<lambda>v'.
     sbind (smod (\<lambda>s. s\<lparr>Vaults := (Vaults s)(v_id v' \<mapsto> v')\<rparr>)) (\<lambda>_. sret v'))"

abbreviation on_liquidation_vault ::
  "('c system_vault \<Rightarrow> ('a, 'c, 'x, 'c system_vault) vault_action) \<Rightarrow> ('a, 'c) vault \<Rightarrow> ('a, 'c, 'x, ('a, 'c) vault) vault_action" where
  "on_liquidation_vault f v \<equiv>
     sbind (sget (\<lambda>s. get_liquidation_vault s (vid_currencies (v_id v)))) (\<lambda>lv. sbind (f lv) (\<lambda>_. sret v))"

definition issued_tokens_of :: "('a, 'c) vault \<Rightarrow> 'c amount" where
  "issued_tokens_of v = Amount (issued_tokens v) (wrapped_currency (v_id v))"

definition to_be_issued_tokens_of :: "('a, 'c) vault \<Rightarrow> 'c amount" where
  "to_be_issued_tokens_of v = Amount (to_be_issued_tokens v) (wrapped_currency (v_id v))"

definition to_be_redeemed_tokens_of :: "('a, 'c) vault \<Rightarrow> 'c amount" where
  "to_be_redeemed_tokens_of v = Amount (to_be_redeemed_tokens v) (wrapped_currency (v_id v))"

definition to_be_replaced_tokens_of :: "('a, 'c) vault \<Rightarrow> 'c amount" where
  "to_be_replaced_tokens_of v = Amount (to_be_replaced_tokens v) (wrapped_currency (v_id v))"

definition liquidated_collateral_of :: "('a, 'c) vault \<Rightarrow> 'c amount" where
  "liquidated_collateral_of v = Amount (liquidated_collateral v) (collateral_currency (v_id v))"

definition increase_issued :: "'c amount \<Rightarrow> ('a, 'c) vault \<Rightarrow> ('a, 'c, 'x, ('a, 'c) vault) vault_action" where
  "increase_issued tokens v =
     (if is_liquidated v then on_liquidation_vault (lv_increase_issued tokens) v
      else sbind (slift (\<lambda>_. am_checked_add (issued_tokens_of v) tokens)) (\<lambda>n.
           update (\<lambda>v. Inr (v\<lparr>issued_tokens := amt n\<rparr>)) v))"

definition increase_to_be_issued :: "'c amount \<Rightarrow> ('a, 'c) vault \<Rightarrow> ('a, 'c, 'x, ('a, 'c) vault) vault_action" where
  "increase_to_be_issued tokens v =
     sbind (sensure (\<lambda>_. \<not> is_liquidated v) (vault_err VaultNotFound)) (\<lambda>_.
     sbind (slift (\<lambda>_. am_checked_add (to_be_issued_tokens_of v) tokens)) (\<lambda>n.
     update (\<lambda>v. Inr (v\<lparr>to_be_issued_tokens := amt n\<rparr>)) v))"

definition increase_to_be_redeemed :: "'c amount \<Rightarrow> ('a, 'c) vault \<Rightarrow> ('a, 'c, 'x, ('a, 'c) vault) vault_action" where
  "increase_to_be_redeemed tokens v =
     sbind (sensure (\<lambda>_. \<not> is_liquidated v) (vault_err VaultNotFound)) (\<lambda>_.
     sbind (slift (\<lambda>_. am_checked_add (to_be_redeemed_tokens_of v) tokens)) (\<lambda>n.
     update (\<lambda>v. Inr (v\<lparr>to_be_redeemed_tokens := amt n\<rparr>)) v))"

definition decrease_issued :: "'c amount \<Rightarrow> ('a, 'c) vault \<Rightarrow> ('a, 'c, 'x, ('a, 'c) vault) vault_action" where
  "decrease_issued tokens v =
     (if is_liquidated v then on_liquidation_vault (lv_decrease_issued tokens) v
      else sbind (slift (\<lambda>_. am_checked_sub (issued_tokens_of v) tokens)) (\<lambda>n.
           update (\<lambda>v. Inr (v\<lparr>issued_tokens := amt n\<rparr>)) v))"

definition decrease_to_be_issued :: "'c amount \<Rightarrow> ('a, 'c) vault \<Rightarrow> ('a, 'c, 'x, ('a, 'c) vault) vault_action" where
  "decrease_to_be_issued tokens v =
     (if is_liquidated v then on_liquidation_vault (lv_decrease_to_be_issued tokens) v
      else sbind (slift (\<lambda>_. am_checked_sub (to_be_issued_tokens_of v) tokens)) (\<lambda>n.
           update (\<lambda>v. Inr (v\<lparr>to_be_issued_tokens := amt n\<rparr>)) v))"

definition decrease_to_be_redeemed :: "'c amount \<Rightarrow> ('a, 'c) vault \<Rightarrow> ('a, 'c, 'x, ('a, 'c) vault) vault_action" where
  "decrease_to_be_redeemed tokens v =
     sbind (if is_liquidated v then on_liquidation_vault (lv_decrease_to_be_redeemed tokens) v else sret v) (\<lambda>v.
     sbind (slift (\<lambda>_. am_checked_sub (to_be_redeemed_tokens_of v) tokens)) (\<lambda>n.
     update (\<lambda>v. Inr (v\<lparr>to_be_redeemed_tokens := amt n\<rparr>)) v))"

definition freely_redeemable_tokens :: "('a, 'c) vault \<Rightarrow> 'c amount dispatch" where
  "freely_redeemable_tokens v = am_checked_sub (issued_tokens_of v) (to_be_redeemed_tokens_of v)"

definition request_issue_tokens :: "'c amount \<Rightarrow> ('a, 'c) vault \<Rightarrow> ('a, 'c, 'x, ('a, 'c) vault) vault_action" where
  "request_issue_tokens tokens v = increase_to_be_issued tokens v"

definition cancel_issue_tokens :: "'c amount \<Rightarrow> ('a, 'c) vault \<Rightarrow> ('a, 'c, 'x, ('a, 'c) vault) vault_action" where
  "cancel_issue_tokens tokens v = decrease_to_be_issued tokens v"

definition execute_issue_tokens :: "'c amount \<Rightarrow> ('a, 'c) vault \<Rightarrow> ('a, 'c, 'x, ('a, 'c) vault) vault_action" where
  "execute_issue_tokens tokens v = sbind (decrease_to_be_issued tokens v) (increase_issued tokens)"

definition request_redeem_tokens :: "'c amount \<Rightarrow> ('a, 'c) vault \<Rightarrow> ('a, 'c, 'x, ('a, 'c) vault) vault_action" where
  "request_redeem_tokens tokens v = increase_to_be_redeemed tokens v"

definition cancel_redeem_tokens :: "'c amount \<Rightarrow> ('a, 'c) vault \<Rightarrow> ('a, 'c, 'x, ('a, 'c) vault) vault_action" where
  "cancel_redeem_tokens tokens v = decrease_to_be_redeemed tokens v"

definition execute_redeem_tokens :: "'c amount \<Rightarrow> ('a, 'c) vault \<Rightarrow> ('a, 'c, 'x, ('a, 'c) vault) vault_action" where
  "execute_redeem_tokens tokens v = sbind (decrease_to_be_redeemed tokens v) (decrease_issued tokens)"

definition backed_tokens :: "('a, 'c) vault \<Rightarrow> 'c amount dispatch" where
  "backed_tokens v =
     rbind (ok_or (checked_add_w 128 (issued_tokens v) (to_be_issued_tokens v)) (ArithmeticError Overflow)) (\<lambda>n.
     Inr (Amount n (wrapped_currency (v_id v))))"

definition to_be_backed_tokens :: "('a, 'c) vault \<Rightarrow> 'c amount dispatch" where
  "to_be_backed_tokens v =
     rbind (ok_or (checked_add_w 128 (issued_tokens v) (to_be_issued_tokens v)) (ArithmeticError Overflow)) (\<lambda>n.
     rbind (ok_or (checked_sub n (to_be_redeemed_tokens v)) (ArithmeticError Underflow)) (\<lambda>m.
     Inr (Amount m (wrapped_currency (v_id v)))))"

definition set_to_be_replaced_amount :: "'c amount \<Rightarrow> ('a, 'c) vault \<Rightarrow> ('a, 'c, 'x, ('a, 'c) vault) vault_action" where
  "set_to_be_replaced_amount tokens v = update (\<lambda>v. Inr (v\<lparr>to_be_replaced_tokens := amt tokens\<rparr>)) v"

definition increase_available_replace_collateral :: "'c amount \<Rightarrow> ('a, 'c) vault \<Rightarrow> ('a, 'c, 'x, ('a, 'c) vault) vault_action" where
  "increase_available_replace_collateral amount v = update (\<lambda>v.
     rbind (ok_or (checked_add_w 128 (replace_collateral v) (amt amount)) (ArithmeticError Overflow)) (\<lambda>n. Inr (v\<lparr>replace_collateral := n\<rparr>))) v"

definition decrease_available_replace_collateral :: "'c amount \<Rightarrow> ('a, 'c) vault \<Rightarrow> ('a, 'c, 'x, ('a, 'c) vault) vault_action" where
  "decrease_available_replace_collateral amount v = update (\<lambda>v.
     rbind (ok_or (checked_sub (replace_collateral v) (amt amount)) (ArithmeticError Underflow)) (\<lambda>n. Inr (v\<lparr>replace_collateral := n\<rparr>))) v"

definition increase_active_replace_collateral :: "'c amount \<Rightarrow> ('a, 'c) vault \<Rightarrow> ('a, 'c, 'x, ('a, 'c) vault) vault_action" where
  "increase_active_replace_collateral amount v = update (\<lambda>v.
     rbind (ok_or (checked_add_w 128 (active_replace_collateral v) (amt amount)) (ArithmeticError Overflow)) (\<lambda>n. Inr (v\<lparr>active_replace_collateral := n\<rparr>))) v"

definition decrease_active_replace_collateral :: "'c amount \<Rightarrow> ('a, 'c) vault \<Rightarrow> ('a, 'c, 'x, ('a, 'c) vault) vault_action" where
  "decrease_active_replace_collateral amount v = update (\<lambda>v.
     rbind (ok_or (checked_sub (active_replace_collateral v) (amt amount)) (ArithmeticError Underflow)) (\<lambda>n. Inr (v\<lparr>active_replace_collateral := n\<rparr>))) v"

definition rv_set_custom_secure_threshold :: "ufixed option \<Rightarrow> ('a, 'c) vault \<Rightarrow> ('a, 'c, 'x, ('a, 'c) vault) vault_action" where
  "rv_set_custom_secure_threshold threshold v = update (\<lambda>v. Inr (v\<lparr>secure_threshold := threshold\<rparr>)) v"

definition set_accept_new_issues :: "bool \<Rightarrow> ('a, 'c) vault \<Rightarrow> ('a, 'c, 'x, ('a, 'c) vault) vault_action" where
  "set_accept_new_issues accept v = update (\<lambda>v. Inr (v\<lparr>v_status := Active accept\<rparr>)) v"

definition increase_liquidated_collateral :: "'c amount \<Rightarrow> ('a, 'c) vault \<Rightarrow> ('a, 'c, 'x, ('a, 'c) vault) vault_action" where
  "increase_liquidated_collateral amount v = update (\<lambda>v.
     rbind (ok_or (checked_add_w 128 (liquidated_collateral v) (amt amount)) (ArithmeticError Overflow)) (\<lambda>n. Inr (v\<lparr>liquidated_collateral := n\<rparr>))) v"

definition rv_decrease_liquidated_collateral :: "'c amount \<Rightarrow> ('a, 'c) vault \<Rightarrow> ('a, 'c, 'x, ('a, 'c) vault) vault_action" where
  "rv_decrease_liquidated_collateral amount v = update (\<lambda>v.
     rbind (ok_or (checked_sub (liquidated_collateral v) (amt amount)) (ArithmeticError Underflow)) (\<lambda>n. Inr (v\<lparr>liquidated_collateral := n\<rparr>))) v"

definition is_banned :: "('a, 'c, 'x) vault_config \<Rightarrow> ('a, 'c, 'x) registry \<Rightarrow> ('a, 'c) vault \<Rightarrow> bool" where
  "is_banned C s v = (case banned_until v of None \<Rightarrow> False | Some until \<Rightarrow> cfg_active_block_number C (world s) \<le> until)"

definition rv_ensure_not_banned :: "('a, 'c, 'x) vault_config \<Rightarrow> ('a, 'c, 'x) registry \<Rightarrow> ('a, 'c) vault \<Rightarrow> unit dispatch" where
  "rv_ensure_not_banned C s v = (if is_banned C s v then Inl (Err (vault_err VaultBanned)) else Inr ())"

definition ban_until :: "nat \<Rightarrow> ('a, 'c) vault \<Rightarrow> ('a, 'c, 'x, ('a, 'c) vault) vault_action" where
  "ban_until height v = update (\<lambda>v. Inr (v\<lparr>banned_until := Some height\<rparr>)) v"

definition get_bitcoin_public_key :: "('a, 'c, 'x) registry \<Rightarrow> 'a \<Rightarrow> public_key dispatch" where
  "get_bitcoin_public_key s account_id = ok_or (VaultBitcoinPublicKey s account_id) (vault_err NoBitcoinPublicKey)"

definition rv_new_deposit_public_key :: "('a, 'c, 'x) vault_config \<Rightarrow> ('a, 'c, 'x) registry \<Rightarrow> h256 \<Rightarrow> ('a, 'c) vault \<Rightarrow> public_key dispatch" where
  "rv_new_deposit_public_key C s secure_id v =
     rbind (get_bitcoin_public_key s (vid_account (v_id v))) (\<lambda>key.
     ok_or (new_deposit_public_key (cfg_sha256 C) (cfg_mul_assign C) key secure_id) (vault_err InvalidPublicKey))"

definition new_deposit_address :: "('a, 'c, 'x) vault_config \<Rightarrow> ('a, 'c, 'x) registry \<Rightarrow> h256 \<Rightarrow> ('a, 'c) vault \<Rightarrow> address dispatch" where
  "new_deposit_address C s secure_id v =
     rbind (rv_new_deposit_public_key C s secure_id v) (\<lambda>public_key.
     Inr (P2WPKHv0 (public_key_to_hash (cfg_hash160 C) public_key)))"

definition get_backing_collateral :: "('a, 'c, 'x) vault_config \<Rightarrow> ('a, 'c, 'x) registry \<Rightarrow> ('a, 'c) vault_id \<Rightarrow> 'c amount dispatch" where
  "get_backing_collateral C s vault_id =
     rbind (cfg_stake_total C (world s) (None, vault_id)) (\<lambda>n. Inr (Amount n (collateral_currency vault_id)))"

definition compute_collateral :: "('a, 'c, 'x) vault_config \<Rightarrow> ('a, 'c, 'x) registry \<Rightarrow> ('a, 'c) vault_id \<Rightarrow> 'c amount dispatch" where
  "compute_collateral C s vault_id =
     rbind (cfg_stake_get C (world s) (None, vault_id) (vid_account vault_id)) (\<lambda>n. Inr (Amount n (collateral_currency vault_id)))"

definition get_secure_threshold :: "('a, 'c, 'x) registry \<Rightarrow> ('a, 'c) vault \<Rightarrow> ufixed dispatch" where
  "get_secure_threshold s v =
     rbind (ok_or (SecureCollateralThreshold s (vid_currencies (v_id v))) (vault_err ThresholdNotSet)) (\<lambda>global_threshold.
     Inr (max (case secure_threshold v of Some t \<Rightarrow> t | None \<Rightarrow> 0) global_threshold))"

definition get_used_collateral ::
  "('a, 'c, 'x) vault_config \<Rightarrow> ('a, 'c, 'x) registry \<Rightarrow> ('a, 'c) vault \<Rightarrow> ufixed \<Rightarrow> 'c amount dispatch" where
  "get_used_collateral C s v threshold =
     rbind (backed_tokens v) (\<lambda>issued.
     rbind (cfg_convert C (world s) issued (collateral_currency (v_id v))) (\<lambda>issued_tokens_in_collateral.
     rbind (am_checked_mul (cfg_ufixed C) issued_tokens_in_collateral threshold) (\<lambda>used_collateral.
     rbind (get_backing_collateral C s (v_id v)) (\<lambda>total.
     am_min total used_collateral))))"

definition get_free_collateral :: "('a, 'c, 'x) vault_config \<Rightarrow> ('a, 'c, 'x) registry \<Rightarrow> ('a, 'c) vault \<Rightarrow> 'c amount dispatch" where
  "get_free_collateral C s v =
     rbind (get_secure_threshold s v) (\<lambda>t.
     rbind (get_used_collateral C s v t) (\<lambda>used_collateral.
     rbind (get_backing_collateral C s (v_id v)) (\<lambda>total.
     am_checked_sub total used_collateral)))"

definition calculate_max_wrapped_from_collateral_for_threshold ::
  "('a, 'c, 'x) vault_config \<Rightarrow> ('a, 'c, 'x) registry \<Rightarrow> 'c amount \<Rightarrow> 'c \<Rightarrow> ufixed \<Rightarrow> 'c amount dispatch" where
  "calculate_max_wrapped_from_collateral_for_threshold C s collateral wrapped threshold =
     rbind (cfg_convert C (world s) collateral wrapped) (\<lambda>x. am_checked_div (cfg_ufixed C) x threshold)"

definition issuable_tokens :: "('a, 'c, 'x) vault_config \<Rightarrow> ('a, 'c, 'x) registry \<Rightarrow> ('a, 'c) vault \<Rightarrow> 'c amount dispatch" where
  "issuable_tokens C s v =
     (if is_banned C s v then Inr (Amount 0 (wrapped_currency (v_id v)))
      else
     rbind (get_free_collateral C s v) (\<lambda>free_collateral.
     rbind (get_secure_threshold s v) (\<lambda>t.
     calculate_max_wrapped_from_collateral_for_threshold C s free_collateral (wrapped_currency (v_id v)) t)))"

definition redeemable_tokens :: "('a, 'c, 'x) vault_config \<Rightarrow> ('a, 'c, 'x) registry \<Rightarrow> ('a, 'c) vault \<Rightarrow> 'c amount dispatch" where
  "redeemable_tokens C s v =
     (if is_banned C s v then Inr (Amount 0 (wrapped_currency (v_id v)))
      else am_checked_sub (issued_tokens_of v) (to_be_redeemed_tokens_of v))"

end
