(* ===== verification/Vault_Pool.thy ===== *)
theory Vault_Pool
  imports Vault_Types
begin

text \<open>
  The movement of collateral: the pool manager (\<^verbatim>\<open>src/crates/vault-registry/src/pool_manager.rs\<close>), the
  system-wide total of backing collateral (\<^verbatim>\<open>lib.rs\<close>), the nomination pallet
  (\<^verbatim>\<open>src/crates/nomination/src/lib.rs\<close>) and the transfers between currency sources (\<^verbatim>\<open>lib.rs\<close>, \<^verbatim>\<open>types.rs\<close>).
\<close>

subsection \<open>Pool manager\<close>

definition ext_withdraw_stake ::
  "('a, 'c, 'x) vault_config \<Rightarrow> ('a, 'c) vault_id \<Rightarrow> 'a \<Rightarrow> 'c amount option \<Rightarrow> nat option \<Rightarrow> ('a, 'c, 'x, 'c amount) vault_action" where
  "ext_withdraw_stake C vault_id nominator_id maybe_amount nonce =
     (case maybe_amount of
        Some amount \<Rightarrow> sbind (on_world (cfg_stake_withdraw C (nonce, vault_id) nominator_id (amt amount))) (\<lambda>_. sret amount)
      | None \<Rightarrow> sbind (on_world (cfg_stake_withdraw_all C (nonce, vault_id) nominator_id)) (\<lambda>balance.
          sret (Amount balance (collateral_currency vault_id))))"

definition ext_force_refund :: "('a, 'c, 'x) vault_config \<Rightarrow> ('a, 'c) vault_id \<Rightarrow> ('a, 'c, 'x, 'c amount) vault_action" where
  "ext_force_refund C vault_id =
     sbind (on_world (cfg_stake_force_refund C vault_id)) (\<lambda>n. sret (Amount n (collateral_currency vault_id)))"

definition update_capacity_stake :: "('a, 'c, 'x) vault_config \<Rightarrow> 'c \<Rightarrow> ('a, 'c, 'x, unit) vault_action" where
  "update_capacity_stake C currency_id =
     sbind (slift (\<lambda>s. cfg_reward_total C (world s) currency_id)) (\<lambda>n.
     sbind (slift (\<lambda>s. cfg_convert C (world s) (Amount n currency_id) (cfg_wrapped_currency C))) (\<lambda>new_capacity_stake.
     on_world (cfg_capacity_set_stake C currency_id (amt new_capacity_stake))))"

definition ext_reward_set_stake :: "('a, 'c, 'x) vault_config \<Rightarrow> ('a, 'c) vault_id \<Rightarrow> 'c amount \<Rightarrow> ('a, 'c, 'x, unit) vault_action" where
  "ext_reward_set_stake C vault_id amount =
     on_world (cfg_reward_set_stake C (collateral_currency vault_id) vault_id (amt amount))"

definition get_vault_secure_threshold :: "('a, 'c, 'x) registry \<Rightarrow> ('a, 'c) vault_id \<Rightarrow> ufixed dispatch" where
  "get_vault_secure_threshold s vault_id = rbind (get_vault_from_id s vault_id) (\<lambda>v. get_secure_threshold s v)"

definition update_reward_stake :: "('a, 'c, 'x) vault_config \<Rightarrow> ('a, 'c) vault_id \<Rightarrow> ('a, 'c, 'x, unit) vault_action" where
  "update_reward_stake C vault_id =
     sbind (slift (\<lambda>s. get_vault_from_id s vault_id)) (\<lambda>v.
     sbind (if \<not> accepts_new_issues v then sret (am_zero (collateral_currency vault_id))
            else sbind (slift (\<lambda>s. get_backing_collateral C s vault_id)) (\<lambda>total_collateral.
                 sbind (slift (\<lambda>s. get_vault_secure_threshold s vault_id)) (\<lambda>t.
                 slift (\<lambda>_. am_checked_div (cfg_ufixed C) total_collateral t)))) (\<lambda>new_reward_stake.
     sbind (ext_reward_set_stake C vault_id new_reward_stake) (\<lambda>_.
     update_capacity_stake C (collateral_currency vault_id))))"

definition pm_deposit_collateral ::
  "('a, 'c, 'x) vault_config \<Rightarrow> ('a, 'c) vault_id \<Rightarrow> 'a \<Rightarrow> 'c amount \<Rightarrow> ('a, 'c, 'x, unit) vault_action" where
  "pm_deposit_collateral C vault_id nominator_id amount =
     sbind (on_world (cfg_distribute_all_vault_rewards C vault_id)) (\<lambda>_.
     sbind (on_world (cfg_stake_deposit C (None, vault_id) nominator_id (amt amount))) (\<lambda>_.
     update_reward_stake C vault_id))"

definition pm_withdraw_collateral ::
  "('a, 'c, 'x) vault_config \<Rightarrow> ('a, 'c) vault_id \<Rightarrow> 'a \<Rightarrow> 'c amount option \<Rightarrow> nat option \<Rightarrow> ('a, 'c, 'x, 'c amount) vault_action" where
  "pm_withdraw_collateral C vault_id nominator_id maybe_amount nonce =
     sbind (on_world (cfg_distribute_all_vault_rewards C vault_id)) (\<lambda>_.
     sbind (ext_withdraw_stake C vault_id nominator_id maybe_amount nonce) (\<lambda>amount.
     sbind (update_reward_stake C vault_id) (\<lambda>_. sret amount)))"

definition pm_slash_collateral :: "('a, 'c, 'x) vault_config \<Rightarrow> ('a, 'c) vault_id \<Rightarrow> 'c amount \<Rightarrow> ('a, 'c, 'x, unit) vault_action" where
  "pm_slash_collateral C vault_id amount =
     sbind (on_world (cfg_distribute_all_vault_rewards C vault_id)) (\<lambda>_.
     sbind (on_world (cfg_stake_slash C vault_id (amt amount))) (\<lambda>_.
     update_reward_stake C vault_id))"

definition kick_nominators :: "('a, 'c, 'x) vault_config \<Rightarrow> ('a, 'c) vault_id \<Rightarrow> ('a, 'c, 'x, 'c amount) vault_action" where
  "kick_nominators C vault_id =
     sbind (on_world (cfg_distribute_all_vault_rewards C vault_id)) (\<lambda>_.
     sbind (ext_force_refund C vault_id) (\<lambda>ret.
     sbind (update_reward_stake C vault_id) (\<lambda>_. sret ret)))"

definition on_vault_settings_change :: "('a, 'c, 'x) vault_config \<Rightarrow> ('a, 'c) vault_id \<Rightarrow> ('a, 'c, 'x, unit) vault_action" where
  "on_vault_settings_change C vault_id =
     sbind (on_world (cfg_distribute_all_vault_rewards C vault_id)) (\<lambda>_. update_reward_stake C vault_id)"

text \<open>The hook on exchange rates drops the error. A call that fails is taken to leave the storage unchanged.\<close>

definition on_exchange_rate_change :: "('a, 'c, 'x) vault_config \<Rightarrow> 'c \<Rightarrow> ('a, 'c, 'x) registry \<Rightarrow> ('a, 'c, 'x) registry" where
  "on_exchange_rate_change C currency_id s = (case update_capacity_stake C currency_id s of Inr (_, s') \<Rightarrow> s' | Inl _ \<Rightarrow> s)"

subsection \<open>Total backing collateral\<close>

definition get_collateral_ceiling :: "('a, 'c, 'x) registry \<Rightarrow> 'c vault_currency_pair \<Rightarrow> 'c amount dispatch" where
  "get_collateral_ceiling s currency_pair =
     rbind (ok_or (SystemCollateralCeiling s currency_pair) (vault_err CeilingNotSet)) (\<lambda>n. Inr (Amount n (pair_collateral currency_pair)))"

definition get_total_user_vault_collateral :: "('a, 'c, 'x) registry \<Rightarrow> 'c vault_currency_pair \<Rightarrow> 'c amount dispatch" where
  "get_total_user_vault_collateral s currency_pair =
     Inr (Amount (TotalUserVaultCollateral s currency_pair) (pair_collateral currency_pair))"

definition try_increase_total_backing_collateral :: "'c vault_currency_pair \<Rightarrow> 'c amount \<Rightarrow> ('a, 'c, 'x, unit) vault_action" where
  "try_increase_total_backing_collateral currency_pair amount =
     sbind (slift (\<lambda>s. rbind (get_total_user_vault_collateral s currency_pair) (\<lambda>t. am_checked_add t amount))) (\<lambda>new.
     sbind (slift (\<lambda>s. get_collateral_ceiling s currency_pair)) (\<lambda>limit.
     sbind (slift (\<lambda>_. am_le new limit)) (\<lambda>below.
     sbind (sensure (\<lambda>_. below) (vault_err CurrencyCeilingExceeded)) (\<lambda>_.
     sbind (smod (\<lambda>s. s\<lparr>TotalUserVaultCollateral := (TotalUserVaultCollateral s)(currency_pair := amt new)\<rparr>)) (\<lambda>_.
     emit (IncreaseLockedCollateral currency_pair (amt amount) (amt new)))))))"

definition decrease_total_backing_collateral :: "'c vault_currency_pair \<Rightarrow> 'c amount \<Rightarrow> ('a, 'c, 'x, unit) vault_action" where
  "decrease_total_backing_collateral currency_pair amount =
     sbind (slift (\<lambda>s. rbind (get_total_user_vault_collateral s currency_pair) (\<lambda>t. am_checked_sub t amount))) (\<lambda>new.
     sbind (smod (\<lambda>s. s\<lparr>TotalUserVaultCollateral := (TotalUserVaultCollateral s)(currency_pair := amt new)\<rparr>)) (\<lambda>_.
     emit (DecreaseLockedCollateral currency_pair (amt amount) (amt new))))"

subsection \<open>Thresholds\<close>

definition get_minimum_collateral_vault :: "('a, 'c, 'x) registry \<Rightarrow> 'c \<Rightarrow> 'c amount" where
  "get_minimum_collateral_vault s currency_id =
     Amount (case MinimumCollateralVault s currency_id of Some n \<Rightarrow> n | None \<Rightarrow> 0) currency_id"

definition is_collateral_below_threshold ::
  "('a, 'c, 'x) vault_config \<Rightarrow> ('a, 'c, 'x) registry \<Rightarrow> 'c amount \<Rightarrow> 'c amount \<Rightarrow> ufixed \<Rightarrow> bool dispatch" where
  "is_collateral_below_threshold C s collateral btc_amount threshold =
     rbind (calculate_max_wrapped_from_collateral_for_threshold C s collateral (cur btc_amount) threshold) (\<lambda>max_tokens.
     am_lt max_tokens btc_amount)"

definition is_collateral_below_vault_secure_threshold ::
  "('a, 'c, 'x) vault_config \<Rightarrow> ('a, 'c, 'x) registry \<Rightarrow> 'c amount \<Rightarrow> 'c amount \<Rightarrow> ('a, 'c) vault \<Rightarrow> bool dispatch" where
  "is_collateral_below_vault_secure_threshold C s collateral wrapped_amount v =
     rbind (get_secure_threshold s v) (\<lambda>t. is_collateral_below_threshold C s collateral wrapped_amount t)"

definition is_allowed_to_withdraw_collateral ::
  "('a, 'c, 'x) vault_config \<Rightarrow> ('a, 'c, 'x) registry \<Rightarrow> ('a, 'c) vault_id \<Rightarrow> 'c amount option \<Rightarrow> bool dispatch" where
  "is_allowed_to_withdraw_collateral C s vault_id maybe_amount =
     rbind (get_vault_from_id s vault_id) (\<lambda>v.
     rbind (case maybe_amount of
              None \<Rightarrow> Inr (Some (am_zero (collateral_currency vault_id)))
            | Some amount \<Rightarrow> rbind (get_backing_collateral C s vault_id) (\<lambda>b.
                case am_checked_sub b amount of
                  Inr x \<Rightarrow> Inr (Some x)
                | Inl e \<Rightarrow> if e = Err (ArithmeticError Underflow) then Inr None else Inl e)) (\<lambda>r.
     case r of
       None \<Rightarrow> Inr False
     | Some new_collateral \<Rightarrow>
         rbind (if am_is_zero new_collateral then Inr True
                else am_ge new_collateral (get_minimum_collateral_vault s (collateral_currency vault_id))) (\<lambda>enough.
         rbind (rensure enough (vault_err InsufficientVaultCollateralAmount)) (\<lambda>_.
         rbind (backed_tokens v) (\<lambda>backed.
         rbind (is_collateral_below_vault_secure_threshold C s new_collateral backed v) (\<lambda>below.
         Inr (\<not> below)))))))"

subsection \<open>Nomination\<close>

definition is_opted_in :: "('a, 'c, 'x) registry \<Rightarrow> ('a, 'c) vault_id \<Rightarrow> bool" where
  "is_opted_in s vault_id \<longleftrightarrow> NominationVaults s vault_id \<noteq> None"

definition get_total_nominated_collateral :: "('a, 'c, 'x) vault_config \<Rightarrow> ('a, 'c, 'x) registry \<Rightarrow> ('a, 'c) vault_id \<Rightarrow> 'c amount dispatch" where
  "get_total_nominated_collateral C s vault_id =
     rbind (get_backing_collateral C s vault_id) (\<lambda>b.
     rbind (compute_collateral C s vault_id) (\<lambda>a. am_checked_sub b a))"

definition get_nomination_limit :: "('a, 'c, 'x) registry \<Rightarrow> ('a, 'c) vault_id \<Rightarrow> 'c amount" where
  "get_nomination_limit s vault_id = Amount (NominationLimit s vault_id) (collateral_currency vault_id)"

definition get_nominator_collateral :: "('a, 'c, 'x) vault_config \<Rightarrow> ('a, 'c, 'x) registry \<Rightarrow> ('a, 'c) vault_id \<Rightarrow> 'a \<Rightarrow> 'c amount dispatch" where
  "get_nominator_collateral C s vault_id nominator_id =
     rbind (cfg_stake_get C (world s) (None, vault_id) nominator_id) (\<lambda>n. Inr (Amount n (collateral_currency vault_id)))"

definition nomination_deposit_collateral ::
  "('a, 'c, 'x) vault_config \<Rightarrow> ('a, 'c) vault_id \<Rightarrow> 'a \<Rightarrow> nat \<Rightarrow> ('a, 'c, 'x, unit) vault_action" where
  "nomination_deposit_collateral C vault_id nominator_id n =
     (let amount = Amount n (collateral_currency vault_id) in
     sbind (if vid_account vault_id \<noteq> nominator_id then
              sbind (slift (\<lambda>s. get_total_nominated_collateral C s vault_id)) (\<lambda>total_nominated_collateral.
              sbind (slift (\<lambda>_. am_checked_add total_nominated_collateral amount)) (\<lambda>new_nominated_collateral.
              sbind (sget (\<lambda>s. get_nomination_limit s vault_id)) (\<lambda>max_nominatable_collateral.
              sbind (sensure (\<lambda>s. NominationEnabled s) (NominationError VaultNominationDisabled)) (\<lambda>_.
              sbind (sensure (\<lambda>s. is_opted_in s vault_id) (NominationError VaultNotOptedInToNomination)) (\<lambda>_.
              sbind (slift (\<lambda>_. am_le new_nominated_collateral max_nominatable_collateral)) (\<lambda>below.
              sbind (sensure (\<lambda>_. below) (NominationError NominationExceedsLimit)) (\<lambda>_.
              on_world (am_transfer (cfg_tokens C) amount nominator_id (vid_account vault_id)))))))))
            else sret ()) (\<lambda>_.
     sbind (pm_deposit_collateral C vault_id nominator_id amount) (\<lambda>_.
     sbind (on_world (am_lock_on (cfg_tokens C) amount (vid_account vault_id))) (\<lambda>_.
     sbind (try_increase_total_backing_collateral (vid_currencies vault_id) amount) (\<lambda>_.
     emit (NominationDeposit vault_id nominator_id (amt amount)))))))"

definition deposit_vault_collateral :: "('a, 'c, 'x) vault_config \<Rightarrow> ('a, 'c) vault_id \<Rightarrow> 'c amount \<Rightarrow> ('a, 'c, 'x, unit) vault_action" where
  "deposit_vault_collateral C vault_id amount = nomination_deposit_collateral C vault_id (vid_account vault_id) (amt amount)"

definition nomination_withdraw_collateral ::
  "('a, 'c, 'x) vault_config \<Rightarrow> ('a, 'c) vault_id \<Rightarrow> 'a \<Rightarrow> nat option \<Rightarrow> nat \<Rightarrow> ('a, 'c, 'x, unit) vault_action" where
  "nomination_withdraw_collateral C vault_id nominator_id maybe_n index0 =
     sbind (sget (\<lambda>s. cfg_stake_nonce C (world s) vault_id)) (\<lambda>nonce.
     (let index = min index0 nonce;
          maybe_amount = map_option (\<lambda>n. Amount n (collateral_currency vault_id)) maybe_n in
     sbind (if index = nonce then
              sbind (slift (\<lambda>s. is_allowed_to_withdraw_collateral C s vault_id maybe_amount)) (\<lambda>allowed.
              sbind (sensure (\<lambda>_. allowed) (NominationError CannotWithdrawCollateral)) (\<lambda>_.
              if vid_account vault_id \<noteq> nominator_id then
                sbind (sensure (\<lambda>s. NominationEnabled s) (NominationError VaultNominationDisabled)) (\<lambda>_.
                sensure (\<lambda>s. is_opted_in s vault_id) (NominationError VaultNotOptedInToNomination))
              else sret ()))
            else sret ()) (\<lambda>_.
     sbind (pm_withdraw_collateral C vault_id nominator_id maybe_amount (Some index)) (\<lambda>amount.
     sbind (on_world (am_unlock_on (cfg_tokens C) amount (vid_account vault_id))) (\<lambda>_.
     sbind (on_world (am_transfer (cfg_tokens C) amount (vid_account vault_id) nominator_id)) (\<lambda>_.
     sbind (decrease_total_backing_collateral (vid_currencies vault_id) amount) (\<lambda>_.
     emit (NominationWithdraw vault_id nominator_id (amt amount)))))))))"

definition opt_in_to_nomination_inner :: "('a, 'c) vault_id \<Rightarrow> ('a, 'c, 'x, unit) vault_action" where
  "opt_in_to_nomination_inner vault_id =
     sbind (sensure (\<lambda>s. NominationEnabled s) (NominationError VaultNominationDisabled)) (\<lambda>_.
     sbind (sensure (\<lambda>s. vault_exists s vault_id) (NominationError NominationVaultNotFound)) (\<lambda>_.
     sbind (sensure (\<lambda>s. NominationVaults s vault_id = None) (NominationError VaultAlreadyOptedInToNomination)) (\<lambda>_.
     sbind (smod (\<lambda>s. s\<lparr>NominationVaults := (NominationVaults s)(vault_id \<mapsto> True)\<rparr>)) (\<lambda>_.
     emit (NominationOptIn vault_id)))))"

definition opt_out_of_nomination_inner :: "('a, 'c, 'x) vault_config \<Rightarrow> ('a, 'c) vault_id \<Rightarrow> ('a, 'c, 'x, unit) vault_action" where
  "opt_out_of_nomination_inner C vault_id =
     sbind (sensure (\<lambda>s. is_opted_in s vault_id) (NominationError VaultNotOptedInToNomination)) (\<lambda>_.
     sbind (slift (\<lambda>s. get_total_nominated_collateral C s vault_id)) (\<lambda>total_nominated_collateral.
     sbind (slift (\<lambda>s. is_allowed_to_withdraw_collateral C s vault_id (Some total_nominated_collateral))) (\<lambda>allowed.
     sbind (sensure (\<lambda>_. allowed) (NominationError CollateralizationTooLow)) (\<lambda>_.
     sbind (kick_nominators C vault_id) (\<lambda>refunded_collateral.
     sbind (decrease_total_backing_collateral (vid_currencies vault_id) refunded_collateral) (\<lambda>_.
     sbind (smod (\<lambda>s. s\<lparr>NominationVaults := (NominationVaults s)(vault_id := None)\<rparr>)) (\<lambda>_.
     emit (NominationOptOut vault_id))))))))"

subsubsection \<open>Dispatchables of the nomination pallet\<close>

abbreviation signed_vault :: "'a origin \<Rightarrow> 'c vault_currency_pair \<Rightarrow> ('a, 'c) vault_id dispatch" where
  "signed_vault origin currency_pair \<equiv>
     rbind (ensure_signed origin) (\<lambda>account_id. Inr (vault_id_new account_id (pair_collateral currency_pair) (pair_wrapped currency_pair)))"

definition set_nomination_enabled :: "'a origin \<Rightarrow> bool \<Rightarrow> ('a, 'c, 'x, unit) vault_action" where
  "set_nomination_enabled origin enabled =
     sbind (slift (\<lambda>_. ensure_root origin)) (\<lambda>_. smod (\<lambda>s. s\<lparr>NominationEnabled := enabled\<rparr>))"

definition opt_in_to_nomination :: "'a origin \<Rightarrow> 'c vault_currency_pair \<Rightarrow> ('a, 'c, 'x, unit) vault_action" where
  "opt_in_to_nomination origin currency_pair = sbind (slift (\<lambda>_. signed_vault origin currency_pair)) opt_in_to_nomination_inner"

definition opt_out_of_nomination :: "('a, 'c, 'x) vault_config \<Rightarrow> 'a origin \<Rightarrow> 'c vault_currency_pair \<Rightarrow> ('a, 'c, 'x, unit) vault_action" where
  "opt_out_of_nomination C origin currency_pair = sbind (slift (\<lambda>_. signed_vault origin currency_pair)) (opt_out_of_nomination_inner C)"

definition deposit_collateral :: "('a, 'c, 'x) vault_config \<Rightarrow> 'a origin \<Rightarrow> ('a, 'c) vault_id \<Rightarrow> nat \<Rightarrow> ('a, 'c, 'x, unit) vault_action" where
  "deposit_collateral C origin vault_id amount =
     sbind (slift (\<lambda>_. ensure_signed origin)) (\<lambda>nominator_id. nomination_deposit_collateral C vault_id nominator_id amount)"

definition withdraw_collateral ::
  "('a, 'c, 'x) vault_config \<Rightarrow> 'a origin \<Rightarrow> ('a, 'c) vault_id \<Rightarrow> nat option \<Rightarrow> nat option \<Rightarrow> ('a, 'c, 'x, unit) vault_action" where
  "withdraw_collateral C origin vault_id amount index =
     sbind (slift (\<lambda>_. ensure_signed origin)) (\<lambda>nominator_id.
     nomination_withdraw_collateral C vault_id nominator_id amount (case index of Some i \<Rightarrow> i | None \<Rightarrow> 0))"

definition set_nomination_limit :: "'a origin \<Rightarrow> 'c vault_currency_pair \<Rightarrow> nat \<Rightarrow> ('a, 'c, 'x, unit) vault_action" where
  "set_nomination_limit origin currency_pair limit =
     sbind (slift (\<lambda>_. signed_vault origin currency_pair)) (\<lambda>vault_id.
     smod (\<lambda>s. s\<lparr>NominationLimit := (NominationLimit s)(vault_id := limit)\<rparr>))"

subsection \<open>Currency sources\<close>

datatype ('a, 'c) currency_source =
    Collateral "('a, 'c) vault_id"
  | AvailableReplaceCollateral "('a, 'c) vault_id"
  | ActiveReplaceCollateral "('a, 'c) vault_id"
  | UserGriefing 'a
  | FreeBalance 'a
  | LiquidatedCollateral "('a, 'c) vault_id"
  | LiquidationVaultFunds "'c vault_currency_pair"

fun source_account_id :: "('a, 'c, 'x) vault_config \<Rightarrow> ('a, 'c) currency_source \<Rightarrow> 'a" where
  "source_account_id C (Collateral i) = vid_account i"
| "source_account_id C (AvailableReplaceCollateral i) = vid_account i"
| "source_account_id C (ActiveReplaceCollateral i) = vid_account i"
| "source_account_id C (UserGriefing a) = a"
| "source_account_id C (FreeBalance a) = a"
| "source_account_id C (LiquidatedCollateral i) = vid_account i"
| "source_account_id C (LiquidationVaultFunds _) = cfg_liquidation_account C"

fun current_balance :: "('a, 'c, 'x) vault_config \<Rightarrow> ('a, 'c, 'x) registry \<Rightarrow> ('a, 'c) currency_source \<Rightarrow> 'c \<Rightarrow> 'c amount dispatch" where
  "current_balance C s (Collateral i) currency_id = get_backing_collateral C s i"
| "current_balance C s (AvailableReplaceCollateral i) currency_id =
     rbind (get_vault_from_id s i) (\<lambda>v. Inr (Amount (replace_collateral v) (cfg_griefing_currency C)))"
| "current_balance C s (ActiveReplaceCollateral i) currency_id =
     rbind (get_vault_from_id s i) (\<lambda>v. Inr (Amount (active_replace_collateral v) (cfg_griefing_currency C)))"
| "current_balance C s (UserGriefing a) currency_id = Inr (get_reserved_balance (cfg_tokens C) (world s) currency_id a)"
| "current_balance C s (FreeBalance a) currency_id = Inr (get_free_balance (cfg_tokens C) (world s) currency_id a)"
| "current_balance C s (LiquidatedCollateral i) currency_id =
     rbind (get_vault_from_id s i) (\<lambda>v. Inr (Amount (liquidated_collateral v) (collateral_currency i)))"
| "current_balance C s (LiquidationVaultFunds p) currency_id = Inr (Amount (lv_collateral (get_liquidation_vault s p)) (pair_collateral p))"

definition try_deposit_collateral :: "('a, 'c, 'x) vault_config \<Rightarrow> ('a, 'c) vault_id \<Rightarrow> 'c amount \<Rightarrow> ('a, 'c, 'x, unit) vault_action" where
  "try_deposit_collateral C vault_id amount = deposit_vault_collateral C vault_id amount"

definition force_withdraw_collateral :: "('a, 'c, 'x) vault_config \<Rightarrow> ('a, 'c) vault_id \<Rightarrow> 'c amount \<Rightarrow> ('a, 'c, 'x, unit) vault_action" where
  "force_withdraw_collateral C vault_id amount =
     sbind (on_world (am_unlock_on (cfg_tokens C) amount (vid_account vault_id))) (\<lambda>_.
     sbind (decrease_total_backing_collateral (vid_currencies vault_id) amount) (\<lambda>_.
     sbind (pm_withdraw_collateral C vault_id (vid_account vault_id) (Some amount) None) (\<lambda>_. sret ())))"

definition slash_backing_collateral :: "('a, 'c, 'x) vault_config \<Rightarrow> ('a, 'c) vault_id \<Rightarrow> 'c amount \<Rightarrow> ('a, 'c, 'x, unit) vault_action" where
  "slash_backing_collateral C vault_id amount =
     sbind (on_world (am_unlock_on (cfg_tokens C) amount (vid_account vault_id))) (\<lambda>_.
     sbind (decrease_total_backing_collateral (vid_currencies vault_id) amount) (\<lambda>_.
     pm_slash_collateral C vault_id amount))"

text \<open>The two halves of \<^verbatim>\<open>transfer_funds\<close>: release from the source, and binding to the destination.\<close>

fun release_funds :: "('a, 'c, 'x) vault_config \<Rightarrow> ('a, 'c) currency_source \<Rightarrow> 'c amount \<Rightarrow> ('a, 'c, 'x, unit) vault_action" where
  "release_funds C (Collateral vault_id) amount =
     sbind (sensure (\<lambda>_. collateral_currency vault_id = cur amount) (vault_err InvalidCurrency)) (\<lambda>_.
     slash_backing_collateral C vault_id amount)"
| "release_funds C (AvailableReplaceCollateral vault_id) amount =
     sbind (slift (\<lambda>s. get_active_vault_from_id s vault_id)) (\<lambda>v.
     sbind (decrease_available_replace_collateral amount v) (\<lambda>_.
     on_world (am_unlock_on (cfg_tokens C) amount (vid_account vault_id))))"
| "release_funds C (ActiveReplaceCollateral vault_id) amount =
     sbind (slift (\<lambda>s. get_vault_from_id s vault_id)) (\<lambda>v.
     sbind (decrease_active_replace_collateral amount v) (\<lambda>_.
     on_world (am_unlock_on (cfg_tokens C) amount (vid_account vault_id))))"
| "release_funds C (UserGriefing a) amount = on_world (am_unlock_on (cfg_tokens C) amount a)"
| "release_funds C (LiquidatedCollateral vault_id) amount =
     sbind (decrease_total_backing_collateral (vid_currencies vault_id) amount) (\<lambda>_.
     on_world (am_unlock_on (cfg_tokens C) amount (vid_account vault_id)))"
| "release_funds C (LiquidationVaultFunds currencies) amount =
     sbind (sget (\<lambda>s. get_liquidation_vault s currencies)) (\<lambda>lv.
     sbind (lv_decrease_collateral amount lv) (\<lambda>_.
     sbind (decrease_total_backing_collateral currencies amount) (\<lambda>_.
     on_world (am_unlock_on (cfg_tokens C) amount (cfg_liquidation_account C)))))"
| "release_funds C (FreeBalance a) amount = sret ()"

fun bind_funds :: "('a, 'c, 'x) vault_config \<Rightarrow> ('a, 'c) currency_source \<Rightarrow> 'c amount \<Rightarrow> ('a, 'c, 'x, unit) vault_action" where
  "bind_funds C (Collateral vault_id) amount =
     sbind (sensure (\<lambda>_. collateral_currency vault_id = cur amount) (vault_err InvalidCurrency)) (\<lambda>_.
     try_deposit_collateral C vault_id amount)"
| "bind_funds C (AvailableReplaceCollateral vault_id) amount =
     sbind (slift (\<lambda>s. get_active_vault_from_id s vault_id)) (\<lambda>v.
     sbind (increase_available_replace_collateral amount v) (\<lambda>_.
     on_world (am_lock_on (cfg_tokens C) amount (vid_account vault_id))))"
| "bind_funds C (ActiveReplaceCollateral vault_id) amount =
     sbind (slift (\<lambda>s. get_vault_from_id s vault_id)) (\<lambda>v.
     sbind (increase_active_replace_collateral amount v) (\<lambda>_.
     on_world (am_lock_on (cfg_tokens C) amount (vid_account vault_id))))"
| "bind_funds C (UserGriefing a) amount = on_world (am_lock_on (cfg_tokens C) amount a)"
| "bind_funds C (LiquidatedCollateral vault_id) amount =
     sbind (try_increase_total_backing_collateral (vid_currencies vault_id) amount) (\<lambda>_.
     on_world (am_lock_on (cfg_tokens C) amount (vid_account vault_id)))"
| "bind_funds C (LiquidationVaultFunds currencies) amount =
     sbind (try_increase_total_backing_collateral currencies amount) (\<lambda>_.
     sbind (sget (\<lambda>s. get_liquidation_vault s currencies)) (\<lambda>lv.
     sbind (lv_increase_collateral amount lv) (\<lambda>_.
     on_world (am_lock_on (cfg_tokens C) amount (cfg_liquidation_account C)))))"
| "bind_funds C (FreeBalance a) amount = sret ()"

definition transfer_funds ::
  "('a, 'c, 'x) vault_config \<Rightarrow> ('a, 'c) currency_source \<Rightarrow> ('a, 'c) currency_source \<Rightarrow> 'c amount \<Rightarrow> ('a, 'c, 'x, unit) vault_action" where
  "transfer_funds C src dst amount =
     sbind (release_funds C src amount) (\<lambda>_.
     sbind (on_world (am_transfer (cfg_tokens C) amount (source_account_id C src) (source_account_id C dst))) (\<lambda>_.
     bind_funds C dst amount))"

definition transfer_funds_saturated ::
  "('a, 'c, 'x) vault_config \<Rightarrow> ('a, 'c) currency_source \<Rightarrow> ('a, 'c) currency_source \<Rightarrow> 'c amount \<Rightarrow> ('a, 'c, 'x, 'c amount) vault_action" where
  "transfer_funds_saturated C src dst amount =
     sbind (slift (\<lambda>s. current_balance C s src (cur amount))) (\<lambda>available_amount.
     sbind (slift (\<lambda>_. am_lt available_amount amount)) (\<lambda>less.
     (let amount' = if less then available_amount else amount in
     sbind (transfer_funds C src dst amount') (\<lambda>_. sret amount'))))"

end
