(* ===== verification/Vault_Registry.thy ===== *)
theory Vault_Registry
  imports Vault_Pool
begin

text \<open>
  The functions of the vault-registry pallet (\<^verbatim>\<open>src/crates/vault-registry/src/lib.rs\<close>) that the issue, redeem and
  replace pallets call, liquidation (\<^verbatim>\<open>types.rs\<close>), the read-only functions and the dispatchables. Iteration over
  the stored vaults takes the order of the keys, \<open>vault_ids\<close>, as an argument.
\<close>

subsection \<open>Collateral shares\<close>

text \<open>\<^verbatim>\<open>calculate_collateral\<close> computes in 256-bit integers.\<close>

definition calculate_collateral :: "'c amount \<Rightarrow> 'c amount \<Rightarrow> 'c amount \<Rightarrow> 'c amount dispatch" where
  "calculate_collateral collateral numerator denominator =
     (if am_is_zero numerator \<and> am_is_zero denominator then Inr collateral
      else
     rbind (ok_or (checked_mul_w 256 (amt collateral) (amt numerator)) (ArithmeticError Overflow)) (\<lambda>m.
     rbind (ok_or (checked_div m (amt denominator)) (ArithmeticError Underflow)) (\<lambda>q.
     rbind (rensure (q < 2 ^ 128) (vault_err VaultTryIntoIntError)) (\<lambda>_.
     Inr (Amount q (cur collateral))))))"

subsection \<open>Issue\<close>

abbreviation vault_by_id :: "('a, 'c) vault_id \<Rightarrow> ('a, 'c, 'x, ('a, 'c) vault) vault_action" where
  "vault_by_id vault_id \<equiv> slift (\<lambda>s. get_vault_from_id s vault_id)"

abbreviation active_vault_by_id :: "('a, 'c) vault_id \<Rightarrow> ('a, 'c, 'x, ('a, 'c) vault) vault_action" where
  "active_vault_by_id vault_id \<equiv> slift (\<lambda>s. get_active_vault_from_id s vault_id)"

definition try_increase_to_be_issued_tokens :: "('a, 'c, 'x) vault_config \<Rightarrow> ('a, 'c) vault_id \<Rightarrow> 'c amount \<Rightarrow> ('a, 'c, 'x, unit) vault_action" where
  "try_increase_to_be_issued_tokens C vault_id tokens =
     sbind (active_vault_by_id vault_id) (\<lambda>v.
     sbind (slift (\<lambda>s. issuable_tokens C s v)) (\<lambda>issuable.
     sbind (slift (\<lambda>_. am_ge issuable tokens)) (\<lambda>enough.
     sbind (sensure (\<lambda>_. enough) (vault_err ExceedingVaultLimit)) (\<lambda>_.
     sbind (request_issue_tokens tokens v) (\<lambda>v.
     emit (IncreaseToBeIssuedTokens (v_id v) (amt tokens)))))))"

definition register_deposit_address :: "('a, 'c, 'x) vault_config \<Rightarrow> ('a, 'c) vault_id \<Rightarrow> h256 \<Rightarrow> ('a, 'c, 'x, address) vault_action" where
  "register_deposit_address C vault_id issue_id =
     sbind (active_vault_by_id vault_id) (\<lambda>v.
     sbind (slift (\<lambda>s. new_deposit_address C s issue_id v)) (\<lambda>btc_address.
     sbind (emit (RegisterAddress (v_id v) btc_address)) (\<lambda>_. sret btc_address)))"

definition decrease_to_be_issued_tokens :: "('a, 'c) vault_id \<Rightarrow> 'c amount \<Rightarrow> ('a, 'c, 'x, unit) vault_action" where
  "decrease_to_be_issued_tokens vault_id tokens =
     sbind (vault_by_id vault_id) (\<lambda>v.
     sbind (cancel_issue_tokens tokens v) (\<lambda>_.
     emit (DecreaseToBeIssuedTokens vault_id (amt tokens))))"

definition issue_tokens :: "('a, 'c) vault_id \<Rightarrow> 'c amount \<Rightarrow> ('a, 'c, 'x, unit) vault_action" where
  "issue_tokens vault_id tokens =
     sbind (vault_by_id vault_id) (\<lambda>v.
     sbind (execute_issue_tokens tokens v) (\<lambda>v.
     emit (IssueTokens (v_id v) (amt tokens))))"

subsection \<open>Replace requests\<close>

definition requestable_to_be_replaced_tokens :: "('a, 'c, 'x) registry \<Rightarrow> ('a, 'c) vault_id \<Rightarrow> 'c amount dispatch" where
  "requestable_to_be_replaced_tokens s vault_id =
     rbind (get_active_vault_from_id s vault_id) (\<lambda>v.
     rbind (am_checked_sub (issued_tokens_of v) (to_be_replaced_tokens_of v)) (\<lambda>x.
     am_checked_sub x (to_be_redeemed_tokens_of v)))"

definition try_increase_to_be_replaced_tokens :: "('a, 'c) vault_id \<Rightarrow> 'c amount \<Rightarrow> ('a, 'c, 'x, 'c amount) vault_action" where
  "try_increase_to_be_replaced_tokens vault_id tokens =
     sbind (active_vault_by_id vault_id) (\<lambda>v.
     sbind (slift (\<lambda>_. am_checked_add (to_be_replaced_tokens_of v) tokens)) (\<lambda>new_to_be_replaced.
     sbind (slift (\<lambda>_. am_checked_add new_to_be_replaced (to_be_redeemed_tokens_of v))) (\<lambda>total_decreasing_tokens.
     sbind (slift (\<lambda>_. am_le total_decreasing_tokens (issued_tokens_of v))) (\<lambda>enough.
     sbind (sensure (\<lambda>_. enough) (vault_err InsufficientTokensCommitted)) (\<lambda>_.
     sbind (set_to_be_replaced_amount new_to_be_replaced v) (\<lambda>v.
     sbind (emit (IncreaseToBeReplacedTokens (v_id v) (amt tokens))) (\<lambda>_. sret new_to_be_replaced)))))))"

definition decrease_to_be_replaced_tokens ::
  "('a, 'c, 'x) vault_config \<Rightarrow> ('a, 'c) vault_id \<Rightarrow> 'c amount \<Rightarrow> ('a, 'c, 'x, 'c amount \<times> 'c amount) vault_action" where
  "decrease_to_be_replaced_tokens C vault_id tokens =
     sbind (vault_by_id vault_id) (\<lambda>v.
     (let initial_to_be_replaced = Amount (to_be_replaced_tokens v) (wrapped_currency vault_id);
          initial_griefing_collateral = Amount (replace_collateral v) (cfg_griefing_currency C) in
     sbind (slift (\<lambda>_. am_min tokens initial_to_be_replaced)) (\<lambda>used_tokens.
     sbind (slift (\<lambda>_. calculate_collateral initial_griefing_collateral used_tokens initial_to_be_replaced)) (\<lambda>used.
     sbind (slift (\<lambda>_. am_min used initial_griefing_collateral)) (\<lambda>used_collateral.
     sbind (slift (\<lambda>_. am_checked_sub initial_to_be_replaced used_tokens)) (\<lambda>new_to_be_replaced.
     sbind (set_to_be_replaced_amount new_to_be_replaced v) (\<lambda>v.
     sbind (emit (DecreaseToBeReplacedTokens (v_id v) (amt tokens))) (\<lambda>_.
     sret (used_tokens, used_collateral)))))))))"

definition withdraw_replace_request ::
  "('a, 'c, 'x) vault_config \<Rightarrow> ('a, 'c) vault_id \<Rightarrow> 'c amount \<Rightarrow> ('a, 'c, 'x, 'c amount \<times> 'c amount) vault_action" where
  "withdraw_replace_request C vault_id amount =
     sbind (decrease_to_be_replaced_tokens C vault_id amount) (\<lambda>(withdrawn_tokens, to_withdraw_collateral).
     sbind (transfer_funds C (AvailableReplaceCollateral vault_id) (FreeBalance (vid_account vault_id)) to_withdraw_collateral) (\<lambda>_.
     sret (withdrawn_tokens, to_withdraw_collateral)))"

subsection \<open>Redeem\<close>

definition try_increase_to_be_redeemed_tokens :: "('a, 'c) vault_id \<Rightarrow> 'c amount \<Rightarrow> ('a, 'c, 'x, unit) vault_action" where
  "try_increase_to_be_redeemed_tokens vault_id tokens =
     sbind (active_vault_by_id vault_id) (\<lambda>v.
     sbind (slift (\<lambda>_. am_checked_sub (issued_tokens_of v) (to_be_redeemed_tokens_of v))) (\<lambda>redeemable.
     sbind (slift (\<lambda>_. am_ge redeemable tokens)) (\<lambda>enough.
     sbind (sensure (\<lambda>_. enough) (vault_err InsufficientTokensCommitted)) (\<lambda>_.
     sbind (request_redeem_tokens tokens v) (\<lambda>v.
     emit (IncreaseToBeRedeemedTokens (v_id v) (amt tokens)))))))"

definition decrease_to_be_redeemed_tokens :: "('a, 'c) vault_id \<Rightarrow> 'c amount \<Rightarrow> ('a, 'c, 'x, unit) vault_action" where
  "decrease_to_be_redeemed_tokens vault_id tokens =
     sbind (vault_by_id vault_id) (\<lambda>v.
     sbind (cancel_redeem_tokens tokens v) (\<lambda>v.
     emit (DecreaseToBeRedeemedTokens (v_id v) (amt tokens))))"

definition decrease_tokens :: "('a, 'c) vault_id \<Rightarrow> 'a \<Rightarrow> 'c amount \<Rightarrow> ('a, 'c, 'x, unit) vault_action" where
  "decrease_tokens vault_id user_id tokens =
     sbind (vault_by_id vault_id) (\<lambda>v.
     sbind (execute_redeem_tokens tokens v) (\<lambda>v.
     emit (DecreaseTokens (v_id v) user_id (amt tokens))))"

definition decrease_liquidated_collateral :: "('a, 'c) vault_id \<Rightarrow> 'c amount \<Rightarrow> ('a, 'c, 'x, unit) vault_action" where
  "decrease_liquidated_collateral vault_id amount =
     sbind (vault_by_id vault_id) (\<lambda>v. sbind (rv_decrease_liquidated_collateral amount v) (\<lambda>_. sret ()))"

definition redeem_tokens ::
  "('a, 'c, 'x) vault_config \<Rightarrow> ('a, 'c) vault_id \<Rightarrow> 'c amount \<Rightarrow> 'c amount \<Rightarrow> 'a \<Rightarrow> ('a, 'c, 'x, unit) vault_action" where
  "redeem_tokens C vault_id tokens premium redeemer_id =
     sbind (vault_by_id vault_id) (\<lambda>v0.
     (let to_be_redeemed = to_be_redeemed_tokens_of v0 in
     sbind (execute_redeem_tokens tokens v0) (\<lambda>v.
     if \<not> is_liquidated v then
       (if am_is_zero premium then emit (RedeemTokens (v_id v) (amt tokens))
        else
        sbind (transfer_funds C (Collateral vault_id) (FreeBalance redeemer_id) premium) (\<lambda>_.
        emit (RedeemTokensPremium vault_id (amt tokens) (amt premium) redeemer_id)))
     else
       sbind (slift (\<lambda>_. calculate_collateral (liquidated_collateral_of v) tokens to_be_redeemed)) (\<lambda>to_be_released.
       sbind (decrease_total_backing_collateral (vid_currencies vault_id) to_be_released) (\<lambda>_.
       sbind (rv_decrease_liquidated_collateral to_be_released v) (\<lambda>_.
       sbind (on_world (am_unlock_on (cfg_tokens C) to_be_released (vid_account vault_id))) (\<lambda>_.
       emit (RedeemTokensLiquidatedVault vault_id (amt tokens) (amt to_be_released)))))))))"

definition redeem_tokens_liquidation ::
  "('a, 'c, 'x) vault_config \<Rightarrow> 'c \<Rightarrow> 'a \<Rightarrow> 'c amount \<Rightarrow> ('a, 'c, 'x, unit) vault_action" where
  "redeem_tokens_liquidation C currency_id redeemer_id amount_wrapped =
     (let currency_pair = \<lparr>pair_collateral = currency_id, pair_wrapped = cur amount_wrapped\<rparr> in
     sbind (sget (\<lambda>s. get_liquidation_vault s currency_pair)) (\<lambda>liquidation_vault.
     sbind (slift (\<lambda>_. rbind (lv_redeemable_tokens liquidation_vault) (\<lambda>r. am_ge r amount_wrapped))) (\<lambda>enough.
     sbind (sensure (\<lambda>_. enough) (vault_err InsufficientTokensCommitted)) (\<lambda>_.
     sbind (slift (\<lambda>s. rbind (current_balance C s (LiquidationVaultFunds currency_pair) currency_id) (\<lambda>b.
                       rbind (lv_to_be_backed_tokens liquidation_vault) (\<lambda>d.
                       calculate_collateral b amount_wrapped d)))) (\<lambda>to_transfer.
     sbind (transfer_funds C (LiquidationVaultFunds currency_pair) (FreeBalance redeemer_id) to_transfer) (\<lambda>_.
     sbind (sget (\<lambda>s. get_liquidation_vault s currency_pair)) (\<lambda>liquidation_vault.
     sbind (lv_burn_issued amount_wrapped liquidation_vault) (\<lambda>_.
     emit (RedeemTokensLiquidation redeemer_id (amt amount_wrapped) (amt to_transfer))))))))))"

subsection \<open>Replace\<close>

definition replace_tokens ::
  "('a, 'c, 'x) vault_config \<Rightarrow> ('a, 'c) vault_id \<Rightarrow> ('a, 'c) vault_id \<Rightarrow> 'c amount \<Rightarrow> 'c amount \<Rightarrow> ('a, 'c, 'x, unit) vault_action" where
  "replace_tokens C old_vault_id new_vault_id tokens collateral =
     sbind (vault_by_id old_vault_id) (\<lambda>old_vault.
     sbind (vault_by_id new_vault_id) (\<lambda>new_vault.
     sbind (if is_liquidated old_vault then
              sbind (slift (\<lambda>_. calculate_collateral (liquidated_collateral_of old_vault) tokens (to_be_redeemed_tokens_of old_vault))) (\<lambda>to_be_released.
              sbind (rv_decrease_liquidated_collateral to_be_released old_vault) (\<lambda>old_vault.
              sbind (pm_deposit_collateral C old_vault_id (vid_account old_vault_id) to_be_released) (\<lambda>_. sret old_vault)))
            else sret old_vault) (\<lambda>old_vault.
     sbind (execute_redeem_tokens tokens old_vault) (\<lambda>_.
     sbind (execute_issue_tokens tokens new_vault) (\<lambda>_.
     emit (ReplaceTokens old_vault_id new_vault_id (amt tokens) (amt collateral)))))))"

definition cancel_replace_tokens ::
  "('a, 'c, 'x) vault_config \<Rightarrow> ('a, 'c) vault_id \<Rightarrow> ('a, 'c) vault_id \<Rightarrow> 'c amount \<Rightarrow> ('a, 'c, 'x, unit) vault_action" where
  "cancel_replace_tokens C old_vault_id new_vault_id tokens =
     sbind (vault_by_id old_vault_id) (\<lambda>old_vault.
     sbind (vault_by_id new_vault_id) (\<lambda>new_vault.
     sbind (if is_liquidated old_vault then
              sbind (slift (\<lambda>_. calculate_collateral (liquidated_collateral_of old_vault) tokens (to_be_redeemed_tokens_of old_vault))) (\<lambda>to_be_transferred.
              sbind (rv_decrease_liquidated_collateral to_be_transferred old_vault) (\<lambda>old_vault.
              sbind (transfer_funds C (LiquidatedCollateral old_vault_id) (LiquidationVaultFunds (vid_currencies old_vault_id)) to_be_transferred) (\<lambda>_.
              sret old_vault)))
            else sret old_vault) (\<lambda>old_vault.
     sbind (cancel_redeem_tokens tokens old_vault) (\<lambda>_.
     sbind (cancel_issue_tokens tokens new_vault) (\<lambda>_. sret ())))))"

subsection \<open>Liquidation\<close>

definition slash_for_to_be_redeemed :: "('a, 'c, 'x) vault_config \<Rightarrow> 'c amount \<Rightarrow> ('a, 'c) vault \<Rightarrow> ('a, 'c, 'x, ('a, 'c) vault) vault_action" where
  "slash_for_to_be_redeemed C amount v =
     sbind (slift (\<lambda>s. rbind (compute_collateral C s (v_id v)) (\<lambda>c. am_min c amount))) (\<lambda>collateral.
     sbind (increase_liquidated_collateral collateral v) (\<lambda>v.
     sbind (pm_withdraw_collateral C (v_id v) (vid_account (v_id v)) (Some collateral) None) (\<lambda>_. sret v)))"

definition slash_to_liquidation_vault :: "('a, 'c, 'x) vault_config \<Rightarrow> 'c amount \<Rightarrow> ('a, 'c) vault \<Rightarrow> ('a, 'c, 'x, ('a, 'c) vault) vault_action" where
  "slash_to_liquidation_vault C amount v =
     sbind (slift (\<lambda>s. compute_collateral C s (v_id v))) (\<lambda>collateral.
     (let (to_withdraw, to_slash) = (case am_checked_sub amount collateral of
            Inr leftover \<Rightarrow> (collateral, Some leftover) | Inl _ \<Rightarrow> (amount, None)) in
     sbind (pm_withdraw_collateral C (v_id v) (vid_account (v_id v)) (Some to_withdraw) None) (\<lambda>_.
     sbind (case to_slash of Some x \<Rightarrow> pm_slash_collateral C (v_id v) x | None \<Rightarrow> sret ()) (\<lambda>_.
     sbind (transfer_funds C (LiquidatedCollateral (v_id v)) (LiquidationVaultFunds (vid_currencies (v_id v))) amount) (\<lambda>_.
     sret v)))))"

definition liquidate :: "('a, 'c, 'x) vault_config \<Rightarrow> ('a, 'c) vault \<Rightarrow> ('a, 'c, 'x, 'c amount) vault_action" where
  "liquidate C v0 =
     (let vault_id = v_id v0 in
     sbind (slift (\<lambda>s. rbind (ok_or (LiquidationCollateralThreshold s (vid_currencies vault_id)) (vault_err ThresholdNotSet)) (\<lambda>t.
                       get_used_collateral C s v0 t))) (\<lambda>liquidated.
     sbind (withdraw_replace_request C vault_id (to_be_replaced_tokens_of v0)) (\<lambda>_.
     sbind (vault_by_id vault_id) (\<lambda>v.
     sbind (slift (\<lambda>_. backed_tokens v)) (\<lambda>collateral_tokens.
     sbind (slift (\<lambda>_. rbind (am_checked_sub collateral_tokens (to_be_redeemed_tokens_of v)) (\<lambda>d.
                       calculate_collateral liquidated d collateral_tokens))) (\<lambda>liquidated_collateral_excluding_to_be_redeemed.
     sbind (slift (\<lambda>_. am_saturating_sub liquidated liquidated_collateral_excluding_to_be_redeemed)) (\<lambda>collateral_for_to_be_redeemed.
     sbind (slash_for_to_be_redeemed C collateral_for_to_be_redeemed v) (\<lambda>v.
     sbind (slash_to_liquidation_vault C liquidated_collateral_excluding_to_be_redeemed v) (\<lambda>v.
     sbind (sget (\<lambda>s. get_liquidation_vault s (vid_currencies (v_id v)))) (\<lambda>lv.
     sbind (lv_increase_issued (issued_tokens_of v) lv) (\<lambda>lv.
     sbind (lv_increase_to_be_issued (to_be_issued_tokens_of v) lv) (\<lambda>lv.
     sbind (lv_increase_to_be_redeemed (to_be_redeemed_tokens_of v) lv) (\<lambda>_.
     sbind (ext_reward_set_stake C vault_id (am_zero (wrapped_currency vault_id))) (\<lambda>_.
     sbind (update (\<lambda>v. Inr (v\<lparr>v_status := Liquidated, to_be_issued_tokens := 0, issued_tokens := 0\<rparr>)) v) (\<lambda>_.
     sret liquidated_collateral_excluding_to_be_redeemed)))))))))))))))"

definition liquidate_vault :: "('a, 'c, 'x) vault_config \<Rightarrow> ('a, 'c) vault_id \<Rightarrow> ('a, 'c, 'x, 'c amount) vault_action" where
  "liquidate_vault C vault_id =
     sbind (active_vault_by_id vault_id) (\<lambda>v.
     sbind (slift (\<lambda>s. get_backing_collateral C s (v_id v))) (\<lambda>backing_collateral.
     sbind (liquidate C v) (\<lambda>to_slash.
     sbind (emit (LiquidateVault vault_id (issued_tokens v) (to_be_issued_tokens v) (to_be_redeemed_tokens v) (to_be_replaced_tokens v)
              (amt backing_collateral) Liquidated (replace_collateral v))) (\<lambda>_.
     sret to_slash))))"

subsection \<open>Bans and thresholds\<close>

definition ban_vault :: "('a, 'c, 'x) vault_config \<Rightarrow> ('a, 'c) vault_id \<Rightarrow> ('a, 'c, 'x, unit) vault_action" where
  "ban_vault C vault_id =
     sbind (sget (\<lambda>s. cfg_active_block_number C (world s))) (\<lambda>height.
     sbind (active_vault_by_id vault_id) (\<lambda>v.
     sbind (sget (\<lambda>s. (height + PunishmentDelay s) mod 2 ^ 32)) (\<lambda>until.
     sbind (ban_until until v) (\<lambda>v.
     emit (BanVault (v_id v) until)))))"

definition ensure_not_banned :: "('a, 'c, 'x) vault_config \<Rightarrow> ('a, 'c, 'x) registry \<Rightarrow> ('a, 'c) vault_id \<Rightarrow> unit dispatch" where
  "ensure_not_banned C s vault_id = rbind (get_active_vault_from_id s vault_id) (\<lambda>v. rv_ensure_not_banned C s v)"

definition is_vault_below_certain_threshold ::
  "('a, 'c, 'x) vault_config \<Rightarrow> ('a, 'c, 'x) registry \<Rightarrow> ('a, 'c) vault_id \<Rightarrow> ufixed \<Rightarrow> bool dispatch" where
  "is_vault_below_certain_threshold C s vault_id threshold =
     rbind (get_vault_from_id s vault_id) (\<lambda>v.
     rbind (get_backing_collateral C s vault_id) (\<lambda>collateral.
     is_collateral_below_threshold C s collateral (issued_tokens_of v) threshold))"

definition is_vault_below_secure_threshold :: "('a, 'c, 'x) vault_config \<Rightarrow> ('a, 'c, 'x) registry \<Rightarrow> ('a, 'c) vault_id \<Rightarrow> bool dispatch" where
  "is_vault_below_secure_threshold C s vault_id =
     rbind (get_vault_from_id s vault_id) (\<lambda>v.
     rbind (get_secure_threshold s v) (\<lambda>t.
     is_vault_below_certain_threshold C s vault_id t))"

definition is_vault_liquidated :: "('a, 'c, 'x) registry \<Rightarrow> ('a, 'c) vault_id \<Rightarrow> bool dispatch" where
  "is_vault_liquidated s vault_id = rbind (get_vault_from_id s vault_id) (\<lambda>v. Inr (is_liquidated v))"

definition will_be_below_premium_threshold :: "('a, 'c, 'x) vault_config \<Rightarrow> ('a, 'c, 'x) registry \<Rightarrow> ('a, 'c) vault_id \<Rightarrow> bool dispatch" where
  "will_be_below_premium_threshold C s vault_id =
     rbind (get_vault_from_id s vault_id) (\<lambda>v.
     rbind (ok_or (PremiumRedeemThreshold s (vid_currencies vault_id)) (vault_err ThresholdNotSet)) (\<lambda>threshold.
     rbind (get_backing_collateral C s vault_id) (\<lambda>collateral.
     rbind (to_be_backed_tokens v) (\<lambda>tokens.
     is_collateral_below_threshold C s collateral tokens threshold))))"

definition is_vault_below_liquidation_threshold ::
  "('a, 'c, 'x) vault_config \<Rightarrow> ('a, 'c, 'x) registry \<Rightarrow> ('a, 'c) vault \<Rightarrow> ufixed \<Rightarrow> bool dispatch" where
  "is_vault_below_liquidation_threshold C s v liquidation_threshold =
     rbind (get_backing_collateral C s (v_id v)) (\<lambda>collateral.
     is_collateral_below_threshold C s collateral (Amount (issued_tokens v) (wrapped_currency (v_id v))) liquidation_threshold)"

definition get_required_collateral_for_wrapped_with_threshold ::
  "('a, 'c, 'x) vault_config \<Rightarrow> ('a, 'c, 'x) registry \<Rightarrow> 'c amount \<Rightarrow> ufixed \<Rightarrow> 'c \<Rightarrow> 'c amount dispatch" where
  "get_required_collateral_for_wrapped_with_threshold C s wrapped threshold currency_id =
     rbind (am_checked_rounded_mul (cfg_ufixed C) wrapped threshold Up) (\<lambda>x. cfg_convert C (world s) x currency_id)"

definition get_required_collateral_for_wrapped ::
  "('a, 'c, 'x) vault_config \<Rightarrow> ('a, 'c, 'x) registry \<Rightarrow> 'c amount \<Rightarrow> 'c \<Rightarrow> 'c amount dispatch" where
  "get_required_collateral_for_wrapped C s amount_wrapped currency_id =
     rbind (ok_or (SecureCollateralThreshold s \<lparr>pair_collateral = currency_id, pair_wrapped = cur amount_wrapped\<rparr>) (vault_err ThresholdNotSet)) (\<lambda>threshold.
     get_required_collateral_for_wrapped_with_threshold C s amount_wrapped threshold currency_id)"

definition get_required_collateral_for_vault :: "('a, 'c, 'x) vault_config \<Rightarrow> ('a, 'c, 'x) registry \<Rightarrow> ('a, 'c) vault_id \<Rightarrow> 'c amount dispatch" where
  "get_required_collateral_for_vault C s vault_id =
     rbind (get_active_vault_from_id s vault_id) (\<lambda>v.
     rbind (backed_tokens v) (\<lambda>issued.
     rbind (get_secure_threshold s v) (\<lambda>threshold.
     get_required_collateral_for_wrapped_with_threshold C s issued threshold (collateral_currency vault_id))))"

definition get_global_secure_threshold :: "('a, 'c, 'x) registry \<Rightarrow> 'c vault_currency_pair \<Rightarrow> ufixed dispatch" where
  "get_global_secure_threshold s currency_pair = ok_or (SecureCollateralThreshold s currency_pair) (vault_err ThresholdNotSet)"

definition vault_to_be_backed_tokens :: "('a, 'c, 'x) registry \<Rightarrow> ('a, 'c) vault_id \<Rightarrow> 'c amount dispatch" where
  "vault_to_be_backed_tokens s vault_id = rbind (get_active_vault_from_id s vault_id) to_be_backed_tokens"

definition get_vault_max_premium_redeem :: "('a, 'c, 'x) vault_config \<Rightarrow> ('a, 'c, 'x) registry \<Rightarrow> ('a, 'c) vault_id \<Rightarrow> 'c amount dispatch" where
  "get_vault_max_premium_redeem C s vault_id =
     rbind (vault_to_be_backed_tokens s vault_id) (\<lambda>tokens.
     rbind (get_global_secure_threshold s (vid_currencies vault_id)) (\<lambda>global_secure_threshold.
     (let premium_redeem_rate = cfg_premium_redeem_reward_rate C (world s) in
     rbind (get_required_collateral_for_wrapped C s tokens (collateral_currency vault_id)) (\<lambda>required_collateral.
     rbind (get_backing_collateral C s vault_id) (\<lambda>current_collateral.
     rbind (am_saturating_sub required_collateral current_collateral) (\<lambda>missing_collateral.
     rbind (ok_or (checked_sub global_secure_threshold premium_redeem_rate) (ArithmeticError Underflow)) (\<lambda>d.
     rbind (ok_or (uf_checked_div (cfg_ufixed C) premium_redeem_rate d) (ArithmeticError DivisionByZero)) (\<lambda>factor.
     am_checked_mul (cfg_ufixed C) missing_collateral factor))))))))"

definition get_liquidated_collateral :: "('a, 'c, 'x) registry \<Rightarrow> ('a, 'c) vault_id \<Rightarrow> 'c amount dispatch" where
  "get_liquidated_collateral s vault_id =
     rbind (get_vault_from_id s vault_id) (\<lambda>v. Inr (Amount (liquidated_collateral v) (collateral_currency vault_id)))"

definition get_free_redeemable_tokens :: "('a, 'c, 'x) registry \<Rightarrow> ('a, 'c) vault_id \<Rightarrow> 'c amount dispatch" where
  "get_free_redeemable_tokens s vault_id = rbind (get_vault_from_id s vault_id) freely_redeemable_tokens"

subsection \<open>Read-only functions\<close>

definition undercollateralized_vaults :: "('a, 'c, 'x) vault_config \<Rightarrow> ('a, 'c, 'x) registry \<Rightarrow> ('a, 'c) vault_id list \<Rightarrow> ('a, 'c) vault_id list" where
  "undercollateralized_vaults C s vault_ids = filter (\<lambda>i.
     case Vaults s i of None \<Rightarrow> False | Some v \<Rightarrow>
       (case LiquidationCollateralThreshold s (vid_currencies (v_id v)) of None \<Rightarrow> False
        | Some t \<Rightarrow> is_vault_below_liquidation_threshold C s v t = Inr True)) vault_ids"

definition get_vaults_by_account_id :: "('a, 'c) vault_id list \<Rightarrow> 'a \<Rightarrow> ('a, 'c) vault_id list dispatch" where
  "get_vaults_by_account_id vault_ids account_id = Inr (filter (\<lambda>i. vid_account i = account_id) vault_ids)"

definition calculate_inclusion_fee :: "('a, 'c, 'x) vault_config \<Rightarrow> ('a, 'c, 'x) registry \<Rightarrow> 'c \<Rightarrow> nat \<Rightarrow> 'c amount dispatch" where
  "calculate_inclusion_fee C s wrapped redeem_tx_size =
     rbind (cfg_fee_estimation C (world s)) (\<lambda>satoshi_per_bytes.
     rbind (ok_or (uf_checked_mul_int (cfg_ufixed C) satoshi_per_bytes redeem_tx_size) (ArithmeticError Overflow)) (\<lambda>fee.
     rbind (rensure (fee < 2 ^ 128) (vault_err VaultTryIntoIntError)) (\<lambda>_.
     Inr (Amount fee wrapped))))"

definition premium_redeem_candidate ::
  "('a, 'c, 'x) vault_config \<Rightarrow> ('a, 'c, 'x) registry \<Rightarrow> nat \<Rightarrow> ('a, 'c) vault_id \<Rightarrow> 'c amount dispatch" where
  "premium_redeem_candidate C s redeem_transaction_size vault_id =
     rbind (get_vault_max_premium_redeem C s vault_id) (\<lambda>max_premium_in_collateral.
     rbind (am_checked_div (cfg_ufixed C) max_premium_in_collateral (cfg_premium_redeem_reward_rate C (world s))) (\<lambda>in_collateral.
     rbind (cfg_convert C (world s) in_collateral (wrapped_currency vault_id)) (\<lambda>burn_wrap.
     rbind (calculate_inclusion_fee C s (wrapped_currency vault_id) redeem_transaction_size) (\<lambda>inclusion_fee.
     rbind (am_checked_add burn_wrap inclusion_fee) (\<lambda>vault_to_burn_tokens.
     am_checked_div (cfg_ufixed C) vault_to_burn_tokens (uf_DIV (cfg_ufixed C) - cfg_redeem_fee_value C (world s)))))))"

text \<open>\<^verbatim>\<open>sort_by\<close> with the arguments exchanged is a stable sort in descending order of the amounts.\<close>

definition sort_descending :: "(('a, 'c) vault_id \<times> 'c amount) list \<Rightarrow> (('a, 'c) vault_id \<times> 'c amount) list" where
  "sort_descending xs = sort_key (\<lambda>p. - int (amt (snd p))) xs"

definition get_premium_redeem_vaults ::
  "('a, 'c, 'x) vault_config \<Rightarrow> ('a, 'c, 'x) registry \<Rightarrow> ('a, 'c) vault_id list \<Rightarrow> nat \<Rightarrow> (('a, 'c) vault_id \<times> 'c amount) list dispatch" where
  "get_premium_redeem_vaults C s vault_ids redeem_transaction_size =
     (let suitable_vaults = List.map_filter (\<lambda>i.
        case premium_redeem_candidate C s redeem_transaction_size i of
          Inl _ \<Rightarrow> None
        | Inr tokens \<Rightarrow>
            if ensure_not_banned C s i = Inr () \<and> \<not> am_is_zero tokens \<and> will_be_below_premium_threshold C s i = Inr True
            then Some (i, tokens) else None) vault_ids
      in if suitable_vaults = [] then Inl (Err (vault_err NoVaultUnderThePremiumRedeemThreshold))
         else Inr (sort_descending suitable_vaults))"

definition get_issuable_tokens_from_vault :: "('a, 'c, 'x) vault_config \<Rightarrow> ('a, 'c, 'x) registry \<Rightarrow> ('a, 'c) vault_id \<Rightarrow> 'c amount dispatch" where
  "get_issuable_tokens_from_vault C s vault_id =
     rbind (get_active_vault_from_id s vault_id) (\<lambda>v.
     if v_status v \<noteq> Active True then Inr (Amount 0 (collateral_currency vault_id))
     else issuable_tokens C s v)"

definition get_vaults_with_issuable_tokens ::
  "('a, 'c, 'x) vault_config \<Rightarrow> ('a, 'c, 'x) registry \<Rightarrow> ('a, 'c) vault_id list \<Rightarrow> (('a, 'c) vault_id \<times> 'c amount) list dispatch" where
  "get_vaults_with_issuable_tokens C s vault_ids = Inr (sort_descending (List.map_filter (\<lambda>i.
     case get_issuable_tokens_from_vault C s i of
       Inl _ \<Rightarrow> None
     | Inr tokens \<Rightarrow> if am_is_zero tokens then None else Some (i, tokens)) vault_ids))"

definition get_vaults_with_redeemable_tokens ::
  "('a, 'c, 'x) vault_config \<Rightarrow> ('a, 'c, 'x) registry \<Rightarrow> ('a, 'c) vault_id list \<Rightarrow> (('a, 'c) vault_id \<times> 'c amount) list dispatch" where
  "get_vaults_with_redeemable_tokens C s vault_ids = Inr (sort_descending (List.map_filter (\<lambda>i.
     case Vaults s i of None \<Rightarrow> None | Some v \<Rightarrow>
       (case redeemable_tokens C s v of
          Inl _ \<Rightarrow> None
        | Inr tokens \<Rightarrow> if am_is_zero tokens then None else Some (i, tokens))) vault_ids))"

definition ensure_accepting_new_issues :: "('a, 'c, 'x) registry \<Rightarrow> ('a, 'c) vault_id \<Rightarrow> unit dispatch" where
  "ensure_accepting_new_issues s vault_id =
     rbind (get_active_vault_from_id s vault_id) (\<lambda>v.
     rensure (v_status v = Active True) (vault_err VaultNotAcceptingIssueRequests))"

definition get_to_be_issued_tokens_from_vault :: "('a, 'c, 'x) registry \<Rightarrow> ('a, 'c) vault_id \<Rightarrow> 'c amount dispatch" where
  "get_to_be_issued_tokens_from_vault s vault_id =
     rbind (get_active_vault_from_id s vault_id) (\<lambda>v. Inr (to_be_issued_tokens_of v))"

definition get_collateralization_from_vault_and_collateral ::
  "('a, 'c, 'x) vault_config \<Rightarrow> ('a, 'c, 'x) registry \<Rightarrow> ('a, 'c) vault_id \<Rightarrow> 'c amount \<Rightarrow> bool \<Rightarrow> ufixed dispatch" where
  "get_collateralization_from_vault_and_collateral C s vault_id collateral only_issued =
     rbind (get_active_vault_from_id s vault_id) (\<lambda>v.
     rbind (if only_issued then Inr (issued_tokens_of v) else backed_tokens v) (\<lambda>issued.
     rbind (rensure (\<not> am_is_zero issued) (vault_err NoTokensIssued)) (\<lambda>_.
     rbind (cfg_convert C (world s) collateral (wrapped_currency vault_id)) (\<lambda>collateral_in_wrapped.
     am_ratio (cfg_ufixed C) collateral_in_wrapped issued))))"

definition get_collateralization_from_vault ::
  "('a, 'c, 'x) vault_config \<Rightarrow> ('a, 'c, 'x) registry \<Rightarrow> ('a, 'c) vault_id \<Rightarrow> bool \<Rightarrow> ufixed dispatch" where
  "get_collateralization_from_vault C s vault_id only_issued =
     rbind (get_active_vault_from_id s vault_id) (\<lambda>v.
     rbind (get_backing_collateral C s (v_id v)) (\<lambda>collateral.
     get_collateralization_from_vault_and_collateral C s vault_id collateral only_issued))"

definition compute_capacity :: "('a, 'c, 'x) vault_config \<Rightarrow> ('a, 'c, 'x) registry \<Rightarrow> ('a, 'c) vault_id \<Rightarrow> 'c amount dispatch" where
  "compute_capacity C s vault_id =
     rbind (get_vault_from_id s vault_id) (\<lambda>v.
     rbind (compute_collateral C s (v_id v)) (\<lambda>amount.
     rbind (get_secure_threshold s v) (\<lambda>threshold.
     calculate_max_wrapped_from_collateral_for_threshold C s amount (wrapped_currency vault_id) threshold)))"

definition new_vault_deposit_address :: "('a, 'c, 'x) vault_config \<Rightarrow> ('a, 'c, 'x) registry \<Rightarrow> ('a, 'c) vault_id \<Rightarrow> h256 \<Rightarrow> address dispatch" where
  "new_vault_deposit_address C s vault_id secure_id =
     rbind (get_active_vault_from_id s vault_id) (\<lambda>v. new_deposit_address C s secure_id v)"

subsection \<open>Dispatchables\<close>

definition register_vault_inner :: "('a, 'c, 'x) vault_config \<Rightarrow> ('a, 'c) vault_id \<Rightarrow> nat \<Rightarrow> ('a, 'c, 'x, unit) vault_action" where
  "register_vault_inner C vault_id collateral =
     sbind (sensure (\<lambda>s. SecureCollateralThreshold s (vid_currencies vault_id) \<noteq> None) (vault_err ThresholdNotSet)) (\<lambda>_.
     sbind (sensure (\<lambda>s. PremiumRedeemThreshold s (vid_currencies vault_id) \<noteq> None) (vault_err ThresholdNotSet)) (\<lambda>_.
     sbind (sensure (\<lambda>s. LiquidationCollateralThreshold s (vid_currencies vault_id) \<noteq> None) (vault_err ThresholdNotSet)) (\<lambda>_.
     sbind (sensure (\<lambda>s. MinimumCollateralVault s (collateral_currency vault_id) \<noteq> None) (vault_err MinimumCollateralNotSet)) (\<lambda>_.
     sbind (sensure (\<lambda>s. SystemCollateralCeiling s (vid_currencies vault_id) \<noteq> None) (vault_err CeilingNotSet)) (\<lambda>_.
     sbind (slift (\<lambda>s. get_bitcoin_public_key s (vid_account vault_id))) (\<lambda>_.
     (let amount = Amount collateral (collateral_currency vault_id) in
     sbind (slift (\<lambda>s. am_ge amount (get_minimum_collateral_vault s (collateral_currency vault_id)))) (\<lambda>enough.
     sbind (sensure (\<lambda>_. enough) (vault_err InsufficientVaultCollateralAmount)) (\<lambda>_.
     sbind (sensure (\<lambda>s. \<not> vault_exists s vault_id) (vault_err VaultAlreadyRegistered)) (\<lambda>_.
     sbind (insert_vault vault_id (vault_new vault_id)) (\<lambda>_.
     sbind (try_deposit_collateral C vault_id amount) (\<lambda>_.
     emit (RegisterVault vault_id collateral)))))))))))))"

definition register_vault :: "('a, 'c, 'x) vault_config \<Rightarrow> 'a origin \<Rightarrow> 'c vault_currency_pair \<Rightarrow> nat \<Rightarrow> ('a, 'c, 'x, unit) vault_action" where
  "register_vault C origin currency_pair collateral =
     sbind (slift (\<lambda>_. signed_vault origin currency_pair)) (\<lambda>vault_id. register_vault_inner C vault_id collateral)"

definition register_public_key :: "'a origin \<Rightarrow> public_key \<Rightarrow> ('a, 'c, 'x, unit) vault_action" where
  "register_public_key origin public_key =
     sbind (slift (\<lambda>_. ensure_signed origin)) (\<lambda>account_id.
     sbind (sensure (\<lambda>s. VaultBitcoinPublicKey s account_id = None) (vault_err PublicKeyAlreadyRegistered)) (\<lambda>_.
     sbind (smod (\<lambda>s. s\<lparr>VaultBitcoinPublicKey := (VaultBitcoinPublicKey s)(account_id \<mapsto> public_key)\<rparr>)) (\<lambda>_.
     emit (UpdatePublicKey account_id public_key))))"

definition accept_new_issues :: "('a, 'c, 'x) vault_config \<Rightarrow> 'a origin \<Rightarrow> 'c vault_currency_pair \<Rightarrow> bool \<Rightarrow> ('a, 'c, 'x, unit) vault_action" where
  "accept_new_issues C origin currency_pair accept =
     sbind (slift (\<lambda>_. signed_vault origin currency_pair)) (\<lambda>vault_id.
     sbind (active_vault_by_id vault_id) (\<lambda>v.
     sbind (set_accept_new_issues accept v) (\<lambda>_.
     sbind (on_vault_settings_change C vault_id) (\<lambda>_.
     emit (SetAcceptNewIssues vault_id accept)))))"

definition try_set_vault_custom_secure_threshold :: "('a, 'c) vault_id \<Rightarrow> ufixed option \<Rightarrow> ('a, 'c, 'x, unit) vault_action" where
  "try_set_vault_custom_secure_threshold vault_id new_threshold =
     sbind (case new_threshold of None \<Rightarrow> sret ()
            | Some some_new_threshold \<Rightarrow>
                sbind (slift (\<lambda>s. get_global_secure_threshold s (vid_currencies vault_id))) (\<lambda>global_threshold.
                sensure (\<lambda>_. global_threshold < some_new_threshold) (vault_err ThresholdNotAboveGlobalThreshold))) (\<lambda>_.
     sbind (vault_by_id vault_id) (\<lambda>v.
     sbind (rv_set_custom_secure_threshold new_threshold v) (\<lambda>_. sret ())))"

definition set_custom_secure_threshold ::
  "('a, 'c, 'x) vault_config \<Rightarrow> 'a origin \<Rightarrow> 'c vault_currency_pair \<Rightarrow> ufixed option \<Rightarrow> ('a, 'c, 'x, unit) vault_action" where
  "set_custom_secure_threshold C origin currency_pair custom_threshold =
     sbind (slift (\<lambda>_. signed_vault origin currency_pair)) (\<lambda>vault_id.
     sbind (try_set_vault_custom_secure_threshold vault_id custom_threshold) (\<lambda>_.
     sbind (on_vault_settings_change C vault_id) (\<lambda>_.
     emit (SetCustomSecureThreshold vault_id custom_threshold))))"

definition report_undercollateralized_vault :: "('a, 'c, 'x) vault_config \<Rightarrow> ('a, 'c) vault_id \<Rightarrow> ('a, 'c, 'x, unit) vault_action" where
  "report_undercollateralized_vault C vault_id =
     sbind (vault_by_id vault_id) (\<lambda>v.
     sbind (slift (\<lambda>s. ok_or (LiquidationCollateralThreshold s (vid_currencies vault_id)) (vault_err ThresholdNotSet))) (\<lambda>liquidation_threshold.
     sbind (slift (\<lambda>s. is_vault_below_liquidation_threshold C s v liquidation_threshold)) (\<lambda>below.
     if below then sbind (liquidate_vault C vault_id) (\<lambda>_. sret ())
     else sfail (vault_err VaultNotBelowLiquidationThreshold))))"

definition set_minimum_collateral :: "'a origin \<Rightarrow> 'c \<Rightarrow> nat \<Rightarrow> ('a, 'c, 'x, unit) vault_action" where
  "set_minimum_collateral origin currency_id minimum =
     sbind (slift (\<lambda>_. ensure_root origin)) (\<lambda>_.
     smod (\<lambda>s. s\<lparr>MinimumCollateralVault := (MinimumCollateralVault s)(currency_id \<mapsto> minimum)\<rparr>))"

definition set_system_collateral_ceiling :: "'a origin \<Rightarrow> 'c vault_currency_pair \<Rightarrow> nat \<Rightarrow> ('a, 'c, 'x, unit) vault_action" where
  "set_system_collateral_ceiling origin currency_pair ceiling =
     sbind (slift (\<lambda>_. ensure_root origin)) (\<lambda>_.
     smod (\<lambda>s. s\<lparr>SystemCollateralCeiling := (SystemCollateralCeiling s)(currency_pair \<mapsto> ceiling)\<rparr>))"

definition set_secure_collateral_threshold :: "'a origin \<Rightarrow> 'c vault_currency_pair \<Rightarrow> ufixed \<Rightarrow> ('a, 'c, 'x, unit) vault_action" where
  "set_secure_collateral_threshold origin currency_pair threshold =
     sbind (slift (\<lambda>_. ensure_root origin)) (\<lambda>_.
     sbind (smod (\<lambda>s. s\<lparr>SecureCollateralThreshold := (SecureCollateralThreshold s)(currency_pair \<mapsto> threshold)\<rparr>)) (\<lambda>_.
     emit (SetSecureCollateralThreshold currency_pair threshold)))"

definition set_premium_redeem_threshold :: "'a origin \<Rightarrow> 'c vault_currency_pair \<Rightarrow> ufixed \<Rightarrow> ('a, 'c, 'x, unit) vault_action" where
  "set_premium_redeem_threshold origin currency_pair threshold =
     sbind (slift (\<lambda>_. ensure_root origin)) (\<lambda>_.
     sbind (smod (\<lambda>s. s\<lparr>PremiumRedeemThreshold := (PremiumRedeemThreshold s)(currency_pair \<mapsto> threshold)\<rparr>)) (\<lambda>_.
     emit (SetPremiumRedeemThreshold currency_pair threshold)))"

definition set_liquidation_collateral_threshold :: "'a origin \<Rightarrow> 'c vault_currency_pair \<Rightarrow> ufixed \<Rightarrow> ('a, 'c, 'x, unit) vault_action" where
  "set_liquidation_collateral_threshold origin currency_pair threshold =
     sbind (slift (\<lambda>_. ensure_root origin)) (\<lambda>_.
     sbind (smod (\<lambda>s. s\<lparr>LiquidationCollateralThreshold := (LiquidationCollateralThreshold s)(currency_pair \<mapsto> threshold)\<rparr>)) (\<lambda>_.
     emit (SetLiquidationCollateralThreshold currency_pair threshold)))"

definition recover_vault_id :: "'a origin \<Rightarrow> 'c vault_currency_pair \<Rightarrow> ('a, 'c, 'x, unit) vault_action" where
  "recover_vault_id origin currency_pair =
     sbind (slift (\<lambda>_. signed_vault origin currency_pair)) (\<lambda>vault_id.
     sbind (slift (\<lambda>s. is_vault_liquidated s vault_id)) (\<lambda>liquidated.
     sbind (sensure (\<lambda>_. liquidated) (vault_err VaultNotRecoverable)) (\<lambda>_.
     sbind (vault_by_id vault_id) (\<lambda>v.
     sbind (sensure (\<lambda>_. am_is_zero (to_be_redeemed_tokens_of v)) (vault_err VaultNotRecoverable)) (\<lambda>_.
     sbind (set_accept_new_issues True v) (\<lambda>_. sret ()))))))"

end
