(* ===== verification/Vault_View.thy ===== *)
theory Vault_View
  imports Vault_Registry
begin

text \<open>
  The token counts of the vault registry. The view of a registry keeps the three counts of every vault and of
  every liquidation vault and forgets the rest. Most operations do not change the view: collateral, rewards,
  stakes and settings move without touching the counts. \<open>frame\<close> says that an action keeps all vaults and the
  counts of the liquidation vaults; its rules follow the structure of an action.
\<close>

subsection \<open>Views\<close>

record counts =
  n_issued :: nat
  n_to_be_issued :: nat
  n_to_be_redeemed :: nat

type_synonym ('a, 'c) vault_view = "('a, 'c) vault_id \<times> bool \<times> counts"

definition view_vault :: "('a, 'c) vault \<Rightarrow> ('a, 'c) vault_view" where
  "view_vault v = (v_id v, is_liquidated v, \<lparr>n_issued = issued_tokens v, n_to_be_issued = to_be_issued_tokens v, n_to_be_redeemed = to_be_redeemed_tokens v\<rparr>)"

definition view_system :: "'c system_vault \<Rightarrow> 'c vault_currency_pair \<times> counts" where
  "view_system lv = (lv_currency_pair lv, \<lparr>n_issued = lv_issued_tokens lv, n_to_be_issued = lv_to_be_issued_tokens lv, n_to_be_redeemed = lv_to_be_redeemed_tokens lv\<rparr>)"

definition vaults_view :: "('a, 'c, 'x) registry \<Rightarrow> ('a, 'c) vault_id \<Rightarrow> ('a, 'c) vault_view option" where
  "vaults_view s i = map_option view_vault (Vaults s i)"

definition system_view :: "('a, 'c, 'x) registry \<Rightarrow> 'c vault_currency_pair \<Rightarrow> 'c vault_currency_pair \<times> counts" where
  "system_view s p = view_system (get_liquidation_vault s p)"

definition lv_wf :: "('a, 'c, 'x) registry \<Rightarrow> bool" where
  "lv_wf s \<longleftrightarrow> (\<forall>p. lv_currency_pair (get_liquidation_vault s p) = p)"

lemma lv_wf_view: "lv_wf s \<longleftrightarrow> (\<forall>p. fst (system_view s p) = p)"
  by (simp add: lv_wf_def system_view_def view_system_def)

subsection \<open>Actions that keep the vaults\<close>

named_theorems frame_intros \<open>rules for actions that keep vaults and token counts\<close>

definition frame :: "('a, 'c, 'x, 'r) vault_action \<Rightarrow> bool" where
  "frame m \<longleftrightarrow> (\<forall>s r s'. lv_wf s \<longrightarrow> m s = Inr (r, s') \<longrightarrow> Vaults s' = Vaults s \<and> system_view s' = system_view s)"

lemma frameD: "frame m \<Longrightarrow> m s = Inr (r, s') \<Longrightarrow> lv_wf s \<Longrightarrow> Vaults s' = Vaults s \<and> system_view s' = system_view s \<and> lv_wf s'"
  unfolding frame_def lv_wf_view by (metis (no_types, lifting))

lemma frameI: "(\<And>s r s'. lv_wf s \<Longrightarrow> m s = Inr (r, s') \<Longrightarrow> Vaults s' = Vaults s \<and> system_view s' = system_view s) \<Longrightarrow> frame m"
  by (simp add: frame_def)

lemma system_view_same: "LiquidationVault s' = LiquidationVault s \<Longrightarrow> system_view s' = system_view s"
  by (simp add: system_view_def get_liquidation_vault_def fun_eq_iff)

lemma system_view_simps [simp]:
  "system_view (s\<lparr>world := x\<rparr>) = system_view s" "system_view (s\<lparr>registry_events := es\<rparr>) = system_view s"
  "system_view (s\<lparr>Vaults := vs\<rparr>) = system_view s"
  by (rule system_view_same, simp)+

lemma frame_basic [frame_intros]:
  "frame (sret x)" "frame (sfail e)" "frame (sget f)" "frame (slift g)" "frame (sensure P e')"
  "frame (on_world m)" "frame (emit ev)"
  by (auto simp: frame_def rbind_Inr_iff on_world_def emit_def split: if_splits)

lemma frame_sbind [frame_intros]:
  assumes m: "frame m" and f: "\<And>x. frame (f x)"
  shows "frame (sbind m f)"
proof (rule frameI)
  fix s r s' assume wf: "lv_wf s" and "sbind m f s = Inr (r, s')"
  then obtain x s1 where "m s = Inr (x, s1)" "f x s1 = Inr (r, s')" by (auto simp: rbind_Inr_iff)
  then show "Vaults s' = Vaults s \<and> system_view s' = system_view s"
    using frameD [OF m _ wf] frameD [OF f] by metis
qed

lemma frame_cases [frame_intros]:
  "(b \<Longrightarrow> frame m) \<Longrightarrow> (\<not> b \<Longrightarrow> frame m') \<Longrightarrow> frame (if b then m else m')"
  "(o' = None \<Longrightarrow> frame m) \<Longrightarrow> (\<And>x. o' = Some x \<Longrightarrow> frame (k x)) \<Longrightarrow> frame (case o' of None \<Rightarrow> m | Some x \<Rightarrow> k x)"
  by (auto split: option.splits)

lemma frame_smod [frame_intros]:
  "(\<And>s. Vaults (f s) = Vaults s) \<Longrightarrow> (\<And>s. LiquidationVault (f s) = LiquidationVault s) \<Longrightarrow> frame (smod f)"
  by (auto simp: frame_def intro: system_view_same)

lemma frame_pool_manager [frame_intros]:
  "frame (update_reward_stake C i)" "frame (pm_deposit_collateral C i n a)" "frame (pm_withdraw_collateral C i n ma k)"
  "frame (pm_slash_collateral C i a)" "frame (kick_nominators C i)" "frame (on_vault_settings_change C i)" "frame (ext_reward_set_stake C i a)"
  "frame (update_capacity_stake C c)"
  unfolding pm_deposit_collateral_def pm_withdraw_collateral_def pm_slash_collateral_def kick_nominators_def on_vault_settings_change_def
    update_reward_stake_def update_capacity_stake_def ext_reward_set_stake_def ext_withdraw_stake_def ext_force_refund_def
  by (intro frame_intros)+

lemma frame_totals [frame_intros]:
  "frame (try_increase_total_backing_collateral p a)" "frame (decrease_total_backing_collateral p a)"
  unfolding try_increase_total_backing_collateral_def decrease_total_backing_collateral_def
  by (intro frame_intros; simp)+

lemma frame_nomination [frame_intros]:
  "frame (nomination_deposit_collateral C i n a)" "frame (try_deposit_collateral C i am)" "frame (nomination_withdraw_collateral C i n ma k)"
  "frame (opt_in_to_nomination_inner i)" "frame (opt_out_of_nomination_inner C i)" "frame (slash_backing_collateral C i am)" "frame (force_withdraw_collateral C i am)"
  unfolding nomination_deposit_collateral_def try_deposit_collateral_def deposit_vault_collateral_def nomination_withdraw_collateral_def
    opt_in_to_nomination_inner_def opt_out_of_nomination_inner_def slash_backing_collateral_def force_withdraw_collateral_def Let_def
  by (intro frame_intros; simp)+

text \<open>Changes of the collateral of a liquidation vault.\<close>

lemma lv_update_run:
  "lv_update f lv s = Inr (lv', s') \<longleftrightarrow> lv' = f lv \<and> s' = s\<lparr>LiquidationVault := (LiquidationVault s)(lv_currency_pair (f lv) \<mapsto> f lv)\<rparr>"
  by (auto simp: lv_update_def Let_def)

lemma get_liquidation_vault_put [simp]:
  "get_liquidation_vault (s\<lparr>LiquidationVault := (LiquidationVault s)(p \<mapsto> lv)\<rparr>) = (get_liquidation_vault s)(p := lv)"
  by (auto simp: get_liquidation_vault_def fun_eq_iff)

lemma get_liquidation_vault_frame [simp]:
  "get_liquidation_vault (s\<lparr>Vaults := vs\<rparr>) = get_liquidation_vault s" "get_liquidation_vault (s\<lparr>world := x\<rparr>) = get_liquidation_vault s"
  "get_liquidation_vault (s\<lparr>registry_events := es\<rparr>) = get_liquidation_vault s"
  by (simp_all add: get_liquidation_vault_def fun_eq_iff)

lemma frame_lv_fetch:
  "frame (sbind (sget (\<lambda>s. get_liquidation_vault s p)) (lv_increase_collateral a))"
  "frame (sbind (sget (\<lambda>s. get_liquidation_vault s p)) (lv_decrease_collateral a))"
  by (rule frameI; auto simp: lv_increase_collateral_def lv_decrease_collateral_def rbind_Inr_iff lv_update_run system_view_def view_system_def
      lv_wf_def fun_eq_iff)+

lemma sbind_sget_assoc: "sbind (sget g) (\<lambda>x. sbind (h x) k) = sbind (sbind (sget g) h) k"
  by (rule ext) (simp add: rbind_assoc)

lemma frame_lv_collateral [frame_intros]:
  "(\<And>x. frame (k x)) \<Longrightarrow> frame (sbind (sget (\<lambda>s. get_liquidation_vault s p)) (\<lambda>lv. sbind (lv_increase_collateral a lv) k))"
  "(\<And>x. frame (k x)) \<Longrightarrow> frame (sbind (sget (\<lambda>s. get_liquidation_vault s p)) (\<lambda>lv. sbind (lv_decrease_collateral a lv) k))"
  unfolding sbind_sget_assoc by (rule frame_sbind; simp add: frame_lv_fetch)+

lemma frame_transfer_funds [frame_intros]:
  "frame (transfer_funds C (LiquidatedCollateral i) (LiquidationVaultFunds p) a)"
  "frame (transfer_funds C (LiquidationVaultFunds p) (FreeBalance b) a)"
  "frame (transfer_funds C (Collateral i) (FreeBalance b) a)"
  unfolding transfer_funds_def release_funds.simps bind_funds.simps by (intro frame_intros)+

end
