(* ===== verification/Vault_Tokens.thy ===== *)
theory Vault_Tokens
  imports Vault_View
begin

text \<open>
  How the operations of the vault registry change the token counts, and the invariant of the counts: an
  active vault never has more tokens to redeem than issued, a liquidated vault has handed its issued tokens to
  the liquidation vault of its currency pair, and what liquidated vaults still have to redeem is exactly what
  the liquidation vault records.
\<close>

subsection \<open>Shifts of counts\<close>

definition counts_of :: "('a, 'c) vault \<Rightarrow> counts" where
  "counts_of v = \<lparr>n_issued = issued_tokens v, n_to_be_issued = to_be_issued_tokens v, n_to_be_redeemed = to_be_redeemed_tokens v\<rparr>"

definition shifted :: "int \<Rightarrow> int \<Rightarrow> int \<Rightarrow> counts \<Rightarrow> counts \<Rightarrow> bool" where
  "shifted i t r c c' \<longleftrightarrow> int (n_issued c') = int (n_issued c) + i \<and> int (n_to_be_issued c') = int (n_to_be_issued c) + t
     \<and> int (n_to_be_redeemed c') = int (n_to_be_redeemed c) + r"

lemma view_vault_counts: "view_vault v = (v_id v, is_liquidated v, counts_of v)"
  by (simp add: view_vault_def counts_of_def)

lemma shifted_trans: "shifted i t r a b \<Longrightarrow> shifted i' t' r' b c \<Longrightarrow> shifted (i + i') (t + t') (r + r') a c"
  by (simp add: shifted_def)

lemma shifted_0: "shifted 0 0 0 a b \<longleftrightarrow> a = b"
  by (auto simp: shifted_def intro: counts.equality)

abbreviation fresh :: "('a, 'c, 'x) registry \<Rightarrow> ('a, 'c) vault \<Rightarrow> bool" where
  "fresh s v \<equiv> Vaults s (v_id v) = Some v"

abbreviation pair_of :: "('a, 'c) vault \<Rightarrow> 'c vault_currency_pair" where
  "pair_of v \<equiv> vid_currencies (v_id v)"

text \<open>
  \<open>moved i t r v v' s s'\<close>: the counts of the vault of which \<open>v\<close> is a copy have been shifted and \<open>v'\<close> is the new
  copy. For a liquidated vault, the shift goes to the liquidation vault, and to the vault only as far as
  the tokens to be redeemed are concerned.
\<close>

definition moved :: "int \<Rightarrow> int \<Rightarrow> int \<Rightarrow> ('a, 'c) vault \<Rightarrow> ('a, 'c) vault \<Rightarrow> ('a, 'c, 'x) registry \<Rightarrow> ('a, 'c, 'x) registry \<Rightarrow> bool" where
  "moved i t r v v' s s' \<longleftrightarrow> v_id v' = v_id v \<and> is_liquidated v' = is_liquidated v \<and> Vaults s' = (Vaults s)(v_id v \<mapsto> v')
     \<and> (if is_liquidated v
        then shifted 0 0 r (counts_of v) (counts_of v')
           \<and> fst (system_view s' (pair_of v)) = pair_of v
           \<and> shifted i t r (snd (system_view s (pair_of v))) (snd (system_view s' (pair_of v)))
           \<and> (\<forall>q. q \<noteq> pair_of v \<longrightarrow> system_view s' q = system_view s q)
        else shifted i t r (counts_of v) (counts_of v') \<and> system_view s' = system_view s)"

lemma moved_trans:
  assumes a: "moved i t r v v1 s s1" and b: "moved i' t' r' v1 v2 s1 s2"
  shows "moved (i + i') (t + t') (r + r') v v2 s s2"
  using a b by (auto simp: moved_def shifted_def split: if_splits)

lemma moved_fresh: "moved i t r v v' s s' \<Longrightarrow> fresh s' v'"
  by (simp add: moved_def)

lemma update_run: "update f v s = Inr (v', s') \<longleftrightarrow> f v = Inr v' \<and> s' = s\<lparr>Vaults := (Vaults s)(v_id v' \<mapsto> v')\<rparr>"
  by (auto simp: update_def rbind_Inr_iff)

lemma system_view_put:
  "system_view (s\<lparr>LiquidationVault := (LiquidationVault s)(p \<mapsto> lv)\<rparr>) = (system_view s)(p := view_system lv)"
  by (auto simp: system_view_def fun_eq_iff)

lemma lv_counts: "lv_wf s \<Longrightarrow> lv_currency_pair (get_liquidation_vault s p) = p"
  by (simp add: lv_wf_def)

subsection \<open>Methods\<close>

lemmas method_simps = rbind_Inr_iff update_run lv_update_run moved_def shifted_def counts_of_def system_view_put lv_counts
  view_system_def system_view_def wrapped_currency_def issued_tokens_of_def to_be_issued_tokens_of_def to_be_redeemed_tokens_of_def is_liquidated_def

lemma increase_issued_moved:
  assumes "increase_issued x v s = Inr (v', s')" and "fresh s v" and "lv_wf s"
  shows "cur x = wrapped_currency (v_id v)" and "moved (int (amt x)) 0 0 v v' s s'"
  using assms by (auto simp: increase_issued_def lv_increase_issued_def method_simps fun_upd_idem split: if_splits)

lemma decrease_issued_moved:
  assumes "decrease_issued x v s = Inr (v', s')" and "fresh s v" and "lv_wf s"
  shows "cur x = wrapped_currency (v_id v)" and "moved (- int (amt x)) 0 0 v v' s s'"
  using assms by (auto simp: decrease_issued_def lv_decrease_issued_def method_simps fun_upd_idem split: if_splits)

lemma decrease_to_be_issued_moved:
  assumes "decrease_to_be_issued x v s = Inr (v', s')" and "fresh s v" and "lv_wf s"
  shows "cur x = wrapped_currency (v_id v)" and "moved 0 (- int (amt x)) 0 v v' s s'"
  using assms by (auto simp: decrease_to_be_issued_def lv_decrease_to_be_issued_def method_simps fun_upd_idem split: if_splits)

lemma increase_to_be_issued_moved:
  assumes "increase_to_be_issued x v s = Inr (v', s')" and "fresh s v" and "lv_wf s"
  shows "cur x = wrapped_currency (v_id v)" and "moved 0 (int (amt x)) 0 v v' s s'" and "\<not> is_liquidated v"
  using assms by (auto simp: increase_to_be_issued_def method_simps split: if_splits)

lemma increase_to_be_redeemed_moved:
  assumes "increase_to_be_redeemed x v s = Inr (v', s')" and "fresh s v" and "lv_wf s"
  shows "cur x = wrapped_currency (v_id v)" and "moved 0 0 (int (amt x)) v v' s s'" and "\<not> is_liquidated v"
  using assms by (auto simp: increase_to_be_redeemed_def method_simps split: if_splits)

lemma decrease_to_be_redeemed_moved:
  assumes "decrease_to_be_redeemed x v s = Inr (v', s')" and "fresh s v" and "lv_wf s"
  shows "cur x = wrapped_currency (v_id v)" and "moved 0 0 (- int (amt x)) v v' s s'"
  using assms by (auto simp: decrease_to_be_redeemed_def lv_decrease_to_be_redeemed_def method_simps split: if_splits)

lemma moved_lv_wf: "moved i t r v v' s s' \<Longrightarrow> lv_wf s \<Longrightarrow> lv_wf s'"
  by (auto simp: moved_def lv_wf_view split: if_splits) (metis fst_conv)

lemma execute_issue_moved:
  assumes "execute_issue_tokens x v s = Inr (v', s')" and "fresh s v" and "lv_wf s"
  shows "cur x = wrapped_currency (v_id v)" and "moved (int (amt x)) (- int (amt x)) 0 v v' s s'"
proof -
  obtain v1 s1 where r: "decrease_to_be_issued x v s = Inr (v1, s1)" "increase_issued x v1 s1 = Inr (v', s')"
    using assms(1) by (auto simp: execute_issue_tokens_def rbind_Inr_iff)
  note m = decrease_to_be_issued_moved [OF r(1) assms(2,3)]
  show "cur x = wrapped_currency (v_id v)" by (rule m(1))
  have "moved (0 + int (amt x)) (- int (amt x) + 0) (0 + 0) v v' s s'"
    by (rule moved_trans [OF m(2) increase_issued_moved(2) [OF r(2) moved_fresh [OF m(2)] moved_lv_wf [OF m(2) assms(3)]]])
  then show "moved (int (amt x)) (- int (amt x)) 0 v v' s s'" by simp
qed

lemma execute_redeem_moved:
  assumes "execute_redeem_tokens x v s = Inr (v', s')" and "fresh s v" and "lv_wf s"
  shows "cur x = wrapped_currency (v_id v)" and "moved (- int (amt x)) 0 (- int (amt x)) v v' s s'"
proof -
  obtain v1 s1 where r: "decrease_to_be_redeemed x v s = Inr (v1, s1)" "decrease_issued x v1 s1 = Inr (v', s')"
    using assms(1) by (auto simp: execute_redeem_tokens_def rbind_Inr_iff)
  note m = decrease_to_be_redeemed_moved [OF r(1) assms(2,3)]
  show "cur x = wrapped_currency (v_id v)" by (rule m(1))
  have "moved (0 + - int (amt x)) (0 + 0) (- int (amt x) + 0) v v' s s'"
    by (rule moved_trans [OF m(2) decrease_issued_moved(2) [OF r(2) moved_fresh [OF m(2)] moved_lv_wf [OF m(2) assms(3)]]])
  then show "moved (- int (amt x)) 0 (- int (amt x)) v v' s s'" by simp
qed

subsection \<open>Invariant and totals\<close>

definition vault_sum :: "(bool \<Rightarrow> counts \<Rightarrow> nat) \<Rightarrow> (('a, 'c) vault_id \<Rightarrow> ('a, 'c) vault_view option) \<Rightarrow> 'c vault_currency_pair \<Rightarrow> nat" where
  "vault_sum f V p = (\<Sum>i | i \<in> dom V \<and> vid_currencies i = p. case the (V i) of (_, l, c) \<Rightarrow> f l c)"

definition view_ok :: "(('a, 'c) vault_id \<Rightarrow> ('a, 'c) vault_view option) \<Rightarrow> ('c vault_currency_pair \<Rightarrow> 'c vault_currency_pair \<times> counts) \<Rightarrow> bool" where
  "view_ok V L \<longleftrightarrow> finite (dom V)
     \<and> (\<forall>i j l c. V i = Some (j, l, c) \<longrightarrow> j = i \<and> (if l then n_issued c = 0 \<and> n_to_be_issued c = 0 else n_to_be_redeemed c \<le> n_issued c))
     \<and> (\<forall>p. fst (L p) = p \<and> n_to_be_redeemed (snd (L p)) = vault_sum (\<lambda>l c. if l then n_to_be_redeemed c else 0) V p
         \<and> n_to_be_redeemed (snd (L p)) \<le> n_issued (snd (L p)))"

definition registry_ok :: "('a, 'c, 'x) registry \<Rightarrow> bool" where
  "registry_ok s \<longleftrightarrow> view_ok (vaults_view s) (system_view s)"

text \<open>
  The totals of a currency pair, over all vaults of the pair and its liquidation vault. The tokens that
  liquidated vaults have to redeem are in the liquidation vault.
\<close>

definition view_totals ::
  "(('a, 'c) vault_id \<Rightarrow> ('a, 'c) vault_view option) \<Rightarrow> ('c vault_currency_pair \<Rightarrow> 'c vault_currency_pair \<times> counts) \<Rightarrow> 'c vault_currency_pair \<Rightarrow> counts" where
  "view_totals V L p = \<lparr>n_issued = vault_sum (\<lambda>l c. n_issued c) V p + n_issued (snd (L p)),
     n_to_be_issued = vault_sum (\<lambda>l c. n_to_be_issued c) V p + n_to_be_issued (snd (L p)),
     n_to_be_redeemed = vault_sum (\<lambda>l c. if l then 0 else n_to_be_redeemed c) V p + n_to_be_redeemed (snd (L p))\<rparr>"

definition totals :: "('a, 'c, 'x) registry \<Rightarrow> 'c vault_currency_pair \<Rightarrow> counts" where
  "totals s = view_totals (vaults_view s) (system_view s)"

lemma vault_sum_put:
  assumes fin: "finite (dom V)" and i: "V i = Some (j, l, c)"
  shows "vault_sum f (V(i \<mapsto> (j', l', c'))) p + (if vid_currencies i = p then f l c else 0)
       = vault_sum f V p + (if vid_currencies i = p then f l' c' else 0)"
proof (cases "vid_currencies i = p")
  case True
  let ?A = "{k \<in> dom V. vid_currencies k = p}" and ?g = "\<lambda>W k. case the (W k) of (_, l, c) \<Rightarrow> f l c"
  have A: "finite ?A" "i \<in> ?A" using fin i True by auto
  have d: "{k. k \<in> dom (V(i \<mapsto> (j', l', c'))) \<and> vid_currencies k = p} = ?A" using i True by auto
  have "sum (?g (V(i \<mapsto> (j', l', c')))) ?A = f l' c' + sum (?g V) (?A - {i})"
    using A by (subst sum.remove [of _ i]) (auto intro!: sum.cong)
  moreover have "sum (?g V) ?A = f l c + sum (?g V) (?A - {i})"
    using A i by (subst sum.remove [of _ i]) auto
  ultimately show ?thesis using True unfolding vault_sum_def d by simp
next
  case False
  then show ?thesis by (auto simp: vault_sum_def intro!: sum.cong)
qed

lemma vault_sum_new:
  assumes fin: "finite (dom V)" and i: "V i = None"
  shows "vault_sum f (V(i \<mapsto> (j, l, c))) p = vault_sum f V p + (if vid_currencies i = p then f l c else 0)"
proof (cases "vid_currencies i = p")
  case True
  let ?A = "{k \<in> dom V. vid_currencies k = p}" and ?g = "\<lambda>W k. case the (W k) of (_, l, c) \<Rightarrow> f l c"
  have A: "finite ?A" "i \<notin> ?A" using fin i by auto
  have d: "{k. k \<in> dom (V(i \<mapsto> (j, l, c))) \<and> vid_currencies k = p} = insert i ?A" using True by auto
  have "sum (?g (V(i \<mapsto> (j, l, c)))) ?A = sum (?g V) ?A" using A by (intro sum.cong) auto
  then show ?thesis using A True unfolding vault_sum_def d by simp
next
  case False
  then show ?thesis by (auto simp: vault_sum_def intro!: sum.cong)
qed

lemma same_view:
  assumes "vaults_view s' = vaults_view s" and "system_view s' = system_view s"
  shows "registry_ok s' = registry_ok s" and "totals s' = totals s"
  using assms by (simp_all add: registry_ok_def totals_def)

lemma vaults_view_put: "vaults_view (s\<lparr>Vaults := (Vaults s)(i \<mapsto> v)\<rparr>) = (vaults_view s)(i \<mapsto> view_vault v)"
  by (auto simp: vaults_view_def)

lemma vaults_view_Vaults: "Vaults s' = (Vaults s)(i \<mapsto> v) \<Longrightarrow> vaults_view s' = (vaults_view s)(i \<mapsto> view_vault v)"
  by (auto simp: vaults_view_def)

lemma frame_view: "frame m \<Longrightarrow> m s = Inr (r, s') \<Longrightarrow> lv_wf s \<Longrightarrow> vaults_view s' = vaults_view s \<and> system_view s' = system_view s"
  using frameD [of m s r s'] by (simp add: vaults_view_def fun_eq_iff)

lemma registry_ok_lv_wf: "registry_ok s \<Longrightarrow> lv_wf s"
  by (simp add: registry_ok_def view_ok_def lv_wf_view)

lemma registry_okD:
  assumes "registry_ok s"
  shows "finite (dom (vaults_view s))"
    and "vaults_view s i = Some (j, l, c) \<Longrightarrow> j = i \<and> (if l then n_issued c = 0 \<and> n_to_be_issued c = 0 else n_to_be_redeemed c \<le> n_issued c)"
    and "fst (system_view s p) = p \<and> n_to_be_redeemed (snd (system_view s p)) = vault_sum (\<lambda>l c. if l then n_to_be_redeemed c else 0) (vaults_view s) p
       \<and> n_to_be_redeemed (snd (system_view s p)) \<le> n_issued (snd (system_view s p))"
  using assms unfolding registry_ok_def view_ok_def by blast+

lemma registry_okI:
  assumes "finite (dom (vaults_view s))"
    and "\<And>i j l c. vaults_view s i = Some (j, l, c) \<Longrightarrow> j = i \<and> (if l then n_issued c = 0 \<and> n_to_be_issued c = 0 else n_to_be_redeemed c \<le> n_issued c)"
    and "\<And>p. fst (system_view s p) = p \<and> n_to_be_redeemed (snd (system_view s p)) = vault_sum (\<lambda>l c. if l then n_to_be_redeemed c else 0) (vaults_view s) p
       \<and> n_to_be_redeemed (snd (system_view s p)) \<le> n_issued (snd (system_view s p))"
  shows "registry_ok s"
  using assms unfolding registry_ok_def view_ok_def by blast

lemma registry_ok_fresh: "registry_ok s \<Longrightarrow> Vaults s i = Some v \<Longrightarrow> v_id v = i"
  using registry_okD(2) [of s i "v_id v" "is_liquidated v" "counts_of v"] by (simp add: vaults_view_def view_vault_counts)

lemma registry_ok_active:
  assumes "registry_ok s" and "fresh s v" and "\<not> is_liquidated v"
  shows "to_be_redeemed_tokens v \<le> issued_tokens v"
proof -
  have "vaults_view s (v_id v) = Some (v_id v, False, counts_of v)" using assms(2,3) by (simp add: vaults_view_def view_vault_counts)
  then show ?thesis using assms(1) by (fastforce simp: registry_ok_def view_ok_def counts_of_def)
qed

subsection \<open>Shifts keep the invariant and shift the totals\<close>

lemma moved_totals:
  assumes ok: "registry_ok s" and fr: "fresh s v" and mv: "moved i t r v v' s s'"
    and nn: "r \<le> i \<or> \<not> is_liquidated v \<and> to_be_redeemed_tokens v' \<le> issued_tokens v'"
  shows "registry_ok s'" and "shifted i t r (totals s (pair_of v)) (totals s' (pair_of v))" and "q \<noteq> pair_of v \<Longrightarrow> totals s' q = totals s q"
proof -
  let ?p = "pair_of v" and ?V = "vaults_view s" and ?L = "system_view s" and ?L' = "system_view s'"
  let ?V' = "?V(v_id v \<mapsto> (v_id v, is_liquidated v, counts_of v'))"
  have V: "?V (v_id v) = Some (v_id v, is_liquidated v, counts_of v)" using fr by (simp add: vaults_view_def view_vault_counts)
  have V': "vaults_view s' = ?V'" using mv by (auto simp: moved_def view_vault_counts dest!: vaults_view_Vaults)
  note fin = registry_okD(1) [OF ok] and okv = registry_okD(2) [OF ok] and okl = registry_okD(3) [OF ok]
  note put = vault_sum_put [OF fin V, where j' = "v_id v" and l' = "is_liquidated v" and c' = "counts_of v'"]
  show "shifted i t r (totals s ?p) (totals s' ?p)"
    using put [of "\<lambda>l c. n_issued c" ?p] put [of "\<lambda>l c. n_to_be_issued c" ?p] put [of "\<lambda>l c. if l then 0 else n_to_be_redeemed c" ?p] mv
    unfolding totals_def V' view_totals_def by (auto simp: shifted_def moved_def split: if_splits)
  show "q \<noteq> ?p \<Longrightarrow> totals s' q = totals s q"
    using put [of _ q] mv unfolding totals_def V' view_totals_def by (auto simp: moved_def split: if_splits)
  have pv: "?V' k = Some (j, l, c) \<Longrightarrow> j = k \<and> (if l then n_issued c = 0 \<and> n_to_be_issued c = 0 else n_to_be_redeemed c \<le> n_issued c)" for k j l c
  proof (cases "k = v_id v")
    case True
    assume "?V' k = Some (j, l, c)"
    then have "j = k" "l = is_liquidated v" "c = counts_of v'" using True by auto
    then show ?thesis using okv [OF V] mv nn by (auto simp: moved_def shifted_def counts_of_def split: if_splits)
  qed (use okv in simp)
  have pl: "fst (?L' q) = q \<and> n_to_be_redeemed (snd (?L' q)) = vault_sum (\<lambda>l c. if l then n_to_be_redeemed c else 0) ?V' q
      \<and> n_to_be_redeemed (snd (?L' q)) \<le> n_issued (snd (?L' q))" for q
    using okl [of q] put [of "\<lambda>l c. if l then n_to_be_redeemed c else 0" q] mv nn
    by (cases "q = ?p") (auto simp: moved_def shifted_def split: if_splits)
  have "finite (dom ?V')" using fin by simp
  then show "registry_ok s'" using pv pl unfolding registry_ok_def V' view_ok_def by blast
qed

end
