(* ===== verification/Vault_Refinement.thy ===== *)
theory Vault_Refinement
  imports Vault_Tokens
begin

text \<open>
  The vault registry refines a bookkeeping of three numbers per currency pair. The abstract machine knows no
  vaults: issuing, redeeming and replacing move the totals of issued tokens, tokens to be issued and tokens to
  be redeemed, and everything else leaves them alone. Vaults that are liquidated, with their counts moved to
  the liquidation vault and later requests redirected there, are invisible in it.
\<close>

subsection \<open>The abstract machine\<close>

datatype 'c token_op =
    Request_Issue "'c vault_currency_pair" nat
  | Cancel_Issue "'c vault_currency_pair" nat
  | Execute_Issue "'c vault_currency_pair" nat
  | Request_Redeem "'c vault_currency_pair" nat
  | Cancel_Redeem "'c vault_currency_pair" nat
  | Execute_Redeem "'c vault_currency_pair" nat
  | Redeem_Liquidation "'c vault_currency_pair" nat
  | Replace "'c vault_currency_pair" "'c vault_currency_pair" nat
  | Cancel_Replace "'c vault_currency_pair" "'c vault_currency_pair" nat
  | Internal

definition shift ::
  "'c vault_currency_pair \<Rightarrow> int \<Rightarrow> int \<Rightarrow> int \<Rightarrow> ('c vault_currency_pair \<Rightarrow> counts) \<Rightarrow> ('c vault_currency_pair \<Rightarrow> counts) option" where
  "shift p i t r T =
     (let i' = int (n_issued (T p)) + i; t' = int (n_to_be_issued (T p)) + t; r' = int (n_to_be_redeemed (T p)) + r
      in if 0 \<le> t' \<and> 0 \<le> r' \<and> r' \<le> i' then Some (T(p := \<lparr>n_issued = nat i', n_to_be_issued = nat t', n_to_be_redeemed = nat r'\<rparr>)) else None)"

fun spec_step :: "'c token_op \<Rightarrow> ('c vault_currency_pair \<Rightarrow> counts) \<Rightarrow> ('c vault_currency_pair \<Rightarrow> counts) option" where
  "spec_step (Request_Issue p n) T = shift p 0 (int n) 0 T"
| "spec_step (Cancel_Issue p n) T = shift p 0 (- int n) 0 T"
| "spec_step (Execute_Issue p n) T = shift p (int n) (- int n) 0 T"
| "spec_step (Request_Redeem p n) T = shift p 0 0 (int n) T"
| "spec_step (Cancel_Redeem p n) T = shift p 0 0 (- int n) T"
| "spec_step (Execute_Redeem p n) T = shift p (- int n) 0 (- int n) T"
| "spec_step (Redeem_Liquidation p n) T = shift p (- int n) 0 0 T"
| "spec_step (Replace p q n) T = Option.bind (shift p (- int n) 0 (- int n) T) (shift q (int n) (- int n) 0)"
| "spec_step (Cancel_Replace p q n) T = Option.bind (shift p 0 0 (- int n) T) (shift q 0 (- int n) 0)"
| "spec_step Internal T = Some T"

subsection \<open>Steps of the registry\<close>

inductive vault_step :: "('a, 'c, 'x) vault_config \<Rightarrow> 'c token_op \<Rightarrow> ('a, 'c, 'x) registry \<Rightarrow> ('a, 'c, 'x) registry \<Rightarrow> bool"
  for C where
  vs_request_issue: "try_increase_to_be_issued_tokens C i x s = Inr (u, s') \<Longrightarrow> vault_step C (Request_Issue (vid_currencies i) (amt x)) s s'"
| vs_cancel_issue: "decrease_to_be_issued_tokens i x s = Inr (u, s') \<Longrightarrow> vault_step C (Cancel_Issue (vid_currencies i) (amt x)) s s'"
| vs_issue: "issue_tokens i x s = Inr (u, s') \<Longrightarrow> vault_step C (Execute_Issue (vid_currencies i) (amt x)) s s'"
| vs_request_redeem: "try_increase_to_be_redeemed_tokens i x s = Inr (u, s') \<Longrightarrow> vault_step C (Request_Redeem (vid_currencies i) (amt x)) s s'"
| vs_cancel_redeem: "decrease_to_be_redeemed_tokens i x s = Inr (u, s') \<Longrightarrow> vault_step C (Cancel_Redeem (vid_currencies i) (amt x)) s s'"
| vs_decrease: "decrease_tokens i user x s = Inr (u, s') \<Longrightarrow> vault_step C (Execute_Redeem (vid_currencies i) (amt x)) s s'"
| vs_redeem: "redeem_tokens C i x premium user s = Inr (u, s') \<Longrightarrow> vault_step C (Execute_Redeem (vid_currencies i) (amt x)) s s'"
| vs_redeem_liquidation: "redeem_tokens_liquidation C c user x s = Inr (u, s') \<Longrightarrow>
    vault_step C (Redeem_Liquidation \<lparr>pair_collateral = c, pair_wrapped = cur x\<rparr> (amt x)) s s'"
| vs_replace: "replace_tokens C old new x y s = Inr (u, s') \<Longrightarrow> old \<noteq> new \<Longrightarrow>
    vault_step C (Replace (vid_currencies old) (vid_currencies new) (amt x)) s s'"
| vs_cancel_replace: "cancel_replace_tokens C old new x s = Inr (u, s') \<Longrightarrow> old \<noteq> new \<Longrightarrow>
    vault_step C (Cancel_Replace (vid_currencies old) (vid_currencies new) (amt x)) s s'"
| vs_liquidate: "liquidate_vault C i s = Inr (a, s') \<Longrightarrow> vault_step C Internal s s'"
| vs_report: "report_undercollateralized_vault C i s = Inr (u, s') \<Longrightarrow> vault_step C Internal s s'"
| vs_request_replace: "try_increase_to_be_replaced_tokens i x s = Inr (a, s') \<Longrightarrow> vault_step C Internal s s'"
| vs_withdraw_replace: "withdraw_replace_request C i x s = Inr (ab, s') \<Longrightarrow> vault_step C Internal s s'"
| vs_decrease_replace: "decrease_to_be_replaced_tokens C i x s = Inr (ab, s') \<Longrightarrow> vault_step C Internal s s'"
| vs_decrease_liquidated: "decrease_liquidated_collateral i x s = Inr (u, s') \<Longrightarrow> vault_step C Internal s s'"
| vs_transfer: "transfer_funds C src dst x s = Inr (u, s') \<Longrightarrow> vault_step C Internal s s'"
| vs_transfer_saturated: "transfer_funds_saturated C src dst x s = Inr (a, s') \<Longrightarrow> vault_step C Internal s s'"
| vs_force_withdraw: "force_withdraw_collateral C i x s = Inr (u, s') \<Longrightarrow> vault_step C Internal s s'"
| vs_ban: "ban_vault C i s = Inr (u, s') \<Longrightarrow> vault_step C Internal s s'"
| vs_register: "register_vault C origin p n s = Inr (u, s') \<Longrightarrow> vault_step C Internal s s'"
| vs_public_key: "register_public_key origin k s = Inr (u, s') \<Longrightarrow> vault_step C Internal s s'"
| vs_address: "register_deposit_address C i h s = Inr (a', s') \<Longrightarrow> vault_step C Internal s s'"
| vs_accept: "accept_new_issues C origin p b s = Inr (u, s') \<Longrightarrow> vault_step C Internal s s'"
| vs_threshold: "set_custom_secure_threshold C origin p t s = Inr (u, s') \<Longrightarrow> vault_step C Internal s s'"
| vs_recover: "recover_vault_id origin p s = Inr (u, s') \<Longrightarrow> vault_step C Internal s s'"
| vs_nominate: "deposit_collateral C origin i n s = Inr (u, s') \<Longrightarrow> vault_step C Internal s s'"
| vs_denominate: "withdraw_collateral C origin i mn k' s = Inr (u, s') \<Longrightarrow> vault_step C Internal s s'"
| vs_opt_in: "opt_in_to_nomination origin p s = Inr (u, s') \<Longrightarrow> vault_step C Internal s s'"
| vs_opt_out: "opt_out_of_nomination C origin p s = Inr (u, s') \<Longrightarrow> vault_step C Internal s s'"
| vs_nomination_enabled: "set_nomination_enabled origin b s = Inr (u, s') \<Longrightarrow> vault_step C Internal s s'"
| vs_nomination_limit: "set_nomination_limit origin p n s = Inr (u, s') \<Longrightarrow> vault_step C Internal s s'"
| vs_minimum: "set_minimum_collateral origin c n s = Inr (u, s') \<Longrightarrow> vault_step C Internal s s'"
| vs_ceiling: "set_system_collateral_ceiling origin p n s = Inr (u, s') \<Longrightarrow> vault_step C Internal s s'"
| vs_secure: "set_secure_collateral_threshold origin p t' s = Inr (u, s') \<Longrightarrow> vault_step C Internal s s'"
| vs_premium: "set_premium_redeem_threshold origin p t' s = Inr (u, s') \<Longrightarrow> vault_step C Internal s s'"
| vs_liquidation: "set_liquidation_collateral_threshold origin p t' s = Inr (u, s') \<Longrightarrow> vault_step C Internal s s'"
| vs_exchange_rate: "on_exchange_rate_change C c s = s' \<Longrightarrow> vault_step C Internal s s'"

subsection \<open>Shifts\<close>

lemma totals_redeemable:
  assumes "registry_ok s"
  shows "n_to_be_redeemed (totals s p) \<le> n_issued (totals s p)"
proof -
  have "vault_sum (\<lambda>l c. if l then 0 else n_to_be_redeemed c) (vaults_view s) p \<le> vault_sum (\<lambda>l c. n_issued c) (vaults_view s) p"
    unfolding vault_sum_def
  proof (rule sum_mono)
    fix i assume "i \<in> {i. i \<in> dom (vaults_view s) \<and> vid_currencies i = p}"
    then obtain j l c where "vaults_view s i = Some (j, l, c)" by auto
    with registry_okD(2) [OF assms this]
    show "(case the (vaults_view s i) of (_, l, c) \<Rightarrow> if l then 0 else n_to_be_redeemed c) \<le> (case the (vaults_view s i) of (_, l, c) \<Rightarrow> n_issued c)"
      by (auto split: if_splits)
  qed
  then show ?thesis using registry_okD(3) [OF assms, of p] by (simp add: totals_def view_totals_def)
qed

lemma shifted_shift:
  assumes "shifted i t r (T p) (T' p)" and "\<And>q. q \<noteq> p \<Longrightarrow> T' q = T q" and "n_to_be_redeemed (T' p) \<le> n_issued (T' p)"
  shows "shift p i t r T = Some T'"
proof -
  have "T' = T(p := T' p)" using assms(2) by (auto simp: fun_eq_iff)
  moreover have "T' p = \<lparr>n_issued = nat (int (n_issued (T p)) + i), n_to_be_issued = nat (int (n_to_be_issued (T p)) + t),
      n_to_be_redeemed = nat (int (n_to_be_redeemed (T p)) + r)\<rparr>"
    using assms(1) by (intro counts.equality) (auto simp: shifted_def)
  moreover have "0 \<le> int (n_to_be_issued (T p)) + t" "0 \<le> int (n_to_be_redeemed (T p)) + r"
      "int (n_to_be_redeemed (T p)) + r \<le> int (n_issued (T p)) + i"
    using assms(1,3) unfolding shifted_def by linarith+
  ultimately show ?thesis by (simp add: shift_def Let_def)
qed

lemma moved_shift:
  assumes ok: "registry_ok s" and fr: "fresh s v" and mv: "moved i t r v v' s s'"
    and nn: "r \<le> i \<or> \<not> is_liquidated v \<and> to_be_redeemed_tokens v' \<le> issued_tokens v'"
  shows "registry_ok s'" and "shift (pair_of v) i t r (totals s) = Some (totals s')" and "fresh s' v'" and "v_id v' = v_id v"
proof -
  note m = moved_totals [OF ok fr mv nn]
  show "registry_ok s'" by (rule m(1))
  show "shift (pair_of v) i t r (totals s) = Some (totals s')"
    by (rule shifted_shift) (simp_all add: m(2,3) totals_redeemable [OF m(1)])
  show "fresh s' v'" "v_id v' = v_id v" using mv by (simp_all add: moved_def)
qed

subsection \<open>Actions that keep the view\<close>

definition same :: "('a, 'c, 'x) registry \<Rightarrow> ('a, 'c, 'x) registry \<Rightarrow> bool" where
  "same s s' \<longleftrightarrow> vaults_view s' = vaults_view s \<and> system_view s' = system_view s"

lemma same_refl [simp]: "same s s" and same_trans: "same s s1 \<Longrightarrow> same s1 s2 \<Longrightarrow> same s s2"
  by (simp_all add: same_def)

lemma same_ok: "same s s' \<Longrightarrow> registry_ok s \<Longrightarrow> registry_ok s'" and same_totals: "same s s' \<Longrightarrow> totals s' = totals s"
  using same_view [of s' s] by (simp_all add: same_def)

definition keeps :: "('a, 'c, 'x, 'r) vault_action \<Rightarrow> bool" where
  "keeps m \<longleftrightarrow> (\<forall>s r s'. registry_ok s \<longrightarrow> m s = Inr (r, s') \<longrightarrow> same s s')"

definition keeps_copy :: "('a, 'c) vault \<Rightarrow> ('a, 'c, 'x, 'r) vault_action \<Rightarrow> bool" where
  "keeps_copy v m \<longleftrightarrow> (\<forall>s r s'. registry_ok s \<longrightarrow> fresh s v \<longrightarrow> m s = Inr (r, s') \<longrightarrow> same s s')"

lemma keepsD: "keeps m \<Longrightarrow> m s = Inr (r, s') \<Longrightarrow> registry_ok s \<Longrightarrow> same s s'"
  by (simp add: keeps_def)

lemma keeps_copyD: "keeps_copy v m \<Longrightarrow> m s = Inr (r, s') \<Longrightarrow> registry_ok s \<Longrightarrow> fresh s v \<Longrightarrow> same s s'"
  by (simp add: keeps_copy_def)

named_theorems keeps_intros \<open>rules for actions that keep the view\<close>

lemma keeps_frame: "frame m \<Longrightarrow> keeps m"
  unfolding keeps_def same_def by (intro allI impI) (rule frame_view [OF _ _ registry_ok_lv_wf])

lemma keeps_sbind [keeps_intros]:
  assumes m: "keeps m" and k: "\<And>x. keeps (k x)"
  shows "keeps (sbind m k)"
  unfolding keeps_def
proof (intro allI impI)
  fix s r s' assume ok: "registry_ok s" and "sbind m k s = Inr (r, s')"
  then obtain x s1 where x: "m s = Inr (x, s1)" "k x s1 = Inr (r, s')" by (auto simp: rbind_Inr_iff)
  have "same s s1" by (rule keepsD [OF m x(1) ok])
  then show "same s s'" using keepsD [OF k x(2)] same_ok [OF _ ok] same_trans by blast
qed

lemma get_active_Inr: "get_active_vault_from_id s i = Inr v \<longleftrightarrow> Vaults s i = Some v \<and> \<not> is_liquidated v"
  by (cases "Vaults s i"; cases "v_status (the (Vaults s i))")
    (auto simp: get_active_vault_from_id_def get_vault_from_id_def is_liquidated_def)

lemma get_vault_Inr: "get_vault_from_id s i = Inr v \<longleftrightarrow> Vaults s i = Some v"
  by (simp add: get_vault_from_id_def)

lemma keeps_fetch [keeps_intros]:
  "(\<And>v. keeps_copy v (k v)) \<Longrightarrow> keeps (sbind (vault_by_id i) k)"
  "(\<And>v. \<not> is_liquidated v \<Longrightarrow> keeps_copy v (k v)) \<Longrightarrow> keeps (sbind (active_vault_by_id i) k)"
proof -
  have *: "same s s'" if "keeps_copy v (k v)" and ok: "registry_ok s" and run: "Vaults s i = Some v" "k v s = Inr (r, s')" for s v r s'
    using keeps_copyD [OF that(1) run(2) ok] registry_ok_fresh [OF ok run(1)] run(1) by simp
  show "(\<And>v. keeps_copy v (k v)) \<Longrightarrow> keeps (sbind (vault_by_id i) k)"
    unfolding keeps_def by (auto simp: rbind_Inr_iff get_vault_Inr dest: *)
  show "(\<And>v. \<not> is_liquidated v \<Longrightarrow> keeps_copy v (k v)) \<Longrightarrow> keeps (sbind (active_vault_by_id i) k)"
    unfolding keeps_def by (auto simp: rbind_Inr_iff get_active_Inr dest: *)
qed

lemma keeps_copy_read [keeps_intros]:
  "(\<And>x. keeps_copy v (k x)) \<Longrightarrow> keeps_copy v (sbind (slift f) k)"
  "(\<And>x. keeps_copy v (k' x)) \<Longrightarrow> keeps_copy v (sbind (sget g) k')"
  "(\<And>x. keeps_copy v (k'' x)) \<Longrightarrow> keeps_copy v (sbind (sensure P e) k'')"
  by (auto simp: keeps_copy_def rbind_Inr_iff split: if_splits)

lemma update_same:
  assumes "update f v s = Inr (v', s')" and "fresh s v" and "\<And>v'. f v = Inr v' \<Longrightarrow> view_vault v' = view_vault v"
  shows "same s s'" and "fresh s' v'" and "v_id v' = v_id v" and "is_liquidated v' = is_liquidated v" and "counts_of v' = counts_of v"
proof -
  have r: "f v = Inr v'" "s' = s\<lparr>Vaults := (Vaults s)(v_id v' \<mapsto> v')\<rparr>" using assms(1) by (simp_all add: update_run)
  have vv: "view_vault v' = view_vault v" by (rule assms(3) [OF r(1)])
  then show id: "v_id v' = v_id v" "is_liquidated v' = is_liquidated v" "counts_of v' = counts_of v" by (simp_all add: view_vault_counts)
  show "fresh s' v'" using r(2) by simp
  have "vaults_view s (v_id v) = Some (view_vault v)" using assms(2) by (simp add: vaults_view_def)
  then show "same s s'" using r(2) vv id by (simp add: same_def vaults_view_put fun_upd_idem)
qed

lemma keeps_copy_update [keeps_intros]:
  assumes "\<And>v'. f v = Inr v' \<Longrightarrow> view_vault v' = view_vault v" and k: "\<And>x. keeps (k x)"
  shows "keeps_copy v (sbind (update f v) k)"
  unfolding keeps_copy_def
proof (intro allI impI)
  fix s r s' assume ok: "registry_ok s" and fr: "fresh s v" and "sbind (update f v) k s = Inr (r, s')"
  then obtain x s1 where x: "update f v s = Inr (x, s1)" "k x s1 = Inr (r, s')" by (auto simp: rbind_Inr_iff)
  have sm: "same s s1" by (rule update_same(1) [OF x(1) fr assms(1)])
  then show "same s s'" using keepsD [OF k x(2)] same_ok [OF sm ok] same_trans by blast
qed

lemma keeps_copy_any: "keeps m \<Longrightarrow> keeps_copy v m"
  by (simp add: keeps_def keeps_copy_def)

lemma keeps_copy_frame:
  assumes m: "frame m" and k: "\<And>x. keeps_copy v (k x)"
  shows "keeps_copy v (sbind m k)"
  unfolding keeps_copy_def
proof (intro allI impI)
  fix s r s' assume ok: "registry_ok s" and fr: "fresh s v" and "sbind m k s = Inr (r, s')"
  then obtain x s1 where x: "m s = Inr (x, s1)" "k x s1 = Inr (r, s')" by (auto simp: rbind_Inr_iff)
  note f = frameD [OF m x(1) registry_ok_lv_wf [OF ok]]
  have sm: "same s s1" by (rule keepsD [OF keeps_frame [OF m] x(1) ok])
  have "fresh s1 v" using f fr by simp
  then show "same s s'" using keeps_copyD [OF k x(2)] same_ok [OF sm ok] same_trans [OF sm] by blast
qed

lemmas keeps_basic [keeps_intros] = frame_basic [THEN keeps_frame] frame_pool_manager [THEN keeps_frame]
  frame_totals [THEN keeps_frame] frame_nomination [THEN keeps_frame]

lemma keeps_cases [keeps_intros]:
  "keeps m \<Longrightarrow> keeps m' \<Longrightarrow> keeps (if b then m else m')"
  "keeps m \<Longrightarrow> (\<And>x. keeps (k x)) \<Longrightarrow> keeps (case o' of None \<Rightarrow> m | Some x \<Rightarrow> k x)"
  by (auto split: option.splits)

lemmas method_defs = set_to_be_replaced_amount_def increase_available_replace_collateral_def decrease_available_replace_collateral_def
  increase_active_replace_collateral_def decrease_active_replace_collateral_def rv_set_custom_secure_threshold_def
  increase_liquidated_collateral_def rv_decrease_liquidated_collateral_def ban_until_def set_accept_new_issues_def

lemma view_updates [simp]:
  "view_vault (v\<lparr>to_be_replaced_tokens := n\<rparr>) = view_vault v" "view_vault (v\<lparr>replace_collateral := n\<rparr>) = view_vault v"
  "view_vault (v\<lparr>active_replace_collateral := n\<rparr>) = view_vault v" "view_vault (v\<lparr>liquidated_collateral := n\<rparr>) = view_vault v"
  "view_vault (v\<lparr>secure_threshold := t\<rparr>) = view_vault v" "view_vault (v\<lparr>banned_until := b\<rparr>) = view_vault v"
  "\<not> is_liquidated v \<Longrightarrow> view_vault (v\<lparr>v_status := Active a\<rparr>) = view_vault v"
  by (simp_all add: view_vault_def is_liquidated_def)

lemma keeps_transfer [keeps_intros]: "keeps (transfer_funds C src dst a)"
proof -
  have "keeps (release_funds C src a)"
    by (cases src) (auto simp: method_defs rbind_Inr_iff intro!: keeps_intros keeps_copy_update frame_lv_collateral [THEN keeps_frame] frame_intros)
  moreover have "keeps (bind_funds C dst a)"
    by (cases dst) (auto simp: method_defs rbind_Inr_iff intro!: keeps_intros keeps_copy_update frame_lv_collateral [THEN keeps_frame] frame_intros)
  ultimately show ?thesis unfolding transfer_funds_def by (intro keeps_intros)
qed

lemma keeps_internal [keeps_intros]:
  "keeps (transfer_funds_saturated C src dst a)" "keeps (try_increase_to_be_replaced_tokens i x)" "keeps (decrease_to_be_replaced_tokens C i x)"
  "keeps (decrease_liquidated_collateral i x)" "keeps (ban_vault C i)" "keeps (register_public_key og k)"
  "keeps (accept_new_issues C og p b)" "keeps (set_custom_secure_threshold C og p t)"
  "keeps (deposit_collateral C og i n)" "keeps (withdraw_collateral C og i mn k')" "keeps (opt_in_to_nomination og p)" "keeps (opt_out_of_nomination C og p)"
  unfolding transfer_funds_saturated_def try_increase_to_be_replaced_tokens_def decrease_to_be_replaced_tokens_def decrease_liquidated_collateral_def
    ban_vault_def register_public_key_def accept_new_issues_def set_custom_secure_threshold_def
    try_set_vault_custom_secure_threshold_def deposit_collateral_def withdraw_collateral_def opt_in_to_nomination_def opt_out_of_nomination_def
    method_defs Let_def
  by (auto simp: rbind_Inr_iff intro!: keeps_intros keeps_copy_update frame_smod [THEN keeps_frame])

lemma keeps_settings [keeps_intros]:
  "keeps (set_nomination_enabled og b)" "keeps (set_nomination_limit og p n)" "keeps (set_minimum_collateral og c n)" "keeps (set_system_collateral_ceiling og p n)"
  "keeps (set_secure_collateral_threshold og p t)" "keeps (set_premium_redeem_threshold og p t)" "keeps (set_liquidation_collateral_threshold og p t)"
  unfolding set_nomination_enabled_def set_nomination_limit_def set_minimum_collateral_def set_system_collateral_ceiling_def
    set_secure_collateral_threshold_def set_premium_redeem_threshold_def set_liquidation_collateral_threshold_def
  by (intro keeps_intros frame_smod [THEN keeps_frame]; simp)+

lemma keeps_register_address [keeps_intros]: "keeps (register_deposit_address C i h)"
  unfolding register_deposit_address_def
  by (intro keeps_intros keeps_copy_any [of "sbind (emit _) _"])

lemma keeps_withdraw_replace [keeps_intros]: "keeps (withdraw_replace_request C i x)"
  unfolding withdraw_replace_request_def by (rule keeps_sbind) (auto intro!: keeps_intros)

end
