(* ===== verification/Vault_Simulation.thy ===== *)
theory Vault_Simulation
  imports Vault_Refinement
begin

text \<open>
  The simulation: every operation of the vault registry keeps the invariant of the token counts and acts on
  the totals as the abstract machine does.
\<close>

definition refines :: "'c token_op \<Rightarrow> ('a, 'c, 'x) registry \<Rightarrow> ('a, 'c, 'x) registry \<Rightarrow> bool" where
  "refines op s s' \<longleftrightarrow> registry_ok s' \<and> spec_step op (totals s) = Some (totals s')"

lemma refines_internal: "keeps m \<Longrightarrow> m s = Inr (r, s') \<Longrightarrow> registry_ok s \<Longrightarrow> refines Internal s s'"
  using same_ok same_totals keepsD by (fastforce simp: refines_def)

lemma refines_before: "same s s1 \<Longrightarrow> refines op s1 s' \<Longrightarrow> refines op s s'"
  using same_totals by (fastforce simp: refines_def)

lemma refines_after: "refines op s s1 \<Longrightarrow> same s1 s' \<Longrightarrow> refines op s s'"
  using same_totals same_ok by (fastforce simp: refines_def)

lemma emit_same: "emit e s = Inr (u, s') \<Longrightarrow> same s s'"
  by (auto simp: emit_def same_def vaults_view_def fun_eq_iff)

subsection \<open>Issue and redeem\<close>

lemma request_issue_refines:
  assumes ok: "registry_ok s" and run: "try_increase_to_be_issued_tokens C i x s = Inr (u, s')"
  shows "refines (Request_Issue (vid_currencies i) (amt x)) s s'"
proof -
  obtain v v' s1 e where v: "Vaults s i = Some v" and m: "increase_to_be_issued x v s = Inr (v', s1)" and e: "emit e s1 = Inr (u, s')"
    using run by (auto simp: try_increase_to_be_issued_tokens_def request_issue_tokens_def rbind_Inr_iff get_active_Inr split: if_splits)
  note id = registry_ok_fresh [OF ok v]
  have fr: "fresh s v" using v id by simp
  note mv = increase_to_be_issued_moved [OF m fr registry_ok_lv_wf [OF ok]]
  have "refines (Request_Issue (vid_currencies i) (amt x)) s s1"
    using moved_shift [OF ok fr mv(2)] id by (simp add: refines_def)
  then show ?thesis by (rule refines_after [OF _ emit_same [OF e]])
qed

lemma cancel_issue_refines:
  assumes ok: "registry_ok s" and run: "decrease_to_be_issued_tokens i x s = Inr (u, s')"
  shows "refines (Cancel_Issue (vid_currencies i) (amt x)) s s'"
proof -
  obtain v v' s1 e where v: "Vaults s i = Some v" and m: "decrease_to_be_issued x v s = Inr (v', s1)" and e: "emit e s1 = Inr (u, s')"
    using run by (auto simp: decrease_to_be_issued_tokens_def cancel_issue_tokens_def rbind_Inr_iff get_vault_Inr)
  note id = registry_ok_fresh [OF ok v]
  have fr: "fresh s v" using v id by simp
  note mv = decrease_to_be_issued_moved [OF m fr registry_ok_lv_wf [OF ok]]
  have "refines (Cancel_Issue (vid_currencies i) (amt x)) s s1"
    using moved_shift [OF ok fr mv(2)] id by (simp add: refines_def)
  then show ?thesis by (rule refines_after [OF _ emit_same [OF e]])
qed

lemma issue_refines:
  assumes ok: "registry_ok s" and run: "issue_tokens i x s = Inr (u, s')"
  shows "refines (Execute_Issue (vid_currencies i) (amt x)) s s'"
proof -
  obtain v v' s1 e where v: "Vaults s i = Some v" and m: "execute_issue_tokens x v s = Inr (v', s1)" and e: "emit e s1 = Inr (u, s')"
    using run by (auto simp: issue_tokens_def rbind_Inr_iff get_vault_Inr)
  note id = registry_ok_fresh [OF ok v]
  have fr: "fresh s v" using v id by simp
  note mv = execute_issue_moved [OF m fr registry_ok_lv_wf [OF ok]]
  have "refines (Execute_Issue (vid_currencies i) (amt x)) s s1"
    using moved_shift [OF ok fr mv(2)] id by (simp add: refines_def)
  then show ?thesis by (rule refines_after [OF _ emit_same [OF e]])
qed

lemma request_redeem_refines:
  assumes ok: "registry_ok s" and run: "try_increase_to_be_redeemed_tokens i x s = Inr (u, s')"
  shows "refines (Request_Redeem (vid_currencies i) (amt x)) s s'"
proof -
  obtain v v' s1 e where v: "Vaults s i = Some v" and le: "amt x \<le> issued_tokens v - to_be_redeemed_tokens v" "to_be_redeemed_tokens v \<le> issued_tokens v"
    and m: "increase_to_be_redeemed x v s = Inr (v', s1)" and e: "emit e s1 = Inr (u, s')"
    using run by (auto simp: try_increase_to_be_redeemed_tokens_def request_redeem_tokens_def rbind_Inr_iff get_active_Inr
        issued_tokens_of_def to_be_redeemed_tokens_of_def split: if_splits)
  note id = registry_ok_fresh [OF ok v]
  have fr: "fresh s v" using v id by simp
  note mv = increase_to_be_redeemed_moved [OF m fr registry_ok_lv_wf [OF ok]]
  have "to_be_redeemed_tokens v' \<le> issued_tokens v'" using mv(2,3) le by (auto simp: moved_def shifted_def counts_of_def)
  then have "refines (Request_Redeem (vid_currencies i) (amt x)) s s1"
    using moved_shift [OF ok fr mv(2)] mv(3) id by (simp add: refines_def)
  then show ?thesis by (rule refines_after [OF _ emit_same [OF e]])
qed

lemma cancel_redeem_refines:
  assumes ok: "registry_ok s" and run: "decrease_to_be_redeemed_tokens i x s = Inr (u, s')"
  shows "refines (Cancel_Redeem (vid_currencies i) (amt x)) s s'"
proof -
  obtain v v' s1 e where v: "Vaults s i = Some v" and m: "decrease_to_be_redeemed x v s = Inr (v', s1)" and e: "emit e s1 = Inr (u, s')"
    using run by (auto simp: decrease_to_be_redeemed_tokens_def cancel_redeem_tokens_def rbind_Inr_iff get_vault_Inr)
  note id = registry_ok_fresh [OF ok v]
  have fr: "fresh s v" using v id by simp
  note mv = decrease_to_be_redeemed_moved [OF m fr registry_ok_lv_wf [OF ok]]
  have "refines (Cancel_Redeem (vid_currencies i) (amt x)) s s1"
    using moved_shift [OF ok fr mv(2)] id by (simp add: refines_def)
  then show ?thesis by (rule refines_after [OF _ emit_same [OF e]])
qed

lemma execute_redeem_refines:
  assumes ok: "registry_ok s" and v: "Vaults s i = Some v" and m: "execute_redeem_tokens x v s = Inr (v', s1)"
  shows "refines (Execute_Redeem (vid_currencies i) (amt x)) s s1" and "fresh s1 v'" and "v_id v' = i"
proof -
  note id = registry_ok_fresh [OF ok v]
  have fr: "fresh s v" using v id by simp
  note mv = execute_redeem_moved [OF m fr registry_ok_lv_wf [OF ok]]
  note ms = moved_shift [OF ok fr mv(2)]
  show "refines (Execute_Redeem (vid_currencies i) (amt x)) s s1" "fresh s1 v'" "v_id v' = i"
    using ms id by (simp_all add: refines_def)
qed

lemma decrease_tokens_refines:
  assumes ok: "registry_ok s" and run: "decrease_tokens i user x s = Inr (u, s')"
  shows "refines (Execute_Redeem (vid_currencies i) (amt x)) s s'"
proof -
  obtain v v' s1 e where v: "Vaults s i = Some v" and m: "execute_redeem_tokens x v s = Inr (v', s1)" and e: "emit e s1 = Inr (u, s')"
    using run by (auto simp: decrease_tokens_def rbind_Inr_iff get_vault_Inr)
  show ?thesis by (rule refines_after [OF execute_redeem_refines(1) [OF ok v m] emit_same [OF e]])
qed

lemma redeem_release_keeps:
  "keeps_copy v (if \<not> is_liquidated v then
       (if am_is_zero premium then emit (RedeemTokens (v_id v) (amt x))
        else sbind (transfer_funds C (Collateral i) (FreeBalance user) premium) (\<lambda>_. emit (RedeemTokensPremium i (amt x) (amt premium) user)))
     else
       sbind (slift (\<lambda>_. calculate_collateral (liquidated_collateral_of v) x n)) (\<lambda>y.
       sbind (decrease_total_backing_collateral (vid_currencies i) y) (\<lambda>_.
       sbind (rv_decrease_liquidated_collateral y v) (\<lambda>_.
       sbind (on_world (am_unlock_on (cfg_tokens C) y (vid_account i))) (\<lambda>_.
       emit (RedeemTokensLiquidatedVault i (amt x) (amt y)))))))"
proof (cases "is_liquidated v")
  case True
  have "keeps (sbind (on_world (am_unlock_on (cfg_tokens C) y (vid_account i))) (\<lambda>_.
     emit (RedeemTokensLiquidatedVault i (amt x) (amt y))))" for y
    by (intro keeps_intros)
  then show ?thesis unfolding rv_decrease_liquidated_collateral_def using True
    by (simp only: not_True_eq_False if_False)
      (intro keeps_copy_read(1) keeps_copy_frame keeps_copy_update frame_totals; auto simp: rbind_Inr_iff)
next
  case False
  then show ?thesis by (simp only: not_False_eq_True if_True) (intro keeps_copy_any keeps_intros)
qed

lemma redeem_tokens_refines:
  assumes ok: "registry_ok s" and run: "redeem_tokens C i x premium user s = Inr (u, s')"
  shows "refines (Execute_Redeem (vid_currencies i) (amt x)) s s'"
proof -
  obtain v v' s1 where v: "Vaults s i = Some v" and m: "execute_redeem_tokens x v s = Inr (v', s1)"
    and rest: "(if \<not> is_liquidated v' then
       (if am_is_zero premium then emit (RedeemTokens (v_id v') (amt x))
        else sbind (transfer_funds C (Collateral i) (FreeBalance user) premium) (\<lambda>_. emit (RedeemTokensPremium i (amt x) (amt premium) user)))
     else
       sbind (slift (\<lambda>_. calculate_collateral (liquidated_collateral_of v') x (to_be_redeemed_tokens_of v))) (\<lambda>y.
       sbind (decrease_total_backing_collateral (vid_currencies i) y) (\<lambda>_.
       sbind (rv_decrease_liquidated_collateral y v') (\<lambda>_.
       sbind (on_world (am_unlock_on (cfg_tokens C) y (vid_account i))) (\<lambda>_.
       emit (RedeemTokensLiquidatedVault i (amt x) (amt y))))))) s1 = Inr (u, s')"
    using run by (auto simp: redeem_tokens_def Let_def rbind_Inr_iff get_vault_Inr)
  note r = execute_redeem_refines [OF ok v m]
  have "registry_ok s1" using r(1) by (simp add: refines_def)
  then have "same s1 s'" by (rule keeps_copyD [OF redeem_release_keeps rest _ r(2)])
  then show ?thesis by (rule refines_after [OF r(1)])
qed

end
