(* ===== verification/Vault_Liquidation.thy ===== *)
theory Vault_Liquidation
  imports Vault_Simulation
begin

text \<open>
  The simulation, continued: redeeming from the liquidation vault, replacing, liquidating, registering and
  recovering vaults.
\<close>

subsection \<open>Redeeming from the liquidation vault\<close>

lemma burn_refines:
  assumes ok: "registry_ok s" and V: "vaults_view s' = vaults_view s"
    and L: "system_view s' = (system_view s)(p := (p, c))" and sh: "shifted i 0 0 (snd (system_view s p)) c"
    and le: "n_to_be_redeemed c \<le> n_issued c"
  shows "registry_ok s'" and "shift p i 0 0 (totals s) = Some (totals s')"
proof -
  note okl = registry_okD(3) [OF ok]
  show ok': "registry_ok s'"
  proof (rule registry_okI)
    show "finite (dom (vaults_view s'))" using registry_okD(1) [OF ok] V by simp
    show "j = k \<and> (if l then n_issued d = 0 \<and> n_to_be_issued d = 0 else n_to_be_redeemed d \<le> n_issued d)"
      if "vaults_view s' k = Some (j, l, d)" for k j l d
      using registry_okD(2) [OF ok] that unfolding V .
    show "fst (system_view s' q) = q \<and> n_to_be_redeemed (snd (system_view s' q)) = vault_sum (\<lambda>l c. if l then n_to_be_redeemed c else 0) (vaults_view s') q
        \<and> n_to_be_redeemed (snd (system_view s' q)) \<le> n_issued (snd (system_view s' q))" for q
      using okl [of q] sh le unfolding V L by (auto simp: shifted_def)
  qed
  show "shift p i 0 0 (totals s) = Some (totals s')"
  proof (rule shifted_shift)
    show "shifted i 0 0 (totals s p) (totals s' p)" using sh by (simp add: shifted_def totals_def view_totals_def V L)
    show "q \<noteq> p \<Longrightarrow> totals s' q = totals s q" for q by (simp add: totals_def view_totals_def V L)
    show "n_to_be_redeemed (totals s' p) \<le> n_issued (totals s' p)" by (rule totals_redeemable [OF ok'])
  qed
qed

lemma redeem_liquidation_refines:
  assumes ok: "registry_ok s" and run: "redeem_tokens_liquidation C c user x s = Inr (u, s')"
  shows "refines (Redeem_Liquidation \<lparr>pair_collateral = c, pair_wrapped = cur x\<rparr> (amt x)) s s'"
proof -
  let ?p = "\<lparr>pair_collateral = c, pair_wrapped = cur x\<rparr>"
  obtain y s1 lv s2 e where le: "lv_to_be_redeemed_tokens (get_liquidation_vault s ?p) \<le> lv_issued_tokens (get_liquidation_vault s ?p)"
      "amt x \<le> lv_issued_tokens (get_liquidation_vault s ?p) - lv_to_be_redeemed_tokens (get_liquidation_vault s ?p)"
    and t: "transfer_funds C (LiquidationVaultFunds ?p) (FreeBalance user) y s = Inr ((), s1)"
    and b: "lv_burn_issued x (get_liquidation_vault s1 ?p) s1 = Inr (lv, s2)" and e: "emit e s2 = Inr (u, s')"
    using run by (auto simp: redeem_tokens_liquidation_def Let_def lv_redeemable_tokens_def rbind_Inr_iff split: if_splits)
  note f = frameD [OF frame_transfer_funds(2) t registry_ok_lv_wf [OF ok]]
  then have sm: "same s s1" by (simp add: same_def vaults_view_def fun_eq_iff)
  note ok1 = same_ok [OF sm ok]
  have L: "system_view s1 ?p = system_view s ?p" using f by simp
  define d where "d = \<lparr>n_issued = lv_issued_tokens (get_liquidation_vault s1 ?p) - amt x,
      n_to_be_issued = lv_to_be_issued_tokens (get_liquidation_vault s1 ?p), n_to_be_redeemed = lv_to_be_redeemed_tokens (get_liquidation_vault s1 ?p)\<rparr>"
  have "vaults_view s2 = vaults_view s1" "system_view s2 = (system_view s1)(?p := (?p, d))" "amt x \<le> lv_issued_tokens (get_liquidation_vault s1 ?p)"
    using b f by (auto simp: lv_burn_issued_def lv_decrease_issued_def rbind_Inr_iff lv_update_run lv_counts system_view_put view_system_def
        d_def vaults_view_def fun_eq_iff)
  note s2 = this
  have "refines (Redeem_Liquidation ?p (amt x)) s1 s2"
    unfolding refines_def spec_step.simps
    by (intro conjI burn_refines [OF ok1 s2(1,2)])
      (use L le s2(3) in \<open>auto simp: shifted_def d_def system_view_def view_system_def\<close>)
  then show ?thesis by (rule refines_before [OF sm refines_after [OF _ emit_same [OF e]]])
qed

subsection \<open>Replacing\<close>

lemma release_same:
  assumes run: "sbind (slift f) (\<lambda>y. sbind (rv_decrease_liquidated_collateral y v) (\<lambda>v'. sbind (k y) (\<lambda>_. sret v'))) s = Inr (v', s')"
    and ok: "registry_ok s" and fr: "fresh s v" and k: "\<And>y. frame (k y)"
  shows "same s s'" and "v_id v' = v_id v" and "Vaults s' = (Vaults s)(v_id v \<mapsto> v')"
proof -
  obtain y s1 x where u: "rv_decrease_liquidated_collateral y v s = Inr (v', s1)" and x: "k y s1 = Inr (x, s')"
    using run by (auto simp: rbind_Inr_iff)
  have us: "same s s1" "v_id v' = v_id v"
    by (rule update_same [OF u [unfolded rv_decrease_liquidated_collateral_def] fr]; auto simp: rbind_Inr_iff)+
  have V: "Vaults s1 = (Vaults s)(v_id v \<mapsto> v')" using u us(2) by (auto simp: rv_decrease_liquidated_collateral_def update_run)
  note fx = frameD [OF k x registry_ok_lv_wf [OF same_ok [OF us(1) ok]]]
  have "same s1 s'" using fx by (simp add: same_def vaults_view_def fun_eq_iff)
  then show "same s s'" by (rule same_trans [OF us(1)])
  show "v_id v' = v_id v" by (rule us(2))
  show "Vaults s' = (Vaults s)(v_id v \<mapsto> v')" using fx V by simp
qed

lemma two_moves:
  assumes ok: "registry_ok s" and fr: "fresh s v" "fresh s w" and ne: "v_id v \<noteq> v_id w"
    and mv: "moved i t r v v' s s1" "r \<le> i" and mw: "fresh s1 w \<Longrightarrow> registry_ok s1 \<Longrightarrow> moved i' t' r' w w' s1 s2" "r' \<le> i'"
  shows "registry_ok s2" and "Option.bind (shift (pair_of v) i t r (totals s)) (shift (pair_of w) i' t' r') = Some (totals s2)"
proof -
  note a = moved_shift [OF ok fr(1) mv(1) disjI1 [OF mv(2)]]
  have fw: "fresh s1 w" using mv(1) fr(2) ne by (simp add: moved_def)
  note b = moved_shift [OF a(1) fw mw(1) [OF fw a(1)] disjI1 [OF mw(2)]]
  show "registry_ok s2" by (rule b(1))
  show "Option.bind (shift (pair_of v) i t r (totals s)) (shift (pair_of w) i' t' r') = Some (totals s2)" using a(2) b(2) by simp
qed

lemma replace_refines:
  assumes ok: "registry_ok s" and ne: "old \<noteq> new" and run: "replace_tokens C old new x y s = Inr (u, s')"
  shows "refines (Replace (vid_currencies old) (vid_currencies new) (amt x)) s s'"
proof -
  obtain v w v0 s0 v' s1 w' s2 e where v: "Vaults s old = Some v" and w: "Vaults s new = Some w"
    and pre: "(if is_liquidated v then
              sbind (slift (\<lambda>_. calculate_collateral (liquidated_collateral_of v) x (to_be_redeemed_tokens_of v))) (\<lambda>y.
              sbind (rv_decrease_liquidated_collateral y v) (\<lambda>v.
              sbind (pm_deposit_collateral C old (vid_account old) y) (\<lambda>_. sret v)))
            else sret v) s = Inr (v0, s0)"
    and a: "execute_redeem_tokens x v0 s0 = Inr (v', s1)" and b: "execute_issue_tokens x w s1 = Inr (w', s2)" and e: "emit e s2 = Inr (u, s')"
    using run by (auto simp: replace_tokens_def rbind_Inr_iff get_vault_Inr)
  note id = registry_ok_fresh [OF ok v] registry_ok_fresh [OF ok w]
  have fr: "fresh s v" "fresh s w" using v w id by simp_all
  have p: "same s s0" "v_id v0 = v_id v" "Vaults s0 = (Vaults s)(v_id v \<mapsto> v0)"
    using pre release_same [OF _ ok fr(1) frame_pool_manager(2)] fr by (auto simp: fun_upd_idem simp del: action_simps(5) split: if_splits)
  note ok0 = same_ok [OF p(1) ok]
  have fr0: "fresh s0 v0" "fresh s0 w" "v_id v0 \<noteq> v_id w" using p fr ne id by simp_all
  note t = two_moves [OF ok0 fr0 execute_redeem_moved(2) [OF a fr0(1) registry_ok_lv_wf [OF ok0]] _
      execute_issue_moved(2) [OF b _ registry_ok_lv_wf]]
  have "refines (Replace (vid_currencies old) (vid_currencies new) (amt x)) s0 s2"
    using t p(2) id by (simp add: refines_def)
  then show ?thesis by (rule refines_before [OF p(1) refines_after [OF _ emit_same [OF e]]])
qed

lemma cancel_replace_refines:
  assumes ok: "registry_ok s" and ne: "old \<noteq> new" and run: "cancel_replace_tokens C old new x s = Inr (u, s')"
  shows "refines (Cancel_Replace (vid_currencies old) (vid_currencies new) (amt x)) s s'"
proof -
  obtain v w v0 s0 v' s1 w' where v: "Vaults s old = Some v" and w: "Vaults s new = Some w"
    and pre: "(if is_liquidated v then
              sbind (slift (\<lambda>_. calculate_collateral (liquidated_collateral_of v) x (to_be_redeemed_tokens_of v))) (\<lambda>y.
              sbind (rv_decrease_liquidated_collateral y v) (\<lambda>v.
              sbind (transfer_funds C (LiquidatedCollateral old) (LiquidationVaultFunds (vid_currencies old)) y) (\<lambda>_. sret v)))
            else sret v) s = Inr (v0, s0)"
    and a: "decrease_to_be_redeemed x v0 s0 = Inr (v', s1)" and b: "decrease_to_be_issued x w s1 = Inr (w', s')"
    using run by (auto simp: cancel_replace_tokens_def cancel_redeem_tokens_def cancel_issue_tokens_def rbind_Inr_iff get_vault_Inr)
  note id = registry_ok_fresh [OF ok v] registry_ok_fresh [OF ok w]
  have fr: "fresh s v" "fresh s w" using v w id by simp_all
  have p: "same s s0" "v_id v0 = v_id v" "Vaults s0 = (Vaults s)(v_id v \<mapsto> v0)"
    using pre release_same [OF _ ok fr(1) frame_transfer_funds(1)] fr by (auto simp: fun_upd_idem simp del: action_simps(5) split: if_splits)
  note ok0 = same_ok [OF p(1) ok]
  have fr0: "fresh s0 v0" "fresh s0 w" "v_id v0 \<noteq> v_id w" using p fr ne id by simp_all
  note t = two_moves [OF ok0 fr0 decrease_to_be_redeemed_moved(2) [OF a fr0(1) registry_ok_lv_wf [OF ok0]] _
      decrease_to_be_issued_moved(2) [OF b _ registry_ok_lv_wf]]
  have "refines (Cancel_Replace (vid_currencies old) (vid_currencies new) (amt x)) s0 s'"
    using t p(2) id by (simp add: refines_def)
  then show ?thesis by (rule refines_before [OF p(1)])
qed

subsection \<open>Liquidation\<close>

definition counts_add :: "counts \<Rightarrow> counts \<Rightarrow> counts" where
  "counts_add c d = \<lparr>n_issued = n_issued c + n_issued d, n_to_be_issued = n_to_be_issued c + n_to_be_issued d,
     n_to_be_redeemed = n_to_be_redeemed c + n_to_be_redeemed d\<rparr>"

lemma liquidated_view:
  assumes ok: "registry_ok s" and V: "vaults_view s i = Some (i, False, c)"
    and V': "vaults_view s' = (vaults_view s)(i \<mapsto> (i, True, \<lparr>n_issued = 0, n_to_be_issued = 0, n_to_be_redeemed = n_to_be_redeemed c\<rparr>))"
    and L': "system_view s' = (system_view s)(vid_currencies i := (vid_currencies i, counts_add (snd (system_view s (vid_currencies i))) c))"
  shows "refines Internal s s'"
proof -
  note put = vault_sum_put [OF registry_okD(1) [OF ok] V, where j' = i and l' = True and c' = "\<lparr>n_issued = 0, n_to_be_issued = 0, n_to_be_redeemed = n_to_be_redeemed c\<rparr>"]
  note okl = registry_okD(3) [OF ok] and cle = registry_okD(2) [OF ok V]
  have "registry_ok s'"
  proof (rule registry_okI)
    show "finite (dom (vaults_view s'))" using registry_okD(1) [OF ok] V' by simp
    show "j = k \<and> (if l then n_issued d = 0 \<and> n_to_be_issued d = 0 else n_to_be_redeemed d \<le> n_issued d)"
      if "vaults_view s' k = Some (j, l, d)" for k j l d
    proof (cases "k = i")
      case True
      then have "j = k" "l" "n_issued d = 0" "n_to_be_issued d = 0" using that unfolding V' by auto
      then show ?thesis by simp
    next
      case False
      then show ?thesis using registry_okD(2) [OF ok] that unfolding V' by simp
    qed
    show "fst (system_view s' q) = q \<and> n_to_be_redeemed (snd (system_view s' q)) = vault_sum (\<lambda>l c. if l then n_to_be_redeemed c else 0) (vaults_view s') q
        \<and> n_to_be_redeemed (snd (system_view s' q)) \<le> n_issued (snd (system_view s' q))" for q
      using okl [of q] cle put [of "\<lambda>l c. if l then n_to_be_redeemed c else 0" q] unfolding V' L' by (auto simp: counts_add_def)
  qed
  moreover have "totals s' q = totals s q" for q
    using put [of "\<lambda>l c. n_issued c" q] put [of "\<lambda>l c. n_to_be_issued c" q] put [of "\<lambda>l c. if l then 0 else n_to_be_redeemed c" q]
    unfolding totals_def V' L' view_totals_def by (auto simp: counts_add_def split: if_splits)
  then have "totals s' = totals s" by (rule ext)
  ultimately show ?thesis by (simp add: refines_def)
qed

lemma slash_for_to_be_redeemed_same:
  assumes run: "slash_for_to_be_redeemed C a v s = Inr (v', s')" and ok: "registry_ok s" and fr: "fresh s v"
  shows "same s s'" and "fresh s' v'" and "v_id v' = v_id v" and "is_liquidated v' = is_liquidated v" and "counts_of v' = counts_of v"
proof -
  obtain y s1 x where u: "increase_liquidated_collateral y v s = Inr (v', s1)"
    and x: "pm_withdraw_collateral C (v_id v') (vid_account (v_id v')) (Some y) None s1 = Inr (x, s')"
    using run by (auto simp: slash_for_to_be_redeemed_def rbind_Inr_iff)
  have us: "same s s1" "fresh s1 v'" "v_id v' = v_id v" "is_liquidated v' = is_liquidated v" "counts_of v' = counts_of v"
    by (rule update_same [OF u [unfolded increase_liquidated_collateral_def] fr]; auto simp: rbind_Inr_iff)+
  note ok1 = same_ok [OF us(1) ok]
  have "same s1 s'" by (rule keepsD [OF keeps_frame [OF frame_pool_manager(3)] x ok1])
  then show "same s s'" by (rule same_trans [OF us(1)])
  show "fresh s' v'" using frameD [OF frame_pool_manager(3) x registry_ok_lv_wf [OF ok1]] us(2) by simp
  show "v_id v' = v_id v" "is_liquidated v' = is_liquidated v" "counts_of v' = counts_of v" by (rule us(3-5))+
qed

lemma frame_slash_to_liquidation_vault: "frame (slash_to_liquidation_vault C a v)"
  unfolding slash_to_liquidation_vault_def Let_def
  by (intro frame_intros, split prod.split) (intro allI impI frame_intros)

lemma slash_to_liquidation_vault_copy: "slash_to_liquidation_vault C a v s = Inr (v', s') \<Longrightarrow> v' = v"
  by (auto simp: slash_to_liquidation_vault_def rbind_Inr_iff Let_def case_prod_beta)

lemma liquidation_vault_takes:
  assumes run: "sbind (sget (\<lambda>s. get_liquidation_vault s p)) (\<lambda>lv.
       sbind (lv_increase_issued (Amount a c) lv) (\<lambda>lv.
       sbind (lv_increase_to_be_issued (Amount b c) lv) (\<lambda>lv.
       sbind (lv_increase_to_be_redeemed (Amount d c) lv) k))) s = Inr (r, s')"
    and wf: "lv_wf s"
  obtains lv s1 where "Vaults s1 = Vaults s" and "lv_wf s1" and "k lv s1 = Inr (r, s')"
    and "system_view s1 = (system_view s)(p := (p, counts_add (snd (system_view s p)) \<lparr>n_issued = a, n_to_be_issued = b, n_to_be_redeemed = d\<rparr>))"
proof -
  let ?lv = "(get_liquidation_vault s p)"
  let ?lv' = "?lv\<lparr>lv_issued_tokens := lv_issued_tokens ?lv + a, lv_to_be_issued_tokens := lv_to_be_issued_tokens ?lv + b,
      lv_to_be_redeemed_tokens := lv_to_be_redeemed_tokens ?lv + d\<rparr>"
  let ?s1 = "s\<lparr>LiquidationVault := (LiquidationVault s)(p \<mapsto> ?lv')\<rparr>"
  have p: "lv_currency_pair ?lv = p" by (rule lv_counts [OF wf])
  have "k ?lv' ?s1 = Inr (r, s')"
    using run p by (auto simp: lv_increase_issued_def lv_increase_to_be_issued_def lv_increase_to_be_redeemed_def rbind_Inr_iff lv_update_run)
  moreover have sv: "system_view ?s1 = (system_view s)(p := (p, counts_add (snd (system_view s p)) \<lparr>n_issued = a, n_to_be_issued = b, n_to_be_redeemed = d\<rparr>))"
    using p by (simp add: system_view_put view_system_def counts_add_def system_view_def)
  moreover have "lv_wf ?s1" using wf sv by (simp add: lv_wf_view)
  ultimately show ?thesis using that [of ?s1 ?lv'] by simp
qed

lemma liquidate_view:
  assumes ok: "registry_ok s" and v0: "Vaults s i = Some v0" "\<not> is_liquidated v0" and run: "liquidate C v0 s = Inr (a, s')"
  shows "vaults_view s' = (vaults_view s)(i \<mapsto> (i, True, \<lparr>n_issued = 0, n_to_be_issued = 0, n_to_be_redeemed = to_be_redeemed_tokens v0\<rparr>))"
    and "system_view s' = (system_view s)(vid_currencies i := (vid_currencies i, counts_add (snd (system_view s (vid_currencies i))) (counts_of v0)))"
proof -
  note id0 = registry_ok_fresh [OF ok v0(1)]
  obtain x s1 v n m v2 s2 v3 s3 where w: "withdraw_replace_request C i (to_be_replaced_tokens_of v0) s = Inr (x, s1)"
    and v: "Vaults s1 i = Some v" and f: "slash_for_to_be_redeemed C n v s1 = Inr (v2, s2)" and g: "slash_to_liquidation_vault C m v2 s2 = Inr (v3, s3)"
    and rest: "sbind (sget (\<lambda>s. get_liquidation_vault s (pair_of v3))) (\<lambda>lv.
       sbind (lv_increase_issued (issued_tokens_of v3) lv) (\<lambda>lv.
       sbind (lv_increase_to_be_issued (to_be_issued_tokens_of v3) lv) (\<lambda>lv.
       sbind (lv_increase_to_be_redeemed (to_be_redeemed_tokens_of v3) lv) (\<lambda>_.
       sbind (ext_reward_set_stake C i (am_zero (wrapped_currency i))) (\<lambda>_.
       sbind (update (\<lambda>v. Inr (v\<lparr>v_status := Liquidated, to_be_issued_tokens := 0, issued_tokens := 0\<rparr>)) v3) (\<lambda>_. sret m)))))) s3 = Inr (a, s')"
    using run unfolding liquidate_def Let_def id0 by (auto simp: rbind_Inr_iff get_vault_Inr)
  have sm1: "same s s1" by (rule keepsD [OF keeps_withdraw_replace w ok])
  note ok1 = same_ok [OF sm1 ok]
  note id = registry_ok_fresh [OF ok1 v]
  have "view_vault v = view_vault v0" using sm1 v v0(1) by (auto simp: same_def vaults_view_def fun_eq_iff dest: spec [of _ i])
  then have act: "counts_of v = counts_of v0" by (simp add: view_vault_counts)
  have fr: "fresh s1 v" using v id by simp
  note f = slash_for_to_be_redeemed_same [OF f ok1 fr]
  note ok2 = same_ok [OF f(1) ok1] and v3 = slash_to_liquidation_vault_copy [OF g]
  note g' = frameD [OF frame_slash_to_liquidation_vault g registry_ok_lv_wf [OF ok2]]
  have sm3: "same s2 s3" by (rule keepsD [OF keeps_frame [OF frame_slash_to_liquidation_vault] g ok2])
  note ok3 = same_ok [OF sm3 ok2]
  have fr3: "fresh s3 v3" "counts_of v3 = counts_of v0" "v_id v3 = i" using g' f act id by (simp_all add: v3)
  obtain s4 where s4: "Vaults s4 = Vaults s3" "lv_wf s4"
    and L4: "system_view s4 = (system_view s3)(pair_of v3 := (pair_of v3, counts_add (snd (system_view s3 (pair_of v3))) (counts_of v3)))"
    and k: "sbind (ext_reward_set_stake C i (am_zero (wrapped_currency i))) (\<lambda>_.
       sbind (update (\<lambda>v. Inr (v\<lparr>v_status := Liquidated, to_be_issued_tokens := 0, issued_tokens := 0\<rparr>)) v3) (\<lambda>_. sret m)) s4 = Inr (a, s')"
    using rest unfolding issued_tokens_of_def to_be_issued_tokens_of_def to_be_redeemed_tokens_of_def counts_of_def
    by (rule liquidation_vault_takes [OF _ registry_ok_lv_wf [OF ok3]])
  let ?v = "v3\<lparr>v_status := Liquidated, to_be_issued_tokens := 0, issued_tokens := 0\<rparr>"
  obtain s5 where r: "ext_reward_set_stake C i (am_zero (wrapped_currency i)) s4 = Inr ((), s5)" and s': "s' = s5\<lparr>Vaults := (Vaults s5)(i \<mapsto> ?v)\<rparr>"
    using k fr3(3) by (auto simp: rbind_Inr_iff update_run)
  note r' = frameD [OF frame_pool_manager(7) r s4(2)]
  have "same s s3" by (rule same_trans [OF sm1 same_trans [OF f(1) sm3]])
  then have sm: "vaults_view s3 = vaults_view s" "system_view s3 = system_view s" by (simp_all add: same_def)
  have "vaults_view s' = (vaults_view s3)(i \<mapsto> view_vault ?v)" using s4(1) r' by (auto simp: s' vaults_view_def)
  moreover have "view_vault ?v = (i, True, \<lparr>n_issued = 0, n_to_be_issued = 0, n_to_be_redeemed = to_be_redeemed_tokens v0\<rparr>)"
    using fr3(2,3) by (simp add: view_vault_def is_liquidated_def counts_of_def)
  ultimately show "vaults_view s' = (vaults_view s)(i \<mapsto> (i, True, \<lparr>n_issued = 0, n_to_be_issued = 0, n_to_be_redeemed = to_be_redeemed_tokens v0\<rparr>))"
    by (simp add: sm)
  show "system_view s' = (system_view s)(vid_currencies i := (vid_currencies i, counts_add (snd (system_view s (vid_currencies i))) (counts_of v0)))"
    using r' L4 fr3(2,3) by (simp add: s' sm)
qed

lemma liquidate_refines:
  assumes ok: "registry_ok s" and v0: "Vaults s i = Some v0" "\<not> is_liquidated v0" and run: "liquidate C v0 s = Inr (a, s')"
  shows "refines Internal s s'"
proof (rule liquidated_view [OF ok])
  note lv = liquidate_view [OF ok v0 run]
  show "vaults_view s i = Some (i, False, counts_of v0)" using v0 registry_ok_fresh [OF ok v0(1)] by (simp add: vaults_view_def view_vault_counts)
  show "vaults_view s' = (vaults_view s)(i \<mapsto> (i, True, \<lparr>n_issued = 0, n_to_be_issued = 0, n_to_be_redeemed = n_to_be_redeemed (counts_of v0)\<rparr>))"
    using lv(1) by (simp add: counts_of_def)
  show "system_view s' = (system_view s)(vid_currencies i := (vid_currencies i, counts_add (snd (system_view s (vid_currencies i))) (counts_of v0)))"
    by (rule lv(2))
qed

lemma liquidate_vault_refines:
  assumes ok: "registry_ok s" and run: "liquidate_vault C i s = Inr (a, s')"
  shows "refines Internal s s'"
proof -
  obtain v s1 e where v: "Vaults s i = Some v" "\<not> is_liquidated v" and l: "liquidate C v s = Inr (a, s1)" and e: "emit e s1 = Inr ((), s')"
    using run by (auto simp: liquidate_vault_def rbind_Inr_iff get_active_Inr)
  show ?thesis by (rule refines_after [OF liquidate_refines [OF ok v l] emit_same [OF e]])
qed

lemma report_refines:
  assumes ok: "registry_ok s" and run: "report_undercollateralized_vault C i s = Inr (u, s')"
  shows "refines Internal s s'"
proof -
  obtain a where "liquidate_vault C i s = Inr (a, s')"
    using run by (auto simp: report_undercollateralized_vault_def rbind_Inr_iff split: if_splits)
  then show ?thesis by (rule liquidate_vault_refines [OF ok])
qed

subsection \<open>Registration and recovery\<close>

lemma new_view:
  assumes ok: "registry_ok s" and V: "vaults_view s i = None"
    and V': "vaults_view s' = (vaults_view s)(i \<mapsto> (i, False, \<lparr>n_issued = 0, n_to_be_issued = 0, n_to_be_redeemed = 0\<rparr>))" and L': "system_view s' = system_view s"
  shows "refines Internal s s'"
proof -
  note sum = vault_sum_new [OF registry_okD(1) [OF ok] V]
  have "registry_ok s'"
  proof (rule registry_okI)
    show "finite (dom (vaults_view s'))" using registry_okD(1) [OF ok] V' by simp
    show "j = k \<and> (if l then n_issued d = 0 \<and> n_to_be_issued d = 0 else n_to_be_redeemed d \<le> n_issued d)"
      if "vaults_view s' k = Some (j, l, d)" for k j l d
      using registry_okD(2) [OF ok] that unfolding V' by (cases "k = i") auto
    show "fst (system_view s' q) = q \<and> n_to_be_redeemed (snd (system_view s' q)) = vault_sum (\<lambda>l c. if l then n_to_be_redeemed c else 0) (vaults_view s') q
        \<and> n_to_be_redeemed (snd (system_view s' q)) \<le> n_issued (snd (system_view s' q))" for q
      using registry_okD(3) [OF ok, of q] unfolding V' L' by (simp add: sum)
  qed
  moreover have "totals s' = totals s" by (rule ext) (simp add: totals_def V' L' view_totals_def sum)
  ultimately show ?thesis by (simp add: refines_def)
qed

lemma register_refines:
  assumes ok: "registry_ok s" and run: "register_vault C og p n s = Inr (u, s')"
  shows "refines Internal s s'"
proof -
  obtain i s1 e where new: "Vaults s i = None"
    and d: "try_deposit_collateral C i (Amount n (collateral_currency i)) (s\<lparr>Vaults := (Vaults s)(i \<mapsto> vault_new i)\<rparr>) = Inr ((), s1)"
    and e: "emit e s1 = Inr ((), s')"
    using run by (auto simp: register_vault_def register_vault_inner_def rbind_Inr_iff Let_def insert_vault_def vault_exists_def split: if_splits)
  let ?s = "s\<lparr>Vaults := (Vaults s)(i \<mapsto> vault_new i)\<rparr>"
  have r: "refines Internal s ?s"
    by (rule new_view [OF ok, of i]) (auto simp: vaults_view_def new view_vault_def vault_new_def is_liquidated_def)
  then have "same ?s s1" by (intro keepsD [OF keeps_frame [OF frame_nomination(2)] d]) (simp add: refines_def)
  then show ?thesis using same_trans [OF _ emit_same [OF e]] by (intro refines_after [OF r]) blast
qed

lemma recover_refines:
  assumes ok: "registry_ok s" and run: "recover_vault_id og p s = Inr (u, s')"
  shows "refines Internal s s'"
proof -
  obtain i v where v: "Vaults s i = Some v" "is_liquidated v" "to_be_redeemed_tokens v = 0"
    and s': "s' = s\<lparr>Vaults := (Vaults s)(v_id v \<mapsto> v\<lparr>v_status := Active True\<rparr>)\<rparr>"
    using run by (auto simp: recover_vault_id_def rbind_Inr_iff get_vault_Inr is_vault_liquidated_def am_is_zero_def to_be_redeemed_tokens_of_def
        set_accept_new_issues_def update_run split: if_splits)
  note id = registry_ok_fresh [OF ok v(1)]
  have V: "vaults_view s i = Some (i, True, counts_of v)" using v id by (simp add: vaults_view_def view_vault_counts)
  have V': "vaults_view s' = (vaults_view s)(i \<mapsto> (i, False, counts_of v))"
    using id by (auto simp: s' vaults_view_def view_vault_def counts_of_def is_liquidated_def)
  have L': "system_view s' = system_view s" by (simp add: s')
  note put = vault_sum_put [OF registry_okD(1) [OF ok] V, where j' = i and l' = False and c' = "counts_of v"]
  have z: "n_to_be_redeemed (counts_of v) = 0" using v(3) by (simp add: counts_of_def)
  have "registry_ok s'"
  proof (rule registry_okI)
    show "finite (dom (vaults_view s'))" using registry_okD(1) [OF ok] V' by simp
    show "j = k \<and> (if l then n_issued d = 0 \<and> n_to_be_issued d = 0 else n_to_be_redeemed d \<le> n_issued d)"
      if "vaults_view s' k = Some (j, l, d)" for k j l d
      using registry_okD(2) [OF ok] that z unfolding V' by (cases "k = i") auto
    show "fst (system_view s' q) = q \<and> n_to_be_redeemed (snd (system_view s' q)) = vault_sum (\<lambda>l c. if l then n_to_be_redeemed c else 0) (vaults_view s') q
        \<and> n_to_be_redeemed (snd (system_view s' q)) \<le> n_issued (snd (system_view s' q))" for q
      using registry_okD(3) [OF ok, of q] put [of "\<lambda>l c. if l then n_to_be_redeemed c else 0" q] z unfolding V' L' by (auto split: if_splits)
  qed
  moreover have "totals s' q = totals s q" for q
    using put [of "\<lambda>l c. n_issued c" q] put [of "\<lambda>l c. n_to_be_issued c" q] put [of "\<lambda>l c. if l then 0 else n_to_be_redeemed c" q] z
    unfolding totals_def V' L' view_totals_def by (auto split: if_splits)
  then have "totals s' = totals s" by (rule ext)
  ultimately show ?thesis by (simp add: refines_def)
qed

subsection \<open>Every step\<close>

lemma exchange_rate_refines: "registry_ok s \<Longrightarrow> refines Internal s (on_exchange_rate_change C c s)"
proof -
  assume ok: "registry_ok s"
  have "same s (on_exchange_rate_change C c s)"
    using keepsD [OF keeps_frame [OF frame_pool_manager(8)] _ ok] by (auto simp: on_exchange_rate_change_def split: sum.splits)
  then show ?thesis using same_ok [OF _ ok] same_totals by (fastforce simp: refines_def)
qed

lemma step_refines: "vault_step C op s s' \<Longrightarrow> registry_ok s \<Longrightarrow> refines op s s'"
  by (induction rule: vault_step.induct)
    (blast intro: request_issue_refines cancel_issue_refines issue_refines request_redeem_refines cancel_redeem_refines decrease_tokens_refines
      redeem_tokens_refines redeem_liquidation_refines replace_refines cancel_replace_refines liquidate_vault_refines report_refines register_refines
      recover_refines exchange_rate_refines refines_internal keeps_transfer keeps_internal keeps_withdraw_replace keeps_register_address keeps_settings frame_nomination(7) [THEN keeps_frame])+

end
