(* ===== verification/Vault_Properties.thy ===== *)
theory Vault_Properties
  imports Vault_Liquidation
begin

text \<open>
  The properties of the vault registry: runs from an empty registry refine the bookkeeping of totals and keep
  the invariant of the token counts, a liquidation moves exactly the counts of the vault, shares of
  collateral are floors within the collateral, and an issue request fits the free collateral.
\<close>

subsection \<open>Runs\<close>

inductive vault_run :: "('a, 'c, 'x) vault_config \<Rightarrow> 'c token_op list \<Rightarrow> ('a, 'c, 'x) registry \<Rightarrow> ('a, 'c, 'x) registry \<Rightarrow> bool" for C where
  run_nil: "vault_run C [] s s"
| run_step: "vault_step C op s s1 \<Longrightarrow> vault_run C ops s1 s' \<Longrightarrow> vault_run C (op # ops) s s'"

fun spec_run :: "'c token_op list \<Rightarrow> ('c vault_currency_pair \<Rightarrow> counts) \<Rightarrow> ('c vault_currency_pair \<Rightarrow> counts) option" where
  "spec_run [] T = Some T"
| "spec_run (op # ops) T = Option.bind (spec_step op T) (spec_run ops)"

definition empty_registry :: "('a, 'c, 'x) registry \<Rightarrow> bool" where
  "empty_registry s \<longleftrightarrow> Vaults s = Map.empty \<and> LiquidationVault s = Map.empty"

abbreviation no_tokens :: counts where
  "no_tokens \<equiv> \<lparr>n_issued = 0, n_to_be_issued = 0, n_to_be_redeemed = 0\<rparr>"

lemma empty_registry_ok: "empty_registry s \<Longrightarrow> registry_ok s" and empty_registry_totals: "empty_registry s \<Longrightarrow> totals s = (\<lambda>p. no_tokens)"
proof -
  assume e: "empty_registry s"
  then have V: "vaults_view s = Map.empty" "system_view s = (\<lambda>p. (p, no_tokens))"
    by (auto simp: empty_registry_def vaults_view_def system_view_def get_liquidation_vault_def view_system_def)
  show "registry_ok s" by (simp add: registry_ok_def view_ok_def V vault_sum_def)
  show "totals s = (\<lambda>p. no_tokens)" by (rule ext) (simp add: totals_def V view_totals_def vault_sum_def)
qed

lemma run_refines: "vault_run C ops s s' \<Longrightarrow> registry_ok s \<Longrightarrow> registry_ok s' \<and> spec_run ops (totals s) = Some (totals s')"
  by (induction rule: vault_run.induct) (auto simp: refines_def dest!: step_refines)

text \<open>
  C29: refinement. After any run of the registry from an empty one, the totals of issued tokens, tokens to be
  issued and tokens to be redeemed of every currency pair are what the abstract machine computes from
  the sequence of requests alone; in particular the abstract machine never gets stuck, so no
  operation takes a total below zero, and liquidations, recoveries and movements of collateral do not
  show in the totals.
\<close>

theorem vault_registry_refines_totals:
  assumes "empty_registry s" and "vault_run C ops s s'"
  shows "spec_run ops (\<lambda>p. no_tokens) = Some (totals s')"
  using run_refines [OF assms(2) empty_registry_ok [OF assms(1)]] by (simp add: empty_registry_totals [OF assms(1)])

lemma liquidated_sum:
  "vault_sum (\<lambda>l c. if l then n_to_be_redeemed c else 0) (vaults_view s) p
     = (\<Sum>i | i \<in> dom (Vaults s) \<and> vid_currencies i = p. case Vaults s i of Some v \<Rightarrow> if is_liquidated v then to_be_redeemed_tokens v else 0 | None \<Rightarrow> 0)"
  unfolding vault_sum_def by (rule sum.cong) (auto simp: vaults_view_def view_vault_def dom_def)

text \<open>
  C30: invariant. After any run from an empty registry, every vault is stored under its own identifier, an
  active vault has at least as many tokens issued as it has to redeem, a liquidated vault has no issued tokens
  and none to be issued, and each liquidation vault records as tokens to be redeemed exactly the sum
  over the liquidated vaults of its currency pair, and at least as many issued tokens.
\<close>

theorem vault_tokens_invariant:
  assumes "empty_registry s" and "vault_run C ops s s'"
  shows "(Vaults s' i = Some v \<longrightarrow> v_id v = i
      \<and> (if is_liquidated v then issued_tokens v = 0 \<and> to_be_issued_tokens v = 0 else to_be_redeemed_tokens v \<le> issued_tokens v))
    \<and> lv_to_be_redeemed_tokens (get_liquidation_vault s' p)
      = (\<Sum>i | i \<in> dom (Vaults s') \<and> vid_currencies i = p. case Vaults s' i of Some v \<Rightarrow> if is_liquidated v then to_be_redeemed_tokens v else 0 | None \<Rightarrow> 0)
    \<and> lv_to_be_redeemed_tokens (get_liquidation_vault s' p) \<le> lv_issued_tokens (get_liquidation_vault s' p)"
proof -
  have ok: "registry_ok s'" using run_refines [OF assms(2) empty_registry_ok [OF assms(1)]] by simp
  show ?thesis
    using registry_okD(2) [OF ok, of i "fst (view_vault v)" "fst (snd (view_vault v))" "snd (snd (view_vault v))"] registry_okD(3) [OF ok, of p]
    by (auto simp: liquidated_sum vaults_view_def view_vault_def system_view_def view_system_def split: if_splits)
qed

subsection \<open>Liquidation\<close>

text \<open>
  a successful liquidation leaves the vault liquidated, without issued tokens and tokens to be issued and
  with its tokens to be redeemed unchanged, and adds all three counts to the liquidation vault of its
  currency pair. The counts and the status of every other vault and every other liquidation vault stay.
\<close>

theorem liquidation_moves_tokens:
  assumes "registry_ok s" and "liquidate_vault C i s = Inr (a, s')" and "Vaults s i = Some v" and "p = vid_currencies i"
  shows "(\<exists>v'. Vaults s' i = Some v' \<and> is_liquidated v' \<and> issued_tokens v' = 0 \<and> to_be_issued_tokens v' = 0
        \<and> to_be_redeemed_tokens v' = to_be_redeemed_tokens v)
    \<and> lv_issued_tokens (get_liquidation_vault s' p) = lv_issued_tokens (get_liquidation_vault s p) + issued_tokens v
    \<and> lv_to_be_issued_tokens (get_liquidation_vault s' p) = lv_to_be_issued_tokens (get_liquidation_vault s p) + to_be_issued_tokens v
    \<and> lv_to_be_redeemed_tokens (get_liquidation_vault s' p) = lv_to_be_redeemed_tokens (get_liquidation_vault s p) + to_be_redeemed_tokens v
    \<and> (\<forall>j. j \<noteq> i \<longrightarrow> map_option view_vault (Vaults s' j) = map_option view_vault (Vaults s j))
    \<and> (\<forall>q. q \<noteq> p \<longrightarrow> view_system (get_liquidation_vault s' q) = view_system (get_liquidation_vault s q))"
proof -
  obtain s1 e where act: "\<not> is_liquidated v" and l: "liquidate C v s = Inr (a, s1)" and e: "emit e s1 = Inr ((), s')"
    using assms(2,3) by (auto simp: liquidate_vault_def rbind_Inr_iff get_active_Inr)
  have s': "vaults_view s' = vaults_view s1" "system_view s' = system_view s1" using emit_same [OF e] by (simp_all add: same_def)
  note lv = liquidate_view [OF assms(1,3) act l, folded s']
  have "Vaults s' i = Some v' \<Longrightarrow> is_liquidated v' \<and> issued_tokens v' = 0 \<and> to_be_issued_tokens v' = 0 \<and> to_be_redeemed_tokens v' = to_be_redeemed_tokens v" for v'
    using fun_cong [OF lv(1), of i] by (simp add: vaults_view_def view_vault_def)
  moreover have "Vaults s' i \<noteq> None" using fun_cong [OF lv(1), of i] by (auto simp: vaults_view_def)
  moreover have "j \<noteq> i \<Longrightarrow> map_option view_vault (Vaults s' j) = map_option view_vault (Vaults s j)" for j
    using fun_cong [OF lv(1), of j] by (simp add: vaults_view_def)
  moreover have "q \<noteq> p \<Longrightarrow> view_system (get_liquidation_vault s' q) = view_system (get_liquidation_vault s q)" for q
    using fun_cong [OF lv(2), of q] assms(4) by (simp add: system_view_def)
  moreover have "view_system (get_liquidation_vault s' p) = (p, counts_add (snd (view_system (get_liquidation_vault s p))) (counts_of v))"
    using fun_cong [OF lv(2), of p] assms(4) by (simp add: system_view_def)
  ultimately show ?thesis by (auto simp: view_system_def counts_add_def counts_of_def)
qed

subsection \<open>Shares of collateral\<close>

text \<open>
  the share of 128-bit collateral that belongs to a part of the tokens is computed without an error when the
  part is at most the whole; it is the floor of the proportional share, all of the collateral when there are
  no tokens, never more than the collateral, and two disjoint parts never get more than the whole.
\<close>

theorem collateral_share:
  assumes "amt collateral < 2 ^ 128" and "amt tokens \<le> amt whole" and "amt whole < 2 ^ 128"
  shows "\<exists>n. calculate_collateral collateral tokens whole = Inr (Amount n (cur collateral)) \<and> n \<le> amt collateral
    \<and> n = (if amt whole = 0 then amt collateral else amt collateral * amt tokens div amt whole)
    \<and> (\<forall>m. amt rest + amt tokens \<le> amt whole \<longrightarrow> 0 < amt whole \<longrightarrow> calculate_collateral collateral rest whole = Inr m \<longrightarrow> amt m + n \<le> amt collateral)"
proof (cases "amt whole = 0")
  case True
  then show ?thesis using assms by (simp add: calculate_collateral_def am_is_zero_def)
next
  case False
  let ?c = "amt collateral" and ?t = "amt tokens" and ?w = "amt whole" and ?r = "amt rest"
  have share: "?c * k div ?w \<le> ?c" if "k \<le> ?w" for k
  proof -
    have "?c * k div ?w \<le> ?c * ?w div ?w" by (intro div_le_mono mult_le_mono2 that)
    then show ?thesis using False by simp
  qed
  have "?c * ?t < 2 ^ 256"
  proof -
    have "?c * ?t \<le> ?c * 2 ^ 128" using assms by (intro mult_le_mono2) linarith
    also have "\<dots> < 2 ^ 128 * 2 ^ 128" using assms(1) by simp
    finally show ?thesis by simp
  qed
  then have run: "calculate_collateral collateral tokens whole = Inr (Amount (?c * ?t div ?w) (cur collateral))"
    using False share [OF assms(2)] assms(1) by (simp add: calculate_collateral_def am_is_zero_def checked_mul_w_def checked_div_def)
  have "amt m + ?c * ?t div ?w \<le> ?c" if "?r + ?t \<le> ?w" and "calculate_collateral collateral rest whole = Inr m" for m
  proof -
    have "m = Amount (?c * ?r div ?w) (cur collateral)"
      using that(2) False by (auto simp: calculate_collateral_def am_is_zero_def rbind_Inr_iff split: if_splits)
    moreover have "?c * ?r div ?w + ?c * ?t div ?w \<le> (?c * ?r + ?c * ?t) div ?w"
      using False by (simp add: less_eq_div_iff_mult_less_eq algebra_simps) (metis add_mono mult.commute times_div_less_eq_dividend)
    moreover have "(?c * ?r + ?c * ?t) div ?w \<le> ?c" using share [OF that(1)] by (simp add: algebra_simps)
    ultimately show ?thesis by simp
  qed
  then show ?thesis using run share [OF assms(2)] False by auto
qed

subsection \<open>Issue requests\<close>

text \<open>
  a request to issue a positive amount succeeds only for an active vault that is not banned, and only if the
  amount times the secure threshold of the vault is covered by the free collateral of the vault, converted to the
  wrapped currency at the current rate.
\<close>

theorem issue_request_is_covered:
  assumes "ufixed_laws (cfg_ufixed C)" and "try_increase_to_be_issued_tokens C i tokens s = Inr (u, s')" and "0 < amt tokens"
  shows "\<exists>v t free wrapped. Vaults s i = Some v \<and> \<not> is_liquidated v \<and> \<not> is_banned C s v
    \<and> get_secure_threshold s v = Inr t \<and> get_free_collateral C s v = Inr free
    \<and> cfg_convert C (world s) free (wrapped_currency (v_id v)) = Inr wrapped
    \<and> amt tokens * t \<le> amt wrapped * uf_DIV (cfg_ufixed C)"
proof -
  obtain v x where v: "Vaults s i = Some v" "\<not> is_liquidated v" and x: "issuable_tokens C s v = Inr x" "amt tokens \<le> amt x"
    using assms(2) by (auto simp: try_increase_to_be_issued_tokens_def rbind_Inr_iff get_active_Inr split: if_splits)
  then have nb: "\<not> is_banned C s v" using assms(3) by (auto simp: issuable_tokens_def)
  then obtain free t w where d: "get_free_collateral C s v = Inr free" "get_secure_threshold s v = Inr t"
    "cfg_convert C (world s) free (wrapped_currency (v_id v)) = Inr w" "am_checked_div (cfg_ufixed C) w t = Inr x"
    using x(1) by (auto simp: issuable_tokens_def calculate_max_wrapped_from_collateral_for_threshold_def rbind_Inr_iff)
  have "amt tokens \<le> amt w * uf_DIV (cfg_ufixed C) div t" using am_checked_div_Inr [OF assms(1) d(4)] x(2) by simp
  then have "amt tokens * t \<le> amt w * uf_DIV (cfg_ufixed C)"
    using am_checked_div_Inr(1) [OF assms(1) d(4)] by (simp add: less_eq_div_iff_mult_less_eq)
  then show ?thesis using v nb d by blast
qed

end
