(* ===== verification/Fee.thy ===== *)
theory Fee
  imports Currency
begin

text \<open>
  The fee pallet (\<^verbatim>\<open>src/crates/fee/src/lib.rs\<close>): the rates of fees and griefing collateral, the fees they give,
  and the path of a reward from the capacity pool over the pool of the collateral currency and the vault to
  its nominators. The three reward pools, the token ledger and the nomination pallet are fields of the
  configuration, as in the \<^verbatim>\<open>Config\<close> trait; they act on a state of any type, of which the storage of this pallet is
  a part (\<open>fc_store\<close>, \<open>fc_put_store\<close>).
\<close>

subsection \<open>Storage and parameters\<close>

record ('a, 'c) fee_store =
  IssueFee :: ufixed
  IssueGriefingCollateral :: ufixed
  RedeemFee :: ufixed
  PremiumRedeemFee :: ufixed
  PunishmentFee :: ufixed
  ReplaceGriefingCollateral :: ufixed
  Commission :: "('a, 'c) vault_id \<Rightarrow> ufixed option"

record ('a, 'c, 'x) fee_config =
  fc_tokens :: "('a, 'c, 'x) tokens"
  fc_ufixed :: ufixed_ops
  fc_store :: "'x \<Rightarrow> ('a, 'c) fee_store"
  fc_put_store :: "('a, 'c) fee_store \<Rightarrow> 'x \<Rightarrow> 'x"
  fc_pool_account :: 'a
  fc_treasury :: 'a
  fc_native_currency :: 'c
  fc_max_expected_value :: ufixed
  fc_capacity_distribute :: "'c \<Rightarrow> nat \<Rightarrow> ('x, dispatch_error, unit) action"
  fc_capacity_withdraw :: "'c \<Rightarrow> 'c \<Rightarrow> ('x, dispatch_error, nat) action"
  fc_vault_distribute :: "'c \<Rightarrow> 'c \<Rightarrow> nat \<Rightarrow> ('x, dispatch_error, unit) action"
  fc_vault_withdraw :: "'c \<Rightarrow> ('a, 'c) vault_id \<Rightarrow> 'c \<Rightarrow> ('x, dispatch_error, nat) action"
  fc_staking_distribute :: "('a, 'c) vault_id \<Rightarrow> 'c \<Rightarrow> nat \<Rightarrow> ('x, dispatch_error, unit) action"
  fc_staking_withdraw :: "nat option \<times> ('a, 'c) vault_id \<Rightarrow> 'a \<Rightarrow> 'c \<Rightarrow> ('x, dispatch_error, nat) action"
  fc_ensure_opted_in :: "'x \<Rightarrow> ('a, 'c) vault_id \<Rightarrow> unit dispatch"

type_synonym ('x, 'r) fee_action = "('x, dispatch_error, 'r) action"

abbreviation fee_modify :: "('a, 'c, 'x) fee_config \<Rightarrow> (('a, 'c) fee_store \<Rightarrow> ('a, 'c) fee_store) \<Rightarrow> ('x, unit) fee_action" where
  "fee_modify C f \<equiv> smod (\<lambda>x. fc_put_store C (f (fc_store C x)) x)"

subsection \<open>Fees\<close>

definition get_issue_fee :: "ufixed_ops \<Rightarrow> ('a, 'c) fee_store \<Rightarrow> 'c amount \<Rightarrow> 'c amount dispatch" where
  "get_issue_fee U F amount = am_checked_rounded_mul U amount (IssueFee F) NearestPrefUp"

definition get_issue_griefing_collateral :: "ufixed_ops \<Rightarrow> ('a, 'c) fee_store \<Rightarrow> 'c amount \<Rightarrow> 'c amount dispatch" where
  "get_issue_griefing_collateral U F amount = am_checked_rounded_mul U amount (IssueGriefingCollateral F) NearestPrefUp"

definition get_redeem_fee :: "ufixed_ops \<Rightarrow> ('a, 'c) fee_store \<Rightarrow> 'c amount \<Rightarrow> 'c amount dispatch" where
  "get_redeem_fee U F amount = am_checked_rounded_mul U amount (RedeemFee F) NearestPrefUp"

definition get_premium_redeem_fee :: "ufixed_ops \<Rightarrow> ('a, 'c) fee_store \<Rightarrow> 'c amount \<Rightarrow> 'c amount dispatch" where
  "get_premium_redeem_fee U F amount = am_checked_rounded_mul U amount (PremiumRedeemFee F) Down"

definition premium_redeem_reward_rate :: "('a, 'c) fee_store \<Rightarrow> ufixed" where
  "premium_redeem_reward_rate F = PremiumRedeemFee F"

definition get_redeem_fee_value :: "('a, 'c) fee_store \<Rightarrow> ufixed" where
  "get_redeem_fee_value F = RedeemFee F"

definition get_punishment_fee :: "ufixed_ops \<Rightarrow> ('a, 'c) fee_store \<Rightarrow> 'c amount \<Rightarrow> 'c amount dispatch" where
  "get_punishment_fee U F amount = am_checked_rounded_mul U amount (PunishmentFee F) NearestPrefUp"

definition get_replace_griefing_collateral :: "ufixed_ops \<Rightarrow> ('a, 'c) fee_store \<Rightarrow> 'c amount \<Rightarrow> 'c amount dispatch" where
  "get_replace_griefing_collateral U F amount = am_checked_rounded_mul U amount (ReplaceGriefingCollateral F) NearestPrefUp"

definition get_commission_rate :: "('a, 'c) fee_store \<Rightarrow> ('a, 'c) vault_id \<Rightarrow> ufixed" where
  "get_commission_rate F vault_id = (case Commission F vault_id of Some r \<Rightarrow> r | None \<Rightarrow> 0)"

subsection \<open>Rewards\<close>

text \<open>The error of a distribution is dropped; a call that fails is taken to leave the storage unchanged.\<close>

definition distribute :: "('a, 'c, 'x) fee_config \<Rightarrow> 'c amount \<Rightarrow> ('x, 'c amount) fee_action" where
  "distribute C reward = (\<lambda>x. case fc_capacity_distribute C (cur reward) (amt reward) x of
      Inl _ \<Rightarrow> Inr (reward, x)
    | Inr (_, x') \<Rightarrow> Inr (am_zero (cur reward), x'))"

definition distribute_rewards :: "('a, 'c, 'x) fee_config \<Rightarrow> 'c amount \<Rightarrow> ('x, unit) fee_action" where
  "distribute_rewards C amount =
     sbind (distribute C amount) (\<lambda>remaining.
     if \<not> am_is_zero remaining then on_sweep (fc_tokens C) (fc_treasury C) (fc_pool_account C) remaining else sret ())"

definition distribute_vault_rewards :: "('a, 'c, 'x) fee_config \<Rightarrow> ('a, 'c) vault_id \<Rightarrow> 'c \<Rightarrow> ('x, unit) fee_action" where
  "distribute_vault_rewards C vault_id currency_id =
     (let collateral_id = collateral_currency vault_id in
     sbind (fc_capacity_withdraw C collateral_id currency_id) (\<lambda>reward.
     sbind (fc_vault_distribute C collateral_id currency_id reward) (\<lambda>_.
     sbind (fc_vault_withdraw C collateral_id vault_id currency_id) (\<lambda>reward.
     sbind (sget (\<lambda>x. get_commission_rate (fc_store C x) vault_id)) (\<lambda>commission_rate.
     (let full_amount = Amount reward currency_id in
     sbind (slift (\<lambda>_. am_checked_mul (fc_ufixed C) full_amount commission_rate)) (\<lambda>commission.
     sbind (am_transfer (fc_tokens C) commission (fc_pool_account C) (vid_account vault_id)) (\<lambda>_.
     sbind (slift (\<lambda>_. am_checked_sub full_amount commission)) (\<lambda>remainder.
     fc_staking_distribute C vault_id currency_id (amt remainder))))))))))"

definition distribute_all_vault_rewards :: "('a, 'c, 'x) fee_config \<Rightarrow> ('a, 'c) vault_id \<Rightarrow> ('x, unit) fee_action" where
  "distribute_all_vault_rewards C vault_id =
     sbind (distribute_vault_rewards C vault_id (wrapped_currency vault_id)) (\<lambda>_.
     distribute_vault_rewards C vault_id (fc_native_currency C))"

definition withdraw_vault_rewards ::
  "('a, 'c, 'x) fee_config \<Rightarrow> ('a, 'c) vault_id \<Rightarrow> 'a \<Rightarrow> nat option \<Rightarrow> 'c \<Rightarrow> ('x, nat) fee_action" where
  "withdraw_vault_rewards C vault_id nominator_id index currency_id =
     sbind (distribute_vault_rewards C vault_id currency_id) (\<lambda>_.
     sbind (fc_staking_withdraw C (index, vault_id) nominator_id currency_id) (\<lambda>rewards.
     sbind (am_transfer (fc_tokens C) (Amount rewards currency_id) (fc_pool_account C) nominator_id) (\<lambda>_.
     sret rewards)))"

text \<open>The computation runs the withdrawal and rolls it back.\<close>

definition compute_vault_rewards :: "('a, 'c, 'x) fee_config \<Rightarrow> 'x \<Rightarrow> ('a, 'c) vault_id \<Rightarrow> 'a \<Rightarrow> 'c \<Rightarrow> 'c amount dispatch" where
  "compute_vault_rewards C x vault_id nominator_id currency_id =
     (let balance_before = get_free_balance (fc_tokens C) x currency_id nominator_id in
     rbind (withdraw_vault_rewards C vault_id nominator_id None currency_id x) (\<lambda>(_, x').
     am_saturating_sub (get_free_balance (fc_tokens C) x' currency_id nominator_id) balance_before))"

subsection \<open>Dispatchables\<close>

definition withdraw_rewards :: "('a, 'c, 'x) fee_config \<Rightarrow> 'a origin \<Rightarrow> ('a, 'c) vault_id \<Rightarrow> nat option \<Rightarrow> ('x, unit) fee_action" where
  "withdraw_rewards C origin vault_id index =
     sbind (slift (\<lambda>_. ensure_signed origin)) (\<lambda>nominator_id.
     sbind (withdraw_vault_rewards C vault_id nominator_id index (wrapped_currency vault_id)) (\<lambda>_.
     sbind (withdraw_vault_rewards C vault_id nominator_id index (fc_native_currency C)) (\<lambda>_. sret ())))"

definition set_issue_fee :: "('a, 'c, 'x) fee_config \<Rightarrow> 'a origin \<Rightarrow> ufixed \<Rightarrow> ('x, unit) fee_action" where
  "set_issue_fee C origin fee =
     sbind (slift (\<lambda>_. ensure_root origin)) (\<lambda>_.
     sbind (sensure (\<lambda>_. fee \<le> fc_max_expected_value C) (FeeError AboveMaxExpectedValue)) (\<lambda>_.
     fee_modify C (\<lambda>F. F\<lparr>IssueFee := fee\<rparr>)))"

definition set_issue_griefing_collateral :: "('a, 'c, 'x) fee_config \<Rightarrow> 'a origin \<Rightarrow> ufixed \<Rightarrow> ('x, unit) fee_action" where
  "set_issue_griefing_collateral C origin griefing_collateral =
     sbind (slift (\<lambda>_. ensure_root origin)) (\<lambda>_.
     sbind (sensure (\<lambda>_. griefing_collateral \<le> fc_max_expected_value C) (FeeError AboveMaxExpectedValue)) (\<lambda>_.
     fee_modify C (\<lambda>F. F\<lparr>IssueGriefingCollateral := griefing_collateral\<rparr>)))"

definition set_redeem_fee :: "('a, 'c, 'x) fee_config \<Rightarrow> 'a origin \<Rightarrow> ufixed \<Rightarrow> ('x, unit) fee_action" where
  "set_redeem_fee C origin fee =
     sbind (slift (\<lambda>_. ensure_root origin)) (\<lambda>_.
     sbind (sensure (\<lambda>_. fee \<le> fc_max_expected_value C) (FeeError AboveMaxExpectedValue)) (\<lambda>_.
     fee_modify C (\<lambda>F. F\<lparr>RedeemFee := fee\<rparr>)))"

definition set_premium_redeem_fee :: "('a, 'c, 'x) fee_config \<Rightarrow> 'a origin \<Rightarrow> ufixed \<Rightarrow> ('x, unit) fee_action" where
  "set_premium_redeem_fee C origin fee =
     sbind (slift (\<lambda>_. ensure_root origin)) (\<lambda>_.
     sbind (sensure (\<lambda>_. fee \<le> fc_max_expected_value C) (FeeError AboveMaxExpectedValue)) (\<lambda>_.
     fee_modify C (\<lambda>F. F\<lparr>PremiumRedeemFee := fee\<rparr>)))"

definition set_punishment_fee :: "('a, 'c, 'x) fee_config \<Rightarrow> 'a origin \<Rightarrow> ufixed \<Rightarrow> ('x, unit) fee_action" where
  "set_punishment_fee C origin fee =
     sbind (slift (\<lambda>_. ensure_root origin)) (\<lambda>_.
     sbind (sensure (\<lambda>_. fee \<le> fc_max_expected_value C) (FeeError AboveMaxExpectedValue)) (\<lambda>_.
     fee_modify C (\<lambda>F. F\<lparr>PunishmentFee := fee\<rparr>)))"

definition set_replace_griefing_collateral :: "('a, 'c, 'x) fee_config \<Rightarrow> 'a origin \<Rightarrow> ufixed \<Rightarrow> ('x, unit) fee_action" where
  "set_replace_griefing_collateral C origin griefing_collateral =
     sbind (slift (\<lambda>_. ensure_root origin)) (\<lambda>_.
     sbind (sensure (\<lambda>_. griefing_collateral \<le> fc_max_expected_value C) (FeeError AboveMaxExpectedValue)) (\<lambda>_.
     fee_modify C (\<lambda>F. F\<lparr>ReplaceGriefingCollateral := griefing_collateral\<rparr>)))"

definition set_commission :: "('a, 'c, 'x) fee_config \<Rightarrow> 'a origin \<Rightarrow> 'c vault_currency_pair \<Rightarrow> ufixed \<Rightarrow> ('x, unit) fee_action" where
  "set_commission C origin currencies commission =
     sbind (slift (\<lambda>_. ensure_signed origin)) (\<lambda>account_id.
     (let vault_id = vault_id_new account_id (pair_collateral currencies) (pair_wrapped currencies) in
     sbind (slift (\<lambda>x. fc_ensure_opted_in C x vault_id)) (\<lambda>_.
     sbind (sensure (\<lambda>_. commission \<le> uf_DIV (fc_ufixed C)) (FeeError AboveMaxExpectedValue)) (\<lambda>_.
     fee_modify C (\<lambda>F. F\<lparr>Commission := (Commission F)(vault_id \<mapsto> commission)\<rparr>)))))"

subsection \<open>Properties of the fees\<close>

lemma rounded_mul_nearest:
  assumes "ufixed_laws U" and "am_checked_rounded_mul U a k NearestPrefUp = Inr b"
  shows "b = Amount ((2 * (amt a * k) + uf_DIV U) div (2 * uf_DIV U)) (cur a)"
  using assms by (auto simp: am_checked_rounded_mul_def to_u128_def rbind_Inr_iff ufixed_laws_def rounded_div_def split: if_splits)

lemma nearest_half:
  fixes n d :: nat
  assumes "0 < d"
  shows "2 * d * ((2 * n + d) div (2 * d)) \<le> 2 * n + d" and "2 * n < 2 * d * ((2 * n + d) div (2 * d)) + d"
proof -
  let ?q = "(2 * n + d) div (2 * d)"
  have "?q * (2 * d) + (2 * n + d) mod (2 * d) = 2 * n + d" by (rule div_mult_mod_eq)
  moreover have "(2 * n + d) mod (2 * d) < 2 * d" using assms by simp
  ultimately show "2 * d * ?q \<le> 2 * n + d" "2 * n < 2 * d * ?q + d" by (simp_all only: mult.commute [of "2 * d"])
qed

end
