(* ===== verification/Bridge.thy ===== *)
theory Bridge
  imports Vault_Properties Fee BTC_Relay
begin

text \<open>
  The state of the three request pallets: issue (\<^verbatim>\<open>src/crates/issue/src\<close>), redeem (\<^verbatim>\<open>src/crates/redeem/src\<close>) and
  replace (\<^verbatim>\<open>src/crates/replace/src\<close>), on top of the vault registry. The requests are the structures of
  \<^verbatim>\<open>src/primitives/src/lib.rs\<close>. What the pallets read from the relay and the security pallet, as their modules
  \<^verbatim>\<open>ext\<close> name it, are fields of the configuration; the registry and the fees are the models of those pallets.
\<close>

subsection \<open>Requests\<close>

datatype issue_status = Issue_Pending | Issue_Completed | Issue_Cancelled

record ('a, 'c) issue_request =
  iss_vault :: "('a, 'c) vault_id"
  iss_opentime :: nat
  iss_period :: nat
  iss_griefing_collateral :: nat
  iss_griefing_currency :: 'c
  iss_amount :: nat
  iss_fee :: nat
  iss_requester :: 'a
  iss_btc_address :: address
  iss_btc_public_key :: public_key
  iss_btc_height :: nat
  iss_status :: issue_status

datatype redeem_status = Redeem_Pending | Redeem_Completed | Redeem_Reimbursed bool | Redeem_Retried

record ('a, 'c) redeem_request =
  red_vault :: "('a, 'c) vault_id"
  red_opentime :: nat
  red_period :: nat
  red_fee :: nat
  red_transfer_fee_btc :: nat
  red_amount_btc :: nat
  red_premium :: nat
  red_redeemer :: 'a
  red_btc_address :: address
  red_btc_height :: nat
  red_status :: redeem_status

datatype replace_status = Replace_Pending | Replace_Completed | Replace_Cancelled

record ('a, 'c) replace_request =
  rep_old_vault :: "('a, 'c) vault_id"
  rep_new_vault :: "('a, 'c) vault_id"
  rep_amount :: nat
  rep_griefing_collateral :: nat
  rep_collateral :: nat
  rep_accept_time :: nat
  rep_period :: nat
  rep_btc_address :: address
  rep_btc_height :: nat
  rep_status :: replace_status

subsection \<open>Events\<close>

datatype ('a, 'c) bridge_event =
    RequestIssueEvent h256 'a nat nat nat 'c "('a, 'c) vault_id" address public_key
  | IssueAmountChange h256 nat nat nat
  | ExecuteIssueEvent h256 'a "('a, 'c) vault_id" nat nat
  | CancelIssueEvent h256 'a nat
  | IssuePeriodChange nat
  | RequestRedeemEvent h256 'a "('a, 'c) vault_id" nat nat nat address nat
  | LiquidationRedeemEvent 'a nat
  | ExecuteRedeemEvent h256 'a "('a, 'c) vault_id" nat nat nat
  | CancelRedeemEvent h256 'a "('a, 'c) vault_id" nat redeem_status
  | MintTokensForReimbursedRedeemEvent h256 "('a, 'c) vault_id" nat
  | RedeemPeriodChange nat
  | SelfRedeemEvent "('a, 'c) vault_id" nat nat
  | RequestReplaceEvent "('a, 'c) vault_id" nat nat
  | WithdrawReplaceEvent "('a, 'c) vault_id" nat nat
  | AcceptReplaceEvent h256 "('a, 'c) vault_id" "('a, 'c) vault_id" nat nat address
  | ExecuteReplaceEvent h256 "('a, 'c) vault_id" "('a, 'c) vault_id"
  | CancelReplaceEvent h256 "('a, 'c) vault_id" "('a, 'c) vault_id" nat
  | ReplacePeriodChange nat

subsection \<open>Storage and parameters\<close>

record ('a, 'c, 'x) bridge =
  reg :: "('a, 'c, 'x) registry"
  IssueRequests :: "h256 \<Rightarrow> ('a, 'c) issue_request option"
  IssuePeriod :: nat
  IssueBtcDustValue :: nat
  RedeemRequests :: "h256 \<Rightarrow> ('a, 'c) redeem_request option"
  RedeemPeriod :: nat
  RedeemBtcDustValue :: nat
  RedeemTransactionSize :: nat
  ReplaceRequests :: "h256 \<Rightarrow> ('a, 'c) replace_request option"
  ReplacePeriod :: nat
  ReplaceBtcDustValue :: nat
  bridge_events :: "('a, 'c) bridge_event list"

record ('a, 'c, 'x) bridge_config =
  bc_registry :: "('a, 'c, 'x) vault_config"
  bc_fee :: "('a, 'c, 'x) fee_config"
  bc_treasury :: 'a
  bc_relay_initialized :: "'x \<Rightarrow> bool dispatch"
  bc_best_height :: "'x \<Rightarrow> nat"
  bc_expired :: "'x \<Rightarrow> nat \<Rightarrow> nat \<Rightarrow> nat \<Rightarrow> bool dispatch"
  bc_issue_payment :: "'x \<Rightarrow> full_transaction_proof \<Rightarrow> address \<Rightarrow> nat dispatch"
  bc_op_return_payment :: "'x \<Rightarrow> full_transaction_proof \<Rightarrow> address \<Rightarrow> nat \<Rightarrow> h256 \<Rightarrow> unit dispatch"
  bc_secure_id :: "'a \<Rightarrow> 'x \<Rightarrow> h256 \<times> 'x"

type_synonym ('a, 'c, 'x, 'r) bridge_action = "(('a, 'c, 'x) bridge, dispatch_error, 'r) action"

definition on_registry :: "('a, 'c, 'x, 'r) vault_action \<Rightarrow> ('a, 'c, 'x, 'r) bridge_action" where
  "on_registry m = szoom reg (\<lambda>r s. s\<lparr>reg := r\<rparr>) m"

definition on_ledger :: "('x, dispatch_error, 'r) action \<Rightarrow> ('a, 'c, 'x, 'r) bridge_action" where
  "on_ledger m = on_registry (on_world m)"

definition announce :: "('a, 'c) bridge_event \<Rightarrow> ('a, 'c, 'x, unit) bridge_action" where
  "announce e = smod (\<lambda>s. s\<lparr>bridge_events := bridge_events s @ [e]\<rparr>)"

abbreviation outside :: "('a, 'c, 'x) bridge \<Rightarrow> 'x" where
  "outside s \<equiv> world (reg s)"

abbreviation b_tokens :: "('a, 'c, 'x) bridge_config \<Rightarrow> ('a, 'c, 'x) tokens" where
  "b_tokens C \<equiv> cfg_tokens (bc_registry C)"

abbreviation b_ufixed :: "('a, 'c, 'x) bridge_config \<Rightarrow> ufixed_ops" where
  "b_ufixed C \<equiv> cfg_ufixed (bc_registry C)"

abbreviation b_fees :: "('a, 'c, 'x) bridge_config \<Rightarrow> ('a, 'c, 'x) bridge \<Rightarrow> ('a, 'c) fee_store" where
  "b_fees C s \<equiv> fc_store (bc_fee C) (outside s)"

abbreviation b_height :: "('a, 'c, 'x) bridge_config \<Rightarrow> ('a, 'c, 'x) bridge \<Rightarrow> nat" where
  "b_height C s \<equiv> cfg_active_block_number (bc_registry C) (outside s)"

abbreviation b_fee_pool :: "('a, 'c, 'x) bridge_config \<Rightarrow> 'a" where
  "b_fee_pool C \<equiv> fc_pool_account (bc_fee C)"

definition draw_secure_id :: "('a, 'c, 'x) bridge_config \<Rightarrow> 'a \<Rightarrow> ('a, 'c, 'x, h256) bridge_action" where
  "draw_secure_id C account_id = on_ledger (\<lambda>x. Inr (bc_secure_id C account_id x))"

text \<open>
  A call whose error is replaced (\<^verbatim>\<open>map_err\<close>), a call whose error is dropped (\<^verbatim>\<open>let _ =\<close>) and a call whose success is
  tested (\<^verbatim>\<open>if let Ok\<close>). A call that fails is taken to leave the storage unchanged: the functions that the source
  calls this way check everything before they write.
\<close>

definition replace_error :: "dispatch_error \<Rightarrow> ('s, dispatch_error, 'r) action \<Rightarrow> ('s, dispatch_error, 'r) action" where
  "replace_error e m = (\<lambda>s. map_err (\<lambda>_. e) (m s))"

definition if_ok :: "('s, 'e, 'q) action \<Rightarrow> ('q \<Rightarrow> ('s, 'e, 'r) action) \<Rightarrow> ('s, 'e, 'r) action \<Rightarrow> ('s, 'e, 'r) action" where
  "if_ok m k otherwise = (\<lambda>s. case m s of Inr (x, s') \<Rightarrow> k x s' | Inl _ \<Rightarrow> otherwise s)"

definition ignore_error :: "('s, 'e, 'q) action \<Rightarrow> ('s, 'e, unit) action" where
  "ignore_error m = if_ok m (\<lambda>_. sret ()) (sret ())"

text \<open>Entries of a request map.\<close>

definition mutate_exists :: "'k \<Rightarrow> ('v \<Rightarrow> 'v) \<Rightarrow> ('k \<Rightarrow> 'v option) \<Rightarrow> 'k \<Rightarrow> 'v option" where
  "mutate_exists k f m = m(k := map_option f (m k))"

end
