(* ===== verification/Issue.thy ===== *)
theory Issue
  imports Bridge
begin

text \<open>The issue pallet (\<^verbatim>\<open>src/crates/issue/src/lib.rs\<close>).\<close>

subsection \<open>Requests\<close>

definition iss_amount_of :: "('a, 'c) issue_request \<Rightarrow> 'c amount" where
  "iss_amount_of r = Amount (iss_amount r) (wrapped_currency (iss_vault r))"

definition iss_fee_of :: "('a, 'c) issue_request \<Rightarrow> 'c amount" where
  "iss_fee_of r = Amount (iss_fee r) (wrapped_currency (iss_vault r))"

definition iss_griefing_of :: "('a, 'c) issue_request \<Rightarrow> 'c amount" where
  "iss_griefing_of r = Amount (iss_griefing_collateral r) (iss_griefing_currency r)"

definition get_issue_request_from_id :: "('a, 'c, 'x) bridge \<Rightarrow> h256 \<Rightarrow> ('a, 'c) issue_request dispatch" where
  "get_issue_request_from_id s issue_id =
     rbind (ok_or (IssueRequests s issue_id) (IssueError IssueIdNotFound)) (\<lambda>request.
     case iss_status request of
       Issue_Completed \<Rightarrow> Inl (Err (IssueError IssueCompleted))
     | _ \<Rightarrow> Inr request)"

definition get_pending_issue :: "('a, 'c, 'x) bridge \<Rightarrow> h256 \<Rightarrow> ('a, 'c) issue_request dispatch" where
  "get_pending_issue s issue_id =
     rbind (ok_or (IssueRequests s issue_id) (IssueError IssueIdNotFound)) (\<lambda>request.
     case iss_status request of
       Issue_Completed \<Rightarrow> Inl (Err (IssueError IssueCompleted))
     | Issue_Cancelled \<Rightarrow> Inl (Err (IssueError IssueCancelled))
     | Issue_Pending \<Rightarrow> Inr request)"

definition insert_issue_request :: "h256 \<Rightarrow> ('a, 'c) issue_request \<Rightarrow> ('a, 'c, 'x, unit) bridge_action" where
  "insert_issue_request key value = smod (\<lambda>s. s\<lparr>IssueRequests := (IssueRequests s)(key \<mapsto> value)\<rparr>)"

definition set_issue_status :: "h256 \<Rightarrow> issue_status \<Rightarrow> ('a, 'c, 'x, unit) bridge_action" where
  "set_issue_status i status = smod (\<lambda>s. s\<lparr>IssueRequests := mutate_exists i (\<lambda>r. r\<lparr>iss_status := status\<rparr>) (IssueRequests s)\<rparr>)"

definition issue_btc_dust_value :: "('a, 'c, 'x) bridge \<Rightarrow> 'c \<Rightarrow> 'c amount" where
  "issue_btc_dust_value s currency_id = Amount (IssueBtcDustValue s) currency_id"

definition get_issue_requests_for_account :: "('a, 'c, 'x) bridge \<Rightarrow> h256 list \<Rightarrow> 'a \<Rightarrow> h256 list" where
  "get_issue_requests_for_account s keys account_id =
     filter (\<lambda>k. case IssueRequests s k of None \<Rightarrow> False | Some r \<Rightarrow> iss_requester r = account_id) keys"

definition get_issue_requests_for_vault :: "('a, 'c, 'x) bridge \<Rightarrow> h256 list \<Rightarrow> 'a \<Rightarrow> h256 list" where
  "get_issue_requests_for_vault s keys account_id =
     filter (\<lambda>k. case IssueRequests s k of None \<Rightarrow> False | Some r \<Rightarrow> vid_account (iss_vault r) = account_id) keys"

subsection \<open>Requesting\<close>

definition request_issue_inner ::
  "('a, 'c, 'x) bridge_config \<Rightarrow> 'a \<Rightarrow> nat \<Rightarrow> ('a, 'c) vault_id \<Rightarrow> 'c \<Rightarrow> ('a, 'c, 'x, h256) bridge_action" where
  "request_issue_inner C requester n vault_id griefing_currency =
     (let R = bc_registry C; amount_requested = Amount n (wrapped_currency vault_id) in
     sbind (slift (\<lambda>s. bc_relay_initialized C (outside s))) (\<lambda>initialized.
     sbind (sensure (\<lambda>_. initialized) (IssueError WaitingForRelayerInitialization)) (\<lambda>_.
     sbind (slift (\<lambda>s. get_active_vault_from_id (reg s) vault_id)) (\<lambda>v.
     sbind (sensure (\<lambda>_. v_status v = Active True) (IssueError VaultNotAcceptingNewIssues)) (\<lambda>_.
     sbind (slift (\<lambda>s. ensure_not_banned R (reg s) vault_id)) (\<lambda>_.
     sbind (slift (\<lambda>s. cfg_convert R (outside s) amount_requested griefing_currency)) (\<lambda>amount_collateral.
     sbind (slift (\<lambda>s. get_issue_griefing_collateral (b_ufixed C) (b_fees C s) amount_collateral)) (\<lambda>griefing_collateral.
     sbind (on_ledger (am_lock_on (b_tokens C) griefing_collateral requester)) (\<lambda>_.
     sbind (slift (\<lambda>s. am_ge amount_requested (issue_btc_dust_value s (wrapped_currency vault_id)))) (\<lambda>above_dust.
     sbind (sensure (\<lambda>_. above_dust) (IssueError IssueAmountBelowDustAmount)) (\<lambda>_.
     sbind (on_registry (try_increase_to_be_issued_tokens R vault_id amount_requested)) (\<lambda>_.
     sbind (slift (\<lambda>s. get_issue_fee (b_ufixed C) (b_fees C s) amount_requested)) (\<lambda>fee.
     sbind (slift (\<lambda>_. am_checked_sub amount_requested fee)) (\<lambda>amount_user.
     sbind (draw_secure_id C requester) (\<lambda>issue_id.
     sbind (on_registry (register_deposit_address R vault_id issue_id)) (\<lambda>btc_address.
     sbind (slift (\<lambda>s. get_bitcoin_public_key (reg s) (vid_account vault_id))) (\<lambda>btc_public_key.
     sbind (sget (\<lambda>s. \<lparr>iss_vault = vault_id, iss_opentime = b_height C s, iss_period = IssuePeriod s,
       iss_griefing_collateral = amt griefing_collateral, iss_griefing_currency = cur griefing_collateral,
       iss_amount = amt amount_user, iss_fee = amt fee, iss_requester = requester, iss_btc_address = btc_address,
       iss_btc_public_key = btc_public_key, iss_btc_height = bc_best_height C (outside s), iss_status = Issue_Pending\<rparr>)) (\<lambda>request.
     sbind (insert_issue_request issue_id request) (\<lambda>_.
     sbind (announce (RequestIssueEvent issue_id requester (amt amount_user) (amt fee) (amt griefing_collateral) (cur griefing_collateral)
       vault_id btc_address btc_public_key)) (\<lambda>_.
     sret issue_id))))))))))))))))))))"

subsection \<open>Executing\<close>

definition set_issue_amount ::
  "('a, 'c, 'x) bridge_config \<Rightarrow> h256 \<Rightarrow> ('a, 'c) issue_request \<Rightarrow> 'c amount \<Rightarrow> 'c amount \<Rightarrow> ('a, 'c, 'x, ('a, 'c) issue_request) bridge_action" where
  "set_issue_amount C issue_id issue transferred_btc confiscated_griefing_collateral =
     sbind (slift (\<lambda>s. get_issue_fee (b_ufixed C) (b_fees C s) transferred_btc)) (\<lambda>fee.
     (let issue = issue\<lparr>iss_fee := amt fee\<rparr> in
     sbind (slift (\<lambda>_. am_checked_sub transferred_btc (iss_fee_of issue))) (\<lambda>amount.
     (let issue = issue\<lparr>iss_amount := amt amount\<rparr> in
     sbind (smod (\<lambda>s. s\<lparr>IssueRequests := mutate_exists issue_id (\<lambda>r. r\<lparr>iss_fee := iss_fee issue, iss_amount := iss_amount issue\<rparr>) (IssueRequests s)\<rparr>)) (\<lambda>_.
     sbind (announce (IssueAmountChange issue_id (iss_amount issue) (iss_fee issue) (amt confiscated_griefing_collateral))) (\<lambda>_.
     sret issue))))))"

definition decrease_issue_amount ::
  "('a, 'c, 'x) bridge_config \<Rightarrow> h256 \<Rightarrow> ('a, 'c) issue_request \<Rightarrow> 'c amount \<Rightarrow> 'c amount \<Rightarrow> ('a, 'c, 'x, ('a, 'c) issue_request \<times> 'c amount) bridge_action" where
  "decrease_issue_amount C issue_id issue amount_transferred expected_total_amount =
     sbind (slift (\<lambda>_. am_checked_sub expected_total_amount amount_transferred)) (\<lambda>deficit.
     sbind (on_registry (decrease_to_be_issued_tokens (iss_vault issue) deficit)) (\<lambda>_.
     sbind (slift (\<lambda>_. calculate_collateral (iss_griefing_of issue) amount_transferred expected_total_amount)) (\<lambda>to_release_collateral.
     sbind (slift (\<lambda>_. am_checked_sub (iss_griefing_of issue) to_release_collateral)) (\<lambda>slashed_collateral.
     sbind (on_registry (transfer_funds (bc_registry C) (UserGriefing (iss_requester issue)) (FreeBalance (bc_treasury C)) slashed_collateral)) (\<lambda>_.
     sbind (set_issue_amount C issue_id issue amount_transferred slashed_collateral) (\<lambda>issue.
     sret (issue, to_release_collateral)))))))"

definition try_increase_issue_amount ::
  "('a, 'c, 'x) bridge_config \<Rightarrow> h256 \<Rightarrow> ('a, 'c) issue_request \<Rightarrow> 'c amount \<Rightarrow> 'c amount \<Rightarrow> ('a, 'c, 'x, ('a, 'c) issue_request) bridge_action" where
  "try_increase_issue_amount C issue_id issue amount_transferred expected_total_amount =
     sbind (slift (\<lambda>_. am_checked_sub amount_transferred expected_total_amount)) (\<lambda>surplus_btc.
     sbind (slift (\<lambda>s. get_issuable_tokens_from_vault (bc_registry C) (reg s) (iss_vault issue))) (\<lambda>max_allowed.
     sbind (slift (\<lambda>_. am_min surplus_btc max_allowed)) (\<lambda>issue_amount.
     if_ok (on_registry (try_increase_to_be_issued_tokens (bc_registry C) (iss_vault issue) issue_amount)) (\<lambda>_.
       sbind (slift (\<lambda>_. am_checked_add expected_total_amount issue_amount)) (\<lambda>total.
       set_issue_amount C issue_id issue total (am_zero (iss_griefing_currency issue))))
       (sret issue))))"

text \<open>The two branches of the match on the status of a request.\<close>

definition execute_cancelled_issue ::
  "('a, 'c, 'x) bridge_config \<Rightarrow> 'a \<Rightarrow> h256 \<Rightarrow> ('a, 'c) issue_request \<Rightarrow> 'c amount \<Rightarrow> 'c amount \<Rightarrow> ('a, 'c, 'x, ('a, 'c) issue_request) bridge_action" where
  "execute_cancelled_issue C executor issue_id issue amount_transferred expected_total_amount =
     sbind (slift (\<lambda>s. ensure_accepting_new_issues (reg s) (iss_vault issue))) (\<lambda>_.
     sbind (on_registry (try_increase_to_be_issued_tokens (bc_registry C) (iss_vault issue) amount_transferred)) (\<lambda>_.
     sbind (slift (\<lambda>_. am_lt amount_transferred expected_total_amount)) (\<lambda>less.
     sbind (sensure (\<lambda>_. less \<longrightarrow> iss_requester issue = executor) (IssueError InvalidExecutor)) (\<lambda>_.
     sbind (slift (\<lambda>_. am_ne amount_transferred expected_total_amount)) (\<lambda>different.
     if different then set_issue_amount C issue_id issue amount_transferred (am_zero (iss_griefing_currency issue))
     else sret issue)))))"

definition execute_pending_issue ::
  "('a, 'c, 'x) bridge_config \<Rightarrow> 'a \<Rightarrow> h256 \<Rightarrow> ('a, 'c) issue_request \<Rightarrow> 'c amount \<Rightarrow> 'c amount \<Rightarrow> ('a, 'c, 'x, ('a, 'c) issue_request) bridge_action" where
  "execute_pending_issue C executor issue_id issue amount_transferred expected_total_amount =
     sbind (slift (\<lambda>_. am_lt amount_transferred expected_total_amount)) (\<lambda>less.
     sbind (if less then
              sbind (sensure (\<lambda>_. iss_requester issue = executor) (IssueError InvalidExecutor)) (\<lambda>_.
              decrease_issue_amount C issue_id issue amount_transferred expected_total_amount)
            else
              sbind (slift (\<lambda>_. am_gt amount_transferred expected_total_amount)) (\<lambda>more.
              sbind (if more then slift (\<lambda>s. is_vault_liquidated (reg s) (iss_vault issue)) else sret True) (\<lambda>liquidated.
              sbind (if more \<and> \<not> liquidated then try_increase_issue_amount C issue_id issue amount_transferred expected_total_amount
                     else sret issue) (\<lambda>issue.
              sret (issue, iss_griefing_of issue))))) (\<lambda>(issue, to_release_griefing_collateral).
     sbind (on_ledger (am_unlock_on (b_tokens C) to_release_griefing_collateral (iss_requester issue))) (\<lambda>_.
     sret issue)))"

definition execute_issue_inner ::
  "('a, 'c, 'x) bridge_config \<Rightarrow> 'a \<Rightarrow> h256 \<Rightarrow> full_transaction_proof \<Rightarrow> ('a, 'c, 'x, unit) bridge_action" where
  "execute_issue_inner C executor issue_id unchecked_transaction =
     sbind (slift (\<lambda>s. get_issue_request_from_id s issue_id)) (\<lambda>issue.
     sbind (slift (\<lambda>s. bc_issue_payment C (outside s) unchecked_transaction (iss_btc_address issue))) (\<lambda>n.
     (let amount_transferred = Amount n (wrapped_currency (iss_vault issue)) in
     sbind (slift (\<lambda>_. am_checked_add (iss_amount_of issue) (iss_fee_of issue))) (\<lambda>expected_total_amount.
     sbind (case iss_status issue of
              Issue_Completed \<Rightarrow> sfail (IssueError IssueCompleted)
            | Issue_Cancelled \<Rightarrow> execute_cancelled_issue C executor issue_id issue amount_transferred expected_total_amount
            | Issue_Pending \<Rightarrow> execute_pending_issue C executor issue_id issue amount_transferred expected_total_amount) (\<lambda>issue.
     sbind (slift (\<lambda>_. am_checked_add (iss_amount_of issue) (iss_fee_of issue))) (\<lambda>total.
     sbind (on_registry (issue_tokens (iss_vault issue) total)) (\<lambda>_.
     sbind (on_ledger (am_mint_to (b_tokens C) (iss_amount_of issue) (iss_requester issue))) (\<lambda>_.
     sbind (on_ledger (am_mint_to (b_tokens C) (iss_fee_of issue) (b_fee_pool C))) (\<lambda>_.
     sbind (on_ledger (distribute_rewards (bc_fee C) (iss_fee_of issue))) (\<lambda>_.
     sbind (set_issue_status issue_id Issue_Completed) (\<lambda>_.
     announce (ExecuteIssueEvent issue_id (iss_requester issue) (iss_vault issue) (amt total) (iss_fee issue)))))))))))))"

subsection \<open>Cancelling\<close>

definition griefing_collateral_to_slash ::
  "('a, 'c, 'x) bridge_config \<Rightarrow> 'a \<Rightarrow> ('a, 'c) issue_request \<Rightarrow> nat \<Rightarrow> bool \<Rightarrow> ('a, 'c, 'x, 'c amount) bridge_action" where
  "griefing_collateral_to_slash C requester issue issue_period expired =
     (if expired then sret (iss_griefing_of issue)
     else if iss_requester issue = requester then
       sbind (sget (\<lambda>s. saturating_sub (b_height C s) (iss_opentime issue))) (\<lambda>blocks_elapsed.
       (let griefing_collateral = iss_griefing_of issue in
       sbind (slift (\<lambda>_. calculate_collateral griefing_collateral
          (Amount blocks_elapsed (cur griefing_collateral)) (Amount issue_period (cur griefing_collateral)))) (\<lambda>share.
       sbind (slift (\<lambda>_. am_min share griefing_collateral)) (\<lambda>slashed_collateral.
       sbind (slift (\<lambda>_. am_saturating_sub griefing_collateral slashed_collateral)) (\<lambda>released_collateral.
       sbind (on_ledger (am_unlock_on (b_tokens C) released_collateral requester)) (\<lambda>_.
       sret slashed_collateral))))))
     else sfail (IssueError IssueTimeNotExpired))"

definition cancel_issue_inner :: "('a, 'c, 'x) bridge_config \<Rightarrow> 'a \<Rightarrow> h256 \<Rightarrow> ('a, 'c, 'x, unit) bridge_action" where
  "cancel_issue_inner C requester issue_id =
     sbind (slift (\<lambda>s. get_pending_issue s issue_id)) (\<lambda>issue.
     sbind (sget (\<lambda>s. max (IssuePeriod s) (iss_period issue))) (\<lambda>issue_period.
     sbind (slift (\<lambda>s. bc_expired C (outside s) (iss_opentime issue) (iss_btc_height issue) issue_period)) (\<lambda>expired.
     sbind (griefing_collateral_to_slash C requester issue issue_period expired) (\<lambda>to_be_slashed_collateral.
     sbind (slift (\<lambda>s. is_vault_liquidated (reg s) (iss_vault issue))) (\<lambda>liquidated.
     sbind (if liquidated then on_ledger (am_unlock_on (b_tokens C) to_be_slashed_collateral (iss_requester issue))
            else on_registry (transfer_funds (bc_registry C) (UserGriefing (iss_requester issue)) (FreeBalance (bc_treasury C)) to_be_slashed_collateral)) (\<lambda>_.
     sbind (slift (\<lambda>_. am_checked_add (iss_amount_of issue) (iss_fee_of issue))) (\<lambda>full_amount.
     sbind (on_registry (decrease_to_be_issued_tokens (iss_vault issue) full_amount)) (\<lambda>_.
     sbind (set_issue_status issue_id Issue_Cancelled) (\<lambda>_.
     announce (CancelIssueEvent issue_id requester (amt to_be_slashed_collateral)))))))))))"

subsection \<open>Dispatchables\<close>

definition request_issue ::
  "('a, 'c, 'x) bridge_config \<Rightarrow> 'a origin \<Rightarrow> nat \<Rightarrow> ('a, 'c) vault_id \<Rightarrow> 'c \<Rightarrow> ('a, 'c, 'x, h256) bridge_action" where
  "request_issue C origin amount vault_id griefing_currency =
     sbind (slift (\<lambda>_. ensure_signed origin)) (\<lambda>requester. request_issue_inner C requester amount vault_id griefing_currency)"

definition execute_issue ::
  "('a, 'c, 'x) bridge_config \<Rightarrow> 'a origin \<Rightarrow> h256 \<Rightarrow> full_transaction_proof \<Rightarrow> ('a, 'c, 'x, unit) bridge_action" where
  "execute_issue C origin issue_id unchecked_transaction =
     sbind (slift (\<lambda>_. ensure_signed origin)) (\<lambda>executor. execute_issue_inner C executor issue_id unchecked_transaction)"

definition cancel_issue :: "('a, 'c, 'x) bridge_config \<Rightarrow> 'a origin \<Rightarrow> h256 \<Rightarrow> ('a, 'c, 'x, unit) bridge_action" where
  "cancel_issue C origin issue_id =
     sbind (slift (\<lambda>_. ensure_signed origin)) (\<lambda>requester. cancel_issue_inner C requester issue_id)"

definition set_issue_period :: "'a origin \<Rightarrow> nat \<Rightarrow> ('a, 'c, 'x, unit) bridge_action" where
  "set_issue_period origin period =
     sbind (slift (\<lambda>_. ensure_root origin)) (\<lambda>_.
     sbind (smod (\<lambda>s. s\<lparr>IssuePeriod := period\<rparr>)) (\<lambda>_.
     announce (IssuePeriodChange period)))"

end
