(* ===== verification/Redeem.thy ===== *)
theory Redeem
  imports Bridge
begin

text \<open>The redeem pallet (\<^verbatim>\<open>src/crates/redeem/src/lib.rs\<close>).\<close>

subsection \<open>Requests\<close>

definition red_amount_btc_of :: "('a, 'c) redeem_request \<Rightarrow> 'c amount" where
  "red_amount_btc_of r = Amount (red_amount_btc r) (wrapped_currency (red_vault r))"

definition red_fee_of :: "('a, 'c) redeem_request \<Rightarrow> 'c amount" where
  "red_fee_of r = Amount (red_fee r) (wrapped_currency (red_vault r))"

definition red_premium_of :: "('a, 'c) redeem_request \<Rightarrow> 'c amount dispatch" where
  "red_premium_of r = Inr (Amount (red_premium r) (collateral_currency (red_vault r)))"

definition red_transfer_fee_btc_of :: "('a, 'c) redeem_request \<Rightarrow> 'c amount" where
  "red_transfer_fee_btc_of r = Amount (red_transfer_fee_btc r) (wrapped_currency (red_vault r))"

definition get_open_redeem_request_from_id :: "('a, 'c, 'x) bridge \<Rightarrow> h256 \<Rightarrow> ('a, 'c) redeem_request dispatch" where
  "get_open_redeem_request_from_id s redeem_id =
     rbind (ok_or (RedeemRequests s redeem_id) (RedeemError RedeemIdNotFound)) (\<lambda>request.
     case red_status request of
       Redeem_Pending \<Rightarrow> Inr request
     | Redeem_Completed \<Rightarrow> Inl (Err (RedeemError RedeemCompleted))
     | _ \<Rightarrow> Inl (Err (RedeemError RedeemCancelled)))"

definition get_open_or_completed_redeem_request_from_id :: "('a, 'c, 'x) bridge \<Rightarrow> h256 \<Rightarrow> ('a, 'c) redeem_request dispatch" where
  "get_open_or_completed_redeem_request_from_id s redeem_id =
     rbind (ok_or (RedeemRequests s redeem_id) (RedeemError RedeemIdNotFound)) (\<lambda>request.
     rbind (rensure (red_status request = Redeem_Pending \<or> red_status request = Redeem_Completed) (RedeemError RedeemCancelled)) (\<lambda>_.
     Inr request))"

definition insert_redeem_request :: "h256 \<Rightarrow> ('a, 'c) redeem_request \<Rightarrow> ('a, 'c, 'x, unit) bridge_action" where
  "insert_redeem_request key value = smod (\<lambda>s. s\<lparr>RedeemRequests := (RedeemRequests s)(key \<mapsto> value)\<rparr>)"

definition set_redeem_status :: "h256 \<Rightarrow> redeem_status \<Rightarrow> ('a, 'c, 'x, redeem_status) bridge_action" where
  "set_redeem_status i status =
     sbind (smod (\<lambda>s. s\<lparr>RedeemRequests := mutate_exists i (\<lambda>r. r\<lparr>red_status := status\<rparr>) (RedeemRequests s)\<rparr>)) (\<lambda>_. sret status)"

definition get_current_inclusion_fee :: "('a, 'c, 'x) bridge_config \<Rightarrow> ('a, 'c, 'x) bridge \<Rightarrow> 'c \<Rightarrow> 'c amount dispatch" where
  "get_current_inclusion_fee C s wrapped = calculate_inclusion_fee (bc_registry C) (reg s) wrapped (RedeemTransactionSize s)"

definition get_dust_value :: "('a, 'c, 'x) bridge \<Rightarrow> 'c \<Rightarrow> 'c amount" where
  "get_dust_value s currency_id = Amount (RedeemBtcDustValue s) currency_id"

definition get_redeem_requests_for_account :: "('a, 'c, 'x) bridge \<Rightarrow> h256 list \<Rightarrow> 'a \<Rightarrow> h256 list" where
  "get_redeem_requests_for_account s keys account_id =
     filter (\<lambda>k. case RedeemRequests s k of None \<Rightarrow> False | Some r \<Rightarrow> red_redeemer r = account_id) keys"

definition get_redeem_requests_for_vault :: "('a, 'c, 'x) bridge \<Rightarrow> h256 list \<Rightarrow> 'a \<Rightarrow> h256 list" where
  "get_redeem_requests_for_vault s keys account_id =
     filter (\<lambda>k. case RedeemRequests s k of None \<Rightarrow> False | Some r \<Rightarrow> vid_account (red_vault r) = account_id) keys"

definition redeem_premium_vaults ::
  "('a, 'c, 'x) bridge_config \<Rightarrow> ('a, 'c, 'x) bridge \<Rightarrow> ('a, 'c) vault_id list \<Rightarrow> (('a, 'c) vault_id \<times> 'c amount) list dispatch" where
  "redeem_premium_vaults C s vault_ids = get_premium_redeem_vaults (bc_registry C) (reg s) vault_ids (RedeemTransactionSize s)"

definition release_replace_collateral :: "('a, 'c, 'x) bridge_config \<Rightarrow> ('a, 'c) vault_id \<Rightarrow> 'c amount \<Rightarrow> ('a, 'c, 'x, unit) bridge_action" where
  "release_replace_collateral C vault_id burned_tokens =
     sbind (on_registry (decrease_to_be_replaced_tokens (bc_registry C) vault_id burned_tokens)) (\<lambda>(_, griefing_collateral).
     if \<not> am_is_zero griefing_collateral then
       on_registry (transfer_funds (bc_registry C) (AvailableReplaceCollateral vault_id) (FreeBalance (vid_account vault_id)) griefing_collateral)
     else sret ())"

subsection \<open>Requesting\<close>

definition request_redeem_inner ::
  "('a, 'c, 'x) bridge_config \<Rightarrow> 'a \<Rightarrow> nat \<Rightarrow> address \<Rightarrow> ('a, 'c) vault_id \<Rightarrow> ('a, 'c, 'x, h256) bridge_action" where
  "request_redeem_inner C redeemer n btc_address vault_id =
     (let R = bc_registry C; wrapped = wrapped_currency vault_id; amount_wrapped = Amount n wrapped in
     sbind (slift (\<lambda>s. am_le amount_wrapped (get_free_balance (b_tokens C) (outside s) wrapped redeemer))) (\<lambda>enough.
     sbind (sensure (\<lambda>_. enough) (RedeemError AmountExceedsUserBalance)) (\<lambda>_.
     sbind (sensure (\<lambda>_. \<not> address_is_zero btc_address) InvalidBtcHashError) (\<lambda>_.
     sbind (if redeemer = vid_account vault_id then sret (am_zero wrapped)
            else slift (\<lambda>s. get_redeem_fee (b_ufixed C) (b_fees C s) amount_wrapped)) (\<lambda>fee_wrapped.
     sbind (slift (\<lambda>s. get_current_inclusion_fee C s wrapped)) (\<lambda>inclusion_fee.
     sbind (slift (\<lambda>_. am_checked_sub amount_wrapped fee_wrapped)) (\<lambda>vault_to_be_burned_tokens.
     sbind (replace_error (RedeemError RedeemAmountBelowDustAmount) (slift (\<lambda>_. am_checked_sub vault_to_be_burned_tokens inclusion_fee))) (\<lambda>user_to_be_received_btc.
     sbind (slift (\<lambda>s. ensure_not_banned R (reg s) vault_id)) (\<lambda>_.
     sbind (slift (\<lambda>s. am_ge user_to_be_received_btc (get_dust_value s wrapped))) (\<lambda>above_dust.
     sbind (sensure (\<lambda>_. above_dust) (RedeemError RedeemAmountBelowDustAmount)) (\<lambda>_.
     sbind (slift (\<lambda>s. cfg_convert R (outside s) user_to_be_received_btc (collateral_currency vault_id))) (\<lambda>redeem_amount_wrapped_in_collateral.
     sbind (slift (\<lambda>s. am_checked_rounded_mul (b_ufixed C) redeem_amount_wrapped_in_collateral (premium_redeem_reward_rate (b_fees C s)) Down)) (\<lambda>premium_for_redeem_amount.
     sbind (slift (\<lambda>s. get_vault_max_premium_redeem R (reg s) vault_id)) (\<lambda>max_premium.
     sbind (slift (\<lambda>_. am_min max_premium premium_for_redeem_amount)) (\<lambda>premium_collateral.
     sbind (on_registry (try_increase_to_be_redeemed_tokens vault_id vault_to_be_burned_tokens)) (\<lambda>_.
     sbind (on_ledger (am_lock_on (b_tokens C) amount_wrapped redeemer)) (\<lambda>_.
     sbind (draw_secure_id C redeemer) (\<lambda>redeem_id.
     sbind (release_replace_collateral C vault_id vault_to_be_burned_tokens) (\<lambda>_.
     sbind (sget (\<lambda>s. \<lparr>red_vault = vault_id, red_opentime = b_height C s, red_period = RedeemPeriod s, red_fee = amt fee_wrapped,
       red_transfer_fee_btc = amt inclusion_fee, red_amount_btc = amt user_to_be_received_btc, red_premium = amt premium_collateral,
       red_redeemer = redeemer, red_btc_address = btc_address, red_btc_height = bc_best_height C (outside s), red_status = Redeem_Pending\<rparr>)) (\<lambda>request.
     sbind (insert_redeem_request redeem_id request) (\<lambda>_.
     sbind (announce (RequestRedeemEvent redeem_id redeemer vault_id (amt user_to_be_received_btc) (amt fee_wrapped) (amt premium_collateral) btc_address
       (amt inclusion_fee))) (\<lambda>_.
     sret redeem_id))))))))))))))))))))))"

subsection \<open>Redeeming against a liquidation vault\<close>

definition liquidation_redeem_inner :: "('a, 'c, 'x) bridge_config \<Rightarrow> 'a \<Rightarrow> 'c vault_currency_pair \<Rightarrow> nat \<Rightarrow> ('a, 'c, 'x, unit) bridge_action" where
  "liquidation_redeem_inner C redeemer currencies n =
     (let amount_wrapped = Amount n (pair_wrapped currencies) in
     sbind (slift (\<lambda>s. am_le amount_wrapped (get_free_balance (b_tokens C) (outside s) (pair_wrapped currencies) redeemer))) (\<lambda>enough.
     sbind (sensure (\<lambda>_. enough) (RedeemError AmountExceedsUserBalance)) (\<lambda>_.
     sbind (on_ledger (am_lock_on (b_tokens C) amount_wrapped redeemer)) (\<lambda>_.
     sbind (on_ledger (am_burn_from (b_tokens C) amount_wrapped redeemer)) (\<lambda>_.
     sbind (on_registry (redeem_tokens_liquidation (bc_registry C) (pair_collateral currencies) redeemer amount_wrapped)) (\<lambda>_.
     announce (LiquidationRedeemEvent redeemer (amt amount_wrapped))))))))"

subsection \<open>Executing\<close>

definition take_redeem_fee :: "('a, 'c, 'x) bridge_config \<Rightarrow> ('a, 'c) redeem_request \<Rightarrow> ('a, 'c, 'x, unit) bridge_action" where
  "take_redeem_fee C redeem =
     (let fee = red_fee_of redeem in
     sbind (on_ledger (am_unlock_on (b_tokens C) fee (red_redeemer redeem))) (\<lambda>_.
     sbind (on_ledger (am_transfer (b_tokens C) fee (red_redeemer redeem) (b_fee_pool C))) (\<lambda>_.
     on_ledger (distribute_rewards (bc_fee C) fee))))"

definition execute_redeem_inner :: "('a, 'c, 'x) bridge_config \<Rightarrow> h256 \<Rightarrow> full_transaction_proof \<Rightarrow> ('a, 'c, 'x, unit) bridge_action" where
  "execute_redeem_inner C redeem_id unchecked_transaction =
     sbind (slift (\<lambda>s. get_open_redeem_request_from_id s redeem_id)) (\<lambda>redeem.
     sbind (slift (\<lambda>s. bc_op_return_payment C (outside s) unchecked_transaction (red_btc_address redeem) (red_amount_btc redeem) redeem_id)) (\<lambda>_.
     sbind (slift (\<lambda>_. am_checked_add (red_amount_btc_of redeem) (red_transfer_fee_btc_of redeem))) (\<lambda>burn_amount.
     sbind (on_ledger (am_burn_from (b_tokens C) burn_amount (red_redeemer redeem))) (\<lambda>_.
     sbind (take_redeem_fee C redeem) (\<lambda>_.
     sbind (slift (\<lambda>_. red_premium_of redeem)) (\<lambda>premium.
     sbind (on_registry (redeem_tokens (bc_registry C) (red_vault redeem) burn_amount premium (red_redeemer redeem))) (\<lambda>_.
     sbind (set_redeem_status redeem_id Redeem_Completed) (\<lambda>_.
     announce (ExecuteRedeemEvent redeem_id (red_redeemer redeem) (red_vault redeem) (red_amount_btc redeem) (red_fee redeem) (red_transfer_fee_btc redeem))))))))))"

subsection \<open>Cancelling\<close>

text \<open>The collateral of the vault: the share of a liquidated vault, or a slash and a ban.\<close>

definition cancel_redeem_collateral ::
  "('a, 'c, 'x) bridge_config \<Rightarrow> 'a \<Rightarrow> ('a, 'c) redeem_request \<Rightarrow> bool \<Rightarrow> ('a, 'c) vault \<Rightarrow> 'c amount \<Rightarrow> 'c amount \<Rightarrow> ('a, 'c, 'x, 'c amount) bridge_action" where
  "cancel_redeem_collateral C redeemer redeem reimburse v vault_to_be_burned_tokens amount_wrapped_in_collateral =
     (let R = bc_registry C; vault_id = red_vault redeem in
     if is_liquidated v then
       sbind (slift (\<lambda>s. rbind (get_liquidated_collateral (reg s) vault_id) (\<lambda>c.
         calculate_collateral c vault_to_be_burned_tokens (Amount (to_be_redeemed_tokens v) (wrapped_currency vault_id))))) (\<lambda>confiscated_collateral.
       (let slashing_destination = (if reimburse then FreeBalance redeemer else LiquidationVaultFunds (vid_currencies vault_id)) in
       sbind (on_registry (decrease_liquidated_collateral vault_id confiscated_collateral)) (\<lambda>_.
       sbind (on_registry (transfer_funds R (LiquidatedCollateral vault_id) slashing_destination confiscated_collateral)) (\<lambda>_.
       sret confiscated_collateral))))
     else
       sbind (slift (\<lambda>s. get_punishment_fee (b_ufixed C) (b_fees C s) amount_wrapped_in_collateral)) (\<lambda>punishment_fee_in_collateral.
       sbind (if reimburse then slift (\<lambda>_. am_checked_add amount_wrapped_in_collateral punishment_fee_in_collateral)
              else sret punishment_fee_in_collateral) (\<lambda>amount_to_slash.
       sbind (on_registry (transfer_funds_saturated R (Collateral vault_id) (FreeBalance redeemer) amount_to_slash)) (\<lambda>_.
       sbind (ignore_error (on_registry (ban_vault R vault_id))) (\<lambda>_.
       sret amount_to_slash)))))"

text \<open>The tokens of the user and of the vault.\<close>

definition cancel_redeem_tokens_of ::
  "('a, 'c, 'x) bridge_config \<Rightarrow> 'a \<Rightarrow> h256 \<Rightarrow> ('a, 'c) redeem_request \<Rightarrow> bool \<Rightarrow> ('a, 'c) vault \<Rightarrow> 'c amount \<Rightarrow> ('a, 'c, 'x, redeem_status) bridge_action" where
  "cancel_redeem_tokens_of C redeemer redeem_id redeem reimburse v vault_to_be_burned_tokens =
     (let T = b_tokens C; vault_id = red_vault redeem in
     if reimburse then
       sbind (take_redeem_fee C redeem) (\<lambda>_.
       if is_liquidated v then
         sbind (on_ledger (am_burn_from T vault_to_be_burned_tokens redeemer)) (\<lambda>_.
         sbind (on_registry (decrease_tokens vault_id (red_redeemer redeem) vault_to_be_burned_tokens)) (\<lambda>_.
         set_redeem_status redeem_id (Redeem_Reimbursed True)))
       else
         sbind (slift (\<lambda>s. is_vault_below_secure_threshold (bc_registry C) (reg s) vault_id)) (\<lambda>below.
         if below then
           sbind (on_ledger (am_burn_from T vault_to_be_burned_tokens redeemer)) (\<lambda>_.
           sbind (on_registry (decrease_tokens vault_id (red_redeemer redeem) vault_to_be_burned_tokens)) (\<lambda>_.
           set_redeem_status redeem_id (Redeem_Reimbursed False)))
         else
           sbind (on_ledger (am_unlock_on T vault_to_be_burned_tokens (red_redeemer redeem))) (\<lambda>_.
           sbind (on_ledger (am_transfer T vault_to_be_burned_tokens (red_redeemer redeem) (vid_account vault_id))) (\<lambda>_.
           sbind (on_registry (decrease_to_be_redeemed_tokens vault_id vault_to_be_burned_tokens)) (\<lambda>_.
           set_redeem_status redeem_id (Redeem_Reimbursed True))))))
     else
       sbind (slift (\<lambda>_. rbind (am_checked_add (red_amount_btc_of redeem) (red_fee_of redeem)) (\<lambda>x. am_checked_add x (red_transfer_fee_btc_of redeem)))) (\<lambda>total_wrapped.
       sbind (on_ledger (am_unlock_on T total_wrapped redeemer)) (\<lambda>_.
       sbind (on_registry (decrease_to_be_redeemed_tokens vault_id vault_to_be_burned_tokens)) (\<lambda>_.
       set_redeem_status redeem_id Redeem_Retried))))"

definition cancel_redeem_inner :: "('a, 'c, 'x) bridge_config \<Rightarrow> 'a \<Rightarrow> h256 \<Rightarrow> bool \<Rightarrow> ('a, 'c, 'x, unit) bridge_action" where
  "cancel_redeem_inner C redeemer redeem_id reimburse =
     sbind (slift (\<lambda>s. get_open_redeem_request_from_id s redeem_id)) (\<lambda>redeem.
     sbind (sensure (\<lambda>_. redeemer = red_redeemer redeem) (RedeemError UnauthorizedRedeemer)) (\<lambda>_.
     sbind (slift (\<lambda>s. bc_expired C (outside s) (red_opentime redeem) (red_btc_height redeem) (max (RedeemPeriod s) (red_period redeem)))) (\<lambda>expired.
     sbind (sensure (\<lambda>_. expired) (RedeemError RedeemTimeNotExpired)) (\<lambda>_.
     sbind (slift (\<lambda>s. get_vault_from_id (reg s) (red_vault redeem))) (\<lambda>v.
     sbind (slift (\<lambda>_. am_checked_add (red_amount_btc_of redeem) (red_transfer_fee_btc_of redeem))) (\<lambda>vault_to_be_burned_tokens.
     sbind (slift (\<lambda>s. cfg_convert (bc_registry C) (outside s) vault_to_be_burned_tokens (collateral_currency (red_vault redeem)))) (\<lambda>amount_wrapped_in_collateral.
     sbind (cancel_redeem_collateral C redeemer redeem reimburse v vault_to_be_burned_tokens amount_wrapped_in_collateral) (\<lambda>slashed_amount.
     sbind (cancel_redeem_tokens_of C redeemer redeem_id redeem reimburse v vault_to_be_burned_tokens) (\<lambda>new_status.
     announce (CancelRedeemEvent redeem_id redeemer (red_vault redeem) (amt slashed_amount) new_status))))))))))"

definition mint_tokens_for_reimbursed_redeem_inner :: "('a, 'c, 'x) bridge_config \<Rightarrow> ('a, 'c) vault_id \<Rightarrow> h256 \<Rightarrow> ('a, 'c, 'x, unit) bridge_action" where
  "mint_tokens_for_reimbursed_redeem_inner C vault_id redeem_id =
     sbind (slift (\<lambda>s. ok_or (RedeemRequests s redeem_id) (RedeemError RedeemIdNotFound))) (\<lambda>redeem.
     sbind (sensure (\<lambda>_. red_status redeem = Redeem_Reimbursed False) (RedeemError RedeemCancelled)) (\<lambda>_.
     sbind (sensure (\<lambda>_. red_vault redeem = vault_id) (RedeemError RedeemUnauthorizedVault)) (\<lambda>_.
     sbind (slift (\<lambda>_. am_checked_add (red_amount_btc_of redeem) (red_transfer_fee_btc_of redeem))) (\<lambda>reimbursed_amount.
     sbind (on_registry (try_increase_to_be_issued_tokens (bc_registry C) vault_id reimbursed_amount)) (\<lambda>_.
     sbind (on_registry (issue_tokens vault_id reimbursed_amount)) (\<lambda>_.
     sbind (on_ledger (am_mint_to (b_tokens C) reimbursed_amount (vid_account vault_id))) (\<lambda>_.
     sbind (set_redeem_status redeem_id (Redeem_Reimbursed True)) (\<lambda>_.
     announce (MintTokensForReimbursedRedeemEvent redeem_id (red_vault redeem) (amt reimbursed_amount))))))))))"

subsection \<open>Redeeming by the vault itself\<close>

definition calculate_token_amounts :: "('a, 'c, 'x) bridge_config \<Rightarrow> ('a, 'c, 'x) bridge \<Rightarrow> ('a, 'c) vault_id \<Rightarrow> 'c amount \<Rightarrow> ('c amount \<times> 'c amount) dispatch" where
  "calculate_token_amounts C s vault_id requested_redeem_amount =
     rbind (get_free_redeemable_tokens (reg s) vault_id) (\<lambda>redeemable_tokens.
     rbind (am_eq redeemable_tokens requested_redeem_amount) (\<lambda>all_tokens.
     rbind (if all_tokens then Inr (am_zero (wrapped_currency vault_id)) else get_redeem_fee (b_ufixed C) (b_fees C s) requested_redeem_amount) (\<lambda>fees.
     rbind (am_checked_sub requested_redeem_amount fees) (\<lambda>consumed_issued_tokens.
     Inr (fees, consumed_issued_tokens)))))"

definition take_user_tokens :: "('a, 'c, 'x) bridge_config \<Rightarrow> 'a \<Rightarrow> 'c amount \<Rightarrow> 'c amount \<Rightarrow> ('a, 'c, 'x, unit) bridge_action" where
  "take_user_tokens C account_id consumed_issued_tokens fees =
     sbind (replace_error (RedeemError AmountExceedsUserBalance) (on_ledger (am_lock_on (b_tokens C) consumed_issued_tokens account_id))) (\<lambda>_.
     sbind (on_ledger (am_burn_from (b_tokens C) consumed_issued_tokens account_id)) (\<lambda>_.
     sbind (replace_error (RedeemError AmountExceedsUserBalance) (on_ledger (am_transfer (b_tokens C) fees account_id (b_fee_pool C)))) (\<lambda>_.
     on_ledger (distribute_rewards (bc_fee C) fees))))"

definition update_vault_tokens :: "('a, 'c, 'x) bridge_config \<Rightarrow> ('a, 'c) vault_id \<Rightarrow> 'c amount \<Rightarrow> ('a, 'c, 'x, unit) bridge_action" where
  "update_vault_tokens C vault_id consumed_issued_tokens =
     sbind (on_registry (try_increase_to_be_redeemed_tokens vault_id consumed_issued_tokens)) (\<lambda>_.
     sbind (on_registry (redeem_tokens (bc_registry C) vault_id consumed_issued_tokens (am_zero (collateral_currency vault_id)) (vid_account vault_id))) (\<lambda>_.
     release_replace_collateral C vault_id consumed_issued_tokens))"

definition self_redeem_inner :: "('a, 'c, 'x) bridge_config \<Rightarrow> ('a, 'c) vault_id \<Rightarrow> 'c amount \<Rightarrow> ('a, 'c, 'x, unit) bridge_action" where
  "self_redeem_inner C vault_id amount_wrapped =
     sbind (slift (\<lambda>s. ensure_not_banned (bc_registry C) (reg s) vault_id)) (\<lambda>_.
     sbind (sensure (\<lambda>_. \<not> am_is_zero amount_wrapped) (RedeemError RedeemAmountBelowDustAmount)) (\<lambda>_.
     sbind (slift (\<lambda>s. calculate_token_amounts C s vault_id amount_wrapped)) (\<lambda>(fees, consumed_issued_tokens).
     sbind (take_user_tokens C (vid_account vault_id) consumed_issued_tokens fees) (\<lambda>_.
     sbind (update_vault_tokens C vault_id consumed_issued_tokens) (\<lambda>_.
     announce (SelfRedeemEvent vault_id (amt consumed_issued_tokens) (amt fees)))))))"

subsection \<open>Dispatchables\<close>

definition request_redeem ::
  "('a, 'c, 'x) bridge_config \<Rightarrow> 'a origin \<Rightarrow> nat \<Rightarrow> address \<Rightarrow> ('a, 'c) vault_id \<Rightarrow> ('a, 'c, 'x, h256) bridge_action" where
  "request_redeem C origin amount_wrapped btc_address vault_id =
     sbind (slift (\<lambda>_. ensure_signed origin)) (\<lambda>redeemer. request_redeem_inner C redeemer amount_wrapped btc_address vault_id)"

definition liquidation_redeem :: "('a, 'c, 'x) bridge_config \<Rightarrow> 'a origin \<Rightarrow> 'c vault_currency_pair \<Rightarrow> nat \<Rightarrow> ('a, 'c, 'x, unit) bridge_action" where
  "liquidation_redeem C origin currencies amount_wrapped =
     sbind (slift (\<lambda>_. ensure_signed origin)) (\<lambda>redeemer. liquidation_redeem_inner C redeemer currencies amount_wrapped)"

definition execute_redeem :: "('a, 'c, 'x) bridge_config \<Rightarrow> 'a origin \<Rightarrow> h256 \<Rightarrow> full_transaction_proof \<Rightarrow> ('a, 'c, 'x, unit) bridge_action" where
  "execute_redeem C origin redeem_id unchecked_transaction =
     sbind (slift (\<lambda>_. ensure_signed origin)) (\<lambda>_. execute_redeem_inner C redeem_id unchecked_transaction)"

definition cancel_redeem :: "('a, 'c, 'x) bridge_config \<Rightarrow> 'a origin \<Rightarrow> h256 \<Rightarrow> bool \<Rightarrow> ('a, 'c, 'x, unit) bridge_action" where
  "cancel_redeem C origin redeem_id reimburse =
     sbind (slift (\<lambda>_. ensure_signed origin)) (\<lambda>redeemer. cancel_redeem_inner C redeemer redeem_id reimburse)"

definition set_redeem_period :: "'a origin \<Rightarrow> nat \<Rightarrow> ('a, 'c, 'x, unit) bridge_action" where
  "set_redeem_period origin period =
     sbind (slift (\<lambda>_. ensure_root origin)) (\<lambda>_.
     sbind (smod (\<lambda>s. s\<lparr>RedeemPeriod := period\<rparr>)) (\<lambda>_.
     announce (RedeemPeriodChange period)))"

definition mint_tokens_for_reimbursed_redeem :: "('a, 'c, 'x) bridge_config \<Rightarrow> 'a origin \<Rightarrow> 'c vault_currency_pair \<Rightarrow> h256 \<Rightarrow> ('a, 'c, 'x, unit) bridge_action" where
  "mint_tokens_for_reimbursed_redeem C origin currency_pair redeem_id =
     sbind (slift (\<lambda>_. signed_vault origin currency_pair)) (\<lambda>vault_id. mint_tokens_for_reimbursed_redeem_inner C vault_id redeem_id)"

definition self_redeem :: "('a, 'c, 'x) bridge_config \<Rightarrow> 'a origin \<Rightarrow> 'c vault_currency_pair \<Rightarrow> nat \<Rightarrow> ('a, 'c, 'x, unit) bridge_action" where
  "self_redeem C origin currency_pair amount_wrapped =
     sbind (slift (\<lambda>_. signed_vault origin currency_pair)) (\<lambda>vault_id. self_redeem_inner C vault_id (Amount amount_wrapped (wrapped_currency vault_id)))"

end
