(* ===== verification/Replace.thy ===== *)
theory Replace
  imports Bridge
begin

text \<open>The replace pallet (\<^verbatim>\<open>src/crates/replace/src/lib.rs\<close>).\<close>

subsection \<open>Requests\<close>

definition rep_amount_of :: "('a, 'c) replace_request \<Rightarrow> 'c amount" where
  "rep_amount_of r = Amount (rep_amount r) (wrapped_currency (rep_old_vault r))"

definition rep_griefing_of :: "('a, 'c, 'x) bridge_config \<Rightarrow> ('a, 'c) replace_request \<Rightarrow> 'c amount" where
  "rep_griefing_of C r = Amount (rep_griefing_collateral r) (cfg_griefing_currency (bc_registry C))"

definition rep_collateral_of :: "('a, 'c) replace_request \<Rightarrow> 'c amount dispatch" where
  "rep_collateral_of r = Inr (Amount (rep_collateral r) (collateral_currency (rep_new_vault r)))"

definition get_open_replace_request :: "('a, 'c, 'x) bridge \<Rightarrow> h256 \<Rightarrow> ('a, 'c) replace_request dispatch" where
  "get_open_replace_request s replace_id =
     rbind (ok_or (ReplaceRequests s replace_id) (ReplaceError ReplaceIdNotFound)) (\<lambda>request.
     case rep_status request of
       Replace_Pending \<Rightarrow> Inr request
     | Replace_Completed \<Rightarrow> Inl (Err (ReplaceError ReplaceCompleted))
     | Replace_Cancelled \<Rightarrow> Inl (Err (ReplaceError ReplaceCancelled)))"

definition get_open_or_completed_replace_request :: "('a, 'c, 'x) bridge \<Rightarrow> h256 \<Rightarrow> ('a, 'c) replace_request dispatch" where
  "get_open_or_completed_replace_request s i =
     rbind (ok_or (ReplaceRequests s i) (ReplaceError ReplaceIdNotFound)) (\<lambda>request.
     case rep_status request of
       Replace_Cancelled \<Rightarrow> Inl (Err (ReplaceError ReplaceCancelled))
     | _ \<Rightarrow> Inr request)"

definition get_open_or_cancelled_replace_request :: "('a, 'c, 'x) bridge \<Rightarrow> h256 \<Rightarrow> ('a, 'c) replace_request dispatch" where
  "get_open_or_cancelled_replace_request s i =
     rbind (ok_or (ReplaceRequests s i) (ReplaceError ReplaceIdNotFound)) (\<lambda>request.
     case rep_status request of
       Replace_Completed \<Rightarrow> Inl (Err (ReplaceError ReplaceCompleted))
     | _ \<Rightarrow> Inr request)"

definition insert_replace_request :: "h256 \<Rightarrow> ('a, 'c) replace_request \<Rightarrow> ('a, 'c, 'x, unit) bridge_action" where
  "insert_replace_request key value = smod (\<lambda>s. s\<lparr>ReplaceRequests := (ReplaceRequests s)(key \<mapsto> value)\<rparr>)"

definition set_replace_status :: "h256 \<Rightarrow> replace_status \<Rightarrow> ('a, 'c, 'x, unit) bridge_action" where
  "set_replace_status key status = smod (\<lambda>s. s\<lparr>ReplaceRequests := mutate_exists key (\<lambda>r. r\<lparr>rep_status := status\<rparr>) (ReplaceRequests s)\<rparr>)"

definition replace_dust_value :: "('a, 'c, 'x) bridge \<Rightarrow> 'c \<Rightarrow> 'c amount" where
  "replace_dust_value s currency_id = Amount (ReplaceBtcDustValue s) currency_id"

definition get_replace_requests_for_old_vault :: "('a, 'c, 'x) bridge \<Rightarrow> h256 list \<Rightarrow> 'a \<Rightarrow> h256 list" where
  "get_replace_requests_for_old_vault s keys account_id =
     filter (\<lambda>k. case ReplaceRequests s k of None \<Rightarrow> False | Some r \<Rightarrow> vid_account (rep_old_vault r) = account_id) keys"

definition get_replace_requests_for_new_vault :: "('a, 'c, 'x) bridge \<Rightarrow> h256 list \<Rightarrow> 'a \<Rightarrow> h256 list" where
  "get_replace_requests_for_new_vault s keys account_id =
     filter (\<lambda>k. case ReplaceRequests s k of None \<Rightarrow> False | Some r \<Rightarrow> vid_account (rep_new_vault r) = account_id) keys"

subsection \<open>Asking to be replaced\<close>

definition request_replace_inner :: "('a, 'c, 'x) bridge_config \<Rightarrow> ('a, 'c) vault_id \<Rightarrow> nat \<Rightarrow> ('a, 'c, 'x, unit) bridge_action" where
  "request_replace_inner C vault_id n =
     (let R = bc_registry C; amount_btc = Amount n (wrapped_currency vault_id) in
     sbind (slift (\<lambda>s. ensure_not_banned R (reg s) vault_id)) (\<lambda>_.
     sbind (sensure (\<lambda>s. \<not> is_opted_in (reg s) vault_id) (ReplaceError VaultHasEnabledNomination)) (\<lambda>_.
     sbind (slift (\<lambda>s. requestable_to_be_replaced_tokens (reg s) vault_id)) (\<lambda>requestable_tokens.
     sbind (slift (\<lambda>_. am_min amount_btc requestable_tokens)) (\<lambda>to_be_replaced_increase.
     sbind (sensure (\<lambda>_. \<not> am_is_zero to_be_replaced_increase) (ReplaceError ReplaceAmountZero)) (\<lambda>_.
     sbind (on_registry (try_increase_to_be_replaced_tokens vault_id to_be_replaced_increase)) (\<lambda>total_to_be_replaced.
     sbind (slift (\<lambda>s. am_ge total_to_be_replaced (replace_dust_value s (wrapped_currency vault_id)))) (\<lambda>above_dust.
     sbind (sensure (\<lambda>_. above_dust) (ReplaceError ReplaceAmountBelowDustAmount)) (\<lambda>_.
     sbind (slift (\<lambda>s. rbind (cfg_convert R (outside s) to_be_replaced_increase (cfg_griefing_currency R)) (\<lambda>a.
                       get_replace_griefing_collateral (b_ufixed C) (b_fees C s) a))) (\<lambda>griefing_collateral.
     sbind (on_registry (transfer_funds R (FreeBalance (vid_account vault_id)) (AvailableReplaceCollateral vault_id) griefing_collateral)) (\<lambda>_.
     announce (RequestReplaceEvent vault_id (amt to_be_replaced_increase) (amt griefing_collateral)))))))))))))"

definition withdraw_replace_inner :: "('a, 'c, 'x) bridge_config \<Rightarrow> ('a, 'c) vault_id \<Rightarrow> nat \<Rightarrow> ('a, 'c, 'x, unit) bridge_action" where
  "withdraw_replace_inner C vault_id n =
     sbind (on_registry (withdraw_replace_request (bc_registry C) vault_id (Amount n (wrapped_currency vault_id)))) (\<lambda>(withdrawn_tokens, to_withdraw_collateral).
     if am_is_zero withdrawn_tokens then sfail (ReplaceError NoPendingRequest)
     else announce (WithdrawReplaceEvent vault_id (amt withdrawn_tokens) (amt to_withdraw_collateral)))"

subsection \<open>Accepting\<close>

definition accept_replace_tokens ::
  "('a, 'c, 'x) bridge_config \<Rightarrow> ('a, 'c) vault_id \<Rightarrow> ('a, 'c) vault_id \<Rightarrow> 'c amount \<Rightarrow> ('a, 'c, 'x, unit) bridge_action" where
  "accept_replace_tokens C old_vault_id new_vault_id tokens =
     sbind (on_registry (try_increase_to_be_redeemed_tokens old_vault_id tokens)) (\<lambda>_.
     on_registry (try_increase_to_be_issued_tokens (bc_registry C) new_vault_id tokens))"

definition accept_replace_inner ::
  "('a, 'c, 'x) bridge_config \<Rightarrow> ('a, 'c) vault_id \<Rightarrow> ('a, 'c) vault_id \<Rightarrow> nat \<Rightarrow> nat \<Rightarrow> address \<Rightarrow> ('a, 'c, 'x, h256) bridge_action" where
  "accept_replace_inner C old_vault_id new_vault_id n m btc_address =
     (let R = bc_registry C; amount_btc = Amount n (wrapped_currency old_vault_id); collateral = Amount m (collateral_currency new_vault_id) in
     sbind (sensure (\<lambda>_. old_vault_id \<noteq> new_vault_id) (ReplaceError ReplaceSelfNotAllowed)) (\<lambda>_.
     sbind (sensure (\<lambda>_. wrapped_currency old_vault_id = wrapped_currency new_vault_id) (ReplaceError InvalidWrappedCurrency)) (\<lambda>_.
     sbind (slift (\<lambda>s. ensure_not_banned R (reg s) new_vault_id)) (\<lambda>_.
     sbind (on_registry (decrease_to_be_replaced_tokens R old_vault_id amount_btc)) (\<lambda>(redeemable_tokens, griefing_collateral).
     sbind (slift (\<lambda>s. am_ge redeemable_tokens (replace_dust_value s (wrapped_currency old_vault_id)))) (\<lambda>above_dust.
     sbind (sensure (\<lambda>_. above_dust) (ReplaceError ReplaceAmountBelowDustAmount)) (\<lambda>_.
     sbind (slift (\<lambda>_. calculate_collateral collateral redeemable_tokens amount_btc)) (\<lambda>actual_new_vault_collateral.
     sbind (on_registry (try_deposit_collateral R new_vault_id actual_new_vault_collateral)) (\<lambda>_.
     sbind (accept_replace_tokens C old_vault_id new_vault_id redeemable_tokens) (\<lambda>_.
     sbind (on_registry (transfer_funds R (AvailableReplaceCollateral old_vault_id) (ActiveReplaceCollateral old_vault_id) griefing_collateral)) (\<lambda>_.
     sbind (draw_secure_id C (vid_account old_vault_id)) (\<lambda>replace_id.
     sbind (sget (\<lambda>s. \<lparr>rep_old_vault = old_vault_id, rep_new_vault = new_vault_id, rep_amount = amt redeemable_tokens,
       rep_griefing_collateral = amt griefing_collateral, rep_collateral = amt actual_new_vault_collateral, rep_accept_time = b_height C s,
       rep_period = ReplacePeriod s, rep_btc_address = btc_address, rep_btc_height = bc_best_height C (outside s), rep_status = Replace_Pending\<rparr>)) (\<lambda>request.
     sbind (insert_replace_request replace_id request) (\<lambda>_.
     sbind (announce (AcceptReplaceEvent replace_id old_vault_id new_vault_id (rep_amount request) (rep_collateral request) btc_address)) (\<lambda>_.
     sret replace_id)))))))))))))))"

subsection \<open>Executing and cancelling\<close>

definition execute_replace_inner :: "('a, 'c, 'x) bridge_config \<Rightarrow> h256 \<Rightarrow> full_transaction_proof \<Rightarrow> ('a, 'c, 'x, unit) bridge_action" where
  "execute_replace_inner C replace_id unchecked_transaction =
     sbind (slift (\<lambda>s. get_open_or_cancelled_replace_request s replace_id)) (\<lambda>request.
     sbind (slift (\<lambda>_. rep_collateral_of request)) (\<lambda>collateral.
     (let R = bc_registry C; griefing_collateral = rep_griefing_of C request; amount = rep_amount_of request;
          new_vault_id = rep_new_vault request; old_vault_id = rep_old_vault request in
     sbind (slift (\<lambda>s. bc_op_return_payment C (outside s) unchecked_transaction (rep_btc_address request) (rep_amount request) replace_id)) (\<lambda>_.
     sbind (case rep_status request of
              Replace_Pending \<Rightarrow>
                sbind (on_registry (transfer_funds R (ActiveReplaceCollateral old_vault_id) (FreeBalance (vid_account old_vault_id)) griefing_collateral)) (\<lambda>_.
                sret collateral)
            | Replace_Cancelled \<Rightarrow>
                sbind (accept_replace_tokens C old_vault_id new_vault_id amount) (\<lambda>_. sret (am_zero (cur collateral)))
            | Replace_Completed \<Rightarrow> sfail (ReplaceError ReplaceCompleted)) (\<lambda>collateral.
     sbind (on_registry (replace_tokens R old_vault_id new_vault_id amount collateral)) (\<lambda>_.
     sbind (announce (ExecuteReplaceEvent replace_id old_vault_id new_vault_id)) (\<lambda>_.
     set_replace_status replace_id Replace_Completed)))))))"

definition cancel_replace_inner :: "('a, 'c, 'x) bridge_config \<Rightarrow> h256 \<Rightarrow> ('a, 'c, 'x, unit) bridge_action" where
  "cancel_replace_inner C replace_id =
     sbind (slift (\<lambda>s. get_open_replace_request s replace_id)) (\<lambda>request.
     sbind (slift (\<lambda>_. rep_collateral_of request)) (\<lambda>collateral.
     (let R = bc_registry C; griefing_collateral = rep_griefing_of C request; amount = rep_amount_of request; new_vault_id = rep_new_vault request in
     sbind (slift (\<lambda>s. bc_expired C (outside s) (rep_accept_time request) (rep_btc_height request) (max (ReplacePeriod s) (rep_period request)))) (\<lambda>expired.
     sbind (sensure (\<lambda>_. expired) (ReplaceError ReplacePeriodNotExpired)) (\<lambda>_.
     sbind (on_registry (cancel_replace_tokens R (rep_old_vault request) new_vault_id amount)) (\<lambda>_.
     sbind (on_registry (transfer_funds R (ActiveReplaceCollateral (rep_old_vault request)) (FreeBalance (vid_account new_vault_id)) griefing_collateral)) (\<lambda>_.
     sbind (slift (\<lambda>s. is_vault_liquidated (reg s) new_vault_id)) (\<lambda>liquidated.
     sbind (if \<not> liquidated then slift (\<lambda>s. is_allowed_to_withdraw_collateral R (reg s) new_vault_id (Some collateral)) else sret False) (\<lambda>allowed.
     sbind (if allowed then on_registry (force_withdraw_collateral R new_vault_id collateral) else sret ()) (\<lambda>_.
     sbind (set_replace_status replace_id Replace_Cancelled) (\<lambda>_.
     announce (CancelReplaceEvent replace_id new_vault_id (rep_old_vault request) (rep_griefing_collateral request)))))))))))))"

subsection \<open>Dispatchables\<close>

definition request_replace :: "('a, 'c, 'x) bridge_config \<Rightarrow> 'a origin \<Rightarrow> 'c vault_currency_pair \<Rightarrow> nat \<Rightarrow> ('a, 'c, 'x, unit) bridge_action" where
  "request_replace C origin currency_pair amount =
     sbind (slift (\<lambda>_. signed_vault origin currency_pair)) (\<lambda>old_vault. request_replace_inner C old_vault amount)"

definition withdraw_replace :: "('a, 'c, 'x) bridge_config \<Rightarrow> 'a origin \<Rightarrow> 'c vault_currency_pair \<Rightarrow> nat \<Rightarrow> ('a, 'c, 'x, unit) bridge_action" where
  "withdraw_replace C origin currency_pair amount =
     sbind (slift (\<lambda>_. signed_vault origin currency_pair)) (\<lambda>old_vault. withdraw_replace_inner C old_vault amount)"

definition accept_replace ::
  "('a, 'c, 'x) bridge_config \<Rightarrow> 'a origin \<Rightarrow> 'c vault_currency_pair \<Rightarrow> ('a, 'c) vault_id \<Rightarrow> nat \<Rightarrow> nat \<Rightarrow> address \<Rightarrow> ('a, 'c, 'x, h256) bridge_action" where
  "accept_replace C origin currency_pair old_vault amount_btc collateral btc_address =
     sbind (slift (\<lambda>_. signed_vault origin currency_pair)) (\<lambda>new_vault. accept_replace_inner C old_vault new_vault amount_btc collateral btc_address)"

definition execute_replace :: "('a, 'c, 'x) bridge_config \<Rightarrow> 'a origin \<Rightarrow> h256 \<Rightarrow> full_transaction_proof \<Rightarrow> ('a, 'c, 'x, unit) bridge_action" where
  "execute_replace C origin replace_id unchecked_transaction =
     sbind (slift (\<lambda>_. ensure_signed origin)) (\<lambda>_. execute_replace_inner C replace_id unchecked_transaction)"

definition cancel_replace :: "('a, 'c, 'x) bridge_config \<Rightarrow> 'a origin \<Rightarrow> h256 \<Rightarrow> ('a, 'c, 'x, unit) bridge_action" where
  "cancel_replace C origin replace_id = sbind (slift (\<lambda>_. ensure_signed origin)) (\<lambda>_. cancel_replace_inner C replace_id)"

definition set_replace_period :: "'a origin \<Rightarrow> nat \<Rightarrow> ('a, 'c, 'x, unit) bridge_action" where
  "set_replace_period origin period =
     sbind (slift (\<lambda>_. ensure_root origin)) (\<lambda>_.
     sbind (smod (\<lambda>s. s\<lparr>ReplacePeriod := period\<rparr>)) (\<lambda>_.
     announce (ReplacePeriodChange period)))"

end
