(* ===== verification/Bridge_Supply.thy ===== *)
theory Bridge_Supply
  imports Issue Redeem Replace
begin

text \<open>
  The supply of the wrapped currency. \<open>supply_laws\<close> states what the ledger and the other pallets do to the
  total issuance of one currency: minting adds to it, burning takes from it, and everything else leaves it
  alone. Operations of the registry never mint or burn.
\<close>

subsection \<open>Actions that keep a value\<close>

named_theorems still_intros \<open>rules for actions that keep a value of the state\<close>

definition still :: "('s \<Rightarrow> 'v) \<Rightarrow> ('s, 'e, 'r) action \<Rightarrow> bool" where
  "still f m \<longleftrightarrow> (\<forall>s x s'. m s = Inr (x, s') \<longrightarrow> f s' = f s)"

lemma stillD: "still f m \<Longrightarrow> m s = Inr (x, s') \<Longrightarrow> f s' = f s"
  by (simp add: still_def)

lemma still_basic [still_intros]:
  "still f (sret x)" "still f (sfail e)" "still f (sget g)" "still f (slift h)" "still f (sensure P e')"
  by (auto simp: still_def rbind_Inr_iff split: if_splits)

lemma still_smod [still_intros]: "(\<And>s. f (g s) = f s) \<Longrightarrow> still f (smod g)"
  by (auto simp: still_def)

lemma still_sbind [still_intros]: "still f m \<Longrightarrow> (\<And>x. still f (k x)) \<Longrightarrow> still f (sbind m k)"
  unfolding still_def by (auto simp: rbind_Inr_iff)

lemma still_cases [still_intros]:
  "still f m \<Longrightarrow> still f m' \<Longrightarrow> still f (if b then m else m')"
  "still f m \<Longrightarrow> (\<And>x. still f (k x)) \<Longrightarrow> still f (case o' of None \<Rightarrow> m | Some x \<Rightarrow> k x)"
  "(\<And>x y. still f (k' x y)) \<Longrightarrow> still f (case p of (x, y) \<Rightarrow> k' x y)"
  by (auto split: option.splits prod.splits)

subsection \<open>Laws of the supply\<close>

definition token_laws :: "'c \<Rightarrow> ('x \<Rightarrow> nat) \<Rightarrow> ('a, 'c, 'x) tokens \<Rightarrow> bool" where
  "token_laws w S T \<longleftrightarrow> (\<forall>c a b n. still S (tok_transfer T c a b n)) \<and> (\<forall>c a n. still S (tok_reserve T c a n))
     \<and> (\<forall>c a n x. S (snd (tok_unreserve T c a n x)) = S x)
     \<and> (\<forall>c a n x r x'. tok_slash_reserved T c a n x = (r, x') \<longrightarrow> r \<le> n \<and> S x = S x' + (if c = w then n - r else 0))
     \<and> (\<forall>c a n x u x'. tok_deposit T c a n x = Inr (u, x') \<longrightarrow> S x' = S x + (if c = w then n else 0))"

definition registry_supply_laws :: "('a, 'c, 'x) vault_config \<Rightarrow> 'c \<Rightarrow> ('x \<Rightarrow> nat) \<Rightarrow> bool" where
  "registry_supply_laws R w S \<longleftrightarrow> token_laws w S (cfg_tokens R)
     \<and> (\<forall>i a n. still S (cfg_stake_deposit R i a n)) \<and> (\<forall>i a n. still S (cfg_stake_withdraw R i a n))
     \<and> (\<forall>i a. still S (cfg_stake_withdraw_all R i a)) \<and> (\<forall>i n. still S (cfg_stake_slash R i n))
     \<and> (\<forall>i. still S (cfg_stake_force_refund R i)) \<and> (\<forall>c i n. still S (cfg_reward_set_stake R c i n))
     \<and> (\<forall>c n. still S (cfg_capacity_set_stake R c n)) \<and> (\<forall>i. still S (cfg_distribute_all_vault_rewards R i))"

definition supply_laws :: "('a, 'c, 'x) bridge_config \<Rightarrow> 'c \<Rightarrow> ('x \<Rightarrow> nat) \<Rightarrow> bool" where
  "supply_laws C w S \<longleftrightarrow> registry_supply_laws (bc_registry C) w S \<and> token_laws w S (fc_tokens (bc_fee C))
     \<and> (\<forall>c n. still S (fc_capacity_distribute (bc_fee C) c n)) \<and> (\<forall>a x. S (snd (bc_secure_id C a x)) = S x)"

definition issuance :: "('x \<Rightarrow> nat) \<Rightarrow> ('a, 'c, 'x) registry \<Rightarrow> nat" where
  "issuance S r = S (world r)"

lemma issuance_simps [simp]:
  "issuance S (r\<lparr>world := x\<rparr>) = S x" "issuance S (r\<lparr>Vaults := vs\<rparr>) = issuance S r" "issuance S (r\<lparr>LiquidationVault := l\<rparr>) = issuance S r"
  "issuance S (r\<lparr>registry_events := es\<rparr>) = issuance S r" "issuance S (r\<lparr>TotalUserVaultCollateral := tc\<rparr>) = issuance S r"
  "issuance S (r\<lparr>NominationVaults := nv\<rparr>) = issuance S r" "issuance S (r\<lparr>NominationEnabled := b\<rparr>) = issuance S r"
  "issuance S (r\<lparr>NominationLimit := nl\<rparr>) = issuance S r" "issuance S (r\<lparr>VaultBitcoinPublicKey := ks\<rparr>) = issuance S r"
  "issuance S (r\<lparr>MinimumCollateralVault := mc\<rparr>) = issuance S r" "issuance S (r\<lparr>SystemCollateralCeiling := cc\<rparr>) = issuance S r"
  "issuance S (r\<lparr>SecureCollateralThreshold := st\<rparr>) = issuance S r" "issuance S (r\<lparr>PremiumRedeemThreshold := pt\<rparr>) = issuance S r"
  "issuance S (r\<lparr>LiquidationCollateralThreshold := lt\<rparr>) = issuance S r"
  by (simp_all add: issuance_def)

lemma still_token_moves:
  assumes "token_laws w S T"
  shows "still S (am_transfer T x a b)" "still S (am_lock_on T x a)" "still S (am_unlock_on T x a)"
  using assms unfolding token_laws_def am_transfer_def am_lock_on_def
  by (auto simp: am_unlock_on_def still_def Let_def split: prod.splits if_splits) (metis snd_conv)

lemma still_sweep: "token_laws w S T \<Longrightarrow> still S (on_sweep T a b x)"
  unfolding on_sweep_def by (rule still_token_moves)

lemma still_distribute_rewards:
  assumes "token_laws w S (fc_tokens F)" and "\<And>c n. still S (fc_capacity_distribute F c n)"
  shows "still S (distribute_rewards F x)"
proof -
  have "still S (distribute F x)"
    using assms(2) by (fastforce simp: still_def distribute_def split: sum.splits)
  then show ?thesis unfolding distribute_rewards_def by (intro still_intros still_sweep [OF assms(1)])
qed

lemma mint_supply: "token_laws w S T \<Longrightarrow> am_mint_to T x a s = Inr (u, s') \<Longrightarrow> S s' = S s + (if cur x = w then amt x else 0)"
  unfolding token_laws_def am_mint_to_def by blast

lemma burn_supply: "token_laws w S T \<Longrightarrow> am_burn_from T x a s = Inr (u, s') \<Longrightarrow> S s = S s' + (if cur x = w then amt x else 0)"
  unfolding token_laws_def am_burn_from_def by (auto simp: Let_def split: prod.splits if_splits)

subsection \<open>The registry keeps the supply\<close>

lemma still_on_world [still_intros]: "still S m \<Longrightarrow> still (issuance S) (on_world m)"
  by (auto simp: still_def on_world_def rbind_Inr_iff issuance_def)

lemma still_records [still_intros]: "still (issuance S) (emit e)" "still (issuance S) (update g v)" "still (issuance S) (lv_update h lv)" "still (issuance S) (insert_vault i v)"
  unfolding emit_def update_def lv_update_def insert_vault_def Let_def by (intro still_intros; simp)+

lemma still_config:
  assumes "registry_supply_laws R w S"
  shows "still S (am_transfer (cfg_tokens R) x a b)" "still S (am_lock_on (cfg_tokens R) x a)" "still S (am_unlock_on (cfg_tokens R) x a)"
    "still S (cfg_stake_deposit R i a n)" "still S (cfg_stake_withdraw R i a n)" "still S (cfg_stake_withdraw_all R i a)" "still S (cfg_stake_slash R j n)"
    "still S (cfg_stake_force_refund R j)" "still S (cfg_reward_set_stake R c j n)" "still S (cfg_capacity_set_stake R c n)"
    "still S (cfg_distribute_all_vault_rewards R j)"
proof -
  have T: "token_laws w S (cfg_tokens R)" using assms by (simp only: registry_supply_laws_def)
  show "still S (am_transfer (cfg_tokens R) x a b)" "still S (am_lock_on (cfg_tokens R) x a)" "still S (am_unlock_on (cfg_tokens R) x a)"
    by (rule still_token_moves [OF T])+
qed (use assms in \<open>simp_all only: registry_supply_laws_def\<close>)

lemma still_pool_manager:
  assumes "registry_supply_laws R w S"
  shows "still (issuance S) (update_reward_stake R i)" "still (issuance S) (pm_deposit_collateral R i n a)" "still (issuance S) (pm_withdraw_collateral R i n ma k)"
    "still (issuance S) (pm_slash_collateral R i a)" "still (issuance S) (kick_nominators R i)" "still (issuance S) (on_vault_settings_change R i)"
    "still (issuance S) (ext_reward_set_stake R i a)" "still (issuance S) (update_capacity_stake R c)"
  unfolding pm_deposit_collateral_def pm_withdraw_collateral_def pm_slash_collateral_def kick_nominators_def on_vault_settings_change_def
    update_reward_stake_def update_capacity_stake_def ext_reward_set_stake_def ext_withdraw_stake_def ext_force_refund_def
  by (intro still_intros still_config [OF assms])+

lemma still_backing [still_intros]:
  "still (issuance S) (try_increase_total_backing_collateral p a)" "still (issuance S) (decrease_total_backing_collateral p a)"
  unfolding try_increase_total_backing_collateral_def decrease_total_backing_collateral_def by (intro still_intros; simp)+

lemma still_methods [still_intros]:
  "still (issuance S) (increase_issued x v)" "still (issuance S) (increase_to_be_issued x v)" "still (issuance S) (increase_to_be_redeemed x v)"
  "still (issuance S) (decrease_issued x v)" "still (issuance S) (decrease_to_be_issued x v)" "still (issuance S) (decrease_to_be_redeemed x v)"
  "still (issuance S) (lv_increase_issued x lv)" "still (issuance S) (lv_increase_to_be_issued x lv)" "still (issuance S) (lv_increase_to_be_redeemed x lv)"
  "still (issuance S) (lv_burn_issued x lv)" "still (issuance S) (lv_increase_collateral x lv)" "still (issuance S) (lv_decrease_collateral x lv)"
  unfolding increase_issued_def increase_to_be_issued_def increase_to_be_redeemed_def decrease_issued_def decrease_to_be_issued_def decrease_to_be_redeemed_def
    lv_increase_issued_def lv_increase_to_be_issued_def lv_increase_to_be_redeemed_def lv_burn_issued_def lv_decrease_issued_def lv_decrease_to_be_issued_def
    lv_decrease_to_be_redeemed_def lv_increase_collateral_def lv_decrease_collateral_def
  by (intro still_intros)+

lemma still_requests [still_intros]:
  "still (issuance S) (request_issue_tokens x v)" "still (issuance S) (cancel_issue_tokens x v)" "still (issuance S) (execute_issue_tokens x v)"
  "still (issuance S) (request_redeem_tokens x v)" "still (issuance S) (cancel_redeem_tokens x v)" "still (issuance S) (execute_redeem_tokens x v)"
  unfolding request_issue_tokens_def cancel_issue_tokens_def execute_issue_tokens_def request_redeem_tokens_def cancel_redeem_tokens_def execute_redeem_tokens_def
  by (intro still_intros)+

lemma still_nomination:
  assumes "registry_supply_laws R w S"
  shows "still (issuance S) (nomination_deposit_collateral R i n a)" "still (issuance S) (try_deposit_collateral R i am)" "still (issuance S) (nomination_withdraw_collateral R i n ma k)"
    "still (issuance S) (opt_in_to_nomination_inner i)" "still (issuance S) (opt_out_of_nomination_inner R i)" "still (issuance S) (slash_backing_collateral R i am)"
    "still (issuance S) (force_withdraw_collateral R i am)"
  unfolding nomination_deposit_collateral_def try_deposit_collateral_def deposit_vault_collateral_def nomination_withdraw_collateral_def
    opt_in_to_nomination_inner_def opt_out_of_nomination_inner_def slash_backing_collateral_def force_withdraw_collateral_def Let_def
  by (intro still_intros still_config [OF assms] still_pool_manager [OF assms]; simp)+

lemma still_transfer:
  assumes "registry_supply_laws R w S"
  shows "still (issuance S) (transfer_funds R src dst x)" "still (issuance S) (transfer_funds_saturated R src dst x)"
proof -
  note L = still_config [OF assms] still_nomination [OF assms]
  have r: "still (issuance S) (release_funds R src x)" for x by (cases src; simp only: release_funds.simps method_defs; intro still_intros L)
  have b: "still (issuance S) (bind_funds R dst x)" for x by (cases dst; simp only: bind_funds.simps method_defs; intro still_intros L)
  show t: "still (issuance S) (transfer_funds R src dst x)" for x unfolding transfer_funds_def by (intro still_intros L r b)
  show "still (issuance S) (transfer_funds_saturated R src dst x)"
    unfolding transfer_funds_saturated_def Let_def by (intro still_intros t)
qed

lemma still_interest [still_intros]:
  "still (issuance S) (decrease_to_be_issued_tokens i x)" "still (issuance S) (issue_tokens i x)" "still (issuance S) (try_increase_to_be_replaced_tokens i x)"
  "still (issuance S) (decrease_to_be_replaced_tokens R i x)" "still (issuance S) (try_increase_to_be_redeemed_tokens i x)"
  "still (issuance S) (decrease_to_be_redeemed_tokens i x)" "still (issuance S) (decrease_tokens i user x)" "still (issuance S) (decrease_liquidated_collateral i x)"
  "still (issuance S) (try_increase_to_be_issued_tokens R i x)" "still (issuance S) (register_deposit_address R i h)" "still (issuance S) (ban_vault R i)"
  "still (issuance S) (register_public_key og k)" "still (issuance S) (recover_vault_id og p)" "still (issuance S) (opt_in_to_nomination og p)"
  "still (issuance S) (set_nomination_enabled og b)" "still (issuance S) (set_nomination_limit og p n)" "still (issuance S) (set_minimum_collateral og c n)"
  "still (issuance S) (set_system_collateral_ceiling og p n)" "still (issuance S) (set_secure_collateral_threshold og p t)"
  "still (issuance S) (set_premium_redeem_threshold og p t)" "still (issuance S) (set_liquidation_collateral_threshold og p t)"
  "still (issuance S) (try_set_vault_custom_secure_threshold i mt)"
  unfolding decrease_to_be_issued_tokens_def issue_tokens_def try_increase_to_be_replaced_tokens_def decrease_to_be_replaced_tokens_def
    try_increase_to_be_redeemed_tokens_def decrease_to_be_redeemed_tokens_def decrease_tokens_def decrease_liquidated_collateral_def
    try_increase_to_be_issued_tokens_def register_deposit_address_def ban_vault_def register_public_key_def recover_vault_id_def opt_in_to_nomination_def
    set_nomination_enabled_def set_nomination_limit_def set_minimum_collateral_def set_system_collateral_ceiling_def set_secure_collateral_threshold_def
    set_premium_redeem_threshold_def set_liquidation_collateral_threshold_def try_set_vault_custom_secure_threshold_def opt_in_to_nomination_inner_def
    method_defs Let_def
  by (intro still_intros; simp)+

lemma still_calls:
  assumes "registry_supply_laws R w S"
  shows "still (issuance S) (withdraw_replace_request R i x)" "still (issuance S) (redeem_tokens R i x premium user)"
    "still (issuance S) (redeem_tokens_liquidation R c user x)" "still (issuance S) (replace_tokens R i j x y)" "still (issuance S) (cancel_replace_tokens R i j x)"
    "still (issuance S) (liquidate R v)" "still (issuance S) (register_vault R og p n)" "still (issuance S) (accept_new_issues R og p b)"
    "still (issuance S) (set_custom_secure_threshold R og p t)" "still (issuance S) (deposit_collateral R og i n)" "still (issuance S) (withdraw_collateral R og i mn k)"
    "still (issuance S) (opt_out_of_nomination R og p)"
  unfolding withdraw_replace_request_def redeem_tokens_def redeem_tokens_liquidation_def replace_tokens_def cancel_replace_tokens_def liquidate_def
    slash_for_to_be_redeemed_def slash_to_liquidation_vault_def register_vault_def register_vault_inner_def accept_new_issues_def set_custom_secure_threshold_def
    deposit_collateral_def withdraw_collateral_def opt_out_of_nomination_def method_defs Let_def
  by (intro still_intros still_config [OF assms] still_pool_manager [OF assms] still_nomination [OF assms] still_transfer [OF assms])+

lemma still_liquidation:
  assumes "registry_supply_laws R w S"
  shows "still (issuance S) (liquidate_vault R i)" "still (issuance S) (report_undercollateralized_vault R i)"
  unfolding liquidate_vault_def report_undercollateralized_vault_def by (intro still_intros still_calls [OF assms])+

lemma step_issuance:
  assumes "vault_step R op s s'" and "registry_supply_laws R w S"
  shows "issuance S s' = issuance S s"
proof -
  note L = still_intros still_calls [OF assms(2)] still_liquidation [OF assms(2)] still_transfer [OF assms(2)] still_nomination [OF assms(2)]
  have "on_exchange_rate_change R c s = s'' \<Longrightarrow> issuance S s'' = issuance S s" for c s s''
    using stillD [OF still_pool_manager(8) [OF assms(2)]] by (fastforce simp: on_exchange_rate_change_def split: sum.splits)
  from assms(1) this show ?thesis
    by (induction rule: vault_step.induct) (assumption | erule stillD [rotated], rule L)+
qed

end
