(* ===== verification/Bridge_Books.thy ===== *)
theory Bridge_Books
  imports Bridge_Supply
begin

text \<open>
  The books of the bridge: what every action posts to the totals of the registry and to the supply of the wrapped
  currency, and what the open requests demand. The balance \<open>bridge_ok\<close> says that the totals of tokens to be issued and
  to be redeemed are exactly what the pending requests demand, and that the supply is backed by issued tokens.
\<close>

subsection \<open>Sums over maps\<close>

definition msum :: "('v \<Rightarrow> nat) \<Rightarrow> ('k \<Rightarrow> 'v option) \<Rightarrow> nat" where
  "msum f m = (\<Sum>k\<in>dom m. f (the (m k)))"

lemma msum_new:
  assumes "finite (dom m)" and "m k = None"
  shows "msum f (m(k \<mapsto> v)) = msum f m + f v"
proof -
  have "k \<notin> dom m" using assms(2) by auto
  then have "(\<Sum>j\<in>dom m. f (the ((m(k \<mapsto> v)) j))) = msum f m" unfolding msum_def by (intro sum.cong) auto
  then show ?thesis using assms \<open>k \<notin> dom m\<close> by (simp add: msum_def)
qed

lemma msum_change:
  assumes "finite (dom m)" and "m k = Some u"
  shows "msum f (m(k \<mapsto> v)) + f u = msum f m + f v"
proof -
  let ?m = "m(k := None)"
  have "finite (dom ?m)" "?m k = None" using assms(1) by simp_all
  then have "msum f (?m(k \<mapsto> x)) = msum f ?m + f x" for x by (rule msum_new)
  from this [of u] this [of v] show ?thesis using assms(2) by (simp add: fun_upd_idem)
qed

subsection \<open>What an operation posts\<close>

type_synonym 'c posting = "'c vault_currency_pair \<Rightarrow> int"

definition single :: "'c vault_currency_pair \<Rightarrow> int \<Rightarrow> 'c posting" where
  "single p n = (\<lambda>q. if q = p then n else 0)"

abbreviation nothing :: "'c posting" where
  "nothing \<equiv> (\<lambda>q. 0)"

fun op_issued :: "'c token_op \<Rightarrow> 'c posting" where
  "op_issued (Execute_Issue p n) = single p (int n)"
| "op_issued (Execute_Redeem p n) = single p (- int n)"
| "op_issued (Redeem_Liquidation p n) = single p (- int n)"
| "op_issued (Replace p q n) = (\<lambda>x. single p (- int n) x + single q (int n) x)"
| "op_issued _ = nothing"

fun op_to_be_issued :: "'c token_op \<Rightarrow> 'c posting" where
  "op_to_be_issued (Request_Issue p n) = single p (int n)"
| "op_to_be_issued (Cancel_Issue p n) = single p (- int n)"
| "op_to_be_issued (Execute_Issue p n) = single p (- int n)"
| "op_to_be_issued (Replace p q n) = single q (- int n)"
| "op_to_be_issued (Cancel_Replace p q n) = single q (- int n)"
| "op_to_be_issued _ = nothing"

fun op_to_be_redeemed :: "'c token_op \<Rightarrow> 'c posting" where
  "op_to_be_redeemed (Request_Redeem p n) = single p (int n)"
| "op_to_be_redeemed (Cancel_Redeem p n) = single p (- int n)"
| "op_to_be_redeemed (Execute_Redeem p n) = single p (- int n)"
| "op_to_be_redeemed (Replace p q n) = single p (- int n)"
| "op_to_be_redeemed (Cancel_Replace p q n) = single p (- int n)"
| "op_to_be_redeemed _ = nothing"

definition totals_posted :: "'c posting \<Rightarrow> 'c posting \<Rightarrow> 'c posting \<Rightarrow> ('c vault_currency_pair \<Rightarrow> counts) \<Rightarrow> ('c vault_currency_pair \<Rightarrow> counts) \<Rightarrow> bool" where
  "totals_posted I t r T T' \<longleftrightarrow> (\<forall>q. int (n_issued (T' q)) = int (n_issued (T q)) + I q
     \<and> int (n_to_be_issued (T' q)) = int (n_to_be_issued (T q)) + t q \<and> int (n_to_be_redeemed (T' q)) = int (n_to_be_redeemed (T q)) + r q)"

lemma shift_posted: "shift p i t r T = Some T' \<Longrightarrow> totals_posted (single p i) (single p t) (single p r) T T'"
  by (auto simp: shift_def totals_posted_def single_def Let_def split: if_splits)

lemma single_0 [simp]: "single p 0 = nothing"
  by (auto simp: single_def)

lemma totals_posted_trans:
  "totals_posted I t r T T1 \<Longrightarrow> totals_posted I' t' r' T1 T' \<Longrightarrow> totals_posted (\<lambda>q. I q + I' q) (\<lambda>q. t q + t' q) (\<lambda>q. r q + r' q) T T'"
  by (simp add: totals_posted_def)

lemma spec_step_posted: "spec_step op T = Some T' \<Longrightarrow> totals_posted (op_issued op) (op_to_be_issued op) (op_to_be_redeemed op) T T'"
proof (cases op)
  case (Replace p q n)
  assume "spec_step op T = Some T'"
  then obtain T1 where "shift p (- int n) 0 (- int n) T = Some T1" "shift q (int n) (- int n) 0 T1 = Some T'"
    using Replace by (auto simp: bind_eq_Some_conv)
  from totals_posted_trans [OF this [THEN shift_posted]] show ?thesis by (simp add: Replace)
next
  case (Cancel_Replace p q n)
  assume "spec_step op T = Some T'"
  then obtain T1 where "shift p 0 0 (- int n) T = Some T1" "shift q 0 (- int n) 0 T1 = Some T'"
    using Cancel_Replace by (auto simp: bind_eq_Some_conv)
  from totals_posted_trans [OF this [THEN shift_posted]] show ?thesis by (simp add: Cancel_Replace)
qed (auto dest: shift_posted simp: totals_posted_def)

definition posted :: "('x \<Rightarrow> nat) \<Rightarrow> 'c posting \<Rightarrow> 'c posting \<Rightarrow> 'c posting \<Rightarrow> int \<Rightarrow> ('a, 'c, 'x) bridge \<Rightarrow> ('a, 'c, 'x) bridge \<Rightarrow> bool" where
  "posted S I t r b s s' \<longleftrightarrow> registry_ok (reg s') \<and> totals_posted I t r (totals (reg s)) (totals (reg s'))
     \<and> int (issuance S (reg s')) = int (issuance S (reg s)) + b"

lemma posted_ok: "posted S I t r b s s' \<Longrightarrow> registry_ok (reg s')"
  by (simp add: posted_def)

lemma posted_trans:
  "posted S I t r b s s1 \<Longrightarrow> posted S I' t' r' b' s1 s' \<Longrightarrow>
     posted S (\<lambda>q. I q + I' q) (\<lambda>q. t q + t' q) (\<lambda>q. r q + r' q) (b + b') s s'"
  by (auto simp: posted_def intro: totals_posted_trans)

definition same_requests :: "('a, 'c, 'x) bridge \<Rightarrow> ('a, 'c, 'x) bridge \<Rightarrow> bool" where
  "same_requests s s' \<longleftrightarrow> IssueRequests s' = IssueRequests s \<and> RedeemRequests s' = RedeemRequests s \<and> ReplaceRequests s' = ReplaceRequests s"

lemma same_requests_trans: "same_requests s s1 \<Longrightarrow> same_requests s1 s' \<Longrightarrow> same_requests s s'"
  by (simp add: same_requests_def)

definition books :: "('x \<Rightarrow> nat) \<Rightarrow> 'c posting \<Rightarrow> 'c posting \<Rightarrow> 'c posting \<Rightarrow> int \<Rightarrow> ('a, 'c, 'x) bridge \<Rightarrow> ('a, 'c, 'x) bridge \<Rightarrow> bool" where
  "books S I t r b s s' \<longleftrightarrow> posted S I t r b s s' \<and> same_requests s s'"

abbreviation idle :: "('x \<Rightarrow> nat) \<Rightarrow> ('a, 'c, 'x) bridge \<Rightarrow> ('a, 'c, 'x) bridge \<Rightarrow> bool" where
  "idle S s s' \<equiv> books S nothing nothing nothing 0 s s'"

lemma books_trans:
  "books S I t r b s s1 \<Longrightarrow> books S I' t' r' b' s1 s' \<Longrightarrow> books S (\<lambda>q. I q + I' q) (\<lambda>q. t q + t' q) (\<lambda>q. r q + r' q) (b + b') s s'"
  unfolding books_def by (blast intro: posted_trans same_requests_trans)

lemma books_ok: "books S I t r b s s' \<Longrightarrow> registry_ok (reg s')"
  by (simp add: books_def posted_def)

lemma idle_trans: "idle S s s1 \<Longrightarrow> books S I t r b s1 s' \<Longrightarrow> books S I t r b s s'" "books S I t r b s s1 \<Longrightarrow> idle S s1 s' \<Longrightarrow> books S I t r b s s'"
  using books_trans [of S nothing nothing nothing 0 s s1 I t r b s'] books_trans [of S I t r b s s1 nothing nothing nothing 0 s'] by simp_all

lemma idle_refl: "registry_ok (reg s) \<Longrightarrow> reg s' = reg s \<Longrightarrow> same_requests s s' \<Longrightarrow> idle S s s'"
  by (simp add: books_def posted_def totals_posted_def)

subsection \<open>Quiet actions\<close>

named_theorems quiet_intros \<open>rules for actions that post nothing\<close>

definition quiet :: "('x \<Rightarrow> nat) \<Rightarrow> ('a, 'c, 'x, 'r) bridge_action \<Rightarrow> bool" where
  "quiet S m \<longleftrightarrow> (\<forall>s x s'. registry_ok (reg s) \<longrightarrow> m s = Inr (x, s') \<longrightarrow> idle S s s')"

lemma quietD: "quiet S m \<Longrightarrow> m s = Inr (x, s') \<Longrightarrow> registry_ok (reg s) \<Longrightarrow> idle S s s'"
  by (simp add: quiet_def)

lemma quiet_basic [quiet_intros]:
  "quiet S (sret x)" "quiet S (sfail e)" "quiet S (sget g)" "quiet S (slift h)" "quiet S (sensure P e')"
  by (auto simp: quiet_def rbind_Inr_iff same_requests_def intro!: idle_refl split: if_splits)

lemma quiet_smod [quiet_intros]:
  "(\<And>s. reg (f s) = reg s) \<Longrightarrow> (\<And>s. same_requests s (f s)) \<Longrightarrow> quiet S (smod f)"
  by (auto simp: quiet_def intro!: idle_refl)

lemma quiet_sbind [quiet_intros]:
  assumes m: "quiet S m" and k: "\<And>x. quiet S (k x)"
  shows "quiet S (sbind m k)"
  unfolding quiet_def
proof (intro allI impI)
  fix s x s' assume ok: "registry_ok (reg s)" and "sbind m k s = Inr (x, s')"
  then obtain y s1 where y: "m s = Inr (y, s1)" "k y s1 = Inr (x, s')" by (auto simp: rbind_Inr_iff)
  note a = quietD [OF m y(1) ok]
  show "idle S s s'" by (rule idle_trans(1) [OF a quietD [OF k y(2) books_ok [OF a]]])
qed

lemma quiet_cases [quiet_intros]:
  "quiet S m \<Longrightarrow> quiet S m' \<Longrightarrow> quiet S (if b then m else m')"
  "quiet S m \<Longrightarrow> (\<And>x. quiet S (k x)) \<Longrightarrow> quiet S (case o' of None \<Rightarrow> m | Some x \<Rightarrow> k x)"
  "(\<And>x y. quiet S (k' x y)) \<Longrightarrow> quiet S (case p of (x, y) \<Rightarrow> k' x y)"
  by (auto split: option.splits prod.splits)

lemma on_registry_run: "on_registry m s = Inr (x, s') \<longleftrightarrow> (\<exists>r. m (reg s) = Inr (x, r) \<and> s' = s\<lparr>reg := r\<rparr>)"
  by (auto simp: on_registry_def rbind_Inr_iff)

lemma books_registry:
  assumes "on_registry m s = Inr (x, s')" and "still (issuance S) m" and "m (reg s) = Inr (x, reg s') \<Longrightarrow> refines op (reg s) (reg s')"
  shows "books S (op_issued op) (op_to_be_issued op) (op_to_be_redeemed op) 0 s s'"
proof -
  obtain r where r: "m (reg s) = Inr (x, r)" "s' = s\<lparr>reg := r\<rparr>" using assms(1) by (auto simp: on_registry_run)
  have rf: "refines op (reg s) r" using assms(3) r by simp
  show ?thesis using rf spec_step_posted [of op] stillD [OF assms(2) r(1)]
    by (auto simp: books_def posted_def same_requests_def r(2) refines_def)
qed

lemma quiet_on_registry [quiet_intros]: "keeps m \<Longrightarrow> still (issuance S) m \<Longrightarrow> quiet S (on_registry m)"
  unfolding quiet_def using books_registry [where op = Internal] refines_internal by fastforce

lemma quiet_on_ledger [quiet_intros]: "still S m \<Longrightarrow> quiet S (on_ledger m)"
  unfolding on_ledger_def by (intro quiet_intros keeps_basic still_intros)

lemma quiet_announce [quiet_intros]: "quiet S (announce e)"
  unfolding announce_def by (intro quiet_intros) (simp_all add: same_requests_def)

lemma books_ledger:
  assumes "on_ledger m s = Inr (x, s')" and "registry_ok (reg s)" and "\<And>y. m (outside s) = Inr (x, y) \<Longrightarrow> int (S y) = int (S (outside s)) + b"
  shows "books S nothing nothing nothing b s s'"
proof -
  obtain y where y: "m (outside s) = Inr (x, y)" "s' = s\<lparr>reg := (reg s)\<lparr>world := y\<rparr>\<rparr>"
    using assms(1) by (auto simp: on_ledger_def on_registry_run on_world_def rbind_Inr_iff)
  have "same (reg s) (reg s')" by (simp add: y(2) same_def vaults_view_def fun_eq_iff)
  then show ?thesis using assms(2) assms(3) [OF y(1)] same_ok same_totals
    by (fastforce simp: books_def posted_def same_requests_def totals_posted_def y(2) issuance_def)
qed

lemma books_mint:
  assumes "on_ledger (am_mint_to T x a) s = Inr (u, s')" and "registry_ok (reg s)" and "token_laws w S T"
  shows "books S nothing nothing nothing (if cur x = w then int (amt x) else 0) s s'"
  by (rule books_ledger [OF assms(1,2)]) (use mint_supply [OF assms(3)] in fastforce)

lemma books_burn:
  assumes "on_ledger (am_burn_from T x a) s = Inr (u, s')" and "registry_ok (reg s)" and "token_laws w S T"
  shows "books S nothing nothing nothing (if cur x = w then - int (amt x) else 0) s s'"
  by (rule books_ledger [OF assms(1,2)]) (use burn_supply [OF assms(3)] in fastforce)

subsection \<open>The balance\<close>

definition iss_due :: "'c vault_currency_pair \<Rightarrow> ('a, 'c) issue_request \<Rightarrow> nat" where
  "iss_due p r = (if iss_status r = Issue_Pending \<and> vid_currencies (iss_vault r) = p then iss_amount r + iss_fee r else 0)"

definition red_due :: "'c vault_currency_pair \<Rightarrow> ('a, 'c) redeem_request \<Rightarrow> nat" where
  "red_due p r = (if red_status r = Redeem_Pending \<and> vid_currencies (red_vault r) = p then red_amount_btc r + red_transfer_fee_btc r else 0)"

definition rep_due_new :: "'c vault_currency_pair \<Rightarrow> ('a, 'c) replace_request \<Rightarrow> nat" where
  "rep_due_new p r = (if rep_status r = Replace_Pending \<and> vid_currencies (rep_new_vault r) = p then rep_amount r else 0)"

definition rep_due_old :: "'c vault_currency_pair \<Rightarrow> ('a, 'c) replace_request \<Rightarrow> nat" where
  "rep_due_old p r = (if rep_status r = Replace_Pending \<and> vid_currencies (rep_old_vault r) = p then rep_amount r else 0)"

definition due_issued :: "('a, 'c, 'x) bridge \<Rightarrow> 'c vault_currency_pair \<Rightarrow> nat" where
  "due_issued s p = msum (iss_due p) (IssueRequests s) + msum (rep_due_new p) (ReplaceRequests s)"

definition due_redeemed :: "('a, 'c, 'x) bridge \<Rightarrow> 'c vault_currency_pair \<Rightarrow> nat" where
  "due_redeemed s p = msum (red_due p) (RedeemRequests s) + msum (rep_due_old p) (ReplaceRequests s)"

definition requests_wf :: "('a, 'c, 'x) bridge \<Rightarrow> bool" where
  "requests_wf s \<longleftrightarrow> finite (dom (IssueRequests s)) \<and> finite (dom (RedeemRequests s)) \<and> finite (dom (ReplaceRequests s))
     \<and> (\<forall>k r. ReplaceRequests s k = Some r \<longrightarrow> rep_old_vault r \<noteq> rep_new_vault r \<and> wrapped_currency (rep_old_vault r) = wrapped_currency (rep_new_vault r))"

definition backed :: "'c \<Rightarrow> ('a, 'c, 'x) registry \<Rightarrow> int" where
  "backed w r = (\<Sum>p | pair_wrapped p = w \<and> int (n_issued (totals r p)) \<noteq> 0. int (n_issued (totals r p)))"

definition wsum :: "'c \<Rightarrow> 'c posting \<Rightarrow> int" where
  "wsum w I = (\<Sum>p | pair_wrapped p = w \<and> I p \<noteq> 0. I p)"

definition bridge_ok :: "'c \<Rightarrow> ('x \<Rightarrow> nat) \<Rightarrow> ('a, 'c, 'x) bridge \<Rightarrow> bool" where
  "bridge_ok w S s \<longleftrightarrow> registry_ok (reg s) \<and> requests_wf s
     \<and> (\<forall>p. n_to_be_issued (totals (reg s) p) = due_issued s p \<and> n_to_be_redeemed (totals (reg s) p) = due_redeemed s p)
     \<and> finite {p. n_issued (totals (reg s) p) \<noteq> 0} \<and> int (issuance S (reg s)) = backed w (reg s)"

lemma wsum_single [simp]: "wsum w (single p n) = (if pair_wrapped p = w then n else 0)"
proof -
  have "{q. pair_wrapped q = w \<and> single p n q \<noteq> 0} = (if pair_wrapped p = w \<and> n \<noteq> 0 then {p} else {})"
    by (auto simp: single_def)
  then show ?thesis by (simp add: wsum_def single_def)
qed

lemma wsum_nothing [simp]: "wsum w nothing = 0"
  by (simp add: wsum_def)

lemma wsum_add:
  assumes "finite {q. I q \<noteq> 0}" and "finite {q. I' q \<noteq> 0}"
  shows "wsum w (\<lambda>q. I q + I' q) = wsum w I + wsum w I'"
proof -
  let ?A = "{q. pair_wrapped q = w \<and> (I q \<noteq> 0 \<or> I' q \<noteq> 0)}"
  have A: "finite ?A" by (rule finite_subset [of _ "{q. I q \<noteq> 0} \<union> {q. I' q \<noteq> 0}"]) (use assms in auto)
  have "wsum w J = sum J ?A" if "\<And>q. J q \<noteq> 0 \<Longrightarrow> I q \<noteq> 0 \<or> I' q \<noteq> 0" for J
    unfolding wsum_def by (rule sum.mono_neutral_left) (use A that in auto)
  from this [of "\<lambda>q. I q + I' q"] this [of I] this [of I'] show ?thesis by (auto simp: sum.distrib)
qed

lemma finite_posting [simp]:
  fixes I I' :: "'c posting"
  shows "finite {q. single p n q \<noteq> 0}" "finite {q. I q \<noteq> 0} \<Longrightarrow> finite {q. I' q \<noteq> 0} \<Longrightarrow> finite {q. I q + I' q \<noteq> 0}"
proof -
  show "finite {q. single p n q \<noteq> 0}" by (rule finite_subset [of _ "{p}"]) (auto simp: single_def)
  show "finite {q. I q \<noteq> 0} \<Longrightarrow> finite {q. I' q \<noteq> 0} \<Longrightarrow> finite {q. I q + I' q \<noteq> 0}"
    by (rule finite_subset [of _ "{q. I q \<noteq> 0} \<union> {q. I' q \<noteq> 0}"]) auto
qed

text \<open>Posting to the registry what the requests change by keeps the balance.\<close>

lemma bridge_okI:
  assumes ok: "bridge_ok w S s" and p: "posted S I t r b s s1" and reg: "reg s' = reg s1" and wf: "requests_wf s'"
    and di: "\<And>q. int (due_issued s' q) = int (due_issued s q) + t q" and dr: "\<And>q. int (due_redeemed s' q) = int (due_redeemed s q) + r q"
    and fin: "finite {q. I q \<noteq> 0}" and b: "b = wsum w I"
  shows "bridge_ok w S s'"
proof -
  let ?T = "totals (reg s)" and ?T' = "totals (reg s1)"
  have T: "int (n_issued (?T' q)) = int (n_issued (?T q)) + I q" "int (n_to_be_issued (?T' q)) = int (n_to_be_issued (?T q)) + t q"
    "int (n_to_be_redeemed (?T' q)) = int (n_to_be_redeemed (?T q)) + r q" for q
    using p unfolding posted_def totals_posted_def by blast+
  have f: "finite {p. n_issued (?T p) \<noteq> 0}" using ok by (simp add: bridge_ok_def)
  have f': "finite {p. int (n_issued (?T p)) \<noteq> 0}" using f by simp
  have "backed w (reg s1) = wsum w (\<lambda>q. int (n_issued (?T q)) + I q)" unfolding backed_def wsum_def T(1) ..
  also have "\<dots> = backed w (reg s) + wsum w I" using wsum_add [OF f' fin] by (simp add: backed_def wsum_def)
  finally have bk: "backed w (reg s1) = backed w (reg s) + wsum w I" .
  have "finite {q. int (n_issued (?T' q)) \<noteq> 0}" unfolding T(1) by (rule finite_posting(2) [OF f' fin])
  then have "finite {q. n_issued (?T' q) \<noteq> 0}" by simp
  moreover have "n_to_be_issued (?T' q) = due_issued s' q" "n_to_be_redeemed (?T' q) = due_redeemed s' q" for q
    using ok T(2,3) [of q] di [of q] dr [of q] by (simp_all add: bridge_ok_def)
  moreover have "int (issuance S (reg s1)) = backed w (reg s1)" using p ok b bk by (simp add: posted_def bridge_ok_def)
  ultimately show ?thesis using wf p by (simp add: bridge_ok_def reg posted_def)
qed

lemma bridge_ok_registry: "bridge_ok w S s \<Longrightarrow> registry_ok (reg s)"
  by (simp add: bridge_ok_def)

lemma bridge_ok_books:
  assumes "bridge_ok w S s" and "books S I nothing nothing b s s'" and "finite {q. I q \<noteq> 0}" and "b = wsum w I"
  shows "bridge_ok w S s'"
  by (rule bridge_okI [OF assms(1), where I = I and t = nothing and r = nothing and b = b])
    (use assms in \<open>auto simp: books_def same_requests_def requests_wf_def bridge_ok_def due_issued_def due_redeemed_def\<close>)

lemma bridge_ok_idle: "bridge_ok w S s \<Longrightarrow> idle S s s' \<Longrightarrow> bridge_ok w S s'"
  by (rule bridge_ok_books [where I = nothing]) auto

end
