(* ===== verification/Bridge_Calls.thy ===== *)
theory Bridge_Calls
  imports Bridge_Books
begin

text \<open>
  What the calls of the request pallets into the registry, the ledger and the fee pallet post to the books, and how a
  change of one request shows in the balance.
\<close>

subsection \<open>Runs of actions\<close>

lemma pair_eta [simp]: "\<lparr>pair_collateral = pair_collateral p, pair_wrapped = pair_wrapped p\<rparr> = p"
  by simp

lemma announce_run: "announce e s = Inr (u, s') \<Longrightarrow> reg s' = reg s \<and> same_requests s s'"
  by (auto simp: announce_def same_requests_def)

lemma if_ok_run: "if_ok m k m' s = Inr r \<Longrightarrow> (\<exists>x s1. m s = Inr (x, s1) \<and> k x s1 = Inr r) \<or> m' s = Inr r"
  by (auto simp: if_ok_def split: sum.splits)

lemma if_run: "(if b then m else m') s = Inr r \<longleftrightarrow> (if b then m s = Inr r else m' s = Inr r)"
  by simp

lemma quiet_ignore [quiet_intros]: "quiet S m \<Longrightarrow> quiet S (ignore_error m)"
  unfolding quiet_def ignore_error_def if_ok_def by (fastforce split: sum.splits simp: same_requests_def intro: idle_refl)

lemma quiet_replace_error [quiet_intros]: "quiet S m \<Longrightarrow> quiet S (replace_error e m)"
  unfolding quiet_def replace_error_def by (auto simp: map_err_Inr)

subsection \<open>Quiet calls\<close>

lemma laws_tokens: "supply_laws C w S \<Longrightarrow> token_laws w S (b_tokens C)" and laws_registry: "supply_laws C w S \<Longrightarrow> registry_supply_laws (bc_registry C) w S"
  by (simp_all add: supply_laws_def registry_supply_laws_def)

lemma quiet_calls:
  assumes "supply_laws C w S"
  shows "quiet S (on_ledger (am_lock_on (b_tokens C) x a))" "quiet S (on_ledger (am_unlock_on (b_tokens C) x a))"
    "quiet S (on_ledger (am_transfer (b_tokens C) x a a'))" "quiet S (on_ledger (distribute_rewards (bc_fee C) x))" "quiet S (draw_secure_id C a)"
    "quiet S (on_registry (transfer_funds (bc_registry C) src dst x))" "quiet S (on_registry (transfer_funds_saturated (bc_registry C) src dst x))"
    "quiet S (on_registry (register_deposit_address (bc_registry C) i h))"
    "quiet S (on_registry (decrease_to_be_replaced_tokens (bc_registry C) i x))" "quiet S (on_registry (try_increase_to_be_replaced_tokens i x))"
    "quiet S (on_registry (withdraw_replace_request (bc_registry C) i x))" "quiet S (on_registry (decrease_liquidated_collateral i x))"
    "quiet S (on_registry (ban_vault (bc_registry C) i))" "quiet S (on_registry (try_deposit_collateral (bc_registry C) i x))"
    "quiet S (on_registry (force_withdraw_collateral (bc_registry C) i x))"
proof -
  note L = quiet_intros keeps_intros still_intros still_token_moves [OF laws_tokens [OF assms]] still_calls [OF laws_registry [OF assms]]
    still_transfer [OF laws_registry [OF assms]] still_nomination [OF laws_registry [OF assms]] frame_nomination(2,7) [THEN keeps_frame]
  have "still S (distribute_rewards (bc_fee C) x)" using assms by (intro still_distribute_rewards) (auto simp: supply_laws_def)
  then show "quiet S (on_ledger (distribute_rewards (bc_fee C) x))" by (rule quiet_on_ledger)
  show "quiet S (draw_secure_id C a)"
    unfolding draw_secure_id_def using assms by (intro quiet_on_ledger) (auto simp: still_def supply_laws_def, metis snd_conv)
  show "quiet S (on_ledger (am_lock_on (b_tokens C) x a))" "quiet S (on_ledger (am_unlock_on (b_tokens C) x a))"
    "quiet S (on_ledger (am_transfer (b_tokens C) x a a'))"
    "quiet S (on_registry (transfer_funds (bc_registry C) src dst x))" "quiet S (on_registry (transfer_funds_saturated (bc_registry C) src dst x))"
    "quiet S (on_registry (register_deposit_address (bc_registry C) i h))"
    "quiet S (on_registry (decrease_to_be_replaced_tokens (bc_registry C) i x))" "quiet S (on_registry (try_increase_to_be_replaced_tokens i x))"
    "quiet S (on_registry (withdraw_replace_request (bc_registry C) i x))" "quiet S (on_registry (decrease_liquidated_collateral i x))"
    "quiet S (on_registry (ban_vault (bc_registry C) i))" "quiet S (on_registry (try_deposit_collateral (bc_registry C) i x))"
    "quiet S (on_registry (force_withdraw_collateral (bc_registry C) i x))"
    by (intro L; fail)+
qed

subsection \<open>Calls that post\<close>

lemma books_issue_calls:
  assumes "registry_ok (reg s)"
  shows "on_registry (try_increase_to_be_issued_tokens R i x) s = Inr (u, s') \<Longrightarrow> books S nothing (single (vid_currencies i) (int (amt x))) nothing 0 s s'"
    and "on_registry (decrease_to_be_issued_tokens i x) s = Inr (u, s') \<Longrightarrow> books S nothing (single (vid_currencies i) (- int (amt x))) nothing 0 s s'"
    and "on_registry (issue_tokens i x) s = Inr (u, s') \<Longrightarrow> books S (single (vid_currencies i) (int (amt x))) (single (vid_currencies i) (- int (amt x))) nothing 0 s s'"
proof -
  show "books S nothing (single (vid_currencies i) (int (amt x))) nothing 0 s s'" if a: "on_registry (try_increase_to_be_issued_tokens R i x) s = Inr (u, s')"
    using books_registry [OF a still_interest(9), of "Request_Issue (vid_currencies i) (amt x)"] request_issue_refines [OF assms] by simp
  show "books S nothing (single (vid_currencies i) (- int (amt x))) nothing 0 s s'" if a: "on_registry (decrease_to_be_issued_tokens i x) s = Inr (u, s')"
    using books_registry [OF a still_interest(1), of "Cancel_Issue (vid_currencies i) (amt x)"] cancel_issue_refines [OF assms] by simp
  show "books S (single (vid_currencies i) (int (amt x))) (single (vid_currencies i) (- int (amt x))) nothing 0 s s'" if a: "on_registry (issue_tokens i x) s = Inr (u, s')"
    using books_registry [OF a still_interest(2), of "Execute_Issue (vid_currencies i) (amt x)"] issue_refines [OF assms] by simp
qed

lemma books_redeem_calls:
  assumes "registry_ok (reg s)" and "registry_supply_laws R w S"
  shows "on_registry (try_increase_to_be_redeemed_tokens i x) s = Inr (u, s') \<Longrightarrow> books S nothing nothing (single (vid_currencies i) (int (amt x))) 0 s s'"
    and "on_registry (decrease_to_be_redeemed_tokens i x) s = Inr (u, s') \<Longrightarrow> books S nothing nothing (single (vid_currencies i) (- int (amt x))) 0 s s'"
    and "on_registry (decrease_tokens i a x) s = Inr (u, s') \<Longrightarrow> books S (single (vid_currencies i) (- int (amt x))) nothing (single (vid_currencies i) (- int (amt x))) 0 s s'"
    and "on_registry (redeem_tokens R i x y a) s = Inr (u, s') \<Longrightarrow> books S (single (vid_currencies i) (- int (amt x))) nothing (single (vid_currencies i) (- int (amt x))) 0 s s'"
    and "on_registry (redeem_tokens_liquidation R c a x) s = Inr (u, s') \<Longrightarrow> books S (single \<lparr>pair_collateral = c, pair_wrapped = cur x\<rparr> (- int (amt x))) nothing nothing 0 s s'"
proof -
  show "books S nothing nothing (single (vid_currencies i) (int (amt x))) 0 s s'" if a: "on_registry (try_increase_to_be_redeemed_tokens i x) s = Inr (u, s')"
    using books_registry [OF a still_interest(5), of "Request_Redeem (vid_currencies i) (amt x)"] request_redeem_refines [OF assms(1)] by simp
  show "books S nothing nothing (single (vid_currencies i) (- int (amt x))) 0 s s'" if a: "on_registry (decrease_to_be_redeemed_tokens i x) s = Inr (u, s')"
    using books_registry [OF a still_interest(6), of "Cancel_Redeem (vid_currencies i) (amt x)"] cancel_redeem_refines [OF assms(1)] by simp
  show "books S (single (vid_currencies i) (- int (amt x))) nothing (single (vid_currencies i) (- int (amt x))) 0 s s'" if a: "on_registry (decrease_tokens i a x) s = Inr (u, s')"
    using books_registry [OF a still_interest(7), of "Execute_Redeem (vid_currencies i) (amt x)"] decrease_tokens_refines [OF assms(1)] by simp
  show "books S (single (vid_currencies i) (- int (amt x))) nothing (single (vid_currencies i) (- int (amt x))) 0 s s'" if a: "on_registry (redeem_tokens R i x y a) s = Inr (u, s')"
    using books_registry [OF a still_calls(2) [OF assms(2)], of "Execute_Redeem (vid_currencies i) (amt x)"] redeem_tokens_refines [OF assms(1)] by simp
  show "books S (single \<lparr>pair_collateral = c, pair_wrapped = cur x\<rparr> (- int (amt x))) nothing nothing 0 s s'" if a: "on_registry (redeem_tokens_liquidation R c a x) s = Inr (u, s')"
    using books_registry [OF a still_calls(3) [OF assms(2)], of "Redeem_Liquidation \<lparr>pair_collateral = c, pair_wrapped = cur x\<rparr> (amt x)"] redeem_liquidation_refines [OF assms(1)] by simp
qed

lemma books_replace_calls:
  assumes "registry_ok (reg s)" and "registry_supply_laws R w S" and "i \<noteq> j"
  shows "on_registry (replace_tokens R i j x y) s = Inr (u, s') \<Longrightarrow> books S (\<lambda>q. single (vid_currencies i) (- int (amt x)) q + single (vid_currencies j) (int (amt x)) q) (single (vid_currencies j) (- int (amt x))) (single (vid_currencies i) (- int (amt x))) 0 s s'"
    and "on_registry (cancel_replace_tokens R i j x) s = Inr (u, s') \<Longrightarrow> books S nothing (single (vid_currencies j) (- int (amt x))) (single (vid_currencies i) (- int (amt x))) 0 s s'"
proof -
  show "books S (\<lambda>q. single (vid_currencies i) (- int (amt x)) q + single (vid_currencies j) (int (amt x)) q) (single (vid_currencies j) (- int (amt x))) (single (vid_currencies i) (- int (amt x))) 0 s s'" if a: "on_registry (replace_tokens R i j x y) s = Inr (u, s')"
    using books_registry [OF a still_calls(4) [OF assms(2)], of "Replace (vid_currencies i) (vid_currencies j) (amt x)"] replace_refines [OF assms(1,3)] by simp
  show "books S nothing (single (vid_currencies j) (- int (amt x))) (single (vid_currencies i) (- int (amt x))) 0 s s'" if a: "on_registry (cancel_replace_tokens R i j x) s = Inr (u, s')"
    using books_registry [OF a still_calls(5) [OF assms(2)], of "Cancel_Replace (vid_currencies i) (vid_currencies j) (amt x)"] cancel_replace_refines [OF assms(1,3)] by simp
qed

subsection \<open>The life cycle of the requests\<close>

definition issue_moves :: "('a, 'c) issue_request \<Rightarrow> ('a, 'c) issue_request \<Rightarrow> bool" where
  "issue_moves u v \<longleftrightarrow> v = u \<or> iss_status u = Issue_Pending \<and> v = u\<lparr>iss_status := Issue_Cancelled\<rparr>
     \<or> iss_status u \<noteq> Issue_Completed \<and> v = u\<lparr>iss_amount := iss_amount v, iss_fee := iss_fee v, iss_status := Issue_Completed\<rparr>"

definition redeem_moves :: "('a, 'c) redeem_request \<Rightarrow> ('a, 'c) redeem_request \<Rightarrow> bool" where
  "redeem_moves u v \<longleftrightarrow> v = u \<or> red_status u = Redeem_Pending \<and> red_status v \<noteq> Redeem_Pending \<and> v = u\<lparr>red_status := red_status v\<rparr>
     \<or> red_status u = Redeem_Reimbursed False \<and> v = u\<lparr>red_status := Redeem_Reimbursed True\<rparr>"

definition replace_moves :: "('a, 'c) replace_request \<Rightarrow> ('a, 'c) replace_request \<Rightarrow> bool" where
  "replace_moves u v \<longleftrightarrow> v = u \<or> rep_status u = Replace_Pending \<and> v = u\<lparr>rep_status := Replace_Cancelled\<rparr>
     \<or> rep_status u \<noteq> Replace_Completed \<and> v = u\<lparr>rep_status := Replace_Completed\<rparr>"

definition evolve :: "('v \<Rightarrow> 'v \<Rightarrow> bool) \<Rightarrow> ('k \<Rightarrow> 'v option) \<Rightarrow> ('k \<Rightarrow> 'v option) \<Rightarrow> bool" where
  "evolve moves m m' \<longleftrightarrow> (\<forall>k u. m k = Some u \<longrightarrow> (\<exists>v. m' k = Some v \<and> moves u v))"

definition life_cycle :: "('a, 'c, 'x) bridge \<Rightarrow> ('a, 'c, 'x) bridge \<Rightarrow> bool" where
  "life_cycle s s' \<longleftrightarrow> evolve issue_moves (IssueRequests s) (IssueRequests s') \<and> evolve redeem_moves (RedeemRequests s) (RedeemRequests s')
     \<and> evolve replace_moves (ReplaceRequests s) (ReplaceRequests s')"

lemma moves_refl [simp]: "issue_moves u u" "redeem_moves v v" "replace_moves r r"
  by (simp_all add: issue_moves_def redeem_moves_def replace_moves_def)

lemma evolve_refl: "(\<And>u. moves u u) \<Longrightarrow> evolve moves m m"
  by (simp add: evolve_def)

lemma evolve_upd: "(\<And>u. moves u u) \<Longrightarrow> (\<And>u. m k = Some u \<Longrightarrow> moves u v) \<Longrightarrow> evolve moves m (m(k \<mapsto> v))"
  by (simp add: evolve_def)

lemma evolve_trans:
  assumes "\<And>u v x. moves u v \<Longrightarrow> moves v x \<Longrightarrow> moves u x" and "evolve moves m m1" and "evolve moves m1 m'"
  shows "evolve moves m m'"
  using assms unfolding evolve_def by meson

lemma moves_trans:
  "issue_moves u v \<Longrightarrow> issue_moves v x \<Longrightarrow> issue_moves u x"
  "redeem_moves a b \<Longrightarrow> redeem_moves b c \<Longrightarrow> redeem_moves a c"
  "replace_moves r t \<Longrightarrow> replace_moves t y \<Longrightarrow> replace_moves r y"
  subgoal by (cases u; cases v; cases x; auto simp: issue_moves_def)
  subgoal by (cases a; cases b; cases c; auto simp: redeem_moves_def)
  subgoal by (cases r; cases t; cases y; auto simp: replace_moves_def)
  done

lemma life_cycle_trans: "life_cycle s s1 \<Longrightarrow> life_cycle s1 s' \<Longrightarrow> life_cycle s s'"
  unfolding life_cycle_def by (blast intro: evolve_trans moves_trans)

lemma life_cycle_same: "same_requests s s' \<Longrightarrow> life_cycle s s'"
  by (simp add: life_cycle_def same_requests_def evolve_refl)

text \<open>A step advances the bridge when it restores the balance and moves the requests along their life cycle.\<close>

definition advances :: "'c \<Rightarrow> ('x \<Rightarrow> nat) \<Rightarrow> ('a, 'c, 'x) bridge \<Rightarrow> ('a, 'c, 'x) bridge \<Rightarrow> bool" where
  "advances w S s s' \<longleftrightarrow> bridge_ok w S s' \<and> life_cycle s s'"

lemma advance_books:
  assumes "bridge_ok w S s" and "books S I nothing nothing b s s'" and "finite {q. I q \<noteq> 0}" and "b = wsum w I"
  shows "advances w S s s'"
  using bridge_ok_books [OF assms] assms(2) by (simp add: advances_def books_def life_cycle_same)

lemma advance_idle: "bridge_ok w S s \<Longrightarrow> idle S s s' \<Longrightarrow> advances w S s s'"
  by (rule advance_books [where I = nothing]) auto

lemma advance_trans: "life_cycle s s1 \<Longrightarrow> advances w S s1 s' \<Longrightarrow> advances w S s s'"
  unfolding advances_def by (blast intro: life_cycle_trans)

lemma advance_quiet: "quiet S m \<Longrightarrow> bridge_ok w S s \<Longrightarrow> m s = Inr (x, s') \<Longrightarrow> advances w S s s'"
  by (rule advance_idle) (auto intro: quietD bridge_ok_registry)

lemma advance_announce: "advances w S s s1 \<Longrightarrow> announce e s1 = Inr (x, s') \<Longrightarrow> advances w S s s'"
  using advance_quiet [OF quiet_announce, of w S s1 e x s'] life_cycle_trans unfolding advances_def by blast

end
