(* ===== verification/Bridge_Issue.thy ===== *)
theory Bridge_Issue
  imports Bridge_Calls
begin

text \<open>The operations of the issue pallet keep the balance of the bridge.\<close>

subsection \<open>Changes of one request\<close>

lemma balance_issue:
  assumes ok: "bridge_ok w S s" and p: "posted S I t nothing b s s1" and s': "reg s' = reg s1" "IssueRequests s' = (IssueRequests s)(k \<mapsto> v)"
      "RedeemRequests s' = RedeemRequests s" "ReplaceRequests s' = ReplaceRequests s"
    and t: "\<And>q. t q = int (iss_due q v) - (case IssueRequests s k of Some u \<Rightarrow> int (iss_due q u) | None \<Rightarrow> 0)"
    and fin: "finite {q. I q \<noteq> 0}" and b: "b = wsum w I" and mv: "\<And>u. IssueRequests s k = Some u \<Longrightarrow> issue_moves u v"
  shows "advances w S s s'"
  unfolding advances_def
proof (rule conjI)
  show "life_cycle s s'" using s' mv by (simp add: life_cycle_def evolve_refl evolve_upd)
  show "bridge_ok w S s'"
  proof (rule bridge_okI [OF ok p s'(1)])
    have f: "finite (dom (IssueRequests s))" using ok by (simp add: bridge_ok_def requests_wf_def)
    show "requests_wf s'" using ok s' by (simp add: bridge_ok_def requests_wf_def)
    show "int (due_issued s' q) = int (due_issued s q) + t q" for q
      using msum_new [OF f, of k "iss_due q" v] msum_change [OF f, of k _ "iss_due q" v] s'(2,4) t [of q]
      by (cases "IssueRequests s k") (auto simp: due_issued_def)
    show "int (due_redeemed s' q) = int (due_redeemed s q) + nothing q" for q using s' by (simp add: due_redeemed_def)
  qed (rule fin, rule b)
qed

subsection \<open>Requesting\<close>

lemma request_issue_balance:
  assumes laws: "supply_laws C w S" and ok: "bridge_ok w S s" and run: "request_issue_inner C requester n i gc s = Inr (k, s')"
    and new: "IssueRequests s k = None"
  shows "advances w S s s'"
proof -
  let ?x = "Amount n (wrapped_currency i)"
  obtain g s1 s2 fee au s3 ad s4 where a: "on_ledger (am_lock_on (b_tokens C) g requester) s = Inr ((), s1)"
    and b: "on_registry (try_increase_to_be_issued_tokens (bc_registry C) i ?x) s1 = Inr ((), s2)" and sub: "am_checked_sub ?x fee = Inr au"
    and c: "draw_secure_id C requester s2 = Inr (k, s3)" and d: "on_registry (register_deposit_address (bc_registry C) i k) s3 = Inr (ad, s4)"
    and e: "reg s' = reg s4" "RedeemRequests s' = RedeemRequests s4" "ReplaceRequests s' = ReplaceRequests s4"
      "IssueRequests s' = (IssueRequests s4)(k \<mapsto> the (IssueRequests s' k))"
    and r: "iss_vault (the (IssueRequests s' k)) = i" "iss_amount (the (IssueRequests s' k)) = amt au" "iss_fee (the (IssueRequests s' k)) = amt fee"
      "iss_status (the (IssueRequests s' k)) = Issue_Pending"
    using run by (auto simp: request_issue_inner_def Let_def rbind_Inr_iff insert_issue_request_def announce_def simp del: am_checked_sub_Inr split: if_splits)
  note ok0 = bridge_ok_registry [OF ok]
  note A = quietD [OF quiet_calls(1) [OF laws] a ok0]
  have B: "books S nothing (single (vid_currencies i) (int n)) nothing 0 s1 s2"
    using books_issue_calls(1) [OF books_ok [OF A] b] by simp
  note C = quietD [OF quiet_calls(5) [OF laws] c books_ok [OF B]]
  note D = quietD [OF quiet_calls(8) [OF laws] d books_ok [OF C]]
  note all = idle_trans(1) [OF A idle_trans(2) [OF B idle_trans(1) [OF C D]]]
  show ?thesis
  proof (rule balance_issue [OF ok _ e(1)])
    show "posted S nothing (single (vid_currencies i) (int n)) nothing 0 s s4" using all by (simp add: books_def)
    show "IssueRequests s' = (IssueRequests s)(k \<mapsto> the (IssueRequests s' k))" "RedeemRequests s' = RedeemRequests s" "ReplaceRequests s' = ReplaceRequests s"
      using all e by (simp_all add: books_def same_requests_def)
    show "single (vid_currencies i) (int n) q
        = int (iss_due q (the (IssueRequests s' k))) - (case IssueRequests s k of Some u \<Rightarrow> int (iss_due q u) | None \<Rightarrow> 0)" for q
      using sub new by (auto simp: iss_due_def r single_def)
  qed (use new in auto)
qed

subsection \<open>Cancelling\<close>

lemma get_pending_issue_run:
  assumes "get_pending_issue s k = Inr u"
  shows "IssueRequests s k = Some u" and "iss_status u = Issue_Pending"
proof -
  obtain r where "IssueRequests s k = Some r" using assms by (cases "IssueRequests s k") (simp_all add: get_pending_issue_def ok_or_def)
  then show "IssueRequests s k = Some u" "iss_status u = Issue_Pending"
    using assms by (cases "iss_status r"; simp add: get_pending_issue_def ok_or_def)+
qed

lemma get_issue_request_run:
  assumes "get_issue_request_from_id s k = Inr u"
  shows "IssueRequests s k = Some u" and "iss_status u \<noteq> Issue_Completed"
proof -
  obtain r where "IssueRequests s k = Some r" using assms by (cases "IssueRequests s k") (simp_all add: get_issue_request_from_id_def ok_or_def)
  then show "IssueRequests s k = Some u" "iss_status u \<noteq> Issue_Completed"
    using assms by (cases "iss_status r"; simp add: get_issue_request_from_id_def ok_or_def)+
qed

lemma quiet_cancel_issue: "supply_laws C w S \<Longrightarrow> quiet S (griefing_collateral_to_slash C requester u d e)"
  unfolding griefing_collateral_to_slash_def Let_def by (intro quiet_intros quiet_calls)

lemma cancel_issue_balance:
  assumes laws: "supply_laws C w S" and ok: "bridge_ok w S s" and run: "cancel_issue_inner C requester k s = Inr (x, s')"
  shows "advances w S s s'"
proof -
  obtain u d e y s1 l z s2 full s3 where u: "get_pending_issue s k = Inr u"
    and a: "griefing_collateral_to_slash C requester u d e s = Inr (y, s1)"
    and b: "(if l then on_ledger (am_unlock_on (b_tokens C) y (iss_requester u))
             else on_registry (transfer_funds (bc_registry C) (UserGriefing (iss_requester u)) (FreeBalance (bc_treasury C)) y)) s1 = Inr (z, s2)"
    and f: "am_checked_add (iss_amount_of u) (iss_fee_of u) = Inr full"
    and c: "on_registry (decrease_to_be_issued_tokens (iss_vault u) full) s2 = Inr ((), s3)"
    and e: "reg s' = reg s3" "RedeemRequests s' = RedeemRequests s3" "ReplaceRequests s' = ReplaceRequests s3"
      "IssueRequests s' = mutate_exists k (\<lambda>r. r\<lparr>iss_status := Issue_Cancelled\<rparr>) (IssueRequests s3)"
    using run unfolding cancel_issue_inner_def
    by (elim run_elims) (auto simp: set_issue_status_def announce_def)
  note p = get_pending_issue_run [OF u]
  note A = quietD [OF quiet_cancel_issue [OF laws] a bridge_ok_registry [OF ok]]
  note B = quietD [OF quiet_cases(1) [OF quiet_calls(2) [OF laws] quiet_calls(6) [OF laws]] b books_ok [OF A]]
  note all = idle_trans(1) [OF A idle_trans(1) [OF B books_issue_calls(2) [OF books_ok [OF B] c]]]
  show ?thesis
  proof (rule balance_issue [OF ok _ e(1), where k = k and v = "u\<lparr>iss_status := Issue_Cancelled\<rparr>"])
    show "posted S nothing (single (vid_currencies (iss_vault u)) (- int (amt full))) nothing 0 s s3" using all by (simp add: books_def)
    show "IssueRequests s' = (IssueRequests s)(k \<mapsto> u\<lparr>iss_status := Issue_Cancelled\<rparr>)" "RedeemRequests s' = RedeemRequests s" "ReplaceRequests s' = ReplaceRequests s"
      using all e p by (simp_all add: books_def same_requests_def mutate_exists_def)
    show "single (vid_currencies (iss_vault u)) (- int (amt full)) q = int (iss_due q (u\<lparr>iss_status := Issue_Cancelled\<rparr>))
        - (case IssueRequests s k of Some u \<Rightarrow> int (iss_due q u) | None \<Rightarrow> 0)" for q
      using f p by (auto simp: iss_due_def single_def iss_amount_of_def iss_fee_of_def)
  qed (use p in \<open>auto simp: issue_moves_def\<close>)
qed

subsection \<open>Executing\<close>

text \<open>What the branches on the status of a request leave to be issued: the amounts written to the request.\<close>

definition settled :: "('x \<Rightarrow> nat) \<Rightarrow> h256 \<Rightarrow> ('a, 'c) issue_request \<Rightarrow> ('a, 'c) issue_request \<Rightarrow> ('a, 'c, 'x) bridge \<Rightarrow> ('a, 'c, 'x) bridge \<Rightarrow> bool" where
  "settled S k u r s s' \<longleftrightarrow>
     posted S nothing (\<lambda>q. single (vid_currencies (iss_vault u)) (int (iss_amount r + iss_fee r)) q - int (iss_due q u)) nothing 0 s s'
     \<and> IssueRequests s' = (IssueRequests s)(k \<mapsto> r) \<and> RedeemRequests s' = RedeemRequests s \<and> ReplaceRequests s' = ReplaceRequests s
     \<and> r = u\<lparr>iss_amount := iss_amount r, iss_fee := iss_fee r\<rparr>"

lemma settledI:
  assumes "books S nothing t nothing 0 s s1" and "reg s' = reg s1" and "RedeemRequests s' = RedeemRequests s1" "ReplaceRequests s' = ReplaceRequests s1"
    and "IssueRequests s' = (IssueRequests s1)(k \<mapsto> r)" and "r = u\<lparr>iss_amount := iss_amount r, iss_fee := iss_fee r\<rparr>"
    and "\<And>q. t q = single (vid_currencies (iss_vault u)) (int (iss_amount r + iss_fee r)) q - int (iss_due q u)"
  shows "settled S k u r s s'"
proof -
  have "t = (\<lambda>q. single (vid_currencies (iss_vault u)) (int (iss_amount r + iss_fee r)) q - int (iss_due q u))" using assms(7) by (rule ext)
  then show ?thesis using assms(1-6) by (simp add: settled_def books_def posted_def same_requests_def)
qed

lemma settled_idle: "settled S k u r s s1 \<Longrightarrow> idle S s1 s' \<Longrightarrow> settled S k u r s s'"
  using posted_trans [of S nothing _ nothing 0 s s1 nothing nothing nothing 0 s'] by (fastforce simp: settled_def books_def same_requests_def)

lemma idle_settled: "idle S s s1 \<Longrightarrow> settled S k u r s1 s' \<Longrightarrow> settled S k u r s s'"
  using posted_trans [of S nothing nothing nothing 0 s s1 nothing _ nothing 0 s'] by (fastforce simp: settled_def books_def same_requests_def)

lemma set_issue_amount_run:
  assumes run: "set_issue_amount C k u x g s = Inr (r, s')" and k: "IssueRequests s k = Some u"
  shows "reg s' = reg s" and "IssueRequests s' = (IssueRequests s)(k \<mapsto> r)" and "RedeemRequests s' = RedeemRequests s" and "ReplaceRequests s' = ReplaceRequests s"
    and "r = u\<lparr>iss_amount := iss_amount r, iss_fee := iss_fee r\<rparr>" and "iss_amount r + iss_fee r = amt x"
  using run k unfolding set_issue_amount_def Let_def
  by (elim run_elims, auto simp: announce_def mutate_exists_def iss_fee_of_def)+

lemma cancelled_issue_settled:
  assumes ok: "registry_ok (reg s)" and run: "execute_cancelled_issue C ex k u x y s = Inr (r, s')"
    and k: "IssueRequests s k = Some u" "iss_status u = Issue_Cancelled" and y: "amt y = iss_amount u + iss_fee u"
  shows "settled S k u r s s' \<and> iss_amount r + iss_fee r \<le> amt x"
proof -
  obtain s1 d where a: "on_registry (try_increase_to_be_issued_tokens (bc_registry C) (iss_vault u) x) s = Inr ((), s1)"
    and d: "am_ne x y = Inr d" and b: "(if d then set_issue_amount C k u x (am_zero (iss_griefing_currency u)) else sret u) s1 = Inr (r, s')"
    using run unfolding execute_cancelled_issue_def by (elim run_elims) auto
  note A = books_issue_calls(1) [OF ok a]
  have k1: "IssueRequests s1 k = Some u" using A k by (simp add: books_def same_requests_def)
  show ?thesis
  proof (cases d)
    case True
    then have b: "set_issue_amount C k u x (am_zero (iss_griefing_currency u)) s1 = Inr (r, s')" using b by simp
    note B = set_issue_amount_run [OF b k1]
    have "settled S k u r s s'" by (rule settledI [OF A B(1,3,4,2,5)]) (simp add: iss_due_def k B(6))
    then show ?thesis using B(6) by simp
  next
    case False
    then have r: "r = u" "s' = s1" using b by simp_all
    have "settled S k u r s s'" by (rule settledI [OF A]) (use d False k1 y in \<open>auto simp: r iss_due_def k fun_upd_idem am_ne_def rbind_Inr_iff\<close>)
    then show ?thesis using d False y r by (auto simp: am_ne_def rbind_Inr_iff)
  qed
qed

lemma decrease_issue_settled:
  assumes laws: "supply_laws C w S" and ok: "registry_ok (reg s)" and run: "decrease_issue_amount C k u x y s = Inr ((r, z), s')"
    and k: "IssueRequests s k = Some u" "iss_status u = Issue_Pending" and y: "amt y = iss_amount u + iss_fee u"
  shows "settled S k u r s s' \<and> iss_amount r + iss_fee r \<le> amt x"
proof -
  obtain d s1 g s2 where d: "am_checked_sub y x = Inr d" and a: "on_registry (decrease_to_be_issued_tokens (iss_vault u) d) s = Inr ((), s1)"
    and b: "on_registry (transfer_funds (bc_registry C) (UserGriefing (iss_requester u)) (FreeBalance (bc_treasury C)) g) s1 = Inr ((), s2)"
    and c: "set_issue_amount C k u x g s2 = Inr (r, s')"
    using run unfolding decrease_issue_amount_def by (elim run_elims) auto
  note A = books_issue_calls(2) [OF ok a]
  note B = idle_trans(2) [OF A quietD [OF quiet_calls(6) [OF laws] b books_ok [OF A]]]
  have k2: "IssueRequests s2 k = Some u" using B k by (simp add: books_def same_requests_def)
  note D = set_issue_amount_run [OF c k2]
  have "settled S k u r s s'" by (rule settledI [OF B D(1,3,4,2,5)]) (use d y in \<open>auto simp: iss_due_def k D(6) single_def\<close>)
  then show ?thesis using D(6) by simp
qed

lemma increase_issue_settled:
  assumes ok: "registry_ok (reg s)" and run: "try_increase_issue_amount C k u x y s = Inr (r, s')"
    and k: "IssueRequests s k = Some u" "iss_status u = Issue_Pending" and y: "amt y = iss_amount u + iss_fee u"
  shows "settled S k u r s s' \<and> iss_amount r + iss_fee r \<le> amt x"
proof -
  obtain d m a where d: "am_checked_sub x y = Inr d" "am_min d m = Inr a" and more: "if_ok (on_registry (try_increase_to_be_issued_tokens (bc_registry C) (iss_vault u) a)) (\<lambda>_.
       sbind (slift (\<lambda>_. am_checked_add y a)) (\<lambda>total. set_issue_amount C k u total (am_zero (iss_griefing_currency u)))) (sret u) s = Inr (r, s')"
    using run unfolding try_increase_issue_amount_def by (elim run_elims) auto
  from if_ok_run [OF more] consider (more) s1 t where
      "on_registry (try_increase_to_be_issued_tokens (bc_registry C) (iss_vault u) a) s = Inr ((), s1)"
      "am_checked_add y a = Inr t" "set_issue_amount C k u t (am_zero (iss_griefing_currency u)) s1 = Inr (r, s')"
    | (same) "r = u" "s' = s"
    by (fastforce elim: run_elims simp del: action_simps)
  then show ?thesis
  proof cases
    case more
    note A = books_issue_calls(1) [OF ok more(1)]
    have "IssueRequests s1 k = Some u" using A k by (simp add: books_def same_requests_def)
    note B = set_issue_amount_run [OF more(3) this]
    have "settled S k u r s s'" by (rule settledI [OF A B(1,3,4,2,5)]) (use more(2) y in \<open>auto simp: iss_due_def k B(6) single_def\<close>)
    moreover have "amt t \<le> amt x" using more(2) d by (auto split: if_splits)
    ultimately show ?thesis using B(6) by simp
  next
    case same
    have "idle S s s" by (rule idle_refl [OF ok]) (simp_all add: same_requests_def)
    from settledI [OF this] have "settled S k u r s s'" using y k by (auto simp: same iss_due_def single_def fun_upd_idem)
    then show ?thesis using d y same by auto
  qed
qed

lemma pending_issue_settled:
  assumes laws: "supply_laws C w S" and ok: "registry_ok (reg s)" and run: "execute_pending_issue C ex k u x y s = Inr (r, s')"
    and k: "IssueRequests s k = Some u" "iss_status u = Issue_Pending" and y: "amt y = iss_amount u + iss_fee u"
  shows "settled S k u r s s' \<and> iss_amount r + iss_fee r \<le> amt x"
proof -
  have idle: "idle S s s" by (rule idle_refl [OF ok]) (simp_all add: same_requests_def)
  have same: "settled S k u u s s" by (rule settledI [OF idle]) (use k in \<open>auto simp: iss_due_def single_def fun_upd_idem\<close>)
  obtain l z s1 where l: "am_lt x y = Inr l" and b: "(if l then sbind (sensure (\<lambda>_. iss_requester u = ex) (IssueError InvalidExecutor)) (\<lambda>_. decrease_issue_amount C k u x y)
      else sbind (slift (\<lambda>_. am_gt x y)) (\<lambda>more.
           sbind (if more then slift (\<lambda>s. is_vault_liquidated (reg s) (iss_vault u)) else sret True) (\<lambda>liquidated.
           sbind (if more \<and> \<not> liquidated then try_increase_issue_amount C k u x y else sret u) (\<lambda>issue.
           sret (issue, iss_griefing_of issue))))) s = Inr ((r, z), s1)"
    and c: "on_ledger (am_unlock_on (b_tokens C) z (iss_requester r)) s1 = Inr ((), s')"
    using run unfolding execute_pending_issue_def by (elim run_elims) (auto split: prod.splits simp del: action_simps elim!: run_elims)
  have A: "settled S k u r s s1 \<and> iss_amount r + iss_fee r \<le> amt x"
  proof (cases l)
    case True
    then have "decrease_issue_amount C k u x y s = Inr ((r, z), s1)" using b by (auto split: if_splits)
    then show ?thesis by (rule decrease_issue_settled [OF laws ok _ k y])
  next
    case False
    then consider "try_increase_issue_amount C k u x y s = Inr (r, s1)" | "r = u" "s1 = s"
      using b by (auto simp: rbind_Inr_iff split: if_splits)
    then show ?thesis using increase_issue_settled [OF ok _ k y] same l False y by cases auto
  qed
  have "registry_ok (reg s1)" using A by (simp add: settled_def posted_def)
  from settled_idle [OF conjunct1 [OF A] quietD [OF quiet_calls(2) [OF laws] c this]] A show ?thesis by simp
qed

text \<open>
  Executing issues what the transfer leaves of the request: the tokens leave the tokens to be issued, are issued, and are
  minted to the requester and the fee pool.
\<close>

lemma execute_issue_posting:
  assumes laws: "supply_laws C w S" and ok: "bridge_ok w S s" and run: "execute_issue_inner C ex k prf s = Inr (x, s')"
  obtains u n r where "IssueRequests s k = Some u" and "iss_status u \<noteq> Issue_Completed" and "bc_issue_payment C (outside s) prf (iss_btc_address u) = Inr n"
    and "iss_amount r + iss_fee r \<le> n" and "r = u\<lparr>iss_amount := iss_amount r, iss_fee := iss_fee r, iss_status := Issue_Completed\<rparr>"
    and "IssueRequests s' = (IssueRequests s)(k \<mapsto> r)" and "RedeemRequests s' = RedeemRequests s" and "ReplaceRequests s' = ReplaceRequests s"
    and "posted S (single (vid_currencies (iss_vault u)) (int (iss_amount r + iss_fee r))) (\<lambda>q. - int (iss_due q u)) nothing
      (if wrapped_currency (iss_vault u) = w then int (iss_amount r + iss_fee r) else 0) s s'"
proof -
  obtain u n y r s1 t s2 s3 s4 s5 where u: "get_issue_request_from_id s k = Inr u"
    and n: "bc_issue_payment C (outside s) prf (iss_btc_address u) = Inr n" and y: "am_checked_add (iss_amount_of u) (iss_fee_of u) = Inr y"
    and b: "(case iss_status u of Issue_Completed \<Rightarrow> sfail (IssueError IssueCompleted)
            | Issue_Cancelled \<Rightarrow> execute_cancelled_issue C ex k u (Amount n (wrapped_currency (iss_vault u))) y
            | Issue_Pending \<Rightarrow> execute_pending_issue C ex k u (Amount n (wrapped_currency (iss_vault u))) y) s = Inr (r, s1)"
    and t: "am_checked_add (iss_amount_of r) (iss_fee_of r) = Inr t" and c: "on_registry (issue_tokens (iss_vault r) t) s1 = Inr ((), s2)"
    and m: "on_ledger (am_mint_to (b_tokens C) (iss_amount_of r) (iss_requester r)) s2 = Inr ((), s3)"
    and f: "on_ledger (am_mint_to (b_tokens C) (iss_fee_of r) (b_fee_pool C)) s3 = Inr ((), s4)"
    and d: "on_ledger (distribute_rewards (bc_fee C) (iss_fee_of r)) s4 = Inr ((), s5)"
    and e: "reg s' = reg s5" "RedeemRequests s' = RedeemRequests s5" "ReplaceRequests s' = ReplaceRequests s5"
      "IssueRequests s' = mutate_exists k (\<lambda>r. r\<lparr>iss_status := Issue_Completed\<rparr>) (IssueRequests s5)"
    using run unfolding execute_issue_inner_def Let_def by (elim run_elims) (auto simp: set_issue_status_def announce_def simp del: am_checked_add_Inr)
  note k = get_issue_request_run [OF u]
  have y': "amt y = iss_amount u + iss_fee u" using y by (auto simp: iss_amount_of_def iss_fee_of_def)
  have A: "settled S k u r s s1" "iss_amount r + iss_fee r \<le> n"
    using b k(2) cancelled_issue_settled [OF bridge_ok_registry [OF ok] _ k(1) _ y'] pending_issue_settled [OF laws bridge_ok_registry [OF ok] _ k(1) _ y']
    by (cases "iss_status u"; fastforce)+
  have r: "r = u\<lparr>iss_amount := iss_amount r, iss_fee := iss_fee r\<rparr>" using A by (simp add: settled_def)
  then have v: "iss_vault r = iss_vault u" by (cases r; cases u; simp)
  have "registry_ok (reg s1)" using A by (simp add: settled_def posted_def)
  note B = books_issue_calls(3) [OF this c]
  note D = books_trans [OF B books_mint [OF m books_ok [OF B] laws_tokens [OF laws]]]
  note E = books_trans [OF D books_mint [OF f books_ok [OF D] laws_tokens [OF laws]]]
  note F = idle_trans(2) [OF E quietD [OF quiet_calls(4) [OF laws] d books_ok [OF E]]]
  let ?p = "vid_currencies (iss_vault u)" and ?n = "int (iss_amount r + iss_fee r)"
  let ?b = "if wrapped_currency (iss_vault u) = w then ?n else 0"
  have tot: "amt t = iss_amount r + iss_fee r" using t by (auto simp: iss_amount_of_def iss_fee_of_def)
  have P: "posted S nothing (\<lambda>q. single ?p ?n q - int (iss_due q u)) nothing 0 s s1" using A by (simp add: settled_def)
  have Q: "posted S (single ?p ?n) (single ?p (- ?n)) nothing ?b s1 s5"
    using F by (auto simp: books_def tot v iss_amount_of_def iss_fee_of_def split: if_splits)
  let ?u = "r\<lparr>iss_status := Issue_Completed\<rparr>"
  have z: "(\<lambda>q. single ?p ?n q - int (iss_due q u) + single ?p (- ?n) q) = (\<lambda>q. - int (iss_due q u))" by (auto simp: single_def)
  show ?thesis
  proof (rule that [OF k n])
    show "IssueRequests s' = (IssueRequests s)(k \<mapsto> ?u)" "RedeemRequests s' = RedeemRequests s" "ReplaceRequests s' = ReplaceRequests s"
      using A F e k by (simp_all add: settled_def books_def same_requests_def mutate_exists_def)
    have "posted S (single ?p ?n) (\<lambda>q. - int (iss_due q u)) nothing ?b s s5" using posted_trans [OF P Q] unfolding z by (simp only: add_0 add_0_right)
    then show "posted S (single ?p (int (iss_amount ?u + iss_fee ?u))) (\<lambda>q. - int (iss_due q u)) nothing
        (if wrapped_currency (iss_vault u) = w then int (iss_amount ?u + iss_fee ?u) else 0) s s'"
      by (simp add: posted_def e)
    show "?u = u\<lparr>iss_amount := iss_amount ?u, iss_fee := iss_fee ?u, iss_status := Issue_Completed\<rparr>" using r by (cases r; cases u; simp)
  qed (use A in simp)
qed

lemma execute_issue_balance:
  assumes laws: "supply_laws C w S" and ok: "bridge_ok w S s" and run: "execute_issue_inner C ex k prf s = Inr (x, s')"
  shows "advances w S s s'"
proof (rule execute_issue_posting [OF assms])
  fix u n r
  assume u: "IssueRequests s k = Some u" "iss_status u \<noteq> Issue_Completed"
    and r: "r = u\<lparr>iss_amount := iss_amount r, iss_fee := iss_fee r, iss_status := Issue_Completed\<rparr>"
    and s': "IssueRequests s' = (IssueRequests s)(k \<mapsto> r)" "RedeemRequests s' = RedeemRequests s" "ReplaceRequests s' = ReplaceRequests s"
    and P: "posted S (single (vid_currencies (iss_vault u)) (int (iss_amount r + iss_fee r))) (\<lambda>q. - int (iss_due q u)) nothing
      (if wrapped_currency (iss_vault u) = w then int (iss_amount r + iss_fee r) else 0) s s'"
  have "iss_status r = Issue_Completed" using r by (cases r; cases u; simp)
  then show "advances w S s s'"
    by (intro balance_issue [OF ok P refl s']) (use u r in \<open>auto simp: iss_due_def issue_moves_def wrapped_currency_def\<close>)
qed

end
