(* ===== verification/Bridge_Redeem.thy ===== *)
theory Bridge_Redeem
  imports Bridge_Calls
begin

text \<open>The operations of the redeem pallet keep the balance of the bridge.\<close>

subsection \<open>Changes of one request\<close>

lemma balance_redeem:
  assumes ok: "bridge_ok w S s" and p: "posted S I nothing r b s s1" and s': "reg s' = reg s1" "RedeemRequests s' = (RedeemRequests s)(k \<mapsto> v)"
      "IssueRequests s' = IssueRequests s" "ReplaceRequests s' = ReplaceRequests s"
    and r: "\<And>q. r q = int (red_due q v) - (case RedeemRequests s k of Some u \<Rightarrow> int (red_due q u) | None \<Rightarrow> 0)"
    and fin: "finite {q. I q \<noteq> 0}" and b: "b = wsum w I" and mv: "\<And>u. RedeemRequests s k = Some u \<Longrightarrow> redeem_moves u v"
  shows "advances w S s s'"
  unfolding advances_def
proof (rule conjI)
  show "life_cycle s s'" using s' mv by (simp add: life_cycle_def evolve_refl evolve_upd)
  show "bridge_ok w S s'"
  proof (rule bridge_okI [OF ok p s'(1)])
    have f: "finite (dom (RedeemRequests s))" using ok by (simp add: bridge_ok_def requests_wf_def)
    show "requests_wf s'" using ok s' by (simp add: bridge_ok_def requests_wf_def)
    show "int (due_redeemed s' q) = int (due_redeemed s q) + r q" for q
      using msum_new [OF f, of k "red_due q" v] msum_change [OF f, of k _ "red_due q" v] s'(2,4) r [of q]
      by (cases "RedeemRequests s k") (auto simp: due_redeemed_def)
    show "int (due_issued s' q) = int (due_issued s q) + nothing q" for q using s' by (simp add: due_issued_def)
  qed (rule fin, rule b)
qed

lemma balance_redeem_books:
  assumes ok: "bridge_ok w S s" and B: "books S I nothing r b s s1" and s': "reg s' = reg s1" "RedeemRequests s' = (RedeemRequests s1)(k \<mapsto> v)"
      "IssueRequests s' = IssueRequests s1" "ReplaceRequests s' = ReplaceRequests s1"
    and r: "\<And>q. r q = int (red_due q v) - (case RedeemRequests s k of Some u \<Rightarrow> int (red_due q u) | None \<Rightarrow> 0)"
    and fin: "finite {q. I q \<noteq> 0}" and b: "b = wsum w I" and mv: "\<And>u. RedeemRequests s k = Some u \<Longrightarrow> redeem_moves u v"
  shows "advances w S s s'"
proof (rule balance_redeem [OF ok _ s'(1) _ _ _ r fin b mv])
  show "posted S I nothing r b s s1" using B by (simp add: books_def)
qed (use B s' in \<open>simp_all add: books_def same_requests_def\<close>)

lemma quiet_release_replace: "supply_laws C w S \<Longrightarrow> quiet S (release_replace_collateral C i x)"
  unfolding release_replace_collateral_def by (intro quiet_intros quiet_calls)

lemma quiet_take_fee: "supply_laws C w S \<Longrightarrow> quiet S (take_redeem_fee C u)"
  unfolding take_redeem_fee_def Let_def by (intro quiet_intros quiet_calls)

subsection \<open>Requesting\<close>

lemma request_redeem_balance:
  fixes C :: "('a, 'c, 'x) bridge_config"
  assumes laws: "supply_laws C w S" and ok: "bridge_ok w S s" and run: "request_redeem_inner C redeemer n ad i s = Inr (k, s')"
    and new: "RedeemRequests s k = None"
  shows "advances w S s s'"
  using run unfolding request_redeem_inner_def Let_def
proof (elim run_elims, hypsubst_thin)
  fix fee inc x y pc :: "'c amount" and s1 s2 s3 s4 s5 s6 s7 u u1 u2 u3 u4
  let ?v = "\<lparr>red_vault = i, red_opentime = b_height C s6, red_period = RedeemPeriod s6, red_fee = amt fee, red_transfer_fee_btc = amt inc,
    red_amount_btc = amt y, red_premium = amt pc, red_redeemer = redeemer, red_btc_address = ad, red_btc_height = bc_best_height C (outside s6),
    red_status = Redeem_Pending\<rparr>"
  assume a: "(if redeemer = vid_account i then sret (am_zero (wrapped_currency i))
      else slift (\<lambda>s. get_redeem_fee (b_ufixed C) (b_fees C s) (Amount n (wrapped_currency i)))) s = Inr (fee, s1)"
    and b: "replace_error (RedeemError RedeemAmountBelowDustAmount) (slift (\<lambda>_. am_checked_sub x inc)) s1 = Inr (y, s2)"
    and c: "on_registry (try_increase_to_be_redeemed_tokens i x) s2 = Inr (u1, s3)"
    and d: "on_ledger (am_lock_on (b_tokens C) (Amount n (wrapped_currency i)) redeemer) s3 = Inr (u2, s4)"
    and e: "draw_secure_id C redeemer s4 = Inr (k, s5)" and f: "release_replace_collateral C i x s5 = Inr (u3, s6)"
    and g: "insert_redeem_request k ?v s6 = Inr (u4, s7)" and h: "announce (RequestRedeemEvent k redeemer i (amt y) (amt fee) (amt pc) ad (amt inc)) s7 = Inr (u, s')"
  note A = quietD [OF quiet_cases(1) [OF quiet_basic(1,4)] a bridge_ok_registry [OF ok]]
  note B = idle_trans(1) [OF A quietD [OF quiet_replace_error [OF quiet_basic(4)] b books_ok [OF A]]]
  note D = idle_trans(1) [OF B books_redeem_calls(1) [OF books_ok [OF B] laws_registry [OF laws] c]]
  note E = idle_trans(2) [OF D quietD [OF quiet_calls(1) [OF laws] d books_ok [OF D]]]
  note F = idle_trans(2) [OF E quietD [OF quiet_calls(5) [OF laws] e books_ok [OF E]]]
  note G = idle_trans(2) [OF F quietD [OF quiet_release_replace [OF laws] f books_ok [OF F]]]
  have y: "amt y + amt inc = amt x" using b by (auto simp: replace_error_def rbind_Inr_iff)
  have s': "reg s' = reg s6" "RedeemRequests s' = (RedeemRequests s6)(k \<mapsto> ?v)" "IssueRequests s' = IssueRequests s6" "ReplaceRequests s' = ReplaceRequests s6"
    using g h by (auto simp: insert_redeem_request_def announce_def)
  show "advances w S s s'"
    by (rule balance_redeem_books [OF ok G s']) (use y in \<open>auto simp: red_due_def single_def new\<close>)
qed

subsection \<open>Redeeming from a liquidation vault and by the vault itself\<close>

lemma liquidation_redeem_balance:
  assumes laws: "supply_laws C w S" and ok: "bridge_ok w S s" and run: "liquidation_redeem_inner C redeemer p n s = Inr (x, s')"
  shows "advances w S s s'"
  using run unfolding liquidation_redeem_inner_def Let_def
proof (elim run_elims, hypsubst_thin)
  fix s1 s2 s3 u u1 u2 u3
  let ?x = "Amount n (pair_wrapped p)"
  assume a: "on_ledger (am_lock_on (b_tokens C) ?x redeemer) s = Inr (u1, s1)" and b: "on_ledger (am_burn_from (b_tokens C) ?x redeemer) s1 = Inr (u2, s2)"
    and c: "on_registry (redeem_tokens_liquidation (bc_registry C) (pair_collateral p) redeemer ?x) s2 = Inr (u3, s3)"
    and d: "announce (LiquidationRedeemEvent redeemer (amt ?x)) s3 = Inr (u, s')"
  note A = quietD [OF quiet_calls(1) [OF laws] a bridge_ok_registry [OF ok]]
  note B = idle_trans(1) [OF A books_burn [OF b books_ok [OF A] laws_tokens [OF laws]]]
  note D = books_trans [OF B books_redeem_calls(5) [OF books_ok [OF B] laws_registry [OF laws] c]]
  note E = idle_trans(2) [OF D quietD [OF quiet_announce d books_ok [OF D]]]
  show "advances w S s s'" by (rule advance_books [OF ok, where I = "single p (- int n)"]) (use E in auto)
qed

lemma self_redeem_balance:
  fixes C :: "('a, 'c, 'x) bridge_config"
  assumes laws: "supply_laws C w S" and ok: "bridge_ok w S s" and run: "self_redeem_inner C i y s = Inr (x, s')"
    and y: "cur y = wrapped_currency i"
  shows "advances w S s s'"
  using run unfolding self_redeem_inner_def take_user_tokens_def update_vault_tokens_def
proof (elim run_elims, hypsubst_thin)
  fix fees z :: "'c amount" and s1 s2 s3 s4 s5 s6 s7 u1 u2 u3 u4 u5 u6 u7
  let ?a = "vid_account i" and ?p = "vid_currencies i"
  assume z: "calculate_token_amounts C s i y = Inr (fees, z)"
    and a: "replace_error (RedeemError AmountExceedsUserBalance) (on_ledger (am_lock_on (b_tokens C) z ?a)) s = Inr (u1, s1)"
    and b: "on_ledger (am_burn_from (b_tokens C) z ?a) s1 = Inr (u2, s2)"
    and c: "replace_error (RedeemError AmountExceedsUserBalance) (on_ledger (am_transfer (b_tokens C) fees ?a (b_fee_pool C))) s2 = Inr (u3, s3)"
    and d: "on_ledger (distribute_rewards (bc_fee C) fees) s3 = Inr (u4, s4)" and e: "on_registry (try_increase_to_be_redeemed_tokens i z) s4 = Inr (u5, s5)"
    and f: "on_registry (redeem_tokens (bc_registry C) i z (am_zero (collateral_currency i)) ?a) s5 = Inr (u6, s6)"
    and g: "release_replace_collateral C i z s6 = Inr (u7, s7)" and h: "announce (SelfRedeemEvent i (amt z) (amt fees)) s7 = Inr (x, s')"
  note A = quietD [OF quiet_replace_error [OF quiet_calls(1) [OF laws]] a bridge_ok_registry [OF ok]]
  note B = idle_trans(1) [OF A books_burn [OF b books_ok [OF A] laws_tokens [OF laws]]]
  note D = idle_trans(2) [OF B quietD [OF quiet_replace_error [OF quiet_calls(3) [OF laws]] c books_ok [OF B]]]
  note E = idle_trans(2) [OF D quietD [OF quiet_calls(4) [OF laws] d books_ok [OF D]]]
  note F = books_trans [OF E books_redeem_calls(1) [OF books_ok [OF E] laws_registry [OF laws] e]]
  note G = books_trans [OF F books_redeem_calls(4) [OF books_ok [OF F] laws_registry [OF laws] f]]
  note H = idle_trans(2) [OF G quietD [OF quiet_release_replace [OF laws] g books_ok [OF G]]]
  note J = idle_trans(2) [OF H quietD [OF quiet_announce h books_ok [OF H]]]
  have r: "(\<lambda>q. single ?p (int (amt z)) q + single ?p (- int (amt z)) q) = nothing" by (auto simp: single_def)
  have "cur z = pair_wrapped ?p" using z y by (auto simp: calculate_token_amounts_def rbind_Inr_iff wrapped_currency_def split: if_splits)
  then show "advances w S s s'" by (intro advance_books [OF ok, where I = "single ?p (- int (amt z))"]) (use J in \<open>auto simp: r split: if_splits\<close>)
qed

subsection \<open>Executing\<close>

lemma get_open_redeem_run:
  assumes "get_open_redeem_request_from_id s k = Inr u"
  shows "RedeemRequests s k = Some u" and "red_status u = Redeem_Pending"
proof -
  obtain r where "RedeemRequests s k = Some r" using assms by (cases "RedeemRequests s k") (simp_all add: get_open_redeem_request_from_id_def ok_or_def)
  then show "RedeemRequests s k = Some u" "red_status u = Redeem_Pending"
    using assms by (cases "red_status r"; simp add: get_open_redeem_request_from_id_def ok_or_def)+
qed

lemma red_due_pending:
  "red_status u = Redeem_Pending \<Longrightarrow> int (red_due q u) = single (vid_currencies (red_vault u)) (int (red_amount_btc u + red_transfer_fee_btc u)) q"
  by (simp add: red_due_def single_def)

lemma red_total: "am_checked_add (red_amount_btc_of u) (red_transfer_fee_btc_of u) = Inr x \<Longrightarrow>
    amt x = red_amount_btc u + red_transfer_fee_btc u \<and> cur x = pair_wrapped (vid_currencies (red_vault u))"
  by (auto simp: red_amount_btc_of_def red_transfer_fee_btc_of_def wrapped_currency_def)

text \<open>A pending request that leaves the pending state by a burn, or by giving up the tokens to be redeemed.\<close>

lemma closed_request_balance:
  assumes ok: "bridge_ok w S s" and k: "RedeemRequests s k = Some u" "red_status u = Redeem_Pending" and st: "st \<noteq> Redeem_Pending"
    and n: "n = red_amount_btc u + red_transfer_fee_btc u" and p: "p = vid_currencies (red_vault u)"
    and set: "set_redeem_status k st s1 = Inr (x, s2)" and B: "books S I nothing (single p (- int n)) b s s1"
    and fin: "finite {q. I q \<noteq> 0}" and b: "b = wsum w I"
  shows "advances w S s s2"
proof (rule balance_redeem_books [OF ok B, where k = k and v = "u\<lparr>red_status := st\<rparr>"])
  have k1: "RedeemRequests s1 k = Some u" using B k by (simp add: books_def same_requests_def)
  show "reg s2 = reg s1" "RedeemRequests s2 = (RedeemRequests s1)(k \<mapsto> u\<lparr>red_status := st\<rparr>)" "IssueRequests s2 = IssueRequests s1"
    "ReplaceRequests s2 = ReplaceRequests s1"
    using set k1 by (auto simp: set_redeem_status_def mutate_exists_def)
  show "single p (- int n) q = int (red_due q (u\<lparr>red_status := st\<rparr>)) - (case RedeemRequests s k of Some u \<Rightarrow> int (red_due q u) | None \<Rightarrow> 0)" for q
    using st k n p by (simp add: red_due_def single_def)
qed (use k st fin b in \<open>auto simp: redeem_moves_def\<close>)

lemma execute_redeem_balance:
  assumes laws: "supply_laws C w S" and ok: "bridge_ok w S s" and run: "execute_redeem_inner C k prf s = Inr (x, s')"
  shows "advances w S s s'"
  using run unfolding execute_redeem_inner_def
proof (elim run_elims, hypsubst_thin)
  fix u y z s1 s2 s3 s4 st u1 u2 u3
  assume u: "get_open_redeem_request_from_id s k = Inr u" and y: "am_checked_add (red_amount_btc_of u) (red_transfer_fee_btc_of u) = Inr y"
    and a: "on_ledger (am_burn_from (b_tokens C) y (red_redeemer u)) s = Inr (u1, s1)" and b: "take_redeem_fee C u s1 = Inr (u2, s2)"
    and c: "on_registry (redeem_tokens (bc_registry C) (red_vault u) y z (red_redeemer u)) s2 = Inr (u3, s3)"
    and d: "set_redeem_status k Redeem_Completed s3 = Inr (st, s4)"
    and e: "announce (ExecuteRedeemEvent k (red_redeemer u) (red_vault u) (red_amount_btc u) (red_fee u) (red_transfer_fee_btc u)) s4 = Inr (x, s')"
  note A = books_burn [OF a bridge_ok_registry [OF ok] laws_tokens [OF laws]]
  note B = idle_trans(2) [OF A quietD [OF quiet_take_fee [OF laws] b books_ok [OF A]]]
  note D = books_trans [OF B books_redeem_calls(4) [OF books_ok [OF B] laws_registry [OF laws] c]]
  have "advances w S s s4"
    by (rule closed_request_balance [OF ok get_open_redeem_run [OF u] _ refl refl d, where I = "single (vid_currencies (red_vault u)) (- int (amt y))"])
      (use D red_total [OF y] in \<open>auto split: if_splits\<close>)
  then show "advances w S s s'" using e by (rule advance_announce)
qed

subsection \<open>Cancelling\<close>

lemma quiet_cancel_collateral: "supply_laws C w S \<Longrightarrow> quiet S (cancel_redeem_collateral C a u reimburse v x y)"
  unfolding cancel_redeem_collateral_def Let_def by (intro quiet_intros quiet_calls)

lemma cancel_tokens_balance:
  assumes laws: "supply_laws C w S" and ok: "bridge_ok w S s" and run: "cancel_redeem_tokens_of C a k u reimburse v y s = Inr (st, s')"
    and k: "RedeemRequests s k = Some u" "red_status u = Redeem_Pending" and y: "am_checked_add (red_amount_btc_of u) (red_transfer_fee_btc_of u) = Inr y"
  shows "advances w S s s'"
proof -
  let ?i = "red_vault u"
  let ?p = "vid_currencies ?i"
  note n = red_total [OF y]
  have burnt: "advances w S s s'" if A: "idle S s s1" and "sbind (on_ledger (am_burn_from (b_tokens C) y a)) (\<lambda>_.
      sbind (on_registry (decrease_tokens ?i (red_redeemer u) y)) (\<lambda>_. set_redeem_status k (Redeem_Reimbursed d))) s1 = Inr (st, s')" for s1 d
    using that(2)
  proof (elim run_elims)
    fix s2 s3 u1 u2
    assume b: "on_ledger (am_burn_from (b_tokens C) y a) s1 = Inr (u1, s2)" and c: "on_registry (decrease_tokens ?i (red_redeemer u) y) s2 = Inr (u2, s3)"
      and d: "set_redeem_status k (Redeem_Reimbursed d) s3 = Inr (st, s')"
    note B = idle_trans(1) [OF A books_burn [OF b books_ok [OF A] laws_tokens [OF laws]]]
    note D = books_trans [OF B books_redeem_calls(3) [OF books_ok [OF B] laws_registry [OF laws] c]]
    show "advances w S s s'"
      by (rule closed_request_balance [OF ok k _ refl refl d, where I = "single ?p (- int (amt y))"]) (use D n in \<open>auto split: if_splits\<close>)
  qed
  have returned: "advances w S s s'" if A: "idle S s s1" and c: "on_registry (decrease_to_be_redeemed_tokens ?i y) s1 = Inr (u1, s2)"
    and d: "set_redeem_status k st' s2 = Inr (st, s')" and st': "st' \<noteq> Redeem_Pending" for s1 s2 u1 st'
    by (rule closed_request_balance [OF ok k st' refl refl d, where I = nothing])
      (use idle_trans(1) [OF A books_redeem_calls(2) [OF books_ok [OF A] laws_registry [OF laws] c]] n in auto)
  show ?thesis
  proof (cases reimburse)
    case False
    then have "sbind (slift (\<lambda>_. rbind (am_checked_add (red_amount_btc_of u) (red_fee_of u)) (\<lambda>x. am_checked_add x (red_transfer_fee_btc_of u)))) (\<lambda>t.
       sbind (on_ledger (am_unlock_on (b_tokens C) t a)) (\<lambda>_.
       sbind (on_registry (decrease_to_be_redeemed_tokens ?i y)) (\<lambda>_. set_redeem_status k Redeem_Retried))) s = Inr (st, s')"
      using run by (simp add: cancel_redeem_tokens_of_def)
    then show ?thesis
    proof (elim run_elims, hypsubst_thin)
      fix t s1 s2 u1 u2
      assume b: "on_ledger (am_unlock_on (b_tokens C) t a) s = Inr (u1, s1)" and c: "on_registry (decrease_to_be_redeemed_tokens ?i y) s1 = Inr (u2, s2)"
        and d: "set_redeem_status k Redeem_Retried s2 = Inr (st, s')"
      show ?thesis by (rule returned [OF quietD [OF quiet_calls(2) [OF laws] b bridge_ok_registry [OF ok]] c d]) simp
    qed
  next
    case True
    then obtain s1 u1 where f: "take_redeem_fee C u s = Inr (u1, s1)"
      and r: "(if is_liquidated v then
         sbind (on_ledger (am_burn_from (b_tokens C) y a)) (\<lambda>_. sbind (on_registry (decrease_tokens ?i (red_redeemer u) y)) (\<lambda>_.
         set_redeem_status k (Redeem_Reimbursed True)))
       else
         sbind (slift (\<lambda>s. is_vault_below_secure_threshold (bc_registry C) (reg s) ?i)) (\<lambda>below.
         if below then
           sbind (on_ledger (am_burn_from (b_tokens C) y a)) (\<lambda>_. sbind (on_registry (decrease_tokens ?i (red_redeemer u) y)) (\<lambda>_.
           set_redeem_status k (Redeem_Reimbursed False)))
         else
           sbind (on_ledger (am_unlock_on (b_tokens C) y (red_redeemer u))) (\<lambda>_.
           sbind (on_ledger (am_transfer (b_tokens C) y (red_redeemer u) (vid_account ?i))) (\<lambda>_.
           sbind (on_registry (decrease_to_be_redeemed_tokens ?i y)) (\<lambda>_.
           set_redeem_status k (Redeem_Reimbursed True)))))) s1 = Inr (st, s')"
      using run unfolding cancel_redeem_tokens_of_def Let_def by (auto simp del: action_simps elim: run_elims)
    note A = quietD [OF quiet_take_fee [OF laws] f bridge_ok_registry [OF ok]]
    consider d where "sbind (on_ledger (am_burn_from (b_tokens C) y a)) (\<lambda>_. sbind (on_registry (decrease_tokens ?i (red_redeemer u) y)) (\<lambda>_.
         set_redeem_status k (Redeem_Reimbursed d))) s1 = Inr (st, s')"
      | "sbind (on_ledger (am_unlock_on (b_tokens C) y (red_redeemer u))) (\<lambda>_.
           sbind (on_ledger (am_transfer (b_tokens C) y (red_redeemer u) (vid_account ?i))) (\<lambda>_.
           sbind (on_registry (decrease_to_be_redeemed_tokens ?i y)) (\<lambda>_. set_redeem_status k (Redeem_Reimbursed True)))) s1 = Inr (st, s')"
      using r by (auto simp del: action_simps elim!: run_elims split: if_splits)
    then show ?thesis
    proof cases
      case 1 then show ?thesis by (rule burnt [OF A])
    next
      case 2 then show ?thesis
      proof (elim run_elims)
        fix s2 s3 s4 u2 u3 u4
        assume b: "on_ledger (am_unlock_on (b_tokens C) y (red_redeemer u)) s1 = Inr (u2, s2)"
          and c: "on_ledger (am_transfer (b_tokens C) y (red_redeemer u) (vid_account ?i)) s2 = Inr (u3, s3)"
          and d: "on_registry (decrease_to_be_redeemed_tokens ?i y) s3 = Inr (u4, s4)" and e: "set_redeem_status k (Redeem_Reimbursed True) s4 = Inr (st, s')"
        note B = idle_trans(1) [OF A quietD [OF quiet_calls(2) [OF laws] b books_ok [OF A]]]
        note D = idle_trans(1) [OF B quietD [OF quiet_calls(3) [OF laws] c books_ok [OF B]]]
        show ?thesis by (rule returned [OF D d e]) simp
      qed
    qed
  qed
qed

lemma cancel_redeem_balance:
  assumes laws: "supply_laws C w S" and ok: "bridge_ok w S s" and run: "cancel_redeem_inner C a k reimburse s = Inr (x, s')"
  shows "advances w S s s'"
  using run unfolding cancel_redeem_inner_def
proof (elim run_elims, hypsubst_thin)
  fix u v y z c s1 st s2
  assume u: "get_open_redeem_request_from_id s k = Inr u" and y: "am_checked_add (red_amount_btc_of u) (red_transfer_fee_btc_of u) = Inr y"
    and a: "cancel_redeem_collateral C (red_redeemer u) u reimburse v y z s = Inr (c, s1)"
    and b: "cancel_redeem_tokens_of C (red_redeemer u) k u reimburse v y s1 = Inr (st, s2)"
    and e: "announce (CancelRedeemEvent k (red_redeemer u) (red_vault u) (amt c) st) s2 = Inr (x, s')"
  note A = quietD [OF quiet_cancel_collateral [OF laws] a bridge_ok_registry [OF ok]]
  have "RedeemRequests s1 k = Some u" using A get_open_redeem_run [OF u] by (simp add: books_def same_requests_def)
  note B = cancel_tokens_balance [OF laws bridge_ok_idle [OF ok A] b this get_open_redeem_run(2) [OF u] y]
  have "life_cycle s s1" using A by (simp add: books_def life_cycle_same)
  from advance_announce [OF advance_trans [OF this B] e] show "advances w S s s'" .
qed

lemma mint_reimbursed_balance:
  fixes s :: "('a, 'c, 'x) bridge"
  assumes laws: "supply_laws C w S" and ok: "bridge_ok w S s" and run: "mint_tokens_for_reimbursed_redeem_inner C i k s = Inr (x, s')"
  shows "advances w S s s'"
  using run unfolding mint_tokens_for_reimbursed_redeem_inner_def
proof (elim run_elims, hypsubst_thin)
  fix u :: "('a, 'c) redeem_request" and y s1 s2 s3 s4 st u1 u2 u3
  let ?i = "red_vault u"
  let ?p = "vid_currencies ?i"
  assume u: "ok_or (RedeemRequests s k) (RedeemError RedeemIdNotFound) = Inr u" and n: "red_status u = Redeem_Reimbursed False"
    and y: "am_checked_add (red_amount_btc_of u) (red_transfer_fee_btc_of u) = Inr y"
    and a: "on_registry (try_increase_to_be_issued_tokens (bc_registry C) ?i y) s = Inr (u1, s1)" and b: "on_registry (issue_tokens ?i y) s1 = Inr (u2, s2)"
    and c: "on_ledger (am_mint_to (b_tokens C) y (vid_account ?i)) s2 = Inr (u3, s3)"
    and d: "set_redeem_status k (Redeem_Reimbursed True) s3 = Inr (st, s4)" and e: "announce (MintTokensForReimbursedRedeemEvent k ?i (amt y)) s4 = Inr (x, s')"
  have k: "RedeemRequests s k = Some u" using u by (cases "RedeemRequests s k") (simp_all add: ok_or_def)
  note A = books_issue_calls(1) [OF bridge_ok_registry [OF ok] a]
  note B = books_trans [OF A books_issue_calls(3) [OF books_ok [OF A] b]]
  note D = books_trans [OF B books_mint [OF c books_ok [OF B] laws_tokens [OF laws]]]
  have z: "(\<lambda>q. single ?p (int (amt y)) q + single ?p (- int (amt y)) q) = nothing" by (auto simp: single_def)
  have "advances w S s s4"
  proof (rule balance_redeem_books [OF ok, where I = "single ?p (int (amt y))" and k = k and v = "u\<lparr>red_status := Redeem_Reimbursed True\<rparr>"])
    show "books S (single ?p (int (amt y))) nothing nothing (if cur y = w then int (amt y) else 0) s s3" using D by (simp add: z)
    then have "RedeemRequests s3 k = Some u" using k by (simp add: books_def same_requests_def)
    then show "reg s4 = reg s3" "RedeemRequests s4 = (RedeemRequests s3)(k \<mapsto> u\<lparr>red_status := Redeem_Reimbursed True\<rparr>)"
      "IssueRequests s4 = IssueRequests s3" "ReplaceRequests s4 = ReplaceRequests s3"
      using d by (auto simp: set_redeem_status_def mutate_exists_def)
  qed (use n k red_total [OF y] in \<open>auto simp: red_due_def redeem_moves_def\<close>)
  then show "advances w S s s'" using e by (rule advance_announce)
qed

end
