(* ===== verification/Bridge_Replace.thy ===== *)
theory Bridge_Replace
  imports Bridge_Calls
begin

text \<open>The operations of the replace pallet keep the balance of the bridge.\<close>

subsection \<open>Changes of one request\<close>

definition replace_wf :: "('a, 'c) replace_request \<Rightarrow> bool" where
  "replace_wf r \<longleftrightarrow> rep_old_vault r \<noteq> rep_new_vault r \<and> wrapped_currency (rep_old_vault r) = wrapped_currency (rep_new_vault r)"

lemma balance_replace:
  assumes ok: "bridge_ok w S s" and B: "books S I t r b s s1" and s': "reg s' = reg s1" "ReplaceRequests s' = (ReplaceRequests s1)(k \<mapsto> v)"
      "IssueRequests s' = IssueRequests s1" "RedeemRequests s' = RedeemRequests s1"
    and t: "\<And>q. t q = int (rep_due_new q v) - (case ReplaceRequests s k of Some u \<Rightarrow> int (rep_due_new q u) | None \<Rightarrow> 0)"
    and r: "\<And>q. r q = int (rep_due_old q v) - (case ReplaceRequests s k of Some u \<Rightarrow> int (rep_due_old q u) | None \<Rightarrow> 0)"
    and fin: "finite {q. I q \<noteq> 0}" and b: "b = wsum w I" and v: "replace_wf v"
    and mv: "\<And>u. ReplaceRequests s k = Some u \<Longrightarrow> replace_moves u v"
  shows "advances w S s s'"
  unfolding advances_def
proof (rule conjI)
  have e: "ReplaceRequests s' = (ReplaceRequests s)(k \<mapsto> v)" "IssueRequests s' = IssueRequests s" "RedeemRequests s' = RedeemRequests s"
    using s' B by (simp_all add: books_def same_requests_def)
  then show "life_cycle s s'" using mv by (simp add: life_cycle_def evolve_refl evolve_upd)
  show "bridge_ok w S s'"
  proof (rule bridge_okI [OF ok _ s'(1)])
    show "posted S I t r b s s1" using B by (simp add: books_def)
    have f: "finite (dom (ReplaceRequests s))" using ok by (simp add: bridge_ok_def requests_wf_def)
    show "requests_wf s'" using ok e v by (simp add: bridge_ok_def requests_wf_def replace_wf_def)
    show "int (due_issued s' q) = int (due_issued s q) + t q" for q
      using msum_new [OF f, of k "rep_due_new q" v] msum_change [OF f, of k _ "rep_due_new q" v] e t [of q]
      by (cases "ReplaceRequests s k") (auto simp: due_issued_def)
    show "int (due_redeemed s' q) = int (due_redeemed s q) + r q" for q
      using msum_new [OF f, of k "rep_due_old q" v] msum_change [OF f, of k _ "rep_due_old q" v] e r [of q]
      by (cases "ReplaceRequests s k") (auto simp: due_redeemed_def)
  qed (rule fin, rule b)
qed

lemma rep_due_pending:
  assumes "rep_status u = Replace_Pending"
  shows "int (rep_due_new q u) = single (vid_currencies (rep_new_vault u)) (int (rep_amount u)) q"
    and "int (rep_due_old q u) = single (vid_currencies (rep_old_vault u)) (int (rep_amount u)) q"
  using assms by (simp_all add: rep_due_new_def rep_due_old_def single_def)

lemma bridge_ok_replace_wf: "bridge_ok w S s \<Longrightarrow> ReplaceRequests s k = Some u \<Longrightarrow> replace_wf u"
  by (auto simp: bridge_ok_def requests_wf_def replace_wf_def)

lemma announce_books: "announce e s = Inr (x, s') \<Longrightarrow> registry_ok (reg s) \<Longrightarrow> idle S s s'"
  by (rule quietD [OF quiet_announce])

subsection \<open>Asking to be replaced\<close>

lemma quiet_request_replace: "supply_laws C w S \<Longrightarrow> quiet S (request_replace_inner C i n)"
  unfolding request_replace_inner_def Let_def by (intro quiet_intros quiet_calls)

lemma quiet_withdraw_replace: "supply_laws C w S \<Longrightarrow> quiet S (withdraw_replace_inner C i n)"
  unfolding withdraw_replace_inner_def Let_def by (intro quiet_intros quiet_calls)

subsection \<open>Accepting\<close>

lemma accept_tokens_books:
  assumes run: "accept_replace_tokens C i j x s = Inr (u, s')" and ok: "registry_ok (reg s)" and laws: "supply_laws C w S"
  shows "books S nothing (single (vid_currencies j) (int (amt x))) (single (vid_currencies i) (int (amt x))) 0 s s'"
  using run unfolding accept_replace_tokens_def
proof (elim run_elims)
  fix u1 s1 assume a: "on_registry (try_increase_to_be_redeemed_tokens i x) s = Inr (u1, s1)"
    and b: "on_registry (try_increase_to_be_issued_tokens (bc_registry C) j x) s1 = Inr (u, s')"
  note A = books_redeem_calls(1) [OF ok laws_registry [OF laws] a]
  show ?thesis using books_trans [OF A books_issue_calls(1) [OF books_ok [OF A] b]] by simp
qed

lemma accept_replace_balance:
  fixes C :: "('a, 'c, 'x) bridge_config"
  assumes laws: "supply_laws C w S" and ok: "bridge_ok w S s" and run: "accept_replace_inner C i j n m ad s = Inr (k, s')"
    and new: "ReplaceRequests s k = None"
  shows "advances w S s s'"
  using run unfolding accept_replace_inner_def Let_def
proof (elim run_elims, hypsubst_thin)
  fix x g z :: "'c amount" and e s1 s2 s3 s4 s5 s6 u u1 u2 u3 u4 u5
  let ?v = "\<lparr>rep_old_vault = i, rep_new_vault = j, rep_amount = amt x, rep_griefing_collateral = amt g, rep_collateral = amt z,
    rep_accept_time = b_height C s5, rep_period = ReplacePeriod s5, rep_btc_address = ad, rep_btc_height = bc_best_height C (outside s5),
    rep_status = Replace_Pending\<rparr>"
  assume ne: "i \<noteq> j" "wrapped_currency i = wrapped_currency j"
    and a: "on_registry (decrease_to_be_replaced_tokens (bc_registry C) i (Amount n (wrapped_currency i))) s = Inr ((x, g), s1)"
    and b: "on_registry (try_deposit_collateral (bc_registry C) j z) s1 = Inr (u1, s2)" and c: "accept_replace_tokens C i j x s2 = Inr (u2, s3)"
    and d: "on_registry (transfer_funds (bc_registry C) (AvailableReplaceCollateral i) (ActiveReplaceCollateral i) g) s3 = Inr (u3, s4)"
    and f: "draw_secure_id C (vid_account i) s4 = Inr (k, s5)" and g: "insert_replace_request k ?v s5 = Inr (u4, s6)" and h: "announce e s6 = Inr (u5, s')"
  note A = quietD [OF quiet_calls(9) [OF laws] a bridge_ok_registry [OF ok]]
  note B = idle_trans(1) [OF A quietD [OF quiet_calls(14) [OF laws] b books_ok [OF A]]]
  note D = idle_trans(1) [OF B accept_tokens_books [OF c books_ok [OF B] laws]]
  note E = idle_trans(2) [OF D quietD [OF quiet_calls(6) [OF laws] d books_ok [OF D]]]
  note F = idle_trans(2) [OF E quietD [OF quiet_calls(5) [OF laws] f books_ok [OF E]]]
  have "reg s6 = reg s5" "ReplaceRequests s6 = (ReplaceRequests s5)(k \<mapsto> ?v)" "IssueRequests s6 = IssueRequests s5" "RedeemRequests s6 = RedeemRequests s5"
    using g by (auto simp: insert_replace_request_def)
  then have "advances w S s s6"
    by (rule balance_replace [OF ok F]) (use ne new in \<open>simp_all add: rep_due_pending replace_wf_def\<close>)
  then show "advances w S s s'" using h by (rule advance_announce)
qed

subsection \<open>Executing and cancelling\<close>

lemma get_open_or_cancelled_run:
  assumes "get_open_or_cancelled_replace_request s k = Inr u"
  shows "ReplaceRequests s k = Some u" and "rep_status u \<noteq> Replace_Completed"
proof -
  obtain r where "ReplaceRequests s k = Some r" using assms by (cases "ReplaceRequests s k") (simp_all add: get_open_or_cancelled_replace_request_def ok_or_def)
  then show "ReplaceRequests s k = Some u" "rep_status u \<noteq> Replace_Completed"
    using assms by (cases "rep_status r"; simp add: get_open_or_cancelled_replace_request_def ok_or_def)+
qed

lemma get_open_run:
  assumes "get_open_replace_request s k = Inr u"
  shows "ReplaceRequests s k = Some u" and "rep_status u = Replace_Pending"
proof -
  obtain r where "ReplaceRequests s k = Some r" using assms by (cases "ReplaceRequests s k") (simp_all add: get_open_replace_request_def ok_or_def)
  then show "ReplaceRequests s k = Some u" "rep_status u = Replace_Pending"
    using assms by (cases "rep_status r"; simp add: get_open_replace_request_def ok_or_def)+
qed

text \<open>A request that ends without anything due any more.\<close>

lemma closed_replace_balance:
  assumes ok: "bridge_ok w S s" and k: "ReplaceRequests s k = Some u" and st: "st \<noteq> Replace_Pending" and mv: "replace_moves u (u\<lparr>rep_status := st\<rparr>)"
    and B: "books S I (\<lambda>q. - int (rep_due_new q u)) (\<lambda>q. - int (rep_due_old q u)) b s s1" and set: "set_replace_status k st s1 = Inr (x, s')"
    and fin: "finite {q. I q \<noteq> 0}" and b: "b = wsum w I"
  shows "advances w S s s'"
proof (rule balance_replace [OF ok B, where k = k and v = "u\<lparr>rep_status := st\<rparr>"])
  have "ReplaceRequests s1 k = Some u" using B k by (simp add: books_def same_requests_def)
  then show "reg s' = reg s1" "ReplaceRequests s' = (ReplaceRequests s1)(k \<mapsto> u\<lparr>rep_status := st\<rparr>)" "IssueRequests s' = IssueRequests s1"
    "RedeemRequests s' = RedeemRequests s1"
    using set by (auto simp: set_replace_status_def mutate_exists_def)
  show "replace_wf (u\<lparr>rep_status := st\<rparr>)" using bridge_ok_replace_wf [OF ok k] by (simp add: replace_wf_def)
qed (use st k fin b mv in \<open>auto simp: rep_due_new_def rep_due_old_def\<close>)

lemma wsum_move: "pair_wrapped p = pair_wrapped p' \<Longrightarrow> wsum w (\<lambda>q. single p (- n) q + single p' n q) = 0"
  by (simp add: wsum_add)

lemma execute_replace_balance:
  fixes C :: "('a, 'c, 'x) bridge_config"
  assumes laws: "supply_laws C w S" and ok: "bridge_ok w S s" and run: "execute_replace_inner C k prf s = Inr (x, s')"
  shows "advances w S s s'"
  using run unfolding execute_replace_inner_def Let_def
proof (elim run_elims, hypsubst_thin)
  fix u :: "('a, 'c) replace_request" and y z :: "'c amount" and e s1 s2 s3 u1 u2
  let ?i = "rep_old_vault u" and ?j = "rep_new_vault u" and ?n = "int (rep_amount u)"
  assume u: "get_open_or_cancelled_replace_request s k = Inr u"
    and a: "(case rep_status u of
        Replace_Pending \<Rightarrow> sbind (on_registry (transfer_funds (bc_registry C) (ActiveReplaceCollateral ?i) (FreeBalance (vid_account ?i)) (rep_griefing_of C u)))
          (\<lambda>_. sret y)
      | Replace_Completed \<Rightarrow> sfail (ReplaceError ReplaceCompleted)
      | Replace_Cancelled \<Rightarrow> sbind (accept_replace_tokens C ?i ?j (rep_amount_of u)) (\<lambda>_. sret (am_zero (cur y)))) s = Inr (z, s1)"
    and b: "on_registry (replace_tokens (bc_registry C) ?i ?j (rep_amount_of u) z) s1 = Inr (u1, s2)" and c: "announce e s2 = Inr (u2, s3)"
    and d: "set_replace_status k Replace_Completed s3 = Inr (x, s')"
  note k = get_open_or_cancelled_run [OF u]
  note wf = bridge_ok_replace_wf [OF ok k(1)]
  have A: "books S nothing (\<lambda>q. single (vid_currencies ?j) ?n q - int (rep_due_new q u)) (\<lambda>q. single (vid_currencies ?i) ?n q - int (rep_due_old q u)) 0 s s1"
  proof (cases "rep_status u")
    case Replace_Pending
    with a obtain u3 where "on_registry (transfer_funds (bc_registry C) (ActiveReplaceCollateral ?i) (FreeBalance (vid_account ?i)) (rep_griefing_of C u)) s = Inr (u3, s1)"
      by (auto simp: rbind_Inr_iff)
    from quietD [OF quiet_calls(6) [OF laws] this bridge_ok_registry [OF ok]]
    show ?thesis using Replace_Pending by (simp add: rep_due_pending)
  next
    case Replace_Cancelled
    with a obtain u3 where "accept_replace_tokens C ?i ?j (rep_amount_of u) s = Inr (u3, s1)" by (auto simp: rbind_Inr_iff)
    from accept_tokens_books [OF this bridge_ok_registry [OF ok] laws]
    show ?thesis using Replace_Cancelled by (simp add: rep_due_new_def rep_due_old_def rep_amount_of_def)
  qed (use k in simp)
  have ij: "?i \<noteq> ?j" and w: "pair_wrapped (vid_currencies ?i) = pair_wrapped (vid_currencies ?j)" using wf by (simp_all add: replace_wf_def wrapped_currency_def)
  note B = books_trans [OF A books_replace_calls(1) [OF books_ok [OF A] laws_registry [OF laws] ij b]]
  note D = idle_trans(2) [OF B announce_books [OF c books_ok [OF B]]]
  let ?I = "\<lambda>q. single (vid_currencies ?i) (- ?n) q + single (vid_currencies ?j) ?n q"
  have z: "(\<lambda>q. single p n q - f q + single p (- n) q) = (\<lambda>q. - f q)" for p n f by (auto simp: single_def)
  show "advances w S s s'"
    by (rule closed_replace_balance [OF ok k(1) _ _ _ d, where I = ?I and b = 0]) (use D k in \<open>simp_all add: z wsum_move [OF w] rep_amount_of_def replace_moves_def\<close>)
qed

lemma cancel_replace_balance:
  fixes C :: "('a, 'c, 'x) bridge_config"
  assumes laws: "supply_laws C w S" and ok: "bridge_ok w S s" and run: "cancel_replace_inner C k s = Inr (x, s')"
  shows "advances w S s s'"
  using run unfolding cancel_replace_inner_def Let_def
proof (elim run_elims, hypsubst_thin)
  fix u :: "('a, 'c) replace_request" and y :: "'c amount" and e s1 s2 s3 s4 s5 u1 u2 u3 u4 l l' 
  let ?i = "rep_old_vault u" and ?j = "rep_new_vault u" and ?n = "int (rep_amount u)" and ?R = "bc_registry C"
  assume u: "get_open_replace_request s k = Inr u"
    and a: "on_registry (cancel_replace_tokens ?R ?i ?j (rep_amount_of u)) s = Inr (u1, s1)"
    and b: "on_registry (transfer_funds ?R (ActiveReplaceCollateral ?i) (FreeBalance (vid_account ?j)) (rep_griefing_of C u)) s1 = Inr (u2, s2)"
    and c: "(if \<not> l then slift (\<lambda>s. is_allowed_to_withdraw_collateral ?R (reg s) ?j (Some y)) else sret False) s2 = Inr (l', s3)"
    and d: "(if l' then on_registry (force_withdraw_collateral ?R ?j y) else sret ()) s3 = Inr (u3, s4)"
    and f: "set_replace_status k Replace_Cancelled s4 = Inr (u4, s5)" and g: "announce e s5 = Inr (x, s')"
  note k = get_open_run [OF u]
  note wf = bridge_ok_replace_wf [OF ok k(1)]
  have ij: "?i \<noteq> ?j" using wf by (simp add: replace_wf_def)
  note A = books_replace_calls(2) [OF bridge_ok_registry [OF ok] laws_registry [OF laws] ij a]
  note B = idle_trans(2) [OF A quietD [OF quiet_calls(6) [OF laws] b books_ok [OF A]]]
  note D = idle_trans(2) [OF B quietD [OF quiet_cases(1) [OF quiet_basic(4,1)] c books_ok [OF B]]]
  note E = idle_trans(2) [OF D quietD [OF quiet_cases(1) [OF quiet_calls(15) [OF laws] quiet_basic(1)] d books_ok [OF D]]]
  have s: "single p (- n) = (\<lambda>q. - single p n q)" for p :: "'c vault_currency_pair" and n by (auto simp: single_def)
  have "advances w S s s5"
    by (rule closed_replace_balance [OF ok k(1) _ _ _ f, where I = nothing and b = 0])
      (use E k in \<open>simp_all add: s rep_due_pending rep_amount_of_def replace_moves_def\<close>)
  then show "advances w S s s'" using g by (rule advance_announce)
qed

end
