(* ===== verification/Bridge_Balance.thy ===== *)
theory Bridge_Balance
  imports Bridge_Issue Bridge_Redeem Bridge_Replace
begin

text \<open>
  Runs of the bridge: any sequence of successful calls of the issue, redeem and replace pallets, calls of the registry,
  and changes that the rest of the chain makes to its own state without minting or burning the wrapped currency. A call
  that fails changes nothing and is not a step. The identifier that a request draws is a hash of a fresh nonce; it is
  taken not to be in use.
\<close>

subsection \<open>Steps and runs\<close>

inductive bridge_step :: "('x \<Rightarrow> nat) \<Rightarrow> ('a, 'c, 'x) bridge_config \<Rightarrow> ('a, 'c, 'x) bridge \<Rightarrow> ('a, 'c, 'x) bridge \<Rightarrow> bool" for S C where
  bs_request_issue: "request_issue C og n i gc s = Inr (k, s') \<Longrightarrow> IssueRequests s k = None \<Longrightarrow> bridge_step S C s s'"
| bs_execute_issue: "execute_issue C og k prf s = Inr (u, s') \<Longrightarrow> bridge_step S C s s'"
| bs_cancel_issue: "cancel_issue C og k s = Inr (u, s') \<Longrightarrow> bridge_step S C s s'"
| bs_issue_period: "set_issue_period og d s = Inr (u, s') \<Longrightarrow> bridge_step S C s s'"
| bs_request_redeem: "request_redeem C og n ad i s = Inr (k, s') \<Longrightarrow> RedeemRequests s k = None \<Longrightarrow> bridge_step S C s s'"
| bs_liquidation_redeem: "liquidation_redeem C og p n s = Inr (u, s') \<Longrightarrow> bridge_step S C s s'"
| bs_execute_redeem: "execute_redeem C og k prf s = Inr (u, s') \<Longrightarrow> bridge_step S C s s'"
| bs_cancel_redeem: "cancel_redeem C og k reimburse s = Inr (u, s') \<Longrightarrow> bridge_step S C s s'"
| bs_redeem_period: "set_redeem_period og d s = Inr (u, s') \<Longrightarrow> bridge_step S C s s'"
| bs_mint_reimbursed: "mint_tokens_for_reimbursed_redeem C og p k s = Inr (u, s') \<Longrightarrow> bridge_step S C s s'"
| bs_self_redeem: "self_redeem C og p n s = Inr (u, s') \<Longrightarrow> bridge_step S C s s'"
| bs_request_replace: "request_replace C og p n s = Inr (u, s') \<Longrightarrow> bridge_step S C s s'"
| bs_withdraw_replace: "withdraw_replace C og p n s = Inr (u, s') \<Longrightarrow> bridge_step S C s s'"
| bs_accept_replace: "accept_replace C og p i n m ad s = Inr (k, s') \<Longrightarrow> ReplaceRequests s k = None \<Longrightarrow> bridge_step S C s s'"
| bs_execute_replace: "execute_replace C og k prf s = Inr (u, s') \<Longrightarrow> bridge_step S C s s'"
| bs_cancel_replace: "cancel_replace C og k s = Inr (u, s') \<Longrightarrow> bridge_step S C s s'"
| bs_replace_period: "set_replace_period og d s = Inr (u, s') \<Longrightarrow> bridge_step S C s s'"
| bs_registry: "vault_step (bc_registry C) Internal (reg s) r \<Longrightarrow> bridge_step S C s (s\<lparr>reg := r\<rparr>)"
| bs_outside: "S y = S (outside s) \<Longrightarrow> bridge_step S C s (s\<lparr>reg := (reg s)\<lparr>world := y\<rparr>\<rparr>)"

inductive bridge_run :: "('x \<Rightarrow> nat) \<Rightarrow> ('a, 'c, 'x) bridge_config \<Rightarrow> ('a, 'c, 'x) bridge \<Rightarrow> ('a, 'c, 'x) bridge \<Rightarrow> bool" for S C where
  br_refl: "bridge_run S C s s"
| br_step: "bridge_step S C s s1 \<Longrightarrow> bridge_run S C s1 s' \<Longrightarrow> bridge_run S C s s'"

definition empty_bridge :: "('x \<Rightarrow> nat) \<Rightarrow> ('a, 'c, 'x) bridge \<Rightarrow> bool" where
  "empty_bridge S s \<longleftrightarrow> empty_registry (reg s) \<and> IssueRequests s = Map.empty \<and> RedeemRequests s = Map.empty \<and> ReplaceRequests s = Map.empty
     \<and> S (outside s) = 0"

lemma empty_bridge_ok: "empty_bridge S s \<Longrightarrow> bridge_ok w S s"
  using empty_registry_ok [of "reg s"] empty_registry_totals [of "reg s"]
  by (simp add: empty_bridge_def bridge_ok_def requests_wf_def due_issued_def due_redeemed_def msum_def backed_def issuance_def)

subsection \<open>Every step keeps the balance\<close>

lemma quiet_periods: "quiet S (set_issue_period og d)" "quiet S (set_redeem_period og d)" "quiet S (set_replace_period og d)"
  unfolding set_issue_period_def set_redeem_period_def set_replace_period_def
  by (intro quiet_intros; simp add: same_requests_def)+

lemma advance_registry:
  assumes "vault_step (bc_registry C) Internal (reg s) r" and "supply_laws C w S" and ok: "bridge_ok w S s"
  shows "advances w S s (s\<lparr>reg := r\<rparr>)"
proof (rule advance_idle [OF ok])
  have "refines Internal (reg s) r" using step_refines [OF assms(1) bridge_ok_registry [OF ok]] .
  then show "idle S s (s\<lparr>reg := r\<rparr>)"
    using step_issuance [OF assms(1) laws_registry [OF assms(2)]] by (simp add: books_def posted_def same_requests_def refines_def totals_posted_def)
qed

lemma advance_outside:
  assumes "S y = S (outside s)" and ok: "bridge_ok w S s"
  shows "advances w S s (s\<lparr>reg := (reg s)\<lparr>world := y\<rparr>\<rparr>)"
proof (rule advance_idle [OF ok])
  have "same (reg s) ((reg s)\<lparr>world := y\<rparr>)" by (simp add: same_def vaults_view_def fun_eq_iff)
  then show "idle S s (s\<lparr>reg := (reg s)\<lparr>world := y\<rparr>\<rparr>)"
    using assms(1) bridge_ok_registry [OF ok] same_ok same_totals
    by (fastforce simp: books_def posted_def same_requests_def totals_posted_def issuance_def)
qed

lemma step_advances:
  assumes "bridge_step S C s s'" and laws: "supply_laws C w S" and ok: "bridge_ok w S s"
  shows "advances w S s s'"
  using assms(1)
proof cases
  case (bs_self_redeem og p n u)
  then obtain i where "signed_vault og p = Inr i" "self_redeem_inner C i (Amount n (wrapped_currency i)) s = Inr (u, s')"
    by (auto simp: self_redeem_def rbind_Inr_iff)
  then show ?thesis using self_redeem_balance [OF laws ok] by simp
qed (use laws ok in \<open>auto simp: request_issue_def execute_issue_def cancel_issue_def request_redeem_def liquidation_redeem_def execute_redeem_def
    cancel_redeem_def mint_tokens_for_reimbursed_redeem_def request_replace_def withdraw_replace_def accept_replace_def execute_replace_def
    cancel_replace_def rbind_Inr_iff intro: request_issue_balance execute_issue_balance cancel_issue_balance request_redeem_balance
    liquidation_redeem_balance execute_redeem_balance cancel_redeem_balance mint_reimbursed_balance accept_replace_balance execute_replace_balance
    cancel_replace_balance advance_registry advance_outside advance_quiet [OF quiet_periods(1)] advance_quiet [OF quiet_periods(2)]
    advance_quiet [OF quiet_periods(3)] advance_quiet [OF quiet_request_replace] advance_quiet [OF quiet_withdraw_replace]\<close>)

lemma run_advances: "bridge_run S C s s' \<Longrightarrow> supply_laws C w S \<Longrightarrow> bridge_ok w S s \<Longrightarrow> advances w S s s'"
proof (induction rule: bridge_run.induct)
  case (br_refl s)
  then show ?case by (simp add: advances_def life_cycle_same same_requests_def)
next
  case (br_step s s1 s')
  from step_advances [OF br_step.hyps(1) br_step.prems] br_step.IH [OF br_step.prems(1)] show ?case
    by (auto simp: advances_def intro: life_cycle_trans)
qed

lemma run_from_empty: "supply_laws C w S \<Longrightarrow> empty_bridge S s0 \<Longrightarrow> bridge_run S C s0 s \<Longrightarrow> bridge_ok w S s"
  using run_advances [OF _ _ empty_bridge_ok] by (fastforce simp: advances_def)

lemma run_trans: "bridge_run S C s s1 \<Longrightarrow> bridge_run S C s1 s' \<Longrightarrow> bridge_run S C s s'"
  by (induction rule: bridge_run.induct) (auto intro: br_step)

subsection \<open>Properties\<close>

text \<open>
  C2: invariant. After any run of the bridge from an empty one, the tokens to be issued of a currency pair, summed over
  the vaults and the liquidation vault, are exactly what the pending issue requests of the pair and the pending replace
  requests with a new vault of the pair ask for, and the tokens to be redeemed are exactly what the pending redeem
  requests and the pending replace requests of an old vault ask for: cancelled, executed and reimbursed requests leave
  nothing behind, whatever was liquidated in between.
\<close>

theorem totals_are_pending_requests:
  assumes "supply_laws C w S" and "empty_bridge S s0" and "bridge_run S C s0 s"
  shows "n_to_be_issued (totals (reg s) p)
      = (\<Sum>k\<in>dom (IssueRequests s). iss_due p (the (IssueRequests s k))) + (\<Sum>k\<in>dom (ReplaceRequests s). rep_due_new p (the (ReplaceRequests s k)))
    \<and> n_to_be_redeemed (totals (reg s) p)
      = (\<Sum>k\<in>dom (RedeemRequests s). red_due p (the (RedeemRequests s k))) + (\<Sum>k\<in>dom (ReplaceRequests s). rep_due_old p (the (ReplaceRequests s k)))"
  using run_from_empty [OF assms] by (simp add: bridge_ok_def due_issued_def due_redeemed_def msum_def)

text \<open>
  C1: safety. After any run of the bridge from an empty one, the supply of the wrapped currency is exactly the sum of the
  issued tokens of the vaults and the liquidation vaults, over all currency pairs that wrap it: no sequence of
  requests, liquidations, reimbursements and replacements mints a token that no vault accounts for.
\<close>

theorem wrapped_supply_is_issued:
  assumes "supply_laws C w S" and "empty_bridge S s0" and "bridge_run S C s0 s"
  shows "S (outside s) = (\<Sum>p | pair_wrapped p = w \<and> n_issued (totals (reg s) p) \<noteq> 0. n_issued (totals (reg s) p))"
proof -
  have "int (S (outside s)) = (\<Sum>p | pair_wrapped p = w \<and> n_issued (totals (reg s) p) \<noteq> 0. int (n_issued (totals (reg s) p)))"
    using run_from_empty [OF assms] by (simp add: bridge_ok_def backed_def issuance_def)
  also have "\<dots> = int (\<Sum>p | pair_wrapped p = w \<and> n_issued (totals (reg s) p) \<noteq> 0. n_issued (totals (reg s) p))" by simp
  finally show ?thesis unfolding of_nat_eq_iff .
qed

text \<open>
  C4: safety. Requests are never dropped and follow their life cycle: an issue request stays as it is, is cancelled while
  pending, or is completed once with the amounts that were paid; a redeem request leaves the pending state once, and then
  changes at most from reimbursed without to reimbursed with the tokens of the vault; a replace request is cancelled
  while pending or completed once. Nothing else of a request ever changes.
\<close>

theorem requests_follow_life_cycle:
  assumes "supply_laws C w S" and "empty_bridge S s0" and "bridge_run S C s0 s" and "bridge_run S C s s'"
  shows "(\<forall>k u. IssueRequests s k = Some u \<longrightarrow> (\<exists>v. IssueRequests s' k = Some v \<and> issue_moves u v))
    \<and> (\<forall>k u. RedeemRequests s k = Some u \<longrightarrow> (\<exists>v. RedeemRequests s' k = Some v \<and> redeem_moves u v))
    \<and> (\<forall>k u. ReplaceRequests s k = Some u \<longrightarrow> (\<exists>v. ReplaceRequests s' k = Some v \<and> replace_moves u v))"
  using run_advances [OF assms(4,1) run_from_empty [OF assms(1-3)]] by (simp add: advances_def life_cycle_def evolve_def)

lemma completed_issue_stays:
  assumes "supply_laws C w S" and "bridge_ok w S s" and "bridge_run S C s s'" and "IssueRequests s k = Some u" "iss_status u = Issue_Completed"
  shows "IssueRequests s' k = Some u"
proof -
  have "life_cycle s s'" using run_advances [OF assms(3,1,2)] by (simp add: advances_def)
  then show ?thesis using assms(4,5) by (fastforce simp: life_cycle_def evolve_def issue_moves_def)
qed

text \<open>
  error. A Bitcoin payment mints once: after an issue request was executed, in every later state of the bridge
  executing or cancelling it again fails with the error that it is completed, whoever calls and with whatever proof.
\<close>

theorem issue_executed_once:
  assumes "supply_laws C w S" and "empty_bridge S s0" and "bridge_run S C s0 s" and "execute_issue C og k prf s = Inr (u, s1)" and "bridge_run S C s1 s'"
  shows "execute_issue C (SignedOrigin a) k prf' s' = Inl (Err (IssueError IssueCompleted))
    \<and> cancel_issue C (SignedOrigin a) k s' = Inl (Err (IssueError IssueCompleted))"
proof -
  note ok = run_from_empty [OF assms(1-3)]
  obtain ex where run: "execute_issue_inner C ex k prf s = Inr (u, s1)" using assms(4) by (auto simp: execute_issue_def rbind_Inr_iff)
  obtain r where r: "IssueRequests s1 k = Some r" "iss_status r = Issue_Completed"
    by (rule execute_issue_posting [OF assms(1) ok run]) (metis fun_upd_same issue_request.select_convs(12) issue_request.surjective issue_request.update_convs(12))
  have "bridge_ok w S s1" using execute_issue_balance [OF assms(1) ok run] by (simp add: advances_def)
  from completed_issue_stays [OF assms(1) this assms(5) r] show ?thesis
    using r(2) by (simp add: execute_issue_def execute_issue_inner_def cancel_issue_def cancel_issue_inner_def get_issue_request_from_id_def get_pending_issue_def ok_or_def)
qed

text \<open>
  C3: safety. Executing an issue request never mints more than was paid in Bitcoin: the amount and the fee written to the
  completed request are together at most the verified payment, they are what the supply of the wrapped currency grows
  by, and what the issued tokens of the currency pair of the vault grow by.
\<close>

theorem issue_mints_at_most_payment:
  assumes "supply_laws C w S" and "bridge_ok w S s" and "execute_issue C (SignedOrigin a) k prf s = Inr (x, s')" and "IssueRequests s k = Some u"
    and "wrapped_currency (iss_vault u) = w"
  shows "\<exists>n r. bc_issue_payment C (outside s) prf (iss_btc_address u) = Inr n \<and> IssueRequests s' k = Some r \<and> iss_status r = Issue_Completed
    \<and> iss_amount r + iss_fee r \<le> n \<and> S (outside s') = S (outside s) + iss_amount r + iss_fee r
    \<and> n_issued (totals (reg s') (vid_currencies (iss_vault u))) = n_issued (totals (reg s) (vid_currencies (iss_vault u))) + iss_amount r + iss_fee r"
proof -
  have run: "execute_issue_inner C a k prf s = Inr (x, s')" using assms(3) by (simp add: execute_issue_def)
  show ?thesis
  proof (rule execute_issue_posting [OF assms(1,2) run])
    fix u' n r
    assume u': "IssueRequests s k = Some u'" and n: "bc_issue_payment C (outside s) prf (iss_btc_address u') = Inr n" and le: "iss_amount r + iss_fee r \<le> n"
      and r: "r = u'\<lparr>iss_amount := iss_amount r, iss_fee := iss_fee r, iss_status := Issue_Completed\<rparr>" and s': "IssueRequests s' = (IssueRequests s)(k \<mapsto> r)"
      and P: "posted S (single (vid_currencies (iss_vault u')) (int (iss_amount r + iss_fee r))) (\<lambda>q. - int (iss_due q u')) nothing
        (if wrapped_currency (iss_vault u') = w then int (iss_amount r + iss_fee r) else 0) s s'"
    have u: "u' = u" using u' assms(4) by simp
    have st: "iss_status r = Issue_Completed" using r by (cases r; cases u'; simp)
    have "int (S (outside s')) = int (S (outside s)) + int (iss_amount r + iss_fee r)"
      "int (n_issued (totals (reg s') (vid_currencies (iss_vault u)))) = int (n_issued (totals (reg s) (vid_currencies (iss_vault u)))) + int (iss_amount r + iss_fee r)"
      using P assms(5) unfolding posted_def totals_posted_def u by (simp_all add: issuance_def single_def)
    then have "S (outside s') = S (outside s) + iss_amount r + iss_fee r"
      "n_issued (totals (reg s') (vid_currencies (iss_vault u))) = n_issued (totals (reg s) (vid_currencies (iss_vault u))) + iss_amount r + iss_fee r"
      by linarith+
    then show ?thesis using n u le s' st by auto
  qed
qed

text \<open>
  C28: error. A pending issue request that was overpaid cannot be executed while its vault does not accept new issues: the
  amount the vault can still issue is then zero in the collateral currency instead of the wrapped currency, the
  minimum with the surplus fails, and the whole call fails with the error for different currencies.
\<close>

theorem overpaid_issue_fails:
  assumes "IssueRequests s k = Some u" and "iss_status u = Issue_Pending" and "bc_issue_payment C (outside s) prf (iss_btc_address u) = Inr n"
    and "iss_amount u + iss_fee u < n" and "iss_amount u + iss_fee u < 2 ^ 128"
    and "Vaults (reg s) (iss_vault u) = Some v" and "v_status v = Active False" and "collateral_currency (iss_vault u) \<noteq> wrapped_currency (iss_vault u)"
  shows "execute_issue C (SignedOrigin a) k prf s = Inl (Err (CurrencyError CurrencyInvalidCurrency))"
  using assms by (simp add: execute_issue_def execute_issue_inner_def get_issue_request_from_id_def ok_or_def iss_amount_of_def iss_fee_of_def
      am_checked_add_def am_checked_fn_def same_currency_def checked_add_w_def execute_pending_issue_def am_lt_def am_gt_def is_vault_liquidated_def
      get_vault_from_id_def is_liquidated_def try_increase_issue_amount_def am_checked_sub_def checked_sub_def get_issuable_tokens_from_vault_def
      get_active_vault_from_id_def am_min_def Let_def)

end
