(* ===== verification/Vault_Samples.thy ===== *)
theory Vault_Samples
  imports Vault_Properties
begin

text \<open>
  A concrete configuration and a run of the vault registry on it: a vault registers with collateral of 1000, issues
  100 tokens, is asked to redeem 40 of them, is liquidated and then redeems the 40. Collateral and wrapped
  currency are worth the same, a fixed-point number has one decimal digit, and the state of the other pallets
  is the stake of the vault.
\<close>

definition sample_ufixed :: ufixed_ops where
  "sample_ufixed = \<lparr>
     multiply_by_rational_with_rounding = (\<lambda>a b c r. if c = 0 \<or> 2 ^ 128 \<le> rounded_div (a * b) c r then None else Some (rounded_div (a * b) c r)),
     uf_from_rational = (\<lambda>a b. if b = 0 then None else Some (a * 10 div b)),
     uf_checked_div = (\<lambda>a b. if b = 0 then None else Some (a * 10 div b)),
     uf_checked_mul_int = (\<lambda>a n. Some (a * n div 10)),
     uf_checked_from_integer = (\<lambda>n. Some (n * 10)),
     uf_DIV = 10\<rparr>"

definition sample_tokens :: "(nat, nat, nat) tokens" where
  "sample_tokens = \<lparr>tok_transfer = (\<lambda>_ _ _ _. sret ()), tok_reserve = (\<lambda>_ _ _. sret ()), tok_unreserve = (\<lambda>_ _ _ x. (0, x)),
     tok_slash_reserved = (\<lambda>_ _ _ x. (0, x)), tok_deposit = (\<lambda>_ _ _. sret ()), tok_free_balance = (\<lambda>x _ _. 5000),
     tok_reserved_balance = (\<lambda>x _ _. x)\<rparr>"

definition sample_config :: "(nat, nat, nat) vault_config" where
  "sample_config = \<lparr>
     cfg_tokens = sample_tokens, cfg_ufixed = sample_ufixed, cfg_active_block_number = (\<lambda>_. 7),
     cfg_stake_deposit = (\<lambda>_ _ n. smod (\<lambda>x. x + n)), cfg_stake_withdraw = (\<lambda>_ _ n. sbind (sensure (\<lambda>x. n \<le> x) BalanceTooLow) (\<lambda>_. smod (\<lambda>x. x - n))),
     cfg_stake_withdraw_all = (\<lambda>_ _ x. Inr (x, 0)), cfg_stake_slash = (\<lambda>_ n. smod (\<lambda>x. x - n)), cfg_stake_force_refund = (\<lambda>_. sret 0),
     cfg_stake_get = (\<lambda>x _ _. Inr x), cfg_stake_total = (\<lambda>x _. Inr x), cfg_stake_nonce = (\<lambda>_ _. 0),
     cfg_reward_set_stake = (\<lambda>_ _ _. sret ()), cfg_reward_total = (\<lambda>_ _. Inr 0), cfg_capacity_set_stake = (\<lambda>_ _. sret ()),
     cfg_fee_estimation = (\<lambda>_. Inr 10), cfg_distribute_all_vault_rewards = (\<lambda>_. sret ()), cfg_premium_redeem_reward_rate = (\<lambda>_. 1),
     cfg_redeem_fee_value = (\<lambda>_. 1), cfg_convert = (\<lambda>_ a c. Inr (Amount (amt a) c)), cfg_griefing_currency = 0, cfg_wrapped_currency = 2,
     cfg_liquidation_account = 99, cfg_sha256 = (\<lambda>_. 0), cfg_mul_assign = (\<lambda>k _. Some k), cfg_hash160 = (\<lambda>_. 0)\<rparr>"

definition sample_pair :: "nat vault_currency_pair" where
  "sample_pair = \<lparr>pair_collateral = 1, pair_wrapped = 2\<rparr>"

definition sample_id :: "(nat, nat) vault_id" where
  "sample_id = \<lparr>vid_account = 5, vid_currencies = sample_pair\<rparr>"

definition sample_empty :: "(nat, nat, nat) registry" where
  "sample_empty = \<lparr>MinimumCollateralVault = (\<lambda>_. Some 10), PunishmentDelay = 3, SystemCollateralCeiling = (\<lambda>_. Some 10000),
     SecureCollateralThreshold = (\<lambda>_. Some 20), PremiumRedeemThreshold = (\<lambda>_. Some 15), LiquidationCollateralThreshold = (\<lambda>_. Some 12),
     LiquidationVault = Map.empty, Vaults = Map.empty, VaultBitcoinPublicKey = (\<lambda>_. Some 0), TotalUserVaultCollateral = (\<lambda>_. 0),
     NominationEnabled = True, NominationVaults = Map.empty, NominationLimit = (\<lambda>_. 0), registry_events = [], world = 0\<rparr>"

abbreviation sample_vault_counts :: "nat \<Rightarrow> nat \<Rightarrow> nat \<Rightarrow> (nat, nat) vault" where
  "sample_vault_counts t n r \<equiv> (vault_new sample_id)\<lparr>to_be_issued_tokens := t, issued_tokens := n, to_be_redeemed_tokens := r\<rparr>"

definition sample_state :: "nat \<Rightarrow> nat \<Rightarrow> nat \<Rightarrow> (nat, nat) vault_event list \<Rightarrow> (nat, nat, nat) registry" where
  "sample_state t n r es = sample_empty\<lparr>Vaults := [sample_id \<mapsto> sample_vault_counts t n r], TotalUserVaultCollateral := (\<lambda>_. 0)(sample_pair := 1000),
     registry_events := es, world := 1000\<rparr>"

definition sample_events :: "(nat, nat) vault_event list" where
  "sample_events = [IncreaseLockedCollateral sample_pair 1000 1000, NominationDeposit sample_id 5 1000, RegisterVault sample_id 1000,
     IncreaseToBeIssuedTokens sample_id 100, IssueTokens sample_id 100, IncreaseToBeRedeemedTokens sample_id 40]"

definition sample_liquidated :: "(nat, nat, nat) registry" where
  "sample_liquidated = snd (projr (liquidate_vault sample_config sample_id (sample_state 0 100 40 sample_events)))"

lemmas sample_defs = sample_config_def sample_tokens_def sample_ufixed_def sample_pair_def sample_id_def sample_empty_def sample_state_def sample_events_def

lemmas registry_defs = rounded_div_def am_is_zero_def wrapped_currency_def collateral_currency_def vault_id_new_def vault_new_def is_liquidated_def accepts_new_issues_def
  get_vault_from_id_def get_active_vault_from_id_def get_liquidation_vault_def get_secure_threshold_def get_vault_secure_threshold_def
  get_backing_collateral_def compute_collateral_def on_world_def emit_def update_def lv_update_def
  am_checked_add_def am_checked_sub_def am_checked_fn_def am_ge_def am_le_def am_lt_def same_currency_def am_min_def am_saturating_sub_def
  am_checked_mul_def am_checked_rounded_mul_def am_checked_div_def to_u128_def am_lock_on_def am_unlock_on_def am_transfer_def am_zero_def
  checked_add_w_def checked_sub_def checked_mul_w_def checked_div_def
  update_reward_stake_def update_capacity_stake_def ext_reward_set_stake_def

lemma sample_register:
  "register_vault sample_config (SignedOrigin 5) sample_pair 1000 sample_empty = Inr ((), sample_state 0 0 0 (take 3 sample_events))"
  by (simp add: sample_defs registry_defs register_vault_def register_vault_inner_def get_bitcoin_public_key_def get_minimum_collateral_vault_def
      vault_exists_def insert_vault_def try_deposit_collateral_def deposit_vault_collateral_def nomination_deposit_collateral_def pm_deposit_collateral_def
      try_increase_total_backing_collateral_def get_total_user_vault_collateral_def get_collateral_ceiling_def)

lemma sample_request_issue:
  "try_increase_to_be_issued_tokens sample_config sample_id (Amount 100 2) (sample_state 0 0 0 (take 3 sample_events)) = Inr ((), sample_state 100 0 0 (take 4 sample_events))"
  by (simp add: sample_defs registry_defs try_increase_to_be_issued_tokens_def issuable_tokens_def is_banned_def get_free_collateral_def
      get_used_collateral_def backed_tokens_def calculate_max_wrapped_from_collateral_for_threshold_def request_issue_tokens_def increase_to_be_issued_def
      to_be_issued_tokens_of_def)

lemma sample_issue:
  "issue_tokens sample_id (Amount 100 2) (sample_state 100 0 0 (take 4 sample_events)) = Inr ((), sample_state 0 100 0 (take 5 sample_events))"
  by (simp add: sample_defs registry_defs issue_tokens_def execute_issue_tokens_def decrease_to_be_issued_def increase_issued_def issued_tokens_of_def
      to_be_issued_tokens_of_def)

lemma sample_request_redeem:
  "try_increase_to_be_redeemed_tokens sample_id (Amount 40 2) (sample_state 0 100 0 (take 5 sample_events)) = Inr ((), sample_state 0 100 40 sample_events)"
  by (simp add: sample_defs registry_defs try_increase_to_be_redeemed_tokens_def request_redeem_tokens_def increase_to_be_redeemed_def issued_tokens_of_def
      to_be_redeemed_tokens_of_def)

lemma sample_liquidate:
  "liquidate_vault sample_config sample_id (sample_state 0 100 40 sample_events) = Inr (Amount 72 1, sample_liquidated)"
  by (simp add: Let_def sample_defs registry_defs sample_liquidated_def liquidate_vault_def liquidate_def get_used_collateral_def backed_tokens_def
      withdraw_replace_request_def decrease_to_be_replaced_tokens_def calculate_collateral_def set_to_be_replaced_amount_def transfer_funds_def
      decrease_available_replace_collateral_def slash_for_to_be_redeemed_def increase_liquidated_collateral_def pm_withdraw_collateral_def ext_withdraw_stake_def
      slash_to_liquidation_vault_def decrease_total_backing_collateral_def try_increase_total_backing_collateral_def get_total_user_vault_collateral_def
      get_collateral_ceiling_def lv_increase_collateral_def lv_increase_issued_def lv_increase_to_be_issued_def lv_increase_to_be_redeemed_def
      issued_tokens_of_def to_be_issued_tokens_of_def to_be_redeemed_tokens_of_def to_be_replaced_tokens_of_def)

lemma sample_prefix:
  "vault_run sample_config [Internal, Request_Issue sample_pair 100, Execute_Issue sample_pair 100, Request_Redeem sample_pair 40]
     sample_empty (sample_state 0 100 40 sample_events)"
proof -
  have p: "vid_currencies sample_id = sample_pair" by (simp add: sample_id_def)
  show ?thesis
    using vs_register [OF sample_register] vs_request_issue [OF sample_request_issue] vs_issue [OF sample_issue, of sample_config]
      vs_request_redeem [OF sample_request_redeem, of sample_config]
    by (intro run_step [rotated] run_nil) (simp_all add: p run_nil)
qed

lemma vault_run_snoc: "vault_run C ops s s1 \<Longrightarrow> vault_step C op s1 s' \<Longrightarrow> vault_run C (ops @ [op]) s s'"
  by (induction rule: vault_run.induct) (auto intro: vault_run.intros)

lemma sample_run:
  "vault_run sample_config [Internal, Request_Issue sample_pair 100, Execute_Issue sample_pair 100, Request_Redeem sample_pair 40, Internal]
     sample_empty sample_liquidated"
  using vault_run_snoc [OF sample_prefix vs_liquidate [OF sample_liquidate]] by simp

lemma sample_empty_registry: "empty_registry sample_empty"
  by (simp add: empty_registry_def sample_empty_def)

lemma sample_ok: "registry_ok (sample_state 0 100 40 sample_events)"
  using run_refines [OF sample_prefix empty_registry_ok [OF sample_empty_registry]] by simp

subsection \<open>The properties on the run\<close>

theorem vault_registry_refines_witness:
  "empty_registry sample_empty
   \<and> spec_run [Internal, Request_Issue sample_pair 100, Execute_Issue sample_pair 100, Request_Redeem sample_pair 40, Internal] (\<lambda>p. no_tokens)
     = Some (totals sample_liquidated)"
  using vault_registry_refines_totals [OF sample_empty_registry sample_run] sample_empty_registry by simp

theorem vault_tokens_invariant_witness:
  "lv_to_be_redeemed_tokens (get_liquidation_vault sample_liquidated sample_pair) \<le> lv_issued_tokens (get_liquidation_vault sample_liquidated sample_pair)"
  using vault_tokens_invariant [OF sample_empty_registry sample_run, of sample_id _ sample_pair] by blast

theorem liquidation_witness:
  "lv_issued_tokens (get_liquidation_vault sample_liquidated sample_pair) = 100
   \<and> lv_to_be_redeemed_tokens (get_liquidation_vault sample_liquidated sample_pair) = 40"
proof -
  have v: "Vaults (sample_state 0 100 40 sample_events) sample_id = Some (sample_vault_counts 0 100 40)" by (simp add: sample_state_def)
  have p: "sample_pair = vid_currencies sample_id" by (simp add: sample_id_def)
  show ?thesis using liquidation_moves_tokens [OF sample_ok sample_liquidate v p]
    by (simp add: sample_state_def sample_empty_def get_liquidation_vault_def)
qed

theorem collateral_share_witness:
  "\<exists>n. calculate_collateral (Amount 1000 (1 :: nat)) (Amount 3 2) (Amount 7 2) = Inr (Amount n 1) \<and> n = 428"
  using collateral_share [of "Amount 1000 (1 :: nat)" "Amount 3 2" "Amount 7 2" "Amount 4 2"] by simp

theorem issue_request_witness:
  "\<exists>v. Vaults (sample_state 0 0 0 (take 3 sample_events)) sample_id = Some v \<and> \<not> is_liquidated v"
proof -
  have "ufixed_laws (cfg_ufixed sample_config)" by (simp add: ufixed_laws_def sample_config_def sample_ufixed_def)
  from issue_request_is_covered [OF this sample_request_issue] show ?thesis by auto
qed

end
