(* ===== verification/Bridge_Samples.thy ===== *)
theory Bridge_Samples
  imports Bridge_Balance Vault_Samples
begin

text \<open>
  A run of the bridge on a concrete configuration. The state of the other pallets is the stake of the vault and the supply
  of the wrapped currency. A vault registers, a user requests 100 tokens, pays 120 and gets them issued, and then
  requests to redeem 50.
\<close>

definition bridge_tokens :: "(nat, nat, nat \<times> nat) tokens" where
  "bridge_tokens = \<lparr>tok_transfer = (\<lambda>_ _ _ _. sret ()), tok_reserve = (\<lambda>_ _ _. sret ()), tok_unreserve = (\<lambda>_ _ _ x. (0, x)),
     tok_slash_reserved = (\<lambda>c _ n (x, y). if c = 2 then (n - min n y, (x, y - min n y)) else (0, (x, y))),
     tok_deposit = (\<lambda>c _ n. smod (\<lambda>(x, y). (x, if c = 2 then y + n else y))), tok_free_balance = (\<lambda>x _ _. 5000),
     tok_reserved_balance = (\<lambda>x _ _. 5000)\<rparr>"

definition bridge_registry :: "(nat, nat, nat \<times> nat) vault_config" where
  "bridge_registry = \<lparr>
     cfg_tokens = bridge_tokens, cfg_ufixed = sample_ufixed, cfg_active_block_number = (\<lambda>_. 7),
     cfg_stake_deposit = (\<lambda>_ _ n. smod (\<lambda>(x, y). (x + n, y))), cfg_stake_withdraw = (\<lambda>_ _ n. sbind (sensure (\<lambda>x. n \<le> fst x) BalanceTooLow) (\<lambda>_. smod (\<lambda>(x, y). (x - n, y)))),
     cfg_stake_withdraw_all = (\<lambda>_ _ (x, y). Inr (x, (0, y))), cfg_stake_slash = (\<lambda>_ n. smod (\<lambda>(x, y). (x - n, y))), cfg_stake_force_refund = (\<lambda>_. sret 0),
     cfg_stake_get = (\<lambda>x _ _. Inr (fst x)), cfg_stake_total = (\<lambda>x _. Inr (fst x)), cfg_stake_nonce = (\<lambda>_ _. 0),
     cfg_reward_set_stake = (\<lambda>_ _ _. sret ()), cfg_reward_total = (\<lambda>_ _. Inr 0), cfg_capacity_set_stake = (\<lambda>_ _. sret ()),
     cfg_fee_estimation = (\<lambda>_. Inr 10), cfg_distribute_all_vault_rewards = (\<lambda>_. sret ()), cfg_premium_redeem_reward_rate = (\<lambda>_. 1),
     cfg_redeem_fee_value = (\<lambda>_. 1), cfg_convert = (\<lambda>_ a c. Inr (Amount (amt a) c)), cfg_griefing_currency = 0, cfg_wrapped_currency = 2,
     cfg_liquidation_account = 99, cfg_sha256 = (\<lambda>_. 0), cfg_mul_assign = (\<lambda>k _. Some k), cfg_hash160 = (\<lambda>_. 0)\<rparr>"

definition sample_fees :: "(nat, nat) fee_store" where
  "sample_fees = \<lparr>IssueFee = 1, IssueGriefingCollateral = 1, RedeemFee = 1, PremiumRedeemFee = 1, PunishmentFee = 1, ReplaceGriefingCollateral = 1,
     Commission = Map.empty\<rparr>"

definition bridge_fees :: "(nat, nat, nat \<times> nat) fee_config" where
  "bridge_fees = \<lparr>fc_tokens = bridge_tokens, fc_ufixed = sample_ufixed, fc_store = (\<lambda>_. sample_fees), fc_put_store = (\<lambda>_ x. x), fc_pool_account = 90,
     fc_treasury = 91, fc_native_currency = 0, fc_max_expected_value = 100, fc_capacity_distribute = (\<lambda>_ _. sret ()), fc_capacity_withdraw = (\<lambda>_ _. sret 0),
     fc_vault_distribute = (\<lambda>_ _ _. sret ()), fc_vault_withdraw = (\<lambda>_ _ _. sret 0), fc_staking_distribute = (\<lambda>_ _ _. sret ()),
     fc_staking_withdraw = (\<lambda>_ _ _. sret 0), fc_ensure_opted_in = (\<lambda>_ _. Inr ())\<rparr>"

definition bridge_sample_config :: "(nat, nat, nat \<times> nat) bridge_config" where
  "bridge_sample_config = \<lparr>bc_registry = bridge_registry, bc_fee = bridge_fees, bc_treasury = 91, bc_relay_initialized = (\<lambda>_. Inr True),
     bc_best_height = (\<lambda>_. 3), bc_expired = (\<lambda>_ _ _ _. Inr False), bc_issue_payment = (\<lambda>_ _ _. Inr 120), bc_op_return_payment = (\<lambda>_ _ _ _ _. Inr ()),
     bc_secure_id = (\<lambda>_ x. (42, x))\<rparr>"

definition bridge_sample_registry :: "(nat, nat, nat \<times> nat) registry" where
  "bridge_sample_registry = \<lparr>MinimumCollateralVault = (\<lambda>_. Some 10), PunishmentDelay = 3, SystemCollateralCeiling = (\<lambda>_. Some 10000),
     SecureCollateralThreshold = (\<lambda>_. Some 20), PremiumRedeemThreshold = (\<lambda>_. Some 15), LiquidationCollateralThreshold = (\<lambda>_. Some 12),
     LiquidationVault = Map.empty, Vaults = Map.empty, VaultBitcoinPublicKey = (\<lambda>_. Some 0), TotalUserVaultCollateral = (\<lambda>_. 0),
     NominationEnabled = True, NominationVaults = Map.empty, NominationLimit = (\<lambda>_. 0), registry_events = [], world = (0, 0)\<rparr>"

definition sample_bridge :: "(nat, nat, nat \<times> nat) bridge" where
  "sample_bridge = \<lparr>reg = bridge_sample_registry, IssueRequests = Map.empty, IssuePeriod = 10, IssueBtcDustValue = 1, RedeemRequests = Map.empty,
     RedeemPeriod = 10, RedeemBtcDustValue = 1, RedeemTransactionSize = 1, ReplaceRequests = Map.empty, ReplacePeriod = 10, ReplaceBtcDustValue = 1,
     bridge_events = []\<rparr>"

definition sample_registered :: "(nat, nat, nat \<times> nat) bridge" where
  "sample_registered = sample_bridge\<lparr>reg := bridge_sample_registry\<lparr>Vaults := [sample_id \<mapsto> vault_new sample_id],
     TotalUserVaultCollateral := (\<lambda>_. 0)(sample_pair := 1000), registry_events := take 3 sample_events, world := (1000, 0)\<rparr>\<rparr>"

lemmas bridge_sample_defs = bridge_registry_def bridge_tokens_def bridge_sample_registry_def sample_bridge_def bridge_sample_config_def
  bridge_fees_def sample_fees_def sample_ufixed_def sample_pair_def sample_id_def sample_events_def sample_registered_def

lemma sample_laws: "supply_laws bridge_sample_config 2 snd"
  by (auto simp: supply_laws_def registry_supply_laws_def token_laws_def still_def bridge_sample_defs rbind_Inr_iff split: if_splits prod.splits)

lemma sample_bridge_register:
  "register_vault bridge_registry (SignedOrigin 5) sample_pair 1000 bridge_sample_registry = Inr ((), reg sample_registered)"
  by (simp add: bridge_sample_defs registry_defs register_vault_def register_vault_inner_def get_bitcoin_public_key_def get_minimum_collateral_vault_def
      vault_exists_def insert_vault_def try_deposit_collateral_def deposit_vault_collateral_def nomination_deposit_collateral_def pm_deposit_collateral_def
      try_increase_total_backing_collateral_def get_total_user_vault_collateral_def get_collateral_ceiling_def)

definition sample_issue_request :: "nat \<Rightarrow> nat \<Rightarrow> issue_status \<Rightarrow> (nat, nat) issue_request" where
  "sample_issue_request n f st = \<lparr>iss_vault = sample_id, iss_opentime = 7, iss_period = 10, iss_griefing_collateral = 10, iss_griefing_currency = 0,
     iss_amount = n, iss_fee = f, iss_requester = 8, iss_btc_address = P2WPKHv0 0, iss_btc_public_key = 0, iss_btc_height = 3, iss_status = st\<rparr>"

definition sample_requested :: "(nat, nat, nat \<times> nat) bridge" where
  "sample_requested = sample_registered\<lparr>reg := (reg sample_registered)\<lparr>Vaults := [sample_id \<mapsto> sample_vault_counts 100 0 0],
       registry_events := take 4 sample_events @ [RegisterAddress sample_id (P2WPKHv0 0)]\<rparr>,
     IssueRequests := [42 \<mapsto> sample_issue_request 90 10 Issue_Pending], bridge_events := [RequestIssueEvent 42 8 90 10 10 0 sample_id (P2WPKHv0 0) 0]\<rparr>"

definition sample_executed :: "(nat, nat, nat \<times> nat) bridge" where
  "sample_executed = sample_requested\<lparr>reg := (reg sample_requested)\<lparr>Vaults := [sample_id \<mapsto> sample_vault_counts 0 120 0],
       registry_events := registry_events (reg sample_requested) @ [IncreaseToBeIssuedTokens sample_id 20, IssueTokens sample_id 120], world := (1000, 120)\<rparr>,
     IssueRequests := [42 \<mapsto> sample_issue_request 108 12 Issue_Completed],
     bridge_events := bridge_events sample_requested @ [IssueAmountChange 42 108 12 0, ExecuteIssueEvent 42 8 sample_id 120 12]\<rparr>"

lemmas issue_defs = ensure_not_banned_def rv_ensure_not_banned_def is_banned_def new_deposit_address_def new_deposit_public_key_def rv_new_deposit_public_key_def public_key_to_hash_def
  get_issue_griefing_collateral_def issue_btc_dust_value_def try_increase_to_be_issued_tokens_def issuable_tokens_def get_free_collateral_def
  get_used_collateral_def backed_tokens_def calculate_max_wrapped_from_collateral_for_threshold_def request_issue_tokens_def increase_to_be_issued_def
  to_be_issued_tokens_of_def issued_tokens_of_def to_be_redeemed_tokens_of_def get_issue_fee_def draw_secure_id_def register_deposit_address_def
  get_bitcoin_public_key_def announce_def on_ledger_def on_registry_def ok_or_def

lemma sample_request:
  "request_issue bridge_sample_config (SignedOrigin 8) 100 sample_id 0 sample_registered = Inr (42, sample_requested)"
  by (simp add: sample_requested_def bridge_sample_defs registry_defs issue_defs request_issue_def request_issue_inner_def insert_issue_request_def
      sample_issue_request_def Let_def)

lemma sample_execute:
  "execute_issue bridge_sample_config (SignedOrigin 6) 42 prf sample_requested = Inr ((), sample_executed)"
  by (simp add: sample_executed_def sample_requested_def bridge_sample_defs registry_defs issue_defs execute_issue_def execute_issue_inner_def
      get_issue_request_from_id_def iss_amount_of_def iss_fee_of_def iss_griefing_of_def execute_pending_issue_def is_vault_liquidated_def am_gt_def
      try_increase_issue_amount_def get_issuable_tokens_from_vault_def if_ok_def set_issue_amount_def mutate_exists_def issue_tokens_def
      execute_issue_tokens_def decrease_to_be_issued_def increase_issued_def am_mint_to_def distribute_rewards_def distribute_def set_issue_status_def
      sample_issue_request_def Let_def)

definition sample_redeemed :: "(nat, nat, nat \<times> nat) bridge" where
  "sample_redeemed = snd (projr (request_redeem bridge_sample_config (SignedOrigin 8) 50 (P2WPKHv0 1) sample_id sample_executed))"

lemma sample_redeem:
  "request_redeem bridge_sample_config (SignedOrigin 8) 50 (P2WPKHv0 1) sample_id sample_executed = Inr (42, sample_redeemed)
   \<and> map_option red_status (RedeemRequests sample_redeemed 42) = Some Redeem_Pending \<and> outside sample_redeemed = (1000, 120)"
  by (simp add: sample_redeemed_def sample_executed_def sample_requested_def bridge_sample_defs registry_defs issue_defs request_redeem_def request_redeem_inner_def
      get_free_balance_def get_redeem_fee_def get_current_inclusion_fee_def calculate_inclusion_fee_def replace_error_def get_dust_value_def
      premium_redeem_reward_rate_def get_vault_max_premium_redeem_def vault_to_be_backed_tokens_def to_be_backed_tokens_def get_global_secure_threshold_def
      get_required_collateral_for_wrapped_def get_required_collateral_for_wrapped_with_threshold_def try_increase_to_be_redeemed_tokens_def request_redeem_tokens_def
      increase_to_be_redeemed_def release_replace_collateral_def decrease_to_be_replaced_tokens_def calculate_collateral_def set_to_be_replaced_amount_def
      decrease_available_replace_collateral_def to_be_replaced_tokens_of_def insert_redeem_request_def Let_def)

lemma sample_vault_step: "vault_step (bc_registry bridge_sample_config) Internal (reg sample_bridge) (reg sample_registered)"
proof -
  have "bc_registry bridge_sample_config = bridge_registry" "reg sample_bridge = bridge_sample_registry" by (simp_all add: bridge_sample_config_def sample_bridge_def)
  then show ?thesis using vs_register [OF sample_bridge_register] by simp
qed

lemma sample_bridge_empty: "empty_bridge snd sample_bridge"
  by (simp add: empty_bridge_def empty_registry_def sample_bridge_def bridge_sample_registry_def)

lemma sample_run_requested: "bridge_run snd bridge_sample_config sample_bridge sample_requested"
proof -
  have "sample_bridge\<lparr>reg := reg sample_registered\<rparr> = sample_registered" by (simp add: sample_registered_def sample_bridge_def)
  then have a: "bridge_step snd bridge_sample_config sample_bridge sample_registered" using bs_registry [OF sample_vault_step, of snd] by simp
  have "bridge_step snd bridge_sample_config sample_registered sample_requested"
    by (rule bs_request_issue [OF sample_request]) (simp add: sample_registered_def sample_bridge_def)
  then show ?thesis using a by (blast intro: br_step br_refl)
qed

lemma sample_run_redeemed: "bridge_run snd bridge_sample_config sample_executed sample_redeemed"
proof -
  have "RedeemRequests sample_executed 42 = None" by (simp add: sample_executed_def sample_requested_def sample_registered_def sample_bridge_def)
  from bs_request_redeem [OF conjunct1 [OF sample_redeem] this, of snd] show ?thesis by (blast intro: br_step br_refl)
qed

lemma sample_run_executed: "bridge_run snd bridge_sample_config sample_bridge sample_executed"
  by (rule run_trans [OF sample_run_requested br_step [OF bs_execute_issue [OF sample_execute] br_refl]])

lemma sample_bridge_run: "bridge_run snd bridge_sample_config sample_bridge sample_redeemed"
  by (rule run_trans [OF sample_run_executed sample_run_redeemed])

lemma sample_completed: "IssueRequests sample_requested 42 = Some (sample_issue_request 90 10 Issue_Pending)"
  by (simp add: sample_requested_def)

subsection \<open>The properties on the run\<close>

theorem totals_are_pending_requests_witness:
  "n_to_be_redeemed (totals (reg sample_redeemed) sample_pair) = (\<Sum>k\<in>dom (RedeemRequests sample_redeemed). red_due sample_pair (the (RedeemRequests sample_redeemed k)))
     + (\<Sum>k\<in>dom (ReplaceRequests sample_redeemed). rep_due_old sample_pair (the (ReplaceRequests sample_redeemed k)))"
  using totals_are_pending_requests [OF sample_laws sample_bridge_empty sample_bridge_run, of sample_pair] by blast

theorem wrapped_supply_is_issued_witness:
  "120 = (\<Sum>p | pair_wrapped p = 2 \<and> n_issued (totals (reg sample_redeemed) p) \<noteq> 0. n_issued (totals (reg sample_redeemed) p))"
  using wrapped_supply_is_issued [OF sample_laws sample_bridge_empty sample_bridge_run] sample_redeem by simp

theorem requests_follow_life_cycle_witness:
  "\<exists>v. IssueRequests sample_executed 42 = Some v \<and> issue_moves (sample_issue_request 90 10 Issue_Pending) v"
  using requests_follow_life_cycle [OF sample_laws sample_bridge_empty sample_run_requested br_step [OF bs_execute_issue [OF sample_execute] br_refl]]
    sample_completed by blast

theorem issue_executed_once_witness:
  "\<forall>prf. execute_issue bridge_sample_config (SignedOrigin 8) 42 prf sample_redeemed = Inl (Err (IssueError IssueCompleted))"
  using issue_executed_once [OF sample_laws sample_bridge_empty sample_run_requested sample_execute sample_run_redeemed] by blast

theorem issue_mints_at_most_payment_witness:
  "\<exists>r. IssueRequests sample_executed 42 = Some r \<and> iss_amount r + iss_fee r \<le> 120 \<and> snd (outside sample_executed) = iss_amount r + iss_fee r"
proof -
  have "wrapped_currency (iss_vault (sample_issue_request 90 10 Issue_Pending)) = 2"
    by (simp add: sample_issue_request_def sample_id_def sample_pair_def wrapped_currency_def)
  from issue_mints_at_most_payment [OF sample_laws run_from_empty [OF sample_laws sample_bridge_empty sample_run_requested] sample_execute sample_completed this]
  show ?thesis by (auto simp: bridge_sample_config_def sample_requested_def sample_registered_def)
qed

theorem overpaid_issue_fails_witness:
  "\<forall>prf. execute_issue bridge_sample_config (SignedOrigin 8) 42 prf
     (sample_requested\<lparr>reg := (reg sample_requested)\<lparr>Vaults := [sample_id \<mapsto> (sample_vault_counts 100 0 0)\<lparr>v_status := Active False\<rparr>]\<rparr>\<rparr>)
   = Inl (Err (CurrencyError CurrencyInvalidCurrency))"
proof
  fix q
  let ?s = "sample_requested\<lparr>reg := (reg sample_requested)\<lparr>Vaults := [sample_id \<mapsto> (sample_vault_counts 100 0 0)\<lparr>v_status := Active False\<rparr>]\<rparr>\<rparr>"
  have "IssueRequests ?s 42 = Some (sample_issue_request 90 10 Issue_Pending)" by (simp add: sample_requested_def)
  from overpaid_issue_fails [OF this, of bridge_sample_config q 120 _ 8]
  show "execute_issue bridge_sample_config (SignedOrigin 8) 42 q ?s = Inl (Err (CurrencyError CurrencyInvalidCurrency))"
    by (simp add: sample_issue_request_def bridge_sample_config_def collateral_currency_def wrapped_currency_def sample_id_def sample_pair_def)
qed

end
