(* ===== verification/Multi_Currency.thy ===== *)
theory Multi_Currency
  imports Dispatch
begin

text \<open>
  The trait \<^verbatim>\<open>orml_traits::MultiCurrency\<close> that the exchange and lending pallets hold their funds through,
  and the ordered maps of the Rust library. The ledger behind the trait is outside the repository: it
  is a record of operations on a state of any type, and \<open>multi_currency_laws\<close> states the documented
  behaviour of \<^verbatim>\<open>orml_tokens\<close> with the runtime's existential deposit of zero: a successful call moves,
  mints or burns exactly the amount it is given and touches no other balance. A transfer of nothing or
  to oneself succeeds without a change. \<open>table_currency\<close> is a concrete ledger that satisfies the laws.
\<close>

subsection \<open>The ledger\<close>

record ('a, 'c, 'x) multi_currency =
  mc_free_balance :: "'x \<Rightarrow> 'c \<Rightarrow> 'a \<Rightarrow> nat"
  mc_total_issuance :: "'x \<Rightarrow> 'c \<Rightarrow> nat"
  mc_transfer :: "'c \<Rightarrow> 'a \<Rightarrow> 'a \<Rightarrow> nat \<Rightarrow> ('x, dispatch_error, unit) action"
  mc_deposit :: "'c \<Rightarrow> 'a \<Rightarrow> nat \<Rightarrow> ('x, dispatch_error, unit) action"
  mc_withdraw :: "'c \<Rightarrow> 'a \<Rightarrow> nat \<Rightarrow> ('x, dispatch_error, unit) action"

definition balances_moved :: "'c \<Rightarrow> 'a \<Rightarrow> 'a \<Rightarrow> nat \<Rightarrow> ('c \<Rightarrow> 'a \<Rightarrow> nat) \<Rightarrow> 'c \<Rightarrow> 'a \<Rightarrow> nat" where
  "balances_moved c a b n f = (\<lambda>d e.
     if d = c \<and> a \<noteq> b then (if e = a then f d e - n else if e = b then f d e + n else f d e) else f d e)"

definition multi_currency_laws :: "('a, 'c, 'x) multi_currency \<Rightarrow> bool" where
  "multi_currency_laws M \<longleftrightarrow>
     (\<forall>c a b n x u x'. mc_transfer M c a b n x = Inr (u, x') \<longrightarrow>
        (a \<noteq> b \<longrightarrow> n \<le> mc_free_balance M x c a)
        \<and> mc_free_balance M x' = balances_moved c a b n (mc_free_balance M x)
        \<and> mc_total_issuance M x' = mc_total_issuance M x)
   \<and> (\<forall>c a n x u x'. mc_deposit M c a n x = Inr (u, x') \<longrightarrow>
        mc_free_balance M x' = (mc_free_balance M x)(c := (mc_free_balance M x c)(a := mc_free_balance M x c a + n))
        \<and> mc_total_issuance M x' = (mc_total_issuance M x)(c := mc_total_issuance M x c + n))
   \<and> (\<forall>c a n x u x'. mc_withdraw M c a n x = Inr (u, x') \<longrightarrow>
        n \<le> mc_free_balance M x c a
        \<and> mc_free_balance M x' = (mc_free_balance M x)(c := (mc_free_balance M x c)(a := mc_free_balance M x c a - n))
        \<and> mc_total_issuance M x' = (mc_total_issuance M x)(c := mc_total_issuance M x c - n))"

lemma mc_transferD:
  assumes "multi_currency_laws M" and "mc_transfer M c a b n x = Inr (u, x')"
  shows "a \<noteq> b \<Longrightarrow> n \<le> mc_free_balance M x c a"
    and "mc_free_balance M x' = balances_moved c a b n (mc_free_balance M x)"
    and "mc_total_issuance M x' = mc_total_issuance M x"
  using assms unfolding multi_currency_laws_def by blast+

lemma mc_depositD:
  assumes "multi_currency_laws M" and "mc_deposit M c a n x = Inr (u, x')"
  shows "mc_free_balance M x' = (mc_free_balance M x)(c := (mc_free_balance M x c)(a := mc_free_balance M x c a + n))"
    and "mc_total_issuance M x' = (mc_total_issuance M x)(c := mc_total_issuance M x c + n)"
  using assms unfolding multi_currency_laws_def by blast+

lemma mc_withdrawD:
  assumes "multi_currency_laws M" and "mc_withdraw M c a n x = Inr (u, x')"
  shows "n \<le> mc_free_balance M x c a"
    and "mc_free_balance M x' = (mc_free_balance M x)(c := (mc_free_balance M x c)(a := mc_free_balance M x c a - n))"
    and "mc_total_issuance M x' = (mc_total_issuance M x)(c := mc_total_issuance M x c - n)"
  using assms unfolding multi_currency_laws_def by blast+

text \<open>
  A ledger that keeps a table of balances and a table of issuances. Withdrawing or moving more than
  there is fails with \<open>BalanceTooLow\<close>.
\<close>

type_synonym ('a, 'c) table = "('c \<Rightarrow> 'a \<Rightarrow> nat) \<times> ('c \<Rightarrow> nat)"

definition table_currency :: "('a, 'c, ('a, 'c) table) multi_currency" where
  "table_currency =
     \<lparr>mc_free_balance = fst,
      mc_total_issuance = snd,
      mc_transfer = (\<lambda>c a b n (f, t).
        if n = 0 \<or> a = b then Inr ((), (f, t))
        else if n \<le> f c a then Inr ((), (f(c := (f c)(a := f c a - n, b := f c b + n)), t))
        else Inl (Err BalanceTooLow)),
      mc_deposit = (\<lambda>c a n (f, t). Inr ((), (f(c := (f c)(a := f c a + n)), t(c := t c + n)))),
      mc_withdraw = (\<lambda>c a n (f, t).
        if n \<le> f c a then Inr ((), (f(c := (f c)(a := f c a - n)), t(c := t c - n))) else Inl (Err BalanceTooLow))\<rparr>"

lemma table_currency_laws: "multi_currency_laws table_currency"
  by (auto simp: multi_currency_laws_def table_currency_def balances_moved_def fun_eq_iff split: if_splits)

subsection \<open>Ordered maps\<close>

text \<open>A \<^verbatim>\<open>BTreeMap\<close> is the list of its entries in the order of the keys; it is read with \<open>map_of\<close>.\<close>

type_synonym ('k, 'v) btree = "('k \<times> 'v) list"

primrec bt_insert :: "'k::linorder \<Rightarrow> 'v \<Rightarrow> ('k, 'v) btree \<Rightarrow> ('k, 'v) btree" where
  "bt_insert k v [] = [(k, v)]"
| "bt_insert k v (e # es) =
     (if k < fst e then (k, v) # e # es else if k = fst e then (k, v) # es else e # bt_insert k v es)"

definition bt_of_list :: "('k::linorder \<times> 'v) list \<Rightarrow> ('k, 'v) btree" where
  "bt_of_list es = fold (\<lambda>(k, v). bt_insert k v) es []"

text \<open>\<^verbatim>\<open>BoundedBTreeMap::try_from\<close> and \<^verbatim>\<open>BoundedBTreeMap::try_insert\<close>.\<close>

definition bt_bounded :: "nat \<Rightarrow> ('k, 'v) btree \<Rightarrow> ('k, 'v) btree option" where
  "bt_bounded max_len m = (if length m \<le> max_len then Some m else None)"

definition bt_try_insert :: "nat \<Rightarrow> 'k::linorder \<Rightarrow> 'v \<Rightarrow> ('k, 'v) btree \<Rightarrow> ('k, 'v) btree option" where
  "bt_try_insert max_len k v m =
     (if length m < max_len \<or> map_of m k \<noteq> None then Some (bt_insert k v m) else None)"

lemma map_of_bt_insert:
  "sorted (map fst m) \<Longrightarrow> map_of (bt_insert k v m) = (map_of m)(k \<mapsto> v)"
proof (induction m)
  case (Cons e es)
  have "map_of es k = None" if "k < fst e"
    using that Cons.prems by (auto simp: map_of_eq_None_iff)
  then show ?case using Cons by (cases e) (auto simp: fun_eq_iff)
qed simp

end
