(* ===== verification/Dex_General.thy ===== *)
theory Dex_General
  imports Multi_Currency
begin

text \<open>
  The constant-product exchange (\<^verbatim>\<open>src/crates/dex-general/src\<close>): its storage, the pricing of a trade
  along a path, liquidity, and swaps. Amounts are \<^verbatim>\<open>u128\<close>, products are computed in \<^verbatim>\<open>U256\<close> and checked.
  The bootstrap phase and the dispatchables are in \<open>Dex_Bootstrap\<close>.

  Outside the repository, hence parameters: the ledger, the account of a pair (a truncated hash of the
  sorted pair) and of the pallet, the validation of assets and the identifier of a liquidity token
  (configured traits), and \<^verbatim>\<open>U256::integer_sqrt\<close>.
\<close>

subsection \<open>Status of a pair\<close>

definition DEFAULT_FEE_RATE :: nat where "DEFAULT_FEE_RATE = 30"
definition FEE_ADJUSTMENT :: nat where "FEE_ADJUSTMENT = 10000"

record 'a bootstrap_parameter =
  target_supply :: "nat \<times> nat"
  capacity_supply :: "nat \<times> nat"
  accumulated_supply :: "nat \<times> nat"
  end_block_number :: nat
  bp_pair_account :: 'a

record 'a pair_metadata =
  pm_pair_account :: 'a
  pm_total_supply :: nat
  pm_fee_rate :: nat

datatype 'a pair_status =
    Trading "'a pair_metadata"
  | Bootstrap "'a bootstrap_parameter"
  | Disable

definition pair_fee_rate :: "'a pair_status \<Rightarrow> nat" where
  "pair_fee_rate self = (case self of Trading pair \<Rightarrow> pm_fee_rate pair | _ \<Rightarrow> DEFAULT_FEE_RATE)"

subsection \<open>Storage and configuration\<close>

datatype ('a, 'c) dex_event =
    PairCreated 'c 'c nat
  | LiquidityAdded 'a 'c 'c nat nat nat
  | LiquidityRemoved 'a 'a 'c 'c nat nat nat
  | AssetSwap 'a 'a "'c list" "nat list"
  | BootstrapContribute 'a 'c 'c nat nat
  | BootstrapEnd 'c 'c nat nat nat
  | BootstrapCreated 'a 'c 'c nat nat nat nat nat
  | BootstrapClaim 'a 'a 'a 'c 'c nat nat nat
  | BootstrapUpdate 'a 'c 'c nat nat nat nat nat
  | BootstrapRefund 'a 'a 'c 'c nat nat
  | DexDistributeReward 'c 'c 'a "('c \<times> nat) list"
  | ChargeReward 'c 'c 'a "('c \<times> nat) list"
  | DexWithdrawReward 'c 'c 'a
  | NewFeeRate 'c 'c nat
  | NewFeePoint nat

record ('a, 'c, 'x) dex =
  KLast :: "'c \<times> 'c \<Rightarrow> nat"
  FeeMeta :: "'a option \<times> nat"
  LiquidityPairs :: "'c \<times> 'c \<Rightarrow> 'c option"
  PairStatuses :: "'c \<times> 'c \<Rightarrow> 'a pair_status"
  BootstrapPersonalSupply :: "('c \<times> 'c) \<times> 'a \<Rightarrow> (nat \<times> nat) option"
  BootstrapEndStatus :: "'c \<times> 'c \<Rightarrow> 'a pair_status"
  BootstrapRewards :: "'c \<times> 'c \<Rightarrow> ('c, nat) btree"
  BootstrapLimits :: "'c \<times> 'c \<Rightarrow> ('c, nat) btree"
  dex_events :: "('a, 'c) dex_event list"
  dex_block_number :: nat
  dex_ledger :: 'x

record ('a, 'c, 'x) dex_config =
  dx_currency :: "('a, 'c, 'x) multi_currency"
  dx_bootstrap_account :: 'a
  dx_pair_hash_account :: "'c \<times> 'c \<Rightarrow> 'a"
  dx_validate_asset :: "'c \<Rightarrow> bool"
  dx_generate_lp_asset_id :: "'c \<Rightarrow> 'c \<Rightarrow> 'c option"
  dx_integer_sqrt :: "nat \<Rightarrow> nat"
  dx_max_rewards :: nat
  dx_max_limits :: nat

type_synonym ('a, 'c, 'x, 'r) dex_action = "(('a, 'c, 'x) dex, dispatch_error, 'r) action"

abbreviation dex_error :: "dex_general_error \<Rightarrow> dispatch_error" where
  "dex_error \<equiv> DexGeneralError"

definition dex_deposit_event :: "('a, 'c) dex_event \<Rightarrow> ('a, 'c, 'x, unit) dex_action" where
  "dex_deposit_event e = smod (\<lambda>s. s\<lparr>dex_events := dex_events s @ [e]\<rparr>)"

definition on_dex_ledger :: "('x, dispatch_error, 'r) action \<Rightarrow> ('a, 'c, 'x, 'r) dex_action" where
  "on_dex_ledger m = szoom dex_ledger (\<lambda>x s. s\<lparr>dex_ledger := x\<rparr>) m"

definition dex_balance :: "('a, 'c, 'x) dex_config \<Rightarrow> ('a, 'c, 'x) dex \<Rightarrow> 'c \<Rightarrow> 'a \<Rightarrow> nat" where
  "dex_balance D s = mc_free_balance (dx_currency D) (dex_ledger s)"

definition dex_transfer :: "('a, 'c, 'x) dex_config \<Rightarrow> 'c \<Rightarrow> 'a \<Rightarrow> 'a \<Rightarrow> nat \<Rightarrow> ('a, 'c, 'x, unit) dex_action" where
  "dex_transfer D c a b n = on_dex_ledger (mc_transfer (dx_currency D) c a b n)"

subsection \<open>Pairs\<close>

definition sort_asset_id :: "'c::linorder \<Rightarrow> 'c \<Rightarrow> 'c \<times> 'c" where
  "sort_asset_id asset_0 asset_1 = (if asset_0 < asset_1 then (asset_0, asset_1) else (asset_1, asset_0))"

definition pair_account_id :: "('a, 'c::linorder, 'x) dex_config \<Rightarrow> 'c \<Rightarrow> 'c \<Rightarrow> 'a" where
  "pair_account_id D asset_0 asset_1 = dx_pair_hash_account D (sort_asset_id asset_0 asset_1)"

definition lp_asset_id :: "('a, 'c::linorder, 'x) dex_config \<Rightarrow> 'c \<Rightarrow> 'c \<Rightarrow> 'c option" where
  "lp_asset_id D asset_0 asset_1 =
     (case sort_asset_id asset_0 asset_1 of (a, b) \<Rightarrow> dx_generate_lp_asset_id D a b)"

definition mutate_lp_pairs :: "('a, 'c::linorder, 'x) dex_config \<Rightarrow> 'c \<Rightarrow> 'c \<Rightarrow> ('a, 'c, 'x, unit) dex_action" where
  "mutate_lp_pairs D asset_0 asset_1 =
     sbind (slift (\<lambda>_. ok_or (lp_asset_id D asset_0 asset_1) (dex_error Dex_AssetNotExists))) (\<lambda>lp.
     smod (\<lambda>s. s\<lparr>LiquidityPairs := (LiquidityPairs s)(sort_asset_id asset_0 asset_1 := Some lp)\<rparr>))"

definition mutate_k_last :: "'c::linorder \<Rightarrow> 'c \<Rightarrow> nat \<Rightarrow> ('a, 'c, 'x, unit) dex_action" where
  "mutate_k_last asset_0 asset_1 last_k = smod (\<lambda>s. s\<lparr>KLast := (KLast s)(sort_asset_id asset_0 asset_1 := last_k)\<rparr>)"

definition put_pair_status :: "'c \<times> 'c \<Rightarrow> 'a pair_status \<Rightarrow> ('a, 'c, 'x, unit) dex_action" where
  "put_pair_status pair st = smod (\<lambda>s. s\<lparr>PairStatuses := (PairStatuses s)(pair := st)\<rparr>)"

subsection \<open>Shares and liquidity\<close>

text \<open>\<^verbatim>\<open>TryInto::<AssetBalance>::try_into\<close> of a \<^verbatim>\<open>U256\<close>.\<close>

definition to_balance :: "nat \<Rightarrow> nat option" where
  "to_balance n = (if n < 2 ^ 128 then Some n else None)"

definition unwrap_or_zero :: "nat option \<Rightarrow> nat" where
  "unwrap_or_zero m = (case m of None \<Rightarrow> 0 | Some n \<Rightarrow> n)"

definition calculate_share_amount :: "nat \<Rightarrow> nat \<Rightarrow> nat \<Rightarrow> nat" where
  "calculate_share_amount amount_0 reserve_0 reserve_1 =
     unwrap_or_zero (Option.bind (Option.bind (checked_mul_w 256 amount_0 reserve_1) (\<lambda>n. checked_div n reserve_0)) to_balance)"

definition calculate_liquidity :: "('a, 'c, 'x) dex_config \<Rightarrow> nat \<Rightarrow> nat \<Rightarrow> nat \<Rightarrow> nat \<Rightarrow> nat \<Rightarrow> nat" where
  "calculate_liquidity D amount_0 amount_1 reserve_0 reserve_1 total_liquidity =
     (if total_liquidity = 0 then
        unwrap_or_zero (Option.bind (map_option (dx_integer_sqrt D) (checked_mul_w 256 amount_0 amount_1)) to_balance)
      else min (calculate_share_amount amount_0 reserve_0 total_liquidity)
               (calculate_share_amount amount_1 reserve_1 total_liquidity))"

definition mint_protocol_fee ::
  "('a, 'c::linorder, 'x) dex_config \<Rightarrow> nat \<Rightarrow> nat \<Rightarrow> 'c \<Rightarrow> 'c \<Rightarrow> nat \<Rightarrow> ('a, 'c, 'x, nat) dex_action" where
  "mint_protocol_fee D reserve_0 reserve_1 asset_0 asset_1 total_liquidity =
     sbind (sget (\<lambda>s. KLast s (sort_asset_id asset_0 asset_1))) (\<lambda>new_k_last.
     sbind (sget FeeMeta) (\<lambda>(fee_to, fee_point).
     if fee_to \<noteq> None then
       (if new_k_last \<noteq> 0 then
          sbind (slift (\<lambda>_. ok_or (map_option (dx_integer_sqrt D) (checked_mul_w 256 reserve_0 reserve_1)) (dex_error Dex_Overflow))) (\<lambda>root_k.
          let root_k_last = dx_integer_sqrt D new_k_last in
          if root_k > root_k_last then
            sbind (slift (\<lambda>_. ok_or (Option.bind (checked_sub root_k root_k_last) (checked_mul_w 256 total_liquidity)) (dex_error Dex_Overflow))) (\<lambda>numerator.
            sbind (slift (\<lambda>_. ok_or (Option.bind (checked_mul_w 256 root_k fee_point) (\<lambda>n. checked_add_w 256 n root_k_last)) (dex_error Dex_Overflow))) (\<lambda>denominator.
            sret (unwrap_or_zero (Option.bind (checked_div numerator denominator) to_balance))))
          else sret 0)
        else sret 0)
     else if new_k_last \<noteq> 0 then sbind (mutate_k_last asset_0 asset_1 0) (\<lambda>_. sret 0)
     else sret 0))"

definition calculate_added_amount :: "nat \<Rightarrow> nat \<Rightarrow> nat \<Rightarrow> nat \<Rightarrow> nat \<Rightarrow> nat \<Rightarrow> (dispatch_error, nat \<times> nat) result" where
  "calculate_added_amount amount_0_desired amount_1_desired amount_0_min amount_1_min reserve_0 reserve_1 =
     (if reserve_0 = 0 \<or> reserve_1 = 0 then Inr (amount_0_desired, amount_1_desired)
      else
        let amount_1_optimal = calculate_share_amount amount_0_desired reserve_0 reserve_1 in
        if amount_1_optimal \<le> amount_1_desired then
          rbind (rensure (amount_1_optimal \<ge> amount_1_min) (dex_error Dex_IncorrectAssetAmountRange)) (\<lambda>_.
          Inr (amount_0_desired, amount_1_optimal))
        else
          let amount_0_optimal = calculate_share_amount amount_1_desired reserve_1 reserve_0 in
          rbind (rensure (amount_0_optimal \<ge> amount_0_min \<and> amount_0_optimal \<le> amount_0_desired) (dex_error Dex_IncorrectAssetAmountRange)) (\<lambda>_.
          Inr (amount_0_optimal, amount_1_desired)))"

text \<open>The fee that adding or removing liquidity mints to the fee receiver; the result is the new supply.\<close>

definition mint_fee_to_receiver ::
  "('a, 'c, 'x) dex_config \<Rightarrow> 'c \<Rightarrow> nat \<Rightarrow> nat \<Rightarrow> ('a, 'c, 'x, nat) dex_action" where
  "mint_fee_to_receiver D lp mint_fee total_supply =
     sbind (sget FeeMeta) (\<lambda>(receiver, _).
     case receiver of
       None \<Rightarrow> sret total_supply
     | Some fee_to \<Rightarrow>
         if mint_fee > 0 then
           sbind (on_dex_ledger (mc_deposit (dx_currency D) lp fee_to mint_fee)) (\<lambda>_.
           slift (\<lambda>_. ok_or (checked_add_w 128 total_supply mint_fee) (dex_error Dex_Overflow)))
         else sret total_supply)"

text \<open>The product of the reserves is recorded while the protocol fee is on.\<close>

definition update_k_last ::
  "('a, 'c::linorder, 'x) dex_config \<Rightarrow> 'c \<Rightarrow> 'c \<Rightarrow> 'a \<Rightarrow> ('a, 'c, 'x, unit) dex_action" where
  "update_k_last D asset_0 asset_1 account =
     sbind (sget FeeMeta) (\<lambda>(receiver, _).
     case receiver of
       None \<Rightarrow> sret ()
     | Some _ \<Rightarrow>
         sbind (sget (\<lambda>s. dex_balance D s asset_0 account)) (\<lambda>reserve_0.
         sbind (sget (\<lambda>s. dex_balance D s asset_1 account)) (\<lambda>reserve_1.
         sbind (slift (\<lambda>_. ok_or (checked_mul_w 256 reserve_0 reserve_1) (dex_error Dex_Overflow)))
           (mutate_k_last asset_0 asset_1))))"

definition inner_add_liquidity ::
  "('a, 'c::linorder, 'x) dex_config \<Rightarrow> 'a \<Rightarrow> 'c \<Rightarrow> 'c \<Rightarrow> nat \<Rightarrow> nat \<Rightarrow> nat \<Rightarrow> nat \<Rightarrow> ('a, 'c, 'x, unit) dex_action" where
  "inner_add_liquidity D who asset_0 asset_1 amount_0_desired amount_1_desired amount_0_min amount_1_min =
     (let pair = sort_asset_id asset_0 asset_1 in
     sbind (sget (\<lambda>s. PairStatuses s pair)) (\<lambda>st.
     case st of
       Trading parameter \<Rightarrow>
         sbind (sget (\<lambda>s. dex_balance D s asset_0 (pm_pair_account parameter))) (\<lambda>reserve_0.
         sbind (sget (\<lambda>s. dex_balance D s asset_1 (pm_pair_account parameter))) (\<lambda>reserve_1.
         sbind (slift (\<lambda>_. calculate_added_amount amount_0_desired amount_1_desired amount_0_min amount_1_min reserve_0 reserve_1)) (\<lambda>(amount_0, amount_1).
         sbind (sensure (\<lambda>s. amount_0 \<le> dex_balance D s asset_0 who \<and> amount_1 \<le> dex_balance D s asset_1 who) (dex_error Dex_InsufficientAssetBalance)) (\<lambda>_.
         sbind (slift (\<lambda>s. ok_or (LiquidityPairs s pair) (dex_error Dex_InsufficientAssetBalance))) (\<lambda>lp.
         sbind (mint_protocol_fee D reserve_0 reserve_1 asset_0 asset_1 (pm_total_supply parameter)) (\<lambda>mint_fee.
         sbind (mint_fee_to_receiver D lp mint_fee (pm_total_supply parameter)) (\<lambda>total_supply.
         let mint_liquidity = calculate_liquidity D amount_0 amount_1 reserve_0 reserve_1 total_supply in
         sbind (sensure (\<lambda>_. mint_liquidity > 0) (dex_error Dex_Overflow)) (\<lambda>_.
         sbind (slift (\<lambda>_. ok_or (checked_add_w 128 total_supply mint_liquidity) (dex_error Dex_Overflow))) (\<lambda>new_supply.
         sbind (on_dex_ledger (mc_deposit (dx_currency D) lp who mint_liquidity)) (\<lambda>_.
         sbind (dex_transfer D asset_0 who (pm_pair_account parameter) amount_0) (\<lambda>_.
         sbind (dex_transfer D asset_1 who (pm_pair_account parameter) amount_1) (\<lambda>_.
         sbind (update_k_last D asset_0 asset_1 (pm_pair_account parameter)) (\<lambda>_.
         sbind (dex_deposit_event (LiquidityAdded who asset_0 asset_1 amount_0 amount_1 mint_liquidity)) (\<lambda>_.
         put_pair_status pair (Trading (parameter\<lparr>pm_total_supply := new_supply\<rparr>))))))))))))))))
     | _ \<Rightarrow> sfail (dex_error Dex_PairNotExists)))"

definition inner_remove_liquidity ::
  "('a, 'c::linorder, 'x) dex_config \<Rightarrow> 'a \<Rightarrow> 'c \<Rightarrow> 'c \<Rightarrow> nat \<Rightarrow> nat \<Rightarrow> nat \<Rightarrow> 'a \<Rightarrow> ('a, 'c, 'x, unit) dex_action" where
  "inner_remove_liquidity D who asset_0 asset_1 removed amount_0_min amount_1_min recipient =
     (let pair = sort_asset_id asset_0 asset_1 in
     sbind (sget (\<lambda>s. PairStatuses s pair)) (\<lambda>st.
     case st of
       Trading parameter \<Rightarrow>
         sbind (sget (\<lambda>s. dex_balance D s asset_0 (pm_pair_account parameter))) (\<lambda>reserve_0.
         sbind (sget (\<lambda>s. dex_balance D s asset_1 (pm_pair_account parameter))) (\<lambda>reserve_1.
         let amount_0 = calculate_share_amount removed (pm_total_supply parameter) reserve_0;
             amount_1 = calculate_share_amount removed (pm_total_supply parameter) reserve_1 in
         sbind (sensure (\<lambda>_. amount_0 \<ge> amount_0_min \<and> amount_1 \<ge> amount_1_min) (dex_error Dex_InsufficientTargetAmount)) (\<lambda>_.
         sbind (slift (\<lambda>s. ok_or (LiquidityPairs s pair) (dex_error Dex_InsufficientAssetBalance))) (\<lambda>lp.
         sbind (mint_protocol_fee D reserve_0 reserve_1 asset_0 asset_1 (pm_total_supply parameter)) (\<lambda>mint_fee.
         sbind (mint_fee_to_receiver D lp mint_fee (pm_total_supply parameter)) (\<lambda>total_supply.
         sbind (slift (\<lambda>_. ok_or (checked_sub total_supply removed) (dex_error Dex_InsufficientLiquidity))) (\<lambda>new_supply.
         sbind (on_dex_ledger (mc_withdraw (dx_currency D) lp who removed)) (\<lambda>_.
         sbind (dex_transfer D asset_0 (pm_pair_account parameter) recipient amount_0) (\<lambda>_.
         sbind (dex_transfer D asset_1 (pm_pair_account parameter) recipient amount_1) (\<lambda>_.
         sbind (update_k_last D asset_0 asset_1 (pm_pair_account parameter)) (\<lambda>_.
         sbind (dex_deposit_event (LiquidityRemoved who recipient asset_0 asset_1 amount_0 amount_1 removed)) (\<lambda>_.
         put_pair_status pair (Trading (parameter\<lparr>pm_total_supply := new_supply\<rparr>))))))))))))))
     | _ \<Rightarrow> sfail (dex_error Dex_PairNotExists)))"

subsection \<open>Prices\<close>

definition get_amount_in :: "nat \<Rightarrow> nat \<Rightarrow> nat \<Rightarrow> nat \<Rightarrow> (dispatch_error, nat) result" where
  "get_amount_in output_amount input_reserve output_reserve fee_rate =
     rbind (rensure (input_reserve \<noteq> 0 \<and> output_reserve \<noteq> 0 \<and> output_amount \<noteq> 0) (dex_error Dex_Overflow)) (\<lambda>_.
     rbind (ok_or (Option.bind (checked_mul_w 256 input_reserve output_amount) (\<lambda>n. checked_mul_w 256 n FEE_ADJUSTMENT)) (dex_error Dex_Overflow)) (\<lambda>numerator.
     rbind (ok_or (Option.bind (checked_sub output_reserve output_amount) (\<lambda>n. checked_mul_w 256 n (saturating_sub FEE_ADJUSTMENT fee_rate))) (dex_error Dex_Overflow)) (\<lambda>denominator.
     ok_or (Option.bind (Option.bind (checked_div numerator denominator) (\<lambda>r. checked_add_w 256 r 1)) to_balance) (dex_error Dex_Overflow))))"

definition get_amount_out :: "nat \<Rightarrow> nat \<Rightarrow> nat \<Rightarrow> nat \<Rightarrow> (dispatch_error, nat) result" where
  "get_amount_out input_amount input_reserve output_reserve fee_rate =
     rbind (rensure (input_reserve \<noteq> 0 \<and> output_reserve \<noteq> 0 \<and> input_amount \<noteq> 0) (dex_error Dex_Overflow)) (\<lambda>_.
     rbind (ok_or (checked_mul_w 256 input_amount (saturating_sub FEE_ADJUSTMENT fee_rate)) (dex_error Dex_Overflow)) (\<lambda>input_amount_with_fee.
     rbind (ok_or (checked_mul_w 256 input_amount_with_fee output_reserve) (dex_error Dex_Overflow)) (\<lambda>numerator.
     rbind (ok_or (Option.bind (checked_mul_w 256 input_reserve FEE_ADJUSTMENT) (\<lambda>n. checked_add_w 256 n input_amount_with_fee)) (dex_error Dex_Overflow)) (\<lambda>denominator.
     ok_or (Option.bind (checked_div numerator denominator) to_balance) (dex_error Dex_Overflow)))))"

text \<open>The check of the invariant that both pricing loops make of every leg.\<close>

definition check_k :: "nat \<Rightarrow> nat \<Rightarrow> nat \<Rightarrow> nat \<Rightarrow> (dispatch_error, unit) result" where
  "check_k reserve_in reserve_out amount_in amount_out =
     rbind (ok_or (checked_mul_w 256 reserve_in reserve_out) (dex_error Dex_Overflow)) (\<lambda>invariant_before_swap.
     rbind (ok_or (checked_add_w 128 reserve_in amount_in) (dex_error Dex_Overflow)) (\<lambda>reserve_in_after_swap.
     rbind (ok_or (checked_sub reserve_out amount_out) (dex_error Dex_Overflow)) (\<lambda>reserve_out_after_swap.
     rbind (ok_or (checked_mul_w 256 reserve_in_after_swap reserve_out_after_swap) (dex_error Dex_Overflow)) (\<lambda>invariant_after_swap.
     rensure (invariant_after_swap \<ge> invariant_before_swap) (dex_error Dex_InvariantCheckFailed)))))"

text \<open>
  The loop of \<^verbatim>\<open>get_amount_in_by_path\<close> walks the path from its end; \<open>amount_in_loop\<close> takes the reversed
  path and returns the amounts it pushes.
\<close>

fun amount_in_loop ::
  "('a, 'c::linorder, 'x) dex_config \<Rightarrow> ('a, 'c, 'x) dex \<Rightarrow> nat \<Rightarrow> 'c list \<Rightarrow> (dispatch_error, nat list) result" where
  "amount_in_loop D s out (asset_out # asset_in # rest) =
     (let pair_account = pair_account_id D asset_out asset_in;
          reserve_0 = dex_balance D s asset_out pair_account;
          reserve_1 = dex_balance D s asset_in pair_account in
     rbind (rensure (reserve_1 > 0 \<and> reserve_0 > 0) (dex_error Dex_InvalidPath)) (\<lambda>_.
     rbind (get_amount_in out reserve_1 reserve_0 (pair_fee_rate (PairStatuses s (sort_asset_id asset_out asset_in)))) (\<lambda>amount.
     rbind (rensure (amount \<ge> 1) (dex_error Dex_InvalidPath)) (\<lambda>_.
     rbind (check_k reserve_1 reserve_0 amount out) (\<lambda>_.
     rbind (amount_in_loop D s amount (asset_in # rest)) (\<lambda>out_vec.
     Inr (amount # out_vec)))))))"
| "amount_in_loop D s out _ = Inr []"

definition get_amount_in_by_path ::
  "('a, 'c::linorder, 'x) dex_config \<Rightarrow> ('a, 'c, 'x) dex \<Rightarrow> nat \<Rightarrow> 'c list \<Rightarrow> (dispatch_error, nat list) result" where
  "get_amount_in_by_path D s amount_out path =
     rbind (rensure (length path > 1) (dex_error Dex_InvalidPath)) (\<lambda>_.
     rbind (amount_in_loop D s amount_out (rev path)) (\<lambda>out_vec.
     Inr (rev (amount_out # out_vec))))"

fun amount_out_loop ::
  "('a, 'c::linorder, 'x) dex_config \<Rightarrow> ('a, 'c, 'x) dex \<Rightarrow> nat \<Rightarrow> 'c list \<Rightarrow> (dispatch_error, nat list) result" where
  "amount_out_loop D s amount_in (input_asset # output_asset # rest) =
     (let pair_account = pair_account_id D input_asset output_asset;
          reserve_0 = dex_balance D s input_asset pair_account;
          reserve_1 = dex_balance D s output_asset pair_account in
     rbind (rensure (reserve_1 > 0 \<and> reserve_0 > 0) (dex_error Dex_InvalidPath)) (\<lambda>_.
     rbind (get_amount_out amount_in reserve_0 reserve_1 (pair_fee_rate (PairStatuses s (sort_asset_id input_asset output_asset)))) (\<lambda>amount.
     rbind (rensure (amount > 0) (dex_error Dex_InvalidPath)) (\<lambda>_.
     rbind (check_k reserve_0 reserve_1 amount_in amount) (\<lambda>_.
     rbind (amount_out_loop D s amount (output_asset # rest)) (\<lambda>out_vec.
     Inr (amount # out_vec)))))))"
| "amount_out_loop D s amount_in _ = Inr []"

definition get_amount_out_by_path ::
  "('a, 'c::linorder, 'x) dex_config \<Rightarrow> ('a, 'c, 'x) dex \<Rightarrow> nat \<Rightarrow> 'c list \<Rightarrow> (dispatch_error, nat list) result" where
  "get_amount_out_by_path D s amount_in path =
     rbind (rensure (length path > 1) (dex_error Dex_InvalidPath)) (\<lambda>_.
     rbind (amount_out_loop D s amount_in path) (\<lambda>out_vec.
     Inr (amount_in # out_vec)))"

subsection \<open>Swaps\<close>

definition pair_swap ::
  "('a, 'c::linorder, 'x) dex_config \<Rightarrow> 'c \<Rightarrow> 'c \<Rightarrow> 'a \<Rightarrow> nat \<Rightarrow> nat \<Rightarrow> 'a \<Rightarrow> ('a, 'c, 'x, unit) dex_action" where
  "pair_swap D asset_0 asset_1 pair_account amount_0 amount_1 recipient =
     sbind (sget (\<lambda>s. PairStatuses s (sort_asset_id asset_0 asset_1))) (\<lambda>st.
     sbind (case st of Trading _ \<Rightarrow> sret () | _ \<Rightarrow> sfail (dex_error Dex_PairNotExists)) (\<lambda>_.
     sbind (sget (\<lambda>s. dex_balance D s asset_0 pair_account)) (\<lambda>reserve_0.
     sbind (sget (\<lambda>s. dex_balance D s asset_1 pair_account)) (\<lambda>reserve_1.
     sbind (sensure (\<lambda>_. amount_0 \<le> reserve_0 \<and> amount_1 \<le> reserve_1) (dex_error Dex_InsufficientPairReserve)) (\<lambda>_.
     sbind (if amount_0 > 0 then dex_transfer D asset_0 pair_account recipient amount_0 else sret ()) (\<lambda>_.
     if amount_1 > 0 then dex_transfer D asset_1 pair_account recipient amount_1 else sret ()))))))"

text \<open>
  The loop of \<^verbatim>\<open>swap\<close> over the legs of a path: each pays its output to the account of the next pair, the
  last one to the recipient. The amounts have the length of the path.
\<close>

fun swap_loop ::
  "('a, 'c::linorder, 'x) dex_config \<Rightarrow> nat list \<Rightarrow> 'c list \<Rightarrow> 'a \<Rightarrow> ('a, 'c, 'x, unit) dex_action" where
  "swap_loop D (_ # amount_out # amounts) (input # output # rest) recipient =
     (let (asset_0, asset_1) = sort_asset_id input output;
          (amount0_out, amount1_out) = (if input \<noteq> asset_0 then (amount_out, 0) else (0, amount_out));
          pair_account = pair_account_id D asset_0 asset_1 in
     sbind (pair_swap D asset_0 asset_1 pair_account amount0_out amount1_out
              (case rest of [] \<Rightarrow> recipient | next_asset # _ \<Rightarrow> pair_account_id D output next_asset)) (\<lambda>_.
     swap_loop D (amount_out # amounts) (output # rest) recipient))"
| "swap_loop D _ _ recipient = sret ()"

definition inner_swap_exact_assets_for_assets ::
  "('a, 'c::linorder, 'x) dex_config \<Rightarrow> 'a \<Rightarrow> nat \<Rightarrow> nat \<Rightarrow> 'c list \<Rightarrow> 'a \<Rightarrow> ('a, 'c, 'x, unit) dex_action" where
  "inner_swap_exact_assets_for_assets D who amount_in amount_out_min path recipient =
     sbind (slift (\<lambda>s. get_amount_out_by_path D s amount_in path)) (\<lambda>amounts.
     sbind (sensure (\<lambda>_. last amounts \<ge> amount_out_min) (dex_error Dex_InsufficientTargetAmount)) (\<lambda>_.
     sbind (dex_transfer D (path ! 0) who (pair_account_id D (path ! 0) (path ! 1)) amount_in) (\<lambda>_.
     sbind (swap_loop D amounts path recipient) (\<lambda>_.
     dex_deposit_event (AssetSwap who recipient path amounts)))))"

definition inner_swap_assets_for_exact_assets ::
  "('a, 'c::linorder, 'x) dex_config \<Rightarrow> 'a \<Rightarrow> nat \<Rightarrow> nat \<Rightarrow> 'c list \<Rightarrow> 'a \<Rightarrow> ('a, 'c, 'x, unit) dex_action" where
  "inner_swap_assets_for_exact_assets D who amount_out amount_in_max path recipient =
     sbind (sensure (\<lambda>_. \<forall>c\<in>set path. dx_validate_asset D c) (dex_error Dex_UnsupportedAssetType)) (\<lambda>_.
     sbind (slift (\<lambda>s. get_amount_in_by_path D s amount_out path)) (\<lambda>amounts.
     sbind (sensure (\<lambda>_. amounts ! 0 \<le> amount_in_max) (dex_error Dex_ExcessiveSoldAmount)) (\<lambda>_.
     sbind (dex_transfer D (path ! 0) who (pair_account_id D (path ! 0) (path ! 1)) (amounts ! 0)) (\<lambda>_.
     sbind (swap_loop D amounts path recipient) (\<lambda>_.
     dex_deposit_event (AssetSwap who recipient path amounts))))))"

end
