(* ===== verification/Dex_Bootstrap.thy ===== *)
theory Dex_Bootstrap
  imports Dex_General
begin

text \<open>
  The bootstrap phase of a pair of the constant-product exchange and the dispatchables of the pallet
  (\<^verbatim>\<open>src/crates/dex-general/src/swap/mod.rs\<close>, \<^verbatim>\<open>src/crates/dex-general/src/lib.rs\<close>). A pair in bootstrap
  collects contributions in the pallet's own account up to a capacity; when the targets are met it is
  turned into a trading pair whose liquidity tokens the contributors claim, otherwise they are refunded.

  \<^verbatim>\<open>T::Lookup\<close> is a parameter \<open>lookup\<close> of the dispatchables that resolve an account.
\<close>

subsection \<open>Helpers\<close>

definition bootstrap_disable :: "nat \<Rightarrow> 'a bootstrap_parameter \<Rightarrow> bool" where
  "bootstrap_disable now params \<longleftrightarrow>
     now > end_block_number params
     \<and> (fst (accumulated_supply params) < fst (target_supply params)
        \<or> snd (accumulated_supply params) < snd (target_supply params))"

definition bootstrap_check_limits :: "('a, 'c::linorder, 'x) dex_config \<Rightarrow> ('a, 'c, 'x) dex \<Rightarrow> 'c \<Rightarrow> 'c \<Rightarrow> 'a \<Rightarrow> bool" where
  "bootstrap_check_limits D s asset_0 asset_1 account =
     list_all (\<lambda>(asset_id, limit). \<not> dex_balance D s asset_id account < limit) (BootstrapLimits s (sort_asset_id asset_0 asset_1))"

primrec distribute_rewards_loop ::
  "('a, 'c, 'x) dex_config \<Rightarrow> 'a \<Rightarrow> 'a \<Rightarrow> nat \<Rightarrow> nat \<Rightarrow> ('c \<times> nat) list \<Rightarrow> ('a, 'c, 'x, ('c \<times> nat) list) dex_action" where
  "distribute_rewards_loop D owner reward_holder share_lp total_lp [] = sret []"
| "distribute_rewards_loop D owner reward_holder share_lp total_lp (e # rest) =
     sbind (slift (\<lambda>_. ok_or (Option.bind (Option.bind (checked_mul_w 256 share_lp (snd e)) (\<lambda>r. checked_div r total_lp)) to_balance) (dex_error Dex_Overflow))) (\<lambda>owner_reward.
     sbind (dex_transfer D (fst e) reward_holder owner owner_reward) (\<lambda>_.
     sbind (distribute_rewards_loop D owner reward_holder share_lp total_lp rest) (\<lambda>ds.
     sret ((fst e, owner_reward) # ds))))"

definition bootstrap_distribute_reward ::
  "('a, 'c::linorder, 'x) dex_config \<Rightarrow> 'a \<Rightarrow> 'a \<Rightarrow> 'c \<Rightarrow> 'c \<Rightarrow> nat \<Rightarrow> nat \<Rightarrow> ('a, 'c, 'x, unit) dex_action" where
  "bootstrap_distribute_reward D owner reward_holder asset_0 asset_1 share_lp total_lp =
     (let pair = sort_asset_id asset_0 asset_1 in
     sbind (sget (\<lambda>s. BootstrapRewards s pair)) (\<lambda>rewards.
     sbind (distribute_rewards_loop D owner reward_holder share_lp total_lp rewards) (\<lambda>distribute_rewards.
     if distribute_rewards \<noteq> [] then
       dex_deposit_event (DexDistributeReward (fst pair) (snd pair) reward_holder distribute_rewards)
     else sret ())))"

subsection \<open>Contributions\<close>

text \<open>A contribution beyond the capacity is cut to what is left of it.\<close>

definition cap_contribution :: "nat \<Rightarrow> nat \<Rightarrow> nat \<Rightarrow> (dispatch_error, nat) result" where
  "cap_contribution amount accumulated capacity =
     rbind (ok_or (checked_add_w 128 amount accumulated) (dex_error Dex_Overflow)) (\<lambda>total.
     if total > capacity then ok_or (checked_sub capacity accumulated) (dex_error Dex_Overflow) else Inr amount)"

definition do_bootstrap_contribute ::
  "('a, 'c::linorder, 'x) dex_config \<Rightarrow> 'a \<Rightarrow> 'c \<Rightarrow> 'c \<Rightarrow> nat \<Rightarrow> nat \<Rightarrow> ('a, 'c, 'x, unit) dex_action" where
  "do_bootstrap_contribute D who asset_0 asset_1 amount_0 amount_1 =
     (let pair = sort_asset_id asset_0 asset_1 in
     sbind (sget (\<lambda>s. PairStatuses s pair)) (\<lambda>st.
     case st of
       Bootstrap param \<Rightarrow>
         sbind (sensure (\<lambda>s. dex_block_number s < end_block_number param) (dex_error Dex_NotInBootstrap)) (\<lambda>_.
         let (amount_0, amount_1) = (if fst pair = asset_0 then (amount_0, amount_1) else (amount_1, amount_0)) in
         sbind (slift (\<lambda>_. cap_contribution amount_0 (fst (accumulated_supply param)) (fst (capacity_supply param)))) (\<lambda>amount_0_contribute.
         sbind (slift (\<lambda>_. cap_contribution amount_1 (snd (accumulated_supply param)) (snd (capacity_supply param)))) (\<lambda>amount_1_contribute.
         sbind (sensure (\<lambda>_. amount_0_contribute \<ge> 1 \<or> amount_1_contribute \<ge> 1) (dex_error Dex_InvalidContributionAmount)) (\<lambda>_.
         sbind (sget (\<lambda>s. case BootstrapPersonalSupply s (pair, who) of None \<Rightarrow> (0, 0) | Some c \<Rightarrow> c)) (\<lambda>contribution.
         sbind (slift (\<lambda>_. ok_or (checked_add_w 128 (fst contribution) amount_0_contribute) (dex_error Dex_Overflow))) (\<lambda>contribution_0.
         sbind (slift (\<lambda>_. ok_or (checked_add_w 128 (snd contribution) amount_1_contribute) (dex_error Dex_Overflow))) (\<lambda>contribution_1.
         sbind (dex_transfer D (fst pair) who (dx_bootstrap_account D) amount_0_contribute) (\<lambda>_.
         sbind (dex_transfer D (snd pair) who (dx_bootstrap_account D) amount_1_contribute) (\<lambda>_.
         sbind (slift (\<lambda>_. ok_or (checked_add_w 128 (fst (accumulated_supply param)) amount_0_contribute) (dex_error Dex_Overflow))) (\<lambda>accumulated_supply_0.
         sbind (slift (\<lambda>_. ok_or (checked_add_w 128 (snd (accumulated_supply param)) amount_1_contribute) (dex_error Dex_Overflow))) (\<lambda>accumulated_supply_1.
         sbind (put_pair_status pair (Bootstrap (param\<lparr>accumulated_supply := (accumulated_supply_0, accumulated_supply_1)\<rparr>))) (\<lambda>_.
         sbind (dex_deposit_event (BootstrapContribute who (fst pair) (snd pair) amount_0_contribute amount_1_contribute)) (\<lambda>_.
         smod (\<lambda>s. s\<lparr>BootstrapPersonalSupply := (BootstrapPersonalSupply s)((pair, who) := Some (contribution_0, contribution_1))\<rparr>))))))))))))))
     | _ \<Rightarrow> sfail (dex_error Dex_NotInBootstrap)))"

subsection \<open>The end of a bootstrap\<close>

definition do_end_bootstrap ::
  "('a, 'c::linorder, 'x) dex_config \<Rightarrow> 'c \<Rightarrow> 'c \<Rightarrow> ('a, 'c, 'x, unit) dex_action" where
  "do_end_bootstrap D asset_0 asset_1 =
     (let pair = sort_asset_id asset_0 asset_1 in
     sbind (sget (\<lambda>s. PairStatuses s pair)) (\<lambda>st.
     case st of
       Bootstrap param \<Rightarrow>
         sbind (sensure (\<lambda>s. dex_block_number s \<ge> end_block_number param
             \<and> fst (accumulated_supply param) \<ge> fst (target_supply param)
             \<and> snd (accumulated_supply param) \<ge> snd (target_supply param)) (dex_error Dex_UnqualifiedBootstrap)) (\<lambda>_.
         let total_lp_supply = calculate_liquidity D (fst (accumulated_supply param)) (snd (accumulated_supply param)) 0 0 0 in
         sbind (sensure (\<lambda>_. total_lp_supply > 0) (dex_error Dex_Overflow)) (\<lambda>_.
         let pair_account = pair_account_id D (fst pair) (snd pair) in
         sbind (slift (\<lambda>s. ok_or (LiquidityPairs s pair) (dex_error Dex_InsufficientAssetBalance))) (\<lambda>lp.
         sbind (dex_transfer D (fst pair) (bp_pair_account param) pair_account (fst (accumulated_supply param))) (\<lambda>_.
         sbind (dex_transfer D (snd pair) (bp_pair_account param) pair_account (snd (accumulated_supply param))) (\<lambda>_.
         sbind (on_dex_ledger (mc_deposit (dx_currency D) lp pair_account total_lp_supply)) (\<lambda>_.
         sbind (put_pair_status pair (Trading \<lparr>pm_pair_account = pair_account, pm_total_supply = total_lp_supply, pm_fee_rate = DEFAULT_FEE_RATE\<rparr>)) (\<lambda>_.
         sbind (smod (\<lambda>s. s\<lparr>BootstrapEndStatus := (BootstrapEndStatus s)(pair := Bootstrap param)\<rparr>)) (\<lambda>_.
         dex_deposit_event (BootstrapEnd (fst pair) (snd pair) (fst (accumulated_supply param)) (snd (accumulated_supply param)) total_lp_supply)))))))))
     | _ \<Rightarrow> sfail (dex_error Dex_NotInBootstrap)))"

text \<open>
  The share of a contribution: \<open>(own * other_total + other * own_total) / (2 * other_total)\<close> of each asset,
  and the square root of the product of the two.
\<close>

definition exact_amount :: "nat \<Rightarrow> nat \<Rightarrow> nat \<Rightarrow> nat \<Rightarrow> nat option" where
  "exact_amount own other own_total other_total =
     Option.bind (checked_mul_w 256 own other_total) (\<lambda>n.
     Option.bind (checked_mul_w 256 other own_total) (\<lambda>m.
     Option.bind (checked_add_w 256 n m) (\<lambda>r.
     Option.bind (checked_mul_w 256 other_total 2) (\<lambda>d. checked_div r d))))"

definition claim_liquidity_of :: "('a, 'c, 'x) dex_config \<Rightarrow> nat \<times> nat \<Rightarrow> nat \<times> nat \<Rightarrow> (dispatch_error, nat) result" where
  "claim_liquidity_of D contribution totals =
     rbind (ok_or (exact_amount (fst contribution) (snd contribution) (fst totals) (snd totals)) (dex_error Dex_Overflow)) (\<lambda>exact_amount_0.
     rbind (ok_or (exact_amount (snd contribution) (fst contribution) (snd totals) (fst totals)) (dex_error Dex_Overflow)) (\<lambda>exact_amount_1.
     ok_or (Option.bind (map_option (dx_integer_sqrt D) (checked_mul_w 256 exact_amount_0 exact_amount_1)) to_balance) (dex_error Dex_Overflow)))"

definition do_bootstrap_claim ::
  "('a, 'c::linorder, 'x) dex_config \<Rightarrow> 'a \<Rightarrow> 'a \<Rightarrow> 'c \<Rightarrow> 'c \<Rightarrow> ('a, 'c, 'x, unit) dex_action" where
  "do_bootstrap_claim D who recipient asset_0 asset_1 =
     (let pair = sort_asset_id asset_0 asset_1 in
     sbind (sget (\<lambda>s. PairStatuses s pair)) (\<lambda>st.
     case st of
       Trading _ \<Rightarrow>
         sbind (slift (\<lambda>s. ok_or (BootstrapPersonalSupply s (pair, who)) (dex_error Dex_ZeroContribute))) (\<lambda>contribution.
         sbind (sget (\<lambda>s. BootstrapEndStatus s pair)) (\<lambda>end_status.
         case end_status of
           Bootstrap param \<Rightarrow>
             sbind (sensure (\<lambda>s. \<not> bootstrap_disable (dex_block_number s) param) (dex_error Dex_DisableBootstrap)) (\<lambda>_.
             sbind (slift (\<lambda>_. claim_liquidity_of D contribution (accumulated_supply param))) (\<lambda>claim_liquidity.
             let pair_account = pair_account_id D (fst pair) (snd pair) in
             sbind (slift (\<lambda>s. ok_or (LiquidityPairs s pair) (dex_error Dex_InsufficientAssetBalance))) (\<lambda>lp.
             sbind (dex_transfer D lp pair_account recipient claim_liquidity) (\<lambda>_.
             sbind (slift (\<lambda>_. ok_or (Option.bind (map_option (dx_integer_sqrt D)
                 (checked_mul_w 256 (fst (accumulated_supply param)) (snd (accumulated_supply param)))) to_balance) (dex_error Dex_Overflow))) (\<lambda>bootstrap_total_liquidity.
             sbind (bootstrap_distribute_reward D who (bp_pair_account param) (fst pair) (snd pair) claim_liquidity bootstrap_total_liquidity) (\<lambda>_.
             sbind (dex_deposit_event (BootstrapClaim pair_account who recipient (fst pair) (snd pair) (fst contribution) (snd contribution) claim_liquidity)) (\<lambda>_.
             smod (\<lambda>s. s\<lparr>BootstrapPersonalSupply := (BootstrapPersonalSupply s)((pair, who) := None)\<rparr>))))))))
         | _ \<Rightarrow> sfail (dex_error Dex_NotInBootstrap)))
     | _ \<Rightarrow> sfail (dex_error Dex_NotInBootstrap)))"

definition refund_allowed :: "('a, 'c::linorder, 'x) dex \<Rightarrow> 'c \<times> 'c \<Rightarrow> bool" where
  "refund_allowed s pair = (case PairStatuses s pair of
       Bootstrap params \<Rightarrow> bootstrap_disable (dex_block_number s) params
     | _ \<Rightarrow> (case BootstrapEndStatus s pair of
         Bootstrap params \<Rightarrow> bootstrap_disable (dex_block_number s) params
       | _ \<Rightarrow> False))"

definition do_bootstrap_refund ::
  "('a, 'c::linorder, 'x) dex_config \<Rightarrow> 'a \<Rightarrow> 'c \<Rightarrow> 'c \<Rightarrow> ('a, 'c, 'x, unit) dex_action" where
  "do_bootstrap_refund D who asset_0 asset_1 =
     (let pair = sort_asset_id asset_0 asset_1;
          pair_account = dx_bootstrap_account D in
     sbind (sensure (\<lambda>s. refund_allowed s pair) (dex_error Dex_DenyRefund)) (\<lambda>_.
     sbind (slift (\<lambda>s. ok_or (BootstrapPersonalSupply s (pair, who)) (dex_error Dex_ZeroContribute))) (\<lambda>contribution.
     sbind (dex_transfer D (fst pair) pair_account who (fst contribution)) (\<lambda>_.
     sbind (dex_transfer D (snd pair) pair_account who (snd contribution)) (\<lambda>_.
     sbind (sget (\<lambda>s. PairStatuses s pair)) (\<lambda>st.
     sbind (case st of
         Bootstrap param \<Rightarrow>
           sbind (slift (\<lambda>_. ok_or (checked_sub (fst (accumulated_supply param)) (fst contribution)) (dex_error Dex_Overflow))) (\<lambda>supply_0.
           sbind (slift (\<lambda>_. ok_or (checked_sub (snd (accumulated_supply param)) (snd contribution)) (dex_error Dex_Overflow))) (\<lambda>supply_1.
           put_pair_status pair (Bootstrap (param\<lparr>accumulated_supply := (supply_0, supply_1)\<rparr>))))
       | _ \<Rightarrow> sret ()) (\<lambda>_.
     sbind (dex_deposit_event (BootstrapRefund pair_account who (fst pair) (snd pair) (fst contribution) (snd contribution))) (\<lambda>_.
     smod (\<lambda>s. s\<lparr>BootstrapPersonalSupply := (BootstrapPersonalSupply s)((pair, who) := None)\<rparr>)))))))))"

subsection \<open>Dispatchables: fees and pairs\<close>

definition set_fee_receiver ::
  "('l \<Rightarrow> (dispatch_error, 'a) result) \<Rightarrow> 'a origin \<Rightarrow> 'l option \<Rightarrow> ('a, 'c, 'x, unit) dex_action" where
  "set_fee_receiver lookup origin send_to =
     sbind (slift (\<lambda>_. ensure_root origin)) (\<lambda>_.
     sbind (slift (\<lambda>_. case send_to of Some r \<Rightarrow> rbind (lookup r) (\<lambda>account. Inr (Some account)) | None \<Rightarrow> Inr None)) (\<lambda>receiver.
     smod (\<lambda>s. s\<lparr>FeeMeta := (receiver, snd (FeeMeta s))\<rparr>)))"

definition set_fee_point :: "'a origin \<Rightarrow> nat \<Rightarrow> ('a, 'c, 'x, unit) dex_action" where
  "set_fee_point origin fee_point =
     sbind (slift (\<lambda>_. ensure_root origin)) (\<lambda>_.
     sbind (smod (\<lambda>s. s\<lparr>FeeMeta := (fst (FeeMeta s), fee_point)\<rparr>)) (\<lambda>_.
     dex_deposit_event (NewFeePoint fee_point)))"

definition set_exchange_fee :: "'a origin \<Rightarrow> 'c::linorder \<Rightarrow> 'c \<Rightarrow> nat \<Rightarrow> ('a, 'c, 'x, unit) dex_action" where
  "set_exchange_fee origin asset_0 asset_1 fee_rate =
     (let pair = sort_asset_id asset_0 asset_1 in
     sbind (slift (\<lambda>_. ensure_root origin)) (\<lambda>_.
     sbind (sensure (\<lambda>_. fee_rate < FEE_ADJUSTMENT) (dex_error Dex_InvalidFeeRate)) (\<lambda>_.
     sbind (sget (\<lambda>s. PairStatuses s pair)) (\<lambda>st.
     sbind (case st of
         Trading meta \<Rightarrow> put_pair_status pair (Trading (meta\<lparr>pm_fee_rate := fee_rate\<rparr>))
       | Bootstrap _ \<Rightarrow> sfail (dex_error Dex_PairAlreadyExists)
       | Disable \<Rightarrow> sfail (dex_error Dex_PairNotExists)) (\<lambda>_.
     dex_deposit_event (NewFeeRate asset_0 asset_1 fee_rate))))))"

definition create_pair ::
  "('a, 'c::linorder, 'x) dex_config \<Rightarrow> 'a origin \<Rightarrow> 'c \<Rightarrow> 'c \<Rightarrow> nat \<Rightarrow> ('a, 'c, 'x, unit) dex_action" where
  "create_pair D origin asset_0 asset_1 fee_rate =
     (let pair = sort_asset_id asset_0 asset_1;
          trading = Trading \<lparr>pm_pair_account = pair_account_id D (fst pair) (snd pair), pm_total_supply = 0, pm_fee_rate = fee_rate\<rparr> in
     sbind (slift (\<lambda>_. ensure_root origin)) (\<lambda>_.
     sbind (sensure (\<lambda>_. dx_validate_asset D asset_0 \<and> dx_validate_asset D asset_1) (dex_error Dex_UnsupportedAssetType)) (\<lambda>_.
     sbind (sensure (\<lambda>_. asset_0 \<noteq> asset_1) (dex_error Dex_DeniedCreatePair)) (\<lambda>_.
     sbind (sensure (\<lambda>_. fee_rate < FEE_ADJUSTMENT) (dex_error Dex_InvalidFeeRate)) (\<lambda>_.
     sbind (sget (\<lambda>s. PairStatuses s pair)) (\<lambda>st.
     sbind (case st of
         Trading _ \<Rightarrow> sfail (dex_error Dex_PairAlreadyExists)
       | Bootstrap params \<Rightarrow>
           sbind (sensure (\<lambda>s. bootstrap_disable (dex_block_number s) params) (dex_error Dex_PairAlreadyExists)) (\<lambda>_.
           sbind (smod (\<lambda>s. s\<lparr>BootstrapEndStatus := (BootstrapEndStatus s)(pair := Bootstrap params)\<rparr>)) (\<lambda>_.
           put_pair_status pair trading))
       | Disable \<Rightarrow> put_pair_status pair trading) (\<lambda>_.
     sbind (mutate_lp_pairs D asset_0 asset_1) (\<lambda>_.
     dex_deposit_event (PairCreated asset_0 asset_1 fee_rate)))))))))"

subsection \<open>Dispatchables: liquidity and swaps\<close>

definition ensure_deadline :: "nat \<Rightarrow> ('a, 'c, 'x, unit) dex_action" where
  "ensure_deadline deadline = sensure (\<lambda>s. deadline > dex_block_number s) (dex_error Dex_Deadline)"

definition add_liquidity ::
  "('a, 'c::linorder, 'x) dex_config \<Rightarrow> 'a origin \<Rightarrow> 'c \<Rightarrow> 'c \<Rightarrow> nat \<Rightarrow> nat \<Rightarrow> nat \<Rightarrow> nat \<Rightarrow> nat \<Rightarrow> ('a, 'c, 'x, unit) dex_action" where
  "add_liquidity D origin asset_0 asset_1 amount_0_desired amount_1_desired amount_0_min amount_1_min deadline =
     sbind (sensure (\<lambda>_. dx_validate_asset D asset_0 \<and> dx_validate_asset D asset_1) (dex_error Dex_UnsupportedAssetType)) (\<lambda>_.
     sbind (slift (\<lambda>_. ensure_signed origin)) (\<lambda>who.
     sbind (ensure_deadline deadline) (\<lambda>_.
     inner_add_liquidity D who asset_0 asset_1 amount_0_desired amount_1_desired amount_0_min amount_1_min)))"

definition remove_liquidity ::
  "('a, 'c::linorder, 'x) dex_config \<Rightarrow> ('l \<Rightarrow> (dispatch_error, 'a) result) \<Rightarrow> 'a origin \<Rightarrow> 'c \<Rightarrow> 'c \<Rightarrow> nat \<Rightarrow> nat \<Rightarrow> nat \<Rightarrow> 'l \<Rightarrow> nat
     \<Rightarrow> ('a, 'c, 'x, unit) dex_action" where
  "remove_liquidity D lookup origin asset_0 asset_1 liquidity amount_0_min amount_1_min recipient deadline =
     sbind (sensure (\<lambda>_. dx_validate_asset D asset_0 \<and> dx_validate_asset D asset_1) (dex_error Dex_UnsupportedAssetType)) (\<lambda>_.
     sbind (slift (\<lambda>_. ensure_signed origin)) (\<lambda>who.
     sbind (slift (\<lambda>_. lookup recipient)) (\<lambda>to.
     sbind (ensure_deadline deadline) (\<lambda>_.
     inner_remove_liquidity D who asset_0 asset_1 liquidity amount_0_min amount_1_min to))))"

definition swap_exact_assets_for_assets ::
  "('a, 'c::linorder, 'x) dex_config \<Rightarrow> ('l \<Rightarrow> (dispatch_error, 'a) result) \<Rightarrow> 'a origin \<Rightarrow> nat \<Rightarrow> nat \<Rightarrow> 'c list \<Rightarrow> 'l \<Rightarrow> nat
     \<Rightarrow> ('a, 'c, 'x, unit) dex_action" where
  "swap_exact_assets_for_assets D lookup origin amount_in amount_out_min path recipient deadline =
     sbind (slift (\<lambda>_. ensure_signed origin)) (\<lambda>who.
     sbind (slift (\<lambda>_. lookup recipient)) (\<lambda>to.
     sbind (ensure_deadline deadline) (\<lambda>_.
     sbind (sensure (\<lambda>_. \<forall>c\<in>set path. dx_validate_asset D c) (dex_error Dex_UnsupportedAssetType)) (\<lambda>_.
     inner_swap_exact_assets_for_assets D who amount_in amount_out_min path to))))"

definition swap_assets_for_exact_assets ::
  "('a, 'c::linorder, 'x) dex_config \<Rightarrow> ('l \<Rightarrow> (dispatch_error, 'a) result) \<Rightarrow> 'a origin \<Rightarrow> nat \<Rightarrow> nat \<Rightarrow> 'c list \<Rightarrow> 'l \<Rightarrow> nat
     \<Rightarrow> ('a, 'c, 'x, unit) dex_action" where
  "swap_assets_for_exact_assets D lookup origin amount_out amount_in_max path recipient deadline =
     sbind (slift (\<lambda>_. ensure_signed origin)) (\<lambda>who.
     sbind (slift (\<lambda>_. lookup recipient)) (\<lambda>to.
     sbind (ensure_deadline deadline) (\<lambda>_.
     inner_swap_assets_for_exact_assets D who amount_out amount_in_max path to)))"

subsection \<open>Dispatchables: bootstrap\<close>

definition order_by_pair :: "'c \<times> 'c \<Rightarrow> 'c \<Rightarrow> nat \<times> nat \<Rightarrow> nat \<times> nat" where
  "order_by_pair pair asset_0 amounts = (if fst pair = asset_0 then amounts else (snd amounts, fst amounts))"

text \<open>The reward currencies, with nothing charged yet, and the limits of a bootstrap.\<close>

definition put_bootstrap_tables ::
  "('a, 'c::linorder, 'x) dex_config \<Rightarrow> 'c \<times> 'c \<Rightarrow> 'c list \<Rightarrow> ('c \<times> nat) list \<Rightarrow> ('a, 'c, 'x, unit) dex_action" where
  "put_bootstrap_tables D pair rewards limits =
     sbind (slift (\<lambda>_. ok_or (bt_bounded (dx_max_rewards D) (bt_of_list (List.map (\<lambda>asset_id. (asset_id, 0)) rewards))) (dex_error Dex_TooManyRewards))) (\<lambda>rs.
     sbind (smod (\<lambda>s. s\<lparr>BootstrapRewards := (BootstrapRewards s)(pair := rs)\<rparr>)) (\<lambda>_.
     sbind (slift (\<lambda>_. ok_or (bt_bounded (dx_max_limits D) (bt_of_list limits)) (dex_error Dex_TooManyLimits))) (\<lambda>ls.
     smod (\<lambda>s. s\<lparr>BootstrapLimits := (BootstrapLimits s)(pair := ls)\<rparr>))))"

definition bootstrap_create ::
  "('a, 'c::linorder, 'x) dex_config \<Rightarrow> 'a origin \<Rightarrow> 'c \<Rightarrow> 'c \<Rightarrow> nat \<Rightarrow> nat \<Rightarrow> nat \<Rightarrow> nat \<Rightarrow> nat \<Rightarrow> 'c list \<Rightarrow> ('c \<times> nat) list
     \<Rightarrow> ('a, 'c, 'x, unit) dex_action" where
  "bootstrap_create D origin asset_0 asset_1 target_supply_0 target_supply_1 capacity_supply_0 capacity_supply_1 end_block rewards limits =
     (let pair = sort_asset_id asset_0 asset_1;
          targets = order_by_pair pair asset_0 (target_supply_0, target_supply_1);
          capacities = order_by_pair pair asset_0 (capacity_supply_0, capacity_supply_1);
          created = (\<lambda>accumulated. \<lparr>target_supply = targets, capacity_supply = capacities, accumulated_supply = accumulated,
            end_block_number = end_block, bp_pair_account = dx_bootstrap_account D\<rparr>) in
     sbind (slift (\<lambda>_. ensure_root origin)) (\<lambda>_.
     sbind (sget (\<lambda>s. PairStatuses s pair)) (\<lambda>st.
     sbind (case st of
         Trading _ \<Rightarrow> sfail (dex_error Dex_PairAlreadyExists)
       | Bootstrap params \<Rightarrow>
           sbind (sensure (\<lambda>s. bootstrap_disable (dex_block_number s) params) (dex_error Dex_PairAlreadyExists)) (\<lambda>_.
           sbind (sensure (\<lambda>s. list_all (\<lambda>(_, reward). reward = 0) (BootstrapRewards s pair)) (dex_error Dex_ExistRewardsInBootstrap)) (\<lambda>_.
           sbind (put_bootstrap_tables D pair rewards limits) (\<lambda>_.
           put_pair_status pair (Bootstrap (created (accumulated_supply params))))))
       | Disable \<Rightarrow>
           sbind (put_bootstrap_tables D pair rewards limits) (\<lambda>_.
           put_pair_status pair (Bootstrap (created (0, 0))))) (\<lambda>_.
     dex_deposit_event (BootstrapCreated (dx_bootstrap_account D) (fst pair) (snd pair) (fst targets) (snd targets)
       (snd capacities) (fst capacities) end_block)))))"

definition bootstrap_contribute ::
  "('a, 'c::linorder, 'x) dex_config \<Rightarrow> 'a origin \<Rightarrow> 'c \<Rightarrow> 'c \<Rightarrow> nat \<Rightarrow> nat \<Rightarrow> nat \<Rightarrow> ('a, 'c, 'x, unit) dex_action" where
  "bootstrap_contribute D origin asset_0 asset_1 amount_0 amount_1 deadline =
     sbind (slift (\<lambda>_. ensure_signed origin)) (\<lambda>who.
     sbind (sensure (\<lambda>s. bootstrap_check_limits D s asset_0 asset_1 who) (dex_error Dex_NotQualifiedAccount)) (\<lambda>_.
     sbind (ensure_deadline deadline) (\<lambda>_.
     do_bootstrap_contribute D who asset_0 asset_1 amount_0 amount_1)))"

definition bootstrap_claim ::
  "('a, 'c::linorder, 'x) dex_config \<Rightarrow> ('l \<Rightarrow> (dispatch_error, 'a) result) \<Rightarrow> 'a origin \<Rightarrow> 'l \<Rightarrow> 'c \<Rightarrow> 'c \<Rightarrow> nat \<Rightarrow> ('a, 'c, 'x, unit) dex_action" where
  "bootstrap_claim D lookup origin recipient asset_0 asset_1 deadline =
     sbind (slift (\<lambda>_. ensure_signed origin)) (\<lambda>who.
     sbind (slift (\<lambda>_. lookup recipient)) (\<lambda>to.
     sbind (ensure_deadline deadline) (\<lambda>_.
     do_bootstrap_claim D who to asset_0 asset_1)))"

definition bootstrap_end :: "('a, 'c::linorder, 'x) dex_config \<Rightarrow> 'a origin \<Rightarrow> 'c \<Rightarrow> 'c \<Rightarrow> ('a, 'c, 'x, unit) dex_action" where
  "bootstrap_end D origin asset_0 asset_1 =
     sbind (slift (\<lambda>_. ensure_signed origin)) (\<lambda>_.
     sbind (mutate_lp_pairs D asset_0 asset_1) (\<lambda>_.
     do_end_bootstrap D asset_0 asset_1))"

definition bootstrap_update ::
  "('a, 'c::linorder, 'x) dex_config \<Rightarrow> 'a origin \<Rightarrow> 'c \<Rightarrow> 'c \<Rightarrow> nat \<Rightarrow> nat \<Rightarrow> nat \<Rightarrow> nat \<Rightarrow> nat \<Rightarrow> 'c list \<Rightarrow> ('c \<times> nat) list
     \<Rightarrow> ('a, 'c, 'x, unit) dex_action" where
  "bootstrap_update D origin asset_0 asset_1 target_supply_0 target_supply_1 capacity_supply_0 capacity_supply_1 end_block rewards limits =
     (let pair = sort_asset_id asset_0 asset_1;
          targets = order_by_pair pair asset_0 (target_supply_0, target_supply_1);
          capacities = order_by_pair pair asset_0 (capacity_supply_0, capacity_supply_1) in
     sbind (slift (\<lambda>_. ensure_root origin)) (\<lambda>_.
     sbind (sget (\<lambda>s. PairStatuses s pair)) (\<lambda>st.
     sbind (case st of
         Trading _ \<Rightarrow> sfail (dex_error Dex_PairAlreadyExists)
       | Bootstrap params \<Rightarrow>
           sbind (sensure (\<lambda>s. list_all (\<lambda>(_, reward). reward = 0) (BootstrapRewards s pair)) (dex_error Dex_ExistRewardsInBootstrap)) (\<lambda>_.
           sbind (put_bootstrap_tables D pair rewards limits) (\<lambda>_.
           put_pair_status pair (Bootstrap \<lparr>target_supply = targets, capacity_supply = capacities,
             accumulated_supply = accumulated_supply params, end_block_number = end_block, bp_pair_account = dx_bootstrap_account D\<rparr>)))
       | Disable \<Rightarrow> sfail (dex_error Dex_NotInBootstrap)) (\<lambda>_.
     dex_deposit_event (BootstrapUpdate (pair_account_id D asset_0 asset_1) (fst pair) (snd pair) (fst targets) (snd targets)
       (fst capacities) (snd capacities) end_block)))))"

definition bootstrap_refund :: "('a, 'c::linorder, 'x) dex_config \<Rightarrow> 'a origin \<Rightarrow> 'c \<Rightarrow> 'c \<Rightarrow> ('a, 'c, 'x, unit) dex_action" where
  "bootstrap_refund D origin asset_0 asset_1 =
     sbind (slift (\<lambda>_. ensure_signed origin)) (\<lambda>who. do_bootstrap_refund D who asset_0 asset_1)"

primrec charge_rewards_loop ::
  "('a, 'c::linorder, 'x) dex_config \<Rightarrow> 'a \<Rightarrow> ('c \<times> nat) list \<Rightarrow> ('c, nat) btree \<Rightarrow> ('a, 'c, 'x, ('c, nat) btree) dex_action" where
  "charge_rewards_loop D who [] rewards = sret rewards"
| "charge_rewards_loop D who (e # rest) rewards =
     sbind (slift (\<lambda>_. ok_or (map_of rewards (fst e)) (dex_error Dex_NoRewardTokens))) (\<lambda>already_charge_amount.
     sbind (dex_transfer D (fst e) who (dx_bootstrap_account D) (snd e)) (\<lambda>_.
     sbind (slift (\<lambda>_. ok_or (checked_add_w 128 already_charge_amount (snd e)) (dex_error Dex_Overflow))) (\<lambda>new_charge_amount.
     sbind (slift (\<lambda>_. ok_or (bt_try_insert (dx_max_rewards D) (fst e) new_charge_amount rewards) (dex_error Dex_TooManyRewards))) (\<lambda>rs.
     charge_rewards_loop D who rest rs))))"

definition bootstrap_charge_reward ::
  "('a, 'c::linorder, 'x) dex_config \<Rightarrow> 'a origin \<Rightarrow> 'c \<Rightarrow> 'c \<Rightarrow> ('c \<times> nat) list \<Rightarrow> ('a, 'c, 'x, unit) dex_action" where
  "bootstrap_charge_reward D origin asset_0 asset_1 charge_rewards =
     (let pair = sort_asset_id asset_0 asset_1 in
     sbind (slift (\<lambda>_. ensure_signed origin)) (\<lambda>who.
     sbind (sget (\<lambda>s. BootstrapRewards s pair)) (\<lambda>rewards.
     sbind (sensure (\<lambda>_. length rewards = length charge_rewards) (dex_error Dex_ChargeRewardParamsError)) (\<lambda>_.
     sbind (charge_rewards_loop D who charge_rewards rewards) (\<lambda>rs.
     sbind (dex_deposit_event (ChargeReward (fst pair) (snd pair) who charge_rewards)) (\<lambda>_.
     smod (\<lambda>s. s\<lparr>BootstrapRewards := (BootstrapRewards s)(pair := rs)\<rparr>)))))))"

primrec withdraw_rewards_loop ::
  "('a, 'c, 'x) dex_config \<Rightarrow> 'a \<Rightarrow> ('c, nat) btree \<Rightarrow> ('a, 'c, 'x, ('c, nat) btree) dex_action" where
  "withdraw_rewards_loop D recipient [] = sret []"
| "withdraw_rewards_loop D recipient (e # rest) =
     sbind (dex_transfer D (fst e) (dx_bootstrap_account D) recipient (snd e)) (\<lambda>_.
     sbind (withdraw_rewards_loop D recipient rest) (\<lambda>rs.
     sret ((fst e, 0) # rs)))"

definition bootstrap_withdraw_reward ::
  "('a, 'c::linorder, 'x) dex_config \<Rightarrow> ('l \<Rightarrow> (dispatch_error, 'a) result) \<Rightarrow> 'a origin \<Rightarrow> 'c \<Rightarrow> 'c \<Rightarrow> 'l \<Rightarrow> ('a, 'c, 'x, unit) dex_action" where
  "bootstrap_withdraw_reward D lookup origin asset_0 asset_1 recipient =
     (let pair = sort_asset_id asset_0 asset_1 in
     sbind (slift (\<lambda>_. ensure_root origin)) (\<lambda>_.
     sbind (slift (\<lambda>_. lookup recipient)) (\<lambda>to.
     sbind (sget (\<lambda>s. BootstrapRewards s pair)) (\<lambda>rewards.
     sbind (withdraw_rewards_loop D to rewards) (\<lambda>rs.
     sbind (smod (\<lambda>s. s\<lparr>BootstrapRewards := (BootstrapRewards s)(pair := rs)\<rparr>)) (\<lambda>_.
     dex_deposit_event (DexWithdrawReward (fst pair) (snd pair) to)))))))"

end
