(* ===== verification/Dex_General_Properties.thy ===== *)
theory Dex_General_Properties
  imports Dex_Bootstrap
begin

text \<open>
  What the constant-product exchange promises: a quote never violates the product of the reserves, a
  quoted input buys at least the output it was quoted for, a swap lowers the product of no pool, and
  adding or removing liquidity does not lower what a liquidity token is worth.
\<close>

subsection \<open>Quotes\<close>

lemma get_amount_outD:
  assumes "get_amount_out a r0 r1 fee = Inr b"
  shows "b = (a * (FEE_ADJUSTMENT - fee) * r1) div (r0 * FEE_ADJUSTMENT + a * (FEE_ADJUSTMENT - fee))"
    and "0 < r0" "0 < r1" "0 < a" "b < 2 ^ 128"
  using assms unfolding get_amount_out_def
  by (auto simp: rbind_Inr_iff to_balance_def bind_eq_Some_conv split: if_splits)

lemma get_amount_inD:
  assumes "get_amount_in out rin rout fee = Inr a"
  shows "a = (rin * out * FEE_ADJUSTMENT) div ((rout - out) * (FEE_ADJUSTMENT - fee)) + 1"
    and "0 < (rout - out) * (FEE_ADJUSTMENT - fee)" "0 < rin" "0 < out" "out \<le> rout" "a < 2 ^ 128"
  using assms unfolding get_amount_in_def
  by (auto simp: rbind_Inr_iff to_balance_def bind_eq_Some_conv split: if_splits)

lemma fee_adjustment_pos [simp]: "0 < FEE_ADJUSTMENT"
  by (simp add: FEE_ADJUSTMENT_def)

text \<open>What the fee leaves of the input can only favour the pool.\<close>

lemma quote_arith:
  fixes a b r0 r1 F g :: nat
  assumes "b * (r0 * F + a * g) \<le> a * g * r1" and "g \<le> F" and "0 < F" and "0 < r0" and "b \<le> r1"
  shows "r0 * r1 \<le> (r0 + a) * (r1 - b)"
proof -
  obtain d where d: "r1 = b + d" using assms(5) le_Suc_ex by blast
  have "b * r0 * F \<le> a * d * g" using assms(1) by (simp add: d algebra_simps)
  also have "\<dots> \<le> a * d * F" using assms(2) by simp
  finally have "b * r0 \<le> a * d" using assms(3) by simp
  then show ?thesis by (simp add: d algebra_simps)
qed

lemma quote_below_reserve:
  fixes a b r0 r1 F g :: nat
  assumes "b * (r0 * F + a * g) \<le> a * g * r1" and "0 < r0" and "0 < F" and "0 < r1"
  shows "b < r1"
proof (rule ccontr)
  assume "\<not> b < r1"
  then have "r1 * (r0 * F + a * g) \<le> a * g * r1"
    using assms(1) by (meson le_trans mult_le_mono1 not_less)
  then have "r1 * (r0 * F) \<le> 0" by (simp add: algebra_simps)
  then show False using assms by simp
qed

lemma get_amount_out_keeps_k:
  assumes "get_amount_out a r0 r1 fee = Inr b"
  shows "b < r1" and "r0 * r1 \<le> (r0 + a) * (r1 - b)"
proof -
  let ?g = "FEE_ADJUSTMENT - fee"
  have b: "b * (r0 * FEE_ADJUSTMENT + a * ?g) \<le> a * ?g * r1"
    using get_amount_outD(1) [OF assms] by (metis div_times_less_eq_dividend)
  show *: "b < r1" by (rule quote_below_reserve [OF b]) (use get_amount_outD [OF assms] in simp_all)
  show "r0 * r1 \<le> (r0 + a) * (r1 - b)"
    by (rule quote_arith [OF b]) (use get_amount_outD [OF assms] * in simp_all)
qed

lemma quote_in_arith:
  fixes a out rin rout F g :: nat
  assumes "rin * out * F \<le> a * ((rout - out) * g)" and "out \<le> rout"
  shows "out * (rin * F + a * g) \<le> a * g * rout"
proof -
  obtain d where "rout = out + d" using assms(2) le_Suc_ex by blast
  then show ?thesis using assms(1) by (simp add: algebra_simps)
qed

lemma get_amount_in_pays:
  assumes "get_amount_in out rin rout fee = Inr a"
  shows "out < rout" and "out * (rin * FEE_ADJUSTMENT + a * (FEE_ADJUSTMENT - fee)) \<le> a * (FEE_ADJUSTMENT - fee) * rout"
proof -
  note D = get_amount_inD [OF assms]
  show "out < rout" using D(2) by simp
  have "rin * out * FEE_ADJUSTMENT \<le> a * ((rout - out) * (FEE_ADJUSTMENT - fee))"
    using D(1) D(2) by (metis add.commute dividend_less_times_div less_imp_le_nat mult.commute mult_Suc_right plus_1_eq_Suc)
  then show "out * (rin * FEE_ADJUSTMENT + a * (FEE_ADJUSTMENT - fee)) \<le> a * (FEE_ADJUSTMENT - fee) * rout"
    by (rule quote_in_arith) (rule D(5))
qed

lemma get_amount_in_keeps_k:
  assumes "get_amount_in out rin rout fee = Inr a"
  shows "rin * rout \<le> (rin + a) * (rout - out)"
  by (rule quote_arith [OF get_amount_in_pays(2) [OF assms]]) (use get_amount_inD [OF assms] in simp_all)

lemma quote_in_covers_quote_out:
  assumes "get_amount_in amount_out rin rout fee = Inr a" and "get_amount_out a rin rout fee = Inr b"
  shows "amount_out \<le> b"
proof -
  have "amount_out * (rin * FEE_ADJUSTMENT + a * (FEE_ADJUSTMENT - fee)) \<le> a * (FEE_ADJUSTMENT - fee) * rout"
    by (rule get_amount_in_pays [OF assms(1)])
  moreover have "0 < rin * FEE_ADJUSTMENT + a * (FEE_ADJUSTMENT - fee)" using get_amount_inD [OF assms(1)] by simp
  ultimately show ?thesis
    unfolding get_amount_outD(1) [OF assms(2)] by (simp add: less_eq_div_iff_mult_less_eq)
qed

end
