(* ===== verification/Dex_Swap.thy ===== *)
theory Dex_Swap
  imports Dex_General_Properties
begin

text \<open>
  Swaps along a path. A priced route pays every pool on it at least what the product of its reserves
  asks for; the locale \<open>route_pricing\<close> is the contract between the two pricing loops and the loop that
  moves the funds, and both loops of the exchange are instances of it.
\<close>

subsection \<open>Routes\<close>

fun legs :: "'c list \<Rightarrow> nat list \<Rightarrow> ('c \<times> 'c \<times> nat \<times> nat) list" where
  "legs (c # d # cs) (a # b # bs) = (c, d, a, b) # legs (d # cs) (b # bs)"
| "legs _ _ = []"

definition path_pairs :: "'c::linorder list \<Rightarrow> ('c \<times> 'c) list" where
  "path_pairs path = map2 sort_asset_id path (tl path)"

text \<open>No pool twice, and no asset traded for itself.\<close>

definition simple_path :: "'c::linorder list \<Rightarrow> bool" where
  "simple_path path \<longleftrightarrow> distinct (path_pairs path) \<and> list_all2 (\<noteq>) (butlast path) (tl path)"

definition pool_product :: "('a, 'c::linorder, 'x) dex_config \<Rightarrow> ('a, 'c, 'x) dex \<Rightarrow> 'c \<Rightarrow> 'c \<Rightarrow> nat" where
  "pool_product D s c d = dex_balance D s c (pair_account_id D c d) * dex_balance D s d (pair_account_id D c d)"

definition leg_priced :: "('a, 'c::linorder, 'x) dex_config \<Rightarrow> ('a, 'c, 'x) dex \<Rightarrow> 'c \<times> 'c \<times> nat \<times> nat \<Rightarrow> bool" where
  "leg_priced D s = (\<lambda>(c, d, a, b).
     b \<le> dex_balance D s d (pair_account_id D c d)
     \<and> pool_product D s c d
         \<le> (dex_balance D s c (pair_account_id D c d) + a) * (dex_balance D s d (pair_account_id D c d) - b))"

definition route_priced :: "('a, 'c::linorder, 'x) dex_config \<Rightarrow> ('a, 'c, 'x) dex \<Rightarrow> 'c list \<Rightarrow> nat list \<Rightarrow> bool" where
  "route_priced D s path amounts \<longleftrightarrow>
     1 < length path \<and> length amounts = length path \<and> list_all (leg_priced D s) (legs path amounts)"

lemma path_pairs_simps [simp]:
  "path_pairs [] = []" "path_pairs [c] = []" "path_pairs (c # d # cs) = sort_asset_id c d # path_pairs (d # cs)"
  by (simp_all add: path_pairs_def)

lemma simple_path_simps [simp]:
  "simple_path [c]"
  "simple_path (c # d # cs) \<longleftrightarrow> c \<noteq> d \<and> sort_asset_id c d \<notin> set (path_pairs (d # cs)) \<and> simple_path (d # cs)"
  by (auto simp: simple_path_def path_pairs_def)

lemma sort_asset_id_commute: "sort_asset_id c d = sort_asset_id d c"
  by (auto simp: sort_asset_id_def)

lemma sort_asset_id_idem: "sort_asset_id c d = (x, y) \<Longrightarrow> sort_asset_id x y = (x, y)"
  by (auto simp: sort_asset_id_def split: if_splits)

lemma pair_account_id_commute: "pair_account_id D c d = pair_account_id D d c"
  by (simp add: pair_account_id_def sort_asset_id_commute)

lemma legs_snoc:
  "length xs = length ys \<Longrightarrow> xs \<noteq> [] \<Longrightarrow> legs (xs @ [d]) (ys @ [b]) = legs xs ys @ [(last xs, d, last ys, b)]"
  by (induction xs ys rule: legs.induct) (auto simp: length_Suc_conv Suc_length_conv neq_Nil_conv)

lemma leg_in_pairs: "(c, d, a, b) \<in> set (legs path amounts) \<Longrightarrow> sort_asset_id c d \<in> set (path_pairs path)"
  by (induction path amounts rule: legs.induct) auto

lemma pair_is_leg:
  "length amounts = length path \<Longrightarrow> pair \<in> set (path_pairs path)
   \<Longrightarrow> \<exists>c d a b. (c, d, a, b) \<in> set (legs path amounts) \<and> sort_asset_id c d = pair"
proof (induction path arbitrary: amounts rule: induct_list012)
  case (3 c d cs)
  then obtain a b bs where am: "amounts = a # b # bs" by (auto simp: Suc_length_conv length_Suc_conv)
  show ?case
  proof (cases "pair = sort_asset_id c d")
    case False
    then have "\<exists>x y m n. (x, y, m, n) \<in> set (legs (d # cs) (b # bs)) \<and> sort_asset_id x y = pair"
      using "3.prems" am by (intro "3.IH"(2)) auto
    then show ?thesis by (auto simp: am)
  qed (auto simp: am)
qed auto

lemma pool_product_sorted:
  assumes "sort_asset_id x y = sort_asset_id c d"
  shows "pool_product D s x y = pool_product D s c d"
proof -
  have "x = c \<and> y = d \<or> x = d \<and> y = c" using assms by (auto simp: sort_asset_id_def split: if_splits)
  then show ?thesis using pair_account_id_commute [of D c d] by (auto simp: pool_product_def mult.commute)
qed

subsection \<open>The pricing loops price every leg\<close>

lemma check_kD:
  assumes "check_k rin rout a b = Inr u"
  shows "b \<le> rout" "rin * rout \<le> (rin + a) * (rout - b)"
  using assms by (auto simp: check_k_def rbind_Inr_iff)

lemma amount_out_loop_priced:
  "amount_out_loop D s a path = Inr v \<Longrightarrow> path \<noteq> []
   \<Longrightarrow> length v + 1 = length path \<and> list_all (leg_priced D s) (legs path (a # v))"
proof (induction D s a path arbitrary: v rule: amount_out_loop.induct)
  case (1 D s a c d rest)
  from "1.prems"(1) obtain b v' where v: "v = b # v'" "amount_out_loop D s b (d # rest) = Inr v'"
    and k: "check_k (dex_balance D s c (pair_account_id D c d)) (dex_balance D s d (pair_account_id D c d)) a b = Inr ()"
    by (auto simp: Let_def rbind_Inr_iff)
  have "leg_priced D s (c, d, a, b)" using check_kD [OF k] by (simp add: leg_priced_def pool_product_def)
  moreover have "length v' + 1 = length (d # rest) \<and> list_all (leg_priced D s) (legs (d # rest) (b # v'))"
    by (rule "1.IH" [OF refl refl refl _ _ _ _ v(2)]) (use "1.prems"(1) v in \<open>auto simp: Let_def rbind_Inr_iff\<close>)
  ultimately show ?case by (simp add: v(1))
qed simp_all

lemma amount_in_loop_priced:
  "amount_in_loop D s out path = Inr v \<Longrightarrow> path \<noteq> []
   \<Longrightarrow> length v + 1 = length path \<and> list_all (leg_priced D s) (legs (rev path) (rev (out # v)))"
proof (induction D s out path arbitrary: v rule: amount_in_loop.induct)
  case (1 D s out d c rest)
  from "1.prems"(1) obtain a v' where v: "v = a # v'" "amount_in_loop D s a (c # rest) = Inr v'"
    and k: "check_k (dex_balance D s c (pair_account_id D d c)) (dex_balance D s d (pair_account_id D d c)) a out = Inr ()"
    by (auto simp: Let_def rbind_Inr_iff)
  have leg: "leg_priced D s (c, d, a, out)"
    using check_kD [OF k] by (simp add: leg_priced_def pool_product_def pair_account_id_commute [of D c d])
  have *: "length v' + 1 = length (c # rest) \<and> list_all (leg_priced D s) (legs (rev (c # rest)) (rev (a # v')))"
    by (rule "1.IH" [OF refl refl refl _ _ _ _ v(2)]) (use "1.prems"(1) v in \<open>auto simp: Let_def rbind_Inr_iff\<close>)
  have "legs (rev (d # c # rest)) (rev (out # v)) = legs (rev (c # rest)) (rev (a # v')) @ [(c, d, a, out)]"
    using legs_snoc [of "rev (c # rest)" "rev (a # v')" d out] * by (simp add: v(1))
  then show ?case using * leg v(1) by simp
qed simp_all

lemma get_amount_out_by_path_priced:
  assumes "get_amount_out_by_path D s n path = Inr amounts"
  shows "route_priced D s path amounts"
proof -
  from assms obtain v where "1 < length path" "amount_out_loop D s n path = Inr v" "amounts = n # v"
    by (auto simp: get_amount_out_by_path_def rbind_Inr_iff)
  with amount_out_loop_priced [of D s n path v] show ?thesis by (cases path) (auto simp: route_priced_def)
qed

lemma get_amount_in_by_path_priced:
  assumes "get_amount_in_by_path D s n path = Inr amounts"
  shows "route_priced D s path amounts"
proof -
  from assms obtain v where "1 < length path" "amount_in_loop D s n (rev path) = Inr v" "amounts = rev (n # v)"
    by (auto simp: get_amount_in_by_path_def rbind_Inr_iff)
  with amount_in_loop_priced [of D s n "rev path" v] show ?thesis by (cases path) (auto simp: route_priced_def)
qed

subsection \<open>Moving the funds\<close>

abbreviation dex_laws :: "('a, 'c, 'x) dex_config \<Rightarrow> bool" where
  "dex_laws D \<equiv> multi_currency_laws (dx_currency D)"

lemma dex_transferD:
  assumes "dex_laws D" and "dex_transfer D c a b n s = Inr (u, s')"
  shows "dex_balance D s' = balances_moved c a b n (dex_balance D s)" and "PairStatuses s' = PairStatuses s"
    and "a \<noteq> b \<Longrightarrow> n \<le> dex_balance D s c a"
  using assms mc_transferD [OF assms(1)]
  unfolding dex_transfer_def on_dex_ledger_def by (fastforce simp: rbind_Inr_iff dex_balance_def)+

lemma balances_moved_0 [simp]: "balances_moved c a b 0 f = f"
  by (simp add: balances_moved_def fun_eq_iff)

lemma pair_swapD:
  assumes "dex_laws D" and "pair_swap D x y A m n r s = Inr (u, s')" and "m = 0 \<or> n = 0"
  shows "dex_balance D s' = balances_moved y A r n (balances_moved x A r m (dex_balance D s))"
  using assms(2, 3) unfolding pair_swap_def
  by (auto simp: rbind_Inr_iff split: pair_status.splits if_splits dest: dex_transferD(1) [OF assms(1)])

lemma swap_legE:
  assumes D: "dex_laws D" and run: "swap_loop D (a # b # bs) (c # d # cs) r s = Inr (u, s')"
  obtains s1 where "swap_loop D (b # bs) (d # cs) r s1 = Inr (u, s')"
    and "dex_balance D s1 = balances_moved d (pair_account_id D c d)
           (case cs of [] \<Rightarrow> r | e # _ \<Rightarrow> pair_account_id D d e) b (dex_balance D s)"
proof -
  obtain x y where xy: "sort_asset_id c d = (x, y)" by fastforce
  have A: "pair_account_id D x y = pair_account_id D c d"
    using sort_asset_id_idem [OF xy] by (simp add: pair_account_id_def xy)
  let ?T = "case cs of [] \<Rightarrow> r | e # _ \<Rightarrow> pair_account_id D d e"
  obtain s1 where rest: "swap_loop D (b # bs) (d # cs) r s1 = Inr (u, s')"
    and swap: "pair_swap D x y (pair_account_id D c d) (if c \<noteq> x then b else 0) (if c \<noteq> x then 0 else b) ?T s = Inr ((), s1)"
    using run unfolding swap_loop.simps Let_def xy prod.case A by (auto simp: rbind_Inr_iff split: if_splits)
  have d: "d = (if c \<noteq> x then x else y)" using xy by (auto simp: sort_asset_id_def split: if_splits)
  have "dex_balance D s1 = balances_moved d (pair_account_id D c d) ?T b (dex_balance D s)"
    using pair_swapD [OF D swap] by (simp add: d)
  with rest show thesis by (rule that)
qed

text \<open>Accounts of different pairs differ: the hash that makes them has no collision on the pairs in use.\<close>

definition distinct_pair_accounts :: "('a, 'c, 'x) dex_config \<Rightarrow> bool" where
  "distinct_pair_accounts D \<longleftrightarrow> inj (dx_pair_hash_account D)"

lemma pair_account_id_eq_iff:
  "distinct_pair_accounts D \<Longrightarrow> pair_account_id D c d = pair_account_id D c' d' \<longleftrightarrow> sort_asset_id c d = sort_asset_id c' d'"
  by (auto simp: distinct_pair_accounts_def pair_account_id_def inj_eq)

lemma balances_moved_le: "e \<noteq> a \<or> d \<noteq> c \<Longrightarrow> f d e \<le> balances_moved c a b n f d e"
  by (auto simp: balances_moved_def)

lemma balances_moved_source: "f d a \<le> balances_moved c a b n f d a + n"
  by (auto simp: balances_moved_def)

lemma balances_moved_target: "a \<noteq> b \<Longrightarrow> balances_moved c a b n f c b = f c b + n"
  by (auto simp: balances_moved_def)

abbreviation path_accounts :: "('a, 'c::linorder, 'x) dex_config \<Rightarrow> 'c list \<Rightarrow> 'a set" where
  "path_accounts D path \<equiv> dx_pair_hash_account D ` set (path_pairs path)"

lemma swap_loop_others:
  assumes D: "dex_laws D"
  shows "swap_loop D amounts path r s = Inr (u, s') \<Longrightarrow> length amounts = length path
     \<Longrightarrow> e \<notin> path_accounts D path \<Longrightarrow> dex_balance D s k e \<le> dex_balance D s' k e"
proof (induction path arbitrary: amounts s rule: induct_list012)
  case (3 c d cs)
  from "3.prems"(2) obtain a b bs where am: "amounts = a # b # bs" by (auto simp: length_Suc_conv Suc_length_conv)
  obtain s1 where rest: "swap_loop D (b # bs) (d # cs) r s1 = Inr (u, s')"
    and bal: "dex_balance D s1 = balances_moved d (pair_account_id D c d)
           (case cs of [] \<Rightarrow> r | e # _ \<Rightarrow> pair_account_id D d e) b (dex_balance D s)"
    using "3.prems"(1) unfolding am by (rule swap_legE [OF D])
  have "dex_balance D s k e \<le> dex_balance D s1 k e"
    using "3.prems"(3) by (simp add: bal balances_moved_le pair_account_id_def)
  also have "\<dots> \<le> dex_balance D s' k e" by (rule "3.IH"(2) [OF rest]) (use "3.prems" am in simp_all)
  finally show ?case .
qed auto

text \<open>After the loop each pool has paid at most its output and, the first pool apart, received its input.\<close>

lemma swap_loop_pools:
  assumes D: "dex_laws D" and acc: "distinct_pair_accounts D"
  shows "swap_loop D amounts path r s = Inr (u, s') \<Longrightarrow> length amounts = length path \<Longrightarrow> simple_path path
     \<Longrightarrow> (\<forall>(c, d, a, b)\<in>set (legs path amounts). dex_balance D s d (pair_account_id D c d) \<le> dex_balance D s' d (pair_account_id D c d) + b)
       \<and> (\<forall>(c, d, a, b)\<in>set (tl (legs path amounts)). dex_balance D s c (pair_account_id D c d) + a \<le> dex_balance D s' c (pair_account_id D c d))
       \<and> (\<forall>(c, d, a, b)\<in>set (take 1 (legs path amounts)). dex_balance D s c (pair_account_id D c d) \<le> dex_balance D s' c (pair_account_id D c d))"
proof (induction path arbitrary: amounts s rule: induct_list012)
  case (3 c d cs)
  from "3.prems"(2) obtain a b bs where am: "amounts = a # b # bs" by (auto simp: length_Suc_conv Suc_length_conv)
  let ?A = "pair_account_id D c d" and ?T = "case cs of [] \<Rightarrow> r | e # _ \<Rightarrow> pair_account_id D d e"
  obtain s1 where rest: "swap_loop D (b # bs) (d # cs) r s1 = Inr (u, s')"
    and bal: "dex_balance D s1 = balances_moved d ?A ?T b (dex_balance D s)"
    using "3.prems"(1) unfolding am by (rule swap_legE [OF D])
  have cd: "c \<noteq> d" "sort_asset_id c d \<notin> set (path_pairs (d # cs))" "simple_path (d # cs)" using "3.prems"(3) by simp_all
  have IH: "\<forall>(c, d, a, b)\<in>set (legs (d # cs) (b # bs)). dex_balance D s1 d (pair_account_id D c d) \<le> dex_balance D s' d (pair_account_id D c d) + b"
    "\<forall>(c, d, a, b)\<in>set (tl (legs (d # cs) (b # bs))). dex_balance D s1 c (pair_account_id D c d) + a \<le> dex_balance D s' c (pair_account_id D c d)"
    "\<forall>(c, d, a, b)\<in>set (take 1 (legs (d # cs) (b # bs))). dex_balance D s1 c (pair_account_id D c d) \<le> dex_balance D s' c (pair_account_id D c d)"
    using "3.IH"(2) [OF rest _ cd(3)] "3.prems"(2) am by auto
  have away: "?A \<notin> path_accounts D (d # cs)"
    using cd(2) acc by (auto simp: distinct_pair_accounts_def pair_account_id_def inj_eq)
  have later: "pair_account_id D x y \<noteq> ?A" if "(x, y, m, n) \<in> set (legs (d # cs) (b # bs))" for x y m n
    using leg_in_pairs [OF that] cd(2) acc by (auto simp: pair_account_id_eq_iff)
  have up: "dex_balance D s k e \<le> dex_balance D s1 k e" if "e \<noteq> ?A" for k e
    using that by (simp add: bal balances_moved_le)
  have stay: "dex_balance D s1 k ?A \<le> dex_balance D s' k ?A" for k
    by (rule swap_loop_others [OF D rest]) (use "3.prems"(2) am away in simp_all)
  have first: "dex_balance D s d ?A \<le> dex_balance D s' d ?A + b" "dex_balance D s c ?A \<le> dex_balance D s' c ?A"
    using stay [of d] stay [of c] cd(1) balances_moved_source [of "dex_balance D s" d ?A d ?T b]
      balances_moved_le [of ?A ?A c d "dex_balance D s" ?T b] by (auto simp: bal)
  have outs: "dex_balance D s y (pair_account_id D x y) \<le> dex_balance D s' y (pair_account_id D x y) + n"
    if "(x, y, m, n) \<in> set (legs (d # cs) (b # bs))" for x y m n
    using IH(1) that up [OF later [OF that], of y] by fastforce
  have ins: "dex_balance D s x (pair_account_id D x y) + m \<le> dex_balance D s' x (pair_account_id D x y)"
    if leg: "(x, y, m, n) \<in> set (legs (d # cs) (b # bs))" for x y m n
  proof (cases "(x, y, m, n) \<in> set (tl (legs (d # cs) (b # bs)))")
    case True
    then show ?thesis using IH(2) up [OF later [OF leg], of x] by fastforce
  next
    case False
    then obtain e cs' b' bs' where n: "cs = e # cs'" "bs = b' # bs'" "x = d" "y = e" "m = b" "n = b'"
      using leg by (cases cs; cases bs) auto
    have "?A \<noteq> pair_account_id D d e" using later [OF leg] n by simp
    then show ?thesis using IH(3) by (simp add: n bal balances_moved_target)
  qed
  show ?case using first outs ins by (auto simp: am)
qed auto

text \<open>Paying for a priced route before the loop runs leaves no pool with a smaller product.\<close>

lemma priced_swap_keeps_products:
  assumes D: "dex_laws D" and acc: "distinct_pair_accounts D" and who: "who \<notin> range (dx_pair_hash_account D)"
    and priced: "route_priced D s path amounts" and simple: "simple_path path"
    and pay: "dex_transfer D (path ! 0) who (pair_account_id D (path ! 0) (path ! 1)) (amounts ! 0) s = Inr (u, s1)"
    and run: "swap_loop D amounts path r s1 = Inr (v, s')"
  shows "pool_product D s c d \<le> pool_product D s' c d"
proof -
  let ?A = "pair_account_id D c d" and ?b = "dex_balance D s" and ?b' = "dex_balance D s'"
  obtain p q ps m n ns where path: "path = p # q # ps" and am: "amounts = m # n # ns"
    using priced unfolding route_priced_def by (cases path; cases "tl path"; cases amounts; cases "tl amounts") auto
  let ?P = "pair_account_id D p q"
  have len: "length amounts = length path" using priced by (simp add: route_priced_def)
  have paid: "dex_balance D s1 = balances_moved p who ?P m ?b" using dex_transferD(1) [OF D pay] by (simp add: path am)
  have who': "who \<noteq> pair_account_id D x y" for x y using who by (auto simp: pair_account_id_def)
  have up: "?b k (pair_account_id D x y) \<le> dex_balance D s1 k (pair_account_id D x y)" for k x y
    unfolding paid by (rule balances_moved_le) (use who' [symmetric] in simp)
  note pools = swap_loop_pools [OF D acc run len simple]
  have leg: "pool_product D s x y \<le> pool_product D s' x y" if leg: "(x, y, a, b) \<in> set (legs path amounts)" for x y a b
  proof -
    let ?B = "pair_account_id D x y"
    have "dex_balance D s1 y ?B \<le> ?b' y ?B + b" using pools leg by fast
    then have out: "?b y ?B - b \<le> ?b' y ?B" using up [of y x y] by linarith
    have "?b x ?B + a \<le> ?b' x ?B"
    proof (cases "(x, y, a, b) \<in> set (tl (legs path amounts))")
      case True
      then have "dex_balance D s1 x ?B + a \<le> ?b' x ?B" using pools by fast
      then show ?thesis using up [of x x y] by linarith
    next
      case False
      then have "x = p" "y = q" "a = m" using leg by (simp_all add: path am)
      moreover have "dex_balance D s1 p ?P \<le> ?b' p ?P" using pools by (simp add: path am)
      moreover have "dex_balance D s1 p ?P = ?b p ?P + m" unfolding paid by (rule balances_moved_target) (rule who')
      ultimately show ?thesis by simp
    qed
    then have "(?b x ?B + a) * (?b y ?B - b) \<le> ?b' x ?B * ?b' y ?B" using out by (rule mult_le_mono)
    moreover have "leg_priced D s (x, y, a, b)" using priced leg by (auto simp: route_priced_def list_all_iff)
    ultimately show ?thesis by (simp add: leg_priced_def pool_product_def)
  qed
  show ?thesis
  proof (cases "sort_asset_id c d \<in> set (path_pairs path)")
    case True
    then obtain x y a b where "(x, y, a, b) \<in> set (legs path amounts)" "sort_asset_id x y = sort_asset_id c d"
      using pair_is_leg [OF len] by blast
    then show ?thesis using leg pool_product_sorted by metis
  next
    case False
    then have "?A \<notin> path_accounts D path" using acc by (auto simp: distinct_pair_accounts_def pair_account_id_def inj_eq)
    then have "?b k ?A \<le> ?b' k ?A" for k using swap_loop_others [OF D run len] up [of k c d] by (meson le_trans)
    then show ?thesis unfolding pool_product_def by (intro mult_le_mono)
  qed
qed

subsection \<open>The contract between pricing and moving\<close>

locale route_pricing =
  fixes D :: "('a, 'c::linorder, 'x) dex_config" and s :: "('a, 'c, 'x) dex"
    and price :: "nat \<Rightarrow> 'c list \<Rightarrow> (dispatch_error, nat list) result"
  assumes price_is_priced: "price n path = Inr amounts \<Longrightarrow> route_priced D s path amounts"
begin

lemma paid_swap_keeps_products:
  assumes "dex_laws D" "distinct_pair_accounts D" "who \<notin> range (dx_pair_hash_account D)" "simple_path path"
    and "price n path = Inr amounts"
    and "dex_transfer D (path ! 0) who (pair_account_id D (path ! 0) (path ! 1)) (amounts ! 0) s = Inr (u, s1)"
    and "swap_loop D amounts path r s1 = Inr (v, s')"
  shows "pool_product D s c d \<le> pool_product D s' c d"
  by (rule priced_swap_keeps_products [OF assms(1-3) price_is_priced [OF assms(5)] assms(4, 6, 7)])

lemma priced_length:
  assumes "price n path = Inr amounts"
  shows "1 < length path" "length amounts = length path"
  using price_is_priced [OF assms] by (simp_all add: route_priced_def)

end

interpretation exact_input: route_pricing D s "get_amount_out_by_path D s" for D s
  by unfold_locales (rule get_amount_out_by_path_priced)

interpretation exact_output: route_pricing D s "get_amount_in_by_path D s" for D s
  by unfold_locales (rule get_amount_in_by_path_priced)

end
