(* ===== verification/Dex_Liquidity.thy ===== *)
theory Dex_Liquidity
  imports Dex_Swap
begin

text \<open>
  Liquidity and bootstrap of the constant-product exchange: what adding and removing liquidity does to
  the reserves behind a liquidity token, and that the liquidity tokens of a bootstrap cover every claim.
\<close>

subsection \<open>Shares\<close>

lemma share_amount_le: "calculate_share_amount a r t * r \<le> a * t"
  by (simp add: calculate_share_amount_def unwrap_or_zero_def checked_mul_w_def checked_div_def to_balance_def div_times_less_eq_dividend)

lemma share_amount_0 [simp]: "calculate_share_amount a 0 t = 0"
  by (simp add: calculate_share_amount_def unwrap_or_zero_def checked_mul_w_def checked_div_def)

lemma share_amount_le_reserve:
  assumes "a \<le> t"
  shows "calculate_share_amount a t r \<le> r"
proof (cases "t = 0")
  case False
  have "calculate_share_amount a t r * t \<le> r * t"
    using share_amount_le [of a t r] assms by (metis le_trans mult.commute mult_le_mono1)
  then show ?thesis using False by simp
qed simp

lemma calculate_liquidity_le:
  assumes "0 < t"
  shows "calculate_liquidity D a0 a1 r0 r1 t * r0 \<le> a0 * t" and "calculate_liquidity D a0 a1 r0 r1 t * r1 \<le> a1 * t"
  using assms share_amount_le [of a0 r0 t] share_amount_le [of a1 r1 t]
  unfolding calculate_liquidity_def by (auto intro: le_trans [OF mult_le_mono1 [OF min.cobounded1]] le_trans [OF mult_le_mono1 [OF min.cobounded2]])

lemma mint_protocol_fee_balance:
  "mint_protocol_fee D r0 r1 c d t s = Inr (n, s')
   \<Longrightarrow> dex_ledger s' = dex_ledger s \<and> FeeMeta s' = FeeMeta s \<and> PairStatuses s' = PairStatuses s \<and> (fst (FeeMeta s) = None \<longrightarrow> n = 0)"
  unfolding mint_protocol_fee_def mutate_k_last_def
  by (auto simp: rbind_Inr_iff Let_def split: if_splits prod.splits)

lemma mint_fee_to_receiverD:
  assumes "dex_laws D" and "mint_fee_to_receiver D lp fee t s = Inr (t', s')"
  shows "\<exists>f. t' = t + f \<and> (fst (FeeMeta s) = None \<longrightarrow> f = 0) \<and> PairStatuses s' = PairStatuses s
    \<and> (\<forall>c. c \<noteq> lp \<longrightarrow> dex_balance D s' c = dex_balance D s c)"
  using assms(2) unfolding mint_fee_to_receiver_def on_dex_ledger_def
  by (auto simp: rbind_Inr_iff dex_balance_def split: if_splits prod.splits option.splits dest!: mc_depositD(1) [OF assms(1)])

lemma update_k_lastD:
  "update_k_last D c d e s = Inr (u, s') \<Longrightarrow> dex_ledger s' = dex_ledger s \<and> PairStatuses s' = PairStatuses s"
  unfolding update_k_last_def mutate_k_last_def by (auto simp: rbind_Inr_iff split: option.splits prod.splits)

lemma dex_depositD:
  assumes "dex_laws D" and "on_dex_ledger (mc_deposit (dx_currency D) c a n) s = Inr (u, s')"
  shows "dex_balance D s' = (dex_balance D s)(c := (dex_balance D s c)(a := dex_balance D s c a + n))"
  using assms(2) unfolding on_dex_ledger_def
  by (auto simp: rbind_Inr_iff dex_balance_def dest: mc_depositD(1) [OF assms(1)])

lemma dex_withdrawD:
  assumes "dex_laws D" and "on_dex_ledger (mc_withdraw (dx_currency D) c a n) s = Inr (u, s')"
  shows "dex_balance D s' = (dex_balance D s)(c := (dex_balance D s c)(a := dex_balance D s c a - n))"
  using assms(2) unfolding on_dex_ledger_def
  by (auto simp: rbind_Inr_iff dex_balance_def dest: mc_withdrawD(2) [OF assms(1)])

subsection \<open>Adding and removing liquidity\<close>

definition supply_of :: "('a, 'c::linorder, 'x) dex \<Rightarrow> 'c \<Rightarrow> 'c \<Rightarrow> nat" where
  "supply_of s c d = (case PairStatuses s (sort_asset_id c d) of Trading m \<Rightarrow> pm_total_supply m | _ \<Rightarrow> 0)"

lemma run_trading [run_elims]:
  "(case st of Trading p \<Rightarrow> f p | Bootstrap b \<Rightarrow> sfail e | Disable \<Rightarrow> sfail e') s = Inr r
   \<Longrightarrow> (\<And>p. st = Trading p \<Longrightarrow> f p s = Inr r \<Longrightarrow> thesis) \<Longrightarrow> thesis"
  by (cases st) auto

lemma inner_add_liquidityE:
  fixes D :: "('a, 'c::linorder, 'x) dex_config" and s :: "('a, 'c, 'x) dex"
  assumes D: "dex_laws D" and run: "inner_add_liquidity D who c d x0 x1 m0 m1 s = Inr (u, s')"
    and st: "PairStatuses s (sort_asset_id c d) = Trading p" and other: "who \<noteq> pm_pair_account p" "c \<noteq> d"
    and lp: "LiquidityPairs s (sort_asset_id c d) \<notin> {Some c, Some d}"
  obtains a0 a1 fee minted where
    "minted = calculate_liquidity D a0 a1 (dex_balance D s c (pm_pair_account p)) (dex_balance D s d (pm_pair_account p)) (pm_total_supply p + fee)"
    "0 < minted" "fst (FeeMeta s) = None \<longrightarrow> fee = 0"
    "supply_of s' c d = pm_total_supply p + fee + minted"
    "dex_balance D s' c (pm_pair_account p) = dex_balance D s c (pm_pair_account p) + a0"
    "dex_balance D s' d (pm_pair_account p) = dex_balance D s d (pm_pair_account p) + a1"
  using run unfolding inner_add_liquidity_def Let_def
proof (elim run_elims, hypsubst_thin)
  fix P :: "'a pair_metadata" and token :: 'c and a0 a1 fee' T1 T2 and s1 s2 s3 s4 s5 s6 s7 :: "('a, 'c, 'x) dex" and u3 u4 u5 u6 u7 :: unit
  let ?A = "pm_pair_account P" and ?b = "dex_balance D s"
  let ?m = "calculate_liquidity D a0 a1 (?b c ?A) (?b d ?A) T1"
  assume P: "PairStatuses s (sort_asset_id c d) = Trading P"
    and token: "ok_or (LiquidityPairs s (sort_asset_id c d)) (dex_error Dex_InsufficientAssetBalance) = Inr token"
    and protocol: "mint_protocol_fee D (?b c ?A) (?b d ?A) c d (pm_total_supply P) s = Inr (fee', s1)"
    and mint: "mint_fee_to_receiver D token fee' (pm_total_supply P) s1 = Inr (T1, s2)"
    and pos: "0 < ?m"
    and T2: "ok_or (checked_add_w 128 T1 ?m) (dex_error Dex_Overflow) = Inr T2"
    and deposit: "on_dex_ledger (mc_deposit (dx_currency D) token who ?m) s2 = Inr (u3, s3)"
    and move: "dex_transfer D c who ?A a0 s3 = Inr (u4, s4)" "dex_transfer D d who ?A a1 s4 = Inr (u5, s5)"
    and k: "update_k_last D c d ?A s5 = Inr (u6, s6)"
    and event: "dex_deposit_event (LiquidityAdded who c d a0 a1 ?m) s6 = Inr (u7, s7)"
    and last: "put_pair_status (sort_asset_id c d) (Trading (P\<lparr>pm_total_supply := T2\<rparr>)) s7 = Inr (u, s')"
  have p: "P = p" using P st by simp
  obtain f where f: "T1 = pm_total_supply P + f" "fst (FeeMeta s) = None \<longrightarrow> f = 0" "\<forall>c. c \<noteq> token \<longrightarrow> dex_balance D s2 c = dex_balance D s1 c"
    using mint_fee_to_receiverD [OF D mint] mint_protocol_fee_balance [OF protocol] by auto
  have tok: "c \<noteq> token" "d \<noteq> token" using token lp by auto
  have b: "dex_balance D s' = dex_balance D s5"
    using update_k_lastD [OF k] event last by (auto simp: dex_deposit_event_def put_pair_status_def dex_balance_def)
  have b2: "dex_balance D s2 c = ?b c" "dex_balance D s2 d = ?b d"
    using f(3) tok mint_protocol_fee_balance [OF protocol] by (auto simp: dex_balance_def)
  show thesis
  proof (rule that [of ?m a0 a1 f])
    show "supply_of s' c d = pm_total_supply p + f + ?m"
      using last T2 f(1) by (auto simp: supply_of_def put_pair_status_def p)
  qed (use pos f(1, 2) dex_transferD(1) [OF D move(1)] dex_transferD(1) [OF D move(2)] dex_depositD [OF D deposit] b2 other tok
    in \<open>auto simp: p b balances_moved_def\<close>)
qed

lemma inner_remove_liquidityE:
  fixes D :: "('a, 'c::linorder, 'x) dex_config" and s :: "('a, 'c, 'x) dex"
  assumes D: "dex_laws D" and run: "inner_remove_liquidity D who c d removed m0 m1 r s = Inr (u, s')"
    and st: "PairStatuses s (sort_asset_id c d) = Trading p" and other: "r \<noteq> pm_pair_account p" "c \<noteq> d"
    and lp: "LiquidityPairs s (sort_asset_id c d) \<notin> {Some c, Some d}"
  obtains fee where
    "removed \<le> pm_total_supply p + fee" "fst (FeeMeta s) = None \<longrightarrow> fee = 0"
    "supply_of s' c d + removed = pm_total_supply p + fee"
    "dex_balance D s' c (pm_pair_account p) = dex_balance D s c (pm_pair_account p)
       - calculate_share_amount removed (pm_total_supply p) (dex_balance D s c (pm_pair_account p))"
    "dex_balance D s' d (pm_pair_account p) = dex_balance D s d (pm_pair_account p)
       - calculate_share_amount removed (pm_total_supply p) (dex_balance D s d (pm_pair_account p))"
  using run unfolding inner_remove_liquidity_def Let_def
proof (elim run_elims, hypsubst_thin)
  fix P :: "'a pair_metadata" and token :: 'c and fee' T1 T2 and s1 s2 s3 s4 s5 s6 s7 :: "('a, 'c, 'x) dex" and u3 u4 u5 u6 u7 :: unit
  let ?A = "pm_pair_account P" and ?b = "dex_balance D s"
  let ?a0 = "calculate_share_amount removed (pm_total_supply P) (?b c ?A)" and ?a1 = "calculate_share_amount removed (pm_total_supply P) (?b d ?A)"
  assume P: "PairStatuses s (sort_asset_id c d) = Trading P"
    and token: "ok_or (LiquidityPairs s (sort_asset_id c d)) (dex_error Dex_InsufficientAssetBalance) = Inr token"
    and protocol: "mint_protocol_fee D (?b c ?A) (?b d ?A) c d (pm_total_supply P) s = Inr (fee', s1)"
    and mint: "mint_fee_to_receiver D token fee' (pm_total_supply P) s1 = Inr (T1, s2)"
    and T2: "ok_or (checked_sub T1 removed) (dex_error Dex_InsufficientLiquidity) = Inr T2"
    and burn: "on_dex_ledger (mc_withdraw (dx_currency D) token who removed) s2 = Inr (u3, s3)"
    and move: "dex_transfer D c ?A r ?a0 s3 = Inr (u4, s4)" "dex_transfer D d ?A r ?a1 s4 = Inr (u5, s5)"
    and k: "update_k_last D c d ?A s5 = Inr (u6, s6)"
    and event: "dex_deposit_event (LiquidityRemoved who r c d ?a0 ?a1 removed) s6 = Inr (u7, s7)"
    and last: "put_pair_status (sort_asset_id c d) (Trading (P\<lparr>pm_total_supply := T2\<rparr>)) s7 = Inr (u, s')"
  have p: "P = p" using P st by simp
  obtain f where f: "T1 = pm_total_supply P + f" "fst (FeeMeta s) = None \<longrightarrow> f = 0" "\<forall>c. c \<noteq> token \<longrightarrow> dex_balance D s2 c = dex_balance D s1 c"
    using mint_fee_to_receiverD [OF D mint] mint_protocol_fee_balance [OF protocol] by auto
  have tok: "c \<noteq> token" "d \<noteq> token" using token lp by auto
  have b: "dex_balance D s' = dex_balance D s5"
    using update_k_lastD [OF k] event last by (auto simp: dex_deposit_event_def put_pair_status_def dex_balance_def)
  have b2: "dex_balance D s2 c = ?b c" "dex_balance D s2 d = ?b d"
    using f(3) tok mint_protocol_fee_balance [OF protocol] by (auto simp: dex_balance_def)
  have T2: "removed \<le> T1" "T2 = T1 - removed" using T2 by simp_all
  show thesis
  proof (rule that [of f])
    show "supply_of s' c d + removed = pm_total_supply p + f"
      using last T2 f(1) by (auto simp: supply_of_def put_pair_status_def p)
  qed (use T2 f(1, 2) dex_transferD(1) [OF D move(1)] dex_transferD(1) [OF D move(2)] dex_withdrawD [OF D burn] b2 other tok
    in \<open>auto simp: p b balances_moved_def\<close>)
qed

text \<open>
  A liquidity token keeps its worth: while the protocol fee is off, the reserves per token do not fall
  when liquidity is added or removed.
\<close>

lemma add_liquidity_keeps_worth:
  assumes D: "dex_laws D" and run: "inner_add_liquidity D who c d x0 x1 m0 m1 s = Inr (u, s')"
    and st: "PairStatuses s (sort_asset_id c d) = Trading p" and other: "who \<noteq> pm_pair_account p" "c \<noteq> d"
    and lp: "LiquidityPairs s (sort_asset_id c d) \<notin> {Some c, Some d}"
    and fee: "fst (FeeMeta s) = None" and T: "0 < pm_total_supply p" and e: "e = c \<or> e = d"
  shows "dex_balance D s e (pm_pair_account p) * supply_of s' c d \<le> dex_balance D s' e (pm_pair_account p) * supply_of s c d"
    and "supply_of s c d < supply_of s' c d"
proof -
  let ?A = "pm_pair_account p" and ?T = "pm_total_supply p"
  obtain a0 a1 f m where *: "m = calculate_liquidity D a0 a1 (dex_balance D s c ?A) (dex_balance D s d ?A) (?T + f)"
    "0 < m" "fst (FeeMeta s) = None \<longrightarrow> f = 0" "supply_of s' c d = ?T + f + m"
    "dex_balance D s' c ?A = dex_balance D s c ?A + a0" "dex_balance D s' d ?A = dex_balance D s d ?A + a1"
    by (rule inner_add_liquidityE [OF D run st other lp])
  have T': "supply_of s c d = ?T" by (simp add: supply_of_def st)
  show "supply_of s c d < supply_of s' c d" using * T' by simp
  show "dex_balance D s e ?A * supply_of s' c d \<le> dex_balance D s' e ?A * supply_of s c d"
    using e calculate_liquidity_le [OF T, of D a0 a1 "dex_balance D s c ?A" "dex_balance D s d ?A"] * fee
    by (auto simp: T' algebra_simps)
qed

lemma remove_liquidity_keeps_worth:
  assumes D: "dex_laws D" and run: "inner_remove_liquidity D who c d removed m0 m1 r s = Inr (u, s')"
    and st: "PairStatuses s (sort_asset_id c d) = Trading p" and other: "r \<noteq> pm_pair_account p" "c \<noteq> d"
    and lp: "LiquidityPairs s (sort_asset_id c d) \<notin> {Some c, Some d}"
    and fee: "fst (FeeMeta s) = None" and e: "e = c \<or> e = d"
  shows "dex_balance D s e (pm_pair_account p) * supply_of s' c d \<le> dex_balance D s' e (pm_pair_account p) * supply_of s c d"
    and "supply_of s' c d + removed = supply_of s c d"
proof -
  let ?A = "pm_pair_account p" and ?T = "pm_total_supply p"
  obtain f where *: "removed \<le> ?T + f" "fst (FeeMeta s) = None \<longrightarrow> f = 0" "supply_of s' c d + removed = ?T + f"
    "dex_balance D s' c ?A = dex_balance D s c ?A - calculate_share_amount removed ?T (dex_balance D s c ?A)"
    "dex_balance D s' d ?A = dex_balance D s d ?A - calculate_share_amount removed ?T (dex_balance D s d ?A)"
    by (rule inner_remove_liquidityE [OF D run st other lp])
  have T': "supply_of s c d = ?T" by (simp add: supply_of_def st)
  show sup: "supply_of s' c d + removed = supply_of s c d" using * T' fee by simp
  have "r * supply_of s' c d \<le> (r - calculate_share_amount removed ?T r) * ?T" for r
  proof -
    have "r * supply_of s' c d + removed * r = r * ?T" using sup T' by (metis add_mult_distrib2 mult.commute)
    then show ?thesis using share_amount_le [of removed ?T r] by (simp add: diff_mult_distrib)
  qed
  then show "dex_balance D s e ?A * supply_of s' c d \<le> dex_balance D s' e ?A * supply_of s c d"
    using e * by (auto simp: T')
qed

text \<open>A pool whose reserves are gone while liquidity tokens are left accepts no liquidity any more.\<close>

lemma drained_pool_rejects:
  assumes st: "PairStatuses s (sort_asset_id c d) = Trading p" and T: "0 < pm_total_supply p"
    and empty: "dex_balance D s c (pm_pair_account p) = 0" "dex_balance D s d (pm_pair_account p) = 0"
  shows "\<not> is_ok (inner_add_liquidity D who c d x0 x1 m0 m1 s)"
proof
  assume "is_ok (inner_add_liquidity D who c d x0 x1 m0 m1 s)"
  then obtain u s' where "inner_add_liquidity D who c d x0 x1 m0 m1 s = Inr (u, s')" by (auto simp: is_ok_iff)
  then show False
    unfolding inner_add_liquidity_def Let_def
  proof (elim run_elims, hypsubst_thin)
    fix P :: "'a pair_metadata" and token :: 'b and a0 a1 fee' T1 and s1 s2 :: "('a, 'b, 'c) dex"
    let ?b = "\<lambda>c. dex_balance D s c (pm_pair_account P)"
    assume P: "PairStatuses s (sort_asset_id c d) = Trading P"
      and mint: "mint_fee_to_receiver D token fee' (pm_total_supply P) s1 = Inr (T1, s2)"
      and pos: "0 < calculate_liquidity D a0 a1 (?b c) (?b d) T1"
    have "pm_total_supply P \<le> T1"
      using mint unfolding mint_fee_to_receiver_def by (auto simp: rbind_Inr_iff split: option.splits if_splits prod.splits)
    then show False using pos T empty P st by (simp add: calculate_liquidity_def)
  qed
qed

subsection \<open>Claims on a bootstrap\<close>

definition integer_sqrt_law :: "('a, 'c, 'x) dex_config \<Rightarrow> bool" where
  "integer_sqrt_law D \<longleftrightarrow> (\<forall>n. dx_integer_sqrt D n * dx_integer_sqrt D n \<le> n \<and> n < Suc (dx_integer_sqrt D n) * Suc (dx_integer_sqrt D n))"

lemma le_integer_sqrt:
  assumes "integer_sqrt_law D" and "m * m \<le> n"
  shows "m \<le> dx_integer_sqrt D n"
proof (rule ccontr)
  assume "\<not> m \<le> dx_integer_sqrt D n"
  then have "Suc (dx_integer_sqrt D n) * Suc (dx_integer_sqrt D n) \<le> m * m" by (intro mult_le_mono) simp_all
  then show False using assms unfolding integer_sqrt_law_def by (meson le_trans not_less)
qed

lemma claim_bound:
  assumes law: "integer_sqrt_law D" and claim: "claim_liquidity_of D (a, b) (A, B) = Inr n"
  shows "4 * (A * B) * (n * n) \<le> (a * B + b * A) * (a * B + b * A)" and "0 < A * B"
proof -
  let ?u = "a * B + b * A"
  from claim have n: "n = dx_integer_sqrt D (?u div (B * 2) * (?u div (A * 2)))" and pos: "0 < A" "0 < B"
    by (auto simp: claim_liquidity_of_def exact_amount_def rbind_Inr_iff bind_eq_Some_conv to_balance_def algebra_simps split: if_splits)
  show "0 < A * B" using pos by simp
  have "n * n \<le> ?u div (B * 2) * (?u div (A * 2))" using law unfolding integer_sqrt_law_def n by blast
  then have "4 * (A * B) * (n * n) \<le> 4 * (A * B) * (?u div (B * 2) * (?u div (A * 2)))" by (rule mult_le_mono2)
  also have "\<dots> = (?u div (B * 2) * (B * 2)) * (?u div (A * 2) * (A * 2))" by (simp only: mult_ac numeral_Bit0) simp
  also have "\<dots> \<le> ?u * ?u" by (intro mult_le_mono div_times_less_eq_dividend)
  finally show "4 * (A * B) * (n * n) \<le> ?u * ?u" .
qed

text \<open>Bounds on squares add up: the square root of a sum of claims is at most the sum of the square roots.\<close>

lemma square_bounds_add:
  fixes k m n u v :: nat
  assumes "k * (m * m) \<le> u * u" and "k * (n * n) \<le> v * v"
  shows "k * ((m + n) * (m + n)) \<le> (u + v) * (u + v)"
proof -
  have "(k * (m * n)) * (k * (m * n)) = (k * (m * m)) * (k * (n * n))" by (simp add: algebra_simps)
  also have "\<dots> \<le> (u * u) * (v * v)" by (rule mult_le_mono) (fact assms)+
  also have "\<dots> = (u * v) * (u * v)" by (simp add: algebra_simps)
  finally have "k * (m * n) \<le> u * v" by (meson mult_le_mono not_le mult_strict_mono' le0)
  then show ?thesis using assms by (simp add: algebra_simps)
qed

lemma claims_bound:
  assumes law: "integer_sqrt_law D"
  shows "list_all2 (\<lambda>c n. claim_liquidity_of D c (A, B) = Inr n) cs ns
    \<Longrightarrow> 4 * (A * B) * (sum_list ns * sum_list ns)
      \<le> (sum_list (List.map fst cs) * B + sum_list (List.map snd cs) * A) * (sum_list (List.map fst cs) * B + sum_list (List.map snd cs) * A)"
proof (induction cs ns rule: list_all2_induct)
  case (Cons c cs n ns)
  obtain a b where c: "c = (a, b)" by fastforce
  have "4 * (A * B) * (n * n) \<le> (a * B + b * A) * (a * B + b * A)" by (rule claim_bound [OF law]) (use Cons.hyps c in simp)
  from square_bounds_add [OF this Cons.IH] show ?case by (simp add: c algebra_simps)
qed simp

lemma claims_fit:
  assumes law: "integer_sqrt_law D"
    and claims: "list_all2 (\<lambda>c n. claim_liquidity_of D c (A, B) = Inr n) cs ns"
    and fits: "sum_list (List.map fst cs) \<le> A" "sum_list (List.map snd cs) \<le> B"
  shows "sum_list ns \<le> dx_integer_sqrt D (A * B)"
proof (cases cs)
  case Nil
  then show ?thesis using claims by simp
next
  case (Cons c cs')
  then obtain n where "claim_liquidity_of D c (A, B) = Inr n" using claims by (auto simp: list_all2_Cons1)
  then have pos: "0 < A * B" using claim_bound(2) [OF law] by (cases c) auto
  let ?u = "sum_list (List.map fst cs) * B + sum_list (List.map snd cs) * A"
  have "?u \<le> A * B + B * A" by (intro add_mono mult_le_mono) (use fits in simp_all)
  then have u: "?u \<le> 2 * (A * B)" by (simp add: mult.commute)
  have "4 * (A * B) * (sum_list ns * sum_list ns) \<le> ?u * ?u" by (rule claims_bound [OF law claims])
  also have "\<dots> \<le> (2 * (A * B)) * (2 * (A * B))" by (intro mult_le_mono u)
  finally have "(4 * (A * B)) * (sum_list ns * sum_list ns) \<le> (4 * (A * B)) * (A * B)" by (simp add: mult_ac)
  then have "sum_list ns * sum_list ns \<le> A * B" using pos by simp
  then show ?thesis by (rule le_integer_sqrt [OF law])
qed

end
