(* ===== verification/Dex_Books.thy ===== *)
theory Dex_Books
  imports Dex_Liquidity
begin

text \<open>
  The books of a bootstrap: the contributions recorded for the accounts add up to the supply that the
  pair has accumulated, through every call of the pallet. \<open>spares m\<close> says that a successful run of \<open>m\<close>
  leaves the contributions and the status of every pair alone, except for the data of a trading pair.
\<close>

subsection \<open>Calls that do not touch a bootstrap\<close>

named_theorems spares_intros \<open>actions that leave contributions and statuses alone\<close>

fun same_phase :: "'a pair_status \<Rightarrow> 'a pair_status \<Rightarrow> bool" where
  "same_phase (Trading _) (Trading _) = True"
| "same_phase x y = (x = y)"

definition untouched :: "('a, 'c, 'x) dex \<Rightarrow> ('a, 'c, 'x) dex \<Rightarrow> bool" where
  "untouched s s' \<longleftrightarrow> BootstrapPersonalSupply s' = BootstrapPersonalSupply s \<and> BootstrapEndStatus s' = BootstrapEndStatus s
     \<and> (\<forall>pair. same_phase (PairStatuses s pair) (PairStatuses s' pair))"

definition spares :: "('a, 'c, 'x, 'r) dex_action \<Rightarrow> bool" where
  "spares m \<longleftrightarrow> (\<forall>s r s'. m s = Inr (r, s') \<longrightarrow> untouched s s')"

lemma same_phase_refl [simp]: "same_phase x x"
  by (cases x) auto

lemma same_phase_trans: "same_phase x y \<Longrightarrow> same_phase y z \<Longrightarrow> same_phase x z"
  by (cases "(x, y)" rule: same_phase.cases; cases z) auto

lemma untouched_refl [simp]: "untouched s s"
  by (simp add: untouched_def)

lemma untouched_trans: "untouched s t \<Longrightarrow> untouched t v \<Longrightarrow> untouched s v"
  unfolding untouched_def by (metis same_phase_trans)

lemma spares_sbind [spares_intros]: "spares m \<Longrightarrow> (\<And>x. spares (k x)) \<Longrightarrow> spares (sbind m k)"
  unfolding spares_def by (auto simp: rbind_Inr_iff) (blast intro: untouched_trans)

lemma spares_basic [spares_intros]:
  "spares (sret x)" "spares (sget g)" "spares (slift h)" "spares (sensure P e)" "spares (sfail e)"
  by (auto simp: spares_def rbind_Inr_iff)

lemma spares_ledger [spares_intros]: "spares (on_dex_ledger m)" "spares (dex_transfer D c a b n)" "spares (dex_deposit_event e)"
  by (auto simp: spares_def on_dex_ledger_def dex_transfer_def dex_deposit_event_def rbind_Inr_iff untouched_def)

lemma spares_smod [spares_intros]:
  "spares (smod (\<lambda>s. s\<lparr>FeeMeta := f s\<rparr>))" "spares (smod (\<lambda>s. s\<lparr>LiquidityPairs := l s\<rparr>))"
  "spares (smod (\<lambda>s. s\<lparr>BootstrapRewards := r s\<rparr>))" "spares (smod (\<lambda>s. s\<lparr>BootstrapLimits := b s\<rparr>))"
  "spares (mutate_k_last c d n)"
  by (auto simp: spares_def untouched_def mutate_k_last_def)

lemma spares_cases [spares_intros]:
  "spares m \<Longrightarrow> spares m' \<Longrightarrow> spares (if b then m else m')"
  "(\<And>x y. spares (f x y)) \<Longrightarrow> spares (case p of (x, y) \<Rightarrow> f x y)"
  "spares m \<Longrightarrow> (\<And>x. spares (g x)) \<Longrightarrow> spares (case z of None \<Rightarrow> m | Some x \<Rightarrow> g x)"
  "(\<And>x. spares (t x)) \<Longrightarrow> (\<And>x. spares (v x)) \<Longrightarrow> spares w \<Longrightarrow> spares (case st of Trading x \<Rightarrow> t x | Bootstrap x \<Rightarrow> v x | Disable \<Rightarrow> w)"
  by (auto split: prod.splits option.splits pair_status.splits)

lemma spares_mint [spares_intros]:
  "spares (mint_protocol_fee D x y c d t)" "spares (mint_fee_to_receiver D lp n t)" "spares (update_k_last D c d a)"
  "spares (mutate_lp_pairs D c d)" "spares (pair_swap D c d a m n r)" "spares (ensure_deadline n)" "spares (put_bootstrap_tables D pair rs ls)"
  unfolding mint_protocol_fee_def mint_fee_to_receiver_def update_k_last_def mutate_lp_pairs_def pair_swap_def
    ensure_deadline_def put_bootstrap_tables_def Let_def
  by (intro spares_intros)+

lemma spares_loops [spares_intros]:
  "spares (swap_loop D amounts path r)" "spares (distribute_rewards_loop D a b m n rs)"
  "spares (charge_rewards_loop D a cs t)" "spares (withdraw_rewards_loop D a t)"
proof -
  show "spares (swap_loop D amounts path r)"
    by (induction D amounts path r rule: swap_loop.induct) (auto simp: Let_def simp del: action_simps split: prod.splits if_splits intro!: spares_intros)
  show "spares (distribute_rewards_loop D a b m n rs)" by (induction rs) (auto simp del: action_simps intro!: spares_intros)
  show "spares (charge_rewards_loop D a cs t)" by (induction cs arbitrary: t) (auto simp del: action_simps intro!: spares_intros)
  show "spares (withdraw_rewards_loop D a t)" by (induction t) (auto simp del: action_simps intro!: spares_intros)
qed

text \<open>Writing back the data of a pair that is trading.\<close>

definition spares_at :: "'c \<times> 'c \<Rightarrow> ('a, 'c, 'x, 'r) dex_action \<Rightarrow> bool" where
  "spares_at pair m \<longleftrightarrow> (\<forall>s r s' p. PairStatuses s pair = Trading p \<longrightarrow> m s = Inr (r, s') \<longrightarrow> untouched s s')"

lemma spares_at_keeps: "spares m \<Longrightarrow> spares_at pair m"
  by (auto simp: spares_def spares_at_def)

lemma untouched_trading: "untouched s s' \<Longrightarrow> PairStatuses s pair = Trading p \<Longrightarrow> \<exists>q. PairStatuses s' pair = Trading q"
  unfolding untouched_def by (cases "PairStatuses s' pair"; drule conjunct2; drule conjunct2; drule spec [of _ pair]; simp)

lemma spares_at_sbind:
  assumes "spares_at pair m" "\<And>x. spares_at pair (k x)"
  shows "spares_at pair (sbind m k)"
  unfolding spares_at_def
proof (intro allI impI)
  fix s r s' p assume t: "PairStatuses s pair = Trading p" and "sbind m k s = Inr (r, s')"
  then obtain x s1 where run: "m s = Inr (x, s1)" "k x s1 = Inr (r, s')" by (auto simp: rbind_Inr_iff)
  have u: "untouched s s1" using assms(1) t run(1) by (auto simp: spares_at_def)
  obtain q where "PairStatuses s1 pair = Trading q" using untouched_trading [OF u t] by blast
  then have "untouched s1 s'" using assms(2) run(2) by (auto simp: spares_at_def)
  with u show "untouched s s'" by (rule untouched_trans)
qed

lemma spares_at_put: "spares_at pair (put_pair_status pair (Trading q))"
  by (auto simp: spares_at_def put_pair_status_def untouched_def)

lemma spares_at_cases:
  "spares_at pair m \<Longrightarrow> spares_at pair m' \<Longrightarrow> spares_at pair (if b then m else m')"
  "(\<And>x y. spares_at pair (f x y)) \<Longrightarrow> spares_at pair (case p of (x, y) \<Rightarrow> f x y)"
  by (auto split: prod.splits)

lemmas spares_at_intros = spares_at_sbind spares_at_put spares_at_cases

lemma spares_read:
  assumes "\<And>p. spares_at pair (t p)" "\<And>x. spares (v x)" "spares w"
  shows "spares (sbind (sget (\<lambda>s. PairStatuses s pair)) (\<lambda>st. case st of Trading p \<Rightarrow> t p | Bootstrap x \<Rightarrow> v x | Disable \<Rightarrow> w))"
  using assms unfolding spares_def spares_at_def by (auto split: pair_status.splits)

lemma spares_liquidity [spares_intros]:
  "spares (inner_add_liquidity D a c d w x y z)" "spares (inner_remove_liquidity D a c d x y z b)"
  unfolding inner_add_liquidity_def inner_remove_liquidity_def Let_def
  by (intro spares_read spares_at_intros spares_intros; intro spares_at_keeps spares_intros)+

lemma spares_exchange_fee [spares_intros]: "spares (set_exchange_fee w c d n)"
  unfolding set_exchange_fee_def spares_def
  by (auto simp: rbind_Inr_iff Let_def put_pair_status_def dex_deposit_event_def untouched_def split: pair_status.splits)

lemma spares_calls [spares_intros]:
  "spares (set_fee_receiver lk w r')" "spares (set_fee_point w n)"
  "spares (add_liquidity D w c d x0 x1 m0 m1 n)" "spares (remove_liquidity D lk w c d x0 m0 m1 r n)"
  "spares (swap_exact_assets_for_assets D lk w x0 m0 path r n)" "spares (swap_assets_for_exact_assets D lk w x0 m0 path r n)"
  "spares (bootstrap_charge_reward D w c d cs)" "spares (bootstrap_withdraw_reward D lk w c d r)"
  unfolding set_fee_receiver_def set_fee_point_def add_liquidity_def remove_liquidity_def
    swap_exact_assets_for_assets_def swap_assets_for_exact_assets_def inner_swap_exact_assets_for_assets_def
    inner_swap_assets_for_exact_assets_def bootstrap_charge_reward_def bootstrap_withdraw_reward_def Let_def
  by (intro spares_intros)+

subsection \<open>The books\<close>

definition personal :: "('a, 'c, 'x) dex \<Rightarrow> 'c \<times> 'c \<Rightarrow> 'a \<Rightarrow> nat \<times> nat" where
  "personal s pair who = (case BootstrapPersonalSupply s (pair, who) of None \<Rightarrow> (0, 0) | Some x \<Rightarrow> x)"

text \<open>The contributions to a pair that are on record, of each asset.\<close>

definition recorded :: "('a, 'c, 'x) dex \<Rightarrow> 'c \<times> 'c \<Rightarrow> nat \<times> nat" where
  "recorded s pair = (\<Sum>w | personal s pair w \<noteq> (0, 0). fst (personal s pair w), \<Sum>w | personal s pair w \<noteq> (0, 0). snd (personal s pair w))"

definition bootstrap_books :: "('a, 'c, 'x) dex \<Rightarrow> 'c \<times> 'c \<Rightarrow> bool" where
  "bootstrap_books s pair \<longleftrightarrow> finite {w. personal s pair w \<noteq> (0, 0)} \<and>
     (case PairStatuses s pair of
        Disable \<Rightarrow> recorded s pair = (0, 0)
      | Bootstrap param \<Rightarrow> recorded s pair = accumulated_supply param
      | Trading _ \<Rightarrow> (case BootstrapEndStatus s pair of
            Bootstrap param \<Rightarrow> fst (recorded s pair) \<le> fst (accumulated_supply param) \<and> snd (recorded s pair) \<le> snd (accumulated_supply param)
          | _ \<Rightarrow> recorded s pair = (0, 0)))"

lemma recorded_update:
  assumes fin: "finite {w. personal s pair w \<noteq> (0, 0)}" and upd: "personal s' pair = (personal s pair)(who := v)"
  shows "finite {w. personal s' pair w \<noteq> (0, 0)}"
    and "fst (recorded s' pair) + fst (personal s pair who) = fst (recorded s pair) + fst v"
    and "snd (recorded s' pair) + snd (personal s pair who) = snd (recorded s pair) + snd v"
proof -
  let ?A = "insert who {w. personal s pair w \<noteq> (0, 0)}" and ?p = "personal s pair" and ?q = "personal s' pair"
  have fA: "finite ?A" using fin by simp
  show "finite {w. ?q w \<noteq> (0, 0)}" by (rule finite_subset [OF _ fA]) (auto simp: upd)
  have mono: "sum f {w. g w \<noteq> (0, 0)} = sum f ?A" if "{w. g w \<noteq> (0, 0)} \<subseteq> ?A" "\<And>w. g w = (0, 0) \<Longrightarrow> f w = 0" for f :: "_ \<Rightarrow> nat" and g :: "_ \<Rightarrow> nat \<times> nat"
    by (rule sum.mono_neutral_left [OF fA]) (use that in auto)
  have split: "sum (\<lambda>w. h (?q w)) ?A + h (?p who) = sum (\<lambda>w. h (?p w)) ?A + h v" for h :: "nat \<times> nat \<Rightarrow> nat"
  proof -
    have "sum (\<lambda>w. h (?q w)) ?A = h v + sum (\<lambda>w. h (?q w)) (?A - {who})" using fA by (simp add: sum.remove [of ?A who] upd)
    moreover have "sum (\<lambda>w. h (?q w)) (?A - {who}) = sum (\<lambda>w. h (?p w)) (?A - {who})" by (rule sum.cong) (auto simp: upd)
    moreover have "sum (\<lambda>w. h (?p w)) ?A = h (?p who) + sum (\<lambda>w. h (?p w)) (?A - {who})" using fA by (simp add: sum.remove [of ?A who])
    ultimately show ?thesis by simp
  qed
  show "fst (recorded s' pair) + fst (?p who) = fst (recorded s pair) + fst v"
    using split [of fst] unfolding recorded_def fst_conv by (subst (1 2) mono) (auto simp: upd)
  show "snd (recorded s' pair) + snd (?p who) = snd (recorded s pair) + snd v"
    using split [of snd] unfolding recorded_def snd_conv by (subst (1 2) mono) (auto simp: upd)
qed

lemma books_cong:
  assumes "\<And>w. BootstrapPersonalSupply s' (pair, w) = BootstrapPersonalSupply s (pair, w)"
  shows "personal s' pair = personal s pair" "recorded s' pair = recorded s pair"
  using assms by (auto simp: personal_def recorded_def fun_eq_iff)

lemma books_untouched:
  assumes "untouched s s'" and "bootstrap_books s pair"
  shows "bootstrap_books s' pair"
proof -
  have p: "personal s' pair = personal s pair" "recorded s' pair = recorded s pair" and e: "BootstrapEndStatus s' = BootstrapEndStatus s"
    using assms(1) books_cong [of s' pair s] by (auto simp: untouched_def)
  have ph: "same_phase (PairStatuses s pair) (PairStatuses s' pair)" using assms(1) unfolding untouched_def by blast
  show ?thesis using assms(2) ph unfolding bootstrap_books_def p e
    by (cases "PairStatuses s pair"; cases "PairStatuses s' pair") auto
qed

lemma sparesD: "spares m \<Longrightarrow> m s = Inr (r, s') \<Longrightarrow> untouched s s'"
  by (simp add: spares_def)

lemma books_other:
  assumes "\<And>w. BootstrapPersonalSupply s' (q, w) = BootstrapPersonalSupply s (q, w)"
    and "PairStatuses s' q = PairStatuses s q" "BootstrapEndStatus s' q = BootstrapEndStatus s q"
  shows "bootstrap_books s' q = bootstrap_books s q"
  unfolding bootstrap_books_def assms(2,3) books_cong [of s' q s, OF assms(1)] ..

subsection \<open>Contributions, refunds and claims\<close>

definition same_books :: "('a, 'c, 'x) dex \<Rightarrow> ('a, 'c, 'x) dex \<Rightarrow> bool" where
  "same_books s s' \<longleftrightarrow> PairStatuses s' = PairStatuses s \<and> BootstrapPersonalSupply s' = BootstrapPersonalSupply s
     \<and> BootstrapEndStatus s' = BootstrapEndStatus s"

lemma same_books_ledger: "on_dex_ledger m s = Inr (u, s') \<Longrightarrow> same_books s s'"
  by (auto simp: on_dex_ledger_def rbind_Inr_iff same_books_def)

lemma same_books_transfer: "dex_transfer D c a b n s = Inr (u, s') \<Longrightarrow> same_books s s'"
  unfolding dex_transfer_def by (rule same_books_ledger)

lemma spares_simple:
  assumes "dex_transfer D c a b n s = Inr (u, s')"
  shows "PairStatuses s' = PairStatuses s" "BootstrapPersonalSupply s' = BootstrapPersonalSupply s" "BootstrapEndStatus s' = BootstrapEndStatus s"
  using same_books_transfer [OF assms] by (simp_all add: same_books_def)

lemma run_bootstrap [run_elims]:
  "(case st of Trading p \<Rightarrow> sfail e | Bootstrap b \<Rightarrow> f b | Disable \<Rightarrow> sfail e') s = Inr r
   \<Longrightarrow> (\<And>p. st = Bootstrap p \<Longrightarrow> f p s = Inr r \<Longrightarrow> thesis) \<Longrightarrow> thesis"
  by (cases st) auto

lemma contributeD:
  fixes D :: "('a, 'c::linorder, 'x) dex_config" and s :: "('a, 'c, 'x) dex"
  assumes "do_bootstrap_contribute D who c d x y s = Inr (u, s')"
  obtains param n0 n1 where "PairStatuses s (sort_asset_id c d) = Bootstrap param"
    and "PairStatuses s' = (PairStatuses s)(sort_asset_id c d := Bootstrap (param\<lparr>accumulated_supply :=
           (fst (accumulated_supply param) + n0, snd (accumulated_supply param) + n1)\<rparr>))"
    and "BootstrapPersonalSupply s' = (BootstrapPersonalSupply s)((sort_asset_id c d, who) := Some
           (fst (personal s (sort_asset_id c d) who) + n0, snd (personal s (sort_asset_id c d) who) + n1))"
    and "BootstrapEndStatus s' = BootstrapEndStatus s"
    and "n0 = 0 \<or> fst (accumulated_supply param) + n0 \<le> fst (capacity_supply param)"
    and "n1 = 0 \<or> snd (accumulated_supply param) + n1 \<le> snd (capacity_supply param)"
  using assms unfolding do_bootstrap_contribute_def Let_def
proof (elim run_elims, hypsubst_thin)
  fix param :: "'a bootstrap_parameter" and a0 a1 n0 n1 p0 p1 t0 t1 and s1 s2 s3 s4 :: "('a, 'c, 'x) dex" and u1 u2 u3 u4 :: unit
  let ?pair = "sort_asset_id c d" and ?acc = "accumulated_supply param" and ?cap = "capacity_supply param"
  let ?own = "case BootstrapPersonalSupply s (sort_asset_id c d, who) of None \<Rightarrow> (0, 0) | Some c \<Rightarrow> c"
  assume st: "PairStatuses s ?pair = Bootstrap param"
    and n: "cap_contribution a0 (fst ?acc) (fst ?cap) = Inr n0" "cap_contribution a1 (snd ?acc) (snd ?cap) = Inr n1"
    and own: "ok_or (checked_add_w 128 (fst ?own) n0) (dex_error Dex_Overflow) = Inr p0"
      "ok_or (checked_add_w 128 (snd ?own) n1) (dex_error Dex_Overflow) = Inr p1"
    and move: "dex_transfer D (fst ?pair) who (dx_bootstrap_account D) n0 s = Inr (u1, s1)"
      "dex_transfer D (snd ?pair) who (dx_bootstrap_account D) n1 s1 = Inr (u2, s2)"
    and t: "ok_or (checked_add_w 128 (fst ?acc) n0) (dex_error Dex_Overflow) = Inr t0"
      "ok_or (checked_add_w 128 (snd ?acc) n1) (dex_error Dex_Overflow) = Inr t1"
    and put: "put_pair_status ?pair (Bootstrap (param\<lparr>accumulated_supply := (t0, t1)\<rparr>)) s2 = Inr (u3, s3)"
    and event: "dex_deposit_event (BootstrapContribute who (fst ?pair) (snd ?pair) n0 n1) s3 = Inr (u4, s4)"
    and last: "smod (\<lambda>s. s\<lparr>BootstrapPersonalSupply := (BootstrapPersonalSupply s)((?pair, who) \<mapsto> (p0, p1))\<rparr>) s4 = Inr (u, s')"
  note same = spares_simple [OF move(1)] spares_simple [OF move(2)]
  show thesis
  proof (rule that [OF st])
    show "n0 = 0 \<or> fst ?acc + n0 \<le> fst ?cap" "n1 = 0 \<or> snd ?acc + n1 \<le> snd ?cap"
      using n by (auto simp: cap_contribution_def rbind_Inr_iff split: if_splits)
  qed (use put event last same t own in \<open>auto simp: put_pair_status_def dex_deposit_event_def personal_def\<close>)
qed

lemma books_contribute:
  assumes run: "do_bootstrap_contribute D who c d x y s = Inr (u, s')" and books: "bootstrap_books s q"
  shows "bootstrap_books s' q"
  using run
proof (rule contributeD)
  fix param n0 n1
  let ?pair = "sort_asset_id c d"
  assume eff: "PairStatuses s ?pair = Bootstrap param"
      "PairStatuses s' = (PairStatuses s)(?pair := Bootstrap (param\<lparr>accumulated_supply :=
         (fst (accumulated_supply param) + n0, snd (accumulated_supply param) + n1)\<rparr>))"
      "BootstrapPersonalSupply s' = (BootstrapPersonalSupply s)((?pair, who) := Some
         (fst (personal s ?pair who) + n0, snd (personal s ?pair who) + n1))"
      "BootstrapEndStatus s' = BootstrapEndStatus s"
  show ?thesis
  proof (cases "q = ?pair")
    case False
    then have "bootstrap_books s' q = bootstrap_books s q" by (intro books_other) (use eff in auto)
    then show ?thesis using books by simp
  next
    case True
    have upd: "personal s' ?pair = (personal s ?pair)(who := (fst (personal s ?pair who) + n0, snd (personal s ?pair who) + n1))"
      by (auto simp: personal_def eff(3) fun_eq_iff)
    have fin: "finite {w. personal s ?pair w \<noteq> (0, 0)}" and rec: "recorded s ?pair = accumulated_supply param"
      using books True eff(1) by (simp_all add: bootstrap_books_def)
    note upds = recorded_update [OF fin upd]
    have "recorded s' ?pair = (fst (accumulated_supply param) + n0, snd (accumulated_supply param) + n1)"
      by (rule prod_eqI) (use upds rec in simp_all)
    then show ?thesis using True eff(2) upds(1) by (simp add: bootstrap_books_def)
  qed
qed

text \<open>A refund or a claim strikes the contribution out.\<close>

lemma books_struck:
  assumes books: "bootstrap_books s q" and gone: "BootstrapPersonalSupply s' = (BootstrapPersonalSupply s)((pair, who) := None)"
    and e: "BootstrapEndStatus s' = BootstrapEndStatus s"
    and st: "PairStatuses s' = (case PairStatuses s pair of
        Bootstrap p \<Rightarrow> (PairStatuses s)(pair := Bootstrap (p\<lparr>accumulated_supply := (n0, n1)\<rparr>)) | _ \<Rightarrow> PairStatuses s)"
    and n: "case PairStatuses s pair of
        Bootstrap p \<Rightarrow> n0 + fst (personal s pair who) = fst (accumulated_supply p) \<and> n1 + snd (personal s pair who) = snd (accumulated_supply p)
      | _ \<Rightarrow> True"
  shows "bootstrap_books s' q"
proof (cases "q = pair")
  case False
  have "bootstrap_books s' q = bootstrap_books s q"
    by (rule books_other) (use gone e st False in \<open>auto split: pair_status.splits\<close>)
  then show ?thesis using books by simp
next
  case True
  have upd: "personal s' pair = (personal s pair)(who := (0, 0))" by (auto simp: personal_def gone fun_eq_iff)
  have fin: "finite {w. personal s pair w \<noteq> (0, 0)}" using books True by (simp add: bootstrap_books_def)
  note rec = recorded_update [OF fin upd]
  show ?thesis
  proof (cases "PairStatuses s pair")
    case (Bootstrap p)
    then have "recorded s pair = accumulated_supply p" using books True by (simp add: bootstrap_books_def)
    then have "recorded s' pair = (n0, n1)" by (intro prod_eqI) (use rec n Bootstrap in simp_all)
    then show ?thesis using Bootstrap True rec(1) st by (simp add: bootstrap_books_def)
  next
    case (Trading p)
    have down: "fst (recorded s' pair) \<le> fst (recorded s pair)" "snd (recorded s' pair) \<le> snd (recorded s pair)" using rec by simp_all
    then have "recorded s pair = (0, 0) \<Longrightarrow> recorded s' pair = (0, 0)" by (intro prod_eqI) simp_all
    then show ?thesis using Trading books True down rec(1) st e
      by (auto simp: bootstrap_books_def split: pair_status.splits intro: le_trans)
  next
    case Disable
    then have "recorded s pair = (0, 0)" using books True by (simp add: bootstrap_books_def)
    then have "recorded s' pair = (0, 0)" using rec by (intro prod_eqI) simp_all
    then show ?thesis using Disable True rec(1) st by (simp add: bootstrap_books_def)
  qed
qed

lemma same_books_distribute:
  assumes "bootstrap_distribute_reward D a b c d m n s = Inr (u, s')"
  shows "same_books s s'"
proof -
  have loop: "distribute_rewards_loop D a b m n rs s = Inr (ds, s') \<Longrightarrow> same_books s s'" for rs ds s s'
    by (induction rs arbitrary: ds s) (auto simp: rbind_Inr_iff same_books_def dest!: same_books_transfer)
  show ?thesis
    using assms unfolding bootstrap_distribute_reward_def Let_def dex_deposit_event_def
    by (auto simp: rbind_Inr_iff same_books_def split: if_splits dest!: loop)
qed

lemma claim_same:
  assumes "do_bootstrap_claim D who r c d s = Inr (u, s')"
  shows "PairStatuses s' = PairStatuses s \<and> BootstrapEndStatus s' = BootstrapEndStatus s
    \<and> BootstrapPersonalSupply s' = (BootstrapPersonalSupply s)((sort_asset_id c d, who) := None)
    \<and> (\<exists>p. PairStatuses s (sort_asset_id c d) = Trading p)"
  using assms unfolding do_bootstrap_claim_def Let_def
  by (elim run_elims, hypsubst_thin) (auto simp: dex_deposit_event_def same_books_def dest!: same_books_transfer same_books_distribute)

lemma books_claim:
  assumes run: "do_bootstrap_claim D who r c d s = Inr (u, s')" and books: "bootstrap_books s q"
  shows "bootstrap_books s' q"
  by (rule books_struck [OF books, where pair = "sort_asset_id c d" and who = who])
    (use claim_same [OF run] in \<open>auto split: pair_status.splits\<close>)

lemma refundD:
  assumes "do_bootstrap_refund D who c d s = Inr (u, s')"
  obtains n0 n1 where "BootstrapEndStatus s' = BootstrapEndStatus s"
    and "BootstrapPersonalSupply s' = (BootstrapPersonalSupply s)((sort_asset_id c d, who) := None)"
    and "PairStatuses s' = (case PairStatuses s (sort_asset_id c d) of
        Bootstrap p \<Rightarrow> (PairStatuses s)(sort_asset_id c d := Bootstrap (p\<lparr>accumulated_supply := (n0, n1)\<rparr>)) | _ \<Rightarrow> PairStatuses s)"
    and "case PairStatuses s (sort_asset_id c d) of
        Bootstrap p \<Rightarrow> n0 + fst (personal s (sort_asset_id c d) who) = fst (accumulated_supply p)
          \<and> n1 + snd (personal s (sort_asset_id c d) who) = snd (accumulated_supply p)
      | _ \<Rightarrow> True"
  using assms unfolding do_bootstrap_refund_def Let_def
proof (elim run_elims, hypsubst_thin)
  fix s1 s2 s3 s4 u1 u2 u3 u4 and contribution :: "nat \<times> nat"
  let ?pair = "sort_asset_id c d"
  assume own: "ok_or (BootstrapPersonalSupply s (?pair, who)) (dex_error Dex_ZeroContribute) = Inr contribution"
    and move: "dex_transfer D (fst ?pair) (dx_bootstrap_account D) who (fst contribution) s = Inr (u1, s1)"
      "dex_transfer D (snd ?pair) (dx_bootstrap_account D) who (snd contribution) s1 = Inr (u2, s2)"
    and st: "(case PairStatuses s2 ?pair of
         Bootstrap param \<Rightarrow>
           sbind (slift (\<lambda>_. ok_or (checked_sub (fst (accumulated_supply param)) (fst contribution)) (dex_error Dex_Overflow))) (\<lambda>supply_0.
           sbind (slift (\<lambda>_. ok_or (checked_sub (snd (accumulated_supply param)) (snd contribution)) (dex_error Dex_Overflow))) (\<lambda>supply_1.
           put_pair_status ?pair (Bootstrap (param\<lparr>accumulated_supply := (supply_0, supply_1)\<rparr>))))
       | _ \<Rightarrow> sret ()) s2 = Inr (u3, s3)"
    and event: "dex_deposit_event (BootstrapRefund (dx_bootstrap_account D) who (fst ?pair) (snd ?pair) (fst contribution) (snd contribution)) s3 = Inr (u4, s4)"
    and last: "smod (\<lambda>s. s\<lparr>BootstrapPersonalSupply := (BootstrapPersonalSupply s)((?pair, who) := None)\<rparr>) s4 = Inr (u, s')"
  have same: "same_books s s2" using same_books_transfer [OF move(1)] same_books_transfer [OF move(2)] by (simp add: same_books_def)
  show thesis
  proof (cases "PairStatuses s ?pair")
    case (Bootstrap p)
    then show thesis
      by (intro that [of "fst (accumulated_supply p) - fst contribution" "snd (accumulated_supply p) - snd contribution"])
        (use same own st event last in \<open>auto simp: same_books_def rbind_Inr_iff put_pair_status_def dex_deposit_event_def personal_def\<close>)
  qed (rule that [of 0 0]; use same own st event last in \<open>auto simp: same_books_def dex_deposit_event_def\<close>)+
qed

lemma books_refund:
  assumes run: "do_bootstrap_refund D who c d s = Inr (u, s')" and books: "bootstrap_books s q"
  shows "bootstrap_books s' q"
  using run by (rule refundD) (rule books_struck [OF books])

subsection \<open>Changes of phase\<close>

lemma books_end:
  assumes run: "do_end_bootstrap D c d s = Inr (u, s')" and books: "bootstrap_books s q"
  shows "bootstrap_books s' q"
proof -
  let ?pair = "sort_asset_id c d"
  obtain param m where st: "PairStatuses s ?pair = Bootstrap param"
    and eff: "PairStatuses s' = (PairStatuses s)(?pair := Trading m)" "BootstrapEndStatus s' = (BootstrapEndStatus s)(?pair := Bootstrap param)"
      "BootstrapPersonalSupply s' = BootstrapPersonalSupply s"
    using run unfolding do_end_bootstrap_def Let_def
    by (elim run_elims, hypsubst_thin)
      (auto simp: same_books_def put_pair_status_def dex_deposit_event_def dest!: same_books_transfer same_books_ledger)
  show ?thesis
  proof (cases "q = ?pair")
    case True
    then show ?thesis using books st eff books_cong [of s' q s] by (simp add: bootstrap_books_def)
  next
    case False
    then have "bootstrap_books s' q = bootstrap_books s q" by (intro books_other) (simp_all add: eff)
    then show ?thesis using books by simp
  qed
qed

text \<open>A new status for one pair, while its contributions stay.\<close>

lemma books_new_status:
  assumes books: "bootstrap_books s q" and same: "BootstrapPersonalSupply s' = BootstrapPersonalSupply s"
    and others: "\<And>q. q \<noteq> pair \<Longrightarrow> PairStatuses s' q = PairStatuses s q \<and> BootstrapEndStatus s' q = BootstrapEndStatus s q"
    and here: "bootstrap_books s pair \<Longrightarrow> bootstrap_books s' pair"
  shows "bootstrap_books s' q"
proof (cases "q = pair")
  case False
  then have "bootstrap_books s' q = bootstrap_books s q" by (intro books_other) (use same others in auto)
  then show ?thesis using books by simp
qed (use books here in simp)

lemma same_books_tables: "put_bootstrap_tables D pair rs ls s = Inr (u, s') \<Longrightarrow> same_books s s'"
  unfolding put_bootstrap_tables_def by (auto simp: rbind_Inr_iff same_books_def)

lemma books_create_pair:
  assumes run: "create_pair D w c d n s = Inr (u, s')" and books: "bootstrap_books s q"
  shows "bootstrap_books s' q"
proof -
  let ?pair = "sort_asset_id c d"
  obtain m where eff: "PairStatuses s' = (PairStatuses s)(?pair := Trading m)" "BootstrapPersonalSupply s' = BootstrapPersonalSupply s"
      "case PairStatuses s ?pair of Trading _ \<Rightarrow> False
       | Bootstrap p \<Rightarrow> BootstrapEndStatus s' = (BootstrapEndStatus s)(?pair := Bootstrap p)
       | Disable \<Rightarrow> BootstrapEndStatus s' = BootstrapEndStatus s"
    using run unfolding create_pair_def Let_def
    by (cases "PairStatuses s ?pair")
      (auto simp: rbind_Inr_iff put_pair_status_def dex_deposit_event_def mutate_lp_pairs_def split: if_splits)
  show ?thesis
    by (rule books_new_status [OF books eff(2), of ?pair])
      (use eff books_cong [of s' ?pair s] in \<open>auto simp: bootstrap_books_def split: pair_status.splits\<close>)
qed

lemma books_create:
  assumes run: "bootstrap_create D w c d t0 t1 k0 k1 n rs ls s = Inr (u, s')" and books: "bootstrap_books s q"
  shows "bootstrap_books s' q"
proof -
  let ?pair = "sort_asset_id c d"
  obtain b where eff: "PairStatuses s' = (PairStatuses s)(?pair := Bootstrap b)" "BootstrapPersonalSupply s' = BootstrapPersonalSupply s"
      "BootstrapEndStatus s' = BootstrapEndStatus s"
      "case PairStatuses s ?pair of Trading _ \<Rightarrow> False
       | Bootstrap p \<Rightarrow> accumulated_supply b = accumulated_supply p | Disable \<Rightarrow> accumulated_supply b = (0, 0)"
    using run unfolding bootstrap_create_def Let_def
    by (cases "PairStatuses s ?pair")
      (auto simp: rbind_Inr_iff put_pair_status_def dex_deposit_event_def same_books_def split: if_splits dest!: same_books_tables)
  show ?thesis
    by (rule books_new_status [OF books eff(2), of ?pair])
      (use eff books_cong [of s' ?pair s] in \<open>auto simp: bootstrap_books_def split: pair_status.splits\<close>)
qed

lemma books_update:
  assumes run: "bootstrap_update D w c d t0 t1 k0 k1 n rs ls s = Inr (u, s')" and books: "bootstrap_books s q"
  shows "bootstrap_books s' q"
proof -
  let ?pair = "sort_asset_id c d"
  obtain b p where eff: "PairStatuses s' = (PairStatuses s)(?pair := Bootstrap b)" "BootstrapPersonalSupply s' = BootstrapPersonalSupply s"
      "BootstrapEndStatus s' = BootstrapEndStatus s" "PairStatuses s ?pair = Bootstrap p" "accumulated_supply b = accumulated_supply p"
    using run unfolding bootstrap_update_def Let_def
    by (cases "PairStatuses s ?pair")
      (auto simp: rbind_Inr_iff put_pair_status_def dex_deposit_event_def same_books_def split: if_splits dest!: same_books_tables)
  show ?thesis
    by (rule books_new_status [OF books eff(2), of ?pair])
      (use eff books_cong [of s' ?pair s] in \<open>auto simp: bootstrap_books_def\<close>)
qed

subsection \<open>The pallet as a transition system\<close>

text \<open>
  A step is a dispatchable that succeeds, the passing of a block, or a change of the ledger by another
  pallet.
\<close>

inductive dex_step ::
  "('a, 'c::linorder, 'x) dex_config \<Rightarrow> ('l \<Rightarrow> (dispatch_error, 'a) result) \<Rightarrow> ('a, 'c, 'x) dex \<Rightarrow> ('a, 'c, 'x) dex \<Rightarrow> bool"
  for D :: "('a, 'c::linorder, 'x) dex_config" and lk :: "'l \<Rightarrow> (dispatch_error, 'a) result" where
  call_set_fee_receiver: "set_fee_receiver lk w r s = Inr (u, s') \<Longrightarrow> dex_step D lk s s'"
| call_set_fee_point: "set_fee_point w n s = Inr (u, s') \<Longrightarrow> dex_step D lk s s'"
| call_set_exchange_fee: "set_exchange_fee w c d n s = Inr (u, s') \<Longrightarrow> dex_step D lk s s'"
| call_create_pair: "create_pair D w c d n s = Inr (u, s') \<Longrightarrow> dex_step D lk s s'"
| call_add_liquidity: "add_liquidity D w c d x0 x1 m0 m1 n s = Inr (u, s') \<Longrightarrow> dex_step D lk s s'"
| call_remove_liquidity: "remove_liquidity D lk w c d x m0 m1 to n s = Inr (u, s') \<Longrightarrow> dex_step D lk s s'"
| call_swap_exact_assets_for_assets: "swap_exact_assets_for_assets D lk w x m path to n s = Inr (u, s') \<Longrightarrow> dex_step D lk s s'"
| call_swap_assets_for_exact_assets: "swap_assets_for_exact_assets D lk w x m path to n s = Inr (u, s') \<Longrightarrow> dex_step D lk s s'"
| call_bootstrap_create: "bootstrap_create D w c d t0 t1 k0 k1 n rs ls s = Inr (u, s') \<Longrightarrow> dex_step D lk s s'"
| call_bootstrap_contribute: "bootstrap_contribute D w c d x y n s = Inr (u, s') \<Longrightarrow> dex_step D lk s s'"
| call_bootstrap_claim: "bootstrap_claim D lk w to c d n s = Inr (u, s') \<Longrightarrow> dex_step D lk s s'"
| call_bootstrap_end: "bootstrap_end D w c d s = Inr (u, s') \<Longrightarrow> dex_step D lk s s'"
| call_bootstrap_update: "bootstrap_update D w c d t0 t1 k0 k1 n rs ls s = Inr (u, s') \<Longrightarrow> dex_step D lk s s'"
| call_bootstrap_refund: "bootstrap_refund D w c d s = Inr (u, s') \<Longrightarrow> dex_step D lk s s'"
| call_bootstrap_charge_reward: "bootstrap_charge_reward D w c d cs s = Inr (u, s') \<Longrightarrow> dex_step D lk s s'"
| call_bootstrap_withdraw_reward: "bootstrap_withdraw_reward D lk w c d to s = Inr (u, s') \<Longrightarrow> dex_step D lk s s'"
| next_block: "dex_step D lk s (s\<lparr>dex_block_number := Suc (dex_block_number s)\<rparr>)"
| foreign_ledger: "dex_step D lk s (s\<lparr>dex_ledger := x\<rparr>)"

lemmas books_by_untouched = spares_calls [THEN sparesD] spares_exchange_fee [THEN sparesD]

lemma step_keeps_books:
  assumes "dex_step D lk s s'" and "bootstrap_books s q"
  shows "bootstrap_books s' q"
  using assms
proof (induction rule: dex_step.induct)
  case (call_create_pair w c d n s u s')
  then show ?case by (rule books_create_pair)
next
  case (call_bootstrap_create w c d t0 t1 k0 k1 n rs ls s u s')
  then show ?case by (rule books_create)
next
  case (call_bootstrap_contribute w c d x y n s u s')
  then show ?case
    unfolding bootstrap_contribute_def ensure_deadline_def by (elim run_elims, hypsubst_thin) (rule books_contribute)
next
  case (call_bootstrap_claim w to c d n s u s')
  then show ?case
    unfolding bootstrap_claim_def ensure_deadline_def by (elim run_elims, hypsubst_thin) (rule books_claim)
next
  case (call_bootstrap_end w c d s u s')
  then show ?case
    unfolding bootstrap_end_def
    by (elim run_elims, hypsubst_thin) (rule books_end, assumption, rule books_untouched [OF spares_mint(4) [THEN sparesD]])
next
  case (call_bootstrap_update w c d t0 t1 k0 k1 n rs ls s u s')
  then show ?case by (rule books_update)
next
  case (call_bootstrap_refund w c d s u s')
  then show ?case unfolding bootstrap_refund_def by (elim run_elims, hypsubst_thin) (rule books_refund)
next
  case (next_block s)
  show ?case by (rule books_untouched [OF _ next_block]) (simp add: untouched_def)
next
  case (foreign_ledger s x)
  show ?case by (rule books_untouched [OF _ foreign_ledger]) (simp add: untouched_def)
qed (auto intro: books_untouched books_by_untouched)

end
