(* ===== verification/Dex_Samples.thy ===== *)
theory Dex_Samples
  imports Dex_Books
begin

text \<open>
  A sample exchange: accounts are users or the accounts of pairs, assets are numbers, the ledger is a
  table and the square root is computed digit by digit. Three assets are traded in two pools.
\<close>

fun isqrt :: "nat \<Rightarrow> nat" where
  "isqrt n = (if n = 0 then 0 else let m = 2 * isqrt (n div 4) in if (m + 1) * (m + 1) \<le> n then m + 1 else m)"

declare isqrt.simps [simp del]

lemma isqrt_bounds: "isqrt n * isqrt n \<le> n \<and> n < Suc (isqrt n) * Suc (isqrt n)"
proof (induction n rule: isqrt.induct)
  case (1 n)
  show ?case
  proof (cases "n = 0")
    case True
    then show ?thesis by (simp add: isqrt.simps)
  next
    case False
    define r where "r = isqrt (n div 4)"
    have "r * r \<le> n div 4 \<and> n div 4 < Suc r * Suc r" using 1 [OF False] by (simp add: r_def)
    then have "4 * (r * r) \<le> n" "n < 4 * (Suc r * Suc r)" by linarith+
    then show ?thesis
      using False by (subst (1 2 3 4) isqrt.simps) (simp add: Let_def r_def [symmetric] algebra_simps)
  qed
qed

type_synonym sample_account = "nat + nat \<times> nat"

definition sample_dex_config :: "(sample_account, nat, (sample_account, nat) table) dex_config" where
  "sample_dex_config =
     \<lparr>dx_currency = table_currency, dx_bootstrap_account = Inl 1000, dx_pair_hash_account = Inr,
      dx_validate_asset = (\<lambda>_. True), dx_generate_lp_asset_id = (\<lambda>a b. Some (100 + 10 * a + b)),
      dx_integer_sqrt = isqrt, dx_max_rewards = 2, dx_max_limits = 2\<rparr>"

lemma sample_dex_laws [simp]:
  "dex_laws sample_dex_config" "distinct_pair_accounts sample_dex_config" "integer_sqrt_law sample_dex_config"
  "Inl n \<notin> range (dx_pair_hash_account sample_dex_config)"
  using isqrt_bounds by (auto simp: sample_dex_config_def table_currency_laws distinct_pair_accounts_def integer_sqrt_law_def)

definition sample_pool :: "nat \<Rightarrow> nat \<Rightarrow> nat \<Rightarrow> sample_account pair_status" where
  "sample_pool c d n = Trading \<lparr>pm_pair_account = Inr (c, d), pm_total_supply = n, pm_fee_rate = 30\<rparr>"

definition sample_balances :: "nat \<Rightarrow> sample_account \<Rightarrow> nat" where
  "sample_balances = (\<lambda>c a. case a of
       Inr p \<Rightarrow> if p = (1, 2) \<and> c \<in> {1, 2} then 1000 else if p = (2, 3) \<and> c \<in> {2, 3} then 2000 else if p = (1, 3) \<and> c \<in> {1, 3} then 3000 else 0
     | Inl n \<Rightarrow> if n < 2 \<and> c \<in> {1, 2, 3} then 5000 else if n = 1 \<and> c = 112 then 1000 else 0)"

definition sample_dex :: "(sample_account, nat, (sample_account, nat) table) dex" where
  "sample_dex =
     \<lparr>KLast = (\<lambda>_. 0), FeeMeta = (None, 5),
      LiquidityPairs = (\<lambda>(c, d). Some (100 + 10 * c + d)),
      PairStatuses = (\<lambda>p. if p = (1, 2) then sample_pool 1 2 1000 else if p = (2, 3) then sample_pool 2 3 2000
        else if p = (1, 3) then sample_pool 1 3 3000 else Disable),
      BootstrapPersonalSupply = (\<lambda>_. None), BootstrapEndStatus = (\<lambda>_. Disable),
      BootstrapRewards = (\<lambda>_. []), BootstrapLimits = (\<lambda>_. []), dex_events = [], dex_block_number = 7,
      dex_ledger = (sample_balances, \<lambda>_. 0)\<rparr>"

definition after :: "('s, 'e, 'r) action \<Rightarrow> 's \<Rightarrow> 's" where
  "after m s = (case m s of Inl _ \<Rightarrow> s | Inr (_, s') \<Rightarrow> s')"

lemma after_run:
  fixes m :: "('s, 'e, unit) action"
  assumes "is_ok (m s)"
  shows "m s = Inr ((), after m s)"
  using assms by (auto simp: is_ok_iff after_def split: prod.splits)

abbreviation sample_lookup :: "sample_account \<Rightarrow> (dispatch_error, sample_account) result" where
  "sample_lookup \<equiv> Inr"

lemmas dex_eval = Let_def rensure_def checked_mul_w_def checked_add_w_def checked_sub_def checked_div_def to_balance_def
  unwrap_or_zero_def dex_transfer_def on_dex_ledger_def dex_balance_def pair_account_id_def sort_asset_id_def
  get_amount_in_def get_amount_out_def get_amount_in_by_path_def get_amount_out_by_path_def check_k_def pair_fee_rate_def
  pair_swap_def inner_swap_exact_assets_for_assets_def inner_swap_assets_for_exact_assets_def
  swap_exact_assets_for_assets_def swap_assets_for_exact_assets_def ensure_deadline_def
  dex_deposit_event_def put_pair_status_def FEE_ADJUSTMENT_def DEFAULT_FEE_RATE_def

lemmas sample_eval = sample_dex_config_def sample_dex_def sample_pool_def sample_balances_def table_currency_def

lemma sample_swap_ok: "is_ok (swap_exact_assets_for_assets sample_dex_config sample_lookup (SignedOrigin (Inl 0)) 100 50 [1, 2, 3] (Inl 1) 9 sample_dex)"
  by (simp add: dex_eval sample_eval)

end
