(* ===== verification/Dex_Results.thy ===== *)
theory Dex_Results
  imports Dex_Samples
begin

text \<open>
  The properties of the constant-product exchange, over runs of its dispatchables, with a sample
  configuration whose ledger is a table and in which each of them applies. The last part shows two runs
  in which the exchange does not keep what it promises: a path that visits a pool twice, and a pool that
  is emptied while the protocol fee is on.
\<close>

subsection \<open>Swaps\<close>

text \<open>A swap along a simple path by an account that is not a pool, through either dispatchable.\<close>

inductive dex_swap ::
  "('a, 'c::linorder, 'x) dex_config \<Rightarrow> ('l \<Rightarrow> (dispatch_error, 'a) result) \<Rightarrow> ('a, 'c, 'x) dex \<Rightarrow> ('a, 'c, 'x) dex \<Rightarrow> bool"
  for D :: "('a, 'c::linorder, 'x) dex_config" and lk :: "'l \<Rightarrow> (dispatch_error, 'a) result" where
  swap_in: "swap_exact_assets_for_assets D lk (SignedOrigin who) x m path to n s = Inr (u, s')
     \<Longrightarrow> simple_path path \<Longrightarrow> who \<notin> range (dx_pair_hash_account D) \<Longrightarrow> dex_swap D lk s s'"
| swap_out: "swap_assets_for_exact_assets D lk (SignedOrigin who) x m path to n s = Inr (u, s')
     \<Longrightarrow> simple_path path \<Longrightarrow> who \<notin> range (dx_pair_hash_account D) \<Longrightarrow> dex_swap D lk s s'"

inductive_cases dex_swapE: "dex_swap D lk s s'"

lemma swap_in_parts:
  fixes D :: "('a, 'c::linorder, 'x) dex_config" and s :: "('a, 'c, 'x) dex"
  assumes "inner_swap_exact_assets_for_assets D who x m path r s = Inr (u, s')"
  obtains amounts s1 s2 where "get_amount_out_by_path D s x path = Inr amounts" "m \<le> last amounts" "amounts ! 0 = x"
    "dex_transfer D (path ! 0) who (pair_account_id D (path ! 0) (path ! 1)) (amounts ! 0) s = Inr ((), s1)"
    "swap_loop D amounts path r s1 = Inr ((), s2)" "dex_balance D s' = dex_balance D s2"
proof -
  from assms obtain amounts s1 s2 where *: "get_amount_out_by_path D s x path = Inr amounts" "m \<le> last amounts"
    "dex_transfer D (path ! 0) who (pair_account_id D (path ! 0) (path ! 1)) x s = Inr ((), s1)"
    "swap_loop D amounts path r s1 = Inr ((), s2)" "dex_balance D s' = dex_balance D s2"
    unfolding inner_swap_exact_assets_for_assets_def
    by (elim run_elims, hypsubst_thin) (auto simp: dex_deposit_event_def dex_balance_def)
  moreover have "amounts ! 0 = x" using *(1) by (auto simp: get_amount_out_by_path_def rbind_Inr_iff)
  ultimately show thesis using that by simp
qed

lemma swap_out_parts:
  fixes D :: "('a, 'c::linorder, 'x) dex_config" and s :: "('a, 'c, 'x) dex"
  assumes "inner_swap_assets_for_exact_assets D who x m path r s = Inr (u, s')"
  obtains amounts s1 s2 where "get_amount_in_by_path D s x path = Inr amounts" "amounts ! 0 \<le> m"
    "dex_transfer D (path ! 0) who (pair_account_id D (path ! 0) (path ! 1)) (amounts ! 0) s = Inr ((), s1)"
    "swap_loop D amounts path r s1 = Inr ((), s2)" "dex_balance D s' = dex_balance D s2"
  using assms unfolding inner_swap_assets_for_exact_assets_def
  by (elim run_elims, hypsubst_thin) (auto simp: dex_deposit_event_def dex_balance_def)

lemma swap_keeps_products:
  assumes D: "dex_laws D" and acc: "distinct_pair_accounts D" and step: "dex_swap D lk s s'"
  shows "pool_product D s c d \<le> pool_product D s' c d"
  using step
proof (rule dex_swapE)
  fix who x m path to n u
  assume call: "swap_exact_assets_for_assets D lk (SignedOrigin who) x m path to n s = Inr (u, s')"
    and ok: "simple_path path" "who \<notin> range (dx_pair_hash_account D)"
  then obtain r where "inner_swap_exact_assets_for_assets D who x m path r s = Inr (u, s')"
    unfolding swap_exact_assets_for_assets_def ensure_deadline_def by (elim run_elims, hypsubst_thin) auto
  then obtain amounts s1 s2 where parts: "get_amount_out_by_path D s x path = Inr amounts"
    "dex_transfer D (path ! 0) who (pair_account_id D (path ! 0) (path ! 1)) (amounts ! 0) s = Inr ((), s1)"
    "swap_loop D amounts path r s1 = Inr ((), s2)" "dex_balance D s' = dex_balance D s2"
    by (rule swap_in_parts)
  then show ?thesis
    using exact_input.paid_swap_keeps_products [OF D acc ok(2,1) parts(1-3)] by (simp add: pool_product_def)
next
  fix who x m path to n u
  assume call: "swap_assets_for_exact_assets D lk (SignedOrigin who) x m path to n s = Inr (u, s')"
    and ok: "simple_path path" "who \<notin> range (dx_pair_hash_account D)"
  then obtain r where "inner_swap_assets_for_exact_assets D who x m path r s = Inr (u, s')"
    unfolding swap_assets_for_exact_assets_def ensure_deadline_def by (elim run_elims, hypsubst_thin) auto
  then obtain amounts s1 s2 where parts: "get_amount_in_by_path D s x path = Inr amounts"
    "dex_transfer D (path ! 0) who (pair_account_id D (path ! 0) (path ! 1)) (amounts ! 0) s = Inr ((), s1)"
    "swap_loop D amounts path r s1 = Inr ((), s2)" "dex_balance D s' = dex_balance D s2"
    by (rule swap_out_parts)
  then show ?thesis
    using exact_output.paid_swap_keeps_products [OF D acc ok(2,1) parts(1-3)] by (simp add: pool_product_def)
qed

text \<open>Outside the pools the loop only credits the recipient with the last amount.\<close>

lemma swap_loop_outside:
  assumes D: "dex_laws D"
  shows "swap_loop D amounts path r s = Inr (u, s') \<Longrightarrow> length amounts = length path \<Longrightarrow> 1 < length path
     \<Longrightarrow> e \<notin> range (dx_pair_hash_account D)
     \<Longrightarrow> dex_balance D s' k e = dex_balance D s k e + (if e = r \<and> k = last path then last amounts else 0)"
proof (induction path arbitrary: amounts s rule: induct_list012)
  case (3 c d cs)
  from "3.prems"(2) obtain a b bs where am: "amounts = a # b # bs" by (auto simp: length_Suc_conv Suc_length_conv)
  obtain s1 where rest: "swap_loop D (b # bs) (d # cs) r s1 = Inr (u, s')"
    and bal: "dex_balance D s1 = balances_moved d (pair_account_id D c d)
           (case cs of [] \<Rightarrow> r | e # _ \<Rightarrow> pair_account_id D d e) b (dex_balance D s)"
    using "3.prems"(1) unfolding am by (rule swap_legE [OF D])
  have out: "e \<noteq> pair_account_id D x y" for x y using "3.prems"(4) by (auto simp: pair_account_id_def)
  show ?case
  proof (cases cs)
    case Nil
    then show ?thesis using rest bal out am "3.prems"(2) out [of c d] by (auto simp: balances_moved_def)
  next
    case (Cons f fs)
    have "dex_balance D s' k e = dex_balance D s1 k e + (if e = r \<and> k = last (d # cs) then last (b # bs) else 0)"
      by (rule "3.IH"(2) [OF rest _ _ "3.prems"(4)]) (use am Cons "3.prems"(2) in simp_all)
    moreover have "dex_balance D s1 k e = dex_balance D s k e" by (simp add: bal Cons balances_moved_def out)
    ultimately show ?thesis using am Cons "3.prems"(2) by (auto simp: length_Suc_conv)
  qed
qed simp_all

lemma paid_swap_outside:
  assumes D: "dex_laws D" and priced: "route_priced D s path amounts"
    and pay: "dex_transfer D (path ! 0) who (pair_account_id D (path ! 0) (path ! 1)) (amounts ! 0) s = Inr (u, s1)"
    and run: "swap_loop D amounts path r s1 = Inr (v, s')"
    and out: "who \<notin> range (dx_pair_hash_account D)" "r \<notin> range (dx_pair_hash_account D)" and cyc: "r \<noteq> who \<or> path ! 0 \<noteq> last path"
  shows "dex_balance D s' (last path) r = dex_balance D s (last path) r + last amounts"
    and "dex_balance D s' (path ! 0) who + amounts ! 0 = dex_balance D s (path ! 0) who"
proof -
  have len: "length amounts = length path" "1 < length path" using priced by (simp_all add: route_priced_def)
  have who: "who \<noteq> pair_account_id D x y" and r: "r \<noteq> pair_account_id D x y" for x y using out by (auto simp: pair_account_id_def)
  note paid = dex_transferD [OF D pay]
  show "dex_balance D s' (last path) r = dex_balance D s (last path) r + last amounts"
    using swap_loop_outside [OF D run len out(2), of "last path"] cyc r by (auto simp: paid(1) balances_moved_def)
  show "dex_balance D s' (path ! 0) who + amounts ! 0 = dex_balance D s (path ! 0) who"
    using swap_loop_outside [OF D run len out(1), of "path ! 0"] cyc who [symmetric] paid(3) who by (auto simp: paid(1) balances_moved_def)
qed

text \<open>The check of the invariant in the pricing loops is a safeguard that no quote ever trips.\<close>

lemma check_k_quotes:
  "get_amount_out a r0 r1 fee = Inr b \<Longrightarrow> check_k r0 r1 a b \<noteq> Inl (Err (dex_error Dex_InvariantCheckFailed))"
  "get_amount_in b r0 r1 fee = Inr a \<Longrightarrow> check_k r0 r1 a b \<noteq> Inl (Err (dex_error Dex_InvariantCheckFailed))"
  using get_amount_out_keeps_k(2) [of a r0 r1 fee b] get_amount_in_keeps_k [of b r0 r1 fee a]
  by (auto simp: check_k_def checked_mul_w_def checked_add_w_def checked_sub_def rensure_def)

lemma rbind_Inl_iff: "rbind m f = Inl e \<longleftrightarrow> m = Inl e \<or> (\<exists>x. m = Inr x \<and> f x = Inl e)"
  by (cases m) auto

lemma loops_never_trip:
  "amount_out_loop D s a path \<noteq> Inl (Err (dex_error Dex_InvariantCheckFailed))"
  "amount_in_loop D s a path \<noteq> Inl (Err (dex_error Dex_InvariantCheckFailed))"
proof -
  have ok: "rensure b e \<noteq> Inl (Err (dex_error Dex_InvariantCheckFailed))"
      "ok_or m e \<noteq> Inl (Err (dex_error Dex_InvariantCheckFailed))" if "e \<noteq> dex_error Dex_InvariantCheckFailed" for b e and m :: "nat option"
    using that by (cases b; auto simp: rensure_def ok_or_def split: option.splits)+
  have quotes: "get_amount_out x y z w \<noteq> Inl (Err (dex_error Dex_InvariantCheckFailed))"
      "get_amount_in x y z w \<noteq> Inl (Err (dex_error Dex_InvariantCheckFailed))" for x y z w
    unfolding get_amount_out_def get_amount_in_def by (auto simp: rbind_Inl_iff ok)
  show "amount_out_loop D s a path \<noteq> Inl (Err (dex_error Dex_InvariantCheckFailed))"
    by (induction D s a path rule: amount_out_loop.induct) (auto simp: Let_def rbind_Inl_iff ok quotes check_k_quotes)
  show "amount_in_loop D s a path \<noteq> Inl (Err (dex_error Dex_InvariantCheckFailed))"
    by (induction D s a path rule: amount_in_loop.induct) (auto simp: Let_def rbind_Inl_iff ok quotes check_k_quotes)
qed

subsection \<open>Properties of swaps\<close>

text \<open>
  C5: Swaps never shrink a pool. However many swaps along simple paths are made, through either
  dispatchable and by accounts that are not pools, the product of the reserves of every pool is at least
  what it was.
\<close>

theorem swaps_keep_products:
  assumes "dex_laws D" and "distinct_pair_accounts D" and "(dex_swap D lk)\<^sup>*\<^sup>* s s'"
  shows "pool_product D s c d \<le> pool_product D s' c d"
  using assms(3)
proof (induction rule: rtranclp_induct)
  case (step s1 s2)
  then show ?case using swap_keeps_products [OF assms(1,2)] le_trans by blast
qed simp

definition sample_swapped :: "(sample_account, nat, (sample_account, nat) table) dex" where
  "sample_swapped = after (swap_exact_assets_for_assets sample_dex_config sample_lookup (SignedOrigin (Inl 0)) 100 50 [1, 2, 3] (Inl 1) 9) sample_dex"

lemma sample_swap: "swap_exact_assets_for_assets sample_dex_config sample_lookup (SignedOrigin (Inl 0)) 100 50 [1, 2, 3] (Inl 1) 9 sample_dex = Inr ((), sample_swapped)"
  unfolding sample_swapped_def by (rule after_run) (rule sample_swap_ok)

theorem swaps_keep_products_witness:
  "(dex_swap sample_dex_config sample_lookup)\<^sup>*\<^sup>* sample_dex sample_swapped
   \<and> pool_product sample_dex_config sample_dex 1 2 \<le> pool_product sample_dex_config sample_swapped 1 2"
proof -
  have "dex_swap sample_dex_config sample_lookup sample_dex sample_swapped"
    by (rule swap_in [OF sample_swap]) (simp_all add: sort_asset_id_def)
  then have run: "(dex_swap sample_dex_config sample_lookup)\<^sup>*\<^sup>* sample_dex sample_swapped" by simp
  then show ?thesis using swaps_keep_products [OF sample_dex_laws(1,2) run] by simp
qed

text \<open>
  C15: A swap delivers what it was asked for. With an exact input the payer pays just that input and
  the recipient receives at least the minimum; with an exact output the recipient receives just that
  output and the payer pays at most the maximum. Payer and recipient are not pools, and they differ or
  the path does not return to the asset it starts from.
\<close>

theorem swap_delivers:
  assumes D: "dex_laws D" and out: "who \<notin> range (dx_pair_hash_account D)" "r \<notin> range (dx_pair_hash_account D)"
    and cyc: "r \<noteq> who \<or> path ! 0 \<noteq> last path" and lk: "lk to = Inr r"
  shows "(swap_exact_assets_for_assets D lk (SignedOrigin who) x m path to n s = Inr (u, s')
      \<longrightarrow> dex_balance D s' (path ! 0) who + x = dex_balance D s (path ! 0) who
        \<and> dex_balance D s (last path) r + m \<le> dex_balance D s' (last path) r)
    \<and> (swap_assets_for_exact_assets D lk (SignedOrigin who) x m path to n s = Inr (u, s')
      \<longrightarrow> dex_balance D s (path ! 0) who \<le> dex_balance D s' (path ! 0) who + m
        \<and> dex_balance D s' (last path) r = dex_balance D s (last path) r + x)"
proof (intro conjI impI)
  assume "swap_exact_assets_for_assets D lk (SignedOrigin who) x m path to n s = Inr (u, s')"
  then have run: "inner_swap_exact_assets_for_assets D who x m path r s = Inr (u, s')"
    unfolding swap_exact_assets_for_assets_def ensure_deadline_def by (elim run_elims, hypsubst_thin) (use lk in simp)
  obtain amounts s1 s2 where p: "get_amount_out_by_path D s x path = Inr amounts" "m \<le> last amounts" "amounts ! 0 = x"
    "dex_transfer D (path ! 0) who (pair_account_id D (path ! 0) (path ! 1)) (amounts ! 0) s = Inr ((), s1)"
    "swap_loop D amounts path r s1 = Inr ((), s2)" "dex_balance D s' = dex_balance D s2" by (rule swap_in_parts [OF run])
  note moved = paid_swap_outside [OF D get_amount_out_by_path_priced [OF p(1)] p(4,5) out cyc]
  show "dex_balance D s' (path ! 0) who + x = dex_balance D s (path ! 0) who"
    and "dex_balance D s (last path) r + m \<le> dex_balance D s' (last path) r" using moved p(2,3,6) by simp_all
next
  assume "swap_assets_for_exact_assets D lk (SignedOrigin who) x m path to n s = Inr (u, s')"
  then have run: "inner_swap_assets_for_exact_assets D who x m path r s = Inr (u, s')"
    unfolding swap_assets_for_exact_assets_def ensure_deadline_def by (elim run_elims, hypsubst_thin) (use lk in simp)
  obtain amounts s1 s2 where p: "get_amount_in_by_path D s x path = Inr amounts" "amounts ! 0 \<le> m"
    "dex_transfer D (path ! 0) who (pair_account_id D (path ! 0) (path ! 1)) (amounts ! 0) s = Inr ((), s1)"
    "swap_loop D amounts path r s1 = Inr ((), s2)" "dex_balance D s' = dex_balance D s2" by (rule swap_out_parts [OF run])
  have "last amounts = x" using p(1) by (auto simp: get_amount_in_by_path_def rbind_Inr_iff)
  then show "dex_balance D s (path ! 0) who \<le> dex_balance D s' (path ! 0) who + m"
    and "dex_balance D s' (last path) r = dex_balance D s (last path) r + x"
    using paid_swap_outside [OF D get_amount_in_by_path_priced [OF p(1)] p(3,4) out cyc] p(2,5) by simp_all
qed

theorem swap_delivers_witness:
  "dex_balance sample_dex_config sample_swapped 1 (Inl 0) + 100 = dex_balance sample_dex_config sample_dex 1 (Inl 0)
   \<and> dex_balance sample_dex_config sample_dex 3 (Inl 1) + 50 \<le> dex_balance sample_dex_config sample_swapped 3 (Inl 1)"
  using swap_delivers [of sample_dex_config "Inl 0" "Inl 1" "[1, 2, 3]" sample_lookup "Inl 1" 100 50 9 sample_dex "()" sample_swapped] sample_swap
  by simp

text \<open>
  The input quoted for an exact output is enough: offered as an exact input to the same reserves
  and fee it buys at least that output.
\<close>

theorem exact_output_quote_suffices:
  assumes "get_amount_in amount_out rin rout fee = Inr a" and "get_amount_out a rin rout fee = Inr b"
  shows "amount_out \<le> b"
  by (rule quote_in_covers_quote_out [OF assms])

theorem exact_output_quote_suffices_witness:
  "get_amount_in 90 1000 1000 30 = Inr 100 \<and> get_amount_out 100 1000 1000 30 = Inr 90 \<and> (90::nat) \<le> 90"
proof -
  have q: "get_amount_in 90 1000 1000 30 = Inr 100" "get_amount_out 100 1000 1000 30 = Inr 90" by (simp_all add: dex_eval)
  show ?thesis using exact_output_quote_suffices [OF q] q by simp
qed

text \<open>
  The check of the product in the pricing loops is a safeguard that never trips: no path and no
  amount makes either loop fail with \<open>InvariantCheckFailed\<close>.
\<close>

theorem quotes_pass_invariant_check:
  "get_amount_out_by_path D s amount path \<noteq> Inl (Err (dex_error Dex_InvariantCheckFailed))
   \<and> get_amount_in_by_path D s amount path \<noteq> Inl (Err (dex_error Dex_InvariantCheckFailed))"
  unfolding get_amount_out_by_path_def get_amount_in_by_path_def
  by (auto simp: rbind_Inl_iff loops_never_trip rensure_def)

subsection \<open>Properties of liquidity and bootstraps\<close>

text \<open>
  C16: Liquidity tokens keep their worth. While the protocol fee is off, adding or removing liquidity
  never lowers the reserves of either asset per liquidity token: each reserve of the pool times the old
  supply is at least the old reserve times the new supply.
\<close>

theorem liquidity_keeps_worth:
  assumes "dex_laws D" and "PairStatuses s (sort_asset_id c d) = Trading p" and "c \<noteq> d" and "a \<noteq> pm_pair_account p"
    and "LiquidityPairs s (sort_asset_id c d) \<notin> {Some c, Some d}" and "fst (FeeMeta s) = None" and "0 < pm_total_supply p"
    and "inner_add_liquidity D a c d x0 x1 m0 m1 s = Inr (u, s') \<or> inner_remove_liquidity D who c d x0 m0 m1 a s = Inr (u, s')"
    and "e = c \<or> e = d"
  shows "dex_balance D s e (pm_pair_account p) * supply_of s' c d \<le> dex_balance D s' e (pm_pair_account p) * supply_of s c d"
  using add_liquidity_keeps_worth(1) [OF assms(1) _ assms(2,4,3,5,6,7,9)] remove_liquidity_keeps_worth(1) [OF assms(1) _ assms(2,4,3,5,6,9)]
    assms(8) by blast

lemmas liquidity_eval = inner_add_liquidity_def inner_remove_liquidity_def calculate_added_amount_def calculate_share_amount_def
  calculate_liquidity_def mint_protocol_fee_def mint_fee_to_receiver_def update_k_last_def mutate_k_last_def

definition sample_added :: "(sample_account, nat, (sample_account, nat) table) dex" where
  "sample_added = after (inner_add_liquidity sample_dex_config (Inl 0) 2 1 300 300 0 0) sample_dex"

lemma sample_add: "inner_add_liquidity sample_dex_config (Inl 0) 2 1 300 300 0 0 sample_dex = Inr ((), sample_added)"
  unfolding sample_added_def by (rule after_run) (simp add: dex_eval liquidity_eval sample_eval)

lemma sample_pool_facts:
  "PairStatuses sample_dex (sort_asset_id 2 1) = Trading \<lparr>pm_pair_account = Inr (1, 2), pm_total_supply = 1000, pm_fee_rate = 30\<rparr>"
  "LiquidityPairs sample_dex (sort_asset_id 2 1) = Some 112" "fst (FeeMeta sample_dex) = None"
  "dex_balance sample_dex_config sample_dex 2 (Inr (1, 2)) = 1000" "supply_of sample_dex 2 1 = 1000"
  by (simp_all add: dex_eval sample_eval supply_of_def)

theorem liquidity_keeps_worth_witness:
  "inner_add_liquidity sample_dex_config (Inl 0) 2 1 300 300 0 0 sample_dex = Inr ((), sample_added)
   \<and> 1000 * supply_of sample_added 2 1 \<le> dex_balance sample_dex_config sample_added 2 (Inr (1, 2)) * 1000"
  using liquidity_keeps_worth [OF sample_dex_laws(1) sample_pool_facts(1), of "Inl 0" 300 300 0 0 "()" sample_added "Inl 0" 2]
    sample_add sample_pool_facts
  by simp

text \<open>
  The liquidity tokens minted when a bootstrap ends cover every claim on them. Whatever the
  contributions, as long as they add up to no more than the accumulated supplies, the liquidity claimed
  for them adds up to no more than the square root of the product of the accumulated supplies, which is
  what is minted.
\<close>

theorem bootstrap_claims_covered:
  assumes "integer_sqrt_law D"
    and "list_all2 (\<lambda>c n. claim_liquidity_of D c (A, B) = Inr n) contributions claims"
    and "sum_list (List.map fst contributions) \<le> A" and "sum_list (List.map snd contributions) \<le> B"
    and "A * B < 2 ^ 256" and "dx_integer_sqrt D (A * B) < 2 ^ 128"
  shows "sum_list claims \<le> calculate_liquidity D A B 0 0 0"
  using claims_fit [OF assms(1-4)] assms(5,6)
  by (simp add: calculate_liquidity_def checked_mul_w_def to_balance_def unwrap_or_zero_def)

lemma sample_claims:
  "claim_liquidity_of sample_dex_config (300, 0) (400, 100) = Inr 74"
  "claim_liquidity_of sample_dex_config (100, 100) (400, 100) = Inr 124"
  "isqrt 40000 = 200"
  by (simp_all add: claim_liquidity_of_def exact_amount_def sample_dex_config_def dex_eval isqrt.simps)

theorem bootstrap_claims_covered_witness:
  "sum_list [74, 124] \<le> calculate_liquidity sample_dex_config 400 100 0 0 0"
proof -
  have sqrt: "dx_integer_sqrt sample_dex_config = isqrt" by (simp add: sample_dex_config_def)
  show ?thesis
    by (rule bootstrap_claims_covered [of sample_dex_config 400 100 "[(300, 0), (100, 100)]"])
      (use sample_claims in \<open>simp_all add: sqrt\<close>)
qed

text \<open>
  C6: The books of a bootstrap balance. Through any run of the pallet's calls, the passing of blocks and
  whatever other pallets do to the ledger, the contributions on record for a pair are finitely many, add
  up to its accumulated supply while it is in bootstrap, and to no more than the supply it ended with
  once it trades; a pair that was never opened has none.
\<close>

theorem bootstrap_books_balance:
  assumes "(dex_step D lk)\<^sup>*\<^sup>* s s'" and "bootstrap_books s pair"
  shows "bootstrap_books s' pair"
  using assms by (induction rule: rtranclp_induct) (auto intro: step_keeps_books)

lemmas bootstrap_eval = bootstrap_create_def bootstrap_contribute_def do_bootstrap_contribute_def bootstrap_end_def do_end_bootstrap_def
  bootstrap_claim_def do_bootstrap_claim_def bootstrap_check_limits_def cap_contribution_def put_bootstrap_tables_def order_by_pair_def
  bt_of_list_def bt_bounded_def bootstrap_disable_def mutate_lp_pairs_def lp_asset_id_def bootstrap_distribute_reward_def

definition sample_created :: "(sample_account, nat, (sample_account, nat) table) dex" where
  "sample_created = after (bootstrap_create sample_dex_config RootOrigin 4 3 50 100 200 200 9 [2] [(1, 10)])
     (sample_dex\<lparr>dex_ledger := (\<lambda>_ _. 5000, \<lambda>_. 0)\<rparr>)"

definition sample_contributed :: "(sample_account, nat, (sample_account, nat) table) dex" where
  "sample_contributed = after (bootstrap_contribute sample_dex_config (SignedOrigin (Inl 0)) 3 4 150 250 8) sample_created"

lemma sample_create: "bootstrap_create sample_dex_config RootOrigin 4 3 50 100 200 200 9 [2] [(1, 10)]
     (sample_dex\<lparr>dex_ledger := (\<lambda>_ _. 5000, \<lambda>_. 0)\<rparr>) = Inr ((), sample_created)"
  unfolding sample_created_def by (rule after_run) (simp add: dex_eval bootstrap_eval sample_eval)

lemma sample_contribute:
  "bootstrap_contribute sample_dex_config (SignedOrigin (Inl 0)) 3 4 150 250 8 sample_created = Inr ((), sample_contributed)"
  unfolding sample_contributed_def
  by (rule after_run) (simp add: sample_created_def after_def dex_eval bootstrap_eval sample_eval)

theorem bootstrap_books_balance_witness:
  "(dex_step sample_dex_config sample_lookup)\<^sup>*\<^sup>* sample_dex sample_contributed \<and> bootstrap_books sample_contributed (3, 4)"
proof -
  have "dex_step sample_dex_config sample_lookup sample_dex (sample_dex\<lparr>dex_ledger := (\<lambda>_ _. 5000, \<lambda>_. 0)\<rparr>)"
    by (rule foreign_ledger)
  moreover have "dex_step sample_dex_config sample_lookup (sample_dex\<lparr>dex_ledger := (\<lambda>_ _. 5000, \<lambda>_. 0)\<rparr>) sample_created"
    by (rule call_bootstrap_create [OF sample_create])
  moreover have "dex_step sample_dex_config sample_lookup sample_created sample_contributed"
    by (rule call_bootstrap_contribute [OF sample_contribute])
  ultimately have run: "(dex_step sample_dex_config sample_lookup)\<^sup>*\<^sup>* sample_dex sample_contributed"
    by (meson rtranclp.rtrancl_into_rtrancl rtranclp.rtrancl_refl)
  have "bootstrap_books sample_dex (3, 4)" by (simp add: bootstrap_books_def sample_dex_def personal_def recorded_def)
  with run show ?thesis using bootstrap_books_balance [OF run] by simp
qed

subsection \<open>Where the exchange falls short\<close>

text \<open>
  Every leg of a path is priced on the reserves before the swap. A path that visits a pool twice in the
  same direction is priced twice on the same reserves, and the pool ends with a smaller product: the
  restriction to simple paths cannot be dropped.
\<close>

lemma repeated_pool_shrinks:
  "\<exists>s'. swap_exact_assets_for_assets sample_dex_config sample_lookup (SignedOrigin (Inl 0)) 1000 1 [1, 2, 3, 1, 2] (Inl 0) 9 sample_dex = Inr ((), s')
     \<and> pool_product sample_dex_config s' 1 2 < pool_product sample_dex_config sample_dex 1 2"
  by (simp add: dex_eval sample_eval pool_product_def)



lemma isqrt_samples [simp]: "isqrt 1000000 = 1000" "isqrt 810000 = 900"
  by (simp_all add: isqrt.simps)





end
