(* ===== verification/Stable_Pool.thy ===== *)
theory Stable_Pool
  imports Multi_Currency
begin

text \<open>
  The stable exchange (\<^verbatim>\<open>src/crates/dex-stable/src\<close>): its pools and storage (\<^verbatim>\<open>primitives.rs\<close>, \<^verbatim>\<open>lib.rs\<close>)
  and the numerics of the stable-swap invariant (\<^verbatim>\<open>utils.rs\<close>).

  A function that returns an \<^verbatim>\<open>Option\<close> is a computation with the error \<open>()\<close>, so that a panic of an index
  and a recursion that is cut off stay apart from \<^verbatim>\<open>None\<close>. The loops over the vectors of a pool recurse on
  the lists; all vectors of a pool have one entry per currency, and a loop that runs off a vector panics.
  The ledger, the identifiers of liquidity tokens and the accounts of pools are parameters.
\<close>

subsection \<open>Constants\<close>

definition FEE_DENOMINATOR :: nat where "FEE_DENOMINATOR = 10000000000"
definition POOL_LP_CURRENCY_ID_DECIMAL :: nat where "POOL_LP_CURRENCY_ID_DECIMAL = 18"
definition BASE_VIRTUAL_PRICE_PRECISION :: nat where "BASE_VIRTUAL_PRICE_PRECISION = 1000000000000000000"
definition A_PRECISION :: nat where "A_PRECISION = 100"
definition MAX_ITERATION :: nat where "MAX_ITERATION = 255"
definition POOL_TOKEN_COMMON_DECIMALS :: nat where "POOL_TOKEN_COMMON_DECIMALS = 18"
definition DAY :: nat where "DAY = 86400"
definition MIN_RAMP_TIME :: nat where "MIN_RAMP_TIME = DAY"
definition MINUTE :: nat where "MINUTE = 3600"
definition BASE_CACHE_EXPIRE_TIME :: nat where "BASE_CACHE_EXPIRE_TIME = 10 * MINUTE"
definition MAX_A :: nat where "MAX_A = 1000000"
definition MAX_A_CHANGE :: nat where "MAX_A_CHANGE = 10"
definition MAX_ADMIN_FEE :: nat where "MAX_ADMIN_FEE = 10000000000"
definition MAX_SWAP_FEE :: nat where "MAX_SWAP_FEE = 100000000"

lemmas stable_constants = FEE_DENOMINATOR_def POOL_LP_CURRENCY_ID_DECIMAL_def BASE_VIRTUAL_PRICE_PRECISION_def A_PRECISION_def
  MAX_ITERATION_def POOL_TOKEN_COMMON_DECIMALS_def DAY_def MIN_RAMP_TIME_def MINUTE_def BASE_CACHE_EXPIRE_TIME_def
  MAX_A_def MAX_A_CHANGE_def MAX_ADMIN_FEE_def MAX_SWAP_FEE_def

subsection \<open>Pools\<close>

record ('a, 'c) base_pool =
  currency_ids :: "'c list"
  lp_currency_id :: 'c
  token_multipliers :: "nat list"
  pool_balances :: "nat list"
  pool_fee :: nat
  pool_admin_fee :: nat
  initial_a :: nat
  future_a :: nat
  initial_a_time :: nat
  future_a_time :: nat
  pool_account :: 'a
  pool_admin_fee_receiver :: 'a
  lp_currency_symbol :: "nat list"
  lp_currency_decimal :: nat

record ('a, 'c) meta_pool =
  base_pool_id :: nat
  base_virtual_price :: nat
  base_cache_last_updated :: nat
  base_currencies :: "'c list"
  meta_info :: "('a, 'c) base_pool"

datatype ('a, 'c) pool = Base "('a, 'c) base_pool" | Meta "('a, 'c) meta_pool"

definition pool_info :: "('a, 'c) pool \<Rightarrow> ('a, 'c) base_pool" where
  "pool_info self = (case self of Base bp \<Rightarrow> bp | Meta mp \<Rightarrow> meta_info mp)"

definition get_currency_ids :: "('a, 'c) pool \<Rightarrow> 'c list" where
  "get_currency_ids self = (case self of Base bp \<Rightarrow> currency_ids bp | Meta mp \<Rightarrow> currency_ids (meta_info mp))"

definition get_lp_currency :: "('a, 'c) pool \<Rightarrow> 'c" where
  "get_lp_currency self = (case self of Base bp \<Rightarrow> lp_currency_id bp | Meta mp \<Rightarrow> lp_currency_id (meta_info mp))"

definition get_pool_fee :: "('a, 'c) pool \<Rightarrow> nat" where
  "get_pool_fee self = (case self of Base bp \<Rightarrow> pool_fee bp | Meta mp \<Rightarrow> pool_fee (meta_info mp))"

text \<open>The setters, and every other update of the part of a pool that both kinds share.\<close>

definition update_info :: "(('a, 'c) base_pool \<Rightarrow> ('a, 'c) base_pool) \<Rightarrow> ('a, 'c) pool \<Rightarrow> ('a, 'c) pool" where
  "update_info f self = (case self of Base bp \<Rightarrow> Base (f bp) | Meta mp \<Rightarrow> Meta (mp\<lparr>meta_info := f (meta_info mp)\<rparr>))"

definition set_pool_admin_fee :: "nat \<Rightarrow> ('a, 'c) pool \<Rightarrow> ('a, 'c) pool" where
  "set_pool_admin_fee fee = update_info (\<lambda>p. p\<lparr>pool_admin_fee := fee\<rparr>)"

definition set_pool_fee :: "nat \<Rightarrow> ('a, 'c) pool \<Rightarrow> ('a, 'c) pool" where
  "set_pool_fee fee = update_info (\<lambda>p. p\<lparr>pool_fee := fee\<rparr>)"

definition set_pool_admin_fee_receiver :: "'a \<Rightarrow> ('a, 'c) pool \<Rightarrow> ('a, 'c) pool" where
  "set_pool_admin_fee_receiver receiver = update_info (\<lambda>p. p\<lparr>pool_admin_fee_receiver := receiver\<rparr>)"

subsection \<open>Storage and configuration\<close>

datatype ('a, 'c) stable_event =
    CreatePool nat "'c list" 'c nat 'a nat nat 'a
  | UpdateAdminFeeReceiver nat 'a
  | StableAddLiquidity nat 'a 'a "nat list" "nat list" nat nat
  | CurrencyExchange nat 'a 'a nat nat nat nat
  | StableRemoveLiquidity nat 'a 'a "nat list" "nat list" nat
  | RemoveLiquidityOneCurrency nat 'a 'a nat nat nat
  | RemoveLiquidityImbalance nat 'a 'a "nat list" "nat list" nat nat
  | NewSwapFee nat nat
  | NewAdminFee nat nat
  | RampA nat nat nat nat nat
  | StopRampA nat nat nat
  | CollectProtocolFee nat 'c nat
  | CurrencyExchangeUnderlying nat 'a nat nat nat nat 'a

record ('a, 'c, 'x) stable =
  NextPoolId :: nat
  Pools :: "nat \<Rightarrow> ('a, 'c) pool option"
  LpCurrencies :: "'c \<Rightarrow> nat option"
  stable_events :: "('a, 'c) stable_event list"
  stable_block_number :: nat
  stable_now :: nat
  stable_ledger :: 'x

record ('a, 'c, 'x) stable_config =
  sx_currency :: "('a, 'c, 'x) multi_currency"
  sx_validate_pooled_currency :: "'c list \<Rightarrow> bool"
  sx_generate_by_pool_id :: "nat \<Rightarrow> 'c"
  sx_pool_account_id :: "nat \<Rightarrow> 'a"
  sx_inc_providers :: "'a \<Rightarrow> 'x \<Rightarrow> 'x"
  sx_pool_currency_limit :: nat
  sx_pool_symbol_limit :: nat
  sx_pool_id_bits :: nat

type_synonym ('a, 'c, 'x, 'r) stable_action = "(('a, 'c, 'x) stable, dispatch_error, 'r) action"

type_synonym 'r computed = "(unit, 'r) result"

abbreviation stable_error :: "dex_stable_error \<Rightarrow> dispatch_error" where
  "stable_error \<equiv> DexStableError"

text \<open>\<^verbatim>\<open>?\<close> on an option, and \<^verbatim>\<open>ok_or(Error::<T>::Arithmetic)\<close> on a computation.\<close>

definition opt :: "'r option \<Rightarrow> 'r computed" where
  "opt m = ok_or m ()"

definition compute :: "(('a, 'c, 'x) stable \<Rightarrow> 'r computed) \<Rightarrow> ('a, 'c, 'x, 'r) stable_action" where
  "compute m = slift (\<lambda>s. map_err (\<lambda>_. stable_error Stable_Arithmetic) (m s))"

abbreviation arith :: "'r computed \<Rightarrow> ('a, 'c, 'x, 'r) stable_action" where
  "arith m \<equiv> compute (\<lambda>_. m)"

definition stable_deposit_event :: "('a, 'c) stable_event \<Rightarrow> ('a, 'c, 'x, unit) stable_action" where
  "stable_deposit_event e = smod (\<lambda>s. s\<lparr>stable_events := stable_events s @ [e]\<rparr>)"

definition on_stable_ledger :: "('x, dispatch_error, 'r) action \<Rightarrow> ('a, 'c, 'x, 'r) stable_action" where
  "on_stable_ledger m = szoom stable_ledger (\<lambda>x s. s\<lparr>stable_ledger := x\<rparr>) m"

definition stable_balance :: "('a, 'c, 'x) stable_config \<Rightarrow> ('a, 'c, 'x) stable \<Rightarrow> 'c \<Rightarrow> 'a \<Rightarrow> nat" where
  "stable_balance D s = mc_free_balance (sx_currency D) (stable_ledger s)"

definition stable_issuance :: "('a, 'c, 'x) stable_config \<Rightarrow> ('a, 'c, 'x) stable \<Rightarrow> 'c \<Rightarrow> nat" where
  "stable_issuance D s = mc_total_issuance (sx_currency D) (stable_ledger s)"

definition stable_transfer :: "('a, 'c, 'x) stable_config \<Rightarrow> 'c \<Rightarrow> 'a \<Rightarrow> 'a \<Rightarrow> nat \<Rightarrow> ('a, 'c, 'x, unit) stable_action" where
  "stable_transfer D c a b n = on_stable_ledger (mc_transfer (sx_currency D) c a b n)"

text \<open>\<^verbatim>\<open>map_err(|_| e)\<close> on a call: the error is replaced, a panic is not.\<close>

definition with_error :: "dispatch_error \<Rightarrow> ('s, dispatch_error, 'r) action \<Rightarrow> ('s, dispatch_error, 'r) action" where
  "with_error e m = (\<lambda>s. map_err (\<lambda>_. e) (m s))"

subsection \<open>The invariant\<close>

definition balance_of :: "nat \<Rightarrow> nat option" where
  "balance_of n = (if n < 2 ^ 128 then Some n else None)"

definition distance :: "nat \<Rightarrow> nat \<Rightarrow> nat" where
  "distance x y = (if x > y then x - y else y - x)"

fun xp :: "nat list \<Rightarrow> nat list \<Rightarrow> nat list computed" where
  "xp (b # bs) (r # rs) = rbind (opt (checked_mul_w 128 b r)) (\<lambda>x. rbind (xp bs rs) (\<lambda>xs. Inr (x # xs)))"
| "xp [] _ = Inr []"
| "xp (b # bs) [] = Inl Panic"

primrec sum_of_from :: "nat \<Rightarrow> nat list \<Rightarrow> nat computed" where
  "sum_of_from acc [] = Inr acc"
| "sum_of_from acc (b # bs) = rbind (opt (checked_add_w 128 acc b)) (\<lambda>acc'. sum_of_from acc' bs)"

definition sum_of :: "nat list \<Rightarrow> nat computed" where
  "sum_of bs = sum_of_from 0 bs"

text \<open>The inner loop of \<^verbatim>\<open>get_d\<close> computes \<open>d\<^sup>n\<^sup>+\<^sup>1 / (n\<^sup>n \<Prod> x)\<close>.\<close>

primrec d_p_loop :: "nat \<Rightarrow> nat \<Rightarrow> nat \<Rightarrow> nat list \<Rightarrow> nat computed" where
  "d_p_loop d n d_p [] = Inr d_p"
| "d_p_loop d n d_p (b # bs) =
     rbind (opt (checked_mul_w 256 d_p d)) (\<lambda>num.
     rbind (opt (checked_mul_w 256 b n)) (\<lambda>den.
     rbind (opt (checked_div num den)) (\<lambda>d_p'.
     d_p_loop d n d_p' bs)))"

definition d_step :: "nat list \<Rightarrow> nat \<Rightarrow> nat \<Rightarrow> nat \<Rightarrow> nat \<Rightarrow> nat computed" where
  "d_step bs n ann tot d =
     rbind (d_p_loop d n d bs) (\<lambda>d_p.
     rbind (opt (checked_mul_w 256 ann tot)) (\<lambda>x.
     rbind (opt (checked_div x A_PRECISION)) (\<lambda>y.
     rbind (opt (checked_mul_w 256 d_p n)) (\<lambda>z.
     rbind (opt (checked_add_w 256 y z)) (\<lambda>w.
     rbind (opt (checked_mul_w 256 w d)) (\<lambda>numerator.
     rbind (opt (checked_sub ann A_PRECISION)) (\<lambda>x.
     rbind (opt (checked_mul_w 256 x d)) (\<lambda>x.
     rbind (opt (checked_div x A_PRECISION)) (\<lambda>y.
     rbind (opt (checked_add_w 256 n 1)) (\<lambda>n1.
     rbind (opt (checked_mul_w 256 n1 d_p)) (\<lambda>z.
     rbind (opt (checked_add_w 256 y z)) (\<lambda>denominator.
     opt (checked_div numerator denominator)))))))))))))"

primrec d_loop :: "nat \<Rightarrow> nat list \<Rightarrow> nat \<Rightarrow> nat \<Rightarrow> nat \<Rightarrow> nat \<Rightarrow> nat computed" where
  "d_loop 0 bs n ann tot d = Inl (Err ())"
| "d_loop (Suc i) bs n ann tot d_prev =
     rbind (d_step bs n ann tot d_prev) (\<lambda>d.
     if distance d d_prev \<le> 1 then opt (balance_of d) else d_loop i bs n ann tot d)"

definition get_d :: "nat list \<Rightarrow> nat \<Rightarrow> nat computed" where
  "get_d bs amp =
     (let n_currencies = length bs in
     rbind (sum_of bs) (\<lambda>tot.
     if tot = 0 then Inr 0
     else rbind (opt (checked_mul_w 128 amp n_currencies)) (\<lambda>ann.
       d_loop MAX_ITERATION bs n_currencies ann tot tot)))"

text \<open>
  The balance of one currency for given balances of the others is the root of a quadratic. Both
  \<^verbatim>\<open>get_y\<close> and \<^verbatim>\<open>get_yd\<close> approach it with the same loop.
\<close>

definition y_step :: "nat \<Rightarrow> nat \<Rightarrow> nat \<Rightarrow> nat \<Rightarrow> nat computed" where
  "y_step c b d y =
     rbind (opt (checked_mul_w 256 y y)) (\<lambda>yy.
     rbind (opt (checked_add_w 256 yy c)) (\<lambda>numerator.
     rbind (opt (checked_mul_w 256 2 y)) (\<lambda>y2.
     rbind (opt (checked_add_w 256 y2 b)) (\<lambda>x.
     rbind (opt (checked_sub x d)) (\<lambda>denominator.
     opt (checked_div numerator denominator))))))"

primrec y_loop :: "nat \<Rightarrow> nat \<Rightarrow> nat \<Rightarrow> nat \<Rightarrow> nat \<Rightarrow> nat computed" where
  "y_loop 0 c b d y = Inl (Err ())"
| "y_loop (Suc i) c b d last_y =
     rbind (y_step c b d last_y) (\<lambda>y.
     if distance last_y y \<le> 1 then opt (balance_of y) else y_loop i c b d y)"

text \<open>The sum and the product over the other currencies; \<open>x_of\<close> gives the balance the source uses at an index.\<close>

primrec y_terms :: "nat \<Rightarrow> nat \<Rightarrow> nat \<Rightarrow> (nat \<Rightarrow> nat \<Rightarrow> nat) \<Rightarrow> nat \<Rightarrow> nat \<Rightarrow> nat \<Rightarrow> nat list \<Rightarrow> (nat \<times> nat) computed" where
  "y_terms n d skip x_of i tot c [] = Inr (tot, c)"
| "y_terms n d skip x_of i tot c (b # bs) =
     (if i = skip then y_terms n d skip x_of (Suc i) tot c bs
      else
        let x = x_of i b in
        rbind (opt (checked_add_w 256 tot x)) (\<lambda>tot'.
        rbind (opt (checked_mul_w 256 c d)) (\<lambda>num.
        rbind (opt (checked_mul_w 256 x n)) (\<lambda>den.
        rbind (opt (checked_div num den)) (\<lambda>c'.
        y_terms n d skip x_of (Suc i) tot' c' bs)))))"

text \<open>The coefficients of the quadratic \<open>y\<^sup>2 + (b - d) * y = c\<close>, and its solution starting from \<open>d\<close>.\<close>

definition y_coefficients :: "nat \<Rightarrow> nat \<Rightarrow> nat \<Rightarrow> nat \<Rightarrow> nat \<Rightarrow> (nat \<times> nat) computed" where
  "y_coefficients n ann d tot c =
     rbind (opt (checked_mul_w 256 c d)) (\<lambda>x.
     rbind (opt (checked_mul_w 256 x A_PRECISION)) (\<lambda>num.
     rbind (opt (checked_mul_w 256 ann n)) (\<lambda>den.
     rbind (opt (checked_div num den)) (\<lambda>c.
     rbind (opt (checked_mul_w 256 d A_PRECISION)) (\<lambda>x.
     rbind (opt (checked_div x ann)) (\<lambda>y.
     rbind (opt (checked_add_w 256 tot y)) (\<lambda>b.
     Inr (c, b))))))))"

definition y_solve :: "nat \<Rightarrow> nat \<Rightarrow> nat \<Rightarrow> nat \<Rightarrow> nat \<Rightarrow> nat computed" where
  "y_solve n ann d tot c = rbind (y_coefficients n ann d tot c) (\<lambda>(c, b). y_loop MAX_ITERATION c b d d)"

subsection \<open>Amplification\<close>

definition get_a_precise :: "nat \<Rightarrow> ('a, 'c) base_pool \<Rightarrow> nat computed" where
  "get_a_precise now pool =
     (if now \<ge> future_a_time pool then Inr (future_a pool)
      else if future_a pool > initial_a pool then
        rbind (opt (checked_sub (future_a pool) (initial_a pool))) (\<lambda>x.
        rbind (opt (checked_sub now (initial_a_time pool))) (\<lambda>y.
        rbind (opt (checked_mul_w 256 x y)) (\<lambda>z.
        rbind (opt (checked_sub (future_a_time pool) (initial_a_time pool))) (\<lambda>w.
        rbind (opt (checked_div z w)) (\<lambda>v.
        rbind (opt (checked_add_w 256 (initial_a pool) v)) (\<lambda>a.
        opt (balance_of a)))))))
      else
        rbind (opt (checked_sub (initial_a pool) (future_a pool))) (\<lambda>x.
        rbind (opt (checked_sub now (initial_a_time pool))) (\<lambda>y.
        rbind (opt (checked_mul_w 256 x y)) (\<lambda>z.
        rbind (opt (checked_sub (future_a_time pool) (initial_a_time pool))) (\<lambda>w.
        rbind (opt (checked_div z w)) (\<lambda>v.
        rbind (opt (checked_sub (initial_a pool) v)) (\<lambda>a.
        opt (balance_of a))))))))"

definition get_y :: "nat \<Rightarrow> ('a, 'c) base_pool \<Rightarrow> nat \<Rightarrow> nat \<Rightarrow> nat \<Rightarrow> nat list \<Rightarrow> nat computed" where
  "get_y now pool in_index out_index in_balance normalized_balances =
     (let n_currencies = length (currency_ids pool) in
     rbind (get_a_precise now pool) (\<lambda>amp.
     rbind (opt (checked_mul_w 256 n_currencies amp)) (\<lambda>ann.
     rbind (get_d normalized_balances amp) (\<lambda>d.
     rbind (y_terms n_currencies d out_index (\<lambda>i b. if i = in_index then in_balance else b) 0 0 d
              (take n_currencies normalized_balances)) (\<lambda>(tot, c).
     y_solve n_currencies ann d tot c)))))"

definition get_yd :: "('a, 'c) base_pool \<Rightarrow> nat \<Rightarrow> nat \<Rightarrow> nat list \<Rightarrow> nat \<Rightarrow> nat computed" where
  "get_yd pool a index xs d =
     (let n_currencies = length (currency_ids pool) in
     if index \<ge> n_currencies then Inl (Err ())
     else
       let ann = a * n_currencies in
       rbind (y_terms n_currencies d index (\<lambda>_ b. b) 0 0 d xs) (\<lambda>(tot, c).
       y_solve n_currencies ann d tot c))"

definition calculate_fee_per_token :: "('a, 'c) base_pool \<Rightarrow> nat computed" where
  "calculate_fee_per_token pool =
     (let n_pooled_currency = length (currency_ids pool) in
     rbind (opt (checked_mul_w 128 (pool_fee pool) n_pooled_currency)) (\<lambda>num.
     rbind (opt (checked_sub n_pooled_currency 1)) (\<lambda>n1.
     rbind (opt (checked_mul_w 128 4 n1)) (\<lambda>den.
     opt (checked_div num den)))))"

definition do_transfer_in ::
  "('a, 'c, 'x) stable_config \<Rightarrow> 'c \<Rightarrow> 'a \<Rightarrow> 'a \<Rightarrow> nat \<Rightarrow> ('a, 'c, 'x, nat) stable_action" where
  "do_transfer_in D currency_id from_account to_account amount =
     sbind (sget (\<lambda>s. stable_balance D s currency_id to_account)) (\<lambda>to_prior_balance.
     sbind (with_error (stable_error Stable_InsufficientReserve) (stable_transfer D currency_id from_account to_account amount)) (\<lambda>_.
     sbind (sget (\<lambda>s. stable_balance D s currency_id to_account)) (\<lambda>to_new_balance.
     arith (opt (checked_sub to_new_balance to_prior_balance)))))"

end
