(* ===== verification/Stable_Base.thy ===== *)
theory Stable_Base
  imports Stable_Pool
begin

text \<open>
  The operations of a base pool (\<^verbatim>\<open>src/crates/dex-stable/src/base_pool.rs\<close>). An operation takes the pool it
  works on and returns it with its result; the caller writes it back to the storage.
\<close>

subsection \<open>Arithmetic of the operations\<close>

text \<open>A product and a quotient of \<^verbatim>\<open>U256\<close> numbers, and the same with a result that is a \<^verbatim>\<open>Balance\<close>.\<close>

definition mul_div :: "nat \<Rightarrow> nat \<Rightarrow> nat \<Rightarrow> nat computed" where
  "mul_div a b c = rbind (opt (checked_mul_w 256 a b)) (\<lambda>n. opt (checked_div n c))"

definition mul_div_balance :: "nat \<Rightarrow> nat \<Rightarrow> nat \<Rightarrow> nat computed" where
  "mul_div_balance a b c = rbind (mul_div a b c) (\<lambda>n. opt (balance_of n))"

fun zip_with :: "(nat \<Rightarrow> nat \<Rightarrow> nat option) \<Rightarrow> nat list \<Rightarrow> nat list \<Rightarrow> nat list computed" where
  "zip_with f (b # bs) (a # as) = rbind (opt (f b a)) (\<lambda>c. rbind (zip_with f bs as) (\<lambda>cs. Inr (c # cs)))"
| "zip_with f bs [] = Inr bs"
| "zip_with f [] (a # as) = Inl Panic"

text \<open>
  The fee on the imbalance that a change of the reserves causes: for every currency the fee, the new
  reserve without the share of the administrator, and the balance without the fee.
\<close>

fun imbalance_fees :: "nat \<Rightarrow> nat \<Rightarrow> nat \<Rightarrow> nat \<Rightarrow> nat list \<Rightarrow> nat list \<Rightarrow> (nat list \<times> nat list \<times> nat list) computed" where
  "imbalance_fees fee admin d0 d1 (b # bs) (nb # nbs) =
     rbind (mul_div d1 b d0) (\<lambda>ideal_balance.
     rbind (mul_div_balance fee (distance ideal_balance nb) FEE_DENOMINATOR) (\<lambda>f.
     rbind (mul_div f admin FEE_DENOMINATOR) (\<lambda>a.
     rbind (opt (checked_sub nb a)) (\<lambda>b'.
     rbind (opt (checked_sub nb f)) (\<lambda>nb'.
     rbind (imbalance_fees fee admin d0 d1 bs nbs) (\<lambda>(fs, bs', nbs'). Inr (f # fs, b' # bs', nb' # nbs')))))))"
| "imbalance_fees fee admin d0 d1 [] [] = Inr ([], [], [])"
| "imbalance_fees fee admin d0 d1 _ _ = Inl Panic"

subsection \<open>Creation\<close>

definition checked_pow_w :: "nat \<Rightarrow> nat \<Rightarrow> nat \<Rightarrow> nat option" where
  "checked_pow_w w b n = (if b ^ n < 2 ^ w then Some (b ^ n) else None)"

primrec multipliers :: "nat list \<Rightarrow> (dispatch_error, nat list) result" where
  "multipliers [] = Inr []"
| "multipliers (dec # decs) =
     rbind (rensure (dec \<le> POOL_TOKEN_COMMON_DECIMALS) (stable_error Stable_InvalidCurrencyDecimal)) (\<lambda>_.
     rbind (ok_or (checked_pow_w 128 10 (POOL_TOKEN_COMMON_DECIMALS - dec)) (stable_error Stable_Arithmetic)) (\<lambda>r.
     rbind (multipliers decs) (\<lambda>rate. Inr (r # rate))))"

definition inner_create_base_pool ::
  "('a, 'c, 'x) stable_config \<Rightarrow> 'c list \<Rightarrow> nat list \<Rightarrow> nat \<Rightarrow> nat \<Rightarrow> nat \<Rightarrow> 'a \<Rightarrow> nat list \<Rightarrow>
   ('a, 'c, 'x, ('a, 'c) base_pool \<times> nat) stable_action" where
  "inner_create_base_pool D currencies currency_decimals a fee admin_fee admin_fee_receiver lp_symbol =
     sbind (sensure (\<lambda>_. sx_validate_pooled_currency D currencies) (stable_error Stable_InvalidPooledCurrency)) (\<lambda>_.
     sbind (sensure (\<lambda>_. length currencies = length currency_decimals) (stable_error Stable_MismatchParameter)) (\<lambda>_.
     sbind (sensure (\<lambda>_. a \<noteq> 0) (stable_error Stable_ZeroA)) (\<lambda>_.
     sbind (sensure (\<lambda>_. a < MAX_A) (stable_error Stable_ExceedMaxA)) (\<lambda>_.
     sbind (sensure (\<lambda>_. fee \<le> MAX_SWAP_FEE) (stable_error Stable_ExceedMaxFee)) (\<lambda>_.
     sbind (sensure (\<lambda>_. admin_fee \<le> MAX_ADMIN_FEE) (stable_error Stable_ExceedMaxAdminFee)) (\<lambda>_.
     sbind (slift (\<lambda>_. multipliers currency_decimals)) (\<lambda>rate.
     sbind (sget NextPoolId) (\<lambda>pool_id.
     let lp_id = sx_generate_by_pool_id D pool_id; account = sx_pool_account_id D pool_id in
     sbind (sensure (\<lambda>s. LpCurrencies s lp_id = None) (stable_error Stable_LpCurrencyAlreadyUsed)) (\<lambda>_.
     sbind (smod (\<lambda>s. s\<lparr>stable_ledger := sx_inc_providers D account (stable_ledger s)\<rparr>)) (\<lambda>_.
     sbind (arith (opt (checked_mul_w 128 a A_PRECISION))) (\<lambda>a_with_precision.
     sbind (sensure (\<lambda>_. length lp_symbol \<le> sx_pool_symbol_limit D) (stable_error Stable_BadPoolCurrencySymbol)) (\<lambda>_.
     sbind (sensure (\<lambda>_. length currencies \<le> sx_pool_currency_limit D) (stable_error Stable_TooManyCurrencies)) (\<lambda>_.
     sret
       (\<lparr>currency_ids = currencies,
         lp_currency_id = lp_id,
         token_multipliers = rate,
         pool_balances = replicate (length currencies) 0,
         pool_fee = fee,
         pool_admin_fee = admin_fee,
         initial_a = a_with_precision,
         future_a = a_with_precision,
         initial_a_time = 0,
         future_a_time = 0,
         pool_account = account,
         pool_admin_fee_receiver = admin_fee_receiver,
         lp_currency_symbol = lp_symbol,
         lp_currency_decimal = POOL_LP_CURRENCY_ID_DECIMAL\<rparr>, pool_id))))))))))))))"

subsection \<open>Supplying liquidity\<close>

definition calculate_base_mint_amount ::
  "('a, 'c) base_pool \<Rightarrow> nat list \<Rightarrow> nat \<Rightarrow> nat \<Rightarrow> nat \<Rightarrow> nat \<Rightarrow> nat \<Rightarrow>
   (nat \<times> nat list \<times> ('a, 'c) base_pool \<times> nat) computed" where
  "calculate_base_mint_amount pool new_balances d0 d1 fee amp total_supply =
     rbind (imbalance_fees fee (pool_admin_fee pool) d0 d1 (pool_balances pool) new_balances) (\<lambda>(fees, balances, new_balances).
     rbind (xp new_balances (token_multipliers pool)) (\<lambda>xs.
     rbind (get_d xs amp) (\<lambda>d1.
     rbind (opt (checked_sub d1 d0)) (\<lambda>diff.
     rbind (mul_div_balance total_supply diff d0) (\<lambda>mint_amount.
     Inr (mint_amount, fees, pool\<lparr>pool_balances := balances\<rparr>, d1))))))"

text \<open>The loop that moves the supplied amounts; the first deposit must contain every currency.\<close>

fun transfer_amounts_in ::
  "('a, 'c, 'x) stable_config \<Rightarrow> bool \<Rightarrow> 'a \<Rightarrow> 'a \<Rightarrow> 'c list \<Rightarrow> nat list \<Rightarrow> nat list \<Rightarrow>
   ('a, 'c, 'x, nat list) stable_action" where
  "transfer_amounts_in D first who account (c # cs) (amount # amounts) (b # bs) =
     sbind (sensure (\<lambda>_. \<not> (first \<and> amount = 0)) (stable_error Stable_RequireAllCurrencies)) (\<lambda>_.
     sbind (do_transfer_in D c who account amount) (\<lambda>received.
     sbind (arith (opt (checked_add_w 128 b received))) (\<lambda>b'.
     sbind (transfer_amounts_in D first who account cs amounts bs) (\<lambda>bs'.
     sret (b' # bs')))))"
| "transfer_amounts_in D first who account [] _ bs = sret bs"
| "transfer_amounts_in D first who account _ _ _ = (\<lambda>_. Inl Panic)"

definition base_pool_add_liquidity ::
  "('a, 'c, 'x) stable_config \<Rightarrow> 'a \<Rightarrow> nat \<Rightarrow> ('a, 'c) base_pool \<Rightarrow> nat list \<Rightarrow> nat \<Rightarrow> 'a \<Rightarrow>
   ('a, 'c, 'x, nat \<times> ('a, 'c) base_pool) stable_action" where
  "base_pool_add_liquidity D who pool_id pool amounts min_mint_amount to_account =
     sbind (sensure (\<lambda>_. length (currency_ids pool) = length amounts) (stable_error Stable_MismatchParameter)) (\<lambda>_.
     sbind (arith (calculate_fee_per_token pool)) (\<lambda>fee_per_token.
     sbind (sget (\<lambda>s. stable_issuance D s (lp_currency_id pool))) (\<lambda>lp_total_supply.
     sbind (compute (\<lambda>s. get_a_precise (stable_now s) pool)) (\<lambda>amp.
     sbind (arith (if lp_total_supply > 0
              then rbind (xp (pool_balances pool) (token_multipliers pool)) (\<lambda>xs. get_d xs amp) else Inr 0)) (\<lambda>d0.
     sbind (transfer_amounts_in D (lp_total_supply = 0) who (pool_account pool) (currency_ids pool) amounts
              (pool_balances pool)) (\<lambda>new_balances.
     sbind (arith (rbind (xp new_balances (token_multipliers pool)) (\<lambda>xs. get_d xs amp))) (\<lambda>d1.
     sbind (sensure (\<lambda>_. d1 > d0) (stable_error Stable_CheckDFailed)) (\<lambda>_.
     sbind (arith (if lp_total_supply = 0 then Inr (d1, [], pool\<lparr>pool_balances := new_balances\<rparr>, d1)
              else calculate_base_mint_amount pool new_balances d0 d1 fee_per_token amp lp_total_supply))
       (\<lambda>(mint_amount, fees, pool', d1).
     sbind (sensure (\<lambda>_. min_mint_amount \<le> mint_amount) (stable_error Stable_AmountSlippage)) (\<lambda>_.
     sbind (on_stable_ledger (mc_deposit (sx_currency D) (lp_currency_id pool) to_account mint_amount)) (\<lambda>_.
     sbind (stable_deposit_event (StableAddLiquidity pool_id who to_account amounts fees d1 mint_amount)) (\<lambda>_.
     sret (mint_amount, pool')))))))))))))"

subsection \<open>Swapping\<close>

definition calculate_base_swap_amount :: "nat \<Rightarrow> ('a, 'c) base_pool \<Rightarrow> nat \<Rightarrow> nat \<Rightarrow> nat \<Rightarrow> nat computed" where
  "calculate_base_swap_amount now pool i j in_balance =
     (let n_currencies = length (currency_ids pool) in
     if i = j \<or> i \<ge> n_currencies \<or> j \<ge> n_currencies then Inl (Err ())
     else
       rbind (xp (pool_balances pool) (token_multipliers pool)) (\<lambda>normalized_balances.
       rbind (index_or_panic normalized_balances i) (\<lambda>nb_i.
       rbind (index_or_panic (token_multipliers pool) i) (\<lambda>m_i.
       rbind (opt (checked_mul_w 128 in_balance m_i)) (\<lambda>n.
       rbind (opt (checked_add_w 128 nb_i n)) (\<lambda>new_in_balance.
       rbind (get_y now pool i j new_in_balance normalized_balances) (\<lambda>out_balance.
       rbind (index_or_panic normalized_balances j) (\<lambda>nb_j.
       rbind (opt (checked_sub nb_j out_balance)) (\<lambda>n.
       rbind (opt (checked_sub n 1)) (\<lambda>n.
       rbind (index_or_panic (token_multipliers pool) j) (\<lambda>m_j.
       rbind (opt (checked_div n m_j)) (\<lambda>out_amount.
       rbind (mul_div_balance out_amount (pool_fee pool) FEE_DENOMINATOR) (\<lambda>fee.
       rbind (opt (checked_sub out_amount fee)) (\<lambda>n.
       opt (checked_sub n 1)))))))))))))))"

text \<open>
  What a swap of \<open>in_amount\<close> gives: the output, and the fee at the common precision of the pool.
\<close>

definition base_swap_output :: "nat \<Rightarrow> ('a, 'c) base_pool \<Rightarrow> nat \<Rightarrow> nat \<Rightarrow> nat \<Rightarrow> (nat \<times> nat) computed" where
  "base_swap_output now pool i j in_amount =
     rbind (xp (pool_balances pool) (token_multipliers pool)) (\<lambda>normalized_balances.
     rbind (index_or_panic (token_multipliers pool) i) (\<lambda>m_i.
     rbind (opt (checked_mul_w 128 in_amount m_i)) (\<lambda>n.
     rbind (index_or_panic normalized_balances i) (\<lambda>nb_i.
     rbind (opt (checked_add_w 128 n nb_i)) (\<lambda>x.
     rbind (get_y now pool i j x normalized_balances) (\<lambda>y.
     rbind (index_or_panic normalized_balances j) (\<lambda>nb_j.
     rbind (opt (checked_sub nb_j y)) (\<lambda>n.
     rbind (opt (checked_sub n 1)) (\<lambda>dy.
     rbind (mul_div_balance dy (pool_fee pool) FEE_DENOMINATOR) (\<lambda>dy_fee.
     rbind (opt (checked_sub dy dy_fee)) (\<lambda>n.
     rbind (index_or_panic (token_multipliers pool) j) (\<lambda>m_j.
     rbind (opt (checked_div n m_j)) (\<lambda>dy.
     Inr (dy, dy_fee))))))))))))))"

text \<open>The reserves after a swap: the input is added, the output and the share of the administrator leave.\<close>

definition swap_reserves :: "('a, 'c) base_pool \<Rightarrow> nat \<Rightarrow> nat \<Rightarrow> nat \<Rightarrow> nat \<Rightarrow> nat \<Rightarrow> ('a, 'c) base_pool computed" where
  "swap_reserves pool i j in_amount dy admin_fee =
     rbind (index_or_panic (pool_balances pool) i) (\<lambda>b_i.
     rbind (opt (checked_add_w 128 b_i in_amount)) (\<lambda>b_i'.
     let balances = (pool_balances pool)[i := b_i'] in
     rbind (index_or_panic balances j) (\<lambda>b_j.
     rbind (opt (checked_sub b_j dy)) (\<lambda>n.
     rbind (opt (checked_sub n admin_fee)) (\<lambda>b_j'.
     Inr (pool\<lparr>pool_balances := balances[j := b_j']\<rparr>))))))"

definition base_pool_swap ::
  "('a, 'c, 'x) stable_config \<Rightarrow> 'a \<Rightarrow> nat \<Rightarrow> ('a, 'c) base_pool \<Rightarrow> nat \<Rightarrow> nat \<Rightarrow> nat \<Rightarrow> nat \<Rightarrow> 'a \<Rightarrow>
   ('a, 'c, 'x, nat \<times> ('a, 'c) base_pool) stable_action" where
  "base_pool_swap D who pool_id pool i j in_amount out_min_amount to_account =
     (let n_currencies = length (currency_ids pool) in
     sbind (sensure (\<lambda>_. i < n_currencies \<and> j < n_currencies) (stable_error Stable_CurrencyIndexOutRange)) (\<lambda>_.
     sbind (do_transfer_in D (currency_ids pool ! i) who (pool_account pool) in_amount) (\<lambda>in_amount.
     sbind (compute (\<lambda>s. base_swap_output (stable_now s) pool i j in_amount)) (\<lambda>(dy, dy_fee).
     sbind (sensure (\<lambda>_. dy \<ge> out_min_amount) (stable_error Stable_AmountSlippage)) (\<lambda>_.
     sbind (arith (rbind (mul_div dy_fee (pool_admin_fee pool) FEE_DENOMINATOR) (\<lambda>n.
                   rbind (index_or_panic (token_multipliers pool) j) (\<lambda>m_j.
                   rbind (opt (checked_div n m_j)) (\<lambda>n. opt (balance_of n)))))) (\<lambda>admin_fee.
     sbind (arith (swap_reserves pool i j in_amount dy admin_fee)) (\<lambda>pool'.
     sbind (with_error (stable_error Stable_InsufficientReserve)
              (stable_transfer D (currency_ids pool ! j) (pool_account pool) to_account dy)) (\<lambda>_.
     sbind (stable_deposit_event (CurrencyExchange pool_id who to_account i in_amount j dy)) (\<lambda>_.
     sret (dy, pool'))))))))))"

subsection \<open>Removing liquidity\<close>

definition calculate_base_virtual_price ::
  "('a, 'c, 'x) stable_config \<Rightarrow> ('a, 'c) base_pool \<Rightarrow> ('a, 'c, 'x) stable \<Rightarrow> nat computed" where
  "calculate_base_virtual_price D pool s =
     rbind (xp (pool_balances pool) (token_multipliers pool)) (\<lambda>xs.
     rbind (get_a_precise (stable_now s) pool) (\<lambda>amp.
     rbind (get_d xs amp) (\<lambda>d.
     let total_supply = stable_issuance D s (lp_currency_id pool) in
     if total_supply > 0 then
       rbind (opt (checked_pow_w 256 10 POOL_TOKEN_COMMON_DECIMALS)) (\<lambda>n. mul_div_balance n d total_supply)
     else Inl (Err ()))))"

text \<open>\<open>norm\<close> gives the normalized balances; it differs between base and meta pools.\<close>

definition remove_liquidity_imbalance_quote ::
  "(nat list \<Rightarrow> nat list computed) \<Rightarrow> nat \<Rightarrow> ('a, 'c) base_pool \<Rightarrow> nat list \<Rightarrow> nat \<Rightarrow>
   (nat \<times> nat list \<times> nat \<times> ('a, 'c) base_pool) computed" where
  "remove_liquidity_imbalance_quote norm now pool amounts total_supply =
     rbind (calculate_fee_per_token pool) (\<lambda>fee_per_token.
     rbind (get_a_precise now pool) (\<lambda>amp.
     rbind (rbind (norm (pool_balances pool)) (\<lambda>xs. get_d xs amp)) (\<lambda>d0.
     rbind (zip_with checked_sub (pool_balances pool) amounts) (\<lambda>new_balances.
     rbind (rbind (norm new_balances) (\<lambda>xs. get_d xs amp)) (\<lambda>d1.
     rbind (imbalance_fees fee_per_token (pool_admin_fee pool) d0 d1 (pool_balances pool) new_balances)
       (\<lambda>(fees, balances, new_balances).
     rbind (rbind (norm new_balances) (\<lambda>xs. get_d xs amp)) (\<lambda>d1.
     rbind (opt (checked_sub d0 d1)) (\<lambda>n.
     rbind (mul_div_balance n total_supply d0) (\<lambda>burn_amount.
     Inr (burn_amount, fees, d1, pool\<lparr>pool_balances := balances\<rparr>))))))))))"

definition calculate_base_remove_liquidity_imbalance ::
  "nat \<Rightarrow> ('a, 'c) base_pool \<Rightarrow> nat list \<Rightarrow> nat \<Rightarrow> (nat \<times> nat list \<times> nat \<times> ('a, 'c) base_pool) computed" where
  "calculate_base_remove_liquidity_imbalance now pool amounts total_supply =
     remove_liquidity_imbalance_quote (\<lambda>bs. xp bs (token_multipliers pool)) now pool amounts total_supply"

text \<open>The balances with the fee of a withdrawal of one currency taken off.\<close>

primrec reduce_balances :: "nat \<Rightarrow> nat \<Rightarrow> nat \<Rightarrow> nat \<Rightarrow> nat \<Rightarrow> nat \<Rightarrow> nat list \<Rightarrow> nat list computed" where
  "reduce_balances fee_per_token d0 d1 new_y index i [] = Inr []"
| "reduce_balances fee_per_token d0 d1 new_y index i (x # xs) =
     rbind (mul_div x d1 d0) (\<lambda>n.
     rbind (opt (if i = index then checked_sub n new_y else checked_sub x n)) (\<lambda>expected_dx.
     rbind (mul_div_balance fee_per_token expected_dx FEE_DENOMINATOR) (\<lambda>f.
     rbind (opt (checked_sub x f)) (\<lambda>x'.
     rbind (reduce_balances fee_per_token d0 d1 new_y index (Suc i) xs) (\<lambda>xs'. Inr (x' # xs'))))))"

definition calculate_base_remove_liquidity_one_token ::
  "('a, 'c, 'x) stable_config \<Rightarrow> ('a, 'c) base_pool \<Rightarrow> nat \<Rightarrow> nat \<Rightarrow> ('a, 'c, 'x) stable \<Rightarrow> (nat \<times> nat) computed" where
  "calculate_base_remove_liquidity_one_token D pool token_amount index s =
     (if index \<ge> length (currency_ids pool) then Inl (Err ())
      else let total_supply = stable_issuance D s (lp_currency_id pool) in
        rbind (get_a_precise (stable_now s) pool) (\<lambda>amp.
        rbind (xp (pool_balances pool) (token_multipliers pool)) (\<lambda>xs.
        rbind (get_d xs amp) (\<lambda>d0.
        rbind (mul_div token_amount d0 total_supply) (\<lambda>n.
        rbind (opt (checked_sub d0 n)) (\<lambda>d1.
        rbind (get_yd pool amp index xs d1) (\<lambda>new_y.
        rbind (calculate_fee_per_token pool) (\<lambda>fee_per_token.
        rbind (reduce_balances fee_per_token d0 d1 new_y index 0 xs) (\<lambda>xp_reduced.
        rbind (index_or_panic xp_reduced index) (\<lambda>x_red.
        rbind (get_yd pool amp index xp_reduced d1) (\<lambda>y_red.
        rbind (opt (checked_sub x_red y_red)) (\<lambda>dy.
        rbind (opt (checked_sub dy 1)) (\<lambda>dy.
        rbind (index_or_panic (token_multipliers pool) index) (\<lambda>m.
        rbind (opt (checked_div dy m)) (\<lambda>dy.
        rbind (index_or_panic xs index) (\<lambda>x.
        rbind (opt (checked_sub x new_y)) (\<lambda>n.
        rbind (opt (checked_div n m)) (\<lambda>n.
        rbind (opt (checked_sub n dy)) (\<lambda>fee.
        Inr (dy, fee))))))))))))))))))))"

definition take_out :: "('a, 'c) base_pool \<Rightarrow> nat \<Rightarrow> nat \<Rightarrow> nat \<Rightarrow> ('a, 'c) base_pool computed" where
  "take_out pool index dy dy_fee =
     rbind (mul_div dy_fee (pool_admin_fee pool) FEE_DENOMINATOR) (\<lambda>n.
     rbind (opt (checked_add_w 256 n dy)) (\<lambda>n.
     rbind (opt (balance_of n)) (\<lambda>n.
     rbind (index_or_panic (pool_balances pool) index) (\<lambda>b.
     rbind (opt (checked_sub b n)) (\<lambda>b'.
     Inr (pool\<lparr>pool_balances := (pool_balances pool)[index := b']\<rparr>))))))"

definition base_pool_remove_liquidity_one_currency ::
  "('a, 'c, 'x) stable_config \<Rightarrow> nat \<Rightarrow> ('a, 'c) base_pool \<Rightarrow> 'a \<Rightarrow> nat \<Rightarrow> nat \<Rightarrow> nat \<Rightarrow> 'a \<Rightarrow>
   ('a, 'c, 'x, nat \<times> ('a, 'c) base_pool) stable_action" where
  "base_pool_remove_liquidity_one_currency D pool_id pool who lp_amount index min_amount to_account =
     sbind (sget (\<lambda>s. stable_issuance D s (lp_currency_id pool))) (\<lambda>total_supply.
     sbind (sensure (\<lambda>_. total_supply > 0) (stable_error Stable_InsufficientLpReserve)) (\<lambda>_.
     sbind (sensure (\<lambda>s. stable_balance D s (lp_currency_id pool) who \<ge> lp_amount \<and> lp_amount \<le> total_supply)
              (stable_error Stable_InsufficientSupply)) (\<lambda>_.
     sbind (sensure (\<lambda>_. index < length (currency_ids pool)) (stable_error Stable_CurrencyIndexOutRange)) (\<lambda>_.
     sbind (compute (calculate_base_remove_liquidity_one_token D pool lp_amount index)) (\<lambda>(dy, dy_fee).
     sbind (sensure (\<lambda>_. dy \<ge> min_amount) (stable_error Stable_AmountSlippage)) (\<lambda>_.
     sbind (arith (take_out pool index dy dy_fee)) (\<lambda>pool'.
     sbind (on_stable_ledger (mc_withdraw (sx_currency D) (lp_currency_id pool) who lp_amount)) (\<lambda>_.
     sbind (stable_transfer D (currency_ids pool ! index) (pool_account pool) to_account dy) (\<lambda>_.
     sbind (stable_deposit_event (RemoveLiquidityOneCurrency pool_id who to_account index lp_amount dy)) (\<lambda>_.
     sret (dy, pool')))))))))))"

text \<open>The loop that pays the amounts out; it skips the ones that are zero.\<close>

fun transfer_amounts_out ::
  "('a, 'c, 'x) stable_config \<Rightarrow> 'a \<Rightarrow> 'a \<Rightarrow> 'c list \<Rightarrow> nat list \<Rightarrow> ('a, 'c, 'x, unit) stable_action" where
  "transfer_amounts_out D account to_account (c # cs) (amount # amounts) =
     sbind (if amount > 0 then stable_transfer D c account to_account amount else sret ()) (\<lambda>_.
     transfer_amounts_out D account to_account cs amounts)"
| "transfer_amounts_out D account to_account _ [] = sret ()"
| "transfer_amounts_out D account to_account [] (amount # amounts) =
     (if amount > 0 then (\<lambda>_. Inl Panic) else transfer_amounts_out D account to_account [] amounts)"

definition wrapping_sub_w :: "nat \<Rightarrow> nat \<Rightarrow> nat \<Rightarrow> nat" where
  "wrapping_sub_w w a b = (a + (2 ^ w - b mod 2 ^ w)) mod 2 ^ w"

definition pay_imbalance ::
  "('a, 'c, 'x) stable_config \<Rightarrow> 'a \<Rightarrow> nat \<Rightarrow> ('a, 'c) base_pool \<Rightarrow> nat list \<Rightarrow> nat \<Rightarrow> 'a \<Rightarrow> nat \<Rightarrow> nat \<Rightarrow> nat list \<Rightarrow> nat \<Rightarrow>
   ('a, 'c, 'x, unit) stable_action" where
  "pay_imbalance D who pool_id pool amounts max_burn_amount to_account total_supply burn_amount fees d1 =
     sbind (sensure (\<lambda>_. burn_amount > 0) (stable_error Stable_AmountSlippage)) (\<lambda>_.
     sbind (arith (opt (checked_add_w 128 burn_amount 1))) (\<lambda>burn_amount.
     sbind (sensure (\<lambda>_. burn_amount \<le> max_burn_amount) (stable_error Stable_AmountSlippage)) (\<lambda>_.
     sbind (on_stable_ledger (mc_withdraw (sx_currency D) (lp_currency_id pool) who burn_amount)) (\<lambda>_.
     sbind (transfer_amounts_out D (pool_account pool) to_account (currency_ids pool) amounts) (\<lambda>_.
     stable_deposit_event
       (RemoveLiquidityImbalance pool_id who to_account amounts fees d1 (wrapping_sub_w 128 total_supply burn_amount)))))))"

definition base_pool_remove_liquidity_imbalance ::
  "('a, 'c, 'x) stable_config \<Rightarrow> 'a \<Rightarrow> nat \<Rightarrow> ('a, 'c) base_pool \<Rightarrow> nat list \<Rightarrow> nat \<Rightarrow> 'a \<Rightarrow>
   ('a, 'c, 'x, unit \<times> ('a, 'c) base_pool) stable_action" where
  "base_pool_remove_liquidity_imbalance D who pool_id pool amounts max_burn_amount to_account =
     sbind (sget (\<lambda>s. stable_issuance D s (lp_currency_id pool))) (\<lambda>total_supply.
     sbind (sensure (\<lambda>_. total_supply > 0) (stable_error Stable_InsufficientLpReserve)) (\<lambda>_.
     sbind (sensure (\<lambda>_. length amounts = length (currency_ids pool)) (stable_error Stable_MismatchParameter)) (\<lambda>_.
     sbind (compute (\<lambda>s. calculate_base_remove_liquidity_imbalance (stable_now s) pool amounts total_supply))
       (\<lambda>(burn_amount, fees, d1, pool').
     sbind (pay_imbalance D who pool_id pool amounts max_burn_amount to_account total_supply burn_amount fees d1) (\<lambda>_.
     sret ((), pool'))))))"

primrec remove_amounts :: "nat \<Rightarrow> nat \<Rightarrow> nat list \<Rightarrow> nat list computed" where
  "remove_amounts amount lp_total_supply [] = Inr []"
| "remove_amounts amount lp_total_supply (b # bs) =
     rbind (mul_div_balance b amount lp_total_supply) (\<lambda>x.
     rbind (remove_amounts amount lp_total_supply bs) (\<lambda>xs. Inr (x # xs)))"

definition calculate_base_remove_liquidity ::
  "('a, 'c, 'x) stable_config \<Rightarrow> ('a, 'c) base_pool \<Rightarrow> nat \<Rightarrow> ('a, 'c, 'x) stable \<Rightarrow> nat list computed" where
  "calculate_base_remove_liquidity D pool amount s =
     (let lp_total_supply = stable_issuance D s (lp_currency_id pool) in
     if lp_total_supply < amount then Inl (Err ()) else remove_amounts amount lp_total_supply (pool_balances pool))"

text \<open>The estimate of the liquidity tokens for a supply or a withdrawal, without fees.\<close>

definition currency_amount_quote ::
  "(nat list \<Rightarrow> nat list computed) \<Rightarrow> nat list \<Rightarrow> nat list \<Rightarrow> bool \<Rightarrow> nat \<Rightarrow> nat \<Rightarrow> nat computed" where
  "currency_amount_quote norm balances amounts deposit amp total_supply =
     rbind (rbind (norm balances) (\<lambda>xs. get_d xs amp)) (\<lambda>d0.
     rbind (zip_with (if deposit then checked_add_w 128 else checked_sub) balances amounts) (\<lambda>new_balances.
     rbind (rbind (norm new_balances) (\<lambda>xs. get_d xs amp)) (\<lambda>d1.
     if total_supply = 0 then Inr d1
     else
       rbind (opt (if deposit then checked_sub d1 d0 else checked_sub d0 d1)) (\<lambda>diff.
       mul_div_balance diff total_supply d0))))"

definition calculate_base_currency_amount ::
  "('a, 'c, 'x) stable_config \<Rightarrow> ('a, 'c) base_pool \<Rightarrow> nat list \<Rightarrow> bool \<Rightarrow> ('a, 'c, 'x) stable \<Rightarrow>
   (dispatch_error, nat) result" where
  "calculate_base_currency_amount D pool amounts deposit s =
     rbind (rensure (length (currency_ids pool) = length amounts) (stable_error Stable_MismatchParameter)) (\<lambda>_.
     map_err (\<lambda>_. stable_error Stable_Arithmetic)
       (rbind (get_a_precise (stable_now s) pool) (\<lambda>amp.
        currency_amount_quote (\<lambda>bs. xp bs (token_multipliers pool)) (pool_balances pool) amounts deposit amp
          (stable_issuance D s (lp_currency_id pool)))))"

end
