(* ===== verification/Stable_Meta.thy ===== *)
theory Stable_Meta
  imports Stable_Base
begin

text \<open>
  The operations of a meta pool (\<^verbatim>\<open>src/crates/dex-stable/src/meta_pool.rs\<close>). The last currency of a meta
  pool is the liquidity token of its base pool, valued at the base pool's virtual price, which the meta
  pool caches. The base pool may itself be a meta pool; the recursion along the base pools gets one level
  per pool identifier and one more, and is \<open>Diverge\<close> beyond. The swap through the base pool calls the
  operations of the pallet on the base pool and stands in \<open>Stable_Calls\<close>.
\<close>

subsection \<open>Virtual prices\<close>

definition meta_pool_xp :: "nat list \<Rightarrow> nat list \<Rightarrow> nat \<Rightarrow> nat list computed" where
  "meta_pool_xp balances rates virtual_price =
     rbind (xp balances rates) (\<lambda>xs.
     rbind (opt (checked_sub (length balances) 1)) (\<lambda>base_lp_token_index.
     rbind (index_or_panic xs base_lp_token_index) (\<lambda>x.
     rbind (mul_div_balance x virtual_price BASE_VIRTUAL_PRICE_PRECISION) (\<lambda>x'.
     Inr (xs[base_lp_token_index := x'])))))"

abbreviation meta_norm :: "('a, 'c) meta_pool \<Rightarrow> nat \<Rightarrow> nat list \<Rightarrow> nat list computed" where
  "meta_norm mp price \<equiv> (\<lambda>bs. meta_pool_xp bs (token_multipliers (meta_info mp)) price)"

definition cache_expired :: "('a, 'c, 'x) stable \<Rightarrow> ('a, 'c) meta_pool \<Rightarrow> bool" where
  "cache_expired s mp \<longleftrightarrow> stable_now s > (base_cache_last_updated mp + BASE_CACHE_EXPIRE_TIME) mod 2 ^ 64"

text \<open>The value of a meta pool's liquidity token for a given price of its base pool's.\<close>

definition meta_price_at :: "('a, 'c, 'x) stable_config \<Rightarrow> ('a, 'c) meta_pool \<Rightarrow> ('a, 'c, 'x) stable \<Rightarrow> nat \<Rightarrow> nat computed" where
  "meta_price_at D mp s price =
     rbind (meta_norm mp price (pool_balances (meta_info mp))) (\<lambda>xs.
     rbind (get_a_precise (stable_now s) (meta_info mp)) (\<lambda>amp.
     rbind (get_d xs amp) (\<lambda>d.
     let supply = stable_issuance D s (lp_currency_id (meta_info mp)) in
     if supply \<noteq> 0 then mul_div_balance d BASE_VIRTUAL_PRICE_PRECISION supply else Inl (Err ()))))"

primrec base_price_fuel :: "nat \<Rightarrow> ('a, 'c, 'x) stable_config \<Rightarrow> ('a, 'c) meta_pool \<Rightarrow> ('a, 'c, 'x) stable \<Rightarrow> nat computed" where
  "base_price_fuel 0 D mp s = Inl Diverge"
| "base_price_fuel (Suc fuel) D mp s =
     (if cache_expired s mp then
        rbind (opt (Pools s (base_pool_id mp))) (\<lambda>pool.
        case pool of
          Base bp \<Rightarrow> calculate_base_virtual_price D bp s
        | Meta mp' \<Rightarrow> rbind (base_price_fuel fuel D mp' s) (meta_price_at D mp' s))
      else Inr (base_virtual_price mp))"

definition meta_pool_base_virtual_price ::
  "('a, 'c, 'x) stable_config \<Rightarrow> ('a, 'c) meta_pool \<Rightarrow> ('a, 'c, 'x) stable \<Rightarrow> nat computed" where
  "meta_pool_base_virtual_price D mp s = base_price_fuel (Suc (NextPoolId s)) D mp s"

definition calculate_meta_virtual_price ::
  "('a, 'c, 'x) stable_config \<Rightarrow> ('a, 'c) meta_pool \<Rightarrow> ('a, 'c, 'x) stable \<Rightarrow> nat computed" where
  "calculate_meta_virtual_price D mp s = rbind (meta_pool_base_virtual_price D mp s) (meta_price_at D mp s)"

definition get_pool_virtual_price ::
  "('a, 'c, 'x) stable_config \<Rightarrow> ('a, 'c) pool \<Rightarrow> ('a, 'c, 'x) stable \<Rightarrow> nat computed" where
  "get_pool_virtual_price D pool s =
     (case pool of Base bp \<Rightarrow> calculate_base_virtual_price D bp s | Meta mp \<Rightarrow> calculate_meta_virtual_price D mp s)"

definition meta_pool_update_virtual_price ::
  "('a, 'c, 'x) stable_config \<Rightarrow> ('a, 'c) meta_pool \<Rightarrow> ('a, 'c, 'x) stable \<Rightarrow> (nat \<times> ('a, 'c) meta_pool) computed" where
  "meta_pool_update_virtual_price D mp s =
     (if cache_expired s mp then
        rbind (opt (Pools s (base_pool_id mp))) (\<lambda>base_pool.
        rbind (get_pool_virtual_price D base_pool s) (\<lambda>price.
        Inr (price, mp\<lparr>base_virtual_price := price, base_cache_last_updated := stable_now s\<rparr>)))
      else Inr (base_virtual_price mp, mp))"

subsection \<open>Supplying liquidity\<close>

text \<open>As in a base pool, but an amount of zero is not transferred.\<close>

fun meta_transfer_amounts_in ::
  "('a, 'c, 'x) stable_config \<Rightarrow> bool \<Rightarrow> 'a \<Rightarrow> 'a \<Rightarrow> 'c list \<Rightarrow> nat list \<Rightarrow> nat list \<Rightarrow>
   ('a, 'c, 'x, nat list) stable_action" where
  "meta_transfer_amounts_in D first who account (c # cs) (amount # amounts) (b # bs) =
     sbind (sensure (\<lambda>_. \<not> first \<or> amount > 0) (stable_error Stable_RequireAllCurrencies)) (\<lambda>_.
     sbind (if amount = 0 then sret b
            else sbind (do_transfer_in D c who account amount) (\<lambda>received. arith (opt (checked_add_w 128 b received)))) (\<lambda>b'.
     sbind (meta_transfer_amounts_in D first who account cs amounts bs) (\<lambda>bs'.
     sret (b' # bs'))))"
| "meta_transfer_amounts_in D first who account [] _ bs = sret bs"
| "meta_transfer_amounts_in D first who account _ _ _ = (\<lambda>_. Inl Panic)"

definition meta_mint_amount ::
  "('a, 'c) meta_pool \<Rightarrow> nat list \<Rightarrow> nat \<Rightarrow> nat \<Rightarrow> nat \<Rightarrow> nat \<Rightarrow> nat \<Rightarrow> (nat \<times> nat list \<times> ('a, 'c) meta_pool) computed" where
  "meta_mint_amount mp new_balances d0 d1 amp price lp_total_supply =
     (let info = meta_info mp in
     rbind (calculate_fee_per_token info) (\<lambda>fee_per_token.
     rbind (imbalance_fees fee_per_token (pool_admin_fee info) d0 d1 (pool_balances info) new_balances)
       (\<lambda>(fees, balances, new_balances).
     rbind (rbind (meta_norm mp price new_balances) (\<lambda>xs. get_d xs amp)) (\<lambda>d2.
     rbind (opt (checked_sub d2 d0)) (\<lambda>n.
     rbind (mul_div_balance n lp_total_supply d0) (\<lambda>mint_amount.
     Inr (mint_amount, fees, mp\<lparr>meta_info := info\<lparr>pool_balances := balances\<rparr>\<rparr>)))))))"

definition meta_pool_add_liquidity ::
  "('a, 'c, 'x) stable_config \<Rightarrow> 'a \<Rightarrow> nat \<Rightarrow> ('a, 'c) meta_pool \<Rightarrow> nat list \<Rightarrow> nat \<Rightarrow> 'a \<Rightarrow>
   ('a, 'c, 'x, nat \<times> ('a, 'c) meta_pool) stable_action" where
  "meta_pool_add_liquidity D who pool_id mp amounts min_mint_amount to_account =
     (let info = meta_info mp; n_currencies = length (currency_ids info) in
     sbind (sensure (\<lambda>_. n_currencies = length amounts) (stable_error Stable_MismatchParameter)) (\<lambda>_.
     sbind (sget (\<lambda>s. stable_issuance D s (lp_currency_id info))) (\<lambda>lp_total_supply.
     sbind (compute (\<lambda>s. get_a_precise (stable_now s) info)) (\<lambda>amp.
     sbind (compute (meta_pool_update_virtual_price D mp)) (\<lambda>(price, mp).
     sbind (arith (if lp_total_supply \<noteq> 0
              then rbind (meta_norm mp price (pool_balances info)) (\<lambda>xs. get_d xs amp) else Inr 0)) (\<lambda>d0.
     sbind (meta_transfer_amounts_in D (lp_total_supply = 0) who (pool_account info) (currency_ids info) amounts
              (pool_balances info)) (\<lambda>new_balances.
     sbind (arith (rbind (meta_norm mp price new_balances) (\<lambda>xs. get_d xs amp))) (\<lambda>d1.
     sbind (sensure (\<lambda>_. d1 > d0) (stable_error Stable_CheckDFailed)) (\<lambda>_.
     sbind (arith (if lp_total_supply \<noteq> 0 then meta_mint_amount mp new_balances d0 d1 amp price lp_total_supply
              else Inr (d1, replicate n_currencies 0, mp\<lparr>meta_info := info\<lparr>pool_balances := new_balances\<rparr>\<rparr>)))
       (\<lambda>(mint_amount, fees, mp').
     sbind (sensure (\<lambda>_. min_mint_amount \<le> mint_amount) (stable_error Stable_AmountSlippage)) (\<lambda>_.
     sbind (on_stable_ledger (mc_deposit (sx_currency D) (lp_currency_id info) to_account mint_amount)) (\<lambda>_.
     sbind (stable_deposit_event (StableAddLiquidity pool_id who to_account amounts fees d1 mint_amount)) (\<lambda>_.
     sret (mint_amount, mp'))))))))))))))"

subsection \<open>Swapping\<close>

definition calculate_meta_swap_amount ::
  "nat \<Rightarrow> ('a, 'c) meta_pool \<Rightarrow> nat \<Rightarrow> nat \<Rightarrow> nat \<Rightarrow> nat \<Rightarrow> (nat \<times> nat) computed" where
  "calculate_meta_swap_amount now mp i j in_amount price =
     (let info = meta_info mp; n_currencies = length (currency_ids info) in
     if i = j \<or> i \<ge> n_currencies \<or> j \<ge> n_currencies then Inl (Err ())
     else
       rbind (meta_norm mp price (pool_balances info)) (\<lambda>xs.
       rbind (opt (checked_sub (length xs) 1)) (\<lambda>base_lp_currency_index.
       rbind (index_or_panic (token_multipliers info) i) (\<lambda>m_i.
       rbind (opt (checked_mul_w 128 in_amount m_i)) (\<lambda>x.
       rbind (if i = base_lp_currency_index then mul_div_balance x price BASE_VIRTUAL_PRICE_PRECISION else Inr x) (\<lambda>x.
       rbind (index_or_panic xs i) (\<lambda>x_i.
       rbind (opt (checked_add_w 128 x x_i)) (\<lambda>x.
       rbind (get_y now info i j x xs) (\<lambda>y.
       rbind (index_or_panic xs j) (\<lambda>x_j.
       rbind (opt (checked_sub x_j y)) (\<lambda>n.
       rbind (opt (checked_sub n 1)) (\<lambda>dy.
       rbind (if j = base_lp_currency_index then mul_div_balance dy BASE_VIRTUAL_PRICE_PRECISION price else Inr dy) (\<lambda>dy.
       rbind (mul_div_balance dy (pool_fee info) FEE_DENOMINATOR) (\<lambda>fee.
       rbind (opt (checked_sub dy fee)) (\<lambda>dy.
       rbind (index_or_panic (token_multipliers info) j) (\<lambda>m_j.
       rbind (opt (checked_div dy m_j)) (\<lambda>dy.
       Inr (dy, fee))))))))))))))))))"

definition meta_pool_swap ::
  "('a, 'c, 'x) stable_config \<Rightarrow> 'a \<Rightarrow> nat \<Rightarrow> ('a, 'c) meta_pool \<Rightarrow> nat \<Rightarrow> nat \<Rightarrow> nat \<Rightarrow> nat \<Rightarrow> 'a \<Rightarrow>
   ('a, 'c, 'x, nat \<times> ('a, 'c) meta_pool) stable_action" where
  "meta_pool_swap D who pool_id mp i j in_amount out_min_amount to_account =
     (let info = meta_info mp; n_currencies = length (currency_ids info) in
     sbind (sensure (\<lambda>_. i < n_currencies \<and> j < n_currencies) (stable_error Stable_CurrencyIndexOutRange)) (\<lambda>_.
     sbind (do_transfer_in D (currency_ids info ! i) who (pool_account info) in_amount) (\<lambda>in_amount.
     sbind (compute (meta_pool_update_virtual_price D mp)) (\<lambda>(price, mp).
     sbind (compute (\<lambda>s. calculate_meta_swap_amount (stable_now s) mp i j in_amount price)) (\<lambda>(dy, dy_fee).
     sbind (sensure (\<lambda>_. dy \<ge> out_min_amount) (stable_error Stable_AmountSlippage)) (\<lambda>_.
     sbind (arith (rbind (mul_div dy_fee (pool_admin_fee info) FEE_DENOMINATOR) (\<lambda>n.
                   rbind (index_or_panic (token_multipliers info) j) (\<lambda>m_j.
                   rbind (opt (checked_div n m_j)) (\<lambda>n. opt (balance_of n)))))) (\<lambda>admin_fee.
     sbind (arith (swap_reserves info i j in_amount dy admin_fee)) (\<lambda>info'.
     sbind (with_error (stable_error Stable_InsufficientReserve)
              (stable_transfer D (currency_ids info ! j) (pool_account info) to_account dy)) (\<lambda>_.
     sbind (stable_deposit_event (CurrencyExchange pool_id who to_account i in_amount j dy)) (\<lambda>_.
     sret (dy, mp\<lparr>meta_info := info'\<rparr>)))))))))))"

subsection \<open>Removing liquidity\<close>

definition calculate_meta_remove_liquidity_one_currency ::
  "('a, 'c, 'x) stable_config \<Rightarrow> ('a, 'c) meta_pool \<Rightarrow> nat \<Rightarrow> nat \<Rightarrow> nat \<Rightarrow> ('a, 'c, 'x) stable \<Rightarrow> (nat \<times> nat) computed" where
  "calculate_meta_remove_liquidity_one_currency D mp token_amount index total_supply s =
     (let info = meta_info mp in
     if index \<ge> length (currency_ids info) then Inl (Err ())
     else
       rbind (meta_pool_base_virtual_price D mp s) (\<lambda>price.
       rbind (meta_norm mp price (pool_balances info)) (\<lambda>xs.
       rbind (get_a_precise (stable_now s) info) (\<lambda>a_precise.
       rbind (get_d xs a_precise) (\<lambda>d0.
       rbind (calculate_fee_per_token info) (\<lambda>fee_per_token.
       rbind (mul_div token_amount d0 total_supply) (\<lambda>n.
       rbind (opt (checked_sub d0 n)) (\<lambda>d1.
       rbind (get_yd info a_precise index xs d1) (\<lambda>new_y.
       rbind (reduce_balances fee_per_token d0 d1 new_y index 0 xs) (\<lambda>xp_reduced.
       rbind (index_or_panic xp_reduced index) (\<lambda>x_red.
       rbind (get_yd info a_precise index xp_reduced d1) (\<lambda>y_red.
       rbind (opt (checked_sub x_red y_red)) (\<lambda>dy.
       rbind (index_or_panic xs index) (\<lambda>x.
       rbind (if index = length xs - 1 then
                rbind (mul_div_balance dy BASE_VIRTUAL_PRICE_PRECISION price) (\<lambda>dy.
                rbind (mul_div_balance new_y BASE_VIRTUAL_PRICE_PRECISION price) (\<lambda>new_y.
                rbind (mul_div_balance x BASE_VIRTUAL_PRICE_PRECISION price) (\<lambda>x. Inr (dy, new_y, x))))
              else Inr (dy, new_y, x)) (\<lambda>(dy, new_y, x).
       rbind (opt (checked_sub dy 1)) (\<lambda>dy.
       rbind (index_or_panic (token_multipliers info) index) (\<lambda>m.
       rbind (opt (checked_div dy m)) (\<lambda>dy.
       rbind (opt (checked_sub x new_y)) (\<lambda>n.
       rbind (opt (checked_div n m)) (\<lambda>n.
       rbind (opt (checked_sub n dy)) (\<lambda>swap_fee.
       Inr (dy, swap_fee))))))))))))))))))))))"

definition meta_pool_remove_liquidity_one_currency ::
  "('a, 'c, 'x) stable_config \<Rightarrow> nat \<Rightarrow> ('a, 'c) meta_pool \<Rightarrow> 'a \<Rightarrow> nat \<Rightarrow> nat \<Rightarrow> nat \<Rightarrow> 'a \<Rightarrow>
   ('a, 'c, 'x, nat \<times> ('a, 'c) meta_pool) stable_action" where
  "meta_pool_remove_liquidity_one_currency D pool_id mp who lp_amount index min_amount to_account =
     (let info = meta_info mp in
     sbind (sget (\<lambda>s. stable_issuance D s (lp_currency_id info))) (\<lambda>total_supply.
     sbind (sensure (\<lambda>s. stable_balance D s (lp_currency_id info) who \<ge> lp_amount \<and> lp_amount \<le> total_supply)
              (stable_error Stable_InsufficientSupply)) (\<lambda>_.
     sbind (sensure (\<lambda>_. index < length (currency_ids info)) (stable_error Stable_CurrencyIndexOutRange)) (\<lambda>_.
     sbind (compute (meta_pool_update_virtual_price D mp)) (\<lambda>(_, mp).
     sbind (compute (calculate_meta_remove_liquidity_one_currency D mp lp_amount index total_supply)) (\<lambda>(dy, dy_fee).
     sbind (sensure (\<lambda>_. dy \<ge> min_amount) (stable_error Stable_AmountSlippage)) (\<lambda>_.
     sbind (arith (take_out info index dy dy_fee)) (\<lambda>info'.
     sbind (on_stable_ledger (mc_withdraw (sx_currency D) (lp_currency_id info) who lp_amount)) (\<lambda>_.
     sbind (stable_transfer D (currency_ids info ! index) (pool_account info) to_account dy) (\<lambda>_.
     sbind (stable_deposit_event (RemoveLiquidityOneCurrency pool_id who to_account index lp_amount dy)) (\<lambda>_.
     sret (dy, mp\<lparr>meta_info := info'\<rparr>))))))))))))"

definition calculate_meta_remove_liquidity_imbalance ::
  "nat \<Rightarrow> ('a, 'c) meta_pool \<Rightarrow> nat list \<Rightarrow> nat \<Rightarrow> nat \<Rightarrow> (nat \<times> nat list \<times> nat \<times> ('a, 'c) meta_pool) computed" where
  "calculate_meta_remove_liquidity_imbalance now mp amounts total_supply price =
     rbind (remove_liquidity_imbalance_quote (meta_norm mp price) now (meta_info mp) amounts total_supply)
       (\<lambda>(burn_amount, fees, d1, info'). Inr (burn_amount, fees, d1, mp\<lparr>meta_info := info'\<rparr>))"

definition meta_pool_remove_liquidity_imbalance ::
  "('a, 'c, 'x) stable_config \<Rightarrow> 'a \<Rightarrow> nat \<Rightarrow> ('a, 'c) meta_pool \<Rightarrow> nat list \<Rightarrow> nat \<Rightarrow> 'a \<Rightarrow>
   ('a, 'c, 'x, unit \<times> ('a, 'c) meta_pool) stable_action" where
  "meta_pool_remove_liquidity_imbalance D who pool_id mp amounts max_burn_amount to_account =
     (let info = meta_info mp in
     sbind (sget (\<lambda>s. stable_issuance D s (lp_currency_id info))) (\<lambda>total_supply.
     sbind (sensure (\<lambda>_. total_supply > 0) (stable_error Stable_InsufficientLpReserve)) (\<lambda>_.
     sbind (sensure (\<lambda>_. length amounts = length (currency_ids info)) (stable_error Stable_MismatchParameter)) (\<lambda>_.
     sbind (compute (meta_pool_update_virtual_price D mp)) (\<lambda>(price, mp).
     sbind (compute (\<lambda>s. calculate_meta_remove_liquidity_imbalance (stable_now s) mp amounts total_supply price))
       (\<lambda>(burn_amount, fees, d1, mp').
     sbind (pay_imbalance D who pool_id info amounts max_burn_amount to_account total_supply burn_amount fees d1) (\<lambda>_.
     sret ((), mp'))))))))"

definition calculate_meta_currency_amount ::
  "('a, 'c, 'x) stable_config \<Rightarrow> ('a, 'c) meta_pool \<Rightarrow> nat list \<Rightarrow> bool \<Rightarrow> ('a, 'c, 'x) stable \<Rightarrow>
   (dispatch_error, nat) result" where
  "calculate_meta_currency_amount D mp amounts deposit s =
     map_err (\<lambda>_. stable_error Stable_Arithmetic)
       (rbind (meta_pool_base_virtual_price D mp s) (\<lambda>price.
        rbind (get_a_precise (stable_now s) (meta_info mp)) (\<lambda>a.
        currency_amount_quote (meta_norm mp price) (pool_balances (meta_info mp)) amounts deposit a
          (stable_issuance D s (lp_currency_id (meta_info mp))))))"

end
