(* ===== verification/Stable_Calls.thy ===== *)
theory Stable_Calls
  imports Stable_Meta
begin

text \<open>
  The dispatchables of the stable exchange and the functions behind them (\<^verbatim>\<open>src/crates/dex-stable/src/lib.rs\<close>),
  and the queries of \<^verbatim>\<open>rpc.rs\<close> and \<^verbatim>\<open>traits.rs\<close>. \<open>mutate_pool\<close> is \<^verbatim>\<open>Pools::try_mutate_exists\<close>: the pool is
  read, the body works on the copy, and the copy is written at the end, also over what calls in the body
  have stored under the same identifier.
\<close>

subsection \<open>Access to the pools\<close>

definition mutate_pool ::
  "nat \<Rightarrow> (('a, 'c) pool \<Rightarrow> ('a, 'c, 'x, 'r \<times> ('a, 'c) pool) stable_action) \<Rightarrow> ('a, 'c, 'x, 'r) stable_action" where
  "mutate_pool pool_id body =
     sbind (slift (\<lambda>s. ok_or (Pools s pool_id) (stable_error Stable_InvalidPoolId))) (\<lambda>pool.
     sbind (body pool) (\<lambda>(r, pool').
     sbind (smod (\<lambda>s. s\<lparr>Pools := (Pools s)(pool_id \<mapsto> pool')\<rparr>)) (\<lambda>_.
     sret r)))"

definition on_base :: "('r \<times> ('a, 'c) base_pool) \<Rightarrow> 'r \<times> ('a, 'c) pool" where
  "on_base p = (fst p, Base (snd p))"

definition on_meta :: "('r \<times> ('a, 'c) meta_pool) \<Rightarrow> 'r \<times> ('a, 'c) pool" where
  "on_meta p = (fst p, Meta (snd p))"

text \<open>The body that distinguishes the two kinds of pool.\<close>

definition by_kind ::
  "(('a, 'c) base_pool \<Rightarrow> ('a, 'c, 'x, 'r \<times> ('a, 'c) base_pool) stable_action) \<Rightarrow>
   (('a, 'c) meta_pool \<Rightarrow> ('a, 'c, 'x, 'r \<times> ('a, 'c) meta_pool) stable_action) \<Rightarrow>
   ('a, 'c) pool \<Rightarrow> ('a, 'c, 'x, 'r \<times> ('a, 'c) pool) stable_action" where
  "by_kind f g pool = (case pool of
       Base bp \<Rightarrow> sbind (f bp) (\<lambda>p. sret (on_base p))
     | Meta mp \<Rightarrow> sbind (g mp) (\<lambda>p. sret (on_meta p)))"

text \<open>The body that works on the part both kinds share.\<close>

definition on_info ::
  "(('a, 'c) base_pool \<Rightarrow> ('a, 'c, 'x, 'r \<times> ('a, 'c) base_pool) stable_action) \<Rightarrow>
   ('a, 'c) pool \<Rightarrow> ('a, 'c, 'x, 'r \<times> ('a, 'c) pool) stable_action" where
  "on_info f pool = sbind (f (pool_info pool)) (\<lambda>(r, p). sret (r, update_info (\<lambda>_. p) pool))"

subsection \<open>Creation of pools\<close>

definition insert_pool :: "nat \<Rightarrow> ('a, 'c) pool \<Rightarrow> ('a, 'c) stable_event \<Rightarrow> ('a, 'c, 'x) stable_config \<Rightarrow> ('a, 'c, 'x, unit) stable_action" where
  "insert_pool pool_id pool event D =
     sbind (smod (\<lambda>s. s\<lparr>LpCurrencies := (LpCurrencies s)(get_lp_currency pool \<mapsto> pool_id)\<rparr>)) (\<lambda>_.
     sbind (slift (\<lambda>s. ok_or (checked_add_w (sx_pool_id_bits D) (NextPoolId s) 1) (stable_error Stable_Arithmetic))) (\<lambda>next_id.
     sbind (smod (\<lambda>s. s\<lparr>NextPoolId := next_id\<rparr>)) (\<lambda>_.
     sbind (sensure (\<lambda>s. Pools s pool_id = None) (stable_error Stable_InvalidPoolId)) (\<lambda>_.
     sbind (smod (\<lambda>s. s\<lparr>Pools := (Pools s)(pool_id \<mapsto> pool)\<rparr>)) (\<lambda>_.
     stable_deposit_event event)))))"

definition create_base_pool ::
  "('a, 'c, 'x) stable_config \<Rightarrow> 'a origin \<Rightarrow> 'c list \<Rightarrow> nat list \<Rightarrow> nat \<Rightarrow> nat \<Rightarrow> nat \<Rightarrow> 'a \<Rightarrow> nat list \<Rightarrow>
   ('a, 'c, 'x, unit) stable_action" where
  "create_base_pool D origin currencies currency_decimals a fee admin_fee admin_fee_receiver lp_symbol =
     sbind (slift (\<lambda>_. ensure_root origin)) (\<lambda>_.
     sbind (inner_create_base_pool D currencies currency_decimals a fee admin_fee admin_fee_receiver lp_symbol)
       (\<lambda>(new_pool, pool_id).
     insert_pool pool_id (Base new_pool)
       (CreatePool pool_id currencies (lp_currency_id new_pool) a (pool_account new_pool) fee admin_fee admin_fee_receiver) D))"

definition create_meta_pool ::
  "('a, 'c, 'x) stable_config \<Rightarrow> 'a origin \<Rightarrow> 'c list \<Rightarrow> nat list \<Rightarrow> nat \<Rightarrow> nat \<Rightarrow> nat \<Rightarrow> 'a \<Rightarrow> nat list \<Rightarrow>
   ('a, 'c, 'x, unit) stable_action" where
  "create_meta_pool D origin currencies currency_decimals a fee admin_fee admin_fee_receiver lp_symbol =
     sbind (slift (\<lambda>_. ensure_root origin)) (\<lambda>_.
     sbind (sensure (\<lambda>_. currencies \<noteq> []) (stable_error Stable_MismatchParameter)) (\<lambda>_.
     sbind (slift (\<lambda>s. ok_or (LpCurrencies s (last currencies)) (stable_error Stable_InvalidBasePoolLpCurrency))) (\<lambda>base_id.
     sbind (inner_create_base_pool D currencies currency_decimals a fee admin_fee admin_fee_receiver lp_symbol)
       (\<lambda>(meta_pool_info, pool_id).
     sbind (slift (\<lambda>s. ok_or (Pools s base_id) (stable_error Stable_InvalidBasePoolLpCurrency))) (\<lambda>base_pool.
     sbind (compute (get_pool_virtual_price D base_pool)) (\<lambda>base_pool_virtual_price.
     sbind (sget stable_now) (\<lambda>now.
     insert_pool pool_id
       (Meta \<lparr>base_pool_id = base_id, base_virtual_price = base_pool_virtual_price, base_cache_last_updated = now,
              base_currencies = get_currency_ids base_pool, meta_info = meta_pool_info\<rparr>)
       (CreatePool pool_id currencies (lp_currency_id meta_pool_info) a (pool_account meta_pool_info) fee admin_fee
          admin_fee_receiver) D)))))))"

subsection \<open>Operations on one pool\<close>

definition stable_inner_add_liquidity ::
  "('a, 'c, 'x) stable_config \<Rightarrow> 'a \<Rightarrow> nat \<Rightarrow> nat list \<Rightarrow> nat \<Rightarrow> 'a \<Rightarrow> ('a, 'c, 'x, nat) stable_action" where
  "stable_inner_add_liquidity D who pool_id amounts min_mint_amount to_account =
     mutate_pool pool_id (by_kind
       (\<lambda>bp. base_pool_add_liquidity D who pool_id bp amounts min_mint_amount to_account)
       (\<lambda>mp. meta_pool_add_liquidity D who pool_id mp amounts min_mint_amount to_account))"

definition inner_swap ::
  "('a, 'c, 'x) stable_config \<Rightarrow> 'a \<Rightarrow> nat \<Rightarrow> nat \<Rightarrow> nat \<Rightarrow> nat \<Rightarrow> nat \<Rightarrow> 'a \<Rightarrow> ('a, 'c, 'x, nat) stable_action" where
  "inner_swap D who pool_id i j in_amount out_min_amount to_account =
     sbind (sensure (\<lambda>_. i \<noteq> j) (stable_error Stable_SwapSameCurrency)) (\<lambda>_.
     mutate_pool pool_id (by_kind
       (\<lambda>bp. base_pool_swap D who pool_id bp i j in_amount out_min_amount to_account)
       (\<lambda>mp. meta_pool_swap D who pool_id mp i j in_amount out_min_amount to_account)))"

text \<open>The loop that checks, books and pays the share of every currency.\<close>

fun pay_shares ::
  "('a, 'c, 'x) stable_config \<Rightarrow> 'a \<Rightarrow> 'a \<Rightarrow> 'c list \<Rightarrow> nat list \<Rightarrow> nat list \<Rightarrow> nat list \<Rightarrow>
   ('a, 'c, 'x, nat list) stable_action" where
  "pay_shares D account to_account (c # cs) (m # min_amounts) (b # bs) (amount # amounts) =
     sbind (sensure (\<lambda>_. amount \<ge> m) (stable_error Stable_AmountSlippage)) (\<lambda>_.
     sbind (arith (opt (checked_sub b amount))) (\<lambda>b'.
     sbind (stable_transfer D c account to_account amount) (\<lambda>_.
     sbind (pay_shares D account to_account cs min_amounts bs amounts) (\<lambda>bs'.
     sret (b' # bs')))))"
| "pay_shares D account to_account _ _ bs [] = sret bs"
| "pay_shares D account to_account _ _ _ (amount # amounts) = (\<lambda>_. Inl Panic)"

definition remove_shares ::
  "('a, 'c, 'x) stable_config \<Rightarrow> nat \<Rightarrow> 'a \<Rightarrow> nat \<Rightarrow> nat list \<Rightarrow> 'a \<Rightarrow> ('a, 'c) base_pool \<Rightarrow>
   ('a, 'c, 'x, unit \<times> ('a, 'c) base_pool) stable_action" where
  "remove_shares D pool_id who lp_amount min_amounts to_account pool =
     sbind (sget (\<lambda>s. stable_issuance D s (lp_currency_id pool))) (\<lambda>lp_total_supply.
     sbind (sensure (\<lambda>_. lp_total_supply \<ge> lp_amount) (stable_error Stable_InsufficientReserve)) (\<lambda>_.
     sbind (sensure (\<lambda>_. length (currency_ids pool) = length min_amounts) (stable_error Stable_MismatchParameter)) (\<lambda>_.
     sbind (compute (calculate_base_remove_liquidity D pool lp_amount)) (\<lambda>amounts.
     sbind (pay_shares D (pool_account pool) to_account (currency_ids pool) min_amounts (pool_balances pool) amounts) (\<lambda>balances.
     sbind (on_stable_ledger (mc_withdraw (sx_currency D) (lp_currency_id pool) who lp_amount)) (\<lambda>_.
     sbind (stable_deposit_event (StableRemoveLiquidity pool_id who to_account amounts
              (replicate (length (currency_ids pool)) 0) (lp_total_supply - lp_amount))) (\<lambda>_.
     sret ((), pool\<lparr>pool_balances := balances\<rparr>))))))))"

definition stable_inner_remove_liquidity ::
  "('a, 'c, 'x) stable_config \<Rightarrow> nat \<Rightarrow> 'a \<Rightarrow> nat \<Rightarrow> nat list \<Rightarrow> 'a \<Rightarrow> ('a, 'c, 'x, unit) stable_action" where
  "stable_inner_remove_liquidity D pool_id who lp_amount min_amounts to_account =
     sbind (sensure (\<lambda>_. lp_amount \<noteq> 0) (stable_error Stable_InvalidTransaction)) (\<lambda>_.
     mutate_pool pool_id (on_info (remove_shares D pool_id who lp_amount min_amounts to_account)))"

definition inner_remove_liquidity_one_currency ::
  "('a, 'c, 'x) stable_config \<Rightarrow> nat \<Rightarrow> 'a \<Rightarrow> nat \<Rightarrow> nat \<Rightarrow> nat \<Rightarrow> 'a \<Rightarrow> ('a, 'c, 'x, nat) stable_action" where
  "inner_remove_liquidity_one_currency D pool_id who lp_amount index min_amount to_account =
     sbind (sensure (\<lambda>_. lp_amount \<noteq> 0) (stable_error Stable_InvalidTransaction)) (\<lambda>_.
     mutate_pool pool_id (by_kind
       (\<lambda>bp. base_pool_remove_liquidity_one_currency D pool_id bp who lp_amount index min_amount to_account)
       (\<lambda>mp. meta_pool_remove_liquidity_one_currency D pool_id mp who lp_amount index min_amount to_account)))"

definition inner_remove_liquidity_imbalance ::
  "('a, 'c, 'x) stable_config \<Rightarrow> 'a \<Rightarrow> nat \<Rightarrow> nat list \<Rightarrow> nat \<Rightarrow> 'a \<Rightarrow> ('a, 'c, 'x, unit) stable_action" where
  "inner_remove_liquidity_imbalance D who pool_id amounts max_burn_amount to_account =
     mutate_pool pool_id (by_kind
       (\<lambda>bp. base_pool_remove_liquidity_imbalance D who pool_id bp amounts max_burn_amount to_account)
       (\<lambda>mp. meta_pool_remove_liquidity_imbalance D who pool_id mp amounts max_burn_amount to_account))"

subsection \<open>Operations through a meta pool\<close>

definition stored_pool :: "nat \<Rightarrow> dex_stable_error \<Rightarrow> ('a, 'c, 'x, ('a, 'c) pool) stable_action" where
  "stored_pool pool_id e = slift (\<lambda>s. ok_or (Pools s pool_id) (stable_error e))"

definition ensure_meta_of :: "('a, 'c) pool \<Rightarrow> nat \<Rightarrow> ('a, 'c, 'x, unit) stable_action" where
  "ensure_meta_of pool base_id = (case pool of
       Base _ \<Rightarrow> sfail (stable_error Stable_InvalidPoolId)
     | Meta mp \<Rightarrow> sensure (\<lambda>_. base_pool_id mp = base_id) (stable_error Stable_MismatchParameter))"

text \<open>The index of the last entry that is \<open>c\<close>, which the loops over the currencies of a meta pool compute.\<close>

primrec index_from :: "nat \<Rightarrow> 'c \<Rightarrow> 'c list \<Rightarrow> nat option \<Rightarrow> nat option" where
  "index_from i c [] found = found"
| "index_from i c (d # ds) found = index_from (Suc i) c ds (if d = c then Some i else found)"

definition inner_add_pool_and_base_pool_liquidity ::
  "('a, 'c, 'x) stable_config \<Rightarrow> 'a \<Rightarrow> nat \<Rightarrow> nat \<Rightarrow> nat list \<Rightarrow> nat list \<Rightarrow> nat \<Rightarrow> 'a \<Rightarrow> ('a, 'c, 'x, unit) stable_action" where
  "inner_add_pool_and_base_pool_liquidity D who pool_id base_id meta_amounts base_amounts min_to_mint to_account =
     sbind (stored_pool base_id Stable_InvalidPoolId) (\<lambda>base_pool.
     sbind (stored_pool pool_id Stable_InvalidPoolId) (\<lambda>meta_pool.
     sbind (ensure_meta_of meta_pool base_id) (\<lambda>_.
     let base_lp = get_lp_currency base_pool; currencies = get_currency_ids meta_pool in
     sbind (sensure (\<lambda>_. length meta_amounts = length currencies) (stable_error Stable_MismatchParameter)) (\<lambda>_.
     let deposit_base = list_ex (\<lambda>amount. amount > 0) base_amounts in
     sbind (if deposit_base then stable_inner_add_liquidity D who base_id base_amounts 0 who else sret 0) (\<lambda>base_lp_received.
     sbind (sget (\<lambda>s. stable_balance D s base_lp who)) (\<lambda>base_lp_prior.
     let amounts = map2 (\<lambda>c amount. if c = base_lp then base_lp_received else amount) currencies meta_amounts in
     sbind (stable_inner_add_liquidity D who pool_id amounts min_to_mint to_account) (\<lambda>_.
     if deposit_base then
       sbind (sget (\<lambda>s. stable_balance D s base_lp who)) (\<lambda>base_lp_after.
       sbind (arith (rbind (opt (checked_add_w 128 base_lp_after base_lp_received)) (\<lambda>n. opt (checked_sub n base_lp_prior)))) (\<lambda>n.
       sensure (\<lambda>_. n = 0) (stable_error Stable_AmountSlippage)))
     else sret ())))))))"

definition inner_remove_pool_and_base_pool_liquidity ::
  "('a, 'c, 'x) stable_config \<Rightarrow> 'a \<Rightarrow> nat \<Rightarrow> nat \<Rightarrow> nat \<Rightarrow> nat list \<Rightarrow> nat list \<Rightarrow> 'a \<Rightarrow> ('a, 'c, 'x, unit) stable_action" where
  "inner_remove_pool_and_base_pool_liquidity D who pool_id base_id amount min_amounts_meta min_amounts_base to_account =
     sbind (stored_pool base_id Stable_InvalidPoolId) (\<lambda>base_pool.
     sbind (sget (\<lambda>s. stable_balance D s (get_lp_currency base_pool) who)) (\<lambda>base_lp_amount_before.
     sbind (stable_inner_remove_liquidity D pool_id who amount min_amounts_meta who) (\<lambda>_.
     sbind (sget (\<lambda>s. stable_balance D s (get_lp_currency base_pool) who)) (\<lambda>base_lp_amount_after.
     sbind (arith (opt (checked_sub base_lp_amount_after base_lp_amount_before))) (\<lambda>base_lp_amount.
     stable_inner_remove_liquidity D base_id who base_lp_amount min_amounts_base to_account)))))"

definition inner_remove_pool_and_base_pool_liquidity_one_currency ::
  "('a, 'c, 'x) stable_config \<Rightarrow> 'a \<Rightarrow> nat \<Rightarrow> nat \<Rightarrow> nat \<Rightarrow> nat \<Rightarrow> nat \<Rightarrow> 'a \<Rightarrow> ('a, 'c, 'x, unit) stable_action" where
  "inner_remove_pool_and_base_pool_liquidity_one_currency D who pool_id base_id amount i min_amount to_account =
     sbind (stored_pool base_id Stable_InvalidPoolId) (\<lambda>base_pool.
     sbind (stored_pool pool_id Stable_InvalidPoolId) (\<lambda>meta_pool.
     sbind (ensure_meta_of meta_pool base_id) (\<lambda>_.
     let base_lp = get_lp_currency base_pool in
     sbind (slift (\<lambda>_. ok_or (index_from 0 base_lp (get_currency_ids meta_pool) None) (stable_error Stable_InvalidBasePool))) (\<lambda>base_index.
     sbind (sget (\<lambda>s. stable_balance D s base_lp who)) (\<lambda>before.
     sbind (inner_remove_liquidity_one_currency D pool_id who amount base_index 0 who) (\<lambda>_.
     sbind (sget (\<lambda>s. stable_balance D s base_lp who)) (\<lambda>after.
     sbind (arith (opt (checked_sub after before))) (\<lambda>base_amount.
     sbind (inner_remove_liquidity_one_currency D base_id who base_amount i min_amount to_account) (\<lambda>_.
     sret ())))))))))"

text \<open>\<^verbatim>\<open>vec![0; n]\<close> with one entry set; the assignment panics when the index is not below \<open>n\<close>.\<close>

definition one_amount :: "nat \<Rightarrow> nat \<Rightarrow> nat \<Rightarrow> ('e, nat list) result" where
  "one_amount n i amount = (if i < n then Inr ((replicate n 0)[i := amount]) else Inl Panic)"

definition inner_swap_pool_from_base ::
  "('a, 'c, 'x) stable_config \<Rightarrow> 'a \<Rightarrow> nat \<Rightarrow> nat \<Rightarrow> nat \<Rightarrow> nat \<Rightarrow> nat \<Rightarrow> nat \<Rightarrow> 'a \<Rightarrow> ('a, 'c, 'x, nat) stable_action" where
  "inner_swap_pool_from_base D who meta_pool_id base_id in_index out_index dx min_dy to_account =
     sbind (stored_pool base_id Stable_InvalidBasePool) (\<lambda>base_pool.
     sbind (stored_pool meta_pool_id Stable_InvalidPoolId) (\<lambda>meta_pool.
     sbind (ensure_meta_of meta_pool base_id) (\<lambda>_.
     let base_info = pool_info base_pool in
     sbind (slift (\<lambda>_. ok_or (index_from 0 (lp_currency_id base_info) (currency_ids (pool_info meta_pool)) None)
              (stable_error Stable_MismatchParameter))) (\<lambda>base_index.
     sbind (slift (\<lambda>_. one_amount (length (currency_ids base_info)) in_index dx)) (\<lambda>base_amounts.
     sbind (stable_inner_add_liquidity D who base_id base_amounts 0 who) (\<lambda>base_lp_amount.
     if base_index \<noteq> out_index then inner_swap D who meta_pool_id base_index out_index base_lp_amount min_dy to_account
     else sret 0))))))"

primrec first_index_from :: "nat \<Rightarrow> 'c \<Rightarrow> 'c list \<Rightarrow> nat option" where
  "first_index_from i c [] = None"
| "first_index_from i c (d # ds) = (if d = c then Some i else first_index_from (Suc i) c ds)"

definition get_currency_index :: "('a, 'c, 'x) stable \<Rightarrow> nat \<Rightarrow> 'c \<Rightarrow> nat option" where
  "get_currency_index s pool_id c = (case Pools s pool_id of
       Some pool \<Rightarrow> first_index_from 0 c (get_currency_ids pool)
     | None \<Rightarrow> None)"

definition inner_swap_pool_to_base ::
  "('a, 'c, 'x) stable_config \<Rightarrow> 'a \<Rightarrow> nat \<Rightarrow> nat \<Rightarrow> nat \<Rightarrow> nat \<Rightarrow> nat \<Rightarrow> nat \<Rightarrow> 'a \<Rightarrow> ('a, 'c, 'x, nat) stable_action" where
  "inner_swap_pool_to_base D who pool_id base_id in_index out_index dx min_dy to_account =
     sbind (stored_pool base_id Stable_InvalidPoolId) (\<lambda>base_pool.
     sbind (slift (\<lambda>s. ok_or (get_currency_index s pool_id (get_lp_currency base_pool)) (stable_error Stable_InvalidBasePool))) (\<lambda>base_index.
     sbind (if base_index \<noteq> in_index then inner_swap D who pool_id in_index base_index dx 0 who else sret 0) (\<lambda>base_lp_amount.
     inner_remove_liquidity_one_currency D base_id who base_lp_amount out_index min_dy to_account)))"

end
