(* ===== verification/Stable_Exchange.thy ===== *)
theory Stable_Exchange
  imports Stable_Calls
begin

text \<open>
  The rest of the stable exchange: the swap between a currency of a meta pool and one of its base pool
  (\<^verbatim>\<open>meta_pool.rs\<close>), the queries (\<^verbatim>\<open>traits.rs\<close>, \<^verbatim>\<open>rpc.rs\<close>), and the dispatchables (\<^verbatim>\<open>lib.rs\<close>). The deadline of
  a dispatchable is checked against the block number before anything else happens.
\<close>

subsection \<open>Swaps through the base pool\<close>

text \<open>
  The currencies a meta pool can swap are its own without the last, followed by those of the base pool.
  The result is the currency and the index in the meta pool.
\<close>

definition underlying_currency :: "('a, 'c) meta_pool \<Rightarrow> nat \<Rightarrow> nat \<Rightarrow> (dispatch_error, 'c \<times> nat) result" where
  "underlying_currency mp base_lp_index i =
     (if i < base_lp_index then rbind (index_or_panic (currency_ids (meta_info mp)) i) (\<lambda>c. Inr (c, i))
      else rbind (index_or_panic (base_currencies mp) (i - base_lp_index)) (\<lambda>c. Inr (c, base_lp_index)))"

text \<open>The output in the currency at \<open>meta_to\<close> for the new balance \<open>x\<close> at \<open>meta_from\<close>, and the share of the administrator.\<close>

definition underlying_output ::
  "nat \<Rightarrow> ('a, 'c) base_pool \<Rightarrow> nat list \<Rightarrow> nat \<Rightarrow> nat \<Rightarrow> bool \<Rightarrow> nat \<Rightarrow> nat \<Rightarrow> (nat \<times> nat) computed" where
  "underlying_output now info xs meta_from meta_to to_base price x =
     rbind (get_y now info meta_from meta_to x xs) (\<lambda>y.
     rbind (index_or_panic xs meta_to) (\<lambda>x_to.
     rbind (opt (checked_sub x_to y)) (\<lambda>n.
     rbind (opt (checked_sub n 1)) (\<lambda>dy.
     rbind (if to_base then mul_div_balance dy BASE_VIRTUAL_PRICE_PRECISION price else Inr dy) (\<lambda>dy.
     rbind (mul_div_balance dy (pool_fee info) FEE_DENOMINATOR) (\<lambda>dy_fee.
     rbind (opt (checked_sub dy dy_fee)) (\<lambda>n.
     rbind (index_or_panic (token_multipliers info) meta_to) (\<lambda>m.
     rbind (opt (checked_div n m)) (\<lambda>dy.
     rbind (mul_div_balance dy_fee (pool_admin_fee info) FEE_DENOMINATOR) (\<lambda>n.
     rbind (opt (checked_div n m)) (\<lambda>dy_admin_fee.
     Inr (dy, dy_admin_fee))))))))))))"

text \<open>
  The amount that enters the meta pool and the new balance at the source of the swap: the input itself, or the
  liquidity tokens that the base pool gives for it.
\<close>

definition underlying_input ::
  "('a, 'c, 'x) stable_config \<Rightarrow> ('a, 'c) meta_pool \<Rightarrow> nat list \<Rightarrow> nat \<Rightarrow> nat \<Rightarrow> nat \<Rightarrow> nat \<Rightarrow>
   ('a, 'c, 'x, nat \<times> nat) stable_action" where
  "underlying_input D mp xs price base_lp i dx =
     (if i < base_lp then
        sbind (arith (rbind (index_or_panic (token_multipliers (meta_info mp)) i) (\<lambda>m.
                      rbind (opt (checked_mul_w 128 dx m)) (\<lambda>n.
                      rbind (index_or_panic xs i) (\<lambda>x_i. opt (checked_add_w 128 n x_i)))))) (\<lambda>x.
        sret (dx, x))
      else
        let account = pool_account (meta_info mp) in
        sbind (slift (\<lambda>_. one_amount (length (base_currencies mp)) (i - base_lp) dx)) (\<lambda>base_amounts.
        sbind (stable_inner_add_liquidity D account (base_pool_id mp) base_amounts 0 account) (\<lambda>dx.
        sbind (arith (rbind (mul_div dx price BASE_VIRTUAL_PRICE_PRECISION) (\<lambda>n.
                      rbind (index_or_panic xs base_lp) (\<lambda>x_b.
                      rbind (opt (checked_add_w 256 n x_b)) (\<lambda>n. opt (balance_of n)))))) (\<lambda>x.
        sret (dx, x)))))"

text \<open>What an action adds to the balance of an account.\<close>

definition balance_gain ::
  "('a, 'c, 'x) stable_config \<Rightarrow> 'c \<Rightarrow> 'a \<Rightarrow> ('a, 'c, 'x, 'r) stable_action \<Rightarrow> ('a, 'c, 'x, nat) stable_action" where
  "balance_gain D c account m =
     sbind (sget (\<lambda>s. stable_balance D s c account)) (\<lambda>before.
     sbind m (\<lambda>_.
     sbind (sget (\<lambda>s. stable_balance D s c account)) (\<lambda>after.
     arith (opt (checked_sub after before)))))"

text \<open>The branch in which one of the currencies is the meta pool's own.\<close>

definition underlying_swap ::
  "('a, 'c, 'x) stable_config \<Rightarrow> ('a, 'c) meta_pool \<Rightarrow> nat \<Rightarrow> nat \<Rightarrow> nat \<Rightarrow> nat \<Rightarrow> 'c \<Rightarrow> nat \<Rightarrow> nat \<Rightarrow> nat \<Rightarrow> nat \<Rightarrow>
   ('a, 'c, 'x, nat \<times> ('a, 'c) meta_pool) stable_action" where
  "underlying_swap D mp price base_lp i j currency_to meta_from meta_to dx min_out_amount =
     (let info = meta_info mp; account = pool_account info in
     sbind (arith (meta_norm mp price (pool_balances info))) (\<lambda>xs.
     sbind (underlying_input D mp xs price base_lp i dx) (\<lambda>(dx, x).
     sbind (compute (\<lambda>s. underlying_output (stable_now s) info xs meta_from meta_to (j \<ge> base_lp) price x)) (\<lambda>(dy, dy_admin_fee).
     sbind (arith (rbind (index_or_panic (pool_balances info) meta_from) (\<lambda>b_from.
                   rbind (opt (checked_add_w 128 b_from dx)) (\<lambda>b_from'.
                   rbind (index_or_panic (pool_balances info) meta_to) (\<lambda>b_to.
                   rbind (opt (checked_sub b_to dy)) (\<lambda>n.
                   rbind (opt (checked_sub n dy_admin_fee)) (\<lambda>b_to'.
                   Inr (info\<lparr>pool_balances := (pool_balances info)[meta_from := b_from', meta_to := b_to']\<rparr>)))))))) (\<lambda>info'.
     sbind (if j \<ge> base_lp
            then balance_gain D currency_to account
                   (inner_remove_liquidity_one_currency D (base_pool_id mp) account dy (j - base_lp) 0 account)
            else sret dy) (\<lambda>dy.
     sbind (sensure (\<lambda>_. dy \<ge> min_out_amount) (stable_error Stable_AmountSlippage)) (\<lambda>_.
     sret (dy, mp\<lparr>meta_info := info'\<rparr>))))))))"

definition meta_pool_swap_underlying ::
  "('a, 'c, 'x) stable_config \<Rightarrow> ('a, 'c) meta_pool \<Rightarrow> nat \<Rightarrow> 'a \<Rightarrow> 'a \<Rightarrow> nat \<Rightarrow> nat \<Rightarrow> nat \<Rightarrow> nat \<Rightarrow>
   ('a, 'c, 'x, nat \<times> ('a, 'c) meta_pool) stable_action" where
  "meta_pool_swap_underlying D mp pool_id who to_account in_amount min_out_amount i j =
     (let account = pool_account (meta_info mp) in
     sbind (arith (opt (checked_sub (length (currency_ids (meta_info mp))) 1))) (\<lambda>base_lp.
     sbind (compute (meta_pool_update_virtual_price D mp)) (\<lambda>(price, mp).
     let max_range = base_lp + length (base_currencies mp) in
     sbind (sensure (\<lambda>_. i \<noteq> j \<and> i < max_range \<and> j < max_range) (stable_error Stable_MismatchParameter)) (\<lambda>_.
     sbind (slift (\<lambda>_. underlying_currency mp base_lp i)) (\<lambda>(currency_from, meta_from).
     sbind (slift (\<lambda>_. underlying_currency mp base_lp j)) (\<lambda>(currency_to, meta_to).
     sbind (do_transfer_in D currency_from who account in_amount) (\<lambda>dx.
     sbind (if i < base_lp \<or> j < base_lp
            then underlying_swap D mp price base_lp i j currency_to meta_from meta_to dx min_out_amount
            else
              sbind (balance_gain D currency_to account
                       (inner_swap D account (base_pool_id mp) (i - base_lp) (j - base_lp) dx min_out_amount to_account)) (\<lambda>dy.
              sret (dy, mp))) (\<lambda>(dy, mp').
     sbind (stable_transfer D currency_to account to_account dy) (\<lambda>_.
     sbind (stable_deposit_event (CurrencyExchangeUnderlying pool_id who in_amount dy i j to_account)) (\<lambda>_.
     sret (dy, mp')))))))))))"

subsection \<open>Queries\<close>

text \<open>The queries of \<^verbatim>\<open>traits.rs\<close>; an unknown pool is \<open>None\<close> or the error \<open>InvalidPoolId\<close>.\<close>

definition calculate_currency_amount ::
  "('a, 'c, 'x) stable_config \<Rightarrow> nat \<Rightarrow> nat list \<Rightarrow> bool \<Rightarrow> ('a, 'c, 'x) stable \<Rightarrow> (dispatch_error, nat) result" where
  "calculate_currency_amount D pool_id amounts deposit s =
     (case Pools s pool_id of
        Some (Base bp) \<Rightarrow> calculate_base_currency_amount D bp amounts deposit s
      | Some (Meta mp) \<Rightarrow> calculate_meta_currency_amount D mp amounts deposit s
      | None \<Rightarrow> Inl (Err (stable_error Stable_InvalidPoolId)))"

definition stable_amm_calculate_remove_liquidity ::
  "('a, 'c, 'x) stable_config \<Rightarrow> nat \<Rightarrow> nat \<Rightarrow> ('a, 'c, 'x) stable \<Rightarrow> nat list computed" where
  "stable_amm_calculate_remove_liquidity D pool_id amount s =
     rbind (opt (Pools s pool_id)) (\<lambda>pool. calculate_base_remove_liquidity D (pool_info pool) amount s)"

definition stable_amm_calculate_swap_amount ::
  "('a, 'c, 'x) stable_config \<Rightarrow> nat \<Rightarrow> nat \<Rightarrow> nat \<Rightarrow> nat \<Rightarrow> ('a, 'c, 'x) stable \<Rightarrow> nat computed" where
  "stable_amm_calculate_swap_amount D pool_id i j in_balance s =
     rbind (opt (Pools s pool_id)) (\<lambda>pool. case pool of
        Base bp \<Rightarrow> calculate_base_swap_amount (stable_now s) bp i j in_balance
      | Meta mp \<Rightarrow>
          rbind (calculate_meta_virtual_price D mp s) (\<lambda>virtual_price.
          rbind (calculate_meta_swap_amount (stable_now s) mp i j in_balance virtual_price) (\<lambda>res. Inr (fst res))))"

definition stable_amm_calculate_remove_liquidity_one_currency ::
  "('a, 'c, 'x) stable_config \<Rightarrow> nat \<Rightarrow> nat \<Rightarrow> nat \<Rightarrow> ('a, 'c, 'x) stable \<Rightarrow> nat computed" where
  "stable_amm_calculate_remove_liquidity_one_currency D pool_id amount index s =
     rbind (opt (Pools s pool_id)) (\<lambda>pool.
     rbind (case pool of
        Base bp \<Rightarrow> calculate_base_remove_liquidity_one_token D bp amount index s
      | Meta mp \<Rightarrow> calculate_meta_remove_liquidity_one_currency D mp amount index
                     (stable_issuance D s (lp_currency_id (meta_info mp))) s) (\<lambda>res.
     Inr (fst res)))"

text \<open>\<^verbatim>\<open>ok_or(Error::<T>::Arithmetic)\<close> outside an action.\<close>

definition or_arith :: "'r computed \<Rightarrow> (dispatch_error, 'r) result" where
  "or_arith m = map_err (\<lambda>_. stable_error Stable_Arithmetic) m"

text \<open>The estimate of the new balance at the source of the swap, and its index in the meta pool.\<close>

definition underlying_input_quote ::
  "('a, 'c, 'x) stable_config \<Rightarrow> ('a, 'c) meta_pool \<Rightarrow> nat list \<Rightarrow> nat \<Rightarrow> nat \<Rightarrow> nat \<Rightarrow> nat \<Rightarrow> ('a, 'c, 'x) stable \<Rightarrow>
   (dispatch_error, nat \<times> nat) result" where
  "underlying_input_quote D mp xs price base_lp i in_amount s =
     (if i < base_lp then
        or_arith (rbind (index_or_panic (token_multipliers (meta_info mp)) i) (\<lambda>m.
                  rbind (opt (checked_mul_w 128 in_amount m)) (\<lambda>n.
                  rbind (index_or_panic xs i) (\<lambda>x_i.
                  rbind (opt (checked_add_w 128 n x_i)) (\<lambda>x. Inr (x, i))))))
      else
        rbind (one_amount (length (base_currencies mp)) (i - base_lp) in_amount) (\<lambda>base_inputs.
        rbind (calculate_currency_amount D (base_pool_id mp) base_inputs True s) (\<lambda>lp.
        rbind (or_arith (mul_div_balance lp price BASE_VIRTUAL_PRICE_PRECISION)) (\<lambda>x.
        rbind (ok_or (Pools s (base_pool_id mp)) (stable_error Stable_InvalidBasePool)) (\<lambda>base_pool.
        or_arith (rbind (mul_div x (get_pool_fee base_pool) (FEE_DENOMINATOR * 2)) (\<lambda>n.
                  rbind (opt (checked_sub x n)) (\<lambda>n.
                  rbind (index_or_panic xs base_lp) (\<lambda>x_b.
                  rbind (opt (checked_add_w 256 n x_b)) (\<lambda>n.
                  rbind (opt (balance_of n)) (\<lambda>x. Inr (x, base_lp))))))))))))"

definition underlying_output_quote ::
  "('a, 'c, 'x) stable_config \<Rightarrow> ('a, 'c) meta_pool \<Rightarrow> nat list \<Rightarrow> nat \<Rightarrow> nat \<Rightarrow> nat \<Rightarrow> nat \<Rightarrow> nat \<Rightarrow> ('a, 'c, 'x) stable \<Rightarrow>
   nat computed" where
  "underlying_output_quote D mp xs price base_lp meta_from j x s =
     (let info = meta_info mp; meta_to = (if j < base_lp then j else base_lp) in
     rbind (get_y (stable_now s) info meta_from meta_to x xs) (\<lambda>y.
     rbind (index_or_panic xs meta_to) (\<lambda>x_to.
     rbind (opt (checked_sub x_to y)) (\<lambda>n.
     rbind (opt (checked_sub n 1)) (\<lambda>dy.
     rbind (mul_div_balance dy (pool_fee info) FEE_DENOMINATOR) (\<lambda>dy_fee.
     rbind (opt (checked_sub dy dy_fee)) (\<lambda>dy.
     if j < base_lp then
       rbind (index_or_panic (token_multipliers info) meta_to) (\<lambda>m. opt (checked_div dy m))
     else
       rbind (mul_div_balance dy BASE_VIRTUAL_PRICE_PRECISION price) (\<lambda>amount.
       stable_amm_calculate_remove_liquidity_one_currency D (base_pool_id mp) amount (j - base_lp) s))))))))"

definition calculate_meta_swap_underlying ::
  "('a, 'c, 'x) stable_config \<Rightarrow> nat \<Rightarrow> nat \<Rightarrow> nat \<Rightarrow> nat \<Rightarrow> ('a, 'c, 'x) stable \<Rightarrow> (dispatch_error, nat) result" where
  "calculate_meta_swap_underlying D pool_id in_amount i j s =
     (case Pools s pool_id of
        Some (Meta mp) \<Rightarrow>
          rbind (or_arith (opt (checked_sub (length (currency_ids (meta_info mp))) 1))) (\<lambda>base_lp.
          rbind (or_arith (calculate_meta_virtual_price D mp s)) (\<lambda>price.
          let max_range = base_lp + length (base_currencies mp) in
          rbind (rensure (i \<noteq> j \<and> i < max_range \<and> j < max_range) (stable_error Stable_MismatchParameter)) (\<lambda>_.
          rbind (or_arith (meta_norm mp price (pool_balances (meta_info mp)))) (\<lambda>xs.
          if i \<ge> base_lp \<and> j \<ge> base_lp then
            or_arith (stable_amm_calculate_swap_amount D (base_pool_id mp) (i - base_lp) (j - base_lp) in_amount s)
          else
            rbind (underlying_input_quote D mp xs price base_lp i in_amount s) (\<lambda>(x, meta_from).
            or_arith (underlying_output_quote D mp xs price base_lp meta_from j x s))))))
      | _ \<Rightarrow> Inl (Err (stable_error Stable_InvalidPoolId)))"

text \<open>The queries of \<^verbatim>\<open>rpc.rs\<close>; \<open>or_default\<close> is \<^verbatim>\<open>unwrap_or_default\<close>, through which a panic passes.\<close>

definition or_default :: "nat computed \<Rightarrow> nat computed" where
  "or_default m = (case m of Inl (Err _) \<Rightarrow> Inr 0 | _ \<Rightarrow> m)"

definition get_virtual_price :: "('a, 'c, 'x) stable_config \<Rightarrow> nat \<Rightarrow> ('a, 'c, 'x) stable \<Rightarrow> nat computed" where
  "get_virtual_price D pool_id s = (case Pools s pool_id of
       Some pool \<Rightarrow> or_default (get_pool_virtual_price D pool s)
     | None \<Rightarrow> Inr 0)"

definition get_a_precise_by_id :: "nat \<Rightarrow> ('a, 'c, 'x) stable \<Rightarrow> nat computed" where
  "get_a_precise_by_id pool_id s = (case Pools s pool_id of
       Some pool \<Rightarrow> or_default (get_a_precise (stable_now s) (pool_info pool))
     | None \<Rightarrow> Inr 0)"

definition get_a :: "nat \<Rightarrow> ('a, 'c, 'x) stable \<Rightarrow> nat computed" where
  "get_a pool_id s = (case Pools s pool_id of
       Some pool \<Rightarrow> rbind (or_default (get_a_precise (stable_now s) (pool_info pool))) (\<lambda>a. Inr (a div A_PRECISION))
     | None \<Rightarrow> Inr 0)"

definition get_currencies :: "nat \<Rightarrow> ('a, 'c, 'x) stable \<Rightarrow> 'c list" where
  "get_currencies pool_id s = (case Pools s pool_id of Some pool \<Rightarrow> get_currency_ids pool | None \<Rightarrow> [])"

definition get_currency :: "nat \<Rightarrow> nat \<Rightarrow> ('a, 'c, 'x) stable \<Rightarrow> 'c computed" where
  "get_currency pool_id index s = (case Pools s pool_id of
       Some pool \<Rightarrow>
         (let ids = get_currency_ids pool in
          if length ids < index then index_or_panic ids index else Inl (Err ()))
     | None \<Rightarrow> Inl (Err ()))"

definition get_lp_currency_by_id :: "nat \<Rightarrow> ('a, 'c, 'x) stable \<Rightarrow> 'c option" where
  "get_lp_currency_by_id pool_id s = map_option get_lp_currency (Pools s pool_id)"

definition get_currency_precision_multipliers :: "nat \<Rightarrow> ('a, 'c, 'x) stable \<Rightarrow> nat list" where
  "get_currency_precision_multipliers pool_id s =
     (case Pools s pool_id of Some pool \<Rightarrow> token_multipliers (pool_info pool) | None \<Rightarrow> [])"

definition get_currency_balances :: "nat \<Rightarrow> ('a, 'c, 'x) stable \<Rightarrow> nat list" where
  "get_currency_balances pool_id s = (case Pools s pool_id of Some pool \<Rightarrow> pool_balances (pool_info pool) | None \<Rightarrow> [])"

definition get_number_of_currencies :: "nat \<Rightarrow> ('a, 'c, 'x) stable \<Rightarrow> nat" where
  "get_number_of_currencies pool_id s = (case Pools s pool_id of Some pool \<Rightarrow> length (get_currency_ids pool) | None \<Rightarrow> 0)"

definition get_admin_balance :: "('a, 'c, 'x) stable_config \<Rightarrow> nat \<Rightarrow> nat \<Rightarrow> ('a, 'c, 'x) stable \<Rightarrow> nat computed" where
  "get_admin_balance D pool_id currency_index s =
     rbind (opt (Pools s pool_id)) (\<lambda>general_pool.
     let pool = pool_info general_pool in
     if currency_index \<ge> length (currency_ids pool) then Inl (Err ())
     else
       let balance = stable_balance D s (currency_ids pool ! currency_index) (pool_account pool) in
       rbind (index_or_panic (pool_balances pool) currency_index) (\<lambda>b. opt (checked_sub balance b)))"

primrec admin_balances_from :: "('a, 'c, 'x) stable_config \<Rightarrow> nat \<Rightarrow> nat \<Rightarrow> 'c list \<Rightarrow> ('a, 'c, 'x) stable \<Rightarrow> nat list computed" where
  "admin_balances_from D pool_id i [] s = Inr []"
| "admin_balances_from D pool_id i (c # cs) s =
     rbind (or_default (get_admin_balance D pool_id i s)) (\<lambda>b.
     rbind (admin_balances_from D pool_id (Suc i) cs s) (\<lambda>bs. Inr (b # bs)))"

definition get_admin_balances :: "('a, 'c, 'x) stable_config \<Rightarrow> nat \<Rightarrow> ('a, 'c, 'x) stable \<Rightarrow> nat list computed" where
  "get_admin_balances D pool_id s = (case Pools s pool_id of
       Some pool \<Rightarrow> admin_balances_from D pool_id 0 (get_currency_ids pool) s
     | None \<Rightarrow> Inr [])"

subsection \<open>Dispatchables\<close>

text \<open>What the dispatchables of users begin with.\<close>

definition before_deadline ::
  "'a origin \<Rightarrow> nat \<Rightarrow> ('a \<Rightarrow> ('a, 'c, 'x, 'r) stable_action) \<Rightarrow> ('a, 'c, 'x, unit) stable_action" where
  "before_deadline origin deadline body =
     sbind (slift (\<lambda>_. ensure_signed origin)) (\<lambda>who.
     sbind (sensure (\<lambda>s. deadline > stable_block_number s) (stable_error Stable_Deadline)) (\<lambda>_.
     sbind (body who) (\<lambda>_. sret ())))"

definition stable_add_liquidity ::
  "('a, 'c, 'x) stable_config \<Rightarrow> 'a origin \<Rightarrow> nat \<Rightarrow> nat list \<Rightarrow> nat \<Rightarrow> 'a \<Rightarrow> nat \<Rightarrow> ('a, 'c, 'x, unit) stable_action" where
  "stable_add_liquidity D origin pool_id amounts min_mint_amount to_account deadline =
     before_deadline origin deadline (\<lambda>who. stable_inner_add_liquidity D who pool_id amounts min_mint_amount to_account)"

definition swap ::
  "('a, 'c, 'x) stable_config \<Rightarrow> 'a origin \<Rightarrow> nat \<Rightarrow> nat \<Rightarrow> nat \<Rightarrow> nat \<Rightarrow> nat \<Rightarrow> 'a \<Rightarrow> nat \<Rightarrow> ('a, 'c, 'x, unit) stable_action" where
  "swap D origin pool_id from_index to_index in_amount min_out_amount to_account deadline =
     before_deadline origin deadline (\<lambda>who. inner_swap D who pool_id from_index to_index in_amount min_out_amount to_account)"

definition stable_remove_liquidity ::
  "('a, 'c, 'x) stable_config \<Rightarrow> 'a origin \<Rightarrow> nat \<Rightarrow> nat \<Rightarrow> nat list \<Rightarrow> 'a \<Rightarrow> nat \<Rightarrow> ('a, 'c, 'x, unit) stable_action" where
  "stable_remove_liquidity D origin pool_id lp_amount min_amounts to_account deadline =
     before_deadline origin deadline (\<lambda>who. stable_inner_remove_liquidity D pool_id who lp_amount min_amounts to_account)"

definition remove_liquidity_one_currency ::
  "('a, 'c, 'x) stable_config \<Rightarrow> 'a origin \<Rightarrow> nat \<Rightarrow> nat \<Rightarrow> nat \<Rightarrow> nat \<Rightarrow> 'a \<Rightarrow> nat \<Rightarrow> ('a, 'c, 'x, unit) stable_action" where
  "remove_liquidity_one_currency D origin pool_id lp_amount index min_amount to_account deadline =
     before_deadline origin deadline (\<lambda>who. inner_remove_liquidity_one_currency D pool_id who lp_amount index min_amount to_account)"

definition remove_liquidity_imbalance ::
  "('a, 'c, 'x) stable_config \<Rightarrow> 'a origin \<Rightarrow> nat \<Rightarrow> nat list \<Rightarrow> nat \<Rightarrow> 'a \<Rightarrow> nat \<Rightarrow> ('a, 'c, 'x, unit) stable_action" where
  "remove_liquidity_imbalance D origin pool_id amounts max_burn_amount to_account deadline =
     before_deadline origin deadline (\<lambda>who. inner_remove_liquidity_imbalance D who pool_id amounts max_burn_amount to_account)"

definition add_pool_and_base_pool_liquidity ::
  "('a, 'c, 'x) stable_config \<Rightarrow> 'a origin \<Rightarrow> nat \<Rightarrow> nat \<Rightarrow> nat list \<Rightarrow> nat list \<Rightarrow> nat \<Rightarrow> 'a \<Rightarrow> nat \<Rightarrow> ('a, 'c, 'x, unit) stable_action" where
  "add_pool_and_base_pool_liquidity D origin pool_id base_id meta_amounts base_amounts min_to_mint to_account deadline =
     before_deadline origin deadline (\<lambda>who. 
       inner_add_pool_and_base_pool_liquidity D who pool_id base_id meta_amounts base_amounts min_to_mint to_account)"

definition remove_pool_and_base_pool_liquidity ::
  "('a, 'c, 'x) stable_config \<Rightarrow> 'a origin \<Rightarrow> nat \<Rightarrow> nat \<Rightarrow> nat \<Rightarrow> nat list \<Rightarrow> nat list \<Rightarrow> 'a \<Rightarrow> nat \<Rightarrow> ('a, 'c, 'x, unit) stable_action" where
  "remove_pool_and_base_pool_liquidity D origin pool_id base_id amount min_amounts_meta min_amounts_base to_account deadline =
     before_deadline origin deadline (\<lambda>who. 
       inner_remove_pool_and_base_pool_liquidity D who pool_id base_id amount min_amounts_meta min_amounts_base to_account)"

definition remove_pool_and_base_pool_liquidity_one_currency ::
  "('a, 'c, 'x) stable_config \<Rightarrow> 'a origin \<Rightarrow> nat \<Rightarrow> nat \<Rightarrow> nat \<Rightarrow> nat \<Rightarrow> nat \<Rightarrow> 'a \<Rightarrow> nat \<Rightarrow> ('a, 'c, 'x, unit) stable_action" where
  "remove_pool_and_base_pool_liquidity_one_currency D origin pool_id base_id amount i min_amount to_account deadline =
     before_deadline origin deadline (\<lambda>who. 
       inner_remove_pool_and_base_pool_liquidity_one_currency D who pool_id base_id amount i min_amount to_account)"

definition swap_pool_from_base ::
  "('a, 'c, 'x) stable_config \<Rightarrow> 'a origin \<Rightarrow> nat \<Rightarrow> nat \<Rightarrow> nat \<Rightarrow> nat \<Rightarrow> nat \<Rightarrow> nat \<Rightarrow> 'a \<Rightarrow> nat \<Rightarrow> ('a, 'c, 'x, unit) stable_action" where
  "swap_pool_from_base D origin pool_id base_id in_index out_index dx min_dy to_account deadline =
     before_deadline origin deadline (\<lambda>who. 
       inner_swap_pool_from_base D who pool_id base_id in_index out_index dx min_dy to_account)"

definition swap_pool_to_base ::
  "('a, 'c, 'x) stable_config \<Rightarrow> 'a origin \<Rightarrow> nat \<Rightarrow> nat \<Rightarrow> nat \<Rightarrow> nat \<Rightarrow> nat \<Rightarrow> nat \<Rightarrow> 'a \<Rightarrow> nat \<Rightarrow> ('a, 'c, 'x, unit) stable_action" where
  "swap_pool_to_base D origin pool_id base_id in_index out_index dx min_dy to_account deadline =
     before_deadline origin deadline (\<lambda>who. 
       inner_swap_pool_to_base D who pool_id base_id in_index out_index dx min_dy to_account)"

definition swap_meta_pool_underlying ::
  "('a, 'c, 'x) stable_config \<Rightarrow> 'a origin \<Rightarrow> nat \<Rightarrow> nat \<Rightarrow> nat \<Rightarrow> nat \<Rightarrow> nat \<Rightarrow> 'a \<Rightarrow> nat \<Rightarrow> ('a, 'c, 'x, unit) stable_action" where
  "swap_meta_pool_underlying D origin pool_id in_index out_index dx min_dy to_account deadline =
     before_deadline origin deadline (\<lambda>who. mutate_pool pool_id (\<lambda>pool. case pool of
         Meta mp \<Rightarrow> sbind (meta_pool_swap_underlying D mp pool_id who to_account dx min_dy in_index out_index) (\<lambda>p. sret (on_meta p))
       | Base _ \<Rightarrow> sfail (stable_error Stable_InvalidPoolId)))"

definition update_fee_receiver :: "'a origin \<Rightarrow> nat \<Rightarrow> 'a \<Rightarrow> ('a, 'c, 'x, unit) stable_action" where
  "update_fee_receiver origin pool_id fee_receiver =
     sbind (slift (\<lambda>_. ensure_root origin)) (\<lambda>_.
     mutate_pool pool_id (\<lambda>pool.
       sbind (stable_deposit_event (UpdateAdminFeeReceiver pool_id fee_receiver)) (\<lambda>_.
       sret ((), set_pool_admin_fee_receiver fee_receiver pool))))"

definition set_swap_fee :: "'a origin \<Rightarrow> nat \<Rightarrow> nat \<Rightarrow> ('a, 'c, 'x, unit) stable_action" where
  "set_swap_fee origin pool_id new_swap_fee =
     sbind (slift (\<lambda>_. ensure_root origin)) (\<lambda>_.
     mutate_pool pool_id (\<lambda>pool.
       sbind (sensure (\<lambda>_. new_swap_fee \<le> MAX_SWAP_FEE) (stable_error Stable_ExceedThreshold)) (\<lambda>_.
       sbind (stable_deposit_event (NewSwapFee pool_id new_swap_fee)) (\<lambda>_.
       sret ((), set_pool_fee new_swap_fee pool)))))"

definition set_admin_fee :: "'a origin \<Rightarrow> nat \<Rightarrow> nat \<Rightarrow> ('a, 'c, 'x, unit) stable_action" where
  "set_admin_fee origin pool_id new_admin_fee =
     sbind (slift (\<lambda>_. ensure_root origin)) (\<lambda>_.
     mutate_pool pool_id (\<lambda>pool.
       sbind (sensure (\<lambda>_. new_admin_fee \<le> MAX_ADMIN_FEE) (stable_error Stable_ExceedThreshold)) (\<lambda>_.
       sbind (stable_deposit_event (NewAdminFee pool_id new_admin_fee)) (\<lambda>_.
       sret ((), set_pool_admin_fee new_admin_fee pool)))))"

text \<open>Setting the amplification and its ramp.\<close>

definition set_ramp :: "nat \<Rightarrow> nat \<Rightarrow> nat \<Rightarrow> nat \<Rightarrow> ('a, 'c) base_pool \<Rightarrow> ('a, 'c) base_pool" where
  "set_ramp a0 a1 t0 t1 p = p\<lparr>initial_a := a0, future_a := a1, initial_a_time := t0, future_a_time := t1\<rparr>"

text \<open>The test of a ramp: the target, and the amplification it starts from, both with their precision.\<close>

definition check_ramp :: "nat \<Rightarrow> ('a, 'c) base_pool \<Rightarrow> nat \<Rightarrow> nat \<Rightarrow> (dispatch_error, nat \<times> nat) result" where
  "check_ramp now pool a target_time =
     (let run = map_err (\<lambda>_. stable_error Stable_Arithmetic) in
     rbind (run (opt (checked_add_w 128 (initial_a_time pool) DAY))) (\<lambda>t.
     rbind (rensure (now \<ge> t) (stable_error Stable_RampADelay)) (\<lambda>_.
     rbind (run (opt (checked_add_w 128 now MIN_RAMP_TIME))) (\<lambda>t.
     rbind (rensure (target_time \<ge> t) (stable_error Stable_MinRampTime)) (\<lambda>_.
     rbind (rensure (a > 0 \<and> a < MAX_A) (stable_error Stable_ExceedThreshold)) (\<lambda>_.
     rbind (run (get_a_precise now pool)) (\<lambda>initial_a_precise.
     rbind (run (opt (checked_mul_w 128 a A_PRECISION))) (\<lambda>future_a_precise.
     rbind (if future_a_precise < initial_a_precise then
              rbind (run (opt (checked_mul_w 128 future_a_precise MAX_A_CHANGE))) (\<lambda>n.
              rensure (n \<ge> initial_a_precise) (stable_error Stable_ExceedMaxAChange))
            else
              rbind (run (opt (checked_mul_w 128 initial_a_precise MAX_A_CHANGE))) (\<lambda>n.
              rensure (future_a_precise \<le> n) (stable_error Stable_ExceedMaxAChange))) (\<lambda>_.
     Inr (initial_a_precise, future_a_precise))))))))))"

definition ramp_a :: "'a origin \<Rightarrow> nat \<Rightarrow> nat \<Rightarrow> nat \<Rightarrow> ('a, 'c, 'x, unit) stable_action" where
  "ramp_a origin pool_id a target_time =
     sbind (slift (\<lambda>_. ensure_root origin)) (\<lambda>_.
     sbind (sget stable_now) (\<lambda>now.
     mutate_pool pool_id (on_info (\<lambda>pool.
       sbind (slift (\<lambda>_. check_ramp now pool a target_time)) (\<lambda>(a0, a1).
       sbind (stable_deposit_event (RampA pool_id a0 a1 now target_time)) (\<lambda>_.
       sret ((), set_ramp a0 a1 now target_time pool)))))))"

definition stop_ramp_a :: "'a origin \<Rightarrow> nat \<Rightarrow> ('a, 'c, 'x, unit) stable_action" where
  "stop_ramp_a origin pool_id =
     sbind (slift (\<lambda>_. ensure_root origin)) (\<lambda>_.
     mutate_pool pool_id (on_info (\<lambda>pool.
       sbind (sget stable_now) (\<lambda>now.
       sbind (sensure (\<lambda>_. future_a_time pool > now) (stable_error Stable_AlreadyStoppedRampA)) (\<lambda>_.
       sbind (arith (get_a_precise now pool)) (\<lambda>current_a.
       sbind (stable_deposit_event (StopRampA pool_id current_a now)) (\<lambda>_.
       sret ((), set_ramp current_a current_a now now pool))))))))"

text \<open>The loop that pays what the account of the pool holds beyond the reserves.\<close>

fun collect_fees ::
  "('a, 'c, 'x) stable_config \<Rightarrow> nat \<Rightarrow> 'a \<Rightarrow> 'a \<Rightarrow> 'c list \<Rightarrow> nat list \<Rightarrow> ('a, 'c, 'x, unit) stable_action" where
  "collect_fees D pool_id account receiver (c # cs) (reserve # reserves) =
     sbind (sget (\<lambda>s. stable_balance D s c account)) (\<lambda>held.
     sbind (arith (opt (checked_sub held reserve))) (\<lambda>balance.
     sbind (if balance \<noteq> 0 then stable_transfer D c account receiver balance else sret ()) (\<lambda>_.
     sbind (stable_deposit_event (CollectProtocolFee pool_id c balance)) (\<lambda>_.
     collect_fees D pool_id account receiver cs reserves))))"
| "collect_fees D pool_id account receiver _ [] = sret ()"
| "collect_fees D pool_id account receiver [] (reserve # reserves) = (\<lambda>_. Inl Panic)"

definition withdraw_admin_fee :: "('a, 'c, 'x) stable_config \<Rightarrow> 'a origin \<Rightarrow> nat \<Rightarrow> ('a, 'c, 'x, unit) stable_action" where
  "withdraw_admin_fee D origin pool_id =
     sbind (slift (\<lambda>_. ensure_signed origin)) (\<lambda>_.
     mutate_pool pool_id (on_info (\<lambda>pool.
       sbind (collect_fees D pool_id (pool_account pool) (pool_admin_fee_receiver pool) (currency_ids pool) (pool_balances pool)) (\<lambda>_.
       sret ((), pool)))))"

end
