(* ===== verification/Stable_Reserves.thy ===== *)
theory Stable_Reserves
  imports Stable_Exchange
begin

text \<open>
  What the operations of a pool do to the ledger and to the reserves it has booked. \<open>shifts D s s' db cr\<close> says that
  the run from \<open>s\<close> to \<open>s'\<close> changes only the ledger and the events, takes at most \<open>db\<close> from the balances and puts at
  least \<open>cr\<close> there; shifts compose by addition. \<open>books D p p' db cr\<close> says that the reserves of the pool follow:
  what the operation books on top of the old reserves has come in, and what has gone out is booked.
\<close>

subsection \<open>Movements on the ledger\<close>

definition pay :: "'c \<Rightarrow> 'a \<Rightarrow> nat \<Rightarrow> 'c \<Rightarrow> 'a \<Rightarrow> nat" where
  "pay c a n = (\<lambda>c' a'. if c' = c \<and> a' = a then n else 0)"

fun owed :: "'c list \<Rightarrow> nat list \<Rightarrow> 'c \<Rightarrow> nat" where
  "owed (c # cs) (n # ns) c' = (if c' = c then n else 0) + owed cs ns c'"
| "owed _ _ c' = 0"

definition pays :: "'c list \<Rightarrow> 'a \<Rightarrow> nat list \<Rightarrow> 'c \<Rightarrow> 'a \<Rightarrow> nat" where
  "pays cs a ns = (\<lambda>c' a'. if a' = a then owed cs ns c' else 0)"

definition both :: "('c \<Rightarrow> 'a \<Rightarrow> nat) \<Rightarrow> ('c \<Rightarrow> 'a \<Rightarrow> nat) \<Rightarrow> 'c \<Rightarrow> 'a \<Rightarrow> nat" where
  "both f g = (\<lambda>c a. f c a + g c a)"

abbreviation nothing :: "'c \<Rightarrow> 'a \<Rightarrow> nat" where
  "nothing \<equiv> (\<lambda>_ _. 0)"

definition same_storage :: "('a, 'c, 'x) stable \<Rightarrow> ('a, 'c, 'x) stable \<Rightarrow> bool" where
  "same_storage s s' \<longleftrightarrow> Pools s' = Pools s \<and> LpCurrencies s' = LpCurrencies s \<and> NextPoolId s' = NextPoolId s
     \<and> stable_now s' = stable_now s \<and> stable_block_number s' = stable_block_number s"

definition shifts ::
  "('a, 'c, 'x) stable_config \<Rightarrow> ('a, 'c, 'x) stable \<Rightarrow> ('a, 'c, 'x) stable \<Rightarrow> ('c \<Rightarrow> 'a \<Rightarrow> nat) \<Rightarrow> ('c \<Rightarrow> 'a \<Rightarrow> nat) \<Rightarrow> bool" where
  "shifts D s s' db cr \<longleftrightarrow> same_storage s s'
     \<and> (\<forall>c a. stable_balance D s c a + cr c a \<le> stable_balance D s' c a + db c a)"

lemma shifts_refl: "shifts D s s nothing nothing"
  by (simp add: shifts_def same_storage_def)

lemma shifts_trans:
  assumes "shifts D s t db cr" and "shifts D t v db' cr'"
  shows "shifts D s v (both db db') (both cr cr')"
proof -
  have "same_storage s v" using assms unfolding shifts_def same_storage_def by metis
  moreover have "stable_balance D s c a + both cr cr' c a \<le> stable_balance D v c a + both db db' c a" for c a
  proof -
    have "stable_balance D s c a + cr c a \<le> stable_balance D t c a + db c a"
      and "stable_balance D t c a + cr' c a \<le> stable_balance D v c a + db' c a"
      using assms unfolding shifts_def by blast+
    then show ?thesis unfolding both_def by linarith
  qed
  ultimately show ?thesis unfolding shifts_def by blast
qed

lemma shifts_mono:
  assumes "shifts D s s' db cr" and "\<And>c a. db c a \<le> db' c a" and "\<And>c a. cr' c a \<le> cr c a"
  shows "shifts D s s' db' cr'"
  using assms unfolding shifts_def by (meson add_le_mono le_trans order_refl)

lemma shiftsD: "shifts D s s' db cr \<Longrightarrow> stable_balance D s c a + cr c a \<le> stable_balance D s' c a + db c a"
  by (simp add: shifts_def)

lemma shifts_frame:
  assumes "shifts D s s' db cr"
  shows "Pools s' = Pools s" "LpCurrencies s' = LpCurrencies s" "NextPoolId s' = NextPoolId s"
    "stable_now s' = stable_now s" "stable_block_number s' = stable_block_number s"
  using assms by (auto simp: shifts_def same_storage_def)

lemma shifts_event: "stable_deposit_event e s = Inr (u, s') \<Longrightarrow> shifts D s s' nothing nothing"
  unfolding shifts_def same_storage_def stable_deposit_event_def by (auto simp: stable_balance_def)

definition lawful :: "('a, 'c, 'x) stable_config \<Rightarrow> bool" where
  "lawful D \<longleftrightarrow> multi_currency_laws (sx_currency D)"

lemma on_ledger_run:
  assumes "on_stable_ledger m s = Inr (r, s')"
  obtains x where "m (stable_ledger s) = Inr (r, x)" and "s' = s\<lparr>stable_ledger := x\<rparr>"
  using assms by (auto simp: on_stable_ledger_def rbind_Inr_iff)

lemma ledger_shifts:
  assumes "s' = s\<lparr>stable_ledger := x\<rparr>"
    and "\<And>c a. mc_free_balance (sx_currency D) (stable_ledger s) c a + cr c a \<le> mc_free_balance (sx_currency D) x c a + db c a"
  shows "shifts D s s' db cr"
  using assms(2) unfolding assms(1) shifts_def same_storage_def stable_balance_def by simp

lemma transfer_shifts:
  assumes "lawful D" and "stable_transfer D c a b n s = Inr (u, s')"
  shows "shifts D s s' (pay c a n) (pay c b n)"
proof -
  obtain x where run: "mc_transfer (sx_currency D) c a b n (stable_ledger s) = Inr (u, x)"
    and s': "s' = s\<lparr>stable_ledger := x\<rparr>"
    using assms(2) unfolding stable_transfer_def by (rule on_ledger_run)
  note law = mc_transferD[OF assms(1)[unfolded lawful_def] run]
  show ?thesis
    by (rule ledger_shifts[OF s']) (use law(1) in \<open>auto simp: law(2) balances_moved_def pay_def\<close>)
qed

lemma deposit_shifts:
  assumes "lawful D" and "on_stable_ledger (mc_deposit (sx_currency D) c a n) s = Inr (u, s')"
  shows "shifts D s s' nothing (pay c a n)"
proof -
  obtain x where run: "mc_deposit (sx_currency D) c a n (stable_ledger s) = Inr (u, x)"
    and s': "s' = s\<lparr>stable_ledger := x\<rparr>"
    using assms(2) by (rule on_ledger_run)
  show ?thesis
    by (rule ledger_shifts[OF s']) (auto simp: mc_depositD(1)[OF assms(1)[unfolded lawful_def] run] pay_def)
qed

lemma withdraw_shifts:
  assumes "lawful D" and "on_stable_ledger (mc_withdraw (sx_currency D) c a n) s = Inr (u, s')"
  shows "shifts D s s' (pay c a n) nothing"
proof -
  obtain x where run: "mc_withdraw (sx_currency D) c a n (stable_ledger s) = Inr (u, x)"
    and s': "s' = s\<lparr>stable_ledger := x\<rparr>"
    using assms(2) by (rule on_ledger_run)
  note law = mc_withdrawD[OF assms(1)[unfolded lawful_def] run]
  show ?thesis
    by (rule ledger_shifts[OF s']) (use law(1) in \<open>auto simp: law(2) pay_def\<close>)
qed

text \<open>The results of computations do not touch the state.\<close>

lemma run_compute_iff: "compute m s = Inr (x, s') \<longleftrightarrow> m s = Inr x \<and> s' = s"
  unfolding compute_def run_basic_iff by simp

lemma run_compute [run_elims]:
  "compute m s = Inr (x, s') \<Longrightarrow> (m s = Inr x \<Longrightarrow> s' = s \<Longrightarrow> thesis) \<Longrightarrow> thesis"
  unfolding run_compute_iff by (elim conjE) iprover

declare Pair_inject [run_elims]

lemma opt_Some: "opt m = Inr x \<longleftrightarrow> m = Some x"
  by (simp add: opt_def)

lemma run_with_error: "with_error e m s = Inr p \<longleftrightarrow> m s = Inr p"
  by (simp add: with_error_def)

lemma transfer_in_shifts:
  assumes "lawful D" and "do_transfer_in D c who account n s = Inr (received, s')" and "who \<noteq> account"
  shows "shifts D s s' (pay c who n) (pay c account n)" and "received = n"
proof -
  have "\<exists>u. stable_transfer D c who account n s = Inr (u, s')
      \<and> checked_sub (stable_balance D s' c account) (stable_balance D s c account) = Some received"
    using assms(2) unfolding do_transfer_in_def
    by (elim run_elims, hypsubst_thin) (simp add: run_with_error opt_Some)
  then obtain u where run: "stable_transfer D c who account n s = Inr (u, s')"
    and received: "checked_sub (stable_balance D s' c account) (stable_balance D s c account) = Some received"
    by blast
  show "shifts D s s' (pay c who n) (pay c account n)" by (rule transfer_shifts[OF assms(1) run])
  obtain x where "mc_transfer (sx_currency D) c who account n (stable_ledger s) = Inr (u, x)"
    and "s' = s\<lparr>stable_ledger := x\<rparr>"
    using run unfolding stable_transfer_def by (rule on_ledger_run)
  then have "stable_balance D s' c account = stable_balance D s c account + n"
    using mc_transferD(2)[OF assms(1)[unfolded lawful_def]] assms(3) by (simp add: stable_balance_def balances_moved_def)
  then show "received = n" using received by simp
qed

subsection \<open>Loops over the currencies\<close>

lemma pays_Cons: "pays (c # cs) a (n # ns) = both (pay c a n) (pays cs a ns)"
  by (auto simp: pays_def both_def pay_def fun_eq_iff)

lemma pays_Nil [simp]: "pays [] a ns = nothing" "pays cs a [] = nothing"
proof -
  have "owed [] ns c' = 0" and "owed cs [] c' = 0" for c' by (cases ns; cases cs; simp)+
  then show "pays [] a ns = nothing" "pays cs a [] = nothing" by (auto simp: pays_def fun_eq_iff)
qed

lemma pay_zero [simp]: "pay c a 0 = nothing"
  by (auto simp: pay_def fun_eq_iff)

lemma both_nothing [simp]: "both nothing f = f" "both f nothing = f"
  by (auto simp: both_def fun_eq_iff)

lemma owed_nth:
  "distinct cs \<Longrightarrow> length ns = length cs \<Longrightarrow> k < length cs \<Longrightarrow> owed cs ns (cs ! k) = ns ! k"
proof (induction cs ns arbitrary: k rule: list_induct2')
  case (4 c cs n ns)
  have absent: "owed cs ns c' = 0" if "c' \<notin> set cs" for c'
    using that by (induction cs ns rule: list_induct2') auto
  show ?case using 4 absent by (cases k) (auto simp: nth_Cons')
qed simp_all

text \<open>What the loops do to the reserves they work on.\<close>

definition added :: "nat list \<Rightarrow> nat list \<Rightarrow> nat list \<Rightarrow> bool" where
  "added bs ns bs' \<longleftrightarrow> (length ns = length bs \<longrightarrow> length bs' = length bs \<and> (\<forall>k<length bs. bs' ! k = bs ! k + ns ! k))"

definition taken :: "nat list \<Rightarrow> nat list \<Rightarrow> nat list \<Rightarrow> bool" where
  "taken bs ns bs' \<longleftrightarrow> (length ns = length bs \<longrightarrow> length bs' = length bs \<and> (\<forall>k<length bs. bs' ! k + ns ! k = bs ! k))"

lemma added_Cons: "added bs ns bs' \<Longrightarrow> added (b # bs) (n # ns) ((b + n) # bs')"
  by (auto simp: added_def nth_Cons split: nat.splits)

lemma taken_Cons: "taken bs ns bs' \<Longrightarrow> n \<le> b \<Longrightarrow> taken (b # bs) (n # ns) ((b - n) # bs')"
  by (auto simp: taken_def nth_Cons split: nat.splits)

lemma transfer_amounts_in_shifts:
  assumes "lawful D" and "who \<noteq> account" and "transfer_amounts_in D first who account cs ns bs s = Inr (bs', s')"
    and "length bs = length cs"
  shows "shifts D s s' (pays cs who ns) (pays cs account ns) \<and> added bs ns bs'"
  using assms
proof (induction D first who account cs ns bs arbitrary: s s' bs' rule: transfer_amounts_in.induct)
  case (1 D first who account c cs n ns b bs)
  show ?case
    using 1(4) unfolding transfer_amounts_in.simps
  proof (elim run_elims, hypsubst_thin)
    fix received s1 b' cs' s2 and u :: unit
    assume pay: "do_transfer_in D c who account n s = Inr (received, s1)"
      and add: "opt (checked_add_w 128 b received) = Inr b'"
      and rest: "transfer_amounts_in D first who account cs ns bs s1 = Inr (cs', s2)"
    note first = transfer_in_shifts[OF 1(2) pay 1(3)]
    have "shifts D s1 s2 (pays cs who ns) (pays cs account ns) \<and> added bs ns cs'" using 1(1)[OF 1(2,3) rest] 1(5) by simp
    then show "shifts D s s2 (pays (c # cs) who (n # ns)) (pays (c # cs) account (n # ns)) \<and> added (b # bs) (n # ns) (b' # cs')"
      using shifts_trans[OF first(1)] add first(2) by (simp add: pays_Cons opt_Some added_Cons)
  qed
qed (auto simp: shifts_refl added_def)

lemma meta_transfer_amounts_in_shifts:
  assumes "lawful D" and "who \<noteq> account" and "meta_transfer_amounts_in D first who account cs ns bs s = Inr (bs', s')"
    and "length bs = length cs"
  shows "shifts D s s' (pays cs who ns) (pays cs account ns) \<and> added bs ns bs'"
  using assms
proof (induction D first who account cs ns bs arbitrary: s s' bs' rule: meta_transfer_amounts_in.induct)
  case (1 D first who account c cs n ns b bs)
  show ?case
    using 1(4) unfolding meta_transfer_amounts_in.simps
  proof (elim run_elims, hypsubst_thin)
    fix b' s1 cs' s2 and u :: unit
    assume head: "(if n = 0 then sret b
        else sbind (do_transfer_in D c who account n) (\<lambda>received. arith (opt (checked_add_w 128 b received)))) s = Inr (b', s1)"
      and rest: "meta_transfer_amounts_in D first who account cs ns bs s1 = Inr (cs', s2)"
    have first: "shifts D s s1 (pay c who n) (pay c account n) \<and> b' = b + n"
    proof (cases "n = 0")
      case True
      then show ?thesis using head shifts_refl[of D s] by simp
    next
      case False
      then have "sbind (do_transfer_in D c who account n) (\<lambda>received. arith (opt (checked_add_w 128 b received))) s = Inr (b', s1)"
        using head by simp
      then show ?thesis
        by (elim run_elims, hypsubst_thin) (use transfer_in_shifts[OF 1(2) _ 1(3)] in \<open>fastforce simp: opt_Some\<close>)
    qed
    have "shifts D s1 s2 (pays cs who ns) (pays cs account ns) \<and> added bs ns cs'" using 1(1)[OF 1(2,3) rest] 1(5) by simp
    then show "shifts D s s2 (pays (c # cs) who (n # ns)) (pays (c # cs) account (n # ns)) \<and> added (b # bs) (n # ns) (b' # cs')"
      using first shifts_trans[of D s s1] by (simp add: pays_Cons added_Cons)
  qed
qed (auto simp: shifts_refl added_def)

lemma transfer_amounts_out_shifts:
  assumes "lawful D" and "transfer_amounts_out D account to_account cs ns s = Inr (u, s')"
  shows "shifts D s s' (pays cs account ns) nothing"
  using assms
proof (induction D account to_account cs ns arbitrary: s s' rule: transfer_amounts_out.induct)
  case (1 D account to_account c cs n ns)
  show ?case
    using 1(3) unfolding transfer_amounts_out.simps
  proof (elim run_elims)
    fix v :: unit and s1
    assume head: "(if n > 0 then stable_transfer D c account to_account n else sret ()) s = Inr (v, s1)"
      and rest: "transfer_amounts_out D account to_account cs ns s1 = Inr (u, s')"
    have "shifts D s s1 (pay c account n) nothing"
    proof (cases "n > 0")
      case True
      then have "stable_transfer D c account to_account n s = Inr (v, s1)" using head by simp
      then show ?thesis by (rule shifts_mono[OF transfer_shifts[OF 1(2)]]) auto
    next
      case False
      then show ?thesis using head shifts_refl[of D s] by simp
    qed
    then show "shifts D s s' (pays (c # cs) account (n # ns)) nothing"
      using shifts_trans[OF _ 1(1)[OF 1(2) rest]] by (simp add: pays_Cons)
  qed
next
  case (3 D account to_account n ns)
  then show ?case by (auto split: if_splits)
qed (auto simp: shifts_refl)

lemma pay_shares_shifts:
  assumes "lawful D" and "pay_shares D account to_account cs ms bs ns s = Inr (bs', s')" and "length bs = length cs"
  shows "shifts D s s' (pays cs account ns) nothing \<and> taken bs ns bs'"
  using assms
proof (induction D account to_account cs ms bs ns arbitrary: s s' bs' rule: pay_shares.induct)
  case (1 D account to_account c cs m ms b bs n ns)
  show ?case
    using 1(3) unfolding pay_shares.simps
  proof (elim run_elims, hypsubst_thin)
    fix b' s1 cs' s2 and u v :: unit
    assume sub: "opt (checked_sub b n) = Inr b'" and pay: "stable_transfer D c account to_account n s = Inr (v, s1)"
      and rest: "pay_shares D account to_account cs ms bs ns s1 = Inr (cs', s2)"
    have first: "shifts D s s1 (pay c account n) nothing" by (rule shifts_mono[OF transfer_shifts[OF 1(2) pay]]) auto
    have "shifts D s1 s2 (pays cs account ns) nothing" "taken bs ns cs'" using 1(1)[OF 1(2) rest] 1(4) by simp_all
    then show "shifts D s s2 (pays (c # cs) account (n # ns)) nothing \<and> taken (b # bs) (n # ns) (b' # cs')"
      using shifts_trans[OF first] sub by (fastforce simp: pays_Cons opt_Some taken_Cons)
  qed
qed (auto simp: shifts_refl taken_def)

subsection \<open>Operations of base pools\<close>

definition wf_info :: "('a, 'c) base_pool \<Rightarrow> bool" where
  "wf_info p \<longleftrightarrow> distinct (currency_ids p) \<and> length (pool_balances p) = length (currency_ids p)
     \<and> length (token_multipliers p) = length (currency_ids p)"

text \<open>The parts of a pool that never change.\<close>

definition static :: "('a, 'c) base_pool \<Rightarrow> ('a, 'c) base_pool \<Rightarrow> bool" where
  "static p p' \<longleftrightarrow> currency_ids p' = currency_ids p \<and> lp_currency_id p' = lp_currency_id p \<and> pool_account p' = pool_account p
     \<and> token_multipliers p' = token_multipliers p \<and> length (pool_balances p') = length (pool_balances p)"

definition books :: "('a, 'c) base_pool \<Rightarrow> ('a, 'c) base_pool \<Rightarrow> ('c \<Rightarrow> 'a \<Rightarrow> nat) \<Rightarrow> ('c \<Rightarrow> 'a \<Rightarrow> nat) \<Rightarrow> bool" where
  "books p p' db cr \<longleftrightarrow> static p p'
     \<and> (\<forall>k<length (currency_ids p). pool_balances p' ! k + db (currency_ids p ! k) (pool_account p)
           \<le> pool_balances p ! k + cr (currency_ids p ! k) (pool_account p))"

lemma booksI:
  assumes "p' = p\<lparr>pool_balances := bs'\<rparr>" and "length bs' = length (pool_balances p)"
    and "\<And>k. k < length (currency_ids p) \<Longrightarrow> bs' ! k + db (currency_ids p ! k) (pool_account p)
           \<le> pool_balances p ! k + cr (currency_ids p ! k) (pool_account p)"
  shows "books p p' db cr"
  using assms unfolding books_def static_def by simp

lemma imbalance_fees_le:
  "imbalance_fees fee admin d0 d1 bs nbs = Inr (fs, bs', nbs') \<Longrightarrow> list_all2 (\<le>) bs' nbs \<and> length bs = length nbs"
  by (induction fee admin d0 d1 bs nbs arbitrary: fs bs' nbs' rule: imbalance_fees.induct)
    (auto simp: rbind_Inr_iff opt_Some)

text \<open>The amounts paid by somebody else arrive, and at most these are booked.\<close>

lemma books_supply:
  assumes "wf_info p" and "who \<noteq> pool_account p" and "length ns = length (currency_ids p)"
    and "added (pool_balances p) ns nbs" and "list_all2 (\<le>) bs' nbs" and "p' = p\<lparr>pool_balances := bs'\<rparr>"
  shows "books p p' (pays (currency_ids p) who ns) (both (pays (currency_ids p) (pool_account p) ns) extra)"
proof (rule booksI[OF assms(6)])
  have len: "length nbs = length (currency_ids p)" and nbs: "\<forall>k<length (currency_ids p). nbs ! k = pool_balances p ! k + ns ! k"
    using assms(1,3,4) by (auto simp: added_def wf_info_def)
  show "length bs' = length (pool_balances p)"
    using assms(1) len list_all2_lengthD[OF assms(5)] by (simp add: wf_info_def)
  fix k assume k: "k < length (currency_ids p)"
  have "bs' ! k \<le> nbs ! k" using assms(5) k len by (simp add: list_all2_conv_all_nth)
  moreover have "owed (currency_ids p) ns (currency_ids p ! k) = ns ! k"
    using assms(1,3) k by (intro owed_nth) (auto simp: wf_info_def)
  ultimately show "bs' ! k + pays (currency_ids p) who ns (currency_ids p ! k) (pool_account p)
      \<le> pool_balances p ! k + both (pays (currency_ids p) (pool_account p) ns) extra (currency_ids p ! k) (pool_account p)"
    using assms(2) nbs k by (simp add: pays_def both_def)
qed

lemma list_all2_refl_le: "list_all2 (\<le>) (bs :: nat list) bs"
  by (simp add: list_all2_conv_all_nth)

lemma base_mint_books:
  assumes "calculate_base_mint_amount p nbs d0 d1 fee amp supply = Inr (mint, fees, p', d)"
  obtains bs' where "p' = p\<lparr>pool_balances := bs'\<rparr>" and "list_all2 (\<le>) bs' nbs"
  using assms unfolding calculate_base_mint_amount_def
  by (auto simp: rbind_Inr_iff dest!: imbalance_fees_le)

lemma base_add_ok:
  assumes "lawful D" and "wf_info p" and "who \<noteq> pool_account p"
    and run: "base_pool_add_liquidity D who pid p ns least to_account s = Inr ((mint, p'), s')"
  shows "shifts D s s' (pays (currency_ids p) who ns)
           (both (pays (currency_ids p) (pool_account p) ns) (pay (lp_currency_id p) to_account mint))"
    and "books p p' (pays (currency_ids p) who ns)
           (both (pays (currency_ids p) (pool_account p) ns) (pay (lp_currency_id p) to_account mint))"
proof -
  let ?db = "pays (currency_ids p) who ns"
  let ?cr = "both (pays (currency_ids p) (pool_account p) ns) (pay (lp_currency_id p) to_account mint)"
  have "shifts D s s' ?db ?cr \<and> books p p' ?db ?cr"
    using run unfolding base_pool_add_liquidity_def
  proof (elim run_elims, hypsubst_thin)
    fix fee amp d0 nbs s1 d1 x y fees z d s2 and u v :: unit
    let ?first = "stable_issuance D s (lp_currency_id p) = 0"
    assume len: "length (currency_ids p) = length ns"
      and moved: "transfer_amounts_in D ?first who (pool_account p) (currency_ids p) ns (pool_balances p) s = Inr (nbs, s1)"
      and minted: "(if ?first then Inr (d1, [], p\<lparr>pool_balances := nbs\<rparr>, d1)
          else calculate_base_mint_amount p nbs d0 d1 fee amp (stable_issuance D s (lp_currency_id p))) = Inr (mint, fees, p', d)"
      and put: "on_stable_ledger (mc_deposit (sx_currency D) (lp_currency_id p) to_account mint) s1 = Inr (u, s2)"
      and event: "stable_deposit_event (StableAddLiquidity pid who to_account ns fees d mint) s2 = Inr (v, s')"
    show "shifts D s s' ?db ?cr \<and> books p p' ?db ?cr"
    proof
      have in_run: "shifts D s s1 ?db (pays (currency_ids p) (pool_account p) ns) \<and> added (pool_balances p) ns nbs"
        by (rule transfer_amounts_in_shifts[OF assms(1,3) moved]) (use assms(2) in \<open>simp add: wf_info_def\<close>)
      show "shifts D s s' ?db ?cr"
        using shifts_trans[OF shifts_trans[OF conjunct1[OF in_run] deposit_shifts[OF assms(1) put]] shifts_event[OF event]] by simp
      obtain bs' where "p' = p\<lparr>pool_balances := bs'\<rparr>" "list_all2 (\<le>) bs' nbs"
      proof (cases ?first)
        case True
        then show ?thesis using minted that[of nbs] list_all2_refl_le by simp
      next
        case False
        then show ?thesis using minted that by (auto elim: base_mint_books)
      qed
      then show "books p p' ?db ?cr"
        using books_supply[OF assms(2,3) len[symmetric] conjunct2[OF in_run]] by simp
    qed
  qed
  then show "shifts D s s' ?db ?cr" "books p p' ?db ?cr" by simp_all
qed

text \<open>A swap: the input arrives, and the output and the fee of the administrator are booked out.\<close>

lemma swap_reserves_books:
  assumes "swap_reserves p i j n dy fee = Inr p'" and "wf_info p" and "i \<noteq> j" and "i < length (currency_ids p)"
    and "j < length (currency_ids p)" and "who \<noteq> pool_account p"
  shows "books p p' (both (pay (currency_ids p ! i) who n) (pay (currency_ids p ! j) (pool_account p) dy))
           (both (pay (currency_ids p ! i) (pool_account p) n) (pay (currency_ids p ! j) to_account dy))"
proof -
  let ?bs = "pool_balances p"
  have p': "p' = p\<lparr>pool_balances := ?bs[i := ?bs ! i + n, j := ?bs ! j - dy - fee]\<rparr>" and le: "dy + fee \<le> ?bs ! j"
    using assms(1,3) by (auto simp: swap_reserves_def rbind_Inr_iff opt_Some Let_def)
  show ?thesis
  proof (rule booksI[OF p'])
    fix k assume k: "k < length (currency_ids p)"
    have eq: "currency_ids p ! k = currency_ids p ! l \<longleftrightarrow> k = l" if "l < length (currency_ids p)" for l
      using assms(2) k that by (simp add: wf_info_def nth_eq_iff_index_eq)
    show "?bs[i := ?bs ! i + n, j := ?bs ! j - dy - fee] ! k
        + both (pay (currency_ids p ! i) who n) (pay (currency_ids p ! j) (pool_account p) dy) (currency_ids p ! k) (pool_account p)
      \<le> ?bs ! k + both (pay (currency_ids p ! i) (pool_account p) n) (pay (currency_ids p ! j) to_account dy) (currency_ids p ! k) (pool_account p)"
      using assms k le eq[OF assms(4)] eq[OF assms(5)]
      by (auto simp: both_def pay_def nth_list_update wf_info_def)
  qed simp
qed

lemma base_swap_ok:
  assumes "lawful D" and "wf_info p" and "who \<noteq> pool_account p" and "i \<noteq> j"
    and run: "base_pool_swap D who pid p i j n least to_account s = Inr ((dy, p'), s')"
  shows "i < length (currency_ids p)" and "j < length (currency_ids p)"
    and "shifts D s s' (both (pay (currency_ids p ! i) who n) (pay (currency_ids p ! j) (pool_account p) dy))
           (both (pay (currency_ids p ! i) (pool_account p) n) (pay (currency_ids p ! j) to_account dy))"
    and "books p p' (both (pay (currency_ids p ! i) who n) (pay (currency_ids p ! j) (pool_account p) dy))
           (both (pay (currency_ids p ! i) (pool_account p) n) (pay (currency_ids p ! j) to_account dy))"
proof -
  let ?db = "both (pay (currency_ids p ! i) who n) (pay (currency_ids p ! j) (pool_account p) dy)"
  let ?cr = "both (pay (currency_ids p ! i) (pool_account p) n) (pay (currency_ids p ! j) to_account dy)"
  have "i < length (currency_ids p) \<and> j < length (currency_ids p) \<and> shifts D s s' ?db ?cr \<and> books p p' ?db ?cr"
    using run unfolding base_pool_swap_def Let_def
  proof (elim run_elims, hypsubst_thin)
    fix received s1 x out fee admin s2 and u v :: unit
    assume range: "i < length (currency_ids p) \<and> j < length (currency_ids p)"
      and moved: "do_transfer_in D (currency_ids p ! i) who (pool_account p) n s = Inr (received, s1)"
      and reserves: "swap_reserves p i j received dy admin = Inr p'"
      and out: "with_error (stable_error Stable_InsufficientReserve)
          (stable_transfer D (currency_ids p ! j) (pool_account p) to_account dy) s1 = Inr (u, s2)"
      and event: "stable_deposit_event (CurrencyExchange pid who to_account i received j dy) s2 = Inr (v, s')"
    note first = transfer_in_shifts[OF assms(1) moved assms(3)]
    show "i < length (currency_ids p) \<and> j < length (currency_ids p) \<and> shifts D s s' ?db ?cr \<and> books p p' ?db ?cr"
      using range swap_reserves_books[OF reserves assms(2,4) _ _ assms(3)] first(2)
        shifts_trans[OF shifts_trans[OF first(1) transfer_shifts[OF assms(1) out[unfolded run_with_error]]] shifts_event[OF event]]
      by simp
  qed
  then show "i < length (currency_ids p)" "j < length (currency_ids p)" "shifts D s s' ?db ?cr" "books p p' ?db ?cr" by simp_all
qed

text \<open>Taking out one currency: the output and the fee of the administrator are booked out.\<close>

lemma take_out_books:
  assumes "take_out p i dy fee = Inr p'" and "wf_info p" and "i < length (currency_ids p)" and "who \<noteq> pool_account p"
  shows "books p p' (both (pay lp who n) (pay (currency_ids p ! i) (pool_account p) dy)) (pay (currency_ids p ! i) to_account dy)"
proof -
  let ?bs = "pool_balances p"
  obtain m where p': "p' = p\<lparr>pool_balances := ?bs[i := ?bs ! i - (m + dy)]\<rparr>" and le: "m + dy \<le> ?bs ! i"
    using assms(1) by (auto simp: take_out_def rbind_Inr_iff opt_Some balance_of_def split: if_splits)
  show ?thesis
  proof (rule booksI[OF p'])
    fix k assume k: "k < length (currency_ids p)"
    have "currency_ids p ! k = currency_ids p ! i \<longleftrightarrow> k = i"
      using assms(2,3) k by (simp add: wf_info_def nth_eq_iff_index_eq)
    then show "?bs[i := ?bs ! i - (m + dy)] ! k + both (pay lp who n) (pay (currency_ids p ! i) (pool_account p) dy) (currency_ids p ! k) (pool_account p)
      \<le> ?bs ! k + pay (currency_ids p ! i) to_account dy (currency_ids p ! k) (pool_account p)"
      using assms k le by (auto simp: both_def pay_def nth_list_update wf_info_def)
  qed simp
qed

lemma withdraw_and_pay:
  assumes "lawful D" and "on_stable_ledger (mc_withdraw (sx_currency D) lp who n) s = Inr (u, s1)"
    and "stable_transfer D c account to_account dy s1 = Inr (v, s2)" and "stable_deposit_event e s2 = Inr (w, s')"
  shows "shifts D s s' (both (pay lp who n) (pay c account dy)) (pay c to_account dy)"
  using shifts_trans[OF shifts_trans[OF withdraw_shifts[OF assms(1,2)] transfer_shifts[OF assms(1,3)]] shifts_event[OF assms(4)]]
  by simp

lemma base_remove_one_ok:
  assumes "lawful D" and "wf_info p" and "who \<noteq> pool_account p"
    and run: "base_pool_remove_liquidity_one_currency D pid p who n i least to_account s = Inr ((dy, p'), s')"
  shows "shifts D s s' (both (pay (lp_currency_id p) who n) (pay (currency_ids p ! i) (pool_account p) dy))
           (pay (currency_ids p ! i) to_account dy)"
    and "books p p' (both (pay (lp_currency_id p) who n) (pay (currency_ids p ! i) (pool_account p) dy))
           (pay (currency_ids p ! i) to_account dy)"
proof -
  let ?db = "both (pay (lp_currency_id p) who n) (pay (currency_ids p ! i) (pool_account p) dy)"
  let ?cr = "pay (currency_ids p ! i) to_account dy"
  have "shifts D s s' ?db ?cr \<and> books p p' ?db ?cr"
    using run unfolding base_pool_remove_liquidity_one_currency_def
  proof (elim run_elims, hypsubst_thin)
    fix fee s2 s3 and u v w :: unit
    assume range: "i < length (currency_ids p)" and taken: "take_out p i dy fee = Inr p'"
      and burn: "on_stable_ledger (mc_withdraw (sx_currency D) (lp_currency_id p) who n) s = Inr (u, s2)"
      and out: "stable_transfer D (currency_ids p ! i) (pool_account p) to_account dy s2 = Inr (v, s3)"
      and event: "stable_deposit_event (RemoveLiquidityOneCurrency pid who to_account i n dy) s3 = Inr (w, s')"
    show "shifts D s s' ?db ?cr \<and> books p p' ?db ?cr"
      using withdraw_and_pay[OF assms(1) burn out event] take_out_books[OF taken assms(2) range assms(3)] by blast
  qed
  then show "shifts D s s' ?db ?cr" "books p p' ?db ?cr" by simp_all
qed

text \<open>Paying amounts out of the reserves.\<close>

lemma books_payout:
  assumes "wf_info p" and "who \<noteq> pool_account p" and "length ns = length (currency_ids p)"
    and "taken (pool_balances p) ns nbs" and "list_all2 (\<le>) bs' nbs" and "p' = p\<lparr>pool_balances := bs'\<rparr>"
  shows "books p p' (both (pay lp who n) (pays (currency_ids p) (pool_account p) ns)) nothing"
proof (rule booksI[OF assms(6)])
  have len: "length nbs = length (currency_ids p)" and nbs: "\<forall>k<length (currency_ids p). nbs ! k + ns ! k = pool_balances p ! k"
    using assms(1,3,4) by (auto simp: taken_def wf_info_def)
  show "length bs' = length (pool_balances p)"
    using assms(1) len list_all2_lengthD[OF assms(5)] by (simp add: wf_info_def)
  fix k assume k: "k < length (currency_ids p)"
  have "bs' ! k \<le> nbs ! k" using assms(5) k len by (simp add: list_all2_conv_all_nth)
  moreover have "owed (currency_ids p) ns (currency_ids p ! k) = ns ! k"
    using assms(1,3) k by (intro owed_nth) (auto simp: wf_info_def)
  moreover have "nbs ! k + ns ! k = pool_balances p ! k" using nbs k by blast
  ultimately show "bs' ! k + both (pay lp who n) (pays (currency_ids p) (pool_account p) ns) (currency_ids p ! k) (pool_account p)
      \<le> pool_balances p ! k + 0"
    using assms(2) by (simp add: pays_def both_def pay_def)
qed

lemma zip_with_sub: "zip_with checked_sub bs ns = Inr bs' \<Longrightarrow> taken bs ns bs'"
proof (induction "checked_sub" bs ns arbitrary: bs' rule: zip_with.induct)
  case (1 b bs n ns)
  then show ?case by (auto simp: rbind_Inr_iff opt_Some intro!: taken_Cons)
qed (auto simp: taken_def)

lemma imbalance_quote_books:
  assumes "remove_liquidity_imbalance_quote norm now p ns supply = Inr (burn, fees, d1, p')"
    and "wf_info p" and "who \<noteq> pool_account p" and "length ns = length (currency_ids p)"
  shows "books p p' (both (pay lp who n) (pays (currency_ids p) (pool_account p) ns)) nothing"
proof -
  obtain nbs bs' where "zip_with checked_sub (pool_balances p) ns = Inr nbs" and "list_all2 (\<le>) bs' nbs"
    and "p' = p\<lparr>pool_balances := bs'\<rparr>"
    using assms(1) unfolding remove_liquidity_imbalance_quote_def
    by (auto simp: rbind_Inr_iff dest!: imbalance_fees_le)
  then show ?thesis using books_payout[OF assms(2-4) zip_with_sub] by blast
qed

lemma pay_imbalance_shifts:
  assumes "lawful D" and "pay_imbalance D who pid p ns most to_account supply burn fees d1 s = Inr (u, s')"
  shows "shifts D s s' (both (pay (lp_currency_id p) who (burn + 1)) (pays (currency_ids p) (pool_account p) ns)) nothing"
  using assms(2) unfolding pay_imbalance_def
proof (elim run_elims, hypsubst_thin)
  fix s2 s3 b and v w :: unit
  assume "opt (checked_add_w 128 burn 1) = Inr b"
    and burnt: "on_stable_ledger (mc_withdraw (sx_currency D) (lp_currency_id p) who b) s = Inr (v, s2)"
    and out: "transfer_amounts_out D (pool_account p) to_account (currency_ids p) ns s2 = Inr (w, s3)"
    and event: "stable_deposit_event (RemoveLiquidityImbalance pid who to_account ns fees d1 (wrapping_sub_w 128 supply b)) s3 = Inr (u, s')"
  then show ?thesis
    using shifts_trans[OF shifts_trans[OF withdraw_shifts[OF assms(1) burnt] transfer_amounts_out_shifts[OF assms(1) out]] shifts_event[OF event]]
    by (simp add: opt_Some)
qed

lemma base_imbalance_ok:
  assumes "lawful D" and "wf_info p" and "who \<noteq> pool_account p"
    and run: "base_pool_remove_liquidity_imbalance D who pid p ns most to_account s = Inr ((u, p'), s')"
  obtains n where "shifts D s s' (both (pay (lp_currency_id p) who n) (pays (currency_ids p) (pool_account p) ns)) nothing"
    and "books p p' (both (pay (lp_currency_id p) who n) (pays (currency_ids p) (pool_account p) ns)) nothing"
  using run unfolding base_pool_remove_liquidity_imbalance_def
proof (elim run_elims, hypsubst_thin)
  fix burn fees d1 and v :: unit
  assume len: "length ns = length (currency_ids p)"
    and quote: "calculate_base_remove_liquidity_imbalance (stable_now s) p ns (stable_issuance D s (lp_currency_id p)) = Inr (burn, fees, d1, p')"
    and paid: "pay_imbalance D who pid p ns most to_account (stable_issuance D s (lp_currency_id p)) burn fees d1 s = Inr (v, s')"
  show thesis
    by (rule that[OF pay_imbalance_shifts[OF assms(1) paid]
          imbalance_quote_books[OF quote[unfolded calculate_base_remove_liquidity_imbalance_def] assms(2,3) len]])
qed

end
