(* ===== verification/Stable_Meta_Reserves.thy ===== *)
theory Stable_Meta_Reserves
  imports Stable_Reserves
begin

text \<open>
  The movements of \<open>Stable_Reserves\<close> for meta pools, and for the operations of the pallet on a stored pool.
\<close>

subsection \<open>Operations of meta pools\<close>

text \<open>The price cache may change; the base pool and the kinds of currencies stay.\<close>

definition same_links :: "('a, 'c) meta_pool \<Rightarrow> ('a, 'c) meta_pool \<Rightarrow> bool" where
  "same_links mp mp' \<longleftrightarrow> base_pool_id mp' = base_pool_id mp \<and> base_currencies mp' = base_currencies mp"

lemma update_virtual_price_same:
  assumes "meta_pool_update_virtual_price D mp s = Inr (price, mp')"
  shows "same_links mp mp'" and "meta_info mp' = meta_info mp"
  using assms by (auto simp: meta_pool_update_virtual_price_def same_links_def rbind_Inr_iff split: if_splits)

lemma same_links_simps [simp]:
  "same_links mp mp" "same_links mp (mp'\<lparr>meta_info := p\<rparr>) \<longleftrightarrow> same_links mp mp'"
  by (simp_all add: same_links_def)

lemma meta_mint_books:
  assumes "meta_mint_amount mp nbs d0 d1 amp price supply = Inr (mint, fees, mp')"
  obtains bs' where "mp' = mp\<lparr>meta_info := (meta_info mp)\<lparr>pool_balances := bs'\<rparr>\<rparr>" and "list_all2 (\<le>) bs' nbs"
  using assms unfolding meta_mint_amount_def Let_def
  by (auto simp: rbind_Inr_iff dest!: imbalance_fees_le)

lemma meta_add_ok:
  fixes mp :: "('a, 'c) meta_pool"
  defines "p \<equiv> meta_info mp"
  assumes "lawful D" and "wf_info p" and "who \<noteq> pool_account p"
    and run: "meta_pool_add_liquidity D who pid mp ns least to_account s = Inr ((mint, mp'), s')"
  shows "shifts D s s' (pays (currency_ids p) who ns)
           (both (pays (currency_ids p) (pool_account p) ns) (pay (lp_currency_id p) to_account mint))"
    and "books p (meta_info mp') (pays (currency_ids p) who ns)
           (both (pays (currency_ids p) (pool_account p) ns) (pay (lp_currency_id p) to_account mint))"
    and "same_links mp mp'"
proof -
  let ?db = "pays (currency_ids p) who ns"
  let ?cr = "both (pays (currency_ids p) (pool_account p) ns) (pay (lp_currency_id p) to_account mint)"
  have "shifts D s s' ?db ?cr \<and> books p (meta_info mp') ?db ?cr \<and> same_links mp mp'"
    using run unfolding meta_pool_add_liquidity_def Let_def
  proof (elim run_elims, hypsubst_thin)
    fix amp price mq d0 nbs s1 d1 fees s2 and u v :: unit
    let ?first = "stable_issuance D s (lp_currency_id (meta_info mp)) = 0"
    assume len: "length (currency_ids (meta_info mp)) = length ns"
      and price: "meta_pool_update_virtual_price D mp s = Inr (price, mq)"
      and moved: "meta_transfer_amounts_in D ?first who (pool_account (meta_info mp)) (currency_ids (meta_info mp)) ns
          (pool_balances (meta_info mp)) s = Inr (nbs, s1)"
      and minted: "(if stable_issuance D s (lp_currency_id (meta_info mp)) \<noteq> 0
          then meta_mint_amount mq nbs d0 d1 amp price (stable_issuance D s (lp_currency_id (meta_info mp)))
          else Inr (d1, replicate (length (currency_ids (meta_info mp))) 0, mq\<lparr>meta_info := (meta_info mp)\<lparr>pool_balances := nbs\<rparr>\<rparr>))
          = Inr (mint, fees, mp')"
      and put: "on_stable_ledger (mc_deposit (sx_currency D) (lp_currency_id (meta_info mp)) to_account mint) s1 = Inr (u, s2)"
      and event: "stable_deposit_event (StableAddLiquidity pid who to_account ns fees d1 mint) s2 = Inr (v, s')"
    note same = update_virtual_price_same[OF price]
    have in_run: "shifts D s s1 ?db (pays (currency_ids p) (pool_account p) ns) \<and> added (pool_balances p) ns nbs"
      unfolding p_def
      by (rule meta_transfer_amounts_in_shifts[OF assms(2) assms(4)[unfolded p_def] moved])
        (use assms(3) in \<open>simp add: p_def wf_info_def\<close>)
    have "shifts D s s' ?db ?cr"
      using shifts_trans[OF shifts_trans[OF conjunct1[OF in_run] deposit_shifts[OF assms(2) put]] shifts_event[OF event]]
      by (simp add: p_def)
    moreover obtain bs' where mp': "mp' = mq\<lparr>meta_info := p\<lparr>pool_balances := bs'\<rparr>\<rparr>" and le: "list_all2 (\<le>) bs' nbs"
    proof (cases ?first)
      case True
      then have "mp' = mq\<lparr>meta_info := p\<lparr>pool_balances := nbs\<rparr>\<rparr>" using minted by (simp add: p_def)
      then show ?thesis using that list_all2_refl_le by blast
    next
      case False
      then show ?thesis using minted that same(2) by (auto simp: p_def elim: meta_mint_books)
    qed
    have "books p (meta_info mp') ?db ?cr"
      by (rule books_supply[OF assms(3,4) len[folded p_def, symmetric] conjunct2[OF in_run] le]) (simp add: mp')
    ultimately show "shifts D s s' ?db ?cr \<and> books p (meta_info mp') ?db ?cr \<and> same_links mp mp'"
      using same(1) mp' by simp
  qed
  then show "shifts D s s' ?db ?cr" "books p (meta_info mp') ?db ?cr" "same_links mp mp'" by simp_all
qed

lemma meta_swap_ok:
  fixes mp :: "('a, 'c) meta_pool"
  defines "p \<equiv> meta_info mp"
  assumes "lawful D" and "wf_info p" and "who \<noteq> pool_account p" and "i \<noteq> j"
    and run: "meta_pool_swap D who pid mp i j n least to_account s = Inr ((dy, mp'), s')"
  shows "i < length (currency_ids p)" and "j < length (currency_ids p)"
    and "shifts D s s' (both (pay (currency_ids p ! i) who n) (pay (currency_ids p ! j) (pool_account p) dy))
           (both (pay (currency_ids p ! i) (pool_account p) n) (pay (currency_ids p ! j) to_account dy))"
    and "books p (meta_info mp') (both (pay (currency_ids p ! i) who n) (pay (currency_ids p ! j) (pool_account p) dy))
           (both (pay (currency_ids p ! i) (pool_account p) n) (pay (currency_ids p ! j) to_account dy))"
    and "same_links mp mp'"
proof -
  let ?db = "both (pay (currency_ids p ! i) who n) (pay (currency_ids p ! j) (pool_account p) dy)"
  let ?cr = "both (pay (currency_ids p ! i) (pool_account p) n) (pay (currency_ids p ! j) to_account dy)"
  have "i < length (currency_ids p) \<and> j < length (currency_ids p) \<and> shifts D s s' ?db ?cr \<and> books p (meta_info mp') ?db ?cr
      \<and> same_links mp mp'"
    using run unfolding meta_pool_swap_def Let_def p_def[symmetric]
  proof (elim run_elims, hypsubst_thin)
    fix received s1 price mq fee admin p' s2 and u v :: unit
    assume range: "i < length (currency_ids p) \<and> j < length (currency_ids p)"
      and moved: "do_transfer_in D (currency_ids p ! i) who (pool_account p) n s = Inr (received, s1)"
      and price: "meta_pool_update_virtual_price D mp s1 = Inr (price, mq)"
      and reserves: "swap_reserves p i j received dy admin = Inr p'"
      and out: "with_error (stable_error Stable_InsufficientReserve)
          (stable_transfer D (currency_ids p ! j) (pool_account p) to_account dy) s1 = Inr (u, s2)"
      and event: "stable_deposit_event (CurrencyExchange pid who to_account i received j dy) s2 = Inr (v, s')"
    note first = transfer_in_shifts[OF assms(2) moved assms(4)]
    show "i < length (currency_ids p) \<and> j < length (currency_ids p) \<and> shifts D s s' ?db ?cr
        \<and> books p (meta_info (mq\<lparr>meta_info := p'\<rparr>)) ?db ?cr \<and> same_links mp (mq\<lparr>meta_info := p'\<rparr>)"
      using range swap_reserves_books[OF reserves assms(3,5) _ _ assms(4)] first(2) update_virtual_price_same(1)[OF price]
        shifts_trans[OF shifts_trans[OF first(1) transfer_shifts[OF assms(2) out[unfolded run_with_error]]] shifts_event[OF event]]
      by simp
  qed
  then show "i < length (currency_ids p)" "j < length (currency_ids p)" "shifts D s s' ?db ?cr" "books p (meta_info mp') ?db ?cr"
    "same_links mp mp'" by simp_all
qed

lemma meta_remove_one_ok:
  fixes mp :: "('a, 'c) meta_pool"
  defines "p \<equiv> meta_info mp"
  assumes "lawful D" and "wf_info p" and "who \<noteq> pool_account p"
    and run: "meta_pool_remove_liquidity_one_currency D pid mp who n i least to_account s = Inr ((dy, mp'), s')"
  shows "shifts D s s' (both (pay (lp_currency_id p) who n) (pay (currency_ids p ! i) (pool_account p) dy))
           (pay (currency_ids p ! i) to_account dy)"
    and "books p (meta_info mp') (both (pay (lp_currency_id p) who n) (pay (currency_ids p ! i) (pool_account p) dy))
           (pay (currency_ids p ! i) to_account dy)"
    and "same_links mp mp'"
proof -
  let ?db = "both (pay (lp_currency_id p) who n) (pay (currency_ids p ! i) (pool_account p) dy)"
  let ?cr = "pay (currency_ids p ! i) to_account dy"
  have "shifts D s s' ?db ?cr \<and> books p (meta_info mp') ?db ?cr \<and> same_links mp mp'"
    using run unfolding meta_pool_remove_liquidity_one_currency_def Let_def p_def[symmetric]
  proof (elim run_elims, hypsubst_thin)
    fix price mq fee p' s2 s3 and u v w :: unit
    assume range: "i < length (currency_ids p)" and taken: "take_out p i dy fee = Inr p'"
      and price: "meta_pool_update_virtual_price D mp s = Inr (price, mq)"
      and burn: "on_stable_ledger (mc_withdraw (sx_currency D) (lp_currency_id p) who n) s = Inr (u, s2)"
      and out: "stable_transfer D (currency_ids p ! i) (pool_account p) to_account dy s2 = Inr (v, s3)"
      and event: "stable_deposit_event (RemoveLiquidityOneCurrency pid who to_account i n dy) s3 = Inr (w, s')"
    show "shifts D s s' ?db ?cr \<and> books p (meta_info (mq\<lparr>meta_info := p'\<rparr>)) ?db ?cr \<and> same_links mp (mq\<lparr>meta_info := p'\<rparr>)"
      using withdraw_and_pay[OF assms(2) burn out event] take_out_books[OF taken assms(3) range assms(4)]
        update_virtual_price_same(1)[OF price] by simp
  qed
  then show "shifts D s s' ?db ?cr" "books p (meta_info mp') ?db ?cr" "same_links mp mp'" by simp_all
qed

lemma meta_imbalance_ok:
  fixes mp :: "('a, 'c) meta_pool"
  defines "p \<equiv> meta_info mp"
  assumes "lawful D" and "wf_info p" and "who \<noteq> pool_account p"
    and run: "meta_pool_remove_liquidity_imbalance D who pid mp ns most to_account s = Inr ((u, mp'), s')"
  obtains n where "shifts D s s' (both (pay (lp_currency_id p) who n) (pays (currency_ids p) (pool_account p) ns)) nothing"
    and "books p (meta_info mp') (both (pay (lp_currency_id p) who n) (pays (currency_ids p) (pool_account p) ns)) nothing"
    and "same_links mp mp'"
  using run unfolding meta_pool_remove_liquidity_imbalance_def Let_def p_def[symmetric]
proof (elim run_elims, hypsubst_thin)
  fix price mq burn fees d1 and v :: unit
  assume len: "length ns = length (currency_ids p)"
    and price: "meta_pool_update_virtual_price D mp s = Inr (price, mq)"
    and quote: "calculate_meta_remove_liquidity_imbalance (stable_now s) mq ns (stable_issuance D s (lp_currency_id p)) price
        = Inr (burn, fees, d1, mp')"
    and paid: "pay_imbalance D who pid p ns most to_account (stable_issuance D s (lp_currency_id p)) burn fees d1 s = Inr (v, s')"
  note same = update_virtual_price_same[OF price]
  obtain p' where q: "remove_liquidity_imbalance_quote (meta_norm mq price) (stable_now s) p ns (stable_issuance D s (lp_currency_id p))
      = Inr (burn, fees, d1, p')" and mp': "mp' = mq\<lparr>meta_info := p'\<rparr>"
    using quote same(2) unfolding calculate_meta_remove_liquidity_imbalance_def by (auto simp: p_def rbind_Inr_iff)
  show thesis
    by (rule that[OF pay_imbalance_shifts[OF assms(2) paid]])
      (use imbalance_quote_books[OF q assms(3,4) len] same(1) in \<open>simp_all add: mp'\<close>)
qed

end
