(* ===== verification/Stable_Books.thy ===== *)
theory Stable_Books
  imports Stable_Meta_Reserves
begin

text \<open>
  The invariant of the stable exchange. Every pool has an account of its own, and what the pool has booked as its
  reserves is there; a meta pool points to an older pool and holds its liquidity token as the last currency.
  \<open>exchange_ok D X\<close> leaves out the accounts of the pools in \<open>X\<close>, which is needed while a meta pool trades on
  its base pool. The locale \<open>pool_operation\<close> states what an operation promises to \<open>mutate_pool\<close>.
\<close>

subsection \<open>The invariant\<close>

definition covered :: "('a, 'c, 'x) stable_config \<Rightarrow> ('a, 'c, 'x) stable \<Rightarrow> ('a, 'c) base_pool \<Rightarrow> bool" where
  "covered D s p \<longleftrightarrow> (\<forall>k<length (currency_ids p). pool_balances p ! k \<le> stable_balance D s (currency_ids p ! k) (pool_account p))"

definition linked :: "('a, 'c, 'x) stable \<Rightarrow> nat \<Rightarrow> ('a, 'c) meta_pool \<Rightarrow> bool" where
  "linked s pid mp \<longleftrightarrow> base_pool_id mp < pid \<and> currency_ids (meta_info mp) \<noteq> []
     \<and> (\<exists>base. Pools s (base_pool_id mp) = Some base \<and> base_currencies mp = get_currency_ids base
           \<and> last (currency_ids (meta_info mp)) = get_lp_currency base)"

definition pool_ok :: "('a, 'c, 'x) stable_config \<Rightarrow> ('a, 'c, 'x) stable \<Rightarrow> nat \<Rightarrow> ('a, 'c) pool \<Rightarrow> bool" where
  "pool_ok D s pid pool \<longleftrightarrow> pid < NextPoolId s \<and> wf_info (pool_info pool)
     \<and> pool_account (pool_info pool) = sx_pool_account_id D pid \<and> (\<forall>mp. pool = Meta mp \<longrightarrow> linked s pid mp)"

definition exchange_ok :: "('a, 'c, 'x) stable_config \<Rightarrow> nat set \<Rightarrow> ('a, 'c, 'x) stable \<Rightarrow> bool" where
  "exchange_ok D X s \<longleftrightarrow>
     (\<forall>pid pool. Pools s pid = Some pool \<longrightarrow> pool_ok D s pid pool \<and> (pid \<notin> X \<longrightarrow> covered D s (pool_info pool)))
   \<and> (\<forall>c pid. LpCurrencies s c = Some pid \<longrightarrow> (\<exists>pool. Pools s pid = Some pool \<and> get_lp_currency pool = c))"

text \<open>What the exchange relies on outside of it.\<close>

definition sound_config :: "('a, 'c, 'x) stable_config \<Rightarrow> bool" where
  "sound_config D \<longleftrightarrow> lawful D \<and> inj (sx_pool_account_id D)
     \<and> (\<forall>cs. sx_validate_pooled_currency D cs \<longrightarrow> distinct cs)
     \<and> (\<forall>a x. mc_free_balance (sx_currency D) (sx_inc_providers D a x) = mc_free_balance (sx_currency D) x)"

lemma exchange_okD:
  assumes "exchange_ok D X s" and "Pools s pid = Some pool"
  shows "pool_ok D s pid pool" and "pid \<notin> X \<Longrightarrow> covered D s (pool_info pool)"
  using assms unfolding exchange_ok_def by blast+

subsection \<open>Operations on a stored pool\<close>

fun same_pool :: "('a, 'c) pool \<Rightarrow> ('a, 'c) pool \<Rightarrow> bool" where
  "same_pool (Base p) (Base p') \<longleftrightarrow> static p p'"
| "same_pool (Meta m) (Meta m') \<longleftrightarrow> static (meta_info m) (meta_info m') \<and> same_links m m'"
| "same_pool _ _ \<longleftrightarrow> False"

lemma books_static: "books p p' db cr \<Longrightarrow> static p p'"
  by (simp add: books_def)

lemma same_pool_static: "same_pool pool pool' \<Longrightarrow> static (pool_info pool) (pool_info pool')"
  by (cases "(pool, pool')" rule: same_pool.cases) (auto simp: pool_info_def)

lemma same_pool_view:
  assumes "same_pool pool pool'"
  shows "get_currency_ids pool' = get_currency_ids pool" and "get_lp_currency pool' = get_lp_currency pool"
  using assms by (cases "(pool, pool')" rule: same_pool.cases; auto simp: static_def get_currency_ids_def get_lp_currency_def)+

text \<open>What a run of an operation on the pool \<open>pid\<close> amounts to.\<close>

definition pool_run ::
  "('a, 'c, 'x) stable_config \<Rightarrow> nat \<Rightarrow> ('a, 'c) pool \<Rightarrow> ('a, 'c) pool \<Rightarrow> ('c \<Rightarrow> 'a \<Rightarrow> nat) \<Rightarrow> ('c \<Rightarrow> 'a \<Rightarrow> nat) \<Rightarrow>
   ('a, 'c, 'x) stable \<Rightarrow> ('a, 'c, 'x) stable \<Rightarrow> bool" where
  "pool_run D pid pool pool' db cr s s' \<longleftrightarrow> Pools s pid = Some pool \<and> same_pool pool pool'
     \<and> books (pool_info pool) (pool_info pool') db cr
     \<and> Pools s' = (Pools s)(pid \<mapsto> pool') \<and> LpCurrencies s' = LpCurrencies s \<and> NextPoolId s' = NextPoolId s
     \<and> (\<forall>c a. stable_balance D s c a + cr c a \<le> stable_balance D s' c a + db c a)"

text \<open>Debits of the accounts of other pools are not allowed.\<close>

definition spares_pools :: "('a, 'c, 'x) stable_config \<Rightarrow> nat set \<Rightarrow> nat \<Rightarrow> ('c \<Rightarrow> 'a \<Rightarrow> nat) \<Rightarrow> bool" where
  "spares_pools D X pid db \<longleftrightarrow> (\<forall>pid' c. pid' \<notin> X \<longrightarrow> pid' \<noteq> pid \<longrightarrow> db c (sx_pool_account_id D pid') = 0)"

lemma pool_ok_update:
  assumes "exchange_ok D X s" and "Pools s pid = Some pool" and "same_pool pool pool'"
    and s': "Pools s' = (Pools s)(pid \<mapsto> pool')" "NextPoolId s' = NextPoolId s" and q: "Pools s' q = Some pool''"
  shows "pool_ok D s' q pool''"
proof -
  have link: "linked s' r mp" if "linked s r mp" for r mp
    using that assms(2) same_pool_view[OF assms(3)] unfolding linked_def s'(1) by (cases "base_pool_id mp = pid") auto
  show ?thesis
  proof (cases "q = pid")
    case True
    then have p'': "pool'' = pool'" using q s' by simp
    have "static (pool_info pool) (pool_info pool')" by (rule same_pool_static[OF assms(3)])
    moreover have "linked s' pid mp'" if new: "pool' = Meta mp'" for mp'
    proof -
      obtain mp where mp: "pool = Meta mp" and same: "static (meta_info mp) (meta_info mp')" "same_links mp mp'"
        using assms(3) new by (cases pool) auto
      have "linked s' pid mp" using exchange_okD(1)[OF assms(1,2)] mp link by (simp add: pool_ok_def)
      then show ?thesis using same by (simp add: linked_def static_def same_links_def)
    qed
    ultimately show ?thesis using exchange_okD(1)[OF assms(1,2)] s' True
      by (auto simp: pool_ok_def p'' static_def wf_info_def)
  next
    case False
    then show ?thesis using exchange_okD(1)[OF assms(1), of q] q s' link by (auto simp: pool_ok_def)
  qed
qed

lemma covered_step:
  assumes "covered D s p" and "books p p' db cr"
    and "\<And>c. stable_balance D s c (pool_account p) + cr c (pool_account p) \<le> stable_balance D s' c (pool_account p) + db c (pool_account p)"
  shows "covered D s' p'"
proof -
  have static: "static p p'"
    and bs': "\<forall>k<length (currency_ids p). pool_balances p' ! k + db (currency_ids p ! k) (pool_account p)
           \<le> pool_balances p ! k + cr (currency_ids p ! k) (pool_account p)"
    using assms(2) unfolding books_def by blast+
  have "pool_balances p' ! k \<le> stable_balance D s' (currency_ids p ! k) (pool_account p)" if k: "k < length (currency_ids p)" for k
  proof -
    have "pool_balances p ! k \<le> stable_balance D s (currency_ids p ! k) (pool_account p)"
      and "pool_balances p' ! k + db (currency_ids p ! k) (pool_account p) \<le> pool_balances p ! k + cr (currency_ids p ! k) (pool_account p)"
      using assms(1) bs' k by (auto simp: covered_def)
    then show ?thesis using assms(3)[of "currency_ids p ! k"] by linarith
  qed
  then show ?thesis using static by (simp add: covered_def static_def)
qed

lemma pool_run_ok:
  assumes "exchange_ok D X s" and run: "pool_run D pid pool pool' db cr s s'" and "spares_pools D X pid db"
  shows "exchange_ok D X s'"
proof -
  from run have pid: "Pools s pid = Some pool" and same: "same_pool pool pool'" and books: "books (pool_info pool) (pool_info pool') db cr"
    and s': "Pools s' = (Pools s)(pid \<mapsto> pool')" "LpCurrencies s' = LpCurrencies s" "NextPoolId s' = NextPoolId s"
    and bal: "\<And>c a. stable_balance D s c a + cr c a \<le> stable_balance D s' c a + db c a"
    by (auto simp: pool_run_def)
  have "pool_ok D s' q r \<and> (q \<notin> X \<longrightarrow> covered D s' (pool_info r))" if q: "Pools s' q = Some r" for q r
  proof (intro conjI impI)
    show "pool_ok D s' q r" by (rule pool_ok_update[OF assms(1) pid same s'(1,3) q])
    assume X: "q \<notin> X"
    show "covered D s' (pool_info r)"
    proof (cases "q = pid")
      case True
      then have "r = pool'" using q s' by simp
      then show ?thesis using covered_step[OF exchange_okD(2)[OF assms(1) pid] books bal] X True by simp
    next
      case False
      then have r: "Pools s q = Some r" using q s' by simp
      note ok = exchange_okD[OF assms(1) r]
      have account: "pool_account (pool_info r) = sx_pool_account_id D q" using ok(1) by (simp add: pool_ok_def)
      have "stable_balance D s c (pool_account (pool_info r)) \<le> stable_balance D s' c (pool_account (pool_info r))" for c
        using bal[of c "pool_account (pool_info r)"] assms(3) False X unfolding spares_pools_def account by simp
      then show ?thesis using ok(2)[OF X] unfolding covered_def by (meson le_trans)
    qed
  qed
  moreover have "\<exists>r. Pools s' q = Some r \<and> get_lp_currency r = c" if lp: "LpCurrencies s' c = Some q" for c q
  proof -
    obtain r where "Pools s q = Some r" and "get_lp_currency r = c"
      using assms(1) lp unfolding exchange_ok_def s' by blast
    then show ?thesis using same_pool_view(2)[OF same] pid s' by (cases "q = pid") auto
  qed
  ultimately show ?thesis unfolding exchange_ok_def by blast
qed

subsection \<open>The contract of an operation\<close>

lemma run_mutate_pool:
  assumes "mutate_pool pid body s = Inr (r, s')"
  obtains pool pool' s1 where "Pools s pid = Some pool" and "body pool s = Inr ((r, pool'), s1)"
    and "s' = s1\<lparr>Pools := (Pools s1)(pid \<mapsto> pool')\<rparr>"
  using assms unfolding mutate_pool_def by (auto simp: rbind_Inr_iff)

text \<open>
  An operation gets a pool whose account is not the caller's. \<open>effect p r db cr\<close> says what it may take from and
  must put on the balances when its result is \<open>r\<close>; its debits are the caller's and the pool's own.
\<close>

locale pool_operation =
  fixes D :: "('a, 'c, 'x) stable_config" and who :: 'a
    and body :: "('a, 'c) pool \<Rightarrow> ('a, 'c, 'x, 'r \<times> ('a, 'c) pool) stable_action"
    and effect :: "('a, 'c) base_pool \<Rightarrow> 'r \<Rightarrow> ('c \<Rightarrow> 'a \<Rightarrow> nat) \<Rightarrow> ('c \<Rightarrow> 'a \<Rightarrow> nat) \<Rightarrow> bool"
  assumes contract: "lawful D \<Longrightarrow> wf_info (pool_info pool) \<Longrightarrow> who \<noteq> pool_account (pool_info pool) \<Longrightarrow>
      body pool s = Inr ((r, pool'), s') \<Longrightarrow>
      \<exists>db cr. effect (pool_info pool) r db cr \<and> shifts D s s' db cr \<and> books (pool_info pool) (pool_info pool') db cr
        \<and> same_pool pool pool'"
    and debits: "effect p r db cr \<Longrightarrow> a \<noteq> who \<Longrightarrow> a \<noteq> pool_account p \<Longrightarrow> db c a = 0"
begin

lemma run:
  assumes "sound_config D" and "exchange_ok D X s" and "who \<noteq> sx_pool_account_id D pid"
    and "mutate_pool pid body s = Inr (r, s')"
  obtains pool pool' db cr where "pool_run D pid pool pool' db cr s s'" and "effect (pool_info pool) r db cr"
proof -
  obtain pool pool' s1 where pool: "Pools s pid = Some pool" and body: "body pool s = Inr ((r, pool'), s1)"
    and s': "s' = s1\<lparr>Pools := (Pools s1)(pid \<mapsto> pool')\<rparr>"
    using assms(4) by (rule run_mutate_pool)
  have ok: "wf_info (pool_info pool)" "pool_account (pool_info pool) = sx_pool_account_id D pid"
    using exchange_okD(1)[OF assms(2) pool] by (simp_all add: pool_ok_def)
  obtain db cr where eff: "effect (pool_info pool) r db cr" and shift: "shifts D s s1 db cr"
    and books: "books (pool_info pool) (pool_info pool') db cr" "same_pool pool pool'"
    using contract[OF _ ok(1) _ body] assms(1,3) ok(2) by (auto simp: sound_config_def)
  have "stable_balance D s' = stable_balance D s1" unfolding s' by (simp add: stable_balance_def fun_eq_iff)
  then have "pool_run D pid pool pool' db cr s s'"
    using pool books shiftsD[OF shift] shifts_frame[OF shift] by (simp add: pool_run_def s')
  then show thesis using eff that by blast
qed

text \<open>The operation keeps the invariant for every caller that is not a pool that counts.\<close>

lemma keeps_ok:
  assumes "sound_config D" and "exchange_ok D X s" and "\<And>q. q \<notin> X \<Longrightarrow> who \<noteq> sx_pool_account_id D q"
    and "who \<noteq> sx_pool_account_id D pid" and "mutate_pool pid body s = Inr (r, s')"
  shows "exchange_ok D X s'"
proof -
  obtain pool pool' db cr where pr: "pool_run D pid pool pool' db cr s s'" and eff: "effect (pool_info pool) r db cr"
    using run[OF assms(1,2,4,5)] .
  have account: "pool_account (pool_info pool) = sx_pool_account_id D pid"
    using exchange_okD(1)[OF assms(2)] pr by (simp add: pool_run_def pool_ok_def)
  have "spares_pools D X pid db"
    unfolding spares_pools_def
  proof (intro allI impI)
    fix q c assume q: "q \<notin> X" "q \<noteq> pid"
    have "sx_pool_account_id D q \<noteq> sx_pool_account_id D pid" using assms(1) q(2) by (auto simp: sound_config_def dest: injD)
    then show "db c (sx_pool_account_id D q) = 0" using debits[OF eff] assms(3)[OF q(1)] account by metis
  qed
  then show ?thesis by (rule pool_run_ok[OF assms(2) pr])
qed

end

subsection \<open>The operations meet the contract\<close>

lemma by_kind_cases:
  assumes "by_kind f g pool s = Inr ((r, pool'), s')"
  obtains p p' where "pool = Base p" and "pool' = Base p'" and "f p s = Inr ((r, p'), s')"
    | m m' where "pool = Meta m" and "pool' = Meta m'" and "g m s = Inr ((r, m'), s')"
  using assms by (cases pool) (auto simp: by_kind_def on_base_def on_meta_def rbind_Inr_iff)

lemma pool_info_simps [simp]: "pool_info (Base p) = p" "pool_info (Meta m) = meta_info m"
  by (simp_all add: pool_info_def)

definition add_effect :: "'a \<Rightarrow> 'a \<Rightarrow> nat list \<Rightarrow> ('a, 'c) base_pool \<Rightarrow> nat \<Rightarrow> ('c \<Rightarrow> 'a \<Rightarrow> nat) \<Rightarrow> ('c \<Rightarrow> 'a \<Rightarrow> nat) \<Rightarrow> bool" where
  "add_effect who to_account ns p mint db cr \<longleftrightarrow> db = pays (currency_ids p) who ns
     \<and> cr = both (pays (currency_ids p) (pool_account p) ns) (pay (lp_currency_id p) to_account mint)"

abbreviation add_body where
  "add_body D who pid ns least to_account \<equiv> by_kind
     (\<lambda>bp. base_pool_add_liquidity D who pid bp ns least to_account)
     (\<lambda>mp. meta_pool_add_liquidity D who pid mp ns least to_account)"

interpretation add: pool_operation D who "add_body D who pid ns least to_account" "add_effect who to_account ns"
  for D :: "('a, 'c, 'x) stable_config" and who pid ns least to_account
proof
  fix pool :: "('a, 'c) pool" and s :: "('a, 'c, 'x) stable" and r pool' s'
  assume D: "lawful D" and wf: "wf_info (pool_info pool)" and who: "who \<noteq> pool_account (pool_info pool)"
    and run: "add_body D who pid ns least to_account pool s = Inr ((r, pool'), s')"
  show "\<exists>db cr. add_effect who to_account ns (pool_info pool) r db cr \<and> shifts D s s' db cr
      \<and> books (pool_info pool) (pool_info pool') db cr \<and> same_pool pool pool'"
    using run
  proof (cases rule: by_kind_cases)
    case (1 p p')
    then show ?thesis using base_add_ok[OF D _ _ 1(3)] wf who by (auto simp: add_effect_def books_static)
  next
    case (2 m m')
    then show ?thesis using meta_add_ok[OF D _ _ 2(3)] wf who by (auto simp: add_effect_def books_static)
  qed
qed (auto simp: add_effect_def pays_def)

definition swap_effect :: "'a \<Rightarrow> 'a \<Rightarrow> nat \<Rightarrow> nat \<Rightarrow> nat \<Rightarrow> ('a, 'c) base_pool \<Rightarrow> nat \<Rightarrow> ('c \<Rightarrow> 'a \<Rightarrow> nat) \<Rightarrow> ('c \<Rightarrow> 'a \<Rightarrow> nat) \<Rightarrow> bool" where
  "swap_effect who to_account i j n p dy db cr \<longleftrightarrow> i < length (currency_ids p) \<and> j < length (currency_ids p)
     \<and> db = both (pay (currency_ids p ! i) who n) (pay (currency_ids p ! j) (pool_account p) dy)
     \<and> cr = both (pay (currency_ids p ! i) (pool_account p) n) (pay (currency_ids p ! j) to_account dy)"

abbreviation swap_body where
  "swap_body D who pid i j n least to_account \<equiv> by_kind
     (\<lambda>bp. base_pool_swap D who pid bp i j n least to_account)
     (\<lambda>mp. meta_pool_swap D who pid mp i j n least to_account)"

lemma swap_contract:
  fixes D :: "('a, 'c, 'x) stable_config"
  assumes "i \<noteq> j"
  shows "pool_operation D who (swap_body D who pid i j n least to_account) (swap_effect who to_account i j n)"
proof
  fix pool :: "('a, 'c) pool" and s :: "('a, 'c, 'x) stable" and r pool' s'
  assume D: "lawful D" and wf: "wf_info (pool_info pool)" and who: "who \<noteq> pool_account (pool_info pool)"
    and run: "swap_body D who pid i j n least to_account pool s = Inr ((r, pool'), s')"
  show "\<exists>db cr. swap_effect who to_account i j n (pool_info pool) r db cr \<and> shifts D s s' db cr
      \<and> books (pool_info pool) (pool_info pool') db cr \<and> same_pool pool pool'"
    using run
  proof (cases rule: by_kind_cases)
    case (1 p p')
    then show ?thesis using base_swap_ok[OF D _ _ assms 1(3)] wf who by (auto simp: swap_effect_def books_static)
  next
    case (2 m m')
    then show ?thesis using meta_swap_ok[OF D _ _ assms 2(3)] wf who by (auto simp: swap_effect_def books_static)
  qed
qed (auto simp: swap_effect_def both_def pay_def)

definition burn_effect :: "'a \<Rightarrow> 'a \<Rightarrow> nat \<Rightarrow> nat \<Rightarrow> ('a, 'c) base_pool \<Rightarrow> nat \<Rightarrow> ('c \<Rightarrow> 'a \<Rightarrow> nat) \<Rightarrow> ('c \<Rightarrow> 'a \<Rightarrow> nat) \<Rightarrow> bool" where
  "burn_effect who to_account n i p dy db cr \<longleftrightarrow>
     db = both (pay (lp_currency_id p) who n) (pay (currency_ids p ! i) (pool_account p) dy)
     \<and> cr = pay (currency_ids p ! i) to_account dy"

abbreviation remove_one_body where
  "remove_one_body D who pid n i least to_account \<equiv> by_kind
     (\<lambda>bp. base_pool_remove_liquidity_one_currency D pid bp who n i least to_account)
     (\<lambda>mp. meta_pool_remove_liquidity_one_currency D pid mp who n i least to_account)"

interpretation remove_one: pool_operation D who "remove_one_body D who pid n i least to_account" "burn_effect who to_account n i"
  for D :: "('a, 'c, 'x) stable_config" and who pid n i least to_account
proof
  fix pool :: "('a, 'c) pool" and s :: "('a, 'c, 'x) stable" and r pool' s'
  assume D: "lawful D" and wf: "wf_info (pool_info pool)" and who: "who \<noteq> pool_account (pool_info pool)"
    and run: "remove_one_body D who pid n i least to_account pool s = Inr ((r, pool'), s')"
  show "\<exists>db cr. burn_effect who to_account n i (pool_info pool) r db cr \<and> shifts D s s' db cr
      \<and> books (pool_info pool) (pool_info pool') db cr \<and> same_pool pool pool'"
    using run
  proof (cases rule: by_kind_cases)
    case (1 p p')
    then show ?thesis using base_remove_one_ok[OF D _ _ 1(3)] wf who by (auto simp: burn_effect_def books_static)
  next
    case (2 m m')
    then show ?thesis using meta_remove_one_ok[OF D _ _ 2(3)] wf who by (auto simp: burn_effect_def books_static)
  qed
qed (auto simp: burn_effect_def both_def pay_def)

text \<open>The operations that pay a list of amounts from the reserves for burnt liquidity tokens.\<close>

definition payout_effect :: "'a \<Rightarrow> ('a, 'c) base_pool \<Rightarrow> 'r \<Rightarrow> ('c \<Rightarrow> 'a \<Rightarrow> nat) \<Rightarrow> ('c \<Rightarrow> 'a \<Rightarrow> nat) \<Rightarrow> bool" where
  "payout_effect who p r db cr \<longleftrightarrow>
     (\<exists>n ns. db = both (pay (lp_currency_id p) who n) (pays (currency_ids p) (pool_account p) ns) \<and> cr = nothing)"

abbreviation imbalance_body where
  "imbalance_body D who pid ns most to_account \<equiv> by_kind
     (\<lambda>bp. base_pool_remove_liquidity_imbalance D who pid bp ns most to_account)
     (\<lambda>mp. meta_pool_remove_liquidity_imbalance D who pid mp ns most to_account)"

interpretation imbalance: pool_operation D who "imbalance_body D who pid ns most to_account" "payout_effect who"
  for D :: "('a, 'c, 'x) stable_config" and who pid ns most to_account
proof
  fix pool :: "('a, 'c) pool" and s :: "('a, 'c, 'x) stable" and r pool' s'
  assume D: "lawful D" and wf: "wf_info (pool_info pool)" and who: "who \<noteq> pool_account (pool_info pool)"
    and run: "imbalance_body D who pid ns most to_account pool s = Inr ((r, pool'), s')"
  show "\<exists>db cr. payout_effect who (pool_info pool) r db cr \<and> shifts D s s' db cr
      \<and> books (pool_info pool) (pool_info pool') db cr \<and> same_pool pool pool'"
    using run
  proof (cases rule: by_kind_cases)
    case (1 p p')
    then show ?thesis using base_imbalance_ok[OF D _ _ 1(3)] wf who
      unfolding payout_effect_def by (metis books_static same_pool.simps(1) pool_info_simps(1))
  next
    case (2 m m')
    then show ?thesis using meta_imbalance_ok[OF D _ _ 2(3)] wf who
      unfolding payout_effect_def by (metis books_static same_pool.simps(2) pool_info_simps(2))
  qed
qed (auto simp: payout_effect_def both_def pay_def pays_def)

lemma on_info_run:
  assumes "on_info f pool s = Inr ((r, pool'), s')"
  obtains p' where "f (pool_info pool) s = Inr ((r, p'), s')" and "pool' = update_info (\<lambda>_. p') pool"
  using assms unfolding on_info_def by (auto simp: rbind_Inr_iff)

lemma pool_info_update [simp]: "pool_info (update_info f pool) = f (pool_info pool)"
  by (cases pool) (simp_all add: pool_info_def update_info_def)

lemma same_pool_update: "static (pool_info pool) p' \<Longrightarrow> same_pool pool (update_info (\<lambda>_. p') pool)"
  by (cases pool) (simp_all add: pool_info_def update_info_def)

lemma remove_amounts_length: "remove_amounts n supply bs = Inr ns \<Longrightarrow> length ns = length bs"
  by (induction bs arbitrary: ns) (auto simp: rbind_Inr_iff)

interpretation remove: pool_operation D who "on_info (remove_shares D pid who n ms to_account)" "payout_effect who"
  for D :: "('a, 'c, 'x) stable_config" and who pid n ms to_account
proof
  fix pool :: "('a, 'c) pool" and s :: "('a, 'c, 'x) stable" and r pool' s'
  assume D: "lawful D" and wf: "wf_info (pool_info pool)" and who: "who \<noteq> pool_account (pool_info pool)"
    and run: "on_info (remove_shares D pid who n ms to_account) pool s = Inr ((r, pool'), s')"
  let ?p = "pool_info pool"
  obtain p' where body: "remove_shares D pid who n ms to_account ?p s = Inr ((r, p'), s')"
    and pool': "pool' = update_info (\<lambda>_. p') pool"
    using run by (rule on_info_run)
  have "\<exists>m ns. shifts D s s' (both (pay (lp_currency_id ?p) who m) (pays (currency_ids ?p) (pool_account ?p) ns)) nothing
      \<and> books ?p p' (both (pay (lp_currency_id ?p) who m) (pays (currency_ids ?p) (pool_account ?p) ns)) nothing"
    using body unfolding remove_shares_def
  proof (elim run_elims, hypsubst_thin)
    fix ns bs' s1 s2 and u v :: unit
    assume quote: "calculate_base_remove_liquidity D ?p n s = Inr ns"
      and paid: "pay_shares D (pool_account ?p) to_account (currency_ids ?p) ms (pool_balances ?p) ns s = Inr (bs', s1)"
      and burn: "on_stable_ledger (mc_withdraw (sx_currency D) (lp_currency_id ?p) who n) s1 = Inr (u, s2)"
      and event: "stable_deposit_event (StableRemoveLiquidity pid who to_account ns (replicate (length (currency_ids ?p)) 0)
          (stable_issuance D s (lp_currency_id ?p) - n)) s2 = Inr (v, s')"
    have len: "length ns = length (currency_ids ?p)"
      using quote wf remove_amounts_length
      by (fastforce simp: calculate_base_remove_liquidity_def Let_def wf_info_def split: if_splits)
    have loop: "shifts D s s1 (pays (currency_ids ?p) (pool_account ?p) ns) nothing \<and> taken (pool_balances ?p) ns bs'"
      by (rule pay_shares_shifts[OF D paid]) (use wf in \<open>simp add: wf_info_def\<close>)
    have "shifts D s s' (both (pays (currency_ids ?p) (pool_account ?p) ns) (pay (lp_currency_id ?p) who n)) nothing"
      using shifts_trans[OF shifts_trans[OF conjunct1[OF loop] withdraw_shifts[OF D burn]] shifts_event[OF event]] by simp
    then have "shifts D s s' (both (pay (lp_currency_id ?p) who n) (pays (currency_ids ?p) (pool_account ?p) ns)) nothing"
      by (rule shifts_mono) (simp_all add: both_def)
    moreover have "books ?p (?p\<lparr>pool_balances := bs'\<rparr>) (both (pay (lp_currency_id ?p) who n) (pays (currency_ids ?p) (pool_account ?p) ns)) nothing"
      by (rule books_payout[OF wf who len conjunct2[OF loop] list_all2_refl_le refl])
    ultimately show "\<exists>m ns. shifts D s s' (both (pay (lp_currency_id ?p) who m) (pays (currency_ids ?p) (pool_account ?p) ns)) nothing
        \<and> books ?p (?p\<lparr>pool_balances := bs'\<rparr>) (both (pay (lp_currency_id ?p) who m) (pays (currency_ids ?p) (pool_account ?p) ns)) nothing"
      by blast
  qed
  then show "\<exists>db cr. payout_effect who ?p r db cr \<and> shifts D s s' db cr \<and> books ?p (pool_info pool') db cr \<and> same_pool pool pool'"
    unfolding payout_effect_def pool' pool_info_update by (blast intro: same_pool_update books_static)
qed (auto simp: payout_effect_def both_def pay_def pays_def)

end
