(* ===== verification/Stable_Underlying.thy ===== *)
theory Stable_Underlying
  imports Stable_Books
begin

text \<open>
  The swap of a meta pool through its base pool keeps the invariant. While it runs, the account of the meta pool trades
  as a customer of the base pool, so its own reserves are left out of the invariant (\<open>exchange_ok D {pid}\<close>) and
  tracked by hand: what the operation books in the meta pool is what its account gains.
\<close>

lemma balance_Pools [simp]: "stable_balance D (s\<lparr>Pools := f\<rparr>) = stable_balance D s"
  by (simp add: stable_balance_def fun_eq_iff)

subsection \<open>Leaving out one pool and putting it back\<close>

lemma exchange_ok_lp: "exchange_ok D X s \<Longrightarrow> LpCurrencies s c = Some q \<Longrightarrow> \<exists>r. Pools s q = Some r \<and> get_lp_currency r = c"
  unfolding exchange_ok_def by blast

lemma exchange_ok_mono: "exchange_ok D X s \<Longrightarrow> X \<subseteq> Y \<Longrightarrow> exchange_ok D Y s"
  unfolding exchange_ok_def by blast

lemma shifts_ok:
  assumes "exchange_ok D X s" and "shifts D s s' db cr" and "\<And>q c. q \<notin> X \<Longrightarrow> db c (sx_pool_account_id D q) = 0"
  shows "exchange_ok D X s'"
proof -
  note frame = shifts_frame[OF assms(2)]
  have "pool_ok D s' q r \<and> (q \<notin> X \<longrightarrow> covered D s' (pool_info r))" if r: "Pools s' q = Some r" for q r
  proof -
    have r': "Pools s q = Some r" using r frame by simp
    note ok = exchange_okD[OF assms(1) r']
    have "stable_balance D s c (pool_account (pool_info r)) \<le> stable_balance D s' c (pool_account (pool_info r))" if X: "q \<notin> X" for c
      using shiftsD[OF assms(2), of c "pool_account (pool_info r)"] assms(3)[OF X] ok(1) by (simp add: pool_ok_def)
    then have "covered D s' (pool_info r)" if "q \<notin> X" using ok(2) that unfolding covered_def by (meson le_trans)
    moreover have "pool_ok D s' q r" using ok(1) frame by (simp add: pool_ok_def linked_def)
    ultimately show ?thesis by blast
  qed
  then show ?thesis using assms(1) frame unfolding exchange_ok_def by auto
qed

lemma put_back_ok:
  assumes "exchange_ok D {pid} s" and "Pools s pid = Some pool" and "same_pool pool pool'" and "covered D s (pool_info pool')"
  shows "exchange_ok D {} (s\<lparr>Pools := (Pools s)(pid \<mapsto> pool')\<rparr>)"
proof -
  let ?s = "s\<lparr>Pools := (Pools s)(pid \<mapsto> pool')\<rparr>"
  have "pool_ok D ?s q r \<and> covered D ?s (pool_info r)" if r: "Pools ?s q = Some r" for q r
    using pool_ok_update[OF assms(1-3) _ _ r] exchange_okD(2)[OF assms(1)] assms(4) r
    by (cases "q = pid") (auto simp: covered_def)
  moreover have "\<exists>r. Pools ?s q = Some r \<and> get_lp_currency r = c" if lp: "LpCurrencies ?s c = Some q" for c q
  proof -
    have "LpCurrencies s c = Some q" using lp by simp
    then obtain r where "Pools s q = Some r" and "get_lp_currency r = c" using exchange_ok_lp[OF assms(1)] by blast
    then show ?thesis using same_pool_view(2)[OF assms(3)] assms(2) by (cases "q = pid") auto
  qed
  ultimately show ?thesis unfolding exchange_ok_def by blast
qed

lemma pool_account_inj: "sound_config D \<Longrightarrow> sx_pool_account_id D p = sx_pool_account_id D q \<longleftrightarrow> p = q"
  by (auto simp: sound_config_def dest: injD)

subsection \<open>Trades of one pool on another\<close>

text \<open>
  The account of \<open>pid\<close> as a customer of the pool \<open>base\<close>: the invariant without \<open>pid\<close> stays, the entry of \<open>pid\<close> stays,
  and the account loses at most the debits and gets at least the credits.
\<close>

definition trades ::
  "('a, 'c, 'x) stable_config \<Rightarrow> nat \<Rightarrow> ('a, 'c, 'x) stable \<Rightarrow> ('a, 'c, 'x) stable \<Rightarrow> ('c \<Rightarrow> nat) \<Rightarrow> ('c \<Rightarrow> nat) \<Rightarrow> bool" where
  "trades D pid s s' out into \<longleftrightarrow> exchange_ok D {pid} s' \<and> Pools s' pid = Pools s pid
     \<and> (\<forall>c. stable_balance D s c (sx_pool_account_id D pid) + into c \<le> stable_balance D s' c (sx_pool_account_id D pid) + out c)"

lemma trades_trans:
  assumes "trades D pid s t out into" and "trades D pid t v out' into'"
  shows "trades D pid s v (\<lambda>c. out c + out' c) (\<lambda>c. into c + into' c)"
  unfolding trades_def
proof (intro conjI allI)
  fix c
  have "stable_balance D s c (sx_pool_account_id D pid) + into c \<le> stable_balance D t c (sx_pool_account_id D pid) + out c"
    and "stable_balance D t c (sx_pool_account_id D pid) + into' c \<le> stable_balance D v c (sx_pool_account_id D pid) + out' c"
    using assms unfolding trades_def by blast+
  then show "stable_balance D s c (sx_pool_account_id D pid) + (into c + into' c)
      \<le> stable_balance D v c (sx_pool_account_id D pid) + (out c + out' c)" by linarith
qed (use assms in \<open>auto simp: trades_def\<close>)

lemma tradesD:
  "trades D pid s s' out into \<Longrightarrow>
     stable_balance D s c (sx_pool_account_id D pid) + into c \<le> stable_balance D s' c (sx_pool_account_id D pid) + out c"
  by (simp add: trades_def)

lemma trades_mono:
  assumes "trades D pid s s' out into" and "\<And>c. out c \<le> out' c" and "\<And>c. into' c \<le> into c"
  shows "trades D pid s s' out' into'"
  using assms unfolding trades_def by (meson add_le_mono le_trans order_refl)

lemma shifts_trades:
  assumes "exchange_ok D {pid} s" and "shifts D s s' db cr" and "\<And>q c. q \<noteq> pid \<Longrightarrow> db c (sx_pool_account_id D q) = 0"
  shows "trades D pid s s' (\<lambda>c. db c (sx_pool_account_id D pid)) (\<lambda>c. cr c (sx_pool_account_id D pid))"
  unfolding trades_def using shifts_ok[OF assms(1,2)] assms(3) shifts_frame(1)[OF assms(2)] shiftsD[OF assms(2)] by auto

context pool_operation
begin

lemma trades:
  assumes "sound_config D" and "exchange_ok D {pid} s" and "who = sx_pool_account_id D pid" and "base \<noteq> pid"
    and "mutate_pool base body s = Inr (r, s')"
  obtains pool db cr where "Pools s base = Some pool" and "effect (pool_info pool) r db cr"
    and "pool_account (pool_info pool) = sx_pool_account_id D base"
    and "trades D pid s s' (\<lambda>c. db c who) (\<lambda>c. cr c who)"
proof -
  have other: "who \<noteq> sx_pool_account_id D base" using assms(1,3,4) pool_account_inj by metis
  obtain pool pool' db cr where pr: "pool_run D base pool pool' db cr s s'" and eff: "effect (pool_info pool) r db cr"
    using run[OF assms(1,2) other assms(5)] .
  have "exchange_ok D {pid} s'"
    by (rule keeps_ok[OF assms(1,2) _ other assms(5)]) (use assms(1,3) pool_account_inj in fastforce)
  then have "trades D pid s s' (\<lambda>c. db c who) (\<lambda>c. cr c who)"
    using pr assms(3,4) by (simp add: trades_def pool_run_def)
  moreover have "Pools s base = Some pool" using pr by (simp add: pool_run_def)
  moreover have "pool_account (pool_info pool) = sx_pool_account_id D base"
    using exchange_okD(1)[OF assms(2) \<open>Pools s base = Some pool\<close>] by (simp add: pool_ok_def)
  ultimately show thesis using eff that by blast
qed

end

lemma owed_one_amount:
  assumes "one_amount (length cs) i n = Inr ns"
  shows "owed cs ns c \<le> (if c = cs ! i then n else 0) \<or> \<not> distinct cs"
proof (cases "distinct cs \<and> c \<in> set cs")
  case True
  then obtain k where k: "k < length cs" "c = cs ! k" by (auto simp: in_set_conv_nth)
  have "owed cs ns c = ns ! k" using True assms k by (auto simp: one_amount_def intro!: owed_nth split: if_splits)
  then show ?thesis using assms k by (auto simp: one_amount_def nth_list_update split: if_splits)
next
  case False
  have "owed cs ns c = 0" if "c \<notin> set cs" using that by (induction cs ns rule: list_induct2') auto
  then show ?thesis using False by auto
qed

subsection \<open>The swap\<close>

lemma pool_info_view [simp]:
  "currency_ids (pool_info pool) = get_currency_ids pool" "lp_currency_id (pool_info pool) = get_lp_currency pool"
  by (cases pool; simp add: pool_info_def get_currency_ids_def get_lp_currency_def)+

lemma run_balance_gain:
  assumes "balance_gain D c account m s = Inr (g, s')"
  obtains r where "m s = Inr (r, s')" and "stable_balance D s' c account = stable_balance D s c account + g"
  using assms unfolding balance_gain_def by (elim run_elims, hypsubst_thin) (auto simp: opt_Some)

lemma trades_refl: "exchange_ok D {pid} s \<Longrightarrow> trades D pid s s (\<lambda>_. 0) (\<lambda>_. 0)"
  by (simp add: trades_def)

text \<open>While a meta pool swaps, \<open>mp\<close> is the stored pool with a fresh price.\<close>

definition swap_view :: "('a, 'c, 'x) stable_config \<Rightarrow> nat \<Rightarrow> ('a, 'c) meta_pool \<Rightarrow> nat \<Rightarrow> ('a, 'c, 'x) stable \<Rightarrow> bool" where
  "swap_view D pid mp base_lp s \<longleftrightarrow> exchange_ok D {pid} s \<and> Suc base_lp = length (currency_ids (meta_info mp))
     \<and> (\<exists>stored. Pools s pid = Some (Meta stored) \<and> same_links stored mp \<and> meta_info mp = meta_info stored)"

lemma swap_view_trades: "swap_view D pid mp base_lp s \<Longrightarrow> trades D pid s s' out into \<Longrightarrow> swap_view D pid mp base_lp s'"
  by (auto simp: swap_view_def trades_def)

lemma swap_viewE:
  assumes "swap_view D pid mp base_lp s"
  obtains base where "exchange_ok D {pid} s" and "Pools s (base_pool_id mp) = Some base" and "base_pool_id mp \<noteq> pid"
    and "pool_account (meta_info mp) = sx_pool_account_id D pid" and "base_currencies mp = get_currency_ids base"
    and "distinct (get_currency_ids base)" and "currency_ids (meta_info mp) ! base_lp = get_lp_currency base"
    and "wf_info (meta_info mp)"
proof -
  obtain stored where ok: "exchange_ok D {pid} s" and stored: "Pools s pid = Some (Meta stored)"
    and same: "same_links stored mp" "meta_info mp = meta_info stored" and len: "Suc base_lp = length (currency_ids (meta_info mp))"
    using assms by (auto simp: swap_view_def)
  have pool: "wf_info (meta_info mp)" "pool_account (meta_info mp) = sx_pool_account_id D pid" and link: "linked s pid stored"
    using exchange_okD(1)[OF ok stored] same by (auto simp: pool_ok_def pool_info_def)
  obtain base where base: "Pools s (base_pool_id mp) = Some base" "base_currencies mp = get_currency_ids base"
    "last (currency_ids (meta_info mp)) = get_lp_currency base" and less: "base_pool_id mp < pid"
    using link same by (auto simp: linked_def same_links_def)
  have "currency_ids (meta_info mp) ! base_lp = last (currency_ids (meta_info mp))"
    using len by (metis diff_Suc_1 last_conv_nth length_0_conv nat.distinct(1))
  moreover have "distinct (get_currency_ids base)"
    using exchange_okD(1)[OF ok base(1)] by (cases base) (auto simp: pool_ok_def wf_info_def pool_info_def get_currency_ids_def)
  ultimately show thesis using that[OF ok base(1)] base(2,3) pool less by simp
qed

lemma underlying_input_ok:
  assumes "sound_config D" and "swap_view D pid mp base_lp s"
    and "underlying_currency mp base_lp i = Inr (c, from_index)"
    and run: "underlying_input D mp xs price base_lp i n s = Inr ((m, x), s')"
  shows "trades D pid s s' (\<lambda>c'. if base_lp \<le> i \<and> c' = c then n else 0)
           (\<lambda>c'. if base_lp \<le> i \<and> c' = currency_ids (meta_info mp) ! base_lp then m else 0)"
    and "i < base_lp \<Longrightarrow> m = n"
proof -
  let ?acc = "pool_account (meta_info mp)"
  obtain base where view: "exchange_ok D {pid} s" "Pools s (base_pool_id mp) = Some base" "base_pool_id mp \<noteq> pid"
    "?acc = sx_pool_account_id D pid" "base_currencies mp = get_currency_ids base" "distinct (get_currency_ids base)"
    "currency_ids (meta_info mp) ! base_lp = get_lp_currency base"
    using swap_viewE[OF assms(2)] by metis
  have "trades D pid s s' (\<lambda>c'. if base_lp \<le> i \<and> c' = c then n else 0)
           (\<lambda>c'. if base_lp \<le> i \<and> c' = currency_ids (meta_info mp) ! base_lp then m else 0) \<and> (i < base_lp \<longrightarrow> m = n)"
  proof (cases "i < base_lp")
    case True
    then have "m = n \<and> s' = s" using run by (auto simp: underlying_input_def compute_def rbind_Inr_iff)
    then show ?thesis using True trades_refl[OF view(1)] by simp
  next
    case False
    have c: "c = base_currencies mp ! (i - base_lp)"
      using assms(3) False by (auto simp: underlying_currency_def rbind_Inr_iff)
    obtain ns s1 where ns: "(one_amount (length (base_currencies mp)) (i - base_lp) n :: (dispatch_error, nat list) result) = Inr ns"
      and add: "stable_inner_add_liquidity D ?acc (base_pool_id mp) ns 0 ?acc s = Inr (m, s1)" and "s1 = s'"
      using run False unfolding underlying_input_def Let_def
      by (auto simp: compute_def rbind_Inr_iff)
    obtain pool db cr where pool: "Pools s (base_pool_id mp) = Some pool" and eff: "add_effect ?acc ?acc ns (pool_info pool) m db cr"
      and tr: "trades D pid s s1 (\<lambda>c. db c ?acc) (\<lambda>c. cr c ?acc)"
      using add.trades[OF assms(1) view(1,4,3) add[unfolded stable_inner_add_liquidity_def]] .
    have pb: "pool = base" using pool view(2) by simp
    have out: "db c' ?acc \<le> (if base_lp \<le> i \<and> c' = c then n else 0)" for c'
      using owed_one_amount[OF ns[unfolded view(5)], of c'] eff False view(6) c
      by (auto simp: add_effect_def pays_def pb view(5) split: if_splits)
    have into: "(if base_lp \<le> i \<and> c' = currency_ids (meta_info mp) ! base_lp then m else 0) \<le> cr c' ?acc" for c'
      using eff by (auto simp: add_effect_def both_def pay_def pb view(7))
    have "trades D pid s s' (\<lambda>c'. if base_lp \<le> i \<and> c' = c then n else 0)
           (\<lambda>c'. if base_lp \<le> i \<and> c' = currency_ids (meta_info mp) ! base_lp then m else 0)"
      unfolding \<open>s1 = s'\<close>[symmetric] by (rule trades_mono[OF tr out into])
    then show ?thesis using False by simp
  qed
  then show "trades D pid s s' (\<lambda>c'. if base_lp \<le> i \<and> c' = c then n else 0)
           (\<lambda>c'. if base_lp \<le> i \<and> c' = currency_ids (meta_info mp) ! base_lp then m else 0)" "i < base_lp \<Longrightarrow> m = n" by auto
qed

lemma underlying_payout_ok:
  assumes "sound_config D" and "swap_view D pid mp base_lp s"
    and run: "(if base_lp \<le> j
       then balance_gain D c (pool_account (meta_info mp))
              (inner_remove_liquidity_one_currency D (base_pool_id mp) (pool_account (meta_info mp)) n (j - base_lp) 0
                 (pool_account (meta_info mp)))
       else sret n) s = Inr (dy, s')"
  shows "trades D pid s s' (\<lambda>c'. if base_lp \<le> j \<and> c' = currency_ids (meta_info mp) ! base_lp then n else 0) (\<lambda>_. 0)"
    and "base_lp \<le> j \<Longrightarrow> stable_balance D s' c (sx_pool_account_id D pid) = stable_balance D s c (sx_pool_account_id D pid) + dy"
    and "j < base_lp \<Longrightarrow> dy = n \<and> s' = s"
proof -
  let ?acc = "pool_account (meta_info mp)"
  obtain base where view: "exchange_ok D {pid} s" "Pools s (base_pool_id mp) = Some base" "base_pool_id mp \<noteq> pid"
    "?acc = sx_pool_account_id D pid" "currency_ids (meta_info mp) ! base_lp = get_lp_currency base"
    using swap_viewE[OF assms(2)] by metis
  have "trades D pid s s' (\<lambda>c'. if base_lp \<le> j \<and> c' = currency_ids (meta_info mp) ! base_lp then n else 0) (\<lambda>_. 0)
      \<and> (base_lp \<le> j \<longrightarrow> stable_balance D s' c ?acc = stable_balance D s c ?acc + dy) \<and> (j < base_lp \<longrightarrow> dy = n \<and> s' = s)"
  proof (cases "base_lp \<le> j")
    case True
    then obtain r where one: "inner_remove_liquidity_one_currency D (base_pool_id mp) ?acc n (j - base_lp) 0 ?acc s = Inr (r, s')"
      and gain: "stable_balance D s' c ?acc = stable_balance D s c ?acc + dy"
      using run by (auto elim: run_balance_gain)
    have body: "mutate_pool (base_pool_id mp) (remove_one_body D ?acc (base_pool_id mp) n (j - base_lp) 0 ?acc) s = Inr (r, s')"
      using one unfolding inner_remove_liquidity_one_currency_def by (auto split: if_splits)
    obtain pool db cr where pool: "Pools s (base_pool_id mp) = Some pool" and eff: "burn_effect ?acc ?acc n (j - base_lp) (pool_info pool) r db cr"
      and account: "pool_account (pool_info pool) = sx_pool_account_id D (base_pool_id mp)"
      and tr: "trades D pid s s' (\<lambda>c. db c ?acc) (\<lambda>c. cr c ?acc)"
      using remove_one.trades[OF assms(1) view(1,4,3) body] .
    have "?acc \<noteq> pool_account (pool_info pool)" using account view(3,4) pool_account_inj[OF assms(1)] by metis
    then have "db c' ?acc = (if c' = currency_ids (meta_info mp) ! base_lp then n else 0)" for c'
      using eff pool view(2) by (simp add: burn_effect_def both_def pay_def view(5))
    then have "trades D pid s s' (\<lambda>c'. if base_lp \<le> j \<and> c' = currency_ids (meta_info mp) ! base_lp then n else 0) (\<lambda>_. 0)"
      using True by (intro trades_mono[OF tr]) simp_all
    then show ?thesis using gain True by simp
  next
    case False
    then show ?thesis using run trades_refl[OF view(1)] by auto
  qed
  then show "trades D pid s s' (\<lambda>c'. if base_lp \<le> j \<and> c' = currency_ids (meta_info mp) ! base_lp then n else 0) (\<lambda>_. 0)"
    "base_lp \<le> j \<Longrightarrow> stable_balance D s' c (sx_pool_account_id D pid) = stable_balance D s c (sx_pool_account_id D pid) + dy"
    "j < base_lp \<Longrightarrow> dy = n \<and> s' = s"
    using view(4) by auto
qed

text \<open>
  Both branches: what the operation takes in at \<open>currency_from\<close> and books, its account has after paying \<open>dy\<close> of \<open>currency_to\<close>.
\<close>

definition swap_books ::
  "('a, 'c, 'x) stable_config \<Rightarrow> nat \<Rightarrow> ('a, 'c) meta_pool \<Rightarrow> 'c \<Rightarrow> nat \<Rightarrow> 'c \<Rightarrow> nat \<Rightarrow> ('a, 'c) meta_pool \<Rightarrow>
   ('a, 'c, 'x) stable \<Rightarrow> ('a, 'c, 'x) stable \<Rightarrow> bool" where
  "swap_books D pid mp c_from n c_to dy mp' s s' \<longleftrightarrow>
     exchange_ok D {pid} s' \<and> Pools s' pid = Pools s pid \<and> same_links mp mp' \<and> static (meta_info mp) (meta_info mp')
   \<and> (\<forall>k<length (currency_ids (meta_info mp)).
        pool_balances (meta_info mp') ! k + stable_balance D s (currency_ids (meta_info mp) ! k) (sx_pool_account_id D pid)
          + (if currency_ids (meta_info mp) ! k = c_to then dy else 0)
        \<le> pool_balances (meta_info mp) ! k + stable_balance D s' (currency_ids (meta_info mp) ! k) (sx_pool_account_id D pid)
          + (if currency_ids (meta_info mp) ! k = c_from then n else 0))"

lemma underlying_swap_ok:
  assumes "sound_config D" and view: "swap_view D pid mp base_lp s" and "i \<noteq> j" and "i < base_lp \<or> j < base_lp"
    and from_c: "underlying_currency mp base_lp i = Inr (c_from, f)"
    and to_c: "underlying_currency mp base_lp j = Inr (c_to, t)"
    and run: "underlying_swap D mp price base_lp i j c_to f t n least s = Inr ((dy, mp'), s')"
  shows "swap_books D pid mp c_from n c_to dy mp' s s'"
  using run unfolding underlying_swap_def Let_def
proof (elim run_elims, hypsubst_thin)
  fix xs m x s1 out fee q
  let ?p = "meta_info mp" and ?acc = "sx_pool_account_id D pid"
  assume inp: "underlying_input D mp xs price base_lp i n s = Inr ((m, x), s1)"
    and res: "rbind (index_or_panic (pool_balances ?p) f) (\<lambda>b_from.
              rbind (opt (checked_add_w 128 b_from m)) (\<lambda>b_from'.
              rbind (index_or_panic (pool_balances ?p) t) (\<lambda>b_to.
              rbind (opt (checked_sub b_to out)) (\<lambda>n.
              rbind (opt (checked_sub n fee)) (\<lambda>b_to'.
              Inr (?p\<lparr>pool_balances := (pool_balances ?p)[f := b_from', t := b_to']\<rparr>)))))) = Inr q"
    and pay: "(if base_lp \<le> j
        then balance_gain D c_to (pool_account ?p)
               (inner_remove_liquidity_one_currency D (base_pool_id mp) (pool_account ?p) out (j - base_lp) 0 (pool_account ?p))
        else sret out) s1 = Inr (dy, s')"
  note input = underlying_input_ok[OF assms(1) view from_c inp]
  note payout = underlying_payout_ok[OF assms(1) swap_view_trades[OF view input(1)] pay]
  have len: "base_lp < length (currency_ids ?p)" using view by (simp add: swap_view_def)
  have wf: "wf_info ?p" using swap_viewE[OF view] by metis
  have f: "f = (if i < base_lp then i else base_lp)" and t: "t = (if j < base_lp then j else base_lp)"
    and cf: "i < base_lp \<Longrightarrow> c_from = currency_ids ?p ! i" and ct: "j < base_lp \<Longrightarrow> c_to = currency_ids ?p ! j"
    using from_c to_c by (auto simp: underlying_currency_def rbind_Inr_iff split: if_splits)
  have q: "q = ?p\<lparr>pool_balances := (pool_balances ?p)[f := pool_balances ?p ! f + m, t := pool_balances ?p ! t - out - fee]\<rparr>"
    and le: "out + fee \<le> pool_balances ?p ! t"
    using res by (auto simp: rbind_Inr_iff opt_Some)
  have "pool_balances q ! k + stable_balance D s (currency_ids ?p ! k) ?acc + (if currency_ids ?p ! k = c_to then dy else 0)
      \<le> pool_balances ?p ! k + stable_balance D s' (currency_ids ?p ! k) ?acc + (if currency_ids ?p ! k = c_from then n else 0)"
    if k: "k < length (currency_ids ?p)" for k
  proof -
    let ?c = "currency_ids ?p ! k"
    have eq: "?c = currency_ids ?p ! l \<longleftrightarrow> k = l" if "l < length (currency_ids ?p)" for l
      using wf k that by (simp add: wf_info_def nth_eq_iff_index_eq)
    have b: "pool_balances q ! k = (if k = t then pool_balances ?p ! t - out - fee else if k = f then pool_balances ?p ! f + m else pool_balances ?p ! k)"
      using wf k by (simp add: q wf_info_def nth_list_update)
    have in_c: "stable_balance D s ?c ?acc + (if base_lp \<le> i \<and> k = base_lp then m else 0)
        \<le> stable_balance D s1 ?c ?acc + (if base_lp \<le> i \<and> ?c = c_from then n else 0)"
      using tradesD[OF input(1), of ?c] unfolding eq[OF len] .
    have out_c: "stable_balance D s1 ?c ?acc \<le> stable_balance D s' ?c ?acc + (if base_lp \<le> j \<and> k = base_lp then out else 0)"
      using tradesD[OF payout(1), of ?c] unfolding eq[OF len] by simp
    have exact: "base_lp \<le> j \<Longrightarrow> ?c = c_to \<Longrightarrow> stable_balance D s' ?c ?acc = stable_balance D s1 ?c ?acc + dy"
      using payout(2) by simp
    show ?thesis
    proof (cases "i < base_lp")
      case True
      then have m: "m = n" and c1: "?c = c_from \<longleftrightarrow> k = i" and fi: "f = i" using input(2) cf eq len f by auto
      show ?thesis
      proof (cases "j < base_lp")
        case True
        then have "?c = c_to \<longleftrightarrow> k = j" "t = j" "dy = out" using ct eq len t payout(3) by auto
        then show ?thesis using \<open>i < base_lp\<close> True b c1 fi m in_c out_c le assms(3) by auto
      next
        case False
        then have "t = base_lp" using t by simp
        then show ?thesis using \<open>i < base_lp\<close> False b c1 fi m in_c out_c le exact by (auto split: if_splits)
      qed
    next
      case False
      then have j: "j < base_lp" and fi: "f = base_lp" using assms(4) f by auto
      then have "?c = c_to \<longleftrightarrow> k = j" "t = j" "dy = out" using ct eq len t payout(3) by auto
      then show ?thesis using False j b fi in_c out_c le by (auto split: if_splits)
    qed
  qed
  moreover have "static ?p q" by (simp add: q static_def)
  moreover have "exchange_ok D {pid} s'" "Pools s' pid = Pools s pid" using payout(1) input(1) by (auto simp: trades_def)
  ultimately show "swap_books D pid mp c_from n c_to dy (mp\<lparr>meta_info := q\<rparr>) s s'" by (simp add: swap_books_def)
qed

text \<open>The branch in which both currencies are the base pool's.\<close>

lemma base_swap_books:
  assumes "sound_config D" and view: "swap_view D pid mp base_lp s" and "base_lp \<le> i" and "base_lp \<le> j" and "i \<noteq> j"
    and from_c: "underlying_currency mp base_lp i = Inr (c_from, f)"
    and run: "balance_gain D c_to (pool_account (meta_info mp))
        (inner_swap D (pool_account (meta_info mp)) (base_pool_id mp) (i - base_lp) (j - base_lp) n least to_account) s = Inr (dy, s')"
  shows "swap_books D pid mp c_from n c_to dy mp s s'"
proof -
  let ?acc = "pool_account (meta_info mp)"
  obtain base where ok: "exchange_ok D {pid} s" and base: "Pools s (base_pool_id mp) = Some base" "base_pool_id mp \<noteq> pid"
    and acc: "?acc = sx_pool_account_id D pid" and cur: "base_currencies mp = get_currency_ids base"
    using swap_viewE[OF view] by metis
  obtain r where swap: "inner_swap D ?acc (base_pool_id mp) (i - base_lp) (j - base_lp) n least to_account s = Inr (r, s')"
    and gain: "stable_balance D s' c_to ?acc = stable_balance D s c_to ?acc + dy"
    using run by (rule run_balance_gain)
  have neq: "i - base_lp \<noteq> j - base_lp" using assms(3-5) by simp
  have body: "mutate_pool (base_pool_id mp) (swap_body D ?acc (base_pool_id mp) (i - base_lp) (j - base_lp) n least to_account) s = Inr (r, s')"
    using swap neq unfolding inner_swap_def by simp
  obtain pool db cr where pool: "Pools s (base_pool_id mp) = Some pool"
    and eff: "swap_effect ?acc to_account (i - base_lp) (j - base_lp) n (pool_info pool) r db cr"
    and account: "pool_account (pool_info pool) = sx_pool_account_id D (base_pool_id mp)"
    and tr: "trades D pid s s' (\<lambda>c. db c ?acc) (\<lambda>c. cr c ?acc)"
    using pool_operation.trades[OF swap_contract[OF neq] assms(1) ok acc base(2) body] .
  have c_from: "c_from = get_currency_ids base ! (i - base_lp)"
    using from_c assms(3) cur by (auto simp: underlying_currency_def rbind_Inr_iff)
  have "?acc \<noteq> pool_account (pool_info pool)" using account acc base(2) pool_account_inj[OF assms(1)] by metis
  then have out: "db c ?acc = (if c = c_from then n else 0)" for c
    using eff pool base(1) by (simp add: swap_effect_def both_def pay_def c_from)
  have "stable_balance D s c ?acc + (if c = c_to then dy else 0) \<le> stable_balance D s' c ?acc + (if c = c_from then n else 0)" for c
  proof (cases "c = c_to")
    case True
    then show ?thesis using gain by simp
  next
    case False
    have "stable_balance D s c ?acc + cr c ?acc \<le> stable_balance D s' c ?acc + (if c = c_from then n else 0)"
      using tradesD[OF tr, of c] out[of c, unfolded acc] unfolding acc by simp
    then show ?thesis using False by simp
  qed
  then show ?thesis using tr unfolding swap_books_def trades_def acc by (simp add: static_def add.assoc)
qed

lemma meta_pool_swap_underlying_ok:
  assumes "sound_config D" and ok: "exchange_ok D {} s" and pool: "Pools s pid = Some (Meta mp)"
    and who: "\<And>q. who \<noteq> sx_pool_account_id D q"
    and run: "meta_pool_swap_underlying D mp pid who to_account n least i j s = Inr ((dy, mp'), s')"
  shows "exchange_ok D {} (s'\<lparr>Pools := (Pools s')(pid \<mapsto> Meta mp')\<rparr>)"
  using run unfolding meta_pool_swap_underlying_def Let_def
proof (elim run_elims, hypsubst_thin)
  fix base_lp price mq c_from f c_to t dx s1 s2 s3 and u v :: unit
  let ?p = "meta_info mp" and ?acc = "sx_pool_account_id D pid"
  have D: "lawful D" using assms(1) by (simp add: sound_config_def)
  have p: "pool_account ?p = ?acc" "wf_info ?p" and cov: "covered D s ?p"
    using exchange_okD[OF ok pool] by (auto simp: pool_ok_def)
  assume len: "opt (checked_sub (length (currency_ids ?p)) 1) = Inr base_lp"
    and price: "meta_pool_update_virtual_price D mp s = Inr (price, mq)"
    and range: "i \<noteq> j \<and> i < base_lp + length (base_currencies mq) \<and> j < base_lp + length (base_currencies mq)"
    and from_c: "underlying_currency mq base_lp i = Inr (c_from, f)" and to_c: "underlying_currency mq base_lp j = Inr (c_to, t)"
    and moved: "do_transfer_in D c_from who (pool_account ?p) n s = Inr (dx, s1)"
    and swap: "(if i < base_lp \<or> j < base_lp then underlying_swap D mq price base_lp i j c_to f t dx least
        else sbind (balance_gain D c_to (pool_account ?p)
               (inner_swap D (pool_account ?p) (base_pool_id mq) (i - base_lp) (j - base_lp) dx least to_account)) (\<lambda>dy. sret (dy, mq))) s1
        = Inr ((dy, mp'), s2)"
    and out: "stable_transfer D c_to (pool_account ?p) to_account dy s2 = Inr (u, s3)"
    and event: "stable_deposit_event (CurrencyExchangeUnderlying pid who n dy i j to_account) s3 = Inr (v, s')"
  note same = update_virtual_price_same[OF price]
  have who': "who \<noteq> pool_account ?p" using who p by simp
  note first = transfer_in_shifts[OF D moved who']
  have ok1: "exchange_ok D {pid} s1"
    by (rule exchange_ok_mono[OF shifts_ok[OF ok first(1)]]) (use who in \<open>auto simp: pay_def\<close>)
  have pool1: "Pools s1 pid = Some (Meta mp)" using pool shifts_frame(1)[OF first(1)] by simp
  have "currency_ids ?p \<noteq> []" using exchange_okD(1)[OF ok pool] by (auto simp: pool_ok_def linked_def)
  then have view: "swap_view D pid mq base_lp s1"
    using ok1 pool1 same len by (auto simp: swap_view_def opt_Some)
  have books: "swap_books D pid mq c_from dx c_to dy mp' s1 s2"
  proof (cases "i < base_lp \<or> j < base_lp")
    case True
    then show ?thesis using underlying_swap_ok[OF assms(1) view conjunct1[OF range] True from_c to_c] swap by simp
  next
    case False
    then have b: "balance_gain D c_to (pool_account (meta_info mq))
        (inner_swap D (pool_account (meta_info mq)) (base_pool_id mq) (i - base_lp) (j - base_lp) dx least to_account) s1 = Inr (dy, s2)"
      and "mp' = mq"
      using swap same(2) by (auto simp: rbind_Inr_iff)
    then show ?thesis using base_swap_books[OF assms(1) view _ _ _ from_c b] False range by auto
  qed
  note last_step = shifts_trans[OF transfer_shifts[OF D out] shifts_event[OF event]]
  have ok2: "exchange_ok D {pid} s2" and pool2: "Pools s2 pid = Some (Meta mp)" using books pool1 by (auto simp: swap_books_def)
  have ok3: "exchange_ok D {pid} s'"
    by (rule shifts_ok[OF ok2 last_step]) (use pool_account_inj[OF assms(1)] p in \<open>auto simp: pay_def both_def\<close>)
  have pool3: "Pools s' pid = Some (Meta mp)" using pool2 shifts_frame(1)[OF last_step] by simp
  have st: "static ?p (meta_info mp')" and links: "same_links mp mp'"
    using books same by (auto simp: swap_books_def same_links_def)
  have "covered D s' (meta_info mp')"
    unfolding covered_def
  proof (intro allI impI)
    fix k assume "k < length (currency_ids (meta_info mp'))"
    then have k: "k < length (currency_ids ?p)" using st by (simp add: static_def)
    let ?c = "currency_ids ?p ! k"
    have "pool_balances ?p ! k \<le> stable_balance D s ?c ?acc" using cov k p by (simp add: covered_def)
    moreover have "stable_balance D s ?c ?acc + (if ?c = c_from then n else 0) \<le> stable_balance D s1 ?c ?acc"
      using shiftsD[OF first(1), of ?c ?acc] who by (auto simp: pay_def p split: if_splits)
    moreover have "pool_balances (meta_info mp') ! k + stable_balance D s1 ?c ?acc + (if ?c = c_to then dy else 0)
        \<le> pool_balances ?p ! k + stable_balance D s2 ?c ?acc + (if ?c = c_from then n else 0)"
      using books k same(2) first(2) unfolding swap_books_def by metis
    moreover have "stable_balance D s2 ?c ?acc \<le> stable_balance D s' ?c ?acc + (if ?c = c_to then dy else 0)"
      using shiftsD[OF last_step, of ?c ?acc] by (auto simp: pay_def both_def p split: if_splits)
    ultimately have "pool_balances (meta_info mp') ! k \<le> stable_balance D s' ?c ?acc" by linarith
    then show "pool_balances (meta_info mp') ! k \<le> stable_balance D s' (currency_ids (meta_info mp') ! k) (pool_account (meta_info mp'))"
      using st p by (simp add: static_def)
  qed
  then show "exchange_ok D {} (s'\<lparr>Pools := (Pools s')(pid \<mapsto> Meta mp')\<rparr>)"
    using put_back_ok[OF ok3 pool3, of "Meta mp'"] st links by simp
qed

end
