(* ===== verification/Stable_Steps.thy ===== *)
theory Stable_Steps
  imports Stable_Underlying
begin

text \<open>
  Every call of the stable exchange keeps its invariant. \<open>stable_step\<close> is any dispatchable, called by an account that is
  not the account of a pool, or a change of the ledger and the clock by the rest of the chain that takes nothing from the
  accounts of the pools.
\<close>

subsection \<open>Operations that only change settings\<close>

text \<open>An action on a pool that leaves the ledger alone and only touches what may change.\<close>

definition only_settings :: "(('a, 'c) pool \<Rightarrow> ('a, 'c, 'x, 'r \<times> ('a, 'c) pool) stable_action) \<Rightarrow> bool" where
  "only_settings body \<longleftrightarrow> (\<forall>pool s r pool' s'. body pool s = Inr ((r, pool'), s') \<longrightarrow>
     same_storage s s' \<and> stable_ledger s' = stable_ledger s \<and> same_pool pool pool'
     \<and> pool_balances (pool_info pool') = pool_balances (pool_info pool))"

lemma settings_ok:
  assumes "exchange_ok D X s" and "only_settings body" and "mutate_pool pid body s = Inr (r, s')"
  shows "exchange_ok D X s'"
proof -
  obtain pool pool' s1 where pool: "Pools s pid = Some pool" and body: "body pool s = Inr ((r, pool'), s1)"
    and s': "s' = s1\<lparr>Pools := (Pools s1)(pid \<mapsto> pool')\<rparr>"
    using assms(3) by (rule run_mutate_pool)
  have kept: "same_storage s s1" "stable_ledger s1 = stable_ledger s" "same_pool pool pool'"
    "pool_balances (pool_info pool') = pool_balances (pool_info pool)"
    using assms(2) body unfolding only_settings_def by blast+
  have "books (pool_info pool) (pool_info pool') nothing nothing"
    using same_pool_static[OF kept(3)] kept(4) by (simp add: books_def)
  then have "pool_run D pid pool pool' nothing nothing s s'"
    using pool kept by (simp add: pool_run_def s' same_storage_def stable_balance_def)
  then show ?thesis by (rule pool_run_ok[OF assms(1)]) (simp add: spares_pools_def)
qed

lemma same_pool_settings:
  assumes "static (pool_info pool) (f (pool_info pool))"
  shows "same_pool pool (update_info f pool)"
  using assms by (cases pool) (simp_all add: pool_info_def update_info_def)

lemma event_run: "stable_deposit_event e s = Inr (u, s') \<longleftrightarrow> s' = s\<lparr>stable_events := stable_events s @ [e]\<rparr>"
  by (auto simp: stable_deposit_event_def)

lemma settings_intros:
  "only_settings (\<lambda>pool. sbind (stable_deposit_event e) (\<lambda>_. sret ((), set_pool_admin_fee_receiver a pool)))"
  "only_settings (\<lambda>pool. sbind (sensure P x) (\<lambda>_. sbind (stable_deposit_event e) (\<lambda>_. sret ((), set_pool_fee n pool))))"
  "only_settings (\<lambda>pool. sbind (sensure P x) (\<lambda>_. sbind (stable_deposit_event e) (\<lambda>_. sret ((), set_pool_admin_fee n pool))))"
  by (auto simp: only_settings_def rbind_Inr_iff stable_deposit_event_def same_storage_def set_pool_admin_fee_receiver_def
      set_pool_fee_def set_pool_admin_fee_def static_def pool_info_update intro!: same_pool_settings split: if_splits)

lemma static_ramp [simp]: "static p (set_ramp a0 a1 t0 t1 p)"
  and ramp_balances [simp]: "pool_balances (set_ramp a0 a1 t0 t1 p) = pool_balances p"
  by (simp_all add: static_def set_ramp_def)

lemma ramp_settings:
  "only_settings (on_info (\<lambda>pool.
       sbind (slift (\<lambda>_. check_ramp now pool a target_time)) (\<lambda>(a0, a1).
       sbind (stable_deposit_event (RampA pid a0 a1 now target_time)) (\<lambda>_.
       sret ((), set_ramp a0 a1 now target_time pool)))))"
  "only_settings (on_info (\<lambda>pool.
       sbind (sget stable_now) (\<lambda>now.
       sbind (sensure (\<lambda>_. future_a_time pool > now) (stable_error Stable_AlreadyStoppedRampA)) (\<lambda>_.
       sbind (arith (get_a_precise now pool)) (\<lambda>current_a.
       sbind (stable_deposit_event (StopRampA pid current_a now)) (\<lambda>_.
       sret ((), set_ramp current_a current_a now now pool)))))))"
  by (auto simp: only_settings_def on_info_def rbind_Inr_iff stable_deposit_event_def same_storage_def compute_def
      intro!: same_pool_update split: if_splits)

subsection \<open>Creation\<close>

lemma multipliers_length: "multipliers decs = Inr rate \<Longrightarrow> length rate = length decs"
  by (induction decs arbitrary: rate) (auto simp: rbind_Inr_iff)

lemma inner_create_run:
  assumes "sound_config D" and "inner_create_base_pool D cs decs a fee admin receiver symbol s = Inr ((p, pid), s')"
  shows "pid = NextPoolId s" and "shifts D s s' nothing nothing" and "wf_info p" and "currency_ids p = cs"
    and "pool_account p = sx_pool_account_id D pid" and "\<forall>k<length (currency_ids p). pool_balances p ! k = 0"
    and "LpCurrencies s (lp_currency_id p) = None"
proof -
  have "pid = NextPoolId s \<and> shifts D s s' nothing nothing \<and> wf_info p \<and> currency_ids p = cs
      \<and> pool_account p = sx_pool_account_id D pid \<and> (\<forall>k<length (currency_ids p). pool_balances p ! k = 0)
      \<and> LpCurrencies s (lp_currency_id p) = None"
    using assms unfolding inner_create_base_pool_def Let_def
    by (auto simp: rbind_Inr_iff compute_def wf_info_def shifts_def same_storage_def stable_balance_def sound_config_def
        multipliers_length split: if_splits)
  then show "pid = NextPoolId s" "shifts D s s' nothing nothing" "wf_info p" "currency_ids p = cs"
    "pool_account p = sx_pool_account_id D pid" "\<forall>k<length (currency_ids p). pool_balances p ! k = 0"
    "LpCurrencies s (lp_currency_id p) = None" by simp_all
qed

lemma insert_pool_ok:
  assumes "exchange_ok D {} s" and pid: "pid = NextPoolId s" and p: "wf_info (pool_info pool)"
    "pool_account (pool_info pool) = sx_pool_account_id D pid"
    and zero: "\<forall>k<length (currency_ids (pool_info pool)). pool_balances (pool_info pool) ! k = 0"
    and link: "\<And>mp. pool = Meta mp \<Longrightarrow> linked s pid mp"
    and run: "insert_pool pid pool e D s = Inr (u, s')"
  shows "exchange_ok D {} s'"
proof -
  have s': "Pools s' = (Pools s)(pid \<mapsto> pool)" "LpCurrencies s' = (LpCurrencies s)(get_lp_currency pool \<mapsto> pid)"
    "NextPoolId s' = Suc (NextPoolId s)" "stable_ledger s' = stable_ledger s" and fresh: "Pools s pid = None"
    using run by (auto simp: insert_pool_def rbind_Inr_iff event_run split: if_splits)
  have bal: "stable_balance D s' = stable_balance D s" using s'(4) by (simp add: stable_balance_def fun_eq_iff)
  have links: "linked s' q mp" if "linked s q mp" for q mp
    using that fresh by (auto simp: linked_def s'(1) split: if_splits)
  have "pool_ok D s' q r \<and> covered D s' (pool_info r)" if r: "Pools s' q = Some r" for q r
  proof (cases "q = pid")
    case True
    then have "r = pool" using r s' by simp
    then show ?thesis using True p zero link links pid by (auto simp: pool_ok_def covered_def s'(3))
  next
    case False
    then have "Pools s q = Some r" using r s' by simp
    then show ?thesis using exchange_okD[OF assms(1)] links by (auto simp: pool_ok_def covered_def bal s'(3) less_SucI)
  qed
  moreover have "\<exists>r. Pools s' q = Some r \<and> get_lp_currency r = c" if lp: "LpCurrencies s' c = Some q" for c q
  proof (cases "c = get_lp_currency pool")
    case True
    then show ?thesis using lp s' by simp
  next
    case False
    then obtain r where "Pools s q = Some r" "get_lp_currency r = c"
      using exchange_ok_lp[OF assms(1), of c q] lp s'(2) by auto
    then show ?thesis using fresh s'(1) by (metis fun_upd_apply option.distinct(1))
  qed
  ultimately show ?thesis unfolding exchange_ok_def by blast
qed

subsection \<open>Collecting the fees\<close>

text \<open>The loop takes what is above the reserves and leaves the other accounts alone.\<close>

lemma collect_fees_run:
  assumes "lawful D" and "collect_fees D pid account receiver cs rs s = Inr (u, s')" and "distinct cs"
  shows "same_storage s s' \<and> (\<forall>c a. a \<noteq> account \<longrightarrow> stable_balance D s c a \<le> stable_balance D s' c a)
      \<and> (\<forall>c. c \<notin> set cs \<longrightarrow> stable_balance D s c account \<le> stable_balance D s' c account)
      \<and> (length rs = length cs \<longrightarrow> (\<forall>k<length cs. rs ! k \<le> stable_balance D s' (cs ! k) account))"
  using assms
proof (induction D pid account receiver cs rs arbitrary: s rule: collect_fees.induct)
  case (1 D pid account receiver c cs r rs)
  show ?case
    using 1(3) unfolding collect_fees.simps
  proof (elim run_elims, hypsubst_thin)
    fix n s1 s2 and v w :: unit
    assume n: "opt (checked_sub (stable_balance D s c account) r) = Inr n"
      and pay: "(if n \<noteq> 0 then stable_transfer D c account receiver n else sret ()) s = Inr (v, s1)"
      and event: "stable_deposit_event (CollectProtocolFee pid c n) s1 = Inr (w, s2)"
      and rest: "collect_fees D pid account receiver cs rs s2 = Inr (u, s')"
    have "shifts D s s1 (pay c account n) nothing"
    proof (cases "n = 0")
      case True
      then show ?thesis using pay shifts_refl[of D s] by simp
    next
      case False
      then have "stable_transfer D c account receiver n s = Inr (v, s1)" using pay by simp
      then show ?thesis by (rule shifts_mono[OF transfer_shifts[OF 1(2)]]) auto
    qed
    then have head: "shifts D s s2 (pay c account n) nothing" using shifts_trans[OF _ shifts_event[OF event]] by fastforce
    have tail: "same_storage s2 s' \<and> (\<forall>c a. a \<noteq> account \<longrightarrow> stable_balance D s2 c a \<le> stable_balance D s' c a)
      \<and> (\<forall>c. c \<notin> set cs \<longrightarrow> stable_balance D s2 c account \<le> stable_balance D s' c account)
      \<and> (length rs = length cs \<longrightarrow> (\<forall>k<length cs. rs ! k \<le> stable_balance D s' (cs ! k) account))"
      using 1(1)[OF 1(2) rest] 1(4) by simp
    have step: "stable_balance D s c' a \<le> stable_balance D s2 c' a" if "a \<noteq> account \<or> c' \<noteq> c" for c' a
      using shiftsD[OF head, of c' a] that by (auto simp: pay_def split: if_splits)
    have "r \<le> stable_balance D s2 c account" using shiftsD[OF head, of c account] n by (auto simp: pay_def opt_Some)
    also have "\<dots> \<le> stable_balance D s' c account" using tail 1(4) by simp
    finally have first: "r \<le> stable_balance D s' c account" .
    have "same_storage s s'" using tail head by (auto simp: shifts_def same_storage_def)
    moreover have "\<forall>c' a. a \<noteq> account \<longrightarrow> stable_balance D s c' a \<le> stable_balance D s' c' a"
      using tail step by (meson le_trans)
    moreover have "\<forall>c'. c' \<notin> set (c # cs) \<longrightarrow> stable_balance D s c' account \<le> stable_balance D s' c' account"
      using tail step by (metis le_trans list.set_intros)
    moreover have "length (r # rs) = length (c # cs) \<longrightarrow> (\<forall>k<length (c # cs). (r # rs) ! k \<le> stable_balance D s' ((c # cs) ! k) account)"
      using tail first by (auto simp: nth_Cons split: nat.splits)
    ultimately show "same_storage s s' \<and> (\<forall>c a. a \<noteq> account \<longrightarrow> stable_balance D s c a \<le> stable_balance D s' c a)
      \<and> (\<forall>c'. c' \<notin> set (c # cs) \<longrightarrow> stable_balance D s c' account \<le> stable_balance D s' c' account)
      \<and> (length (r # rs) = length (c # cs) \<longrightarrow> (\<forall>k<length (c # cs). (r # rs) ! k \<le> stable_balance D s' ((c # cs) ! k) account))"
      by blast
  qed
qed (auto simp: same_storage_def)

lemma withdraw_admin_fee_ok:
  assumes "sound_config D" and "exchange_ok D {} s" and "withdraw_admin_fee D origin pid s = Inr (u, s')"
  shows "exchange_ok D {} s'"
proof -
  have D: "lawful D" using assms(1) by (simp add: sound_config_def)
  have "\<exists>u. mutate_pool pid (on_info (\<lambda>pool.
       sbind (collect_fees D pid (pool_account pool) (pool_admin_fee_receiver pool) (currency_ids pool) (pool_balances pool)) (\<lambda>_.
       sret ((), pool)))) s = Inr (u, s')"
    using assms(3) unfolding withdraw_admin_fee_def by (auto simp: rbind_Inr_iff)
  then obtain pool s1 where pool: "Pools s pid = Some pool"
    and body: "collect_fees D pid (pool_account (pool_info pool)) (pool_admin_fee_receiver (pool_info pool))
        (currency_ids (pool_info pool)) (pool_balances (pool_info pool)) s = Inr ((), s1)"
    and s': "s' = s1\<lparr>Pools := (Pools s1)(pid \<mapsto> update_info (\<lambda>_. pool_info pool) pool)\<rparr>"
    unfolding mutate_pool_def on_info_def by (auto simp: rbind_Inr_iff)
  note ok = exchange_okD[OF assms(2) pool]
  let ?p = "pool_info pool"
  have wf: "distinct (currency_ids ?p)" "length (pool_balances ?p) = length (currency_ids ?p)" "pool_account ?p = sx_pool_account_id D pid"
    using ok(1) by (auto simp: pool_ok_def wf_info_def)
  note run = collect_fees_run[OF D body wf(1)]
  have frame: "Pools s1 = Pools s" "NextPoolId s1 = NextPoolId s" "LpCurrencies s1 = LpCurrencies s" using run by (auto simp: same_storage_def)
  have bal: "stable_balance D s c (sx_pool_account_id D q) \<le> stable_balance D s1 c (sx_pool_account_id D q)" if "q \<noteq> pid" for c q
    using run that pool_account_inj[OF assms(1)] wf(3) by simp
  have "pool_ok D s1 q r \<and> (q \<notin> {pid} \<longrightarrow> covered D s1 (pool_info r))" if r: "Pools s1 q = Some r" for q r
  proof -
    have r': "Pools s q = Some r" using r frame by simp
    note okq = exchange_okD[OF assms(2) r']
    have account: "pool_account (pool_info r) = sx_pool_account_id D q" and cov: "covered D s (pool_info r)"
      using okq by (simp_all add: pool_ok_def)
    have "covered D s1 (pool_info r)" if "q \<noteq> pid"
      using cov bal[OF that] unfolding covered_def account by (blast intro: le_trans)
    then show ?thesis using okq frame by (simp add: pool_ok_def linked_def)
  qed
  moreover have "\<exists>r. Pools s1 q = Some r \<and> get_lp_currency r = c" if "LpCurrencies s1 c = Some q" for c q
    using exchange_ok_lp[OF assms(2)] that unfolding frame .
  ultimately have ok1: "exchange_ok D {pid} s1" unfolding exchange_ok_def by blast
  have cov: "covered D s1 ?p" using run wf by (simp add: covered_def)
  have same: "same_pool pool (update_info (\<lambda>_. ?p) pool)" by (rule same_pool_update) (simp add: static_def)
  show ?thesis unfolding s' by (rule put_back_ok[OF ok1 _ same]) (simp_all add: frame pool cov)
qed

subsection \<open>All calls\<close>

definition customer :: "('a, 'c, 'x) stable_config \<Rightarrow> 'a origin \<Rightarrow> bool" where
  "customer D origin \<longleftrightarrow> (\<forall>a q. origin = SignedOrigin a \<longrightarrow> a \<noteq> sx_pool_account_id D q)"

inductive stable_step :: "('a, 'c, 'x) stable_config \<Rightarrow> ('a, 'c, 'x) stable \<Rightarrow> ('a, 'c, 'x) stable \<Rightarrow> bool" where
  outside: "(\<And>c q. stable_balance D s c (sx_pool_account_id D q) \<le> mc_free_balance (sx_currency D) x c (sx_pool_account_id D q)) \<Longrightarrow>
     stable_step D s (s\<lparr>stable_ledger := x, stable_now := t, stable_block_number := h\<rparr>)"
| step_create_base: "create_base_pool D origin cs decs a fee admin receiver symbol s = Inr (u, s') \<Longrightarrow> stable_step D s s'"
| step_create_meta: "create_meta_pool D origin cs decs a fee admin receiver symbol s = Inr (u, s') \<Longrightarrow> stable_step D s s'"
| step_add: "customer D origin \<Longrightarrow> stable_add_liquidity D origin pid ns least to_account deadline s = Inr (u, s') \<Longrightarrow> stable_step D s s'"
| step_swap: "customer D origin \<Longrightarrow> swap D origin pid i j n least to_account deadline s = Inr (u, s') \<Longrightarrow> stable_step D s s'"
| step_remove: "customer D origin \<Longrightarrow> stable_remove_liquidity D origin pid n ms to_account deadline s = Inr (u, s') \<Longrightarrow> stable_step D s s'"
| step_remove_one: "customer D origin \<Longrightarrow> remove_liquidity_one_currency D origin pid n i least to_account deadline s = Inr (u, s') \<Longrightarrow> stable_step D s s'"
| step_imbalance: "customer D origin \<Longrightarrow> remove_liquidity_imbalance D origin pid ns most to_account deadline s = Inr (u, s') \<Longrightarrow> stable_step D s s'"
| step_add_both: "customer D origin \<Longrightarrow> add_pool_and_base_pool_liquidity D origin pid base_id ms ns least to_account deadline s = Inr (u, s') \<Longrightarrow> stable_step D s s'"
| step_remove_both: "customer D origin \<Longrightarrow> remove_pool_and_base_pool_liquidity D origin pid base_id n ms ns to_account deadline s = Inr (u, s') \<Longrightarrow> stable_step D s s'"
| step_remove_one_both: "customer D origin \<Longrightarrow> remove_pool_and_base_pool_liquidity_one_currency D origin pid base_id n i least to_account deadline s = Inr (u, s') \<Longrightarrow> stable_step D s s'"
| step_swap_from_base: "customer D origin \<Longrightarrow> swap_pool_from_base D origin pid base_id i j n least to_account deadline s = Inr (u, s') \<Longrightarrow> stable_step D s s'"
| step_swap_to_base: "customer D origin \<Longrightarrow> swap_pool_to_base D origin pid base_id i j n least to_account deadline s = Inr (u, s') \<Longrightarrow> stable_step D s s'"
| step_underlying: "customer D origin \<Longrightarrow> swap_meta_pool_underlying D origin pid i j n least to_account deadline s = Inr (u, s') \<Longrightarrow> stable_step D s s'"
| step_receiver: "update_fee_receiver origin pid a s = Inr (u, s') \<Longrightarrow> stable_step D s s'"
| step_swap_fee: "set_swap_fee origin pid n s = Inr (u, s') \<Longrightarrow> stable_step D s s'"
| step_admin_fee: "set_admin_fee origin pid n s = Inr (u, s') \<Longrightarrow> stable_step D s s'"
| step_ramp: "ramp_a origin pid a time s = Inr (u, s') \<Longrightarrow> stable_step D s s'"
| step_stop_ramp: "stop_ramp_a origin pid s = Inr (u, s') \<Longrightarrow> stable_step D s s'"
| step_withdraw: "withdraw_admin_fee D origin pid s = Inr (u, s') \<Longrightarrow> stable_step D s s'"

lemma run_before_deadline:
  assumes "before_deadline origin deadline body s = Inr (u, s')" and "customer D origin"
  obtains who r where "body who s = Inr (r, s')" and "\<And>q. who \<noteq> sx_pool_account_id D q"
proof -
  obtain who where "ensure_signed origin = Inr who" and "\<exists>r. body who s = Inr (r, s')"
    using assms(1) unfolding before_deadline_def by (auto simp: rbind_Inr_iff split: if_splits)
  moreover from this(1) have "origin = SignedOrigin who" by (cases origin) auto
  ultimately show thesis using assms(2) that unfolding customer_def by blast
qed

text \<open>The operations of a customer, one by one.\<close>

definition sound_customer :: "('a, 'c, 'x) stable_config \<Rightarrow> 'a \<Rightarrow> bool" where
  "sound_customer D who \<longleftrightarrow> sound_config D \<and> (\<forall>q. who \<noteq> sx_pool_account_id D q)"

lemma sound_customerD: "sound_customer D who \<Longrightarrow> sound_config D" "sound_customer D who \<Longrightarrow> who \<noteq> sx_pool_account_id D q"
  by (auto simp: sound_customer_def)

lemma inner_add_ok:
  "sound_customer D who \<Longrightarrow> exchange_ok D {} s \<Longrightarrow> stable_inner_add_liquidity D who pid ns least to_account s = Inr (r, s') \<Longrightarrow> exchange_ok D {} s'"
  unfolding stable_inner_add_liquidity_def by (rule add.keeps_ok) (auto dest: sound_customerD)

lemma inner_swap_ok:
  assumes "sound_customer D who" and "exchange_ok D {} s" and "inner_swap D who pid i j n least to_account s = Inr (r, s')"
  shows "exchange_ok D {} s'"
proof -
  have "i \<noteq> j" and "mutate_pool pid (swap_body D who pid i j n least to_account) s = Inr (r, s')"
    using assms(3) unfolding inner_swap_def by (auto split: if_splits)
  then show ?thesis using pool_operation.keeps_ok[OF swap_contract] assms(1,2) sound_customerD by metis
qed

lemma inner_remove_ok:
  assumes "sound_customer D who" and "exchange_ok D {} s" and "stable_inner_remove_liquidity D pid who n ms to_account s = Inr (r, s')"
  shows "exchange_ok D {} s'"
proof -
  have "mutate_pool pid (on_info (remove_shares D pid who n ms to_account)) s = Inr (r, s')"
    using assms(3) unfolding stable_inner_remove_liquidity_def by (auto split: if_splits)
  then show ?thesis by (rule remove.keeps_ok[OF _ assms(2), rotated -1]) (use assms(1) in \<open>auto dest: sound_customerD\<close>)
qed

lemma inner_remove_one_ok:
  assumes "sound_customer D who" and "exchange_ok D {} s"
    and "inner_remove_liquidity_one_currency D pid who n i least to_account s = Inr (r, s')"
  shows "exchange_ok D {} s'"
proof -
  have "mutate_pool pid (remove_one_body D who pid n i least to_account) s = Inr (r, s')"
    using assms(3) unfolding inner_remove_liquidity_one_currency_def by (auto split: if_splits)
  then show ?thesis by (rule remove_one.keeps_ok[OF _ assms(2), rotated -1]) (use assms(1) in \<open>auto dest: sound_customerD\<close>)
qed

lemma inner_imbalance_ok:
  "sound_customer D who \<Longrightarrow> exchange_ok D {} s \<Longrightarrow> inner_remove_liquidity_imbalance D who pid ns most to_account s = Inr (r, s') \<Longrightarrow>
   exchange_ok D {} s'"
  unfolding inner_remove_liquidity_imbalance_def by (rule imbalance.keeps_ok) (auto dest: sound_customerD)

lemmas inner_ok = inner_add_ok inner_swap_ok inner_remove_ok inner_remove_one_ok inner_imbalance_ok

text \<open>The reads and the tests between them keep the state.\<close>

lemma run_stored_pool [run_elims]:
  "stored_pool pid e s = Inr (pool, s') \<Longrightarrow> (Pools s pid = Some pool \<Longrightarrow> s' = s \<Longrightarrow> thesis) \<Longrightarrow> thesis"
  unfolding stored_pool_def run_basic_iff by (elim conjE) (simp only: ok_or_Inr)

lemma ensure_meta_keeps: "ensure_meta_of pool base_id s = Inr (u, s') \<Longrightarrow> s' = s"
  by (cases pool) (auto simp: ensure_meta_of_def split: if_splits)

lemma run_ensure_meta [run_elims]:
  "ensure_meta_of pool base_id s = Inr (u, s') \<Longrightarrow> (s' = s \<Longrightarrow> thesis) \<Longrightarrow> thesis"
  using ensure_meta_keeps by blast

lemma inner_add_both_ok:
  assumes "sound_customer D who" and "exchange_ok D {} s"
    and "inner_add_pool_and_base_pool_liquidity D who pid base_id ms ns least to_account s = Inr (r, s')"
  shows "exchange_ok D {} s'"
proof -
  have *: "exchange_ok D {} s1" if "(if b then stable_inner_add_liquidity D who base_id ns 0 who else sret 0) s = Inr (n, s1)" for b n s1
    using that inner_add_ok[OF assms(1,2)] assms(2) by (auto split: if_splits)
  show ?thesis
    using assms(3) unfolding inner_add_pool_and_base_pool_liquidity_def Let_def
  proof (elim run_elims, hypsubst_thin)
    fix base_pool pool and n m s1 s2
    assume base: "(if list_ex ((<) 0) ns then stable_inner_add_liquidity D who base_id ns 0 who else sret 0) s = Inr (n, s1)"
      and add: "stable_inner_add_liquidity D who pid
          (map2 (\<lambda>c amount. if c = get_lp_currency base_pool then n else amount) (get_currency_ids pool) ms) least to_account s1 = Inr (m, s2)"
      and test: "(if list_ex ((<) 0) ns
         then sbind (sget (\<lambda>s. stable_balance D s (get_lp_currency base_pool) who)) (\<lambda>base_lp_after.
              sbind (arith (rbind (opt (checked_add_w 128 base_lp_after n))
                        (\<lambda>n. opt (checked_sub n (stable_balance D s1 (get_lp_currency base_pool) who))))) (\<lambda>n.
              sensure (\<lambda>_. n = 0) (stable_error Stable_AmountSlippage)))
         else sret ()) s2 = Inr (r, s')"
    have "s' = s2" using test by (auto simp: compute_def rbind_Inr_iff split: if_splits)
    then show "exchange_ok D {} s'" using inner_add_ok[OF assms(1) *[OF base] add] by simp
  qed
qed

lemma inner_remove_both_ok:
  assumes "sound_customer D who" and "exchange_ok D {} s"
    and "inner_remove_pool_and_base_pool_liquidity D who pid base_id n ms ns to_account s = Inr (r, s')"
  shows "exchange_ok D {} s'"
  using assms(3) unfolding inner_remove_pool_and_base_pool_liquidity_def
  by (elim run_elims, hypsubst_thin) (use assms(2) inner_remove_ok[OF assms(1)] in blast)

lemma inner_remove_both_one_ok:
  assumes "sound_customer D who" and "exchange_ok D {} s"
    and "inner_remove_pool_and_base_pool_liquidity_one_currency D who pid base_id n i least to_account s = Inr (r, s')"
  shows "exchange_ok D {} s'"
  using assms(3) unfolding inner_remove_pool_and_base_pool_liquidity_one_currency_def Let_def
  by (elim run_elims, hypsubst_thin) (use assms(2) inner_remove_one_ok[OF assms(1)] in blast)

lemma inner_swap_from_base_ok:
  assumes "sound_customer D who" and "exchange_ok D {} s"
    and "inner_swap_pool_from_base D who pid base_id i j n least to_account s = Inr (r, s')"
  shows "exchange_ok D {} s'"
  using assms(3) unfolding inner_swap_pool_from_base_def Let_def
proof (elim run_elims, hypsubst_thin)
  fix k ms m s1
  assume add: "stable_inner_add_liquidity D who base_id ms 0 who s = Inr (m, s1)"
    and then_swap: "(if k \<noteq> j then inner_swap D who pid k j m least to_account else sret 0) s1 = Inr (r, s')"
  have ok: "exchange_ok D {} s1" by (rule inner_add_ok[OF assms(1,2) add])
  show "exchange_ok D {} s'"
  proof (cases "k = j")
    case True
    then show ?thesis using then_swap ok by simp
  next
    case False
    then have "inner_swap D who pid k j m least to_account s1 = Inr (r, s')" using then_swap by simp
    then show ?thesis by (rule inner_swap_ok[OF assms(1) ok])
  qed
qed

lemma inner_swap_to_base_ok:
  assumes "sound_customer D who" and "exchange_ok D {} s"
    and "inner_swap_pool_to_base D who pid base_id i j n least to_account s = Inr (r, s')"
  shows "exchange_ok D {} s'"
proof -
  have *: "exchange_ok D {} s1" if "(if b then inner_swap D who pid i k n 0 who else sret 0) s = Inr (m, s1)" for b k m s1
    using that inner_swap_ok[OF assms(1,2)] assms(2) by (auto split: if_splits)
  show ?thesis
    using assms(3) unfolding inner_swap_pool_to_base_def
  proof (elim run_elims, hypsubst_thin)
    fix k m s1
    assume first: "(if k \<noteq> i then inner_swap D who pid i k n 0 who else sret 0) s = Inr (m, s1)"
      and remove: "inner_remove_liquidity_one_currency D base_id who m j least to_account s1 = Inr (r, s')"
    show "exchange_ok D {} s'" by (rule inner_remove_one_ok[OF assms(1) *[OF first] remove])
  qed
qed

lemma swap_underlying_call_ok:
  assumes "sound_customer D who" and "exchange_ok D {} s"
    and "mutate_pool pid (\<lambda>pool. case pool of
         Meta mp \<Rightarrow> sbind (meta_pool_swap_underlying D mp pid who to_account n least i j) (\<lambda>p. sret (on_meta p))
       | Base _ \<Rightarrow> sfail (stable_error Stable_InvalidPoolId)) s = Inr (r, s')"
  shows "exchange_ok D {} s'"
proof -
  obtain pool pool' s1 where pool: "Pools s pid = Some pool" and s': "s' = s1\<lparr>Pools := (Pools s1)(pid \<mapsto> pool')\<rparr>"
    and body: "(case pool of
         Meta mp \<Rightarrow> sbind (meta_pool_swap_underlying D mp pid who to_account n least i j) (\<lambda>p. sret (on_meta p))
       | Base _ \<Rightarrow> sfail (stable_error Stable_InvalidPoolId)) s = Inr ((r, pool'), s1)"
    using assms(3) by (rule run_mutate_pool) blast
  obtain mp mp' where mp: "pool = Meta mp" "pool' = Meta mp'"
    and run: "meta_pool_swap_underlying D mp pid who to_account n least i j s = Inr ((r, mp'), s1)"
    using body by (cases pool) (auto simp: rbind_Inr_iff on_meta_def)
  show ?thesis
    unfolding s' mp(2)
    by (rule meta_pool_swap_underlying_ok[OF _ assms(2) _ _ run]) (use pool mp assms(1) in \<open>auto dest: sound_customerD\<close>)
qed

subsection \<open>The invariant along the steps\<close>

lemma before_deadline_ok:
  assumes "sound_config D" and "customer D origin" and "before_deadline origin deadline body s = Inr (u, s')"
    and "\<And>who r. sound_customer D who \<Longrightarrow> body who s = Inr (r, s') \<Longrightarrow> exchange_ok D {} s'"
  shows "exchange_ok D {} s'"
  using run_before_deadline[OF assms(3,2)] assms(1,4) unfolding sound_customer_def by metis

lemma create_base_ok:
  assumes "sound_config D" and "exchange_ok D {} s" and "create_base_pool D origin cs decs a fee admin receiver symbol s = Inr (u, s')"
  shows "exchange_ok D {} s'"
  using assms(3) unfolding create_base_pool_def
proof (elim run_elims, hypsubst_thin)
  fix p pid s1
  assume create: "inner_create_base_pool D cs decs a fee admin receiver symbol s = Inr ((p, pid), s1)"
    and insert: "insert_pool pid (Base p) (CreatePool pid cs (lp_currency_id p) a (pool_account p) fee admin receiver) D s1 = Inr (u, s')"
  note new = inner_create_run[OF assms(1) create]
  have ok: "exchange_ok D {} s1" by (rule shifts_ok[OF assms(2) new(2)]) simp
  have "pid = NextPoolId s1" using new(1,2) by (simp add: shifts_def same_storage_def)
  then show "exchange_ok D {} s'"
    by (rule insert_pool_ok[OF ok _ _ _ _ _ insert]) (use new(3-6) in simp_all)
qed

lemma create_meta_ok:
  assumes "sound_config D" and "exchange_ok D {} s" and "create_meta_pool D origin cs decs a fee admin receiver symbol s = Inr (u, s')"
  shows "exchange_ok D {} s'"
  using assms(3) unfolding create_meta_pool_def
proof (elim run_elims, hypsubst_thin)
  fix base_id p pid s1 base price
  assume cs: "cs \<noteq> []" and lp: "ok_or (LpCurrencies s (last cs)) (stable_error Stable_InvalidBasePoolLpCurrency) = Inr base_id"
    and create: "inner_create_base_pool D cs decs a fee admin receiver symbol s = Inr ((p, pid), s1)"
    and base: "ok_or (Pools s1 base_id) (stable_error Stable_InvalidBasePoolLpCurrency) = Inr base"
    and insert: "insert_pool pid
       (Meta \<lparr>base_pool_id = base_id, base_virtual_price = price, base_cache_last_updated = stable_now s1,
              base_currencies = get_currency_ids base, meta_info = p\<rparr>)
       (CreatePool pid cs (lp_currency_id p) a (pool_account p) fee admin receiver) D s1 = Inr (u, s')"
  note new = inner_create_run[OF assms(1) create]
  have ok: "exchange_ok D {} s1" by (rule shifts_ok[OF assms(2) new(2)]) simp
  have pid: "pid = NextPoolId s1" and same: "LpCurrencies s1 = LpCurrencies s" using new(1,2) by (simp_all add: shifts_def same_storage_def)
  have base': "Pools s1 base_id = Some base" and lp': "LpCurrencies s1 (last cs) = Some base_id"
    using base lp by (simp_all add: ok_or_Inr same)
  have "get_lp_currency base = last cs" using exchange_ok_lp[OF ok lp'] base' by simp
  moreover have "base_id < pid" using exchange_okD(1)[OF ok base'] by (simp add: pool_ok_def pid)
  ultimately have "linked s1 pid \<lparr>base_pool_id = base_id, base_virtual_price = price, base_cache_last_updated = stable_now s1,
              base_currencies = get_currency_ids base, meta_info = p\<rparr>"
    using base' cs new(4) by (simp add: linked_def)
  then show "exchange_ok D {} s'"
    by (intro insert_pool_ok[OF ok pid _ _ _ _ insert]) (use new(3-6) in auto)
qed

lemma outside_ok:
  assumes "exchange_ok D {} s"
    and "\<And>c q. stable_balance D s c (sx_pool_account_id D q) \<le> mc_free_balance (sx_currency D) x c (sx_pool_account_id D q)"
  shows "exchange_ok D {} (s\<lparr>stable_ledger := x, stable_now := t, stable_block_number := h\<rparr>)" (is "exchange_ok D {} ?s")
proof -
  have "covered D ?s (pool_info pool)" if pool: "Pools s pid = Some pool" for pid pool
    using exchange_okD[OF assms(1) pool] assms(2) unfolding covered_def pool_ok_def stable_balance_def
    by (fastforce intro: le_trans)
  then show ?thesis using assms(1) by (auto simp: exchange_ok_def pool_ok_def linked_def)
qed

lemma setting_ok:
  assumes "exchange_ok D {} s"
  shows "update_fee_receiver origin pid a s = Inr (u, s') \<Longrightarrow> exchange_ok D {} s'"
    and "set_swap_fee origin pid n s = Inr (u, s') \<Longrightarrow> exchange_ok D {} s'"
    and "set_admin_fee origin pid n s = Inr (u, s') \<Longrightarrow> exchange_ok D {} s'"
    and "ramp_a origin pid n time s = Inr (u, s') \<Longrightarrow> exchange_ok D {} s'"
    and "stop_ramp_a origin pid s = Inr (u, s') \<Longrightarrow> exchange_ok D {} s'"
  unfolding update_fee_receiver_def set_swap_fee_def set_admin_fee_def ramp_a_def stop_ramp_a_def
  by (elim run_sbind run_basic; hypsubst; rule settings_ok[OF assms], rule settings_intros ramp_settings, assumption)+

theorem stable_step_ok:
  assumes D: "sound_config D" and ok: "exchange_ok D {} s" and "stable_step D s s'"
  shows "exchange_ok D {} s'"
  using assms(3)
proof cases
  case outside
  then show ?thesis using outside_ok[OF ok] by simp
next
  case step_create_base
  then show ?thesis using create_base_ok[OF D ok] by blast
next
  case step_create_meta
  then show ?thesis using create_meta_ok[OF D ok] by blast
next
  case step_add
  then show ?thesis using before_deadline_ok[OF D] inner_add_ok[OF _ ok] unfolding stable_add_liquidity_def by metis
next
  case step_swap
  then show ?thesis using before_deadline_ok[OF D] inner_swap_ok[OF _ ok] unfolding swap_def by metis
next
  case step_remove
  then show ?thesis using before_deadline_ok[OF D] inner_remove_ok[OF _ ok] unfolding stable_remove_liquidity_def by metis
next
  case step_remove_one
  then show ?thesis using before_deadline_ok[OF D] inner_remove_one_ok[OF _ ok] unfolding remove_liquidity_one_currency_def by metis
next
  case step_imbalance
  then show ?thesis using before_deadline_ok[OF D] inner_imbalance_ok[OF _ ok] unfolding remove_liquidity_imbalance_def by metis
next
  case step_add_both
  then show ?thesis using before_deadline_ok[OF D] inner_add_both_ok[OF _ ok] unfolding add_pool_and_base_pool_liquidity_def by metis
next
  case step_remove_both
  then show ?thesis using before_deadline_ok[OF D] inner_remove_both_ok[OF _ ok] unfolding remove_pool_and_base_pool_liquidity_def by metis
next
  case step_remove_one_both
  then show ?thesis using before_deadline_ok[OF D] inner_remove_both_one_ok[OF _ ok]
    unfolding remove_pool_and_base_pool_liquidity_one_currency_def by metis
next
  case step_swap_from_base
  then show ?thesis using before_deadline_ok[OF D] inner_swap_from_base_ok[OF _ ok] unfolding swap_pool_from_base_def by metis
next
  case step_swap_to_base
  then show ?thesis using before_deadline_ok[OF D] inner_swap_to_base_ok[OF _ ok] unfolding swap_pool_to_base_def by metis
next
  case (step_underlying origin pid i j n least to_account deadline u)
  show ?thesis
    by (rule before_deadline_ok[OF D step_underlying(1) step_underlying(2)[unfolded swap_meta_pool_underlying_def]])
      (rule swap_underlying_call_ok[OF _ ok])
next
  case step_withdraw
  then show ?thesis using withdraw_admin_fee_ok[OF D ok] by blast
qed (rule setting_ok[OF ok], assumption)+

text \<open>The states that calls and the rest of the chain reach from an exchange without pools.\<close>

definition empty_exchange :: "('a, 'c, 'x) stable \<Rightarrow> bool" where
  "empty_exchange s \<longleftrightarrow> Pools s = (\<lambda>_. None) \<and> LpCurrencies s = (\<lambda>_. None)"

lemma empty_exchange_ok: "empty_exchange s \<Longrightarrow> exchange_ok D {} s"
  by (simp add: empty_exchange_def exchange_ok_def)

lemma stable_run_ok:
  assumes "sound_config D" and "(stable_step D)\<^sup>*\<^sup>* s s'" and "exchange_ok D {} s"
  shows "exchange_ok D {} s'"
  using assms(2,3) by (induction rule: rtranclp_induct) (auto intro: stable_step_ok[OF assms(1)])

end
