(* ===== verification/Stable_Newton.thy ===== *)
theory Stable_Newton
  imports Stable_Exchange
begin

text \<open>
  The numerics of the stable exchange. The loop of \<^verbatim>\<open>get_y\<close> and \<^verbatim>\<open>get_yd\<close> is Newton's iteration with
  truncating division for \<open>y\<^sup>2 + B * y = c\<close>; \<open>quad B c y\<close> is its defect. The lemmas on \<open>quad\<close> bound how far
  one step moves, so that the steps halve, and show where the loop stops.
\<close>

subsection \<open>One step of the iteration\<close>

definition quad :: "int \<Rightarrow> int \<Rightarrow> int \<Rightarrow> int" where
  "quad B c y = y * y + B * y - c"

lemma quad_shift: "quad B c (y + k) = quad B c y + k * (2 * y + B) + k * k"
  by (simp add: quad_def algebra_simps)

lemma quad_square: "4 * quad B c y \<le> (2 * y + B) * (2 * y + B)" if "0 \<le> c"
proof -
  have "(2 * y + B) * (2 * y + B) = 4 * quad B c y + B * B + 4 * c" by (simp add: quad_def algebra_simps)
  moreover have "0 \<le> B * B" by simp
  ultimately show ?thesis using that by linarith
qed

text \<open>\<open>newton B c y y'\<close>: \<open>y'\<close> is what a step from \<open>y\<close> gives.\<close>

definition newton :: "int \<Rightarrow> int \<Rightarrow> int \<Rightarrow> int \<Rightarrow> bool" where
  "newton B c y y' \<longleftrightarrow> 0 < 2 * y + B \<and> y' = (y * y + c) div (2 * y + B)"

lemma newton_move:
  assumes "newton B c y y'"
  shows "(2 * y + B) * (y' - y) \<le> - quad B c y" and "- quad B c y < (2 * y + B) * (y' - y + 1)"
proof -
  let ?m = "2 * y + B"
  have m: "0 < ?m" and y': "y' = (y * y + c) div ?m" using assms by (auto simp: newton_def)
  have split: "?m * y' + (y * y + c) mod ?m = y * y + c" unfolding y' by simp
  have "0 \<le> (y * y + c) mod ?m" "(y * y + c) mod ?m < ?m" using m by simp_all
  then show "?m * (y' - y) \<le> - quad B c y" "- quad B c y < ?m * (y' - y + 1)"
    using split by (simp_all add: quad_def algebra_simps)
qed

text \<open>Every iterate but the first is above the root less one.\<close>

lemma newton_above:
  assumes "newton B c y y'"
  shows "0 < quad B c (y' + 1)"
proof -
  have "quad B c (y' + 1) = quad B c y + (y' - y + 1) * (2 * y + B) + (y' - y + 1) * (y' - y + 1)"
    using quad_shift[of B c y "y' - y + 1"] by simp
  moreover have "0 \<le> (y' - y + 1) * (y' - y + 1)" by simp
  moreover have "- quad B c y < (y' - y + 1) * (2 * y + B)" using newton_move(2)[OF assms] by (simp only: mult.commute)
  ultimately show ?thesis by linarith
qed

text \<open>Below the root, a step from such an iterate moves by at most one.\<close>

lemma newton_from_below:
  assumes "newton B c y y'" and "quad B c y < 0" and "0 < quad B c (y + 1)"
  shows "y \<le> y'" and "y' \<le> y + 1"
proof -
  let ?m = "2 * y + B"
  have m: "0 < ?m" using assms(1) by (simp add: newton_def)
  have "- quad B c y \<le> ?m" using assms(3) quad_shift[of B c y 1] by simp
  then have "?m * (y' - y) \<le> ?m * 1" using newton_move(1)[OF assms(1)] by simp
  then show "y' \<le> y + 1" using m by (simp add: mult_le_cancel_left_pos)
  have "?m * 0 < ?m * (y' - y + 1)" using newton_move(2)[OF assms(1)] assms(2) by simp
  then show "y \<le> y'" using m by (auto simp only: mult_less_cancel_left_pos)
qed

text \<open>From above the root the iterates descend, and a step is at most half of the step before, rounded up.\<close>

lemma newton_from_above:
  assumes "newton B c y y'" and "0 \<le> quad B c y"
  shows "y' \<le> y" and "quad B c y' \<le> (y - y') * (y - y')"
proof -
  let ?m = "2 * y + B"
  have m: "0 < ?m" using assms(1) by (simp add: newton_def)
  have "?m * (y' - y) \<le> ?m * 0" using newton_move(1)[OF assms(1)] assms(2) by simp
  then show "y' \<le> y" using m by (simp add: mult_le_0_iff)
  have "quad B c y' = quad B c y + (y' - y) * ?m + (y' - y) * (y' - y)" using quad_shift[of B c y "y' - y"] by simp
  moreover have "(y' - y) * ?m \<le> - quad B c y" using newton_move(1)[OF assms(1)] by (simp add: mult.commute)
  moreover have "(y' - y) * (y' - y) = (y - y') * (y - y')" by (simp add: algebra_simps)
  ultimately show "quad B c y' \<le> (y - y') * (y - y')" by linarith
qed

lemma newton_halves:
  assumes step: "newton B c y y'" and "quad B c y \<le> k * k" and "0 \<le> k" and "0 \<le> c"
  shows "2 * (y - y') \<le> k + 1"
proof (rule ccontr)
  let ?m = "2 * y + B"
  assume "\<not> 2 * (y - y') \<le> k + 1"
  then have big: "k + 2 \<le> 2 * (y - y')" by linarith
  have m: "0 < ?m" using step by (simp add: newton_def)
  have less: "?m * (y - y' - 1) < quad B c y" using newton_move(2)[OF step] by (simp add: algebra_simps)
  have "?m * k \<le> ?m * (2 * (y - y' - 1))" using big m by (intro mult_left_mono) auto
  then have double: "?m * k < 2 * quad B c y" using less by linarith
  show False
  proof (cases "2 * k \<le> ?m")
    case True
    then have "2 * k * k \<le> ?m * k" using \<open>0 \<le> k\<close> by (rule mult_right_mono)
    then show False using double assms(2) by (simp add: mult.assoc)
  next
    case False
    then have "?m * ?m \<le> ?m * (2 * k)" using m by simp
    then show False using double quad_square[OF \<open>0 \<le> c\<close>, of B y] by (simp add: algebra_simps)
  qed
qed

subsection \<open>The loop\<close>

lemma opt_Inr: "opt m = Inr x \<longleftrightarrow> m = Some x"
  by (simp add: opt_def)

lemma y_step_newton:
  assumes "y_step c b d y = Inr y'"
  shows "newton (int b - int d) (int c) (int y) (int y')" and "y < 2 ^ 128"
proof -
  from assms have y': "y' = (y * y + c) div (2 * y + b - d)" and den: "d \<le> 2 * y + b" "2 * y + b - d \<noteq> 0"
    and sq: "y * y < 2 ^ 256"
    by (auto simp: y_step_def rbind_Inr_iff opt_Inr)
  have m: "2 * int y + (int b - int d) = int (2 * y + b - d)" using den(1) by (simp add: of_nat_diff)
  have "int y' = (int y * int y + int c) div int (2 * y + b - d)" unfolding y' by (simp add: zdiv_int)
  then show "newton (int b - int d) (int c) (int y) (int y')" unfolding newton_def m using den(2) by simp
  show "y < 2 ^ 128"
  proof (rule ccontr)
    assume "\<not> y < 2 ^ 128"
    then have "2 ^ 128 * 2 ^ 128 \<le> y * y" by (intro mult_le_mono) simp_all
    then show False using sq by simp
  qed
qed

text \<open>The values the loop runs through, and how it can fail: a step fails, or the result is no balance.\<close>

inductive y_runs :: "nat \<Rightarrow> nat \<Rightarrow> nat \<Rightarrow> nat \<Rightarrow> nat \<Rightarrow> bool" for c b d where
  start: "y_runs c b d y y"
| step: "y_step c b d y = Inr y' \<Longrightarrow> y_runs c b d y' z \<Longrightarrow> y_runs c b d y z"

definition y_faulty :: "nat \<Rightarrow> nat \<Rightarrow> nat \<Rightarrow> nat \<Rightarrow> bool" where
  "y_faulty c b d y \<longleftrightarrow> (\<exists>z. y_runs c b d y z \<and> ((\<exists>e. y_step c b d z = Inl e) \<or> 2 ^ 128 \<le> z))"

definition y_ends :: "nat \<Rightarrow> nat \<Rightarrow> nat \<Rightarrow> nat \<Rightarrow> nat \<Rightarrow> bool" where
  "y_ends n c b d y \<longleftrightarrow> (\<exists>z. y_loop n c b d y = Inr z) \<or> y_faulty c b d y"

text \<open>The loop ends if a step fails, if the step is short, or if it ends from the next value.\<close>

lemma y_ends_Suc:
  assumes next_ends: "\<And>y'. y_step c b d y = Inr y' \<Longrightarrow> 1 < distance y y' \<Longrightarrow> y_ends n c b d y'"
  shows "y_ends (Suc n) c b d y"
proof (cases "y_step c b d y")
  case (Inl e)
  then show ?thesis unfolding y_ends_def y_faulty_def using start by blast
next
  case (Inr y')
  show ?thesis
  proof (cases "distance y y' \<le> 1")
    case True
    show ?thesis
    proof (cases "y' < 2 ^ 128")
      case True
      then show ?thesis using Inr \<open>distance y y' \<le> 1\<close> by (simp add: y_ends_def opt_def balance_of_def)
    next
      case False
      then have "2 ^ 128 \<le> y'" by simp
      then show ?thesis unfolding y_ends_def y_faulty_def using step[OF Inr start] by blast
    qed
  next
    case False
    then have "y_ends n c b d y'" using next_ends Inr by simp
    then show ?thesis using Inr False step[OF Inr] unfolding y_ends_def y_faulty_def by auto
  qed
qed

lemma distance_int: "int (distance x y) = \<bar>int x - int y\<bar>"
  by (simp add: distance_def of_nat_diff)

text \<open>Steps that halve are done after as many steps as the first one has bits.\<close>

lemma y_ends_halving:
  assumes "quad (int b - int d) (int c) (int y) \<le> int k * int k" and "k \<le> 2 ^ j"
    and "0 < quad (int b - int d) (int c) (int y + 1)" and "j < n"
  shows "y_ends n c b d y"
  using assms
proof (induction j arbitrary: k y n)
  case 0
  show ?case
  proof (cases n)
    case (Suc n')
    show ?thesis unfolding Suc
    proof (rule y_ends_Suc)
      fix y' assume step: "y_step c b d y = Inr y'" and far: "1 < distance y y'"
      note N = y_step_newton(1)[OF step]
      have "\<bar>int y - int y'\<bar> \<le> 1"
      proof (cases "quad (int b - int d) (int c) (int y) < 0")
        case True
        then show ?thesis using newton_from_below[OF N] 0 by linarith
      next
        case False
        then show ?thesis using newton_from_above(1)[OF N] newton_halves[OF N 0(1)] 0(2) by auto
      qed
      then show "y_ends n' c b d y'" using far distance_int[of y y'] by linarith
    qed
  qed (use 0 in simp)
next
  case (Suc j)
  then obtain n' where n: "n = Suc n'" by (cases n) auto
  show ?case unfolding n
  proof (rule y_ends_Suc)
    fix y' assume step: "y_step c b d y = Inr y'" and far: "1 < distance y y'"
    note N = y_step_newton(1)[OF step]
    have far': "1 < \<bar>int y - int y'\<bar>" using far distance_int[of y y'] by linarith
    have above: "0 \<le> quad (int b - int d) (int c) (int y)"
      using newton_from_below[OF N] Suc.prems(3) far' by linarith
    have le: "y' \<le> y" using newton_from_above(1)[OF N above] by simp
    have half: "2 * (int y - int y') \<le> int k + 1" using newton_halves[OF N Suc.prems(1)] by simp
    have "int (2 * (y - y')) \<le> int (k + 1)" using half le by (simp add: of_nat_diff)
    then have "2 * (y - y') \<le> k + 1" by (simp only: of_nat_le_iff)
    then have "y - y' \<le> 2 ^ j" using Suc.prems(2) by simp
    moreover have "quad (int b - int d) (int c) (int y') \<le> int (y - y') * int (y - y')"
      using newton_from_above(2)[OF N above] le by (simp add: of_nat_diff)
    moreover have "0 < quad (int b - int d) (int c) (int y' + 1)" by (rule newton_above[OF N])
    ultimately show "y_ends n' c b d y'" using Suc.IH Suc.prems(4) n by simp
  qed
qed

lemma y_loop_ends:
  assumes "131 \<le> n"
  shows "y_ends n c b d y"
proof -
  have n: "n = Suc (Suc (n - 2))" and n': "128 < n - 2" using assms by arith+
  show ?thesis
  proof (subst n, rule y_ends_Suc)
    fix y1 assume step: "y_step c b d y = Inr y1"
    have above: "0 < quad (int b - int d) (int c) (int y1 + 1)" by (rule newton_above[OF y_step_newton(1)[OF step]])
    show "y_ends (Suc (n - 2)) c b d y1"
    proof (rule y_ends_Suc)
      fix y2 assume step: "y_step c b d y1 = Inr y2" and far: "1 < distance y1 y2"
      note N = y_step_newton(1)[OF step]
      have "0 \<le> quad (int b - int d) (int c) (int y1)"
        using newton_from_below[OF N _ above] far distance_int[of y1 y2] by linarith
      note down = newton_from_above[OF N this]
      have le: "y2 \<le> y1" using down(1) by simp
      have "quad (int b - int d) (int c) (int y2) \<le> int (y1 - y2) * int (y1 - y2)" using down(2) le by (simp add: of_nat_diff)
      moreover have "y1 - y2 \<le> 2 ^ 128" using y_step_newton(2)[OF step] by simp
      ultimately show "y_ends (n - 2) c b d y2" using y_ends_halving newton_above[OF N] n' by blast
    qed
  qed
qed

text \<open>Where the loop stops: the result is the root up to one.\<close>

lemma y_loop_accurate:
  assumes "y_loop n c b d y = Inr z"
  shows "quad (int b - int d) (int c) (int z) \<le> 1" and "0 < quad (int b - int d) (int c) (int z + 1)"
proof -
  have "quad (int b - int d) (int c) (int z) \<le> 1 \<and> 0 < quad (int b - int d) (int c) (int z + 1)"
    using assms
  proof (induction n arbitrary: y)
    case (Suc n)
    let ?B = "int b - int d"
    obtain y' where step: "y_step c b d y = Inr y'" using Suc.prems by (auto simp: rbind_Inr_iff)
    note N = y_step_newton(1)[OF step]
    show ?case
    proof (cases "distance y y' \<le> 1")
      case True
      then have z: "z = y'" using Suc.prems step by (auto simp: opt_Inr balance_of_def split: if_splits)
      have near: "\<bar>int y - int y'\<bar> \<le> 1" using True distance_int[of y y'] by linarith
      have "quad ?B (int c) (int y') \<le> 1"
      proof (cases "quad ?B (int c) (int y) < 0")
        case True
        have shift: "quad ?B (int c) (int y') = quad ?B (int c) (int y) + (int y' - int y) * (2 * int y + ?B) + (int y' - int y) * (int y' - int y)"
          using quad_shift[of ?B "int c" "int y" "int y' - int y"] by simp
        have "(int y' - int y) * (2 * int y + ?B) \<le> - quad ?B (int c) (int y)"
          using newton_move(1)[OF N] by (simp only: mult.commute)
        moreover have "(int y' - int y) * (int y' - int y) \<le> 1"
          using near by (auto simp: abs_le_iff intro: abs_le_square_iff[of _ 1, simplified, THEN iffD1] simp flip: power2_eq_square)
        ultimately show ?thesis using shift by linarith
      next
        case False
        then have above: "0 \<le> quad ?B (int c) (int y)" by simp
        have "int y - int y' = 0 \<or> int y - int y' = 1" using newton_from_above(1)[OF N above] near by linarith
        then show ?thesis using newton_from_above(2)[OF N above] by auto
      qed
      then show ?thesis using newton_above[OF N] z by simp
    next
      case False
      then have "y_loop n c b d y' = Inr z" using Suc.prems step by simp
      then show ?thesis by (rule Suc.IH)
    qed
  qed simp
  then show "quad (int b - int d) (int c) (int z) \<le> 1" "0 < quad (int b - int d) (int c) (int z + 1)" by simp_all
qed

text \<open>Beyond a positive value \<open>quad\<close> stays positive.\<close>

lemma quad_increasing:
  assumes "0 < quad B c y" and "0 \<le> c" and "0 \<le> y" and "y \<le> z"
  shows "0 < quad B c z"
proof -
  have "0 < y * (y + B)" using assms(1,2) by (simp add: quad_def algebra_simps)
  then have "0 < y + B" using \<open>0 \<le> y\<close> by (simp add: zero_less_mult_iff)
  then have "y * (y + B) \<le> z * (z + B)" using assms(3,4) by (intro mult_mono) auto
  then show ?thesis using assms(1) by (simp add: quad_def algebra_simps)
qed

subsection \<open>Balanced pools\<close>

lemma xp_length: "xp bs rs = Inr xs \<Longrightarrow> length xs = length bs"
  by (induction bs rs arbitrary: xs rule: xp.induct) (auto simp: rbind_Inr_iff opt_Inr)

lemma opt_arith:
  "a + b < 2 ^ w \<Longrightarrow> opt (checked_add_w w a b) = Inr (a + b)"
  "a * b < 2 ^ w \<Longrightarrow> opt (checked_mul_w w a b) = Inr (a * b)"
  "b \<le> a \<Longrightarrow> opt (checked_sub a b) = Inr (a - b)"
  "b \<noteq> 0 \<Longrightarrow> opt (checked_div a b) = Inr (a div b)"
  by (simp_all add: opt_Inr)

lemma sum_of_from_replicate:
  "a + n * x < 2 ^ 128 \<Longrightarrow> sum_of_from a (replicate n x) = Inr (a + n * x)"
proof (induction n arbitrary: a)
  case (Suc n)
  have "opt (checked_add_w 128 a x) = Inr (a + x)" using Suc.prems by (intro opt_arith) simp
  then show ?case using Suc by (simp add: algebra_simps)
qed simp

lemma d_p_loop_balanced:
  assumes "0 < d" and "d = n * x" and "d * d < 2 ^ 256"
  shows "d_p_loop d n d (replicate k x) = Inr d"
proof (induction k)
  case (Suc k)
  have "d * 1 \<le> d * d" using assms(1) by (intro mult_le_mono) auto
  then have "d < 2 ^ 256" using assms(3) by linarith
  then have "x * n < 2 ^ 256" using assms(2) by (simp only: mult.commute[of x])
  then have "opt (checked_mul_w 256 x n) = Inr d" using opt_arith(2) assms(2) by (simp only: mult.commute[of x])
  then show ?case using Suc opt_arith(2)[OF assms(3)] opt_arith(4)[of d "d * d"] assms(1) by simp
qed simp

lemma d_step_balanced:
  assumes "0 < d" and "d = n * x" and "A_PRECISION \<le> ann" and "(ann + n + 1) * (d * d) < 2 ^ 256"
  shows "d_step (replicate n x) n ann d d = Inr d"
proof -
  let ?q = "ann * d div A_PRECISION"
  have P: "0 < A_PRECISION" by (simp add: A_PRECISION_def)
  have below: "k < 2 ^ 256" if "k \<le> (ann + n + 1) * (d * d)" for k using that assms(4) by linarith
  have d1: "d \<le> d * d" "1 \<le> d * d" using assms(1) by (simp_all add: Suc_leI)
  have "ann * d = (ann - A_PRECISION) * d + d * A_PRECISION" using assms(3) by (simp add: algebra_simps)
  then have shift: "?q = (ann - A_PRECISION) * d div A_PRECISION + d" using P by simp
  have q: "?q \<le> ann * d" by (rule div_le_dividend)
  have "ann * d \<le> ann * (d * d)" "n * d \<le> n * (d * d)" using d1(1) by (intro mult_le_mono; simp)+
  note big = q this d1
  have "(?q + n * d) * d \<le> (ann * d + n * d) * d" using q by (intro mult_le_mono) simp_all
  also have "\<dots> \<le> (ann + n + 1) * (d * d)" by (simp add: algebra_simps)
  finally have num: "(?q + n * d) * d < 2 ^ 256" by (rule below)
  have den: "(ann - A_PRECISION) * d div A_PRECISION + (n + 1) * d = ?q + n * d"
    using shift by (simp add: distrib_right)
  have pos: "?q + n * d \<noteq> 0" using assms(1,2) by simp
  have dd: "d * d < 2 ^ 256" by (rule below) simp
  have "(ann - A_PRECISION) * d \<le> ann * d" by (intro mult_le_mono) simp_all
  note big = this big
  have M: "(ann + n + 1) * (d * d) = ann * (d * d) + n * (d * d) + d * d" by (simp add: algebra_simps)
  have "n * 1 \<le> n * (d * d)" using d1(2) by (intro mult_le_mono) simp_all
  note big = this big
  have bounds: "ann * d < 2 ^ 256" "d * n < 2 ^ 256" "(ann - A_PRECISION) * d < 2 ^ 256" "(n + 1) * d < 2 ^ 256"
      "n + 1 < 2 ^ 256" "?q + n * d < 2 ^ 256"
    unfolding mult.commute[of d n] distrib_right mult_1 by (intro below; use big in \<open>unfold M; linarith\<close>)+
  note eqs = bounds(1-4)[THEN opt_arith(2)] bounds(5-6)[THEN opt_arith(1)] opt_arith(3)[OF assms(3)] opt_arith(2)[OF num]
  have sum_eq: "opt (checked_add_w 256 ((ann - A_PRECISION) * d div A_PRECISION) ((n + 1) * d)) = Inr (?q + n * d)"
    using opt_arith(1)[of "(ann - A_PRECISION) * d div A_PRECISION" "(n + 1) * d" 256] bounds(6) unfolding den by simp
  have "opt (checked_div ((?q + n * d) * d) (?q + n * d)) = Inr d" using opt_arith(4)[OF pos, of "(?q + n * d) * d"] unfolding nonzero_mult_div_cancel_left[OF pos] .
  then show ?thesis
    unfolding d_step_def d_p_loop_balanced[OF assms(1,2) dd]
    by (simp only: eqs sum_eq rbind_simps opt_arith(4)[OF P[THEN gr_implies_not0]] mult.commute[of d n])
qed

lemma get_d_balanced:
  assumes "0 < x" and "0 < n" and "A_PRECISION \<le> amp * n" and "n * x < 2 ^ 128" and "amp * n < 2 ^ 128"
    and "(amp * n + n + 1) * ((n * x) * (n * x)) < 2 ^ 256"
  shows "get_d (replicate n x) amp = Inr (n * x)"
proof -
  have pos: "0 < n * x" using assms(1,2) by simp
  have "opt (checked_mul_w 128 amp n) = Inr (amp * n)" using assms(5) by (rule opt_arith)
  moreover have "sum_of (replicate n x) = Inr (n * x)" using sum_of_from_replicate[of 0 n x] assms(4) by (simp add: sum_of_def)
  moreover have "opt (balance_of (n * x)) = Inr (n * x)" using assms(4) by (simp add: opt_def balance_of_def)
  moreover have "d_loop MAX_ITERATION (replicate n x) n (amp * n) (n * x) (n * x) = opt (balance_of (n * x))"
    using d_step_balanced[OF pos refl assms(3,6)] by (simp add: MAX_ITERATION_def distance_def eval_nat_numeral)
  ultimately show ?thesis using pos by (simp add: get_d_def)
qed

end
