(* ===== verification/Stable_Views.thy ===== *)
theory Stable_Views
  imports Stable_Steps Stable_Newton
begin

text \<open>
  What the queries of the stable exchange give: the solver of the swap curve always finds its root within its
  iterations, the recursion of the virtual prices ends, the amplification stays between the two ends of its ramp,
  and the fees above the reserves can always be collected.
\<close>

subsection \<open>The solver\<close>

text \<open>The iterates stay below any point above the root.\<close>

lemma y_step_bounded:
  assumes "y_step c b d y = Inr y'" and "0 < quad (int b - int d) (int c) (int r)" and "y \<le> r"
    and "0 < quad (int b - int d) (int c) (int y + 1)"
  shows "y' \<le> r" and "0 < quad (int b - int d) (int c) (int y' + 1)"
proof -
  note N = y_step_newton(1)[OF assms(1)]
  show "0 < quad (int b - int d) (int c) (int y' + 1)" by (rule newton_above[OF N])
  show "y' \<le> r"
  proof (cases "quad (int b - int d) (int c) (int y) < 0")
    case True
    then have "y \<noteq> r" using assms(2) by auto
    then show ?thesis using newton_from_below(2)[OF N True assms(4)] assms(3) by linarith
  next
    case False
    then show ?thesis using newton_from_above(1)[OF N] assms(3) by linarith
  qed
qed

lemma y_runs_bounded:
  assumes "y_runs c b d y z" and "0 < quad (int b - int d) (int c) (int r)" and "y \<le> r"
    and "0 < quad (int b - int d) (int c) (int y + 1)"
  shows "z \<le> r \<and> 0 < quad (int b - int d) (int c) (int z + 1)"
  using assms by (induction rule: y_runs.induct) (auto dest: y_step_bounded)

text \<open>A step from an iterate that is not too far below the root does not fail.\<close>

lemma y_step_works:
  assumes "0 < quad (int b - int d) (int c) (int y + 1)" and "0 < c"
    and "y \<le> 2 ^ 127" and "c < 2 ^ 255" and "b < 2 ^ 255"
  shows "\<exists>y'. y_step c b d y = Inr y'"
proof -
  have "int c < (int y + 1) * (int y + 1 + (int b - int d))" using assms(1) by (simp add: quad_def algebra_simps)
  then have "0 < (int y + 1) * (int y + 1 + (int b - int d))" using assms(2) by linarith
  then have low: "0 < int y + 1 + (int b - int d)" by (simp add: zero_less_mult_iff)
  have den: "d < 2 * y + b"
  proof (cases "y = 0")
    case True
    have "int c < 1 + (int b - int d)" using assms(1) True by (simp add: quad_def)
    then show ?thesis using True assms(2) by linarith
  next
    case False
    then show ?thesis using low by linarith
  qed
  have sq: "y * y \<le> 2 ^ 127 * 2 ^ 127" using assms(3) by (intro mult_mono) auto
  have ok: "opt (checked_mul_w 256 y y) = Inr (y * y)" "opt (checked_add_w 256 (y * y) c) = Inr (y * y + c)"
    "opt (checked_mul_w 256 2 y) = Inr (2 * y)" "opt (checked_add_w 256 (2 * y) b) = Inr (2 * y + b)"
    "opt (checked_sub (2 * y + b) d) = Inr (2 * y + b - d)"
    "opt (checked_div (y * y + c) (2 * y + b - d)) = Inr ((y * y + c) div (2 * y + b - d))"
    using sq assms(3-5) den by (intro opt_arith; simp)+
  show ?thesis unfolding y_step_def ok rbind_simps by blast
qed

lemma y_loop_returns:
  assumes "0 < c" and "c < 2 ^ 126 * d" and "d < 2 ^ 126" and "b < 2 ^ 255"
  shows "\<exists>z. y_loop MAX_ITERATION c b d d = Inr z"
proof -
  have d: "0 < d" using assms(1,2) by (cases d) auto
  have "2 ^ 126 * d < 2 ^ 126 * 2 ^ 126" using assms(3) by simp
  then have c: "c < 2 ^ 252" using assms(2) by simp
  have sq: "d * d < 2 ^ 126 * 2 ^ 126" using assms(3) by (intro mult_strict_mono) auto
  have ok: "opt (checked_mul_w 256 d d) = Inr (d * d)" "opt (checked_add_w 256 (d * d) c) = Inr (d * d + c)"
    "opt (checked_mul_w 256 2 d) = Inr (2 * d)" "opt (checked_add_w 256 (2 * d) b) = Inr (2 * d + b)"
    "opt (checked_sub (2 * d + b) d) = Inr (d + b)" "opt (checked_div (d * d + c) (d + b)) = Inr ((d * d + c) div (d + b))"
    using opt_arith(3)[of d "2 * d + b"] sq c assms(3,4) d by (auto intro: opt_arith)
  define y where "y = (d * d + c) div (d + b)"
  have step: "y_step c b d d = Inr y" unfolding y_step_def ok rbind_simps y_def ..
  have "y * d \<le> y * (d + b)" by simp
  also have "\<dots> \<le> d * d + c" unfolding y_def by simp
  also have "\<dots> < 2 ^ 126 * d + 2 ^ 126 * d" using assms(2,3) d by (intro add_strict_mono mult_strict_right_mono) auto
  finally have "y * d < 2 ^ 127 * d" by simp
  then have y: "y < 2 ^ 127" using d by simp
  have above: "0 < quad (int b - int d) (int c) (int y + 1)" by (rule newton_above[OF y_step_newton(1)[OF step]])
  have good: "z \<le> 2 ^ 127 \<and> (\<exists>z'. y_step c b d z = Inr z')" if run: "y_runs c b d d z" for z
    using run
  proof cases
    case start
    then show ?thesis using step assms(3) by auto
  next
    case (step y')
    then have "y' = y" using \<open>y_step c b d d = Inr y\<close> by simp
    then have z: "y_runs c b d y z" using step by simp
    have r: "int (Suc y) = int y + 1" by simp
    have "z \<le> Suc y" and z1: "0 < quad (int b - int d) (int c) (int z + 1)"
      using y_runs_bounded[OF z, of "Suc y"] above unfolding r by auto
    have "z \<le> 2 ^ 127" using \<open>z \<le> Suc y\<close> y by simp
    then show ?thesis using y_step_works[OF z1 assms(1) _ _ assms(4)] c by simp
  qed
  show ?thesis using y_loop_ends[of MAX_ITERATION c b d d] good
    unfolding y_ends_def y_faulty_def by (fastforce simp: MAX_ITERATION_def)
qed

subsection \<open>Virtual prices\<close>

text \<open>Only the recursion along the base pools could run out of fuel; the computations of a level do not.\<close>

definition returns :: "'r computed \<Rightarrow> bool" where
  "returns m \<longleftrightarrow> m \<noteq> Inl Diverge"

lemma returns_basic: "returns (Inr x)" "returns (Inl (Err e))" "returns (Inl Panic)" "returns (opt m)" "returns (index_or_panic xs i)"
  by (simp_all add: returns_def opt_def ok_or_def index_or_panic_def split: option.splits)

lemma returns_rbind: "returns m \<Longrightarrow> (\<And>x. m = Inr x \<Longrightarrow> returns (f x)) \<Longrightarrow> returns (rbind m f)"
  by (cases m) (auto simp: returns_def)

lemmas returns_intros = returns_basic returns_rbind

lemma returns_if: "(b \<Longrightarrow> returns m) \<Longrightarrow> (\<not> b \<Longrightarrow> returns n) \<Longrightarrow> returns (if b then m else n)"
  by simp

lemma returns_xp: "returns (xp bs rs)"
  by (induction bs rs rule: xp.induct) (simp_all add: returns_intros)

lemma returns_sum_of_from: "returns (sum_of_from a bs)"
  by (induction bs arbitrary: a) (simp_all add: returns_intros)

lemma returns_d_p_loop: "returns (d_p_loop d n p bs)"
  by (induction bs arbitrary: p) (simp_all add: returns_intros)

lemma returns_d_step: "returns (d_step bs n ann tot d)"
  unfolding d_step_def by (intro returns_intros returns_d_p_loop)

lemma returns_d_loop: "returns (d_loop i bs n ann tot d)"
  by (induction i arbitrary: d) (simp_all add: returns_intros returns_d_step)

lemma returns_get_d: "returns (get_d bs a)"
  unfolding get_d_def Let_def sum_of_def by (intro returns_intros returns_if returns_sum_of_from returns_d_loop)

lemma returns_get_a_precise: "returns (get_a_precise t p)"
  unfolding get_a_precise_def by (intro returns_intros returns_if)

lemma returns_mul_div_balance: "returns (mul_div_balance a b c)"
  unfolding mul_div_balance_def mul_div_def by (intro returns_intros)

lemma returns_base_price: "returns (calculate_base_virtual_price D p s)"
  unfolding calculate_base_virtual_price_def Let_def
  by (intro returns_intros returns_if returns_xp returns_get_a_precise returns_get_d returns_mul_div_balance)

lemma returns_meta_price_at: "returns (meta_price_at D mp s price)"
  unfolding meta_price_at_def meta_pool_xp_def Let_def
  by (intro returns_intros returns_if returns_xp returns_get_a_precise returns_get_d returns_mul_div_balance)

text \<open>A meta pool points to an older pool, so one level per identifier below its own is enough.\<close>

lemma base_price_fuel_enough:
  assumes "exchange_ok D X s" and "Pools s pid = Some (Meta mp)" and "pid < n"
  shows "returns (base_price_fuel n D mp s)" and "base_price_fuel (n + k) D mp s = base_price_fuel n D mp s"
proof -
  have "returns (base_price_fuel n D mp s) \<and> base_price_fuel (n + k) D mp s = base_price_fuel n D mp s"
    using assms(2,3)
  proof (induction n arbitrary: pid mp)
    case (Suc n)
    have link: "base_pool_id mp < pid" using exchange_okD(1)[OF assms(1) Suc.prems(1)] by (simp add: pool_ok_def linked_def)
    have base: "returns (base_price_fuel n D mp' s) \<and> base_price_fuel (n + k) D mp' s = base_price_fuel n D mp' s"
      if older: "Pools s (base_pool_id mp) = Some (Meta mp')" for mp'
      using Suc.IH[OF older] link Suc.prems(2) by simp
    show ?case
    proof (cases "Pools s (base_pool_id mp)")
      case None
      then show ?thesis by (simp add: opt_def ok_or_def returns_def)
    next
      case (Some pool)
      then show ?thesis using base
        by (cases pool) (auto simp: opt_def ok_or_def returns_base_price returns_intros returns_meta_price_at)
    qed
  qed simp
  then show "returns (base_price_fuel n D mp s)" and "base_price_fuel (n + k) D mp s = base_price_fuel n D mp s" by simp_all
qed

subsection \<open>Amplification\<close>

text \<open>Between the ends of a ramp the amplification is defined and lies between them.\<close>

lemma get_a_precise_between:
  assumes "initial_a_time p \<le> now" and "future_a_time p < 2 ^ 128" and "initial_a p < 2 ^ 128" and "future_a p < 2 ^ 128"
  shows "\<exists>a. get_a_precise now p = Inr a \<and> min (initial_a p) (future_a p) \<le> a \<and> a \<le> max (initial_a p) (future_a p)"
proof (cases "future_a_time p \<le> now")
  case True
  then show ?thesis by (simp add: get_a_precise_def)
next
  case False
  define part where "part = (\<lambda>x. x * (now - initial_a_time p) div (future_a_time p - initial_a_time p))"
  have t: "initial_a_time p < future_a_time p" "now - initial_a_time p \<le> future_a_time p - initial_a_time p"
    using False assms(1) by linarith+
  have part: "part x \<le> x" for x
  proof -
    have "part x \<le> x * (future_a_time p - initial_a_time p) div (future_a_time p - initial_a_time p)"
      unfolding part_def using t(2) by (intro div_le_mono mult_le_mono2)
    then show ?thesis using t(1) by simp
  qed
  have small: "opt (checked_mul_w 256 x (now - initial_a_time p)) = Inr (x * (now - initial_a_time p))" if "x < 2 ^ 128" for x
  proof (rule opt_arith(2))
    have "x * (now - initial_a_time p) \<le> x * 2 ^ 128" using False assms(2) by (intro mult_le_mono2) linarith
    also have "\<dots> < 2 ^ 128 * 2 ^ 128" using that by simp
    finally show "x * (now - initial_a_time p) < 2 ^ 256" by simp
  qed
  have steps: "opt (checked_sub now (initial_a_time p)) = Inr (now - initial_a_time p)"
    "opt (checked_sub (future_a_time p) (initial_a_time p)) = Inr (future_a_time p - initial_a_time p)"
    "opt (checked_div x (future_a_time p - initial_a_time p)) = Inr (x div (future_a_time p - initial_a_time p))" for x
    using assms(1) t(1) by (intro opt_arith; simp)+
  show ?thesis
  proof (cases "initial_a p < future_a p")
    case True
    define v where "v = part (future_a p - initial_a p)"
    have v: "v \<le> future_a p - initial_a p" unfolding v_def by (rule part)
    have "opt (checked_sub (future_a p) (initial_a p)) = Inr (future_a p - initial_a p)"
      "opt (checked_add_w 256 (initial_a p) v) = Inr (initial_a p + v)" "opt (balance_of (initial_a p + v)) = Inr (initial_a p + v)"
      using True v assms(4) by (simp_all add: opt_def balance_of_def)
    moreover have "(future_a p - initial_a p) * (now - initial_a_time p) div (future_a_time p - initial_a_time p) = v" by (simp add: v_def part_def)
    moreover have "opt (checked_mul_w 256 (future_a p - initial_a p) (now - initial_a_time p)) = Inr ((future_a p - initial_a p) * (now - initial_a_time p))"
      using small assms(4) by simp
    ultimately have "get_a_precise now p = Inr (initial_a p + v)"
      using True False by (simp only: get_a_precise_def steps rbind_simps if_True if_False)
    then show ?thesis using True v by simp
  next
    case False': False
    define v where "v = part (initial_a p - future_a p)"
    have v: "v \<le> initial_a p - future_a p" unfolding v_def by (rule part)
    have "opt (checked_sub (initial_a p) (future_a p)) = Inr (initial_a p - future_a p)"
      "opt (checked_sub (initial_a p) v) = Inr (initial_a p - v)" "opt (balance_of (initial_a p - v)) = Inr (initial_a p - v)"
      using False' v assms(3) by (simp_all add: opt_def balance_of_def)
    moreover have "(initial_a p - future_a p) * (now - initial_a_time p) div (future_a_time p - initial_a_time p) = v" by (simp add: v_def part_def)
    moreover have "opt (checked_mul_w 256 (initial_a p - future_a p) (now - initial_a_time p)) = Inr ((initial_a p - future_a p) * (now - initial_a_time p))"
      using small assms(3) by simp
    ultimately have "get_a_precise now p = Inr (initial_a p - v)"
      using False' False by (simp only: get_a_precise_def steps rbind_simps if_True if_False)
    then show ?thesis using False' v by auto
  qed
qed

lemma check_ramp_bounds:
  assumes "check_ramp now p a t = Inr (a0, a1)"
  shows "get_a_precise now p = Inr a0" and "a1 = a * A_PRECISION" and "0 < a" and "a < MAX_A"
    and "a0 \<le> MAX_A_CHANGE * a1" and "a1 \<le> MAX_A_CHANGE * a0" and "now + MIN_RAMP_TIME \<le> t"
proof -
  have run: "map_err (\<lambda>_. stable_error Stable_Arithmetic) m = Inr x \<longleftrightarrow> m = Inr x" for m :: "'r computed" and x
    by (cases "(\<lambda>_ :: unit. stable_error Stable_Arithmetic, m)" rule: map_err.cases) auto
  have "get_a_precise now p = Inr a0 \<and> a1 = a * A_PRECISION \<and> 0 < a \<and> a < MAX_A
      \<and> a0 \<le> MAX_A_CHANGE * a1 \<and> a1 \<le> MAX_A_CHANGE * a0 \<and> now + MIN_RAMP_TIME \<le> t"
    using assms unfolding check_ramp_def Let_def
    by (auto simp: rbind_Inr_iff run opt_Inr rensure_def MAX_A_CHANGE_def split: if_splits)
  then show "get_a_precise now p = Inr a0" "a1 = a * A_PRECISION" "0 < a" "a < MAX_A"
    "a0 \<le> MAX_A_CHANGE * a1" "a1 \<le> MAX_A_CHANGE * a0" "now + MIN_RAMP_TIME \<le> t" by blast+
qed

lemma ramp_a_run:
  assumes "ramp_a origin pid a t s = Inr (u, s')"
  obtains pool a0 a1 where "Pools s pid = Some pool" and "check_ramp (stable_now s) (pool_info pool) a t = Inr (a0, a1)"
    and "Pools s' pid = Some (update_info (\<lambda>_. set_ramp a0 a1 (stable_now s) t (pool_info pool)) pool)"
  using assms unfolding ramp_a_def mutate_pool_def on_info_def
  by (auto simp: rbind_Inr_iff stable_deposit_event_def ok_or_Inr)

subsection \<open>The curve of a swap\<close>

text \<open>
  The coefficients of the quadratic whose root is the reserve that a swap has to leave, and the amount of the invariant;
  \<open>get_y\<close> starts its loop with them.
\<close>

definition swap_curve :: "nat \<Rightarrow> ('a, 'c) base_pool \<Rightarrow> nat \<Rightarrow> nat \<Rightarrow> nat \<Rightarrow> nat list \<Rightarrow> (nat \<times> nat \<times> nat) computed" where
  "swap_curve now pool i j x xs =
     (let n = length (currency_ids pool) in
     rbind (get_a_precise now pool) (\<lambda>amp.
     rbind (opt (checked_mul_w 256 n amp)) (\<lambda>ann.
     rbind (get_d xs amp) (\<lambda>d.
     rbind (y_terms n d j (\<lambda>k b. if k = i then x else b) 0 0 d (take n xs)) (\<lambda>(tot, c).
     rbind (y_coefficients n ann d tot c) (\<lambda>(c, b). Inr (c, b, d)))))))"

lemma get_y_curve: "get_y now pool i j x xs = rbind (swap_curve now pool i j x xs) (\<lambda>(c, b, d). y_loop MAX_ITERATION c b d d)"
  unfolding get_y_def swap_curve_def y_solve_def Let_def by (simp add: rbind_assoc case_prod_unfold)

lemma get_y_accurate:
  assumes "get_y now pool i j x xs = Inr y"
  obtains c b d where "swap_curve now pool i j x xs = Inr (c, b, d)"
    and "quad (int b - int d) (int c) (int y) \<le> 1" and "0 < quad (int b - int d) (int c) (int y + 1)"
  using assms unfolding get_y_curve by (auto simp: rbind_Inr_iff dest: y_loop_accurate)

text \<open>A swap takes out at most what leaves the reserve above the curve: the truncations and the fee stay in the pool.\<close>

lemma base_swap_output_above:
  assumes "base_swap_output now p i j n = Inr (dy, fee)"
  obtains xs c b d where "xp (pool_balances p) (token_multipliers p) = Inr xs" and "j < length xs"
    and "swap_curve now p i j (n * token_multipliers p ! i + xs ! i) xs = Inr (c, b, d)"
    and "dy * token_multipliers p ! j + fee < xs ! j"
    and "0 < quad (int b - int d) (int c) (int (xs ! j - (dy * token_multipliers p ! j + fee)))"
proof -
  from assms obtain xs y where xs: "xp (pool_balances p) (token_multipliers p) = Inr xs" and j: "j < length xs"
    and y: "get_y now p i j (n * token_multipliers p ! i + xs ! i) xs = Inr y"
    and "y + 1 \<le> xs ! j" and "fee \<le> xs ! j - y - 1" and dy: "dy = (xs ! j - y - 1 - fee) div token_multipliers p ! j"
    unfolding base_swap_output_def by (auto simp: rbind_Inr_iff opt_Inr index_or_panic_def split: if_splits)
  obtain c b d where curve: "swap_curve now p i j (n * token_multipliers p ! i + xs ! i) xs = Inr (c, b, d)"
    and root: "0 < quad (int b - int d) (int c) (int y + 1)"
    using get_y_accurate[OF y] by metis
  have "dy * token_multipliers p ! j \<le> xs ! j - y - 1 - fee" unfolding dy by (simp add: times_div_less_eq_dividend)
  then have paid: "dy * token_multipliers p ! j + fee + y + 1 \<le> xs ! j"
    using \<open>y + 1 \<le> xs ! j\<close> \<open>fee \<le> xs ! j - y - 1\<close> by linarith
  have "0 < quad (int b - int d) (int c) (int (xs ! j - (dy * token_multipliers p ! j + fee)))"
  proof (rule quad_increasing[OF root])
    have "Suc y \<le> xs ! j - (dy * token_multipliers p ! j + fee)" using paid by linarith
    then show "int y + 1 \<le> int (xs ! j - (dy * token_multipliers p ! j + fee))" by linarith
  qed simp_all
  then show thesis using that xs j curve paid by simp
qed

subsection \<open>Fees above the reserves\<close>

lemma admin_balance_defined:
  assumes "exchange_ok D {} s" and "Pools s pid = Some pool" and "i < length (currency_ids (pool_info pool))"
  shows "\<exists>b. get_admin_balance D pid i s = Inr b
    \<and> stable_balance D s (currency_ids (pool_info pool) ! i) (pool_account (pool_info pool)) = pool_balances (pool_info pool) ! i + b"
proof -
  have "pool_balances (pool_info pool) ! i \<le> stable_balance D s (currency_ids (pool_info pool) ! i) (pool_account (pool_info pool))"
    and "length (pool_balances (pool_info pool)) = length (currency_ids (pool_info pool))"
    using exchange_okD[OF assms(1,2)] assms(3) by (auto simp: covered_def pool_ok_def wf_info_def)
  then show ?thesis using assms(2,3) unfolding get_admin_balance_def Let_def
    by (simp add: opt_def ok_or_def index_or_panic_def checked_sub_def)
qed

end
