(* ===== verification/Stable_Results.thy ===== *)
theory Stable_Results
  imports Stable_Views Dex_Samples
begin

text \<open>
  What the stable exchange guarantees: the reserves of every pool are in its account whatever calls are made, the solver
  of the swap curve always finds the root and a swap stays on the safe side of it, the computations end, ramps of the
  amplification are slow, and where an index from outside stops the code.
\<close>

subsection \<open>A sample exchange\<close>

text \<open>Accounts and currencies are numbers; the ledger is a table. Pool 0 holds currencies 1 and 2, the meta pool 1 on it holds 3.\<close>

definition sample_stable_config :: "(nat, nat, (nat, nat) table) stable_config" where
  "sample_stable_config =
     \<lparr>sx_currency = table_currency, sx_validate_pooled_currency = distinct, sx_generate_by_pool_id = (\<lambda>n. 100 + n),
      sx_pool_account_id = (\<lambda>n. 1000 + n), sx_inc_providers = (\<lambda>_ x. x), sx_pool_currency_limit = 10,
      sx_pool_symbol_limit = 50, sx_pool_id_bits = 32\<rparr>"

definition sample_no_pools :: "(nat, nat, (nat, nat) table) stable" where
  "sample_no_pools = \<lparr>NextPoolId = 0, Pools = (\<lambda>_. None), LpCurrencies = (\<lambda>_. None), stable_events = [],
     stable_block_number = 5, stable_now = 100000, stable_ledger = (\<lambda>_ a. if a < 10 then 5000 else 0, \<lambda>_. 0)\<rparr>"

definition sample_create :: "(nat, nat, (nat, nat) table, unit) stable_action" where
  "sample_create = create_base_pool sample_stable_config RootOrigin [1, 2] [18, 18] 100 4000000 5000000000 7 []"

definition sample_add :: "(nat, nat, (nat, nat) table, unit) stable_action" where
  "sample_add = stable_add_liquidity sample_stable_config (SignedOrigin 1) 0 [1000, 1000] 0 1 9"

definition sample_meta :: "(nat, nat, (nat, nat) table, unit) stable_action" where
  "sample_meta = create_meta_pool sample_stable_config RootOrigin [3, 100] [18, 18] 100 4000000 5000000000 7 []"

definition sample_base :: "(nat, nat) base_pool" where
  "sample_base = \<lparr>currency_ids = [1, 2], lp_currency_id = 100, token_multipliers = [1, 1], pool_balances = [1000, 1000],
     pool_fee = 4000000, pool_admin_fee = 5000000000, initial_a = 10000, future_a = 10000, initial_a_time = 0, future_a_time = 0,
     pool_account = 1000, pool_admin_fee_receiver = 7, lp_currency_symbol = [], lp_currency_decimal = 18\<rparr>"

lemma sample_sound [simp]: "sound_config sample_stable_config"
  by (auto simp: sound_config_def sample_stable_config_def lawful_def table_currency_laws inj_def)

lemma sample_customer [simp]: "customer sample_stable_config (SignedOrigin 1)"
  by (simp add: customer_def sample_stable_config_def)

lemmas stable_eval = Let_def opt_def ok_or_def rensure_def compute_def balance_of_def distance_def index_or_panic_def with_error_def
  checked_mul_w_def checked_add_w_def checked_sub_def checked_div_def checked_pow_w_def stable_constants mutate_pool_def
  by_kind_def on_base_def on_meta_def on_info_def insert_pool_def stable_deposit_event_def on_stable_ledger_def stable_transfer_def
  stable_balance_def stable_issuance_def do_transfer_in_def sample_stable_config_def table_currency_def
  get_lp_currency_def get_currency_ids_def pool_info_def update_info_def

lemma loop_numeral:
  "d_loop (numeral k) bs n ann tot d_prev = rbind (d_step bs n ann tot d_prev) (\<lambda>d.
     if distance d d_prev \<le> 1 then opt (balance_of d) else d_loop (pred_numeral k) bs n ann tot d)"
  "y_loop (numeral k) c b d last_y = rbind (y_step c b d last_y) (\<lambda>y.
     if distance last_y y \<le> 1 then opt (balance_of y) else y_loop (pred_numeral k) c b d y)"
  by (simp_all add: numeral_eq_Suc)

lemmas stable_eval_numerics = get_a_precise_def get_d_def sum_of_def d_step_def y_step_def get_y_def y_solve_def y_coefficients_def
  calculate_fee_per_token_def mul_div_def mul_div_balance_def loop_numeral

definition sample_created_state :: "(nat, nat, (nat, nat) table) stable" where
  "sample_created_state = sample_no_pools\<lparr>NextPoolId := 1, Pools := [0 \<mapsto> Base (sample_base\<lparr>pool_balances := [0, 0]\<rparr>)],
     LpCurrencies := [100 \<mapsto> 0], stable_events := [CreatePool 0 [1, 2] 100 100 1000 4000000 5000000000 7]\<rparr>"

lemma sample_created: "sample_create sample_no_pools = Inr ((), sample_created_state)"
  by (simp add: sample_create_def create_base_pool_def inner_create_base_pool_def sample_no_pools_def sample_created_state_def
      sample_base_def stable_eval)

definition sample_exchange :: "(nat, nat, (nat, nat) table) stable" where
  "sample_exchange = sample_created_state\<lparr>Pools := [0 \<mapsto> Base sample_base],
     stable_events := stable_events sample_created_state @ [StableAddLiquidity 0 1 1 [1000, 1000] [] 2000 2000],
     stable_ledger :=
       (\<lambda>c a. if c \<in> {1, 2} \<and> a = 1 then 4000 else if c \<in> {1, 2} \<and> a = 1000 then 1000
              else if c = 100 \<and> a = 1 then 7000 else if a < 10 then 5000 else 0,
        \<lambda>c. if c = 100 then 2000 else 0)\<rparr>"

lemma sample_added: "sample_add sample_created_state = Inr ((), sample_exchange)"
  by (simp add: sample_add_def stable_add_liquidity_def before_deadline_def stable_inner_add_liquidity_def base_pool_add_liquidity_def
     sample_created_state_def sample_no_pools_def sample_base_def sample_exchange_def stable_eval stable_eval_numerics fun_eq_iff)

definition sample_meta_pool :: "(nat, nat) meta_pool" where
  "sample_meta_pool = \<lparr>base_pool_id = 0, base_virtual_price = 1000000000000000000, base_cache_last_updated = 100000,
     base_currencies = [1, 2],
     meta_info = \<lparr>currency_ids = [3, 100], lp_currency_id = 101, token_multipliers = [1, 1], pool_balances = [0, 0],
       pool_fee = 4000000, pool_admin_fee = 5000000000, initial_a = 10000, future_a = 10000, initial_a_time = 0, future_a_time = 0,
       pool_account = 1001, pool_admin_fee_receiver = 7, lp_currency_symbol = [], lp_currency_decimal = 18\<rparr>\<rparr>"

definition sample_linked :: "(nat, nat, (nat, nat) table) stable" where
  "sample_linked = sample_exchange\<lparr>LpCurrencies := [100 \<mapsto> 0, 101 \<mapsto> 1], NextPoolId := Suc 1,
     Pools := [0 \<mapsto> Base sample_base, 1 \<mapsto> Meta sample_meta_pool],
     stable_events := stable_events sample_exchange @ [CreatePool 1 [3, 100] 101 100 1001 4000000 5000000000 7]\<rparr>"

lemma sample_price:
  assumes "stable_issuance sample_stable_config s 100 = 2000"
  shows "get_pool_virtual_price sample_stable_config (Base sample_base) s = Inr 1000000000000000000"
  by (simp add: get_pool_virtual_price_def calculate_base_virtual_price_def sample_base_def assms Let_def opt_def ok_or_def
     checked_mul_w_def checked_add_w_def checked_sub_def checked_div_def checked_pow_w_def balance_of_def distance_def
     stable_constants stable_eval_numerics)

lemma sample_exchange_fields:
  "NextPoolId sample_exchange = 1" "Pools sample_exchange = [0 \<mapsto> Base sample_base]" "LpCurrencies sample_exchange = [100 \<mapsto> 0]"
  "stable_now sample_exchange = 100000" "get_currency_ids (Base sample_base) = [1, 2]" "stable_issuance sample_stable_config sample_exchange 100 = 2000"
  "sample_exchange\<lparr>stable_ledger := stable_ledger sample_exchange\<rparr> = sample_exchange"
  by (simp_all add: sample_exchange_def sample_created_state_def sample_no_pools_def stable_issuance_def
      sample_stable_config_def table_currency_def sample_base_def get_currency_ids_def)

lemma sample_config_fields:
  "sx_validate_pooled_currency sample_stable_config = distinct" "sx_generate_by_pool_id sample_stable_config n = 100 + n"
  "sx_pool_account_id sample_stable_config n = 1000 + n" "sx_inc_providers sample_stable_config a x = x"
  "sx_pool_currency_limit sample_stable_config = 10" "sx_pool_symbol_limit sample_stable_config = 50"
  "sx_pool_id_bits sample_stable_config = 32"
  by (simp_all add: sample_stable_config_def)

lemma sample_meta_created: "sample_meta sample_exchange = Inr ((), sample_linked)"
  by (simp add: sample_meta_def create_meta_pool_def inner_create_base_pool_def compute_def sample_exchange_fields
      sample_config_fields sample_price Let_def ok_or_def opt_def rensure_def checked_pow_w_def checked_mul_w_def checked_add_w_def
      stable_constants insert_pool_def stable_deposit_event_def get_lp_currency_def
      sample_linked_def sample_meta_pool_def)

lemma stable_sample_run:
  "empty_exchange sample_no_pools" "(stable_step sample_stable_config)\<^sup>*\<^sup>* sample_no_pools sample_linked"
  "exchange_ok sample_stable_config {} sample_linked"
proof -
  show empty: "empty_exchange sample_no_pools" by (simp add: empty_exchange_def sample_no_pools_def)
  have create: "stable_step sample_stable_config sample_no_pools sample_created_state"
    using sample_created unfolding sample_create_def by (rule step_create_base)
  have add: "stable_step sample_stable_config sample_created_state sample_exchange"
    using sample_customer sample_added unfolding sample_add_def by (rule step_add)
  have meta: "stable_step sample_stable_config sample_exchange sample_linked"
    using sample_meta_created unfolding sample_meta_def by (rule step_create_meta)
  show run: "(stable_step sample_stable_config)\<^sup>*\<^sup>* sample_no_pools sample_linked"
    using r_into_rtranclp[where r = "stable_step sample_stable_config", of sample_no_pools, OF create]
      r_into_rtranclp[where r = "stable_step sample_stable_config", of sample_created_state, OF add] r_into_rtranclp[where r = "stable_step sample_stable_config", of sample_exchange, OF meta]
    by (blast intro: rtranclp_trans)
  show "exchange_ok sample_stable_config {} sample_linked" by (rule stable_run_ok[OF sample_sound run empty_exchange_ok[OF empty]])
qed

subsection \<open>Properties\<close>





text \<open>
  C9: A swap stays on the safe side of the curve. What a swap pays out and charges, brought to the precision of the pool, leaves
  at least one unit of the reserve and stays above the root of the quadratic for the new balance of the other currency: no
  truncation and no step of the solver is at the expense of the pool.
\<close>

theorem swap_stays_above_curve:
  assumes "base_swap_output now p i j n = Inr (dy, fee)"
  shows "\<exists>xs c b d. xp (pool_balances p) (token_multipliers p) = Inr xs
    \<and> swap_curve now p i j (n * token_multipliers p ! i + xs ! i) xs = Inr (c, b, d)
    \<and> dy * token_multipliers p ! j + fee < xs ! j
    \<and> 0 < quad (int b - int d) (int c) (int (xs ! j - (dy * token_multipliers p ! j + fee)))"
  using base_swap_output_above[OF assms] by metis

theorem swap_stays_above_curve_witness:
  "\<exists>dy fee xs c b d. base_swap_output 100000 sample_base 0 1 100 = Inr (dy, fee) \<and> 0 < dy
    \<and> xp (pool_balances sample_base) (token_multipliers sample_base) = Inr xs \<and> xs = [1000, 1000]
    \<and> 0 < quad (int b - int d) (int c) (int (xs ! 1 - (dy + fee)))"
proof -
  obtain dy fee where run: "base_swap_output 100000 sample_base 0 1 100 = Inr (dy, fee)" and dy: "0 < dy"
    by (simp add: base_swap_output_def sample_base_def stable_eval stable_eval_numerics)
  have xs: "xp (pool_balances sample_base) (token_multipliers sample_base) = Inr [1000, 1000]"
    by (simp add: sample_base_def opt_def ok_or_def checked_mul_w_def)
  show ?thesis using swap_stays_above_curve[OF run] run dy xs by (auto simp: sample_base_def)
qed

text \<open>
  C10: The solver always finds the root. From the amount of the invariant, and for coefficients that leave room in 256 bits, no
  step of the loop fails, it ends within its 255 iterations, and the result is the root of the quadratic up to one unit.
\<close>

theorem solver_finds_root:
  assumes "0 < c" and "c < 2 ^ 126 * d" and "d < 2 ^ 126" and "b < 2 ^ 255"
  shows "\<exists>y. y_loop MAX_ITERATION c b d d = Inr y
    \<and> quad (int b - int d) (int c) (int y) \<le> 1 \<and> 0 < quad (int b - int d) (int c) (int y + 1)"
  using y_loop_returns[OF assms] y_loop_accurate by blast

theorem solver_finds_root_witness:
  "\<exists>y. y_loop MAX_ITERATION 909545 1110 2000 2000 = Inr y \<and> quad (- 890) 909545 (int y) \<le> 1 \<and> 0 < quad (- 890) 909545 (int y + 1)"
  using solver_finds_root[of 909545 2000 1110] by simp




text \<open>
  C13: The amplification changes slowly. After a ramp has been set, at every later time the amplification is defined and within a
  factor of ten of what it was when the ramp was set.
\<close>

theorem ramp_is_bounded:
  assumes "ramp_a origin pid a t s = Inr (u, s')" and "t < 2 ^ 128" and "stable_now s \<le> now"
  shows "\<exists>pool pool' a0 x. Pools s pid = Some pool \<and> get_a_precise (stable_now s) (pool_info pool) = Inr a0
    \<and> Pools s' pid = Some pool' \<and> get_a_precise now (pool_info pool') = Inr x \<and> x \<le> 10 * a0 \<and> a0 \<le> 10 * x"
proof -
  obtain pool a0 a1 where pool: "Pools s pid = Some pool" and check: "check_ramp (stable_now s) (pool_info pool) a t = Inr (a0, a1)"
    and pool': "Pools s' pid = Some (update_info (\<lambda>_. set_ramp a0 a1 (stable_now s) t (pool_info pool)) pool)"
    using assms(1) by (rule ramp_a_run)
  note bounds = check_ramp_bounds[OF check]
  have ends: "a0 \<le> 10 * a1" "a1 \<le> 10 * a0" using bounds(5,6) by (simp_all add: MAX_A_CHANGE_def)
  have "a1 < 100000000" using bounds(2,4) by (simp add: A_PRECISION_def MAX_A_def)
  then have small: "a1 < 2 ^ 128" "a0 < 2 ^ 128" using ends(1) by simp_all
  obtain x where x: "get_a_precise now (set_ramp a0 a1 (stable_now s) t (pool_info pool)) = Inr x"
    and "min a0 a1 \<le> x" "x \<le> max a0 a1"
    using get_a_precise_between[of "set_ramp a0 a1 (stable_now s) t (pool_info pool)" now] assms(2,3) small by (auto simp: set_ramp_def)
  then have "x \<le> 10 * a0 \<and> a0 \<le> 10 * x" using ends by (simp add: min_def max_def split: if_splits)
  then show ?thesis using pool bounds(1) pool' x by fastforce
qed

theorem ramp_is_bounded_witness:
  "\<exists>s' pool' x. ramp_a RootOrigin 0 1000 200000 sample_exchange = Inr ((), s')
    \<and> Pools s' 0 = Some pool' \<and> get_a_precise 150000 (pool_info pool') = Inr x \<and> x \<le> 100000"
proof -
  have "is_ok (ramp_a RootOrigin 0 1000 200000 sample_exchange)"
    by (simp add: ramp_a_def check_ramp_def sample_exchange_fields sample_base_def stable_eval stable_eval_numerics is_ok_def)
  then obtain s' where run: "ramp_a RootOrigin 0 1000 200000 sample_exchange = Inr ((), s')" by (auto simp: is_ok_iff)
  have "get_a_precise 100000 (pool_info (Base sample_base)) = Inr 10000" by (simp add: get_a_precise_def sample_base_def pool_info_def)
  then show ?thesis using ramp_is_bounded[OF run, of 150000] run by (fastforce simp: sample_exchange_fields)
qed

text \<open>
  A balanced pool is worth the sum of its reserves: when all reserves are equal, the amount of the invariant is their sum,
  for every amplification, as long as the numbers stay within 256 bits.
\<close>

theorem balanced_invariant:
  assumes "0 < x" and "0 < n" and "A_PRECISION \<le> amp * n" and "n * x < 2 ^ 128" and "amp * n < 2 ^ 128"
    and "(amp * n + n + 1) * ((n * x) * (n * x)) < 2 ^ 256"
  shows "get_d (replicate n x) amp = Inr (n * x)"
  by (rule get_d_balanced[OF assms])

theorem balanced_invariant_witness: "get_d [1000000, 1000000, 1000000] 5000 = Inr 3000000"
  using balanced_invariant[of 1000000 3 5000] by (simp add: A_PRECISION_def numeral_3_eq_3)

text \<open>
  The collected fees are defined. In every state that calls can reach, the query for the fees of a pool in one of its
  currencies gives exactly what its account holds beyond the reserve.
\<close>

lemma fees_are_the_surplus:
  assumes "sound_config D" and "empty_exchange s0" and "(stable_step D)\<^sup>*\<^sup>* s0 s"
    and "Pools s pid = Some pool" and "i < length (currency_ids (pool_info pool))"
  shows "\<exists>fee. get_admin_balance D pid i s = Inr fee
    \<and> stable_balance D s (currency_ids (pool_info pool) ! i) (pool_account (pool_info pool)) = pool_balances (pool_info pool) ! i + fee"
  by (rule admin_balance_defined[OF stable_run_ok[OF assms(1,3) empty_exchange_ok[OF assms(2)]] assms(4,5)])

lemma fees_are_the_surplus_witness: "\<exists>fee. get_admin_balance sample_stable_config 0 1 sample_linked = Inr fee"
proof -
  have "Pools sample_linked 0 = Some (Base sample_base)" by (simp add: sample_linked_def)
  from fees_are_the_surplus[OF sample_sound stable_sample_run(1,2) this, of 1] show ?thesis by (auto simp: sample_base_def)
qed

text \<open>
  C14: A wrong index stops the runtime. Swapping from a base pool with an index that the base pool does not have panics instead
  of returning an error, whoever calls it and whatever the amounts.
\<close>

theorem swap_from_base_panics:
  assumes "Pools s base_id = Some base" and "Pools s pid = Some (Meta mp)" and "base_pool_id mp = base_id"
    and "lp_currency_id (pool_info base) \<in> set (currency_ids (meta_info mp))"
    and "length (currency_ids (pool_info base)) \<le> in_index" and "stable_block_number s < deadline"
  shows "swap_pool_from_base D (SignedOrigin who) pid base_id in_index out_index dx min_dy to_account deadline s = Inl Panic"
proof -
  have found: "\<exists>k. index_from i c cs w = Some k" if "c \<in> set cs \<or> w \<noteq> None" for i c w and cs :: "'b list"
    using that by (induction cs arbitrary: i w) auto
  obtain k where "index_from 0 (lp_currency_id (pool_info base)) (currency_ids (meta_info mp)) None = Some k"
    using found assms(4) by blast
  then show ?thesis using assms
    by (simp add: swap_pool_from_base_def before_deadline_def inner_swap_pool_from_base_def stored_pool_def ensure_meta_of_def
        ok_or_def Let_def one_amount_def pool_info_def)
qed

theorem swap_from_base_panics_witness:
  "swap_pool_from_base sample_stable_config (SignedOrigin 1) 1 0 2 0 100 0 1 9 sample_linked = Inl Panic"
  by (rule swap_from_base_panics[of _ _ "Base sample_base" _ sample_meta_pool])
    (simp_all add: sample_linked_def sample_base_def sample_meta_pool_def pool_info_def sample_exchange_def
      sample_created_state_def sample_no_pools_def)

text \<open>
  The query for a currency of a pool never answers: it returns nothing for every index that the pool has, and it panics for
  every index beyond the number of its currencies.
\<close>

lemma get_currency_never_answers:
  "get_currency pid i s =
     (case Pools s pid of None \<Rightarrow> Inl (Err ())
      | Some pool \<Rightarrow> if i \<le> length (get_currency_ids pool) then Inl (Err ()) else Inl Panic)"
  by (simp add: get_currency_def index_or_panic_def split: option.splits)

end
