(* ===== verification/Oracle.thy ===== *)
theory Oracle
  imports Currency "HOL-Library.AList"
begin

text \<open>
  The oracle pallet (\<^verbatim>\<open>src/crates/oracle/src/lib.rs\<close>): authorized accounts feed values for keys, and at the start of
  a block the values of each key that are recent enough are aggregated to their median.

  A storage map that the code iterates over is the list of its entries; the order of the iteration is that of the hashed
  keys, which only the order within an event depends on. Unsigned fixed-point numbers are given by their inner number, moments in
  milliseconds. The addition of numbers, the number made of an integer and the hook for changed rates are parameters.
\<close>

subsection \<open>Storage\<close>

datatype 'c oracle_key = ExchangeRate 'c | FeeEstimation

record timestamped_value =
  raw_value :: ufixed
  timestamp :: nat

datatype ('a, 'c) oracle_event =
    FeedValues 'a "('c oracle_key \<times> ufixed) list"
  | AggregateUpdated "('c oracle_key \<times> ufixed option) list"
  | OracleAdded 'a string
  | OracleRemoved 'a

record ('a, 'c, 'w) oracle_state =
  Aggregate :: "'c oracle_key \<Rightarrow> ufixed option"
  RawValues :: "'c oracle_key \<Rightarrow> ('a \<times> timestamped_value) list"
  RawValuesUpdated :: "('c oracle_key \<times> bool) list"
  ValidUntil :: "'c oracle_key \<Rightarrow> nat option"
  MaxDelay :: nat
  AuthorizedOracles :: "'a \<Rightarrow> string option"
  oracle_events :: "('a, 'c) oracle_event list"
  oracle_now :: nat
  oracle_world :: 'w

record ('c, 'w) oracle_config =
  oc_fixed :: ufixed_ops
  oc_checked_add :: "ufixed \<Rightarrow> ufixed \<Rightarrow> ufixed option"
  oc_from :: "nat \<Rightarrow> ufixed"
  oc_wrapped :: 'c
  oc_on_exchange_rate_change :: "'c \<Rightarrow> 'w \<Rightarrow> 'w"

type_synonym ('a, 'c, 'w, 'r) oracle_action = "(('a, 'c, 'w) oracle_state, dispatch_error, 'r) action"

definition oracle_deposit_event :: "('a, 'c) oracle_event \<Rightarrow> ('a, 'c, 'w) oracle_state \<Rightarrow> ('a, 'c, 'w) oracle_state" where
  "oracle_deposit_event e s = s\<lparr>oracle_events := oracle_events s @ [e]\<rparr>"

subsection \<open>Aggregation\<close>

definition median :: "('c, 'w) oracle_config \<Rightarrow> ufixed list \<Rightarrow> ufixed option" where
  "median C raw_values =
     (let mid_index = length raw_values div 2; sorted_values = sort raw_values in
      if length raw_values = 0 then None
      else if length raw_values mod 2 = 0 then
        (case oc_checked_add C (sorted_values ! (mid_index - 1)) (sorted_values ! mid_index) of
           None \<Rightarrow> None
         | Some n \<Rightarrow> uf_checked_div (oc_fixed C) n (oc_from C 2))
      else Some (sorted_values ! mid_index))"

definition is_outdated :: "('a, 'c, 'w) oracle_state \<Rightarrow> 'c oracle_key \<Rightarrow> nat \<Rightarrow> bool" where
  "is_outdated s key current_time = (case ValidUntil s key of Some t \<Rightarrow> current_time > t | None \<Rightarrow> False)"

text \<open>The values of a key that were reported within the maximal delay.\<close>

definition recent_values :: "('a, 'c, 'w) oracle_state \<Rightarrow> 'c oracle_key \<Rightarrow> timestamped_value list" where
  "recent_values s key = filter (\<lambda>v. timestamp v \<ge> oracle_now s - MaxDelay s) (map snd (RawValues s key))"

definition rate_changed :: "('c, 'w) oracle_config \<Rightarrow> 'c oracle_key \<Rightarrow> ('a, 'c, 'w) oracle_state \<Rightarrow> ('a, 'c, 'w) oracle_state" where
  "rate_changed C key s = (case key of
       ExchangeRate c \<Rightarrow> s\<lparr>oracle_world := oc_on_exchange_rate_change C c (oracle_world s)\<rparr>
     | FeeEstimation \<Rightarrow> s)"

text \<open>When the median is not defined, the function returns before it changes the aggregate and calls the hook.\<close>

definition update_aggregate ::
  "('c, 'w) oracle_config \<Rightarrow> 'c oracle_key \<Rightarrow> ('a, 'c, 'w) oracle_state \<Rightarrow> ufixed option \<times> ('a, 'c, 'w) oracle_state" where
  "update_aggregate C key s =
     (let s = s\<lparr>RawValuesUpdated := AList.update key False (RawValuesUpdated s)\<rparr>; raw_values = recent_values s key in
      if raw_values = [] then
        (None, rate_changed C key (s\<lparr>Aggregate := (Aggregate s)(key := None), ValidUntil := (ValidUntil s)(key := None)\<rparr>))
      else
        let valid_until = (Min (set (map timestamp raw_values)) + MaxDelay s) mod 2 ^ 64 in
        case median C (map raw_value raw_values) of
          None \<Rightarrow> (None, s)
        | Some v \<Rightarrow>
            (Some v, rate_changed C key
               (s\<lparr>Aggregate := (Aggregate s)(key \<mapsto> v), ValidUntil := (ValidUntil s)(key \<mapsto> valid_until)\<rparr>)))"

fun update_loop ::
  "('c, 'w) oracle_config \<Rightarrow> nat \<Rightarrow> ('c oracle_key \<times> bool) list \<Rightarrow> ('a, 'c, 'w) oracle_state \<Rightarrow>
   ('c oracle_key \<times> ufixed option) list \<times> ('a, 'c, 'w) oracle_state" where
  "update_loop C current_time [] s = ([], s)"
| "update_loop C current_time ((key, is_updated) # items) s =
     (if is_updated \<or> is_outdated s key current_time then
        let (new_value, s) = update_aggregate C key s; (updated_items, s) = update_loop C current_time items s in
        ((key, new_value) # updated_items, s)
      else update_loop C current_time items s)"

definition oracle_begin_block :: "('c, 'w) oracle_config \<Rightarrow> ('a, 'c, 'w) oracle_state \<Rightarrow> nat \<times> ('a, 'c, 'w) oracle_state" where
  "oracle_begin_block C s =
     (let raw_values_updated = RawValuesUpdated s; (updated_items, s) = update_loop C (oracle_now s) raw_values_updated s in
      (min (length raw_values_updated) (2 ^ 32 - 1),
       if updated_items = [] then s else oracle_deposit_event (AggregateUpdated updated_items) s))"

subsection \<open>Feeding\<close>

fun feed_loop :: "'a \<Rightarrow> ('c oracle_key \<times> ufixed) list \<Rightarrow> ('a, 'c, 'w) oracle_state \<Rightarrow> ('a, 'c, 'w) oracle_state" where
  "feed_loop oracle_id [] s = s"
| "feed_loop oracle_id ((key, v) # values) s =
     feed_loop oracle_id values
       (s\<lparr>RawValues := (RawValues s)(key := AList.update oracle_id \<lparr>raw_value = v, timestamp = oracle_now s\<rparr> (RawValues s key)),
          RawValuesUpdated := AList.update key True (RawValuesUpdated s)\<rparr>)"

definition feed_values_of :: "'a \<Rightarrow> ('c oracle_key \<times> ufixed) list \<Rightarrow> ('a, 'c, 'w) oracle_state \<Rightarrow> ('a, 'c, 'w) oracle_state" where
  "feed_values_of oracle_id values s = oracle_deposit_event (FeedValues oracle_id values) (feed_loop oracle_id values s)"

definition is_authorized :: "('a, 'c, 'w) oracle_state \<Rightarrow> 'a \<Rightarrow> bool" where
  "is_authorized s oracle_id \<longleftrightarrow> AuthorizedOracles s oracle_id \<noteq> None"

definition insert_oracle :: "'a \<Rightarrow> string \<Rightarrow> ('a, 'c, 'w) oracle_state \<Rightarrow> ('a, 'c, 'w) oracle_state" where
  "insert_oracle oracle_id name s = s\<lparr>AuthorizedOracles := (AuthorizedOracles s)(oracle_id \<mapsto> name)\<rparr>"

text \<open>Sets an aggregate without any values; the code keeps it for tests.\<close>

definition set_exchange_rate :: "('c, 'w) oracle_config \<Rightarrow> 'c \<Rightarrow> ufixed \<Rightarrow> ('a, 'c, 'w) oracle_state \<Rightarrow> ('a, 'c, 'w) oracle_state" where
  "set_exchange_rate C currency_id exchange_rate s =
     rate_changed C (ExchangeRate currency_id) (s\<lparr>Aggregate := (Aggregate s)(ExchangeRate currency_id \<mapsto> exchange_rate)\<rparr>)"

subsection \<open>Dispatchables\<close>

definition feed_values :: "'a origin \<Rightarrow> ('c oracle_key \<times> ufixed) list \<Rightarrow> ('a, 'c, 'w, unit) oracle_action" where
  "feed_values origin values =
     sbind (slift (\<lambda>_. ensure_signed origin)) (\<lambda>signer.
     sbind (sensure (\<lambda>s. is_authorized s signer) (OracleError Oracle_InvalidOracleSource)) (\<lambda>_.
     smod (feed_values_of signer values)))"

definition insert_authorized_oracle :: "'a origin \<Rightarrow> 'a \<Rightarrow> string \<Rightarrow> ('a, 'c, 'w, unit) oracle_action" where
  "insert_authorized_oracle origin account_id name =
     sbind (slift (\<lambda>_. ensure_root origin)) (\<lambda>_.
     sbind (smod (insert_oracle account_id name)) (\<lambda>_.
     smod (oracle_deposit_event (OracleAdded account_id name))))"

definition remove_authorized_oracle :: "'a origin \<Rightarrow> 'a \<Rightarrow> ('a, 'c, 'w, unit) oracle_action" where
  "remove_authorized_oracle origin account_id =
     sbind (slift (\<lambda>_. ensure_root origin)) (\<lambda>_.
     sbind (smod (\<lambda>s. s\<lparr>AuthorizedOracles := (AuthorizedOracles s)(account_id := None)\<rparr>)) (\<lambda>_.
     smod (oracle_deposit_event (OracleRemoved account_id))))"

subsection \<open>Prices and conversions\<close>

definition get_price :: "('a, 'c, 'w) oracle_state \<Rightarrow> 'c oracle_key \<Rightarrow> ufixed dispatch" where
  "get_price s key = ok_or (Aggregate s key) (OracleError Oracle_MissingExchangeRate)"

definition wrapped_to_collateral :: "('c, 'w) oracle_config \<Rightarrow> ('a, 'c, 'w) oracle_state \<Rightarrow> nat \<Rightarrow> 'c \<Rightarrow> nat dispatch" where
  "wrapped_to_collateral C s n currency_id =
     rbind (get_price s (ExchangeRate currency_id)) (\<lambda>rate.
     rbind (am_checked_mul (oc_fixed C) (Amount n currency_id) rate) (\<lambda>x. Inr (amt x)))"

definition collateral_to_wrapped :: "('c, 'w) oracle_config \<Rightarrow> ('a, 'c, 'w) oracle_state \<Rightarrow> nat \<Rightarrow> 'c \<Rightarrow> nat dispatch" where
  "collateral_to_wrapped C s n currency_id =
     rbind (get_price s (ExchangeRate currency_id)) (\<lambda>rate.
     if n = 0 then Inr 0
     else rbind (am_checked_div (oc_fixed C) (Amount n currency_id) rate) (\<lambda>x. Inr (amt x)))"

definition oracle_convert :: "('c, 'w) oracle_config \<Rightarrow> ('a, 'c, 'w) oracle_state \<Rightarrow> 'c amount \<Rightarrow> 'c \<Rightarrow> 'c amount dispatch" where
  "oracle_convert C s amount currency_id =
     rbind (if cur amount = currency_id then Inr (amt amount)
            else if cur amount = oc_wrapped C then wrapped_to_collateral C s (amt amount) currency_id
            else if currency_id = oc_wrapped C then collateral_to_wrapped C s (amt amount) (cur amount)
            else rbind (collateral_to_wrapped C s (amt amount) (cur amount)) (\<lambda>base. wrapped_to_collateral C s base currency_id))
       (\<lambda>converted. Inr (Amount converted currency_id))"

end
