(* ===== verification/Oracle_Properties.thy ===== *)
theory Oracle_Properties
  imports Oracle
begin

text \<open>
  What the oracle promises: at the start of every block the stored aggregates are the medians of the recent values, although
  only the keys that were fed or whose aggregate has expired are recomputed; a median follows the majority of the
  values; and conversions forth and back gain nothing.
\<close>

subsection \<open>The median\<close>

text \<open>What the oracle relies on: sums that fit are exact, and so is halving.\<close>

definition oracle_laws :: "('c, 'w) oracle_config \<Rightarrow> bool" where
  "oracle_laws C \<longleftrightarrow> ufixed_laws (oc_fixed C)
     \<and> (\<forall>a b. oc_checked_add C a b = (if a + b < 2 ^ 128 then Some (a + b) else None))
     \<and> (\<forall>a. a < 2 ^ 128 \<longrightarrow> uf_checked_div (oc_fixed C) a (oc_from C 2) = Some (a div 2))"

text \<open>The value in the middle, or the mean of the two.\<close>

definition middle :: "nat list \<Rightarrow> nat" where
  "middle xs = (let ys = sort xs; m = length xs div 2 in
     if length xs mod 2 = 0 then (ys ! (m - 1) + ys ! m) div 2 else ys ! m)"

lemma median_middle:
  assumes "oracle_laws C" and "xs \<noteq> []" and "\<forall>x\<in>set xs. x < 2 ^ 127"
  shows "median C xs = Some (middle xs)"
proof (cases "length xs mod 2 = 0")
  case True
  let ?m = "length xs div 2"
  have m: "?m < length xs" "?m - 1 < length xs" using assms(2) by (cases xs; simp)+
  then have "sort xs ! ?m \<in> set xs" "sort xs ! (?m - 1) \<in> set xs" by (metis length_sort nth_mem set_sort)+
  then have "sort xs ! (?m - 1) + sort xs ! ?m < 2 ^ 127 + 2 ^ 127" using assms(3) by (intro add_strict_mono) auto
  then have "sort xs ! (?m - 1) + sort xs ! ?m < 2 ^ 128" by simp
  then show ?thesis using True assms(1,2) by (simp add: median_def middle_def Let_def oracle_laws_def)
next
  case False
  then show ?thesis using assms(2) by (simp add: median_def middle_def Let_def)
qed

text \<open>A position of a sorted list that more than \<open>k\<close> entries reach from either side.\<close>

lemma sorted_bounds:
  fixes ys :: "nat list"
  assumes "sorted ys" and "i < length ys"
  shows "length (filter (\<lambda>y. y < lo) ys) \<le> i \<Longrightarrow> lo \<le> ys ! i"
    and "length (filter (\<lambda>y. hi < y) ys) + i < length ys \<Longrightarrow> ys ! i \<le> hi"
proof -
  show "lo \<le> ys ! i" if "length (filter (\<lambda>y. y < lo) ys) \<le> i"
  proof (rule ccontr)
    assume "\<not> lo \<le> ys ! i"
    then have below: "ys ! i < lo" by simp
    have mono: "ys ! k \<le> ys ! i" if "k \<le> i" for k using sorted_nth_mono[OF assms(1) that assms(2)] .
    have "{0..i} \<subseteq> {k. k < length ys \<and> ys ! k < lo}" using assms(2) by (auto intro: le_less_trans[OF mono below])
    then have "card {0..i} \<le> card {k. k < length ys \<and> ys ! k < lo}" by (intro card_mono) auto
    then show False using that by (simp add: length_filter_conv_card)
  qed
  show "ys ! i \<le> hi" if few: "length (filter (\<lambda>y. hi < y) ys) + i < length ys"
  proof (rule ccontr)
    assume "\<not> ys ! i \<le> hi"
    then have above: "hi < ys ! i" by simp
    have mono: "ys ! i \<le> ys ! k" if "i \<le> k" "k < length ys" for k using sorted_nth_mono[OF assms(1) that] .
    have "{i..<length ys} \<subseteq> {k. k < length ys \<and> hi < ys ! k}" by (auto intro: less_le_trans[OF above mono])
    then have "card {i..<length ys} \<le> card {k. k < length ys \<and> hi < ys ! k}" by (intro card_mono) auto
    then show False using few by (simp add: length_filter_conv_card)
  qed
qed

lemma filter_split: "length (filter P xs) + length (filter (\<lambda>x. \<not> P x) xs) = length xs"
  by (induction xs) auto

lemma middle_follows_majority:
  assumes "length xs < 2 * length (filter (\<lambda>x. lo \<le> x \<and> x \<le> hi) xs)"
  shows "lo \<le> middle xs" and "middle xs \<le> hi"
proof -
  let ?ys = "sort xs" and ?m = "length xs div 2" and ?good = "length (filter (\<lambda>x. lo \<le> x \<and> x \<le> hi) xs)"
  have sort_filter: "length (filter P ?ys) = length (filter P xs)" for P
    by (metis filter_sort length_sort)
  have low: "length (filter (\<lambda>y. y < lo) xs) + ?good \<le> length xs"
    using filter_split[of "\<lambda>y. y < lo" xs] by (induction xs) auto
  have high: "length (filter (\<lambda>y. hi < y) xs) + ?good \<le> length xs"
    by (induction xs) auto
  have ne: "0 < length xs" using assms by (cases xs) auto
  have m: "?m < length ?ys" using ne by simp
  have at_m: "lo \<le> ?ys ! ?m" "?ys ! ?m \<le> hi"
    using sorted_bounds[OF sorted_sort m, of lo] sorted_bounds(2)[OF sorted_sort m, of hi] low high assms sort_filter by simp_all
  have before: "lo \<le> ?ys ! (?m - 1)" "?ys ! (?m - 1) \<le> hi" if "length xs mod 2 = 0"
  proof -
    have "?m - 1 < length ?ys" using m by simp
    then show "lo \<le> ?ys ! (?m - 1)" "?ys ! (?m - 1) \<le> hi"
      using sorted_bounds[OF sorted_sort, of "?m - 1" xs lo] sorted_bounds(2)[OF sorted_sort, of "?m - 1" xs hi] low high assms sort_filter that
      by simp_all presburger+
  qed
  show "lo \<le> middle xs" "middle xs \<le> hi"
    using at_m before by (auto simp: middle_def Let_def)
qed

subsection \<open>The stored aggregates\<close>

text \<open>What the recent values of a key agree on.\<close>

definition agreed :: "('a, 'c, 'w) oracle_state \<Rightarrow> 'c oracle_key \<Rightarrow> ufixed option" where
  "agreed s key = (if recent_values s key = [] then None else Some (middle (map raw_value (recent_values s key))))"

definition values_since :: "nat \<Rightarrow> ('a, 'c, 'w) oracle_state \<Rightarrow> 'c oracle_key \<Rightarrow> timestamped_value list" where
  "values_since t s key = filter (\<lambda>v. t \<le> timestamp v) (map snd (RawValues s key))"

lemma recent_since: "recent_values s key = values_since (oracle_now s - MaxDelay s) s key"
  by (simp add: recent_values_def values_since_def)

text \<open>The entries of a key are what an update at some time \<open>t\<close> has left.\<close>

definition updated_at :: "nat \<Rightarrow> ('a, 'c, 'w) oracle_state \<Rightarrow> 'c oracle_key \<Rightarrow> bool" where
  "updated_at t s key \<longleftrightarrow> (let vs = values_since (t - MaxDelay s) s key in
     if vs = [] then Aggregate s key = None \<and> ValidUntil s key = None
     else Aggregate s key = Some (middle (map raw_value vs)) \<and> ValidUntil s key = Some (Min (set (map timestamp vs)) + MaxDelay s))"

definition values_ok :: "('a, 'c, 'w) oracle_state \<Rightarrow> bool" where
  "values_ok s \<longleftrightarrow> oracle_now s + MaxDelay s < 2 ^ 64 \<and> distinct (map fst (RawValuesUpdated s))
     \<and> (\<forall>key. \<forall>v\<in>set (map snd (RawValues s key)). timestamp v \<le> oracle_now s \<and> raw_value v < 2 ^ 127)"

definition key_ok :: "('a, 'c, 'w) oracle_state \<Rightarrow> 'c oracle_key \<Rightarrow> bool" where
  "key_ok s key \<longleftrightarrow> (case map_of (RawValuesUpdated s) key of
       None \<Rightarrow> RawValues s key = [] \<and> Aggregate s key = None
     | Some True \<Rightarrow> True
     | Some False \<Rightarrow> \<exists>t\<le>oracle_now s. updated_at t s key)"

definition oracle_ok :: "('a, 'c, 'w) oracle_state \<Rightarrow> bool" where
  "oracle_ok s \<longleftrightarrow> values_ok s \<and> (\<forall>key. key_ok s key)"

text \<open>While the aggregate has not expired, the values it was made of are the recent ones.\<close>

lemma not_outdated:
  assumes "updated_at t s key" and "t \<le> oracle_now s" and "\<not> is_outdated s key (oracle_now s)"
  shows "Aggregate s key = agreed s key"
proof (cases "values_since (t - MaxDelay s) s key = []")
  case True
  then have "recent_values s key = []"
    using assms(2) by (auto simp: recent_since values_since_def filter_empty_conv)
  then show ?thesis using assms(1) True by (simp add: updated_at_def agreed_def)
next
  case False
  let ?vs = "values_since (t - MaxDelay s) s key"
  have agg: "Aggregate s key = Some (middle (map raw_value ?vs))" and "ValidUntil s key = Some (Min (set (map timestamp ?vs)) + MaxDelay s)"
    using assms(1) False by (simp_all add: updated_at_def Let_def)
  then have valid: "oracle_now s \<le> Min (timestamp ` set ?vs) + MaxDelay s" using assms(3) by (simp add: is_outdated_def)
  have old: "oracle_now s - MaxDelay s \<le> timestamp v" if "v \<in> set ?vs" for v
  proof -
    have "Min (timestamp ` set ?vs) \<le> timestamp v" using that by simp
    then show ?thesis using valid by linarith
  qed
  have "recent_values s key = ?vs"
    unfolding recent_since unfolding values_since_def
    by (rule filter_cong) (use old assms(2) in \<open>auto simp: values_since_def\<close>)
  then show ?thesis using agg False by (simp add: agreed_def)
qed

text \<open>What stays the same when only the keys in \<open>K\<close> are updated.\<close>

definition updates_only :: "'c oracle_key set \<Rightarrow> ('a, 'c, 'w) oracle_state \<Rightarrow> ('a, 'c, 'w) oracle_state \<Rightarrow> bool" where
  "updates_only K s s' \<longleftrightarrow> RawValues s' = RawValues s \<and> oracle_now s' = oracle_now s \<and> MaxDelay s' = MaxDelay s
     \<and> distinct (map fst (RawValuesUpdated s'))
     \<and> (\<forall>key. key \<notin> K \<longrightarrow> Aggregate s' key = Aggregate s key \<and> ValidUntil s' key = ValidUntil s key
           \<and> map_of (RawValuesUpdated s') key = map_of (RawValuesUpdated s) key)"

lemma updates_only_view:
  assumes "updates_only K s s'"
  shows "values_since t s' = values_since t s" and "recent_values s' = recent_values s" and "agreed s' = agreed s"
    and "key \<notin> K \<Longrightarrow> updated_at t s' key = updated_at t s key" and "key \<notin> K \<Longrightarrow> is_outdated s' key t = is_outdated s key t"
    and "key \<notin> K \<Longrightarrow> key_ok s' key = key_ok s key" and "values_ok s \<Longrightarrow> values_ok s'"
proof -
  note same = assms[unfolded updates_only_def]
  show since: "values_since t s' = values_since t s" for t using same by (simp add: values_since_def fun_eq_iff)
  show recent: "recent_values s' = recent_values s" using same since by (simp add: recent_since fun_eq_iff)
  show "agreed s' = agreed s" using recent by (simp add: agreed_def fun_eq_iff)
  show upd: "updated_at t s' key = updated_at t s key" if "key \<notin> K" for t using same that since by (simp add: updated_at_def)
  show "is_outdated s' key t = is_outdated s key t" if "key \<notin> K" using same that by (simp add: is_outdated_def)
  show "key_ok s' key = key_ok s key" if "key \<notin> K" using same that upd by (auto simp: key_ok_def split: option.splits bool.splits)
  show "values_ok s'" if "values_ok s" using same that by (simp add: values_ok_def)
qed

lemma rate_changed_fields:
  "RawValues (rate_changed C key s) = RawValues s" "oracle_now (rate_changed C key s) = oracle_now s"
  "MaxDelay (rate_changed C key s) = MaxDelay s" "RawValuesUpdated (rate_changed C key s) = RawValuesUpdated s"
  "Aggregate (rate_changed C key s) = Aggregate s" "ValidUntil (rate_changed C key s) = ValidUntil s"
  by (cases key; simp add: rate_changed_def)+

lemma update_aggregate_run:
  assumes "oracle_laws C" and ok: "values_ok s" and run: "update_aggregate C key s = (v, s')"
  shows "updates_only {key} s s'" and "updated_at (oracle_now s') s' key" and "map_of (RawValuesUpdated s') key = Some False"
proof -
  let ?s = "s\<lparr>RawValuesUpdated := AList.update key False (RawValuesUpdated s)\<rparr>" and ?vs = "recent_values s key"
  have recent: "recent_values ?s key = ?vs" by (simp add: recent_values_def)
  have "raw_value u < 2 ^ 127 \<and> timestamp u \<le> oracle_now s" if "u \<in> set ?vs" for u
    using that ok by (auto simp: recent_values_def values_ok_def)
  then have small: "\<forall>x\<in>set (map raw_value ?vs). x < 2 ^ 127" and ts: "\<forall>u\<in>set ?vs. timestamp u \<le> oracle_now s" by auto
  have fit: "(Min (timestamp ` set ?vs) + MaxDelay s) mod 2 ^ 64 = Min (timestamp ` set ?vs) + MaxDelay s" if ne: "?vs \<noteq> []"
  proof -
    have "Min (timestamp ` set ?vs) \<in> timestamp ` set ?vs" using ne by (intro Min_in) auto
    then have "Min (timestamp ` set ?vs) \<le> oracle_now s" using ts by auto
    then show ?thesis using ok by (intro mod_less) (simp add: values_ok_def)
  qed
  have run': "s' = (if ?vs = [] then rate_changed C key (?s\<lparr>Aggregate := (Aggregate s)(key := None), ValidUntil := (ValidUntil s)(key := None)\<rparr>)
      else rate_changed C key (?s\<lparr>Aggregate := (Aggregate s)(key \<mapsto> middle (map raw_value ?vs)),
             ValidUntil := (ValidUntil s)(key \<mapsto> Min (timestamp ` set ?vs) + MaxDelay s)\<rparr>))"
    using run median_middle[OF assms(1), of "map raw_value ?vs"] small fit unfolding update_aggregate_def Let_def recent
    by (auto split: if_splits)
  have fields: "RawValues s' = RawValues s" "oracle_now s' = oracle_now s" "MaxDelay s' = MaxDelay s"
    "RawValuesUpdated s' = AList.update key False (RawValuesUpdated s)"
    unfolding run' by (simp_all add: rate_changed_fields)
  show "updates_only {key} s s'"
    using ok unfolding updates_only_def fields
    by (auto simp: run' rate_changed_fields values_ok_def update_conv' distinct_update)
  show "map_of (RawValuesUpdated s') key = Some False" unfolding fields by (simp add: update_conv')
  have "values_since (oracle_now s' - MaxDelay s') s' key = ?vs" by (simp add: recent_since values_since_def fields)
  then show "updated_at (oracle_now s') s' key"
    unfolding updated_at_def by (auto simp: run' rate_changed_fields)
qed

lemma updates_only_trans: "updates_only K s s1 \<Longrightarrow> updates_only L s1 s' \<Longrightarrow> updates_only (K \<union> L) s s'"
  unfolding updates_only_def by simp

lemma updated_agreed: "updated_at (oracle_now s) s key \<Longrightarrow> Aggregate s key = agreed s key"
  by (simp add: updated_at_def agreed_def recent_since Let_def split: if_splits)

lemma update_loop_run:
  assumes "oracle_laws C" and "values_ok s" and "update_loop C (oracle_now s) items s = (out, s')" and "distinct (map fst items)"
    and "\<forall>(key, b)\<in>set items. map_of (RawValuesUpdated s) key = Some b \<and> key_ok s key"
  shows "updates_only (fst ` set items) s s'"
    and "\<forall>key\<in>fst ` set items. Aggregate s' key = agreed s' key \<and> key_ok s' key"
proof -
  have "updates_only (fst ` set items) s s' \<and> (\<forall>key\<in>fst ` set items. Aggregate s' key = agreed s' key \<and> key_ok s' key)"
    using assms(2-)
  proof (induction items arbitrary: s out)
    case Nil
    then show ?case by (auto simp: updates_only_def values_ok_def)
  next
    case (Cons item items)
    obtain key b where item: "item = (key, b)" by fastforce
    have flag: "map_of (RawValuesUpdated s) key = Some b" "key_ok s key" using Cons.prems(4) item by auto
    have rest: "distinct (map fst items)" "key \<notin> fst ` set items" using Cons.prems(3) item by auto
    show ?case
    proof (cases "b \<or> is_outdated s key (oracle_now s)")
      case True
      obtain v s1 where one: "update_aggregate C key s = (v, s1)" by fastforce
      note u = update_aggregate_run[OF assms(1) Cons.prems(1) one]
      note view = updates_only_view[OF u(1)]
      have now: "oracle_now s1 = oracle_now s" using u(1) by (simp add: updates_only_def)
      obtain out' where loop: "update_loop C (oracle_now s1) items s1 = (out', s')"
        using Cons.prems(2) True one now by (auto simp: item split: prod.splits)
      have "\<forall>(k, b)\<in>set items. map_of (RawValuesUpdated s1) k = Some b \<and> key_ok s1 k"
      proof clarify
        fix k b' assume k: "(k, b') \<in> set items"
        then have "k \<notin> {key}" using rest(2) by force
        then show "map_of (RawValuesUpdated s1) k = Some b' \<and> key_ok s1 k"
          using Cons.prems(4) k view(6) u(1) by (auto simp: updates_only_def)
      qed
      note IH = Cons.IH[OF view(7)[OF Cons.prems(1)] loop rest(1) this]
      then have "updates_only (fst ` set items) s1 s'" ..
      note view' = updates_only_view[OF this]
      have "Aggregate s1 key = agreed s1 key" by (rule updated_agreed[OF u(2)])
      moreover have "key_ok s1 key" using u(2,3) by (auto simp: key_ok_def)
      moreover have "Aggregate s' key = Aggregate s1 key" using IH rest(2) by (simp add: updates_only_def)
      ultimately have "Aggregate s' key = agreed s' key \<and> key_ok s' key" using view'(3) view'(6)[OF rest(2)] by simp
      then show ?thesis using IH updates_only_trans[OF u(1), of "fst ` set items" s'] by (simp add: item)
    next
      case False
      then have "update_loop C (oracle_now s) items s = (out, s')" using Cons.prems(2) by (simp add: item)
      note IH = Cons.IH[OF Cons.prems(1) this rest(1)]
      have IH: "updates_only (fst ` set items) s s'" "\<forall>key\<in>fst ` set items. Aggregate s' key = agreed s' key \<and> key_ok s' key"
        using IH Cons.prems(4) by auto
      note view' = updates_only_view[OF IH(1)]
      obtain t where "t \<le> oracle_now s" "updated_at t s key" using flag False by (auto simp: key_ok_def)
      then have "Aggregate s key = agreed s key" using not_outdated False by blast
      moreover have "Aggregate s' key = Aggregate s key" using IH(1) rest(2) by (simp add: updates_only_def)
      ultimately have "Aggregate s' key = agreed s' key \<and> key_ok s' key" using view'(3) view'(6)[OF rest(2)] flag(2) by simp
      then show ?thesis using IH updates_only_trans[of "{}" s s "fst ` set items" s'] Cons.prems(1)
        by (auto simp: item updates_only_def)
    qed
  qed
  then show "updates_only (fst ` set items) s s'" "\<forall>key\<in>fst ` set items. Aggregate s' key = agreed s' key \<and> key_ok s' key" by simp_all
qed

lemma event_views:
  "Aggregate (oracle_deposit_event e s) = Aggregate s" "agreed (oracle_deposit_event e s) = agreed s"
  "key_ok (oracle_deposit_event e s) = key_ok s" "values_ok (oracle_deposit_event e s) = values_ok s"
  "recent_values (oracle_deposit_event e s) = recent_values s"
proof -
  have "updated_at t (oracle_deposit_event e s) = updated_at t s" for t
    by (simp add: oracle_deposit_event_def updated_at_def values_since_def fun_eq_iff)
  then show "key_ok (oracle_deposit_event e s) = key_ok s"
    by (auto simp: key_ok_def oracle_deposit_event_def fun_eq_iff split: option.splits bool.splits)
qed (simp_all add: oracle_deposit_event_def agreed_def recent_values_def values_ok_def fun_eq_iff)

lemma begin_block_run:
  assumes "oracle_laws C" and "oracle_ok s" and "oracle_begin_block C s = (n, s')"
  shows "Aggregate s' = agreed s'" and "oracle_ok s'" and "recent_values s' = recent_values s"
proof -
  let ?items = "RawValuesUpdated s"
  obtain out s1 where loop: "update_loop C (oracle_now s) ?items s = (out, s1)" by fastforce
  have "s' = s1 \<or> (\<exists>e. s' = oracle_deposit_event e s1)"
    using assms(3) loop by (simp add: oracle_begin_block_def split: if_splits) blast+
  then have s': "Aggregate s' = Aggregate s1" "agreed s' = agreed s1" "key_ok s' = key_ok s1" "values_ok s' = values_ok s1"
    "recent_values s' = recent_values s1"
    using event_views by metis+
  have ok: "values_ok s" and keys: "key_ok s key" for key using assms(2) by (auto simp: oracle_ok_def)
  then have distinct: "distinct (map fst ?items)" by (simp add: values_ok_def)
  then have "\<forall>(key, b)\<in>set ?items. map_of (RawValuesUpdated s) key = Some b \<and> key_ok s key" using keys by auto
  note run = update_loop_run[OF assms(1) ok loop distinct this]
  note view = updates_only_view[OF run(1)]
  have "Aggregate s1 key = agreed s1 key \<and> key_ok s1 key" for key
  proof (cases "key \<in> fst ` set ?items")
    case False
    then have "map_of ?items key = None" by (simp add: map_of_eq_None_iff)
    then have "RawValues s key = []" "Aggregate s key = None" using keys[of key] by (simp_all add: key_ok_def)
    then have "Aggregate s key = agreed s key" by (simp add: agreed_def recent_values_def)
    moreover have "Aggregate s1 key = Aggregate s key" using run(1) False by (simp add: updates_only_def)
    ultimately show ?thesis using view(3) view(6)[OF False] keys by simp
  qed (use run(2) in blast)
  then show "Aggregate s' = agreed s'" "oracle_ok s'" using view(7)[OF ok] by (auto simp: s' oracle_ok_def)
  show "recent_values s' = recent_values s" using view(2) s'(5) by simp
qed

subsection \<open>Runs\<close>

inductive oracle_step :: "('c, 'w) oracle_config \<Rightarrow> ('a, 'c, 'w) oracle_state \<Rightarrow> ('a, 'c, 'w) oracle_state \<Rightarrow> bool" for C where
  feed: "feed_values origin vals s = Inr (u, s') \<Longrightarrow> \<forall>(key, v)\<in>set vals. v < 2 ^ 127 \<Longrightarrow> oracle_step C s s'"
| insert_oracle: "insert_authorized_oracle origin a name s = Inr (u, s') \<Longrightarrow> oracle_step C s s'"
| remove_oracle: "remove_authorized_oracle origin a s = Inr (u, s') \<Longrightarrow> oracle_step C s s'"
| next_block: "oracle_begin_block C s = (n, s') \<Longrightarrow> oracle_step C s s'"
| time: "oracle_now s \<le> t \<Longrightarrow> t + MaxDelay s < 2 ^ 64 \<Longrightarrow> oracle_step C s (s\<lparr>oracle_now := t, oracle_world := w\<rparr>)"

definition new_oracle :: "('a, 'c, 'w) oracle_state \<Rightarrow> bool" where
  "new_oracle s \<longleftrightarrow> RawValues s = (\<lambda>_. []) \<and> RawValuesUpdated s = [] \<and> Aggregate s = (\<lambda>_. None)
     \<and> oracle_now s + MaxDelay s < 2 ^ 64"

lemma new_oracle_ok: "new_oracle s \<Longrightarrow> oracle_ok s"
  by (simp add: new_oracle_def oracle_ok_def values_ok_def key_ok_def)

lemma update_values: "set (map snd (AList.update k v al)) \<subseteq> insert v (set (map snd al))"
  by (induction al) auto

lemma feed_loop_ok:
  assumes "oracle_ok s" and "\<forall>(key, v)\<in>set vals. v < 2 ^ 127"
  shows "oracle_ok (feed_loop a vals s)"
  using assms
proof (induction a vals s rule: feed_loop.induct)
  case (2 a key v vals s)
  let ?s = "s\<lparr>RawValues := (RawValues s)(key := AList.update a \<lparr>raw_value = v, timestamp = oracle_now s\<rparr> (RawValues s key)),
          RawValuesUpdated := AList.update key True (RawValuesUpdated s)\<rparr>"
  have entry: "u = \<lparr>raw_value = v, timestamp = oracle_now s\<rparr> \<or> u \<in> set (map snd (RawValues s k))"
    if "u \<in> set (map snd (RawValues ?s k))" for u k
    using that update_values[of a "\<lparr>raw_value = v, timestamp = oracle_now s\<rparr>" "RawValues s key"] by (auto split: if_splits)
  have "timestamp u \<le> oracle_now s \<and> raw_value u < 2 ^ 127" if "u \<in> set (map snd (RawValues ?s k))" for u k
    using entry[OF that] 2(2,3) by (auto simp: oracle_ok_def values_ok_def)
  then have "values_ok ?s"
    using 2(2) by (simp add: oracle_ok_def values_ok_def distinct_update)
  moreover have "key_ok ?s k" for k
  proof (cases "k = key")
    case False
    then have "updated_at t ?s k = updated_at t s k" for t by (simp add: updated_at_def values_since_def)
    moreover have "key_ok s k" using 2(2) by (simp add: oracle_ok_def)
    ultimately show ?thesis using False by (auto simp: key_ok_def update_conv' split: option.splits bool.splits)
  qed (simp add: key_ok_def update_conv')
  ultimately have "oracle_ok ?s" by (simp add: oracle_ok_def)
  then show ?case using 2(1,3) by simp
qed simp

lemma oracle_ok_cong:
  assumes "RawValues s' = RawValues s" and "RawValuesUpdated s' = RawValuesUpdated s" and "Aggregate s' = Aggregate s"
    and "ValidUntil s' = ValidUntil s" and "MaxDelay s' = MaxDelay s" and "oracle_now s \<le> oracle_now s'" and "oracle_now s' + MaxDelay s < 2 ^ 64"
    and "oracle_ok s"
  shows "oracle_ok s'"
proof -
  have "values_ok s'" using assms by (auto simp: oracle_ok_def values_ok_def intro: le_trans)
  moreover have "key_ok s' key" for key
  proof -
    have "updated_at t s' key = updated_at t s key" for t using assms(1-5) by (simp add: updated_at_def values_since_def)
    moreover have "key_ok s key" using assms(8) by (simp add: oracle_ok_def)
    ultimately show ?thesis using assms(1-3,6) by (auto simp: key_ok_def split: option.splits bool.splits intro: le_trans)
  qed
  ultimately show ?thesis by (simp add: oracle_ok_def)
qed

lemma oracle_step_ok:
  assumes "oracle_laws C" and "oracle_ok s" and "oracle_step C s s'"
  shows "oracle_ok s'"
  using assms(3)
proof cases
  case (feed origin vals u)
  then obtain a where s': "s' = oracle_deposit_event (FeedValues a vals) (feed_loop a vals s)"
    by (auto simp: feed_values_def feed_values_of_def rbind_Inr_iff split: if_splits)
  have "oracle_ok (feed_loop a vals s)" using feed_loop_ok[OF assms(2)] feed(2) by blast
  then show ?thesis
    unfolding s' by (simp add: oracle_ok_def event_views)
next
  case next_block
  then show ?thesis using begin_block_run(2)[OF assms(1,2)] by blast
next
  case (time t w)
  show ?thesis by (rule oracle_ok_cong[OF _ _ _ _ _ _ _ assms(2)]) (use time in simp_all)
next
  case insert_oracle
  then show ?thesis using assms(2)
    by (intro oracle_ok_cong[OF _ _ _ _ _ _ _ assms(2)])
      (auto simp: insert_authorized_oracle_def insert_oracle_def oracle_deposit_event_def rbind_Inr_iff oracle_ok_def values_ok_def)
next
  case remove_oracle
  then show ?thesis using assms(2)
    by (intro oracle_ok_cong[OF _ _ _ _ _ _ _ assms(2)])
      (auto simp: remove_authorized_oracle_def oracle_deposit_event_def rbind_Inr_iff oracle_ok_def values_ok_def)
qed

lemma oracle_run_ok:
  assumes "oracle_laws C" and "(oracle_step C)\<^sup>*\<^sup>* s s'" and "new_oracle s"
  shows "oracle_ok s'"
  using assms(2,3) by (induction rule: rtranclp_induct) (auto intro: new_oracle_ok oracle_step_ok[OF assms(1)])

subsection \<open>A sample oracle\<close>

definition sample_oracle_fixed :: ufixed_ops where
  "sample_oracle_fixed = \<lparr>multiply_by_rational_with_rounding =
       \<lambda>a b c r. if c = 0 \<or> 2 ^ 128 \<le> rounded_div (a * b) c r then None else Some (rounded_div (a * b) c r),
     uf_from_rational = \<lambda>a b. None,
     uf_checked_div = \<lambda>a b. if b = 0 \<or> 2 ^ 128 \<le> a * 10 ^ 18 div b then None else Some (a * 10 ^ 18 div b),
     uf_checked_mul_int = \<lambda>a n. None, uf_checked_from_integer = \<lambda>n. None, uf_DIV = 10 ^ 18\<rparr>"

definition sample_oracle_config :: "(nat, unit) oracle_config" where
  "sample_oracle_config = \<lparr>oc_fixed = sample_oracle_fixed, oc_checked_add = checked_add_w 128, oc_from = \<lambda>n. n * 10 ^ 18,
     oc_wrapped = 0, oc_on_exchange_rate_change = \<lambda>_ w. w\<rparr>"

lemma sample_oracle_laws: "oracle_laws sample_oracle_config"
proof -
  have "a * 10 ^ 18 div (2 * 10 ^ 18) = a div 2" for a :: nat by (simp add: mult.commute[of a] div_mult2_eq)
  then show ?thesis
    by (auto simp: oracle_laws_def sample_oracle_config_def sample_oracle_fixed_def ufixed_laws_def checked_add_w_def)
qed

definition sample_new_oracle :: "(nat, nat, unit) oracle_state" where
  "sample_new_oracle = \<lparr>Aggregate = \<lambda>_. None, RawValues = \<lambda>_. [], RawValuesUpdated = [], ValidUntil = \<lambda>_. None, MaxDelay = 100,
     AuthorizedOracles = (\<lambda>a. if a < 3 then Some [] else None), oracle_events = [], oracle_now = 1000, oracle_world = ()\<rparr>"

text \<open>Three accounts feed a rate, the last of them a value that is far off.\<close>

definition sample_fed :: "(nat, nat, unit) oracle_state" where
  "sample_fed = feed_values_of 2 [(ExchangeRate 1, 900 * 10 ^ 18)] (feed_values_of 1 [(ExchangeRate 1, 6 * 10 ^ 18)]
     (feed_values_of 0 [(ExchangeRate 1, 5 * 10 ^ 18)] sample_new_oracle))"

lemma sample_oracle_run: "new_oracle sample_new_oracle" "(oracle_step sample_oracle_config)\<^sup>*\<^sup>* sample_new_oracle sample_fed"
proof -
  show "new_oracle sample_new_oracle" by (simp add: new_oracle_def sample_new_oracle_def)
  have feed: "oracle_step sample_oracle_config s (feed_values_of a [(ExchangeRate 1, n)] s)"
    if "AuthorizedOracles s a \<noteq> None" and "n < 2 ^ 127" for s :: "(nat, nat, unit) oracle_state" and a n
    by (rule oracle_step.feed[of "SignedOrigin a" "[(ExchangeRate 1, n)]" _ "()"]) (use that in \<open>auto simp: feed_values_def is_authorized_def\<close>)
  have auth: "AuthorizedOracles (feed_values_of a [(k, n)] s) = AuthorizedOracles s" for a k n and s :: "(nat, nat, unit) oracle_state"
    by (simp add: feed_values_of_def oracle_deposit_event_def)
  let ?s1 = "feed_values_of 0 [(ExchangeRate 1, 5 * 10 ^ 18)] sample_new_oracle"
  let ?s2 = "feed_values_of 1 [(ExchangeRate 1, 6 * 10 ^ 18)] ?s1"
  have "oracle_step sample_oracle_config sample_new_oracle ?s1" by (rule feed) (simp_all add: sample_new_oracle_def)
  moreover have "oracle_step sample_oracle_config ?s1 ?s2" by (rule feed) (simp_all add: auth sample_new_oracle_def)
  moreover have "oracle_step sample_oracle_config ?s2 sample_fed"
    unfolding sample_fed_def by (rule feed) (simp_all add: auth sample_new_oracle_def)
  ultimately show "(oracle_step sample_oracle_config)\<^sup>*\<^sup>* sample_new_oracle sample_fed"
    by (meson r_into_rtranclp rtranclp_trans)
qed

text \<open>A block later, when one unit of the wrapped currency is worth one and a half.\<close>

definition sample_priced :: "(nat, nat, unit) oracle_state" where
  "sample_priced = sample_new_oracle\<lparr>Aggregate := [ExchangeRate 1 \<mapsto> 15 * 10 ^ 17]\<rparr>"

lemmas sample_oracle_eval = sample_priced_def sample_new_oracle_def sample_oracle_config_def sample_oracle_fixed_def
  oracle_convert_def wrapped_to_collateral_def collateral_to_wrapped_def get_price_def am_checked_mul_def am_checked_div_def
  am_checked_rounded_mul_def ok_or_def to_u128_def rounded_div_def rbind_Inr_iff

subsection \<open>Properties\<close>

text \<open>
  C18: The aggregates are the medians of the recent values. At the start of every block of any run in which the values fed are
  below half of the range, the aggregate of every key is the median of the values that were reported for it within the maximal
  delay, and there is none when there are no such values: it is enough to recompute the keys that were fed and those whose
  aggregate has expired.
\<close>

theorem aggregates_are_medians:
  assumes "oracle_laws C" and "new_oracle s0" and "(oracle_step C)\<^sup>*\<^sup>* s0 s" and "oracle_begin_block C s = (n, s')"
  shows "Aggregate s' key = (if recent_values s' key = [] then None else Some (middle (map raw_value (recent_values s' key))))"
proof -
  have "Aggregate s' = agreed s'" by (rule begin_block_run(1)[OF assms(1) oracle_run_ok[OF assms(1,3,2)] assms(4)])
  then show ?thesis by (simp add: agreed_def)
qed

theorem aggregates_are_medians_witness:
  "Aggregate (snd (oracle_begin_block sample_oracle_config sample_fed)) (ExchangeRate 1) = Some (6 * 10 ^ 18)"
proof -
  obtain n s' where run: "oracle_begin_block sample_oracle_config sample_fed = (n, s')" by fastforce
  have "map raw_value (recent_values sample_fed (ExchangeRate 1)) = [5 * 10 ^ 18, 6 * 10 ^ 18, 900 * 10 ^ 18]"
    by (simp add: recent_values_def sample_fed_def feed_values_of_def oracle_deposit_event_def sample_new_oracle_def)
  moreover have "recent_values s' = recent_values sample_fed"
    by (rule begin_block_run(3)[OF sample_oracle_laws oracle_run_ok[OF sample_oracle_laws sample_oracle_run(2,1)] run])
  ultimately show ?thesis
    using aggregates_are_medians[OF sample_oracle_laws sample_oracle_run run, of "ExchangeRate 1"] run by (auto simp: middle_def)
qed

text \<open>
  C19: A median follows the majority. When more than half of a list of values lie in an interval, so does the aggregate computed of
  them: fewer than half of the oracles cannot move a rate out of the range of the others.
\<close>

theorem median_follows_majority:
  assumes "oracle_laws C" and "\<forall>x\<in>set xs. x < 2 ^ 127" and "length xs < 2 * length (filter (\<lambda>x. lo \<le> x \<and> x \<le> hi) xs)"
  shows "\<exists>m. median C xs = Some m \<and> lo \<le> m \<and> m \<le> hi"
proof -
  have "xs \<noteq> []" using assms(3) by auto
  then show ?thesis using median_middle[OF assms(1) _ assms(2)] middle_follows_majority[OF assms(3)] by simp
qed

theorem median_follows_majority_witness:
  "\<exists>m. median sample_oracle_config [900, 5, 6, 0, 7] = Some m \<and> 5 \<le> m \<and> m \<le> 7"
  by (rule median_follows_majority[OF sample_oracle_laws]) simp_all

text \<open>
  C20: Converting forth and back gains nothing: an amount of the wrapped currency that is converted to a collateral currency and
  back at the same rate is at most what it was.
\<close>

theorem conversion_gains_nothing:
  assumes "oracle_laws C" and "cur a = oc_wrapped C" and "oracle_convert C s a c = Inr b" and "oracle_convert C s b (oc_wrapped C) = Inr a'"
  shows "amt a' \<le> amt a"
proof (cases "c = oc_wrapped C")
  case True
  then show ?thesis using assms(2-4) by (auto simp: oracle_convert_def)
next
  case False
  let ?D = "uf_DIV (oc_fixed C)"
  have U: "multiply_by_rational_with_rounding (oc_fixed C) x y z Down =
      (if z = 0 \<or> 2 ^ 128 \<le> x * y div z then None else Some (x * y div z))" "0 < ?D" for x y z
    using assms(1) by (simp_all add: oracle_laws_def ufixed_laws_def rounded_div_def)
  obtain rate where rate: "get_price s (ExchangeRate c) = Inr rate" and b: "amt b = amt a * rate div ?D" "cur b = c"
    using assms(2,3) False
    by (auto simp: oracle_convert_def wrapped_to_collateral_def am_checked_mul_def am_checked_rounded_mul_def rbind_Inr_iff ok_or_Inr to_u128_def U
        split: if_splits)
  have "amt a' = (if amt b = 0 then 0 else amt b * ?D div rate)" and r: "amt b \<noteq> 0 \<Longrightarrow> rate \<noteq> 0"
    using assms(4) False rate b(2)
    by (auto simp: oracle_convert_def collateral_to_wrapped_def am_checked_div_def rbind_Inr_iff ok_or_Inr to_u128_def U split: if_splits)
  moreover have "amt b * ?D div rate \<le> amt a" if "rate \<noteq> 0"
  proof -
    have "amt b * ?D \<le> amt a * rate" unfolding b(1) by simp
    then have "amt b * ?D div rate \<le> amt a * rate div rate" by (rule div_le_mono)
    then show ?thesis using that by simp
  qed
  ultimately show ?thesis by (cases "amt b = 0") auto
qed

theorem conversion_gains_nothing_witness:
  "\<exists>b a'. oracle_convert sample_oracle_config sample_priced (Amount 1000 0) 1 = Inr b
     \<and> oracle_convert sample_oracle_config sample_priced b 0 = Inr a' \<and> amt a' \<le> 1000"
proof -
  have forth: "oracle_convert sample_oracle_config sample_priced (Amount 1000 0) 1 = Inr (Amount 1500 1)"
    and home: "oracle_convert sample_oracle_config sample_priced (Amount 1500 1) (oc_wrapped sample_oracle_config) = Inr (Amount 1000 0)"
    by (simp_all add: sample_oracle_eval)
  have "amt (Amount 1000 (0 :: nat)) \<le> amt (Amount 1000 (0 :: nat))"
    by (rule conversion_gains_nothing[OF sample_oracle_laws _ forth home]) (simp add: sample_oracle_config_def)
  then show ?thesis using forth home by (simp add: sample_oracle_config_def)
qed

end
