(* ===== verification/Currency_Id.thy ===== *)
theory Currency_Id
  imports Prelude "HOL-Library.List_Lexorder"
begin

text \<open>
  The identifiers of currencies (\<^verbatim>\<open>src/primitives/src/lib.rs\<close>): native tokens with their names and decimals, foreign
  assets, lending tokens and the liquidity tokens of the two exchanges. Identifiers of assets and pools are natural numbers.

  Both enumerations derive their order from the order of the variants and of the fields: it is the lexicographic order of
  the numbers in \<open>lp_rank\<close> and \<open>currency_rank\<close>.
\<close>

subsection \<open>Tokens\<close>

datatype token_symbol = DOT | IBTC | INTR | KSM | KBTC | KINT

fun token_number :: "token_symbol \<Rightarrow> nat" where
  "token_number DOT = 0"
| "token_number IBTC = 1"
| "token_number INTR = 2"
| "token_number KSM = 10"
| "token_number KBTC = 11"
| "token_number KINT = 12"

definition token_of_number :: "nat \<Rightarrow> token_symbol option" where
  "token_of_number v =
     (if v = 0 then Some DOT else if v = 1 then Some IBTC else if v = 2 then Some INTR
      else if v = 10 then Some KSM else if v = 11 then Some KBTC else if v = 12 then Some KINT else None)"

fun token_decimals :: "token_symbol \<Rightarrow> nat" where
  "token_decimals DOT = 10"
| "token_decimals IBTC = 8"
| "token_decimals INTR = 10"
| "token_decimals KSM = 12"
| "token_decimals KBTC = 8"
| "token_decimals KINT = 12"

definition token_one :: "token_symbol \<Rightarrow> nat" where
  "token_one t = 10 ^ token_decimals t"

fun token_name :: "token_symbol \<Rightarrow> string" where
  "token_name DOT = ''Polkadot''"
| "token_name IBTC = ''interBTC''"
| "token_name INTR = ''Interlay''"
| "token_name KSM = ''Kusama''"
| "token_name KBTC = ''kBTC''"
| "token_name KINT = ''Kintsugi''"

fun token_name_of_symbol :: "token_symbol \<Rightarrow> string" where
  "token_name_of_symbol DOT = ''DOT''"
| "token_name_of_symbol IBTC = ''IBTC''"
| "token_name_of_symbol INTR = ''INTR''"
| "token_name_of_symbol KSM = ''KSM''"
| "token_name_of_symbol KBTC = ''KBTC''"
| "token_name_of_symbol KINT = ''KINT''"

definition token_of_symbol :: "string \<Rightarrow> token_symbol option" where
  "token_of_symbol v = find (\<lambda>t. token_name_of_symbol t = v) [DOT, IBTC, INTR, KSM, KBTC, KINT]"

definition token_info :: "(string \<times> nat) list" where
  "token_info = map (\<lambda>t. (token_name_of_symbol t, token_decimals t)) [DOT, IBTC, INTR, KSM, KBTC, KINT]"

lemma token_of_number_iff: "token_of_number v = Some t \<longleftrightarrow> v = token_number t"
  by (cases t) (auto simp: token_of_number_def)

lemma token_of_symbol_iff: "token_of_symbol v = Some t \<longleftrightarrow> v = token_name_of_symbol t"
  by (cases t) (auto simp: token_of_symbol_def)

lemma token_number_inj [simp]: "token_number t = token_number u \<longleftrightarrow> t = u"
  by (cases t; cases u) simp_all

subsection \<open>Currencies\<close>

datatype lp_token =
    Lp_Token token_symbol
  | Lp_ForeignAsset nat
  | Lp_StableLpToken nat

datatype currency_id =
    Token token_symbol
  | ForeignAsset nat
  | LendToken nat
  | LpToken lp_token lp_token
  | StableLpToken nat

fun lp_rank :: "lp_token \<Rightarrow> nat list" where
  "lp_rank (Lp_Token t) = [0, token_number t]"
| "lp_rank (Lp_ForeignAsset n) = [1, n]"
| "lp_rank (Lp_StableLpToken n) = [2, n]"

fun currency_rank :: "currency_id \<Rightarrow> nat list" where
  "currency_rank (Token t) = [0, token_number t]"
| "currency_rank (ForeignAsset n) = [1, n]"
| "currency_rank (LendToken n) = [2, n]"
| "currency_rank (LpToken x y) = 3 # lp_rank x @ lp_rank y"
| "currency_rank (StableLpToken n) = [4, n]"

lemma lp_rank_inj [simp]: "lp_rank x = lp_rank y \<longleftrightarrow> x = y"
  by (cases x; cases y) auto

lemma length_lp_rank [simp]: "length (lp_rank x) = 2"
  by (cases x) simp_all

lemma currency_rank_inj [simp]: "currency_rank x = currency_rank y \<longleftrightarrow> x = y"
  by (cases x; cases y) (auto simp: append_eq_append_conv)

instantiation lp_token :: linorder
begin

definition less_eq_lp_token :: "lp_token \<Rightarrow> lp_token \<Rightarrow> bool" where
  "less_eq_lp_token x y \<longleftrightarrow> lp_rank x \<le> lp_rank y"

definition less_lp_token :: "lp_token \<Rightarrow> lp_token \<Rightarrow> bool" where
  "less_lp_token x y \<longleftrightarrow> lp_rank x < lp_rank y"

instance
  by standard (auto simp: less_eq_lp_token_def less_lp_token_def less_le_not_le dest: antisym)

end

instantiation currency_id :: linorder
begin

definition less_eq_currency_id :: "currency_id \<Rightarrow> currency_id \<Rightarrow> bool" where
  "less_eq_currency_id x y \<longleftrightarrow> currency_rank x \<le> currency_rank y"

definition less_currency_id :: "currency_id \<Rightarrow> currency_id \<Rightarrow> bool" where
  "less_currency_id x y \<longleftrightarrow> currency_rank x < currency_rank y"

instance
  by standard (auto simp: less_eq_currency_id_def less_currency_id_def less_le_not_le dest: antisym)

end

fun sort_currency :: "currency_id \<Rightarrow> currency_id" where
  "sort_currency (LpToken x y) = (if x > y then LpToken y x else LpToken x y)"
| "sort_currency c = c"

fun is_lend_token :: "currency_id \<Rightarrow> bool" where
  "is_lend_token (LendToken n) = True"
| "is_lend_token c = False"

fun lp_token_of :: "currency_id \<Rightarrow> lp_token option" where
  "lp_token_of (Token symbol) = Some (Lp_Token symbol)"
| "lp_token_of (ForeignAsset foreign_asset_id) = Some (Lp_ForeignAsset foreign_asset_id)"
| "lp_token_of (StableLpToken stable_pool_id) = Some (Lp_StableLpToken stable_pool_id)"
| "lp_token_of c = None"

definition join_lp_token :: "currency_id \<Rightarrow> currency_id \<Rightarrow> currency_id option" where
  "join_lp_token currency_id_0 currency_id_1 =
     (case lp_token_of currency_id_0 of
        None \<Rightarrow> None
      | Some lp_token_0 \<Rightarrow>
          (case lp_token_of currency_id_1 of None \<Rightarrow> None | Some lp_token_1 \<Rightarrow> Some (LpToken lp_token_0 lp_token_1)))"

fun is_lp_token :: "currency_id \<Rightarrow> bool" where
  "is_lp_token (Token t) = True"
| "is_lp_token (ForeignAsset n) = True"
| "is_lp_token (StableLpToken n) = True"
| "is_lp_token c = False"

fun currency_of_lp :: "lp_token \<Rightarrow> currency_id" where
  "currency_of_lp (Lp_Token token) = Token token"
| "currency_of_lp (Lp_ForeignAsset foreign_asset_id) = ForeignAsset foreign_asset_id"
| "currency_of_lp (Lp_StableLpToken stable_pool_id) = StableLpToken stable_pool_id"

text \<open>A pair of currencies has one liquidity token, in whatever order they are named.\<close>

lemma lp_token_of_iff: "lp_token_of c = Some x \<longleftrightarrow> c = currency_of_lp x"
  by (cases c; cases x) auto

lemma lp_token_of_currency [simp]: "lp_token_of (currency_of_lp x) = Some x"
  by (cases x) simp_all

lemma is_lp_token_iff: "is_lp_token c \<longleftrightarrow> (\<exists>x. c = currency_of_lp x)"
  using lp_token_of_iff[of c] by (cases c) force+

lemma sort_currency_idem [simp]: "sort_currency (sort_currency c) = sort_currency c"
  by (cases c) auto

lemma join_lp_token_sym: "map_option sort_currency (join_lp_token c d) = map_option sort_currency (join_lp_token d c)"
  by (auto simp: join_lp_token_def split: option.splits)

lemma join_lp_token_iff: "join_lp_token c d = Some e \<longleftrightarrow> (\<exists>x y. c = currency_of_lp x \<and> d = currency_of_lp y \<and> e = LpToken x y)"
proof
  assume "join_lp_token c d = Some e"
  then show "\<exists>x y. c = currency_of_lp x \<and> d = currency_of_lp y \<and> e = LpToken x y"
    by (auto simp: join_lp_token_def lp_token_of_iff split: option.splits)
qed (auto simp: join_lp_token_def)

end
