(* ===== verification/Farming.thy ===== *)
theory Farming
  imports Currency_Id Multi_Currency Reward "HOL-Library.AList"
begin

text \<open>
  The farming pallet (\<^verbatim>\<open>src/crates/farming/src/lib.rs\<close>): the treasury funds schedules of rewards for the stakers of a
  liquidity token, and at every period a hook distributes the next amount of each schedule to the reward pool of the token.

  The pools are those of the reward pallet, with the liquidity token as the identifier of the pool. The ledger is outside
  the repository; it is \<open>multi_currency\<close> with the reservations of \<^verbatim>\<open>MultiReservableCurrency\<close>. The schedules are the list of
  the entries of the storage map, in the order in which the hook meets them.
\<close>

subsection \<open>Reservations\<close>

record ('a, 'c, 'x) reservable_currency = "('a, 'c, 'x) multi_currency" +
  mc_reserved_balance :: "'x \<Rightarrow> 'c \<Rightarrow> 'a \<Rightarrow> nat"
  mc_reserve :: "'c \<Rightarrow> 'a \<Rightarrow> nat \<Rightarrow> ('x, dispatch_error, unit) action"
  mc_unreserve :: "'c \<Rightarrow> 'a \<Rightarrow> nat \<Rightarrow> 'x \<Rightarrow> nat \<times> 'x"

text \<open>
  The documented behaviour: \<^verbatim>\<open>reserve\<close> moves the amount from the free to the reserved balance or fails, \<^verbatim>\<open>unreserve\<close>
  moves as much of the amount back as there is and returns the rest, and the other calls leave reserved balances alone.
\<close>

definition change_balance :: "'c \<Rightarrow> 'a \<Rightarrow> nat \<Rightarrow> ('c \<Rightarrow> 'a \<Rightarrow> nat) \<Rightarrow> 'c \<Rightarrow> 'a \<Rightarrow> nat" where
  "change_balance c a n f = f(c := (f c)(a := n))"

definition reserve_laws :: "('a, 'c, 'x, 'z) reservable_currency_scheme \<Rightarrow> bool" where
  "reserve_laws M \<longleftrightarrow>
     (\<forall>c a b n x u x'. mc_transfer M c a b n x = Inr (u, x') \<longrightarrow>
        (a \<noteq> b \<longrightarrow> n \<le> mc_free_balance M x c a)
        \<and> mc_free_balance M x' = balances_moved c a b n (mc_free_balance M x)
        \<and> mc_reserved_balance M x' = mc_reserved_balance M x)
   \<and> (\<forall>c a n x u x'. mc_reserve M c a n x = Inr (u, x') \<longrightarrow>
        n \<le> mc_free_balance M x c a
        \<and> mc_free_balance M x' = change_balance c a (mc_free_balance M x c a - n) (mc_free_balance M x)
        \<and> mc_reserved_balance M x' = change_balance c a (mc_reserved_balance M x c a + n) (mc_reserved_balance M x))
   \<and> (\<forall>c a n x r x'. mc_unreserve M c a n x = (r, x') \<longrightarrow>
        r = n - mc_reserved_balance M x c a
        \<and> mc_free_balance M x' = change_balance c a (mc_free_balance M x c a + (n - r)) (mc_free_balance M x)
        \<and> mc_reserved_balance M x' = change_balance c a (mc_reserved_balance M x c a - (n - r)) (mc_reserved_balance M x))"

subsection \<open>Storage\<close>

record reward_schedule =
  period_count :: nat
  per_period :: nat

definition schedule_total :: "reward_schedule \<Rightarrow> nat option" where
  "schedule_total s = checked_mul_w 128 (per_period s) (period_count s)"

definition schedule_take :: "reward_schedule \<Rightarrow> nat option \<times> reward_schedule" where
  "schedule_take s =
     (if period_count s > 0 then (Some (per_period s), s\<lparr>period_count := period_count s - 1\<rparr>) else (None, s))"

datatype 'a farming_event =
    RewardScheduleUpdated currency_id currency_id nat nat
  | RewardDistributed currency_id currency_id nat
  | RewardClaimed 'a currency_id currency_id nat

text \<open>The errors of the calls are those of the ledger and the pallet and those of the reward pools.\<close>

datatype farming_failure = Dispatched dispatch_error | Rewarded reward_error

record ('a, 'x) farming_state =
  RewardSchedules :: "((currency_id \<times> currency_id) \<times> reward_schedule) list"
  farming_pools :: "(currency_id, 'a, currency_id) reward_pool"
  farming_ledger :: 'x
  farming_events :: "'a farming_event list"

record ('a, 'x) farming_config =
  fc_ledger :: "('a, currency_id, 'x) reservable_currency"
  fc_fixed :: fixed_point
  fc_max_currencies :: nat
  fc_treasury :: 'a
  fc_reward_period :: nat
  fc_pool_account :: "currency_id \<Rightarrow> 'a"

type_synonym ('a, 'x, 'r) farming_action = "(('a, 'x) farming_state, farming_failure, 'r) action"

definition reward_schedules :: "('a, 'x) farming_state \<Rightarrow> currency_id \<Rightarrow> currency_id \<Rightarrow> reward_schedule" where
  "reward_schedules s pool_currency_id reward_currency_id =
     (case map_of (RewardSchedules s) (pool_currency_id, reward_currency_id) of
        Some r \<Rightarrow> r | None \<Rightarrow> \<lparr>period_count = 0, per_period = 0\<rparr>)"

definition insert_schedule :: "currency_id \<Rightarrow> currency_id \<Rightarrow> reward_schedule \<Rightarrow> ('a, 'x) farming_state \<Rightarrow> ('a, 'x) farming_state" where
  "insert_schedule p c r s = s\<lparr>RewardSchedules := AList.update (p, c) r (RewardSchedules s)\<rparr>"

definition remove_schedule :: "currency_id \<Rightarrow> currency_id \<Rightarrow> ('a, 'x) farming_state \<Rightarrow> ('a, 'x) farming_state" where
  "remove_schedule p c s = s\<lparr>RewardSchedules := AList.delete (p, c) (RewardSchedules s)\<rparr>"

definition farming_deposit_event :: "'a farming_event \<Rightarrow> ('a, 'x) farming_state \<Rightarrow> ('a, 'x) farming_state" where
  "farming_deposit_event e s = s\<lparr>farming_events := farming_events s @ [e]\<rparr>"

text \<open>Calls to the ledger and to the reward pools.\<close>

definition on_farming_ledger :: "('x, dispatch_error, 'r) action \<Rightarrow> ('a, 'x, 'r) farming_action" where
  "on_farming_ledger m = szoom farming_ledger (\<lambda>x s. s\<lparr>farming_ledger := x\<rparr>) (\<lambda>x. map_err Dispatched (m x))"

definition on_pools :: "(currency_id, 'a, currency_id, 'r) reward_action \<Rightarrow> ('a, 'x, 'r) farming_action" where
  "on_pools m = szoom farming_pools (\<lambda>p s. s\<lparr>farming_pools := p\<rparr>) (\<lambda>p. map_err Rewarded (m p))"

definition farming_free_balance :: "('a, 'x) farming_config \<Rightarrow> ('a, 'x) farming_state \<Rightarrow> currency_id \<Rightarrow> 'a \<Rightarrow> nat" where
  "farming_free_balance C s c a = mc_free_balance (fc_ledger C) (farming_ledger s) c a"

subsection \<open>The hook\<close>

definition try_distribute_reward :: "('a, 'x) farming_config \<Rightarrow> currency_id \<Rightarrow> currency_id \<Rightarrow> nat \<Rightarrow> ('a, 'x, unit) farming_action" where
  "try_distribute_reward C pool_currency_id reward_currency_id amount =
     on_pools (api_distribute_reward (fc_fixed C) (fc_max_currencies C) pool_currency_id reward_currency_id amount)"

text \<open>An error of the distribution is dropped, and with it what the distribution has written.\<close>

fun schedule_loop ::
  "('a, 'x) farming_config \<Rightarrow> ((currency_id \<times> currency_id) \<times> reward_schedule) list \<Rightarrow> nat \<Rightarrow> ('a, 'x, nat) farming_action" where
  "schedule_loop C [] count = sret count"
| "schedule_loop C (((pool_currency_id, reward_currency_id), reward_schedule) # schedules) count =
     (case schedule_take reward_schedule of
        (Some amount, reward_schedule) \<Rightarrow>
          (\<lambda>s. case try_distribute_reward C pool_currency_id reward_currency_id amount s of
             Inr (_, s) \<Rightarrow>
               schedule_loop C schedules (saturating_add_w 32 count 1)
                 (farming_deposit_event (RewardDistributed pool_currency_id reward_currency_id amount)
                    (insert_schedule pool_currency_id reward_currency_id reward_schedule s))
           | Inl (Err _) \<Rightarrow> schedule_loop C schedules count s
           | Inl e \<Rightarrow> Inl e)
      | (None, reward_schedule) \<Rightarrow>
          (\<lambda>s. schedule_loop C schedules count (remove_schedule pool_currency_id reward_currency_id s)))"

text \<open>The remainder by a period of zero panics.\<close>

definition farming_on_initialize :: "('a, 'x) farming_config \<Rightarrow> nat \<Rightarrow> ('a, 'x, nat) farming_action" where
  "farming_on_initialize C now =
     (if fc_reward_period C = 0 then (\<lambda>s. Inl Panic)
      else if now mod fc_reward_period C = 0 then (\<lambda>s. schedule_loop C (RewardSchedules s) 0 s)
      else sret 0)"

subsection \<open>Dispatchables\<close>

definition lift_dispatch :: "(dispatch_error, 'r) result \<Rightarrow> ('a, 'x, 'r) farming_action" where
  "lift_dispatch r = slift (\<lambda>_. map_err Dispatched r)"

definition update_reward_schedule ::
  "('a, 'x) farming_config \<Rightarrow> 'a origin \<Rightarrow> currency_id \<Rightarrow> currency_id \<Rightarrow> nat \<Rightarrow> nat \<Rightarrow> ('a, 'x, unit) farming_action" where
  "update_reward_schedule C origin pool_currency_id reward_currency_id periods amount =
     sbind (lift_dispatch (ensure_root origin)) (\<lambda>_.
     let pool_currency_id = sort_currency pool_currency_id;
         treasury_account_id = fc_treasury C;
         pool_account_id = fc_pool_account C pool_currency_id in
     sbind (on_farming_ledger (mc_transfer (fc_ledger C) reward_currency_id treasury_account_id pool_account_id amount)) (\<lambda>_.
     sbind (sget (\<lambda>s. reward_schedules s pool_currency_id reward_currency_id)) (\<lambda>reward_schedule.
     sbind (lift_dispatch (ok_or (checked_add_w 32 (period_count reward_schedule) periods) (ArithmeticError Overflow))) (\<lambda>total_period_count.
     sbind (sget (\<lambda>s. farming_free_balance C s reward_currency_id pool_account_id)) (\<lambda>total_free.
     let total_per_period = (case checked_div total_free total_period_count of Some n \<Rightarrow> n | None \<Rightarrow> 0) in
     sbind (smod (farming_deposit_event (RewardScheduleUpdated pool_currency_id reward_currency_id total_period_count total_per_period))) (\<lambda>_.
     smod (insert_schedule pool_currency_id reward_currency_id
       \<lparr>period_count = total_period_count, per_period = total_per_period\<rparr>)))))))"

definition remove_reward_schedule ::
  "('a, 'x) farming_config \<Rightarrow> 'a origin \<Rightarrow> currency_id \<Rightarrow> currency_id \<Rightarrow> ('a, 'x, unit) farming_action" where
  "remove_reward_schedule C origin pool_currency_id reward_currency_id =
     sbind (lift_dispatch (ensure_root origin)) (\<lambda>_.
     let pool_currency_id = sort_currency pool_currency_id;
         treasury_account_id = fc_treasury C;
         pool_account_id = fc_pool_account C pool_currency_id in
     sbind (sget (\<lambda>s. farming_free_balance C s reward_currency_id pool_account_id)) (\<lambda>free_balance.
     sbind (on_farming_ledger (mc_transfer (fc_ledger C) reward_currency_id pool_account_id treasury_account_id free_balance)) (\<lambda>_.
     sbind (smod (remove_schedule pool_currency_id reward_currency_id)) (\<lambda>_.
     smod (farming_deposit_event (RewardScheduleUpdated pool_currency_id reward_currency_id 0 0))))))"

definition farming_deposit :: "('a, 'x) farming_config \<Rightarrow> 'a origin \<Rightarrow> currency_id \<Rightarrow> nat \<Rightarrow> ('a, 'x, unit) farming_action" where
  "farming_deposit C origin pool_currency_id length_rewards =
     sbind (lift_dispatch (ensure_signed origin)) (\<lambda>who.
     let pool_currency_id = sort_currency pool_currency_id in
     sbind (sensure (\<lambda>s. length_rewards \<ge> api_reward_currencies_len (farming_pools s) pool_currency_id)
       (Dispatched (FarmingError Farming_BadRewardLength))) (\<lambda>_.
     sbind (sget (\<lambda>s. farming_free_balance C s pool_currency_id who)) (\<lambda>amount.
     sbind (on_farming_ledger (mc_reserve (fc_ledger C) pool_currency_id who amount)) (\<lambda>_.
     on_pools (api_deposit_stake (fc_fixed C) pool_currency_id who amount)))))"

definition farming_withdraw ::
  "('a, 'x) farming_config \<Rightarrow> 'a origin \<Rightarrow> currency_id \<Rightarrow> nat \<Rightarrow> nat \<Rightarrow> ('a, 'x, unit) farming_action" where
  "farming_withdraw C origin pool_currency_id amount length_rewards =
     sbind (lift_dispatch (ensure_signed origin)) (\<lambda>who.
     let pool_currency_id = sort_currency pool_currency_id in
     sbind (sensure (\<lambda>s. length_rewards \<ge> api_reward_currencies_len (farming_pools s) pool_currency_id)
       (Dispatched (FarmingError Farming_BadRewardLength))) (\<lambda>_.
     sbind (on_farming_ledger (\<lambda>x. Inr (mc_unreserve (fc_ledger C) pool_currency_id who amount x))) (\<lambda>remaining.
     sbind (sensure (\<lambda>_. remaining = 0) (Dispatched (FarmingError Farming_InsufficientStake))) (\<lambda>_.
     on_pools (api_withdraw_stake (fc_fixed C) pool_currency_id who amount)))))"

definition claim :: "('a, 'x) farming_config \<Rightarrow> 'a origin \<Rightarrow> currency_id \<Rightarrow> currency_id \<Rightarrow> ('a, 'x, unit) farming_action" where
  "claim C origin pool_currency_id reward_currency_id =
     sbind (lift_dispatch (ensure_signed origin)) (\<lambda>who.
     let pool_currency_id = sort_currency pool_currency_id; pool_account_id = fc_pool_account C pool_currency_id in
     sbind (on_pools (api_withdraw_reward (fc_fixed C) pool_currency_id who reward_currency_id)) (\<lambda>reward.
     sbind (on_farming_ledger (mc_transfer (fc_ledger C) reward_currency_id pool_account_id who reward)) (\<lambda>_.
     smod (farming_deposit_event (RewardClaimed who pool_currency_id reward_currency_id reward)))))"

definition total_rewards :: "('a, 'x) farming_state \<Rightarrow> currency_id \<Rightarrow> currency_id \<Rightarrow> nat" where
  "total_rewards s pool_currency_id reward_currency_id =
     (case schedule_total (reward_schedules s (sort_currency pool_currency_id) reward_currency_id) of Some n \<Rightarrow> n | None \<Rightarrow> 0)"

end
