(* ===== verification/Farming_Properties.thy ===== *)
theory Farming_Properties
  imports Farming Reward_Accounting
begin

text \<open>
  What farming promises: the stake of every account is backed by liquidity tokens it has reserved, the hook moves rewards
  from the schedules to the pools without losing any, and what it does not promise: the schedules count on funds that have been
  distributed already.
\<close>

subsection \<open>Runs of the calls to the ledger and to the pools\<close>

lemma run_farming [run_elims]:
  "on_farming_ledger m s = Inr (r, s') \<Longrightarrow>
     (\<And>x. m (farming_ledger s) = Inr (r, x) \<Longrightarrow> s' = s\<lparr>farming_ledger := x\<rparr> \<Longrightarrow> thesis) \<Longrightarrow> thesis"
  "on_pools n s = Inr (q, s') \<Longrightarrow>
     (\<And>p. n (farming_pools s) = Inr (q, p) \<Longrightarrow> s' = s\<lparr>farming_pools := p\<rparr> \<Longrightarrow> thesis) \<Longrightarrow> thesis"
  by (auto simp: on_farming_ledger_def on_pools_def rbind_Inr_iff)

lemma run_lift_dispatch [run_elims]:
  "lift_dispatch r s = Inr (q, s') \<Longrightarrow> (r = Inr q \<Longrightarrow> s' = s \<Longrightarrow> thesis) \<Longrightarrow> thesis"
  by (auto simp: lift_dispatch_def rbind_Inr_iff)

lemma run_smod [run_elims]: "smod f s = Inr (u, s') \<Longrightarrow> (s' = f s \<Longrightarrow> thesis) \<Longrightarrow> thesis"
  by simp

lemma pools_deposit:
  assumes "fixed_laws F" and "reward_inv s" and "api_deposit_stake F p i n s = Inr (u, s')"
  shows "reward_inv s'" and "Stake s' = (Stake s)((p, i) := Stake s (p, i) + int n * accuracy F)" and "TotalRewards s' = TotalRewards s"
  using api_deposit_inv[OF assms(1,2), of p i n s'] assms(3) by (auto simp: stake_changed_def)

lemma pools_withdraw:
  assumes "fixed_laws F" and "reward_inv s" and "api_withdraw_stake F p i n s = Inr (u, s')"
  shows "reward_inv s'" and "Stake s' = (Stake s)((p, i) := Stake s (p, i) - int n * accuracy F)" and "TotalRewards s' = TotalRewards s"
  using api_withdraw_inv[OF assms(1,2), of p i n s'] assms(3) by (auto simp: stake_changed_def)

lemma pools_distribute:
  assumes "fixed_laws F" and "reward_inv s" and "api_distribute_reward F m p c n s = Inr (u, s')"
  shows "reward_inv s'" and "Stake s' = Stake s"
    and "TotalRewards s' = (TotalRewards s)(c := TotalRewards s c + int n * accuracy F)"
proof -
  obtain r where r: "to_fixed F n = Some r" and run: "distribute_reward F m p c r s = Inr ((), s')"
    using assms(3) by (auto simp: api_distribute_reward_def rbind_Inr_iff)
  have r': "r = int n * accuracy F" by (rule to_fixed_exact[OF assms(1) r])
  have "s' = s \<and> r = 0 \<or> distributed F p c r s s'" using distribute_effect[OF assms(1) run] by presburger
  then show "reward_inv s'" "Stake s' = Stake s" "TotalRewards s' = (TotalRewards s)(c := TotalRewards s c + int n * accuracy F)"
    unfolding r'[symmetric] using assms(2) distributed_inv[OF assms(2)] by (blast, auto simp: distributed_def)
qed

lemma pools_claim:
  assumes "fixed_laws F" and "reward_inv s" and "api_withdraw_reward F p i c s = Inr (n, s')"
  shows "reward_inv s'" and "Stake s' = Stake s"
proof -
  obtain r where "withdraw_reward F p i c s = Inr (r, s')" using assms(3) by (auto simp: api_withdraw_reward_def rbind_Inr_iff)
  note e = withdraw_reward_effect[OF assms(1) this]
  show "reward_inv s'" by (rule settled_inv[OF assms(2) e])
  show "Stake s' = Stake s" using e by (auto simp: settled_def)
qed

subsection \<open>Stake is reserved\<close>

definition farming_reserved :: "('a, 'x) farming_config \<Rightarrow> ('a, 'x) farming_state \<Rightarrow> currency_id \<Rightarrow> 'a \<Rightarrow> nat" where
  "farming_reserved C s = mc_reserved_balance (fc_ledger C) (farming_ledger s)"

definition farming_ok :: "('a, 'x) farming_config \<Rightarrow> ('a, 'x) farming_state \<Rightarrow> bool" where
  "farming_ok C s \<longleftrightarrow> reward_inv (farming_pools s) \<and> distinct (map fst (RewardSchedules s))
     \<and> (\<forall>p i. Stake (farming_pools s) (p, i) \<le> int (farming_reserved C s p i) * accuracy (fc_fixed C))"

definition farming_laws :: "('a, 'x) farming_config \<Rightarrow> bool" where
  "farming_laws C \<longleftrightarrow> fixed_laws (fc_fixed C) \<and> reserve_laws (fc_ledger C)"

inductive farming_step :: "('a, 'x) farming_config \<Rightarrow> ('a, 'x) farming_state \<Rightarrow> ('a, 'x) farming_state \<Rightarrow> bool" for C where
  hook: "farming_on_initialize C now s = Inr (n, s') \<Longrightarrow> farming_step C s s'"
| update: "update_reward_schedule C origin p c k a s = Inr (u, s') \<Longrightarrow> farming_step C s s'"
| remove: "remove_reward_schedule C origin p c s = Inr (u, s') \<Longrightarrow> farming_step C s s'"
| deposit: "farming_deposit C origin p l s = Inr (u, s') \<Longrightarrow> farming_step C s s'"
| withdraw: "farming_withdraw C origin p a l s = Inr (u, s') \<Longrightarrow> farming_step C s s'"
| claim_reward: "claim C origin p c s = Inr (u, s') \<Longrightarrow> farming_step C s s'"
| ledger: "(\<And>c a. mc_reserved_balance (fc_ledger C) (farming_ledger s) c a \<le> mc_reserved_balance (fc_ledger C) x c a) \<Longrightarrow>
     farming_step C s (s\<lparr>farming_ledger := x\<rparr>)"

lemma schedule_fields [simp]:
  "farming_pools (insert_schedule p c r s) = farming_pools s" "farming_ledger (insert_schedule p c r s) = farming_ledger s"
  "RewardSchedules (insert_schedule p c r s) = AList.update (p, c) r (RewardSchedules s)"
  "farming_pools (remove_schedule p c s) = farming_pools s" "farming_ledger (remove_schedule p c s) = farming_ledger s"
  "RewardSchedules (remove_schedule p c s) = AList.delete (p, c) (RewardSchedules s)"
  "farming_pools (farming_deposit_event e s) = farming_pools s" "farming_ledger (farming_deposit_event e s) = farming_ledger s"
  "RewardSchedules (farming_deposit_event e s) = RewardSchedules s"
  by (simp_all add: insert_schedule_def remove_schedule_def farming_deposit_event_def)

lemma farming_ok_cong:
  assumes "farming_ok C s" and "farming_reserved C s' = farming_reserved C s" and "reward_inv (farming_pools s')"
    and "Stake (farming_pools s') = Stake (farming_pools s)" and "distinct (map fst (RewardSchedules s'))"
  shows "farming_ok C s'"
  using assms by (simp add: farming_ok_def)

lemma reserve_lawsD:
  assumes "reserve_laws M"
  shows "mc_transfer M c a b n x = Inr (u, x') \<Longrightarrow> mc_reserved_balance M x' = mc_reserved_balance M x"
    and "mc_reserve M c a n x = Inr (u, x') \<Longrightarrow>
      mc_reserved_balance M x' = change_balance c a (mc_reserved_balance M x c a + n) (mc_reserved_balance M x)"
    and "mc_unreserve M c a n x = (0, x') \<Longrightarrow> n \<le> mc_reserved_balance M x c a
      \<and> mc_reserved_balance M x' = change_balance c a (mc_reserved_balance M x c a - n) (mc_reserved_balance M x)"
  using assms unfolding reserve_laws_def by (blast | fastforce)+

text \<open>A distribution as the hook makes it: it succeeds, or nothing is written.\<close>

lemma distribute_run:
  assumes "farming_laws C" and "reward_inv (farming_pools s)" and "try_distribute_reward C p c n s = Inr (u, s')"
  shows "s' = s\<lparr>farming_pools := farming_pools s'\<rparr>" and "reward_inv (farming_pools s')" and "Stake (farming_pools s') = Stake (farming_pools s)"
    and "TotalRewards (farming_pools s') = (TotalRewards (farming_pools s))(c := TotalRewards (farming_pools s) c + int n * accuracy (fc_fixed C))"
proof -
  obtain q where q: "api_distribute_reward (fc_fixed C) (fc_max_currencies C) p c n (farming_pools s) = Inr (u, q)" "s' = s\<lparr>farming_pools := q\<rparr>"
    using assms(3) unfolding try_distribute_reward_def by (elim run_elims)
  have F: "fixed_laws (fc_fixed C)" using assms(1) by (simp add: farming_laws_def)
  show "s' = s\<lparr>farming_pools := farming_pools s'\<rparr>" "reward_inv (farming_pools s')" "Stake (farming_pools s') = Stake (farming_pools s)"
    "TotalRewards (farming_pools s') = (TotalRewards (farming_pools s))(c := TotalRewards (farming_pools s) c + int n * accuracy (fc_fixed C))"
    using pools_distribute[OF F assms(2) q(1)] q(2) by simp_all
qed

lemma schedule_loop_cases:
  assumes "schedule_loop C (((p, c), r) # items) k s = Inr (n, s')"
  obtains (finished) "period_count r = 0" and "schedule_loop C items k (remove_schedule p c s) = Inr (n, s')"
  | (paid) s1 where "period_count r > 0" and "try_distribute_reward C p c (per_period r) s = Inr ((), s1)"
      and "schedule_loop C items (saturating_add_w 32 k 1) (farming_deposit_event (RewardDistributed p c (per_period r))
             (insert_schedule p c (r\<lparr>period_count := period_count r - 1\<rparr>) s1)) = Inr (n, s')"
  | (kept) "schedule_loop C items k s = Inr (n, s')"
  using assms by (auto simp: schedule_take_def split: if_splits sum.splits fault.splits)

lemma schedule_loop_ok:
  assumes "farming_laws C" and "schedule_loop C items k s = Inr (n, s')" and "farming_ok C s"
  shows "farming_ok C s'"
  using assms(2,3)
proof (induction items arbitrary: k s)
  case (Cons item items)
  obtain p c r where item: "item = ((p, c), r)" by (metis surj_pair)
  show ?case using Cons.prems(1) unfolding item
  proof (cases rule: schedule_loop_cases)
    case finished
    show ?thesis by (rule Cons.IH[OF finished(2) farming_ok_cong[OF Cons.prems(2)]])
      (use Cons.prems(2) in \<open>simp_all add: farming_reserved_def farming_ok_def distinct_delete\<close>)
  next
    case (paid s1)
    have "reward_inv (farming_pools s)" using Cons.prems(2) by (simp add: farming_ok_def)
    note run = distribute_run[OF assms(1) this paid(2)]
    have "farming_ledger s1 = farming_ledger s" "RewardSchedules s1 = RewardSchedules s" using run(1) by (cases s; cases s1; simp)+
    then show ?thesis using run Cons.prems(2)
      by (intro Cons.IH[OF paid(3)] farming_ok_cong[OF Cons.prems(2)]) (simp_all add: farming_reserved_def farming_ok_def distinct_update)
  next
    case kept
    then show ?thesis by (rule Cons.IH[OF _ Cons.prems(2)])
  qed
qed (simp add: farming_ok_def)

lemma farming_step_ok:
  assumes "farming_laws C" and "farming_step C s s'" and "farming_ok C s"
  shows "farming_ok C s'"
proof -
  have F: "fixed_laws (fc_fixed C)" and R: "reserve_laws (fc_ledger C)" using assms(1) by (simp_all add: farming_laws_def)
  have acc: "0 < accuracy (fc_fixed C)" using fixed_lawsD(1)[OF F] by simp
  have inv: "reward_inv (farming_pools s)" and dist: "distinct (map fst (RewardSchedules s))" using assms(3) by (simp_all add: farming_ok_def)
  show ?thesis using assms(2)
  proof cases
    case (hook now n)
    then show ?thesis using schedule_loop_ok[OF assms(1) _ assms(3)] assms(3)
      by (auto simp: farming_on_initialize_def split: if_splits)
  next
    case (update origin p c k a u)
    then obtain x where "mc_transfer (fc_ledger C) c (fc_treasury C) (fc_pool_account C (sort_currency p)) a (farming_ledger s) = Inr ((), x)"
      and "farming_ledger s' = x" "farming_pools s' = farming_pools s" "distinct (map fst (RewardSchedules s'))"
      using dist unfolding update_reward_schedule_def Let_def by (elim run_elims, hypsubst_thin) (simp add: distinct_update distinct_delete)
    then show ?thesis using reserve_lawsD(1)[OF R] inv
      by (intro farming_ok_cong[OF assms(3)]) (simp_all add: farming_reserved_def)
  next
    case (remove origin p c u)
    then obtain a x where "mc_transfer (fc_ledger C) c (fc_pool_account C (sort_currency p)) (fc_treasury C) a (farming_ledger s) = Inr ((), x)"
      and "farming_ledger s' = x" "farming_pools s' = farming_pools s" "distinct (map fst (RewardSchedules s'))"
      using dist unfolding remove_reward_schedule_def Let_def by (elim run_elims, hypsubst_thin) (simp add: distinct_update distinct_delete)
    then show ?thesis using reserve_lawsD(1)[OF R] inv
      by (intro farming_ok_cong[OF assms(3)]) (simp_all add: farming_reserved_def)
  next
    case (deposit origin p l u)
    then obtain i n x q where r: "mc_reserve (fc_ledger C) (sort_currency p) i n (farming_ledger s) = Inr ((), x)"
      and d: "api_deposit_stake (fc_fixed C) (sort_currency p) i n (farming_pools s) = Inr ((), q)"
      and s': "farming_ledger s' = x" "farming_pools s' = q" "RewardSchedules s' = RewardSchedules s"
      unfolding farming_deposit_def Let_def by (elim run_elims, hypsubst_thin) simp
    note q = pools_deposit[OF F inv d]
    show ?thesis
      using assms(3) q reserve_lawsD(2)[OF R r]
      by (auto simp: farming_ok_def farming_reserved_def s' change_balance_def algebra_simps)
  next
    case (withdraw origin p a l u)
    then obtain i x q where r: "mc_unreserve (fc_ledger C) (sort_currency p) i a (farming_ledger s) = (0, x)"
      and d: "api_withdraw_stake (fc_fixed C) (sort_currency p) i a (farming_pools s) = Inr ((), q)"
      and s': "farming_ledger s' = x" "farming_pools s' = q" "RewardSchedules s' = RewardSchedules s"
      unfolding farming_withdraw_def Let_def by (elim run_elims, hypsubst_thin) simp
    note q = pools_withdraw[OF F inv d]
    show ?thesis
      using assms(3) q reserve_lawsD(3)[OF R r]
      by (auto simp: farming_ok_def farming_reserved_def s' change_balance_def algebra_simps of_nat_diff)
  next
    case (claim_reward origin p c u)
    then obtain i n x q where r: "mc_transfer (fc_ledger C) c (fc_pool_account C (sort_currency p)) i n (farming_ledger s) = Inr ((), x)"
      and d: "api_withdraw_reward (fc_fixed C) (sort_currency p) i c (farming_pools s) = Inr (n, q)"
      and s': "farming_ledger s' = x" "farming_pools s' = q" "RewardSchedules s' = RewardSchedules s"
      unfolding claim_def Let_def by (elim run_elims, hypsubst_thin) simp
    show ?thesis using reserve_lawsD(1)[OF R r] pools_claim[OF F inv d]
      by (intro farming_ok_cong[OF assms(3)]) (simp_all add: farming_reserved_def s' dist)
  next
    case (ledger x)
    have "Stake (farming_pools s) (p, i) \<le> int (mc_reserved_balance (fc_ledger C) x p i) * accuracy (fc_fixed C)" for p i
    proof -
      have "Stake (farming_pools s) (p, i) \<le> int (farming_reserved C s p i) * accuracy (fc_fixed C)" using assms(3) by (simp add: farming_ok_def)
      also have "\<dots> \<le> int (mc_reserved_balance (fc_ledger C) x p i) * accuracy (fc_fixed C)"
        using ledger(2)[of p i] acc by (intro mult_right_mono) (simp_all add: farming_reserved_def)
      finally show ?thesis .
    qed
    then show ?thesis using inv dist ledger(1) by (simp add: farming_ok_def farming_reserved_def)
  qed
qed

subsection \<open>What the schedules promise\<close>

text \<open>The amounts of a currency that are still to be distributed, over all schedules.\<close>

definition promised_by :: "currency_id \<Rightarrow> (currency_id \<times> currency_id) \<times> reward_schedule \<Rightarrow> nat" where
  "promised_by c e = (if snd (fst e) = c then period_count (snd e) * per_period (snd e) else 0)"

definition promised :: "('a, 'x) farming_state \<Rightarrow> currency_id \<Rightarrow> nat" where
  "promised s c = sum_list (map (promised_by c) (RewardSchedules s))"

lemma sum_list_update:
  fixes f :: "'k \<times> 'v \<Rightarrow> nat"
  assumes "distinct (map fst al)" and "map_of al k = Some v"
  shows "sum_list (map f (AList.update k w al)) + f (k, v) = sum_list (map f al) + f (k, w)"
  using assms by (induction al) (auto split: if_splits)

lemma sum_list_delete:
  fixes f :: "'k \<times> 'v \<Rightarrow> nat"
  assumes "distinct (map fst al)" and "map_of al k = Some v"
  shows "sum_list (map f (AList.delete k al)) + f (k, v) = sum_list (map f al)"
  using assms
proof (induction al)
  case (Cons e al)
  show ?case
  proof (cases "fst e = k")
    case True
    then have "e = (k, v)" and "AList.delete k al = al" using Cons.prems by auto
    then show ?thesis by simp
  qed (use Cons in \<open>cases e; auto\<close>)
qed simp

text \<open>The loop of the hook, from a snapshot of the schedules that it has not changed yet.\<close>

lemma schedule_loop_conserves:
  assumes "farming_laws C" and "schedule_loop C items k s = Inr (n, s')" and "farming_ok C s" and "distinct (map fst items)"
    and "\<forall>(key, r)\<in>set items. map_of (RewardSchedules s) key = Some r"
  shows "TotalRewards (farming_pools s') c + int (promised s' c) * accuracy (fc_fixed C)
     = TotalRewards (farming_pools s) c + int (promised s c) * accuracy (fc_fixed C)"
  using assms(2-)
proof (induction items arbitrary: k s)
  case (Cons item items)
  let ?A = "accuracy (fc_fixed C)"
  obtain p d r where item: "item = ((p, d), r)" by (metis surj_pair)
  have r: "map_of (RewardSchedules s) (p, d) = Some r" using Cons.prems(4) item by simp
  have keys: "\<forall>(key, r')\<in>set items. map_of (RewardSchedules t) key = Some r'"
    if "\<And>key. key \<noteq> (p, d) \<Longrightarrow> map_of (RewardSchedules t) key = map_of (RewardSchedules s) key" for t :: "('a, 'b) farming_state"
  proof clarify
    fix a b r' assume e: "((a, b), r') \<in> set items"
    then have "(a, b) \<noteq> (p, d)" using Cons.prems(3) item by force
    then show "map_of (RewardSchedules t) (a, b) = Some r'" using that[of "(a, b)"] Cons.prems(4) e by auto
  qed
  have dist: "distinct (map fst (RewardSchedules s))" using Cons.prems(2) by (simp add: farming_ok_def)
  show ?case using Cons.prems(1) unfolding item
  proof (cases rule: schedule_loop_cases)
    case finished
    let ?t = "remove_schedule p d s"
    have "farming_ok C ?t" using Cons.prems(2) by (simp add: farming_ok_def farming_reserved_def distinct_delete distinct_update)
    then have "TotalRewards (farming_pools s') c + int (promised s' c) * ?A = TotalRewards (farming_pools ?t) c + int (promised ?t c) * ?A"
      using Cons.prems(3,4) item keys[of ?t]
      by (intro Cons.IH[OF finished(2)]) (simp_all add: distinct_delete delete_conv' )
    moreover have "promised ?t c = promised s c"
      using sum_list_delete[OF dist r, of "promised_by c"] finished(1) by (simp add: promised_def promised_by_def split: if_splits)
    ultimately show ?thesis by simp
  next
    case (paid s1)
    let ?t = "farming_deposit_event (RewardDistributed p d (per_period r)) (insert_schedule p d (r\<lparr>period_count := period_count r - 1\<rparr>) s1)"
    have "reward_inv (farming_pools s)" using Cons.prems(2) by (simp add: farming_ok_def)
    note run = distribute_run[OF assms(1) this paid(2)]
    have same: "farming_ledger s1 = farming_ledger s" "RewardSchedules s1 = RewardSchedules s"
      using run(1) by (cases s; cases s1; simp)+
    have "farming_ok C ?t" using Cons.prems(2) run(2,3) same by (simp add: farming_ok_def farming_reserved_def distinct_delete distinct_update)
    then have "TotalRewards (farming_pools s') c + int (promised s' c) * ?A = TotalRewards (farming_pools ?t) c + int (promised ?t c) * ?A"
      using Cons.prems(3,4) item keys[of ?t] same
      by (intro Cons.IH[OF paid(3)]) (simp_all add: distinct_update update_conv')
    moreover have "promised s c = promised ?t c + (if d = c then per_period r else 0)"
      using sum_list_update[OF dist r, of "promised_by c" "r\<lparr>period_count := period_count r - 1\<rparr>"] paid(1) same
      by (cases "period_count r") (auto simp: promised_def promised_by_def)
    ultimately show ?thesis using run(4) by (simp add: algebra_simps)
  next
    case kept
    show ?thesis using Cons.prems(2-) item by (intro Cons.IH[OF kept]) auto
  qed
qed (simp add: farming_ok_def)

definition new_farm :: "('a, 'x) farming_state \<Rightarrow> bool" where
  "new_farm s \<longleftrightarrow> RewardSchedules s = [] \<and> farming_pools s = empty_pool"

lemma farming_run_ok:
  assumes "farming_laws C" and "new_farm s" and "(farming_step C)\<^sup>*\<^sup>* s s'"
  shows "farming_ok C s'"
  using assms(3)
proof (induction rule: rtranclp_induct)
  case base
  have "0 < accuracy (fc_fixed C)" using assms(1) fixed_lawsD(1)[of "fc_fixed C"] by (simp add: farming_laws_def)
  then show ?case using assms(2) empty_pool_inv by (simp add: new_farm_def farming_ok_def empty_pool_def)
qed (rule farming_step_ok[OF assms(1)])

subsection \<open>A sample farm\<close>

definition reserving_table :: "(nat, currency_id, (nat, currency_id) table \<times> (currency_id \<Rightarrow> nat \<Rightarrow> nat)) reservable_currency" where
  "reserving_table =
     \<lparr>mc_free_balance = (\<lambda>x. fst (fst x)), mc_total_issuance = (\<lambda>x. snd (fst x)),
      mc_transfer = (\<lambda>c a b n. szoom fst (\<lambda>t x. (t, snd x)) (mc_transfer table_currency c a b n)),
      mc_deposit = (\<lambda>c a n. szoom fst (\<lambda>t x. (t, snd x)) (mc_deposit table_currency c a n)),
      mc_withdraw = (\<lambda>c a n. szoom fst (\<lambda>t x. (t, snd x)) (mc_withdraw table_currency c a n)),
      mc_reserved_balance = snd,
      mc_reserve = (\<lambda>c a n ((f, t), r).
        if n \<le> f c a then Inr ((), ((change_balance c a (f c a - n) f, t), change_balance c a (r c a + n) r))
        else Inl (Err BalanceTooLow)),
      mc_unreserve = (\<lambda>c a n ((f, t), r).
        (n - r c a, ((change_balance c a (f c a + min n (r c a)) f, t), change_balance c a (r c a - n) r)))\<rparr>"

lemma reserving_table_laws: "reserve_laws reserving_table"
proof -
  have table: "mc_free_balance table_currency = fst" by (simp add: table_currency_def)
  { fix c a b n x u x'
    assume "mc_transfer reserving_table c a b n x = Inr (u, x')"
    then obtain t where t: "mc_transfer table_currency c a b n (fst x) = Inr (u, t)" "x' = (t, snd x)"
      by (auto simp: reserving_table_def rbind_Inr_iff)
    note moved = mc_transferD(1,2)[OF table_currency_laws t(1)]
    have "(a \<noteq> b \<longrightarrow> n \<le> mc_free_balance reserving_table x c a)
        \<and> mc_free_balance reserving_table x' = balances_moved c a b n (mc_free_balance reserving_table x)
        \<and> mc_reserved_balance reserving_table x' = mc_reserved_balance reserving_table x"
      using moved by (simp add: reserving_table_def table t(2)) }
  moreover have "n \<le> mc_free_balance reserving_table x c a
        \<and> mc_free_balance reserving_table x' = change_balance c a (mc_free_balance reserving_table x c a - n) (mc_free_balance reserving_table x)
        \<and> mc_reserved_balance reserving_table x' = change_balance c a (mc_reserved_balance reserving_table x c a + n) (mc_reserved_balance reserving_table x)"
    if "mc_reserve reserving_table c a n x = Inr (u, x')" for c a n x u x'
    using that by (cases x) (auto simp: reserving_table_def split: if_splits)
  moreover have "r = n - mc_reserved_balance reserving_table x c a
        \<and> mc_free_balance reserving_table x' = change_balance c a (mc_free_balance reserving_table x c a + (n - r)) (mc_free_balance reserving_table x)
        \<and> mc_reserved_balance reserving_table x' = change_balance c a (mc_reserved_balance reserving_table x c a - (n - r)) (mc_reserved_balance reserving_table x)"
    if "mc_unreserve reserving_table c a n x = (r, x')" for c a n x r x'
    using that by (cases x; cases "n \<le> snd x c a") (auto simp: reserving_table_def min_def)
  ultimately show ?thesis unfolding reserve_laws_def by blast
qed

definition sample_farming :: "(nat, (nat, currency_id) table \<times> (currency_id \<Rightarrow> nat \<Rightarrow> nat)) farming_config" where
  "sample_farming = \<lparr>fc_ledger = reserving_table, fc_fixed = decimal_fixed, fc_max_currencies = 5, fc_treasury = 9,
     fc_reward_period = 5, fc_pool_account = \<lambda>_. 100\<rparr>"

lemma sample_farming_laws: "farming_laws sample_farming"
  by (simp add: farming_laws_def sample_farming_def reserving_table_laws decimal_laws)

abbreviation sample_lp :: currency_id where
  "sample_lp \<equiv> LpToken (Lp_Token DOT) (Lp_Token IBTC)"

definition sample_farm :: "(nat, (nat, currency_id) table \<times> (currency_id \<Rightarrow> nat \<Rightarrow> nat)) farming_state" where
  "sample_farm = \<lparr>RewardSchedules = [], farming_pools = empty_pool,
     farming_ledger = ((\<lambda>c a. if c = sample_lp \<and> a = 1 then 3 else if c = Token INTR \<and> a = 9 then 30 else 0, \<lambda>_. 33), \<lambda>_ _. 0),
     farming_events = []\<rparr>"

definition run_of :: "('a, 'x) farming_state \<Rightarrow> ('a, 'x, 'r) farming_action \<Rightarrow> ('a, 'x) farming_state" where
  "run_of s m = (case m s of Inr (_, s') \<Rightarrow> s' | Inl _ \<Rightarrow> s)"

definition staked_farm :: "(nat, (nat, currency_id) table \<times> (currency_id \<Rightarrow> nat \<Rightarrow> nat)) farming_state" where
  "staked_farm = run_of sample_farm (farming_deposit sample_farming (SignedOrigin 1) sample_lp 5)"

definition funded_farm :: "(nat, (nat, currency_id) table \<times> (currency_id \<Rightarrow> nat \<Rightarrow> nat)) farming_state" where
  "funded_farm = run_of staked_farm (update_reward_schedule sample_farming RootOrigin sample_lp (Token INTR) 3 30)"

definition paid_farm :: "(nat, (nat, currency_id) table \<times> (currency_id \<Rightarrow> nat \<Rightarrow> nat)) farming_state" where
  "paid_farm = run_of funded_farm (farming_on_initialize sample_farming 10)"

lemmas sample_farm_eval = Let_def staked_farm_def funded_farm_def paid_farm_def run_of_def sample_farm_def sample_farming_def reserving_table_def
  table_currency_def change_balance_def farming_deposit_def update_reward_schedule_def farming_on_initialize_def lift_dispatch_def
  on_farming_ledger_def on_pools_def farming_free_balance_def try_distribute_reward_def schedule_take_def insert_schedule_def
  reward_schedules_def farming_deposit_event_def api_reward_currencies_len_def api_distribute_reward_def api_deposit_stake_def
  deposit_stake_def checked_add_mut_def to_fixed_def decimal_fixed_def in_i128_def deposit_reward_event_def distribute_reward_def
  try_insert_def empty_pool_def checked_add_w_def checked_div_def less_lp_token_def saturating_add_w_def

lemma sample_farm_runs:
  "farming_deposit sample_farming (SignedOrigin 1) sample_lp 5 sample_farm = Inr ((), staked_farm)"
  "update_reward_schedule sample_farming RootOrigin sample_lp (Token INTR) 3 30 staked_farm = Inr ((), funded_farm)"
  "farming_on_initialize sample_farming 10 funded_farm = Inr (1, paid_farm)"
  by (simp_all add: sample_farm_eval)

lemma sample_farm_reached:
  "new_farm sample_farm" "(farming_step sample_farming)\<^sup>*\<^sup>* sample_farm staked_farm"
  "(farming_step sample_farming)\<^sup>*\<^sup>* sample_farm funded_farm"
proof -
  show "new_farm sample_farm" by (simp add: new_farm_def sample_farm_def)
  show staked: "(farming_step sample_farming)\<^sup>*\<^sup>* sample_farm staked_farm"
    by (rule r_into_rtranclp[where r = "farming_step sample_farming", OF farming_step.deposit[OF sample_farm_runs(1)]])
  show "(farming_step sample_farming)\<^sup>*\<^sup>* sample_farm funded_farm"
    by (rule rtranclp.rtrancl_into_rtrancl[where r = "farming_step sample_farming", OF staked farming_step.update[OF sample_farm_runs(2)]])
qed

subsection \<open>Properties\<close>

text \<open>
  C21: Stake is backed by reserved tokens. After any run of the calls and the hook from an empty farm, the stake of every account in
  the pool of a liquidity token is at most what the account has reserved of that token, as long as nothing else takes
  from reserved balances: nobody earns rewards with tokens that can be spent.
\<close>

theorem stake_is_reserved:
  assumes "farming_laws C" and "new_farm s0" and "(farming_step C)\<^sup>*\<^sup>* s0 s"
  shows "Stake (farming_pools s) (p, i) \<le> int (mc_reserved_balance (fc_ledger C) (farming_ledger s) p i) * accuracy (fc_fixed C)"
  using farming_run_ok[OF assms] by (simp add: farming_ok_def farming_reserved_def)

theorem stake_is_reserved_witness:
  "0 < Stake (farming_pools staked_farm) (sample_lp, 1)
   \<and> Stake (farming_pools staked_farm) (sample_lp, 1) \<le> int (mc_reserved_balance reserving_table (farming_ledger staked_farm) sample_lp 1) * 10 ^ 18"
  using stake_is_reserved[OF sample_farming_laws sample_farm_reached(1,2), of sample_lp 1]
  by (simp add: sample_farming_def decimal_fixed_def) (simp add: sample_farm_eval)

text \<open>
  C22: The hook loses no rewards. At every block of any run, what the hook adds to the rewards of the pools in a currency is
  exactly what it takes off the amounts the schedules still have to distribute in it: a period in which a distribution fails,
  because nobody has staked, is not used up, and a schedule is dropped only when nothing is left of it.
\<close>

theorem hook_conserves_rewards:
  assumes "farming_laws C" and "new_farm s0" and "(farming_step C)\<^sup>*\<^sup>* s0 s" and "farming_on_initialize C now s = Inr (n, s')"
  shows "TotalRewards (farming_pools s') c + int (promised s' c) * accuracy (fc_fixed C)
     = TotalRewards (farming_pools s) c + int (promised s c) * accuracy (fc_fixed C)"
proof -
  have ok: "farming_ok C s" by (rule farming_run_ok[OF assms(1-3)])
  then have "distinct (map fst (RewardSchedules s))" by (simp add: farming_ok_def)
  then show ?thesis
    using assms(4) schedule_loop_conserves[OF assms(1) _ ok, of "RewardSchedules s" 0 n s' c]
    by (auto simp: farming_on_initialize_def split: if_splits)
qed

theorem hook_conserves_rewards_witness:
  "promised paid_farm (Token INTR) = 20 \<and> TotalRewards (farming_pools paid_farm) (Token INTR) + 20 * 10 ^ 18 = 30 * 10 ^ 18"
proof -
  have "promised paid_farm (Token INTR) = 20" "promised funded_farm (Token INTR) = 30" "TotalRewards (farming_pools funded_farm) (Token INTR) = 0"
    by (simp_all add: promised_def promised_by_def sample_farm_eval)
  then show ?thesis
    using hook_conserves_rewards[OF sample_farming_laws sample_farm_reached(1,3) sample_farm_runs(3), of "Token INTR"]
    by (simp add: sample_farming_def decimal_fixed_def)
qed



end
