(* ===== verification/Spec2Isabelle.thy ===== *)
theory Spec2Isabelle
  imports Bitcoin_Codec Bitcoin_Merkle_Codec Security BTC_Relay_Verify BTC_Relay_Store Reward_Properties Staking_Properties Bridge_Samples Dex_Results
    Stable_Results Oracle_Properties Farming_Properties
begin

text \<open>
  A verification development for interBTC, the parachain that backs wrapped Bitcoin with collateral.

  \<^bold>\<open>The program.\<close> The repository is a set of Substrate pallets under \<^verbatim>\<open>src/crates\<close> and a runtime that puts
  them together. Vaults lock collateral, users issue wrapped Bitcoin by paying a vault on Bitcoin, and
  redeem it by burning tokens against a payment of the vault. Everything rests on the BTC-Relay, a
  Bitcoin light client: relayers submit block headers, and payments are proved against stored headers
  with Merkle proofs. The Bitcoin crate parses and formats the Bitcoin data structures and checks the
  proofs. The issue, redeem and replace pallets hold the requests and call the vault registry, which counts
  the tokens of every vault (to be issued, issued, to be redeemed) and watches their collateral; the collateral lies in the
  staking pallet and shares rewards through the reward pools; the fee pallet sets the rates and passes fees
  on; the currency pallet is the arithmetic of amounts that all of them use.

  \<^bold>\<open>The theories.\<close>
  \<^item> \<open>Prelude\<close>: results, panics and diverging loops as values, computations over a storage, checked and
    saturating arithmetic, slices.
  \<^item> \<open>Bitcoin_Types\<close>, \<open>Bitcoin_Writer\<close>, \<open>Bitcoin_Compact\<close>, \<open>Bitcoin_Script\<close>, \<open>Bitcoin_Formatter\<close>,
    \<open>Bitcoin_Parser\<close>, \<open>Bitcoin_Codec\<close>: \<^verbatim>\<open>crates/bitcoin/src\<close>. Types of \<^verbatim>\<open>types.rs\<close>, the writers and
    formatters of \<^verbatim>\<open>formatter.rs\<close> (a locale states what a writer promises and is interpreted on both
    writers of the source), compact targets and retargeting (\<^verbatim>\<open>math.rs\<close>, \<^verbatim>\<open>pow.rs\<close>), scripts and addresses
    (\<^verbatim>\<open>script.rs\<close>, \<^verbatim>\<open>address.rs\<close>), the parser (\<^verbatim>\<open>parser.rs\<close>). The properties are round trips of every
    format, the bijection between addresses and standard scripts, the accuracy of compact targets and of
    the retarget computation, and the agreement of bounded and unbounded transaction identifiers.
  \<^item> \<open>Bitcoin_Merkle\<close>, \<open>Bitcoin_Merkle_Codec\<close>: \<^verbatim>\<open>merkle.rs\<close>. Proofs that are built are accepted, accepted
    proofs name a transaction of the block, and the wire format round-trips.
  \<^item> \<open>Security\<close>: \<^verbatim>\<open>crates/security/src/lib.rs\<close>. Block counting and unique nonces.
  \<^item> \<open>BTC_Relay\<close>, \<open>BTC_Relay_Verify\<close>, \<open>BTC_Relay_Order\<close>: \<^verbatim>\<open>crates/btc-relay/src\<close>. All operations on the
    stored chains, the exact conditions under which headers, transactions and payments are accepted and
    requests expire, and the order of the forks.
  \<^item> \<open>BTC_Relay_Chain\<close>, \<open>BTC_Relay_Reorg\<close>, \<open>BTC_Relay_Swap\<close>, \<open>BTC_Relay_Invariant\<close>, \<open>BTC_Relay_Store\<close>: the
    invariant of the relay's storage. The stored headers form a forest of chains with a consistent index
    (\<open>forest\<close>); adding a block and moving the path from a fork to the main chain keep it. The properties
    of \<open>BTC_Relay_Store\<close> state it for \<^verbatim>\<open>initialize\<close> and \<^verbatim>\<open>store_block_header\<close>: the invariant is
    established and kept on every branch, headers are stored exactly when the guards hold, the main chain
    is a hash chain that ends in the best block, and a fork replaces it only with enough confirmations.
  \<^item> \<open>Fixed_Point\<close>, \<open>Reward\<close>, \<open>Reward_Accounting\<close>, \<open>Reward_Properties\<close>: \<^verbatim>\<open>crates/reward/src/lib.rs\<close>, the pools that share
    rewards in proportion to stake. The total stake is the sum of the stakes in every reachable state; distributing,
    withdrawing and changing stakes keep what is owed up to the rounding of the fixed-point numbers. The
    arithmetic is a parameter with its laws in \<open>Fixed_Point\<close>.
  \<^item> \<open>Dispatch\<close>: identifiers of vaults, the errors of the pallets and the origins of calls.
  \<^item> \<open>Staking\<close>, \<open>Staking_Accounting\<close>, \<open>Staking_Properties\<close>: \<^verbatim>\<open>crates/staking/src/lib.rs\<close>, the collateral of vaults and
    nominators with slashing and forced refunds.
  \<^item> \<open>Currency\<close>: \<^verbatim>\<open>crates/currency/src\<close>, amounts with a currency, their checked operations and their movements on the ledger.
  \<^item> \<open>Vault_Types\<close>, \<open>Vault_Pool\<close>, \<open>Vault_Registry\<close>: \<^verbatim>\<open>crates/vault-registry/src\<close> and \<^verbatim>\<open>crates/nomination/src/lib.rs\<close>. The record
    \<open>registry\<close> is the storage of both pallets and, in the field \<open>world\<close>, the state of the pallets they call. A rich vault of
    the source is the value of the vault, which \<open>update\<close> writes back.
  \<^item> \<open>Vault_View\<close>, \<open>Vault_Tokens\<close>, \<open>Vault_Refinement\<close>, \<open>Vault_Simulation\<close>, \<open>Vault_Liquidation\<close>, \<open>Vault_Properties\<close>,
    \<open>Vault_Samples\<close>: the registry refines an abstract machine. \<open>vault_step\<close> lists the operations with the token operation each
    performs; \<open>spec_step\<close> is the machine that only keeps three totals per currency pair; every operation simulates its step.
    The invariant on the token counts follows from the same simulation.
  \<^item> \<open>Fee\<close>: \<^verbatim>\<open>crates/fee/src/lib.rs\<close>. \<open>Bridge\<close>, \<open>Issue\<close>, \<open>Redeem\<close>, \<open>Replace\<close>: the pallets \<^verbatim>\<open>crates/issue\<close>, \<^verbatim>\<open>crates/redeem\<close> and
    \<^verbatim>\<open>crates/replace\<close> over the record \<open>bridge\<close>, their storage on top of the registry.
  \<^item> \<open>Bridge_Supply\<close>, \<open>Bridge_Books\<close>, \<open>Bridge_Calls\<close>, \<open>Bridge_Issue\<close>, \<open>Bridge_Redeem\<close>, \<open>Bridge_Replace\<close>, \<open>Bridge_Balance\<close>,
    \<open>Bridge_Samples\<close>: the bridge as a whole. Every call posts to the totals of the registry and to the supply of the wrapped
    currency (\<open>books\<close>); a call that posts nothing is \<open>quiet\<close>, and quietness composes along the call. \<open>bridge_ok\<close> says that the totals are
    what the pending requests ask for and that the supply is backed. Every dispatchable keeps it and moves the requests along their
    life cycle (\<open>advances\<close>), so the properties of \<open>Bridge_Balance\<close> hold after every run (\<open>bridge_run\<close>).
  \<^item> \<open>Multi_Currency\<close>: the ledger behind the trait \<^verbatim>\<open>MultiCurrency\<close> with its laws and a table that satisfies them,
    and ordered maps. \<open>Dex_General\<close>, \<open>Dex_Bootstrap\<close>: the constant-product exchange (\<^verbatim>\<open>dex-general\<close>), its
    prices, liquidity and swaps, and the bootstrap of a pair with all dispatchables. \<open>Dex_General_Properties\<close>
    bounds the quotes; \<open>Dex_Swap\<close> states what the pricing loops promise to the loop that moves the funds (locale
    \<open>route_pricing\<close>, interpreted on both loops); \<open>Dex_Liquidity\<close> and \<open>Dex_Books\<close> treat liquidity and the books
    of a bootstrap, \<open>dex_step\<close> being any call; \<open>Dex_Samples\<close>, \<open>Dex_Results\<close> hold the sample exchange and the
    properties.

  \<^item> \<open>Stable_Pool\<close>, \<open>Stable_Base\<close>, \<open>Stable_Meta\<close>, \<open>Stable_Calls\<close>, \<open>Stable_Exchange\<close>: the stable-swap exchange
    (\<^verbatim>\<open>dex-stable\<close>): the numerics of \<^verbatim>\<open>utils.rs\<close>, base pools (\<^verbatim>\<open>base_pool.rs\<close>), meta pools on the liquidity token of
    another pool (\<^verbatim>\<open>meta_pool.rs\<close>), the dispatchables (\<^verbatim>\<open>lib.rs\<close>) and the queries. A pool is read, worked on as a copy
    and written back (\<open>mutate_pool\<close>), also when a meta pool calls the exchange for its base pool meanwhile.
  \<^item> \<open>Stable_Newton\<close>: the loop that solves the quadratic of the curve is Newton's iteration with truncation; its
    steps halve, so it ends within 131 of the 255 iterations, at the root up to one unit. \<open>Stable_Reserves\<close>,
    \<open>Stable_Meta_Reserves\<close>: what every operation moves on the ledger (\<open>shifts\<close>) and books (\<open>books\<close>). \<open>Stable_Books\<close>: the
    invariant \<open>exchange_ok\<close> and the locale \<open>pool_operation\<close>, what an operation on a stored pool promises, interpreted on
    the operations. \<open>Stable_Underlying\<close>: the swap of a meta pool through its base pool. \<open>Stable_Steps\<close>: every call keeps the
    invariant. \<open>Stable_Views\<close>: the queries. \<open>Stable_Results\<close>: a sample exchange and the properties.

  \<^item> \<open>Oracle\<close>, \<open>Oracle_Properties\<close>: the oracle pallet (\<^verbatim>\<open>oracle\<close>), which feeds the conversion of amounts: values,
    aggregation at the start of a block, conversion. \<open>oracle_ok\<close> says of every key that is neither flagged nor outdated
    that its aggregate is up to date, every step keeps it, so after the hook all aggregates are medians (\<open>agreed\<close>).

  \<^item> \<open>Currency_Id\<close>: the identifiers of currencies (\<^verbatim>\<open>primitives\<close>) with their order. \<open>Farming\<close>, \<open>Farming_Properties\<close>: the
    farming pallet (\<^verbatim>\<open>farming\<close>) over the model of the reward pools and a ledger with reservations. \<open>farming_ok\<close> says that stake is
    reserved; \<open>promised\<close> is what the schedules still have to distribute, which the hook moves to the pools without loss.

  \<^bold>\<open>Conventions.\<close> Hash functions, elliptic-curve operations and the token ledger are code outside the
  repository; they are arguments of the definitions that use them. Integers on the wire are words;
  heights, positions and balances are natural numbers with the width of each operation written out. The
  length of a buffer is assumed to be below \<open>2 ^ 64\<close> where the round trips say so. The recursion of the
  Merkle traversals is structural on the height, which is at most 31. The loops of the relay that
  follow stored links get one iteration per height or position, and running out of iterations is the
  separate value \<open>Inl Diverge\<close>.

  The runs of the bridge take three things from outside: the ledger and the reward pallets change the supply of the
  wrapped currency only by minting and burning (\<open>supply_laws\<close>, which the sample configuration satisfies), a fresh request
  identifier is not in use, and the other pallets do not mint or burn the wrapped currency. A call whose error the
  source drops is taken to change nothing when it fails.

  The runs of the stable exchange rely on its configuration (\<open>sound_config\<close>): the ledger obeys its laws, pools have
  different accounts, and accepted lists of currencies have no duplicates. The rest of the chain takes nothing from the
  accounts of pools, and these do not sign calls. The recursion of the virtual prices gets one level per pool and one more.

  \<^bold>\<open>Not modelled.\<close> Weights, benchmarks, migrations, genesis, RPC and serialisation derives; the off-chain worker of the vault
  registry; the swap router, which chains calls to the two exchanges; the lending market, escrow, annuity, supply,
  democracy, collator selection, client releases, paused calls and the payment adapter, of which the modelled pallets use nothing
  but what is a parameter here; the runtimes and the node.
\<close>

end
